(* ===== verification/Prelude.thy ===== *)
theory Prelude
  imports Main "HOL-Library.Word" "HOL-Library.Monad_Syntax"
begin

unbundle bit_operations_syntax

text \<open>
  Shared vocabulary of the development.

  \<^item> C integer types as words: \<open>u8\<close> (\<open>unsigned char\<close>, and \<open>char\<close>, which is unsigned on
    RISC-V), \<open>u32\<close> (\<open>unsigned int\<close>, \<open>uint32_t\<close>), \<open>u64\<close> (\<open>unsigned long\<close>, \<open>size_t\<close>).
    Status codes of type \<open>int\<close> are HOL integers, since the code only compares and returns them.
  \<^item> A C call is a function into \<open>option\<close>, written with \<open>do\<close> notation and explicit state
    passing. \<open>None\<close> means that the call has no defined result: it reads or writes outside an
    object, follows a null pointer, divides by zero or never returns. Error returns of the
    code are ordinary values.
  \<^item> Byte buffers are lists; \<open>read_at\<close> and \<open>write_at\<close> are the bounds-checked accesses.
\<close>

type_synonym u8 = "8 word"
type_synonym u16 = "16 word"
type_synonym u32 = "32 word"
type_synonym u64 = "64 word"

named_theorems align_simps \<open>arithmetic reading of the ALIGN macros\<close>
named_theorems buffer_simps \<open>bounds-checked buffer accesses\<close>

section \<open>Error numbers\<close>

abbreviation (input) EBUSY :: int where "EBUSY \<equiv> 16"
abbreviation (input) EINVAL :: int where "EINVAL \<equiv> 22"
abbreviation (input) ENOMEM :: int where "ENOMEM \<equiv> 12"

section \<open>Counters\<close>

lemma unat_countdown: "x - 1 > 0 \<Longrightarrow> unat (x - 1 - 1 :: 'a::len word) < unat (x - 1)"
  using unat_minus_one [of "x - 1"] by (simp add: word_gt_0 unat_gt_0)

section \<open>Buffers\<close>

definition read_at :: "nat \<Rightarrow> nat \<Rightarrow> 'a list \<Rightarrow> 'a list option" where
  "read_at off n buf = (if off + n \<le> length buf then Some (take n (drop off buf)) else None)"

definition write_at :: "nat \<Rightarrow> 'a list \<Rightarrow> 'a list \<Rightarrow> 'a list option" where
  "write_at off bs buf =
     (if off + length bs \<le> length buf
      then Some (take off buf @ bs @ drop (off + length bs) buf) else None)"

definition overlay :: "'a list \<Rightarrow> 'a list \<Rightarrow> 'a list" where
  "overlay new old = take (length old) new @ drop (length new) old"

lemma length_overlay [simp]: "length (overlay new old) = length old"
  by (auto simp: overlay_def)

lemma overlay_full [simp]: "length new = length old \<Longrightarrow> overlay new old = new"
  by (simp add: overlay_def)

lemma overlay_Nil [simp]: "overlay [] old = old"
  by (simp add: overlay_def)

lemma overlay_zero [simp]: "overlay new [] = []"
  by (simp add: overlay_def)

lemma read_at_Some [buffer_simps]:
  "read_at off n buf = Some bs \<longleftrightarrow> off + n \<le> length buf \<and> bs = take n (drop off buf)"
  by (auto simp: read_at_def)

lemma write_at_Some [buffer_simps]:
  "write_at off bs buf = Some buf' \<longleftrightarrow>
     off + length bs \<le> length buf \<and> buf' = take off buf @ bs @ drop (off + length bs) buf"
  by (auto simp: write_at_def)

lemma write_at_length: "write_at off bs buf = Some buf' \<Longrightarrow> length buf' = length buf"
  by (auto simp: write_at_Some)

lemma write_at_take: "write_at off bs buf = Some buf' \<Longrightarrow> take off buf' = take off buf"
  by (auto simp: write_at_Some)

section \<open>Address bytes\<close>

text \<open>Storing \<open>addr >> n\<close> in an \<open>unsigned char\<close> keeps the low eight bits.\<close>

definition byte_of :: "nat \<Rightarrow> u32 \<Rightarrow> u8" where
  "byte_of n addr = ucast (drop_bit n addr)"

definition addr3 :: "u32 \<Rightarrow> u8 list" where
  "addr3 addr = [byte_of 16 addr, byte_of 8 addr, ucast (addr AND 0xFF)]"

definition addr4 :: "u32 \<Rightarrow> u8 list" where
  "addr4 addr = [byte_of 24 addr, byte_of 16 addr, byte_of 8 addr, ucast (addr AND 0xFF)]"

lemma length_addr3 [simp]: "length (addr3 a) = 3"
  by (simp add: addr3_def)

lemma length_addr4 [simp]: "length (addr4 a) = 4"
  by (simp add: addr4_def)

lemma and_ff [simp]: "(0xFF :: u8) AND x = x" "x AND (0xFF :: u8) = x"
proof -
  have "(0xFF :: u8) = - 1" by simp
  then show "(0xFF :: u8) AND x = x" "x AND (0xFF :: u8) = x" by (simp_all only: and.left_neutral and.right_neutral)
qed

section \<open>Alignment\<close>

definition ALIGN :: "'a::len word \<Rightarrow> 'a word \<Rightarrow> 'a word" where
  "ALIGN x a = (x + (a - 1)) AND NOT (a - 1)"

definition ALIGN_DOWN :: "'a::len word \<Rightarrow> 'a word \<Rightarrow> 'a word" where
  "ALIGN_DOWN x a = ALIGN (x - (a - 1)) a"

lemma and_not_mask_eq: "x AND NOT (mask n) = x - take_bit n (x :: 'a::len word)"
proof -
  have "take_bit n x + (x AND NOT (mask n)) = take_bit n x OR (x AND NOT (mask n))"
    by (rule disjunctive_add_eq_or) (auto simp: bit_eq_iff bit_simps)
  also have "\<dots> = x"
    by (auto simp: bit_eq_iff bit_simps)
  finally show ?thesis by (simp add: algebra_simps)
qed

lemma ALIGN_pow2: "ALIGN x (2 ^ n) = (x + (2 ^ n - 1)) - take_bit n (x + (2 ^ n - 1) :: 'a::len word)"
  by (simp add: ALIGN_def and_not_mask_eq flip: mask_eq_exp_minus_1)

lemma ALIGN_DOWN_pow2 [align_simps]:
  "ALIGN_DOWN x (2 ^ n) = x - take_bit n (x :: 'a::len word)"
  by (simp add: ALIGN_DOWN_def ALIGN_pow2)

lemma unat_take_bit: "unat (take_bit n (x :: 'a::len word)) = unat x mod 2 ^ n"
  by (simp only: unsigned_take_bit_eq) (simp add: take_bit_eq_mod)

lemma take_bit_le_self: "take_bit n x \<le> (x :: 'a::len word)"
  by (simp add: word_le_nat_alt unat_take_bit)

lemma unat_ALIGN_DOWN [align_simps]:
  "unat (ALIGN_DOWN x (2 ^ n) :: 'a::len word) = unat x - unat x mod 2 ^ n"
  using take_bit_le_self [of n x]
  by (simp add: ALIGN_DOWN_pow2 unat_sub unat_take_bit)

text \<open>
  The distance from an address to the next multiple of \<open>2 ^ n\<close> above it, computed by the code
  as \<open>ALIGN (x + 1) (2 ^ n) - x\<close>, is \<open>2 ^ n - x mod 2 ^ n\<close> even where the sum wraps around.
\<close>

lemma unat_two_power: "n < LENGTH('a) \<Longrightarrow> unat (2 ^ n :: 'a::len word) = 2 ^ n"
  using uint_2p [of n, where 'a = 'a] by (simp add: unat_eq_nat_uint word_gt_0)

lemma take_bit_add_exp: "take_bit n (x + 2 ^ n) = take_bit n (x :: 'a::len word)"
proof (cases "n < LENGTH('a)")
  case True
  then have "(2 :: nat) ^ n dvd 2 ^ LENGTH('a)"
    by (simp add: le_imp_power_dvd)
  with True have "unat (take_bit n (x + 2 ^ n)) = unat (take_bit n x)"
    by (simp add: unat_take_bit unat_word_ariths unat_two_power mod_mod_cancel)
  then show ?thesis by (simp only: word_unat_eq_iff)
next
  case False
  then have z: "(2 :: 'a word) ^ n = 0"
    by (intro bit_word_eqI) (auto simp: bit_simps)
  show ?thesis by (simp only: z add_0_right)
qed

lemma ALIGN_next_diff:
  "ALIGN (x + 1) (2 ^ n) - x = 2 ^ n - take_bit n (x :: 'a::len word)"
  using take_bit_add_exp [of n x] by (simp add: ALIGN_pow2 algebra_simps)

lemma unat_ALIGN_next_diff [align_simps]:
  assumes "n < LENGTH('a)"
  shows "unat (ALIGN (x + 1) (2 ^ n) - x :: 'a::len word) = 2 ^ n - unat x mod 2 ^ n"
proof -
  have "take_bit n x \<le> 2 ^ n"
    using assms by (simp add: word_le_nat_alt unat_take_bit unat_two_power less_imp_le)
  with assms show ?thesis
    by (simp add: ALIGN_next_diff unat_sub unat_take_bit unat_two_power)
qed

section \<open>Fields of a word\<close>

definition put_field :: "nat \<Rightarrow> nat \<Rightarrow> u32 \<Rightarrow> u32 \<Rightarrow> u32" where
  "put_field sh w v r = r AND NOT (push_bit sh (mask w)) OR push_bit sh v"

definition get_field :: "nat \<Rightarrow> nat \<Rightarrow> u32 \<Rightarrow> u32" where
  "get_field sh w r = drop_bit sh r AND mask w"

lemma fits_bit: "v AND mask w = v \<Longrightarrow> bit v n \<Longrightarrow> n < w" for v :: u32
  by (metis bit_and_iff bit_mask_iff)

lemma get_put_field:
  assumes "v AND mask w = v" "sh + w \<le> 32"
  shows "get_field sh w (put_field sh w v r) = v"
proof (rule bit_word_eqI)
  fix n assume n: "n < LENGTH(32)"
  show "bit (get_field sh w (put_field sh w v r)) n = bit v n"
    using n assms(2) fits_bit [OF assms(1), of n] by (auto simp: get_field_def put_field_def bit_simps)
qed

lemma get_put_other:
  assumes "v AND mask w = v" "sh' + w' \<le> sh \<or> sh + w \<le> sh'"
  shows "get_field sh' w' (put_field sh w v r) = get_field sh' w' r"
proof (rule bit_word_eqI)
  fix n assume n: "n < LENGTH(32)"
  have l: "bit r (sh' + n) \<Longrightarrow> sh' + n < 32" using bit_imp_le_length [of r "sh' + n"] by simp
  have v: "bit v (sh' + n - sh) \<Longrightarrow> sh' + n - sh < w" using fits_bit [OF assms(1)] .
  show "bit (get_field sh' w' (put_field sh w v r)) n = bit (get_field sh' w' r) n"
    using n assms(2) l v by (auto simp: get_field_def put_field_def bit_simps)
qed

section \<open>Parts of a state\<close>

text \<open>Code that works on a part of a larger state, which \<open>get\<close> reads and \<open>put\<close> replaces.\<close>

definition through :: "('s \<Rightarrow> 'p) \<Rightarrow> ('p \<Rightarrow> 's \<Rightarrow> 's) \<Rightarrow> ('p \<Rightarrow> 'a \<times> 'p) \<Rightarrow> 's \<Rightarrow> 'a \<times> 's" where
  "through get put f s = (let (r, p) = f (get s) in (r, put p s))"

definition over :: "('s \<Rightarrow> 'p) \<Rightarrow> ('p \<Rightarrow> 's \<Rightarrow> 's) \<Rightarrow> ('p \<Rightarrow> 'p) \<Rightarrow> 's \<Rightarrow> 's" where
  "over get put f s = put (f (get s)) s"

lemma through_id [simp]: "through id (\<lambda>p _. p) f = f" "over id (\<lambda>p _. p) g = g"
  by (simp_all add: through_def over_def fun_eq_iff split: prod.split)

end
