(* ===== verification/Nor_Types.thy ===== *)
theory Nor_Types
  imports Prelude
begin

unbundle bit_operations_syntax

text \<open>
  The data of the SPI NOR driver (\<open>spinor/inter.h\<close>, the command bytes of \<open>spinor/core.c\<close> and
  the transfer descriptor of \<open>sunxi_hal_spi.h\<close>).

  The state \<open>'b nor\<close> gathers what the driver keeps in static storage: the fields of \<open>g_nor\<close>,
  the chain of registered factories hanging off \<open>g_fhead\<close>, and \<open>bus\<close>, the state of the SPI
  controller with the chip behind it, which the driver reaches only through \<open>hal_spi_xfer\<close>,
  \<open>aw_hal_spi_init\<close>, \<open>hal_spi_deinit\<close> and by letting time pass. Those four are the fields of
  the environment \<open>'b env\<close>, an argument of every operation, so that nothing is assumed of the
  controller or of the chip unless a theorem says so.

  The factories are static objects that differ only by which of the nine they are; a pointer to
  one is its name (\<open>fid\<close>), and \<open>g_fhead\<close> itself, which also carries a \<open>next\<close> field, is the node
  \<open>None\<close> of the chain.
\<close>

section \<open>Constants\<close>

abbreviation (input) NOR_CMD_READ :: u8 where "NOR_CMD_READ \<equiv> 0x03"
abbreviation (input) NOR_CMD_FAST_READ :: u8 where "NOR_CMD_FAST_READ \<equiv> 0x0B"
abbreviation (input) NOR_CMD_DUAL_READ :: u8 where "NOR_CMD_DUAL_READ \<equiv> 0x3B"
abbreviation (input) NOR_CMD_QUAD_READ :: u8 where "NOR_CMD_QUAD_READ \<equiv> 0x6B"
abbreviation (input) NOR_CMD_DUAL_IO_READ :: u8 where "NOR_CMD_DUAL_IO_READ \<equiv> 0xBB"
abbreviation (input) NOR_CMD_QUAD_IO_READ :: u8 where "NOR_CMD_QUAD_IO_READ \<equiv> 0xEB"
abbreviation (input) NOR_CMD_PROG :: u8 where "NOR_CMD_PROG \<equiv> 0x02"
abbreviation (input) NOR_CMD_QUAD_PROG :: u8 where "NOR_CMD_QUAD_PROG \<equiv> 0x32"
abbreviation (input) NOR_CMD_QUAD_IO_PROG :: u8 where "NOR_CMD_QUAD_IO_PROG \<equiv> 0x38"
abbreviation (input) NOR_CMD_ERASE_BLK4K :: u8 where "NOR_CMD_ERASE_BLK4K \<equiv> 0x20"
abbreviation (input) NOR_CMD_ERASE_BLK32K :: u8 where "NOR_CMD_ERASE_BLK32K \<equiv> 0x52"
abbreviation (input) NOR_CMD_ERASE_BLK64K :: u8 where "NOR_CMD_ERASE_BLK64K \<equiv> 0xD8"
abbreviation (input) NOR_CMD_ERASE_CHIP :: u8 where "NOR_CMD_ERASE_CHIP \<equiv> 0x60"
abbreviation (input) NOR_CMD_WREN :: u8 where "NOR_CMD_WREN \<equiv> 0x06"
abbreviation (input) NOR_CMD_READ_SR :: u8 where "NOR_CMD_READ_SR \<equiv> 0x05"
abbreviation (input) NOR_CMD_WRITE_SR :: u8 where "NOR_CMD_WRITE_SR \<equiv> 0x01"
abbreviation (input) NOR_CMD_RESET_EN :: u8 where "NOR_CMD_RESET_EN \<equiv> 0x66"
abbreviation (input) NOR_CMD_RESET :: u8 where "NOR_CMD_RESET \<equiv> 0x99"
abbreviation (input) NOR_CMD_RDID :: u8 where "NOR_CMD_RDID \<equiv> 0x9F"
abbreviation (input) NOR_CMD_EN4B :: u8 where "NOR_CMD_EN4B \<equiv> 0xB7"
abbreviation (input) NOR_CMD_FAST_READ4B :: u8 where "NOR_CMD_FAST_READ4B \<equiv> 0x0C"
abbreviation (input) NOR_CMD_DUAL_READ4B :: u8 where "NOR_CMD_DUAL_READ4B \<equiv> 0x3C"
abbreviation (input) NOR_CMD_QUAD_READ4B :: u8 where "NOR_CMD_QUAD_READ4B \<equiv> 0x6C"
abbreviation (input) NOR_CMD_DUAL_IO_READ4B :: u8 where "NOR_CMD_DUAL_IO_READ4B \<equiv> 0xBC"
abbreviation (input) NOR_CMD_QUAD_IO_READ4B :: u8 where "NOR_CMD_QUAD_IO_READ4B \<equiv> 0xEC"
abbreviation (input) NOR_CMD_PROG4B :: u8 where "NOR_CMD_PROG4B \<equiv> 0x12"
abbreviation (input) NOR_CMD_QUAD_PROG4B :: u8 where "NOR_CMD_QUAD_PROG4B \<equiv> 0x34"
abbreviation (input) NOR_CMD_QUAD_IO_PROG4B :: u8 where "NOR_CMD_QUAD_IO_PROG4B \<equiv> 0x3E"
abbreviation (input) NOR_CMD_ERASE_BLK4K4B :: u8 where "NOR_CMD_ERASE_BLK4K4B \<equiv> 0x21"
abbreviation (input) NOR_CMD_ERASE_BLK32K4B :: u8 where "NOR_CMD_ERASE_BLK32K4B \<equiv> 0x5C"
abbreviation (input) NOR_CMD_ERASE_BLK64K4B :: u8 where "NOR_CMD_ERASE_BLK64K4B \<equiv> 0xDC"

abbreviation (input) NOR_BUSY_MASK :: u8 where "NOR_BUSY_MASK \<equiv> 1"
abbreviation (input) NOR_SR_BIT_WEL :: u8 where "NOR_SR_BIT_WEL \<equiv> 2"

abbreviation (input) SZ_4K :: u32 where "SZ_4K \<equiv> 0x1000"
abbreviation (input) SZ_32K :: u32 where "SZ_32K \<equiv> 0x8000"
abbreviation (input) SZ_64K :: u32 where "SZ_64K \<equiv> 0x10000"
abbreviation (input) SZ_8M :: u32 where "SZ_8M \<equiv> 0x800000"
abbreviation (input) SZ_16M :: u32 where "SZ_16M \<equiv> 0x1000000"
abbreviation (input) SZ_64M :: u32 where "SZ_64M \<equiv> 0x4000000"

abbreviation (input) MAX_ID_LEN :: nat where "MAX_ID_LEN \<equiv> 3"
abbreviation (input) MAX_WAIT_LOOP :: u32 where "MAX_WAIT_LOOP \<equiv> 0xFFFFFFFF"
abbreviation (input) NOR_PAGE_SIZE :: u32 where "NOR_PAGE_SIZE \<equiv> 0x100"

abbreviation (input) SUPPORT_4K_ERASE_BLK :: u32 where "SUPPORT_4K_ERASE_BLK \<equiv> 0x1"
abbreviation (input) SUPPORT_32K_ERASE_BLK :: u32 where "SUPPORT_32K_ERASE_BLK \<equiv> 0x2"
abbreviation (input) SUPPORT_64K_ERASE_BLK :: u32 where "SUPPORT_64K_ERASE_BLK \<equiv> 0x4"
abbreviation (input) SUPPORT_DUAL_READ :: u32 where "SUPPORT_DUAL_READ \<equiv> 0x8"
abbreviation (input) SUPPORT_QUAD_READ :: u32 where "SUPPORT_QUAD_READ \<equiv> 0x10"
abbreviation (input) SUPPORT_QUAD_WRITE :: u32 where "SUPPORT_QUAD_WRITE \<equiv> 0x20"
abbreviation (input) SUPPORT_INDIVIDUAL_PROTECT :: u32 where "SUPPORT_INDIVIDUAL_PROTECT \<equiv> 0x40"
abbreviation (input) SUPPORT_GENERAL :: u32 where "SUPPORT_GENERAL \<equiv> 0x3F"
abbreviation (input) USE_4K_ERASE :: u32 where "USE_4K_ERASE \<equiv> 0x100000"
abbreviation (input) USE_IO_PROG_X4 :: u32 where "USE_IO_PROG_X4 \<equiv> 0x200000"
abbreviation (input) USE_IO_READ_X2 :: u32 where "USE_IO_READ_X2 \<equiv> 0x400000"
abbreviation (input) USE_IO_READ_X4 :: u32 where "USE_IO_READ_X4 \<equiv> 0x800000"

abbreviation (input) SPI_NBITS_SINGLE :: u8 where "SPI_NBITS_SINGLE \<equiv> 1"
abbreviation (input) SPI_NBITS_DUAL :: u8 where "SPI_NBITS_DUAL \<equiv> 2"
abbreviation (input) SPI_NBITS_QUAD :: u8 where "SPI_NBITS_QUAD \<equiv> 4"

section \<open>Transfers and the environment\<close>

text \<open>
  \<open>tx_data\<close> is the buffer the descriptor points at, cut to \<open>tx_len\<close>; the receive buffer is
  described by its length and its new contents are part of the result of the transfer.
\<close>

record spi_transfer =
  tx_data :: "u8 list"
  tx_single_len :: nat
  rx_len :: nat
  tx_nbits :: u8
  rx_nbits :: u8
  dummy_byte :: u8

record spi_config =
  clock_frequency :: u32
  slave_port :: u32
  cpha :: u32
  cpol :: u32
  bit_order :: u32

record 'b env =
  spi_xfer :: "nat \<Rightarrow> spi_transfer \<Rightarrow> 'b \<Rightarrow> (int \<times> u8 list \<times> 'b) option"
  spi_init :: "nat \<Rightarrow> spi_config \<Rightarrow> 'b \<Rightarrow> (int \<times> 'b) option"
  spi_deinit :: "nat \<Rightarrow> 'b \<Rightarrow> (int \<times> 'b) option"
  delay_ms :: "u32 \<Rightarrow> 'b \<Rightarrow> 'b"
  sem_alloc :: "'b \<Rightarrow> bool \<times> 'b"

section \<open>Chip descriptions and the driver state\<close>

record nor_info =
  info_model :: string
  info_id :: "u8 list"
  info_total_size :: u32
  info_flag :: u32

datatype fid = GD | MXIC | WINBOND | XTX | ESMT | FM | XMC | PUYA | ZETTA

record 'b nor =
  cmd_read :: u8
  cmd_write :: u8
  r_cmd_slen :: "3 word"
  w_cmd_slen :: "3 word"
  total_size :: u32
  blk_size :: u32
  page_size :: u32
  addr_width :: u32
  spim_port :: nat
  spim_cfg :: spi_config
  nor_info :: "nor_info option"
  nor_fac :: "fid option"
  hal_sem :: bool
  fnext :: "fid option \<Rightarrow> fid option"
  bus :: 'b

record 'b nor_factory =
  factory_id :: u8
  idt :: "nor_info list"
  idt_cnt :: nat
  f_init :: "('b nor \<Rightarrow> (int \<times> 'b nor) option) option"
  f_init_lock :: "('b nor \<Rightarrow> (int \<times> 'b nor) option) option"
  f_deinit_lock :: "('b nor \<Rightarrow> 'b nor option) option"
  f_lock :: "(u32 \<Rightarrow> u32 \<Rightarrow> 'b nor \<Rightarrow> (int \<times> 'b nor) option) option"
  f_unlock :: "(u32 \<Rightarrow> u32 \<Rightarrow> 'b nor \<Rightarrow> (int \<times> 'b nor) option) option"
  f_islock :: "(u32 \<Rightarrow> u32 \<Rightarrow> 'b nor \<Rightarrow> (bool \<times> 'b nor) option) option"
  f_set_quad_mode :: "('b nor \<Rightarrow> (int \<times> 'b nor) option) option"
  f_set_4bytes_addr :: "(bool \<Rightarrow> 'b nor \<Rightarrow> (int \<times> 'b nor) option) option"

text \<open>
  \<open>sizeof (struct nor_info)\<close> on the 64-bit target: a pointer, three identifier bytes padded to
  four, two 32-bit fields, padded to a multiple of eight.
\<close>

definition sizeof_nor_info :: nat where
  "sizeof_nor_info = 24"

text \<open>The static storage before \<open>nor_init\<close>: everything zero.\<close>

definition nor_boot :: "'b \<Rightarrow> 'b nor" where
  "nor_boot b = \<lparr>cmd_read = 0, cmd_write = 0, r_cmd_slen = 0, w_cmd_slen = 0, total_size = 0,
     blk_size = 0, page_size = 0, addr_width = 0, spim_port = 0,
     spim_cfg = \<lparr>clock_frequency = 0, slave_port = 0, cpha = 0, cpol = 0, bit_order = 0\<rparr>,
     nor_info = None, nor_fac = None, hal_sem = False, fnext = (\<lambda>_. None), bus = b\<rparr>"

end
