(* ===== verification/Nor_Cmd.thy ===== *)
theory Nor_Cmd
  imports Nor_Types
begin

unbundle bit_operations_syntax

text \<open>
  The command layer of \<open>spinor/core.c\<close>: one SPI transfer per command, the status register, the
  two-phase wait for the chip, write enable, status writes, identification and reset.

  \<open>osal/src/hal_sem.c\<close> is compiled with \<open>CONFIG_KERNEL_NONE\<close>: creating a semaphore only
  allocates memory, taking and giving it always succeed.
\<close>

section \<open>Semaphores without a kernel\<close>

definition hal_sem_create :: "'b env \<Rightarrow> 'b nor \<Rightarrow> bool \<times> 'b nor" where
  "hal_sem_create E w = (let (ok, b) = sem_alloc E (bus w) in (ok, w\<lparr>bus := b\<rparr>))"

definition hal_sem_wait :: "bool \<Rightarrow> int" where
  "hal_sem_wait sem = 0"

definition hal_sem_post :: "bool \<Rightarrow> int" where
  "hal_sem_post sem = 0"

definition nor_lock_init :: "'b env \<Rightarrow> 'b nor \<Rightarrow> int \<times> 'b nor" where
  "nor_lock_init E w =
     (let (sem, w) = hal_sem_create E w; w = w\<lparr>hal_sem := sem\<rparr>
      in if \<not> hal_sem w then (-1, w) else (0, w))"

definition nor_lock :: "'b nor \<Rightarrow> int" where
  "nor_lock w = hal_sem_wait (hal_sem w)"

definition nor_unlock :: "'b nor \<Rightarrow> int" where
  "nor_unlock w = hal_sem_post (hal_sem w)"

definition nor_msleep :: "'b env \<Rightarrow> u32 \<Rightarrow> 'b nor \<Rightarrow> 'b nor" where
  "nor_msleep E msec w = w\<lparr>bus := delay_ms E msec (bus w)\<rparr>"

section \<open>Transfers\<close>

definition cmd_bit :: "u8 \<Rightarrow> nat" where
  "cmd_bit cmd =
     (if cmd \<in> {NOR_CMD_DUAL_READ, NOR_CMD_DUAL_IO_READ,
                NOR_CMD_DUAL_READ4B, NOR_CMD_DUAL_IO_READ4B} then 2
      else if cmd \<in> {NOR_CMD_QUAD_READ, NOR_CMD_QUAD_IO_READ,
                NOR_CMD_QUAD_READ4B, NOR_CMD_QUAD_IO_READ4B,
                NOR_CMD_QUAD_PROG, NOR_CMD_QUAD_IO_PROG,
                NOR_CMD_QUAD_PROG4B, NOR_CMD_QUAD_IO_PROG4B} then 4
      else 1)"

definition nor_mode :: "u8 \<Rightarrow> spi_transfer \<Rightarrow> spi_transfer" where
  "nor_mode cmd tr =
     (if cmd \<in> {NOR_CMD_FAST_READ, NOR_CMD_FAST_READ4B} then tr\<lparr>dummy_byte := 1\<rparr>
      else if cmd \<in> {NOR_CMD_DUAL_READ, NOR_CMD_DUAL_IO_READ,
                     NOR_CMD_DUAL_READ4B, NOR_CMD_DUAL_IO_READ4B}
        then tr\<lparr>rx_nbits := SPI_NBITS_DUAL, dummy_byte := 1\<rparr>
      else if cmd \<in> {NOR_CMD_QUAD_READ, NOR_CMD_QUAD_IO_READ,
                     NOR_CMD_QUAD_READ4B, NOR_CMD_QUAD_IO_READ4B}
        then tr\<lparr>rx_nbits := SPI_NBITS_QUAD, dummy_byte := 1\<rparr>
      else if cmd \<in> {NOR_CMD_QUAD_PROG, NOR_CMD_QUAD_IO_PROG,
                     NOR_CMD_QUAD_PROG4B, NOR_CMD_QUAD_IO_PROG4B}
        then tr\<lparr>tx_nbits := SPI_NBITS_QUAD\<rparr>
      else tr)"

text \<open>
  \<open>tbuf\<close> and \<open>rbuf\<close> are the caller's buffers; the call reads the first \<open>tlen\<close> bytes of one and
  may overwrite the first \<open>rlen\<close> of the other, whose new contents it returns.
\<close>

definition nor_transfer ::
  "'b env \<Rightarrow> nat \<Rightarrow> u8 list \<Rightarrow> nat \<Rightarrow> u8 list \<Rightarrow> nat \<Rightarrow> 'b nor \<Rightarrow> (int \<times> u8 list \<times> 'b nor) option"
where
  "nor_transfer E single_len tbuf tlen rbuf rlen w =
     (if tbuf = [] \<or> length rbuf < rlen then None
      else do {
        tx \<leftarrow> read_at 0 tlen tbuf;
        let tr = nor_mode (hd tbuf)
              \<lparr>tx_data = tx, tx_single_len = single_len, rx_len = rlen,
               tx_nbits = SPI_NBITS_SINGLE, rx_nbits = SPI_NBITS_SINGLE, dummy_byte = 0\<rparr>;
        (ret, rx, b) \<leftarrow> spi_xfer E (spim_port w) tr (bus w);
        Some (ret, overlay (take rlen rx) rbuf, w\<lparr>bus := b\<rparr>)
      })"

definition nor_read_status :: "'b env \<Rightarrow> u8 \<Rightarrow> 'b nor \<Rightarrow> (int \<times> u8 \<times> 'b nor) option" where
  "nor_read_status E sr w = do {
     (ret, reg, w) \<leftarrow> nor_transfer E 1 [NOR_CMD_READ_SR] 1 [0, 0] 2 w;
     if ret \<noteq> 0 then Some (ret, sr, w) else Some (0, reg ! 1, w)
   }"

definition nor_is_busy :: "'b env \<Rightarrow> 'b nor \<Rightarrow> (int \<times> 'b nor) option" where
  "nor_is_busy E w = do {
     (ret, reg, w) \<leftarrow> nor_read_status E 0 w;
     if ret \<noteq> 0 then Some (ret, w)
     else if reg AND NOR_BUSY_MASK \<noteq> 0 then Some (1, w) else Some (0, w)
   }"

section \<open>Waiting for the chip\<close>

text \<open>
  The two \<open>do ... while (--n > 0)\<close> loops of \<open>nor_wait_ready\<close>; the flag of the result tells
  whether a poll found the chip ready. The counters are unsigned, so that a counter that starts
  at zero wraps around.
\<close>

function wait_ms_loop :: "'b env \<Rightarrow> u32 \<Rightarrow> 'b nor \<Rightarrow> (bool \<times> 'b nor) option" where
  "wait_ms_loop E ms w = do {
     (busy, w) \<leftarrow> nor_is_busy E w;
     if busy = 0 then Some (True, w)
     else let w = (if ms \<noteq> 0 then nor_msleep E 1 w else w) in
       if ms - 1 > 0 then wait_ms_loop E (ms - 1) w else Some (False, w)
   }"
  by pat_completeness auto
termination
  by (relation "measure (\<lambda>(E, ms, w). unat (ms - 1))")
     (simp_all only: wf_measure in_measure case_prod_conv unat_countdown)

function wait_times_loop :: "'b env \<Rightarrow> u32 \<Rightarrow> 'b nor \<Rightarrow> (bool \<times> 'b nor) option" where
  "wait_times_loop E n w = do {
     (busy, w) \<leftarrow> nor_is_busy E w;
     if busy = 0 then Some (True, w)
     else if n - 1 > 0 then wait_times_loop E (n - 1) w else Some (False, w)
   }"
  by pat_completeness auto
termination
  by (relation "measure (\<lambda>(E, n, w). unat (n - 1))")
     (simp_all only: wf_measure in_measure case_prod_conv unat_countdown)

declare wait_ms_loop.simps [simp del] wait_times_loop.simps [simp del]

definition nor_wait_ready :: "'b env \<Rightarrow> u32 \<Rightarrow> u32 \<Rightarrow> 'b nor \<Rightarrow> (int \<times> 'b nor) option" where
  "nor_wait_ready E ms n w = do {
     (ready, w) \<leftarrow> wait_ms_loop E ms w;
     if ready then Some (0, w)
     else do {
       (ready, w) \<leftarrow> wait_times_loop E n w;
       if ready then Some (0, w)
       else do {
         (busy, w) \<leftarrow> nor_is_busy E w;
         if busy = 0 then Some (0, w) else Some (- EBUSY, w)
       }
     }
   }"

section \<open>Commands\<close>

definition nor_send_cmd :: "'b env \<Rightarrow> u8 \<Rightarrow> 'b nor \<Rightarrow> (int \<times> 'b nor) option" where
  "nor_send_cmd E cmd w = do {
     (ret, _, w) \<leftarrow> nor_transfer E 1 [cmd] 1 [] 0 w;
     if ret \<noteq> 0 then Some (ret, w) else nor_wait_ready E 0 500 w
   }"

definition nor_write_enable :: "'b env \<Rightarrow> 'b nor \<Rightarrow> (int \<times> 'b nor) option" where
  "nor_write_enable E w = do {
     (ret, w) \<leftarrow> nor_send_cmd E NOR_CMD_WREN w;
     if ret \<noteq> 0 then Some (ret, w)
     else do {
       (ret, sr, w) \<leftarrow> nor_read_status E 0 w;
       if ret \<noteq> 0 then Some (ret, w)
       else if sr AND NOR_SR_BIT_WEL = 0 then Some (- EINVAL, w)
       else Some (0, w)
     }
   }"

definition nor_write_status :: "'b env \<Rightarrow> u8 list \<Rightarrow> nat \<Rightarrow> 'b nor \<Rightarrow> (int \<times> 'b nor) option" where
  "nor_write_status E sr len w = do {
     (ret, w) \<leftarrow> nor_write_enable E w;
     if ret \<noteq> 0 then Some (ret, w)
     else if len > 5 then Some (- EINVAL, w)
     else do {
       bs \<leftarrow> read_at 0 len sr;
       tbuf \<leftarrow> write_at 1 bs [NOR_CMD_WRITE_SR, 0, 0, 0, 0];
       (ret, _, w) \<leftarrow> nor_transfer E (len + 1) tbuf (len + 1) [] 0 w;
       if ret \<noteq> 0 then Some (ret, w) else nor_wait_ready E 10 MAX_WAIT_LOOP w
     }
   }"

definition nor_read_id :: "'b env \<Rightarrow> u8 list \<Rightarrow> nat \<Rightarrow> 'b nor \<Rightarrow> (int \<times> u8 list \<times> 'b nor) option" where
  "nor_read_id E ident len w = do {
     (ret, w) \<leftarrow> nor_wait_ready E 0 500 w;
     if ret \<noteq> 0 then Some (- EBUSY, ident, w)
     else nor_transfer E 1 [NOR_CMD_RDID] 1 ident (min len MAX_ID_LEN) w
   }"

definition nor_reset :: "'b env \<Rightarrow> 'b nor \<Rightarrow> (int \<times> 'b nor) option" where
  "nor_reset E w = do {
     (ret, _, w) \<leftarrow> nor_transfer E 2 [NOR_CMD_RESET_EN, NOR_CMD_RESET] 2 [] 0 w;
     Some (ret, w)
   }"

section \<open>What the command layer leaves alone\<close>

definition same_nor :: "'b nor \<Rightarrow> 'b nor \<Rightarrow> bool" where
  "same_nor w w' \<longleftrightarrow> w' = w\<lparr>bus := bus w'\<rparr>"

named_theorems frame \<open>operations that change nothing but the bus\<close>

lemma same_nor_refl [simp]: "same_nor w w"
  by (simp add: same_nor_def)

lemma same_nor_bus [simp]: "same_nor w (w\<lparr>bus := b\<rparr>)"
  by (simp add: same_nor_def)

lemma same_nor_bus_left [simp]: "same_nor (w\<lparr>bus := b\<rparr>) w' \<longleftrightarrow> same_nor w w'"
  unfolding same_nor_def by (cases w; cases w') simp

lemma same_nor_bus_right [simp]: "same_nor w (v\<lparr>bus := b\<rparr>) \<longleftrightarrow> same_nor w v"
  unfolding same_nor_def by (cases w; cases v) simp

lemma same_nor_trans [trans]: "same_nor u v \<Longrightarrow> same_nor v w \<Longrightarrow> same_nor u w"
  unfolding same_nor_def by (cases u; cases v; cases w) simp

lemma same_norD:
  assumes "same_nor w w'"
  shows "addr_width w' = addr_width w" "cmd_read w' = cmd_read w" "cmd_write w' = cmd_write w"
    "r_cmd_slen w' = r_cmd_slen w" "w_cmd_slen w' = w_cmd_slen w" "total_size w' = total_size w"
    "nor_info w' = nor_info w" "nor_fac w' = nor_fac w" "blk_size w' = blk_size w"
    "page_size w' = page_size w" "spim_port w' = spim_port w" "fnext w' = fnext w"
    "hal_sem w' = hal_sem w" "spim_cfg w' = spim_cfg w"
  using assms unfolding same_nor_def by (cases w; cases w'; simp)+

lemma nor_transfer_frame [frame]:
  "nor_transfer E s t n r m w = Some (ret, r', w') \<Longrightarrow> same_nor w w'"
  by (auto simp: nor_transfer_def Let_def bind_eq_Some_conv split: if_splits)

lemma nor_transfer_length:
  "nor_transfer E s t n r m w = Some (ret, r', w') \<Longrightarrow> length r' = length r"
  by (auto simp: nor_transfer_def Let_def bind_eq_Some_conv split: if_splits)

lemma nor_read_status_frame [frame]:
  "nor_read_status E sr w = Some (ret, sr', w') \<Longrightarrow> same_nor w w'"
  by (auto simp: nor_read_status_def bind_eq_Some_conv dest: frame split: if_splits)

lemma nor_is_busy_frame [frame]:
  "nor_is_busy E w = Some (r, w') \<Longrightarrow> same_nor w w'"
  by (auto simp: nor_is_busy_def bind_eq_Some_conv dest: frame split: if_splits)

lemma nor_msleep_frame [simp]:
  "same_nor w (nor_msleep E t w)" "same_nor (nor_msleep E t w) w' \<longleftrightarrow> same_nor w w'"
  by (simp_all add: nor_msleep_def)

text \<open>
  A reference reading of the waiting loops: at most \<open>n\<close> polls of the status register, with a
  pause of one millisecond after each poll that finds the chip busy when \<open>pause\<close> is set.
\<close>

fun poll :: "'b env \<Rightarrow> bool \<Rightarrow> nat \<Rightarrow> 'b nor \<Rightarrow> (bool \<times> 'b nor) option" where
  "poll E pause 0 w = Some (False, w)"
| "poll E pause (Suc n) w = do {
     (busy, w) \<leftarrow> nor_is_busy E w;
     if busy = 0 then Some (True, w)
     else poll E pause n (if pause then nor_msleep E 1 w else w)
   }"

lemma unat_Suc_pred: "unat (x :: 'a::len word) = Suc n \<Longrightarrow> unat (x - 1) = n"
  by (metis diff_Suc_1 nat.distinct(1) unat_0 unat_minus_one)

lemma pred_gt_0: "unat (x :: 'a::len word) = Suc n \<Longrightarrow> (x - 1 > 0) \<longleftrightarrow> n \<noteq> 0"
  using unat_Suc_pred [of x n] by (auto simp: word_gt_0 simp flip: unat_eq_zero)

lemma poll_if [simp]:
  "(if 0 < n then poll E pause n v else Some (False, v)) = poll E pause n v"
  by (cases n) simp_all

lemma wait_ms_loop_poll: "ms \<noteq> 0 \<Longrightarrow> wait_ms_loop E ms w = poll E True (unat ms) w"
proof (induction "unat ms" arbitrary: ms w)
  case 0
  then show ?case by (metis unat_eq_zero)
next
  case (Suc n)
  have pred: "unat (ms - 1) = n" and gt: "(ms - 1 > 0) \<longleftrightarrow> n \<noteq> 0"
    using Suc.hyps(2) [symmetric] by (rule unat_Suc_pred, rule pred_gt_0)
  have rec: "wait_ms_loop E (ms - 1) v = poll E True n v" if "n \<noteq> 0" for v
    using Suc.hyps(1) [of "ms - 1" v] that pred gt by (auto simp: word_gt_0)
  show ?case
    using Suc.prems rec by (subst wait_ms_loop.simps)
      (simp add: gt Let_def Suc.hyps(2) [symmetric] cong: Option.bind_cong if_cong)
qed

lemma unat_max_u32: "unat (- 1 :: u32) = 2 ^ 32 - 1"
  by (simp add: unsigned_minus_1_eq_mask mask_eq_exp_minus_1)

lemma wait_ms_loop_0:
  "wait_ms_loop E 0 w = do {
     (busy, w) \<leftarrow> nor_is_busy E w;
     if busy = 0 then Some (True, w) else poll E True (2 ^ 32 - 1) w
   }"
proof -
  have rec: "wait_ms_loop E (- 1) v = poll E True (2 ^ 32 - 1) v" for v
    using wait_ms_loop_poll [of "- 1" E v] by (simp only: unat_max_u32) simp
  have gt: "(0 :: u32) < - 1" by (simp add: word_gt_0)
  show ?thesis
    by (subst wait_ms_loop.simps) (simp only: gt rec Let_def diff_0 if_True simp_thms if_False)
qed

lemma wait_times_loop_poll:
  "n \<noteq> 0 \<Longrightarrow> wait_times_loop E n w = poll E False (unat n) w"
proof (induction "unat n" arbitrary: n w)
  case 0
  then show ?case by (metis unat_eq_zero)
next
  case (Suc k)
  have pred: "unat (n - 1) = k" and gt: "(n - 1 > 0) \<longleftrightarrow> k \<noteq> 0"
    using Suc.hyps(2) [symmetric] by (rule unat_Suc_pred, rule pred_gt_0)
  have rec: "wait_times_loop E (n - 1) v = poll E False k v" if "k \<noteq> 0" for v
    using Suc.hyps(1) [of "n - 1" v] that pred gt by (auto simp: word_gt_0)
  show ?case
    using Suc.prems rec by (subst wait_times_loop.simps)
      (simp add: gt Let_def Suc.hyps(2) [symmetric] cong: Option.bind_cong if_cong)
qed

lemma wait_times_loop_0:
  "wait_times_loop E 0 w = do {
     (busy, w) \<leftarrow> nor_is_busy E w;
     if busy = 0 then Some (True, w) else poll E False (2 ^ 32 - 1) w
   }"
proof -
  have rec: "wait_times_loop E (- 1) v = poll E False (2 ^ 32 - 1) v" for v
    using wait_times_loop_poll [of "- 1" E v] by (simp only: unat_max_u32) simp
  have gt: "(0 :: u32) < - 1" by (simp add: word_gt_0)
  show ?thesis
    by (subst wait_times_loop.simps) (simp only: gt rec Let_def diff_0 if_True simp_thms if_False)
qed

text \<open>The second loop and the last poll after it are \<open>n + 1\<close> polls.\<close>

lemma poll_Suc_last:
  "poll E False (Suc n) w = do {
     (ok, w) \<leftarrow> poll E False n w;
     if ok then Some (True, w)
     else do { (busy, w) \<leftarrow> nor_is_busy E w; Some (busy = 0, w) }
   }"
proof (induction n arbitrary: w)
  case 0
  show ?case by (cases "nor_is_busy E w") (auto split: prod.splits)
next
  case (Suc n)
  show ?case
    unfolding poll.simps(2) [of E False "Suc n" w] poll.simps(2) [of E False n w]
    by (cases "nor_is_busy E w") (auto simp: Suc.IH simp del: poll.simps(2) split: prod.splits)
qed

lemma wait_times_tail:
  assumes "n \<noteq> 0"
  shows "do {
     (ready, w) \<leftarrow> wait_times_loop E n v;
     if ready then Some (0, w)
     else do { (busy, w) \<leftarrow> nor_is_busy E w; if busy = 0 then Some (0, w) else Some (- EBUSY, w) }
   } = do { (ok, w) \<leftarrow> poll E False (unat n + 1) v; Some (if ok then 0 else - EBUSY, w) }"
proof (cases "poll E False (unat n) v")
  case None
  then show ?thesis by (simp add: wait_times_loop_poll [OF assms] poll_Suc_last del: poll.simps(2))
next
  case (Some r)
  then show ?thesis
    by (cases r; cases "nor_is_busy E (snd r)")
      (auto simp: wait_times_loop_poll [OF assms] poll_Suc_last simp del: poll.simps(2))
qed

lemma poll_frame [frame]: "poll E pause n w = Some (r, w') \<Longrightarrow> same_nor w w'"
proof (induction n arbitrary: w)
  case (Suc n)
  then obtain busy u where u: "nor_is_busy E w = Some (busy, u)"
    and rest: "busy \<noteq> 0 \<longrightarrow> poll E pause n (if pause then nor_msleep E 1 u else u) = Some (r, w')"
      "busy = 0 \<longrightarrow> w' = u"
    by (auto simp: bind_eq_Some_conv split: if_splits)
  have "same_nor u w'"
    using rest Suc.IH by (cases "busy = 0"; cases pause) fastforce+
  with nor_is_busy_frame [OF u] show ?case by (rule same_nor_trans)
qed simp

lemma wait_ms_loop_frame [frame]: "wait_ms_loop E ms w = Some (r, w') \<Longrightarrow> same_nor w w'"
  by (cases "ms = 0")
    (auto simp: wait_ms_loop_0 wait_ms_loop_poll bind_eq_Some_conv dest!: frame
      intro: same_nor_trans split: if_splits)

lemma wait_times_loop_frame [frame]: "wait_times_loop E n w = Some (r, w') \<Longrightarrow> same_nor w w'"
  by (cases "n = 0")
    (auto simp: wait_times_loop_0 wait_times_loop_poll bind_eq_Some_conv dest!: frame
      intro: same_nor_trans split: if_splits)

lemma nor_wait_ready_frame [frame]:
  "nor_wait_ready E ms n w = Some (r, w') \<Longrightarrow> same_nor w w'"
  by (auto simp: nor_wait_ready_def bind_eq_Some_conv dest!: frame intro: same_nor_trans
      split: if_splits)

lemma nor_send_cmd_frame [frame]:
  "nor_send_cmd E cmd w = Some (r, w') \<Longrightarrow> same_nor w w'"
  by (auto simp: nor_send_cmd_def bind_eq_Some_conv dest!: frame intro: same_nor_trans
      split: if_splits)

lemma nor_write_enable_frame [frame]:
  "nor_write_enable E w = Some (r, w') \<Longrightarrow> same_nor w w'"
  by (auto simp: nor_write_enable_def bind_eq_Some_conv dest!: frame intro: same_nor_trans
      split: if_splits)

lemma nor_write_status_frame [frame]:
  "nor_write_status E sr len w = Some (r, w') \<Longrightarrow> same_nor w w'"
  by (auto simp: nor_write_status_def bind_eq_Some_conv Let_def dest!: frame intro: same_nor_trans
      split: if_splits)

lemma nor_read_id_frame [frame]:
  "nor_read_id E ident len w = Some (r, ident', w') \<Longrightarrow> same_nor w w'"
  by (auto simp: nor_read_id_def bind_eq_Some_conv dest!: frame intro: same_nor_trans
      split: if_splits)

lemma nor_reset_frame [frame]: "nor_reset E w = Some (r, w') \<Longrightarrow> same_nor w w'"
  by (auto simp: nor_reset_def bind_eq_Some_conv dest!: frame)

end
