(* ===== verification/Nor_Factory.thy ===== *)
theory Nor_Factory
  imports Nor_Cmd
begin

unbundle bit_operations_syntax

text \<open>
  The nine chip manufacturers (\<open>spinor/factory_*.c\<close>): for each its table of chips, the routine
  that enables quad transfers, the individual block locks where the chips have them, and the
  static \<open>struct nor_factory\<close> with its function pointers.

  Each table is registered with \<open>idt_cnt = sizeof (table)\<close>, which counts bytes, not entries; the
  model keeps that number, and \<open>idt_cnt_too_large\<close> states the consequence. A status byte that a
  failing controller leaves unwritten on the stack reads as 0 here.
\<close>

abbreviation (input) FACTORY_ZETTA :: u8 where "FACTORY_ZETTA \<equiv> 0xBA"
abbreviation (input) FACTORY_PUYA :: u8 where "FACTORY_PUYA \<equiv> 0x85"
abbreviation (input) FACTORY_MXIC :: u8 where "FACTORY_MXIC \<equiv> 0xC2"
abbreviation (input) FACTORY_GD :: u8 where "FACTORY_GD \<equiv> 0xC8"
abbreviation (input) FACTORY_WINBOND :: u8 where "FACTORY_WINBOND \<equiv> 0xEF"
abbreviation (input) FACTORY_FM :: u8 where "FACTORY_FM \<equiv> 0xA1"
abbreviation (input) FACTORY_ESMT :: u8 where "FACTORY_ESMT \<equiv> 0x1C"
abbreviation (input) FACTORY_XTX :: u8 where "FACTORY_XTX \<equiv> 0x0B"
abbreviation (input) FACTORY_XMC :: u8 where "FACTORY_XMC \<equiv> 0x20"

text \<open>Without \<open>CONFIG_DRIVERS_SPINOR_WRITE_LOCK\<close> the macro is constant.\<close>

definition is_wrlock_work :: "'b nor \<Rightarrow> bool" where
  "is_wrlock_work w = False"

section \<open>GigaDevice\<close>

abbreviation (input) NOR_GD_QE_BIT :: u8 where "NOR_GD_QE_BIT \<equiv> 2"
abbreviation (input) NOR_GD_CMD_RDSR2 :: u8 where "NOR_GD_CMD_RDSR2 \<equiv> 0x35"
abbreviation (input) NOR_GD_CMD_WRSR2 :: u8 where "NOR_GD_CMD_WRSR2 \<equiv> 0x31"

definition idt_gd :: "nor_info list" where
  "idt_gd =
    [\<lparr>info_model = ''GD25Q127C'', info_id = [0xc8, 0x40, 0x18], info_total_size = SZ_16M,
       info_flag = SUPPORT_GENERAL\<rparr>,
     \<lparr>info_model = ''GD25Q256'', info_id = [0xc8, 0x40, 0x19], info_total_size = SZ_16M,
       info_flag = SUPPORT_GENERAL\<rparr>]"

definition nor_gd_quad_mode :: "'b env \<Rightarrow> 'b nor \<Rightarrow> (int \<times> 'b nor) option" where
  "nor_gd_quad_mode E w = do {
     (ret, reg, w) \<leftarrow> nor_transfer E 1 [NOR_GD_CMD_RDSR2] 1 [0, 0] 2 w;
     if ret \<noteq> 0 then Some (ret, w)
     else if reg ! 1 AND NOR_GD_QE_BIT \<noteq> 0 then Some (0, w)
     else do {
       (ret, w) \<leftarrow> nor_write_enable E w;
       if ret \<noteq> 0 then Some (ret, w)
       else do {
         (ret, _, w) \<leftarrow>
           nor_transfer E 2 [NOR_GD_CMD_WRSR2, reg ! 1 OR NOR_GD_QE_BIT] 2 [] 0 w;
         if ret \<noteq> 0 then Some (ret, w)
         else do {
           (ret, w) \<leftarrow> nor_wait_ready E 0 500 w;
           if ret \<noteq> 0 then Some (- EBUSY, w)
           else do {
             (ret, reg, w) \<leftarrow> nor_transfer E 1 [NOR_GD_CMD_RDSR2] 1 reg 2 w;
             if ret \<noteq> 0 then Some (ret, w)
             else if reg ! 1 AND NOR_GD_QE_BIT = 0 then Some (- EINVAL, w)
             else Some (0, w)
           }
         }
       }
     }
   }"

definition nor_gd :: "'b env \<Rightarrow> 'b nor_factory" where
  "nor_gd E =
     \<lparr>factory_id = FACTORY_GD, idt = idt_gd, idt_cnt = sizeof_nor_info * length idt_gd,
      f_init = None, f_init_lock = None, f_deinit_lock = None,
      f_lock = None, f_unlock = None, f_islock = None,
      f_set_quad_mode = Some (nor_gd_quad_mode E), f_set_4bytes_addr = None\<rparr>"

section \<open>Macronix\<close>

abbreviation (input) NOR_MXIC_CMD_RDSCUR :: u8 where "NOR_MXIC_CMD_RDSCUR \<equiv> 0x2B"
abbreviation (input) NOR_MXIC_CMD_WPSEL :: u8 where "NOR_MXIC_CMD_WPSEL \<equiv> 0x68"
abbreviation (input) NOR_MXIC_CMD_ESSPB :: u8 where "NOR_MXIC_CMD_ESSPB \<equiv> 0xE4"
abbreviation (input) NOR_MXIC_CMD_RDDPB :: u8 where "NOR_MXIC_CMD_RDDPB \<equiv> 0xE0"
abbreviation (input) NOR_MXIC_CMD_WRDPB :: u8 where "NOR_MXIC_CMD_WRDPB \<equiv> 0xE1"
abbreviation (input) NOR_MXIC_WPSEL_BIT :: u8 where "NOR_MXIC_WPSEL_BIT \<equiv> 0x80"
abbreviation (input) NOR_MXIC_QE_BIT :: u8 where "NOR_MXIC_QE_BIT \<equiv> 0x40"
abbreviation (input) NOR_MXIC_DPB_LOCK :: u8 where "NOR_MXIC_DPB_LOCK \<equiv> 0xFF"
abbreviation (input) NOR_MXIC_DPB_UNLOCK :: u8 where "NOR_MXIC_DPB_UNLOCK \<equiv> 0x00"
abbreviation (input) NOR_MXIC_PT_MASK :: u8 where "NOR_MXIC_PT_MASK \<equiv> 0xF"

definition idt_mxic :: "nor_info list" where
  "idt_mxic =
    [\<lparr>info_model = ''mx25l6433f'', info_id = [0xc2, 0x20, 0x17], info_total_size = SZ_8M,
       info_flag = SUPPORT_GENERAL OR USE_IO_PROG_X4 OR SUPPORT_INDIVIDUAL_PROTECT\<rparr>,
     \<lparr>info_model = ''mx25l12833f'', info_id = [0xc2, 0x20, 0x18], info_total_size = SZ_16M,
       info_flag = SUPPORT_GENERAL OR USE_IO_PROG_X4 OR SUPPORT_INDIVIDUAL_PROTECT\<rparr>,
     \<lparr>info_model = ''mx25l51234g'', info_id = [0xc2, 0x20, 0x1a], info_total_size = SZ_64M,
       info_flag = SUPPORT_GENERAL OR USE_IO_PROG_X4\<rparr>]"

definition nor_mxic_quad_mode :: "'b env \<Rightarrow> 'b nor \<Rightarrow> (int \<times> 'b nor) option" where
  "nor_mxic_quad_mode E w = do {
     (ret, sr, w) \<leftarrow> nor_read_status E 0 w;
     if ret \<noteq> 0 then Some (ret, w)
     else if sr AND NOR_MXIC_QE_BIT \<noteq> 0 then Some (0, w)
     else do {
       let sr = sr OR NOR_MXIC_QE_BIT;
       let sr = (if is_wrlock_work w then sr AND NOT (push_bit 2 NOR_MXIC_PT_MASK) else sr);
       (ret, w) \<leftarrow> nor_write_status E [sr] 1 w;
       if ret \<noteq> 0 then Some (ret, w)
       else do {
         (ret, sr, w) \<leftarrow> nor_read_status E sr w;
         if ret \<noteq> 0 then Some (ret, w)
         else if sr AND NOR_MXIC_QE_BIT = 0 then Some (- EINVAL, w)
         else Some (0, w)
       }
     }
   }"

definition nor_mxic_set_wps :: "'b env \<Rightarrow> 'b nor \<Rightarrow> (int \<times> 'b nor) option" where
  "nor_mxic_set_wps E w = do {
     (ret, sr, w) \<leftarrow> nor_transfer E 1 [NOR_MXIC_CMD_RDSCUR] 1 [0] 1 w;
     if ret \<noteq> 0 then Some (ret, w)
     else if sr ! 0 AND NOR_MXIC_WPSEL_BIT \<noteq> 0 then Some (0, w)
     else do {
       (ret, w) \<leftarrow> nor_write_enable E w;
       if ret \<noteq> 0 then Some (ret, w)
       else do {
         (ret, w) \<leftarrow> nor_send_cmd E NOR_MXIC_CMD_WPSEL w;
         if ret \<noteq> 0 then Some (ret, w)
         else do {
           (ret, w) \<leftarrow> nor_wait_ready E 10 100000 w;
           if ret \<noteq> 0 then Some (ret, w)
           else do {
             (ret, sr, w) \<leftarrow> nor_transfer E 1 [NOR_MXIC_CMD_RDSCUR] 1 sr 1 w;
             if ret \<noteq> 0 then Some (ret, w)
             else Some (if sr ! 0 AND NOR_MXIC_WPSEL_BIT \<noteq> 0 then 0 else 1, w)
           }
         }
       }
     }
   }"

definition nor_mxic_reset_spb :: "'b env \<Rightarrow> 'b nor \<Rightarrow> (int \<times> 'b nor) option" where
  "nor_mxic_reset_spb E w = do {
     (ret, w) \<leftarrow> nor_write_enable E w;
     if ret \<noteq> 0 then Some (ret, w)
     else do {
       (ret, w) \<leftarrow> nor_send_cmd E NOR_MXIC_CMD_ESSPB w;
       if ret \<noteq> 0 then Some (ret, w) else nor_wait_ready E 10 500 w
     }
   }"

definition nor_mxic_init_lock :: "'b env \<Rightarrow> 'b nor \<Rightarrow> (int \<times> 'b nor) option" where
  "nor_mxic_init_lock E w = do {
     (ret, w) \<leftarrow> nor_mxic_set_wps E w;
     if ret \<noteq> 0 then Some (ret, w) else nor_mxic_reset_spb E w
   }"

definition nor_mxic_blk_islock :: "'b env \<Rightarrow> u32 \<Rightarrow> 'b nor \<Rightarrow> (bool \<times> 'b nor) option" where
  "nor_mxic_blk_islock E addr w = do {
     (ret, st, w) \<leftarrow> nor_transfer E 5 (NOR_MXIC_CMD_RDDPB # addr4 addr) 5 [0] 1 w;
     if ret \<noteq> 0 then Some (True, w) else Some (st ! 0 = 0xFF, w)
   }"

definition nor_mxic_blk_unlock :: "'b env \<Rightarrow> u32 \<Rightarrow> 'b nor \<Rightarrow> (int \<times> 'b nor) option" where
  "nor_mxic_blk_unlock E addr w = do {
     (ret, w) \<leftarrow> nor_write_enable E w;
     if ret \<noteq> 0 then Some (ret, w)
     else do {
       (ret, _, w) \<leftarrow>
         nor_transfer E 6 (NOR_MXIC_CMD_WRDPB # addr4 addr @ [NOR_MXIC_DPB_UNLOCK]) 6 [] 0 w;
       if ret \<noteq> 0 then Some (ret, w)
       else do {
         (locked, w) \<leftarrow> nor_mxic_blk_islock E addr w;
         if locked then Some (- EBUSY, w) else Some (0, w)
       }
     }
   }"

definition nor_mxic_blk_lock :: "'b env \<Rightarrow> u32 \<Rightarrow> 'b nor \<Rightarrow> (int \<times> 'b nor) option" where
  "nor_mxic_blk_lock E addr w = do {
     (ret, w) \<leftarrow> nor_write_enable E w;
     if ret \<noteq> 0 then Some (ret, w)
     else do {
       (ret, _, w) \<leftarrow>
         nor_transfer E 6 (NOR_MXIC_CMD_WRDPB # addr4 addr @ [NOR_MXIC_DPB_LOCK]) 6 [] 0 w;
       if ret \<noteq> 0 then Some (ret, w)
       else do {
         (locked, w) \<leftarrow> nor_mxic_blk_islock E addr w;
         if locked = False then Some (- EBUSY, w) else Some (0, w)
       }
     }
   }"

definition nor_mxic_lock :: "'b env \<Rightarrow> u32 \<Rightarrow> u32 \<Rightarrow> 'b nor \<Rightarrow> (int \<times> 'b nor) option" where
  "nor_mxic_lock E addr len w = nor_mxic_blk_lock E addr w"

definition nor_mxic_unlock :: "'b env \<Rightarrow> u32 \<Rightarrow> u32 \<Rightarrow> 'b nor \<Rightarrow> (int \<times> 'b nor) option" where
  "nor_mxic_unlock E addr len w = nor_mxic_blk_unlock E addr w"

definition nor_mxic_islock :: "'b env \<Rightarrow> u32 \<Rightarrow> u32 \<Rightarrow> 'b nor \<Rightarrow> (bool \<times> 'b nor) option" where
  "nor_mxic_islock E addr len w = nor_mxic_blk_islock E addr w"

definition nor_mxic :: "'b env \<Rightarrow> 'b nor_factory" where
  "nor_mxic E =
     \<lparr>factory_id = FACTORY_MXIC, idt = idt_mxic, idt_cnt = sizeof_nor_info * length idt_mxic,
      f_init = None, f_init_lock = Some (nor_mxic_init_lock E), f_deinit_lock = None,
      f_lock = Some (nor_mxic_lock E), f_unlock = Some (nor_mxic_unlock E), f_islock = Some (nor_mxic_islock E),
      f_set_quad_mode = Some (nor_mxic_quad_mode E), f_set_4bytes_addr = None\<rparr>"

section \<open>Winbond\<close>

abbreviation (input) NOR_WINBOND_CMD_BLK_LOCK_STATUS :: u8 where "NOR_WINBOND_CMD_BLK_LOCK_STATUS \<equiv> 0x3D"
abbreviation (input) NOR_WINBOND_CMD_BLK_LOCK :: u8 where "NOR_WINBOND_CMD_BLK_LOCK \<equiv> 0x36"
abbreviation (input) NOR_WINBOND_CMD_BLK_UNLOCK :: u8 where "NOR_WINBOND_CMD_BLK_UNLOCK \<equiv> 0x39"
abbreviation (input) NOR_WINBOND_CMD_WRITE_SR3 :: u8 where "NOR_WINBOND_CMD_WRITE_SR3 \<equiv> 0x11"
abbreviation (input) NOR_WINBOND_CMD_READ_SR3 :: u8 where "NOR_WINBOND_CMD_READ_SR3 \<equiv> 0x15"
abbreviation (input) NOR_WINBOND_WPS_MASK :: u8 where "NOR_WINBOND_WPS_MASK \<equiv> 4"
abbreviation (input) NOR_WINBOND_RCV_BIT :: u8 where "NOR_WINBOND_RCV_BIT \<equiv> 8"

definition idt_winbond :: "nor_info list" where
  "idt_winbond =
    [\<lparr>info_model = ''w25q64jv'', info_id = [0xef, 0x40, 0x17], info_total_size = SZ_8M,
       info_flag = SUPPORT_GENERAL\<rparr>,
     \<lparr>info_model = ''w25q128jv'', info_id = [0xef, 0x40, 0x18], info_total_size = SZ_16M,
       info_flag = SUPPORT_GENERAL OR SUPPORT_INDIVIDUAL_PROTECT\<rparr>]"

definition nor_winbond_set_wps :: "'b env \<Rightarrow> bool \<Rightarrow> 'b nor \<Rightarrow> (int \<times> 'b nor) option" where
  "nor_winbond_set_wps E val w = do {
     (ret, reg, w) \<leftarrow> nor_transfer E 1 [NOR_WINBOND_CMD_READ_SR3, 0] 1 [0, 0] 2 w;
     if ret \<noteq> 0 then Some (ret, w)
     else do {
       let sr3 = (if val then reg ! 0 OR NOR_WINBOND_WPS_MASK else reg ! 0 AND NOT NOR_WINBOND_WPS_MASK);
       if sr3 = reg ! 0 then Some (0, w)
       else do {
         (ret, w) \<leftarrow> nor_write_enable E w;
         if ret \<noteq> 0 then Some (ret, w)
         else do {
           (ret, _, w) \<leftarrow> nor_transfer E 2 [NOR_WINBOND_CMD_WRITE_SR3, sr3] 2 [] 0 w;
           if ret \<noteq> 0 then Some (ret, w) else nor_wait_ready E 10 100000 w
         }
       }
     }
   }"

definition nor_winbond_set_rcv :: "'b env \<Rightarrow> bool \<Rightarrow> 'b nor \<Rightarrow> (int \<times> 'b nor) option" where
  "nor_winbond_set_rcv E val w = do {
     (ret, reg, w) \<leftarrow> nor_transfer E 1 [NOR_WINBOND_CMD_READ_SR3, 0] 1 [0, 0] 2 w;
     if ret \<noteq> 0 then Some (ret, w)
     else do {
       let sr3 = (if val then reg ! 0 OR NOR_WINBOND_RCV_BIT else reg ! 0 AND NOT NOR_WINBOND_RCV_BIT);
       if sr3 = reg ! 0 then Some (0, w)
       else do {
         (ret, w) \<leftarrow> nor_write_enable E w;
         if ret \<noteq> 0 then Some (ret, w)
         else do {
           (ret, _, w) \<leftarrow> nor_transfer E 2 [NOR_WINBOND_CMD_WRITE_SR3, sr3] 2 [] 0 w;
           if ret \<noteq> 0 then Some (ret, w) else nor_wait_ready E 10 100000 w
         }
       }
     }
   }"

definition nor_winbond_init :: "'b env \<Rightarrow> 'b nor \<Rightarrow> (int \<times> 'b nor) option" where
  "nor_winbond_init E w = nor_winbond_set_rcv E True w"

definition nor_winbond_init_lock :: "'b env \<Rightarrow> 'b nor \<Rightarrow> (int \<times> 'b nor) option" where
  "nor_winbond_init_lock E w = nor_winbond_set_wps E True w"

definition nor_winbond_deinit_lock :: "'b env \<Rightarrow> 'b nor \<Rightarrow> 'b nor option" where
  "nor_winbond_deinit_lock E w = do { (_, w) \<leftarrow> nor_winbond_set_wps E False w; Some w }"

definition nor_winbond_blk_islock :: "'b env \<Rightarrow> u32 \<Rightarrow> 'b nor \<Rightarrow> (bool \<times> 'b nor) option" where
  "nor_winbond_blk_islock E addr w = do {
     (ret, st, w) \<leftarrow> nor_transfer E 4 (NOR_WINBOND_CMD_BLK_LOCK_STATUS # addr3 addr) 4 [0] 1 w;
     if ret \<noteq> 0 then Some (True, w) else Some (st ! 0 AND 1 \<noteq> 0, w)
   }"

definition nor_winbond_blk_unlock :: "'b env \<Rightarrow> u32 \<Rightarrow> 'b nor \<Rightarrow> (int \<times> 'b nor) option" where
  "nor_winbond_blk_unlock E addr w = do {
     (ret, w) \<leftarrow> nor_write_enable E w;
     if ret \<noteq> 0 then Some (ret, w)
     else do {
       (ret, _, w) \<leftarrow> nor_transfer E 4 (NOR_WINBOND_CMD_BLK_UNLOCK # addr3 addr) 4 [] 0 w;
       if ret \<noteq> 0 then Some (ret, w)
       else do {
         (locked, w) \<leftarrow> nor_winbond_blk_islock E addr w;
         if locked then Some (- EBUSY, w) else Some (0, w)
       }
     }
   }"

definition nor_winbond_blk_lock :: "'b env \<Rightarrow> u32 \<Rightarrow> 'b nor \<Rightarrow> (int \<times> 'b nor) option" where
  "nor_winbond_blk_lock E addr w = do {
     (ret, w) \<leftarrow> nor_write_enable E w;
     if ret \<noteq> 0 then Some (ret, w)
     else do {
       (ret, _, w) \<leftarrow> nor_transfer E 4 (NOR_WINBOND_CMD_BLK_LOCK # addr3 addr) 4 [] 0 w;
       if ret \<noteq> 0 then Some (ret, w)
       else do {
         (locked, w) \<leftarrow> nor_winbond_blk_islock E addr w;
         if locked then Some (0, w) else Some (- EBUSY, w)
       }
     }
   }"

definition nor_winbond_lock :: "'b env \<Rightarrow> u32 \<Rightarrow> u32 \<Rightarrow> 'b nor \<Rightarrow> (int \<times> 'b nor) option" where
  "nor_winbond_lock E addr len w = nor_winbond_blk_lock E addr w"

definition nor_winbond_unlock :: "'b env \<Rightarrow> u32 \<Rightarrow> u32 \<Rightarrow> 'b nor \<Rightarrow> (int \<times> 'b nor) option" where
  "nor_winbond_unlock E addr len w = nor_winbond_blk_unlock E addr w"

definition nor_winbond_islock :: "'b env \<Rightarrow> u32 \<Rightarrow> u32 \<Rightarrow> 'b nor \<Rightarrow> (bool \<times> 'b nor) option" where
  "nor_winbond_islock E addr len w = nor_winbond_blk_islock E addr w"

definition nor_winbond :: "'b env \<Rightarrow> 'b nor_factory" where
  "nor_winbond E =
     \<lparr>factory_id = FACTORY_WINBOND, idt = idt_winbond, idt_cnt = sizeof_nor_info * length idt_winbond,
      f_init = Some (nor_winbond_init E), f_init_lock = Some (nor_winbond_init_lock E), f_deinit_lock = Some (nor_winbond_deinit_lock E),
      f_lock = Some (nor_winbond_lock E), f_unlock = Some (nor_winbond_unlock E), f_islock = Some (nor_winbond_islock E),
      f_set_quad_mode = None, f_set_4bytes_addr = None\<rparr>"

section \<open>XTX\<close>

abbreviation (input) NOR_XTX_QE_BIT :: u8 where "NOR_XTX_QE_BIT \<equiv> 2"
abbreviation (input) NOR_XTX_WPS_BIT :: u8 where "NOR_XTX_WPS_BIT \<equiv> 0x10"
abbreviation (input) NOR_XTX_CMD_READ_SR1 :: u8 where "NOR_XTX_CMD_READ_SR1 \<equiv> 0x35"
abbreviation (input) NOR_XTX_CMD_BLK_LOCK_STATUS :: u8 where "NOR_XTX_CMD_BLK_LOCK_STATUS \<equiv> 0x3D"
abbreviation (input) NOR_XTX_CMD_BLK_LOCK :: u8 where "NOR_XTX_CMD_BLK_LOCK \<equiv> 0x36"
abbreviation (input) NOR_XTX_CMD_BLK_UNLOCK :: u8 where "NOR_XTX_CMD_BLK_UNLOCK \<equiv> 0x39"

definition idt_xtx :: "nor_info list" where
  "idt_xtx =
    [\<lparr>info_model = ''xt25f128'', info_id = [0x0b, 0x40, 0x18], info_total_size = SZ_16M,
       info_flag = SUPPORT_GENERAL OR SUPPORT_INDIVIDUAL_PROTECT\<rparr>]"

definition nor_xtx_read_status1 :: "'b env \<Rightarrow> u8 \<Rightarrow> 'b nor \<Rightarrow> (int \<times> u8 \<times> 'b nor) option" where
  "nor_xtx_read_status1 E sr1 w = do {
     (ret, reg, w) \<leftarrow> nor_transfer E 1 [NOR_XTX_CMD_READ_SR1] 1 [0, 0] 2 w;
     if ret \<noteq> 0 then Some (ret, sr1, w) else Some (0, reg ! 1, w)
   }"

definition nor_xtx_quad_mode :: "'b env \<Rightarrow> 'b nor \<Rightarrow> (int \<times> 'b nor) option" where
  "nor_xtx_quad_mode E w = do {
     (ret, sr1, w) \<leftarrow> nor_xtx_read_status1 E 0 w;
     if ret \<noteq> 0 then Some (ret, w)
     else if sr1 AND NOR_XTX_QE_BIT \<noteq> 0 then Some (0, w)
     else do {
       let sr1 = sr1 OR NOR_XTX_QE_BIT;
       (ret, sr0, w) \<leftarrow> nor_read_status E 0 w;
       if ret \<noteq> 0 then Some (ret, w)
       else do {
         (ret, w) \<leftarrow> nor_write_status E [sr0, sr1] 2 w;
         if ret \<noteq> 0 then Some (ret, w)
         else do {
           (ret, sr1, w) \<leftarrow> nor_xtx_read_status1 E sr1 w;
           if ret \<noteq> 0 then Some (ret, w)
           else if sr1 AND NOR_XTX_QE_BIT = 0 then Some (- EINVAL, w)
           else Some (0, w)
         }
       }
     }
   }"

definition nor_xtx_set_wps :: "'b env \<Rightarrow> bool \<Rightarrow> 'b nor \<Rightarrow> (int \<times> 'b nor) option" where
  "nor_xtx_set_wps E wps w = do {
     (ret, sr1, w) \<leftarrow> nor_xtx_read_status1 E 0 w;
     if ret \<noteq> 0 then Some (ret, w)
     else do {
       let new1 = (if wps then sr1 OR NOR_XTX_WPS_BIT else sr1 AND NOT NOR_XTX_WPS_BIT);
       if sr1 = new1 then Some (0, w)
       else do {
         (ret, sr0, w) \<leftarrow> nor_read_status E 0 w;
         if ret \<noteq> 0 then Some (ret, w)
         else do {
           (ret, w) \<leftarrow> nor_write_status E [sr0, new1] 2 w;
           if ret \<noteq> 0 then Some (ret, w)
           else do {
             (ret, sr1, w) \<leftarrow> nor_xtx_read_status1 E sr1 w;
             if ret \<noteq> 0 then Some (ret, w)
             else if sr1 AND NOR_XTX_WPS_BIT \<noteq> new1 AND NOR_XTX_WPS_BIT
             then Some (- EINVAL, w) else Some (0, w)
           }
         }
       }
     }
   }"

definition nor_xtx_init_lock :: "'b env \<Rightarrow> 'b nor \<Rightarrow> (int \<times> 'b nor) option" where
  "nor_xtx_init_lock E w = nor_xtx_set_wps E True w"

definition nor_xtx_deinit_lock :: "'b env \<Rightarrow> 'b nor \<Rightarrow> 'b nor option" where
  "nor_xtx_deinit_lock E w = do { (_, w) \<leftarrow> nor_xtx_set_wps E False w; Some w }"

definition nor_xtx_blk_islock :: "'b env \<Rightarrow> u32 \<Rightarrow> 'b nor \<Rightarrow> (bool \<times> 'b nor) option" where
  "nor_xtx_blk_islock E addr w = do {
     (ret, st, w) \<leftarrow> nor_transfer E 4 (NOR_XTX_CMD_BLK_LOCK_STATUS # addr3 addr) 4 [0] 1 w;
     if ret \<noteq> 0 then Some (True, w) else Some (st ! 0 AND 1 \<noteq> 0, w)
   }"

definition nor_xtx_blk_unlock :: "'b env \<Rightarrow> u32 \<Rightarrow> 'b nor \<Rightarrow> (int \<times> 'b nor) option" where
  "nor_xtx_blk_unlock E addr w = do {
     (ret, w) \<leftarrow> nor_write_enable E w;
     if ret \<noteq> 0 then Some (ret, w)
     else do {
       (ret, _, w) \<leftarrow> nor_transfer E 4 (NOR_XTX_CMD_BLK_UNLOCK # addr3 addr) 4 [] 0 w;
       if ret \<noteq> 0 then Some (ret, w)
       else do {
         (locked, w) \<leftarrow> nor_xtx_blk_islock E addr w;
         if locked then Some (- EBUSY, w) else Some (0, w)
       }
     }
   }"

definition nor_xtx_blk_lock :: "'b env \<Rightarrow> u32 \<Rightarrow> 'b nor \<Rightarrow> (int \<times> 'b nor) option" where
  "nor_xtx_blk_lock E addr w = do {
     (ret, w) \<leftarrow> nor_write_enable E w;
     if ret \<noteq> 0 then Some (ret, w)
     else do {
       (ret, _, w) \<leftarrow> nor_transfer E 4 (NOR_XTX_CMD_BLK_LOCK # addr3 addr) 4 [] 0 w;
       if ret \<noteq> 0 then Some (ret, w)
       else do {
         (locked, w) \<leftarrow> nor_xtx_blk_islock E addr w;
         if locked then Some (0, w) else Some (- EBUSY, w)
       }
     }
   }"

definition nor_xtx_lock :: "'b env \<Rightarrow> u32 \<Rightarrow> u32 \<Rightarrow> 'b nor \<Rightarrow> (int \<times> 'b nor) option" where
  "nor_xtx_lock E addr len w = nor_xtx_blk_lock E addr w"

definition nor_xtx_unlock :: "'b env \<Rightarrow> u32 \<Rightarrow> u32 \<Rightarrow> 'b nor \<Rightarrow> (int \<times> 'b nor) option" where
  "nor_xtx_unlock E addr len w = nor_xtx_blk_unlock E addr w"

definition nor_xtx_islock :: "'b env \<Rightarrow> u32 \<Rightarrow> u32 \<Rightarrow> 'b nor \<Rightarrow> (bool \<times> 'b nor) option" where
  "nor_xtx_islock E addr len w = nor_xtx_blk_islock E addr w"

definition nor_xtx :: "'b env \<Rightarrow> 'b nor_factory" where
  "nor_xtx E =
     \<lparr>factory_id = FACTORY_XTX, idt = idt_xtx, idt_cnt = sizeof_nor_info * length idt_xtx,
      f_init = None, f_init_lock = Some (nor_xtx_init_lock E), f_deinit_lock = Some (nor_xtx_deinit_lock E),
      f_lock = Some (nor_xtx_lock E), f_unlock = Some (nor_xtx_unlock E), f_islock = Some (nor_xtx_islock E),
      f_set_quad_mode = Some (nor_xtx_quad_mode E), f_set_4bytes_addr = None\<rparr>"

section \<open>ESMT\<close>

definition idt_esmt :: "nor_info list" where
  "idt_esmt =
    [\<lparr>info_model = ''en25qh128'', info_id = [0x1c, 0x70, 0x18], info_total_size = SZ_16M,
       info_flag = SUPPORT_GENERAL\<rparr>]"

definition nor_esmt :: "'b env \<Rightarrow> 'b nor_factory" where
  "nor_esmt E =
     \<lparr>factory_id = FACTORY_ESMT, idt = idt_esmt, idt_cnt = sizeof_nor_info * length idt_esmt,
      f_init = None, f_init_lock = None, f_deinit_lock = None,
      f_lock = None, f_unlock = None, f_islock = None,
      f_set_quad_mode = None, f_set_4bytes_addr = None\<rparr>"

section \<open>Fudan Microelectronics\<close>

abbreviation (input) NOR_FM_QE_BIT :: u8 where "NOR_FM_QE_BIT \<equiv> 2"
abbreviation (input) NOR_FM_WPS_BIT :: u8 where "NOR_FM_WPS_BIT \<equiv> 8"
abbreviation (input) NOR_FM_CMD_READ_SR1 :: u8 where "NOR_FM_CMD_READ_SR1 \<equiv> 0x35"
abbreviation (input) NOR_FM_CMD_BLK_LOCK_STATUS :: u8 where "NOR_FM_CMD_BLK_LOCK_STATUS \<equiv> 0x3D"
abbreviation (input) NOR_FM_CMD_BLK_LOCK :: u8 where "NOR_FM_CMD_BLK_LOCK \<equiv> 0x36"
abbreviation (input) NOR_FM_CMD_BLK_UNLOCK :: u8 where "NOR_FM_CMD_BLK_UNLOCK \<equiv> 0x39"

definition idt_fm :: "nor_info list" where
  "idt_fm =
    [\<lparr>info_model = ''fm25w128'', info_id = [0xa1, 0x28, 0x18], info_total_size = SZ_16M,
       info_flag = SUPPORT_GENERAL OR SUPPORT_INDIVIDUAL_PROTECT\<rparr>,
     \<lparr>info_model = ''fm25q128a'', info_id = [0xa1, 0x40, 0x18], info_total_size = SZ_16M,
       info_flag = SUPPORT_GENERAL OR SUPPORT_INDIVIDUAL_PROTECT\<rparr>]"

definition nor_fm_read_status1 :: "'b env \<Rightarrow> u8 \<Rightarrow> 'b nor \<Rightarrow> (int \<times> u8 \<times> 'b nor) option" where
  "nor_fm_read_status1 E sr1 w = do {
     (ret, reg, w) \<leftarrow> nor_transfer E 1 [NOR_FM_CMD_READ_SR1] 1 [0, 0] 2 w;
     if ret \<noteq> 0 then Some (ret, sr1, w) else Some (0, reg ! 1, w)
   }"

definition nor_fm_quad_mode :: "'b env \<Rightarrow> 'b nor \<Rightarrow> (int \<times> 'b nor) option" where
  "nor_fm_quad_mode E w = do {
     (ret, sr1, w) \<leftarrow> nor_fm_read_status1 E 0 w;
     if ret \<noteq> 0 then Some (ret, w)
     else if sr1 AND NOR_FM_QE_BIT \<noteq> 0 then Some (0, w)
     else do {
       let sr1 = sr1 OR NOR_FM_QE_BIT;
       (ret, sr0, w) \<leftarrow> nor_read_status E 0 w;
       if ret \<noteq> 0 then Some (ret, w)
       else do {
         (ret, w) \<leftarrow> nor_write_status E [sr0, sr1] 2 w;
         if ret \<noteq> 0 then Some (ret, w)
         else do {
           (ret, sr1, w) \<leftarrow> nor_fm_read_status1 E sr1 w;
           if ret \<noteq> 0 then Some (ret, w)
           else if sr1 AND NOR_FM_QE_BIT = 0 then Some (- EINVAL, w)
           else Some (0, w)
         }
       }
     }
   }"

definition nor_fm_set_wps :: "'b env \<Rightarrow> bool \<Rightarrow> 'b nor \<Rightarrow> (int \<times> 'b nor) option" where
  "nor_fm_set_wps E wps w = do {
     (ret, sr1, w) \<leftarrow> nor_fm_read_status1 E 0 w;
     if ret \<noteq> 0 then Some (ret, w)
     else do {
       let new1 = (if wps then sr1 OR NOR_FM_WPS_BIT else sr1 AND NOT NOR_FM_WPS_BIT);
       if sr1 = new1 then Some (0, w)
       else do {
         (ret, sr0, w) \<leftarrow> nor_read_status E 0 w;
         if ret \<noteq> 0 then Some (ret, w)
         else do {
           (ret, w) \<leftarrow> nor_write_status E [sr0, new1] 2 w;
           if ret \<noteq> 0 then Some (ret, w)
           else do {
             (ret, sr1, w) \<leftarrow> nor_fm_read_status1 E sr1 w;
             if ret \<noteq> 0 then Some (ret, w)
             else if sr1 AND NOR_FM_WPS_BIT \<noteq> new1 AND NOR_FM_WPS_BIT
             then Some (- EINVAL, w) else Some (0, w)
           }
         }
       }
     }
   }"

definition nor_fm_init_lock :: "'b env \<Rightarrow> 'b nor \<Rightarrow> (int \<times> 'b nor) option" where
  "nor_fm_init_lock E w = nor_fm_set_wps E True w"

definition nor_fm_deinit_lock :: "'b env \<Rightarrow> 'b nor \<Rightarrow> 'b nor option" where
  "nor_fm_deinit_lock E w = do { (_, w) \<leftarrow> nor_fm_set_wps E False w; Some w }"

definition nor_fm_blk_islock :: "'b env \<Rightarrow> u32 \<Rightarrow> 'b nor \<Rightarrow> (bool \<times> 'b nor) option" where
  "nor_fm_blk_islock E addr w = do {
     (ret, st, w) \<leftarrow> nor_transfer E 4 (NOR_FM_CMD_BLK_LOCK_STATUS # addr3 addr) 4 [0] 1 w;
     if ret \<noteq> 0 then Some (True, w) else Some (st ! 0 AND 1 \<noteq> 0, w)
   }"

definition nor_fm_blk_unlock :: "'b env \<Rightarrow> u32 \<Rightarrow> 'b nor \<Rightarrow> (int \<times> 'b nor) option" where
  "nor_fm_blk_unlock E addr w = do {
     (ret, w) \<leftarrow> nor_write_enable E w;
     if ret \<noteq> 0 then Some (ret, w)
     else do {
       (ret, _, w) \<leftarrow> nor_transfer E 4 (NOR_FM_CMD_BLK_UNLOCK # addr3 addr) 4 [] 0 w;
       if ret \<noteq> 0 then Some (ret, w)
       else do {
         (locked, w) \<leftarrow> nor_fm_blk_islock E addr w;
         if locked then Some (- EBUSY, w) else Some (0, w)
       }
     }
   }"

definition nor_fm_blk_lock :: "'b env \<Rightarrow> u32 \<Rightarrow> 'b nor \<Rightarrow> (int \<times> 'b nor) option" where
  "nor_fm_blk_lock E addr w = do {
     (ret, w) \<leftarrow> nor_write_enable E w;
     if ret \<noteq> 0 then Some (ret, w)
     else do {
       (ret, _, w) \<leftarrow> nor_transfer E 4 (NOR_FM_CMD_BLK_LOCK # addr3 addr) 4 [] 0 w;
       if ret \<noteq> 0 then Some (ret, w)
       else do {
         (locked, w) \<leftarrow> nor_fm_blk_islock E addr w;
         if locked then Some (0, w) else Some (- EBUSY, w)
       }
     }
   }"

definition nor_fm_lock :: "'b env \<Rightarrow> u32 \<Rightarrow> u32 \<Rightarrow> 'b nor \<Rightarrow> (int \<times> 'b nor) option" where
  "nor_fm_lock E addr len w = nor_fm_blk_lock E addr w"

definition nor_fm_unlock :: "'b env \<Rightarrow> u32 \<Rightarrow> u32 \<Rightarrow> 'b nor \<Rightarrow> (int \<times> 'b nor) option" where
  "nor_fm_unlock E addr len w = nor_fm_blk_unlock E addr w"

definition nor_fm_islock :: "'b env \<Rightarrow> u32 \<Rightarrow> u32 \<Rightarrow> 'b nor \<Rightarrow> (bool \<times> 'b nor) option" where
  "nor_fm_islock E addr len w = nor_fm_blk_islock E addr w"

definition nor_fm :: "'b env \<Rightarrow> 'b nor_factory" where
  "nor_fm E =
     \<lparr>factory_id = FACTORY_FM, idt = idt_fm, idt_cnt = sizeof_nor_info * length idt_fm,
      f_init = None, f_init_lock = Some (nor_fm_init_lock E), f_deinit_lock = Some (nor_fm_deinit_lock E),
      f_lock = Some (nor_fm_lock E), f_unlock = Some (nor_fm_unlock E), f_islock = Some (nor_fm_islock E),
      f_set_quad_mode = Some (nor_fm_quad_mode E), f_set_4bytes_addr = None\<rparr>"

section \<open>XMC\<close>

abbreviation (input) NOR_XMC_QE_BIT :: u8 where "NOR_XMC_QE_BIT \<equiv> 2"
abbreviation (input) NOR_XMC_CMD_READ_SR2 :: u8 where "NOR_XMC_CMD_READ_SR2 \<equiv> 0x35"
abbreviation (input) NOR_XMC_CMD_WRITE_SR2 :: u8 where "NOR_XMC_CMD_WRITE_SR2 \<equiv> 0x31"

definition idt_xmc :: "nor_info list" where
  "idt_xmc =
    [\<lparr>info_model = ''XM25QH128CHIQ'', info_id = [0x20, 0x40, 0x18], info_total_size = SZ_16M,
       info_flag = SUPPORT_GENERAL\<rparr>]"

definition nor_xmc_read_status2 :: "'b env \<Rightarrow> u8 \<Rightarrow> 'b nor \<Rightarrow> (int \<times> u8 \<times> 'b nor) option" where
  "nor_xmc_read_status2 E sr w = do {
     (ret, reg, w) \<leftarrow> nor_transfer E 1 [NOR_XMC_CMD_READ_SR2] 1 [0, 0] 2 w;
     if ret \<noteq> 0 then Some (ret, sr, w) else Some (0, reg ! 1, w)
   }"

definition nor_xmc_write_status2 :: "'b env \<Rightarrow> u8 list \<Rightarrow> nat \<Rightarrow> 'b nor \<Rightarrow> (int \<times> 'b nor) option" where
  "nor_xmc_write_status2 E sr len w = do {
     (ret, w) \<leftarrow> nor_write_enable E w;
     if ret \<noteq> 0 then Some (ret, w)
     else if len > 5 then Some (- EINVAL, w)
     else do {
       bs \<leftarrow> read_at 0 len sr;
       tbuf \<leftarrow> write_at 1 bs [NOR_XMC_CMD_WRITE_SR2, 0, 0, 0, 0];
       (ret, _, w) \<leftarrow> nor_transfer E (len + 1) tbuf (len + 1) [] 0 w;
       if ret \<noteq> 0 then Some (ret, w) else nor_wait_ready E 10 MAX_WAIT_LOOP w
     }
   }"

definition nor_xmc_set_wps :: "bool \<Rightarrow> int" where
  "nor_xmc_set_wps val = 0"

definition nor_xmc_init :: "'b env \<Rightarrow> 'b nor \<Rightarrow> (int \<times> 'b nor) option" where
  "nor_xmc_init E w = Some (0, w)"

definition nor_xmc_init_lock :: "'b env \<Rightarrow> 'b nor \<Rightarrow> (int \<times> 'b nor) option" where
  "nor_xmc_init_lock E w = Some (nor_xmc_set_wps True, w)"

definition nor_xmc_deinit_lock :: "'b env \<Rightarrow> 'b nor \<Rightarrow> 'b nor option" where
  "nor_xmc_deinit_lock E w = (let _ = nor_xmc_set_wps False in Some w)"

definition nor_xmc_quad_mode :: "'b env \<Rightarrow> 'b nor \<Rightarrow> (int \<times> 'b nor) option" where
  "nor_xmc_quad_mode E w = do {
     (ret, sr, w) \<leftarrow> nor_xmc_read_status2 E 0 w;
     if ret \<noteq> 0 then Some (ret, w)
     else do {
       let sr = sr OR NOR_XMC_QE_BIT;
       (ret, w) \<leftarrow> nor_xmc_write_status2 E [sr] 1 w;
       if ret \<noteq> 0 then Some (ret, w)
       else do {
         (ret, sr, w) \<leftarrow> nor_xmc_read_status2 E sr w;
         if ret \<noteq> 0 then Some (ret, w)
         else if sr AND NOR_XMC_QE_BIT = 0 then Some (- EINVAL, w)
         else Some (0, w)
       }
     }
   }"

definition nor_xmc_lock :: "'b env \<Rightarrow> u32 \<Rightarrow> u32 \<Rightarrow> 'b nor \<Rightarrow> (int \<times> 'b nor) option" where
  "nor_xmc_lock E addr len w = Some (0, w)"

definition nor_xmc_unlock :: "'b env \<Rightarrow> u32 \<Rightarrow> u32 \<Rightarrow> 'b nor \<Rightarrow> (int \<times> 'b nor) option" where
  "nor_xmc_unlock E addr len w = Some (0, w)"

definition nor_xmc_islock :: "'b env \<Rightarrow> u32 \<Rightarrow> u32 \<Rightarrow> 'b nor \<Rightarrow> (bool \<times> 'b nor) option" where
  "nor_xmc_islock E addr len w = Some (True, w)"

definition nor_xmc :: "'b env \<Rightarrow> 'b nor_factory" where
  "nor_xmc E =
     \<lparr>factory_id = FACTORY_XMC, idt = idt_xmc, idt_cnt = sizeof_nor_info * length idt_xmc,
      f_init = Some (nor_xmc_init E), f_init_lock = Some (nor_xmc_init_lock E), f_deinit_lock = Some (nor_xmc_deinit_lock E),
      f_lock = Some (nor_xmc_lock E), f_unlock = Some (nor_xmc_unlock E), f_islock = Some (nor_xmc_islock E),
      f_set_quad_mode = Some (nor_xmc_quad_mode E), f_set_4bytes_addr = None\<rparr>"

section \<open>Puya\<close>

abbreviation (input) NOR_PUYA_QE_BIT :: u8 where "NOR_PUYA_QE_BIT \<equiv> 2"
abbreviation (input) NOR_PUYA_CMD_RDSR2 :: u8 where "NOR_PUYA_CMD_RDSR2 \<equiv> 0x35"
abbreviation (input) NOR_PUYA_CMD_WRSR2 :: u8 where "NOR_PUYA_CMD_WRSR2 \<equiv> 0x31"

definition idt_puya :: "nor_info list" where
  "idt_puya =
    [\<lparr>info_model = ''P25Q64H'', info_id = [0x85, 0x60, 0x17], info_total_size = SZ_8M,
       info_flag = SUPPORT_GENERAL\<rparr>]"

definition nor_puya_quad_mode :: "'b env \<Rightarrow> 'b nor \<Rightarrow> (int \<times> 'b nor) option" where
  "nor_puya_quad_mode E w = do {
     (ret, reg, w) \<leftarrow> nor_transfer E 1 [NOR_PUYA_CMD_RDSR2] 1 [0, 0] 2 w;
     if ret \<noteq> 0 then Some (ret, w)
     else if reg ! 1 AND NOR_PUYA_QE_BIT \<noteq> 0 then Some (0, w)
     else do {
       (ret, w) \<leftarrow> nor_write_enable E w;
       if ret \<noteq> 0 then Some (ret, w)
       else do {
         (ret, _, w) \<leftarrow>
           nor_transfer E 2 [NOR_PUYA_CMD_WRSR2, reg ! 1 OR NOR_PUYA_QE_BIT] 2 [] 0 w;
         if ret \<noteq> 0 then Some (ret, w)
         else do {
           (ret, w) \<leftarrow> nor_wait_ready E 0 500 w;
           if ret \<noteq> 0 then Some (- EBUSY, w)
           else do {
             (ret, reg, w) \<leftarrow> nor_transfer E 1 [NOR_PUYA_CMD_RDSR2] 1 [0, 0] 2 w;
             if ret \<noteq> 0 then Some (ret, w)
             else if reg ! 1 AND NOR_PUYA_QE_BIT = 0 then Some (- EINVAL, w)
             else Some (0, w)
           }
         }
       }
     }
   }"

definition nor_puya :: "'b env \<Rightarrow> 'b nor_factory" where
  "nor_puya E =
     \<lparr>factory_id = FACTORY_PUYA, idt = idt_puya, idt_cnt = sizeof_nor_info * length idt_puya,
      f_init = None, f_init_lock = None, f_deinit_lock = None,
      f_lock = None, f_unlock = None, f_islock = None,
      f_set_quad_mode = Some (nor_puya_quad_mode E), f_set_4bytes_addr = None\<rparr>"

section \<open>Zetta\<close>

abbreviation (input) NOR_ZETTA_QE_BIT :: u8 where "NOR_ZETTA_QE_BIT \<equiv> 2"
abbreviation (input) NOR_ZETTA_CMD_RDSR2 :: u8 where "NOR_ZETTA_CMD_RDSR2 \<equiv> 0x35"
abbreviation (input) NOR_ZETTA_CMD_WRSR2 :: u8 where "NOR_ZETTA_CMD_WRSR2 \<equiv> 0x31"

definition idt_zetta :: "nor_info list" where
  "idt_zetta =
    [\<lparr>info_model = ''ZD25Q64B'', info_id = [0xBA, 0x32, 0x17], info_total_size = SZ_8M,
       info_flag = SUPPORT_GENERAL\<rparr>]"

definition nor_zetta_quad_mode :: "'b env \<Rightarrow> 'b nor \<Rightarrow> (int \<times> 'b nor) option" where
  "nor_zetta_quad_mode E w = do {
     (ret, reg, w) \<leftarrow> nor_transfer E 1 [NOR_ZETTA_CMD_RDSR2] 1 [0, 0] 2 w;
     if ret \<noteq> 0 then Some (ret, w)
     else if reg ! 1 AND NOR_ZETTA_QE_BIT \<noteq> 0 then Some (0, w)
     else do {
       (ret, w) \<leftarrow> nor_write_enable E w;
       if ret \<noteq> 0 then Some (ret, w)
       else do {
         (ret, _, w) \<leftarrow>
           nor_transfer E 2 [NOR_ZETTA_CMD_WRSR2, reg ! 1 OR NOR_ZETTA_QE_BIT] 2 [] 0 w;
         if ret \<noteq> 0 then Some (ret, w)
         else do {
           (ret, w) \<leftarrow> nor_wait_ready E 0 500 w;
           if ret \<noteq> 0 then Some (- EBUSY, w)
           else do {
             (ret, reg, w) \<leftarrow> nor_transfer E 1 [NOR_ZETTA_CMD_RDSR2] 1 reg 2 w;
             if ret \<noteq> 0 then Some (ret, w)
             else if reg ! 1 AND NOR_ZETTA_QE_BIT = 0 then Some (- EINVAL, w)
             else Some (0, w)
           }
         }
       }
     }
   }"

definition nor_zetta :: "'b env \<Rightarrow> 'b nor_factory" where
  "nor_zetta E =
     \<lparr>factory_id = FACTORY_ZETTA, idt = idt_zetta, idt_cnt = sizeof_nor_info * length idt_zetta,
      f_init = None, f_init_lock = None, f_deinit_lock = None,
      f_lock = None, f_unlock = None, f_islock = None,
      f_set_quad_mode = Some (nor_zetta_quad_mode E), f_set_4bytes_addr = None\<rparr>"

section \<open>The static factory a name stands for\<close>

fun factory_of :: "'b env \<Rightarrow> fid \<Rightarrow> 'b nor_factory" where
  "factory_of E GD = nor_gd E"
| "factory_of E MXIC = nor_mxic E"
| "factory_of E WINBOND = nor_winbond E"
| "factory_of E XTX = nor_xtx E"
| "factory_of E ESMT = nor_esmt E"
| "factory_of E FM = nor_fm E"
| "factory_of E XMC = nor_xmc E"
| "factory_of E PUYA = nor_puya E"
| "factory_of E ZETTA = nor_zetta E"

lemmas nor_factory_defs =
  nor_gd_def nor_mxic_def nor_winbond_def nor_xtx_def nor_esmt_def nor_fm_def nor_xmc_def
  nor_puya_def nor_zetta_def

lemmas idt_defs =
  idt_gd_def idt_mxic_def idt_winbond_def idt_xtx_def idt_esmt_def idt_fm_def idt_xmc_def
  idt_puya_def idt_zetta_def

end
