(* ===== verification/Nor_Wrlock.thy ===== *)
theory Nor_Wrlock
  imports Nor_Factory
begin

unbundle bit_operations_syntax

text \<open>
  Individual block protection (\<open>spinor/wrlock.c\<close>). The operations walk over an address range
  block by block and call the factory's lock operation for each. \<open>DEBUG_WRLOCK\<close> is not defined.
\<close>

abbreviation (input) NOR_CMD_BLK_LOCK_ALL :: u8 where "NOR_CMD_BLK_LOCK_ALL \<equiv> 0x7E"
abbreviation (input) NOR_CMD_BLK_UNLOCK_ALL :: u8 where "NOR_CMD_BLK_UNLOCK_ALL \<equiv> 0x98"

definition the_factory :: "'b env \<Rightarrow> 'b nor \<Rightarrow> 'b nor_factory option" where
  "the_factory E w = map_option (factory_of E) (nor_fac w)"

definition nor_wr_lock_init :: "'b env \<Rightarrow> 'b nor \<Rightarrow> (int \<times> 'b nor) option" where
  "nor_wr_lock_init E w = do {
     f \<leftarrow> the_factory E w;
     case f_init_lock f of Some op \<Rightarrow> op w | None \<Rightarrow> Some (0, w)
   }"

definition nor_wr_lock_deinit :: "'b env \<Rightarrow> 'b nor \<Rightarrow> 'b nor option" where
  "nor_wr_lock_deinit E w = do {
     f \<leftarrow> the_factory E w;
     case f_deinit_lock f of Some op \<Rightarrow> op w | None \<Rightarrow> Some w
   }"

section \<open>Walking over the blocks\<close>

text \<open>The first and the last 64K of the chip are protected by sectors, the rest by blocks.\<close>

definition wr_align_size :: "u32 \<Rightarrow> u32 \<Rightarrow> u32" where
  "wr_align_size tot addr =
     (if addr \<ge> tot - SZ_64K \<or> addr < SZ_64K then SZ_4K else SZ_64K)"

lemma wr_align_size_pos: "0 < wr_align_size tot addr"
  by (simp add: wr_align_size_def)

lemma unat_sub_min: "0 < a \<Longrightarrow> len \<noteq> 0 \<Longrightarrow> unat (len - min a len) < unat (len :: 'a::len word)"
  by (auto simp: min_def word_le_nat_alt word_less_nat_alt unat_sub_if' unat_gt_0)

text \<open>
  The loop shared by \<open>nor_wr_lock\<close> and \<open>nor_wr_unlock\<close>: note that the address advances by
  \<open>MIN (align_size, len)\<close> for the length that is already reduced.
\<close>

function wr_loop ::
  "(u32 \<Rightarrow> u32 \<Rightarrow> 'b nor \<Rightarrow> (int \<times> 'b nor) option) \<Rightarrow> int \<Rightarrow> u32 \<Rightarrow> u32 \<Rightarrow> 'b nor \<Rightarrow> (int \<times> 'b nor) option"
where
  "wr_loop op ret addr len w =
     (if len = 0 then Some (ret, w)
      else do {
        let align_size = wr_align_size (total_size w) addr;
        let align_addr = ALIGN_DOWN addr align_size;
        (ret, w) \<leftarrow> op align_addr align_size w;
        if ret \<noteq> 0 then Some (ret, w)
        else let len = len - min align_size len; addr = addr + min align_size len
          in wr_loop op ret addr len w
      })"
  by pat_completeness auto
termination
  by (relation "measure (\<lambda>(op, ret, addr, len, w). unat len)")
     (simp_all add: unat_sub_min wr_align_size_pos)

function wr_islock_loop ::
  "(u32 \<Rightarrow> u32 \<Rightarrow> 'b nor \<Rightarrow> (bool \<times> 'b nor) option) \<Rightarrow> bool \<Rightarrow> u32 \<Rightarrow> u32 \<Rightarrow> 'b nor \<Rightarrow> (bool \<times> 'b nor) option"
where
  "wr_islock_loop op ret addr len w =
     (if len = 0 then Some (ret, w)
      else do {
        let align_size = wr_align_size (total_size w) addr;
        let align_addr = ALIGN_DOWN addr align_size;
        (ret, w) \<leftarrow> op align_addr align_size w;
        if ret then Some (ret, w)
        else let len = len - min align_size len; addr = addr + min align_size len
          in wr_islock_loop op ret addr len w
      })"
  by pat_completeness auto
termination
  by (relation "measure (\<lambda>(op, ret, addr, len, w). unat len)")
     (simp_all add: unat_sub_min wr_align_size_pos)

declare wr_loop.simps [simp del] wr_islock_loop.simps [simp del]

definition nor_wr_islock :: "'b env \<Rightarrow> u32 \<Rightarrow> u32 \<Rightarrow> 'b nor \<Rightarrow> (bool \<times> 'b nor) option" where
  "nor_wr_islock E addr len w = do {
     f \<leftarrow> the_factory E w;
     case f_islock f of Some op \<Rightarrow> wr_islock_loop op False addr len w | None \<Rightarrow> Some (False, w)
   }"

definition nor_wr_lock :: "'b env \<Rightarrow> u32 \<Rightarrow> u32 \<Rightarrow> 'b nor \<Rightarrow> (int \<times> 'b nor) option" where
  "nor_wr_lock E addr len w = do {
     f \<leftarrow> the_factory E w;
     case f_lock f of Some op \<Rightarrow> wr_loop op 0 addr len w | None \<Rightarrow> Some (0, w)
   }"

definition nor_wr_unlock :: "'b env \<Rightarrow> u32 \<Rightarrow> u32 \<Rightarrow> 'b nor \<Rightarrow> (int \<times> 'b nor) option" where
  "nor_wr_unlock E addr len w = do {
     f \<leftarrow> the_factory E w;
     case f_unlock f of Some op \<Rightarrow> wr_loop op 0 addr len w | None \<Rightarrow> Some (0, w)
   }"

section \<open>Global lock and unlock\<close>

definition nor_wr_unlock_all :: "'b env \<Rightarrow> 'b nor \<Rightarrow> (int \<times> 'b nor) option" where
  "nor_wr_unlock_all E w = do {
     (ret, w) \<leftarrow> nor_write_enable E w;
     if ret \<noteq> 0 then Some (ret, w) else nor_send_cmd E NOR_CMD_BLK_UNLOCK_ALL w
   }"

definition nor_wr_lock_all :: "'b env \<Rightarrow> 'b nor \<Rightarrow> (int \<times> 'b nor) option" where
  "nor_wr_lock_all E w = do {
     (ret, w) \<leftarrow> nor_write_enable E w;
     if ret \<noteq> 0 then Some (ret, w) else nor_send_cmd E NOR_CMD_BLK_LOCK_ALL w
   }"

end
