(* ===== verification/Nor_Core.thy ===== *)
theory Nor_Core
  imports Nor_Wrlock
begin

unbundle bit_operations_syntax

text \<open>
  The operations of \<open>spinor/core.c\<close> above the command layer: the chain of factories, matching
  the chip's identifier, scanning, initialisation, and reading, writing and erasing.
\<close>

section \<open>The chain of factories\<close>

partial_function (option) chain_last ::
  "(fid option \<Rightarrow> fid option) \<Rightarrow> fid option \<Rightarrow> fid option option"
where
  "chain_last nx p = (case nx p of None \<Rightarrow> Some p | Some f \<Rightarrow> chain_last nx (Some f))"

definition nor_register_factory :: "fid option \<Rightarrow> 'b nor \<Rightarrow> (int \<times> 'b nor) option" where
  "nor_register_factory f w =
     (if f = None then Some (-1, w)
      else do {
        p \<leftarrow> chain_last (fnext w) None;
        Some (0, w\<lparr>fnext := (fnext w)(p := f, f := None)\<rparr>)
      })"

definition nor_register_factory_gd :: "'b nor \<Rightarrow> (int \<times> 'b nor) option" where
  "nor_register_factory_gd w = nor_register_factory (Some GD) w"

definition nor_register_factory_mxic :: "'b nor \<Rightarrow> (int \<times> 'b nor) option" where
  "nor_register_factory_mxic w = nor_register_factory (Some MXIC) w"

definition nor_register_factory_winbond :: "'b nor \<Rightarrow> (int \<times> 'b nor) option" where
  "nor_register_factory_winbond w = nor_register_factory (Some WINBOND) w"

definition nor_register_factory_xtx :: "'b nor \<Rightarrow> (int \<times> 'b nor) option" where
  "nor_register_factory_xtx w = nor_register_factory (Some XTX) w"

definition nor_register_factory_esmt :: "'b nor \<Rightarrow> (int \<times> 'b nor) option" where
  "nor_register_factory_esmt w = nor_register_factory (Some ESMT) w"

definition nor_register_factory_fm :: "'b nor \<Rightarrow> (int \<times> 'b nor) option" where
  "nor_register_factory_fm w = nor_register_factory (Some FM) w"

definition nor_register_factory_xmc :: "'b nor \<Rightarrow> (int \<times> 'b nor) option" where
  "nor_register_factory_xmc w = nor_register_factory (Some XMC) w"

definition nor_register_factory_puya :: "'b nor \<Rightarrow> (int \<times> 'b nor) option" where
  "nor_register_factory_puya w = nor_register_factory (Some PUYA) w"

definition nor_register_factory_zetta :: "'b nor \<Rightarrow> (int \<times> 'b nor) option" where
  "nor_register_factory_zetta w = nor_register_factory (Some ZETTA) w"

definition nor_factory_register :: "'b nor \<Rightarrow> (int \<times> 'b nor) option" where
  "nor_factory_register w = do {
     (_, w) \<leftarrow> nor_register_factory_gd w;
     (_, w) \<leftarrow> nor_register_factory_mxic w;
     (_, w) \<leftarrow> nor_register_factory_winbond w;
     (_, w) \<leftarrow> nor_register_factory_xtx w;
     (_, w) \<leftarrow> nor_register_factory_esmt w;
     (_, w) \<leftarrow> nor_register_factory_fm w;
     (_, w) \<leftarrow> nor_register_factory_xmc w;
     (_, w) \<leftarrow> nor_register_factory_puya w;
     (_, w) \<leftarrow> nor_register_factory_zetta w;
     Some (0, w)
   }"

section \<open>Identification\<close>

text \<open>
  The loop over a factory's table runs up to \<open>idt_cnt\<close>; an entry past the end of the table is
  an out-of-bounds read.
\<close>

fun idt_search :: "nor_info list \<Rightarrow> nat \<Rightarrow> u8 list \<Rightarrow> nat \<Rightarrow> nor_info option option" where
  "idt_search tab 0 ident id_len = Some None"
| "idt_search [] (Suc n) ident id_len = None"
| "idt_search (x # tab) (Suc n) ident id_len =
     (if take id_len (info_id x) = take id_len ident then Some (Some x)
      else idt_search tab n ident id_len)"

partial_function (option) match_nor_from ::
  "'b env \<Rightarrow> fid option \<Rightarrow> u8 list \<Rightarrow> nat \<Rightarrow> 'b nor \<Rightarrow> (int \<times> 'b nor) option"
where
  "match_nor_from E f ident id_len w =
     (case f of
        None \<Rightarrow> Some (-1, w)
      | Some g \<Rightarrow>
          if factory_id (factory_of E g) \<noteq> ident ! 0
          then match_nor_from E (fnext w f) ident id_len w
          else do {
            r \<leftarrow> idt_search (idt (factory_of E g)) (idt_cnt (factory_of E g)) ident id_len;
            case r of
              Some x \<Rightarrow> Some (0, w\<lparr>nor_fac := Some g, nor_info := Some x\<rparr>)
            | None \<Rightarrow> Some (-1, w)
          })"

definition match_nor :: "'b env \<Rightarrow> u8 list \<Rightarrow> nat \<Rightarrow> 'b nor \<Rightarrow> (int \<times> 'b nor) option" where
  "match_nor E ident id_len w = match_nor_from E (fnext w None) ident id_len w"

section \<open>Initialisation\<close>

definition nor_set_4byte :: "'b env \<Rightarrow> bool \<Rightarrow> 'b nor \<Rightarrow> (int \<times> 'b nor) option" where
  "nor_set_4byte E enable w =
     (case Option.bind (the_factory E w) f_set_4bytes_addr of
        Some op \<Rightarrow> op enable w
      | None \<Rightarrow> do {
          (ret, w) \<leftarrow> nor_send_cmd E NOR_CMD_EN4B w;
          if ret \<noteq> 0 then Some (ret, w) else Some (0, w)
        })"

definition nor_spi_master_init :: "'b env \<Rightarrow> 'b nor \<Rightarrow> (int \<times> 'b nor) option" where
  "nor_spi_master_init E w = do {
     let cfg = \<lparr>clock_frequency = 50 * (1000 * 1000), slave_port = 0, cpha = 0, cpol = 0,
                bit_order = 0\<rparr>;
     let w = w\<lparr>spim_port := 0, spim_cfg := cfg\<rparr>;
     (ret, b) \<leftarrow> spi_init E (spim_port w) (spim_cfg w) (bus w);
     Some (ret, w\<lparr>bus := b\<rparr>)
   }"

definition nor_spi_master_deinit :: "'b env \<Rightarrow> 'b nor \<Rightarrow> (int \<times> 'b nor) option" where
  "nor_spi_master_deinit E w = do {
     (ret, b) \<leftarrow> spi_deinit E (spim_port w) (bus w);
     Some (ret, w\<lparr>bus := b\<rparr>)
   }"

definition nor_set_quad_mode :: "'b env \<Rightarrow> 'b nor \<Rightarrow> (int \<times> 'b nor) option" where
  "nor_set_quad_mode E w = do {
     f \<leftarrow> the_factory E w;
     case f_set_quad_mode f of Some op \<Rightarrow> op w | None \<Rightarrow> Some (0, w)
   }"

definition nor_factory_init :: "'b env \<Rightarrow> 'b nor \<Rightarrow> (int \<times> 'b nor) option" where
  "nor_factory_init E w = do {
     f \<leftarrow> the_factory E w;
     case f_init f of Some op \<Rightarrow> op w | None \<Rightarrow> Some (0, w)
   }"

definition cmd_4bytes :: "'b nor \<Rightarrow> u8 \<Rightarrow> u8 \<Rightarrow> u8" where
  "cmd_4bytes w cmd cmd4B = (if addr_width w = 4 then cmd4B else cmd)"

definition scan_geometry :: "'b env \<Rightarrow> 'b nor \<Rightarrow> 'b nor option" where
  "scan_geometry E w = do {
     i \<leftarrow> nor_info w;
     let i = (if info_flag i = 0 then i\<lparr>info_flag := SUPPORT_GENERAL\<rparr> else i);
     let w = w\<lparr>nor_info := Some i, total_size := info_total_size i, addr_width := 3\<rparr>;
     w \<leftarrow> (if total_size w > SZ_16M
           then do { (_, w) \<leftarrow> nor_set_4byte E True (w\<lparr>addr_width := 4\<rparr>); Some w }
           else Some w);
     Some (w\<lparr>page_size := NOR_PAGE_SIZE, blk_size := SZ_4K\<rparr>)
   }"

definition scan_write_cmd :: "u32 \<Rightarrow> 'b nor \<Rightarrow> 'b nor" where
  "scan_write_cmd flag w =
     (let w = w\<lparr>w_cmd_slen := (if addr_width w = 4 then 5 else 4),
                cmd_write := cmd_4bytes w NOR_CMD_PROG NOR_CMD_PROG4B\<rparr>
      in if flag AND SUPPORT_QUAD_WRITE \<noteq> 0
         then let w = w\<lparr>cmd_write := cmd_4bytes w NOR_CMD_QUAD_PROG NOR_CMD_QUAD_PROG4B\<rparr>
           in if flag AND USE_IO_PROG_X4 \<noteq> 0
              then w\<lparr>cmd_write := cmd_4bytes w NOR_CMD_QUAD_IO_PROG NOR_CMD_QUAD_IO_PROG4B,
                     w_cmd_slen := 1\<rparr>
              else w
         else w)"

definition scan_read_cmd :: "u32 \<Rightarrow> 'b nor \<Rightarrow> 'b nor" where
  "scan_read_cmd flag w =
     (let w = w\<lparr>r_cmd_slen := (if addr_width w = 4 then 6 else 5),
                cmd_read := cmd_4bytes w NOR_CMD_FAST_READ NOR_CMD_FAST_READ4B\<rparr>
      in if flag AND SUPPORT_QUAD_READ \<noteq> 0
         then let w = w\<lparr>cmd_read := cmd_4bytes w NOR_CMD_QUAD_READ NOR_CMD_QUAD_READ4B\<rparr>
           in if flag AND USE_IO_READ_X4 \<noteq> 0
              then w\<lparr>cmd_read := cmd_4bytes w NOR_CMD_QUAD_IO_READ NOR_CMD_QUAD_IO_READ4B,
                     r_cmd_slen := 1\<rparr>
              else w
         else if flag AND SUPPORT_DUAL_READ \<noteq> 0
         then let w = w\<lparr>cmd_read := cmd_4bytes w NOR_CMD_DUAL_READ NOR_CMD_DUAL_READ4B\<rparr>
           in if flag AND USE_IO_READ_X2 \<noteq> 0
              then w\<lparr>cmd_read := cmd_4bytes w NOR_CMD_DUAL_IO_READ NOR_CMD_DUAL_IO_READ4B,
                     r_cmd_slen := 1\<rparr>
              else w
         else w)"

definition nor_scan :: "'b env \<Rightarrow> 'b nor \<Rightarrow> (int \<times> 'b nor) option" where
  "nor_scan E w = do {
     (ret, ident, w) \<leftarrow> nor_read_id E [0, 0, 0] MAX_ID_LEN w;
     if ret \<noteq> 0 then Some (ret, w\<lparr>nor_info := None\<rparr>)
     else do {
       (ret, w) \<leftarrow> match_nor E ident MAX_ID_LEN w;
       if ret \<noteq> 0 then Some (ret, w\<lparr>nor_info := None\<rparr>)
       else do {
         w \<leftarrow> scan_geometry E w;
         i \<leftarrow> nor_info w;
         let w = scan_read_cmd (info_flag i) (scan_write_cmd (info_flag i) w);
         if cmd_bit (cmd_read w) = 4 \<or> cmd_bit (cmd_write w) = 4
         then do {
           (ret, w) \<leftarrow> nor_set_quad_mode E w;
           if ret \<noteq> 0 then Some (ret, w\<lparr>nor_info := None\<rparr>) else Some (0, w)
         }
         else Some (0, w)
       }
     }
   }"

text \<open>The label \<open>unlock\<close>: give the semaphore back and return.\<close>

definition unlocked :: "int \<Rightarrow> 'b nor \<Rightarrow> (int \<times> 'b nor) option" where
  "unlocked ret w = (let _ = nor_unlock w in Some (ret, w))"

definition nor_init :: "'b env \<Rightarrow> 'b nor \<Rightarrow> (int \<times> 'b nor) option" where
  "nor_init E w =
     (if nor_info w \<noteq> None then Some (0, w)
      else let (ret, w) = nor_lock_init E w in
        if ret \<noteq> 0 then Some (ret, w)
        else let _ = nor_lock w in do {
          (ret, w) \<leftarrow> nor_spi_master_init E w;
          if ret \<noteq> 0 then unlocked ret w
          else do {
            (ret, w) \<leftarrow> nor_reset E w;
            if ret \<noteq> 0 then unlocked ret w
            else do {
              (ret, w) \<leftarrow> nor_factory_register w;
              if ret \<noteq> 0 then unlocked ret w
              else do {
                (ret, w) \<leftarrow> nor_scan E w;
                if ret \<noteq> 0 then unlocked ret w
                else do {
                  (ret, w) \<leftarrow> nor_factory_init E w;
                  if ret \<noteq> 0 then unlocked ret w
                  else do {
                    (ret, w) \<leftarrow> nor_wr_unlock_all E w;
                    if ret \<noteq> 0 then unlocked ret w else unlocked 0 w
                  }
                }
              }
            }
          }
        })"

definition nor_deinit :: "'b env \<Rightarrow> 'b nor \<Rightarrow> (int \<times> 'b nor) option" where
  "nor_deinit E w =
     (if nor_info w = None then Some (- EBUSY, w)
      else if nor_lock w \<noteq> 0 then Some (- EBUSY, w)
      else do {
        (_, w) \<leftarrow> (if addr_width w = 4 then nor_set_4byte E False w else Some (0, w));
        (_, w) \<leftarrow> nor_spi_master_deinit E w;
        Some (0, w\<lparr>nor_info := None\<rparr>)
      })"

section \<open>Erasing\<close>

text \<open>The command and address bytes shared by erase, read and program.\<close>

definition addr_bytes :: "'b nor \<Rightarrow> u32 \<Rightarrow> u8 list" where
  "addr_bytes w addr = (if addr_width w = 4 then addr4 addr else addr3 addr)"

definition nor_erase_do :: "'b env \<Rightarrow> u8 \<Rightarrow> u32 \<Rightarrow> 'b nor \<Rightarrow> (int \<times> 'b nor) option" where
  "nor_erase_do E cmd addr w = do {
     (ret, w) \<leftarrow> nor_write_enable E w;
     if ret \<noteq> 0 then Some (ret, w)
     else do {
       let tbuf = cmd # addr_bytes w addr;
       (ret, _, w) \<leftarrow> nor_transfer E (length tbuf) tbuf (length tbuf) [] 0 w;
       Some (ret, w)
     }
   }"

definition nor_erase_4k :: "'b env \<Rightarrow> u32 \<Rightarrow> 'b nor \<Rightarrow> (int \<times> 'b nor) option" where
  "nor_erase_4k E addr w = do {
     (ret, w) \<leftarrow> nor_erase_do E (cmd_4bytes w NOR_CMD_ERASE_BLK4K NOR_CMD_ERASE_BLK4K4B) addr w;
     if ret \<noteq> 0 then Some (ret, w) else nor_wait_ready E 30 MAX_WAIT_LOOP w
   }"

definition nor_erase_32k :: "'b env \<Rightarrow> u32 \<Rightarrow> 'b nor \<Rightarrow> (int \<times> 'b nor) option" where
  "nor_erase_32k E addr w = do {
     (ret, w) \<leftarrow> nor_erase_do E (cmd_4bytes w NOR_CMD_ERASE_BLK32K NOR_CMD_ERASE_BLK32K4B) addr w;
     if ret \<noteq> 0 then Some (ret, w) else nor_wait_ready E 120 MAX_WAIT_LOOP w
   }"

definition nor_erase_64k :: "'b env \<Rightarrow> u32 \<Rightarrow> 'b nor \<Rightarrow> (int \<times> 'b nor) option" where
  "nor_erase_64k E addr w = do {
     (ret, w) \<leftarrow> nor_erase_do E (cmd_4bytes w NOR_CMD_ERASE_BLK64K NOR_CMD_ERASE_BLK64K4B) addr w;
     if ret \<noteq> 0 then Some (ret, w) else nor_wait_ready E 150 MAX_WAIT_LOOP w
   }"

definition nor_erase_all :: "'b env \<Rightarrow> 'b nor \<Rightarrow> (int \<times> 'b nor) option" where
  "nor_erase_all E w =
     (if nor_info w = None then Some (- EBUSY, w)
      else do {
        (ret, w) \<leftarrow> nor_write_enable E w;
        if ret \<noteq> 0 then Some (ret, w)
        else do {
          (ret, w) \<leftarrow> nor_send_cmd E NOR_CMD_ERASE_CHIP w;
          if ret \<noteq> 0 then Some (ret, w) else nor_wait_ready E 26000 MAX_WAIT_LOOP w
        }
      })"

text \<open>
  Which erase operation the loop picks for what is left: the block size, or 0 when none fits.
\<close>

definition erase_unit :: "u32 \<Rightarrow> u32 \<Rightarrow> u32 \<Rightarrow> u32" where
  "erase_unit flag addr sz =
     (if sz \<ge> SZ_64K \<and> addr mod SZ_64K = 0 \<and> flag AND SUPPORT_64K_ERASE_BLK \<noteq> 0
         \<and> \<not> flag AND USE_4K_ERASE \<noteq> 0 then SZ_64K
      else if sz \<ge> SZ_32K \<and> addr mod SZ_32K = 0 \<and> flag AND SUPPORT_32K_ERASE_BLK \<noteq> 0
         \<and> \<not> flag AND USE_4K_ERASE \<noteq> 0 then SZ_32K
      else if sz \<ge> SZ_4K \<and> addr mod SZ_4K = 0 \<and> flag AND SUPPORT_4K_ERASE_BLK \<noteq> 0
      then SZ_4K else 0)"

definition nor_erase_unit :: "'b env \<Rightarrow> u32 \<Rightarrow> u32 \<Rightarrow> 'b nor \<Rightarrow> (int \<times> 'b nor) option" where
  "nor_erase_unit E unit addr w =
     (if unit = SZ_64K then nor_erase_64k E addr w
      else if unit = SZ_32K then nor_erase_32k E addr w else nor_erase_4k E addr w)"

lemma erase_unit_le: "erase_unit flag addr sz \<le> sz"
  by (simp add: erase_unit_def)

function nor_erase_loop :: "'b env \<Rightarrow> u32 \<Rightarrow> u32 \<Rightarrow> u32 \<Rightarrow> 'b nor \<Rightarrow> (int \<times> 'b nor) option" where
  "nor_erase_loop E flag addr sz w =
     (if sz = 0 then Some (0, w)
      else let unit = erase_unit flag addr sz in
        if unit = 0 then Some (- EINVAL, w)
        else do {
          (ret, w) \<leftarrow> nor_erase_unit E unit addr w;
          if ret \<noteq> 0 then Some (ret, w)
          else nor_erase_loop E flag (addr + unit) (sz - unit) w
        })"
  by pat_completeness auto
termination
proof (relation "measure (\<lambda>(E, flag, addr, sz, w). unat sz)", goal_cases)
  case (2 E flag addr sz w unit z x y)
  then have "unat unit \<le> unat sz" and "0 < unat unit"
    using erase_unit_le [of flag addr sz]
    by (simp_all add: word_le_nat_alt unat_gt_0)
  then show ?case by (simp add: unat_sub word_le_nat_alt)
qed simp

declare nor_erase_loop.simps [simp del]

definition nor_erase :: "'b env \<Rightarrow> u32 \<Rightarrow> u32 \<Rightarrow> 'b nor \<Rightarrow> (int \<times> 'b nor) option" where
  "nor_erase E addr sz w =
     (if nor_lock w \<noteq> 0 then Some (nor_lock w, w)
      else case nor_info w of
        None \<Rightarrow> unlocked (- EBUSY) w
      | Some info \<Rightarrow>
          if sz mod SZ_4K \<noteq> 0 then unlocked (- EINVAL) w
          else if addr + sz > total_size w then unlocked (- EINVAL) w
          else if addr = 0 \<and> sz = total_size w
          then do { (ret, w) \<leftarrow> nor_erase_all E w; unlocked ret w }
          else do { (ret, w) \<leftarrow> nor_erase_loop E (info_flag info) addr sz w; unlocked ret w })"

section \<open>Reading\<close>

definition nor_read_do ::
  "'b env \<Rightarrow> u32 \<Rightarrow> u8 list \<Rightarrow> u32 \<Rightarrow> 'b nor \<Rightarrow> (int \<times> u8 list \<times> 'b nor) option"
where
  "nor_read_do E addr buf len w =
     (if len > NOR_PAGE_SIZE then Some (- EINVAL, buf, w)
      else let cmd = cmd_read w # addr_bytes w addr
        in nor_transfer E (unat (r_cmd_slen w)) cmd (length cmd) buf (unat len) w)"

text \<open>The length of the next chunk: up to the end of the page, or what is left.\<close>

definition chunk_len :: "u32 \<Rightarrow> u32 \<Rightarrow> u32" where
  "chunk_len addr len = (let align_addr = ALIGN (addr + 1) NOR_PAGE_SIZE
     in min (align_addr - addr) len)"

lemma unat_chunk_len:
  "unat (chunk_len addr len) = min (256 - unat addr mod 256) (unat len)"
proof -
  have "unat (ALIGN (addr + 1) (2 ^ 8) - addr) = 256 - unat addr mod 256"
    using unat_ALIGN_next_diff [of 8 addr] by simp
  then show ?thesis
    by (simp add: chunk_len_def Let_def min_def word_le_nat_alt)
qed

lemma chunk_len_le: "chunk_len addr len \<le> len"
  by (simp add: word_le_nat_alt unat_chunk_len)

lemma chunk_len_pos: "len \<noteq> 0 \<Longrightarrow> 0 < unat (chunk_len addr len)"
  by (simp add: unat_chunk_len unat_gt_0)

lemma unat_chunk_rest: "unat (len - chunk_len addr len) = unat len - unat (chunk_len addr len)"
  by (simp add: unat_sub chunk_len_le)

lemma chunk_rest_less: "len \<noteq> 0 \<Longrightarrow> unat (len - chunk_len addr len) < unat len"
  using chunk_len_pos [of len addr] by (simp add: unat_chunk_rest unat_gt_0)

function nor_read_loop ::
  "'b env \<Rightarrow> int \<Rightarrow> u32 \<Rightarrow> u8 list \<Rightarrow> nat \<Rightarrow> u32 \<Rightarrow> 'b nor \<Rightarrow> (int \<times> u8 list \<times> 'b nor) option"
where
  "nor_read_loop E ret addr buf off len w =
     (if len = 0 then Some (ret, buf, w)
      else do {
        let rlen = chunk_len addr len;
        old \<leftarrow> read_at off (unat rlen) buf;
        (ret, new, w) \<leftarrow> nor_read_do E addr old rlen w;
        buf \<leftarrow> write_at off new buf;
        if ret \<noteq> 0 then Some (ret, buf, w)
        else nor_read_loop E ret (addr + rlen) buf (off + unat rlen) (len - rlen) w
      })"
  by pat_completeness auto
termination
  by (relation "measure (\<lambda>(E, ret, addr, buf, off, len, w). unat len)")
     (simp_all add: chunk_rest_less)

declare nor_read_loop.simps [simp del]

definition nor_read ::
  "'b env \<Rightarrow> u32 \<Rightarrow> u8 list \<Rightarrow> u32 \<Rightarrow> 'b nor \<Rightarrow> (int \<times> u8 list \<times> 'b nor) option"
where
  "nor_read E addr buf len w =
     (if nor_lock w \<noteq> 0 then Some (nor_lock w, buf, w)
      else if nor_info w = None then Some (- EBUSY, buf, w)
      else do {
        (ret, w) \<leftarrow> nor_wait_ready E 0 500 w;
        if ret \<noteq> 0 then Some (- EBUSY, buf, w)
        else do {
          (ret, buf, w) \<leftarrow> nor_read_loop E (- EBUSY) addr buf 0 len w;
          let _ = nor_unlock w;
          Some (ret, buf, w)
        }
      })"

section \<open>Writing\<close>

definition nor_write_do :: "'b env \<Rightarrow> u32 \<Rightarrow> u8 list \<Rightarrow> u32 \<Rightarrow> 'b nor \<Rightarrow> (int \<times> 'b nor) option" where
  "nor_write_do E addr buf len w =
     (if len > NOR_PAGE_SIZE then Some (- EINVAL, w)
      else do {
        (ret, w) \<leftarrow> nor_write_enable E w;
        if ret \<noteq> 0 then Some (ret, w)
        else do {
          let hdr = cmd_write w # addr_bytes w addr;
          bs \<leftarrow> read_at 0 (unat (min len NOR_PAGE_SIZE)) buf;
          tbuf \<leftarrow> write_at 0 (hdr @ bs) (replicate (256 + 5) 0);
          (ret, _, w) \<leftarrow>
            nor_transfer E (unat (w_cmd_slen w)) tbuf (unat len + length hdr) [] 0 w;
          if ret \<noteq> 0 then Some (ret, w) else nor_wait_ready E 0 100000 w
        }
      })"

function nor_write_loop ::
  "'b env \<Rightarrow> int \<Rightarrow> u32 \<Rightarrow> u8 list \<Rightarrow> nat \<Rightarrow> u32 \<Rightarrow> 'b nor \<Rightarrow> (int \<times> 'b nor) option"
where
  "nor_write_loop E ret addr buf off len w =
     (if len = 0 then Some (ret, w)
      else do {
        let wlen = chunk_len addr len;
        bs \<leftarrow> read_at off (unat wlen) buf;
        (ret, w) \<leftarrow> nor_write_do E addr bs wlen w;
        if ret \<noteq> 0 then Some (ret, w)
        else nor_write_loop E ret (addr + wlen) buf (off + unat wlen) (len - wlen) w
      })"
  by pat_completeness auto
termination
  by (relation "measure (\<lambda>(E, ret, addr, buf, off, len, w). unat len)")
     (simp_all add: chunk_rest_less)

declare nor_write_loop.simps [simp del]

definition nor_write :: "'b env \<Rightarrow> u32 \<Rightarrow> u8 list \<Rightarrow> u32 \<Rightarrow> 'b nor \<Rightarrow> (int \<times> 'b nor) option" where
  "nor_write E addr buf len w =
     (if nor_lock w \<noteq> 0 then Some (nor_lock w, w)
      else if nor_info w = None then unlocked (- EBUSY) w
      else do {
        (ret, w) \<leftarrow> nor_wait_ready E 0 500 w;
        if ret \<noteq> 0 then unlocked (- EBUSY) w
        else do {
          (ret, w) \<leftarrow> nor_write_loop E (- EBUSY) addr buf 0 len w;
          unlocked ret w
        }
      })"

end
