(* ===== verification/Nor_Chip.thy ===== *)
theory Nor_Chip
  imports Nor_Core
begin

unbundle bit_operations_syntax

text \<open>
  What a serial NOR flash chip promises (the commands of its data sheet, as laws of the transfers
  the controller performs), and what the driver of \<open>spinor/core.c\<close> then achieves: reading returns
  the cells, programming clears bits, erasing sets them, and every wait outlasts the chip.
  The contract speaks only of transfers with well-formed bytes, lanes, dummy and header lengths, so
  that each lemma also shows that the driver puts the right bytes on the wire.
\<close>

section \<open>Addresses on the wire\<close>

definition be_val :: "u8 list \<Rightarrow> nat" where
  "be_val bs = foldl (\<lambda>a b. 256 * a + unat b) 0 bs"

lemma unat_ucast_u8: "unat (ucast (x :: u32) :: u8) = unat x mod 256"
  by (simp only: unsigned_ucast_eq) (simp add: take_bit_eq_mod)

lemma unat_drop_bit: "unat (drop_bit n (x :: 'a::len word)) = unat x div 2 ^ n"
  by (simp only: unsigned_drop_bit_eq) (simp add: drop_bit_eq_div take_bit_eq_mod)

lemma unat_byte_of: "unat (byte_of n a) = unat a div 2 ^ n mod 256"
  by (simp only: byte_of_def unat_ucast_u8 unat_drop_bit)

lemma unat_low_byte: "unat (ucast (a AND 0xFF :: u32) :: u8) = unat a mod 256"
proof -
  have "a AND 0xFF = take_bit 8 a"
    by (simp only: take_bit_eq_mask) (simp add: mask_eq_exp_minus_1)
  then show ?thesis
    by (simp only: unat_ucast_u8 unat_take_bit) simp
qed

lemma split_bytes: "(x :: nat) mod (256 * n) = 256 * (x div 256 mod n) + x mod 256"
  by (rule mod_mult2_eq)

lemma be_val_addr3: "be_val (addr3 a) = unat a mod 2 ^ 24"
  using split_bytes [of "unat a" "256 * 256"] split_bytes [of "unat a div 256" 256]
  by (simp add: be_val_def addr3_def unat_byte_of unat_low_byte flip: div_mult2_eq)

lemma be_val_addr4: "be_val (addr4 a) = unat a"
proof -
  have "unat a mod 2 ^ 32 = unat a" using unsigned_less [of a, where ?'a = nat] by simp
  then show ?thesis
    using split_bytes [of "unat a" "256 * (256 * 256)"] split_bytes [of "unat a div 256" "256 * 256"]
      split_bytes [of "unat a div 65536" 256]
    by (simp add: be_val_def addr4_def unat_byte_of unat_low_byte flip: div_mult2_eq)
qed

section \<open>The chip as its data sheet describes it\<close>

text \<open>
  A view tells how to read the state of the bus as a flash chip: the contents of each cell, the
  write enable latch, how many more reads of the status register will report the chip busy, the
  second status register, whether the controller may be initialised, and the capacity. A count of
  \<open>2 ^ 32\<close> or more stands for a bus that is not in operation.
\<close>

record 'b chip_view =
  cell :: "'b \<Rightarrow> nat \<Rightarrow> u8"
  latch :: "'b \<Rightarrow> bool"
  busy_polls :: "'b \<Rightarrow> nat"
  sr2 :: "'b \<Rightarrow> u8"
  standby :: "'b \<Rightarrow> bool"
  capacity :: nat

text \<open>
  The commands the driver can choose for the chips of its tables, with the number of address
  bytes they take; lane widths, dummy bytes and single-lane headers of each.
\<close>

definition read_ops :: "nat \<Rightarrow> u8 set" where
  "read_ops n = (if n = 3 then {0x0B, 0x3B, 0x6B}
                 else if n = 4 then {0x0C, 0x3C, 0x6C} else {})"

definition prog_ops :: "nat \<Rightarrow> u8 set" where
  "prog_ops n = (if n = 3 then {0x02, 0x32, 0x38} else if n = 4 then {0x12, 0x34, 0x3E} else {})"

text \<open>
  The commands that move the address or the data on four lanes. The chip obeys them only while its
  quad enable bit, bit 1 of the second status register, is set.
\<close>

definition quad_ops :: "u8 set" where
  "quad_ops = {0x6B, 0x6C, 0x32, 0x34, 0x38, 0x3E}"

definition quad_enabled :: "'b chip_view \<Rightarrow> 'b \<Rightarrow> bool" where
  "quad_enabled V b \<longleftrightarrow> sr2 V b AND 2 \<noteq> 0"

definition obeys :: "'b chip_view \<Rightarrow> u8 \<Rightarrow> 'b \<Rightarrow> bool" where
  "obeys V op b \<longleftrightarrow> (op \<in> quad_ops \<longrightarrow> quad_enabled V b)"

lemma quad_enabled_sr2: "sr2 V b' = sr2 V b \<Longrightarrow> quad_enabled V b' = quad_enabled V b"
  by (simp add: quad_enabled_def)

lemma obeys_sr2: "sr2 V b' = sr2 V b \<Longrightarrow> obeys V op b' = obeys V op b"
  by (simp add: obeys_def quad_enabled_def)

definition prog_header :: "u8 \<Rightarrow> nat \<Rightarrow> nat" where
  "prog_header op n = (if op = 0x38 \<or> op = 0x3E then 1 else n + 1)"

definition erase_bytes :: "nat \<Rightarrow> u8 \<Rightarrow> nat" where
  "erase_bytes n op =
     (if n = 3 \<and> op = 0x20 \<or> n = 4 \<and> op = 0x21 then 4096
      else if n = 3 \<and> op = 0x52 \<or> n = 4 \<and> op = 0x5C then 32768
      else if n = 3 \<and> op = 0xD8 \<or> n = 4 \<and> op = 0xDC then 65536 else 0)"

definition wire_mode :: "u8 \<Rightarrow> nat \<Rightarrow> spi_transfer \<Rightarrow> bool" where
  "wire_mode op n tr \<longleftrightarrow>
     rx_nbits tr = (if op = 0x3B \<or> op = 0x3C then 2 else if op = 0x6B \<or> op = 0x6C then 4 else 1) \<and>
     tx_nbits tr = (if op \<in> {0x32, 0x38, 0x34, 0x3E} then 4 else 1) \<and>
     dummy_byte tr = (if op \<in> read_ops n then 1 else 0) \<and>
     tx_single_len tr = (if op \<in> read_ops n then n + 2 else prog_header op n)"

definition programmed :: "(nat \<Rightarrow> u8) \<Rightarrow> nat \<Rightarrow> u8 list \<Rightarrow> nat \<Rightarrow> u8" where
  "programmed m a bs = (\<lambda>i. if a \<le> i \<and> i < a + length bs then m i AND bs ! (i - a) else m i)"

definition erased :: "(nat \<Rightarrow> u8) \<Rightarrow> nat \<Rightarrow> nat \<Rightarrow> nat \<Rightarrow> u8" where
  "erased m a n = (\<lambda>i. if a \<le> i \<and> i < a + n then 0xFF else m i)"

text \<open>A command on a single lane without dummy bytes.\<close>

definition plain :: "spi_transfer \<Rightarrow> bool" where
  "plain tr \<longleftrightarrow> tx_single_len tr = length (tx_data tr) \<and> tx_nbits tr = 1 \<and> rx_nbits tr = 1 \<and> dummy_byte tr = 0"

definition chip_status :: "'b env \<Rightarrow> 'b chip_view \<Rightarrow> bool" where
  "chip_status E V \<longleftrightarrow> (\<forall>tr b. plain tr \<and> tx_data tr = [0x05] \<and> rx_len tr = 2 \<and> busy_polls V b < 2 ^ 32 \<longrightarrow>
     (\<exists>x sr b'. spi_xfer E 0 tr b = Some (0, [x, sr], b') \<and>
        (sr AND 1 = 0 \<longleftrightarrow> busy_polls V b = 0) \<and>
        (busy_polls V b = 0 \<longrightarrow> (sr AND 2 \<noteq> 0 \<longleftrightarrow> latch V b)) \<and>
        busy_polls V b' = busy_polls V b - 1 \<and> cell V b' = cell V b \<and> latch V b' = latch V b \<and>
        sr2 V b' = sr2 V b))"

definition chip_wren :: "'b env \<Rightarrow> 'b chip_view \<Rightarrow> bool" where
  "chip_wren E V \<longleftrightarrow> (\<forall>tr b. plain tr \<and> tx_data tr = [0x06] \<and> rx_len tr = 0 \<and> busy_polls V b = 0 \<longrightarrow>
     (\<exists>rx b'. spi_xfer E 0 tr b = Some (0, rx, b') \<and>
        latch V b' \<and> busy_polls V b' = 0 \<and> cell V b' = cell V b \<and> sr2 V b' = sr2 V b))"

definition chip_read :: "'b env \<Rightarrow> 'b chip_view \<Rightarrow> bool" where
  "chip_read E V \<longleftrightarrow> (\<forall>tr b op ab.
     tx_data tr = op # ab \<and> op \<in> read_ops (length ab) \<and> wire_mode op (length ab) tr \<and>
     obeys V op b \<and> busy_polls V b = 0 \<and> rx_len tr \<le> 256 \<and> be_val ab + rx_len tr \<le> capacity V \<longrightarrow>
     (\<exists>b'. spi_xfer E 0 tr b =
             Some (0, map (cell V b) [be_val ab ..< be_val ab + rx_len tr], b') \<and>
        busy_polls V b' = 0 \<and> cell V b' = cell V b \<and> sr2 V b' = sr2 V b))"

definition chip_program :: "'b env \<Rightarrow> 'b chip_view \<Rightarrow> bool" where
  "chip_program E V \<longleftrightarrow> (\<forall>tr b op ab bs n.
     tx_data tr = op # ab @ bs \<and> length ab = n \<and> op \<in> prog_ops n \<and> wire_mode op n tr \<and>
     obeys V op b \<and> rx_len tr = 0 \<and> busy_polls V b = 0 \<and> latch V b \<and> bs \<noteq> [] \<and>
     be_val ab mod 256 + length bs \<le> 256 \<and> be_val ab + length bs \<le> capacity V \<longrightarrow>
     (\<exists>rx b'. spi_xfer E 0 tr b = Some (0, rx, b') \<and>
        cell V b' = programmed (cell V b) (be_val ab) bs \<and> sr2 V b' = sr2 V b \<and>
        busy_polls V b' < 2 ^ 32))"

definition chip_erase :: "'b env \<Rightarrow> 'b chip_view \<Rightarrow> bool" where
  "chip_erase E V \<longleftrightarrow> (\<forall>tr b op ab n.
     tx_data tr = op # ab \<and> erase_bytes (length ab) op = n \<and> n \<noteq> 0 \<and>
     wire_mode op (length ab) tr \<and> rx_len tr = 0 \<and>
     busy_polls V b = 0 \<and> latch V b \<and> be_val ab + n \<le> capacity V \<longrightarrow>
     (\<exists>rx b'. spi_xfer E 0 tr b = Some (0, rx, b') \<and>
        cell V b' = erased (cell V b) (be_val ab - be_val ab mod n) n \<and>
        sr2 V b' = sr2 V b \<and> busy_polls V b' < 2 ^ 32))"

definition chip_erase_all :: "'b env \<Rightarrow> 'b chip_view \<Rightarrow> bool" where
  "chip_erase_all E V \<longleftrightarrow> (\<forall>tr b.
     plain tr \<and> tx_data tr = [0x60] \<and> rx_len tr = 0 \<and> busy_polls V b = 0 \<and> latch V b \<longrightarrow>
     (\<exists>rx b'. spi_xfer E 0 tr b = Some (0, rx, b') \<and>
        cell V b' = erased (cell V b) 0 (capacity V) \<and> sr2 V b' = sr2 V b \<and>
        busy_polls V b' < 2 ^ 32))"

definition chip_delay :: "'b env \<Rightarrow> 'b chip_view \<Rightarrow> bool" where
  "chip_delay E V \<longleftrightarrow> (\<forall>t b. cell V (delay_ms E t b) = cell V b \<and>
     latch V (delay_ms E t b) = latch V b \<and> sr2 V (delay_ms E t b) = sr2 V b \<and>
     busy_polls V (delay_ms E t b) \<le> busy_polls V b)"

definition nor_chip :: "'b env \<Rightarrow> 'b chip_view \<Rightarrow> bool" where
  "nor_chip E V \<longleftrightarrow> chip_status E V \<and> chip_wren E V \<and> chip_read E V \<and> chip_program E V \<and>
     chip_erase E V \<and> chip_erase_all E V \<and> chip_delay E V"

section \<open>Commands against the data sheet\<close>

definition idle :: "'b chip_view \<Rightarrow> 'b nor \<Rightarrow> bool" where
  "idle V w \<longleftrightarrow> spim_port w = 0 \<and> busy_polls V (bus w) = 0"

definition settles :: "'b chip_view \<Rightarrow> 'b nor \<Rightarrow> bool" where
  "settles V w \<longleftrightarrow> spim_port w = 0 \<and> busy_polls V (bus w) < 2 ^ 32"

lemma idle_settles: "idle V w \<Longrightarrow> settles V w"
  by (simp add: idle_def settles_def)

definition same_flash :: "'b chip_view \<Rightarrow> 'b nor \<Rightarrow> 'b nor \<Rightarrow> bool" where
  "same_flash V w w' \<longleftrightarrow> same_nor w w' \<and> cell V (bus w') = cell V (bus w) \<and>
     sr2 V (bus w') = sr2 V (bus w)"

lemma same_flash_refl [simp]: "same_flash V w w"
  by (simp add: same_flash_def)

lemma same_flash_trans [trans]: "same_flash V u v \<Longrightarrow> same_flash V v w \<Longrightarrow> same_flash V u w"
  by (auto simp: same_flash_def intro: same_nor_trans)

lemma same_flash_port: "same_flash V w w' \<Longrightarrow> spim_port w' = spim_port w"
  by (simp add: same_flash_def same_norD)

text \<open>Programming and erasing change the cells and nothing else that the driver relies on.\<close>

definition kept :: "'b chip_view \<Rightarrow> 'b nor \<Rightarrow> 'b nor \<Rightarrow> bool" where
  "kept V w w' \<longleftrightarrow> same_nor w w' \<and> sr2 V (bus w') = sr2 V (bus w)"

lemma keptD: "kept V w w' \<Longrightarrow> same_nor w w'" "kept V w w' \<Longrightarrow> sr2 V (bus w') = sr2 V (bus w)"
  by (simp_all add: kept_def)

lemma kept_refl [simp]: "kept V w w"
  by (simp add: kept_def)

lemma kept_trans [trans]: "kept V u v \<Longrightarrow> kept V v w \<Longrightarrow> kept V u w"
  by (auto simp: kept_def intro: same_nor_trans)

lemma same_flash_kept: "same_flash V w w' \<Longrightarrow> kept V w w'"
  by (simp add: same_flash_def kept_def)

lemma settles_mono:
  "settles V w \<Longrightarrow> same_flash V w w' \<Longrightarrow> busy_polls V (bus w') \<le> busy_polls V (bus w) \<Longrightarrow> settles V w'"
  by (simp add: settles_def same_flash_port)

lemma plain_nor_mode:
  "c \<in> {0x05, 0x06, 0x60, 0x9F, 0x66, 0x98, 0x35, 0x31} \<Longrightarrow>
   plain (nor_mode c \<lparr>tx_data = d, tx_single_len = length d, rx_len = n, tx_nbits = 1, rx_nbits = 1,
     dummy_byte = 0\<rparr>)"
  by (elim insertE emptyE; simp add: plain_def nor_mode_def)

text \<open>A one-byte command as the code sends it.\<close>

lemma nor_transfer_cmd:
  assumes "spi_xfer E (spim_port w) (nor_mode cmd \<lparr>tx_data = [cmd], tx_single_len = 1, rx_len = 0,
      tx_nbits = 1, rx_nbits = 1, dummy_byte = 0\<rparr>) (bus w) = Some (r, rx, b)"
  shows "nor_transfer E 1 [cmd] 1 [] 0 w = Some (r, [], w\<lparr>bus := b\<rparr>)"
  using assms by (simp add: nor_transfer_def read_at_def)

lemma nor_mode_fields [simp]:
  "tx_data (nor_mode c tr) = tx_data tr" "rx_len (nor_mode c tr) = rx_len tr"
  "tx_single_len (nor_mode c tr) = tx_single_len tr"
  by (simp_all add: nor_mode_def)

lemma chip_nor_read_status:
  assumes "nor_chip E V" and "settles V w"
  shows "\<exists>sr w'. nor_read_status E s w = Some (0, sr, w') \<and> same_flash V w w' \<and>
    (sr AND 1 = 0 \<longleftrightarrow> idle V w) \<and> (idle V w \<longrightarrow> (sr AND 2 \<noteq> 0 \<longleftrightarrow> latch V (bus w))) \<and>
    busy_polls V (bus w') = busy_polls V (bus w) - 1 \<and> latch V (bus w') = latch V (bus w)"
proof -
  let ?tr = "nor_mode 0x05 \<lparr>tx_data = [0x05], tx_single_len = 1, rx_len = 2, tx_nbits = 1,
      rx_nbits = 1, dummy_byte = 0\<rparr>"
  from assms have st: "chip_status E V" by (simp add: nor_chip_def)
  obtain x sr b' where "spi_xfer E (spim_port w) ?tr (bus w) = Some (0, [x, sr], b')"
    and "sr AND 1 = 0 \<longleftrightarrow> busy_polls V (bus w) = 0"
    and "busy_polls V (bus w) = 0 \<longrightarrow> (sr AND 2 \<noteq> 0 \<longleftrightarrow> latch V (bus w))"
    and "busy_polls V b' = busy_polls V (bus w) - 1" "cell V b' = cell V (bus w)"
      "latch V b' = latch V (bus w)" "sr2 V b' = sr2 V (bus w)"
    using st [unfolded chip_status_def, rule_format, of ?tr "bus w"] assms(2)
      plain_nor_mode [of "0x05" "[0x05]" 2]
    by (auto simp: settles_def)
  then show ?thesis using assms(2)
    by (auto simp: nor_read_status_def nor_transfer_def read_at_def idle_def settles_def
        same_flash_def)
qed

lemma chip_nor_is_busy:
  assumes "nor_chip E V" and "settles V w"
  shows "\<exists>w'. nor_is_busy E w = Some (if idle V w then 0 else 1, w') \<and> same_flash V w w' \<and>
    busy_polls V (bus w') = busy_polls V (bus w) - 1 \<and> latch V (bus w') = latch V (bus w)"
  using chip_nor_read_status [OF assms, of 0]
  by (auto simp: nor_is_busy_def)

lemma chip_poll:
  assumes chip: "nor_chip E V"
  shows "settles V w \<Longrightarrow> busy_polls V (bus w) < n \<Longrightarrow>
    \<exists>w'. poll E pause n w = Some (True, w') \<and> same_flash V w w' \<and> idle V w' \<and>
         latch V (bus w') = latch V (bus w)"
proof (induction n arbitrary: w)
  case (Suc n)
  obtain u where u: "nor_is_busy E w = Some (if idle V w then 0 else 1, u)" "same_flash V w u"
    "busy_polls V (bus u) = busy_polls V (bus w) - 1" "latch V (bus u) = latch V (bus w)"
    using chip_nor_is_busy [OF chip Suc.prems(1)] by blast
  show ?case
  proof (cases "idle V w")
    case True
    with u show ?thesis by (auto simp: idle_def same_flash_port)
  next
    case False
    define v where "v = (if pause then nor_msleep E 1 u else u)"
    have v: "same_flash V u v" "busy_polls V (bus v) \<le> busy_polls V (bus u)"
      "latch V (bus v) = latch V (bus u)"
      using chip by (auto simp: v_def same_flash_def nor_msleep_def nor_chip_def chip_delay_def)
    have "settles V v" using Suc.prems(1) u(2,3) v(1,2) by (blast intro: settles_mono le_trans
        eq_refl [THEN le_trans] diff_le_self)
    moreover have "busy_polls V (bus v) < n"
      using Suc.prems False u(3) v(2) by (auto simp: idle_def settles_def)
    ultimately obtain w' where "poll E pause n v = Some (True, w')"
      "same_flash V v w'" "idle V w'" "latch V (bus w') = latch V (bus v)" using Suc.IH by blast
    with False u v show ?thesis
      by (auto simp: v_def intro: same_flash_trans)
  qed
qed simp


lemma chip_wait_ms_loop:
  assumes chip: "nor_chip E V" and b: "settles V w"
  shows "\<exists>w'. wait_ms_loop E 0 w = Some (True, w') \<and> same_flash V w w' \<and> idle V w' \<and>
         latch V (bus w') = latch V (bus w)"
proof -
  obtain u where u: "nor_is_busy E w = Some (if idle V w then 0 else 1, u)" "same_flash V w u"
    "busy_polls V (bus u) = busy_polls V (bus w) - 1" "latch V (bus u) = latch V (bus w)"
    using chip_nor_is_busy [OF chip b] by blast
  show ?thesis
  proof (cases "idle V w")
    case True
    with u show ?thesis by (auto simp: wait_ms_loop_0 idle_def same_flash_port)
  next
    case False
    with u(3) b have "busy_polls V (bus u) < 2 ^ 32 - 1" by (auto simp: idle_def settles_def)
    moreover have "settles V u" using settles_mono [OF b u(2)] u(3) by simp
    ultimately show ?thesis using chip_poll [OF chip, of u "2 ^ 32 - 1" True] False u
      by (auto simp: wait_ms_loop_0 intro: same_flash_trans)
  qed
qed

text \<open>Waiting with no millisecond budget, as most callers do, always outlasts the chip.\<close>

lemma chip_nor_wait_ready:
  assumes "nor_chip E V" and "settles V w"
  shows "\<exists>w'. nor_wait_ready E 0 n w = Some (0, w') \<and> same_flash V w w' \<and> idle V w' \<and>
         latch V (bus w') = latch V (bus w)"
  using chip_wait_ms_loop [OF assms] by (auto simp: nor_wait_ready_def)

text \<open>A poll that runs out has used up its share of the busy time.\<close>

lemma chip_poll_any:
  assumes chip: "nor_chip E V"
  shows "settles V w \<Longrightarrow> \<exists>r w'. poll E pause n w = Some (r, w') \<and> same_flash V w w' \<and> (r \<longrightarrow> idle V w') \<and>
         (\<not> r \<longrightarrow> busy_polls V (bus w') \<le> busy_polls V (bus w) - n) \<and>
         latch V (bus w') = latch V (bus w)"
proof (induction n arbitrary: w)
  case (Suc n)
  obtain u where u: "nor_is_busy E w = Some (if idle V w then 0 else 1, u)" "same_flash V w u"
    "busy_polls V (bus u) = busy_polls V (bus w) - 1" "latch V (bus u) = latch V (bus w)"
    using chip_nor_is_busy [OF chip Suc.prems] by blast
  show ?case
  proof (cases "idle V w")
    case True
    with u show ?thesis by (auto simp: idle_def same_flash_port)
  next
    case False
    define v where "v = (if pause then nor_msleep E 1 u else u)"
    have v: "same_flash V u v" "busy_polls V (bus v) \<le> busy_polls V (bus u)"
      "latch V (bus v) = latch V (bus u)"
      using chip by (auto simp: v_def same_flash_def nor_msleep_def nor_chip_def chip_delay_def)
    obtain r w' where "poll E pause n v = Some (r, w')" "same_flash V v w'" "r \<longrightarrow> idle V w'"
      "\<not> r \<longrightarrow> busy_polls V (bus w') \<le> busy_polls V (bus v) - n"
      "latch V (bus w') = latch V (bus v)"
      using Suc.IH [OF settles_mono [OF settles_mono [OF Suc.prems u(2)] v(1)]] u(3) v(2) by auto
    with False u v show ?thesis
      by (auto simp: v_def intro: same_flash_trans)
  qed
next
  case 0
  show ?case by (rule exI [of _ False]) simp
qed

lemma chip_nor_wait_ready_long:
  assumes chip: "nor_chip E V" and b: "settles V w" and ms: "ms \<noteq> 0"
  shows "\<exists>w'. nor_wait_ready E ms 0xFFFFFFFF w = Some (0, w') \<and> same_flash V w w' \<and> idle V w' \<and>
         latch V (bus w') = latch V (bus w)"
proof -
  obtain r u where u: "poll E True (unat ms) w = Some (r, u)" "same_flash V w u" "r \<longrightarrow> idle V u"
    "\<not> r \<longrightarrow> busy_polls V (bus u) \<le> busy_polls V (bus w) - unat ms"
    "latch V (bus u) = latch V (bus w)"
    using chip_poll_any [OF chip b, of True "unat ms"] by blast
  have pos: "0 < unat ms" using ms by (simp add: unat_gt_0)
  show ?thesis
  proof (cases r)
    case True
    with u ms show ?thesis by (auto simp: nor_wait_ready_def wait_ms_loop_poll)
  next
    case False
    have le: "busy_polls V (bus u) < unat (0xFFFFFFFF :: u32)"
      using False u(4) b pos by (auto simp: settles_def)
    have "settles V u" using settles_mono [OF b u(2)] False u(4) by simp
    from chip_poll [OF chip this le, of False]
    obtain w' where "poll E False (unat (0xFFFFFFFF :: u32)) u = Some (True, w')"
      "same_flash V u w'" "idle V w'" "latch V (bus w') = latch V (bus u)" by blast
    then have "wait_times_loop E 0xFFFFFFFF u = Some (True, w')"
      by (subst wait_times_loop_poll) simp_all
    with False u ms \<open>same_flash V u w'\<close> \<open>idle V w'\<close> \<open>latch V (bus w') = _\<close> show ?thesis
      by (auto simp: nor_wait_ready_def wait_ms_loop_poll intro: same_flash_trans)
  qed
qed

section \<open>Write enable\<close>

lemma chip_nor_write_enable:
  assumes chip: "nor_chip E V" and "idle V w"
  shows "\<exists>w'. nor_write_enable E w = Some (0, w') \<and> same_flash V w w' \<and> idle V w' \<and>
         latch V (bus w')"
proof -
  let ?tr = "nor_mode 0x06 \<lparr>tx_data = [0x06], tx_single_len = 1, rx_len = 0, tx_nbits = 1,
      rx_nbits = 1, dummy_byte = 0\<rparr>"
  from chip have wr: "chip_wren E V" by (simp add: nor_chip_def)
  obtain rx b where b: "spi_xfer E (spim_port w) ?tr (bus w) = Some (0, rx, b)" "latch V b"
    "busy_polls V b = 0" "cell V b = cell V (bus w)" "sr2 V b = sr2 V (bus w)"
    using wr [unfolded chip_wren_def, rule_format, of ?tr "bus w"] assms(2)
      plain_nor_mode [of "0x06" "[0x06]" 0]
    by (auto simp: idle_def)
  let ?u = "w\<lparr>bus := b\<rparr>"
  have tr: "nor_transfer E 1 [0x06] 1 [] 0 w = Some (0, [], ?u)"
    by (rule nor_transfer_cmd) (rule b(1))
  obtain v where v: "nor_wait_ready E 0 500 ?u = Some (0, v)" "same_flash V ?u v" "idle V v"
    "latch V (bus v)"
    using chip_nor_wait_ready [OF chip, of ?u 500] b assms(2) by (auto simp: settles_def idle_def)
  obtain sr x where x: "nor_read_status E 0 v = Some (0, sr, x)" "same_flash V v x"
    "sr AND 2 \<noteq> 0" "idle V x" "latch V (bus x)"
    using chip_nor_read_status [OF chip idle_settles [OF v(3)], of 0] v
    by (auto simp: idle_def same_flash_port)
  have "same_flash V w ?u" using b by (simp add: same_flash_def)
  then have "same_flash V w x" using v x by (blast intro: same_flash_trans)
  with tr v x show ?thesis
    by (auto simp: nor_write_enable_def nor_send_cmd_def)
qed

section \<open>A configured driver\<close>

definition configured :: "'b nor \<Rightarrow> bool" where
  "configured w \<longleftrightarrow> nor_info w \<noteq> None \<and>
     addr_width w = (if total_size w > SZ_16M then 4 else 3) \<and>
     cmd_read w \<in> read_ops (unat (addr_width w)) \<and>
     unat (r_cmd_slen w) = unat (addr_width w) + 2 \<and>
     cmd_write w \<in> prog_ops (unat (addr_width w)) \<and>
     unat (w_cmd_slen w) = prog_header (cmd_write w) (unat (addr_width w))"

definition ready :: "'b chip_view \<Rightarrow> 'b nor \<Rightarrow> bool" where
  "ready V w \<longleftrightarrow> configured w \<and> idle V w \<and> capacity V = unat (total_size w) \<and>
     obeys V (cmd_read w) (bus w) \<and> obeys V (cmd_write w) (bus w)"

lemma configured_same: "same_nor w w' \<Longrightarrow> configured w' = configured w"
  by (simp add: configured_def same_norD)

lemma ready_kept: "ready V w \<Longrightarrow> kept V w w' \<Longrightarrow> idle V w' \<Longrightarrow> ready V w'"
  by (simp add: ready_def configured_same [of w w'] same_norD [of w w'] obeys_sr2 [of V "bus w'" "bus w"] kept_def)

lemma configured_width: "configured w \<Longrightarrow> addr_width w = 3 \<or> addr_width w = 4"
  by (auto simp: configured_def split: if_splits)

lemma length_addr_bytes: "configured w \<Longrightarrow> length (addr_bytes w a) = unat (addr_width w)"
  by (drule configured_width) (auto simp: addr_bytes_def)

lemma be_val_addr_bytes:
  assumes "configured w" and "unat a < unat (total_size w)"
  shows "be_val (addr_bytes w a) = unat a"
proof (cases "addr_width w = 4")
  case True
  then show ?thesis by (simp add: addr_bytes_def be_val_addr4)
next
  case False
  with assms(1) have "\<not> total_size w > SZ_16M" by (auto simp: configured_def)
  then have "unat a < 2 ^ 24" using assms(2) by (simp add: word_less_nat_alt)
  with False show ?thesis by (simp add: addr_bytes_def be_val_addr3)
qed

lemma wire_read:
  "op \<in> read_ops n \<Longrightarrow> wire_mode op n (nor_mode op \<lparr>tx_data = d, tx_single_len = n + 2,
     rx_len = r, tx_nbits = 1, rx_nbits = 1, dummy_byte = 0\<rparr>)"
  by (auto simp: read_ops_def wire_mode_def nor_mode_def split: if_splits)

lemma wire_prog:
  "op \<in> prog_ops n \<Longrightarrow> wire_mode op n (nor_mode op \<lparr>tx_data = d, tx_single_len = prog_header op n,
     rx_len = r, tx_nbits = 1, rx_nbits = 1, dummy_byte = 0\<rparr>)"
  by (cases "n = 3"; cases "n = 4")
    (auto simp: read_ops_def prog_ops_def wire_mode_def nor_mode_def)

lemma wire_erase:
  "erase_bytes n op \<noteq> 0 \<Longrightarrow> wire_mode op n (nor_mode op \<lparr>tx_data = d, tx_single_len = n + 1,
     rx_len = r, tx_nbits = 1, rx_nbits = 1, dummy_byte = 0\<rparr>)"
  by (cases "n = 3"; cases "n = 4")
    (auto simp: read_ops_def erase_bytes_def prog_header_def wire_mode_def nor_mode_def
      split: if_splits)

section \<open>Reading\<close>

lemma chip_nor_read_do:
  assumes chip: "nor_chip E V" and rdy: "ready V w" and len: "len \<le> NOR_PAGE_SIZE" "len \<noteq> 0"
    and fit: "unat a + unat len \<le> capacity V" and buf: "length buf = unat len"
  shows "\<exists>w'. nor_read_do E a buf len w =
      Some (0, map (cell V (bus w)) [unat a ..< unat a + unat len], w') \<and>
    same_flash V w w' \<and> ready V w'"
proof -
  let ?ab = "addr_bytes w a" and ?n = "unat (addr_width w)"
  let ?tr = "nor_mode (cmd_read w) \<lparr>tx_data = cmd_read w # ?ab, tx_single_len = ?n + 2,
      rx_len = unat len, tx_nbits = 1, rx_nbits = 1, dummy_byte = 0\<rparr>"
  have cf: "configured w" using rdy by (simp add: ready_def)
  have n: "length ?ab = ?n" by (rule length_addr_bytes [OF cf])
  have "0 < unat len" using len(2) by (simp add: unat_gt_0)
  then have be: "be_val ?ab = unat a"
    using fit rdy by (intro be_val_addr_bytes [OF cf]) (simp add: ready_def)
  have op: "cmd_read w \<in> read_ops ?n" and sl: "unat (r_cmd_slen w) = ?n + 2"
    using cf by (auto simp only: configured_def)
  obtain b where b: "spi_xfer E (spim_port w) ?tr (bus w) =
      Some (0, map (cell V (bus w)) [unat a ..< unat a + unat len], b)"
    "busy_polls V b = 0" "cell V b = cell V (bus w)" "sr2 V b = sr2 V (bus w)"
    using chip [unfolded nor_chip_def chip_read_def, THEN conjunct2, THEN conjunct2, THEN conjunct1,
        rule_format, of ?tr "cmd_read w" ?ab "bus w"] wire_read [OF op] n be fit op rdy len(1)
    by (auto simp: ready_def idle_def word_le_nat_alt)
  have "\<not> len > NOR_PAGE_SIZE" using len by simp
  then have "nor_read_do E a buf len w =
      Some (0, map (cell V (bus w)) [unat a ..< unat a + unat len], w\<lparr>bus := b\<rparr>)"
    using b(1) buf by (simp add: nor_read_do_def nor_transfer_def read_at_def sl n)
  moreover have sf: "same_flash V w (w\<lparr>bus := b\<rparr>)" using b by (simp add: same_flash_def)
  moreover have "ready V (w\<lparr>bus := b\<rparr>)"
    using b rdy by (intro ready_kept [OF rdy same_flash_kept [OF sf]]) (simp add: idle_def ready_def)
  ultimately show ?thesis by blast
qed

lemma chunk_len_le_page: "chunk_len a len \<le> NOR_PAGE_SIZE"
  by (simp add: word_le_nat_alt unat_chunk_len)

lemma chip_nor_read_loop:
  assumes chip: "nor_chip E V"
  shows "ready V w \<Longrightarrow> unat a + unat len \<le> capacity V \<Longrightarrow> off + unat len \<le> length buf \<Longrightarrow>
    \<exists>w'. nor_read_loop E ret a buf off len w =
        Some (if len = 0 then ret else 0,
              take off buf @ map (cell V (bus w)) [unat a ..< unat a + unat len] @
              drop (off + unat len) buf, w') \<and>
      same_flash V w w' \<and> ready V w'"
proof (induction "unat len" arbitrary: ret a buf off len w rule: less_induct)
  case less
  show ?case
  proof (cases "len = 0")
    case True
    with less.prems show ?thesis by (auto simp: nor_read_loop.simps)
  next
    case False
    let ?r = "chunk_len a len" and ?m = "cell V (bus w)"
    have r: "?r \<noteq> 0" "unat ?r \<le> unat len" using chunk_len_pos [OF False, of a] chunk_len_le [of a len]
      by (auto simp: word_le_nat_alt unat_gt_0)
    obtain v where v: "nor_read_do E a (take (unat ?r) (drop off buf)) ?r w =
        Some (0, map ?m [unat a ..< unat a + unat ?r], v)" "same_flash V w v" "ready V v"
      using chip_nor_read_do [OF chip less.prems(1) chunk_len_le_page r(1), of a
          "take (unat ?r) (drop off buf)"] less.prems(2,3) r by auto
    let ?buf = "take off buf @ map ?m [unat a ..< unat a + unat ?r] @ drop (off + unat ?r) buf"
    have fit32: "unat a + unat ?r < 2 ^ 32"
      using less.prems(1,2) r(2) unsigned_less [of "total_size w", where ?'a = nat]
      by (simp add: ready_def)
    then have a': "unat (a + ?r) = unat a + unat ?r" by (simp add: unat_word_ariths)
    have len': "unat (len - ?r) = unat len - unat ?r" by (rule unat_chunk_rest)
    have m: "cell V (bus v) = ?m" using v(2) by (simp add: same_flash_def kept_def)
    have b: "length ?buf = length buf" using less.prems(3) r(2) by simp
    have tl: "take (off + unat ?r) ?buf @
          map ?m [unat a + unat ?r ..< unat a + unat len] @ drop (off + unat len) ?buf =
        take off buf @ map ?m [unat a ..< unat a + unat len] @ drop (off + unat len) buf"
      using less.prems(3) r(2) upt_add_eq_append [of "unat a" "unat a + unat ?r" "unat len - unat ?r"]
      by (simp add: add.commute flip: map_append)
    obtain w' where w': "nor_read_loop E 0 (a + ?r) ?buf (off + unat ?r) (len - ?r) v =
        Some (0, take off buf @ map ?m [unat a ..< unat a + unat len] @ drop (off + unat len) buf, w')"
        "same_flash V v w'" "ready V w'"
      using less.hyps [OF chunk_rest_less [OF False, of a] v(3), of "a + ?r" "off + unat ?r" ?buf 0]
        less.prems(2,3) r(2) tl by (auto simp: a' len' m b)
    have "write_at off (map ?m [unat a ..< unat a + unat ?r]) buf = Some ?buf"
      using less.prems(3) r(2) by (simp add: write_at_def)
    then have "nor_read_loop E ret a buf off len w =
        nor_read_loop E 0 (a + ?r) ?buf (off + unat ?r) (len - ?r) v"
      using False v(1) less.prems(3) r(2)
      by (subst nor_read_loop.simps) (simp add: read_at_def Let_def)
    with False v(2) w' show ?thesis by (auto intro: same_flash_trans)
  qed
qed

section \<open>Programming\<close>

lemma programmed_append:
  "programmed (programmed m a bs) (a + length bs) cs = programmed m a (bs @ cs)"
  by (rule ext) (auto simp: programmed_def nth_append)

lemma programmed_Nil [simp]: "programmed m a [] = m"
  by (rule ext) (auto simp: programmed_def)

lemma chip_nor_write_do:
  assumes chip: "nor_chip E V" and rdy: "ready V w" and len: "len \<noteq> 0"
    and page: "unat a mod 256 + unat len \<le> 256"
    and fit: "unat a + unat len \<le> capacity V" and buf: "length bs = unat len"
  shows "\<exists>w'. nor_write_do E a bs len w = Some (0, w') \<and> kept V w w' \<and> ready V w' \<and>
    cell V (bus w') = programmed (cell V (bus w)) (unat a) bs"
proof -
  have cf: "configured w" and id: "idle V w" using rdy by (simp_all add: ready_def)
  obtain v where v: "nor_write_enable E w = Some (0, v)" "same_flash V w v" "idle V v"
    "latch V (bus v)"
    using chip_nor_write_enable [OF chip id] by blast
  have sv: "kept V w v" and m: "cell V (bus v) = cell V (bus w)"
    using v(2) by (simp_all add: same_flash_def kept_def)
  have cv: "configured v" using cf configured_same [OF keptD(1) [OF sv]] by simp
  let ?ab = "addr_bytes v a" and ?n = "unat (addr_width v)"
  let ?tr = "nor_mode (cmd_write v) \<lparr>tx_data = cmd_write v # ?ab @ bs,
      tx_single_len = prog_header (cmd_write v) ?n,
      rx_len = 0, tx_nbits = 1, rx_nbits = 1, dummy_byte = 0\<rparr>"
  have n: "length ?ab = ?n" by (rule length_addr_bytes [OF cv])
  have n4: "?n \<le> 4" using configured_width [OF cv] by auto
  have pos: "0 < unat len" using len by (simp add: unat_gt_0)
  then have be: "be_val ?ab = unat a"
    using fit rdy by (intro be_val_addr_bytes [OF cv]) (simp add: ready_def same_norD [OF keptD(1) [OF sv]])
  have op: "cmd_write v \<in> prog_ops ?n" and sl: "unat (w_cmd_slen v) = prog_header (cmd_write v) ?n"
    using cv by (auto simp only: configured_def)
  have bs: "bs \<noteq> []" using buf pos by auto
  have ob: "obeys V (cmd_write v) (bus v)"
    using rdy sv by (simp add: ready_def same_norD [OF keptD(1) [OF sv]] obeys_sr2 [OF keptD(2) [OF sv]])
  obtain rx b where b: "spi_xfer E (spim_port v) ?tr (bus v) = Some (0, rx, b)"
    "cell V b = programmed (cell V (bus w)) (unat a) bs" "sr2 V b = sr2 V (bus v)"
    "busy_polls V b < 2 ^ 32"
    using chip [unfolded nor_chip_def chip_program_def, THEN conjunct2, THEN conjunct2,
        THEN conjunct2, THEN conjunct1, rule_format,
        of ?tr "cmd_write v" ?ab bs ?n "bus v"] wire_prog [OF op] n be fit op page bs
      buf v(3,4) m ob
    by (auto simp: idle_def)
  let ?u = "v\<lparr>bus := b\<rparr>"
  obtain w' where w': "nor_wait_ready E 0 100000 ?u = Some (0, w')" "same_flash V ?u w'" "idle V w'"
    using chip_nor_wait_ready [OF chip, of ?u 100000] b(4) v(3) by (auto simp: settles_def idle_def)
  have le: "\<not> len > NOR_PAGE_SIZE" using page by (simp add: word_less_nat_alt)
  then have "min len NOR_PAGE_SIZE = len" by (intro min_absorb1) (simp add: not_less)
  moreover have "write_at 0 (cmd_write v # ?ab @ bs) (replicate 261 0) =
      Some (cmd_write v # ?ab @ bs @ drop (1 + ?n + unat len) (replicate 261 0))"
    using n n4 page buf by (simp add: write_at_def)
  ultimately have "nor_write_do E a bs len w = nor_wait_ready E 0 100000 ?u"
    using v(1) b(1) buf le by (simp add: nor_write_do_def nor_transfer_def read_at_def sl n)
  moreover have "kept V w w'" "cell V (bus w') = programmed (cell V (bus w)) (unat a) bs"
    using sv w'(2) b(2,3) by (auto simp: same_flash_def kept_def intro: same_nor_trans)
  ultimately show ?thesis using w' rdy by (auto intro: ready_kept)
qed

lemma chunk_in_page: "unat a mod 256 + unat (chunk_len a len) \<le> 256"
  by (simp add: unat_chunk_len)

lemma chip_nor_write_loop:
  assumes chip: "nor_chip E V"
  shows "ready V w \<Longrightarrow> unat a + unat len \<le> capacity V \<Longrightarrow> off + unat len \<le> length buf \<Longrightarrow>
    \<exists>w'. nor_write_loop E ret a buf off len w = Some (if len = 0 then ret else 0, w') \<and>
      kept V w w' \<and> ready V w' \<and>
      cell V (bus w') = programmed (cell V (bus w)) (unat a) (take (unat len) (drop off buf))"
proof (induction "unat len" arbitrary: ret a off len w rule: less_induct)
  case less
  show ?case
  proof (cases "len = 0")
    case True
    with less.prems show ?thesis by (auto simp: nor_write_loop.simps)
  next
    case False
    let ?r = "chunk_len a len" and ?m = "cell V (bus w)"
    let ?bs = "take (unat ?r) (drop off buf)"
    have r: "?r \<noteq> 0" "unat ?r \<le> unat len" using chunk_len_pos [OF False, of a] chunk_len_le [of a len]
      by (auto simp: word_le_nat_alt unat_gt_0)
    have lbs: "length ?bs = unat ?r" using less.prems(3) r(2) by simp
    obtain v where v: "nor_write_do E a ?bs ?r w = Some (0, v)" "kept V w v" "ready V v"
        "cell V (bus v) = programmed ?m (unat a) ?bs"
      using chip_nor_write_do [OF chip less.prems(1) r(1) chunk_in_page _ lbs] less.prems(2) r(2)
      by auto
    have fit32: "unat a + unat ?r < 2 ^ 32"
      using less.prems(1,2) r(2) unsigned_less [of "total_size w", where ?'a = nat]
      by (simp add: ready_def)
    then have a': "unat (a + ?r) = unat a + unat ?r" by (simp add: unat_word_ariths)
    have len': "unat (len - ?r) = unat len - unat ?r" by (rule unat_chunk_rest)
    have tl: "programmed (programmed ?m (unat a) ?bs) (unat a + unat ?r)
          (take (unat len - unat ?r) (drop (off + unat ?r) buf)) =
        programmed ?m (unat a) (take (unat len) (drop off buf))"
      using programmed_append [of ?m "unat a" ?bs "take (unat len - unat ?r) (drop (off + unat ?r) buf)"]
        lbs take_add [of "unat ?r" "unat len - unat ?r" "drop off buf"] r(2)
      by (simp add: add.commute)
    obtain w' where w': "nor_write_loop E 0 (a + ?r) buf (off + unat ?r) (len - ?r) v = Some (0, w')"
        "kept V v w'" "ready V w'"
        "cell V (bus w') = programmed ?m (unat a) (take (unat len) (drop off buf))"
      using less.hyps [OF chunk_rest_less [OF False, of a] v(3), of "a + ?r" "off + unat ?r" 0]
        less.prems(2,3) r(2) tl v(4) by (auto simp: a' len')
    have "nor_write_loop E ret a buf off len w =
        nor_write_loop E 0 (a + ?r) buf (off + unat ?r) (len - ?r) v"
      using False v(1) less.prems(3) r(2)
      by (subst nor_write_loop.simps) (simp add: read_at_def Let_def)
    with False v(2) w' show ?thesis by (auto intro: kept_trans)
  qed
qed

section \<open>Erasing\<close>

lemma erased_append: "erased (erased m a n) (a + n) k = erased m a (n + k)"
  by (rule ext) (auto simp: erased_def)

lemma erased_0 [simp]: "erased m a 0 = m"
  by (rule ext) (auto simp: erased_def)

lemma chip_nor_erase_do:
  assumes chip: "nor_chip E V" and rdy: "ready V w"
    and op: "erase_bytes (unat (addr_width w)) op = n" "n \<noteq> 0"
    and al: "unat a mod n = 0" and fit: "unat a + n \<le> capacity V"
  shows "\<exists>w'. nor_erase_do E op a w = Some (0, w') \<and> kept V w w' \<and>
    settles V w' \<and> cell V (bus w') = erased (cell V (bus w)) (unat a) n"
proof -
  have cf: "configured w" and id: "idle V w" using rdy by (simp_all add: ready_def)
  obtain v where v: "nor_write_enable E w = Some (0, v)" "same_flash V w v" "idle V v"
    "latch V (bus v)"
    using chip_nor_write_enable [OF chip id] by blast
  have sv: "kept V w v" and m: "cell V (bus v) = cell V (bus w)"
    using v(2) by (simp_all add: same_flash_def kept_def)
  have cv: "configured v" using cf configured_same [OF keptD(1) [OF sv]] by simp
  let ?ab = "addr_bytes v a" and ?n = "unat (addr_width v)"
  let ?tr = "nor_mode op \<lparr>tx_data = op # ?ab, tx_single_len = ?n + 1,
      rx_len = 0, tx_nbits = 1, rx_nbits = 1, dummy_byte = 0\<rparr>"
  have n: "length ?ab = ?n" by (rule length_addr_bytes [OF cv])
  have be: "be_val ?ab = unat a"
    using fit op rdy by (intro be_val_addr_bytes [OF cv]) (simp add: ready_def same_norD [OF keptD(1) [OF sv]])
  have op': "erase_bytes ?n op = n" using op by (simp add: same_norD [OF keptD(1) [OF sv]])
  obtain rx b where b: "spi_xfer E (spim_port v) ?tr (bus v) = Some (0, rx, b)"
    "cell V b = erased (cell V (bus w)) (unat a) n" "sr2 V b = sr2 V (bus v)"
    "busy_polls V b < 2 ^ 32"
    using chip [unfolded nor_chip_def chip_erase_def, THEN conjunct2, THEN conjunct2,
        THEN conjunct2, THEN conjunct2, THEN conjunct1, rule_format,
        of ?tr op ?ab n "bus v"] wire_erase [of ?n op] n be fit op' op(2) al v(3,4) m
    by (auto simp: idle_def)
  have "nor_erase_do E op a w = Some (0, v\<lparr>bus := b\<rparr>)"
    using v(1) b(1) by (simp add: nor_erase_do_def nor_transfer_def read_at_def n)
  with b sv v(3) show ?thesis by (auto simp: settles_def idle_def kept_def)
qed

lemma erase_unit_cases:
  "erase_unit flag a sz \<in> {0, SZ_4K, SZ_32K, SZ_64K}"
  by (simp add: erase_unit_def)

lemma chip_nor_erase_unit:
  assumes chip: "nor_chip E V" and rdy: "ready V w" and u: "u \<in> {SZ_4K, SZ_32K, SZ_64K}"
    and al: "unat a mod unat u = 0" and fit: "unat a + unat u \<le> capacity V"
  shows "\<exists>w'. nor_erase_unit E u a w = Some (0, w') \<and> kept V w w' \<and> ready V w' \<and>
    cell V (bus w') = erased (cell V (bus w)) (unat a) (unat u)"
proof -
  obtain cmd ms where cmd: "erase_bytes (unat (addr_width w)) cmd = unat u" and ms: "ms \<noteq> 0"
    and eq: "nor_erase_unit E u a w = do {
        (ret, w) \<leftarrow> nor_erase_do E cmd a w;
        if ret \<noteq> 0 then Some (ret, w) else nor_wait_ready E ms MAX_WAIT_LOOP w
      }"
  proof (cases "u = SZ_64K")
    case True
    with configured_width [of w] rdy
      that [of "cmd_4bytes w NOR_CMD_ERASE_BLK64K NOR_CMD_ERASE_BLK64K4B" 150]
    show thesis by (auto simp: nor_erase_unit_def nor_erase_64k_def erase_bytes_def cmd_4bytes_def
        ready_def)
  next
    case n64: False
    show thesis
    proof (cases "u = SZ_32K")
      case True
      with configured_width [of w] rdy
        that [of "cmd_4bytes w NOR_CMD_ERASE_BLK32K NOR_CMD_ERASE_BLK32K4B" 120]
      show thesis by (auto simp: nor_erase_unit_def nor_erase_32k_def erase_bytes_def cmd_4bytes_def
          ready_def)
    next
      case False
      with n64 u have "u = SZ_4K" by auto
      with configured_width [of w] rdy
        that [of "cmd_4bytes w NOR_CMD_ERASE_BLK4K NOR_CMD_ERASE_BLK4K4B" 30]
      show thesis by (auto simp: nor_erase_unit_def nor_erase_4k_def erase_bytes_def cmd_4bytes_def
          ready_def)
    qed
  qed
  have u0: "unat u \<noteq> 0" using u by auto
  obtain v where v: "nor_erase_do E cmd a w = Some (0, v)" "kept V w v"
    "settles V v" "cell V (bus v) = erased (cell V (bus w)) (unat a) (unat u)"
    using chip_nor_erase_do [OF chip rdy cmd u0 al fit] by blast
  obtain w' where "nor_wait_ready E ms 0xFFFFFFFF v = Some (0, w')" "same_flash V v w'" "idle V w'"
    using chip_nor_wait_ready_long [OF chip v(3) ms] by blast
  with v eq rdy show ?thesis
    by (auto simp: same_flash_def kept_def intro: same_nor_trans intro!: ready_kept [of V w])
qed

lemma unat_mod_0: "(x :: 'a::len word) mod y = 0 \<longleftrightarrow> unat x mod unat y = 0"
  by (simp only: unat_mod [symmetric] unat_eq_zero)

lemma erase_unit_props:
  assumes "erase_unit flag a sz = u" and "u \<noteq> 0"
  shows "u \<in> {SZ_4K, SZ_32K, SZ_64K}" "unat a mod unat u = 0" "unat u \<le> unat sz"
    "unat u mod 4096 = 0"
  using assms by (auto simp: erase_unit_def unat_mod_0 word_le_nat_alt split: if_splits)

lemma erase_unit_4k:
  assumes "flag AND SUPPORT_4K_ERASE_BLK \<noteq> 0" "unat a mod 4096 = 0" "unat sz mod 4096 = 0" "sz \<noteq> 0"
  shows "erase_unit flag a sz \<noteq> 0"
proof -
  have "0 < unat sz" using assms(4) by (simp add: unat_gt_0)
  then have "sz \<ge> SZ_4K" using assms(3) by (auto simp: word_le_nat_alt)
  with assms(1,2) show ?thesis by (simp add: erase_unit_def unat_mod_0)
qed

lemma chip_nor_erase_loop:
  assumes chip: "nor_chip E V" and flag: "flag AND SUPPORT_4K_ERASE_BLK \<noteq> 0"
  shows "ready V w \<Longrightarrow> unat a mod 4096 = 0 \<Longrightarrow> unat sz mod 4096 = 0 \<Longrightarrow>
    unat a + unat sz \<le> capacity V \<Longrightarrow>
    \<exists>w'. nor_erase_loop E flag a sz w = Some (0, w') \<and> kept V w w' \<and> ready V w' \<and>
      cell V (bus w') = erased (cell V (bus w)) (unat a) (unat sz)"
proof (induction "unat sz" arbitrary: a sz w rule: less_induct)
  case less
  show ?case
  proof (cases "sz = 0")
    case True
    with less.prems show ?thesis by (auto simp: nor_erase_loop.simps)
  next
    case False
    let ?u = "erase_unit flag a sz" and ?m = "cell V (bus w)"
    have u0: "?u \<noteq> 0" by (rule erase_unit_4k [OF flag less.prems(2,3) False])
    note u = erase_unit_props [OF refl u0]
    obtain v where v: "nor_erase_unit E ?u a w = Some (0, v)" "kept V w v" "ready V v"
        "cell V (bus v) = erased ?m (unat a) (unat ?u)"
      using chip_nor_erase_unit [OF chip less.prems(1) u(1,2)] less.prems(4) u(3) by auto
    have "unat a + unat ?u < 2 ^ 32"
      using less.prems(1,4) u(3) unsigned_less [of "total_size w", where ?'a = nat]
      by (simp add: ready_def)
    then have a': "unat (a + ?u) = unat a + unat ?u" by (simp add: unat_word_ariths)
    have sz': "unat (sz - ?u) = unat sz - unat ?u"
      using u(3) by (simp add: unat_sub word_le_nat_alt)
    have pos: "0 < unat ?u" using u0 by (simp only: unat_gt_0) simp
    then have dec: "unat (sz - ?u) < unat sz" using u(3) by (simp add: sz')
    have al: "(unat a + unat ?u) mod 4096 = 0" "(unat sz - unat ?u) mod 4096 = 0"
      using less.prems(2,3) u(3,4) by (auto simp: mod_eq_0_iff_dvd)
    obtain w' where w': "nor_erase_loop E flag (a + ?u) (sz - ?u) v = Some (0, w')"
        "kept V v w'" "ready V w'"
        "cell V (bus w') = erased ?m (unat a) (unat sz)"
      using less.hyps [OF dec v(3), of "a + ?u"] less.prems(4) u(3) al v(4)
        erased_append [of ?m "unat a" "unat ?u" "unat sz - unat ?u"]
      by (auto simp: a' sz')
    have "nor_erase_loop E flag a sz w = nor_erase_loop E flag (a + ?u) (sz - ?u) v"
      using False v(1) u0 by (subst nor_erase_loop.simps) (simp add: Let_def)
    with v(2) w' show ?thesis by (auto intro: kept_trans)
  qed
qed

lemma chip_nor_erase_all:
  assumes chip: "nor_chip E V" and rdy: "ready V w"
  shows "\<exists>w'. nor_erase_all E w = Some (0, w') \<and> kept V w w' \<and> ready V w' \<and>
    cell V (bus w') = erased (cell V (bus w)) 0 (capacity V)"
proof -
  have id: "idle V w" and info: "nor_info w \<noteq> None" using rdy by (auto simp: ready_def configured_def)
  obtain v where v: "nor_write_enable E w = Some (0, v)" "same_flash V w v" "idle V v"
    "latch V (bus v)"
    using chip_nor_write_enable [OF chip id] by blast
  let ?tr = "nor_mode 0x60 \<lparr>tx_data = [0x60], tx_single_len = 1, rx_len = 0, tx_nbits = 1,
      rx_nbits = 1, dummy_byte = 0\<rparr>"
  obtain rx b where b: "spi_xfer E (spim_port v) ?tr (bus v) = Some (0, rx, b)"
    "cell V b = erased (cell V (bus w)) 0 (capacity V)" "sr2 V b = sr2 V (bus v)"
    "busy_polls V b < 2 ^ 32"
    using chip [unfolded nor_chip_def chip_erase_all_def, THEN conjunct2, THEN conjunct2,
        THEN conjunct2, THEN conjunct2, THEN conjunct2, THEN conjunct1, rule_format,
        of ?tr "bus v"] v(2,3,4) plain_nor_mode [of "0x60" "[0x60]" 0]
    by (auto simp: idle_def same_flash_def kept_def)
  let ?u = "v\<lparr>bus := b\<rparr>"
  have tr: "nor_transfer E 1 [0x60] 1 [] 0 v = Some (0, [], ?u)"
    by (rule nor_transfer_cmd) (rule b(1))
  obtain x where x: "nor_wait_ready E 0 500 ?u = Some (0, x)" "same_flash V ?u x" "idle V x"
    using chip_nor_wait_ready [OF chip, of ?u 500] b(4) v(3) by (auto simp: settles_def idle_def)
  obtain y where y: "nor_wait_ready E 26000 0xFFFFFFFF x = Some (0, y)" "same_flash V x y"
    "idle V y"
    using chip_nor_wait_ready_long [OF chip idle_settles [OF x(3)], of 26000] by auto
  have "nor_erase_all E w = Some (0, y)"
    using info v(1) tr x(1) y(1) by (simp add: nor_erase_all_def nor_send_cmd_def)
  moreover have "kept V w y" "cell V (bus y) = erased (cell V (bus w)) 0 (capacity V)"
    using v(2) x(2) y(2) b(2,3) by (auto simp: same_flash_def kept_def intro: same_nor_trans)
  ultimately show ?thesis using y(3) rdy by (auto intro: ready_kept)
qed

section \<open>The interface of the driver\<close>

lemmas nor_lock_simps = nor_lock_def nor_unlock_def hal_sem_wait_def hal_sem_post_def unlocked_def

lemma chip_nor_read:
  assumes chip: "nor_chip E V" and rdy: "ready V w" and len: "len \<noteq> 0"
    and fit: "unat a + unat len \<le> capacity V" and buf: "unat len \<le> length buf"
  shows "\<exists>w'. nor_read E a buf len w =
      Some (0, map (cell V (bus w)) [unat a ..< unat a + unat len] @ drop (unat len) buf, w') \<and>
    same_flash V w w' \<and> ready V w'"
proof -
  obtain v where v: "nor_wait_ready E 0 500 w = Some (0, v)" "same_flash V w v" "idle V v"
    using chip_nor_wait_ready [OF chip, of w 500] rdy by (auto simp: ready_def intro: idle_settles)
  then have rv: "ready V v" using rdy by (auto intro: ready_kept same_flash_kept)
  have m: "cell V (bus v) = cell V (bus w)" using v(2) by (simp add: same_flash_def kept_def)
  obtain w' where w': "nor_read_loop E (- EBUSY) a buf 0 len v =
      Some (0, map (cell V (bus w)) [unat a ..< unat a + unat len] @ drop (unat len) buf, w')"
      "same_flash V v w'" "ready V w'"
    using chip_nor_read_loop [OF chip rv fit, of 0 buf "- EBUSY"] buf len by (auto simp: m)
  have "nor_info w \<noteq> None" using rdy by (simp add: ready_def configured_def)
  then show ?thesis using v w' by (auto simp: nor_read_def nor_lock_simps intro: same_flash_trans)
qed

lemma chip_nor_write:
  assumes chip: "nor_chip E V" and rdy: "ready V w" and len: "len \<noteq> 0"
    and fit: "unat a + unat len \<le> capacity V" and buf: "unat len \<le> length buf"
  shows "\<exists>w'. nor_write E a buf len w = Some (0, w') \<and> kept V w w' \<and> ready V w' \<and>
    cell V (bus w') = programmed (cell V (bus w)) (unat a) (take (unat len) buf)"
proof -
  obtain v where v: "nor_wait_ready E 0 500 w = Some (0, v)" "same_flash V w v" "idle V v"
    using chip_nor_wait_ready [OF chip, of w 500] rdy by (auto simp: ready_def intro: idle_settles)
  then have rv: "ready V v" and sv: "kept V w v"
    using rdy by (auto intro: ready_kept same_flash_kept)
  have m: "cell V (bus v) = cell V (bus w)" using v(2) by (simp add: same_flash_def kept_def)
  obtain w' where w': "nor_write_loop E (- EBUSY) a buf 0 len v = Some (0, w')"
      "kept V v w'" "ready V w'"
      "cell V (bus w') = programmed (cell V (bus w)) (unat a) (take (unat len) buf)"
    using chip_nor_write_loop [OF chip rv fit, of 0 buf "- EBUSY"] buf len by (auto simp: m)
  have "nor_info w \<noteq> None" using rdy by (simp add: ready_def configured_def)
  then show ?thesis using v(1) w' sv by (auto simp: nor_write_def nor_lock_simps intro: kept_trans)
qed

lemma chip_nor_erase:
  assumes chip: "nor_chip E V" and rdy: "ready V w"
    and flag: "info_flag (the (nor_info w)) AND SUPPORT_4K_ERASE_BLK \<noteq> 0"
    and al: "unat a mod 4096 = 0" "unat sz mod 4096 = 0"
    and fit: "unat a + unat sz \<le> capacity V"
  shows "\<exists>w'. nor_erase E a sz w = Some (0, w') \<and> kept V w w' \<and> ready V w' \<and>
    cell V (bus w') = erased (cell V (bus w)) (unat a) (unat sz)"
proof -
  obtain i where i: "nor_info w = Some i" using rdy by (auto simp: ready_def configured_def)
  have cap: "capacity V = unat (total_size w)" using rdy by (simp add: ready_def)
  have nowrap: "unat (a + sz) = unat a + unat sz"
    using fit unsigned_less [of "total_size w", where ?'a = nat] cap
    by (simp add: unat_word_ariths)
  have guards: "sz mod SZ_4K = 0" "\<not> a + sz > total_size w"
    using al fit cap nowrap by (simp_all add: unat_mod_0 word_less_nat_alt)
  show ?thesis
  proof (cases "a = 0 \<and> sz = total_size w")
    case True
    with chip_nor_erase_all [OF chip rdy] i guards cap show ?thesis
      by (auto simp: nor_erase_def nor_lock_simps)
  next
    case False
    then have "nor_erase E a sz w = do { (ret, w) \<leftarrow> nor_erase_loop E (info_flag i) a sz w;
        unlocked ret w }"
      using i guards by (auto simp: nor_erase_def nor_lock_def hal_sem_wait_def)
    moreover obtain w' where "nor_erase_loop E (info_flag i) a sz w = Some (0, w')" "kept V w w'"
      "ready V w'" "cell V (bus w') = erased (cell V (bus w)) (unat a) (unat sz)"
      using chip_nor_erase_loop [OF chip _ rdy al fit, of "info_flag i"] flag i by auto
    ultimately show ?thesis by (simp add: nor_lock_simps)
  qed
qed

end
