(* ===== verification/Nor_Init.thy ===== *)
theory Nor_Init
  imports Nor_Chip
begin

unbundle bit_operations_syntax

text \<open>
  Bringing the driver up: the chain of factories that registration builds, which chips
  \<open>match_nor\<close> recognises, the geometry and commands that scanning establishes whatever the chip
  answers, and initialisation of the chip that \<open>FlashDev.c\<close> names against its data sheet.
\<close>

section \<open>The chain of factories\<close>

text \<open>\<open>path nx p fs\<close>: following the \<open>next\<close> fields from \<open>p\<close> visits exactly \<open>fs\<close>.\<close>

fun path :: "(fid option \<Rightarrow> fid option) \<Rightarrow> fid option \<Rightarrow> fid list \<Rightarrow> bool" where
  "path nx p [] = (nx p = None)"
| "path nx p (f # fs) = (nx p = Some f \<and> path nx (Some f) fs)"

definition factory_order :: "fid list" where
  "factory_order = [GD, MXIC, WINBOND, XTX, ESMT, FM, XMC, PUYA, ZETTA]"

lemma path_det: "path nx p fs \<Longrightarrow> path nx p gs \<Longrightarrow> fs = gs"
  by (induction nx p fs arbitrary: gs rule: path.induct) (case_tac gs; fastforce)+

lemma path_distinct: "path nx p fs \<Longrightarrow> distinct fs"
proof (induction fs arbitrary: p rule: length_induct)
  case (1 fs)
  show ?case
  proof (cases fs)
    case (Cons f gs)
    have suf: "path nx (Some g) hs" if "path nx q (xs @ g # hs)" for q xs g hs
      using that by (induction xs arbitrary: q) auto
    have "f \<notin> set gs"
    proof
      assume "f \<in> set gs"
      then obtain xs ys where "gs = xs @ f # ys" by (auto dest: split_list)
      with "1.prems" Cons suf [of p "[]" f gs] suf [of p "f # xs" f ys]
      have "gs = ys" by (auto dest: path_det)
      with \<open>gs = xs @ f # ys\<close> show False by (auto dest: arg_cong [of _ _ length])
    qed
    with "1.IH" "1.prems" Cons show ?thesis by auto
  qed simp
qed

lemma chain_last_path:
  "path nx p fs \<Longrightarrow> chain_last nx p = Some (if fs = [] then p else Some (last fs))"
  by (induction nx p fs rule: path.induct) (simp_all add: chain_last.simps)

lemma path_cong:
  "path nx p fs \<Longrightarrow> (\<And>q. q \<in> insert p (Some ` set fs) \<Longrightarrow> nx' q = nx q) \<Longrightarrow> path nx' p fs"
  by (induction nx p fs rule: path.induct) auto

text \<open>
  Registering a factory appends it to the chain; when it is already there, the chain is cut
  after it.
\<close>

lemma path_register:
  assumes "path nx p fs" and "p \<noteq> Some f" and "p \<notin> Some ` set fs"
  shows "path (nx((if fs = [] then p else Some (last fs)) := Some f, Some f := None)) p
           (takeWhile (\<lambda>g. g \<noteq> f) fs @ [f])"
  using assms path_distinct [OF assms(1)]
proof (induction nx p fs rule: path.induct)
  case (2 nx p g fs)
  then have "p \<noteq> Some (last (g # fs))" by (metis image_eqI last_in_set list.distinct(1))
  with 2 show ?case by (cases "fs = []") (auto simp: image_iff)
qed auto

lemma nor_register_factory_path:
  assumes "path (fnext w) None fs"
  shows "\<exists>nx. nor_register_factory (Some f) w = Some (0, w\<lparr>fnext := nx\<rparr>) \<and>
           path nx None (takeWhile (\<lambda>g. g \<noteq> f) fs @ [f])"
proof -
  let ?p = "if fs = [] then None else Some (last fs)"
  have "nor_register_factory (Some f) w = Some (0, w\<lparr>fnext := (fnext w)(?p := Some f, Some f := None)\<rparr>)"
    by (simp add: nor_register_factory_def chain_last_path [OF assms])
  moreover have "path ((fnext w)(?p := Some f, Some f := None)) None (takeWhile (\<lambda>g. g \<noteq> f) fs @ [f])"
    using assms by (intro path_register) auto
  ultimately show ?thesis by blast
qed

lemmas register_defs = nor_register_factory_gd_def
  nor_register_factory_mxic_def nor_register_factory_winbond_def nor_register_factory_xtx_def
  nor_register_factory_esmt_def nor_register_factory_fm_def nor_register_factory_xmc_def
  nor_register_factory_puya_def nor_register_factory_zetta_def

fun register_in_turn :: "fid list \<Rightarrow> 'b nor \<Rightarrow> (int \<times> 'b nor) option" where
  "register_in_turn [] w = Some (0, w)"
| "register_in_turn (g # gs) w = do {
     (_, w) \<leftarrow> nor_register_factory (Some g) w;
     register_in_turn gs w
   }"

lemma register_in_turn_path:
  assumes "path (fnext w) None fs" and "set gs \<inter> set fs = {}" and "distinct gs"
  shows "\<exists>nx. register_in_turn gs w = Some (0, w\<lparr>fnext := nx\<rparr>) \<and> path nx None (fs @ gs)"
  using assms
proof (induction gs arbitrary: fs w)
  case Nil
  then show ?case by (intro exI [of _ "fnext w"]) simp
next
  case (Cons g gs)
  have "takeWhile (\<lambda>h. h \<noteq> g) fs = fs" using Cons.prems(2) by (auto intro: takeWhile_eq_all_conv [THEN iffD2])
  with nor_register_factory_path [OF Cons.prems(1), of g] obtain nx where
    nx: "nor_register_factory (Some g) w = Some (0, w\<lparr>fnext := nx\<rparr>)" "path nx None (fs @ [g])"
    by auto
  have "\<exists>nx'. register_in_turn gs (w\<lparr>fnext := nx\<rparr>) = Some (0, w\<lparr>fnext := nx\<rparr>\<lparr>fnext := nx'\<rparr>) \<and>
      path nx' None ((fs @ [g]) @ gs)"
    using nx(2) Cons.prems by (intro Cons.IH) auto
  then show ?case using nx by auto
qed

lemma nor_factory_register_turn:
  "nor_factory_register w = register_in_turn factory_order w"
  unfolding nor_factory_register_def register_defs factory_order_def register_in_turn.simps
  by (rule refl)

lemma nor_factory_register_links:
  assumes "path (fnext w) None fs" and "fs = [] \<or> hd fs = GD"
  shows "\<exists>nx. nor_factory_register w = Some (0, w\<lparr>fnext := nx\<rparr>) \<and> path nx None factory_order"
proof -
  have "takeWhile (\<lambda>g. g \<noteq> GD) fs = []" using assms(2) by (cases fs) auto
  with nor_register_factory_path [OF assms(1), of GD] obtain nx where
    nx: "nor_register_factory (Some GD) w = Some (0, w\<lparr>fnext := nx\<rparr>)" "path nx None [GD]"
    by auto
  have "\<exists>nx'. register_in_turn (tl factory_order) (w\<lparr>fnext := nx\<rparr>) =
      Some (0, w\<lparr>fnext := nx\<rparr>\<lparr>fnext := nx'\<rparr>) \<and> path nx' None ([GD] @ tl factory_order)"
    using nx by (intro register_in_turn_path) (simp_all add: factory_order_def)
  then show ?thesis using nx(1)
    by (simp add: nor_factory_register_turn factory_order_def)
qed

section \<open>Recognising the chip\<close>

lemma idt_search_found:
  assumes "i \<in> set tab" and "length tab \<le> n" and "distinct (map info_id tab)"
    and "\<And>j. j \<in> set tab \<Longrightarrow> length (info_id j) = k"
  shows "idt_search tab n (info_id i) k = Some (Some i)"
  using assms
proof (induction tab arbitrary: n)
  case (Cons x tab)
  then obtain m where "n = Suc m" by (cases n) auto
  with Cons show ?case by (cases "x = i") (auto simp: image_iff)
qed simp

lemma idt_search_past_end:
  assumes "\<And>j. j \<in> set tab \<Longrightarrow> take k (info_id j) \<noteq> take k ident" and "length tab < n"
  shows "idt_search tab n ident k = None"
  using assms
proof (induction tab arbitrary: n)
  case Nil
  then show ?case by (cases n) auto
next
  case (Cons x tab)
  then show ?case by (cases n) auto
qed

lemma idt_cnt_too_large: "idt_cnt (factory_of E f) = 24 * length (idt (factory_of E f))"
  by (cases f) (simp_all add: nor_factory_defs sizeof_nor_info_def)

lemma factory_ids_distinct: "factory_id (factory_of E f) = factory_id (factory_of E g) \<longleftrightarrow> f = g"
  by (cases f; cases g) (simp_all add: nor_factory_defs)

lemma idt_well_formed:
  "distinct (map info_id (idt (factory_of E f)))" "idt (factory_of E f) \<noteq> []"
  "\<forall>i \<in> set (idt (factory_of E f)). length (info_id i) = 3 \<and>
     info_id i ! 0 = factory_id (factory_of E f)"
  by (cases f; simp add: nor_factory_defs idt_defs)+

lemma match_nor_from_Some:
  "match_nor_from E (Some g) ident k w =
     (if factory_id (factory_of E g) \<noteq> ident ! 0 then match_nor_from E (fnext w (Some g)) ident k w
      else do {
        r \<leftarrow> idt_search (idt (factory_of E g)) (idt_cnt (factory_of E g)) ident k;
        case r of
          Some x \<Rightarrow> Some (0, w\<lparr>nor_fac := Some g, nor_info := Some x\<rparr>)
        | None \<Rightarrow> Some (-1, w)
      })"
  by (subst match_nor_from.simps) simp

lemma match_nor_path:
  assumes "path (fnext w) p fs"
  shows "match_nor_from E (fnext w p) ident k w =
    (case find (\<lambda>g. factory_id (factory_of E g) = ident ! 0) fs of
       None \<Rightarrow> Some (-1, w)
     | Some g \<Rightarrow> do {
        r \<leftarrow> idt_search (idt (factory_of E g)) (idt_cnt (factory_of E g)) ident k;
        case r of
          Some x \<Rightarrow> Some (0, w\<lparr>nor_fac := Some g, nor_info := Some x\<rparr>)
        | None \<Rightarrow> Some (-1, w)
      })"
  using assms
proof (induction "fnext w" p fs rule: path.induct)
  case (1 p)
  then show ?case by (simp add: match_nor_from.simps)
next
  case (2 p f fs)
  then show ?case by (simp add: match_nor_from_Some)
qed

lemma find_factory:
  "find (\<lambda>g. factory_id (factory_of E g) = factory_id (factory_of E f)) factory_order = Some f"
  by (cases f) (simp_all add: factory_order_def nor_factory_defs)

lemma match_nor_known:
  assumes "path (fnext w) None factory_order" and "i \<in> set (idt (factory_of E f))"
  shows "match_nor E (info_id i) 3 w = Some (0, w\<lparr>nor_fac := Some f, nor_info := Some i\<rparr>)"
proof -
  have "info_id i ! 0 = factory_id (factory_of E f)" using assms(2) idt_well_formed(3) by blast
  moreover have "idt_search (idt (factory_of E f)) (idt_cnt (factory_of E f)) (info_id i) 3 =
      Some (Some i)"
    using assms(2) idt_well_formed [of E f]
    by (intro idt_search_found) (auto simp: idt_cnt_too_large)
  ultimately show ?thesis
    by (simp add: match_nor_def match_nor_path [OF assms(1)] find_factory)
qed

lemma match_nor_unknown_chip:
  assumes "path (fnext w) None factory_order" and "ident ! 0 = factory_id (factory_of E f)"
    and "\<forall>i \<in> set (idt (factory_of E f)). info_id i \<noteq> take 3 ident"
  shows "match_nor E ident 3 w = None"
proof -
  have "idt_search (idt (factory_of E f)) (idt_cnt (factory_of E f)) ident 3 = None"
    using assms(3) idt_well_formed [of E f]
    by (intro idt_search_past_end) (auto simp: idt_cnt_too_large)
  then show ?thesis
    by (simp add: match_nor_def match_nor_path [OF assms(1)] find_factory assms(2))
qed

lemma match_nor_unknown_factory:
  assumes "path (fnext w) None factory_order" and "\<forall>f. factory_id (factory_of E f) \<noteq> ident ! 0"
  shows "match_nor E ident k w = Some (-1, w)"
proof -
  have "find (\<lambda>g. factory_id (factory_of E g) = ident ! 0) factory_order = None"
    using assms(2) by (auto simp only: find_None_iff)
  then show ?thesis by (simp only: match_nor_def match_nor_path [OF assms(1)] option.case)
qed

lemma match_nor_result:
  assumes "path (fnext w) None factory_order" and "match_nor E ident k w = Some (r, w')"
  shows "r = -1 \<and> w' = w \<or>
    (\<exists>f i. i \<in> set (idt (factory_of E f)) \<and> take k (info_id i) = take k ident \<and> r = 0 \<and>
       w' = w\<lparr>nor_fac := Some f, nor_info := Some i\<rparr>)"
proof -
  have found: "x \<in> set tab \<and> take k (info_id x) = take k ident"
    if "idt_search tab n ident k = Some (Some x)" for tab n x
    using that by (induction tab n ident k rule: idt_search.induct) (auto split: if_splits)
  show ?thesis using assms(2) found
    by (fastforce simp: match_nor_def match_nor_path [OF assms(1)] bind_eq_Some_conv
        split: option.splits)
qed

section \<open>What scanning establishes\<close>

text \<open>
  \<open>frames2\<close> and \<open>frames3\<close>: whatever a call returns, only the bus differs from the state \<open>w\<close>.
  The rules follow the structure of the code.
\<close>

definition frames2 :: "'b nor \<Rightarrow> ('r \<times> 'b nor) option \<Rightarrow> bool" where
  "frames2 w m \<longleftrightarrow> (\<forall>r v. m = Some (r, v) \<longrightarrow> same_nor w v)"

definition frames3 :: "'b nor \<Rightarrow> ('r \<times> 's \<times> 'b nor) option \<Rightarrow> bool" where
  "frames3 w m \<longleftrightarrow> (\<forall>r s v. m = Some (r, s, v) \<longrightarrow> same_nor w v)"

named_theorems framing \<open>structural rules for \<open>frames2\<close> and \<open>frames3\<close>\<close>

lemma frames_Some [framing]:
  "same_nor w v \<Longrightarrow> frames2 w (Some (r, v))" "same_nor w v \<Longrightarrow> frames3 w (Some (r, s, v))"
  by (simp_all add: frames2_def frames3_def)

lemma frames_if [framing]:
  "(c \<Longrightarrow> frames2 w m) \<Longrightarrow> (\<not> c \<Longrightarrow> frames2 w n) \<Longrightarrow> frames2 w (if c then m else n)"
  "(c \<Longrightarrow> frames3 w m') \<Longrightarrow> (\<not> c \<Longrightarrow> frames3 w n') \<Longrightarrow> frames3 w (if c then m' else n')"
  by simp_all

lemma frames_bind2 [framing]:
  "frames2 w m \<Longrightarrow> (\<And>r v. same_nor w v \<Longrightarrow> frames2 w (f r v)) \<Longrightarrow>
     frames2 w (Option.bind m (\<lambda>(r, v). f r v))"
  "frames2 w m \<Longrightarrow> (\<And>r v. same_nor w v \<Longrightarrow> frames3 w (g r v)) \<Longrightarrow>
     frames3 w (Option.bind m (\<lambda>(r, v). g r v))"
  by (cases m; auto simp: frames2_def frames3_def)+

lemma frames_bind3 [framing]:
  "frames3 w m \<Longrightarrow> (\<And>r s v. same_nor w v \<Longrightarrow> frames2 w (f r s v)) \<Longrightarrow>
     frames2 w (Option.bind m (\<lambda>(r, s, v). f r s v))"
  "frames3 w m \<Longrightarrow> (\<And>r s v. same_nor w v \<Longrightarrow> frames3 w (g r s v)) \<Longrightarrow>
     frames3 w (Option.bind m (\<lambda>(r, s, v). g r s v))"
  by (cases m; auto simp: frames2_def frames3_def)+

lemma frames_pure [framing]:
  "(\<And>x. frames2 w (f x)) \<Longrightarrow> frames2 w (Option.bind m f)"
  "(\<And>x. frames3 w (g x)) \<Longrightarrow> frames3 w (Option.bind m g)"
  by (cases m; simp add: frames2_def frames3_def)+

lemma frames_nor_transfer [framing]: "same_nor w v \<Longrightarrow> frames3 w (nor_transfer E s t n b m v)"
  by (auto simp: frames3_def dest: nor_transfer_frame intro: same_nor_trans)

lemma frames_nor_read_status [framing]: "same_nor w v \<Longrightarrow> frames3 w (nor_read_status E sr v)"
  by (auto simp: frames3_def dest: nor_read_status_frame intro: same_nor_trans)

lemma frames_cmds [framing]:
  "same_nor w v \<Longrightarrow> frames2 w (nor_wait_ready E ms n v)"
  "same_nor w v \<Longrightarrow> frames2 w (nor_send_cmd E cmd v)"
  "same_nor w v \<Longrightarrow> frames2 w (nor_write_enable E v)"
  "same_nor w v \<Longrightarrow> frames2 w (nor_write_status E bs len v)"
  by (auto simp: frames2_def dest: frame intro: same_nor_trans)

lemma frames_nor_gd_quad_mode [framing]: "same_nor w v \<Longrightarrow> frames2 w (nor_gd_quad_mode E v)"
  unfolding nor_gd_quad_mode_def  Let_def by (assumption | rule framing)+

lemma frames_nor_puya_quad_mode [framing]: "same_nor w v \<Longrightarrow> frames2 w (nor_puya_quad_mode E v)"
  unfolding nor_puya_quad_mode_def  Let_def by (assumption | rule framing)+

lemma frames_nor_zetta_quad_mode [framing]: "same_nor w v \<Longrightarrow> frames2 w (nor_zetta_quad_mode E v)"
  unfolding nor_zetta_quad_mode_def  Let_def by (assumption | rule framing)+

lemma frames_nor_mxic_quad_mode [framing]: "same_nor w v \<Longrightarrow> frames2 w (nor_mxic_quad_mode E v)"
  unfolding nor_mxic_quad_mode_def  Let_def by (assumption | rule framing)+

lemma frames_nor_xtx_quad_mode [framing]: "same_nor w v \<Longrightarrow> frames2 w (nor_xtx_quad_mode E v)"
  unfolding nor_xtx_quad_mode_def nor_xtx_read_status1_def Let_def by (assumption | rule framing)+

lemma frames_nor_fm_quad_mode [framing]: "same_nor w v \<Longrightarrow> frames2 w (nor_fm_quad_mode E v)"
  unfolding nor_fm_quad_mode_def nor_fm_read_status1_def Let_def by (assumption | rule framing)+

lemma frames_nor_xmc_quad_mode [framing]: "same_nor w v \<Longrightarrow> frames2 w (nor_xmc_quad_mode E v)"
  unfolding nor_xmc_quad_mode_def nor_xmc_read_status2_def nor_xmc_write_status2_def nor_xmc_set_wps_def Let_def by (assumption | rule framing)+

lemma frames_nor_set_quad_mode [framing]:
  assumes "same_nor w v" shows "frames2 w (nor_set_quad_mode E v)"
  unfolding nor_set_quad_mode_def the_factory_def
  using assms by (cases "nor_fac v"; simp; cases "the (nor_fac v)")
    (simp_all add: nor_factory_defs framing frames2_def [of _ None])

lemma no_4bytes_op: "f_set_4bytes_addr (factory_of E f) = None"
  by (cases f) (simp_all add: nor_factory_defs)

lemma nor_set_4byte_cmd:
  "nor_set_4byte E en w = do {
     (ret, w) \<leftarrow> nor_send_cmd E NOR_CMD_EN4B w;
     if ret \<noteq> 0 then Some (ret, w) else Some (0, w)
   }"
  by (cases "nor_fac w") (simp_all add: nor_set_4byte_def the_factory_def no_4bytes_op)

lemma frames_nor_set_4byte [framing]: "same_nor w v \<Longrightarrow> frames2 w (nor_set_4byte E en v)"
  unfolding nor_set_4byte_cmd by (assumption | rule framing)+

text \<open>What the flags of every listed chip have in common.\<close>

lemma listed_flags:
  assumes "i \<in> set (idt (factory_of E f))"
  shows "info_flag i AND USE_IO_READ_X4 = 0" "info_flag i AND USE_IO_READ_X2 = 0"
    "info_flag i AND USE_4K_ERASE = 0"
    "info_flag i = 0 \<or> info_flag i AND SUPPORT_4K_ERASE_BLK \<noteq> 0"
    "info_total_size i mod SZ_64K = 0" "info_total_size i \<noteq> 0"
  using assms by (cases f; auto simp: nor_factory_defs idt_defs)+

definition effective_flag :: "nor_info \<Rightarrow> u32" where
  "effective_flag i = (if info_flag i = 0 then SUPPORT_GENERAL else info_flag i)"

text \<open>The state that scanning leaves for a chip of the tables, up to the bus.\<close>

definition scanned :: "fid \<Rightarrow> nor_info \<Rightarrow> 'b nor \<Rightarrow> bool" where
  "scanned f i w \<longleftrightarrow> configured w \<and> nor_fac w = Some f \<and>
     nor_info w = Some (i\<lparr>info_flag := effective_flag i\<rparr>) \<and>
     total_size w = info_total_size i \<and> page_size w = 0x100 \<and> blk_size w = 0x1000"

lemma scanned_same: "same_nor w w' \<Longrightarrow> scanned f i w' = scanned f i w"
  by (simp add: scanned_def configured_same same_norD)

lemma scan_geometry_result:
  assumes "nor_info w = Some i" and "scan_geometry E w = Some w'"
  shows "addr_width w' = (if total_size w' > SZ_16M then 4 else 3) \<and>
    nor_info w' = Some (i\<lparr>info_flag := effective_flag i\<rparr>) \<and> nor_fac w' = nor_fac w \<and>
    total_size w' = info_total_size i \<and> page_size w' = 0x100 \<and> blk_size w' = 0x1000 \<and>
    fnext w' = fnext w"
proof -
  let ?w = "w\<lparr>nor_info := Some (i\<lparr>info_flag := effective_flag i\<rparr>),
              total_size := info_total_size i, addr_width := 3\<rparr>"
  have fr: "nor_set_4byte E True v = Some (r, u) \<Longrightarrow> same_nor v u" for v r u
    using frames_nor_set_4byte [of v v E True] by (simp add: frames2_def)
  have i': "(if info_flag i = 0 then i\<lparr>info_flag := SUPPORT_GENERAL\<rparr> else i) =
      i\<lparr>info_flag := effective_flag i\<rparr>"
    by (simp add: effective_flag_def)
  have "scan_geometry E w = do {
      v \<leftarrow> (if total_size ?w > SZ_16M
           then do { (_, v) \<leftarrow> nor_set_4byte E True (?w\<lparr>addr_width := 4\<rparr>); Some v }
           else Some ?w);
      Some (v\<lparr>page_size := NOR_PAGE_SIZE, blk_size := SZ_4K\<rparr>) }"
    unfolding scan_geometry_def assms(1) Let_def by (simp add: i')
  with assms(2) show ?thesis
    by (auto simp: bind_eq_Some_conv dest!: fr dest: same_norD split: if_splits)
qed

lemma scan_cmds_configured:
  assumes "addr_width w = (if total_size w > SZ_16M then 4 else 3)" and "nor_info w \<noteq> None"
    and "flag AND USE_IO_READ_X4 = 0" "flag AND USE_IO_READ_X2 = 0"
  shows "configured (scan_read_cmd flag (scan_write_cmd flag w))"
  using assms
  by (cases "total_size w > SZ_16M"; cases "flag AND SUPPORT_QUAD_WRITE = 0";
      cases "flag AND USE_IO_PROG_X4 = 0"; cases "flag AND SUPPORT_QUAD_READ = 0";
      cases "flag AND SUPPORT_DUAL_READ = 0")
    (simp_all add: configured_def scan_read_cmd_def scan_write_cmd_def cmd_4bytes_def
      read_ops_def prog_ops_def prog_header_def)

lemma scan_cmds_frame:
  "nor_info (scan_read_cmd flag (scan_write_cmd flag w)) = nor_info w"
  "nor_fac (scan_read_cmd flag (scan_write_cmd flag w)) = nor_fac w"
  "total_size (scan_read_cmd flag (scan_write_cmd flag w)) = total_size w"
  "page_size (scan_read_cmd flag (scan_write_cmd flag w)) = page_size w"
  "blk_size (scan_read_cmd flag (scan_write_cmd flag w)) = blk_size w"
  "fnext (scan_read_cmd flag (scan_write_cmd flag w)) = fnext w"
  by (simp_all add: scan_read_cmd_def scan_write_cmd_def Let_def)

lemma nor_read_id_frame3: "same_nor w v \<Longrightarrow> frames3 w (nor_read_id E ident len v)"
  by (auto simp: frames3_def dest: nor_read_id_frame intro: same_nor_trans)

lemma nor_scan_scanned:
  assumes "path (fnext w) None factory_order" and "nor_scan E w = Some (0, w')"
  shows "\<exists>f i. i \<in> set (idt (factory_of E f)) \<and> scanned f i w' \<and> fnext w' = fnext w"
proof -
  obtain ident v where v: "nor_read_id E [0, 0, 0] MAX_ID_LEN w = Some (0, ident, v)"
    and m: "(match_nor E ident MAX_ID_LEN v \<bind> (\<lambda>(ret, w).
       if ret \<noteq> 0 then Some (ret, w\<lparr>nor_info := None\<rparr>)
       else do {
         w \<leftarrow> scan_geometry E w;
         i \<leftarrow> nor_info w;
         let w = scan_read_cmd (info_flag i) (scan_write_cmd (info_flag i) w);
         if cmd_bit (cmd_read w) = 4 \<or> cmd_bit (cmd_write w) = 4
         then do {
           (ret, w) \<leftarrow> nor_set_quad_mode E w;
           if ret \<noteq> 0 then Some (ret, w\<lparr>nor_info := None\<rparr>) else Some (0, w)
         }
         else Some (0, w)
       })) = Some (0, w')"
    using assms(2) unfolding nor_scan_def by (auto simp: bind_eq_Some_conv split: if_splits)
  have sv: "same_nor w v" by (rule nor_read_id_frame [OF v])
  have pv: "path (fnext v) None factory_order" using assms(1) by (simp add: same_norD [OF sv])
  obtain f i where i: "i \<in> set (idt (factory_of E f))" "match_nor E ident MAX_ID_LEN v =
      Some (0, v\<lparr>nor_fac := Some f, nor_info := Some i\<rparr>)"
    using m match_nor_result [OF pv, of E ident MAX_ID_LEN]
    by (auto simp: bind_eq_Some_conv split: if_splits)
  note fl = listed_flags [OF i(1)]
  let ?m = "v\<lparr>nor_fac := Some f, nor_info := Some i\<rparr>"
  obtain g where g: "scan_geometry E ?m = Some g" using m i(2) by (auto simp: bind_eq_Some_conv)
  note gr = scan_geometry_result [OF _ g, of i, simplified]
  let ?i = "i\<lparr>info_flag := effective_flag i\<rparr>"
  let ?s = "scan_read_cmd (effective_flag i) (scan_write_cmd (effective_flag i) g)"
  have ef: "effective_flag i AND USE_IO_READ_X4 = 0" "effective_flag i AND USE_IO_READ_X2 = 0"
    using fl by (simp_all add: effective_flag_def)
  have sc: "scanned f i ?s"
    using gr scan_cmds_configured [OF _ _ ef, of g] by (simp add: scanned_def scan_cmds_frame)
  have fn: "fnext ?s = fnext w" using gr by (simp add: scan_cmds_frame same_norD [OF sv])
  have rest: "(if cmd_bit (cmd_read ?s) = 4 \<or> cmd_bit (cmd_write ?s) = 4
       then do {
         (ret, w) \<leftarrow> nor_set_quad_mode E ?s;
         if ret \<noteq> 0 then Some (ret, w\<lparr>nor_info := None\<rparr>) else Some (0, w)
       } else Some (0, ?s)) = nor_scan E w"
    using v i(2) g gr by (simp add: nor_scan_def Let_def)
  have "same_nor ?s w'"
    using rest assms(2) frames_nor_set_quad_mode [of ?s ?s E]
    by (auto simp: frames2_def bind_eq_Some_conv split: if_splits)
  with sc fn i(1) show ?thesis by (auto simp: scanned_same same_norD)
qed

section \<open>Initialisation\<close>

lemma frames_nor_wr_unlock_all [framing]:
  "same_nor w v \<Longrightarrow> frames2 w (nor_wr_unlock_all E v)"
  unfolding nor_wr_unlock_all_def by (assumption | rule framing)+

lemma frames_winbond_init [framing]: "same_nor w v \<Longrightarrow> frames2 w (nor_winbond_init E v)"
  unfolding nor_winbond_init_def nor_winbond_set_rcv_def Let_def by (assumption | rule framing)+

lemma frames_xmc_init [framing]: "same_nor w v \<Longrightarrow> frames2 w (nor_xmc_init E v)"
  unfolding nor_xmc_init_def nor_xmc_set_wps_def Let_def by (assumption | rule framing)+

lemma frames_nor_factory_init [framing]:
  assumes "same_nor w v" shows "frames2 w (nor_factory_init E v)"
  unfolding nor_factory_init_def the_factory_def
  using assms by (cases "nor_fac v"; simp; cases "the (nor_fac v)")
    (simp_all add: nor_factory_defs framing frames2_def [of _ None])

lemma nor_reset_frame2: "nor_reset E w = Some (r, v) \<Longrightarrow> same_nor w v"
  by (rule nor_reset_frame)

lemma nor_init_scanned:
  assumes path: "path (fnext w) None fs" "fs = [] \<or> hd fs = GD" and none: "nor_info w = None"
    and init: "nor_init E w = Some (0, w')"
  shows "\<exists>f i. i \<in> set (idt (factory_of E f)) \<and> scanned f i w' \<and>
    path (fnext w') None factory_order"
proof -
  have fnext_lock: "fnext (snd (nor_lock_init E u)) = fnext u" for u :: "'a nor"
    by (auto simp: nor_lock_init_def hal_sem_create_def Let_def split: prod.splits)
  have fnext_spi: "nor_spi_master_init E u = Some (r, v) \<Longrightarrow> fnext v = fnext u" for u r v
    by (auto simp: nor_spi_master_init_def bind_eq_Some_conv Let_def)
  obtain w1 where w1: "nor_lock_init E w = (0, w1)" and "fnext w1 = fnext w"
    using init none fnext_lock [of w] unfolding nor_init_def
    by (auto simp: Let_def unlocked_def split: prod.splits if_splits)
  obtain w2 where w2: "nor_spi_master_init E w1 = Some (0, w2)"
    using init none w1 unfolding nor_init_def
    by (auto simp: Let_def unlocked_def bind_eq_Some_conv split: if_splits)
  obtain w3 where w3: "nor_reset E w2 = Some (0, w3)"
    using init none w1 w2 unfolding nor_init_def
    by (auto simp: Let_def unlocked_def bind_eq_Some_conv split: if_splits)
  have "path (fnext w3) None fs"
    using path(1) \<open>fnext w1 = fnext w\<close> fnext_spi [OF w2] nor_reset_frame [OF w3] by (simp add: same_norD)
  from nor_factory_register_links [OF this path(2)] obtain nx where
    nx: "nor_factory_register w3 = Some (0, w3\<lparr>fnext := nx\<rparr>)" "path nx None factory_order" by blast
  obtain w5 where w5: "nor_scan E (w3\<lparr>fnext := nx\<rparr>) = Some (0, w5)"
    using init none w1 w2 w3 nx(1) unfolding nor_init_def
    by (auto simp: Let_def unlocked_def bind_eq_Some_conv split: if_splits)
  obtain f i where sc: "i \<in> set (idt (factory_of E f))" "scanned f i w5" "fnext w5 = nx"
    using nor_scan_scanned [OF _ w5] nx(2) by auto
  obtain w6 where w6: "nor_factory_init E w5 = Some (0, w6)" "nor_wr_unlock_all E w6 = Some (0, w')"
    using init none w1 w2 w3 nx(1) w5 unfolding nor_init_def
    by (auto simp: Let_def unlocked_def bind_eq_Some_conv split: if_splits)
  have "same_nor w5 w'"
    using w6 frames_nor_factory_init [of w5 w5 E] frames_nor_wr_unlock_all [of w6 w6 E]
    by (auto simp: frames2_def intro: same_nor_trans)
  with sc nx(2) show ?thesis by (auto simp: scanned_same same_norD)
qed

end
