(* ===== verification/Nor_Board.thy ===== *)
theory Nor_Board
  imports Nor_Init
begin

unbundle bit_operations_syntax

text \<open>
  Initialisation against the data sheet: on a board whose controller works and whose chip
  identifies itself as the \<open>P25Q64H\<close> of \<open>FlashDev.c\<close>, \<open>nor_init\<close> succeeds and leaves the driver
  configured for quad transfers. The last section gives such a board, a small simulator of the
  chip on which the theorems of the development are applied.
\<close>

section \<open>Initialisation on the board\<close>

text \<open>
  The rest of the data sheet that initialisation uses (identification, software reset, global
  unlock, the second status register with the quad enable bit), and a controller and an allocator
  that work.
\<close>

definition chip_ident :: "'b env \<Rightarrow> 'b chip_view \<Rightarrow> u8 list \<Rightarrow> bool" where
  "chip_ident E V ident \<longleftrightarrow>
     (\<forall>tr b. plain tr \<and> tx_data tr = [0x9F] \<and> rx_len tr = 3 \<and> busy_polls V b = 0 \<longrightarrow>
     (\<exists>b'. spi_xfer E 0 tr b = Some (0, ident, b') \<and> busy_polls V b' = 0 \<and>
        cell V b' = cell V b \<and> sr2 V b' = sr2 V b))"

definition chip_reset :: "'b env \<Rightarrow> 'b chip_view \<Rightarrow> bool" where
  "chip_reset E V \<longleftrightarrow>
     (\<forall>tr b. plain tr \<and> tx_data tr = [0x66, 0x99] \<and> rx_len tr = 0 \<and> busy_polls V b < 2 ^ 32 \<longrightarrow>
     (\<exists>rx b'. spi_xfer E 0 tr b = Some (0, rx, b') \<and>
        cell V b' = cell V b \<and> busy_polls V b' < 2 ^ 32))"

definition chip_unlock_all :: "'b env \<Rightarrow> 'b chip_view \<Rightarrow> bool" where
  "chip_unlock_all E V \<longleftrightarrow> (\<forall>tr b.
     plain tr \<and> tx_data tr = [0x98] \<and> rx_len tr = 0 \<and> busy_polls V b = 0 \<and> latch V b \<longrightarrow>
     (\<exists>rx b'. spi_xfer E 0 tr b = Some (0, rx, b') \<and>
        cell V b' = cell V b \<and> sr2 V b' = sr2 V b \<and> busy_polls V b' < 2 ^ 32))"

definition chip_read_sr2 :: "'b env \<Rightarrow> 'b chip_view \<Rightarrow> bool" where
  "chip_read_sr2 E V \<longleftrightarrow>
     (\<forall>tr b. plain tr \<and> tx_data tr = [0x35] \<and> rx_len tr = 2 \<and> busy_polls V b = 0 \<longrightarrow>
     (\<exists>x b'. spi_xfer E 0 tr b = Some (0, [x, sr2 V b], b') \<and> busy_polls V b' = 0 \<and>
        cell V b' = cell V b \<and> sr2 V b' = sr2 V b))"

definition chip_write_sr2 :: "'b env \<Rightarrow> 'b chip_view \<Rightarrow> bool" where
  "chip_write_sr2 E V \<longleftrightarrow> (\<forall>tr b v.
     plain tr \<and> tx_data tr = [0x31, v] \<and> rx_len tr = 0 \<and> busy_polls V b = 0 \<and> latch V b \<longrightarrow>
     (\<exists>rx b'. spi_xfer E 0 tr b = Some (0, rx, b') \<and> sr2 V b' AND 2 = v AND 2 \<and>
        cell V b' = cell V b \<and> busy_polls V b' < 2 ^ 32))"

definition spi_works :: "'b env \<Rightarrow> 'b chip_view \<Rightarrow> bool" where
  "spi_works E V \<longleftrightarrow>
     (\<forall>cfg b. standby V b \<and> clock_frequency cfg = 50000000 \<and> slave_port cfg = 0 \<and> cpha cfg = 0 \<and> cpol cfg = 0 \<longrightarrow>
        (\<exists>b'. spi_init E 0 cfg b = Some (0, b') \<and> cell V b' = cell V b \<and> busy_polls V b' < 2 ^ 32)) \<and>
     (\<forall>b. standby V b \<longrightarrow> fst (sem_alloc E b) \<and> cell V (snd (sem_alloc E b)) = cell V b \<and>
        standby V (snd (sem_alloc E b)))"

definition board :: "'b env \<Rightarrow> 'b chip_view \<Rightarrow> u8 list \<Rightarrow> bool" where
  "board E V ident \<longleftrightarrow> nor_chip E V \<and> chip_ident E V ident \<and> chip_reset E V \<and> chip_unlock_all E V \<and>
     chip_read_sr2 E V \<and> chip_write_sr2 E V \<and> spi_works E V"

lemma boardD:
  assumes "board E V ident"
  shows "nor_chip E V" "chip_ident E V ident" "chip_reset E V" "chip_unlock_all E V"
    "chip_read_sr2 E V" "chip_write_sr2 E V" "spi_works E V"
  using assms by (simp_all add: board_def)

lemma chip_nor_read_id:
  assumes brd: "board E V ident" and len: "length ident = 3" and b: "settles V w"
  shows "\<exists>w'. nor_read_id E [0, 0, 0] 3 w = Some (0, ident, w') \<and> same_flash V w w' \<and> idle V w'"
proof -
  obtain u where u: "nor_wait_ready E 0 500 w = Some (0, u)" "same_flash V w u" "idle V u"
    using chip_nor_wait_ready [OF boardD(1) [OF brd] b, of 500] by blast
  let ?tr = "nor_mode 0x9F \<lparr>tx_data = [0x9F], tx_single_len = 1, rx_len = 3, tx_nbits = 1,
      rx_nbits = 1, dummy_byte = 0\<rparr>"
  obtain b' where "spi_xfer E (spim_port u) ?tr (bus u) = Some (0, ident, b')"
    "busy_polls V b' = 0" "cell V b' = cell V (bus u)" "sr2 V b' = sr2 V (bus u)"
    using boardD(2) [OF brd, unfolded chip_ident_def, rule_format, of ?tr "bus u"] u(3)
      plain_nor_mode [of "0x9F" "[0x9F]" 3]
    by (auto simp: idle_def)
  with u len show ?thesis
    by (auto simp: nor_read_id_def nor_transfer_def read_at_def same_flash_def idle_def
        intro!: exI [of _ "u\<lparr>bus := b'\<rparr>"] intro: same_nor_trans)
qed

lemma chip_nor_reset:
  assumes "board E V ident" and "settles V w"
  shows "\<exists>w'. nor_reset E w = Some (0, w') \<and> same_nor w w' \<and>
    cell V (bus w') = cell V (bus w) \<and> settles V w'"
proof -
  let ?tr = "nor_mode 0x66 \<lparr>tx_data = [0x66, 0x99], tx_single_len = 2, rx_len = 0, tx_nbits = 1,
      rx_nbits = 1, dummy_byte = 0\<rparr>"
  obtain rx b' where "spi_xfer E (spim_port w) ?tr (bus w) = Some (0, rx, b')"
    "cell V b' = cell V (bus w)" "busy_polls V b' < 2 ^ 32"
    using boardD(3) [OF assms(1), unfolded chip_reset_def, rule_format, of ?tr "bus w"] assms(2)
      plain_nor_mode [of "0x66" "[0x66, 0x99]" 0]
    by (auto simp: settles_def simp flip: numeral_2_eq_2)
  then show ?thesis using assms(2)
    by (auto simp: nor_reset_def nor_transfer_def read_at_def settles_def intro!: exI [of _ "w\<lparr>bus := b'\<rparr>"])
qed

lemma chip_nor_wr_unlock_all:
  assumes brd: "board E V ident" and idle: "idle V w"
  shows "\<exists>w'. nor_wr_unlock_all E w = Some (0, w') \<and> kept V w w' \<and>
    cell V (bus w') = cell V (bus w) \<and> idle V w'"
proof -
  note chip = boardD(1) [OF brd]
  obtain u where u: "nor_write_enable E w = Some (0, u)" "same_flash V w u" "idle V u"
    "latch V (bus u)"
    using chip_nor_write_enable [OF chip idle] by blast
  let ?tr = "nor_mode 0x98 \<lparr>tx_data = [0x98], tx_single_len = 1, rx_len = 0, tx_nbits = 1,
      rx_nbits = 1, dummy_byte = 0\<rparr>"
  obtain rx b where b: "spi_xfer E (spim_port u) ?tr (bus u) = Some (0, rx, b)"
    "cell V b = cell V (bus u)" "sr2 V b = sr2 V (bus u)" "busy_polls V b < 2 ^ 32"
    using boardD(4) [OF brd, unfolded chip_unlock_all_def, rule_format, of ?tr "bus u"]
      u(3,4) plain_nor_mode [of "0x98" "[0x98]" 0] by (auto simp: idle_def)
  have tr: "nor_transfer E 1 [0x98] 1 [] 0 u = Some (0, [], u\<lparr>bus := b\<rparr>)"
    by (rule nor_transfer_cmd) (rule b(1))
  obtain v where "nor_wait_ready E 0 500 (u\<lparr>bus := b\<rparr>) = Some (0, v)"
    "same_flash V (u\<lparr>bus := b\<rparr>) v" "idle V v"
    using chip_nor_wait_ready [OF chip, of "u\<lparr>bus := b\<rparr>" 500] b(4) u(3)
    by (auto simp: settles_def idle_def)
  with u tr b(2,3) show ?thesis
    by (auto simp: nor_wr_unlock_all_def nor_send_cmd_def same_flash_def kept_def intro: same_nor_trans)
qed

text \<open>Whether the bit was set before or has to be written and read back, it is set afterwards.\<close>

lemma chip_puya_quad_mode:
  assumes brd: "board E V ident" and idle: "idle V w"
  shows "\<exists>w'. nor_puya_quad_mode E w = Some (0, w') \<and> same_nor w w' \<and> quad_enabled V (bus w') \<and>
    cell V (bus w') = cell V (bus w) \<and> idle V w'"
proof -
  note chip = boardD(1) [OF brd]
  have rd: "\<exists>x u'. nor_transfer E 1 [NOR_PUYA_CMD_RDSR2] 1 [0, 0] 2 u = Some (0, [x, sr2 V (bus u)], u') \<and>
      same_flash V u u' \<and> idle V u'" if iu: "idle V u" for u
  proof -
    let ?tr = "nor_mode 0x35 \<lparr>tx_data = [0x35], tx_single_len = 1, rx_len = 2, tx_nbits = 1,
        rx_nbits = 1, dummy_byte = 0\<rparr>"
    obtain x b' where "spi_xfer E (spim_port u) ?tr (bus u) = Some (0, [x, sr2 V (bus u)], b')"
      "busy_polls V b' = 0" "cell V b' = cell V (bus u)" "sr2 V b' = sr2 V (bus u)"
      using boardD(5) [OF brd, unfolded chip_read_sr2_def, rule_format, of ?tr "bus u"]
        iu plain_nor_mode [of "0x35" "[0x35]" 2] by (auto simp: idle_def)
    then show ?thesis using iu
      by (auto simp: nor_transfer_def read_at_def same_flash_def idle_def
          intro!: exI [of _ "u\<lparr>bus := b'\<rparr>"])
  qed
  obtain x u where u: "nor_transfer E 1 [NOR_PUYA_CMD_RDSR2] 1 [0, 0] 2 w =
      Some (0, [x, sr2 V (bus w)], u)" "same_flash V w u" "idle V u"
    using rd [OF idle] by blast
  show ?thesis
  proof (cases "sr2 V (bus w) AND 2 = 0")
    case False
    with u show ?thesis by (auto simp: nor_puya_quad_mode_def same_flash_def quad_enabled_def)
  next
    case True
    obtain v where v: "nor_write_enable E u = Some (0, v)" "same_flash V u v" "idle V v"
      "latch V (bus v)"
      using chip_nor_write_enable [OF chip u(3)] by blast
    let ?s = "sr2 V (bus w) OR 2"
    let ?tr = "nor_mode 0x31 \<lparr>tx_data = [0x31, ?s], tx_single_len = 2, rx_len = 0, tx_nbits = 1,
        rx_nbits = 1, dummy_byte = 0\<rparr>"
    obtain rx b where b: "spi_xfer E (spim_port v) ?tr (bus v) = Some (0, rx, b)"
      "sr2 V b AND 2 = ?s AND 2" "cell V b = cell V (bus v)" "busy_polls V b < 2 ^ 32"
      using boardD(6) [OF brd, unfolded chip_write_sr2_def, rule_format, of ?tr ?s "bus v"]
        v(3,4) plain_nor_mode [of "0x31" "[0x31, ?s]" 0]
      by (auto simp: idle_def simp flip: numeral_2_eq_2)
    have tr: "nor_transfer E 2 [NOR_PUYA_CMD_WRSR2, ?s] 2 [] 0 v = Some (0, [], v\<lparr>bus := b\<rparr>)"
      using b(1) by (simp add: nor_transfer_def read_at_def)
    obtain y where y: "nor_wait_ready E 0 500 (v\<lparr>bus := b\<rparr>) = Some (0, y)"
      "same_flash V (v\<lparr>bus := b\<rparr>) y" "idle V y"
      using chip_nor_wait_ready [OF chip, of "v\<lparr>bus := b\<rparr>" 500] b(4) v(3)
      by (auto simp: settles_def idle_def)
    obtain x' z where z: "nor_transfer E 1 [NOR_PUYA_CMD_RDSR2] 1 [0, 0] 2 y =
        Some (0, [x', sr2 V (bus y)], z)" "same_flash V y z" "idle V z"
      using rd [OF y(3)] by blast
    have "?s AND 2 \<noteq> 0" by (auto simp: bit_eq_iff bit_simps intro!: exI [of _ 1])
    then have "sr2 V (bus y) AND 2 \<noteq> 0" using y(2) b(2) by (simp add: same_flash_def)
    with True u v(1) tr y(1) z(1)
    have "nor_puya_quad_mode E w = Some (0, z)"
      by (simp add: nor_puya_quad_mode_def)
    moreover have "same_nor w z" "cell V (bus z) = cell V (bus w)"
      using u(2) v(2) y(2) z(2) b(3) by (auto simp: same_flash_def intro: same_nor_trans)
    moreover have "quad_enabled V (bus z)"
      using \<open>sr2 V (bus y) AND 2 \<noteq> 0\<close> z(2) by (simp add: same_flash_def quad_enabled_def)
    ultimately show ?thesis using z(3) by blast
  qed
qed

text \<open>The chip that \<open>FlashDev.c\<close> describes.\<close>

definition P25Q64H :: nor_info where
  "P25Q64H = \<lparr>info_model = ''P25Q64H'', info_id = [0x85, 0x60, 0x17], info_total_size = SZ_8M,
     info_flag = SUPPORT_GENERAL\<rparr>"

lemma P25Q64H_listed: "P25Q64H \<in> set (idt (factory_of E PUYA))"
  by (simp add: P25Q64H_def nor_puya_def idt_puya_def)

lemma chip_nor_scan:
  assumes brd: "board E V [0x85, 0x60, 0x17]" and b: "settles V w"
    and path: "path (fnext w) None factory_order"
  shows "\<exists>w'. nor_scan E w = Some (0, w') \<and> scanned PUYA P25Q64H w' \<and> fnext w' = fnext w \<and>
    cmd_read w' = NOR_CMD_QUAD_READ \<and> cmd_write w' = NOR_CMD_QUAD_PROG \<and> quad_enabled V (bus w') \<and>
    cell V (bus w') = cell V (bus w) \<and> idle V w'"
proof -
  obtain u where u: "nor_read_id E [0, 0, 0] 3 w = Some (0, [0x85, 0x60, 0x17], u)"
    "same_flash V w u" "idle V u"
    using chip_nor_read_id [OF brd _ b] by auto
  have pu: "path (fnext u) None factory_order" 
  proof -
    have "same_nor w u" using u(2) by (simp add: same_flash_def)
    from path same_norD(12) [OF this] show ?thesis by simp
  qed
  have m: "match_nor E [0x85, 0x60, 0x17] 3 u =
      Some (0, u\<lparr>nor_fac := Some PUYA, nor_info := Some P25Q64H\<rparr>)"
    using match_nor_known [OF pu P25Q64H_listed] by (simp add: P25Q64H_def)
  let ?s = "u\<lparr>nor_fac := Some PUYA, nor_info := Some P25Q64H, total_size := SZ_8M, addr_width := 3,
      page_size := 0x100, blk_size := 0x1000, w_cmd_slen := 4, cmd_write := NOR_CMD_QUAD_PROG,
      r_cmd_slen := 5, cmd_read := NOR_CMD_QUAD_READ\<rparr>"
  have g: "scan_geometry E (u\<lparr>nor_fac := Some PUYA, nor_info := Some P25Q64H\<rparr>) =
      Some (u\<lparr>nor_fac := Some PUYA, nor_info := Some P25Q64H, total_size := SZ_8M, addr_width := 3,
        page_size := 0x100, blk_size := 0x1000\<rparr>)"
    by (simp add: scan_geometry_def P25Q64H_def)
  have "nor_scan E w = do {
      (ret, w) \<leftarrow> nor_puya_quad_mode E ?s;
      if ret \<noteq> 0 then Some (ret, w\<lparr>nor_info := None\<rparr>) else Some (0, w) }"
    using u(1) m g
    by (simp add: nor_scan_def P25Q64H_def scan_read_cmd_def scan_write_cmd_def cmd_4bytes_def
        Let_def cmd_bit_def nor_set_quad_mode_def the_factory_def nor_puya_def)
  moreover obtain w' where w': "nor_puya_quad_mode E ?s = Some (0, w')" "same_nor ?s w'"
    "quad_enabled V (bus w')" "cell V (bus w') = cell V (bus ?s)" "idle V w'"
    using chip_puya_quad_mode [OF brd, of ?s] u(3) by (auto simp: idle_def)
  moreover have "scanned PUYA P25Q64H ?s"
    by (simp add: scanned_def configured_def P25Q64H_def effective_flag_def read_ops_def
        prog_ops_def prog_header_def)
  ultimately show ?thesis
    using u(2) by (auto simp: scanned_same same_norD same_flash_def)
qed

lemma chip_nor_init:
  assumes brd: "board E V [0x85, 0x60, 0x17]" and stb: "standby V (bus w)" and none: "nor_info w = None"
    and path: "path (fnext w) None fs" "fs = [] \<or> hd fs = GD"
  shows "\<exists>w'. nor_init E w = Some (0, w') \<and> scanned PUYA P25Q64H w' \<and>
    cmd_read w' = NOR_CMD_QUAD_READ \<and> cmd_write w' = NOR_CMD_QUAD_PROG \<and> quad_enabled V (bus w') \<and>
    path (fnext w') None factory_order \<and> cell V (bus w') = cell V (bus w) \<and> idle V w'"
proof -
  have spi: "spi_works E V" by (rule boardD(7) [OF brd])
  obtain b1 where b1: "sem_alloc E (bus w) = (True, b1)" "cell V b1 = cell V (bus w)"
    "standby V b1"
    using spi stb
    by (intro that [of "snd (sem_alloc E (bus w))"]) (simp_all add: spi_works_def prod_eq_iff)
  let ?w1 = "w\<lparr>bus := b1, hal_sem := True\<rparr>"
  have l: "nor_lock_init E w = (0, ?w1)"
    using b1(1) by (simp add: nor_lock_init_def hal_sem_create_def)
  let ?cfg = "\<lparr>clock_frequency = 50 * (1000 * 1000), slave_port = 0, cpha = 0, cpol = 0,
      bit_order = 0\<rparr>"
  obtain b2 where b2: "spi_init E 0 ?cfg b1 = Some (0, b2)" "cell V b2 = cell V b1"
    "busy_polls V b2 < 2 ^ 32"
    using conjunct1 [OF spi [unfolded spi_works_def], rule_format, of b1 ?cfg] b1(3) by auto
  let ?w2 = "?w1\<lparr>spim_port := 0, spim_cfg := ?cfg, bus := b2\<rparr>"
  have i: "nor_spi_master_init E ?w1 = Some (0, ?w2)"
    using b2(1) by (simp add: nor_spi_master_init_def)
  obtain w3 where w3: "nor_reset E ?w2 = Some (0, w3)" "same_nor ?w2 w3"
    "cell V (bus w3) = cell V b2" "settles V w3"
    using chip_nor_reset [OF brd, of ?w2] b2(3) by (auto simp: settles_def)
  have "path (fnext w3) None fs" using path(1) by (simp add: same_norD [OF w3(2)])
  from nor_factory_register_links [OF this path(2)] obtain nx where
    nx: "nor_factory_register w3 = Some (0, w3\<lparr>fnext := nx\<rparr>)" "path nx None factory_order" by blast
  obtain w5 where w5: "nor_scan E (w3\<lparr>fnext := nx\<rparr>) = Some (0, w5)" "scanned PUYA P25Q64H w5"
    "fnext w5 = nx" "cmd_read w5 = NOR_CMD_QUAD_READ" "cmd_write w5 = NOR_CMD_QUAD_PROG"
    "quad_enabled V (bus w5)" "cell V (bus w5) = cell V (bus w3)" "idle V w5"
    using chip_nor_scan [OF brd, of "w3\<lparr>fnext := nx\<rparr>"] w3(4) nx(2)
    by (auto simp: settles_def)
  have fi: "nor_factory_init E w5 = Some (0, w5)"
    using w5(2) by (simp add: nor_factory_init_def the_factory_def scanned_def nor_puya_def)
  obtain w6 where w6: "nor_wr_unlock_all E w5 = Some (0, w6)" "kept V w5 w6"
    "cell V (bus w6) = cell V (bus w5)" "idle V w6"
    using chip_nor_wr_unlock_all [OF brd w5(8)] by blast
  have "nor_init E w = Some (0, w6)"
    using none l i w3(1) nx(1) w5(1) fi w6(1) by (simp add: nor_init_def nor_lock_simps)
  then show ?thesis
    using w5 w6(3,4) nx(2) w3(3) b1(2) b2(2)
    by (auto simp: scanned_same [OF keptD(1) [OF w6(2)]] same_norD [OF keptD(1) [OF w6(2)]]
        quad_enabled_sr2 [OF keptD(2) [OF w6(2)]])
qed

section \<open>A simulated board\<close>

text \<open>While its quad enable bit is clear, the chip does not drive the bus for a quad read and ignores a
  quad program.\<close>

record sim =
  s_cell :: "nat \<Rightarrow> u8"
  s_latch :: bool
  s_busy :: nat
  s_sr2 :: u8

definition sim_width :: "u8 \<Rightarrow> nat" where
  "sim_width op = (if op \<in> {0x0C, 0x3C, 0x6C, 0x12, 0x34, 0x3E, 0x21, 0x5C, 0xDC} then 4 else 3)"

definition sim_status :: "sim \<Rightarrow> u8" where
  "sim_status b = (if s_busy b = 0 then 0 else 1) + (if s_latch b then 2 else 0)"

definition sim_xfer :: "nat \<Rightarrow> spi_transfer \<Rightarrow> sim \<Rightarrow> (int \<times> u8 list \<times> sim) option" where
  "sim_xfer p tr b = (case tx_data tr of [] \<Rightarrow> None | op # arg \<Rightarrow> (let n = sim_width op in
     if op = 0x05 then Some (0, [0, sim_status b], b\<lparr>s_busy := s_busy b - 1\<rparr>)
     else if op = 0x06 then Some (0, [], b\<lparr>s_latch := True\<rparr>)
     else if op = 0x9F then Some (0, [0x85, 0x60, 0x17], b)
     else if op = 0x35 then Some (0, [0, s_sr2 b], b)
     else if op = 0x66 then Some (0, [], b\<lparr>s_busy := 1\<rparr>)
     else if op = 0x31 then Some (0, [], b\<lparr>s_sr2 := hd arg, s_latch := False, s_busy := 2\<rparr>)
     else if op \<in> quad_ops \<and> s_sr2 b AND 2 = 0
       then Some (0, replicate (rx_len tr) 0xFF, b)
     else if op \<in> read_ops n
       then Some (0, map (s_cell b) [be_val arg ..< be_val arg + rx_len tr], b)
     else if op \<in> prog_ops n
       then Some (0, [], b\<lparr>s_cell := programmed (s_cell b) (be_val (take n arg)) (drop n arg),
                           s_latch := False, s_busy := 2\<rparr>)
     else if op = 0x60
       then Some (0, [], b\<lparr>s_cell := erased (s_cell b) 0 (2 ^ 23), s_latch := False, s_busy := 4\<rparr>)
     else if erase_bytes n op \<noteq> 0
       then Some (0, [], b\<lparr>s_cell := erased (s_cell b)
                             (be_val arg - be_val arg mod erase_bytes n op) (erase_bytes n op),
                           s_latch := False, s_busy := 3\<rparr>)
     else Some (0, [], b)))"

definition sim_env :: "sim env" where
  "sim_env = \<lparr>spi_xfer = sim_xfer, spi_init = (\<lambda>p cfg b. Some (0, b)), spi_deinit = (\<lambda>p b. Some (0, b)),
     delay_ms = (\<lambda>t b. b), sem_alloc = (\<lambda>b. (True, b))\<rparr>"

definition sim_view :: "sim chip_view" where
  "sim_view = \<lparr>cell = s_cell, latch = s_latch, busy_polls = s_busy, sr2 = s_sr2,
     standby = (\<lambda>b. s_busy b < 2 ^ 32), capacity = 2 ^ 23\<rparr>"

definition sim_blank :: sim where
  "sim_blank = \<lparr>s_cell = (\<lambda>i. 0), s_latch = False, s_busy = 0, s_sr2 = 0\<rparr>"

abbreviation sim_quad :: sim where
  "sim_quad \<equiv> sim_blank\<lparr>s_sr2 := 2\<rparr>"

lemma standby_sim [simp]: "standby sim_view sim_blank"
  by (simp add: sim_view_def sim_blank_def)

lemmas sim_simps = sim_env_def sim_view_def sim_xfer_def sim_status_def

lemma sim_width_ops:
  "op \<in> read_ops k \<Longrightarrow> sim_width op = k" "op \<in> prog_ops k \<Longrightarrow> sim_width op = k"
  "erase_bytes k op \<noteq> 0 \<Longrightarrow> sim_width op = k"
  by (auto simp: sim_width_def read_ops_def prog_ops_def erase_bytes_def split: if_splits)

lemma sim_op_classes:
  "op \<in> read_ops k \<Longrightarrow> op \<in> {0x0B, 0x3B, 0x6B, 0x0C, 0x3C, 0x6C}"
  "op \<in> prog_ops k \<Longrightarrow> op \<in> {0x02, 0x32, 0x38, 0x12, 0x34, 0x3E}"
  "0 < erase_bytes k op \<Longrightarrow> op \<in> {0x20, 0x52, 0xD8, 0x21, 0x5C, 0xDC}"
  by (auto simp: read_ops_def prog_ops_def erase_bytes_def split: if_splits)

lemma sim_op_disjoint:
  "op \<in> read_ops k \<Longrightarrow> op \<notin> {0x05, 0x06, 0x9F, 0x35, 0x31, 0x60, 0x66} \<and> op \<notin> prog_ops j \<and> erase_bytes j op = 0"
  "op \<in> prog_ops k \<Longrightarrow> op \<notin> {0x05, 0x06, 0x9F, 0x35, 0x31, 0x60, 0x66} \<and> op \<notin> read_ops j \<and> erase_bytes j op = 0"
  "erase_bytes k op \<noteq> 0 \<Longrightarrow> op \<notin> {0x05, 0x06, 0x9F, 0x35, 0x31, 0x60, 0x66} \<and> op \<notin> read_ops j \<and> op \<notin> prog_ops j"
proof -
  show "op \<notin> {0x05, 0x06, 0x9F, 0x35, 0x31, 0x60, 0x66} \<and> op \<notin> prog_ops j \<and> erase_bytes j op = 0"
    if "op \<in> read_ops k"
    using sim_op_classes(1) [OF that]
    by (elim insertE emptyE; simp add: prog_ops_def erase_bytes_def)
  show "op \<notin> {0x05, 0x06, 0x9F, 0x35, 0x31, 0x60, 0x66} \<and> op \<notin> read_ops j \<and> erase_bytes j op = 0"
    if "op \<in> prog_ops k"
    using sim_op_classes(2) [OF that]
    by (elim insertE emptyE; simp add: read_ops_def erase_bytes_def)
  show "op \<notin> {0x05, 0x06, 0x9F, 0x35, 0x31, 0x60, 0x66} \<and> op \<notin> read_ops j \<and> op \<notin> prog_ops j"
    if "erase_bytes k op \<noteq> 0"
  proof -
    from that have "0 < erase_bytes k op" by simp
    from sim_op_classes(3) [OF this] show ?thesis
      by (elim insertE emptyE; simp add: read_ops_def prog_ops_def)
  qed
qed

lemma erase_not_quad: "erase_bytes k op \<noteq> 0 \<Longrightarrow> op \<notin> quad_ops"
  using sim_op_classes(3) [of k op] by (auto simp: quad_ops_def)

lemma sim_xfer_read:
  assumes "tx_data tr = op # ab" and "op \<in> read_ops (length ab)" and "op \<in> quad_ops \<Longrightarrow> s_sr2 b AND 2 \<noteq> 0"
  shows "sim_xfer p tr b = Some (0, map (s_cell b) [be_val ab ..< be_val ab + rx_len tr], b)"
  using assms sim_width_ops(1) [OF assms(2)] sim_op_disjoint(1) [OF assms(2)]
  by (auto simp: sim_xfer_def Let_def)

lemma sim_xfer_program:
  assumes "tx_data tr = op # ab @ bs" and "op \<in> prog_ops (length ab)" and "op \<in> quad_ops \<Longrightarrow> s_sr2 b AND 2 \<noteq> 0"
  shows "sim_xfer p tr b = Some (0, [],
    b\<lparr>s_cell := programmed (s_cell b) (be_val ab) bs, s_latch := False, s_busy := 2\<rparr>)"
  using assms sim_width_ops(2) [OF assms(2)] sim_op_disjoint(2) [OF assms(2)]
  by (auto simp: sim_xfer_def Let_def)

lemma sim_xfer_erase:
  assumes "tx_data tr = op # ab" and "erase_bytes (length ab) op \<noteq> 0"
  shows "sim_xfer p tr b = Some (0, [],
    b\<lparr>s_cell := erased (s_cell b) (be_val ab - be_val ab mod erase_bytes (length ab) op)
                   (erase_bytes (length ab) op), s_latch := False, s_busy := 3\<rparr>)"
  using assms sim_width_ops(3) [OF assms(2)] sim_op_disjoint(3) [OF assms(2)] erase_not_quad [OF assms(2)]
  by (simp add: sim_xfer_def Let_def)

lemma sim_chip: "nor_chip sim_env sim_view"
proof -
  have "chip_status sim_env sim_view"
    by (auto simp: chip_status_def sim_simps Let_def)
  moreover have "chip_wren sim_env sim_view"
    by (auto simp: chip_wren_def sim_simps Let_def)
  moreover have "chip_read sim_env sim_view"
    unfolding chip_read_def sim_env_def sim_view_def
    by (auto simp: sim_xfer_read obeys_def quad_enabled_def)
  moreover have "chip_program sim_env sim_view"
    unfolding chip_program_def sim_env_def sim_view_def
    by (auto simp: sim_xfer_program obeys_def quad_enabled_def)
  moreover have "chip_erase sim_env sim_view"
    unfolding chip_erase_def sim_env_def sim_view_def by (auto simp: sim_xfer_erase)
  moreover have "chip_erase_all sim_env sim_view"
    by (auto simp: chip_erase_all_def sim_simps Let_def read_ops_def prog_ops_def quad_ops_def)
  moreover have "chip_delay sim_env sim_view"
    by (auto simp: chip_delay_def sim_simps)
  ultimately show ?thesis by (simp add: nor_chip_def)
qed

lemma sim_board: "board sim_env sim_view [0x85, 0x60, 0x17]"
proof -
  have "chip_ident sim_env sim_view [0x85, 0x60, 0x17]"
    by (auto simp: chip_ident_def sim_simps Let_def)
  moreover have "chip_reset sim_env sim_view"
    by (auto simp: chip_reset_def sim_simps Let_def)
  moreover have "chip_unlock_all sim_env sim_view"
    by (auto simp: chip_unlock_all_def sim_simps Let_def read_ops_def prog_ops_def erase_bytes_def quad_ops_def)
  moreover have "chip_read_sr2 sim_env sim_view" "chip_write_sr2 sim_env sim_view"
    by (auto simp: chip_read_sr2_def chip_write_sr2_def sim_simps Let_def)
  moreover have "spi_works sim_env sim_view"
    by (auto simp: spi_works_def sim_simps)
  ultimately show ?thesis by (simp add: board_def sim_chip)
qed

text \<open>The state \<open>nor_init\<close> leaves on the simulated board.\<close>

definition sim_ready :: "sim nor" where
  "sim_ready = (nor_boot sim_quad)\<lparr>nor_fac := Some PUYA, nor_info := Some P25Q64H,
     total_size := SZ_8M, addr_width := 3, page_size := 0x100, blk_size := 0x1000,
     w_cmd_slen := 4, cmd_write := NOR_CMD_QUAD_PROG, r_cmd_slen := 5,
     cmd_read := NOR_CMD_QUAD_READ\<rparr>"

lemma ready_sim_ready: "ready sim_view sim_ready"
  by (simp add: ready_def sim_ready_def nor_boot_def sim_blank_def sim_view_def configured_def
      idle_def read_ops_def prog_ops_def prog_header_def obeys_def quad_enabled_def)

end
