(* ===== verification/Flash_Media.thy ===== *)
theory Flash_Media
  imports Nor_Board
begin

unbundle bit_operations_syntax

text \<open>
  The contract that every layer of the flash stack offers to the layer above it: read, program and
  erase on a range of bytes, with the memory seen through \<open>mem\<close>. The locale \<open>flash_media\<close> states
  the contract; its clients are proved once, among them that any sequence of operations behaves as
  the abstract flash memory \<open>spec_run\<close>. The driver core of \<open>spinor/core.c\<close> provides the contract
  on a chip that behaves as its data sheet says; the layers above provide it again for their own
  functions.
\<close>

section \<open>Abstract flash memory\<close>

datatype flash_op =
    Read u32 u32
  | Program u32 "u8 list"
  | Erase u32 u32

fun spec_step :: "flash_op \<Rightarrow> (nat \<Rightarrow> u8) \<Rightarrow> u8 list \<times> (nat \<Rightarrow> u8)" where
  "spec_step (Read a n) m = (map m [unat a ..< unat a + unat n], m)"
| "spec_step (Program a bs) m = ([], programmed m (unat a) bs)"
| "spec_step (Erase a n) m = ([], erased m (unat a) (unat n))"

fun spec_run :: "flash_op list \<Rightarrow> (nat \<Rightarrow> u8) \<Rightarrow> u8 list list \<times> (nat \<Rightarrow> u8)" where
  "spec_run [] m = ([], m)"
| "spec_run (x # xs) m =
     (let (out, m) = spec_step x m; (outs, m) = spec_run xs m in (out # outs, m))"

fun op_ok :: "nat \<Rightarrow> flash_op \<Rightarrow> bool" where
  "op_ok c (Read a n) \<longleftrightarrow> n \<noteq> 0 \<and> unat a + unat n \<le> c"
| "op_ok c (Program a bs) \<longleftrightarrow> bs \<noteq> [] \<and> unat a + length bs \<le> c"
| "op_ok c (Erase a n) \<longleftrightarrow> unat a mod 4096 = 0 \<and> unat n mod 4096 = 0 \<and> unat a + unat n \<le> c"

text \<open>Running operations with the functions of a driver; an error or an undefined call is \<open>None\<close>.\<close>

type_synonym 's reader = "u32 \<Rightarrow> u8 list \<Rightarrow> u32 \<Rightarrow> 's \<Rightarrow> (int \<times> u8 list \<times> 's) option"
type_synonym 's writer = "u32 \<Rightarrow> u8 list \<Rightarrow> u32 \<Rightarrow> 's \<Rightarrow> (int \<times> 's) option"
type_synonym 's eraser = "u32 \<Rightarrow> u32 \<Rightarrow> 's \<Rightarrow> (int \<times> 's) option"

fun run_op ::
  "'s reader \<Rightarrow> 's writer \<Rightarrow> 's eraser \<Rightarrow> flash_op \<Rightarrow> 's \<Rightarrow> (u8 list \<times> 's) option"
where
  "run_op rd wr er (Read a n) s = do {
     (ret, out, s) \<leftarrow> rd a (replicate (unat n) 0) n s;
     if ret = 0 then Some (out, s) else None
   }"
| "run_op rd wr er (Program a bs) s = do {
     (ret, s) \<leftarrow> wr a bs (word_of_nat (length bs)) s;
     if ret = 0 then Some ([], s) else None
   }"
| "run_op rd wr er (Erase a n) s = do {
     (ret, s) \<leftarrow> er a n s;
     if ret = 0 then Some ([], s) else None
   }"

fun run_ops ::
  "'s reader \<Rightarrow> 's writer \<Rightarrow> 's eraser \<Rightarrow> flash_op list \<Rightarrow> 's \<Rightarrow> (u8 list list \<times> 's) option"
where
  "run_ops rd wr er [] s = Some ([], s)"
| "run_ops rd wr er (x # xs) s = do {
     (out, s) \<leftarrow> run_op rd wr er x s;
     (outs, s) \<leftarrow> run_ops rd wr er xs s;
     Some (out # outs, s)
   }"

section \<open>The contract\<close>

locale flash_media =
  fixes inv :: "'s \<Rightarrow> bool"
    and mem :: "'s \<Rightarrow> nat \<Rightarrow> u8"
    and cap :: "'s \<Rightarrow> nat"
    and rd :: "'s reader"
    and wr :: "'s writer"
    and er :: "'s eraser"
  assumes cap_bound: "inv s \<Longrightarrow> cap s < 2 ^ 32"
    and rd_law: "inv s \<Longrightarrow> n \<noteq> 0 \<Longrightarrow> unat a + unat n \<le> cap s \<Longrightarrow> unat n \<le> length buf \<Longrightarrow>
      \<exists>s'. rd a buf n s = Some (0, map (mem s) [unat a ..< unat a + unat n] @ drop (unat n) buf, s') \<and>
        inv s' \<and> mem s' = mem s \<and> cap s' = cap s"
    and wr_law: "inv s \<Longrightarrow> n \<noteq> 0 \<Longrightarrow> unat a + unat n \<le> cap s \<Longrightarrow> unat n \<le> length buf \<Longrightarrow>
      \<exists>s'. wr a buf n s = Some (0, s') \<and>
        inv s' \<and> mem s' = programmed (mem s) (unat a) (take (unat n) buf) \<and> cap s' = cap s"
    and er_law: "inv s \<Longrightarrow> unat a mod 4096 = 0 \<Longrightarrow> unat n mod 4096 = 0 \<Longrightarrow>
      unat a + unat n \<le> cap s \<Longrightarrow>
      \<exists>s'. er a n s = Some (0, s') \<and>
        inv s' \<and> mem s' = erased (mem s) (unat a) (unat n) \<and> cap s' = cap s"
begin

lemma run_op_spec:
  assumes "inv s" and "op_ok (cap s) x"
  shows "\<exists>s'. run_op rd wr er x s = Some (fst (spec_step x (mem s)), s') \<and>
    inv s' \<and> mem s' = snd (spec_step x (mem s)) \<and> cap s' = cap s"
proof (cases x)
  case (Read a n)
  with assms rd_law [of s n a "replicate (unat n) 0"] show ?thesis by auto
next
  case (Program a bs)
  let ?n = "word_of_nat (length bs) :: u32"
  have "length bs < 2 ^ 32" using assms Program cap_bound [of s] by auto
  then have n: "unat ?n = length bs" by (simp add: unat_of_nat take_bit_eq_mod)
  then have "?n \<noteq> 0" using assms(2) Program by (metis length_0_conv op_ok.simps(2) unat_0)
  with assms Program n wr_law [of s ?n a bs] show ?thesis by auto
next
  case (Erase a n)
  with assms er_law [of s a n] show ?thesis by auto
qed

theorem run_ops_spec:
  "inv s \<Longrightarrow> \<forall>x \<in> set xs. op_ok (cap s) x \<Longrightarrow>
   \<exists>s'. run_ops rd wr er xs s = Some (fst (spec_run xs (mem s)), s') \<and>
     inv s' \<and> mem s' = snd (spec_run xs (mem s)) \<and> cap s' = cap s"
proof (induction xs arbitrary: s)
  case (Cons x xs)
  obtain u where u: "run_op rd wr er x s = Some (fst (spec_step x (mem s)), u)" "inv u"
    "mem u = snd (spec_step x (mem s))" "cap u = cap s"
    using run_op_spec [of s x] Cons.prems by auto
  then obtain v where "run_ops rd wr er xs u = Some (fst (spec_run xs (mem u)), v)" "inv v"
    "mem v = snd (spec_run xs (mem u))" "cap v = cap u"
    using Cons.IH [of u] Cons.prems by auto
  with u show ?case by (simp add: split_beta Let_def)
qed simp

text \<open>Erasing a range, programming inside it and reading back gives the data.\<close>

theorem erase_program_read:
  assumes "inv s" and "unat b mod 4096 = 0" "unat n mod 4096 = 0" "unat b + unat n \<le> cap s"
    and "bs \<noteq> []" "unat b \<le> unat a" "unat a + length bs \<le> unat b + unat n"
    and "unat k = length bs"
  shows "\<exists>s'. run_ops rd wr er [Erase b n, Program a bs, Read a k] s = Some ([[], [], bs], s') \<and>
    inv s' \<and> mem s' = programmed (erased (mem s) (unat b) (unat n)) (unat a) bs"
proof -
  let ?m = "programmed (erased (mem s) (unat b) (unat n)) (unat a) bs"
  have "map ?m [unat a ..< unat a + unat k] = bs"
    using assms by (intro nth_equalityI) (auto simp: programmed_def erased_def)
  moreover have "k \<noteq> 0" using assms(5,8) by (metis length_0_conv unat_0)
  ultimately show ?thesis
    using run_ops_spec [OF assms(1), of "[Erase b n, Program a bs, Read a k]"] assms by auto
qed

end

section \<open>The driver core provides it\<close>

definition core_ok :: "'b env \<Rightarrow> 'b chip_view \<Rightarrow> 'b nor \<Rightarrow> bool" where
  "core_ok E V w \<longleftrightarrow> nor_chip E V \<and> ready V w \<and>
     info_flag (the (nor_info w)) AND SUPPORT_4K_ERASE_BLK \<noteq> 0"

lemma nor_read_frame:
  assumes "core_ok E V w" "n \<noteq> 0" "unat a + unat n \<le> unat (total_size w)" "unat n \<le> length buf"
  shows "\<exists>w'. nor_read E a buf n w =
      Some (0, map (cell V (bus w)) [unat a ..< unat a + unat n] @ drop (unat n) buf, w') \<and>
    core_ok E V w' \<and> same_nor w w' \<and> cell V (bus w') = cell V (bus w)"
proof -
  have "unat a + unat n \<le> capacity V" using assms by (simp add: core_ok_def ready_def)
  with assms chip_nor_read [of E V w n a buf] show ?thesis
    by (auto simp: core_ok_def same_flash_def same_norD)
qed

lemma nor_write_frame:
  assumes "core_ok E V w" "n \<noteq> 0" "unat a + unat n \<le> unat (total_size w)" "unat n \<le> length buf"
  shows "\<exists>w'. nor_write E a buf n w = Some (0, w') \<and> core_ok E V w' \<and> same_nor w w' \<and>
    cell V (bus w') = programmed (cell V (bus w)) (unat a) (take (unat n) buf)"
proof -
  have "unat a + unat n \<le> capacity V" using assms by (simp add: core_ok_def ready_def)
  with assms chip_nor_write [of E V w n a buf] show ?thesis
    by (auto simp: core_ok_def kept_def same_norD)
qed

lemma nor_erase_frame:
  assumes "core_ok E V w" "unat a mod 4096 = 0" "unat n mod 4096 = 0"
    "unat a + unat n \<le> unat (total_size w)"
  shows "\<exists>w'. nor_erase E a n w = Some (0, w') \<and> core_ok E V w' \<and> same_nor w w' \<and>
    cell V (bus w') = erased (cell V (bus w)) (unat a) (unat n)"
proof -
  have "unat a + unat n \<le> capacity V" using assms by (simp add: core_ok_def ready_def)
  with assms chip_nor_erase [of E V w a n] show ?thesis
    by (auto simp: core_ok_def kept_def same_norD)
qed

lemma core_media:
  "flash_media (core_ok E V) (\<lambda>w. cell V (bus w)) (\<lambda>w. unat (total_size w))
     (nor_read E) (nor_write E) (nor_erase E)"
proof (unfold_locales, goal_cases)
  case (1 w)
  show ?case using unsigned_less [of "total_size w", where ?'a = nat] by simp
next
  case (2 w n a buf)
  with nor_read_frame [of E V w n a buf] show ?case by (auto simp: same_norD)
next
  case (3 w n a buf)
  with nor_write_frame [of E V w n a buf] show ?case by (auto simp: same_norD)
next
  case (4 w a n)
  with nor_erase_frame [of E V w a n] show ?case by (auto simp: same_norD)
qed

interpretation core: flash_media "core_ok E V" "\<lambda>w. cell V (bus w)" "\<lambda>w. unat (total_size w)"
  "nor_read E" "nor_write E" "nor_erase E" for E V
  by (rule core_media)

end
