(* ===== verification/Hal_Spinor.thy ===== *)
theory Hal_Spinor
  imports Flash_Media
begin

text \<open>
  The two thin layers between the driver core and the application: \<open>spinor/hal_spinor.c\<close>
  (\<open>CONFIG_DRIVERS_SPINOR_CACHE\<close> is off) and the CSI flash interface
  \<open>drivers/spinorflash.c\<close>. Pointer arguments that the code compares with \<open>NULL\<close> are options.
\<close>

section \<open>The HAL layer\<close>

record spinor_info =
  sector_count :: u32
  sector_size :: u32
  hal_page_size :: u32
  program_unit :: u32
  erased_value :: u8

record 'b hal =
  hal_nor :: "'b nor"
  hal_spinor_info :: spinor_info

record hal_version =
  ver_api :: u16
  ver_drv :: u16

record spinor_capabilities =
  event_ready :: "1 word"
  data_width :: "2 word"
  erase_chip :: "1 word"
  cap_reserved :: "28 word"

record spinor_status =
  st_busy :: "1 word"
  st_error :: "1 word"
  st_reserved :: "30 word"

definition on_nor :: "('b nor \<Rightarrow> ('r \<times> 'b nor) option) \<Rightarrow> 'b hal \<Rightarrow> ('r \<times> 'b hal) option" where
  "on_nor f s = do { (r, w) \<leftarrow> f (hal_nor s); Some (r, s\<lparr>hal_nor := w\<rparr>) }"

definition hal_spinor_get_version :: "int \<Rightarrow> hal_version" where
  "hal_spinor_get_version dev = \<lparr>ver_api = 1, ver_drv = 0\<rparr>"

definition hal_spinor_get_capabilities :: spinor_capabilities where
  "hal_spinor_get_capabilities = \<lparr>event_ready = 1, data_width = 1, erase_chip = 1, cap_reserved = 0\<rparr>"

definition hal_spinor_init :: "'b env \<Rightarrow> 'b hal \<Rightarrow> (int \<times> 'b hal) option" where
  "hal_spinor_init E s = on_nor (nor_init E) s"

definition hal_spinor_sync :: int where
  "hal_spinor_sync = 0"

definition hal_spinor_deinit :: "'b env \<Rightarrow> 'b hal \<Rightarrow> (int \<times> 'b hal) option" where
  "hal_spinor_deinit E s = (let _ = hal_spinor_sync in on_nor (nor_deinit E) s)"

definition hal_spinor_power_control :: "nat \<Rightarrow> int" where
  "hal_spinor_power_control state = 0"

definition hal_spinor_read_data ::
  "'b env \<Rightarrow> u32 \<Rightarrow> u8 list \<Rightarrow> u32 \<Rightarrow> 'b hal \<Rightarrow> (int \<times> u8 list \<times> 'b hal) option"
where
  "hal_spinor_read_data E addr buf cnt s = do {
     (ret, buf, w) \<leftarrow> nor_read E addr buf cnt (hal_nor s);
     Some (ret, buf, s\<lparr>hal_nor := w\<rparr>)
   }"

definition hal_spinor_program_data ::
  "'b env \<Rightarrow> u32 \<Rightarrow> u8 list \<Rightarrow> u32 \<Rightarrow> 'b hal \<Rightarrow> (int \<times> 'b hal) option"
where
  "hal_spinor_program_data E addr buf cnt s = on_nor (nor_write E addr buf cnt) s"

definition hal_spinor_erase_sector ::
  "'b env \<Rightarrow> u32 \<Rightarrow> u32 \<Rightarrow> 'b hal \<Rightarrow> (int \<times> 'b hal) option"
where
  "hal_spinor_erase_sector E addr sz s = on_nor (nor_erase E addr sz) s"

definition hal_spinor_erase_chip :: "'b env \<Rightarrow> 'b hal \<Rightarrow> (int \<times> 'b hal) option" where
  "hal_spinor_erase_chip E s = on_nor (nor_erase E 0 (total_size (hal_nor s))) s"

definition hal_spinor_get_status :: spinor_status where
  "hal_spinor_get_status = \<lparr>st_busy = 0, st_error = 0, st_reserved = 0\<rparr>"

text \<open>The result is the address of the static \<open>hal_spinor_info\<close>, or \<open>NULL\<close>.\<close>

definition hal_spinor_get_info :: "'b hal \<Rightarrow> (spinor_info option \<times> 'b hal) option" where
  "hal_spinor_get_info s = (let nor = hal_nor s in
     if nor_info nor = None then Some (None, s)
     else if blk_size nor = 0 then None
     else let i = (hal_spinor_info s)\<lparr>sector_size := blk_size nor,
                    sector_count := total_size nor div blk_size nor,
                    hal_page_size := page_size nor, program_unit := page_size nor\<rparr>
       in Some (Some i, s\<lparr>hal_spinor_info := i\<rparr>))"

definition hal_spinor_control :: "int \<Rightarrow> u32 \<Rightarrow> u32 \<Rightarrow> int" where
  "hal_spinor_control dev command arg = 0"

section \<open>The CSI layer\<close>

abbreviation (input) CSI_OK :: int where "CSI_OK \<equiv> 0"
abbreviation (input) CSI_ERROR :: int where "CSI_ERROR \<equiv> - 1"
abbreviation (input) CSI_UNSUPPORTED :: int where "CSI_UNSUPPORTED \<equiv> - 4"

record spiflash_info =
  flash_id :: u32
  flash_size :: u32
  xip_addr :: u32
  csi_sector_size :: u32
  csi_page_size :: u32

text \<open>\<open>spiflash\<close> tells whether the handle is not \<open>NULL\<close>.\<close>

definition csi_spiflash_qspi_init :: "'b env \<Rightarrow> bool \<Rightarrow> 'b hal \<Rightarrow> (int \<times> 'b hal) option" where
  "csi_spiflash_qspi_init E spiflash s =
     (if \<not> spiflash then Some (CSI_ERROR, s)
      else do {
        (ret, s) \<leftarrow> hal_spinor_init E s;
        if ret \<noteq> 0 then Some (CSI_ERROR, s) else Some (CSI_OK, s)
      })"

definition csi_spiflash_qspi_uninit :: "'b env \<Rightarrow> 'b hal \<Rightarrow> 'b hal option" where
  "csi_spiflash_qspi_uninit E s = do { (_, s) \<leftarrow> hal_spinor_deinit E s; Some s }"

definition csi_spiflash_get_flash_info ::
  "spiflash_info option \<Rightarrow> 'b hal \<Rightarrow> (int \<times> spiflash_info option \<times> 'b hal) option"
where
  "csi_spiflash_get_flash_info flash_info s =
     (case flash_info of None \<Rightarrow> Some (CSI_ERROR, None, s)
      | Some fi \<Rightarrow> do {
          (info, s) \<leftarrow> hal_spinor_get_info s;
          case info of None \<Rightarrow> Some (CSI_ERROR, Some fi, s)
          | Some i \<Rightarrow>
              Some (CSI_OK, Some (fi\<lparr>flash_size := sector_count i * sector_size i,
                csi_sector_size := sector_size i, csi_page_size := hal_page_size i,
                xip_addr := 0\<rparr>), s)
        })"

definition csi_spiflash_read ::
  "'b env \<Rightarrow> u32 \<Rightarrow> u8 list option \<Rightarrow> u32 \<Rightarrow> 'b hal \<Rightarrow> (int \<times> u8 list option \<times> 'b hal) option"
where
  "csi_spiflash_read E offset dat sz s =
     (case dat of None \<Rightarrow> Some (CSI_ERROR, None, s)
      | Some buf \<Rightarrow> do {
          (ret, buf, s) \<leftarrow> hal_spinor_read_data E offset buf sz s;
          if ret \<noteq> 0 then Some (CSI_ERROR, Some buf, s) else Some (sint sz, Some buf, s)
        })"

definition csi_spiflash_program ::
  "'b env \<Rightarrow> u32 \<Rightarrow> u8 list option \<Rightarrow> u32 \<Rightarrow> 'b hal \<Rightarrow> (int \<times> 'b hal) option"
where
  "csi_spiflash_program E offset dat sz s =
     (case dat of None \<Rightarrow> Some (CSI_ERROR, s)
      | Some buf \<Rightarrow> do {
          (ret, s) \<leftarrow> hal_spinor_program_data E offset buf sz s;
          if ret \<noteq> 0 then Some (CSI_ERROR, s) else Some (sint sz, s)
        })"

definition csi_spiflash_erase :: "'b env \<Rightarrow> u32 \<Rightarrow> u32 \<Rightarrow> 'b hal \<Rightarrow> (int \<times> 'b hal) option" where
  "csi_spiflash_erase E offset sz s = do {
     (info, s) \<leftarrow> hal_spinor_get_info s;
     case info of None \<Rightarrow> Some (CSI_ERROR, s)
     | Some i \<Rightarrow>
         if sector_size i = 0 then None
         else if sz mod sector_size i \<noteq> 0 then Some (CSI_ERROR, s)
         else do {
           (ret, s) \<leftarrow> hal_spinor_erase_sector E offset sz s;
           if ret \<noteq> 0 then Some (CSI_ERROR, s) else Some (CSI_OK, s)
         }
   }"

definition csi_spiflash_read_reg :: "u8 \<Rightarrow> u8 list \<Rightarrow> u32 \<Rightarrow> int" where
  "csi_spiflash_read_reg cmd_code dat sz = CSI_UNSUPPORTED"

definition csi_spiflash_write_reg :: "u8 \<Rightarrow> u8 list \<Rightarrow> u32 \<Rightarrow> int" where
  "csi_spiflash_write_reg cmd_code dat sz = CSI_UNSUPPORTED"

definition csi_spiflash_lock :: "u32 \<Rightarrow> u32 \<Rightarrow> int" where
  "csi_spiflash_lock offset sz = CSI_UNSUPPORTED"

definition csi_spiflash_unlock :: "u32 \<Rightarrow> u32 \<Rightarrow> int" where
  "csi_spiflash_unlock offset sz = CSI_UNSUPPORTED"

definition csi_spiflash_is_locked :: "u32 \<Rightarrow> u32 \<Rightarrow> int" where
  "csi_spiflash_is_locked offset sz = 0"

definition csi_spiflash_frequence :: "u32 \<Rightarrow> u32" where
  "csi_spiflash_frequence hz = 0"

definition csi_spiflash_release_power_down :: int where
  "csi_spiflash_release_power_down = CSI_UNSUPPORTED"

section \<open>The contract through the HAL\<close>

definition hal_ok :: "'b env \<Rightarrow> 'b chip_view \<Rightarrow> 'b hal \<Rightarrow> bool" where
  "hal_ok E V s \<longleftrightarrow> core_ok E V (hal_nor s) \<and> blk_size (hal_nor s) = SZ_4K"

lemma hal_media:
  "flash_media (hal_ok E V) (\<lambda>s. cell V (bus (hal_nor s))) (\<lambda>s. unat (total_size (hal_nor s)))
     (hal_spinor_read_data E) (hal_spinor_program_data E) (hal_spinor_erase_sector E)"
proof (unfold_locales, goal_cases)
  case (1 s)
  show ?case using unsigned_less [of "total_size (hal_nor s)", where ?'a = nat] by simp
next
  case (2 s n a buf)
  with nor_read_frame [of E V "hal_nor s" n a buf] show ?case
    by (auto simp: hal_ok_def hal_spinor_read_data_def same_norD)
next
  case (3 s n a buf)
  with nor_write_frame [of E V "hal_nor s" n a buf] show ?case
    by (auto simp: hal_ok_def hal_spinor_program_data_def on_nor_def same_norD)
next
  case (4 s a n)
  with nor_erase_frame [of E V "hal_nor s" a n] show ?case
    by (auto simp: hal_ok_def hal_spinor_erase_sector_def on_nor_def same_norD)
qed

interpretation hal: flash_media "hal_ok E V" "\<lambda>s. cell V (bus (hal_nor s))"
  "\<lambda>s. unat (total_size (hal_nor s))"
  "hal_spinor_read_data E" "hal_spinor_program_data E" "hal_spinor_erase_sector E" for E V
  by (rule hal_media)

end
