(* ===== verification/Flash_Driver.thy ===== *)
theory Flash_Driver
  imports Hal_Spinor
begin

text \<open>
  The flash algorithm the host debugger runs: the operations of \<open>app/src/driver.c\<close>, the device
  description of \<open>app/src/FlashDev.c\<close> and the command loop of \<open>app/src/flash_main.c\<close>. The static
  variables of the three files are the record \<open>app\<close>; \<open>__flash_read\<close>, \<open>__flash_write\<close>,
  \<open>__flash_erase\<close> and \<open>__flash_info_get\<close> lose their leading underscores. Every operation is
  related to an abstract flash memory, and a whole session of the host to its specification.
\<close>

section \<open>State of the application\<close>

record 'b app =
  hal :: "'b hal"
  spiflash_info :: spiflash_info
  g_checksumBuffer :: "u8 list"
  g_rwBuffer :: "u8 list"
  g_dstAddress :: u32
  g_length :: u32
  g_checksum :: u32
  g_func :: int
  g_flashID :: u32
  g_error :: int

abbreviation (input) ERROR_INIT :: int where "ERROR_INIT \<equiv> - 200"
abbreviation (input) ERROR_PROGRAM :: int where "ERROR_PROGRAM \<equiv> - 202"
abbreviation (input) ERROR_READ :: int where "ERROR_READ \<equiv> - 203"
abbreviation (input) ERROR_ERASE :: int where "ERROR_ERASE \<equiv> - 204"
abbreviation (input) ERROR_CHIPERASE :: int where "ERROR_CHIPERASE \<equiv> - 205"
abbreviation (input) ERROR_CHECKSUM :: int where "ERROR_CHECKSUM \<equiv> - 207"
abbreviation (input) CHECKSUM_BUF_LEN :: nat where "CHECKSUM_BUF_LEN \<equiv> 1024"
abbreviation (input) INT_MAX :: int where "INT_MAX \<equiv> 2 ^ 31 - 1"

section \<open>Access to the flash (\<open>driver.c\<close>)\<close>

definition flash_info_get :: "'b app \<Rightarrow> (int \<times> 'b app) option" where
  "flash_info_get s = do {
     (ret, fi, h) \<leftarrow> csi_spiflash_get_flash_info (Some (spiflash_info s)) (hal s);
     fi \<leftarrow> fi;
     let s = s\<lparr>hal := h, spiflash_info := fi\<rparr>;
     if ret \<noteq> CSI_OK then Some (-1, s) else Some (0, s)
   }"

definition flash_read ::
  "'b env \<Rightarrow> u64 \<Rightarrow> u8 list \<Rightarrow> u64 \<Rightarrow> 'b app \<Rightarrow> (int \<times> u8 list \<times> 'b app) option"
where
  "flash_read E addr dat data_len s = do {
     (ret, buf, h) \<leftarrow> csi_spiflash_read E (ucast (addr - ucast (xip_addr (spiflash_info s))))
        (Some dat) (ucast data_len) (hal s);
     buf \<leftarrow> buf;
     Some (if ret < 0 then -1 else 0, buf, s\<lparr>hal := h\<rparr>)
   }"

definition flash_write :: "'b env \<Rightarrow> u64 \<Rightarrow> u8 list \<Rightarrow> u64 \<Rightarrow> 'b app \<Rightarrow> (int \<times> 'b app) option" where
  "flash_write E addr dat data_len s = do {
     (ret, h) \<leftarrow> csi_spiflash_program E (ucast (addr - ucast (xip_addr (spiflash_info s))))
        (Some dat) (ucast data_len) (hal s);
     Some (if ret < 0 then -1 else 0, s\<lparr>hal := h\<rparr>)
   }"

definition flash_erase :: "'b env \<Rightarrow> u64 \<Rightarrow> u64 \<Rightarrow> 'b app \<Rightarrow> (int \<times> 'b app) option" where
  "flash_erase E addr len s = do {
     (ret, h) \<leftarrow> csi_spiflash_erase E (ucast addr) (ucast len) (hal s);
     Some (if ret \<noteq> 0 then -1 else 0, s\<lparr>hal := h\<rparr>)
   }"

section \<open>The operations of the flash algorithm\<close>

text \<open>A C \<open>int\<close> argument is a 32-bit word read by \<open>sint\<close>.\<close>

definition flashInit :: "'b env \<Rightarrow> 'b app \<Rightarrow> (int \<times> 'b app) option" where
  "flashInit E s = do {
     (ret, h) \<leftarrow> csi_spiflash_qspi_init E True (hal s);
     let s = s\<lparr>hal := h\<rparr>;
     if ret \<noteq> 0 then Some (ERROR_INIT, s)
     else do {
       (r, s) \<leftarrow> flash_info_get s;
       if r \<noteq> 0 then Some (ERROR_INIT, s) else Some (0, s)
     }
   }"

definition flashUnInit :: "'b env \<Rightarrow> 'b app \<Rightarrow> (int \<times> 'b app) option" where
  "flashUnInit E s = do { h \<leftarrow> csi_spiflash_qspi_uninit E (hal s); Some (0, s\<lparr>hal := h\<rparr>) }"

definition flashID :: "u32 \<Rightarrow> int \<times> u32" where
  "flashID p = (0, p)"

text \<open>The scan for a byte that is not \<open>0xff\<close>.\<close>

fun has_data :: "u8 list \<Rightarrow> nat \<Rightarrow> bool option" where
  "has_data src 0 = Some False"
| "has_data [] (Suc n) = None"
| "has_data (x # xs) (Suc n) = (if x \<noteq> 0xff then Some True else has_data xs n)"

definition flashProgram ::
  "'b env \<Rightarrow> u32 \<Rightarrow> u8 list \<Rightarrow> u32 \<Rightarrow> 'b app \<Rightarrow> (int \<times> 'b app) option"
where
  "flashProgram E dst src len s = do {
     w_flag \<leftarrow> has_data src (nat (sint len));
     if w_flag then do {
       (ret, s) \<leftarrow> flash_write E (ucast dst) src (scast len) s;
       if ret \<noteq> 0 then Some (ERROR_PROGRAM, s) else Some (0, s)
     }
     else Some (0, s)
   }"

definition flashRead ::
  "'b env \<Rightarrow> u8 list \<Rightarrow> u32 \<Rightarrow> u32 \<Rightarrow> 'b app \<Rightarrow> (int \<times> u8 list \<times> 'b app) option"
where
  "flashRead E dst src len s = do {
     (ret, dst, s) \<leftarrow> flash_read E (ucast src) dst (scast len) s;
     if ret \<noteq> 0 then Some (ERROR_READ, dst, s) else Some (0, dst, s)
   }"

definition flashErase :: "'b env \<Rightarrow> u32 \<Rightarrow> u32 \<Rightarrow> 'b app \<Rightarrow> (int \<times> 'b app) option" where
  "flashErase E dst len s = do {
     (ret, s) \<leftarrow> flash_erase E (ucast dst) (scast len) s;
     if ret \<noteq> 0 then Some (ERROR_ERASE, s) else Some (0, s)
   }"

definition flashChipErase :: "'b env \<Rightarrow> 'b app \<Rightarrow> (int \<times> 'b app) option" where
  "flashChipErase E s = do {
     (ret, h) \<leftarrow> hal_spinor_erase_chip E (hal s);
     let s = s\<lparr>hal := h\<rparr>;
     if ret \<noteq> 0 then Some (ERROR_CHIPERASE, s) else Some (0, s)
   }"

text \<open>
  \<open>sum += g_checksumBuffer[i]\<close> for the first \<open>n\<close> bytes; an \<open>int\<close> that overflows has no value.
\<close>

fun sum_bytes :: "int \<Rightarrow> nat \<Rightarrow> u8 list \<Rightarrow> int option" where
  "sum_bytes acc 0 buf = Some acc"
| "sum_bytes acc (Suc n) [] = None"
| "sum_bytes acc (Suc n) (x # xs) =
     (let acc = acc + int (unat x) in if acc > INT_MAX then None else sum_bytes acc n xs)"

partial_function (option) checksum_loop ::
  "'b env \<Rightarrow> int \<Rightarrow> u32 \<Rightarrow> int \<Rightarrow> 'b app \<Rightarrow> (int \<times> 'b app) option"
where
  "checksum_loop E len flash_addr acc s =
     (if len = 0 then Some (acc, s)
      else if len \<ge> int CHECKSUM_BUF_LEN then do {
        (_, buf, s) \<leftarrow> flash_read E (ucast flash_addr) (g_checksumBuffer s)
                         (of_nat CHECKSUM_BUF_LEN) s;
        let s = s\<lparr>g_checksumBuffer := buf\<rparr>;
        acc \<leftarrow> sum_bytes acc CHECKSUM_BUF_LEN (g_checksumBuffer s);
        checksum_loop E (len - int CHECKSUM_BUF_LEN) (flash_addr + of_nat CHECKSUM_BUF_LEN) acc s
      }
      else if len > 0 \<and> len < int CHECKSUM_BUF_LEN then do {
        (_, buf, s) \<leftarrow> flash_read E (ucast flash_addr) (g_checksumBuffer s) (of_int len) s;
        let s = s\<lparr>g_checksumBuffer := buf\<rparr>;
        acc \<leftarrow> sum_bytes acc (nat len) (g_checksumBuffer s);
        checksum_loop E 0 flash_addr acc s
      }
      else checksum_loop E len flash_addr acc s)"

definition flashChecksum ::
  "'b env \<Rightarrow> u32 \<Rightarrow> u32 \<Rightarrow> u32 \<Rightarrow> 'b app \<Rightarrow> (int \<times> 'b app) option"
where
  "flashChecksum E dst len checksum s = do {
     (acc, s) \<leftarrow> checksum_loop E (sint len) dst 0 s;
     Some (if acc = sint checksum then 0 else ERROR_CHECKSUM, s)
   }"

definition flashTest :: int where
  "flashTest = 0"

section \<open>The command loop (\<open>flash_main.c\<close>)\<close>

text \<open>One round of the loop after the breakpoint: the \<open>switch\<close> on \<open>g_func\<close>.\<close>

definition flash_dispatch :: "'b env \<Rightarrow> 'b app \<Rightarrow> 'b app option" where
  "flash_dispatch E s =
     (if g_func s = 0 then
        let (r, i) = flashID (g_flashID s) in Some (s\<lparr>g_flashID := i, g_error := r\<rparr>)
      else if g_func s = 1 then do {
        (r, s) \<leftarrow> flashProgram E (g_dstAddress s) (g_rwBuffer s) (g_length s) s;
        Some (s\<lparr>g_error := r\<rparr>)
      }
      else if g_func s = 2 then do {
        (r, buf, s) \<leftarrow> flashRead E (g_rwBuffer s) (g_dstAddress s) (g_length s) s;
        Some (s\<lparr>g_rwBuffer := buf, g_error := r\<rparr>)
      }
      else if g_func s = 3 then do {
        (r, s) \<leftarrow> flashErase E (g_dstAddress s) (g_length s) s;
        Some (s\<lparr>g_error := r\<rparr>)
      }
      else if g_func s = 4 then do {
        (r, s) \<leftarrow> flashChipErase E s;
        Some (s\<lparr>g_error := r\<rparr>)
      }
      else if g_func s = 5 then do {
        (r, s) \<leftarrow> flashUnInit E s;
        Some (s\<lparr>g_error := r\<rparr>)
      }
      else if g_func s = 6 then do {
        (r, s) \<leftarrow> flashChecksum E (g_dstAddress s) (g_length s) (g_checksum s) s;
        Some (s\<lparr>g_error := r\<rparr>)
      }
      else Some s)"

text \<open>
  The host debugger stops the program at \<open>__bkpt_label\<close>, reads the results, writes the globals of
  its next request and lets it run. A session is the initialisation followed by rounds.
\<close>

record request =
  rq_func :: int
  rq_dst :: u32
  rq_length :: u32
  rq_checksum :: u32
  rq_buffer :: "u8 list"

definition host_writes :: "request \<Rightarrow> 'b app \<Rightarrow> 'b app" where
  "host_writes rq s = s\<lparr>g_func := rq_func rq, g_dstAddress := rq_dst rq, g_length := rq_length rq,
     g_checksum := rq_checksum rq, g_rwBuffer := overlay (rq_buffer rq) (g_rwBuffer s)\<rparr>"

inductive flash_session :: "'b env \<Rightarrow> 'b app \<Rightarrow> request list \<Rightarrow> 'b app \<Rightarrow> bool" for E s where
  start: "flashInit E s = Some (r, s') \<Longrightarrow> flash_session E s [] (s'\<lparr>g_error := r\<rparr>)"
| round: "flash_session E s rqs u \<Longrightarrow> flash_dispatch E (host_writes rq u) = Some v \<Longrightarrow>
    flash_session E s (rqs @ [rq]) v"

section \<open>Single operations\<close>

definition app_ok :: "'b env \<Rightarrow> 'b chip_view \<Rightarrow> 'b app \<Rightarrow> bool" where
  "app_ok E V s \<longleftrightarrow> hal_ok E V (hal s) \<and> xip_addr (spiflash_info s) = 0 \<and>
     length (g_rwBuffer s) = 8192 \<and> length (g_checksumBuffer s) = CHECKSUM_BUF_LEN"

abbreviation (input) flash_mem :: "'b chip_view \<Rightarrow> 'b app \<Rightarrow> nat \<Rightarrow> u8" where
  "flash_mem V s \<equiv> cell V (bus (hal_nor (hal s)))"

abbreviation (input) flash_cap :: "'b app \<Rightarrow> nat" where
  "flash_cap s \<equiv> unat (total_size (hal_nor (hal s)))"

lemma sint_small: "unat (x :: u32) < 2 ^ 31 \<Longrightarrow> sint x = int (unat x)"
proof -
  assume "unat x < 2 ^ 31"
  then have "signed_take_bit 31 (int (unat x)) = int (unat x)"
    by (intro signed_take_bit_int_eq_self) (simp_all del: of_nat_unat)
  then show ?thesis by (simp only: sint_uint uint_nat) simp
qed

lemma scast_ucast_u32: "ucast (scast (x :: u32) :: u64) = x"
  by (intro bit_word_eqI) (auto simp: bit_simps)

lemma ucast_ucast_u32: "ucast (ucast (x :: u32) :: u64) = x"
  by (intro bit_word_eqI) (auto simp: bit_simps)

lemma flash_read_ok:
  assumes ok: "app_ok E V s" and len: "ucast len = (n :: u32)" "n \<noteq> 0" "unat n < 2 ^ 31"
    and fit: "unat (a :: u32) + unat n \<le> flash_cap s" "unat n \<le> length buf"
  shows "\<exists>h. flash_read E (ucast a) buf len s =
      Some (0, map (flash_mem V s) [unat a ..< unat a + unat n] @ drop (unat n) buf, s\<lparr>hal := h\<rparr>) \<and>
    app_ok E V (s\<lparr>hal := h\<rparr>) \<and> flash_mem V (s\<lparr>hal := h\<rparr>) = flash_mem V s \<and>
    flash_cap (s\<lparr>hal := h\<rparr>) = flash_cap s"
proof -
  obtain h where h: "hal_spinor_read_data E a buf n (hal s) =
      Some (0, map (flash_mem V s) [unat a ..< unat a + unat n] @ drop (unat n) buf, h)"
    "hal_ok E V h" "cell V (bus (hal_nor h)) = flash_mem V s"
    "unat (total_size (hal_nor h)) = flash_cap s"
    using hal.rd_law [of E V "hal s" n a buf] ok len(2) fit by (auto simp: app_ok_def)
  then show ?thesis
    using ok len sint_small [OF len(3)]
    by (auto simp: flash_read_def csi_spiflash_read_def app_ok_def ucast_ucast_u32)
qed

lemma flash_write_ok:
  assumes ok: "app_ok E V s" and len: "ucast len = (n :: u32)" "n \<noteq> 0" "unat n < 2 ^ 31"
    and fit: "unat (a :: u32) + unat n \<le> flash_cap s" "unat n \<le> length buf"
  shows "\<exists>h. flash_write E (ucast a) buf len s = Some (0, s\<lparr>hal := h\<rparr>) \<and>
    app_ok E V (s\<lparr>hal := h\<rparr>) \<and> flash_cap (s\<lparr>hal := h\<rparr>) = flash_cap s \<and>
    flash_mem V (s\<lparr>hal := h\<rparr>) = programmed (flash_mem V s) (unat a) (take (unat n) buf)"
proof -
  obtain h where h: "hal_spinor_program_data E a buf n (hal s) = Some (0, h)"
    "hal_ok E V h" "cell V (bus (hal_nor h)) = programmed (flash_mem V s) (unat a) (take (unat n) buf)"
    "unat (total_size (hal_nor h)) = flash_cap s"
    using hal.wr_law [of E V "hal s" n a buf] ok len(2) fit by (auto simp: app_ok_def)
  then show ?thesis
    using ok len sint_small [OF len(3)]
    by (auto simp: flash_write_def csi_spiflash_program_def app_ok_def ucast_ucast_u32)
qed

lemma flash_erase_ok:
  assumes ok: "app_ok E V s" and len: "ucast len = (n :: u32)"
    and al: "unat (a :: u32) mod 4096 = 0" "unat n mod 4096 = 0"
    and fit: "unat a + unat n \<le> flash_cap s"
  shows "\<exists>h. flash_erase E (ucast a) len s = Some (0, s\<lparr>hal := h\<rparr>) \<and>
    app_ok E V (s\<lparr>hal := h\<rparr>) \<and> flash_cap (s\<lparr>hal := h\<rparr>) = flash_cap s \<and>
    flash_mem V (s\<lparr>hal := h\<rparr>) = erased (flash_mem V s) (unat a) (unat n)"
proof -
  have info: "nor_info (hal_nor (hal s)) \<noteq> None" "blk_size (hal_nor (hal s)) = SZ_4K"
    using ok by (auto simp: app_ok_def hal_ok_def core_ok_def ready_def configured_def)
  then obtain i where i: "hal_spinor_get_info (hal s) =
      Some (Some i, (hal s)\<lparr>hal_spinor_info := i\<rparr>)" "sector_size i = SZ_4K"
    by (auto simp: hal_spinor_get_info_def Let_def)
  have ok': "hal_ok E V ((hal s)\<lparr>hal_spinor_info := i\<rparr>)" using ok by (simp add: app_ok_def hal_ok_def)
  have "n mod SZ_4K = 0" using al(2) by (simp add: unat_mod_0)
  moreover obtain h where "hal_spinor_erase_sector E a n ((hal s)\<lparr>hal_spinor_info := i\<rparr>) = Some (0, h)"
    "hal_ok E V h" "cell V (bus (hal_nor h)) = erased (flash_mem V s) (unat a) (unat n)"
    "unat (total_size (hal_nor h)) = flash_cap s"
    using hal.er_law [OF ok' al] fit by auto
  ultimately show ?thesis
    using ok len i by (auto simp: flash_erase_def csi_spiflash_erase_def app_ok_def ucast_ucast_u32)
qed

text \<open>Programming erased-value bytes changes nothing, so that skipping them is sound.\<close>

lemma has_data_spec:
  "n \<le> length src \<Longrightarrow> has_data src n = Some (\<exists>x \<in> set (take n src). x \<noteq> 0xff)"
  by (induction src n rule: has_data.induct) auto

lemma programmed_ff:
  "\<forall>x \<in> set bs. x = 0xff \<Longrightarrow> programmed m a bs = m"
  by (rule ext) (auto simp: programmed_def all_set_conv_all_nth)

lemma flashProgram_ok:
  assumes ok: "app_ok E V s" and len: "unat n < 2 ^ 31"
    and fit: "unat (a :: u32) + unat n \<le> flash_cap s" "unat n \<le> length buf"
  shows "\<exists>h. flashProgram E a buf n s = Some (0, s\<lparr>hal := h\<rparr>) \<and>
    app_ok E V (s\<lparr>hal := h\<rparr>) \<and> flash_cap (s\<lparr>hal := h\<rparr>) = flash_cap s \<and>
    flash_mem V (s\<lparr>hal := h\<rparr>) = programmed (flash_mem V s) (unat a) (take (unat n) buf)"
proof (cases "\<exists>x \<in> set (take (unat n) buf). x \<noteq> 0xff")
  case True
  then have "n \<noteq> 0" by auto
  with flash_write_ok [OF ok scast_ucast_u32 _ len fit] True show ?thesis
    by (auto simp: flashProgram_def sint_small [OF len] has_data_spec [OF fit(2)])
next
  case False
  with ok show ?thesis
    by (auto simp: flashProgram_def sint_small [OF len] has_data_spec [OF fit(2)]
        programmed_ff intro!: exI [of _ "hal s"])
qed

lemma flashRead_ok:
  assumes ok: "app_ok E V s" and len: "n \<noteq> 0" "unat n < 2 ^ 31"
    and fit: "unat (a :: u32) + unat n \<le> flash_cap s" "unat n \<le> length buf"
  shows "\<exists>h. flashRead E buf a n s =
      Some (0, map (flash_mem V s) [unat a ..< unat a + unat n] @ drop (unat n) buf, s\<lparr>hal := h\<rparr>) \<and>
    app_ok E V (s\<lparr>hal := h\<rparr>) \<and> flash_mem V (s\<lparr>hal := h\<rparr>) = flash_mem V s \<and>
    flash_cap (s\<lparr>hal := h\<rparr>) = flash_cap s"
  using flash_read_ok [OF ok scast_ucast_u32 len fit] by (auto simp: flashRead_def)

lemma flashErase_ok:
  assumes ok: "app_ok E V s" and al: "unat (a :: u32) mod 4096 = 0" "unat n mod 4096 = 0"
    and fit: "unat a + unat n \<le> flash_cap s"
  shows "\<exists>h. flashErase E a n s = Some (0, s\<lparr>hal := h\<rparr>) \<and>
    app_ok E V (s\<lparr>hal := h\<rparr>) \<and> flash_cap (s\<lparr>hal := h\<rparr>) = flash_cap s \<and>
    flash_mem V (s\<lparr>hal := h\<rparr>) = erased (flash_mem V s) (unat a) (unat n)"
  using flash_erase_ok [OF ok scast_ucast_u32 al fit] by (auto simp: flashErase_def)

section \<open>The checksum\<close>

definition byte_sum :: "(nat \<Rightarrow> u8) \<Rightarrow> nat \<Rightarrow> nat \<Rightarrow> int" where
  "byte_sum m a n = sum_list (map (\<lambda>i. int (unat (m i))) [a ..< a + n])"

lemma byte_sum_0 [simp]: "byte_sum m a 0 = 0"
  by (simp add: byte_sum_def)

lemma byte_sum_add: "byte_sum m a (n + k) = byte_sum m a n + byte_sum m (a + n) k"
  using upt_add_eq_append [of a "a + n" k] by (simp add: byte_sum_def add.assoc)

lemma byte_sum_bounds: "0 \<le> byte_sum m a n" "byte_sum m a n \<le> 255 * int n"
proof -
  have le: "int (unat (m i)) \<le> 255" for i
    using unsigned_less [of "m i", where ?'a = nat] by (simp del: of_nat_unat)
  show "0 \<le> byte_sum m a n" "byte_sum m a n \<le> 255 * int n"
    by (induction n) (auto simp: byte_sum_def algebra_simps simp del: of_nat_unat intro: add_mono le)
qed

lemma sum_bytes_ok:
  "n \<le> length buf \<Longrightarrow> acc + sum_list (map (\<lambda>x. int (unat x)) (take n buf)) \<le> INT_MAX \<Longrightarrow>
   sum_bytes acc n buf = Some (acc + sum_list (map (\<lambda>x. int (unat x)) (take n buf)))"
proof (induction acc n buf rule: sum_bytes.induct)
  case (3 acc n x xs)
  have "0 \<le> sum_list (map (\<lambda>x. int (unat x)) (take n xs))" by (intro sum_list_nonneg) auto
  with 3 show ?case by (simp add: Let_def add.assoc del: of_nat_unat)
qed simp_all

lemma sum_bytes_cells:
  assumes "acc + byte_sum m a n \<le> INT_MAX"
  shows "sum_bytes acc n (map m [a ..< a + n] @ rest) = Some (acc + byte_sum m a n)"
  using assms sum_bytes_ok [of n "map m [a ..< a + n] @ rest" acc]
  by (simp add: byte_sum_def comp_def del: of_nat_unat)

lemma checksum_loop_0 [simp]: "checksum_loop E 0 a acc s = Some (acc, s)"
  by (simp add: checksum_loop.simps)

lemma checksum_loop_ok:
  "app_ok E V s \<Longrightarrow> unat a + n \<le> flash_cap s \<Longrightarrow> acc + byte_sum (flash_mem V s) (unat a) n \<le> INT_MAX \<Longrightarrow>
   \<exists>h b. checksum_loop E (int n) a acc s =
       Some (acc + byte_sum (flash_mem V s) (unat a) n, s\<lparr>hal := h, g_checksumBuffer := b\<rparr>) \<and>
     app_ok E V (s\<lparr>hal := h, g_checksumBuffer := b\<rparr>) \<and>
     flash_mem V (s\<lparr>hal := h\<rparr>) = flash_mem V s \<and> flash_cap (s\<lparr>hal := h\<rparr>) = flash_cap s"
proof (induction n arbitrary: a acc s rule: less_induct)
  case (less n)
  let ?m = "flash_mem V s"
  have buf: "length (g_checksumBuffer s) = 1024" using less.prems(1) by (simp add: app_ok_def)
  consider "n = 0" | "0 < n" "n < 1024" | "1024 \<le> n" by linarith
  then show ?case
  proof cases
    case 1
    with less.prems(1) show ?thesis
      by (auto intro!: exI [of _ "hal s"] exI [of _ "g_checksumBuffer s"])
  next
    case 2
    let ?n = "word_of_nat n :: u32"
    have n: "unat ?n = n" using 2 by (simp add: unat_of_nat take_bit_eq_mod)
    have n0: "?n \<noteq> 0" using 2 n by auto
    have len: "ucast (of_int (int n) :: u64) = ?n"
      by (simp, intro bit_word_eqI) (auto simp: bit_simps)
    obtain h where h: "flash_read E (ucast a) (g_checksumBuffer s) (of_int (int n)) s =
        Some (0, map ?m [unat a ..< unat a + n] @ drop n (g_checksumBuffer s), s\<lparr>hal := h\<rparr>)"
      "app_ok E V (s\<lparr>hal := h\<rparr>)" "flash_mem V (s\<lparr>hal := h\<rparr>) = ?m"
      "flash_cap (s\<lparr>hal := h\<rparr>) = flash_cap s"
      using flash_read_ok [OF less.prems(1) len n0, where a = a and buf = "g_checksumBuffer s"] 2 n less.prems(2) buf by auto
    let ?b = "map ?m [unat a ..< unat a + n] @ drop n (g_checksumBuffer s)"
    have "length ?b = 1024" using buf 2 by simp
    have "checksum_loop E (int n) a acc s =
        Some (acc + byte_sum ?m (unat a) n, s\<lparr>hal := h, g_checksumBuffer := ?b\<rparr>)"
      using 2 h(1) sum_bytes_cells [OF less.prems(3)]
      by (subst checksum_loop.simps) simp
    with h \<open>length ?b = 1024\<close> show ?thesis
      by (auto simp: app_ok_def intro!: exI [of _ h] exI [of _ ?b])
  next
    case 3
    have bs: "byte_sum ?m (unat a) n = byte_sum ?m (unat a) 1024 + byte_sum ?m (unat a + 1024) (n - 1024)"
      using byte_sum_add [of ?m "unat a" 1024 "n - 1024"] 3 by simp
    have fits: "acc + byte_sum ?m (unat a) 1024 \<le> INT_MAX"
      using less.prems(3) byte_sum_bounds(1) [of ?m "unat a + 1024" "n - 1024"] by (simp add: bs)
    have len: "ucast (of_nat 1024 :: u64) = (1024 :: u32)" by simp
    obtain h where h: "flash_read E (ucast a) (g_checksumBuffer s) (of_nat 1024) s =
        Some (0, map ?m [unat a ..< unat a + 1024], s\<lparr>hal := h\<rparr>)"
      "app_ok E V (s\<lparr>hal := h\<rparr>)" "flash_mem V (s\<lparr>hal := h\<rparr>) = ?m"
      "flash_cap (s\<lparr>hal := h\<rparr>) = flash_cap s"
      using flash_read_ok [OF less.prems(1) len, where a = a and buf = "g_checksumBuffer s"] 3 less.prems(2) buf by auto
    let ?b = "map ?m [unat a ..< unat a + 1024]"
    let ?s = "s\<lparr>hal := h, g_checksumBuffer := ?b\<rparr>"
    have ok: "app_ok E V ?s" using h(2) by (simp add: app_ok_def)
    have "unat a + 1024 < 2 ^ 32"
      using 3 less.prems(2) unsigned_less [of "total_size (hal_nor (hal s))", where ?'a = nat] by simp
    then have a': "unat (a + 1024) = unat a + 1024" by (simp add: unat_word_ariths)
    obtain h' b' where h': "checksum_loop E (int (n - 1024)) (a + 1024) (acc + byte_sum ?m (unat a) 1024) ?s =
        Some (acc + byte_sum ?m (unat a) n, ?s\<lparr>hal := h', g_checksumBuffer := b'\<rparr>)"
      "app_ok E V (?s\<lparr>hal := h', g_checksumBuffer := b'\<rparr>)"
      "flash_mem V (?s\<lparr>hal := h'\<rparr>) = ?m" "flash_cap (?s\<lparr>hal := h'\<rparr>) = flash_cap s"
      using less.IH [OF _ ok, of "n - 1024" "a + 1024" "acc + byte_sum ?m (unat a) 1024"]
        3 less.prems(2,3) h(3,4) by (auto simp: a' bs add.assoc)
    have "checksum_loop E (int n) a acc s =
        checksum_loop E (int (n - 1024)) (a + 1024) (acc + byte_sum ?m (unat a) 1024) ?s"
      using 3 h(1) sum_bytes_cells [OF fits, of "[]"]
      by (subst checksum_loop.simps) (simp add: of_nat_diff)
    with h' show ?thesis by auto
  qed
qed

lemma flashChecksum_ok:
  assumes ok: "app_ok E V s" and fit: "unat a + unat n \<le> flash_cap s" and n: "unat n < 2 ^ 31"
    and sm: "byte_sum (flash_mem V s) (unat a) (unat n) \<le> INT_MAX"
  shows "\<exists>h b. flashChecksum E a n c s =
      Some (if byte_sum (flash_mem V s) (unat a) (unat n) = sint c then 0 else ERROR_CHECKSUM,
            s\<lparr>hal := h, g_checksumBuffer := b\<rparr>) \<and>
    app_ok E V (s\<lparr>hal := h, g_checksumBuffer := b\<rparr>) \<and>
    flash_mem V (s\<lparr>hal := h\<rparr>) = flash_mem V s \<and> flash_cap (s\<lparr>hal := h\<rparr>) = flash_cap s"
proof -
  obtain h b where "checksum_loop E (int (unat n)) a 0 s =
      Some (0 + byte_sum (flash_mem V s) (unat a) (unat n), s\<lparr>hal := h, g_checksumBuffer := b\<rparr>)"
    "app_ok E V (s\<lparr>hal := h, g_checksumBuffer := b\<rparr>)"
    "flash_mem V (s\<lparr>hal := h\<rparr>) = flash_mem V s" "flash_cap (s\<lparr>hal := h\<rparr>) = flash_cap s"
    using checksum_loop_ok [OF ok fit, of 0] sm by auto
  then show ?thesis
    by (auto simp: flashChecksum_def sint_small [OF n] simp del: of_nat_unat)
qed

text \<open>A negative length never leaves the loop.\<close>

lemma checksum_loop_negative:
  assumes "len < 0" shows "checksum_loop E len a acc s = None"
proof (cases "checksum_loop E len a acc s")
  case (Some y)
  then have "0 \<le> len"
    by (rule checksum_loop.raw_induct [where P = "\<lambda>E len a acc s y. 0 \<le> len", rotated])
      (auto split: if_splits)
  with assms show ?thesis by simp
qed

lemma flashChipErase_ok:
  assumes ok: "app_ok E V s" and al: "flash_cap s mod 4096 = 0"
  shows "\<exists>h. flashChipErase E s = Some (0, s\<lparr>hal := h\<rparr>) \<and> app_ok E V (s\<lparr>hal := h\<rparr>) \<and>
    flash_cap (s\<lparr>hal := h\<rparr>) = flash_cap s \<and>
    flash_mem V (s\<lparr>hal := h\<rparr>) = erased (flash_mem V s) 0 (flash_cap s)"
proof -
  have "core_ok E V (hal_nor (hal s))" using ok by (simp add: app_ok_def hal_ok_def)
  from nor_erase_frame [OF this, of 0 "total_size (hal_nor (hal s))"] al
  obtain w where "nor_erase E 0 (total_size (hal_nor (hal s))) (hal_nor (hal s)) = Some (0, w)"
    "core_ok E V w" "same_nor (hal_nor (hal s)) w"
    "cell V (bus w) = erased (flash_mem V s) 0 (flash_cap s)" by auto
  with ok show ?thesis
    by (auto simp: flashChipErase_def hal_spinor_erase_chip_def on_nor_def app_ok_def hal_ok_def
        same_norD intro!: exI [of _ "(hal s)\<lparr>hal_nor := w\<rparr>"])
qed

section \<open>Rounds against their specification\<close>

text \<open>What the host sees: the flash, the shared buffer and the result of the last request.\<close>

record host_view =
  v_mem :: "nat \<Rightarrow> u8"
  v_buffer :: "u8 list"
  v_error :: int

definition view_of :: "'b chip_view \<Rightarrow> 'b app \<Rightarrow> host_view" where
  "view_of V s = \<lparr>v_mem = flash_mem V s, v_buffer = g_rwBuffer s, v_error = g_error s\<rparr>"

definition round_spec :: "nat \<Rightarrow> request \<Rightarrow> host_view \<Rightarrow> host_view" where
  "round_spec c rq a =
     (let m = v_mem a; buf = overlay (rq_buffer rq) (v_buffer a); d = unat (rq_dst rq);
          n = unat (rq_length rq); a = a\<lparr>v_buffer := buf\<rparr>
      in if rq_func rq = 0 then a\<lparr>v_error := 0\<rparr>
         else if rq_func rq = 1 then a\<lparr>v_mem := programmed m d (take n buf), v_error := 0\<rparr>
         else if rq_func rq = 2 then a\<lparr>v_buffer := map m [d ..< d + n] @ drop n buf, v_error := 0\<rparr>
         else if rq_func rq = 3 then a\<lparr>v_mem := erased m d n, v_error := 0\<rparr>
         else if rq_func rq = 4 then a\<lparr>v_mem := erased m 0 c, v_error := 0\<rparr>
         else if rq_func rq = 6 then
           a\<lparr>v_error := (if byte_sum m d n = sint (rq_checksum rq) then 0 else ERROR_CHECKSUM)\<rparr>
         else a)"

text \<open>The requests a host may make of a flash of \<open>c\<close> bytes once it is initialised.\<close>

definition rq_ok :: "nat \<Rightarrow> request \<Rightarrow> bool" where
  "rq_ok c rq \<longleftrightarrow> (let d = unat (rq_dst rq); n = unat (rq_length rq)
     in if rq_func rq = 1 then d + n \<le> c \<and> n \<le> 8192
        else if rq_func rq = 2 then n \<noteq> 0 \<and> d + n \<le> c \<and> n \<le> 8192
        else if rq_func rq = 3 then d mod 4096 = 0 \<and> n mod 4096 = 0 \<and> d + n \<le> c
        else if rq_func rq = 4 then c mod 4096 = 0
        else if rq_func rq = 6 then d + n \<le> c \<and> n \<le> 8 * 1024 * 1024
        else rq_func rq \<noteq> 5)"

lemma app_ok_host_writes: "app_ok E V s \<Longrightarrow> app_ok E V (host_writes rq s)"
  by (simp add: app_ok_def host_writes_def)

lemma app_ok_update [simp]:
  "app_ok E V (s\<lparr>g_error := r\<rparr>) = app_ok E V s"
  "app_ok E V (s\<lparr>g_flashID := i\<rparr>) = app_ok E V s"
  by (simp_all add: app_ok_def)

lemma host_writes_sel [simp]:
  "hal (host_writes rq s) = hal s" "g_func (host_writes rq s) = rq_func rq"
  "g_dstAddress (host_writes rq s) = rq_dst rq" "g_length (host_writes rq s) = rq_length rq"
  "g_checksum (host_writes rq s) = rq_checksum rq" "g_error (host_writes rq s) = g_error s"
  "g_rwBuffer (host_writes rq s) = overlay (rq_buffer rq) (g_rwBuffer s)"
  by (simp_all add: host_writes_def)

lemma flash_dispatch_spec:
  assumes ok: "app_ok E V s" and rq: "rq_ok (flash_cap s) rq"
  shows "\<exists>v. flash_dispatch E (host_writes rq s) = Some v \<and> app_ok E V v \<and>
    flash_cap v = flash_cap s \<and> view_of V v = round_spec (flash_cap s) rq (view_of V s)"
proof -
  let ?s = "host_writes rq s" and ?d = "rq_dst rq" and ?n = "rq_length rq"
  have okw: "app_ok E V ?s" by (rule app_ok_host_writes [OF ok])
  have buf: "length (overlay (rq_buffer rq) (g_rwBuffer s)) = 8192" using ok by (simp add: app_ok_def)
  note defs = flash_dispatch_def round_spec_def view_of_def Let_def
  consider "rq_func rq = 1" | "rq_func rq = 2" | "rq_func rq = 3" | "rq_func rq = 4"
    | "rq_func rq = 6" | "rq_func rq = 0" | "rq_func rq \<notin> {0, 1, 2, 3, 4, 6}" by blast
  then show ?thesis
  proof cases
    case 1
    with rq buf have b: "unat ?n < 2 ^ 31" "unat ?d + unat ?n \<le> flash_cap ?s"
      "unat ?n \<le> length (g_rwBuffer ?s)"
      by (simp_all add: rq_ok_def Let_def)
    from flashProgram_ok [OF okw b] 1 show ?thesis by (auto simp: defs)
  next
    case 2
    with rq buf have b: "?n \<noteq> 0" "unat ?n < 2 ^ 31" "unat ?d + unat ?n \<le> flash_cap ?s"
      "unat ?n \<le> length (g_rwBuffer ?s)"
      by (auto simp: rq_ok_def Let_def)
    obtain h where h: "flashRead E (g_rwBuffer ?s) ?d ?n ?s = Some (0,
        map (flash_mem V ?s) [unat ?d ..< unat ?d + unat ?n] @ drop (unat ?n) (g_rwBuffer ?s), ?s\<lparr>hal := h\<rparr>)"
      "app_ok E V (?s\<lparr>hal := h\<rparr>)" "flash_mem V (?s\<lparr>hal := h\<rparr>) = flash_mem V ?s"
      "flash_cap (?s\<lparr>hal := h\<rparr>) = flash_cap ?s"
      using flashRead_ok [OF okw b] by blast
    have "length (map (flash_mem V ?s) [unat ?d ..< unat ?d + unat ?n] @ drop (unat ?n) (g_rwBuffer ?s)) = 8192"
      using b(4) buf by simp
    with h 2 show ?thesis by (auto simp: defs app_ok_def)
  next
    case 3
    with rq have b: "unat ?d mod 4096 = 0" "unat ?n mod 4096 = 0" "unat ?d + unat ?n \<le> flash_cap ?s"
      by (simp_all add: rq_ok_def Let_def)
    from flashErase_ok [OF okw b] 3 show ?thesis by (auto simp: defs)
  next
    case 4
    with rq have b: "flash_cap ?s mod 4096 = 0" by (simp add: rq_ok_def Let_def)
    from flashChipErase_ok [OF okw b] 4 show ?thesis by (auto simp: defs)
  next
    case 5
    with rq have b: "unat ?d + unat ?n \<le> flash_cap ?s" "unat ?n \<le> 8 * 1024 * 1024"
      by (simp_all add: rq_ok_def Let_def)
    have "byte_sum (flash_mem V ?s) (unat ?d) (unat ?n) \<le> INT_MAX"
    proof -
      have "int (unat ?n) \<le> 8388608" using b(2) by (simp del: of_nat_unat)
      with byte_sum_bounds(2) [of "flash_mem V ?s" "unat ?d" "unat ?n"] show ?thesis
        by (simp del: of_nat_unat)
    qed
    moreover have "unat ?n < 2 ^ 31" using b(2) by simp
    ultimately show ?thesis
      using flashChecksum_ok [OF okw b(1), of "rq_checksum rq"] 5 by (auto simp: defs)
  next
    case 6
    with okw show ?thesis by (auto simp: defs flashID_def)
  next
    case 7
    with rq okw show ?thesis by (auto simp: defs rq_ok_def)
  qed
qed

section \<open>Initialisation and whole sessions\<close>

record Device =
  Start :: u64
  Length :: u64
  PageSize :: u64

record FlashDevice =
  Ver :: u32
  DevName :: string
  CPU :: string
  FlashID :: int
  FlashType :: string
  TotalSize :: u32
  IsAccDirect :: int
  rangeNumbers :: int
  Devs :: "Device list"

definition FlashDevices :: FlashDevice where
  "FlashDevices = \<lparr>Ver = 6, DevName = ''P25Q64H'', CPU = ''c906'', FlashID = 0x176085,
     FlashType = ''NorFlash'', TotalSize = 8 * 1024 * 1024, IsAccDirect = 0, rangeNumbers = 1,
     Devs = [\<lparr>Start = 0x0, Length = 0x800000, PageSize = 0x1000\<rparr>]\<rparr>"

text \<open>
  The program as loaded, the board on standby: the driver untouched, or torn down after an earlier
  session.
\<close>

definition app_fresh :: "'b chip_view \<Rightarrow> 'b app \<Rightarrow> bool" where
  "app_fresh V s \<longleftrightarrow> standby V (bus (hal_nor (hal s))) \<and> nor_info (hal_nor (hal s)) = None \<and>
     (path (fnext (hal_nor (hal s))) None [] \<or> path (fnext (hal_nor (hal s))) None factory_order) \<and>
     length (g_rwBuffer s) = 8192 \<and> length (g_checksumBuffer s) = CHECKSUM_BUF_LEN"

lemma flashInit_ok:
  assumes brd: "board E V [0x85, 0x60, 0x17]" and cap: "capacity V = 8 * 1024 * 1024"
    and fresh: "app_fresh V s"
  shows "\<exists>s'. flashInit E s = Some (0, s') \<and> app_ok E V s' \<and> flash_mem V s' = flash_mem V s \<and>
    flash_cap s' = 8 * 1024 * 1024 \<and> flash_size (spiflash_info s') = TotalSize FlashDevices \<and>
    ucast (csi_sector_size (spiflash_info s')) = PageSize (hd (Devs FlashDevices)) \<and>
    g_rwBuffer s' = g_rwBuffer s"
proof -
  let ?w = "hal_nor (hal s)"
  have none: "standby V (bus ?w)" "nor_info ?w = None" using fresh by (simp_all add: app_fresh_def)
  have "\<exists>fs. path (fnext ?w) None fs \<and> (fs = [] \<or> hd fs = GD)"
  proof (cases "path (fnext ?w) None []")
    case False
    then have "path (fnext ?w) None factory_order" using fresh by (auto simp: app_fresh_def)
    then show ?thesis by (intro exI [of _ factory_order]) (simp add: factory_order_def)
  qed blast
  then obtain w where w: "nor_init E ?w = Some (0, w)" "scanned PUYA P25Q64H w"
    "quad_enabled V (bus w)" "cell V (bus w) = flash_mem V s" "idle V w"
    using chip_nor_init [OF brd none] by blast
  have sc: "configured w" "nor_info w = Some (P25Q64H\<lparr>info_flag := SUPPORT_GENERAL\<rparr>)"
    "total_size w = SZ_8M" "page_size w = 0x100" "blk_size w = 0x1000"
    using w(2) by (simp_all add: scanned_def P25Q64H_def effective_flag_def)
  let ?i = "(hal_spinor_info (hal s))\<lparr>sector_size := 0x1000, sector_count := 0x800,
      hal_page_size := 0x100, program_unit := 0x100\<rparr>"
  let ?h = "(hal s)\<lparr>hal_nor := w, hal_spinor_info := ?i\<rparr>"
  have info: "hal_spinor_get_info ((hal s)\<lparr>hal_nor := w\<rparr>) = Some (Some ?i, ?h)"
    by (simp add: hal_spinor_get_info_def Let_def sc)
  let ?s = "s\<lparr>hal := ?h, spiflash_info := (spiflash_info s)\<lparr>flash_size := 0x800000,
      csi_sector_size := 0x1000, csi_page_size := 0x100, xip_addr := 0\<rparr>\<rparr>"
  have "flashInit E s = Some (0, ?s)"
    by (simp add: flashInit_def csi_spiflash_qspi_init_def hal_spinor_init_def on_nor_def w(1)
        flash_info_get_def csi_spiflash_get_flash_info_def info)
  moreover have "app_ok E V ?s"
    using fresh sc w(3,5) cap boardD(1) [OF brd]
    by (simp add: app_ok_def hal_ok_def core_ok_def ready_def app_fresh_def obeys_def)
  ultimately show ?thesis
    using w(4) sc(3) by (intro exI [of _ ?s]) (simp add: FlashDevices_def)
qed

lemma flash_session_run:
  assumes brd: "board E V [0x85, 0x60, 0x17]" and cap: "capacity V = 8 * 1024 * 1024"
    and fresh: "app_fresh V s"
  shows "\<forall>rq \<in> set rqs. rq_ok (8 * 1024 * 1024) rq \<Longrightarrow>
    \<exists>v. flash_session E s rqs v \<and> app_ok E V v \<and> flash_cap v = 8 * 1024 * 1024 \<and>
      view_of V v = fold (round_spec (8 * 1024 * 1024)) rqs
        \<lparr>v_mem = flash_mem V s, v_buffer = g_rwBuffer s, v_error = 0\<rparr>"
proof (induction rqs rule: rev_induct)
  case Nil
  obtain s' where "flashInit E s = Some (0, s')" "app_ok E V s'" "flash_mem V s' = flash_mem V s"
    "flash_cap s' = 8 * 1024 * 1024" "g_rwBuffer s' = g_rwBuffer s"
    using flashInit_ok [OF brd cap fresh] by blast
  then show ?case
    by (intro exI [of _ "s'\<lparr>g_error := 0\<rparr>"]) (simp add: flash_session.start view_of_def)
next
  case (snoc rq rqs)
  then obtain u where u: "flash_session E s rqs u" "app_ok E V u" "flash_cap u = 8 * 1024 * 1024"
    "view_of V u = fold (round_spec (8 * 1024 * 1024)) rqs
        \<lparr>v_mem = flash_mem V s, v_buffer = g_rwBuffer s, v_error = 0\<rparr>" by auto
  with flash_dispatch_spec [OF u(2), of rq] snoc.prems
  obtain v where "flash_dispatch E (host_writes rq u) = Some v" "app_ok E V v"
    "flash_cap v = 8 * 1024 * 1024" "view_of V v = round_spec (8 * 1024 * 1024) rq (view_of V u)"
    by auto
  with u show ?case by (auto intro: flash_session.round)
qed

inductive_cases flash_session_NilE: "flash_session E s [] v"
inductive_cases flash_session_snocE: "flash_session E s (rqs @ [rq]) v"

lemma flash_session_det: "flash_session E s rqs u \<Longrightarrow> flash_session E s rqs v \<Longrightarrow> u = v"
proof (induction rqs arbitrary: u v rule: rev_induct)
  case Nil
  then show ?case by (auto elim!: flash_session_NilE)
next
  case (snoc rq rqs)
  from snoc.prems(1) obtain u' where "flash_session E s rqs u'"
    "flash_dispatch E (host_writes rq u') = Some u" by (rule flash_session_snocE) simp
  moreover from snoc.prems(2) obtain v' where "flash_session E s rqs v'"
    "flash_dispatch E (host_writes rq v') = Some v" by (rule flash_session_snocE) simp
  ultimately show ?case using snoc.IH by fastforce
qed

end
