(* ===== verification/Nor_Plan.thy ===== *)
theory Nor_Plan
  imports Nor_Chip
begin

unbundle bit_operations_syntax

text \<open>
  What the loops of \<open>nor_read\<close>, \<open>nor_write\<close> and \<open>nor_erase\<close> do for every controller and chip: the
  list of accesses each is cut into, the shape of that list, and that every call returns.
\<close>

section \<open>Reading and programming by pages\<close>

text \<open>The chunks an access is cut into: address, offset in the buffer and length.\<close>

function chunks :: "u32 \<Rightarrow> nat \<Rightarrow> u32 \<Rightarrow> (u32 \<times> nat \<times> u32) list" where
  "chunks addr off len =
     (if len = 0 then []
      else let n = chunk_len addr len in (addr, off, n) # chunks (addr + n) (off + unat n) (len - n))"
  by pat_completeness auto
termination
  by (relation "measure (\<lambda>(addr, off, len). unat len)") (simp_all add: chunk_rest_less)

declare chunks.simps [simp del]

fun write_chunks :: "'b env \<Rightarrow> u8 list \<Rightarrow> (u32 \<times> nat \<times> u32) list \<Rightarrow> int \<Rightarrow> 'b nor \<Rightarrow> (int \<times> 'b nor) option" where
  "write_chunks E buf [] ret w = Some (ret, w)"
| "write_chunks E buf ((a, off, n) # cs) ret w = do {
     bs \<leftarrow> read_at off (unat n) buf;
     (ret, w) \<leftarrow> nor_write_do E a bs n w;
     if ret \<noteq> 0 then Some (ret, w) else write_chunks E buf cs ret w
   }"

fun read_chunks ::
  "'b env \<Rightarrow> (u32 \<times> nat \<times> u32) list \<Rightarrow> int \<Rightarrow> u8 list \<Rightarrow> 'b nor \<Rightarrow> (int \<times> u8 list \<times> 'b nor) option"
where
  "read_chunks E [] ret buf w = Some (ret, buf, w)"
| "read_chunks E ((a, off, n) # cs) ret buf w = do {
     old \<leftarrow> read_at off (unat n) buf;
     (ret, new, w) \<leftarrow> nor_read_do E a old n w;
     buf \<leftarrow> write_at off new buf;
     if ret \<noteq> 0 then Some (ret, buf, w) else read_chunks E cs ret buf w
   }"

lemma nor_write_loop_chunks:
  "nor_write_loop E ret a buf off len w = write_chunks E buf (chunks a off len) ret w"
proof (induction "unat len" arbitrary: ret a off len w rule: less_induct)
  case less
  show ?case
  proof (cases "len = 0")
    case False
    note rec = less [OF chunk_rest_less [OF False, of a]]
    show ?thesis using False
      by (subst nor_write_loop.simps, subst chunks.simps) (simp add: Let_def rec cong: if_cong)
  qed (simp add: nor_write_loop.simps chunks.simps)
qed

lemma nor_read_loop_chunks:
  "nor_read_loop E ret a buf off len w = read_chunks E (chunks a off len) ret buf w"
proof (induction "unat len" arbitrary: ret a buf off len w rule: less_induct)
  case less
  show ?case
  proof (cases "len = 0")
    case False
    note rec = less [OF chunk_rest_less [OF False, of a]]
    show ?thesis using False
      by (subst nor_read_loop.simps, subst chunks.simps) (simp add: Let_def rec cong: if_cong)
  qed (simp add: nor_read_loop.simps chunks.simps)
qed

text \<open>The chunks tile the access, in order, and none crosses a page.\<close>

fun tiles :: "nat \<Rightarrow> nat \<Rightarrow> (u32 \<times> nat \<times> u32) list \<Rightarrow> nat \<Rightarrow> bool" where
  "tiles a off [] n \<longleftrightarrow> n = 0"
| "tiles a off ((b, o', k) # cs) n \<longleftrightarrow>
     unat b = a \<and> o' = off \<and> k \<noteq> 0 \<and> unat b mod 256 + unat k \<le> 256 \<and> unat k \<le> n \<and>
     tiles (a + unat k) (off + unat k) cs (n - unat k)"

lemma chunks_tile:
  "unat a + unat len < 2 ^ 32 \<Longrightarrow> tiles (unat a) off (chunks a off len) (unat len)"
proof (induction "unat len" arbitrary: a off len rule: less_induct)
  case less
  show ?case
  proof (cases "len = 0")
    case False
    let ?n = "chunk_len a len"
    have n: "unat ?n \<le> unat len" using chunk_len_le [of a len] by (simp add: word_le_nat_alt)
    have a': "unat (a + ?n) = unat a + unat ?n" using less.prems n by (simp add: unat_word_ariths)
    have "tiles (unat (a + ?n)) (off + unat ?n) (chunks (a + ?n) (off + unat ?n) (len - ?n))
        (unat (len - ?n))"
      using less.prems n by (intro less.hyps chunk_rest_less False) (simp add: a' unat_chunk_rest)
    moreover have "?n \<noteq> 0" using chunk_len_pos [OF False, of a] by (auto simp: unat_gt_0)
    moreover have "unat a mod 256 + unat ?n \<le> 256" by (simp add: unat_chunk_len)
    ultimately show ?thesis using False n
      by (subst chunks.simps) (simp add: Let_def a' unat_chunk_rest)
  qed (simp add: chunks.simps)
qed


section \<open>Erasing by blocks\<close>

text \<open>
  The blocks an erase is cut into, and whether they cover all of it: where no erase command fits
  what is left, the code stops with \<open>-EINVAL\<close> after the blocks before it.
\<close>

function erase_plan :: "u32 \<Rightarrow> u32 \<Rightarrow> u32 \<Rightarrow> (u32 \<times> u32) list \<times> bool" where
  "erase_plan flag addr sz =
     (if sz = 0 then ([], True)
      else let u = erase_unit flag addr sz in
        if u = 0 then ([], False)
        else let (bs, ok) = erase_plan flag (addr + u) (sz - u) in ((addr, u) # bs, ok))"
  by pat_completeness auto
termination
proof (relation "measure (\<lambda>(flag, addr, sz). unat sz)", goal_cases)
  case (2 flag addr sz u)
  then have "unat u \<le> unat sz" and "0 < unat u"
    using erase_unit_le [of flag addr sz] by (simp_all add: word_le_nat_alt unat_gt_0)
  then show ?case by (simp add: unat_sub word_le_nat_alt)
qed simp

declare erase_plan.simps [simp del]

fun erase_blocks :: "'b env \<Rightarrow> (u32 \<times> u32) list \<Rightarrow> 'b nor \<Rightarrow> (int \<times> 'b nor) option" where
  "erase_blocks E [] w = Some (0, w)"
| "erase_blocks E ((a, u) # bs) w = do {
     (ret, w) \<leftarrow> nor_erase_unit E u a w;
     if ret \<noteq> 0 then Some (ret, w) else erase_blocks E bs w
   }"

lemma erase_rest_less:
  assumes "sz \<noteq> 0" "erase_unit flag a sz \<noteq> 0"
  shows "unat (sz - erase_unit flag a sz) < unat sz"
    "unat (sz - erase_unit flag a sz) = unat sz - unat (erase_unit flag a sz)"
    "unat (erase_unit flag a sz) \<le> unat sz"
proof -
  have le: "unat (erase_unit flag a sz) \<le> unat sz"
    using erase_unit_le [of flag a sz] by (simp add: word_le_nat_alt)
  have "0 < unat (erase_unit flag a sz)" using assms(2) by (simp only: unat_gt_0) simp
  with le show "unat (sz - erase_unit flag a sz) < unat sz"
    "unat (sz - erase_unit flag a sz) = unat sz - unat (erase_unit flag a sz)"
    "unat (erase_unit flag a sz) \<le> unat sz"
    by (simp_all add: unat_sub word_le_nat_alt)
qed

lemma nor_erase_loop_plan:
  "nor_erase_loop E flag a sz w = do {
     (ret, w) \<leftarrow> erase_blocks E (fst (erase_plan flag a sz)) w;
     if ret \<noteq> 0 then Some (ret, w)
     else Some (if snd (erase_plan flag a sz) then 0 else - EINVAL, w)
   }"
proof (induction "unat sz" arbitrary: a sz w rule: less_induct)
  case less
  consider "sz = 0" | "sz \<noteq> 0" "erase_unit flag a sz = 0" | "sz \<noteq> 0" "erase_unit flag a sz \<noteq> 0"
    by blast
  then show ?case
  proof cases
    case 3
    note rec = less [OF erase_rest_less(1) [OF 3]]
    show ?thesis using 3
      by (cases "nor_erase_unit E (erase_unit flag a sz) a w";
          subst nor_erase_loop.simps, subst (1 2) erase_plan.simps)
        (auto simp: Let_def rec split_beta)
  qed (simp_all add: nor_erase_loop.simps erase_plan.simps Let_def)
qed

fun erase_tiles :: "nat \<Rightarrow> (u32 \<times> u32) list \<Rightarrow> nat \<Rightarrow> bool" where
  "erase_tiles a [] n \<longleftrightarrow> n = 0"
| "erase_tiles a ((b, u) # bs) n \<longleftrightarrow>
     unat b = a \<and> u \<in> {SZ_4K, SZ_32K, SZ_64K} \<and> a mod unat u = 0 \<and> unat u \<le> n \<and>
     erase_tiles (a + unat u) bs (n - unat u)"

lemma erase_plan_complete:
  assumes flag: "flag AND SUPPORT_4K_ERASE_BLK \<noteq> 0"
  shows "unat a mod 4096 = 0 \<Longrightarrow> unat sz mod 4096 = 0 \<Longrightarrow> unat a + unat sz < 2 ^ 32 \<Longrightarrow>
    snd (erase_plan flag a sz) \<and> erase_tiles (unat a) (fst (erase_plan flag a sz)) (unat sz)"
proof (induction "unat sz" arbitrary: a sz rule: less_induct)
  case less
  show ?case
  proof (cases "sz = 0")
    case False
    let ?u = "erase_unit flag a sz"
    have u0: "?u \<noteq> 0" by (rule erase_unit_4k [OF flag less.prems(1,2) False])
    note u = erase_unit_props [OF refl u0] and r = erase_rest_less [OF False u0]
    have a': "unat (a + ?u) = unat a + unat ?u" using less.prems(3) u(3) by (simp add: unat_word_ariths)
    have al: "(unat a + unat ?u) mod 4096 = 0" "(unat sz - unat ?u) mod 4096 = 0"
      using less.prems(1,2) u(3,4) by (auto simp: mod_eq_0_iff_dvd)
    have "snd (erase_plan flag (a + ?u) (sz - ?u)) \<and>
        erase_tiles (unat (a + ?u)) (fst (erase_plan flag (a + ?u) (sz - ?u))) (unat (sz - ?u))"
      using less.prems(3) u(3) al by (intro less.hyps r(1)) (simp_all add: a' r(2))
    then show ?thesis using False u0 u(1,2,3)
      by (subst (1 2) erase_plan.simps) (simp add: Let_def split_beta a' r(2))
  qed (simp add: erase_plan.simps)
qed

section \<open>Every call returns\<close>

text \<open>
  With a controller whose transfers always return, reading, programming and erasing return for
  every chip state, every error and every argument, as long as the buffer is long enough.
\<close>

definition xfer_returns :: "'b env \<Rightarrow> bool" where
  "xfer_returns E \<longleftrightarrow> (\<forall>p tr b. \<exists>r. spi_xfer E p tr b = Some r)"

named_theorems returns \<open>calls that return\<close>

lemma returns_bind2:
  "\<exists>r. m = Some r \<Longrightarrow> (\<And>x y. m = Some (x, y) \<Longrightarrow> \<exists>r. f x y = Some r) \<Longrightarrow>
     \<exists>r. Option.bind m (\<lambda>(x, y). f x y) = Some r"
  by auto

lemma returns_bind3:
  "\<exists>r. m = Some r \<Longrightarrow> (\<And>x y z. m = Some (x, y, z) \<Longrightarrow> \<exists>r. f x y z = Some r) \<Longrightarrow>
     \<exists>r. Option.bind m (\<lambda>(x, y, z). f x y z) = Some r"
  by auto

lemma returns_if: "(c \<Longrightarrow> \<exists>r. m = Some r) \<Longrightarrow> (\<not> c \<Longrightarrow> \<exists>r. n = Some r) \<Longrightarrow> \<exists>r. (if c then m else n) = Some r"
  by auto

lemma returns_Some: "\<exists>r. Some x = Some r"
  by simp

lemmas return_rules = returns_bind2 returns_bind3 returns_if returns_Some

lemma nor_transfer_returns [returns]:
  assumes "xfer_returns E" "t \<noteq> []" "n \<le> length t" "m \<le> length b"
  shows "\<exists>r. nor_transfer E s t n b m w = Some r"
proof -
  obtain r where "spi_xfer E (spim_port w)
      (nor_mode (hd t) \<lparr>tx_data = take n t, tx_single_len = s, rx_len = m, tx_nbits = SPI_NBITS_SINGLE,
         rx_nbits = SPI_NBITS_SINGLE, dummy_byte = 0\<rparr>) (bus w) = Some r"
    using assms(1) unfolding xfer_returns_def by blast
  then show ?thesis using assms(2-) by (cases r) (auto simp: nor_transfer_def read_at_def)
qed

lemma nor_read_status_returns [returns]: "xfer_returns E \<Longrightarrow> \<exists>r. nor_read_status E sr w = Some r"
  unfolding nor_read_status_def by (intro return_rules returns) auto

lemma nor_is_busy_returns [returns]: "xfer_returns E \<Longrightarrow> \<exists>r. nor_is_busy E w = Some r"
  unfolding nor_is_busy_def by (intro return_rules returns) auto

lemma poll_returns [returns]: "xfer_returns E \<Longrightarrow> \<exists>r. poll E pause n w = Some r"
proof (induction n arbitrary: w)
  case (Suc n)
  then show ?case unfolding poll.simps by (intro return_rules returns) auto
next
  case 0
  show ?case unfolding poll.simps by (rule returns_Some)
qed

lemma wait_loops_return [returns]:
  assumes "xfer_returns E"
  shows "\<exists>r. wait_ms_loop E ms w = Some r" "\<exists>r. wait_times_loop E n w = Some r"
proof -
  show "\<exists>r. wait_ms_loop E ms w = Some r"
  proof (cases "ms = 0")
    case True
    show ?thesis unfolding True wait_ms_loop_0 using assms by (intro return_rules returns) auto
  next
    case False
    then show ?thesis unfolding wait_ms_loop_poll [OF False] using assms by (intro returns)
  qed
  show "\<exists>r. wait_times_loop E n w = Some r"
  proof (cases "n = 0")
    case True
    show ?thesis unfolding True wait_times_loop_0 using assms by (intro return_rules returns) auto
  next
    case False
    then show ?thesis unfolding wait_times_loop_poll [OF False] using assms by (intro returns)
  qed
qed

lemma cmds_return [returns]:
  assumes "xfer_returns E"
  shows "\<exists>r. nor_wait_ready E ms n w = Some r" "\<exists>r. nor_send_cmd E cmd w = Some r"
    "\<exists>r. nor_write_enable E w = Some r"
proof -
  show w: "\<exists>r. nor_wait_ready E ms n w = Some r" for ms n w
    unfolding nor_wait_ready_def by (intro return_rules returns assms)
  show c: "\<exists>r. nor_send_cmd E cmd w = Some r" for cmd w
    unfolding nor_send_cmd_def by (intro return_rules returns w assms) auto
  show "\<exists>r. nor_write_enable E w = Some r"
    unfolding nor_write_enable_def by (intro return_rules returns c assms)
qed

lemma nor_erase_unit_returns [returns]:
  assumes "xfer_returns E" shows "\<exists>r. nor_erase_unit E u a w = Some r"
proof -
  have "\<exists>r. nor_erase_do E cmd a w = Some r" for cmd w
    unfolding nor_erase_do_def Let_def by (intro return_rules returns assms) auto
  then show ?thesis
    unfolding nor_erase_unit_def nor_erase_64k_def nor_erase_32k_def nor_erase_4k_def
    by (intro return_rules returns assms)
qed

lemma nor_erase_returns:
  assumes "xfer_returns E" shows "\<exists>r. nor_erase E a sz w = Some r"
proof -
  have b: "\<exists>r. erase_blocks E bs w = Some r" for bs w
  proof (induction bs arbitrary: w)
    case (Cons x bs)
    then show ?case by (cases x) (simp only: erase_blocks.simps, intro return_rules returns assms)
  qed simp
  have "\<exists>r. nor_erase_loop E flag a sz w = Some r" for flag w
    unfolding nor_erase_loop_plan by (intro return_rules b)
  moreover have "\<exists>r. nor_erase_all E w = Some r"
    unfolding nor_erase_all_def by (intro return_rules returns assms)
  ultimately show ?thesis
    unfolding nor_erase_def unlocked_def Let_def by (auto split: option.split intro!: return_rules)
qed

lemma returns_pair: "(\<exists>r. m = Some r) \<Longrightarrow> (\<And>x y. m = Some (x, y) \<Longrightarrow> P) \<Longrightarrow> P"
  by (cases m) auto

lemma nor_write_do_returns:
  assumes E: "xfer_returns E" and bs: "length bs = unat n"
  shows "\<exists>r. nor_write_do E a bs n w = Some r"
proof (cases "n > NOR_PAGE_SIZE")
  case True
  then show ?thesis unfolding nor_write_do_def by simp
next
  case False
  then have n: "min n NOR_PAGE_SIZE = n" "unat n \<le> 256"
    by (simp_all add: min_def word_le_nat_alt word_less_nat_alt)
  obtain ret v where v: "nor_write_enable E w = Some (ret, v)"
    using cmds_return(3) [OF E, of w] by (rule returns_pair)
  let ?hdr = "cmd_write v # addr_bytes v a"
  have hdr: "length ?hdr \<le> 5" by (simp add: addr_bytes_def)
  let ?t = "?hdr @ bs @ drop (length ?hdr + unat n) (replicate 261 0)"
  have t: "write_at 0 (?hdr @ bs) (replicate (256 + 5) 0) = Some ?t"
    using hdr n(2) bs by (simp add: write_at_def)
  have tr: "\<exists>r. nor_transfer E (unat (w_cmd_slen v)) ?t (unat n + length ?hdr) [] 0 v = Some r"
    using hdr n(2) bs by (intro returns E) auto
  have rest: "\<exists>r. (nor_transfer E (unat (w_cmd_slen v)) ?t (unat n + length ?hdr) [] 0 v \<bind>
      (\<lambda>(ret, _, w). if ret \<noteq> 0 then Some (ret, w) else nor_wait_ready E 0 100000 w)) = Some r"
    by (rule returns_bind3 [OF tr], intro return_rules returns E)
  show ?thesis
  proof (cases "ret = 0")
    case True
    then have "nor_write_do E a bs n w =
        (nor_transfer E (unat (w_cmd_slen v)) ?t (unat n + length ?hdr) [] 0 v \<bind>
        (\<lambda>(ret, _, w). if ret \<noteq> 0 then Some (ret, w) else nor_wait_ready E 0 100000 w))"
      using False v t bs by (simp add: nor_write_do_def n read_at_def Let_def)
    with rest show ?thesis by (simp only:)
  next
    case nz: False
    then show ?thesis using False v by (simp add: nor_write_do_def)
  qed
qed

lemma nor_write_returns:
  assumes E: "xfer_returns E" and buf: "unat len \<le> length buf"
  shows "\<exists>r. nor_write E a buf len w = Some r"
proof -
  have l: "off + unat n \<le> length buf \<Longrightarrow> \<exists>r. nor_write_loop E ret a buf off n w = Some r"
    for ret a off n w
  proof (induction "unat n" arbitrary: ret a off n w rule: less_induct)
    case less
    show ?case
    proof (cases "n = 0")
      case False
      let ?k = "chunk_len a n"
      have k: "unat ?k \<le> unat n" using chunk_len_le [of a n] by (simp add: word_le_nat_alt)
      have "\<exists>r. (nor_write_do E a (take (unat ?k) (drop off buf)) ?k w \<bind>
          (\<lambda>(ret, w). if ret \<noteq> 0 then Some (ret, w)
             else nor_write_loop E ret (a + ?k) buf (off + unat ?k) (n - ?k) w)) = Some r"
        using less.prems k
        by (intro return_rules nor_write_do_returns E less.hyps chunk_rest_less False)
          (simp_all add: unat_chunk_rest)
      then show ?thesis using False less.prems k
        by (subst nor_write_loop.simps) (simp add: read_at_def Let_def)
    qed (simp add: nor_write_loop.simps)
  qed
  show ?thesis
    unfolding nor_write_def unlocked_def Let_def using buf
    by (intro return_rules returns E l) simp
qed

lemma nor_read_returns:
  assumes E: "xfer_returns E" and buf: "unat len \<le> length buf"
  shows "\<exists>r. nor_read E a buf len w = Some r"
proof -
  have d: "\<exists>r. nor_read_do E a b n w = Some r" if "length b = unat n" for a b n w
    unfolding nor_read_do_def Let_def using that by (intro return_rules returns E) auto
  have len: "length b' = length b" if "nor_read_do E a b n w = Some (r, b', w')" for a b n w r b' w'
    using that by (auto simp: nor_read_do_def Let_def dest: nor_transfer_length split: if_splits)
  have l: "off + unat n \<le> length buf \<Longrightarrow> \<exists>r. nor_read_loop E ret a buf off n w = Some r"
    for ret a buf off n w
  proof (induction "unat n" arbitrary: ret a buf off n w rule: less_induct)
    case less
    show ?case
    proof (cases "n = 0")
      case False
      let ?k = "chunk_len a n" and ?old = "take (unat (chunk_len a n)) (drop off buf)"
      have k: "unat ?k \<le> unat n" using chunk_len_le [of a n] by (simp add: word_le_nat_alt)
      have lo: "length ?old = unat ?k" using less.prems k by simp
      obtain r where r: "nor_read_do E a ?old ?k w = Some r" using d [OF lo] by blast
      obtain ret' new v where v: "nor_read_do E a ?old ?k w = Some (ret', new, v)"
        using r by (cases r) auto
      have ln: "length new = unat ?k" using len [OF v] lo by simp
      let ?buf = "take off buf @ new @ drop (off + unat ?k) buf"
      have "\<exists>r. nor_read_loop E 0 (a + ?k) ?buf (off + unat ?k) (n - ?k) v = Some r"
        using less.prems k ln
        by (intro less.hyps chunk_rest_less False) (simp add: unat_chunk_rest)
      then show ?thesis using False less.prems k v ln
        by (subst nor_read_loop.simps) (simp add: read_at_def write_at_def Let_def)
    qed (simp add: nor_read_loop.simps)
  qed
  show ?thesis
    unfolding nor_read_def Let_def using buf by (intro return_rules returns E l) simp
qed

section \<open>The caller's buffer\<close>

text \<open>Whatever the controller answers, a read only touches the first \<open>len\<close> bytes.\<close>

lemma nor_read_do_length:
  "nor_read_do E a bs n w = Some (r, bs', w') \<Longrightarrow> length bs' = length bs"
  by (auto simp: nor_read_do_def Let_def dest: nor_transfer_length split: if_splits)

lemma nor_read_loop_buffer:
  "nor_read_loop E ret a buf off len w = Some (r, buf', w') \<Longrightarrow>
   length buf' = length buf \<and> take off buf' = take off buf \<and>
   drop (off + unat len) buf' = drop (off + unat len) buf"
proof (induction "unat len" arbitrary: ret a buf off len w rule: less_induct)
  case less
  show ?case
  proof (cases "len = 0")
    case True
    with less.prems show ?thesis by (simp add: nor_read_loop.simps)
  next
    case False
    let ?n = "chunk_len a len"
    obtain old rt new v b1 where s: "read_at off (unat ?n) buf = Some old"
      "nor_read_do E a old ?n w = Some (rt, new, v)" "write_at off new buf = Some b1"
      "(if rt \<noteq> 0 then Some (rt, b1, v)
        else nor_read_loop E rt (a + ?n) b1 (off + unat ?n) (len - ?n) v) = Some (r, buf', w')"
      using less.prems False by (subst (asm) nor_read_loop.simps) (auto simp: Let_def bind_eq_Some_conv)
    have ln: "length new = unat ?n" using nor_read_do_length [OF s(2)] s(1) by (auto simp: read_at_Some)
    have le: "unat ?n \<le> unat len" using chunk_len_le [of a len] by (simp add: word_le_nat_alt)
    have b1: "length b1 = length buf" "take off b1 = take off buf"
      "drop (off + unat len) b1 = drop (off + unat len) buf"
      using s(3) le ln by (auto simp: write_at_Some add.commute)
    show ?thesis
    proof (cases "rt = 0")
      case False
      with s(4) b1 show ?thesis by simp
    next
      case True
      have e: "off + unat ?n + unat (len - ?n) = off + unat len" using le by (simp add: unat_chunk_rest)
      have s4: "nor_read_loop E rt (a + ?n) b1 (off + unat ?n) (len - ?n) v = Some (r, buf', w')"
        using s(4) True by simp
      have L: "length buf' = length b1 \<and> take (off + unat ?n) buf' = take (off + unat ?n) b1 \<and>
          drop (off + unat len) buf' = drop (off + unat len) b1"
        using less.hyps [OF chunk_rest_less [OF \<open>len \<noteq> 0\<close>] s4] unfolding e .
      have "take off buf' = take off (take (off + unat ?n) buf')" by (simp add: min_def)
      also have "\<dots> = take off b1" using L by (simp add: min_def)
      finally show ?thesis using L b1 by simp
    qed
  qed
qed

lemma nor_read_buffer:
  assumes "nor_read E a buf n w = Some (r, buf', w')"
  shows "length buf' = length buf \<and> drop (unat n) buf' = drop (unat n) buf"
  using assms
  by (auto simp: nor_read_def Let_def bind_eq_Some_conv dest!: nor_read_loop_buffer split: if_splits)

end
