(* ===== verification/Nor_Cache.thy ===== *)
theory Nor_Cache
  imports Flash_Media Nor_Plan
begin

text \<open>
  The write-back cache of one 64K window in front of the driver: spinor/cache.c.

  The static \<open>g_nor_cache\<close> is the record \<open>nor_cache\<close>; the driver's static state is its field
  \<open>c_nor\<close>, so \<open>nc->nor\<close> (the pointer to that state) needs no field of its own. The two bit maps
  are lists of 64-bit words (\<open>unsigned long\<close> on the RV64 target); a null or freed map is \<open>[]\<close>, a
  null buffer \<open>None\<close>, and an access outside a map or the buffer makes the operation \<open>None\<close>.
  \<open>page_size\<close> or \<open>blk_size\<close> 0 (a division by zero in the code) is \<open>None\<close> too.

  The second half proves, for a driver and chip satisfying \<open>core_ok\<close>: a read returns the memory the
  client sees (\<open>seen\<close>: the buffer's bytes where a page is marked, \<open>0xFF\<close> where a block is to be
  erased, the chip elsewhere); a write stores into that memory and an erase of pages not in the
  buffer erases it; and a flush, in whatever order the pages are written, leaves in the chip the
  bytes the client sees wherever those can be programmed (\<open>programmable\<close>: programming only clears
  bits), and empties both maps. \<open>erase_keeps_written_page\<close>
  shows where the code departs from that: an erase leaves the page bits set.
\<close>

unbundle bit_operations_syntax

section \<open>State\<close>

abbreviation (input) CACHE_SIZE :: u32 where "CACHE_SIZE \<equiv> 0x10000"
abbreviation (input) INVALID_CACHE_ADDR :: u32 where "INVALID_CACHE_ADDR \<equiv> 0xFFFFFFFF"

record 'b nor_cache =
  c_nor :: "'b nor"
  c_buf :: "u8 list option"
  c_addr :: u32
  last_write :: u32
  bitmap_page :: "u64 list"
  page_cnt :: u32
  bitmap_blk :: "u64 list"
  blk_cnt :: u32
  lock_nor_cache :: bool

definition cache_lock_init :: "'b env \<Rightarrow> 'b nor_cache \<Rightarrow> int \<times> 'b nor_cache" where
  "cache_lock_init E s =
     (let (sem, w) = hal_sem_create E (c_nor s); s = s\<lparr>c_nor := w, lock_nor_cache := sem\<rparr>
      in if \<not> sem then (-1, s) else (0, s))"

definition nor_cache_lock :: "'b nor_cache \<Rightarrow> int" where
  "nor_cache_lock s = hal_sem_wait (lock_nor_cache s)"

definition nor_cache_trylock :: "'b nor_cache \<Rightarrow> int" where
  "nor_cache_trylock s = 0"

definition nor_cache_unlock :: "'b nor_cache \<Rightarrow> int" where
  "nor_cache_unlock s = hal_sem_post (lock_nor_cache s)"

text \<open>Give the semaphore back and return.\<close>

definition cache_unlocked :: "int \<Rightarrow> 'b nor_cache \<Rightarrow> (int \<times> 'b nor_cache) option" where
  "cache_unlocked ret s = (let _ = nor_cache_unlock s in Some (ret, s))"

section \<open>The buffer\<close>

definition clear_cache :: "'b nor_cache \<Rightarrow> 'b nor_cache option" where
  "clear_cache s = do {
     b \<leftarrow> c_buf s;
     b \<leftarrow> write_at 0 (replicate (unat CACHE_SIZE) 0xFF) b;
     Some (s\<lparr>c_buf := Some b, c_addr := INVALID_CACHE_ADDR\<rparr>)
   }"

definition delete_cache :: "'b nor_cache \<Rightarrow> 'b nor_cache" where
  "delete_cache s = s\<lparr>c_buf := None, c_addr := 0\<rparr>"

text \<open>\<open>mal n\<close> tells whether \<open>malloc (n)\<close> finds memory; the contents are overwritten at once.\<close>

definition init_cache :: "(nat \<Rightarrow> bool) \<Rightarrow> 'b nor_cache \<Rightarrow> (int \<times> 'b nor_cache) option" where
  "init_cache mal s =
     (if \<not> mal (unat CACHE_SIZE) then Some (- ENOMEM, s\<lparr>c_buf := None\<rparr>)
      else do {
        s \<leftarrow> clear_cache (s\<lparr>c_buf := Some (replicate (unat CACHE_SIZE) 0)\<rparr>);
        Some (0, s)
      })"

section \<open>Bit maps\<close>

definition BITS_TO_LONGS :: "u32 \<Rightarrow> nat" where
  "BITS_TO_LONGS n = (unat n + 63) div 64"

definition set_bit64 :: "nat \<Rightarrow> u64 list \<Rightarrow> u64 list option" where
  "set_bit64 n xs = (if n div 64 < length xs
     then Some (xs[n div 64 := xs ! (n div 64) OR push_bit (n mod 64) 1]) else None)"

definition test_bit64 :: "nat \<Rightarrow> u64 list \<Rightarrow> bool option" where
  "test_bit64 n xs = (if n div 64 < length xs
     then Some (push_bit (n mod 64) 1 AND xs ! (n div 64) \<noteq> 0) else None)"

definition clear_bits :: "u32 \<Rightarrow> u64 list \<Rightarrow> u64 list option" where
  "clear_bits n xs = write_at 0 (replicate (BITS_TO_LONGS n) 0) xs"

definition delete_bitmap :: "'b nor_cache \<Rightarrow> 'b nor_cache" where
  "delete_bitmap s = s\<lparr>bitmap_blk := [], bitmap_page := []\<rparr>"

definition init_bitmap :: "(nat \<Rightarrow> bool) \<Rightarrow> 'b nor_cache \<Rightarrow> (int \<times> 'b nor_cache) option" where
  "init_bitmap mal s =
     (if page_size (c_nor s) = 0 then None
      else let s = s\<lparr>page_cnt := CACHE_SIZE div page_size (c_nor s)\<rparr> in
        if \<not> mal (BITS_TO_LONGS (page_cnt s) * 8) then Some (- ENOMEM, s\<lparr>bitmap_page := []\<rparr>)
        else if blk_size (c_nor s) = 0 then None
        else let s = s\<lparr>bitmap_page := replicate (BITS_TO_LONGS (page_cnt s)) 0,
                       blk_cnt := CACHE_SIZE div blk_size (c_nor s)\<rparr>;
                 ok = mal (BITS_TO_LONGS (blk_cnt s) * 8)
          in if blk_cnt s = 0 then Some (- ENOMEM, s\<lparr>bitmap_page := []\<rparr>)
             else if \<not> ok then None
             else Some (0, s\<lparr>bitmap_blk := replicate (BITS_TO_LONGS (blk_cnt s)) 0\<rparr>))"

definition nor_cache_init :: "(nat \<Rightarrow> bool) \<Rightarrow> 'b env \<Rightarrow> 'b nor_cache \<Rightarrow> (int \<times> 'b nor_cache) option" where
  "nor_cache_init mal E s =
     (if c_buf s \<noteq> None then Some (- EBUSY, s)
      else let (ret, s) = cache_lock_init E s in
        if ret \<noteq> 0 then Some (ret, s)
        else do {
          (ret, s) \<leftarrow> init_cache mal s;
          if ret \<noteq> 0 then cache_unlocked ret s
          else do {
            (ret, s) \<leftarrow> init_bitmap mal s;
            if ret \<noteq> 0 then cache_unlocked ret (delete_cache s) else cache_unlocked 0 s
          }
        })"

definition nor_cache_exit :: "'b nor_cache \<Rightarrow> 'b nor_cache" where
  "nor_cache_exit s = delete_bitmap (delete_cache s)"

section \<open>Addresses\<close>

definition check_cache_addr :: "'b nor_cache \<Rightarrow> u32 \<Rightarrow> u32 \<Rightarrow> int" where
  "check_cache_addr s addr len =
     (if c_addr s = INVALID_CACHE_ADDR then -1
      else if ALIGN_DOWN addr CACHE_SIZE \<noteq> c_addr s then -1
      else if ALIGN_DOWN (addr + len - 1) CACHE_SIZE \<noteq> c_addr s then -1 else 0)"

definition set_cache_addr :: "u32 \<Rightarrow> 'b nor_cache \<Rightarrow> 'b nor_cache" where
  "set_cache_addr addr s = s\<lparr>c_addr := ALIGN_DOWN addr CACHE_SIZE\<rparr>"

definition get_addr_by_page :: "u32 \<Rightarrow> 'b nor_cache \<Rightarrow> u32" where
  "get_addr_by_page page s = c_addr s + page * page_size (c_nor s)"

definition get_addr_by_blk :: "u32 \<Rightarrow> 'b nor_cache \<Rightarrow> u32" where
  "get_addr_by_blk blk s = c_addr s + blk * blk_size (c_nor s)"

definition on_cnor :: "('b nor \<Rightarrow> (int \<times> 'b nor) option) \<Rightarrow> 'b nor_cache \<Rightarrow> (int \<times> 'b nor_cache) option" where
  "on_cnor f s = do { (ret, w) \<leftarrow> f (c_nor s); Some (ret, s\<lparr>c_nor := w\<rparr>) }"

section \<open>Flushing\<close>

text \<open>
  The loop over the block bits: a run of marked blocks \<open>[start, stop)\<close> is erased with one call
  when the block after it is not marked. The result carries the final \<open>start\<close> and \<open>stop\<close>.
\<close>

lemma unat_step: "x < n \<Longrightarrow> unat (n - (x + 1)) < unat (n - x :: u32)"
proof -
  assume "x < n"
  then have "unat x < unat n" by (simp add: word_less_nat_alt)
  moreover from this have "unat (x + 1) = unat x + 1"
    using unsigned_less [of n, where ?'a = nat] by (simp add: unat_word_ariths)
  ultimately show ?thesis by (simp add: unat_sub word_le_nat_alt)
qed

function flush_erase_loop ::
  "'b env \<Rightarrow> u32 \<Rightarrow> u32 \<Rightarrow> u32 \<Rightarrow> 'b nor_cache \<Rightarrow> (int \<times> u32 \<times> u32 \<times> 'b nor_cache) option"
where
  "flush_erase_loop E n stop start s =
     (if stop < n then do {
        marked \<leftarrow> test_bit64 (unat stop) (bitmap_blk s);
        if marked then flush_erase_loop E n (stop + 1) start s
        else if start = stop then flush_erase_loop E n (stop + 1) (stop + 1) s
        else do {
          (ret, s) \<leftarrow> on_cnor (nor_erase E (get_addr_by_blk start s)
                         ((stop - start) * blk_size (c_nor s))) s;
          if ret \<noteq> 0 then Some (ret, start, stop, s)
          else flush_erase_loop E n (stop + 1) (stop + 1) s
        }
      }
      else Some (0, start, stop, s))"
  by pat_completeness auto
termination
  by (relation "measure (\<lambda>(E, n, stop, start, s). unat (n - stop))") (simp_all add: unat_step)

declare flush_erase_loop.simps [simp del]

definition nor_flush_erase :: "'b env \<Rightarrow> 'b nor_cache \<Rightarrow> (int \<times> 'b nor_cache) option" where
  "nor_flush_erase E s = do {
     (ret, start, stop, s) \<leftarrow> flush_erase_loop E (blk_cnt s) 0 0 s;
     if ret \<noteq> 0 then Some (ret, s)
     else do {
       (ret, s) \<leftarrow> (if start \<noteq> stop
          then on_cnor (nor_erase E (get_addr_by_blk start s)
                 ((stop - start) * blk_size (c_nor s))) s
          else Some (0, s));
       if ret \<noteq> 0 then Some (ret, s)
       else do {
         bm \<leftarrow> clear_bits (blk_cnt s) (bitmap_blk s);
         Some (0, s\<lparr>bitmap_blk := bm\<rparr>)
       }
     }
   }"

function flush_write_loop ::
  "'b env \<Rightarrow> u32 \<Rightarrow> u32 \<Rightarrow> 'b nor_cache \<Rightarrow> (int \<times> 'b nor_cache) option"
where
  "flush_write_loop E n i s =
     (if i < n then do {
        let page = (i + last_write s + 1) mod n;
        marked \<leftarrow> test_bit64 (unat page) (bitmap_page s);
        if \<not> marked then flush_write_loop E n (i + 1) s
        else do {
          buf \<leftarrow> c_buf s;
          (ret, s) \<leftarrow> on_cnor (nor_write E (get_addr_by_page page s)
                         (drop (unat (page * page_size (c_nor s))) buf) (page_size (c_nor s))) s;
          if ret \<noteq> 0 then Some (ret, s) else flush_write_loop E n (i + 1) s
        }
      }
      else Some (0, s))"
  by pat_completeness auto
termination
  by (relation "measure (\<lambda>(E, n, i, s). unat (n - i))") (simp_all add: unat_step)

declare flush_write_loop.simps [simp del]

definition nor_flush_write :: "'b env \<Rightarrow> 'b nor_cache \<Rightarrow> (int \<times> 'b nor_cache) option" where
  "nor_flush_write E s = do {
     (ret, s) \<leftarrow> flush_write_loop E (page_cnt s) 0 s;
     if ret \<noteq> 0 then Some (ret, s)
     else do {
       bm \<leftarrow> clear_bits (page_cnt s) (bitmap_page s);
       Some (0, s\<lparr>bitmap_page := bm\<rparr>)
     }
   }"

definition nor_flush_cache :: "'b env \<Rightarrow> 'b nor_cache \<Rightarrow> (int \<times> 'b nor_cache) option" where
  "nor_flush_cache E s =
     (if c_addr s = INVALID_CACHE_ADDR then Some (0, s)
      else do {
        (ret, s) \<leftarrow> nor_flush_erase E s;
        if ret \<noteq> 0 then Some (ret, s)
        else do {
          (ret, s) \<leftarrow> nor_flush_write E s;
          if ret \<noteq> 0 then Some (ret, s)
          else do { s \<leftarrow> clear_cache s; Some (0, s) }
        }
      })"

section \<open>The operations\<close>

text \<open>\<open>len > CACHE_SIZE || addr - ALIGN_DOWN (addr, CACHE_SIZE) + len > CACHE_SIZE\<close>\<close>

definition over_cache :: "u32 \<Rightarrow> u32 \<Rightarrow> bool" where
  "over_cache addr len \<longleftrightarrow> len > CACHE_SIZE \<or> addr - ALIGN_DOWN addr CACHE_SIZE + len > CACHE_SIZE"

text \<open>
  The copying loops advance by a page, read from the driver state at each turn; with a page size
  of 0 they would not advance and never end.
\<close>

function cache_write_loop ::
  "u32 \<Rightarrow> u32 \<Rightarrow> u8 list \<Rightarrow> nat \<Rightarrow> nat \<Rightarrow> u32 \<Rightarrow> 'b nor_cache \<Rightarrow> 'b nor_cache option"
where
  "cache_write_loop ps len buf off pbuf page s =
     (if len = 0 then Some s
      else if ps = 0 then None
      else do {
        let sz = min len ps;
        bs \<leftarrow> read_at off (unat sz) buf;
        cb \<leftarrow> c_buf s;
        cb \<leftarrow> write_at pbuf bs cb;
        bm \<leftarrow> set_bit64 (unat page) (bitmap_page s);
        let s = s\<lparr>c_buf := Some cb, bitmap_page := bm, last_write := page\<rparr>;
        cache_write_loop ps (len - sz) buf (off + unat sz) (pbuf + unat sz) (page + 1) s
      })"
  by pat_completeness auto
termination
  by (relation "measure (\<lambda>(ps, len, buf, off, pbuf, page, s). unat len)")
     (simp_all add: min.commute [of _ "_ :: u32"] unat_sub_min word_gt_0)

declare cache_write_loop.simps [simp del]

definition nor_cache_write :: "'b env \<Rightarrow> u32 \<Rightarrow> u8 list \<Rightarrow> u32 \<Rightarrow> 'b nor_cache \<Rightarrow> (int \<times> 'b nor_cache) option" where
  "nor_cache_write E addr buf len s =
     (let ps = page_size (c_nor s) in
      if ps = 0 then None
      else if addr mod ps \<noteq> 0 then Some (- EINVAL, s)
      else if len mod ps \<noteq> 0 then Some (- EINVAL, s)
      else if nor_cache_lock s \<noteq> 0 then Some (nor_cache_lock s, s)
      else if over_cache addr len then do {
        (ret, s) \<leftarrow> nor_flush_cache E s;
        if ret \<noteq> 0 then cache_unlocked ret s
        else do { (ret, s) \<leftarrow> on_cnor (nor_write E addr buf len) s; cache_unlocked ret s }
      }
      else do {
        (ret, s) \<leftarrow> (if check_cache_addr s addr len \<noteq> 0
           then do {
             (ret, s) \<leftarrow> nor_flush_cache E s;
             Some (if ret \<noteq> 0 then (ret, s) else (0, set_cache_addr addr s))
           }
           else Some (0, s));
        if ret \<noteq> 0 then cache_unlocked ret s
        else do {
          let off = addr - c_addr s;
          s \<leftarrow> cache_write_loop ps len buf 0 (unat off) (off div ps) s;
          cache_unlocked 0 s
        }
      })"

function cache_read_loop ::
  "'b env \<Rightarrow> u32 \<Rightarrow> u32 \<Rightarrow> u32 \<Rightarrow> u8 list \<Rightarrow> nat \<Rightarrow> nat \<Rightarrow> u32 \<Rightarrow> 'b nor_cache \<Rightarrow>
     (int \<times> u8 list \<times> 'b nor_cache) option"
where
  "cache_read_loop E ps addr len buf off pbuf page s =
     (if len = 0 then Some (0, buf, s)
      else if ps = 0 then None
      else do {
        let sz = min len ps;
        hit \<leftarrow> test_bit64 (unat page) (bitmap_page s);
        (ret, buf, s) \<leftarrow>
          (if hit then do {
             cb \<leftarrow> c_buf s;
             bs \<leftarrow> read_at pbuf (unat sz) cb;
             buf \<leftarrow> write_at off bs buf;
             Some (0, buf, s)
           }
           else if blk_size (c_nor s) = 0 then None
           else do {
             let blk = (addr - c_addr s) div blk_size (c_nor s);
             erased \<leftarrow> test_bit64 (unat blk) (bitmap_blk s);
             if erased then do {
               buf \<leftarrow> write_at off (replicate (unat sz) 0xFF) buf;
               Some (0, buf, s)
             }
             else do {
               old \<leftarrow> read_at off (unat sz) buf;
               (ret, new, w) \<leftarrow> nor_read E (get_addr_by_page page s) old sz (c_nor s);
               buf \<leftarrow> write_at off new buf;
               Some (ret, buf, s\<lparr>c_nor := w\<rparr>)
             }
           });
        if ret \<noteq> 0 then Some (ret, buf, s)
        else cache_read_loop E ps addr (len - sz) buf (off + unat sz) (pbuf + unat sz) (page + 1) s
      })"
  by pat_completeness auto
termination
  by (relation "measure (\<lambda>(E, ps, addr, len, buf, off, pbuf, page, s). unat len)")
     (simp_all add: min.commute [of _ "_ :: u32"] unat_sub_min word_gt_0)

declare cache_read_loop.simps [simp del]

definition nor_cache_read ::
  "'b env \<Rightarrow> u32 \<Rightarrow> u8 list \<Rightarrow> u32 \<Rightarrow> 'b nor_cache \<Rightarrow> (int \<times> u8 list \<times> 'b nor_cache) option"
where
  "nor_cache_read E addr buf len s =
     (let ps = page_size (c_nor s);
          direct = (\<lambda>s. do {
            (ret, buf, w) \<leftarrow> nor_read E addr buf len (c_nor s);
            let _ = nor_cache_unlock s;
            Some (ret, buf, s\<lparr>c_nor := w\<rparr>)
          }) in
      if ps = 0 then None
      else if addr mod ps \<noteq> 0 then Some (- EINVAL, buf, s)
      else if len mod ps \<noteq> 0 then Some (- EINVAL, buf, s)
      else if nor_cache_lock s \<noteq> 0 then Some (nor_cache_lock s, buf, s)
      else if over_cache addr len then do {
        (ret, s) \<leftarrow> nor_flush_cache E s;
        if ret \<noteq> 0 then Some (ret, buf, s) else direct s
      }
      else if check_cache_addr s addr len \<noteq> 0 then direct s
      else do {
        let off = addr - c_addr s;
        (ret, buf, s) \<leftarrow> cache_read_loop E ps addr len buf 0 (unat off) (off div ps) s;
        let _ = nor_cache_unlock s;
        Some (ret, buf, s)
      })"

definition nor_cache_sync :: "'b env \<Rightarrow> 'b nor_cache \<Rightarrow> (int \<times> 'b nor_cache) option" where
  "nor_cache_sync E s =
     (if nor_cache_trylock s \<noteq> 0 then Some (nor_cache_trylock s, s)
      else do {
        (ret, s) \<leftarrow> nor_flush_cache E s;
        cache_unlocked (if ret \<noteq> 0 then -1 else 0) s
      })"

function cache_erase_loop :: "u32 \<Rightarrow> u32 \<Rightarrow> u32 \<Rightarrow> 'b nor_cache \<Rightarrow> 'b nor_cache option" where
  "cache_erase_loop bs len blk s =
     (if len = 0 then Some s
      else if bs = 0 \<or> len < bs then None
      else do {
        bm \<leftarrow> set_bit64 (unat blk) (bitmap_blk s);
        cache_erase_loop bs (len - bs) (blk + 1) (s\<lparr>bitmap_blk := bm\<rparr>)
      })"
  by pat_completeness auto
termination
proof (relation "measure (\<lambda>(bs, len, blk, s). unat len)", goal_cases)
  case (2 bs len blk s x)
  then have "unat bs \<le> unat len" "0 < unat bs" by (auto simp: word_le_nat_alt not_less unat_gt_0)
  then show ?case by (simp add: unat_sub word_le_nat_alt)
qed simp

declare cache_erase_loop.simps [simp del]

definition nor_cache_erase :: "'b env \<Rightarrow> u32 \<Rightarrow> u32 \<Rightarrow> 'b nor_cache \<Rightarrow> (int \<times> 'b nor_cache) option" where
  "nor_cache_erase E addr len s =
     (let bs = blk_size (c_nor s) in
      if bs = 0 then None
      else if addr mod bs \<noteq> 0 then Some (- EINVAL, s)
      else if len mod bs \<noteq> 0 then Some (- EINVAL, s)
      else if nor_cache_lock s \<noteq> 0 then Some (nor_cache_lock s, s)
      else if over_cache addr len then do {
        (ret, s) \<leftarrow> nor_flush_erase E s;
        if ret \<noteq> 0 then cache_unlocked ret s
        else do { (ret, s) \<leftarrow> on_cnor (nor_erase E addr len) s; cache_unlocked ret s }
      }
      else do {
        (ret, s) \<leftarrow> (if check_cache_addr s addr len \<noteq> 0
           then do {
             (ret, s) \<leftarrow> nor_flush_cache E s;
             Some (if ret \<noteq> 0 then (ret, s) else (0, set_cache_addr addr s))
           }
           else Some (0, s));
        if ret \<noteq> 0 then cache_unlocked ret s
        else do {
          s \<leftarrow> cache_erase_loop bs len ((addr - c_addr s) div bs) s;
          cache_unlocked 0 s
        }
      })"

section \<open>What the driver operations leave alone\<close>

lemma frames_nor_erase_unit [framing]:
  assumes "same_nor w v" shows "frames2 w (nor_erase_unit E u a v)"
proof -
  have "frames2 w (nor_erase_do E cmd a v)" if "same_nor w v" for cmd v
    unfolding nor_erase_do_def Let_def using that by - (assumption | rule framing)+
  then show ?thesis
    unfolding nor_erase_unit_def nor_erase_64k_def nor_erase_32k_def nor_erase_4k_def
    using assms by - (assumption | rule framing)+
qed

lemma frames_nor_erase [framing]:
  assumes "same_nor w v" shows "frames2 w (nor_erase E a n v)"
proof -
  have bl: "frames2 w (erase_blocks E bs v)" if "same_nor w v" for bs v
    using that
  proof (induction bs arbitrary: v)
    case (Cons x bs)
    then show ?case by (cases x) (simp only: erase_blocks.simps, (assumption | rule framing Cons.IH)+)
  qed (simp add: frames_Some)
  have lo: "frames2 w (nor_erase_loop E fl a n v)" if "same_nor w v" for fl v
    unfolding nor_erase_loop_plan using that by - (assumption | rule framing bl)+
  have al: "frames2 w (nor_erase_all E v)" if "same_nor w v" for v
    unfolding nor_erase_all_def using that by - (assumption | rule framing)+
  show ?thesis
    unfolding nor_erase_def unlocked_def Let_def
    using assms by (auto split: option.split intro!: framing al lo)
qed

lemma frames_nor_write [framing]:
  assumes "same_nor w v" shows "frames2 w (nor_write E a buf n v)"
proof -
  have d: "frames2 w (nor_write_do E a bs n v)" if "same_nor w v" for a bs n v
    unfolding nor_write_do_def Let_def using that by - (assumption | rule framing)+
  have c: "frames2 w (write_chunks E buf cs ret v)" if "same_nor w v" for cs ret v
    using that
  proof (induction cs arbitrary: ret v)
    case (Cons x cs)
    obtain a off n where x: "x = (a, off, n)" by (cases x)
    show ?case unfolding x write_chunks.simps using Cons.prems
      by - (assumption | rule framing d Cons.IH)+
  qed (simp add: frames_Some)
  show ?thesis
    unfolding nor_write_def unlocked_def Let_def nor_write_loop_chunks
    using assms by - (assumption | rule framing c)+
qed

lemma frames_nor_read [framing]:
  assumes "same_nor w v" shows "frames3 w (nor_read E a buf n v)"
proof -
  have d: "frames3 w (nor_read_do E a bs n v)" if "same_nor w v" for a bs n v
    unfolding nor_read_do_def Let_def using that by - (assumption | rule framing)+
  have c: "frames3 w (read_chunks E cs ret buf v)" if "same_nor w v" for cs ret buf v
    using that
  proof (induction cs arbitrary: ret buf v)
    case (Cons x cs)
    obtain a off n where x: "x = (a, off, n)" by (cases x)
    show ?case unfolding x read_chunks.simps using Cons.prems
      by - (assumption | rule framing d Cons.IH)+
  qed (simp add: frames_Some)
  show ?thesis
    unfolding nor_read_def Let_def nor_read_loop_chunks
    using assms by - (assumption | rule framing c)+
qed

section \<open>Bit maps as sets\<close>

definition marked :: "u64 list \<Rightarrow> nat \<Rightarrow> bool" where
  "marked xs n \<longleftrightarrow> bit (xs ! (n div 64)) (n mod 64)"

lemma exp_and: "(2 ^ m AND x \<noteq> 0) \<longleftrightarrow> bit (x :: u64) m"
  using and_exp_eq_0_iff_not_bit [of x m] by (simp add: and.commute)

lemma test_bit64_marked: "n < 64 * length xs \<Longrightarrow> test_bit64 n xs = Some (marked xs n)"
  by (simp add: test_bit64_def marked_def exp_and less_mult_imp_div_less mult.commute)

lemma set_bit64_marked:
  assumes "n < 64 * length xs"
  obtains ys where "set_bit64 n xs = Some ys" "length ys = length xs"
    "\<And>k. marked ys k \<longleftrightarrow> k = n \<or> marked xs k"
proof -
  let ?ys = "xs[n div 64 := xs ! (n div 64) OR push_bit (n mod 64) 1]"
  have lt: "n div 64 < length xs" using assms by (simp add: less_mult_imp_div_less mult.commute)
  have "marked ?ys k \<longleftrightarrow> k = n \<or> marked xs k" for k
  proof (cases "k div 64 = n div 64")
    case True
    then have "k = n \<longleftrightarrow> k mod 64 = n mod 64" by (metis div_mult_mod_eq)
    with True lt show ?thesis
      by (auto simp: marked_def bit_or_iff bit_exp_iff possible_bit_word)
  next
    case False
    then show ?thesis by (auto simp: marked_def nth_list_update)
  qed
  with lt that [of ?ys] show ?thesis by (simp add: set_bit64_def)
qed

lemma clear_bits_marked:
  assumes "BITS_TO_LONGS n = length xs"
  shows "clear_bits n xs = Some (replicate (length xs) 0)"
  using assms by (simp add: clear_bits_def write_at_def)

lemma marked_zero: "k < 64 * n \<Longrightarrow> \<not> marked (replicate n 0) k"
  by (simp add: marked_def less_mult_imp_div_less mult.commute)

section \<open>Flushing against the chip\<close>

text \<open>The memory after erasing the marked blocks, or programming the marked pages, of a window.\<close>

definition emark :: "(nat \<Rightarrow> u8) \<Rightarrow> nat \<Rightarrow> (nat \<Rightarrow> bool) \<Rightarrow> nat \<Rightarrow> u8" where
  "emark m base P = (\<lambda>i. if base \<le> i \<and> P ((i - base) div 4096) then 0xFF else m i)"

definition pmark :: "(nat \<Rightarrow> u8) \<Rightarrow> nat \<Rightarrow> u8 list \<Rightarrow> (nat \<Rightarrow> bool) \<Rightarrow> nat \<Rightarrow> u8" where
  "pmark m base buf P = (\<lambda>i. if base \<le> i \<and> P ((i - base) div 256) then m i AND buf ! (i - base) else m i)"

lemma emark_emark: "emark (emark m base P) base Q = emark m base (\<lambda>k. P k \<or> Q k)"
  by (auto simp: emark_def)

lemma pmark_pmark: "pmark (pmark m base buf P) base buf Q = pmark m base buf (\<lambda>k. P k \<or> Q k)"
  by (rule ext) (auto simp: pmark_def and.assoc)

lemma erased_emark: "erased m (base + 4096 * a) (4096 * n) = emark m base (\<lambda>k. a \<le> k \<and> k < a + n)"
proof
  fix i
  have "base + 4096 * a \<le> i \<and> i < base + 4096 * a + 4096 * n \<longleftrightarrow>
      base \<le> i \<and> a \<le> (i - base) div 4096 \<and> (i - base) div 4096 < a + n"
    by (auto simp: div_less_iff_less_mult less_eq_div_iff_mult_less_eq)
  then show "erased m (base + 4096 * a) (4096 * n) i = emark m base (\<lambda>k. a \<le> k \<and> k < a + n) i"
    by (simp add: erased_def emark_def)
qed

lemma programmed_pmark:
  assumes "256 * p + 256 \<le> length buf"
  shows "programmed m (base + 256 * p) (take 256 (drop (256 * p) buf)) = pmark m base buf (\<lambda>k. k = p)"
proof
  fix i
  have A: "base + 256 * p \<le> i \<and> i < base + 256 * p + 256 \<longleftrightarrow> base \<le> i \<and> (i - base) div 256 = p"
  proof (cases "base \<le> i")
    case True
    then obtain j where j: "i = base + j" by (metis le_Suc_ex)
    have "(256 * p \<le> j \<and> j < 256 * p + 256) = (j div 256 = p)"
      using div_less_iff_less_mult [of 256 j "p + 1"] less_eq_div_iff_mult_less_eq [of 256 p j] by auto
    then show ?thesis by (simp add: j)
  qed simp
  have B: "take 256 (drop (256 * p) buf) ! (i - (base + 256 * p)) = buf ! (i - base)"
    if "base + 256 * p \<le> i" "i < base + 256 * p + 256"
    using that assms by simp
  have len: "length (take 256 (drop (256 * p) buf)) = 256" using assms by simp
  show "programmed m (base + 256 * p) (take 256 (drop (256 * p) buf)) i = pmark m base buf (\<lambda>k. k = p) i"
    unfolding programmed_def pmark_def len A using A B by auto
qed

definition cache_ok :: "'b nor_cache \<Rightarrow> bool" where
  "cache_ok s \<longleftrightarrow> (\<exists>b. c_buf s = Some b \<and> length b = 65536) \<and> length (bitmap_page s) = 4 \<and>
     length (bitmap_blk s) = 1 \<and> page_cnt s = 256 \<and> blk_cnt s = 16 \<and>
     page_size (c_nor s) = 256 \<and> blk_size (c_nor s) = 4096"

text \<open>The window is a whole 64K block of the chip.\<close>

definition window_ok :: "'b nor_cache \<Rightarrow> bool" where
  "window_ok s \<longleftrightarrow> unat (c_addr s) mod 65536 = 0 \<and>
     unat (c_addr s) + 65536 \<le> unat (total_size (c_nor s))"

lemma window_bound: "window_ok s \<Longrightarrow> unat (c_addr s) + 65536 < 2 ^ 32"
  using unsigned_less [of "total_size (c_nor s)", where ?'a = nat] by (simp add: window_ok_def)

lemma unat_blk_addr:
  assumes "window_ok s" "blk_size (c_nor s) = 4096" "unat k \<le> 15"
  shows "unat (get_addr_by_blk k s) = unat (c_addr s) + 4096 * unat k"
  using window_bound [OF assms(1)] assms(2,3)
  by (simp add: get_addr_by_blk_def unat_word_ariths)

lemma unat_page_addr:
  assumes "window_ok s" "page_size (c_nor s) = 256" "unat k \<le> 255"
  shows "unat (get_addr_by_page k s) = unat (c_addr s) + 256 * unat k"
  using window_bound [OF assms(1)] assms(2,3)
  by (simp add: get_addr_by_page_def unat_word_ariths)

lemma erase_run:
  assumes ok: "core_ok E V (c_nor s)" "cache_ok s" "window_ok s"
    and r: "unat a < unat b" "unat b \<le> 16"
  shows "\<exists>w. on_cnor (nor_erase E (get_addr_by_blk a s) ((b - a) * blk_size (c_nor s))) s =
      Some (0, s\<lparr>c_nor := w\<rparr>) \<and> core_ok E V w \<and> same_nor (c_nor s) w \<and>
    cell V (bus w) = emark (cell V (bus (c_nor s))) (unat (c_addr s)) (\<lambda>k. unat a \<le> k \<and> k < unat b)"
proof -
  have bs: "blk_size (c_nor s) = 4096" using ok(2) by (simp add: cache_ok_def)
  have ab: "unat (b - a) = unat b - unat a" using r by (simp add: unat_sub word_le_nat_alt)
  have n: "unat ((b - a) * blk_size (c_nor s)) = 4096 * (unat b - unat a)"
    using r unat_word_ariths(2) [of "b - a" "4096 :: u32"] by (simp only: bs ab) simp
  have ad: "unat (get_addr_by_blk a s) = unat (c_addr s) + 4096 * unat a"
    using unat_blk_addr [OF ok(3) bs] r by simp
  have al: "unat (get_addr_by_blk a s) mod 4096 = 0"
    using ok(3) by (auto simp: ad window_ok_def mod_eq_0_iff_dvd elim!: dvdE)
  have fit: "unat (get_addr_by_blk a s) + unat ((b - a) * blk_size (c_nor s)) \<le> unat (total_size (c_nor s))"
  proof -
    have "4096 * unat a + 4096 * (unat b - unat a) = 4096 * unat b"
      using r by (simp flip: distrib_left)
    then show ?thesis using ok(3) r unfolding ad n window_ok_def by linarith
  qed
  obtain w where "nor_erase E (get_addr_by_blk a s) ((b - a) * blk_size (c_nor s)) (c_nor s) = Some (0, w)"
    "core_ok E V w" "same_nor (c_nor s) w"
    "cell V (bus w) = erased (cell V (bus (c_nor s))) (unat (get_addr_by_blk a s)) (unat ((b - a) * blk_size (c_nor s)))"
    using nor_erase_frame [OF ok(1) al _ fit] by (auto simp: n)
  then show ?thesis
    using erased_emark [of _ "unat (c_addr s)" "unat a" "unat b - unat a"] r
    by (auto simp: on_cnor_def ad n)
qed

lemma cache_ok_nor: "cache_ok s \<Longrightarrow> same_nor (c_nor s) w \<Longrightarrow> cache_ok (s\<lparr>c_nor := w\<rparr>)"
  by (simp add: cache_ok_def same_norD)

lemma window_ok_nor: "window_ok s \<Longrightarrow> same_nor (c_nor s) w \<Longrightarrow> window_ok (s\<lparr>c_nor := w\<rparr>)"
  by (simp add: window_ok_def same_norD)

lemma flush_erase_loop_ok:
  "core_ok E V (c_nor s) \<Longrightarrow> cache_ok s \<Longrightarrow> window_ok s \<Longrightarrow> unat start \<le> unat stop \<Longrightarrow> unat stop \<le> 16 \<Longrightarrow>
   \<forall>k. unat start \<le> k \<and> k < unat stop \<longrightarrow> marked (bitmap_blk s) k \<Longrightarrow>
   \<exists>start' w. flush_erase_loop E 16 stop start s = Some (0, start', 16, s\<lparr>c_nor := w\<rparr>) \<and>
     unat start \<le> unat start' \<and> unat start' \<le> 16 \<and> core_ok E V w \<and> same_nor (c_nor s) w \<and>
     (\<forall>k. unat start' \<le> k \<and> k < 16 \<longrightarrow> marked (bitmap_blk s) k) \<and>
     cell V (bus w) = emark (cell V (bus (c_nor s))) (unat (c_addr s))
       (\<lambda>k. unat start \<le> k \<and> k < unat start' \<and> marked (bitmap_blk s) k)"
proof (induction "16 - unat stop" arbitrary: start stop s)
  case 0
  then have "unat stop = 16" by simp
  then have "stop = 16" by (simp add: word_unat_eq_iff)
  with 0 show ?case
    by (subst flush_erase_loop.simps) (auto simp: emark_def fun_eq_iff intro!: exI [of _ start] exI [of _ "c_nor s"])
next
  case (Suc d)
  then have lt: "unat stop < 16" by simp
  then have lt': "stop < 16" by (simp add: word_less_nat_alt)
  have st1: "unat (stop + 1) = unat stop + 1" using lt by (simp add: unat_word_ariths)
  have tb: "test_bit64 (unat stop) (bitmap_blk s) = Some (marked (bitmap_blk s) (unat stop))"
    using Suc.prems(2) lt by (intro test_bit64_marked) (simp add: cache_ok_def)
  have d: "d = 16 - unat (stop + 1)" using Suc.hyps(2) st1 by simp
  have vac: "\<forall>k. unat (stop + 1) \<le> k \<and> k < unat (stop + 1) \<longrightarrow> P k" for P :: "nat \<Rightarrow> bool" by auto
  consider "marked (bitmap_blk s) (unat stop)" | "\<not> marked (bitmap_blk s) (unat stop)" "start = stop"
    | "\<not> marked (bitmap_blk s) (unat stop)" "start \<noteq> stop" by blast
  then show ?case
  proof cases
    case 1
    have "\<forall>k. unat start \<le> k \<and> k < unat (stop + 1) \<longrightarrow> marked (bitmap_blk s) k"
      using Suc.prems(6) 1 by (auto simp: st1 less_Suc_eq)
    from Suc.hyps(1) [OF d Suc.prems(1-3) _ _ this] Suc.prems lt 1 show ?thesis
      by (subst flush_erase_loop.simps) (simp add: lt' tb st1)
  next
    case 2
    obtain start' w where w: "flush_erase_loop E 16 (stop + 1) (stop + 1) s = Some (0, start', 16, s\<lparr>c_nor := w\<rparr>)"
      "unat (stop + 1) \<le> unat start'" "unat start' \<le> 16" "core_ok E V w" "same_nor (c_nor s) w"
      "\<forall>k. unat start' \<le> k \<and> k < 16 \<longrightarrow> marked (bitmap_blk s) k"
      "cell V (bus w) = emark (cell V (bus (c_nor s))) (unat (c_addr s))
         (\<lambda>k. unat (stop + 1) \<le> k \<and> k < unat start' \<and> marked (bitmap_blk s) k)"
      using Suc.hyps(1) [OF d Suc.prems(1-3) _ _ vac] lt st1 by auto
    have "(\<lambda>k. unat (stop + 1) \<le> k \<and> k < unat start' \<and> marked (bitmap_blk s) k) =
        (\<lambda>k. unat start \<le> k \<and> k < unat start' \<and> marked (bitmap_blk s) k)"
      using 2 by (auto simp: st1 fun_eq_iff Suc_le_eq order.order_iff_strict)
    with w 2 st1 show ?thesis
      by (subst flush_erase_loop.simps) (auto simp: lt' tb intro!: exI [of _ start'] exI [of _ w])
  next
    case 3
    then have "unat start < unat stop" using Suc.prems(4) by (metis le_neq_implies_less word_unat_eq_iff)
    then obtain v where v: "on_cnor (nor_erase E (get_addr_by_blk start s)
        ((stop - start) * blk_size (c_nor s))) s = Some (0, s\<lparr>c_nor := v\<rparr>)"
      "core_ok E V v" "same_nor (c_nor s) v"
      "cell V (bus v) = emark (cell V (bus (c_nor s))) (unat (c_addr s)) (\<lambda>k. unat start \<le> k \<and> k < unat stop)"
      using erase_run [OF Suc.prems(1-3)] Suc.prems(5) by blast
    let ?s = "s\<lparr>c_nor := v\<rparr>"
    obtain start' w where w: "flush_erase_loop E 16 (stop + 1) (stop + 1) ?s =
        Some (0, start', 16, ?s\<lparr>c_nor := w\<rparr>)"
      "unat (stop + 1) \<le> unat start'" "unat start' \<le> 16" "core_ok E V w" "same_nor (c_nor ?s) w"
      "\<forall>k. unat start' \<le> k \<and> k < 16 \<longrightarrow> marked (bitmap_blk ?s) k"
      "cell V (bus w) = emark (cell V (bus (c_nor ?s))) (unat (c_addr ?s))
         (\<lambda>k. unat (stop + 1) \<le> k \<and> k < unat start' \<and> marked (bitmap_blk ?s) k)"
      using Suc.hyps(1) [OF d _ cache_ok_nor [OF Suc.prems(2) v(3)]
        window_ok_nor [OF Suc.prems(3) v(3)] _ _ vac] v(2) lt st1 by auto
    have "(\<lambda>k. (unat start \<le> k \<and> k < unat stop) \<or>
          (unat (stop + 1) \<le> k \<and> k < unat start' \<and> marked (bitmap_blk s) k)) =
        (\<lambda>k. unat start \<le> k \<and> k < unat start' \<and> marked (bitmap_blk s) k)"
    proof
      fix k
      consider "k < unat stop" | "k = unat stop" | "unat stop < k" by linarith
      then show "((unat start \<le> k \<and> k < unat stop) \<or>
          (unat (stop + 1) \<le> k \<and> k < unat start' \<and> marked (bitmap_blk s) k)) =
        (unat start \<le> k \<and> k < unat start' \<and> marked (bitmap_blk s) k)"
        using Suc.prems(4,6) w(2) 3 by cases (auto simp: st1)
    qed
    with v w have "cell V (bus w) = emark (cell V (bus (c_nor s))) (unat (c_addr s))
        (\<lambda>k. unat start \<le> k \<and> k < unat start' \<and> marked (bitmap_blk s) k)"
      by (simp add: emark_emark)
    moreover have "flush_erase_loop E 16 stop start s = Some (0, start', 16, s\<lparr>c_nor := w\<rparr>)"
      using v(1) w(1) 3 by (subst flush_erase_loop.simps) (simp add: lt' tb)
    ultimately show ?thesis using v w Suc.prems(4)
      by (intro exI [of _ start'] exI [of _ w]) (auto simp: st1 intro: same_nor_trans)
  qed
qed

lemma write_page:
  assumes ok: "core_ok E V (c_nor s)" "cache_ok s" "window_ok s" "c_buf s = Some b" and p: "unat p < 256"
  shows "\<exists>w. on_cnor (nor_write E (get_addr_by_page p s) (drop (unat (p * page_size (c_nor s))) b)
        (page_size (c_nor s))) s = Some (0, s\<lparr>c_nor := w\<rparr>) \<and> core_ok E V w \<and> same_nor (c_nor s) w \<and>
    cell V (bus w) = pmark (cell V (bus (c_nor s))) (unat (c_addr s)) b (\<lambda>k. k = unat p)"
proof -
  have ps: "page_size (c_nor s) = 256" and lb: "length b = 65536" using ok(2,4) by (auto simp: cache_ok_def)
  have ad: "unat (get_addr_by_page p s) = unat (c_addr s) + 256 * unat p"
    using unat_page_addr [OF ok(3) ps] p by simp
  have off: "unat (p * page_size (c_nor s)) = 256 * unat p"
    using p unat_word_ariths(2) [of p "256 :: u32"] by (simp only: ps) simp
  have "unat (get_addr_by_page p s) + unat (256 :: u32) \<le> unat (total_size (c_nor s))"
    using ok(3) p by (simp add: ad window_ok_def)
  moreover have "256 \<le> length (drop (256 * unat p) b)" using lb p by simp
  ultimately obtain w where "nor_write E (get_addr_by_page p s) (drop (256 * unat p) b) 256 (c_nor s) = Some (0, w)"
    "core_ok E V w" "same_nor (c_nor s) w"
    "cell V (bus w) = programmed (cell V (bus (c_nor s))) (unat (c_addr s) + 256 * unat p)
       (take 256 (drop (256 * unat p) b))"
    using nor_write_frame [OF ok(1), of 256 "get_addr_by_page p s" "drop (256 * unat p) b"]
    by (auto simp: ad)
  with lb p show ?thesis
    by (auto simp: on_cnor_def ps off [unfolded ps] programmed_pmark)
qed

lemma flush_write_loop_ok:
  "core_ok E V (c_nor s) \<Longrightarrow> cache_ok s \<Longrightarrow> window_ok s \<Longrightarrow> c_buf s = Some b \<Longrightarrow> unat i \<le> 256 \<Longrightarrow>
   \<exists>w. flush_write_loop E 256 i s = Some (0, s\<lparr>c_nor := w\<rparr>) \<and> core_ok E V w \<and> same_nor (c_nor s) w \<and>
     cell V (bus w) = pmark (cell V (bus (c_nor s))) (unat (c_addr s)) b
       (\<lambda>p. marked (bitmap_page s) p \<and> (\<exists>j. unat i \<le> j \<and> j < 256 \<and> p = (j + unat (last_write s) + 1) mod 256))"
proof (induction "256 - unat i" arbitrary: i s)
  case 0
  then have "unat i = 256" by simp
  then have "i = 256" by (simp add: word_unat_eq_iff)
  with 0 show ?case
    by (subst flush_write_loop.simps) (auto simp: pmark_def fun_eq_iff intro!: exI [of _ "c_nor s"])
next
  case (Suc d)
  then have lt: "unat i < 256" by simp
  then have lt': "i < 256" by (simp add: word_less_nat_alt)
  have i1: "unat (i + 1) = unat i + 1" using lt by (simp add: unat_word_ariths)
  have d: "d = 256 - unat (i + 1)" using Suc.hyps(2) i1 by simp
  let ?p = "(i + last_write s + 1) mod 256"
  have p: "unat ?p = (unat i + unat (last_write s) + 1) mod 256"
  proof -
    have "unat (i + last_write s + 1) mod 256 = (unat i + unat (last_write s) + 1) mod 256"
      by (simp add: unat_word_ariths mod_mod_cancel mod_simps)
    then show ?thesis by (simp add: unat_mod)
  qed
  have plt: "unat ?p < 256" by (simp add: p)
  have tb: "test_bit64 (unat ?p) (bitmap_page s) = Some (marked (bitmap_page s) (unat ?p))"
    using Suc.prems(2) plt by (intro test_bit64_marked) (simp add: cache_ok_def)
  have split: "(\<exists>j. unat i \<le> j \<and> j < 256 \<and> P j) \<longleftrightarrow> P (unat i) \<or> (\<exists>j. unat (i + 1) \<le> j \<and> j < 256 \<and> P j)" for P
    using lt by (simp only: i1) (metis Suc_eq_plus1 Suc_leD le_antisym le_refl not_less_eq_eq)
  show ?case
  proof (cases "marked (bitmap_page s) (unat ?p)")
    case False
    obtain w where w: "flush_write_loop E 256 (i + 1) s = Some (0, s\<lparr>c_nor := w\<rparr>)" "core_ok E V w"
      "same_nor (c_nor s) w" "cell V (bus w) = pmark (cell V (bus (c_nor s))) (unat (c_addr s)) b
       (\<lambda>p. marked (bitmap_page s) p \<and> (\<exists>j. unat (i + 1) \<le> j \<and> j < 256 \<and> p = (j + unat (last_write s) + 1) mod 256))"
      using Suc.hyps(1) [OF d Suc.prems(1-4)] i1 lt by auto
    have "(\<lambda>p. marked (bitmap_page s) p \<and> (\<exists>j. unat (i + 1) \<le> j \<and> j < 256 \<and> p = (j + unat (last_write s) + 1) mod 256)) =
       (\<lambda>p. marked (bitmap_page s) p \<and> (\<exists>j. unat i \<le> j \<and> j < 256 \<and> p = (j + unat (last_write s) + 1) mod 256))"
    proof (rule ext, goal_cases)
      case (1 q)
      show ?case using False split [of "\<lambda>j. q = (j + unat (last_write s) + 1) mod 256"] p by auto
    qed
    moreover have "flush_write_loop E 256 i s = flush_write_loop E 256 (i + 1) s"
      using False by (subst flush_write_loop.simps) (simp add: lt' Let_def tb)
    ultimately show ?thesis using w by (intro exI [of _ w]) simp
  next
    case True
    obtain v where v: "on_cnor (nor_write E (get_addr_by_page ?p s) (drop (unat (?p * page_size (c_nor s))) b)
        (page_size (c_nor s))) s = Some (0, s\<lparr>c_nor := v\<rparr>)" "core_ok E V v" "same_nor (c_nor s) v"
      "cell V (bus v) = pmark (cell V (bus (c_nor s))) (unat (c_addr s)) b (\<lambda>k. k = unat ?p)"
      using write_page [OF Suc.prems(1-4) plt] by blast
    let ?s = "s\<lparr>c_nor := v\<rparr>"
    obtain w where w: "flush_write_loop E 256 (i + 1) ?s = Some (0, ?s\<lparr>c_nor := w\<rparr>)" "core_ok E V w"
      "same_nor (c_nor ?s) w" "cell V (bus w) = pmark (cell V (bus (c_nor ?s))) (unat (c_addr ?s)) b
       (\<lambda>p. marked (bitmap_page ?s) p \<and> (\<exists>j. unat (i + 1) \<le> j \<and> j < 256 \<and> p = (j + unat (last_write ?s) + 1) mod 256))"
      using Suc.hyps(1) [OF d _ cache_ok_nor [OF Suc.prems(2) v(3)] window_ok_nor [OF Suc.prems(3) v(3)]]
        v(2) Suc.prems(4) i1 lt by auto
    have "(\<lambda>p. p = unat ?p \<or> marked (bitmap_page s) p \<and>
          (\<exists>j. unat (i + 1) \<le> j \<and> j < 256 \<and> p = (j + unat (last_write s) + 1) mod 256)) =
       (\<lambda>p. marked (bitmap_page s) p \<and> (\<exists>j. unat i \<le> j \<and> j < 256 \<and> p = (j + unat (last_write s) + 1) mod 256))"
    proof (rule ext, goal_cases)
      case (1 q)
      show ?case using True split [of "\<lambda>j. q = (j + unat (last_write s) + 1) mod 256"] p by auto
    qed
    with v w have "cell V (bus w) = pmark (cell V (bus (c_nor s))) (unat (c_addr s)) b
       (\<lambda>p. marked (bitmap_page s) p \<and> (\<exists>j. unat i \<le> j \<and> j < 256 \<and> p = (j + unat (last_write s) + 1) mod 256))"
      by (simp add: pmark_pmark)
    moreover have "flush_write_loop E 256 i s = Some (0, s\<lparr>c_nor := w\<rparr>)"
      using v(1) w(1) True Suc.prems(4)
      by (subst flush_write_loop.simps) (simp add: lt' Let_def tb)
    ultimately show ?thesis using v w by (auto intro: same_nor_trans)
  qed
qed

lemma all_pages:
  assumes "p < 256" shows "\<exists>j. j < 256 \<and> p = (j + k + 1) mod (256 :: nat)"
proof -
  let ?r = "(k + 1) mod 256"
  have "(p + (256 - ?r)) mod 256 + k + 1 = (p + (256 - ?r)) mod 256 + (k + 1)" by simp
  then have "((p + (256 - ?r)) mod 256 + k + 1) mod 256 = (p + (256 - ?r) + ?r) mod 256"
    by (simp only: mod_add_left_eq mod_add_right_eq)
  also have "\<dots> = p" using assms by simp
  finally show ?thesis by (intro exI [of _ "(p + (256 - ?r)) mod 256"]) simp
qed

text \<open>The memory once what the cache holds is on the chip.\<close>

definition cache_mem :: "(nat \<Rightarrow> u8) \<Rightarrow> 'b nor_cache \<Rightarrow> nat \<Rightarrow> u8" where
  "cache_mem m s =
     pmark (emark m (unat (c_addr s)) (\<lambda>k. k < 16 \<and> marked (bitmap_blk s) k))
       (unat (c_addr s)) (the (c_buf s)) (\<lambda>p. p < 256 \<and> marked (bitmap_page s) p)"

definition cache_clean :: "'b nor_cache \<Rightarrow> bool" where
  "cache_clean s \<longleftrightarrow> c_addr s = INVALID_CACHE_ADDR \<and> (\<forall>k<16. \<not> marked (bitmap_blk s) k) \<and>
     (\<forall>p<256. \<not> marked (bitmap_page s) p)"

lemma nor_flush_erase_ok:
  assumes "core_ok E V (c_nor s)" "cache_ok s" "window_ok s"
  shows "\<exists>w. nor_flush_erase E s = Some (0, s\<lparr>c_nor := w, bitmap_blk := [0]\<rparr>) \<and>
    core_ok E V w \<and> same_nor (c_nor s) w \<and>
    cell V (bus w) = emark (cell V (bus (c_nor s))) (unat (c_addr s)) (\<lambda>k. k < 16 \<and> marked (bitmap_blk s) k)"
proof -
  obtain start v where v: "flush_erase_loop E 16 0 0 s = Some (0, start, 16, s\<lparr>c_nor := v\<rparr>)"
    "unat start \<le> 16" "core_ok E V v" "same_nor (c_nor s) v"
    "\<forall>k. unat start \<le> k \<and> k < 16 \<longrightarrow> marked (bitmap_blk s) k"
    "cell V (bus v) = emark (cell V (bus (c_nor s))) (unat (c_addr s))
       (\<lambda>k. k < unat start \<and> marked (bitmap_blk s) k)"
    using flush_erase_loop_ok [OF assms, of 0 0] by auto
  let ?s = "s\<lparr>c_nor := v\<rparr>"
  have bc: "blk_cnt s = 16" "length (bitmap_blk s) = 1" using assms(2) by (simp_all add: cache_ok_def)
  have cb: "clear_bits 16 (bitmap_blk s) = Some [0]"
    using clear_bits_marked [of 16 "bitmap_blk s"] bc by (simp add: BITS_TO_LONGS_def)
  show ?thesis
  proof (cases "start = 16")
    case True
    with v bc cb show ?thesis by (auto simp: nor_flush_erase_def intro!: exI [of _ v])
  next
    case False
    then have "unat start \<noteq> unat (16 :: u32)" by (simp add: word_unat_eq_iff)
    with v(2) have "unat start < unat (16 :: u32)" by simp
    from erase_run [OF _ cache_ok_nor [OF assms(2) v(4)] window_ok_nor [OF assms(3) v(4)] this] v(3)
    obtain w where w: "on_cnor (nor_erase E (get_addr_by_blk start ?s) ((16 - start) * blk_size (c_nor ?s))) ?s =
        Some (0, ?s\<lparr>c_nor := w\<rparr>)" "core_ok E V w" "same_nor v w"
      "cell V (bus w) = emark (cell V (bus v)) (unat (c_addr s)) (\<lambda>k. unat start \<le> k \<and> k < 16)"
      by auto
    have "(\<lambda>k. k < unat start \<and> marked (bitmap_blk s) k \<or> unat start \<le> k \<and> k < 16) =
        (\<lambda>k. k < 16 \<and> marked (bitmap_blk s) k)"
      using v(2,5) by (auto simp: fun_eq_iff not_less)
    then have "cell V (bus w) = emark (cell V (bus (c_nor s))) (unat (c_addr s))
        (\<lambda>k. k < 16 \<and> marked (bitmap_blk s) k)"
      using v(6) w(4) by (simp add: emark_emark)
    with v w bc cb False show ?thesis
      by (auto simp: nor_flush_erase_def intro!: exI [of _ w] intro: same_nor_trans)
  qed
qed

lemma four_longs: "replicate 4 (0 :: u64) = [0, 0, 0, 0]"
  by (simp add: numeral_eq_Suc)

lemma nor_flush_write_ok:
  assumes "core_ok E V (c_nor s)" "cache_ok s" "window_ok s" "c_buf s = Some b"
  shows "\<exists>w. nor_flush_write E s = Some (0, s\<lparr>c_nor := w, bitmap_page := [0, 0, 0, 0]\<rparr>) \<and>
    core_ok E V w \<and> same_nor (c_nor s) w \<and>
    cell V (bus w) = pmark (cell V (bus (c_nor s))) (unat (c_addr s)) b (\<lambda>p. p < 256 \<and> marked (bitmap_page s) p)"
proof -
  obtain w where w: "flush_write_loop E 256 0 s = Some (0, s\<lparr>c_nor := w\<rparr>)" "core_ok E V w"
    "same_nor (c_nor s) w" "cell V (bus w) = pmark (cell V (bus (c_nor s))) (unat (c_addr s)) b
       (\<lambda>p. marked (bitmap_page s) p \<and> (\<exists>j. 0 \<le> j \<and> j < 256 \<and> p = (j + unat (last_write s) + 1) mod 256))"
    using flush_write_loop_ok [OF assms, of 0] by auto
  have "(\<lambda>p. marked (bitmap_page s) p \<and> (\<exists>j. 0 \<le> j \<and> j < 256 \<and> p = (j + unat (last_write s) + 1) mod 256)) =
      (\<lambda>p. p < 256 \<and> marked (bitmap_page s) p)"
  proof (rule ext, goal_cases)
    case (1 p)
    show ?case using all_pages [of p "unat (last_write s)"] by auto
  qed
  moreover have pc: "page_cnt s = 256" "length (bitmap_page s) = 4" using assms(2) by (simp_all add: cache_ok_def)
  moreover have "clear_bits 256 (bitmap_page s) = Some [0, 0, 0, 0]"
    using clear_bits_marked [of 256 "bitmap_page s"] pc by (simp add: BITS_TO_LONGS_def four_longs)
  ultimately show ?thesis
    using w by (intro exI [of _ w]) (simp add: nor_flush_write_def)
qed

lemma nor_flush_cache_ok:
  assumes "core_ok E V (c_nor s)" "cache_ok s" "window_ok s"
  shows "\<exists>s'. nor_flush_cache E s = Some (0, s') \<and> core_ok E V (c_nor s') \<and> cache_ok s' \<and> cache_clean s' \<and>
    same_nor (c_nor s) (c_nor s') \<and> cell V (bus (c_nor s')) = cache_mem (cell V (bus (c_nor s))) s"
proof -
  obtain b where b: "c_buf s = Some b" "length b = 65536" using assms(2) by (auto simp: cache_ok_def)
  have inv: "c_addr s \<noteq> INVALID_CACHE_ADDR"
    using window_bound [OF assms(3)] by auto
  obtain v where v: "nor_flush_erase E s = Some (0, s\<lparr>c_nor := v, bitmap_blk := [0]\<rparr>)"
    "core_ok E V v" "same_nor (c_nor s) v"
    "cell V (bus v) = emark (cell V (bus (c_nor s))) (unat (c_addr s)) (\<lambda>k. k < 16 \<and> marked (bitmap_blk s) k)"
    using nor_flush_erase_ok [OF assms] by blast
  let ?s = "s\<lparr>c_nor := v, bitmap_blk := [0]\<rparr>"
  have ok: "cache_ok ?s" "window_ok ?s" "c_buf ?s = Some b" "core_ok E V (c_nor ?s)"
    using assms(2,3) b v(2,3) by (simp_all add: cache_ok_def window_ok_def same_norD [OF v(3)])
  obtain w where w: "nor_flush_write E ?s = Some (0, ?s\<lparr>c_nor := w, bitmap_page := [0, 0, 0, 0]\<rparr>)"
    "core_ok E V w" "same_nor v w"
    "cell V (bus w) = pmark (cell V (bus v)) (unat (c_addr s)) b (\<lambda>p. p < 256 \<and> marked (bitmap_page s) p)"
    using nor_flush_write_ok [OF ok(4,1,2,3)] by auto
  let ?t = "?s\<lparr>c_nor := w, bitmap_page := [0, 0, 0, 0]\<rparr>"
  let ?r = "?t\<lparr>c_buf := Some (replicate 65536 0xFF), c_addr := INVALID_CACHE_ADDR\<rparr>"
  have "clear_cache ?t = Some ?r" using b by (simp add: clear_cache_def write_at_def)
  then have "nor_flush_cache E s = Some (0, ?r)" using inv v(1) w(1) by (simp add: nor_flush_cache_def)
  moreover have "cache_ok ?r"
    using assms(2) by (simp add: cache_ok_def same_norD [OF v(3)] same_norD [OF w(3)])
  moreover have "cache_clean ?r"
    using marked_zero [of _ 1] marked_zero [of _ 4] by (simp add: cache_clean_def four_longs)
  moreover have "same_nor (c_nor s) w" using v(3) w(3) by (rule same_nor_trans)
  ultimately show ?thesis using w(2,4) v(4) b(1) by (intro exI [of _ ?r]) (simp add: cache_mem_def)
qed

section \<open>The copying loops\<close>

lemma cache_write_loop_ok:
  "c_buf s = Some b \<Longrightarrow> length b = 65536 \<Longrightarrow> length (bitmap_page s) = 4 \<Longrightarrow> unat len mod 256 = 0 \<Longrightarrow>
   256 * unat page + unat len \<le> 65536 \<Longrightarrow> off + unat len \<le> length buf \<Longrightarrow>
   \<exists>bm lw. cache_write_loop 256 len buf off (256 * unat page) page s =
       Some (s\<lparr>c_buf := Some (take (256 * unat page) b @ take (unat len) (drop off buf) @
                            drop (256 * unat page + unat len) b),
               bitmap_page := bm, last_write := lw\<rparr>) \<and>
     length bm = 4 \<and>
     (\<forall>k. marked bm k \<longleftrightarrow> marked (bitmap_page s) k \<or> unat page \<le> k \<and> k < unat page + unat len div 256)"
proof (induction "unat len" arbitrary: len off page s b rule: less_induct)
  case less
  show ?case
  proof (cases "len = 0")
    case True
    with less.prems show ?thesis
      by (subst cache_write_loop.simps) (auto intro!: exI [of _ "bitmap_page s"] exI [of _ "last_write s"])
  next
    case False
    then have pos: "0 < unat len" by (simp add: unat_gt_0)
    with less.prems(4) have ge: "256 \<le> unat len" by (auto simp: mod_eq_0_iff_dvd dest: dvd_imp_le)
    then have mn: "min len 256 = 256" by (intro min_absorb2) (simp add: word_le_nat_alt)
    have len': "unat (len - 256) = unat len - 256" using ge by (simp add: unat_sub word_le_nat_alt)
    have plt: "unat page < 256" using less.prems(5) ge by simp
    then have p1: "unat (page + 1) = unat page + 1" by (simp add: unat_word_ariths)
    obtain ys where ys: "set_bit64 (unat page) (bitmap_page s) = Some ys" "length ys = 4"
      "\<And>k. marked ys k \<longleftrightarrow> k = unat page \<or> marked (bitmap_page s) k"
      using set_bit64_marked [of "unat page" "bitmap_page s"] less.prems(3) plt by auto
    let ?bs = "take 256 (drop off buf)"
    let ?b = "take (256 * unat page) b @ ?bs @ drop (256 * unat page + 256) b"
    let ?s = "s\<lparr>c_buf := Some ?b, bitmap_page := ys, last_write := page\<rparr>"
    have lbs: "length ?bs = 256" using less.prems(6) ge by simp
    have wa: "write_at (256 * unat page) ?bs b = Some ?b"
      using less.prems(2,5) ge lbs by (simp add: write_at_def)
    have lb: "length ?b = 65536" using write_at_length [OF wa] less.prems(2) by simp
    have m0: "(unat len - 256) mod 256 = 0" using less.prems(4) ge by (auto simp: mod_eq_0_iff_dvd)
    have h1: "unat (len - 256) < unat len" and h2: "c_buf ?s = Some ?b" and h3: "length (bitmap_page ?s) = 4"
      and h4: "unat (len - 256) mod 256 = 0" and h5: "256 * unat (page + 1) + unat (len - 256) \<le> 65536"
      and h6: "off + 256 + unat (len - 256) \<le> length buf"
      using pos ge len' p1 m0 ys(2) less.prems(5,6) by simp_all
    obtain bm lw where r: "cache_write_loop 256 (len - 256) buf (off + 256) (256 * unat (page + 1)) (page + 1) ?s =
       Some (?s\<lparr>c_buf := Some (take (256 * unat (page + 1)) ?b @ take (unat (len - 256)) (drop (off + 256) buf) @
                            drop (256 * unat (page + 1) + unat (len - 256)) ?b),
               bitmap_page := bm, last_write := lw\<rparr>)" "length bm = 4"
     "\<forall>k. marked bm k \<longleftrightarrow> marked (bitmap_page ?s) k \<or>
        unat (page + 1) \<le> k \<and> k < unat (page + 1) + unat (len - 256) div 256"
      using less.hyps [of "len - 256" ?s ?b "page + 1" "off + 256", OF h1 h2 lb h3 h4 h5 h6] by blast
    have d: "unat len div 256 = (unat len - 256) div 256 + 1" using ge by (simp add: le_div_geq)
    have buf: "take (256 * unat (page + 1)) ?b @ take (unat (len - 256)) (drop (off + 256) buf) @
          drop (256 * unat (page + 1) + unat (len - 256)) ?b =
        take (256 * unat page) b @ take (unat len) (drop off buf) @ drop (256 * unat page + unat len) b"
    proof -
      have "take (256 * unat (page + 1)) ?b = take (256 * unat page) b @ ?bs"
        using less.prems(2,5) ge lbs by (simp add: p1)
      moreover have "drop (256 * unat (page + 1) + unat (len - 256)) ?b = drop (256 * unat page + unat len) b"
      proof -
        have e: "256 * unat (page + 1) + unat (len - 256) = 256 * unat page + unat len" using ge by (simp only: p1 len') simp
        show ?thesis unfolding e using less.prems(2,5) ge lbs by (simp add: add.commute)
      qed
      moreover have "?bs @ take (unat (len - 256)) (drop (off + 256) buf) = take (unat len) (drop off buf)"
        using take_add [of 256 "unat len - 256" "drop off buf"] ge by (simp add: len' add.commute)
      ultimately show ?thesis by simp
    qed
    have mk: "marked bm k \<longleftrightarrow> marked (bitmap_page s) k \<or> unat page \<le> k \<and> k < unat page + unat len div 256" for k
    proof -
      have "marked bm k \<longleftrightarrow> (k = unat page \<or> marked (bitmap_page s) k) \<or>
          unat page + 1 \<le> k \<and> k < unat page + 1 + (unat len - 256) div 256"
        using r(3) ys(3) by (simp add: p1 len')
      then show ?thesis unfolding d by linarith
    qed
    have ra: "read_at off 256 buf = Some ?bs" using less.prems(6) ge by (simp add: read_at_def)
    have e: "256 * unat page + 256 = 256 * unat (page + 1)" using p1 by simp
    have "cache_write_loop 256 len buf off (256 * unat page) page s =
        cache_write_loop 256 (len - 256) buf (off + 256) (256 * unat (page + 1)) (page + 1) ?s"
      using False less.prems(1,6) ge wa ys(1)
      by (subst cache_write_loop.simps) (simp add: mn Let_def ra e)
    then show ?thesis using r(1,2) mk
      by (intro exI [of _ bm] exI [of _ lw]) (simp only: buf, simp)
  qed
qed

lemma cache_read_loop_hit:
  "c_buf s = Some b \<Longrightarrow> length b = 65536 \<Longrightarrow> length (bitmap_page s) = 4 \<Longrightarrow> unat len mod 256 = 0 \<Longrightarrow>
   256 * unat page + unat len \<le> 65536 \<Longrightarrow> off + unat len \<le> length buf \<Longrightarrow>
   \<forall>k. unat page \<le> k \<and> k < unat page + unat len div 256 \<longrightarrow> marked (bitmap_page s) k \<Longrightarrow>
   cache_read_loop E 256 a len buf off (256 * unat page) page s =
     Some (0, take off buf @ take (unat len) (drop (256 * unat page) b) @ drop (off + unat len) buf, s)"
proof (induction "unat len" arbitrary: len off page buf rule: less_induct)
  case less
  show ?case
  proof (cases "len = 0")
    case True
    with less.prems show ?thesis by (subst cache_read_loop.simps) auto
  next
    case False
    then have pos: "0 < unat len" by (simp add: unat_gt_0)
    with less.prems(4) have ge: "256 \<le> unat len" by (auto simp: mod_eq_0_iff_dvd dest: dvd_imp_le)
    then have mn: "min len 256 = 256" by (intro min_absorb2) (simp add: word_le_nat_alt)
    have len': "unat (len - 256) = unat len - 256" using ge by (simp add: unat_sub word_le_nat_alt)
    have plt: "unat page < 256" using less.prems(5) ge by simp
    then have p1: "unat (page + 1) = unat page + 1" by (simp add: unat_word_ariths)
    have d: "unat len div 256 = (unat len - 256) div 256 + 1" using ge by (simp add: le_div_geq)
    have tb: "test_bit64 (unat page) (bitmap_page s) = Some True"
      using less.prems(3,7) plt d by (subst test_bit64_marked) auto
    let ?bs = "take 256 (drop (256 * unat page) b)"
    let ?buf = "take off buf @ ?bs @ drop (off + 256) buf"
    have lbs: "length ?bs = 256" using less.prems(2,5) ge by simp
    have wa: "write_at off ?bs buf = Some ?buf" using less.prems(6) ge lbs by (simp add: write_at_def)
    have lb: "length ?buf = length buf" using write_at_length [OF wa] .
    have m0: "(unat len - 256) mod 256 = 0" using less.prems(4) ge by (auto simp: mod_eq_0_iff_dvd)
    have r: "cache_read_loop E 256 a (len - 256) ?buf (off + 256) (256 * unat (page + 1)) (page + 1) s =
        Some (0, take (off + 256) ?buf @ take (unat (len - 256)) (drop (256 * unat (page + 1)) b) @
          drop (off + 256 + unat (len - 256)) ?buf, s)"
      using less.prems(1-3,5,6,7) m0 ge pos d
      by (intro less.hyps) (auto simp only: len' p1 lb, auto)
    have buf: "take (off + 256) ?buf @ take (unat (len - 256)) (drop (256 * unat (page + 1)) b) @
          drop (off + 256 + unat (len - 256)) ?buf =
        take off buf @ take (unat len) (drop (256 * unat page) b) @ drop (off + unat len) buf"
    proof -
      have "take (off + 256) ?buf = take off buf @ ?bs" using less.prems(6) ge lbs by simp
      moreover have "drop (off + 256 + unat (len - 256)) ?buf = drop (off + unat len) buf"
        using less.prems(6) ge lbs by (simp add: len' add.commute)
      moreover have "?bs @ take (unat (len - 256)) (drop (256 * unat (page + 1)) b) =
          take (unat len) (drop (256 * unat page) b)"
        using take_add [of 256 "unat len - 256" "drop (256 * unat page) b"] ge
        by (simp only: len' p1 drop_drop) (simp add: algebra_simps)
      ultimately show ?thesis by (metis append_assoc)
    qed
    have ra: "read_at (256 * unat page) 256 b = Some ?bs" using less.prems(2,5) ge by (simp add: read_at_def)
    have e: "256 * unat page + 256 = 256 * unat (page + 1)" using p1 by simp
    have "cache_read_loop E 256 a len buf off (256 * unat page) page s =
        cache_read_loop E 256 a (len - 256) ?buf (off + 256) (256 * unat (page + 1)) (page + 1) s"
      using False less.prems(1,2,5) ge wa tb
      by (subst cache_read_loop.simps) (simp add: mn Let_def ra e)
    then show ?thesis using r by (simp only: buf)
  qed
qed

section \<open>What the cache promises\<close>

definition cache_inv :: "'b env \<Rightarrow> 'b chip_view \<Rightarrow> 'b nor_cache \<Rightarrow> bool" where
  "cache_inv E V s \<longleftrightarrow> core_ok E V (c_nor s) \<and> cache_ok s \<and> unat (total_size (c_nor s)) mod 65536 = 0 \<and>
     (cache_clean s \<or> window_ok s)"

text \<open>The memory a client of the cache sees.\<close>

definition cached_mem :: "'b chip_view \<Rightarrow> 'b nor_cache \<Rightarrow> nat \<Rightarrow> u8" where
  "cached_mem V s = (if c_addr s = INVALID_CACHE_ADDR then cell V (bus (c_nor s))
                     else cache_mem (cell V (bus (c_nor s))) s)"

lemma window_valid: "window_ok s \<Longrightarrow> c_addr s \<noteq> INVALID_CACHE_ADDR"
  using window_bound [of s] by auto

lemma flush_inv:
  assumes "cache_inv E V s"
  shows "\<exists>s'. nor_flush_cache E s = Some (0, s') \<and> cache_inv E V s' \<and> cache_clean s' \<and>
    same_nor (c_nor s) (c_nor s') \<and> cached_mem V s' = cached_mem V s"
proof (cases "c_addr s = INVALID_CACHE_ADDR")
  case True
  with assms window_valid [of s] have "cache_clean s" by (auto simp: cache_inv_def)
  with True assms show ?thesis by (auto simp: nor_flush_cache_def)
next
  case False
  with assms have w: "core_ok E V (c_nor s)" "cache_ok s" "window_ok s"
    by (auto simp: cache_inv_def cache_clean_def)
  from nor_flush_cache_ok [OF w] obtain s' where s': "nor_flush_cache E s = Some (0, s')"
    "core_ok E V (c_nor s')" "cache_ok s'" "cache_clean s'" "same_nor (c_nor s) (c_nor s')"
    "cell V (bus (c_nor s')) = cache_mem (cell V (bus (c_nor s))) s" by blast
  with False assms show ?thesis
    by (auto simp: cache_inv_def cached_mem_def cache_clean_def same_norD)
qed

text \<open>
  What a client reads: the buffer where a page is marked, \<open>0xFF\<close> where its block is to be erased,
  and the chip elsewhere. \<open>under\<close> is the chip once the pending erases are done.
\<close>

definition under :: "'b chip_view \<Rightarrow> 'b nor_cache \<Rightarrow> nat \<Rightarrow> u8" where
  "under V s = (if c_addr s = INVALID_CACHE_ADDR then cell V (bus (c_nor s))
     else emark (cell V (bus (c_nor s))) (unat (c_addr s)) (\<lambda>k. k < 16 \<and> marked (bitmap_blk s) k))"

definition in_buffer :: "'b nor_cache \<Rightarrow> nat \<Rightarrow> bool" where
  "in_buffer s i \<longleftrightarrow> c_addr s \<noteq> INVALID_CACHE_ADDR \<and> unat (c_addr s) \<le> i \<and>
     (i - unat (c_addr s)) div 256 < 256 \<and> marked (bitmap_page s) ((i - unat (c_addr s)) div 256)"

definition seen :: "'b chip_view \<Rightarrow> 'b nor_cache \<Rightarrow> nat \<Rightarrow> u8" where
  "seen V s i = (if in_buffer s i then the (c_buf s) ! (i - unat (c_addr s)) else under V s i)"

text \<open>A flush programs the buffer over that chip, and programming only clears bits.\<close>

lemma cached_seen: "cached_mem V s i = under V s i AND seen V s i"
  by (auto simp: cached_mem_def cache_mem_def seen_def under_def in_buffer_def pmark_def)

definition programmable :: "'b chip_view \<Rightarrow> 'b nor_cache \<Rightarrow> bool" where
  "programmable V s \<longleftrightarrow> (\<forall>i. in_buffer s i \<longrightarrow> seen V s i AND under V s i = seen V s i)"

lemma programmable_cached: "programmable V s \<Longrightarrow> cached_mem V s = seen V s"
  by (rule ext) (auto simp: programmable_def cached_seen and.commute seen_def)

lemma seen_nor [simp]:
  "cell V (bus w) = cell V (bus (c_nor s)) \<Longrightarrow> seen V (s\<lparr>c_nor := w\<rparr>) = seen V s"
  by (rule ext) (simp add: seen_def in_buffer_def under_def)

lemma clean_seen:
  assumes "cache_clean s"
  shows "under V s = cell V (bus (c_nor s))" "seen V s = cell V (bus (c_nor s))" "programmable V s"
  using assms by (auto simp: cache_clean_def under_def seen_def in_buffer_def programmable_def)

text \<open>So when everything in the buffer can be programmed, a flush changes nothing for the client.\<close>

lemma flush_seen:
  assumes "cache_inv E V s" "programmable V s"
  shows "\<exists>s'. nor_flush_cache E s = Some (0, s') \<and> cache_inv E V s' \<and> cache_clean s' \<and>
    cell V (bus (c_nor s')) = seen V s \<and> seen V s' = seen V s"
proof -
  obtain s' where s': "nor_flush_cache E s = Some (0, s')" "cache_inv E V s'" "cache_clean s'"
    "cached_mem V s' = cached_mem V s"
    using flush_inv [OF assms(1)] by blast
  then have "cell V (bus (c_nor s')) = seen V s"
    using programmable_cached [OF assms(2)] by (simp add: cached_mem_def cache_clean_def)
  with s' show ?thesis by (auto simp: clean_seen(2))
qed

text \<open>Accesses that stay in one window of 64K.\<close>

lemma ALIGN_64K: "unat (ALIGN_DOWN a 0x10000 :: u32) = unat a - unat a mod 65536"
  using unat_ALIGN_DOWN [of a 16] by simp

lemma over_cache_iff:
  "\<not> over_cache a n \<longleftrightarrow> unat n \<le> 65536 \<and> unat a mod 65536 + unat n \<le> 65536"
proof -
  have "ALIGN_DOWN a CACHE_SIZE \<le> a" by (simp add: word_le_nat_alt ALIGN_64K)
  then have off: "unat (a - ALIGN_DOWN a CACHE_SIZE) = unat a mod 65536"
    by (simp add: unat_sub ALIGN_64K)
  have m: "unat a mod 65536 < 65536" by simp
  show ?thesis
  proof (cases "unat n \<le> 65536")
    case True
    then have "unat (a - ALIGN_DOWN a CACHE_SIZE + n) = unat a mod 65536 + unat n"
      using m by (simp add: unat_word_ariths off)
    with True show ?thesis by (simp add: over_cache_def word_less_nat_alt not_less)
  next
    case False
    then show ?thesis by (simp add: over_cache_def word_less_nat_alt)
  qed
qed

lemma same_window:
  assumes "\<not> over_cache a n" "n \<noteq> 0" "unat a + unat n < 2 ^ 32"
  shows "ALIGN_DOWN (a + n - 1) CACHE_SIZE = ALIGN_DOWN a CACHE_SIZE"
proof -
  have n: "unat a mod 65536 + unat n \<le> 65536" "0 < unat n"
    using assms by (auto simp: over_cache_iff unat_gt_0)
  have "unat (a + n) = unat a + unat n" using assms(3) by (simp add: unat_word_ariths)
  then have e: "unat (a + n - 1) = unat a + (unat n - 1)"
    using n(2) unat_minus_one [of "a + n"] by force
  have "(unat a + (unat n - 1)) mod 65536 = unat a mod 65536 + (unat n - 1)"
  proof -
    have "(unat a + (unat n - 1)) mod 65536 = (unat a mod 65536 + (unat n - 1)) mod 65536"
      by (simp only: mod_add_left_eq)
    then show ?thesis using n by simp
  qed
  then have "unat a + (unat n - 1) - (unat a + (unat n - 1)) mod 65536 = unat a - unat a mod 65536"
    by simp
  then show ?thesis by (simp add: word_unat_eq_iff ALIGN_64K e)
qed

lemma check_cache_addr_zero:
  assumes "check_cache_addr s a n = 0" shows "c_addr s = ALIGN_DOWN a CACHE_SIZE"
  using assms by (auto simp: check_cache_addr_def split: if_splits)

text \<open>The common start of a write and an erase: afterwards the window is that of the address.\<close>

definition cache_open :: "'b env \<Rightarrow> u32 \<Rightarrow> u32 \<Rightarrow> 'b nor_cache \<Rightarrow> (int \<times> 'b nor_cache) option" where
  "cache_open E a n s = (if check_cache_addr s a n \<noteq> 0
     then do {
       (ret, s) \<leftarrow> nor_flush_cache E s;
       Some (if ret \<noteq> 0 then (ret, s) else (0, set_cache_addr a s))
     }
     else Some (0, s))"

lemma cache_mem_no_marks:
  assumes "\<forall>k<16. \<not> marked (bitmap_blk s) k" "\<forall>p<256. \<not> marked (bitmap_page s) p"
  shows "cache_mem m s = m"
  using assms by (auto simp: cache_mem_def pmark_def emark_def fun_eq_iff)

lemma cache_open_ok:
  assumes inv: "cache_inv E V s" and fit: "unat a + unat n \<le> unat (total_size (c_nor s))" "n \<noteq> 0"
  shows "\<exists>s'. cache_open E a n s = Some (0, s') \<and> cache_inv E V s' \<and> window_ok s' \<and>
    c_addr s' = ALIGN_DOWN a CACHE_SIZE \<and> same_nor (c_nor s) (c_nor s') \<and>
    cached_mem V s' = cached_mem V s \<and>
    (check_cache_addr s a n = 0 \<and> s' = s \<or> (\<forall>p<256. \<not> marked (bitmap_page s') p))"
proof -
  have win: "window_ok (u\<lparr>c_addr := ALIGN_DOWN a CACHE_SIZE\<rparr>)"
    if "total_size (c_nor u) = total_size (c_nor s)" for u :: "'a nor_cache"
  proof -
    have "unat a < unat (total_size (c_nor s))" using fit(1) unat_gt_0 [of n] fit(2) by linarith
    moreover obtain t where t: "unat (total_size (c_nor s)) = 65536 * t"
      using inv by (auto simp: cache_inv_def mod_eq_0_iff_dvd elim!: dvdE)
    moreover have d: "unat a - unat a mod 65536 = 65536 * (unat a div 65536)"
      by (simp add: minus_mod_eq_mult_div)
    ultimately have "unat a div 65536 < t" by (simp add: less_mult_imp_div_less mult.commute)
    then have "unat a - unat a mod 65536 + 65536 \<le> unat (total_size (c_nor s))"
      using t d by linarith
    then show ?thesis using that d by (simp add: window_ok_def ALIGN_64K)
  qed
  show ?thesis
  proof (cases "check_cache_addr s a n = 0")
    case True
    then have ca: "c_addr s = ALIGN_DOWN a CACHE_SIZE" by (rule check_cache_addr_zero)
    then have "window_ok s" using win [of s] by (metis nor_cache.surjective nor_cache.update_convs(3))
    with True inv ca show ?thesis by (auto simp: cache_open_def)
  next
    case False
    obtain u where u: "nor_flush_cache E s = Some (0, u)" "cache_inv E V u" "cache_clean u"
      "same_nor (c_nor s) (c_nor u)" "cached_mem V u = cached_mem V s"
      using flush_inv [OF inv] by blast
    let ?t = "set_cache_addr a u"
    have w: "window_ok ?t" unfolding set_cache_addr_def by (rule win) (simp add: same_norD [OF u(4)])
    have nm: "\<forall>k<16. \<not> marked (bitmap_blk u) k" "\<forall>p<256. \<not> marked (bitmap_page u) p"
      using u(3) by (simp_all add: cache_clean_def)
    have "cached_mem V ?t = cached_mem V u"
      using u(3) window_valid [OF w] cache_mem_no_marks [of ?t "cell V (bus (c_nor u))"] nm
      by (simp add: cached_mem_def cache_clean_def set_cache_addr_def)
    moreover have "cache_inv E V ?t" using u(2) w by (simp add: cache_inv_def cache_ok_def set_cache_addr_def)
    ultimately show ?thesis using False u w nm
      by (intro exI [of _ ?t]) (simp add: cache_open_def set_cache_addr_def)
  qed
qed

lemma open_seen:
  assumes "programmable V s" "cached_mem V u = cached_mem V s"
    and "check_cache_addr s a n = 0 \<and> u = s \<or> (\<forall>p<256. \<not> marked (bitmap_page u) p)"
  shows "seen V u = seen V s \<and> programmable V u"
  using assms(3)
proof
  assume m: "\<forall>p<256. \<not> marked (bitmap_page u) p"
  then have b: "\<not> in_buffer u i" for i by (auto simp: in_buffer_def)
  then have "seen V u = under V u" by (auto simp: seen_def)
  then have "cached_mem V u = seen V u" by (auto simp: cached_seen)
  then show ?thesis using programmable_cached [OF assms(1)] assms(2) b by (simp add: programmable_def)
qed (use assms(1) in simp)

text \<open>The first page of an access, and what the client may rely on after a write.\<close>

definition first_page :: "u32 \<Rightarrow> nat" where
  "first_page a = unat a mod 65536 div 256"

definition pages_marked :: "u32 \<Rightarrow> u32 \<Rightarrow> 'b nor_cache \<Rightarrow> bool" where
  "pages_marked a n s \<longleftrightarrow> (\<forall>k\<in>{first_page a..<first_page a + unat n div 256}. marked (bitmap_page s) k)"

definition pages_fresh :: "u32 \<Rightarrow> u32 \<Rightarrow> 'b nor_cache \<Rightarrow> bool" where
  "pages_fresh a n s \<longleftrightarrow> check_cache_addr s a n \<noteq> 0 \<or>
     (\<forall>k\<in>{first_page a..<first_page a + unat n div 256}. \<not> marked (bitmap_page s) k)"

definition cache_holds :: "u32 \<Rightarrow> u32 \<Rightarrow> u8 list \<Rightarrow> 'b nor_cache \<Rightarrow> bool" where
  "cache_holds a n bs s \<longleftrightarrow> c_addr s = ALIGN_DOWN a CACHE_SIZE \<and> pages_marked a n s \<and>
     (\<exists>b. c_buf s = Some b \<and> take (unat n) (drop (unat a mod 65536) b) = bs)"

lemma page_geometry:
  assumes al: "unat a mod 256 = 0" and fit: "\<not> over_cache a n" "n \<noteq> 0"
    and ca: "c_addr s = ALIGN_DOWN a CACHE_SIZE"
  shows "unat (a - c_addr s) = 256 * first_page a" "unat ((a - c_addr s) div 256) = first_page a"
    "unat a mod 65536 = 256 * first_page a" "256 * first_page a + unat n \<le> 65536"
    "unat a = unat (c_addr s) + 256 * first_page a" "first_page a < 256"
proof -
  have m: "unat a mod 65536 mod 256 = 0" using al mod_mod_cancel [of 256 65536 "unat a"] by simp
  then show fp: "unat a mod 65536 = 256 * first_page a" by (auto simp: first_page_def)
  have le: "ALIGN_DOWN a CACHE_SIZE \<le> a" by (simp add: word_le_nat_alt ALIGN_64K)
  then show o: "unat (a - c_addr s) = 256 * first_page a" using mod_less_eq_dividend [of "unat a" 65536] by (simp add: ca unat_sub ALIGN_64K fp)
  then show "unat ((a - c_addr s) div 256) = first_page a" by (simp add: unat_div)
  show "256 * first_page a + unat n \<le> 65536" using fit(1) by (simp add: over_cache_iff fp)
  show "unat a = unat (c_addr s) + 256 * first_page a"
    using mod_less_eq_dividend [of "unat a" 65536] by (simp only: ca ALIGN_64K fp)
  show "first_page a < 256" by (simp add: first_page_def div_less_iff_less_mult)
qed

lemma cache_hit:
  assumes "c_addr s = ALIGN_DOWN a CACHE_SIZE" "c_addr s \<noteq> INVALID_CACHE_ADDR"
    "\<not> over_cache a n" "n \<noteq> 0" "unat a + unat n < 2 ^ 32"
  shows "check_cache_addr s a n = 0"
  using assms same_window [OF assms(3-5)] by (simp add: check_cache_addr_def)

lemma read_hit:
  assumes inv: "cache_inv E V s" and h: "cache_holds a n bs s"
    and al: "unat a mod 256 = 0" "unat n mod 256 = 0"
    and fit: "\<not> over_cache a n" "n \<noteq> 0" "unat a + unat n < 2 ^ 32" "c_addr s \<noteq> INVALID_CACHE_ADDR"
    and buf: "unat n \<le> length buf"
  shows "nor_cache_read E a buf n s = Some (0, bs @ drop (unat n) buf, s)"
proof -
  have ca: "c_addr s = ALIGN_DOWN a CACHE_SIZE" using h by (simp add: cache_holds_def)
  note g = page_geometry [OF al(1) fit(1,2) ca]
  obtain b where b: "c_buf s = Some b" "length b = 65536" "take (unat n) (drop (256 * first_page a) b) = bs"
    using h inv g(3) by (auto simp: cache_holds_def cache_inv_def cache_ok_def)
  have ok: "length (bitmap_page s) = 4" "page_size (c_nor s) = 256"
    using inv by (simp_all add: cache_inv_def cache_ok_def)
  have z: "a mod 256 = 0" "n mod 256 = 0" using al by (simp_all add: word_unat_eq_iff unat_mod)
  have m: "\<forall>k. unat ((a - c_addr s) div 256) \<le> k \<and> k < unat ((a - c_addr s) div 256) + unat n div 256 \<longrightarrow>
      marked (bitmap_page s) k"
    using h unfolding g(2) by (auto simp: cache_holds_def pages_marked_def)
  have "cache_read_loop E 256 a n buf 0 (256 * unat ((a - c_addr s) div 256)) ((a - c_addr s) div 256) s =
     Some (0, take 0 buf @ take (unat n) (drop (256 * unat ((a - c_addr s) div 256)) b) @ drop (0 + unat n) buf, s)"
    using cache_read_loop_hit [OF b(1,2) ok(1) al(2) _ _ m] g(2,4) buf by simp
  then have "cache_read_loop E 256 a n buf 0 (unat (a - c_addr s)) ((a - c_addr s) div 256) s =
     Some (0, bs @ drop (unat n) buf, s)"
    unfolding g(1,2) using b(3) by simp
  then show ?thesis
    using z fit cache_hit [OF ca fit(4,1-3)]
    by (simp add: nor_cache_read_def Let_def ok(2) nor_cache_lock_def hal_sem_wait_def)
qed

lemma cache_read_step:
  assumes ok: "core_ok E V (c_nor s)" "cache_ok s" "window_ok s"
    and p: "unat page < 256" "unat ((a - c_addr s) div 4096) = unat page div 16"
    and len: "off + unat len \<le> length buf" "256 \<le> unat len"
  shows "\<exists>w. cache_read_loop E 256 a len buf off (256 * unat page) page s =
      cache_read_loop E 256 a (len - 256)
        (take off buf @ map (seen V s) [unat (c_addr s) + 256 * unat page ..< unat (c_addr s) + 256 * unat page + 256]
          @ drop (off + 256) buf) (off + 256) (256 * unat page + 256) (page + 1) (s\<lparr>c_nor := w\<rparr>) \<and>
    core_ok E V w \<and> same_nor (c_nor s) w \<and> cell V (bus w) = cell V (bus (c_nor s))"
proof -
  let ?base = "unat (c_addr s)" and ?p = "unat page"
  let ?bs = "map (seen V s) [?base + 256 * ?p ..< ?base + 256 * ?p + 256]"
  let ?buf = "take off buf @ ?bs @ drop (off + 256) buf"
  obtain b where b: "c_buf s = Some b" "length b = 65536" using ok(2) by (auto simp: cache_ok_def)
  have bl: "length (bitmap_page s) = 4" "length (bitmap_blk s) = 1" "page_size (c_nor s) = 256" "blk_size (c_nor s) = 4096"
    using ok(2) by (simp_all add: cache_ok_def)
  have v: "c_addr s \<noteq> INVALID_CACHE_ADDR" using ok(3) by (rule window_valid)
  have mn: "min len 256 = 256" using len(2) by (intro min_absorb2) (simp add: word_le_nat_alt)
  have nz: "len \<noteq> 0" using len(2) by auto
  have tb: "test_bit64 ?p (bitmap_page s) = Some (marked (bitmap_page s) ?p)"
    using p(1) bl(1) by (intro test_bit64_marked) simp
  have te: "test_bit64 (?p div 16) (bitmap_blk s) = Some (marked (bitmap_blk s) (?p div 16))"
    using p(1) bl(2) by (intro test_bit64_marked) simp
  have pg: "(?base + 256 * ?p + j - ?base) div 256 = ?p" "(?base + 256 * ?p + j - ?base) div 4096 = ?p div 16"
    if "j < 256" for j
    using that by (simp_all add: div_mult2_eq [of _ 256 16, simplified])
  have p16: "?p div 16 < 16" using p(1) by simp
  have sb: "seen V s (?base + 256 * ?p + j) = (if marked (bitmap_page s) ?p then b ! (256 * ?p + j)
      else if marked (bitmap_blk s) (?p div 16) then 0xFF else cell V (bus (c_nor s)) (?base + 256 * ?p + j))"
    if "j < 256" for j
    using pg [OF that] p16 p(1) v b(1) by (simp add: seen_def in_buffer_def under_def emark_def)
  have wa: "write_at off ?bs buf = Some ?buf" using len by (simp add: write_at_def)
  consider "marked (bitmap_page s) ?p" | "\<not> marked (bitmap_page s) ?p" "marked (bitmap_blk s) (?p div 16)"
    | "\<not> marked (bitmap_page s) ?p" "\<not> marked (bitmap_blk s) (?p div 16)" by blast
  then show ?thesis
  proof cases
    case 1
    have "?bs = take 256 (drop (256 * ?p) b)"
      using sb b(2) p(1) 1 by (intro nth_equalityI) auto
    moreover have "read_at (256 * ?p) 256 b = Some (take 256 (drop (256 * ?p) b))"
      using b(2) p(1) by (simp add: read_at_def)
    ultimately show ?thesis
      using 1 ok(1) wa nz b(1)
      by (intro exI [of _ "c_nor s"], subst cache_read_loop.simps) (simp add: mn Let_def tb)
  next
    case 2
    have "?bs = replicate 256 0xFF" using sb 2 by (intro nth_equalityI) auto
    then show ?thesis
      using 2 ok(1) wa nz
      by (intro exI [of _ "c_nor s"], subst cache_read_loop.simps) (simp add: mn Let_def tb te bl p(2))
  next
    case 3
    have ad: "unat (get_addr_by_page page s) = ?base + 256 * ?p"
      using unat_page_addr [OF ok(3) bl(3)] p(1) by simp
    have fit: "unat (get_addr_by_page page s) + unat (256 :: u32) \<le> unat (total_size (c_nor s))"
      using ok(3) p(1) by (simp add: ad window_ok_def)
    obtain w where w: "nor_read E (get_addr_by_page page s) (take 256 (drop off buf)) 256 (c_nor s) =
        Some (0, map (cell V (bus (c_nor s))) [?base + 256 * ?p ..< ?base + 256 * ?p + 256], w)"
      "core_ok E V w" "same_nor (c_nor s) w" "cell V (bus w) = cell V (bus (c_nor s))"
      using nor_read_frame [OF ok(1) _ fit, of "take 256 (drop off buf)"] len by (auto simp: ad)
    let ?cs = "map (cell V (bus (c_nor s))) [?base + 256 * ?p ..< ?base + 256 * ?p + 256]"
    have bs: "?bs = ?cs"
      using sb 3 by (intro nth_equalityI) auto
    have wc: "write_at off ?cs buf = Some ?buf" using wa by (simp only: bs)
    have ra: "read_at off 256 buf = Some (take 256 (drop off buf))" using len by (simp add: read_at_def)
    show ?thesis
      using 3 w(1) wc nz
      by (intro exI [of _ w] conjI w(2-4), subst cache_read_loop.simps)
        (simp add: mn Let_def tb te bl p(2) ra del: map_eq_conv)
  qed
qed

lemma cache_read_loop_seen:
  "core_ok E V (c_nor s) \<Longrightarrow> cache_ok s \<Longrightarrow> window_ok s \<Longrightarrow> unat len mod 256 = 0 \<Longrightarrow>
   256 * unat page + unat len \<le> 65536 \<Longrightarrow> off + unat len \<le> length buf \<Longrightarrow>
   \<forall>k. unat page \<le> k \<and> k < unat page + unat len div 256 \<longrightarrow> unat ((a - c_addr s) div 4096) = k div 16 \<Longrightarrow>
   \<exists>w. cache_read_loop E 256 a len buf off (256 * unat page) page s =
      Some (0, take off buf @ map (seen V s) [unat (c_addr s) + 256 * unat page ..< unat (c_addr s) + 256 * unat page + unat len]
          @ drop (off + unat len) buf, s\<lparr>c_nor := w\<rparr>) \<and>
    core_ok E V w \<and> same_nor (c_nor s) w \<and> cell V (bus w) = cell V (bus (c_nor s))"
proof (induction "unat len" arbitrary: len off page buf s rule: less_induct)
  case less
  show ?case
  proof (cases "len = 0")
    case True
    with less.prems(1) show ?thesis by (subst cache_read_loop.simps) (auto intro!: exI [of _ "c_nor s"])
  next
    case False
    then have pos: "0 < unat len" by (simp add: unat_gt_0)
    with less.prems(4) have ge: "256 \<le> unat len" by (auto simp: mod_eq_0_iff_dvd dest: dvd_imp_le)
    have len': "unat (len - 256) = unat len - 256" using ge by (simp add: unat_sub word_le_nat_alt)
    have plt: "unat page < 256" using less.prems(5) ge by simp
    then have p1: "unat (page + 1) = unat page + 1" by (simp add: unat_word_ariths)
    have d: "unat len div 256 = (unat len - 256) div 256 + 1" using ge by (simp add: le_div_geq)
    let ?base = "unat (c_addr s) + 256 * unat page"
    let ?bs = "map (seen V s) [?base ..< ?base + 256]"
    let ?buf = "take off buf @ ?bs @ drop (off + 256) buf"
    have blk: "unat ((a - c_addr s) div 4096) = unat page div 16" using less.prems(7) d by simp
    obtain w where w: "cache_read_loop E 256 a len buf off (256 * unat page) page s =
        cache_read_loop E 256 a (len - 256) ?buf (off + 256) (256 * unat page + 256) (page + 1) (s\<lparr>c_nor := w\<rparr>)"
      "core_ok E V w" "same_nor (c_nor s) w" "cell V (bus w) = cell V (bus (c_nor s))"
      using cache_read_step [OF less.prems(1-3) plt blk less.prems(6) ge] by blast
    let ?s = "s\<lparr>c_nor := w\<rparr>"
    have lb: "length ?buf = length buf" using less.prems(6) ge by simp
    have m0: "unat (len - 256) mod 256 = 0" using less.prems(4) ge by (auto simp: len' mod_eq_0_iff_dvd)
    have ih: "\<exists>v. cache_read_loop E 256 a (len - 256) ?buf (off + 256) (256 * unat (page + 1)) (page + 1) ?s =
      Some (0, take (off + 256) ?buf @ map (seen V ?s) [unat (c_addr ?s) + 256 * unat (page + 1) ..< unat (c_addr ?s) + 256 * unat (page + 1) + unat (len - 256)]
          @ drop (off + 256 + unat (len - 256)) ?buf, ?s\<lparr>c_nor := v\<rparr>) \<and>
        core_ok E V v \<and> same_nor (c_nor ?s) v \<and> cell V (bus v) = cell V (bus (c_nor ?s))"
    proof (rule less.hyps)
      show "unat (len - 256) < unat len" using ge by (simp add: len')
      show "core_ok E V (c_nor ?s)" "cache_ok ?s" "window_ok ?s" "unat (len - 256) mod 256 = 0"
        using w(2) m0 cache_ok_nor [OF less.prems(2) w(3)] window_ok_nor [OF less.prems(3) w(3)] by simp_all
      show "256 * unat (page + 1) + unat (len - 256) \<le> 65536" "off + 256 + unat (len - 256) \<le> length ?buf"
        using less.prems(5,6) ge by (simp_all only: p1 len' lb) simp_all
      show "\<forall>k. unat (page + 1) \<le> k \<and> k < unat (page + 1) + unat (len - 256) div 256 \<longrightarrow>
          unat ((a - c_addr ?s) div 4096) = k div 16"
        using less.prems(7) d by (simp add: p1 len')
    qed
    have e: "256 * unat (page + 1) = 256 * unat page + 256" "c_addr ?s = c_addr s" "c_nor ?s = w" "seen V ?s = seen V s"
      "?s\<lparr>c_nor := v\<rparr> = s\<lparr>c_nor := v\<rparr>" "unat (c_addr s) + (256 * unat page + 256) = ?base + 256"
      "?base + 256 + unat (len - 256) = ?base + unat len" "off + 256 + unat (len - 256) = off + unat len" for v
      using w(4) ge by (simp_all add: p1 len')
    obtain v where v: "cache_read_loop E 256 a (len - 256) ?buf (off + 256) (256 * unat (page + 1)) (page + 1) ?s =
      Some (0, take (off + 256) ?buf @ map (seen V s) [?base + 256 ..< ?base + unat len]
          @ drop (off + unat len) ?buf, s\<lparr>c_nor := v\<rparr>)"
        "core_ok E V v" "same_nor w v" "cell V (bus v) = cell V (bus (c_nor s))"
      using ih unfolding e w(4) by blast
    have buf: "take (off + 256) ?buf @ map (seen V s) [?base + 256 ..< ?base + unat len] @ drop (off + unat len) ?buf =
        take off buf @ map (seen V s) [?base ..< ?base + unat len] @ drop (off + unat len) buf"
    proof -
      have "[?base ..< ?base + unat len] = [?base ..< ?base + 256] @ [?base + 256 ..< ?base + unat len]"
        using upt_add_eq_append [of ?base "?base + 256" "unat len - 256"] ge by (simp add: add.assoc)
      then show ?thesis using less.prems(6) ge by (simp add: add.commute)
    qed
    have "cache_read_loop E 256 a len buf off (256 * unat page) page s =
      Some (0, take off buf @ map (seen V s) [?base ..< ?base + unat len] @ drop (off + unat len) buf, s\<lparr>c_nor := v\<rparr>)"
      using v(1) by (simp only: w(1) buf p1 distrib_left mult_1_right)
    then show ?thesis using v(2,4) same_nor_trans [OF w(3) v(3)] by blast
  qed
qed

lemma in_window:
  assumes "window_ok s" "unat a \<le> i" "i < unat a + (4096 - unat a mod 4096)"
    "unat (c_addr s) \<le> i" "i < unat (c_addr s) + 65536"
  shows "c_addr s = ALIGN_DOWN a CACHE_SIZE"
proof -
  obtain t where t: "unat (c_addr s) = 65536 * t" using assms(1) by (auto simp: window_ok_def mod_eq_0_iff_dvd)
  have q: "unat a mod 65536 mod 4096 = unat a mod 4096" by (rule mod_mod_cancel) simp
  have "unat a mod 65536 + (4096 - unat a mod 4096) \<le> 65536"
  proof -
    define x where "x = unat a mod 65536"
    have x: "x < 65536" "x mod 4096 = unat a mod 4096" using q by (simp_all add: x_def)
    have "x = 4096 * (x div 4096) + x mod 4096" by simp
    moreover have "x div 4096 \<le> 15" using x(1) by (simp add: less_mult_imp_div_less [of x 16 4096, simplified] flip: less_Suc_eq_le)
    ultimately show ?thesis unfolding x_def [symmetric] x(2) [symmetric] by linarith
  qed
  moreover have "unat a = 65536 * (unat a div 65536) + unat a mod 65536" by simp
  ultimately have "65536 * (unat a div 65536) \<le> i" "i < 65536 * Suc (unat a div 65536)"
    using assms(2,3) unfolding mult_Suc_right by linarith+
  then have "i div 65536 = unat a div 65536" by (rule div_nat_eqI)
  moreover have "i div 65536 = t" using assms(4,5) t by (intro div_nat_eqI) simp_all
  ultimately have "unat (c_addr s) = unat a - unat a mod 65536" by (simp add: t minus_mod_eq_mult_div)
  then show ?thesis by (simp add: word_unat_eq_iff ALIGN_64K)
qed

text \<open>A read inside one block, whether it is served by the buffer or by the chip, returns that memory.\<close>

lemma cache_read_ok:
  assumes inv: "cache_inv E V s" and al: "unat a mod 256 = 0" "unat n mod 256 = 0" "n \<noteq> 0"
    and blk: "unat a mod 4096 + unat n \<le> 4096" and fit: "unat a + unat n \<le> unat (total_size (c_nor s))"
    and buf: "unat n \<le> length buf"
  shows "\<exists>w. nor_cache_read E a buf n s =
      Some (0, map (seen V s) [unat a ..< unat a + unat n] @ drop (unat n) buf, s\<lparr>c_nor := w\<rparr>) \<and>
    core_ok E V w \<and> same_nor (c_nor s) w \<and> cell V (bus w) = cell V (bus (c_nor s))"
proof -
  have ok: "core_ok E V (c_nor s)" "cache_ok s" "page_size (c_nor s) = 256" "blk_size (c_nor s) = 4096"
    using inv by (simp_all add: cache_inv_def cache_ok_def)
  have z: "a mod 256 = 0" "n mod 256 = 0" using al by (simp_all add: word_unat_eq_iff unat_mod)
  have lt: "unat a + unat n < 2 ^ 32"
    using fit unsigned_less [of "total_size (c_nor s)", where ?'a = nat] by simp
  have "unat a mod 65536 mod 4096 = unat a mod 4096" by (rule mod_mod_cancel) simp
  then have "unat a mod 65536 = 4096 * (unat a mod 65536 div 4096) + unat a mod 4096"
    by (metis mult_div_mod_eq)
  moreover have "unat a mod 65536 div 4096 \<le> 15"
    by (simp add: less_mult_imp_div_less [of _ 16 4096, simplified] flip: less_Suc_eq_le)
  ultimately have over: "\<not> over_cache a n" using blk by (simp add: over_cache_iff)
  show ?thesis
  proof (cases "check_cache_addr s a n = 0")
    case True
    then have ca: "c_addr s = ALIGN_DOWN a CACHE_SIZE" by (rule check_cache_addr_zero)
    have "c_addr s \<noteq> INVALID_CACHE_ADDR" using True by (auto simp: check_cache_addr_def)
    then have win: "window_ok s" using inv by (auto simp: cache_inv_def cache_clean_def)
    note g = page_geometry [OF al(1) over al(3) ca]
    have d: "unat ((a - c_addr s) div 4096) = first_page a div 16"
      by (simp add: unat_div g(1) div_mult2_eq [of _ 256 16, simplified])
    have fb: "first_page a mod 16 + unat n div 256 \<le> 16"
    proof -
      have "256 * (first_page a mod 16) = unat a mod 4096"
        using mod_mult_mult1 [of 256 "first_page a" 16] g(3) mod_mod_cancel [of 4096 65536 "unat a"] by simp
      then show ?thesis using blk by linarith
    qed
    have bl: "\<forall>k. unat ((a - c_addr s) div 256) \<le> k \<and> k < unat ((a - c_addr s) div 256) + unat n div 256 \<longrightarrow>
        unat ((a - c_addr s) div 4096) = k div 16"
    proof (intro allI impI)
      fix k assume k: "unat ((a - c_addr s) div 256) \<le> k \<and> k < unat ((a - c_addr s) div 256) + unat n div 256"
      have "first_page a = 16 * (first_page a div 16) + first_page a mod 16" by simp
      then have "16 * (first_page a div 16) \<le> k" "k < 16 * Suc (first_page a div 16)"
        using k fb unfolding g(2) mult_Suc_right by linarith+
      then show "unat ((a - c_addr s) div 4096) = k div 16" unfolding d by (metis div_nat_eqI)
    qed
    obtain w where w: "cache_read_loop E 256 a n buf 0 (unat (a - c_addr s)) ((a - c_addr s) div 256) s =
      Some (0, map (seen V s) [unat a ..< unat a + unat n] @ drop (unat n) buf, s\<lparr>c_nor := w\<rparr>)"
      "core_ok E V w" "same_nor (c_nor s) w" "cell V (bus w) = cell V (bus (c_nor s))"
      using cache_read_loop_seen [OF ok(1,2) win al(2) _ _ bl, of 0 buf] g(4) buf
      unfolding g(1,2) by (auto simp: g(5))
    then show ?thesis using z over True
      by (intro exI [of _ w]) (simp add: nor_cache_read_def Let_def ok(3) nor_cache_lock_def hal_sem_wait_def)
  next
    case False
    have "seen V s i = cell V (bus (c_nor s)) i" if i: "unat a \<le> i" "i < unat a + unat n" for i
    proof -
      have out: "\<not> (unat (c_addr s) \<le> i \<and> i < unat (c_addr s) + 65536)" if v: "c_addr s \<noteq> INVALID_CACHE_ADDR"
      proof
        assume c: "unat (c_addr s) \<le> i \<and> i < unat (c_addr s) + 65536"
        from v inv have "window_ok s" by (auto simp: cache_inv_def cache_clean_def)
        moreover have "i < unat a + (4096 - unat a mod 4096)" using i(2) blk by linarith
        ultimately have "c_addr s = ALIGN_DOWN a CACHE_SIZE" using in_window [of s a i] i(1) c by blast
        from cache_hit [OF this v over al(3) lt] False show False by simp
      qed
      have "unat (c_addr s) \<le> i \<longrightarrow> \<not> (i - unat (c_addr s)) div 256 < 256 \<and> \<not> (i - unat (c_addr s)) div 4096 < 16"
        if "c_addr s \<noteq> INVALID_CACHE_ADDR"
        using out [OF that] by (auto simp: div_less_iff_less_mult)
      then show ?thesis by (auto simp: seen_def in_buffer_def under_def emark_def)
    qed
    then have m: "map (seen V s) [unat a ..< unat a + unat n] = map (cell V (bus (c_nor s))) [unat a ..< unat a + unat n]"
      by simp
    obtain w where "nor_read E a buf n (c_nor s) =
        Some (0, map (cell V (bus (c_nor s))) [unat a ..< unat a + unat n] @ drop (unat n) buf, w)"
      "core_ok E V w" "same_nor (c_nor s) w" "cell V (bus w) = cell V (bus (c_nor s))"
      using nor_read_frame [OF ok(1) al(3) fit buf] by blast
    then show ?thesis using z over False unfolding m
      by (intro exI [of _ w]) (simp add: nor_cache_read_def Let_def ok(3) nor_cache_lock_def hal_sem_wait_def)
  qed
qed

text \<open>The memory a client sees after new pages were stored in the buffer.\<close>

definition stored :: "(nat \<Rightarrow> u8) \<Rightarrow> nat \<Rightarrow> u8 list \<Rightarrow> nat \<Rightarrow> u8" where
  "stored m a bs = (\<lambda>i. if a \<le> i \<and> i < a + length bs then bs ! (i - a) else m i)"

definition only_clears :: "(nat \<Rightarrow> u8) \<Rightarrow> nat \<Rightarrow> u8 list \<Rightarrow> bool" where
  "only_clears m a bs \<longleftrightarrow> (\<forall>k < length bs. bs ! k AND m (a + k) = bs ! k)"

lemma stored_programmed: "only_clears m a bs \<Longrightarrow> stored m a bs = programmed m a bs"
  by (rule ext) (auto simp: stored_def programmed_def only_clears_def le_iff_add and.commute)

lemma seen_store:
  assumes w: "window_ok s" and b: "c_buf s = Some b" "length b = 65536"
    and fp: "256 * p + length bs \<le> 65536" "length bs mod 256 = 0"
    and s': "c_nor s' = c_nor s" "c_addr s' = c_addr s" "bitmap_blk s' = bitmap_blk s"
      "c_buf s' = Some (take (256 * p) b @ bs @ drop (256 * p + length bs) b)"
      "\<And>k. marked (bitmap_page s') k \<longleftrightarrow> marked (bitmap_page s) k \<or> p \<le> k \<and> k < p + length bs div 256"
  shows "seen V s' = stored (seen V s) (unat (c_addr s) + 256 * p) bs"
    and "programmable V s \<Longrightarrow> only_clears (seen V s) (unat (c_addr s) + 256 * p) bs \<Longrightarrow> programmable V s'"
proof -
  let ?b = "take (256 * p) b @ bs @ drop (256 * p + length bs) b" and ?a = "unat (c_addr s) + 256 * p"
  obtain t where t: "length bs = 256 * t" using fp(2) by (auto simp: mod_eq_0_iff_dvd elim!: dvdE)
  have v: "c_addr s \<noteq> INVALID_CACHE_ADDR" using w by (rule window_valid)
  have un: "under V s' = under V s" by (rule ext) (simp add: under_def s'(1-3))
  have inr: "?a \<le> i \<and> i < ?a + length bs \<longleftrightarrow>
      unat (c_addr s) \<le> i \<and> p \<le> (i - unat (c_addr s)) div 256 \<and> (i - unat (c_addr s)) div 256 < p + t" for i
    by (auto simp: t div_less_iff_less_mult less_eq_div_iff_mult_less_eq)
  have ib: "in_buffer s' i \<longleftrightarrow> in_buffer s i \<or> ?a \<le> i \<and> i < ?a + length bs" for i
    using fp(1) t v unfolding inr by (auto simp: in_buffer_def s'(2,5))
  have at: "the (c_buf s') ! (i - unat (c_addr s)) =
      (if ?a \<le> i \<and> i < ?a + length bs then bs ! (i - ?a) else b ! (i - unat (c_addr s)))"
    if "unat (c_addr s) \<le> i" "(i - unat (c_addr s)) div 256 < 256" for i
    using that fp(1) b(2) by (auto simp: s'(4) nth_append div_less_iff_less_mult)
  have se: "seen V s' i = stored (seen V s) ?a bs i" for i
    using at [of i] ib [of i] b(1) inr [of i] fp(1) t
    by (auto simp: seen_def stored_def un s'(2) in_buffer_def)
  then show "seen V s' = stored (seen V s) ?a bs" by (rule ext)
  assume pr: "programmable V s" and oc: "only_clears (seen V s) ?a bs"
  have low: "seen V s i AND under V s i = seen V s i" for i
    using pr by (cases "in_buffer s i") (auto simp: programmable_def seen_def)
  show "programmable V s'"
    unfolding programmable_def un se
  proof (intro allI impI)
    fix i
    show "stored (seen V s) ?a bs i AND under V s i = stored (seen V s) ?a bs i"
    proof (cases "?a \<le> i \<and> i < ?a + length bs")
      case True
      then have "bs ! (i - ?a) AND seen V s i = bs ! (i - ?a)"
        using oc [unfolded only_clears_def, rule_format, of "i - ?a"] by (simp add: nat_less_iff less_diff_conv2)
      then show ?thesis using True low [of i] by (metis (no_types, lifting) and.assoc stored_def)
    qed (auto simp: stored_def low)
  qed
qed

lemma cache_write_ok:
  assumes inv: "cache_inv E V s" and al: "unat a mod 256 = 0" "unat n mod 256 = 0"
    and fit: "\<not> over_cache a n" "n \<noteq> 0" "unat a + unat n \<le> unat (total_size (c_nor s))"
    and buf: "unat n \<le> length buf"
  shows "\<exists>s'. nor_cache_write E a buf n s = Some (0, s') \<and> cache_inv E V s' \<and> same_nor (c_nor s) (c_nor s') \<and>
    c_addr s' \<noteq> INVALID_CACHE_ADDR \<and> cache_holds a n (take (unat n) buf) s' \<and>
    (programmable V s \<longrightarrow> seen V s' = stored (seen V s) (unat a) (take (unat n) buf) \<and>
       (only_clears (seen V s) (unat a) (take (unat n) buf) \<longrightarrow> programmable V s'))"
proof -
  obtain u where u: "cache_open E a n s = Some (0, u)" "cache_inv E V u" "window_ok u"
    "c_addr u = ALIGN_DOWN a CACHE_SIZE" "same_nor (c_nor s) (c_nor u)"
    "cached_mem V u = cached_mem V s" "check_cache_addr s a n = 0 \<and> u = s \<or> (\<forall>p<256. \<not> marked (bitmap_page u) p)"
    using cache_open_ok [OF inv fit(3,2)] by blast
  note g = page_geometry [OF al(1) fit(1,2) u(4)]
  obtain b where b: "c_buf u = Some b" "length b = 65536" "length (bitmap_page u) = 4"
    using u(2) by (auto simp: cache_inv_def cache_ok_def)
  have ps: "page_size (c_nor s) = 256" using inv by (simp add: cache_inv_def cache_ok_def)
  have z: "a mod 256 = 0" "n mod 256 = 0" using al by (simp_all add: word_unat_eq_iff unat_mod)
  let ?bs = "take (unat n) buf"
  have lbs: "length ?bs = unat n" using buf by simp
  let ?b = "take (256 * first_page a) b @ ?bs @ drop (256 * first_page a + unat n) b"
  obtain bm lw where l: "cache_write_loop 256 n buf 0 (unat (a - c_addr u)) ((a - c_addr u) div 256) u =
       Some (u\<lparr>c_buf := Some ?b, bitmap_page := bm, last_write := lw\<rparr>)" "length bm = 4"
    "\<And>k. marked bm k \<longleftrightarrow> marked (bitmap_page u) k \<or> first_page a \<le> k \<and> k < first_page a + unat n div 256"
    using cache_write_loop_ok [OF b al(2), of "(a - c_addr u) div 256" 0 buf] g(4) buf
    unfolding g(1,2) by auto
  let ?s = "u\<lparr>c_buf := Some ?b, bitmap_page := bm, last_write := lw\<rparr>"
  have run: "nor_cache_write E a buf n s = Some (0, ?s)"
    using u(1) l(1) z fit(1)
    by (simp add: nor_cache_write_def Let_def ps nor_cache_lock_def hal_sem_wait_def cache_open_def
        cache_unlocked_def split: option.splits if_splits prod.splits)
  have lb: "length ?b = 65536" using b(2) g(4) lbs by simp
  have "cache_inv E V ?s"
    using u(2,3) lb l(2) by (simp add: cache_inv_def cache_ok_def window_ok_def)
  moreover have "cache_holds a n ?bs ?s"
    using u(4) l(3) lbs b(2) g(3,4) by (simp add: cache_holds_def pages_marked_def)
  moreover have "seen V ?s = stored (seen V s) (unat a) ?bs \<and>
      (only_clears (seen V s) (unat a) ?bs \<longrightarrow> programmable V ?s)" if "programmable V s"
    using seen_store [OF u(3) b(1,2), of "first_page a" ?bs ?s V] open_seen [OF that u(6,7)] g(4) al(2) lbs l(3)
    by (simp add: g(5))
  ultimately show ?thesis using run u(5) window_valid [OF u(3)] by (intro exI [of _ ?s]) simp
qed

lemma cache_erase_loop_ok:
  "length (bitmap_blk s) = 1 \<Longrightarrow> unat len mod 4096 = 0 \<Longrightarrow> 4096 * unat blk + unat len \<le> 65536 \<Longrightarrow>
   \<exists>bm. cache_erase_loop 4096 len blk s = Some (s\<lparr>bitmap_blk := bm\<rparr>) \<and> length bm = 1 \<and>
     (\<forall>k. marked bm k \<longleftrightarrow> marked (bitmap_blk s) k \<or> unat blk \<le> k \<and> k < unat blk + unat len div 4096)"
proof (induction "unat len" arbitrary: len blk s rule: less_induct)
  case less
  show ?case
  proof (cases "len = 0")
    case True
    with less.prems show ?thesis
      by (subst cache_erase_loop.simps) (auto intro!: exI [of _ "bitmap_blk s"])
  next
    case False
    then have pos: "0 < unat len" by (simp add: unat_gt_0)
    with less.prems(2) have ge: "4096 \<le> unat len" by (auto simp: mod_eq_0_iff_dvd dest: dvd_imp_le)
    have len': "unat (len - 4096) = unat len - 4096" using ge by (simp add: unat_sub word_le_nat_alt)
    have plt: "unat blk < 16" using less.prems(3) ge by simp
    then have p1: "unat (blk + 1) = unat blk + 1" by (simp add: unat_word_ariths)
    obtain ys where ys: "set_bit64 (unat blk) (bitmap_blk s) = Some ys" "length ys = 1"
      "\<And>k. marked ys k \<longleftrightarrow> k = unat blk \<or> marked (bitmap_blk s) k"
      using set_bit64_marked [of "unat blk" "bitmap_blk s"] less.prems(1) plt by auto
    let ?s = "s\<lparr>bitmap_blk := ys\<rparr>"
    have m0: "(unat len - 4096) mod 4096 = 0" using less.prems(2) ge by (auto simp: mod_eq_0_iff_dvd)
    have h1: "unat (len - 4096) < unat len" and h2: "length (bitmap_blk ?s) = 1"
      and h3: "unat (len - 4096) mod 4096 = 0" and h4: "4096 * unat (blk + 1) + unat (len - 4096) \<le> 65536"
      using pos ge len' p1 m0 ys(2) less.prems(3) by simp_all
    obtain bm where r: "cache_erase_loop 4096 (len - 4096) (blk + 1) ?s = Some (?s\<lparr>bitmap_blk := bm\<rparr>)"
      "length bm = 1" "\<forall>k. marked bm k \<longleftrightarrow> marked (bitmap_blk ?s) k \<or>
        unat (blk + 1) \<le> k \<and> k < unat (blk + 1) + unat (len - 4096) div 4096"
      using less.hyps [OF h1 h2 h3 h4] by blast
    have d: "unat len div 4096 = (unat len - 4096) div 4096 + 1" using ge by (simp add: le_div_geq)
    have mk: "marked bm k \<longleftrightarrow> marked (bitmap_blk s) k \<or> unat blk \<le> k \<and> k < unat blk + unat len div 4096" for k
    proof -
      have "marked bm k \<longleftrightarrow> (k = unat blk \<or> marked (bitmap_blk s) k) \<or>
          unat blk + 1 \<le> k \<and> k < unat blk + 1 + (unat len - 4096) div 4096"
        using r(3) ys(3) by (simp add: p1 len')
      then show ?thesis unfolding d by linarith
    qed
    have "\<not> len < 4096" using ge by (simp add: word_less_nat_alt)
    then have "cache_erase_loop 4096 len blk s = cache_erase_loop 4096 (len - 4096) (blk + 1) ?s"
      using False ys(1) by (subst cache_erase_loop.simps) simp
    then show ?thesis using r(1,2) mk by (intro exI [of _ bm]) simp
  qed
qed

lemma blk_geometry:
  assumes al: "unat a mod 4096 = 0" and fit: "\<not> over_cache a n" "n \<noteq> 0"
    and ca: "c_addr s = ALIGN_DOWN a CACHE_SIZE"
  shows "4096 * unat ((a - c_addr s) div 4096) + unat n \<le> 65536"
    "unat a = unat (c_addr s) + 4096 * unat ((a - c_addr s) div 4096)"
proof -
  have "unat a mod 4096 mod 256 = unat a mod 256" by (rule mod_mod_cancel) simp
  then have al': "unat a mod 256 = 0" using al by simp
  note g = page_geometry [OF al' fit ca]
  have "unat a mod 65536 mod 4096 = 0" using al mod_mod_cancel [of 4096 65536 "unat a"] by simp
  then obtain t where t: "unat (a - c_addr s) = 4096 * t" using g(1,3) by (auto simp: mod_eq_0_iff_dvd elim!: dvdE)
  then have d: "unat ((a - c_addr s) div 4096) = t" by (simp add: unat_div)
  show "4096 * unat ((a - c_addr s) div 4096) + unat n \<le> 65536" using g(1,4) t d by simp
  show "unat a = unat (c_addr s) + 4096 * unat ((a - c_addr s) div 4096)" using g(1,5) t d by simp
qed

lemma cache_erase_ok:
  assumes inv: "cache_inv E V s" and al: "unat a mod 4096 = 0" "unat n mod 4096 = 0"
    and fit: "\<not> over_cache a n" "n \<noteq> 0" "unat a + unat n \<le> unat (total_size (c_nor s))"
  shows "\<exists>s'. nor_cache_erase E a n s = Some (0, s') \<and> cache_inv E V s' \<and> same_nor (c_nor s) (c_nor s') \<and>
    c_addr s' \<noteq> INVALID_CACHE_ADDR \<and>
    (programmable V s \<and> pages_fresh a n s \<longrightarrow>
       seen V s' = erased (seen V s) (unat a) (unat n) \<and> programmable V s') \<and>
    (check_cache_addr s a n = 0 \<longrightarrow> c_addr s' = c_addr s \<and> c_buf s' = c_buf s \<and> bitmap_page s' = bitmap_page s)"
proof -
  obtain u where u: "cache_open E a n s = Some (0, u)" "cache_inv E V u" "window_ok u"
    "c_addr u = ALIGN_DOWN a CACHE_SIZE" "same_nor (c_nor s) (c_nor u)"
    "cached_mem V u = cached_mem V s" "check_cache_addr s a n = 0 \<and> u = s \<or> (\<forall>p<256. \<not> marked (bitmap_page u) p)"
    using cache_open_ok [OF inv fit(3,2)] by blast
  have u8: "check_cache_addr s a n = 0 \<Longrightarrow> u = s" using u(1) by (simp add: cache_open_def)
  note g = blk_geometry [OF al(1) fit(1,2) u(4)]
  have bb: "length (bitmap_blk u) = 1" using u(2) by (simp add: cache_inv_def cache_ok_def)
  have bs: "blk_size (c_nor s) = 4096" using inv by (simp add: cache_inv_def cache_ok_def)
  have z: "a mod 4096 = 0" "n mod 4096 = 0" using al by (simp_all add: word_unat_eq_iff unat_mod)
  let ?k = "unat ((a - c_addr u) div 4096)"
  obtain bm where l: "cache_erase_loop 4096 n ((a - c_addr u) div 4096) u = Some (u\<lparr>bitmap_blk := bm\<rparr>)" "length bm = 1"
    "\<forall>k. marked bm k \<longleftrightarrow> marked (bitmap_blk u) k \<or> ?k \<le> k \<and> k < ?k + unat n div 4096"
    using cache_erase_loop_ok [OF bb al(2) g(1)] by blast
  let ?s = "u\<lparr>bitmap_blk := bm\<rparr>"
  have run: "nor_cache_erase E a n s = Some (0, ?s)"
    using u(1) l(1) z fit(1)
    by (simp add: nor_cache_erase_def Let_def bs nor_cache_lock_def hal_sem_wait_def cache_open_def
        cache_unlocked_def split: option.splits if_splits prod.splits)
  have "cache_inv E V ?s"
    using u(2,3) l(2) by (simp add: cache_inv_def cache_ok_def window_ok_def)
  moreover have "seen V ?s = erased (seen V s) (unat a) (unat n) \<and> programmable V ?s"
    if pr: "programmable V s" and f: "pages_fresh a n s"
  proof -
    have al': "unat a mod 256 = 0" using al(1) mod_mod_cancel [of 256 4096 "unat a"] by simp
    note pg = page_geometry [OF al' fit(1,2) u(4)]
    have fr: "\<not> marked (bitmap_page u) k" if "first_page a \<le> k \<and> k < first_page a + unat n div 256" for k
      using that u(7) f pg(4) by (auto simp: pages_fresh_def)
    obtain t where t: "unat n = 4096 * t" using al(2) by (auto simp: mod_eq_0_iff_dvd elim!: dvdE)
    have kp: "first_page a = 16 * ?k" using g(2) pg(5) by simp
    have Q: "(\<lambda>k. k < 16 \<and> marked bm k) = (\<lambda>k. (k < 16 \<and> marked (bitmap_blk u) k) \<or> ?k \<le> k \<and> k < ?k + t)"
      using l(3) g(1) by (auto simp: t fun_eq_iff)
    have free: "\<not> (?k \<le> (i - unat (c_addr u)) div 4096 \<and> (i - unat (c_addr u)) div 4096 < ?k + t)"
      if "(i - unat (c_addr u)) div 256 < 256 \<and> marked (bitmap_page u) ((i - unat (c_addr u)) div 256)" for i
    proof
      assume "?k \<le> (i - unat (c_addr u)) div 4096 \<and> (i - unat (c_addr u)) div 4096 < ?k + t"
      then have "16 * ?k \<le> (i - unat (c_addr u)) div 256 \<and> (i - unat (c_addr u)) div 256 < 16 * ?k + 16 * t"
        by (auto simp: div_less_iff_less_mult less_eq_div_iff_mult_less_eq)
      with fr [of "(i - unat (c_addr u)) div 256"] that show False by (simp add: kp t)
    qed
    have v: "c_addr u \<noteq> INVALID_CACHE_ADDR" using u(3) by (rule window_valid)
    have un: "under V ?s = emark (under V u) (unat (c_addr u)) (\<lambda>k. ?k \<le> k \<and> k < ?k + t)"
      using v by (simp add: under_def Q emark_emark)
    have ib: "in_buffer ?s i \<longleftrightarrow> in_buffer u i" for i by (simp add: in_buffer_def)
    have keep: "under V ?s i = under V u i" if "in_buffer u i" for i
      using free [of i] that by (auto simp: un emark_def in_buffer_def)
    have "seen V ?s i = emark (seen V u) (unat (c_addr u)) (\<lambda>k. ?k \<le> k \<and> k < ?k + t) i" for i
      using free [of i] by (auto simp: seen_def ib un emark_def in_buffer_def)
    then have "seen V ?s = erased (seen V u) (unat a) (unat n)"
      using erased_emark [of "seen V u" "unat (c_addr u)" ?k t] by (auto simp: t g(2))
    moreover have "programmable V ?s"
      using open_seen [OF pr u(6,7)] keep by (simp add: programmable_def ib seen_def)
    ultimately show ?thesis using open_seen [OF pr u(6,7)] by simp
  qed
  ultimately show ?thesis using run u(5) u8 window_valid [OF u(3)] by (intro exI [of _ ?s]) simp
qed

text \<open>A written page outlives an erase of its block: the page bit is not cleared.\<close>

lemma erase_keeps_written_page:
  assumes inv: "cache_inv E V s" and h: "cache_holds a n bs s" "c_addr s \<noteq> INVALID_CACHE_ADDR"
    and al: "unat a mod 4096 = 0" "unat n mod 4096 = 0"
    and fit: "\<not> over_cache a n" "n \<noteq> 0" "unat a + unat n \<le> unat (total_size (c_nor s))"
    and buf: "unat n \<le> length buf"
  shows "\<exists>s'. nor_cache_erase E a n s = Some (0, s') \<and>
    nor_cache_read E a buf n s' = Some (0, bs @ drop (unat n) buf, s')"
proof -
  have lt: "unat a + unat n < 2 ^ 32"
    using fit(3) unsigned_less [of "total_size (c_nor s)", where ?'a = nat] by simp
  have hit: "check_cache_addr s a n = 0"
    using h fit(1,2) lt by (intro cache_hit) (simp_all add: cache_holds_def)
  obtain s' where s': "nor_cache_erase E a n s = Some (0, s')" "cache_inv E V s'"
    "c_addr s' = c_addr s" "c_buf s' = c_buf s" "bitmap_page s' = bitmap_page s"
    using cache_erase_ok [OF inv al fit] hit by blast
  then have "cache_holds a n bs s'" using h(1) by (simp add: cache_holds_def pages_marked_def)
  moreover have "unat a mod 256 = 0" "unat n mod 256 = 0"
    using al mod_mod_cancel [of 256 4096 "unat a"] mod_mod_cancel [of 256 4096 "unat n"] by simp_all
  ultimately show ?thesis
    using read_hit [OF s'(2)] fit(1,2) lt buf h(2) s'(1,3) by auto
qed

section \<open>Initialisation\<close>

lemma nor_cache_init_ok:
  assumes new: "c_buf s = None" and lock: "cache_lock_init E s = (0, s1)" and mal: "\<And>n. mal n"
    and ok: "core_ok E V (c_nor s1)" "page_size (c_nor s1) = 256" "blk_size (c_nor s1) = 4096"
      "unat (total_size (c_nor s1)) mod 65536 = 0"
  shows "\<exists>s'. nor_cache_init mal E s = Some (0, s') \<and> cache_inv E V s' \<and> cache_clean s' \<and>
    c_nor s' = c_nor s1 \<and> seen V s' = cell V (bus (c_nor s1)) \<and> programmable V s'"
proof -
  let ?s = "s1\<lparr>c_buf := Some (replicate 65536 0xFF), c_addr := INVALID_CACHE_ADDR, page_cnt := 256,
      bitmap_page := [0, 0, 0, 0], blk_cnt := 16, bitmap_blk := [0]\<rparr>"
  have pc: "CACHE_SIZE div 256 = 256" "CACHE_SIZE div 4096 = (16 :: u32)" by code_simp+
  have "init_cache mal s1 = Some (0, s1\<lparr>c_buf := Some (replicate 65536 0xFF), c_addr := INVALID_CACHE_ADDR\<rparr>)"
    by (simp add: init_cache_def clear_cache_def write_at_def mal)
  moreover have "init_bitmap mal (s1\<lparr>c_buf := Some (replicate 65536 0xFF), c_addr := INVALID_CACHE_ADDR\<rparr>) = Some (0, ?s)"
    by (simp add: init_bitmap_def mal ok(2,3) pc BITS_TO_LONGS_def Let_def four_longs)
  ultimately have "nor_cache_init mal E s = Some (0, ?s)"
    using new lock by (simp add: nor_cache_init_def cache_unlocked_def)
  moreover have cl: "cache_clean ?s"
    using marked_zero [of _ 1] marked_zero [of _ 4] by (simp add: cache_clean_def four_longs)
  moreover from this have "cache_inv E V ?s" using ok by (simp add: cache_inv_def cache_ok_def)
  ultimately show ?thesis using clean_seen [OF cl, of V] by (intro exI [of _ ?s]) simp
qed

end
