(* ===== verification/Simulation.thy ===== *)
theory Simulation
  imports Flash_Driver Nor_Cache
begin

unbundle bit_operations_syntax

text \<open>
  States of every layer on the simulated board of \<open>Nor_Board\<close>, at which the theorems of the
  development are applied.
\<close>

lemma core_ok_sim_ready: "core_ok sim_env sim_view sim_ready"
  by (simp add: core_ok_def sim_chip ready_sim_ready) (simp add: sim_ready_def P25Q64H_def)

lemma sim_ready_sel [simp]:
  "total_size sim_ready = SZ_8M" "nor_fac sim_ready = Some PUYA" "nor_info sim_ready = Some P25Q64H"
  "blk_size sim_ready = 0x1000" "page_size sim_ready = 0x100" "addr_width sim_ready = 3"
  "cell sim_view (bus sim_ready) = (\<lambda>i. 0)" "bus sim_ready = sim_quad"
  by (simp_all add: sim_ready_def nor_boot_def sim_blank_def sim_view_def)

text \<open>The state of the HAL and of the application around it.\<close>

definition sim_hal :: "sim hal" where
  "sim_hal = \<lparr>hal_nor = sim_ready, hal_spinor_info = \<lparr>sector_count = 0, sector_size = 0,
     hal_page_size = 0, program_unit = 0, erased_value = 0xFF\<rparr>\<rparr>"

lemma hal_ok_sim_hal: "hal_ok sim_env sim_view sim_hal"
  by (simp add: hal_ok_def sim_hal_def core_ok_sim_ready)

definition sim_app :: "'b nor \<Rightarrow> 'b app" where
  "sim_app w = \<lparr>hal = \<lparr>hal_nor = w, hal_spinor_info = \<lparr>sector_count = 0, sector_size = 0,
       hal_page_size = 0, program_unit = 0, erased_value = 0xFF\<rparr>\<rparr>, spiflash_info = \<lparr>flash_id = 0, flash_size = 0,
       xip_addr = 0, csi_sector_size = 0, csi_page_size = 0\<rparr>,
     g_checksumBuffer = replicate 1024 0, g_rwBuffer = replicate 8192 0, g_dstAddress = 0,
     g_length = 0, g_checksum = 0, g_func = 0, g_flashID = 0, g_error = 0\<rparr>"

lemma app_ok_sim_app: "app_ok sim_env sim_view (sim_app sim_ready)"
  by (simp add: app_ok_def hal_ok_def sim_app_def core_ok_sim_ready)

text \<open>The program as loaded, before \<open>flashInit\<close>.\<close>

lemma app_fresh_sim: "app_fresh sim_view (sim_app (nor_boot sim_blank))"
  by (simp add: app_fresh_def sim_app_def nor_boot_def sim_view_def sim_blank_def)

lemma capacity_sim [simp]: "capacity sim_view = 8 * 1024 * 1024"
  by (simp add: sim_view_def)

text \<open>The cache in front of the driver, as \<open>nor_cache_init\<close> leaves it.\<close>

definition sim_cache_blank :: "sim nor_cache" where
  "sim_cache_blank = \<lparr>c_nor = sim_ready, c_buf = None, c_addr = 0, last_write = 0, bitmap_page = [],
     page_cnt = 0, bitmap_blk = [], blk_cnt = 0, lock_nor_cache = False\<rparr>"

definition sim_cache :: "sim nor_cache" where
  "sim_cache = \<lparr>c_nor = sim_ready, c_buf = Some (replicate 65536 0xFF), c_addr = 0xFFFFFFFF,
     last_write = 0, bitmap_page = [0, 0, 0, 0], page_cnt = 256, bitmap_blk = [0], blk_cnt = 16,
     lock_nor_cache = True\<rparr>"

lemma cache_lock_sim: "cache_lock_init sim_env sim_cache_blank = (0, sim_cache_blank\<lparr>lock_nor_cache := True\<rparr>)"
  by (simp add: cache_lock_init_def hal_sem_create_def sim_env_def sim_cache_blank_def)

lemma cache_inv_sim: "cache_inv sim_env sim_view sim_cache"
  using marked_zero [of _ 1] marked_zero [of _ 4]
  by (simp add: cache_inv_def cache_ok_def cache_clean_def sim_cache_def core_ok_sim_ready four_longs)

text \<open>Polling the simulated chip, and a driver whose factories are registered.\<close>

lemma sim_is_busy:
  "nor_is_busy sim_env w = Some (if s_busy (bus w) = 0 then 0 else 1,
     w\<lparr>bus := (bus w)\<lparr>s_busy := s_busy (bus w) - 1\<rparr>\<rparr>)"
  by (cases "s_latch (bus w)") (simp_all add: nor_is_busy_def nor_read_status_def nor_transfer_def
      nor_mode_def read_at_def sim_env_def sim_xfer_def sim_status_def overlay_def Let_def)

lemma sim_msleep [simp]: "nor_msleep sim_env t w = w"
  by (simp add: nor_msleep_def sim_env_def)

definition sim_chained :: "(fid option \<Rightarrow> fid option) \<Rightarrow> sim nor" where
  "sim_chained nx = (nor_boot sim_blank)\<lparr>fnext := nx\<rparr>"

lemma sim_chain: obtains nx where "path (fnext (sim_chained nx)) None factory_order"
  using nor_factory_register_links [of "nor_boot ()" "[]"] by (auto simp: nor_boot_def sim_chained_def)

text \<open>A controller that answers every transfer with an error.\<close>

definition dead_env :: "sim env" where
  "dead_env = sim_env\<lparr>spi_xfer := \<lambda>p tr b. Some (- 5, [], b)\<rparr>"

lemma dead_returns: "xfer_returns dead_env"
  by (simp add: xfer_returns_def dead_env_def)

text \<open>Ranges inside and across a window of the cache.\<close>

lemma not_over_sim: "\<not> over_cache 0x13000 0x1000" "over_cache 0xFF00 0x200"
  by (simp_all add: over_cache_def ALIGN_DOWN_def ALIGN_def)

lemma fresh_sim: "pages_fresh a n sim_cache"
  by (simp add: pages_fresh_def check_cache_addr_def sim_cache_def)

text \<open>An empty cache over an erased sector, and the cache after a write of that sector.\<close>

lemma programmable_sim: "programmable sim_view sim_cache"
  using marked_zero [of _ 1] marked_zero [of _ 4]
  by (intro clean_seen(3)) (simp add: cache_clean_def sim_cache_def four_longs)

definition sim_erased :: "sim nor_cache" where
  "sim_erased = sim_cache\<lparr>c_nor := sim_ready\<lparr>bus := sim_quad\<lparr>s_cell := erased (\<lambda>i. 0) 0x13000 0x1000\<rparr>\<rparr>\<rparr>"

definition sim_cached :: "sim nor_cache" where
  "sim_cached = snd (the (nor_cache_write sim_env 0x13000 (replicate 4096 7) 0x1000 sim_erased))"

lemma sim_erased_ok:
  "cache_inv sim_env sim_view sim_erased" "programmable sim_view sim_erased"
  "seen sim_view sim_erased = erased (\<lambda>i. 0) 0x13000 0x1000"
proof -
  have "ready sim_view (sim_ready\<lparr>bus := sim_quad\<lparr>s_cell := m\<rparr>\<rparr>)" for m
    using ready_sim_ready
    by (simp add: ready_def configured_def idle_def sim_view_def sim_blank_def obeys_def quad_enabled_def)
  then have "core_ok sim_env sim_view (sim_ready\<lparr>bus := sim_quad\<lparr>s_cell := m\<rparr>\<rparr>)" for m
    using core_ok_sim_ready by (simp add: core_ok_def)
  then show "cache_inv sim_env sim_view sim_erased"
    using cache_inv_sim by (simp add: cache_inv_def sim_erased_def cache_ok_def window_ok_def cache_clean_def sim_cache_def)
  have c: "cache_clean sim_erased"
    using marked_zero [of _ 1] marked_zero [of _ 4]
    by (simp add: cache_clean_def sim_erased_def sim_cache_def four_longs)
  show "programmable sim_view sim_erased" by (rule clean_seen(3) [OF c])
  show "seen sim_view sim_erased = erased (\<lambda>i. 0) 0x13000 0x1000"
    by (simp add: clean_seen(2) [OF c]) (simp add: sim_erased_def sim_view_def)
qed

lemma sim_cached_ok:
  "cache_inv sim_env sim_view sim_cached" "programmable sim_view sim_cached"
  "seen sim_view sim_cached = stored (erased (\<lambda>i. 0) 0x13000 0x1000) 0x13000 (replicate 4096 7)"
proof -
  have cl: "only_clears (erased (\<lambda>i. 0) 0x13000 0x1000) 0x13000 (replicate 4096 7)"
    by (simp add: only_clears_def erased_def)
  obtain s' where s': "nor_cache_write sim_env 0x13000 (replicate 4096 7) 0x1000 sim_erased = Some (0, s')"
    "cache_inv sim_env sim_view s'"
    "seen sim_view s' = stored (seen sim_view sim_erased) 0x13000 (replicate 4096 7)"
    "only_clears (seen sim_view sim_erased) 0x13000 (replicate 4096 7) \<longrightarrow> programmable sim_view s'"
    using cache_write_ok [OF sim_erased_ok(1), of "0x13000" "0x1000" "replicate 4096 7"] sim_erased_ok(2)
      not_over_sim by (auto simp: sim_erased_def sim_cache_def)
  then have e: "sim_cached = s'" by (simp add: sim_cached_def)
  from s' cl show "cache_inv sim_env sim_view sim_cached" "programmable sim_view sim_cached"
    "seen sim_view sim_cached = stored (erased (\<lambda>i. 0) 0x13000 0x1000) 0x13000 (replicate 4096 7)"
    by (simp_all only: e sim_erased_ok(3))
qed

end
