(* ===== verification/Nor_Locks.thy ===== *)
theory Nor_Locks
  imports Nor_Init
begin

unbundle bit_operations_syntax

text \<open>
  The ranges that \<open>nor_wr_lock\<close> and \<open>nor_wr_unlock\<close> of \<open>spinor/wrlock.c\<close> visit. The locale
  \<open>lock_ops\<close> is what the loops need of a factory's operation; every lock and unlock operation of
  the factories interprets it. The last lemma shows what happens to a range that is not made of
  whole units.
\<close>

section \<open>The units of a range\<close>

text \<open>The protection units that make up a range, each with its size.\<close>

function lock_plan :: "u32 \<Rightarrow> u32 \<Rightarrow> u32 \<Rightarrow> (u32 \<times> u32) list" where
  "lock_plan tot addr len =
     (if len = 0 then []
      else let s = wr_align_size tot addr in (addr, s) # lock_plan tot (addr + s) (len - min s len))"
  by pat_completeness auto
termination
  by (relation "measure (\<lambda>(tot, addr, len). unat len)") (simp_all add: unat_sub_min wr_align_size_pos)

declare lock_plan.simps [simp del]

type_synonym 'b lock_op = "u32 \<Rightarrow> u32 \<Rightarrow> 'b nor \<Rightarrow> (int \<times> 'b nor) option"

fun run_units :: "'b lock_op \<Rightarrow> (u32 \<times> u32) list \<Rightarrow> int \<Rightarrow> 'b nor \<Rightarrow> (int \<times> 'b nor) option" where
  "run_units op [] ret w = Some (ret, w)"
| "run_units op ((a, s) # us) ret w = do {
     (ret, w) \<leftarrow> op a s w;
     if ret \<noteq> 0 then Some (ret, w) else run_units op us ret w
   }"

text \<open>
  A range of whole units: sectors in the first or the last 64K, or else ending on a 64K boundary.
\<close>

definition whole_units :: "nat \<Rightarrow> nat \<Rightarrow> nat \<Rightarrow> bool" where
  "whole_units tot a n \<longleftrightarrow> tot mod 65536 = 0 \<and> 131072 \<le> tot \<and> tot < 2 ^ 32 \<and> a + n \<le> tot \<and>
     a mod 4096 = 0 \<and> n mod 4096 = 0 \<and>
     (65536 \<le> a \<and> a < tot - 65536 \<longrightarrow> a mod 65536 = 0) \<and>
     (a + n \<le> 65536 \<or> tot - 65536 \<le> a \<or> (a + n) mod 65536 = 0)"

lemma unat_align_size:
  assumes "whole_units (unat tot) a' n" "a' = unat a"
  shows "unat (wr_align_size tot a) = (if unat tot - 65536 \<le> unat a \<or> unat a < 65536 then 4096 else 65536)"
proof -
  have "unat (tot - SZ_64K) = unat tot - 65536"
    using assms(1) by (simp add: unat_sub word_le_nat_alt whole_units_def)
  then show ?thesis by (simp add: wr_align_size_def word_le_nat_alt word_less_nat_alt)
qed

lemma whole_units_step:
  assumes w: "whole_units tot a n" and n0: "n \<noteq> 0"
    and s: "s = (if tot - 65536 \<le> a \<or> a < 65536 then 4096 else 65536)"
  shows "a mod s = 0 \<and> s \<le> n \<and> (n - s = 0 \<or> s \<le> n - s \<and> whole_units tot (a + s) (n - s))"
proof -
  obtain x y t where xyt: "a = 4096 * x" "n = 4096 * y" "tot = 65536 * t"
    using w by (auto simp: whole_units_def mod_eq_0_iff_dvd elim!: dvdE)
  have y: "1 \<le> y" using n0 xyt(2) by simp
  show ?thesis
  proof (cases "tot - 65536 \<le> a \<or> a < 65536")
    case True
    have "y - 1 = 0 \<or> whole_units tot (a + 4096) (n - 4096)"
    proof (cases "y = 1")
      case False
      have f: "(a + 4096) + (n - 4096) = a + n" using y xyt(2) by simp
      have g: "65536 \<le> a + 4096 \<and> a + 4096 < tot - 65536 \<Longrightarrow> (a + 4096) mod 65536 = 0"
      proof -
        assume h: "65536 \<le> a + 4096 \<and> a + 4096 < tot - 65536"
        then have "a < 65536" using True by auto
        with h xyt(1) have "x = 15" by simp
        with xyt(1) show ?thesis by simp
      qed
      have "(a + 4096) mod 4096 = 0" "(n - 4096) mod 4096 = 0"
        using xyt y by (auto simp: mod_eq_0_iff_dvd)
      with w f g show ?thesis unfolding whole_units_def by auto
    qed simp
    with True s xyt y show ?thesis by auto
  next
    case False
    then have am: "a mod 65536 = 0" and em: "(a + n) mod 65536 = 0"
      using w n0 by (auto simp: whole_units_def)
    then have nm: "n mod 65536 = 0" by (metis add_0 mod_add_left_eq mod_mod_trivial)
    then have n64: "65536 \<le> n" using n0 by (metis mod_less not_less)
    have "(n - 65536) mod 65536 = 0" "(a + 65536) mod 65536 = 0"
      using nm am by (auto simp: mod_eq_0_iff_dvd dvd_diff_nat)
    moreover have "(a + 65536) mod 4096 = 0" "(n - 65536) mod 4096 = 0"
      using calculation by (auto simp: mod_eq_0_iff_dvd elim!: dvdE)
    ultimately have "n - 65536 = 0 \<or> 65536 \<le> n - 65536 \<and> whole_units tot (a + 65536) (n - 65536)"
      using w n64 em by (auto simp: whole_units_def)
    with False s am n64 show ?thesis by simp
  qed
qed

section \<open>Locking and unlocking a range\<close>

locale lock_ops =
  fixes op :: "'b lock_op"
  assumes op_frame: "op a n w = Some (r, w') \<Longrightarrow> total_size w' = total_size w"
begin

lemma wr_loop_units:
  "whole_units (unat (total_size w)) (unat a) (unat len) \<Longrightarrow>
   wr_loop op ret a len w = run_units op (lock_plan (total_size w) a len) ret w"
proof (induction "unat len" arbitrary: ret a len w rule: less_induct)
  case less
  show ?case
  proof (cases "len = 0")
    case False
    let ?s = "wr_align_size (total_size w) a"
    note s = unat_align_size [OF less.prems refl]
    have n0: "unat len \<noteq> 0" using False by (simp add: unat_eq_zero)
    note st = whole_units_step [OF less.prems n0 s]
    have sl: "?s \<le> len" using st by (simp add: word_le_nat_alt)
    have len': "unat (len - ?s) = unat len - unat ?s" using sl by (simp add: unat_sub)
    have ad: "ALIGN_DOWN a ?s = a"
    proof -
      have "ALIGN_DOWN a (2 ^ 12) = a" if "unat a mod 4096 = 0"
        using that unat_ALIGN_DOWN [of a 12] by (simp add: word_unat_eq_iff)
      moreover have "ALIGN_DOWN a (2 ^ 16) = a" if "unat a mod 65536 = 0"
        using that unat_ALIGN_DOWN [of a 16] by (simp add: word_unat_eq_iff)
      ultimately show ?thesis using st s by (auto simp: wr_align_size_def split: if_splits)
    qed
    have nxt: "wr_loop op r (a + min ?s (len - ?s)) (len - ?s) v =
        run_units op (lock_plan (total_size w) (a + ?s) (len - ?s)) r v"
      if "total_size v = total_size w" for r v
    proof (cases "len - ?s = 0")
      case True
      then show ?thesis by (simp add: wr_loop.simps lock_plan.simps)
    next
      case nz: False
      then have nz': "unat len - unat ?s \<noteq> 0" using len' by (metis unat_eq_zero)
      then have "?s \<le> len - ?s" using st len' by (simp add: word_le_nat_alt)
      then have mn: "min ?s (len - ?s) = ?s" by simp
      have "unat a + unat ?s < 2 ^ 32" using st nz' by (auto simp: whole_units_def)
      then have a': "unat (a + ?s) = unat a + unat ?s" by (simp add: unat_word_ariths)
      have "wr_loop op r (a + ?s) (len - ?s) v =
          run_units op (lock_plan (total_size v) (a + ?s) (len - ?s)) r v"
        using st nz' n0 s sl by (intro less.hyps) (auto simp: len' a' that split: if_splits)
      then show ?thesis by (simp add: mn that)
    qed
    have mn: "min ?s len = ?s" using sl by simp
    show ?thesis
    proof (cases "op a ?s w")
      case None
      then show ?thesis using False
        by (subst wr_loop.simps, subst lock_plan.simps) (simp add: Let_def ad)
    next
      case (Some rv)
      then obtain r v where rv: "op a ?s w = Some (r, v)" by (cases rv) auto
      then have "total_size v = total_size w" by (rule op_frame)
      then show ?thesis using False rv nxt [of v 0]
        by (subst wr_loop.simps, subst lock_plan.simps) (simp add: Let_def ad mn)
    qed
  qed (simp add: wr_loop.simps lock_plan.simps)
qed

end

text \<open>The units are aligned, follow each other and cover the range.\<close>

fun unit_tiles :: "nat \<Rightarrow> nat \<Rightarrow> (u32 \<times> u32) list \<Rightarrow> nat \<Rightarrow> bool" where
  "unit_tiles tot a [] n \<longleftrightarrow> n = 0"
| "unit_tiles tot a ((b, s) # us) n \<longleftrightarrow> unat b = a \<and> a mod unat s = 0 \<and> unat s \<le> n \<and>
     unat s = (if tot - 65536 \<le> a \<or> a < 65536 then 4096 else 65536) \<and>
     unit_tiles tot (a + unat s) us (n - unat s)"

lemma lock_plan_tiles:
  "whole_units (unat tot) (unat a) (unat len) \<Longrightarrow>
   unit_tiles (unat tot) (unat a) (lock_plan tot a len) (unat len)"
proof (induction "unat len" arbitrary: a len rule: less_induct)
  case less
  show ?case
  proof (cases "len = 0")
    case False
    let ?s = "wr_align_size tot a"
    note s = unat_align_size [OF less.prems refl]
    have n0: "unat len \<noteq> 0" using False by (simp add: unat_eq_zero)
    note st = whole_units_step [OF less.prems n0 s]
    have sl: "?s \<le> len" using st by (simp add: word_le_nat_alt)
    have len': "unat (len - ?s) = unat len - unat ?s" using sl by (simp add: unat_sub)
    have mn: "min ?s len = ?s" using sl by simp
    have "unit_tiles (unat tot) (unat a + unat ?s) (lock_plan tot (a + ?s) (len - ?s)) (unat len - unat ?s)"
    proof (cases "len - ?s = 0")
      case True
      then show ?thesis using len' by (simp add: lock_plan.simps)
    next
      case nz: False
      then have nz': "unat len - unat ?s \<noteq> 0" using len' by (metis unat_eq_zero)
      have "unat a + unat ?s < 2 ^ 32" using st nz' by (auto simp: whole_units_def)
      then have a': "unat (a + ?s) = unat a + unat ?s" by (simp add: unat_word_ariths)
      have "unit_tiles (unat tot) (unat (a + ?s)) (lock_plan tot (a + ?s) (len - ?s)) (unat (len - ?s))"
        using st nz' n0 s sl by (intro less.hyps) (auto simp: len' a' split: if_splits)
      then show ?thesis by (simp add: a' len')
    qed
    then show ?thesis using False st s
      by (subst lock_plan.simps) (auto simp: Let_def mn)
  qed (simp add: lock_plan.simps)
qed

section \<open>The operations of the four factories that have block locks\<close>

lemma frames2_total: "frames2 w (op a n w) \<Longrightarrow> op a n w = Some (r, w') \<Longrightarrow> total_size w' = total_size w"
  by (simp add: frames2_def same_norD)

lemma frames_blk_islock [framing]:
  "same_nor w v \<Longrightarrow> frames2 w (nor_mxic_blk_islock E a v)"
  "same_nor w v \<Longrightarrow> frames2 w (nor_winbond_blk_islock E a v)"
  "same_nor w v \<Longrightarrow> frames2 w (nor_xtx_blk_islock E a v)"
  "same_nor w v \<Longrightarrow> frames2 w (nor_fm_blk_islock E a v)"
  unfolding nor_mxic_blk_islock_def nor_winbond_blk_islock_def nor_xtx_blk_islock_def
    nor_fm_blk_islock_def
  by (assumption | rule framing)+

lemma frames_locks [framing]:
  "same_nor w v \<Longrightarrow> frames2 w (nor_mxic_lock E a n v)"
  "same_nor w v \<Longrightarrow> frames2 w (nor_winbond_lock E a n v)"
  "same_nor w v \<Longrightarrow> frames2 w (nor_xtx_lock E a n v)"
  "same_nor w v \<Longrightarrow> frames2 w (nor_fm_lock E a n v)"
  unfolding nor_mxic_lock_def nor_mxic_blk_lock_def nor_winbond_lock_def nor_winbond_blk_lock_def
    nor_xtx_lock_def nor_xtx_blk_lock_def nor_fm_lock_def nor_fm_blk_lock_def
  by (assumption | rule framing)+

lemma frames_unlocks [framing]:
  "same_nor w v \<Longrightarrow> frames2 w (nor_mxic_unlock E a n v)"
  "same_nor w v \<Longrightarrow> frames2 w (nor_winbond_unlock E a n v)"
  "same_nor w v \<Longrightarrow> frames2 w (nor_xtx_unlock E a n v)"
  "same_nor w v \<Longrightarrow> frames2 w (nor_fm_unlock E a n v)"
  unfolding nor_mxic_unlock_def nor_mxic_blk_unlock_def nor_winbond_unlock_def
    nor_winbond_blk_unlock_def nor_xtx_unlock_def nor_xtx_blk_unlock_def nor_fm_unlock_def
    nor_fm_blk_unlock_def
  by (assumption | rule framing)+

lemma frames_xmc_locks [framing]:
  "same_nor w v \<Longrightarrow> frames2 w (nor_xmc_lock E a n v)"
  "same_nor w v \<Longrightarrow> frames2 w (nor_xmc_unlock E a n v)"
  unfolding nor_xmc_lock_def nor_xmc_unlock_def by (assumption | rule framing)+

text \<open>The lock and the unlock operation of any factory that has one keep the geometry.\<close>

lemma f_lock_ops:
  "f_lock (factory_of E f) = Some op \<Longrightarrow> lock_ops op"
  "f_unlock (factory_of E f) = Some op \<Longrightarrow> lock_ops op"
  by (unfold_locales; cases f; auto simp: nor_factory_defs
      elim!: frames2_total [rotated] intro: frames_locks frames_unlocks frames_xmc_locks)+

interpretation mxic_lock: lock_ops "nor_mxic_lock E" for E
  by (rule f_lock_ops(1) [of E MXIC]) (simp add: nor_factory_defs)

interpretation mxic_unlock: lock_ops "nor_mxic_unlock E" for E
  by (rule f_lock_ops(2) [of E MXIC]) (simp add: nor_factory_defs)

interpretation winbond_lock: lock_ops "nor_winbond_lock E" for E
  by (rule f_lock_ops(1) [of E WINBOND]) (simp add: nor_factory_defs)

interpretation winbond_unlock: lock_ops "nor_winbond_unlock E" for E
  by (rule f_lock_ops(2) [of E WINBOND]) (simp add: nor_factory_defs)

interpretation xtx_lock: lock_ops "nor_xtx_lock E" for E
  by (rule f_lock_ops(1) [of E XTX]) (simp add: nor_factory_defs)

interpretation xtx_unlock: lock_ops "nor_xtx_unlock E" for E
  by (rule f_lock_ops(2) [of E XTX]) (simp add: nor_factory_defs)

interpretation fm_lock: lock_ops "nor_fm_lock E" for E
  by (rule f_lock_ops(1) [of E FM]) (simp add: nor_factory_defs)

interpretation fm_unlock: lock_ops "nor_fm_unlock E" for E
  by (rule f_lock_ops(2) [of E FM]) (simp add: nor_factory_defs)

interpretation xmc_lock: lock_ops "nor_xmc_lock E" for E
  by (rule f_lock_ops(1) [of E XMC]) (simp add: nor_factory_defs)

interpretation xmc_unlock: lock_ops "nor_xmc_unlock E" for E
  by (rule f_lock_ops(2) [of E XMC]) (simp add: nor_factory_defs)

text \<open>The whole operation for the factory of a detected chip.\<close>

lemma nor_wr_lock_units:
  assumes "nor_fac w = Some f" and "f_lock (factory_of E f) = Some op"
    and "whole_units (unat (total_size w)) (unat a) (unat len)"
  shows "nor_wr_lock E a len w = run_units op (lock_plan (total_size w) a len) 0 w"
  using assms lock_ops.wr_loop_units [OF f_lock_ops(1) [OF assms(2)] assms(3)]
  by (simp add: nor_wr_lock_def the_factory_def)

lemma nor_wr_unlock_units:
  assumes "nor_fac w = Some f" and "f_unlock (factory_of E f) = Some op"
    and "whole_units (unat (total_size w)) (unat a) (unat len)"
  shows "nor_wr_unlock E a len w = run_units op (lock_plan (total_size w) a len) 0 w"
  using assms lock_ops.wr_loop_units [OF f_lock_ops(2) [OF assms(2)] assms(3)]
  by (simp add: nor_wr_unlock_def the_factory_def)

text \<open>
  A range that ends inside a 64K block: the second block is never visited, the first one twice.
\<close>

lemma nor_wr_lock_partial_block:
  assumes "nor_fac w = Some f" and "f_lock (factory_of E f) = Some op" and "total_size w = SZ_16M"
  shows "nor_wr_lock E 0x20000 0x18000 w = run_units op [(0x20000, 0x10000), (0x20000, 0x10000)] 0 w"
proof -
  have ad: "ALIGN_DOWN 0x20000 0x10000 = (0x20000 :: u32)" "ALIGN_DOWN 0x28000 0x10000 = (0x20000 :: u32)"
    by (simp_all add: ALIGN_DOWN_def ALIGN_def)
  have sz: "total_size v = SZ_16M" if "op 0x20000 0x10000 w = Some (0, v)" for v
    using lock_ops.op_frame [OF f_lock_ops(1) [OF assms(2)] that] assms(3) by simp
  have second: "wr_loop op 0 0x28000 0x8000 v = run_units op [(0x20000, 0x10000)] 0 v"
    if "total_size v = SZ_16M" for v
  proof (cases "op 0x20000 0x10000 v")
    case None
    with that show ?thesis by (subst wr_loop.simps) (simp add: wr_align_size_def Let_def ad)
  next
    case (Some r)
    with that show ?thesis
      by (cases r, subst wr_loop.simps, subst wr_loop.simps)
        (simp add: wr_align_size_def Let_def ad min_def)
  qed
  have "wr_loop op 0 0x20000 0x18000 w = run_units op [(0x20000, 0x10000), (0x20000, 0x10000)] 0 w"
  proof (cases "op 0x20000 0x10000 w")
    case None
    with assms(3) show ?thesis by (subst wr_loop.simps) (simp add: wr_align_size_def Let_def ad)
  next
    case (Some r)
    with assms(3) sz second show ?thesis
      by (cases r, subst wr_loop.simps) (simp add: wr_align_size_def Let_def ad min_def)
  qed
  then show ?thesis using assms by (simp add: nor_wr_lock_def the_factory_def)
qed

end
