(* ===== verification/Spi_Regs.thy ===== *)
theory Spi_Regs
  imports Nor_Types
begin

unbundle bit_operations_syntax

text \<open>
  The SPI controller driver, first part: the data of \<open>sunxi_hal_spi.h\<close>, \<open>spi/common_spi.h\<close> and
  \<open>spi/platform_spi.h\<close>, and the functions of \<open>spi/hal_spi.c\<close> that touch one register each
  (\<open>spi_set_cs\<close> to \<open>spi_enable_quad\<close>).

  The driver is compiled with \<open>CONFIG_SUNXI_SPI_CPU_XFER_ONLY\<close>, so that the DMA fields of
  \<open>sunxi_spi_t\<close> and the DMA functions are left out. What the driver runs on is the record
  \<open>'h spi_plat\<close>: the registers of the device (\<open>hal_readl\<close> and so on are volatile accesses),
  the interrupt controller, and the interfaces of \<open>hal_gpio.h\<close>, \<open>hal_clk.h\<close> and \<open>hal_reset.h\<close>.
  \<open>plat_irq\<close> tells whether the interrupt of a number is taken at this point, \<open>plat_tick\<close> is the
  passage of time in a loop that touches no register.
\<close>

section \<open>Types\<close>

datatype spi_mode_type =
  SGLE_HALF_DUPLEX_RX | SGLE_HALF_DUPLEX_TX | DUAL_HALF_DUPLEX_RX | DUAL_HALF_DUPLEX_TX
| QUAD_HALF_DUPLEX_RX | QUAD_HALF_DUPLEX_TX | FULL_DUPLEX_TX_RX | MODE_TYPE_NULL

text \<open>
  \<open>hal_spi_master_transfer_t\<close>: the two buffers are \<open>None\<close> when the pointers are null. The
  bit fields for the number of lanes are three bits wide.
\<close>

record hal_spi_tr =
  tr_tx_buf :: "u8 list option"
  tr_tx_len :: u32
  tr_tx_single_len :: u32
  tr_rx_buf :: "u8 list option"
  tr_rx_len :: u32
  tr_tx_nbits :: "3 word"
  tr_rx_nbits :: "3 word"
  tr_dummy_byte :: u8

abbreviation (input) SPI_XFER_READY :: int where "SPI_XFER_READY \<equiv> 0"
abbreviation (input) SPI_XFER_OK :: int where "SPI_XFER_OK \<equiv> 1"
abbreviation (input) SPI_XFER_FAILED :: int where "SPI_XFER_FAILED \<equiv> - 1"

record sunxi_spi =
  sp_result :: int
  sp_irqnum :: u16
  sp_base :: u64
  sp_mode_type :: spi_mode_type
  sp_pclk :: nat
  sp_bus_clk :: nat
  sp_mclk :: nat
  sp_reset :: nat
  sp_port :: nat
  sp_transfer :: "hal_spi_tr option"

record 'h spi = sunxi_spi +
  sp_hw :: 'h

record sunxi_spi_params =
  par_reg_base :: u64
  par_irq_num :: u16
  par_gpio :: "nat list"
  par_mux :: nat
  par_driv_level :: nat

record 'h spi_plat =
  plat_readl :: "u64 \<Rightarrow> 'h \<Rightarrow> u32 \<times> 'h"
  plat_writel :: "u32 \<Rightarrow> u64 \<Rightarrow> 'h \<Rightarrow> 'h"
  plat_readb :: "u64 \<Rightarrow> 'h \<Rightarrow> u8 \<times> 'h"
  plat_writeb :: "u8 \<Rightarrow> u64 \<Rightarrow> 'h \<Rightarrow> 'h"
  plat_tick :: "'h \<Rightarrow> 'h"
  plat_irq :: "u16 \<Rightarrow> 'h \<Rightarrow> bool"
  request_irq :: "u16 \<Rightarrow> 'h \<Rightarrow> int \<times> 'h"
  enable_irq :: "u16 \<Rightarrow> 'h \<Rightarrow> 'h"
  disable_irq :: "u16 \<Rightarrow> 'h \<Rightarrow> 'h"
  free_irq :: "u16 \<Rightarrow> 'h \<Rightarrow> 'h"
  gpio_pinmux_set_function :: "nat \<Rightarrow> nat \<Rightarrow> 'h \<Rightarrow> int \<times> 'h"
  gpio_set_driving_level :: "nat \<Rightarrow> nat \<Rightarrow> 'h \<Rightarrow> int \<times> 'h"
  gpio_set_pull :: "nat \<Rightarrow> nat \<Rightarrow> 'h \<Rightarrow> int \<times> 'h"
  reset_control_get :: "nat \<Rightarrow> 'h \<Rightarrow> nat \<times> 'h"
  reset_control_assert :: "nat \<Rightarrow> 'h \<Rightarrow> 'h"
  reset_control_deassert :: "nat \<Rightarrow> 'h \<Rightarrow> 'h"
  reset_control_put :: "nat \<Rightarrow> 'h \<Rightarrow> 'h"
  clock_get :: "nat \<Rightarrow> 'h \<Rightarrow> nat \<times> 'h"
  clock_put :: "nat \<Rightarrow> 'h \<Rightarrow> 'h"
  plat_clk_set_parent :: "nat \<Rightarrow> nat \<Rightarrow> 'h \<Rightarrow> int \<times> 'h"
  plat_clk_set_rate :: "nat \<Rightarrow> u32 \<Rightarrow> 'h \<Rightarrow> int \<times> 'h"
  plat_clk_get_rate :: "nat \<Rightarrow> 'h \<Rightarrow> u32 \<times> 'h"
  clock_enable :: "nat \<Rightarrow> 'h \<Rightarrow> int \<times> 'h"
  clock_disable :: "nat \<Rightarrow> 'h \<Rightarrow> int \<times> 'h"

abbreviation (input) SPI_MASTER_OK :: int where "SPI_MASTER_OK \<equiv> 0"
abbreviation (input) SPI_MASTER_INVALID_PARAMETER :: int where "SPI_MASTER_INVALID_PARAMETER \<equiv> - 1"
abbreviation (input) SPI_MASTER_ERROR_TIMEOUT :: int where "SPI_MASTER_ERROR_TIMEOUT \<equiv> - 4"
abbreviation (input) SPI_MASTER_ERROR :: int where "SPI_MASTER_ERROR \<equiv> - 6"

section \<open>Registers\<close>

abbreviation (input) SPI_GC_REG :: u64 where "SPI_GC_REG \<equiv> 0x04"
abbreviation (input) SPI_TC_REG :: u64 where "SPI_TC_REG \<equiv> 0x08"
abbreviation (input) SPI_INT_CTL_REG :: u64 where "SPI_INT_CTL_REG \<equiv> 0x10"
abbreviation (input) SPI_INT_STA_REG :: u64 where "SPI_INT_STA_REG \<equiv> 0x14"
abbreviation (input) SPI_FIFO_CTL_REG :: u64 where "SPI_FIFO_CTL_REG \<equiv> 0x18"
abbreviation (input) SPI_FIFO_STA_REG :: u64 where "SPI_FIFO_STA_REG \<equiv> 0x1C"
abbreviation (input) SPI_BURST_CNT_REG :: u64 where "SPI_BURST_CNT_REG \<equiv> 0x30"
abbreviation (input) SPI_TRANSMIT_CNT_REG :: u64 where "SPI_TRANSMIT_CNT_REG \<equiv> 0x34"
abbreviation (input) SPI_BCC_REG :: u64 where "SPI_BCC_REG \<equiv> 0x38"
abbreviation (input) SPI_TXDATA_REG :: u64 where "SPI_TXDATA_REG \<equiv> 0x200"
abbreviation (input) SPI_RXDATA_REG :: u64 where "SPI_RXDATA_REG \<equiv> 0x300"

abbreviation (input) MAX_FIFU :: u32 where "MAX_FIFU \<equiv> 64"
abbreviation (input) SPI_MAX_FREQUENCY :: u32 where "SPI_MAX_FREQUENCY \<equiv> 100000000"
abbreviation (input) SPI_HIGH_FREQUENCY :: u32 where "SPI_HIGH_FREQUENCY \<equiv> 60000000"
abbreviation (input) SPI_LOW_FREQUENCY :: u32 where "SPI_LOW_FREQUENCY \<equiv> 24000000"
abbreviation (input) SPI_MOD_CLK :: u32 where "SPI_MOD_CLK \<equiv> 50000000"

abbreviation (input) SPI_GC_EN :: u32 where "SPI_GC_EN \<equiv> 0x1"
abbreviation (input) SPI_GC_MODE :: u32 where "SPI_GC_MODE \<equiv> 0x2"
abbreviation (input) SPI_GC_TP_EN :: u32 where "SPI_GC_TP_EN \<equiv> 0x80"
abbreviation (input) SPI_GC_SRST :: u32 where "SPI_GC_SRST \<equiv> 0x80000000"

abbreviation (input) SPI_TC_PHA :: u32 where "SPI_TC_PHA \<equiv> 0x1"
abbreviation (input) SPI_TC_POL :: u32 where "SPI_TC_POL \<equiv> 0x2"
abbreviation (input) SPI_TC_SPOL :: u32 where "SPI_TC_SPOL \<equiv> 0x4"
abbreviation (input) SPI_TC_SSCTL :: u32 where "SPI_TC_SSCTL \<equiv> 0x8"
abbreviation (input) SPI_TC_SS_MASK :: u32 where "SPI_TC_SS_MASK \<equiv> 0x30"
abbreviation (input) SPI_TC_SS_OWNER :: u32 where "SPI_TC_SS_OWNER \<equiv> 0x40"
abbreviation (input) SPI_TC_DHB :: u32 where "SPI_TC_DHB \<equiv> 0x100"
abbreviation (input) SPI_TC_DDB :: u32 where "SPI_TC_DDB \<equiv> 0x200"
abbreviation (input) SPI_TC_SDC :: u32 where "SPI_TC_SDC \<equiv> 0x800"
abbreviation (input) SPI_TC_FBS :: u32 where "SPI_TC_FBS \<equiv> 0x1000"
abbreviation (input) SPI_TC_SDM :: u32 where "SPI_TC_SDM \<equiv> 0x2000"
abbreviation (input) SPI_TC_XCH :: u32 where "SPI_TC_XCH \<equiv> 0x80000000"

abbreviation (input) SPI_INT_STA_TC :: u32 where "SPI_INT_STA_TC \<equiv> 0x1000"
abbreviation (input) SPI_INT_STA_ERR :: u32 where "SPI_INT_STA_ERR \<equiv> 0x700"
abbreviation (input) SPI_INTEN_MASK :: u32 where "SPI_INTEN_MASK \<equiv> 0x3F77"
abbreviation (input) SPI_INT_STA_MASK :: u32 where "SPI_INT_STA_MASK \<equiv> 0x3F77"

abbreviation (input) SPI_FIFO_CTL_RX_LEVEL :: u32 where "SPI_FIFO_CTL_RX_LEVEL \<equiv> 0xFF"
abbreviation (input) SPI_FIFO_CTL_RX_RST :: u32 where "SPI_FIFO_CTL_RX_RST \<equiv> 0x8000"
abbreviation (input) SPI_FIFO_CTL_TX_LEVEL :: u32 where "SPI_FIFO_CTL_TX_LEVEL \<equiv> 0xFF0000"
abbreviation (input) SPI_FIFO_CTL_TX_RST :: u32 where "SPI_FIFO_CTL_TX_RST \<equiv> 0x80000000"
abbreviation (input) SPI_FIFO_CTL_DRQEN_MASK :: u32 where "SPI_FIFO_CTL_DRQEN_MASK \<equiv> 0x1000100"
abbreviation (input) SPI_FIFO_STA_RX_CNT :: u32 where "SPI_FIFO_STA_RX_CNT \<equiv> 0xFF"
abbreviation (input) SPI_FIFO_STA_TX_CNT :: u32 where "SPI_FIFO_STA_TX_CNT \<equiv> 0xFF0000"

abbreviation (input) SPI_CNT_MASK :: u32 where "SPI_CNT_MASK \<equiv> 0xFFFFFF"
abbreviation (input) SPI_BCC_DUAL_MODE :: u32 where "SPI_BCC_DUAL_MODE \<equiv> 0x10000000"
abbreviation (input) SPI_BCC_QUAD_MODE :: u32 where "SPI_BCC_QUAD_MODE \<equiv> 0x20000000"

abbreviation (input) SPI_PHA_ACTIVE :: u32 where "SPI_PHA_ACTIVE \<equiv> 0x01"
abbreviation (input) SPI_POL_ACTIVE :: u32 where "SPI_POL_ACTIVE \<equiv> 0x02"
abbreviation (input) SPI_CS_HIGH_ACTIVE :: u32 where "SPI_CS_HIGH_ACTIVE \<equiv> 0x04"
abbreviation (input) SPI_LSB_FIRST_ACTIVE :: u32 where "SPI_LSB_FIRST_ACTIVE \<equiv> 0x08"
abbreviation (input) SPI_DUMMY_ONE_ACTIVE :: u32 where "SPI_DUMMY_ONE_ACTIVE \<equiv> 0x10"
abbreviation (input) SPI_RECEIVE_ALL_ACTIVE :: u32 where "SPI_RECEIVE_ALL_ACTIVE \<equiv> 0x20"

section \<open>Register accesses\<close>

definition hal_readl :: "'h spi_plat \<Rightarrow> u64 \<Rightarrow> 'h spi \<Rightarrow> u32 \<times> 'h spi" where
  "hal_readl P off s =
     (let (v, h) = plat_readl P (sp_base s + off) (sp_hw s) in (v, s\<lparr>sp_hw := h\<rparr>))"

definition hal_writel :: "'h spi_plat \<Rightarrow> u32 \<Rightarrow> u64 \<Rightarrow> 'h spi \<Rightarrow> 'h spi" where
  "hal_writel P v off s = s\<lparr>sp_hw := plat_writel P v (sp_base s + off) (sp_hw s)\<rparr>"

definition hal_readb :: "'h spi_plat \<Rightarrow> u64 \<Rightarrow> 'h spi \<Rightarrow> u8 \<times> 'h spi" where
  "hal_readb P off s =
     (let (v, h) = plat_readb P (sp_base s + off) (sp_hw s) in (v, s\<lparr>sp_hw := h\<rparr>))"

definition hal_writeb :: "'h spi_plat \<Rightarrow> u8 \<Rightarrow> u64 \<Rightarrow> 'h spi \<Rightarrow> 'h spi" where
  "hal_writeb P v off s = s\<lparr>sp_hw := plat_writeb P v (sp_base s + off) (sp_hw s)\<rparr>"

text \<open>Read a register, compute and write back, as most functions below do.\<close>

definition update_reg :: "'h spi_plat \<Rightarrow> u64 \<Rightarrow> (u32 \<Rightarrow> u32) \<Rightarrow> 'h spi \<Rightarrow> 'h spi" where
  "update_reg P off f s = (let (v, s) = hal_readl P off s in hal_writel P (f v) off s)"

definition set_bits :: "bool \<Rightarrow> u32 \<Rightarrow> u32 \<Rightarrow> u32" where
  "set_bits c m v = (if c then v OR m else v AND NOT m)"

text \<open>\<open>spi_dump_reg\<close> prints the registers; what remains of it is that it reads them.\<close>

definition spi_dump_reg :: "'h spi_plat \<Rightarrow> u64 \<Rightarrow> nat \<Rightarrow> 'h spi \<Rightarrow> 'h spi" where
  "spi_dump_reg P off n s =
     fold (\<lambda>i s. snd (hal_readl P (off + of_nat (4 * i)) s)) [0 ..< (n + 3) div 4] s"

definition spi_set_cs :: "'h spi_plat \<Rightarrow> u32 \<Rightarrow> 'h spi \<Rightarrow> int \<times> 'h spi" where
  "spi_set_cs P cs s =
     (let (reg_val, s) = hal_readl P SPI_TC_REG s
      in if cs < 4
         then (SPI_MASTER_OK,
               hal_writel P ((reg_val AND NOT SPI_TC_SS_MASK) OR push_bit 4 cs) SPI_TC_REG s)
         else (SPI_MASTER_INVALID_PARAMETER, s))"

definition tc_config :: "u32 \<Rightarrow> u32 \<Rightarrow> u32" where
  "tc_config config v =
     (let v = set_bits (config AND SPI_POL_ACTIVE \<noteq> 0) SPI_TC_POL v;
          v = set_bits (config AND SPI_PHA_ACTIVE \<noteq> 0) SPI_TC_PHA v;
          v = set_bits (config AND SPI_CS_HIGH_ACTIVE = 0) SPI_TC_SPOL v;
          v = set_bits (config AND SPI_LSB_FIRST_ACTIVE \<noteq> 0) SPI_TC_FBS v;
          v = set_bits (config AND SPI_DUMMY_ONE_ACTIVE \<noteq> 0) SPI_TC_DDB v;
          v = set_bits (config AND SPI_RECEIVE_ALL_ACTIVE = 0) SPI_TC_DHB v
      in v AND NOT SPI_TC_SSCTL)"

definition spi_config_tc :: "'h spi_plat \<Rightarrow> u32 \<Rightarrow> 'h spi \<Rightarrow> 'h spi" where
  "spi_config_tc P config s = update_reg P SPI_TC_REG (tc_config config) s"

definition spi_sample_delay :: "'h spi_plat \<Rightarrow> u32 \<Rightarrow> u32 \<Rightarrow> 'h spi \<Rightarrow> 'h spi" where
  "spi_sample_delay P sdm sdc s =
     (let (org_val, s) = hal_readl P SPI_TC_REG s;
          reg_val = set_bits (sdc \<noteq> 0) SPI_TC_SDC (set_bits (sdm \<noteq> 0) SPI_TC_SDM org_val)
      in if reg_val \<noteq> org_val then hal_writel P reg_val SPI_TC_REG s else s)"

definition spi_start_xfer :: "'h spi_plat \<Rightarrow> 'h spi \<Rightarrow> 'h spi" where
  "spi_start_xfer P s = update_reg P SPI_TC_REG (\<lambda>v. v OR SPI_TC_XCH) s"

definition spi_enable_bus :: "'h spi_plat \<Rightarrow> 'h spi \<Rightarrow> 'h spi" where
  "spi_enable_bus P s = update_reg P SPI_GC_REG (\<lambda>v. v OR SPI_GC_EN) s"

definition spi_disable_bus :: "'h spi_plat \<Rightarrow> 'h spi \<Rightarrow> 'h spi" where
  "spi_disable_bus P s = update_reg P SPI_GC_REG (\<lambda>v. v AND NOT SPI_GC_EN) s"

definition spi_set_master :: "'h spi_plat \<Rightarrow> 'h spi \<Rightarrow> 'h spi" where
  "spi_set_master P s = update_reg P SPI_GC_REG (\<lambda>v. v OR SPI_GC_MODE) s"

definition spi_soft_reset :: "'h spi_plat \<Rightarrow> 'h spi \<Rightarrow> 'h spi" where
  "spi_soft_reset P s = update_reg P SPI_GC_REG (\<lambda>v. v OR SPI_GC_SRST) s"

definition spi_enable_tp :: "'h spi_plat \<Rightarrow> 'h spi \<Rightarrow> 'h spi" where
  "spi_enable_tp P s = update_reg P SPI_GC_REG (\<lambda>v. v OR SPI_GC_TP_EN) s"

definition spi_ss_owner :: "'h spi_plat \<Rightarrow> u32 \<Rightarrow> 'h spi \<Rightarrow> 'h spi" where
  "spi_ss_owner P on_off s =
     update_reg P SPI_TC_REG (set_bits (on_off AND 1 \<noteq> 0) SPI_TC_SS_OWNER) s"

definition spi_enable_irq :: "'h spi_plat \<Rightarrow> u32 \<Rightarrow> 'h spi \<Rightarrow> 'h spi" where
  "spi_enable_irq P bitmap s =
     update_reg P SPI_INT_CTL_REG (\<lambda>v. v OR (bitmap AND SPI_INTEN_MASK)) s"

definition spi_disable_irq :: "'h spi_plat \<Rightarrow> u32 \<Rightarrow> 'h spi \<Rightarrow> 'h spi" where
  "spi_disable_irq P bitmap s =
     update_reg P SPI_INT_CTL_REG (\<lambda>v. v AND NOT (bitmap AND SPI_INTEN_MASK)) s"

definition spi_disable_dma_irq :: "'h spi_plat \<Rightarrow> u32 \<Rightarrow> 'h spi \<Rightarrow> 'h spi" where
  "spi_disable_dma_irq P bitmap s =
     update_reg P SPI_FIFO_CTL_REG (\<lambda>v. v AND NOT (bitmap AND SPI_FIFO_CTL_DRQEN_MASK)) s"

definition spi_qry_irq_enable :: "'h spi_plat \<Rightarrow> 'h spi \<Rightarrow> u32 \<times> 'h spi" where
  "spi_qry_irq_enable P s =
     (let (v, s) = hal_readl P SPI_INT_CTL_REG s in (SPI_INTEN_MASK AND v, s))"

definition spi_qry_irq_pending :: "'h spi_plat \<Rightarrow> 'h spi \<Rightarrow> u32 \<times> 'h spi" where
  "spi_qry_irq_pending P s =
     (let (v, s) = hal_readl P SPI_INT_STA_REG s in (SPI_INT_STA_MASK AND v, s))"

definition spi_clr_irq_pending :: "'h spi_plat \<Rightarrow> u32 \<Rightarrow> 'h spi \<Rightarrow> 'h spi" where
  "spi_clr_irq_pending P pending_bit s =
     hal_writel P (pending_bit AND SPI_INT_STA_MASK) SPI_INT_STA_REG s"

definition spi_query_txfifo :: "'h spi_plat \<Rightarrow> 'h spi \<Rightarrow> u32 \<times> 'h spi" where
  "spi_query_txfifo P s =
     (let (v, s) = hal_readl P SPI_FIFO_STA_REG s in (drop_bit 16 (SPI_FIFO_STA_TX_CNT AND v), s))"

definition spi_query_rxfifo :: "'h spi_plat \<Rightarrow> 'h spi \<Rightarrow> u32 \<times> 'h spi" where
  "spi_query_rxfifo P s =
     (let (v, s) = hal_readl P SPI_FIFO_STA_REG s in (drop_bit 0 (SPI_FIFO_STA_RX_CNT AND v), s))"

definition fifo_reset_value :: "u32 \<Rightarrow> u32" where
  "fifo_reset_value v =
     (let v = v OR (SPI_FIFO_CTL_RX_RST OR SPI_FIFO_CTL_TX_RST);
          v = v AND NOT (SPI_FIFO_CTL_RX_LEVEL OR SPI_FIFO_CTL_TX_LEVEL)
      in v OR (push_bit 16 0x20 OR 0x20))"

definition spi_reset_fifo :: "'h spi_plat \<Rightarrow> 'h spi \<Rightarrow> 'h spi" where
  "spi_reset_fifo P s = update_reg P SPI_FIFO_CTL_REG fifo_reset_value s"

definition count_value :: "u32 \<Rightarrow> u32 \<Rightarrow> u32" where
  "count_value n v = (v AND NOT SPI_CNT_MASK) OR (SPI_CNT_MASK AND n)"

definition bcc_value :: "u32 \<Rightarrow> u32 \<Rightarrow> u32 \<Rightarrow> u32" where
  "bcc_value stc_len dummy_cnt v =
     (let v = count_value stc_len v; v = v AND NOT (push_bit 24 0xF) in v OR push_bit 24 dummy_cnt)"

definition spi_set_bc_tc_stc :: "'h spi_plat \<Rightarrow> u32 \<Rightarrow> u32 \<Rightarrow> u32 \<Rightarrow> u32 \<Rightarrow> 'h spi \<Rightarrow> 'h spi" where
  "spi_set_bc_tc_stc P tx rx stc dummy s =
     (let s = update_reg P SPI_BURST_CNT_REG (count_value (tx + rx + dummy)) s;
          s = update_reg P SPI_TRANSMIT_CNT_REG (count_value tx) s
      in update_reg P SPI_BCC_REG (bcc_value stc dummy) s)"

definition spi_disable_dual :: "'h spi_plat \<Rightarrow> 'h spi \<Rightarrow> 'h spi" where
  "spi_disable_dual P s = update_reg P SPI_BCC_REG (\<lambda>v. v AND NOT SPI_BCC_DUAL_MODE) s"

definition spi_enable_dual :: "'h spi_plat \<Rightarrow> 'h spi \<Rightarrow> 'h spi" where
  "spi_enable_dual P s =
     update_reg P SPI_BCC_REG (\<lambda>v. (v AND NOT SPI_BCC_QUAD_MODE) OR SPI_BCC_DUAL_MODE) s"

definition spi_disable_quad :: "'h spi_plat \<Rightarrow> 'h spi \<Rightarrow> 'h spi" where
  "spi_disable_quad P s = update_reg P SPI_BCC_REG (\<lambda>v. v AND NOT SPI_BCC_QUAD_MODE) s"

definition spi_enable_quad :: "'h spi_plat \<Rightarrow> 'h spi \<Rightarrow> 'h spi" where
  "spi_enable_quad P s = update_reg P SPI_BCC_REG (\<lambda>v. v OR SPI_BCC_QUAD_MODE) s"

end
