(* ===== verification/Hal_Spi.thy ===== *)
theory Hal_Spi
  imports Spi_Regs
begin

unbundle bit_operations_syntax

text \<open>
  The SPI controller driver, second part (\<open>spi/hal_spi.c\<close>): choosing the mode of a transfer,
  moving the bytes by the CPU, the interrupt handler, completion, and the calls of the interface
  (\<open>hal_spi_xfer\<close>, \<open>hal_spi_hw_config\<close>, \<open>aw_hal_spi_init\<close>, \<open>hal_spi_deinit\<close>,
  \<open>hal_spi_write\<close>, \<open>hal_spi_read\<close>).

  The interrupt handler runs between two steps of the interrupted code, wherever \<open>plat_irq\<close> says
  so (\<open>take_irq\<close>); a step is one of the register functions of \<open>Spi_Regs\<close>, one access to a FIFO
  or one turn of a polling loop.
\<close>

section \<open>The interrupt handler\<close>

definition spi_irq_handler :: "'h spi_plat \<Rightarrow> 'h spi \<Rightarrow> 'h spi" where
  "spi_irq_handler P s =
     (let (enable, s) = spi_qry_irq_enable P s;
          (status, s) = spi_qry_irq_pending P s;
          s = spi_clr_irq_pending P status s;
          s = s\<lparr>sp_result := SPI_XFER_OK\<rparr>
      in if status AND SPI_INT_STA_TC \<noteq> 0
         then spi_disable_irq P (SPI_INT_STA_TC OR SPI_INT_STA_ERR) s
         else if status AND SPI_INT_STA_ERR \<noteq> 0
         then (spi_disable_irq P (SPI_INT_STA_TC OR SPI_INT_STA_ERR) s)\<lparr>sp_result := SPI_XFER_FAILED\<rparr>
         else s)"

definition take_irq :: "'h spi_plat \<Rightarrow> 'h spi \<Rightarrow> 'h spi" where
  "take_irq P s = (if plat_irq P (sp_irqnum s) (sp_hw s) then spi_irq_handler P s else s)"

section \<open>The mode of a transfer\<close>

abbreviation (input) LANES_DUAL :: "3 word" where "LANES_DUAL \<equiv> 2"
abbreviation (input) LANES_QUAD :: "3 word" where "LANES_QUAD \<equiv> 4"

definition spi_lanes :: "'h spi_plat \<Rightarrow> 3 word \<Rightarrow> 'h spi \<Rightarrow> 'h spi" where
  "spi_lanes P nbits s =
     (if nbits = LANES_QUAD then spi_enable_quad P (spi_disable_dual P s)
      else if nbits = LANES_DUAL then spi_enable_dual P (spi_disable_quad P s)
      else spi_disable_dual P (spi_disable_quad P s))"

definition spi_mode_check :: "'h spi_plat \<Rightarrow> 'h spi \<Rightarrow> (int \<times> 'h spi) option" where
  "spi_mode_check P s =
     (if sp_mode_type s \<noteq> MODE_TYPE_NULL then Some (SPI_MASTER_INVALID_PARAMETER, s)
      else do {
        t \<leftarrow> sp_transfer s;
        let dummy = ucast (tr_dummy_byte t);
        Some (SPI_MASTER_OK,
          if tr_tx_buf t \<noteq> None \<and> tr_rx_buf t \<noteq> None then
            (let s = spi_set_bc_tc_stc P (tr_tx_len t) (tr_rx_len t) (tr_tx_single_len t) dummy s;
                 s = s\<lparr>sp_mode_type := FULL_DUPLEX_TX_RX\<rparr>
             in spi_lanes P (tr_rx_nbits t) s)
          else if tr_tx_buf t \<noteq> None then
            (let s = spi_lanes P (tr_tx_nbits t) s
             in if tr_tx_nbits t = LANES_QUAD then
                  (spi_set_bc_tc_stc P (tr_tx_len t) 0 (tr_tx_single_len t) dummy s)
                    \<lparr>sp_mode_type := QUAD_HALF_DUPLEX_TX\<rparr>
                else if tr_tx_nbits t = LANES_DUAL then
                  (spi_set_bc_tc_stc P (tr_tx_len t) 0 (tr_tx_single_len t) dummy s)
                    \<lparr>sp_mode_type := DUAL_HALF_DUPLEX_TX\<rparr>
                else
                  (spi_set_bc_tc_stc P (tr_tx_len t) 0 (tr_tx_len t) dummy s)
                    \<lparr>sp_mode_type := SGLE_HALF_DUPLEX_TX\<rparr>)
          else if tr_rx_buf t \<noteq> None then
            (let s = spi_lanes P (tr_rx_nbits t) s;
                 s = s\<lparr>sp_mode_type :=
                    (if tr_rx_nbits t = LANES_QUAD then QUAD_HALF_DUPLEX_RX
                     else if tr_rx_nbits t = LANES_DUAL then DUAL_HALF_DUPLEX_RX
                     else SGLE_HALF_DUPLEX_RX)\<rparr>
             in spi_set_bc_tc_stc P 0 (tr_rx_len t) 0 dummy s)
          else s)
      })"

section \<open>Moving the bytes\<close>

text \<open>
  The wait for a FIFO, \<open>while (cond && poll_time--);\<close> on an unsigned counter: when the counter
  runs out it is left at \<open>0xFFFFFFFF\<close>, not at zero. \<open>busy\<close> is the condition, a function of
  the register that is polled.
\<close>

function spi_wait_txfifo :: "'h spi_plat \<Rightarrow> u32 \<Rightarrow> 'h spi \<Rightarrow> u32 \<times> 'h spi" where
  "spi_wait_txfifo P poll_time s =
     (let (n, s) = spi_query_txfifo P (take_irq P s)
      in if n \<ge> MAX_FIFU
         then if poll_time = 0 then (poll_time - 1, s) else spi_wait_txfifo P (poll_time - 1) s
         else (poll_time, s))"
  by pat_completeness auto
termination
  by (relation "measure (\<lambda>(P, poll_time, s). unat poll_time)") (simp_all add: unat_minus_one unat_gt_0)

function spi_wait_rxfifo :: "'h spi_plat \<Rightarrow> u32 \<Rightarrow> 'h spi \<Rightarrow> u32 \<times> 'h spi" where
  "spi_wait_rxfifo P poll_time s =
     (let (n, s) = spi_query_rxfifo P (take_irq P s)
      in if n = 0
         then if poll_time = 0 then (poll_time - 1, s) else spi_wait_rxfifo P (poll_time - 1) s
         else (poll_time, s))"
  by pat_completeness auto
termination
  by (relation "measure (\<lambda>(P, poll_time, s). unat poll_time)") (simp_all add: unat_minus_one unat_gt_0)

declare spi_wait_txfifo.simps [simp del] spi_wait_rxfifo.simps [simp del]

fun cpu_write_loop ::
  "'h spi_plat \<Rightarrow> u8 list \<Rightarrow> nat \<Rightarrow> nat \<Rightarrow> u32 \<Rightarrow> 'h spi \<Rightarrow> (int \<times> 'h spi) option"
where
  "cpu_write_loop P buf i 0 poll_time s = Some (SPI_MASTER_OK, s)"
| "cpu_write_loop P buf i (Suc len) poll_time s =
     (if i < length buf then
        let s = hal_writeb P (buf ! i) SPI_TXDATA_REG (take_irq P s);
            (poll_time, s) = spi_wait_txfifo P poll_time s
        in if poll_time = 0 then Some (SPI_MASTER_ERROR_TIMEOUT, spi_dump_reg P 0 0x60 s)
           else cpu_write_loop P buf (Suc i) len poll_time s
      else None)"

definition spi_cpu_write :: "'h spi_plat \<Rightarrow> 'h spi \<Rightarrow> (int \<times> 'h spi) option" where
  "spi_cpu_write P s = do {
     t \<leftarrow> sp_transfer s;
     case tr_tx_buf t of
       None \<Rightarrow> Some (SPI_MASTER_INVALID_PARAMETER, s)
     | Some buf \<Rightarrow> cpu_write_loop P buf 0 (unat (tr_tx_len t)) 0xFF s
   }"

text \<open>\<open>buf\<close> is the receive buffer of the current transfer.\<close>

fun cpu_read_loop ::
  "'h spi_plat \<Rightarrow> u8 list \<Rightarrow> nat \<Rightarrow> nat \<Rightarrow> u32 \<Rightarrow> 'h spi \<Rightarrow> (int \<times> u8 list \<times> 'h spi) option"
where
  "cpu_read_loop P buf n 0 poll_time s = Some (SPI_MASTER_OK, buf, s)"
| "cpu_read_loop P buf n (Suc len) poll_time s =
     (let (poll_time, s) = spi_wait_rxfifo P poll_time s
      in if poll_time = 0 then Some (SPI_MASTER_ERROR_TIMEOUT, buf, spi_dump_reg P 0 0x60 s)
         else if n < length buf then
           let (v, s) = hal_readb P SPI_RXDATA_REG (take_irq P s)
           in cpu_read_loop P (buf[n := v]) (Suc n) len poll_time s
         else None)"

definition spi_cpu_read :: "'h spi_plat \<Rightarrow> 'h spi \<Rightarrow> (int \<times> 'h spi) option" where
  "spi_cpu_read P s = do {
     t \<leftarrow> sp_transfer s;
     case tr_rx_buf t of
       None \<Rightarrow> Some (SPI_MASTER_INVALID_PARAMETER, s)
     | Some buf \<Rightarrow> do {
         (ret, buf, s) \<leftarrow> cpu_read_loop P buf 0 (unat (tr_rx_len t)) 0xFF s;
         Some (ret, s\<lparr>sp_transfer := Some (t\<lparr>tr_rx_buf := Some buf\<rparr>)\<rparr>)
       }
   }"

definition spi_transfer_cpu :: "'h spi_plat \<Rightarrow> 'h spi \<Rightarrow> (int \<times> 'h spi) option" where
  "spi_transfer_cpu P s =
     (if sp_mode_type s \<in> {SGLE_HALF_DUPLEX_RX, DUAL_HALF_DUPLEX_RX, QUAD_HALF_DUPLEX_RX} then do {
        let s = spi_clr_irq_pending P SPI_INT_STA_MASK (take_irq P s);
        let s = spi_start_xfer P (take_irq P s);
        (_, s) \<leftarrow> spi_cpu_read P s;
        Some (SPI_MASTER_OK, s)
      }
      else if sp_mode_type s \<in> {SGLE_HALF_DUPLEX_TX, DUAL_HALF_DUPLEX_TX, QUAD_HALF_DUPLEX_TX} then do {
        let s = spi_start_xfer P (take_irq P s);
        (_, s) \<leftarrow> spi_cpu_write P s;
        Some (SPI_MASTER_OK, s)
      }
      else if sp_mode_type s = FULL_DUPLEX_TX_RX then do {
        let s = spi_start_xfer P (take_irq P s);
        (_, s) \<leftarrow> spi_cpu_write P s;
        (_, s) \<leftarrow> spi_cpu_read P s;
        Some (SPI_MASTER_OK, s)
      }
      else Some (SPI_MASTER_INVALID_PARAMETER, s))"

section \<open>Completion\<close>

function complete_loop :: "'h spi_plat \<Rightarrow> u32 \<Rightarrow> 'h spi \<Rightarrow> u32 \<times> 'h spi" where
  "complete_loop P timeout s =
     (let s = take_irq P s
      in if sp_result s = 0
         then if timeout = 0 then (timeout - 1, s)
              else complete_loop P (timeout - 1) (s\<lparr>sp_hw := plat_tick P (sp_hw s)\<rparr>)
         else (timeout, s))"
  by pat_completeness auto
termination
  by (relation "measure (\<lambda>(P, timeout, s). unat timeout)") (simp_all add: unat_minus_one unat_gt_0)

declare complete_loop.simps [simp del]

definition spi_cpu_complete :: "'h spi_plat \<Rightarrow> 'h spi \<Rightarrow> int \<times> 'h spi" where
  "spi_cpu_complete P s =
     (let (timeout, s) = complete_loop P 0xFFFF s
      in if timeout = 0 then (SPI_MASTER_ERROR_TIMEOUT, spi_dump_reg P 0 0x60 s)
         else if sp_result s = SPI_XFER_FAILED then (SPI_MASTER_ERROR, spi_dump_reg P 0 0x60 s)
         else (SPI_MASTER_OK, s))"

section \<open>A transfer\<close>

text \<open>
  \<open>hal_spi_xfer\<close> on one controller, up to its label \<open>end\<close>; the label itself resets the mode.
\<close>

definition hal_spi_xfer_body ::
  "'h spi_plat \<Rightarrow> hal_spi_tr option \<Rightarrow> 'h spi \<Rightarrow> (int \<times> 'h spi) option"
where
  "hal_spi_xfer_body P transfer s =
     (case transfer of
        None \<Rightarrow> Some (SPI_MASTER_INVALID_PARAMETER, s)
      | Some t \<Rightarrow>
        if tr_tx_buf t = None \<and> tr_rx_buf t = None \<or> tr_tx_len t = 0 \<and> tr_rx_buf t = None
        then Some (SPI_MASTER_INVALID_PARAMETER, s)
        else do {
          let s = s\<lparr>sp_result := SPI_XFER_READY, sp_transfer := Some t\<rparr>;
          (ret, s) \<leftarrow> spi_mode_check P s;
          if ret \<noteq> 0 then Some (SPI_MASTER_INVALID_PARAMETER, s)
          else do {
            let s = spi_clr_irq_pending P SPI_INT_STA_MASK (take_irq P s);
            let s = spi_disable_dma_irq P SPI_FIFO_CTL_DRQEN_MASK (take_irq P s);
            let s = spi_reset_fifo P (take_irq P s);
            let s = spi_enable_irq P (SPI_INT_STA_TC OR SPI_INT_STA_ERR) (take_irq P s);
            (ret, s) \<leftarrow> spi_transfer_cpu P s;
            if ret \<noteq> 0 then Some (SPI_MASTER_ERROR, s)
            else if sp_mode_type s \<noteq> MODE_TYPE_NULL then do {
              let (ret, s) = spi_cpu_complete P s;
              Some (if ret \<noteq> 0 then SPI_MASTER_ERROR else SPI_MASTER_OK, s)
            }
            else Some (SPI_MASTER_INVALID_PARAMETER, s)
          }
        })"

definition spi_xfer_on :: "'h spi_plat \<Rightarrow> hal_spi_tr option \<Rightarrow> 'h spi \<Rightarrow> (int \<times> 'h spi) option" where
  "spi_xfer_on P transfer s = do {
     (ret, s) \<leftarrow> hal_spi_xfer_body P transfer s;
     Some (ret, s\<lparr>sp_mode_type := MODE_TYPE_NULL\<rparr>)
   }"

section \<open>Clocks and pins\<close>

definition SPI0_PARAMS :: sunxi_spi_params where
  "SPI0_PARAMS = \<lparr>par_reg_base = 0x04025000, par_irq_num = 31,
     par_gpio = [64 + 2, 64 + 4, 64 + 5, 64 + 3, 64 + 6, 64 + 7], par_mux = 2, par_driv_level = 2\<rparr>"

definition SPI1_PARAMS :: sunxi_spi_params where
  "SPI1_PARAMS = \<lparr>par_reg_base = 0x04026000, par_irq_num = 32,
     par_gpio = [96 + 11, 96 + 12, 96 + 13, 96 + 10, 96 + 15, 96 + 14], par_mux = 4, par_driv_level = 2\<rparr>"

definition g_sunxi_spi_params :: "sunxi_spi_params list" where
  "g_sunxi_spi_params = [SPI0_PARAMS, SPI1_PARAMS]"

abbreviation (input) HAL_SPI_MASTER_MAX :: nat where "HAL_SPI_MASTER_MAX \<equiv> 2"

definition on_hw :: "('h \<Rightarrow> 'a \<times> 'h) \<Rightarrow> 'h spi \<Rightarrow> 'a \<times> 'h spi" where
  "on_hw f s = (let (r, h) = f (sp_hw s) in (r, s\<lparr>sp_hw := h\<rparr>))"

definition do_hw :: "('h \<Rightarrow> 'h) \<Rightarrow> 'h spi \<Rightarrow> 'h spi" where
  "do_hw f s = s\<lparr>sp_hw := f (sp_hw s)\<rparr>"

fun pins_init :: "'h spi_plat \<Rightarrow> nat \<Rightarrow> nat \<Rightarrow> nat list \<Rightarrow> 'h spi \<Rightarrow> int \<times> 'h spi" where
  "pins_init P mux lvl [] s = (SPI_MASTER_OK, s)"
| "pins_init P mux lvl (pin # pins) s =
     (let (r, s) = on_hw (gpio_pinmux_set_function P pin mux) s
      in if r \<noteq> 0 then (SPI_MASTER_ERROR, s)
         else let (r, s) = on_hw (gpio_set_driving_level P pin lvl) s
      in if r \<noteq> 0 then (SPI_MASTER_ERROR, s)
         else let (r, s) = on_hw (gpio_set_pull P pin 1) s
      in if r \<noteq> 0 then (SPI_MASTER_ERROR, s) else pins_init P mux lvl pins s)"

fun ports_init :: "'h spi_plat \<Rightarrow> sunxi_spi_params list \<Rightarrow> 'h spi \<Rightarrow> int \<times> 'h spi" where
  "ports_init P [] s = (SPI_MASTER_OK, s)"
| "ports_init P (par # pars) s =
     (let (r, s) = pins_init P (par_mux par) (par_driv_level par) (par_gpio par) s
      in if r \<noteq> 0 then (r, s) else ports_init P pars s)"

definition spi_pinctrl_init :: "'h spi_plat \<Rightarrow> 'h spi \<Rightarrow> int \<times> 'h spi" where
  "spi_pinctrl_init P s =
     (if sp_port s \<ge> HAL_SPI_MASTER_MAX then (SPI_MASTER_INVALID_PARAMETER, s)
      else ports_init P g_sunxi_spi_params s)"

text \<open>Identifiers of \<open>ccu-sun8iw20.h\<close> and \<open>rst-sun8iw20.h\<close>; those of port 2 are zero.\<close>

definition SUNXI_CLK_SPI :: "nat \<Rightarrow> nat" where
  "SUNXI_CLK_SPI p = (if p = 0 then 75 else if p = 1 then 76 else 0)"

definition SUNXI_CLK_BUS_SPI :: "nat \<Rightarrow> nat" where
  "SUNXI_CLK_BUS_SPI p = (if p = 0 then 77 else if p = 1 then 78 else 0)"

definition SUNXI_CLK_RST_SPI :: "nat \<Rightarrow> nat" where
  "SUNXI_CLK_RST_SPI p = (if p = 0 then 30 else if p = 1 then 31 else 0)"

abbreviation (input) SUNXI_CLK_PLL_SPI :: nat where "SUNXI_CLK_PLL_SPI \<equiv> 5"

definition spi_clk_init :: "'h spi_plat \<Rightarrow> u32 \<Rightarrow> 'h spi \<Rightarrow> int \<times> 'h spi" where
  "spi_clk_init P mode_clk s =
     (if sp_port s > 2 then (SPI_MASTER_INVALID_PARAMETER, s)
      else let
        (r, s) = on_hw (reset_control_get P (SUNXI_CLK_RST_SPI (sp_port s))) s;
        s = s\<lparr>sp_reset := r\<rparr>;
        s = do_hw (reset_control_deassert P (sp_reset s)) s;
        (c, s) = on_hw (clock_get P (SUNXI_CLK_SPI (sp_port s))) s;
        s = s\<lparr>sp_mclk := c\<rparr>;
        (c, s) = on_hw (clock_get P (SUNXI_CLK_BUS_SPI (sp_port s))) s;
        s = s\<lparr>sp_bus_clk := c\<rparr>;
        (c, s) = on_hw (clock_get P SUNXI_CLK_PLL_SPI) s;
        s = s\<lparr>sp_pclk := c\<rparr>;
        (ret, s) = on_hw (plat_clk_set_parent P (sp_mclk s) (sp_pclk s)) s
      in if ret \<noteq> 0 then (SPI_MASTER_ERROR, s)
      else let (ret, s) = on_hw (plat_clk_set_rate P (sp_mclk s) mode_clk) s
      in if ret \<noteq> 0 then (SPI_MASTER_ERROR, s)
      else let (rate, s) = on_hw (plat_clk_get_rate P (sp_mclk s)) s
      in if rate = 0 then (SPI_MASTER_ERROR, s)
      else let (ret, s) = on_hw (clock_enable P (sp_bus_clk s)) s;
               (ret, s) = on_hw (clock_enable P (sp_mclk s)) s
      in if ret \<noteq> 0 then (SPI_MASTER_ERROR, s) else (SPI_MASTER_OK, s))"

definition spi_clk_exit :: "'h spi_plat \<Rightarrow> 'h spi \<Rightarrow> int \<times> 'h spi" where
  "spi_clk_exit P s =
     (let (ret, s) = on_hw (clock_disable P (sp_mclk s)) s;
          (ret, s) = on_hw (clock_disable P (sp_bus_clk s)) s
      in if ret \<noteq> 0 then (SPI_MASTER_ERROR, s)
      else let
        s = do_hw (clock_put P (sp_mclk s)) s;
        s = do_hw (clock_put P (sp_bus_clk s)) s;
        s = do_hw (reset_control_assert P (sp_reset s)) s;
        s = do_hw (reset_control_put P (sp_reset s)) s
      in (SPI_MASTER_OK, s))"

section \<open>Configuration and initialisation\<close>

definition sunxi_get_spic_clk :: "'h spi_plat \<Rightarrow> 'h spi \<Rightarrow> u32 \<times> 'h spi" where
  "sunxi_get_spic_clk P s = on_hw (plat_clk_get_rate P (sp_mclk s)) s"

definition config_frequency :: "spi_config \<Rightarrow> u32" where
  "config_frequency cfg = (if clock_frequency cfg \<noteq> 0 then clock_frequency cfg else SPI_MOD_CLK)"

definition spi_config_clk :: "'h spi_plat \<Rightarrow> u32 \<Rightarrow> 'h spi \<Rightarrow> int \<times> 'h spi" where
  "spi_config_clk P freq s =
     (let (sclk_freq, s) = sunxi_get_spic_clk P s
      in if sclk_freq \<noteq> 0 \<and> sclk_freq \<noteq> freq
         then let (_, s) = spi_clk_exit P s;
                  (r, s) = spi_clk_init P freq s
              in (if r \<noteq> 0 then SPI_MASTER_ERROR else SPI_MASTER_OK, s)
         else (SPI_MASTER_OK, s))"

definition spi_hw_config_on :: "'h spi_plat \<Rightarrow> spi_config option \<Rightarrow> nat \<Rightarrow> 'h spi \<Rightarrow> int \<times> 'h spi" where
  "spi_hw_config_on P config port s =
     (case config of
        None \<Rightarrow> (SPI_MASTER_INVALID_PARAMETER, s)
      | Some cfg \<Rightarrow> let
          s = s\<lparr>sp_base := par_reg_base (g_sunxi_spi_params ! port), sp_port := port,
                sp_mode_type := MODE_TYPE_NULL\<rparr>;
          freq = config_frequency cfg;
          s = (if freq \<ge> SPI_HIGH_FREQUENCY then spi_sample_delay P 0 1 s
               else if freq \<le> SPI_LOW_FREQUENCY then spi_sample_delay P 1 0 s
               else spi_sample_delay P 0 0 s);
          s = spi_soft_reset P s;
          (r, s) = spi_config_clk P freq s
        in if r \<noteq> 0 then (SPI_MASTER_ERROR, s)
        else if slave_port cfg \<noteq> 0 then (SPI_MASTER_INVALID_PARAMETER, s)
        else let
          (_, s) = spi_set_cs P (slave_port cfg) s;
          s = (if bit_order cfg \<noteq> 0 then spi_config_tc P SPI_LSB_FIRST_ACTIVE s else s);
          s = spi_config_tc P (cpol cfg OR cpha cfg) s;
          s = spi_enable_bus P s;
          s = spi_set_master P s;
          s = spi_enable_tp P s;
          s = spi_ss_owner P 0 s;
          s = spi_reset_fifo P s
        in (SPI_MASTER_OK, s))"

definition spi_init_on :: "'h spi_plat \<Rightarrow> nat \<Rightarrow> spi_config option \<Rightarrow> 'h spi \<Rightarrow> int \<times> 'h spi" where
  "spi_init_on P port cfg s =
     (let s = s\<lparr>sp_base := par_reg_base (g_sunxi_spi_params ! port),
                sp_irqnum := par_irq_num (g_sunxi_spi_params ! port),
                sp_port := port, sp_mode_type := MODE_TYPE_NULL\<rparr>;
          (r, s) = on_hw (request_irq P (sp_irqnum s)) s
      in if r < 0 then (SPI_MASTER_ERROR, s)
      else let s = do_hw (enable_irq P (sp_irqnum s)) s;
               (r, s) = spi_pinctrl_init P s
      in if r \<noteq> 0 then (SPI_MASTER_ERROR, s)
      else let (r, s) = spi_clk_init P SPI_MAX_FREQUENCY s
      in if r \<noteq> 0 then (SPI_MASTER_ERROR, s)
      else let s = spi_soft_reset P s;
               (_, s) = spi_hw_config_on P cfg port s
      in (SPI_MASTER_OK, s))"

definition spi_deinit_on :: "'h spi_plat \<Rightarrow> 'h spi \<Rightarrow> int \<times> 'h spi" where
  "spi_deinit_on P s =
     (let s = spi_disable_bus P s;
          s = do_hw (disable_irq P (sp_irqnum s)) s;
          (r, s) = spi_clk_exit P s
      in if r \<noteq> 0 then (SPI_MASTER_ERROR, s)
         else (SPI_MASTER_OK, do_hw (free_irq P (sp_irqnum s)) s))"

section \<open>The ports\<close>

text \<open>
  \<open>g_sunxi_spi\<close>, one structure per port, and the hardware. Only \<open>aw_hal_spi_init\<close> checks the port;
  the other calls index the array with what they are given.
\<close>

record 'h spi_ports =
  g_sunxi_spi :: "sunxi_spi list"
  spi_hw :: 'h

definition port_at :: "nat \<Rightarrow> 'h spi_ports \<Rightarrow> 'h spi" where
  "port_at p G = sunxi_spi.extend (g_sunxi_spi G ! p) (spi.fields (spi_hw G))"

definition on_port ::
  "nat \<Rightarrow> ('h spi \<Rightarrow> ('a \<times> 'h spi) option) \<Rightarrow> 'h spi_ports \<Rightarrow> ('a \<times> 'h spi_ports) option"
where
  "on_port p f G =
     (if p < length (g_sunxi_spi G) then do {
        (r, s) \<leftarrow> f (port_at p G);
        Some (r, \<lparr>g_sunxi_spi = (g_sunxi_spi G)[p := sunxi_spi.truncate s], spi_hw = sp_hw s\<rparr>)
      }
      else None)"

lemma port_at_fields [simp]:
  "sp_hw (port_at p G) = spi_hw G" "sp_base (port_at p G) = sp_base (g_sunxi_spi G ! p)"
  "sp_irqnum (port_at p G) = sp_irqnum (g_sunxi_spi G ! p)"
  "sp_mode_type (port_at p G) = sp_mode_type (g_sunxi_spi G ! p)"
  by (simp_all add: port_at_def sunxi_spi.defs spi.defs)

lemma port_at_put [simp]:
  "p < length xs \<Longrightarrow> port_at p \<lparr>g_sunxi_spi = xs[p := sunxi_spi.truncate s], spi_hw = sp_hw s\<rparr> = s"
  by (cases s) (simp add: port_at_def sunxi_spi.defs spi.defs)

text \<open>
  The result of \<open>hal_spi_xfer\<close> comes with the caller's receive buffer after the call; a
  descriptor with a receive buffer is always stored.
\<close>

definition rx_after :: "hal_spi_tr option \<Rightarrow> 'h spi \<Rightarrow> u8 list option" where
  "rx_after transfer s = (case transfer of
     None \<Rightarrow> None
   | Some t \<Rightarrow> if tr_rx_buf t = None then None else Option.bind (sp_transfer s) tr_rx_buf)"

definition hal_spi_xfer ::
  "'h spi_plat \<Rightarrow> nat \<Rightarrow> hal_spi_tr option \<Rightarrow> 'h spi_ports \<Rightarrow> ((int \<times> u8 list option) \<times> 'h spi_ports) option"
where
  "hal_spi_xfer P port transfer G =
     on_port port (\<lambda>s. do { (r, s) \<leftarrow> spi_xfer_on P transfer s; Some ((r, rx_after transfer s), s) }) G"

definition hal_spi_hw_config ::
  "'h spi_plat \<Rightarrow> nat \<Rightarrow> spi_config option \<Rightarrow> 'h spi_ports \<Rightarrow> (int \<times> 'h spi_ports) option"
where
  "hal_spi_hw_config P port cfg G = on_port port (\<lambda>s. Some (spi_hw_config_on P cfg port s)) G"

definition aw_hal_spi_init ::
  "'h spi_plat \<Rightarrow> nat \<Rightarrow> spi_config option \<Rightarrow> 'h spi_ports \<Rightarrow> (int \<times> 'h spi_ports) option"
where
  "aw_hal_spi_init P port cfg G =
     (if port \<ge> HAL_SPI_MASTER_MAX then Some (SPI_MASTER_ERROR, G)
      else on_port port (\<lambda>s. Some (spi_init_on P port cfg s)) G)"

definition hal_spi_deinit :: "'h spi_plat \<Rightarrow> nat \<Rightarrow> 'h spi_ports \<Rightarrow> (int \<times> 'h spi_ports) option" where
  "hal_spi_deinit P port G = on_port port (\<lambda>s. Some (spi_deinit_on P s)) G"

text \<open>
  \<open>hal_spi_write\<close> and \<open>hal_spi_read\<close> leave the number of lanes of the other direction
  uninitialised; it is not looked at.
\<close>

definition hal_spi_write ::
  "'h spi_plat \<Rightarrow> 3 word \<Rightarrow> nat \<Rightarrow> u8 list \<Rightarrow> u32 \<Rightarrow> 'h spi_ports \<Rightarrow> (int \<times> 'h spi_ports) option"
where
  "hal_spi_write P junk port buf n G = do {
     ((r, _), G) \<leftarrow> hal_spi_xfer P port (Some \<lparr>tr_tx_buf = Some buf, tr_tx_len = n,
        tr_tx_single_len = n, tr_rx_buf = None, tr_rx_len = 0, tr_tx_nbits = 1,
        tr_rx_nbits = junk, tr_dummy_byte = 0\<rparr>) G;
     Some (r, G)
   }"

definition hal_spi_read ::
  "'h spi_plat \<Rightarrow> 3 word \<Rightarrow> nat \<Rightarrow> u8 list \<Rightarrow> u32 \<Rightarrow> 'h spi_ports \<Rightarrow> (int \<times> u8 list \<times> 'h spi_ports) option"
where
  "hal_spi_read P junk port buf n G = do {
     ((r, rx), G) \<leftarrow> hal_spi_xfer P port (Some \<lparr>tr_tx_buf = None, tr_tx_len = 0,
        tr_tx_single_len = n, tr_rx_buf = Some buf, tr_rx_len = n, tr_tx_nbits = junk,
        tr_rx_nbits = 1, tr_dummy_byte = 0\<rparr>) G;
     rx \<leftarrow> rx;
     Some (r, rx, G)
   }"

end
