(* ===== verification/Spi_Ctl.thy ===== *)
theory Spi_Ctl
  imports Hal_Spi
begin

unbundle bit_operations_syntax

text \<open>
  The SPI controller as its manual (and the comments of \<open>spi/common_spi.h\<close>) describes it, and what
  the driver of \<open>hal_spi.c\<close> then achieves: a call of \<open>hal_spi_xfer\<close> is one transaction with the
  device on the bus.

  The controller moves by itself between the driver's accesses (\<open>ctl_step\<close>: a byte leaves the
  transmit FIFO, the device answers, a byte enters the receive FIFO, the exchange ends). The
  contract is the locale \<open>spi_controller\<close>; the driver's invariants are stable under these steps.
\<close>

section \<open>The controller\<close>

datatype phase = Idle | Sending "u8 list" | Receiving "u8 list"

text \<open>
  \<open>Sending bs\<close>: the bytes \<open>bs\<close> are on the wire; \<open>Receiving bs\<close>: the bytes \<open>bs\<close> are still to come
  from the device. \<open>c_done\<close> is the transfer-complete bit of the interrupt status. Bits of no
  consequence for a transfer are left out.
\<close>

record 'd ctl =
  c_gc :: u32
  c_tc :: u32
  c_ier :: u32
  c_done :: bool
  c_mbc :: u32
  c_mtc :: u32
  c_bcc :: u32
  c_txf :: "u8 list"
  c_rxf :: "u8 list"
  c_phase :: phase
  c_dev :: 'd

definition n_tx :: "'d ctl \<Rightarrow> nat" where
  "n_tx c = unat (c_mtc c AND SPI_CNT_MASK)"

definition n_dummy :: "'d ctl \<Rightarrow> nat" where
  "n_dummy c = unat (drop_bit 24 (c_bcc c) AND 0xF)"

definition n_rx :: "'d ctl \<Rightarrow> nat" where
  "n_rx c = unat (c_mbc c AND SPI_CNT_MASK) - n_tx c - n_dummy c"

definition n_lanes :: "'d ctl \<Rightarrow> u8" where
  "n_lanes c = (if c_bcc c AND SPI_BCC_QUAD_MODE \<noteq> 0 then 4
                else if c_bcc c AND SPI_BCC_DUAL_MODE \<noteq> 0 then 2 else 1)"

text \<open>The transaction the registers describe, as the device sees it.\<close>

definition ctl_wire :: "'d ctl \<Rightarrow> u8 list \<Rightarrow> spi_transfer" where
  "ctl_wire c tx = \<lparr>tx_data = tx, tx_single_len = unat (c_bcc c AND SPI_CNT_MASK), rx_len = n_rx c,
     tx_nbits = n_lanes c, rx_nbits = n_lanes c, dummy_byte = of_nat (n_dummy c)\<rparr>"

type_synonym 'd device = "spi_transfer \<Rightarrow> 'd \<Rightarrow> u8 list \<times> 'd"

inductive ctl_step :: "'d device \<Rightarrow> 'd ctl \<Rightarrow> 'd ctl \<Rightarrow> bool" for D where
  shift: "c_phase c = Sending bs \<Longrightarrow> c_txf c = b # txf \<Longrightarrow> length bs < n_tx c \<Longrightarrow>
    ctl_step D c (c\<lparr>c_phase := Sending (bs @ [b]), c_txf := txf\<rparr>)"
| turn: "c_phase c = Sending bs \<Longrightarrow> length bs = n_tx c \<Longrightarrow> D (ctl_wire c bs) (c_dev c) = (rx, d) \<Longrightarrow>
    ctl_step D c (c\<lparr>c_phase := Receiving rx, c_dev := d\<rparr>)"
| receive: "c_phase c = Receiving (b # bs) \<Longrightarrow> length (c_rxf c) < 64 \<Longrightarrow>
    ctl_step D c (c\<lparr>c_phase := Receiving bs, c_rxf := c_rxf c @ [b]\<rparr>)"
| finish: "c_phase c = Receiving [] \<Longrightarrow>
    ctl_step D c (c\<lparr>c_phase := Idle, c_done := True, c_tc := c_tc c AND NOT SPI_TC_XCH\<rparr>)"

abbreviation ctl_steps :: "'d device \<Rightarrow> 'd ctl \<Rightarrow> 'd ctl \<Rightarrow> bool" where
  "ctl_steps D \<equiv> rtranclp (ctl_step D)"

inductive_cases ctl_stepE: "ctl_step D c c'"

lemma Idle_no_step: "ctl_steps D c c' \<Longrightarrow> c_phase c = Idle \<Longrightarrow> c' = c"
  by (induction rule: converse_rtranclp_induct) (auto elim: ctl_stepE)

definition ctl_ready :: "'d ctl \<Rightarrow> bool" where
  "ctl_ready c \<longleftrightarrow> c_gc c AND 0x83 = 0x83 \<and> c_tc c AND 0x8000137F = 0x104"

text \<open>What a read may return, and what a write does (\<open>None\<close>: outside the manual's promises).\<close>

definition ctl_read :: "u64 \<Rightarrow> 'd ctl \<Rightarrow> u32 \<Rightarrow> bool" where
  "ctl_read off c v \<longleftrightarrow>
     (off = SPI_GC_REG \<longrightarrow> v = c_gc c) \<and>
     (off = SPI_TC_REG \<longrightarrow> v = c_tc c) \<and>
     (off = SPI_INT_CTL_REG \<longrightarrow> v = c_ier c) \<and>
     (off = SPI_INT_STA_REG \<longrightarrow> (v AND SPI_INT_STA_TC \<noteq> 0 \<longleftrightarrow> c_done c)) \<and>
     (off = SPI_FIFO_CTL_REG \<longrightarrow> v AND (SPI_FIFO_CTL_RX_RST OR SPI_FIFO_CTL_TX_RST) = 0) \<and>
     (off = SPI_FIFO_STA_REG \<longrightarrow> unat (SPI_FIFO_STA_RX_CNT AND v) = length (c_rxf c) \<and>
        unat (drop_bit 16 (SPI_FIFO_STA_TX_CNT AND v)) = length (c_txf c)) \<and>
     (off = SPI_BURST_CNT_REG \<longrightarrow> v = c_mbc c) \<and>
     (off = SPI_TRANSMIT_CNT_REG \<longrightarrow> v = c_mtc c) \<and>
     (off = SPI_BCC_REG \<longrightarrow> v = c_bcc c)"

definition ctl_write :: "u64 \<Rightarrow> u32 \<Rightarrow> 'd ctl \<Rightarrow> 'd ctl option" where
  "ctl_write off v c =
     (if off = SPI_INT_CTL_REG then Some (c\<lparr>c_ier := v\<rparr>)
      else if off = SPI_INT_STA_REG then Some (c\<lparr>c_done := c_done c \<and> v AND SPI_INT_STA_TC = 0\<rparr>)
      else if c_phase c \<noteq> Idle then None
      else if off = SPI_GC_REG then if v AND SPI_GC_SRST \<noteq> 0 then None else Some (c\<lparr>c_gc := v\<rparr>)
      else if off = SPI_TC_REG then
        let c' = c\<lparr>c_tc := v\<rparr>
        in if v AND SPI_TC_XCH = 0 then Some c'
           else if ctl_ready (c\<lparr>c_tc := v AND NOT SPI_TC_XCH\<rparr>) then Some (c'\<lparr>c_phase := Sending []\<rparr>)
           else None
      else if off = SPI_FIFO_CTL_REG then
        if v AND SPI_FIFO_CTL_RX_RST \<noteq> 0 \<and> v AND SPI_FIFO_CTL_TX_RST \<noteq> 0
        then Some (c\<lparr>c_txf := [], c_rxf := []\<rparr>)
        else if v AND (SPI_FIFO_CTL_RX_RST OR SPI_FIFO_CTL_TX_RST) = 0 then Some c else None
      else if off = SPI_BURST_CNT_REG then Some (c\<lparr>c_mbc := v\<rparr>)
      else if off = SPI_TRANSMIT_CNT_REG then Some (c\<lparr>c_mtc := v\<rparr>)
      else if off = SPI_BCC_REG then Some (c\<lparr>c_bcc := v\<rparr>)
      else None)"

definition ctl_regs :: "u64 set" where
  "ctl_regs = {SPI_GC_REG, SPI_TC_REG, SPI_INT_CTL_REG, SPI_INT_STA_REG, SPI_FIFO_CTL_REG,
     SPI_FIFO_STA_REG, SPI_BURST_CNT_REG, SPI_TRANSMIT_CNT_REG, SPI_BCC_REG}"

text \<open>All the bytes to send are in the FIFO or beyond it, so that the exchange can proceed.\<close>

definition supplied :: "'d ctl \<Rightarrow> bool" where
  "supplied c = (case c_phase c of Sending bs \<Rightarrow> length bs + length (c_txf c) = n_tx c | _ \<Rightarrow> True)"

text \<open>The bytes in the FIFO all belong to the exchange, so that the FIFO drains.\<close>

definition drains :: "'d ctl \<Rightarrow> bool" where
  "drains c = (case c_phase c of Sending bs \<Rightarrow> length bs + length (c_txf c) \<le> n_tx c | _ \<Rightarrow> c_txf c = [])"

text \<open>
  The contract. \<open>C\<close> reads the controller off the hardware state, \<open>D\<close> is the device, \<open>base\<close> and
  \<open>irqn\<close> are the address of the registers and the number of the interrupt. The controller is quick
  enough for the driver's polling budgets: \<open>lag\<close> bounds how many more polls of the current
  exchange can fail, and an exchange starts with less than 255.
\<close>

locale spi_controller =
  fixes P :: "'h spi_plat" and C :: "'h \<Rightarrow> 'd ctl" and D :: "'d device" and lag :: "'h \<Rightarrow> nat"
    and base :: u64 and irqn :: u16
  assumes readl: "off \<in> ctl_regs \<Longrightarrow> plat_readl P (base + off) h = (v, h') \<Longrightarrow>
      \<exists>c. ctl_steps D (C h) c \<and> ctl_read off c v \<and> ctl_steps D c (C h')"
    and readl_lag: "off \<in> ctl_regs \<Longrightarrow> plat_readl P (base + off) h = (v, h') \<Longrightarrow> lag h' \<le> lag h"
    and poll_tx: "plat_readl P (base + SPI_FIFO_STA_REG) h = (v, h') \<Longrightarrow>
      64 \<le> unat (drop_bit 16 (SPI_FIFO_STA_TX_CNT AND v)) \<Longrightarrow> drains (C h) \<Longrightarrow> lag h' < lag h"
    and poll_rx: "plat_readl P (base + SPI_FIFO_STA_REG) h = (v, h') \<Longrightarrow>
      SPI_FIFO_STA_RX_CNT AND v = 0 \<Longrightarrow> c_phase (C h) \<noteq> Idle \<Longrightarrow> supplied (C h) \<Longrightarrow> lag h' < lag h"
    and writel: "off \<in> ctl_regs \<Longrightarrow> \<exists>c. ctl_steps D (C h) c \<and>
      (\<forall>c'. ctl_write off v c = Some c' \<longrightarrow> ctl_steps D c' (C (plat_writel P v (base + off) h)))"
    and writel_lag: "off \<in> {SPI_INT_CTL_REG, SPI_INT_STA_REG} \<Longrightarrow>
      lag (plat_writel P v (base + off) h) \<le> lag h"
    and start_lag: "lag (plat_writel P v (base + SPI_TC_REG) h) < 255"
    and writeb: "\<exists>c. ctl_steps D (C h) c \<and> (length (c_txf c) < 64 \<longrightarrow>
      ctl_steps D (c\<lparr>c_txf := c_txf c @ [b]\<rparr>) (C (plat_writeb P b (base + SPI_TXDATA_REG) h)))"
    and writeb_lag: "lag (plat_writeb P b (base + SPI_TXDATA_REG) h) \<le> lag h"
    and readb: "plat_readb P (base + SPI_RXDATA_REG) h = (x, h') \<Longrightarrow> \<exists>c. ctl_steps D (C h) c \<and>
      (\<forall>bs b. c_rxf c = b # bs \<longrightarrow> x = b \<and> ctl_steps D (c\<lparr>c_rxf := bs\<rparr>) (C h'))"
    and readb_lag: "plat_readb P (base + SPI_RXDATA_REG) h = (x, h') \<Longrightarrow> lag h' \<le> lag h"
    and irq: "plat_irq P irqn h \<Longrightarrow> c_done (C h) \<and> c_ier (C h) AND SPI_INT_STA_TC \<noteq> 0"
    and tick: "ctl_steps D (C h) (C (plat_tick P h))"
    and tick_lag: "c_phase (C h) \<noteq> Idle \<or> c_done (C h) \<Longrightarrow> c_ier (C h) AND SPI_INT_STA_TC \<noteq> 0 \<Longrightarrow>
      supplied (C h) \<Longrightarrow> c_rxf (C h) = [] \<Longrightarrow>  \<not> plat_irq P irqn h \<Longrightarrow> lag (plat_tick P h) < lag h"
    and reply: "length (fst (D tr d)) = rx_len tr"

section \<open>Counters and lanes in the registers\<close>

lemma spi_masks:
  "(0xFFFFFF :: u32) = mask 24" "(0xF :: u32) = mask 4" "(0x10000000 :: u32) = push_bit 28 1"
  "(0x20000000 :: u32) = push_bit 29 1"
  by (simp_all add: mask_eq_exp_minus_1)

lemma count_value_low: "count_value n v AND SPI_CNT_MASK = n AND SPI_CNT_MASK"
  by (simp add: count_value_def spi_masks bit_eq_iff bit_simps) blast

lemma bcc_value_low: "bcc_value n dm v AND SPI_CNT_MASK = n AND SPI_CNT_MASK"
  by (auto simp: bcc_value_def count_value_def Let_def spi_masks bit_eq_iff bit_simps)

lemma bcc_value_dummy: "drop_bit 24 (bcc_value n dm v) AND 0xF = dm AND 0xF"
  by (auto simp: bcc_value_def count_value_def Let_def spi_masks bit_eq_iff bit_simps)

lemma and_single_bit: "x AND push_bit k 1 = (push_bit k (of_bool (bit x k)) :: u32)"
  by (rule bit_word_eqI) (auto simp: bit_simps)

lemma bcc_value_bit:
  assumes "dm < 16" and "k = 28 \<or> k = 29"
  shows "bit (bcc_value n dm v) k = bit v k"
proof -
  have "take_bit 4 dm = dm"
    using assms(1) by (simp only: word_unat_eq_iff unat_take_bit) (simp add: word_less_nat_alt)
  then have "\<not> bit dm 4" "\<not> bit dm 5"
    using bit_take_bit_iff [of 4 dm 4] bit_take_bit_iff [of 4 dm 5] by simp_all
  with assms(2) show ?thesis
    by (elim disjE) (simp_all add: bcc_value_def count_value_def Let_def spi_masks(1,2) bit_simps)
qed

lemma unat_cnt: "unat (n AND SPI_CNT_MASK :: u32) = unat n mod 2 ^ 24"
proof -
  have "n AND SPI_CNT_MASK = take_bit 24 n" by (simp only: spi_masks take_bit_eq_mask)
  then show ?thesis by (simp only: unat_take_bit)
qed

lemma count_value_high: "count_value n v AND NOT SPI_CNT_MASK = v AND NOT SPI_CNT_MASK"
  by (simp add: count_value_def spi_masks bit_eq_iff bit_simps) blast

lemma bcc_value_high:
  assumes "24 \<le> k" "k < 32"
  shows "bit (bcc_value n dm v) k \<longleftrightarrow> bit dm (k - 24) \<or> 28 \<le> k \<and> bit v k"
  using assms by (auto simp: bcc_value_def count_value_def Let_def spi_masks(1,2) bit_simps)

lemma unat_sum3: "unat ((tx + rx + dm :: u32)) mod 2 ^ 24 = (unat tx + unat rx + unat dm) mod 2 ^ 24"
  by (simp add: unat_word_ariths mod_mod_cancel mod_simps)

section \<open>The shape of register updates\<close>

definition upd_hw :: "'h spi_plat \<Rightarrow> u64 \<Rightarrow> (u32 \<Rightarrow> u32) \<Rightarrow> 'h \<Rightarrow> 'h" where
  "upd_hw P a f h = (let (v, h) = plat_readl P a h in plat_writel P (f v) a h)"

lemma update_reg_eq: "update_reg P off f s = s\<lparr>sp_hw := upd_hw P (sp_base s + off) f (sp_hw s)\<rparr>"
  by (simp add: update_reg_def hal_readl_def hal_writel_def upd_hw_def split: prod.split)

lemmas spi_reg_defs = spi_config_tc_def spi_start_xfer_def spi_enable_bus_def spi_set_master_def
  spi_enable_tp_def spi_ss_owner_def spi_enable_irq_def spi_disable_irq_def spi_disable_dma_irq_def
  spi_reset_fifo_def spi_set_bc_tc_stc_def spi_disable_dual_def spi_enable_dual_def
  spi_disable_quad_def spi_enable_quad_def spi_disable_bus_def spi_soft_reset_def

lemma and_0_sub:
  assumes "v AND m = 0" "m' AND m = m'"
  shows "v AND m' = (0 :: u32)"
proof -
  have "v AND m' = v AND (m' AND m)" by (simp only: assms(2))
  also have "\<dots> = (v AND m) AND m'" by (simp only: ac_simps)
  finally show ?thesis by (simp add: assms(1))
qed

section \<open>Lanes\<close>

definition lane_value :: "3 word \<Rightarrow> u32 \<Rightarrow> u32" where
  "lane_value nb v =
     (if nb = LANES_QUAD then (v AND NOT SPI_BCC_DUAL_MODE) OR SPI_BCC_QUAD_MODE
      else if nb = LANES_DUAL then ((v AND NOT SPI_BCC_QUAD_MODE) AND NOT SPI_BCC_QUAD_MODE) OR SPI_BCC_DUAL_MODE
      else (v AND NOT SPI_BCC_QUAD_MODE) AND NOT SPI_BCC_DUAL_MODE)"

definition lanes_of :: "3 word \<Rightarrow> u8" where
  "lanes_of nb = (if nb = LANES_QUAD then 4 else if nb = LANES_DUAL then 2 else 1)"

definition bcc_lanes :: "u32 \<Rightarrow> u8" where
  "bcc_lanes b = (if bit b 29 then 4 else if bit b 28 then 2 else 1)"

lemma lane_bits: "x AND SPI_BCC_QUAD_MODE \<noteq> 0 \<longleftrightarrow> bit x 29" "x AND SPI_BCC_DUAL_MODE \<noteq> 0 \<longleftrightarrow> bit x 28"
  by (simp_all only: spi_masks and_single_bit) simp_all

lemma n_lanes_bcc: "n_lanes c = bcc_lanes (c_bcc c)"
  by (simp only: n_lanes_def bcc_lanes_def lane_bits)

lemma and_mask_simps:
  "(x AND NOT SPI_BCC_DUAL_MODE) AND SPI_CNT_MASK = x AND SPI_CNT_MASK"
  "(x AND NOT SPI_BCC_QUAD_MODE) AND SPI_CNT_MASK = x AND SPI_CNT_MASK"
  "(x OR SPI_BCC_DUAL_MODE) AND SPI_CNT_MASK = x AND SPI_CNT_MASK"
  "(x OR SPI_BCC_QUAD_MODE) AND SPI_CNT_MASK = x AND SPI_CNT_MASK"
  "drop_bit 24 (x AND NOT SPI_BCC_DUAL_MODE) AND 0xF = drop_bit 24 x AND 0xF"
  "drop_bit 24 (x AND NOT SPI_BCC_QUAD_MODE) AND 0xF = drop_bit 24 x AND 0xF"
  "drop_bit 24 (x OR SPI_BCC_DUAL_MODE) AND 0xF = drop_bit 24 x AND 0xF"
  "drop_bit 24 (x OR SPI_BCC_QUAD_MODE) AND 0xF = drop_bit 24 x AND 0xF" for x :: u32
  by (simp_all only: drop_bit_and drop_bit_or bit.conj_disj_distrib2 and.assoc) simp_all

lemma lane_value_low: "lane_value nb v AND SPI_CNT_MASK = v AND SPI_CNT_MASK"
  by (simp only: lane_value_def and_mask_simps split: if_split) simp

lemma lane_value_dummy: "drop_bit 24 (lane_value nb v) AND 0xF = drop_bit 24 v AND 0xF"
  by (simp only: lane_value_def and_mask_simps split: if_split) simp

lemma lane_value_lanes: "bcc_lanes (lane_value nb v) = lanes_of nb"
  by (cases "nb = 4"; cases "nb = 2"; simp only: lane_value_def if_True if_False bcc_lanes_def lanes_of_def; simp add: bit_simps)

lemma bcc_value_lanes:
  assumes "dm < 16"
  shows "bcc_lanes (bcc_value n dm v) = bcc_lanes v"
  by (simp only: bcc_lanes_def bcc_value_bit [OF assms, of 28, OF disjI1 [OF refl]]
    bcc_value_bit [OF assms, of 29, OF disjI2 [OF refl]])

text \<open>None of these functions touches the driver's own fields.\<close>

definition only_hw :: "'h spi \<Rightarrow> 'h spi \<Rightarrow> bool" where
  "only_hw s s' \<longleftrightarrow> (\<exists>h. s' = s\<lparr>sp_hw := h\<rparr>)"

lemma only_hw_upd [simp]: "only_hw s (s\<lparr>sp_hw := h\<rparr>)"
  by (auto simp: only_hw_def)

lemma only_hw_refl [simp]: "only_hw s s"
  using only_hw_upd [of s "sp_hw s"] by simp

lemma only_hw_trans: "only_hw s t \<Longrightarrow> only_hw t u \<Longrightarrow> only_hw s u"
  by (auto simp: only_hw_def)

lemma only_hw_lanes [simp]: "only_hw s (spi_lanes P nb s)"
  by (simp add: spi_lanes_def spi_reg_defs update_reg_eq)

lemma only_hw_counters [simp]: "only_hw s (spi_set_bc_tc_stc P tx rx stc dm s)"
  by (simp add: spi_reg_defs update_reg_eq Let_def)

section \<open>Transfers the controller can do\<close>

definition tx_bytes :: "hal_spi_tr \<Rightarrow> u8 list" where
  "tx_bytes t = (case tr_tx_buf t of None \<Rightarrow> [] | Some buf \<Rightarrow> take (unat (tr_tx_len t)) buf)"

definition rx_count :: "hal_spi_tr \<Rightarrow> nat" where
  "rx_count t = (case tr_rx_buf t of None \<Rightarrow> 0 | Some buf \<Rightarrow> unat (tr_rx_len t))"

definition tr_lanes :: "hal_spi_tr \<Rightarrow> 3 word" where
  "tr_lanes t = (if tr_rx_buf t \<noteq> None then tr_rx_nbits t else tr_tx_nbits t)"

definition single_bytes :: "hal_spi_tr \<Rightarrow> nat" where
  "single_bytes t =
     (if tr_tx_buf t = None then 0
      else if tr_rx_buf t \<noteq> None \<or> tr_tx_nbits t \<in> {LANES_DUAL, LANES_QUAD}
      then unat (tr_tx_single_len t) else unat (tr_tx_len t))"

text \<open>The transaction on the wire that a descriptor asks for.\<close>

definition tr_wire :: "hal_spi_tr \<Rightarrow> spi_transfer" where
  "tr_wire t = \<lparr>tx_data = tx_bytes t, tx_single_len = single_bytes t, rx_len = rx_count t,
     tx_nbits = lanes_of (tr_lanes t), rx_nbits = lanes_of (tr_lanes t),
     dummy_byte = tr_dummy_byte t\<rparr>"

definition tr_ok :: "hal_spi_tr \<Rightarrow> bool" where
  "tr_ok t \<longleftrightarrow> (tr_rx_buf t = None \<longrightarrow> tr_tx_buf t \<noteq> None \<and> tr_tx_len t \<noteq> 0) \<and>
     (\<forall>buf. tr_tx_buf t = Some buf \<longrightarrow> unat (tr_tx_len t) \<le> length buf) \<and>
     (\<forall>buf. tr_rx_buf t = Some buf \<longrightarrow> unat (tr_rx_len t) \<le> length buf) \<and>
     length (tx_bytes t) + rx_count t + unat (tr_dummy_byte t) < 2 ^ 24 \<and>
     unat (tr_tx_single_len t) < 2 ^ 24 \<and> tr_dummy_byte t < 16"

definition tr_mode :: "hal_spi_tr \<Rightarrow> spi_mode_type" where
  "tr_mode t =
     (if tr_tx_buf t \<noteq> None \<and> tr_rx_buf t \<noteq> None then FULL_DUPLEX_TX_RX
      else if tr_tx_buf t \<noteq> None then
        (if tr_lanes t = LANES_QUAD then QUAD_HALF_DUPLEX_TX
         else if tr_lanes t = LANES_DUAL then DUAL_HALF_DUPLEX_TX else SGLE_HALF_DUPLEX_TX)
      else if tr_lanes t = LANES_QUAD then QUAD_HALF_DUPLEX_RX
      else if tr_lanes t = LANES_DUAL then DUAL_HALF_DUPLEX_RX else SGLE_HALF_DUPLEX_RX)"

lemma only_hw_fields:
  assumes "only_hw s s'"
  shows "sp_result s' = sp_result s" "sp_irqnum s' = sp_irqnum s" "sp_base s' = sp_base s"
    "sp_mode_type s' = sp_mode_type s" "sp_transfer s' = sp_transfer s" "sp_mclk s' = sp_mclk s"
    "sp_bus_clk s' = sp_bus_clk s" "sp_reset s' = sp_reset s" "sp_port s' = sp_port s"
  using assms by (auto simp: only_hw_def)

lemma unat_dummy: "unat (n AND 0xF :: u32) = unat n mod 16"
proof -
  have "n AND 0xF = take_bit 4 n" by (simp only: spi_masks take_bit_eq_mask)
  then show ?thesis by (simp only: unat_take_bit) simp
qed

lemma unat_of_nat32: "n < 2 ^ 24 \<Longrightarrow> unat (of_nat n :: u32) = n"
  by (simp add: unat_of_nat)

lemma unat_ucast_8_32: "unat (ucast (d :: u8) :: u32) = unat d"
  by (simp add: unsigned_ucast_eq take_bit_nat_eq_self unsigned_less [THEN order_less_le_trans])

lemma single_bytes_bound: "tr_ok t \<Longrightarrow> single_bytes t < 2 ^ 24"
  by (auto simp: tr_ok_def single_bytes_def tx_bytes_def split: option.splits if_splits)

lemma counters_wire:
  assumes ok: "tr_ok t"
    and mbc: "c_mbc c = count_value (of_nat (length (tx_bytes t) + rx_count t + unat (tr_dummy_byte t))) x"
    and mtc: "c_mtc c = count_value (of_nat (length (tx_bytes t))) y"
    and stc: "c_bcc c AND SPI_CNT_MASK = of_nat (single_bytes t) AND SPI_CNT_MASK"
    and dum: "drop_bit 24 (c_bcc c) AND 0xF = (of_nat (unat (tr_dummy_byte t)) AND 0xF :: u32)"
    and lan: "bcc_lanes (c_bcc c) = lanes_of (tr_lanes t)"
  shows "ctl_wire c (tx_bytes t) = tr_wire t" "n_tx c = length (tx_bytes t)"
proof -
  have d: "unat (tr_dummy_byte t) < 16"
    using ok by (auto simp: tr_ok_def word_less_nat_alt)
  have nd: "n_dummy c = unat (tr_dummy_byte t)"
    using d by (simp add: n_dummy_def dum unat_dummy unat_ucast_8_32)
  have len: "length (tx_bytes t) + rx_count t + unat (tr_dummy_byte t) < 2 ^ 24"
    using ok by (simp add: tr_ok_def)
  show ntx: "n_tx c = length (tx_bytes t)"
    using len by (simp only: n_tx_def mtc count_value_low unat_cnt) (simp add: unat_of_nat32)
  have "unat (c_mbc c AND SPI_CNT_MASK) = length (tx_bytes t) + rx_count t + unat (tr_dummy_byte t)"
    using len by (simp only: mbc count_value_low unat_cnt unat_of_nat32) simp
  then have "n_rx c = rx_count t"
    by (simp add: n_rx_def ntx nd)
  moreover have "unat (c_bcc c AND SPI_CNT_MASK) = single_bytes t"
    using single_bytes_bound [OF ok] by (simp only: stc unat_cnt unat_of_nat32) simp
  ultimately show "ctl_wire c (tx_bytes t) = tr_wire t"
    by (simp add: ctl_wire_def tr_wire_def nd n_lanes_bcc lan)
qed

lemma lanes_mode: "spi_lanes P nb (s\<lparr>sp_mode_type := m\<rparr>) = (spi_lanes P nb s)\<lparr>sp_mode_type := m\<rparr>"
  by (simp add: spi_lanes_def spi_reg_defs update_reg_eq)

lemma counters_mode:
  "spi_set_bc_tc_stc P tx rx stc dm (s\<lparr>sp_mode_type := m\<rparr>) =
    (spi_set_bc_tc_stc P tx rx stc dm s)\<lparr>sp_mode_type := m\<rparr>"
  by (simp add: spi_reg_defs update_reg_eq Let_def)

lemma tx_len_word:
  "tr_ok t \<Longrightarrow> of_nat (length (tx_bytes t)) = (if tr_tx_buf t = None then 0 else tr_tx_len t)"
  by (auto simp: tr_ok_def tx_bytes_def min_def)

lemma rx_len_word:
  "tr_ok t \<Longrightarrow> of_nat (rx_count t) = (if tr_rx_buf t = None then 0 else tr_rx_len t)"
  by (auto simp: rx_count_def)

context spi_controller
begin

lemma idle_readl:
  assumes "off \<in> ctl_regs" "c_phase (C h) = Idle" "plat_readl P (base + off) h = (v, h')"
  shows "ctl_read off (C h) v \<and> C h' = C h"
  using readl [OF assms(1,3)] assms(2) by (metis Idle_no_step)

lemma idle_writel:
  assumes "off \<in> ctl_regs" "c_phase (C h) = Idle" "ctl_write off v (C h) = Some c'" "c_phase c' = Idle"
  shows "C (plat_writel P v (base + off) h) = c'"
  using writel [OF assms(1), of h v] assms by (metis Idle_no_step)

lemma idle_upd:
  assumes "off \<in> ctl_regs" "c_phase (C h) = Idle"
    and "\<And>v. ctl_read off (C h) v \<Longrightarrow> ctl_write off (f v) (C h) = Some c'" and "c_phase c' = Idle"
  shows "C (upd_hw P (base + off) f h) = c'"
proof -
  obtain v h1 where r: "plat_readl P (base + off) h = (v, h1)" by fastforce
  with idle_readl [OF assms(1,2) r] assms have "C (plat_writel P (f v) (base + off) h1) = c'"
    by (intro idle_writel) auto
  with r show ?thesis by (simp add: upd_hw_def)
qed

lemma idle_gc:
  assumes "c_phase (C h) = Idle" "f (c_gc (C h)) AND SPI_GC_SRST = 0"
  shows "C (upd_hw P (base + SPI_GC_REG) f h) = (C h)\<lparr>c_gc := f (c_gc (C h))\<rparr>"
  using assms by (intro idle_upd) (simp_all add: ctl_regs_def ctl_read_def ctl_write_def)

lemma idle_tc:
  assumes "c_phase (C h) = Idle" "f (c_tc (C h)) AND SPI_TC_XCH = 0"
  shows "C (upd_hw P (base + SPI_TC_REG) f h) = (C h)\<lparr>c_tc := f (c_tc (C h))\<rparr>"
  using assms by (intro idle_upd) (simp_all add: ctl_regs_def ctl_read_def ctl_write_def)

lemma idle_ier:
  assumes "c_phase (C h) = Idle"
  shows "C (upd_hw P (base + SPI_INT_CTL_REG) f h) = (C h)\<lparr>c_ier := f (c_ier (C h))\<rparr>"
  using assms by (intro idle_upd) (simp_all add: ctl_regs_def ctl_read_def ctl_write_def)

lemma idle_mbc:
  assumes "c_phase (C h) = Idle"
  shows "C (upd_hw P (base + SPI_BURST_CNT_REG) f h) = (C h)\<lparr>c_mbc := f (c_mbc (C h))\<rparr>"
  using assms by (intro idle_upd) (simp_all add: ctl_regs_def ctl_read_def ctl_write_def)

lemma idle_mtc:
  assumes "c_phase (C h) = Idle"
  shows "C (upd_hw P (base + SPI_TRANSMIT_CNT_REG) f h) = (C h)\<lparr>c_mtc := f (c_mtc (C h))\<rparr>"
  using assms by (intro idle_upd) (simp_all add: ctl_regs_def ctl_read_def ctl_write_def)

lemma idle_bcc:
  assumes "c_phase (C h) = Idle"
  shows "C (upd_hw P (base + SPI_BCC_REG) f h) = (C h)\<lparr>c_bcc := f (c_bcc (C h))\<rparr>"
  using assms by (intro idle_upd) (simp_all add: ctl_regs_def ctl_read_def ctl_write_def)

lemma fifo_reset_bits:
  "fifo_reset_value v AND SPI_FIFO_CTL_RX_RST \<noteq> 0" "fifo_reset_value v AND SPI_FIFO_CTL_TX_RST \<noteq> 0"
proof -
  have "bit (fifo_reset_value v) 15" "bit (fifo_reset_value v) 31"
    by (simp_all add: fifo_reset_value_def Let_def bit_simps)
  moreover have "(0x8000 :: u32) = push_bit 15 1" "(0x80000000 :: u32) = push_bit 31 1" by simp_all
  ultimately show "fifo_reset_value v AND SPI_FIFO_CTL_RX_RST \<noteq> 0"
    "fifo_reset_value v AND SPI_FIFO_CTL_TX_RST \<noteq> 0"
    by (simp_all only: and_single_bit) simp_all
qed

lemma idle_fifo_reset:
  assumes "c_phase (C h) = Idle"
  shows "C (upd_hw P (base + SPI_FIFO_CTL_REG) fifo_reset_value h) = (C h)\<lparr>c_txf := [], c_rxf := []\<rparr>"
  using assms fifo_reset_bits by (intro idle_upd) (simp_all add: ctl_regs_def ctl_read_def ctl_write_def)

lemma idle_fifo_drq:
  assumes "c_phase (C h) = Idle"
  shows "C (upd_hw P (base + SPI_FIFO_CTL_REG)
    (\<lambda>v. v AND NOT (SPI_FIFO_CTL_DRQEN_MASK AND SPI_FIFO_CTL_DRQEN_MASK)) h) = C h"
proof (rule idle_upd)
  fix v assume "ctl_read SPI_FIFO_CTL_REG (C h) v"
  then have z: "v AND 0x80008000 = 0" by (simp add: ctl_read_def)
  have "v AND m = 0" if "m \<in> {0x8000, 0x80000000, 0x80008000}" for m
    using that by (intro and_0_sub [OF z]) auto
  then show "ctl_write SPI_FIFO_CTL_REG (v AND NOT (SPI_FIFO_CTL_DRQEN_MASK AND SPI_FIFO_CTL_DRQEN_MASK)) (C h) = Some (C h)"
    using assms by (simp add: ctl_write_def and.assoc)
qed (simp_all add: assms ctl_regs_def)


lemma idle_lanes:
  assumes "c_phase (C (sp_hw s)) = Idle" "sp_base s = base"
  shows "C (sp_hw (spi_lanes P nb s)) = (C (sp_hw s))\<lparr>c_bcc := lane_value nb (c_bcc (C (sp_hw s)))\<rparr>"
  by (simp add: spi_lanes_def spi_reg_defs update_reg_eq assms idle_bcc lane_value_def)

lemma idle_counters:
  assumes "c_phase (C (sp_hw s)) = Idle" "sp_base s = base"
  shows "C (sp_hw (spi_set_bc_tc_stc P tx rx stc dm s)) =
    (C (sp_hw s))\<lparr>c_mbc := count_value (tx + rx + dm) (c_mbc (C (sp_hw s))),
      c_mtc := count_value tx (c_mtc (C (sp_hw s))), c_bcc := bcc_value stc dm (c_bcc (C (sp_hw s)))\<rparr>"
  by (simp add: spi_reg_defs update_reg_eq assms idle_bcc idle_mbc idle_mtc Let_def)


lemma idle_mode_check:
  assumes idle: "c_phase (C (sp_hw s)) = Idle" "sp_base s = base" and null: "sp_mode_type s = MODE_TYPE_NULL"
    and t: "sp_transfer s = Some t" "tr_ok t"
  shows "\<exists>h. spi_mode_check P s = Some (0, s\<lparr>sp_mode_type := tr_mode t, sp_hw := h\<rparr>) \<and>
    (\<exists>b m n. C h = (C (sp_hw s))\<lparr>c_mbc := b, c_mtc := m, c_bcc := n\<rparr>) \<and>
    ctl_wire (C h) (tx_bytes t) = tr_wire t \<and> n_tx (C h) = length (tx_bytes t)"
proof -
  let ?tx = "of_nat (length (tx_bytes t)) :: u32" and ?rx = "of_nat (rx_count t) :: u32"
    and ?dm = "of_nat (unat (tr_dummy_byte t)) :: u32" and ?st = "of_nat (single_bytes t) :: u32"
  have dm: "?dm < 16"
    using t(2) by (auto simp: tr_ok_def word_less_nat_alt unat_ucast_8_32)
  then have dm': "(ucast (tr_dummy_byte t) :: u32) < 16" by (simp only: of_nat_unat)
  have some: "tr_rx_buf t = None \<Longrightarrow> tr_tx_buf t \<noteq> None"
    using t(2) by (simp add: tr_ok_def)
  define s1 where "s1 = (if tr_tx_buf t \<noteq> None \<and> tr_rx_buf t \<noteq> None
    then spi_lanes P (tr_lanes t) (spi_set_bc_tc_stc P ?tx ?rx ?st ?dm s)
    else spi_set_bc_tc_stc P ?tx ?rx ?st ?dm (spi_lanes P (tr_lanes t) s))"
  have hw: "only_hw s s1"
    by (simp add: s1_def only_hw_trans [OF only_hw_lanes only_hw_counters]
        only_hw_trans [OF only_hw_counters only_hw_lanes])
  have "spi_mode_check P s = Some (0, s1\<lparr>sp_mode_type := tr_mode t\<rparr>)"
    using null t(1) some
    by (cases "tr_tx_buf t"; cases "tr_rx_buf t")
      (simp_all add: spi_mode_check_def s1_def tr_mode_def tr_lanes_def lanes_mode counters_mode
        tx_len_word [OF t(2)] rx_len_word [OF t(2)] single_bytes_def Let_def)
  moreover have "s1\<lparr>sp_mode_type := tr_mode t\<rparr> = s\<lparr>sp_mode_type := tr_mode t, sp_hw := sp_hw s1\<rparr>"
    using hw by (auto simp: only_hw_def)
  moreover have "C (sp_hw s1) = (C (sp_hw s))\<lparr>c_mbc := count_value (?tx + ?rx + ?dm) (c_mbc (C (sp_hw s))),
      c_mtc := count_value ?tx (c_mtc (C (sp_hw s))),
      c_bcc := (if tr_tx_buf t \<noteq> None \<and> tr_rx_buf t \<noteq> None
        then lane_value (tr_lanes t) (bcc_value ?st ?dm (c_bcc (C (sp_hw s))))
        else bcc_value ?st ?dm (lane_value (tr_lanes t) (c_bcc (C (sp_hw s)))))\<rparr>"
    by (simp add: s1_def idle idle_lanes idle_counters only_hw_fields [OF only_hw_lanes]
        only_hw_fields [OF only_hw_counters])
  moreover from this have "ctl_wire (C (sp_hw s1)) (tx_bytes t) = tr_wire t \<and> n_tx (C (sp_hw s1)) = length (tx_bytes t)"
    using t(2)
    by (intro conjI; intro counters_wire)
       (simp_all add: lane_value_low bcc_value_low lane_value_dummy bcc_value_dummy lane_value_lanes bcc_value_lanes [OF dm']) 
  ultimately show ?thesis by (intro exI conjI) auto
qed

end

end
