(* ===== verification/Spi_Exchange.thy ===== *)
theory Spi_Exchange
  imports Spi_Ctl
begin

unbundle bit_operations_syntax

text \<open>
  An exchange on the bus, from the start bit to completion: the invariant \<open>exchange\<close> relates the
  bytes the driver has written and read to the FIFOs and to the device's answer. It is stable under
  the controller's own steps, so that the lemmas of the locale carry it through the driver's
  polling loops and through the interrupt handler. The result is \<open>spi_xfer_on_transacts\<close>.
\<close>

section \<open>The course of an exchange\<close>

text \<open>
  The exchange of the bytes \<open>tx\<close> that started in \<open>c0\<close>, after the driver has written \<open>w\<close> bytes and
  read \<open>r\<close>; \<open>res\<close> is the driver's \<open>result\<close> field.
\<close>

definition exchange :: "'d device \<Rightarrow> 'd ctl \<Rightarrow> u8 list \<Rightarrow> nat \<Rightarrow> nat \<Rightarrow> int \<Rightarrow> 'd ctl \<Rightarrow> bool" where
  "exchange D c0 tx w r res c \<longleftrightarrow>
     (let (rx, d1) = D (ctl_wire c0 tx) (c_dev c0) in
      c_gc c = c_gc c0 \<and> c_tc c AND NOT SPI_TC_XCH = c_tc c0 \<and>
      c_mbc c = c_mbc c0 \<and> c_mtc c = c_mtc c0 \<and> c_bcc c = c_bcc c0 \<and> n_tx c0 = length tx \<and>
      (res = 0 \<and> c_ier c = 0x1700 \<and> (c_done c \<longleftrightarrow> c_phase c = Idle) \<or>
       res = 1 \<and> c_ier c = 0 \<and> \<not> c_done c \<and> c_phase c = Idle) \<and>
      (case c_phase c of
         Sending bs \<Rightarrow> bs @ c_txf c = take w tx \<and> c_dev c = c_dev c0 \<and> c_rxf c = [] \<and> r = 0
       | Receiving bs \<Rightarrow> length tx \<le> w \<and> c_txf c = [] \<and> c_dev c = d1 \<and> c_rxf c @ bs = drop r rx
       | Idle \<Rightarrow> length tx \<le> w \<and> c_txf c = [] \<and> c_dev c = d1 \<and> c_rxf c = drop r rx \<and> c_tc c = c_tc c0))"

lemma ctl_wire_regs:
  "c_mbc c = c_mbc c0 \<Longrightarrow> c_mtc c = c_mtc c0 \<Longrightarrow> c_bcc c = c_bcc c0 \<Longrightarrow> ctl_wire c tx = ctl_wire c0 tx"
  "c_mtc c = c_mtc c0 \<Longrightarrow> n_tx c = n_tx c0"
  by (simp_all add: ctl_wire_def n_tx_def n_rx_def n_dummy_def n_lanes_def)

lemma exchange_step:
  assumes "exchange D c0 tx w r res c" and "ctl_step D c c'"
  shows "exchange D c0 tx w r res c'"
  using assms(2)
proof cases
  case (shift bs b txf)
  then show ?thesis using assms(1) by (auto simp: exchange_def Let_def split: prod.splits)
next
  case (turn bs rx d)
  have regs: "c_mbc c = c_mbc c0" "c_mtc c = c_mtc c0" "c_bcc c = c_bcc c0"
    and sent: "bs @ c_txf c = take w tx" and n: "n_tx c0 = length tx"
    using assms(1) turn by (auto simp: exchange_def Let_def split: prod.splits)
  have "length bs = length tx" using turn(3) n ctl_wire_regs(2) [OF regs(2)] by simp
  moreover have "length bs + length (c_txf c) \<le> length tx"
    using arg_cong [OF sent, of length] by simp
  ultimately have "c_txf c = []" by simp
  with sent \<open>length bs = length tx\<close> have "bs = tx" "length tx \<le> w"
    using arg_cong [OF sent, of length] by auto
  with \<open>c_txf c = []\<close> turn ctl_wire_regs(1) [OF regs, of tx] show ?thesis
    using assms(1) by (auto simp: exchange_def Let_def split: prod.splits)
next
  case (receive b bs)
  then show ?thesis using assms(1) by (auto simp: exchange_def Let_def split: prod.splits)
next
  case finish
  have "c_tc c AND NOT SPI_TC_XCH = c_tc c0" using assms(1) by (simp add: exchange_def Let_def split: prod.splits)
  then have "c_tc c0 AND NOT SPI_TC_XCH = c_tc c0" by (metis and.assoc and.idem)
  with finish show ?thesis using assms(1) by (auto simp: exchange_def Let_def split: prod.splits)
qed

lemma exchange_steps:
  "ctl_steps D c c' \<Longrightarrow> exchange D c0 tx w r res c \<Longrightarrow> exchange D c0 tx w r res c'"
  by (induction rule: rtranclp_induct) (auto intro: exchange_step)

lemma exchange_write:
  assumes "exchange D c0 tx w r res c" and "w < length tx"
  shows "exchange D c0 tx (Suc w) r res (c\<lparr>c_txf := c_txf c @ [tx ! w]\<rparr>)"
  using assms by (auto simp: exchange_def Let_def take_Suc_conv_app_nth split: prod.splits phase.splits)

lemma exchange_read:
  assumes "exchange D c0 tx w r res c" and "c_rxf c = b # bs"
  shows "b = fst (D (ctl_wire c0 tx) (c_dev c0)) ! r" "r < length (fst (D (ctl_wire c0 tx) (c_dev c0)))"
    "exchange D c0 tx w (Suc r) res (c\<lparr>c_rxf := bs\<rparr>)"
proof -
  obtain rx d1 where D: "D (ctl_wire c0 tx) (c_dev c0) = (rx, d1)" by fastforce
  obtain bs' where "b # bs' = drop r rx" 
    using assms by (auto simp: exchange_def D split: phase.splits)
  then have "b = rx ! r" "r < length rx" and d: "bs' = drop (Suc r) rx"
    by (metis hd_drop_conv_nth list.sel(1) drop_eq_Nil linorder_not_less list.distinct(1),
        metis drop_eq_Nil linorder_not_less list.distinct(1),
        metis drop_Suc list.sel(3) tl_drop)
  then show "b = fst (D (ctl_wire c0 tx) (c_dev c0)) ! r" "r < length (fst (D (ctl_wire c0 tx) (c_dev c0)))"
    by (simp_all add: D)
  show "exchange D c0 tx w (Suc r) res (c\<lparr>c_rxf := bs\<rparr>)"
    using assms by (auto simp: exchange_def D drop_Suc tl_drop [symmetric] split: phase.splits)
      (metis list.sel(3) append_Cons)+
qed

lemma exchange_irq:
  assumes "exchange D c0 tx w r res c" and "c_done c"
  shows "res = 0" "exchange D c0 tx w r 1 (c\<lparr>c_done := False, c_ier := 0\<rparr>)"
  using assms by (auto simp: exchange_def Let_def split: prod.splits phase.splits)

lemma exchange_supplied:
  assumes "exchange D c0 tx w r res c" "length tx \<le> w"
  shows "supplied c"
proof -
  have n: "n_tx c = length tx" using assms(1) ctl_wire_regs(2) [of c c0]
    by (simp add: exchange_def Let_def split: prod.splits)
  show ?thesis
  proof (cases "c_phase c")
    case (Sending bs)
    then have "bs @ c_txf c = tx" using assms by (simp add: exchange_def Let_def split: prod.splits)
    then have "length (bs @ c_txf c) = length tx" by (simp only:)
    with Sending n show ?thesis by (simp add: supplied_def)
  qed (simp_all add: supplied_def)
qed

lemma exchange_drains:
  assumes "exchange D c0 tx w r res c"
  shows "drains c"
proof (cases "c_phase c")
  case (Sending bs)
  then have bs: "bs @ c_txf c = take w tx" and n: "n_tx c = length tx"
    using assms ctl_wire_regs(2) [of c c0] by (auto simp: exchange_def Let_def split: prod.splits)
  have "length bs + length (c_txf c) \<le> length tx"
    using arg_cong [OF bs, of length] by simp
  with Sending n show ?thesis by (simp add: drains_def)
qed (use assms in \<open>auto simp: exchange_def drains_def Let_def split: prod.splits\<close>)

lemma and_masked: "((m AND v) AND m) = m AND (v :: u32)"
  by (simp only: and.assoc and.commute [of v] and.left_idem)

section \<open>The driver during an exchange\<close>

definition only_irq :: "'h spi \<Rightarrow> 'h spi \<Rightarrow> bool" where
  "only_irq s s' \<longleftrightarrow> (\<exists>res h. s' = s\<lparr>sp_result := res, sp_hw := h\<rparr>)"

lemma only_irqI [simp]: "only_irq s (s\<lparr>sp_result := res, sp_hw := h\<rparr>)" for s :: "'h spi"
  by (auto simp: only_irq_def)

lemma only_irq_hw [simp]: "only_irq s (s\<lparr>sp_hw := h\<rparr>)" for s :: "'h spi"
  using only_irqI [of s h "sp_result s"] by simp

lemma only_irq_refl [simp]: "only_irq s s"
  using only_irq_hw [of s "sp_hw s"] by simp

lemma only_irq_trans: "only_irq s t \<Longrightarrow> only_irq t u \<Longrightarrow> only_irq s u"
  unfolding only_irq_def by (elim exE, hypsubst) (simp, intro exI, rule refl)

lemma only_irq_fields:
  assumes "only_irq s s'"
  shows "sp_irqnum s' = sp_irqnum s" "sp_base s' = sp_base s" "sp_mode_type s' = sp_mode_type s"
    "sp_transfer s' = sp_transfer s" "sp_mclk s' = sp_mclk s" "sp_bus_clk s' = sp_bus_clk s"
    "sp_pclk s' = sp_pclk s" "sp_reset s' = sp_reset s" "sp_port s' = sp_port s"
  using assms by (auto simp: only_irq_def)

definition running ::
  "('h \<Rightarrow> 'd ctl) \<Rightarrow> 'd device \<Rightarrow> u64 \<Rightarrow> u16 \<Rightarrow> 'd ctl \<Rightarrow> u8 list \<Rightarrow> nat \<Rightarrow> nat \<Rightarrow> 'h spi \<Rightarrow> bool"
where
  "running C D base irqn c0 tx w r s \<longleftrightarrow> sp_base s = base \<and> sp_irqnum s = irqn \<and>
     exchange D c0 tx w r (sp_result s) (C (sp_hw s))"

context spi_controller
begin

abbreviation "run \<equiv> running C D base irqn"

lemma exchange_done_Idle: "exchange D c0 tx w r res c \<Longrightarrow> c_done c \<Longrightarrow> c_phase c = Idle \<and> c_ier c = 0x1700"
  by (auto simp: exchange_def Let_def split: prod.splits)

lemma run_hw: "run c0 tx w r s \<Longrightarrow> ctl_steps D (C (sp_hw s)) (C h) \<Longrightarrow> run c0 tx w r (s\<lparr>sp_hw := h\<rparr>)"
  by (auto simp: running_def intro: exchange_steps)

lemma run_readl:
  assumes "run c0 tx w r s" "off \<in> ctl_regs" "hal_readl P off s = (v, s')"
  shows "run c0 tx w r s' \<and> lag (sp_hw s') \<le> lag (sp_hw s) \<and> only_irq s s' \<and>
    (\<exists>c. ctl_read off c v \<and> ctl_steps D c (C (sp_hw s')))"
proof -
  obtain h where r: "plat_readl P (base + off) (sp_hw s) = (v, h)" and s': "s' = s\<lparr>sp_hw := h\<rparr>"
    using assms by (auto simp: hal_readl_def running_def split: prod.splits)
  from readl [OF assms(2) r] obtain c where c: "ctl_steps D (C (sp_hw s)) c" "ctl_read off c v"
    "ctl_steps D c (C h)" by blast
  with assms(1) readl_lag [OF assms(2) r] show ?thesis
    by (auto simp: s' intro!: run_hw intro: rtranclp_trans)
qed

lemma upd_lag: "off \<in> {SPI_INT_CTL_REG, SPI_INT_STA_REG} \<Longrightarrow> lag (upd_hw P (base + off) f h) \<le> lag h"
proof -
  assume o: "off \<in> {SPI_INT_CTL_REG, SPI_INT_STA_REG}"
  obtain v h' where r: "plat_readl P (base + off) h = (v, h')" by fastforce
  have "lag h' \<le> lag h" using o by (intro readl_lag [OF _ r]) (auto simp: ctl_regs_def)
  moreover have "lag (plat_writel P (f v) (base + off) h') \<le> lag h'" by (rule writel_lag [OF o])
  ultimately show ?thesis by (simp add: upd_hw_def r)
qed

lemma run_take_irq:
  assumes run: "run c0 tx w r s"
  shows "run c0 tx w r (take_irq P s) \<and> lag (sp_hw (take_irq P s)) \<le> lag (sp_hw s) \<and> only_irq s (take_irq P s) \<and>
    c_rxf (C (sp_hw (take_irq P s))) = c_rxf (C (sp_hw s)) \<and>
    (sp_result (take_irq P s) = 0 \<longrightarrow> \<not> plat_irq P irqn (sp_hw (take_irq P s)))"
proof (cases "plat_irq P irqn (sp_hw s)")
  case False
  with run show ?thesis by (auto simp: take_irq_def running_def)
next
  case True
  let ?c = "C (sp_hw s)"
  have b: "sp_base s = base" "sp_irqnum s = irqn" and ex: "exchange D c0 tx w r (sp_result s) ?c"
    using run by (simp_all add: running_def)
  from irq [OF True] have dn: "c_done ?c" by simp
  note idle = exchange_done_Idle [OF ex dn]
  obtain v1 h1 where r1: "plat_readl P (base + SPI_INT_CTL_REG) (sp_hw s) = (v1, h1)" by fastforce
  obtain v2 h2 where r2: "plat_readl P (base + SPI_INT_STA_REG) h1 = (v2, h2)" by fastforce
  have c1: "C h1 = ?c" using idle_readl [OF _ _ r1] idle by (simp add: ctl_regs_def)
  have c2: "C h2 = ?c" "v2 AND SPI_INT_STA_TC \<noteq> 0"
    using idle_readl [OF _ _ r2] idle dn by (simp_all add: ctl_regs_def c1 ctl_read_def)
  have tc: "(SPI_INT_STA_MASK AND v2) AND SPI_INT_STA_TC \<noteq> 0"
  proof -
    have "(SPI_INT_STA_MASK AND v2) AND SPI_INT_STA_TC = v2 AND (SPI_INT_STA_MASK AND SPI_INT_STA_TC)"
      by (simp only: ac_simps)
    with c2(2) show ?thesis by simp
  qed
  define h3 where "h3 = plat_writel P (SPI_INT_STA_MASK AND v2) (base + SPI_INT_STA_REG) h2"
  have c3: "C h3 = ?c\<lparr>c_done := False\<rparr>"
    unfolding h3_def using idle tc dn
    by (intro idle_writel) (simp_all add: ctl_regs_def c2 ctl_write_def)
  define h4 where "h4 = upd_hw P (base + SPI_INT_CTL_REG) (\<lambda>v. v AND NOT (0x1700 AND SPI_INTEN_MASK)) h3"
  have c4: "C h4 = ?c\<lparr>c_done := False, c_ier := 0\<rparr>"
    unfolding h4_def using idle by (subst idle_ier) (simp_all add: c3)
  have t: "take_irq P s = s\<lparr>sp_result := 1, sp_hw := h4\<rparr>"
    using True b r1 r2 tc
    by (simp add: take_irq_def spi_irq_handler_def spi_qry_irq_enable_def spi_qry_irq_pending_def
        hal_readl_def spi_clr_irq_pending_def hal_writel_def spi_disable_irq_def update_reg_eq h3_def h4_def
        and_masked)
  have "lag h1 \<le> lag (sp_hw s)" "lag h2 \<le> lag h1" "lag h3 \<le> lag h2" "lag h4 \<le> lag h3"
    using readl_lag [OF _ r1] readl_lag [OF _ r2] by (simp_all add: ctl_regs_def h3_def writel_lag h4_def upd_lag)
  with exchange_irq [OF ex dn] c4 b t show ?thesis
    by (simp add: running_def)
qed

end

lemma steps_txf: "ctl_steps D c c' \<Longrightarrow> length (c_txf c') \<le> length (c_txf c)"
  by (induction rule: rtranclp_induct) (auto elim!: ctl_stepE)

lemma steps_rxf: "ctl_steps D c c' \<Longrightarrow> length (c_rxf c) \<le> length (c_rxf c')"
  by (induction rule: rtranclp_induct) (auto elim!: ctl_stepE)

lemma exchange_cases:
  assumes "exchange D c0 tx w r res c"
  shows "w < length tx \<Longrightarrow> \<not> c_done c"
    "c_phase c = Idle \<Longrightarrow> c_rxf c = drop r (fst (D (ctl_wire c0 tx) (c_dev c0)))"
    "r \<ge> length (fst (D (ctl_wire c0 tx) (c_dev c0))) \<Longrightarrow> c_rxf c = []"
    "res = 0 \<Longrightarrow> c_ier c = 0x1700 \<and> (c_done c \<longleftrightarrow> c_phase c = Idle)"
    "res = 0 \<or> res = 1"
  using assms by (auto simp: exchange_def Let_def split: prod.splits phase.splits)

lemma unat_pred: "n < unat p \<Longrightarrow> unat (p - 1 :: 'a::len word) = unat p - 1"
  using unat_minus_one [of p] unat_gt_0 [of p] by (cases "p = 0") auto

context spi_controller
begin

lemma run_no_irq:
  assumes "run c0 tx w r s" "w < length tx"
  shows "take_irq P s = s"
proof -
  have "exchange D c0 tx w r (sp_result s) (C (sp_hw s))" "sp_irqnum s = irqn"
    using assms by (simp_all add: running_def)
  then have "\<not> c_done (C (sp_hw s))" "sp_irqnum s = irqn"
    using exchange_cases(1) [OF _ assms(2)] by blast+
  then show ?thesis using irq [of "sp_hw s"] by (auto simp: take_irq_def)
qed

lemma run_query:
  assumes run: "run c0 tx w r s"
  shows "\<exists>n s'. spi_query_txfifo P s = (n, s') \<and> run c0 tx w r s' \<and> only_irq s s' \<and>
      lag (sp_hw s') \<le> lag (sp_hw s) \<and> (MAX_FIFU \<le> n \<longrightarrow> lag (sp_hw s') < lag (sp_hw s)) \<and>
      (\<not> MAX_FIFU \<le> n \<longrightarrow> length (c_txf (C (sp_hw s'))) < 64)"
    and "\<exists>n s'. spi_query_rxfifo P s = (n, s') \<and> run c0 tx w r s' \<and> only_irq s s' \<and>
      lag (sp_hw s') \<le> lag (sp_hw s) \<and>
      (n = 0 \<longrightarrow> length tx \<le> w \<longrightarrow> r < length (fst (D (ctl_wire c0 tx) (c_dev c0))) \<longrightarrow>
         lag (sp_hw s') < lag (sp_hw s)) \<and>
      (n \<noteq> 0 \<longrightarrow> c_rxf (C (sp_hw s')) \<noteq> [])"
proof -
  obtain v s' where rd: "hal_readl P SPI_FIFO_STA_REG s = (v, s')" by fastforce
  have b: "sp_base s = base" using run by (simp add: running_def)
  from run_readl [OF run _ rd] obtain c where
    st: "run c0 tx w r s'" "lag (sp_hw s') \<le> lag (sp_hw s)" "only_irq s s'"
    and c: "ctl_read SPI_FIFO_STA_REG c v" "ctl_steps D c (C (sp_hw s'))"
    by (auto simp: ctl_regs_def)
  have hw: "plat_readl P (base + SPI_FIFO_STA_REG) (sp_hw s) = (v, sp_hw s')"
    using rd b by (auto simp: hal_readl_def split: prod.splits)
  let ?n = "drop_bit 16 (SPI_FIFO_STA_TX_CNT AND v)" and ?m = "SPI_FIFO_STA_RX_CNT AND v"
  have n: "unat ?n = length (c_txf c)" "unat ?m = length (c_rxf c)"
    using c(1) by (simp_all add: ctl_read_def)
  have "lag (sp_hw s') < lag (sp_hw s)" if "MAX_FIFU \<le> ?n"
    using poll_tx [OF hw] that run
    by (auto simp: word_le_nat_alt running_def dest: exchange_drains)
  moreover have "length (c_txf (C (sp_hw s'))) < 64" if "\<not> MAX_FIFU \<le> ?n"
    using that n(1) steps_txf [OF c(2)] by (simp add: word_le_nat_alt)
  ultimately show "\<exists>n s'. spi_query_txfifo P s = (n, s') \<and> run c0 tx w r s' \<and> only_irq s s' \<and>
      lag (sp_hw s') \<le> lag (sp_hw s) \<and> (MAX_FIFU \<le> n \<longrightarrow> lag (sp_hw s') < lag (sp_hw s)) \<and>
      (\<not> MAX_FIFU \<le> n \<longrightarrow> length (c_txf (C (sp_hw s'))) < 64)"
    using st by (simp add: spi_query_txfifo_def rd)
  have "lag (sp_hw s') < lag (sp_hw s)"
    if m: "?m = 0" and w: "length tx \<le> w" and r: "r < length (fst (D (ctl_wire c0 tx) (c_dev c0)))"
  proof (rule poll_rx [OF hw m])
    have ex: "exchange D c0 tx w r (sp_result s) (C (sp_hw s))"
      using run by (simp add: running_def)
    show "supplied (C (sp_hw s))" by (rule exchange_supplied [OF ex w])
    show "c_phase (C (sp_hw s)) \<noteq> Idle"
    proof
      assume i: "c_phase (C (sp_hw s)) = Idle"
      then have "ctl_read SPI_FIFO_STA_REG (C (sp_hw s)) v" 
        using idle_readl [OF _ i hw] by (simp add: ctl_regs_def)
      then have "c_rxf (C (sp_hw s)) = []" using m by (simp add: ctl_read_def)
      with exchange_cases(2) [OF ex i] r show False by simp
    qed
  qed
  moreover have "c_rxf (C (sp_hw s')) \<noteq> []" if "?m \<noteq> 0"
    using that n(2) steps_rxf [OF c(2)] unat_gt_0 [of ?m] by auto
  ultimately show "\<exists>n s'. spi_query_rxfifo P s = (n, s') \<and> run c0 tx w r s' \<and> only_irq s s' \<and>
      lag (sp_hw s') \<le> lag (sp_hw s) \<and>
      (n = 0 \<longrightarrow> length tx \<le> w \<longrightarrow> r < length (fst (D (ctl_wire c0 tx) (c_dev c0))) \<longrightarrow>
         lag (sp_hw s') < lag (sp_hw s)) \<and>
      (n \<noteq> 0 \<longrightarrow> c_rxf (C (sp_hw s')) \<noteq> [])"
    using st by (simp add: spi_query_rxfifo_def rd)
qed

lemma run_wait_tx:
  "run c0 tx w r s \<Longrightarrow> lag (sp_hw s) < unat p \<Longrightarrow>
   \<exists>p' s'. spi_wait_txfifo P p s = (p', s') \<and> run c0 tx w r s' \<and> lag (sp_hw s') < unat p' \<and>
     lag (sp_hw s') \<le> lag (sp_hw s) \<and> only_irq s s' \<and> length (c_txf (C (sp_hw s'))) < 64"
proof (induction "unat p" arbitrary: p s rule: less_induct)
  case less
  let ?s1 = "take_irq P s"
  have t: "run c0 tx w r ?s1" "lag (sp_hw ?s1) \<le> lag (sp_hw s)" "only_irq s ?s1"
    using run_take_irq [OF less.prems(1)] by simp_all
  obtain n s2 where q: "spi_query_txfifo P ?s1 = (n, s2)" "run c0 tx w r s2" "only_irq ?s1 s2"
    "lag (sp_hw s2) \<le> lag (sp_hw ?s1)" "MAX_FIFU \<le> n \<longrightarrow> lag (sp_hw s2) < lag (sp_hw ?s1)"
    "\<not> MAX_FIFU \<le> n \<longrightarrow> length (c_txf (C (sp_hw s2))) < 64"
    using run_query(1) [OF t(1)] by blast
  note o = only_irq_trans [OF t(3) q(3)]
  show ?case
  proof (cases "MAX_FIFU \<le> n")
    case False
    with q t o less.prems(2) show ?thesis
      by (simp add: spi_wait_txfifo.simps [of P p s])
  next
    case True
    have p: "p \<noteq> 0" using less.prems(2) by auto
    have u: "unat (p - 1) = unat p - 1" by (rule unat_pred [OF less.prems(2)])
    have "lag (sp_hw s2) < unat (p - 1)" using True q(5) t(2) less.prems(2) u by simp
    from less.hyps [OF _ q(2) this] u less.prems(2) obtain p' s' where
      "spi_wait_txfifo P (p - 1) s2 = (p', s')" "run c0 tx w r s'" "lag (sp_hw s') < unat p'"
      "lag (sp_hw s') \<le> lag (sp_hw s2)" "only_irq s2 s'" "length (c_txf (C (sp_hw s'))) < 64"
      by auto
    with True p q t o show ?thesis
      by (simp add: spi_wait_txfifo.simps [of P p s]) (meson only_irq_trans)
  qed
qed

lemma run_wait_rx:
  "run c0 tx w r s \<Longrightarrow> length tx \<le> w \<Longrightarrow> r < length (fst (D (ctl_wire c0 tx) (c_dev c0))) \<Longrightarrow>
   lag (sp_hw s) < unat p \<Longrightarrow>
   \<exists>p' s'. spi_wait_rxfifo P p s = (p', s') \<and> run c0 tx w r s' \<and> lag (sp_hw s') < unat p' \<and>
     lag (sp_hw s') \<le> lag (sp_hw s) \<and> only_irq s s' \<and> c_rxf (C (sp_hw s')) \<noteq> []"
proof (induction "unat p" arbitrary: p s rule: less_induct)
  case less
  let ?s1 = "take_irq P s"
  have t: "run c0 tx w r ?s1" "lag (sp_hw ?s1) \<le> lag (sp_hw s)" "only_irq s ?s1"
    using run_take_irq [OF less.prems(1)] by simp_all
  obtain n s2 where q: "spi_query_rxfifo P ?s1 = (n, s2)" "run c0 tx w r s2" "only_irq ?s1 s2"
    "lag (sp_hw s2) \<le> lag (sp_hw ?s1)" "n = 0 \<longrightarrow> lag (sp_hw s2) < lag (sp_hw ?s1)"
    "n \<noteq> 0 \<longrightarrow> c_rxf (C (sp_hw s2)) \<noteq> []"
    using run_query(2) [OF t(1)] less.prems(2,3) by blast
  note o = only_irq_trans [OF t(3) q(3)]
  show ?case
  proof (cases "n = 0")
    case False
    with q t o less.prems show ?thesis
      by (simp add: spi_wait_rxfifo.simps [of P p s])
  next
    case True
    have p: "p \<noteq> 0" using less.prems(4) by auto
    have u: "unat (p - 1) = unat p - 1" by (rule unat_pred [OF less.prems(4)])
    have "lag (sp_hw s2) < unat (p - 1)" using True q(5) t(2) less.prems(4) u by simp
    from less.hyps [OF _ q(2) less.prems(2,3) this] u less.prems(4) obtain p' s' where
      "spi_wait_rxfifo P (p - 1) s2 = (p', s')" "run c0 tx w r s'" "lag (sp_hw s') < unat p'"
      "lag (sp_hw s') \<le> lag (sp_hw s2)" "only_irq s2 s'" "c_rxf (C (sp_hw s')) \<noteq> []"
      by auto
    with True p q t o show ?thesis
      by (simp add: spi_wait_rxfifo.simps [of P p s]) (meson only_irq_trans)
  qed
qed


lemma run_writeb:
  assumes run: "run c0 tx w r s" and w: "w < length tx" and room: "length (c_txf (C (sp_hw s))) < 64"
  shows "run c0 tx (Suc w) r (hal_writeb P (tx ! w) SPI_TXDATA_REG s)"
    "lag (sp_hw (hal_writeb P (tx ! w) SPI_TXDATA_REG s)) \<le> lag (sp_hw s)"
    "only_irq s (hal_writeb P (tx ! w) SPI_TXDATA_REG s)"
proof -
  have b: "sp_base s = base" and ex: "exchange D c0 tx w r (sp_result s) (C (sp_hw s))"
    using run by (simp_all add: running_def)
  obtain c where c: "ctl_steps D (C (sp_hw s)) c" "length (c_txf c) < 64 \<longrightarrow>
      ctl_steps D (c\<lparr>c_txf := c_txf c @ [tx ! w]\<rparr>) (C (plat_writeb P (tx ! w) (base + SPI_TXDATA_REG) (sp_hw s)))"
    using writeb by blast
  have "exchange D c0 tx (Suc w) r (sp_result s) (c\<lparr>c_txf := c_txf c @ [tx ! w]\<rparr>)"
    by (rule exchange_write [OF exchange_steps [OF c(1) ex] w])
  with c(2) steps_txf [OF c(1)] room exchange_steps
  show "run c0 tx (Suc w) r (hal_writeb P (tx ! w) SPI_TXDATA_REG s)"
    using run b by (auto simp: running_def hal_writeb_def)
qed (use run in \<open>simp_all add: hal_writeb_def running_def writeb_lag\<close>)

lemma run_write_loop:
  "run c0 tx i r s \<Longrightarrow> length tx = i + len \<Longrightarrow> tx = take (length tx) buf \<Longrightarrow>
   lag (sp_hw s) < unat p \<Longrightarrow> length (c_txf (C (sp_hw s))) < 64 \<Longrightarrow>
   \<exists>s'. cpu_write_loop P buf i len p s = Some (0, s') \<and> run c0 tx (length tx) r s' \<and>
     lag (sp_hw s') \<le> lag (sp_hw s) \<and> only_irq s s'"
proof (induction len arbitrary: i p s)
  case 0
  then show ?case by simp
next
  case (Suc len)
  have i: "i < length tx" using Suc.prems(2) by simp
  have le: "length tx \<le> length buf"
    using arg_cong [OF Suc.prems(3), of length] by simp
  have b: "buf ! i = tx ! i" using i Suc.prems(3) by (metis nth_take)
  let ?s1 = "hal_writeb P (tx ! i) SPI_TXDATA_REG s"
  note w = run_writeb [OF Suc.prems(1) i Suc.prems(5)]
  have "lag (sp_hw ?s1) < unat p" using w(2) Suc.prems(4) by simp
  from run_wait_tx [OF w(1) this] obtain p' s2 where
    q: "spi_wait_txfifo P p ?s1 = (p', s2)" "run c0 tx (Suc i) r s2" "lag (sp_hw s2) < unat p'"
    "lag (sp_hw s2) \<le> lag (sp_hw ?s1)" "only_irq ?s1 s2" "length (c_txf (C (sp_hw s2))) < 64"
    by blast
  from Suc.IH [OF q(2) _ Suc.prems(3) q(3) q(6)] Suc.prems(2) obtain s' where
    "cpu_write_loop P buf (Suc i) len p' s2 = Some (0, s')" "run c0 tx (length tx) r s'"
    "lag (sp_hw s') \<le> lag (sp_hw s2)" "only_irq s2 s'" by auto
  moreover have "p' \<noteq> 0" using q(3) by auto
  ultimately show ?case
    using i le b q w(2,3) run_no_irq [OF Suc.prems(1) i]
    by (auto intro: only_irq_trans)
qed

lemma run_readb:
  assumes run: "run c0 tx w r s" and ne: "c_rxf (C (sp_hw s)) \<noteq> []"
    and rd: "hal_readb P SPI_RXDATA_REG s = (v, s')"
  shows "run c0 tx w (Suc r) s'" "lag (sp_hw s') \<le> lag (sp_hw s)" "only_irq s s'"
    "v = fst (D (ctl_wire c0 tx) (c_dev c0)) ! r" "r < length (fst (D (ctl_wire c0 tx) (c_dev c0)))"
proof -
  have b: "sp_base s = base" and ex: "exchange D c0 tx w r (sp_result s) (C (sp_hw s))"
    using run by (simp_all add: running_def)
  obtain h where r: "plat_readb P (base + SPI_RXDATA_REG) (sp_hw s) = (v, h)" and s': "s' = s\<lparr>sp_hw := h\<rparr>"
    using rd b by (auto simp: hal_readb_def split: prod.splits)
  from readb [OF r] obtain c where c: "ctl_steps D (C (sp_hw s)) c"
    "\<forall>bs b. c_rxf c = b # bs \<longrightarrow> v = b \<and> ctl_steps D (c\<lparr>c_rxf := bs\<rparr>) (C h)" by blast
  have "c_rxf c \<noteq> []" using steps_rxf [OF c(1)] ne by auto
  then obtain b bs where cons: "c_rxf c = b # bs" by (cases "c_rxf c") auto
  note x = exchange_read [OF exchange_steps [OF c(1) ex] cons]
  from c(2) cons have st: "ctl_steps D (c\<lparr>c_rxf := bs\<rparr>) (C h)" and v: "v = b" by auto
  show "run c0 tx w (Suc r) s'"
    using exchange_steps [OF st x(3)] run by (simp add: running_def s')
  show "v = fst (D (ctl_wire c0 tx) (c_dev c0)) ! r" "r < length (fst (D (ctl_wire c0 tx) (c_dev c0)))"
    using x(1,2) v by simp_all
  show "lag (sp_hw s') \<le> lag (sp_hw s)" "only_irq s s'" using readb_lag [OF r] by (simp_all add: s')
qed

lemma run_read_loop:
  "run c0 tx (length tx) n s \<Longrightarrow> length (fst (D (ctl_wire c0 tx) (c_dev c0))) = n + len \<Longrightarrow>
   n + len \<le> length buf \<Longrightarrow> take n buf = take n (fst (D (ctl_wire c0 tx) (c_dev c0))) \<Longrightarrow>
   lag (sp_hw s) < unat p \<Longrightarrow>
   \<exists>s'. cpu_read_loop P buf n len p s =
       Some (0, fst (D (ctl_wire c0 tx) (c_dev c0)) @ drop (n + len) buf, s') \<and>
     run c0 tx (length tx) (n + len) s' \<and> lag (sp_hw s') \<le> lag (sp_hw s) \<and> only_irq s s'"
proof (induction len arbitrary: n p s buf)
  case 0
  then have "buf = fst (D (ctl_wire c0 tx) (c_dev c0)) @ drop n buf"
    by (metis add.right_neutral append_take_drop_id take_all_iff order_refl)
  with 0 show ?case by simp
next
  case (Suc len)
  let ?rx = "fst (D (ctl_wire c0 tx) (c_dev c0))"
  have n: "n < length ?rx" using Suc.prems(2) by simp
  from run_wait_rx [OF Suc.prems(1) order_refl n Suc.prems(5)] obtain p' s1 where
    q: "spi_wait_rxfifo P p s = (p', s1)" "run c0 tx (length tx) n s1" "lag (sp_hw s1) < unat p'"
    "lag (sp_hw s1) \<le> lag (sp_hw s)" "only_irq s s1" "c_rxf (C (sp_hw s1)) \<noteq> []" by blast
  note t = run_take_irq [OF q(2)]
  have ne: "c_rxf (C (sp_hw (take_irq P s1))) \<noteq> []" using t q(6) by simp
  obtain v s2 where rd: "hal_readb P SPI_RXDATA_REG (take_irq P s1) = (v, s2)" by fastforce
  note r = run_readb [OF conjunct1 [OF t] ne rd]
  have l: "n < length buf" using Suc.prems(3) by simp
  have tk: "take (Suc n) (buf[n := v]) = take (Suc n) ?rx"
    using Suc.prems(4) l n r(4) by (simp add: take_Suc_conv_app_nth)
  have "lag (sp_hw s2) < unat p'" using r(2) t q(3) by simp
  from Suc.IH [OF r(1) _ _ tk this] Suc.prems(2,3) obtain s' where
    "cpu_read_loop P (buf[n := v]) (Suc n) len p' s2 = Some (0, ?rx @ drop (Suc n + len) (buf[n := v]), s')"
    "run c0 tx (length tx) (Suc n + len) s'" "lag (sp_hw s') \<le> lag (sp_hw s2)" "only_irq s2 s'"
    by auto
  moreover have "p' \<noteq> 0" using q(3) by auto
  moreover have "only_irq s s'"
    using q(5) t r(3) \<open>only_irq s2 s'\<close> by (blast intro: only_irq_trans)
  ultimately show ?case
    using q(1,4) t rd r(2) l by auto
qed

lemma run_complete:
  "run c0 tx (length tx) r s \<Longrightarrow> length (fst (D (ctl_wire c0 tx) (c_dev c0))) \<le> r \<Longrightarrow>
   lag (sp_hw s) < unat p \<Longrightarrow>
   \<exists>p' s'. complete_loop P p s = (p', s') \<and> p' \<noteq> 0 \<and> run c0 tx (length tx) r s' \<and>
     sp_result s' = 1 \<and> only_irq s s'"
proof (induction "unat p" arbitrary: p s rule: less_induct)
  case less
  let ?s1 = "take_irq P s"
  have t: "run c0 tx (length tx) r ?s1" "lag (sp_hw ?s1) \<le> lag (sp_hw s)" "only_irq s ?s1"
    using run_take_irq [OF less.prems(1)] by simp_all
  have ex: "exchange D c0 tx (length tx) r (sp_result ?s1) (C (sp_hw ?s1))"
    and irqn: "sp_irqnum ?s1 = irqn"
    using t(1) by (simp_all add: running_def)
  have p: "p \<noteq> 0" using less.prems(3) by auto
  show ?case
  proof (cases "sp_result ?s1 = 0")
    case False
    with exchange_cases(5) [OF ex] p t show ?thesis
      by (auto simp: complete_loop.simps [of P p s])
  next
    case True
    have noirq: "\<not> plat_irq P irqn (sp_hw ?s1)"
      using run_take_irq [OF less.prems(1)] True by simp
    let ?h = "plat_tick P (sp_hw ?s1)" and ?s2 = "?s1\<lparr>sp_hw := plat_tick P (sp_hw ?s1)\<rparr>"
    have run2: "run c0 tx (length tx) r ?s2" by (rule run_hw [OF t(1) tick])
    have "lag ?h < lag (sp_hw ?s1)"
      using exchange_cases(3,4) [OF ex] True less.prems(2) exchange_supplied [OF ex order_refl] noirq
      by (intro tick_lag) auto
    with t(2) less.prems(3) have l: "lag (sp_hw ?s2) < unat (p - 1)"
      using unat_pred [OF less.prems(3)] by simp
    from less.hyps [OF _ run2 less.prems(2) l] unat_pred [OF less.prems(3)] less.prems(3)
    obtain p' s' where "complete_loop P (p - 1) ?s2 = (p', s')" "p' \<noteq> 0"
      "run c0 tx (length tx) r s'" "sp_result s' = 1" "only_irq ?s2 s'" by auto
    moreover have "only_irq s s'"
      using t(3) \<open>only_irq ?s2 s'\<close> by (blast intro: only_irq_trans only_irq_hw)
    ultimately show ?thesis using p True by (simp add: complete_loop.simps [of P p s])
  qed
qed

end

text \<open>A controller that is configured for the flash chip and waits for the next transfer.\<close>

definition spi_idle :: "('h \<Rightarrow> 'd ctl) \<Rightarrow> u64 \<Rightarrow> u16 \<Rightarrow> 'h spi \<Rightarrow> bool" where
  "spi_idle C base irqn s \<longleftrightarrow> sp_base s = base \<and> sp_irqnum s = irqn \<and> sp_mode_type s = MODE_TYPE_NULL \<and>
     c_phase (C (sp_hw s)) = Idle \<and> c_ier (C (sp_hw s)) = 0 \<and> ctl_ready (C (sp_hw s))"

lemma ctl_ready_bits: "ctl_ready c \<Longrightarrow> c_tc c AND NOT SPI_TC_XCH = c_tc c"
  "ctl_ready c \<Longrightarrow> (c_tc c OR SPI_TC_XCH) AND NOT SPI_TC_XCH = c_tc c" 
  "(v OR SPI_TC_XCH) AND SPI_TC_XCH \<noteq> 0"
proof -
  have *: "c_tc c AND NOT SPI_TC_XCH = c_tc c" if "ctl_ready c"
  proof -
    have "c_tc c AND 0x80000000 = (c_tc c AND 0x8000137F) AND 0x80000000"
      by (simp only: and.assoc) simp
    also have "\<dots> = 0" using that by (simp add: ctl_ready_def)
    finally have z: "c_tc c AND 0x80000000 = 0" .
    have "c_tc c = (c_tc c AND NOT 0x80000000) OR (c_tc c AND 0x80000000)"
      by (simp flip: bit.conj_disj_distrib)
    with z show ?thesis by simp
  qed
  then show "ctl_ready c \<Longrightarrow> c_tc c AND NOT SPI_TC_XCH = c_tc c" .
  show "ctl_ready c \<Longrightarrow> (c_tc c OR SPI_TC_XCH) AND NOT SPI_TC_XCH = c_tc c"
    using * by (simp only: bit.conj_disj_distrib2) simp
  show "(v OR SPI_TC_XCH) AND SPI_TC_XCH \<noteq> 0"
    by (simp only: bit.conj_disj_distrib2) simp
qed

context spi_controller
begin

lemma idle_no_irq:
  assumes "sp_irqnum s = irqn" "\<not> c_done (C (sp_hw s)) \<or> c_ier (C (sp_hw s)) = 0"
  shows "take_irq P s = s"
  using assms irq [of "sp_hw s"] by (auto simp: take_irq_def)

lemma idle_clr_pending:
  assumes "sp_base s = base" "c_phase (C (sp_hw s)) = Idle"
  shows "\<exists>h. spi_clr_irq_pending P SPI_INT_STA_MASK s = s\<lparr>sp_hw := h\<rparr> \<and> C h = (C (sp_hw s))\<lparr>c_done := False\<rparr>"
proof -
  have "C (plat_writel P SPI_INT_STA_MASK (base + SPI_INT_STA_REG) (sp_hw s)) = (C (sp_hw s))\<lparr>c_done := False\<rparr>"
    using assms by (intro idle_writel) (simp_all add: ctl_regs_def ctl_write_def)
  with assms(1) show ?thesis by (auto simp: spi_clr_irq_pending_def hal_writel_def)
qed

lemma start_exchange:
  assumes s: "sp_base s = base" "sp_irqnum s = irqn" "sp_result s = 0"
    and c: "c_phase (C (sp_hw s)) = Idle" "c_ier (C (sp_hw s)) = 0x1700" "\<not> c_done (C (sp_hw s))"
      "c_txf (C (sp_hw s)) = []" "c_rxf (C (sp_hw s)) = []" "ctl_ready (C (sp_hw s))"
      "n_tx (C (sp_hw s)) = length tx"
  shows "run (C (sp_hw s)) tx 0 0 (spi_start_xfer P s)" "lag (sp_hw (spi_start_xfer P s)) < 255"
    "length (c_txf (C (sp_hw (spi_start_xfer P s)))) < 64" "only_irq s (spi_start_xfer P s)"
proof -
  let ?c = "C (sp_hw s)"
  obtain v h1 where r: "plat_readl P (base + SPI_TC_REG) (sp_hw s) = (v, h1)" by fastforce
  have v: "v = c_tc ?c" "C h1 = ?c"
    using idle_readl [OF _ c(1) r] by (simp_all add: ctl_regs_def ctl_read_def)
  let ?h = "plat_writel P (c_tc ?c OR SPI_TC_XCH) (base + SPI_TC_REG) h1"
  have st: "spi_start_xfer P s = s\<lparr>sp_hw := ?h\<rparr>"
    using s(1) r v(1) by (simp add: spi_start_xfer_def update_reg_eq upd_hw_def)
  let ?c1 = "?c\<lparr>c_tc := c_tc ?c OR SPI_TC_XCH, c_phase := Sending []\<rparr>"
  have rc: "ctl_ready (?c\<lparr>c_tc := (c_tc ?c OR SPI_TC_XCH) AND NOT SPI_TC_XCH\<rparr>)"
    using c(6) by (simp only: ctl_ready_bits(2) [OF c(6)]) simp
  have w: "ctl_write SPI_TC_REG (c_tc ?c OR SPI_TC_XCH) ?c = Some ?c1"
    using c(1) rc ctl_ready_bits(3) [of "c_tc ?c"] by (simp add: ctl_write_def Let_def)
  have "ctl_steps D ?c1 (C ?h)"
    using writel [of SPI_TC_REG h1 "c_tc ?c OR SPI_TC_XCH"] v(2) w Idle_no_step [OF _ c(1)]
    by (auto simp: ctl_regs_def)
  moreover have "exchange D ?c tx 0 0 0 ?c1"
    using c ctl_ready_bits(2) [OF c(6)] by (simp add: exchange_def Let_def split: prod.splits)
  ultimately have "exchange D ?c tx 0 0 0 (C ?h)" by (rule exchange_steps)
  then show "run ?c tx 0 0 (spi_start_xfer P s)" "length (c_txf (C (sp_hw (spi_start_xfer P s)))) < 64"
    using s by (auto simp: running_def st exchange_def Let_def split: prod.splits phase.splits)
  show "lag (sp_hw (spi_start_xfer P s)) < 255" "only_irq s (spi_start_xfer P s)"
    using start_lag by (simp_all add: st)
qed


lemma exchange_end:
  assumes "exchange D c0 tx (length tx) r 1 c" "ctl_ready c0"
  shows "c_phase c = Idle" "c_ier c = 0" "ctl_ready c" "c_dev c = snd (D (ctl_wire c0 tx) (c_dev c0))"
  using assms by (auto simp: exchange_def Let_def ctl_ready_def split: prod.splits)

lemma run_cpu_read:
  assumes run: "run c0 tx (length tx) 0 s" and t: "sp_transfer s = Some t" "tr_rx_buf t = Some buf"
    and rx: "rx = fst (D (ctl_wire c0 tx) (c_dev c0))" "length rx = unat (tr_rx_len t)" "length rx \<le> length buf"
    and l: "lag (sp_hw s) < 255"
  shows "\<exists>s'. spi_cpu_read P s = Some (0, s') \<and> run c0 tx (length tx) (length rx) s' \<and>
    lag (sp_hw s') < 255 \<and> sp_mode_type s' = sp_mode_type s \<and>
    sp_transfer s' = Some (t\<lparr>tr_rx_buf := Some (rx @ drop (length rx) buf)\<rparr>)"
proof -
  have "lag (sp_hw s) < unat (0xFF :: u32)" using l by simp
  from run_read_loop [OF run _ _ _ this, of "length rx" buf] rx obtain s' where
    r: "cpu_read_loop P buf 0 (length rx) 0xFF s = Some (0, rx @ drop (length rx) buf, s')"
    "run c0 tx (length tx) (length rx) s'" "lag (sp_hw s') \<le> lag (sp_hw s)" "only_irq s s'"
    by auto
  then show ?thesis
    using t rx(2) l by (auto simp: spi_cpu_read_def running_def only_irq_fields [OF r(4)])
qed

text \<open>The bytes move: what \<open>spi_transfer\<close> does once the exchange is set up.\<close>

lemma transfer_runs:
  assumes s: "sp_base s = base" "sp_irqnum s = irqn" "sp_result s = 0" "sp_transfer s = Some t"
      "sp_mode_type s = tr_mode t" and t: "tr_ok t"
    and c: "c_phase (C (sp_hw s)) = Idle" "c_ier (C (sp_hw s)) = 0x1700" "\<not> c_done (C (sp_hw s))"
      "c_txf (C (sp_hw s)) = []" "c_rxf (C (sp_hw s)) = []" "ctl_ready (C (sp_hw s))"
      "n_tx (C (sp_hw s)) = length (tx_bytes t)" "ctl_wire (C (sp_hw s)) (tx_bytes t) = tr_wire t"
    and rx: "rx = fst (D (tr_wire t) (c_dev (C (sp_hw s))))"
  shows "\<exists>s' c0. spi_transfer_cpu P s = Some (0, s') \<and> c0 = (C (sp_hw s)) \<and>
    run c0 (tx_bytes t) (length (tx_bytes t)) (length rx) s' \<and> lag (sp_hw s') < 255 \<and>
    sp_mode_type s' = tr_mode t \<and>
    sp_transfer s' = Some (t\<lparr>tr_rx_buf := map_option (\<lambda>buf. rx @ drop (length rx) buf) (tr_rx_buf t)\<rparr>)"
proof -
  let ?tx = "tx_bytes t" and ?c = "C (sp_hw s)"
  have len: "length rx = rx_count t" by (simp add: rx reply tr_wire_def)
  have noirq: "take_irq P s = s" by (rule idle_no_irq) (simp_all add: s c)
  have rx': "rx = fst (D (ctl_wire ?c ?tx) (c_dev ?c))" by (simp add: rx c(8))
  have buf: "length rx = unat (tr_rx_len t)" "length rx \<le> length buf" if "tr_rx_buf t = Some buf" for buf
    using that t len by (auto simp: tr_ok_def rx_count_def)
  show ?thesis
  proof (cases "tr_tx_buf t")
    case None
    then obtain rb where rb: "tr_rx_buf t = Some rb" using t by (auto simp: tr_ok_def)
    have tx: "?tx = []" using None by (simp add: tx_bytes_def)
    obtain h where h: "spi_clr_irq_pending P SPI_INT_STA_MASK s = s\<lparr>sp_hw := h\<rparr>" "C h = ?c\<lparr>c_done := False\<rparr>"
      using idle_clr_pending [OF s(1) c(1)] by blast
    let ?s1 = "s\<lparr>sp_hw := h\<rparr>"
    have C1: "C h = ?c" by (rule ctl.equality) (use h(2) c(3) in simp_all)
    have noirq1: "take_irq P ?s1 = ?s1" by (rule idle_no_irq) (simp_all add: s c C1)
    have st: "run ?c ?tx 0 0 (spi_start_xfer P ?s1)" "lag (sp_hw (spi_start_xfer P ?s1)) < 255"
      "only_irq ?s1 (spi_start_xfer P ?s1)"
      using start_exchange [of ?s1 ?tx] s c C1 by simp_all
    have r1: "run ?c ?tx (length ?tx) 0 (spi_start_xfer P ?s1)" using st(1) by (simp add: tx)
    have t1: "sp_transfer (spi_start_xfer P ?s1) = Some t" and m1: "sp_mode_type (spi_start_xfer P ?s1) = sp_mode_type s"
      using s(4) only_irq_fields [OF st(3)] by simp_all
    obtain s2 where "spi_cpu_read P (spi_start_xfer P ?s1) = Some (0, s2)"
      "run ?c ?tx (length ?tx) (length rx) s2" "lag (sp_hw s2) < 255"
      "sp_mode_type s2 = sp_mode_type s" "sp_transfer s2 = Some (t\<lparr>tr_rx_buf := Some (rx @ drop (length rx) rb)\<rparr>)"
      using run_cpu_read [OF r1 t1 rb rx' buf [OF rb] st(2)] m1 by auto
    with None rb s noirq noirq1 h(1) show ?thesis
      by (auto simp: spi_transfer_cpu_def tr_mode_def)
  next
    case (Some tb)
    have tx: "?tx = take (unat (tr_tx_len t)) tb" "length ?tx = unat (tr_tx_len t)"
      using Some t by (auto simp: tx_bytes_def tr_ok_def)
    let ?s1 = "spi_start_xfer P s"
    note st = start_exchange [OF s(1-3) c(1-7)]
    have l: "lag (sp_hw ?s1) < unat (0xFF :: u32)" using st(2) by simp
    obtain s2 where w: "cpu_write_loop P tb 0 (unat (tr_tx_len t)) 0xFF ?s1 = Some (0, s2)"
      "run ?c ?tx (length ?tx) 0 s2" "lag (sp_hw s2) \<le> lag (sp_hw ?s1)" "only_irq ?s1 s2"
      using run_write_loop [OF st(1) _ _ l st(3), of "unat (tr_tx_len t)" tb] tx by auto
    note o = only_irq_trans [OF st(4) w(4)]
    have cw: "spi_cpu_write P ?s1 = Some (0, s2)"
      using w(1) Some s(4) only_irq_fields [OF st(4)] by (simp add: spi_cpu_write_def)
    have l2: "lag (sp_hw s2) < 255" using w(3) st(2) by simp
    show ?thesis
    proof (cases "tr_rx_buf t")
      case rn: None
      then have "rx = []" using len by (simp add: rx_count_def)
      with w l2 o rn Some s noirq cw show ?thesis
        by (auto simp: spi_transfer_cpu_def tr_mode_def only_irq_fields [OF o])
    next
      case rs: (Some rb)
      obtain s3 where "spi_cpu_read P s2 = Some (0, s3)"
        "run ?c ?tx (length ?tx) (length rx) s3" "lag (sp_hw s3) < 255"
        "sp_mode_type s3 = sp_mode_type s" "sp_transfer s3 = Some (t\<lparr>tr_rx_buf := Some (rx @ drop (length rx) rb)\<rparr>)"
        using run_cpu_read [OF w(2) _ rs rx' buf [OF rs] l2] s(4) only_irq_fields [OF o] by auto
      with Some rs s noirq cw show ?thesis
        by (auto simp: spi_transfer_cpu_def tr_mode_def)
    qed
  qed
qed

end

lemma only_hw_update_reg [simp]: "only_hw s (update_reg P off f s)"
  by (simp add: update_reg_eq)

context spi_controller
begin

lemma spi_xfer_on_transacts:
  assumes s: "spi_idle C base irqn s" and t: "tr_ok t"
    and D: "D (tr_wire t) (c_dev (C (sp_hw s))) = (rx, d)"
  shows "\<exists>s'. spi_xfer_on P (Some t) s = Some (0, s') \<and> spi_idle C base irqn s' \<and> c_dev (C (sp_hw s')) = d \<and>
    sp_transfer s' = Some (t\<lparr>tr_rx_buf := map_option (\<lambda>buf. rx @ drop (length rx) buf) (tr_rx_buf t)\<rparr>)"
proof -
  let ?c = "C (sp_hw s)" and ?tx = "tx_bytes t"
  have b: "sp_base s = base" "sp_irqnum s = irqn" "sp_mode_type s = MODE_TYPE_NULL"
    and c: "c_phase ?c = Idle" "c_ier ?c = 0" "ctl_ready ?c"
    using s by (simp_all add: spi_idle_def)
  define s0 where "s0 = s\<lparr>sp_result := SPI_XFER_READY, sp_transfer := Some t\<rparr>"
  obtain h1 x y z where m: "spi_mode_check P s0 = Some (0, s0\<lparr>sp_mode_type := tr_mode t, sp_hw := h1\<rparr>)"
    and c1: "C h1 = ?c\<lparr>c_mbc := x, c_mtc := y, c_bcc := z\<rparr>"
    and w1: "ctl_wire (C h1) ?tx = tr_wire t" "n_tx (C h1) = length ?tx"
    using idle_mode_check [of s0 t] b c t by (auto simp: s0_def)
  define s1 where "s1 = s0\<lparr>sp_mode_type := tr_mode t, sp_hw := h1\<rparr>"
  have i1: "take_irq P s1 = s1" by (rule idle_no_irq) (simp_all add: s1_def s0_def b c1 c)
  obtain h2 where h2: "spi_clr_irq_pending P SPI_INT_STA_MASK s1 = s1\<lparr>sp_hw := h2\<rparr>"
    and c2: "C h2 = (C h1)\<lparr>c_done := False\<rparr>"
    using idle_clr_pending [of s1] by (auto simp: s1_def s0_def b c1 c)
  define s2 where "s2 = s1\<lparr>sp_hw := h2\<rparr>"
  have i2: "take_irq P s2 = s2" by (rule idle_no_irq) (simp_all add: s2_def s1_def s0_def b c2)
  define s3 where "s3 = spi_disable_dma_irq P SPI_FIFO_CTL_DRQEN_MASK s2"
  have s3: "sp_base s3 = base" "sp_irqnum s3 = irqn" "C (sp_hw s3) = C h2"
    by (simp_all add: s3_def spi_disable_dma_irq_def update_reg_eq s2_def s1_def s0_def b
        idle_fifo_drq [simplified] c2 c1 c)
  have i3: "take_irq P s3 = s3" by (rule idle_no_irq) (simp_all add: s3 c2)
  define s4 where "s4 = spi_reset_fifo P s3"
  have s4: "sp_base s4 = base" "sp_irqnum s4 = irqn" "C (sp_hw s4) = (C h2)\<lparr>c_txf := [], c_rxf := []\<rparr>"
    by (simp_all add: s4_def spi_reset_fifo_def update_reg_eq s3 idle_fifo_reset c2 c1 c)
  have i4: "take_irq P s4 = s4" by (rule idle_no_irq) (simp_all add: s4 c2)
  define s5 where "s5 = spi_enable_irq P (SPI_INT_STA_TC OR SPI_INT_STA_ERR) s4"
  have s5: "sp_base s5 = base" "sp_irqnum s5 = irqn"
    "C (sp_hw s5) = (C h2)\<lparr>c_txf := [], c_rxf := [], c_ier := 0x1700\<rparr>"
    by (simp_all add: s5_def spi_enable_irq_def update_reg_eq s4 idle_ier c2 c1 c)
  have "only_hw s2 s3" "only_hw s3 s4" "only_hw s4 s5"
    by (simp_all add: s3_def s4_def s5_def spi_disable_dma_irq_def spi_reset_fifo_def spi_enable_irq_def)
  then have o5: "only_hw s2 s5" by (blast intro: only_hw_trans)
  let ?c5 = "C (sp_hw s5)"
  have regs: "ctl_wire ?c5 ?tx = tr_wire t" "n_tx ?c5 = length ?tx" "ctl_ready ?c5" "c_dev ?c5 = c_dev ?c"
    using w1 c(3) ctl_wire_regs [of ?c5 "C h1"] by (simp_all add: s5 c2 c1 ctl_ready_def)
  obtain s6 where tr: "spi_transfer_cpu P s5 = Some (0, s6)"
    "run ?c5 ?tx (length ?tx) (length rx) s6" "lag (sp_hw s6) < 255" "sp_mode_type s6 = tr_mode t"
    "sp_transfer s6 = Some (t\<lparr>tr_rx_buf := map_option (\<lambda>buf. rx @ drop (length rx) buf) (tr_rx_buf t)\<rparr>)"
    using transfer_runs [of s5 t rx] t regs D only_hw_fields [OF o5]
    by (auto simp: s5 c2 c1 c s2_def s1_def s0_def)
  have "lag (sp_hw s6) < unat (0xFFFF :: u32)" using tr(3) by simp
  from run_complete [OF tr(2) _ this] obtain p s7 where
    cl: "complete_loop P 0xFFFF s6 = (p, s7)" "p \<noteq> 0" "run ?c5 ?tx (length ?tx) (length rx) s7"
    "sp_result s7 = 1" "only_irq s6 s7"
    using regs(1,4) D by auto
  have ex: "exchange D ?c5 ?tx (length ?tx) (length rx) 1 (C (sp_hw s7))" and b7: "sp_base s7 = base" "sp_irqnum s7 = irqn"
    using cl(3,4) by (simp_all add: running_def)
  note e = exchange_end [OF ex regs(3)]
  have e5: "spi_enable_irq P 0x1700 s4 = s5" by (simp add: s5_def)
  have some: "\<not> (tr_tx_buf t = None \<and> tr_rx_buf t = None \<or> tr_tx_len t = 0 \<and> tr_rx_buf t = None)"
    using t by (auto simp: tr_ok_def)
  have mode: "tr_mode t \<noteq> MODE_TYPE_NULL" by (simp add: tr_mode_def)
  have "hal_spi_xfer_body P (Some t) s = Some (0, s7)"
    using some mode m i1 h2 i2 i3 i4 tr(1,4) cl(1,2,4)
    by (simp add: hal_spi_xfer_body_def s0_def [symmetric] s1_def [symmetric] s2_def [symmetric]
        s3_def [symmetric] s4_def [symmetric] e5 spi_cpu_complete_def Let_def)
  then show ?thesis
    using e b7 regs D tr(5) only_irq_fields(4) [OF cl(5)]
    by (auto simp: spi_xfer_on_def spi_idle_def)
qed

end

end
