(* ===== verification/Gpio.thy ===== *)
theory Gpio
  imports Prelude
begin

unbundle bit_operations_syntax

text \<open>
  The GPIO driver (\<open>hal/source/gpio/hal_gpio.c\<close>, \<open>gpio/gpio.h\<close>, \<open>gpio/sun8iw20\<close>), as built for the
  D1s (\<open>CONFIG_SOC_SUN20IW1\<close>, without \<open>CONFIG_STANDBY\<close>). The record \<open>'h gpio_plat\<close> is what it runs
  on: the registers, the allocator (whether \<open>malloc\<close> of a size succeeds), the interrupt controller,
  and the handlers its clients register. The record \<open>'h gpio\<close> is its static state with the
  hardware's. Log messages are left out.
\<close>

section \<open>Types\<close>

record 'h gpio_plat =
  pio_readl :: "u64 \<Rightarrow> 'h \<Rightarrow> u32 \<times> 'h"
  pio_writel :: "u32 \<Rightarrow> u64 \<Rightarrow> 'h \<Rightarrow> 'h"
  pio_malloc :: "u64 \<Rightarrow> 'h \<Rightarrow> bool \<times> 'h"
  pio_request_irq :: "u32 \<Rightarrow> 'h \<Rightarrow> int \<times> 'h"
  pio_enable_irq :: "u32 \<Rightarrow> 'h \<Rightarrow> 'h"
  pio_handler :: "nat \<Rightarrow> u32 \<Rightarrow> u64 \<Rightarrow> 'h \<Rightarrow> 'h"

datatype irq_handler = bad_gpio_irq_handle | Handler nat

record gpio_irq_desc =
  gi_virq :: u32
  gi_pin :: u32
  gi_flags :: u64
  gi_handle_irq :: irq_handler
  gi_data :: u64

text \<open>\<open>irq_desc\<close> is \<open>None\<close> until \<open>aw_hal_gpio_init\<close> has allocated it.\<close>

record gpio_desc =
  gd_membase :: u64
  gd_irq :: "u32 list"
  gd_pin_base :: u32
  gd_irq_bank_base :: "u32 list"
  gd_virq_offset :: u32
  gd_irq_desc_size :: u32
  gd_irq_desc :: "gpio_irq_desc list option"

text \<open>
  \<open>platform_gpio_desc\<close> is the array of the platform, without its final null pointer;
  \<open>g_gpio_desc\<close> tells whether the pointer of that name has been set to it.
\<close>

record 'h gpio =
  platform_gpio_desc :: "gpio_desc list"
  g_gpio_desc :: bool
  gp_hw :: 'h

abbreviation (input) PINS_PER_BANK :: u32 where "PINS_PER_BANK \<equiv> 32"
abbreviation (input) BANK_MEM_SIZE :: u32 where "BANK_MEM_SIZE \<equiv> 0x30"
abbreviation (input) IRQ_PER_BANK :: u32 where "IRQ_PER_BANK \<equiv> 32"
abbreviation (input) IRQ_MEM_SIZE :: u32 where "IRQ_MEM_SIZE \<equiv> 0x20"
abbreviation (input) GPIO_IRQ_START :: u32 where "GPIO_IRQ_START \<equiv> 141"
abbreviation (input) BANK_BOUNDARY :: u32 where "BANK_BOUNDARY \<equiv> 352"
abbreviation (input) GPIO_MAX_BANK :: u32 where "GPIO_MAX_BANK \<equiv> 192"
abbreviation (input) GPIO_MUXSEL_EINT :: u32 where "GPIO_MUXSEL_EINT \<equiv> 14"
abbreviation (input) POWER_MODE_SEL :: u64 where "POWER_MODE_SEL \<equiv> 0x340"
abbreviation (input) POWER_VOL_SEL :: u64 where "POWER_VOL_SEL \<equiv> 0x350"

abbreviation (input) GPIO_TYPE_FUNC :: u32 where "GPIO_TYPE_FUNC \<equiv> 0"
abbreviation (input) GPIO_TYPE_DAT :: u32 where "GPIO_TYPE_DAT \<equiv> 1"
abbreviation (input) GPIO_TYPE_PUD :: u32 where "GPIO_TYPE_PUD \<equiv> 2"
abbreviation (input) GPIO_TYPE_DRV :: u32 where "GPIO_TYPE_DRV \<equiv> 3"

text \<open>\<open>gpio-sun8iw20.c\<close>; \<open>SUNXI_PIO_BANK_BASE\<close> of bank \<open>i + 1\<close> and index \<open>i\<close> is 1.\<close>

definition sun8iw20p1_gpio_desc :: gpio_desc where
  "sun8iw20p1_gpio_desc = \<lparr>gd_membase = 0x02000000, gd_irq = [85, 87, 89, 91, 93, 95],
     gd_pin_base = 0, gd_irq_bank_base = [1, 1, 1, 1, 1, 1], gd_virq_offset = 0,
     gd_irq_desc_size = 0, gd_irq_desc = None\<rparr>"

section \<open>Registers and fields\<close>

definition round_down4 :: "u32 \<Rightarrow> u32" where
  "round_down4 x = x AND NOT 3"

definition gpio_mux_reg :: "u32 \<Rightarrow> u32" where
  "gpio_mux_reg pin =
     (let pin = pin mod BANK_BOUNDARY; bank = pin div PINS_PER_BANK; offset = bank * BANK_MEM_SIZE
      in round_down4 (offset + pin mod PINS_PER_BANK div 8 * 4))"

definition gpio_mux_offset :: "u32 \<Rightarrow> u32" where
  "gpio_mux_offset pin = pin mod 8 * 4"

definition gpio_data_reg :: "u32 \<Rightarrow> u32" where
  "gpio_data_reg pin =
     (let pin = pin mod BANK_BOUNDARY; bank = pin div PINS_PER_BANK; offset = bank * BANK_MEM_SIZE + 0x10
      in round_down4 (offset + pin mod PINS_PER_BANK div 32 * 4))"

definition gpio_data_offset :: "u32 \<Rightarrow> u32" where
  "gpio_data_offset pin = pin mod 32 * 1"

definition gpio_dlevel_reg :: "u32 \<Rightarrow> u32" where
  "gpio_dlevel_reg pin =
     (let pin = pin mod BANK_BOUNDARY; bank = pin div PINS_PER_BANK; offset = bank * BANK_MEM_SIZE + 0x14
      in round_down4 (offset + pin mod PINS_PER_BANK div 8 * 4))"

definition gpio_dlevel_offset :: "u32 \<Rightarrow> u32" where
  "gpio_dlevel_offset pin = pin mod 8 * 4"

definition gpio_pull_reg :: "u32 \<Rightarrow> u32" where
  "gpio_pull_reg pin =
     (let pin = pin mod BANK_BOUNDARY; bank = pin div PINS_PER_BANK; offset = bank * BANK_MEM_SIZE + 0x24
      in round_down4 (offset + pin mod PINS_PER_BANK div 16 * 4))"

definition gpio_pull_offset :: "u32 \<Rightarrow> u32" where
  "gpio_pull_offset pin = pin mod 16 * 2"

definition gpio_irq_ctrl_reg_from_bank :: "u32 \<Rightarrow> u32 \<Rightarrow> u32" where
  "gpio_irq_ctrl_reg_from_bank bank bank_base = 0x210 + (bank_base + (bank AND 0xff)) * IRQ_MEM_SIZE"

definition gpio_irq_ctrl_reg :: "u32 \<Rightarrow> u32 \<Rightarrow> u32" where
  "gpio_irq_ctrl_reg irq bank_base = gpio_irq_ctrl_reg_from_bank (irq div IRQ_PER_BANK) bank_base"

definition gpio_irq_ctrl_offset :: "u32 \<Rightarrow> u32" where
  "gpio_irq_ctrl_offset irq = irq mod 32 * 1"

definition gpio_get_pin_base_from_bank :: "u32 \<Rightarrow> u32 \<Rightarrow> u32" where
  "gpio_get_pin_base_from_bank bank bank_base = (bank_base + (bank AND 0xff)) * IRQ_MEM_SIZE"

definition gpio_irq_status_reg_from_bank :: "u32 \<Rightarrow> u32 \<Rightarrow> u32" where
  "gpio_irq_status_reg_from_bank bank bank_base = 0x214 + (bank_base + (bank AND 0xff)) * IRQ_MEM_SIZE"

definition gpio_irq_status_reg :: "u32 \<Rightarrow> u32 \<Rightarrow> u32" where
  "gpio_irq_status_reg irq bank_base = gpio_irq_status_reg_from_bank (irq div IRQ_PER_BANK) bank_base"

definition gpio_irq_debounce_from_bank :: "u32 \<Rightarrow> u32 \<Rightarrow> u32" where
  "gpio_irq_debounce_from_bank bank bank_base = 0x218 + (bank_base + (bank AND 0xff)) * IRQ_MEM_SIZE"

definition gpio_irq_debounce_reg :: "u32 \<Rightarrow> u32 \<Rightarrow> u32" where
  "gpio_irq_debounce_reg irq bank_base = gpio_irq_debounce_from_bank (irq div IRQ_PER_BANK) bank_base"

definition gpio_irq_status_offset :: "u32 \<Rightarrow> u32" where
  "gpio_irq_status_offset irq = irq mod 32 * 1"

definition gpio_irq_cfg_reg :: "u32 \<Rightarrow> u32 \<Rightarrow> u32" where
  "gpio_irq_cfg_reg irq bank_base =
     (let bank = irq div IRQ_PER_BANK; reg = irq mod IRQ_PER_BANK div 8 * 4
      in 0x200 + (bank_base + bank) * IRQ_MEM_SIZE + reg)"

definition gpio_irq_cfg_offset :: "u32 \<Rightarrow> u32" where
  "gpio_irq_cfg_offset irq = irq mod 8 * 4"

text \<open>The register, shift and mask of a pin's field; \<open>None\<close> is the return value -1.\<close>

definition gpio_pconf_reg :: "u32 \<Rightarrow> u32 \<Rightarrow> (u32 \<times> u32 \<times> u32) option" where
  "gpio_pconf_reg pin param =
     (if param = GPIO_TYPE_DRV then Some (gpio_dlevel_reg pin, gpio_dlevel_offset pin, 0x0f)
      else if param = GPIO_TYPE_PUD then Some (gpio_pull_reg pin, gpio_pull_offset pin, 0x03)
      else if param = GPIO_TYPE_DAT then Some (gpio_data_reg pin, gpio_data_offset pin, 0x01)
      else if param = GPIO_TYPE_FUNC then Some (gpio_mux_reg pin, gpio_mux_offset pin, 0x0f)
      else None)"

section \<open>Valid pins\<close>

partial_function (option) bank_mask_loop :: "u32 \<Rightarrow> u32 \<Rightarrow> u32 option" where
  "bank_mask_loop max_bank m =
     (let m = m OR push_bit (unat (max_bank div PINS_PER_BANK)) 1;
          max_bank = max_bank - PINS_PER_BANK;
          m = (if max_bank = 0 then m OR 1 else m)
      in if max_bank \<noteq> 0 then bank_mask_loop max_bank m else Some m)"

declare bank_mask_loop.simps [code]

definition count_gpio_bank_mask :: "u32 option" where
  "count_gpio_bank_mask = bank_mask_loop GPIO_MAX_BANK 0"

definition hal_gpio_check_valid :: "u32 \<Rightarrow> bool option" where
  "hal_gpio_check_valid pin = do {
     let bank = pin div PINS_PER_BANK;
     m \<leftarrow> count_gpio_bank_mask;
     if bank < 32 then Some (push_bit (unat bank) 1 AND m \<noteq> 0) else None
   }"

section \<open>Descriptors\<close>

text \<open>
  A pointer into \<open>g_gpio_desc\<close> is the index of a descriptor, \<open>None\<close> the null pointer at the end
  of the array.
\<close>

definition gpio_desc_at :: "nat \<Rightarrow> 'h gpio \<Rightarrow> nat option option" where
  "gpio_desc_at i s =
     (if \<not> g_gpio_desc s \<or> i > length (platform_gpio_desc s) then None
      else if i = length (platform_gpio_desc s) then Some None else Some (Some i))"

definition pin_to_gpio_desc :: "u32 \<Rightarrow> 'h gpio \<Rightarrow> nat option option" where
  "pin_to_gpio_desc pin s = (if pin < BANK_BOUNDARY then gpio_desc_at 0 s else gpio_desc_at 1 s)"

definition the_desc :: "nat \<Rightarrow> 'h gpio \<Rightarrow> gpio_desc" where
  "the_desc i s = platform_gpio_desc s ! i"

fun find_desc :: "(gpio_desc \<Rightarrow> bool option) \<Rightarrow> nat \<Rightarrow> gpio_desc list \<Rightarrow> nat option option" where
  "find_desc f i [] = Some None"
| "find_desc f i (d # ds) = do {
     b \<leftarrow> f d;
     if b then Some (Some i) else find_desc f (Suc i) ds
   }"

definition irq_to_gpio_desc :: "u32 \<Rightarrow> 'h gpio \<Rightarrow> nat option option" where
  "irq_to_gpio_desc irq s =
     (if g_gpio_desc s then find_desc (\<lambda>d. Some (irq \<in> set (gd_irq d))) 0 (platform_gpio_desc s) else None)"

definition virq_to_gpio_desc :: "u32 \<Rightarrow> 'h gpio \<Rightarrow> nat option option" where
  "virq_to_gpio_desc irq s =
     (if g_gpio_desc s
      then find_desc (\<lambda>d. map_option (\<lambda>ds. \<exists>x \<in> set ds. gi_virq x = irq) (gd_irq_desc d)) 0
             (platform_gpio_desc s)
      else None)"

section \<open>Register access\<close>

definition pio_read :: "'h gpio_plat \<Rightarrow> u64 \<Rightarrow> 'h gpio \<Rightarrow> u32 \<times> 'h gpio" where
  "pio_read P a s = (let (v, h) = pio_readl P a (gp_hw s) in (v, s\<lparr>gp_hw := h\<rparr>))"

definition pio_write :: "'h gpio_plat \<Rightarrow> u32 \<Rightarrow> u64 \<Rightarrow> 'h gpio \<Rightarrow> 'h gpio" where
  "pio_write P v a s = s\<lparr>gp_hw := pio_writel P v a (gp_hw s)\<rparr>"

definition reg_addr :: "gpio_desc \<Rightarrow> u32 \<Rightarrow> u64" where
  "reg_addr d off = gd_membase d + ucast off"

section \<open>Pin configuration\<close>

definition GPIO_CFG_PACK :: "u32 \<Rightarrow> u32 \<Rightarrow> u64" where
  "GPIO_CFG_PACK ty v = ucast (push_bit 8 v) OR (ucast ty AND 0xff)"

definition GPIO_CFG_UNPACK_VALUE :: "u64 \<Rightarrow> u32" where
  "GPIO_CFG_UNPACK_VALUE cfg = ucast (drop_bit 8 (cfg AND 0xFFFFFF00))"

definition pinconf_to_config_param :: "u64 \<Rightarrow> u32" where
  "pinconf_to_config_param config = ucast (config AND 0xff)"

definition pinconf_to_config_argument :: "u64 \<Rightarrow> u32" where
  "pinconf_to_config_argument config = ucast (drop_bit 8 config AND 0xffffff)"

definition gpio_conf_set :: "'h gpio_plat \<Rightarrow> u32 \<Rightarrow> u64 \<Rightarrow> 'h gpio \<Rightarrow> (int \<times> 'h gpio) option" where
  "gpio_conf_set P pin config s = do {
     i \<leftarrow> pin_to_gpio_desc pin s;
     case i of None \<Rightarrow> Some (-1, s) | Some i \<Rightarrow>
       let d = the_desc i s;
           arg = pinconf_to_config_argument config
       in case gpio_pconf_reg pin (pinconf_to_config_param config) of
            None \<Rightarrow> Some (-1, s)
          | Some (off, sh, msk) \<Rightarrow>
              let (reg, s) = pio_read P (reg_addr d off) s;
                  reg = reg AND NOT (push_bit (unat sh) msk)
              in Some (0, pio_write P (reg OR push_bit (unat sh) arg) (reg_addr d off) s)
   }"

definition gpio_conf_get :: "'h gpio_plat \<Rightarrow> u32 \<Rightarrow> u64 \<Rightarrow> 'h gpio \<Rightarrow> (int \<times> u64 \<times> 'h gpio) option" where
  "gpio_conf_get P pin config s = do {
     i \<leftarrow> pin_to_gpio_desc pin s;
     case i of None \<Rightarrow> Some (-1, config, s) | Some i \<Rightarrow>
       let d = the_desc i s; param = pinconf_to_config_param config
       in case gpio_pconf_reg pin param of
            None \<Rightarrow> Some (-1, config, s)
          | Some (off, sh, msk) \<Rightarrow>
              let (reg, s) = pio_read P (reg_addr d off) s
              in Some (0, GPIO_CFG_PACK param (drop_bit (unat sh) reg AND msk), s)
   }"

text \<open>
  The readers and writers of one field. The result pointer of a reader is \<open>None\<close> when it is
  null; otherwise its old contents are passed and its new contents returned.
\<close>

definition conf_value :: "'h gpio_plat \<Rightarrow> u32 \<Rightarrow> u32 \<Rightarrow> u32 option \<Rightarrow> 'h gpio \<Rightarrow> (int \<times> u32 option \<times> 'h gpio) option" where
  "conf_value P ty pin out s =
     (case out of None \<Rightarrow> Some (-1, None, s) | Some v \<Rightarrow> do {
        (ret, config, s) \<leftarrow> gpio_conf_get P pin (GPIO_CFG_PACK ty 0xffffff) s;
        Some (ret, if ret < 0 then Some v else Some (GPIO_CFG_UNPACK_VALUE config), s)
      })"

definition hal_gpio_get_data :: "'h gpio_plat \<Rightarrow> u32 \<Rightarrow> u32 option \<Rightarrow> 'h gpio \<Rightarrow> (int \<times> u32 option \<times> 'h gpio) option" where
  "hal_gpio_get_data P = conf_value P GPIO_TYPE_DAT"

definition hal_gpio_set_data :: "'h gpio_plat \<Rightarrow> u32 \<Rightarrow> u32 \<Rightarrow> 'h gpio \<Rightarrow> (int \<times> 'h gpio) option" where
  "hal_gpio_set_data P pin v = gpio_conf_set P pin (GPIO_CFG_PACK GPIO_TYPE_DAT v)"

definition hal_gpio_set_direction :: "'h gpio_plat \<Rightarrow> u32 \<Rightarrow> u32 \<Rightarrow> 'h gpio \<Rightarrow> (int \<times> 'h gpio) option" where
  "hal_gpio_set_direction P pin v = gpio_conf_set P pin (GPIO_CFG_PACK GPIO_TYPE_FUNC v)"

definition hal_gpio_get_direction :: "'h gpio_plat \<Rightarrow> u32 \<Rightarrow> u32 option \<Rightarrow> 'h gpio \<Rightarrow> (int \<times> u32 option \<times> 'h gpio) option" where
  "hal_gpio_get_direction P = conf_value P GPIO_TYPE_FUNC"

definition hal_gpio_set_pull :: "'h gpio_plat \<Rightarrow> u32 \<Rightarrow> u32 \<Rightarrow> 'h gpio \<Rightarrow> (int \<times> 'h gpio) option" where
  "hal_gpio_set_pull P pin v = gpio_conf_set P pin (GPIO_CFG_PACK GPIO_TYPE_PUD v)"

definition hal_gpio_get_pull :: "'h gpio_plat \<Rightarrow> u32 \<Rightarrow> u32 option \<Rightarrow> 'h gpio \<Rightarrow> (int \<times> u32 option \<times> 'h gpio) option" where
  "hal_gpio_get_pull P = conf_value P GPIO_TYPE_PUD"

definition hal_gpio_set_driving_level :: "'h gpio_plat \<Rightarrow> u32 \<Rightarrow> u32 \<Rightarrow> 'h gpio \<Rightarrow> (int \<times> 'h gpio) option" where
  "hal_gpio_set_driving_level P pin v = gpio_conf_set P pin (GPIO_CFG_PACK GPIO_TYPE_DRV v)"

definition hal_gpio_get_driving_level :: "'h gpio_plat \<Rightarrow> u32 \<Rightarrow> u32 option \<Rightarrow> 'h gpio \<Rightarrow> (int \<times> u32 option \<times> 'h gpio) option" where
  "hal_gpio_get_driving_level P = conf_value P GPIO_TYPE_DRV"

definition hal_gpio_pinmux_set_function :: "'h gpio_plat \<Rightarrow> u32 \<Rightarrow> u32 \<Rightarrow> 'h gpio \<Rightarrow> (int \<times> 'h gpio) option" where
  "hal_gpio_pinmux_set_function P pin v = gpio_conf_set P pin (GPIO_CFG_PACK GPIO_TYPE_FUNC v)"

section \<open>Voltage\<close>

definition hal_gpio_sel_vol_mode :: "'h gpio_plat \<Rightarrow> u32 \<Rightarrow> u32 \<Rightarrow> 'h gpio \<Rightarrow> (int \<times> 'h gpio) option" where
  "hal_gpio_sel_vol_mode P pin pm_sel s = do {
     i \<leftarrow> pin_to_gpio_desc pin s;
     case i of None \<Rightarrow> Some (-1, s) | Some i \<Rightarrow>
       let d = the_desc i s; bank = (pin - gd_pin_base d) div PINS_PER_BANK
       in if bank \<ge> 32 then None
          else let (temp, s) = pio_read P (gd_membase d + POWER_MODE_SEL) s;
                   s = pio_write P (temp OR push_bit (unat bank) pm_sel) (gd_membase d + POWER_MODE_SEL) s;
                   s = (if bank = 5
                        then let (temp, s) = pio_read P (gd_membase d + POWER_VOL_SEL) s;
                                 temp = temp AND NOT 1;
                                 temp = temp OR (if pm_sel = 0 then 1 else 0)
                             in pio_write P temp (gd_membase d + POWER_VOL_SEL) s
                        else s)
               in Some (0, s)
   }"

section \<open>Interrupts\<close>

fun find_index :: "('a \<Rightarrow> bool) \<Rightarrow> nat \<Rightarrow> 'a list \<Rightarrow> nat option" where
  "find_index f i [] = None"
| "find_index f i (x # xs) = (if f x then Some i else find_index f (Suc i) xs)"

definition nth_opt :: "'a list \<Rightarrow> nat \<Rightarrow> 'a option" where
  "nth_opt xs i = (if i < length xs then Some (xs ! i) else None)"

definition hal_gpio_to_irq :: "u32 \<Rightarrow> 'h gpio \<Rightarrow> (int \<times> u32 option) option" where
  "hal_gpio_to_irq pin s = do {
     i \<leftarrow> pin_to_gpio_desc pin s;
     i \<leftarrow> i;
     ds \<leftarrow> gd_irq_desc (the_desc i s);
     Some (case find_index (\<lambda>x. gi_pin x = pin) 0 ds of
             None \<Rightarrow> (-1, None) | Some k \<Rightarrow> (0, Some (gi_virq (ds ! k))))
   }"

definition irq_bank_base_of :: "gpio_desc \<Rightarrow> u32 \<Rightarrow> u32 option" where
  "irq_bank_base_of d hw_irq = nth_opt (gd_irq_bank_base d) (unat (hw_irq div IRQ_PER_BANK))"

definition hal_gpio_set_debounce :: "'h gpio_plat \<Rightarrow> u32 \<Rightarrow> u32 \<Rightarrow> 'h gpio \<Rightarrow> (int \<times> 'h gpio) option" where
  "hal_gpio_set_debounce P pin value s = do {
     i \<leftarrow> pin_to_gpio_desc pin s;
     case i of None \<Rightarrow> Some (-1, s) | Some i \<Rightarrow> do {
       (ret, irq) \<leftarrow> hal_gpio_to_irq pin s;
       case irq of None \<Rightarrow> Some (-1, s) | Some irq \<Rightarrow> do {
         let d = the_desc i s;
         let hw_irq = irq - gd_virq_offset d - GPIO_IRQ_START;
         bank_base \<leftarrow> irq_bank_base_of d hw_irq;
         let a = reg_addr d (gpio_irq_debounce_reg hw_irq bank_base);
         let (v, s) = pio_read P a s;
         let v = v AND NOT 1 OR (value AND 1);
         let v = v AND NOT (push_bit 4 7) OR push_bit 4 (drop_bit 4 value AND 7);
         Some (0, pio_write P v a s)
       }
     }
   }"

definition gpio_irq_ack :: "'h gpio_plat \<Rightarrow> nat \<Rightarrow> nat \<Rightarrow> 'h gpio \<Rightarrow> 'h gpio option" where
  "gpio_irq_ack P di i s = do {
     let d = the_desc di s;
     ds \<leftarrow> gd_irq_desc d;
     x \<leftarrow> nth_opt ds i;
     let hw_irq = gi_virq x - gd_virq_offset d - GPIO_IRQ_START;
     bank_base \<leftarrow> irq_bank_base_of d hw_irq;
     Some (pio_write P (push_bit (unat (gpio_irq_status_offset hw_irq)) 1)
             (reg_addr d (gpio_irq_status_reg hw_irq bank_base)) s)
   }"

definition irq_mode_of :: "u64 \<Rightarrow> u32" where
  "irq_mode_of type =
     (if type = 1 then 0 else if type = 2 then 1 else if type = 3 then 4
      else if type = 4 then 2 else if type = 8 then 3 else 0)"

definition gpio_irq_set_type :: "'h gpio_plat \<Rightarrow> nat \<Rightarrow> nat \<Rightarrow> u64 \<Rightarrow> 'h gpio \<Rightarrow> 'h gpio option" where
  "gpio_irq_set_type P di i type s = do {
     let d = the_desc di s;
     ds \<leftarrow> gd_irq_desc d;
     x \<leftarrow> nth_opt ds i;
     let hw_irq = gi_virq x - gd_virq_offset d - GPIO_IRQ_START;
     bank_base \<leftarrow> irq_bank_base_of d hw_irq;
     let a = reg_addr d (gpio_irq_cfg_reg hw_irq bank_base);
     let index = unat (gpio_irq_cfg_offset hw_irq);
     let (v, s) = pio_read P a s;
     Some (pio_write P (v AND NOT (push_bit index 0xf) OR push_bit index (irq_mode_of type)) a s)
   }"

definition set_desc :: "nat \<Rightarrow> gpio_desc \<Rightarrow> 'h gpio \<Rightarrow> 'h gpio" where
  "set_desc i d s = s\<lparr>platform_gpio_desc := (platform_gpio_desc s)[i := d]\<rparr>"

definition call_handler :: "'h gpio_plat \<Rightarrow> gpio_irq_desc \<Rightarrow> 'h gpio \<Rightarrow> 'h gpio" where
  "call_handler P x s =
     (case gi_handle_irq x of bad_gpio_irq_handle \<Rightarrow> s
      | Handler f \<Rightarrow> s\<lparr>gp_hw := pio_handler P f (gi_virq x) (gi_data x) (gp_hw s)\<rparr>)"

text \<open>\<open>gpio_irq_handle\<close> serves the lowest pending pin of the bank whose interrupt it is.\<close>

definition lowest_bit :: "u32 \<Rightarrow> nat option" where
  "lowest_bit v = find_index (\<lambda>i. push_bit i 1 AND v \<noteq> 0) 0 [0..<32]"

definition gpio_irq_handle :: "'h gpio_plat \<Rightarrow> u32 \<Rightarrow> 'h gpio \<Rightarrow> 'h gpio option" where
  "gpio_irq_handle P hwirq s = do {
     di \<leftarrow> irq_to_gpio_desc hwirq s;
     case di of None \<Rightarrow> Some s | Some di \<Rightarrow>
       let d = the_desc di s in
       case find_index (\<lambda>x. x = hwirq) 0 (take (length (gd_irq_bank_base d)) (gd_irq d)) of
         None \<Rightarrow> if length (gd_irq d) < length (gd_irq_bank_base d) then None else Some s
       | Some bank \<Rightarrow>
           let base_bank = gd_irq_bank_base d ! bank;
               (v, s) = pio_read P (reg_addr d (gpio_irq_status_reg_from_bank (of_nat bank) base_bank)) s
           in (case lowest_bit v of None \<Rightarrow> Some s | Some irqoffset \<Rightarrow> do {
                 let irq_pin = (base_bank + of_nat bank) * IRQ_PER_BANK + of_nat irqoffset + gd_virq_offset d;
                 ds \<leftarrow> gd_irq_desc d;
                 case find_index (\<lambda>x. irq_pin = gi_pin x) 0 ds of None \<Rightarrow> Some s | Some i \<Rightarrow>
                   gpio_irq_ack P di i (call_handler P (ds ! i) s)
               })
   }"

text \<open>
  The calls below index \<open>irq_desc\<close> with the number of the interrupt less its start; a null
  handler (\<open>None\<close>) leaves the handler as it is.
\<close>

definition irq_in_range :: "gpio_desc \<Rightarrow> u32 \<Rightarrow> bool" where
  "irq_in_range d irq \<longleftrightarrow> irq \<ge> GPIO_IRQ_START \<and> irq < gd_irq_desc_size d + GPIO_IRQ_START"

definition set_irq_desc :: "nat \<Rightarrow> nat \<Rightarrow> (gpio_irq_desc \<Rightarrow> gpio_irq_desc) \<Rightarrow> 'h gpio \<Rightarrow> 'h gpio option" where
  "set_irq_desc di k f s = do {
     let d = the_desc di s;
     ds \<leftarrow> gd_irq_desc d;
     x \<leftarrow> nth_opt ds k;
     Some (set_desc di (d\<lparr>gd_irq_desc := Some (ds[k := f x])\<rparr>) s)
   }"

definition hal_gpio_irq_request :: "'h gpio_plat \<Rightarrow> u32 \<Rightarrow> nat option \<Rightarrow> u64 \<Rightarrow> u64 \<Rightarrow> 'h gpio \<Rightarrow> (int \<times> 'h gpio) option" where
  "hal_gpio_irq_request P irq hdle flags data s = do {
     di \<leftarrow> virq_to_gpio_desc irq s;
     di \<leftarrow> di;
     let d = the_desc di s;
     let irq = irq - gd_virq_offset d;
     if irq_in_range d irq then do {
       let k = unat (irq - GPIO_IRQ_START);
       s \<leftarrow> set_irq_desc di k (\<lambda>x. case hdle of
              Some h \<Rightarrow> if gi_handle_irq x = bad_gpio_irq_handle
                        then x\<lparr>gi_handle_irq := Handler h, gi_flags := flags, gi_data := data\<rparr> else x
            | None \<Rightarrow> x) s;
       s \<leftarrow> gpio_irq_set_type P di k flags s;
       ds \<leftarrow> gd_irq_desc (the_desc di s);
       (ret, s) \<leftarrow> hal_gpio_pinmux_set_function P (gi_pin (ds ! k)) GPIO_MUXSEL_EINT s;
       Some (if ret < 0 then -1 else sint irq, s)
     } else Some (-1, s)
   }"

definition hal_gpio_irq_free :: "u32 \<Rightarrow> 'h gpio \<Rightarrow> (int \<times> 'h gpio) option" where
  "hal_gpio_irq_free irq s = do {
     di \<leftarrow> virq_to_gpio_desc irq s;
     di \<leftarrow> di;
     let d = the_desc di s;
     let irq = irq - gd_virq_offset d;
     if irq_in_range d irq then do {
       s \<leftarrow> set_irq_desc di (unat (irq - GPIO_IRQ_START))
              (\<lambda>x. x\<lparr>gi_handle_irq := bad_gpio_irq_handle, gi_flags := 0, gi_data := 0\<rparr>) s;
       Some (sint irq, s)
     } else Some (-1, s)
   }"

definition hal_gpio_irq_enable :: "'h gpio_plat \<Rightarrow> u32 \<Rightarrow> 'h gpio \<Rightarrow> (int \<times> 'h gpio) option" where
  "hal_gpio_irq_enable P irq s = do {
     di \<leftarrow> virq_to_gpio_desc irq s;
     di \<leftarrow> di;
     let d = the_desc di s;
     let hw_irq = irq - gd_virq_offset d - GPIO_IRQ_START;
     bank_base \<leftarrow> irq_bank_base_of d hw_irq;
     let a = reg_addr d (gpio_irq_ctrl_reg hw_irq bank_base);
     let index = unat (gpio_irq_ctrl_offset hw_irq);
     if irq_in_range d (irq - gd_virq_offset d) then do {
       s \<leftarrow> gpio_irq_ack P di (unat hw_irq) s;
       let (v, s) = pio_read P a s;
       Some (0, pio_write P (v OR push_bit index 1) a s)
     } else Some (-1, s)
   }"

definition hal_gpio_irq_disable :: "'h gpio_plat \<Rightarrow> u32 \<Rightarrow> 'h gpio \<Rightarrow> (int \<times> 'h gpio) option" where
  "hal_gpio_irq_disable P irq s = do {
     di \<leftarrow> virq_to_gpio_desc irq s;
     di \<leftarrow> di;
     let d = the_desc di s;
     let hw_irq = irq - gd_virq_offset d - GPIO_IRQ_START;
     bank_base \<leftarrow> irq_bank_base_of d hw_irq;
     let a = reg_addr d (gpio_irq_ctrl_reg hw_irq bank_base);
     let index = unat (gpio_irq_ctrl_offset hw_irq);
     if irq_in_range d (irq - gd_virq_offset d) then
       let (v, s) = pio_read P a s
       in Some (0, pio_write P (v AND NOT (push_bit index 1)) a s)
     else Some (-1, s)
   }"

section \<open>Initialisation\<close>

definition new_irq_desc :: "gpio_desc \<Rightarrow> nat \<Rightarrow> gpio_irq_desc" where
  "new_irq_desc d i =
     (let j = i div 32; k = i mod 32; bank_base = gd_irq_bank_base d ! j
      in \<lparr>gi_virq = GPIO_IRQ_START + gd_virq_offset d + of_nat i,
          gi_pin = gpio_get_pin_base_from_bank (of_nat j) bank_base + gd_virq_offset d + of_nat k,
          gi_flags = 0, gi_handle_irq = bad_gpio_irq_handle, gi_data = 0\<rparr>)"

definition mask_bank :: "'h gpio_plat \<Rightarrow> gpio_desc \<Rightarrow> nat \<Rightarrow> 'h gpio \<Rightarrow> 'h gpio" where
  "mask_bank P d i s =
     (let bank_base = gd_irq_bank_base d ! i;
          s = pio_write P 0 (reg_addr d (gpio_irq_ctrl_reg_from_bank (of_nat i) bank_base)) s
      in pio_write P 0xffffffff (reg_addr d (gpio_irq_status_reg_from_bank (of_nat i) bank_base)) s)"

fun request_irqs :: "'h gpio_plat \<Rightarrow> u32 list \<Rightarrow> 'h gpio \<Rightarrow> int \<times> 'h gpio" where
  "request_irqs P [] s = (0, s)"
| "request_irqs P (irq # irqs) s =
     (let (ok, h) = pio_malloc P 32 (gp_hw s); s = s\<lparr>gp_hw := h\<rparr>
      in if \<not> ok then (-1, s)
         else let (_, h) = pio_request_irq P irq (gp_hw s)
              in request_irqs P irqs (s\<lparr>gp_hw := h\<rparr>))"

definition desc_init :: "'h gpio_plat \<Rightarrow> nat \<Rightarrow> 'h gpio \<Rightarrow> int \<times> 'h gpio" where
  "desc_init P j s =
     (let d = the_desc j s;
          n = 32 * length (gd_irq_bank_base d);
          d = d\<lparr>gd_irq_desc_size := of_nat n\<rparr>;
          s = set_desc j d s;
          (ok, h) = pio_malloc P (of_nat n * 32) (gp_hw s);
          s = s\<lparr>gp_hw := h\<rparr>
      in if \<not> ok then (-1, s)
      else let
          d = d\<lparr>gd_irq_desc := Some (map (new_irq_desc d) [0..<n])\<rparr>;
          s = set_desc j d s;
          s = fold (mask_bank P d) [0..<length (gd_irq_bank_base d)] s;
          (ret, s) = request_irqs P (gd_irq d) s
      in if ret \<noteq> 0 then (ret, s)
      else (0, fold (\<lambda>irq s. s\<lparr>gp_hw := pio_enable_irq P irq (gp_hw s)\<rparr>) (gd_irq d) s))"

fun descs_init :: "'h gpio_plat \<Rightarrow> nat list \<Rightarrow> 'h gpio \<Rightarrow> int \<times> 'h gpio" where
  "descs_init P [] s = (0, s)"
| "descs_init P (j # js) s =
     (let (ret, s) = desc_init P j s in if ret \<noteq> 0 then (ret, s) else descs_init P js s)"

definition aw_hal_gpio_init :: "'h gpio_plat \<Rightarrow> 'h gpio \<Rightarrow> int \<times> 'h gpio" where
  "aw_hal_gpio_init P s =
     (let s = s\<lparr>g_gpio_desc := True\<rparr>
      in descs_init P [0..<length (platform_gpio_desc s)] s)"

definition csi_gpio_init :: "'h gpio_plat \<Rightarrow> 'h gpio \<Rightarrow> int \<times> 'h gpio" where
  "csi_gpio_init P s = (let (ret, s) = aw_hal_gpio_init P s in (if ret \<noteq> 0 then -1 else 0, s))"

text \<open>The static data of the program, before any call.\<close>

definition gpio_boot :: "'h \<Rightarrow> 'h gpio" where
  "gpio_boot h = \<lparr>platform_gpio_desc = [sun8iw20p1_gpio_desc], g_gpio_desc = False, gp_hw = h\<rparr>"

end
