(* ===== verification/Gpio_Ok.thy ===== *)
theory Gpio_Ok
  imports Gpio
begin

text \<open>
  The GPIO driver: each pin's function, pull and drive level is a field of its own, which the
  driver writes and reads without touching another (locale \<open>pin_bank\<close>, provided on every port
  controller whose configuration registers are storage, locale \<open>pio\<close>); initialisation makes the
  driver ready; the interrupt of a pin reaches the handler that was registered for it.
\<close>

lemma round_down4_id: "unat x mod 4 = 0 \<Longrightarrow> round_down4 x = x"
proof -
  assume "unat x mod 4 = 0"
  then have "take_bit 2 x = 0" by (simp add: word_unat_eq_iff unat_take_bit)
  moreover have "(3 :: u32) = mask 2" by (simp add: mask_eq_decr_exp)
  ultimately show ?thesis unfolding round_down4_def by (metis and_not_mask_eq diff_zero)
qed

section \<open>The fields of a pin\<close>

text \<open>
  \<open>foff\<close>, \<open>fshift\<close> and \<open>fwidth\<close> place the field of a pin: register, first bit, number of bits.
\<close>

datatype field = FUNC | PUD | DRV

fun param_of :: "field \<Rightarrow> u32" where
  "param_of FUNC = GPIO_TYPE_FUNC" | "param_of PUD = GPIO_TYPE_PUD" | "param_of DRV = GPIO_TYPE_DRV"

fun fwidth :: "field \<Rightarrow> nat" where
  "fwidth PUD = 2" | "fwidth _ = 4"

fun foff :: "field \<Rightarrow> nat \<Rightarrow> nat" where
  "foff FUNC n = 48 * (n div 32) + n mod 32 div 8 * 4"
| "foff DRV n = 48 * (n div 32) + 20 + n mod 32 div 8 * 4"
| "foff PUD n = 48 * (n div 32) + 36 + n mod 32 div 16 * 4"

fun fshift :: "field \<Rightarrow> nat \<Rightarrow> nat" where
  "fshift PUD n = n mod 16 * 2" | "fshift _ n = n mod 8 * 4"

lemma unat_w: 
  assumes "unat (x::u32) < 352"
  shows "unat (x div 32 * 48 + x mod 32 div 8 * 4) = foff FUNC (unat x)"
    "unat (x div 32 * 48 + 0x14 + x mod 32 div 8 * 4) = foff DRV (unat x)"
    "unat (x div 32 * 48 + 0x24 + x mod 32 div 16 * 4) = foff PUD (unat x)"
  using assms by (simp_all add: unat_word_ariths unat_div unat_mod)

lemma foff_4: "foff f n mod 4 = 0"
proof -
  have "4 dvd foff f n" by (cases f) (simp_all add: dvd_mult)
  then show ?thesis by auto
qed

lemma word_of_nat_unat: "of_nat (unat x) = (x :: u32)"
  by simp

lemma round_down4_foff: "unat y = foff f n \<Longrightarrow> round_down4 y = of_nat (foff f n)"
  using round_down4_id [of y] foff_4 [of f n] word_of_nat_unat [of y] by metis

lemma mod_mod_small: "0 < m \<Longrightarrow> m \<le> l \<Longrightarrow> k mod m mod l = k mod (m :: nat)"
  by (rule mod_less) (use mod_less_divisor less_le_trans in blast)

lemma field_place:
  assumes "unat (x::u32) < 352"
  shows "gpio_pconf_reg x (param_of f) =
    Some (of_nat (foff f (unat x)), of_nat (fshift f (unat x)), mask (fwidth f))"
proof -
  have m: "x mod 352 = x" using assms by (simp add: word_unat_eq_iff unat_mod)
  note r = unat_w [OF assms, THEN round_down4_foff]
  have s: "x mod 8 * 4 = of_nat (unat x mod 8 * 4)" "x mod 16 * 2 = of_nat (unat x mod 16 * 2)"
    by (simp_all add: word_unat_eq_iff unat_word_ariths unat_mod unat_of_nat mod_mod_small)
  show ?thesis
    by (cases f) (simp_all add: gpio_pconf_reg_def Let_def gpio_mux_reg_def gpio_pull_reg_def
      gpio_dlevel_reg_def m r s mask_eq_decr_exp gpio_mux_offset_def gpio_pull_offset_def gpio_dlevel_offset_def
      del: foff.simps of_nat_mult of_nat_add)
qed

lemma quotient_apart: "k div m = l div m \<Longrightarrow> k \<noteq> l \<Longrightarrow> k mod m \<noteq> l mod (m :: nat)"
  by (metis div_mult_mod_eq)

lemma foff_div_mod:
  "foff f n div 48 = n div 32"
  "foff f n mod 48 = (case f of FUNC \<Rightarrow> n mod 32 div 8 * 4 | DRV \<Rightarrow> 20 + n mod 32 div 8 * 4
     | PUD \<Rightarrow> 36 + n mod 32 div 16 * 4)"
proof -
  have l: "n mod 32 < 32" by simp
  obtain r where r: "foff f n = r + 48 * (n div 32)" "r < 48"
    "r = (case f of FUNC \<Rightarrow> n mod 32 div 8 * 4 | DRV \<Rightarrow> 20 + n mod 32 div 8 * 4
     | PUD \<Rightarrow> 36 + n mod 32 div 16 * 4)"
    using l by (cases f) (auto simp: less_mult_imp_div_less)
  then show "foff f n div 48 = n div 32" "foff f n mod 48 = (case f of FUNC \<Rightarrow> n mod 32 div 8 * 4
     | DRV \<Rightarrow> 20 + n mod 32 div 8 * 4 | PUD \<Rightarrow> 36 + n mod 32 div 16 * 4)"
    unfolding r(1) by simp_all
qed

lemma fields_apart:
  assumes "foff f n = foff g k" "n \<noteq> k \<or> f \<noteq> g"
  shows "f = g \<and> (fshift f n + fwidth f \<le> fshift g k \<or> fshift g k + fwidth g \<le> fshift f n)"
proof -
  have b: "n div 32 = k div 32" using foff_div_mod(1) assms(1) by metis
  have e: "foff f n mod 48 = foff g k mod 48" using assms(1) by simp
  have l: "n mod 32 div 8 < 4" "k mod 32 div 8 < 4" "n mod 32 div 16 < 2" "k mod 32 div 16 < 2"
    by (simp_all add: less_mult_imp_div_less)
  define n8 k8 n16 k16 where d: "n8 = n mod 32 div 8" "k8 = k mod 32 div 8" "n16 = n mod 32 div 16" "k16 = k mod 32 div 16"
  have fg: "f = g" using e l unfolding foff_div_mod(2) d [symmetric] by (cases f; cases g; simp only: field.case; linarith?)
  then have ne: "n \<noteq> k" using assms(2) by simp
  then have n32: "n mod 32 \<noteq> k mod 32" using b quotient_apart by blast
  have mm: "n mod 32 mod 8 = n mod 8" "n mod 32 mod 16 = n mod 16" for n :: nat
    by (simp_all add: mod_mod_cancel)
  have "fshift f n div fwidth f \<noteq> fshift f k div fwidth f"
    using e fg quotient_apart [OF _ n32, of 8] quotient_apart [OF _ n32, of 16]
    by (cases f) (auto simp: foff_div_mod(2) mm)
  moreover have "fshift f n mod fwidth f = 0" "fshift f k mod fwidth f = 0" by (cases f; simp)+
  ultimately show ?thesis using fg by (cases f) auto
qed


lemma unpack_pack:
  "pinconf_to_config_param (GPIO_CFG_PACK ty v) = ty AND 0xff"
  "pinconf_to_config_argument (GPIO_CFG_PACK ty v) = v AND 0xffffff"
  "GPIO_CFG_UNPACK_VALUE (GPIO_CFG_PACK ty v) = v AND 0xffffff"
proof -
  have m: "(0xff :: u64) = mask 8" "(0xff :: u32) = mask 8" "(0xffffff :: u32) = mask 24"
    "(0xffffff :: u64) = mask 24" "(0xFFFFFF00 :: u64) = push_bit 8 (mask 24)"
    by (simp_all add: mask_eq_decr_exp push_bit_eq_mult)
  show "pinconf_to_config_param (GPIO_CFG_PACK ty v) = ty AND 0xff"
    unfolding pinconf_to_config_param_def GPIO_CFG_PACK_def m
    by (rule bit_word_eqI) (auto simp: bit_simps)
  show "pinconf_to_config_argument (GPIO_CFG_PACK ty v) = v AND 0xffffff"
    unfolding pinconf_to_config_argument_def GPIO_CFG_PACK_def m
    by (rule bit_word_eqI) (auto simp: bit_simps)
  show "GPIO_CFG_UNPACK_VALUE (GPIO_CFG_PACK ty v) = v AND 0xffffff"
    unfolding GPIO_CFG_UNPACK_VALUE_def GPIO_CFG_PACK_def m
    by (rule bit_word_eqI) (auto simp: bit_simps)
qed

lemma fits_24:
  assumes "v AND mask w = (v :: u32)" "w \<le> 24"
  shows "v AND 0xffffff = v"
proof -
  have "(0xffffff :: u32) = mask 24" by (simp add: mask_eq_decr_exp)
  moreover have "v AND mask 24 = v"
    using fits_bit [OF assms(1)] assms(2) by (intro bit_word_eqI) (auto simp: bit_simps intro: less_le_trans)
  ultimately show ?thesis by simp
qed

lemma param_of_byte [simp]: "param_of f AND 0xff = param_of f"
  by (cases f) simp_all

lemma fwidth_bounds: "fwidth f \<le> 24" "fshift f n + fwidth f \<le> 32" "fshift f n < 2 ^ 32" "n < 352 \<Longrightarrow> foff f n < 2 ^ 32"
proof -
  have l: "n mod 8 < 8" "n mod 16 < 16" by simp_all
  show "fwidth f \<le> 24" "fshift f n + fwidth f \<le> 32" "fshift f n < 2 ^ 32"
    using l by (cases f; simp)+
  assume "n < 352"
  then have "n div 32 < 11" "n mod 32 div 8 < 4" "n mod 32 div 16 < 2"
    by (simp_all add: less_mult_imp_div_less)
  then show "foff f n < 2 ^ 32" by (cases f) simp_all
qed

definition fits :: "field \<Rightarrow> u32 \<Rightarrow> bool" where
  "fits f v \<longleftrightarrow> v AND mask (fwidth f) = v"

definition irqs_of :: "gpio_irq_desc list \<Rightarrow> (u32 \<times> u32) list" where
  "irqs_of ds = map (\<lambda>x. (gi_virq x, gi_pin x)) ds"

text \<open>
  \<open>gpio_ready\<close>: the driver after its initialisation. \<open>pio_regs\<close>: the configuration registers of the
  port controller are storage; \<open>cell h off\<close> is the contents of the one at offset \<open>off\<close>.
\<close>

definition gpio_ready :: "'h gpio \<Rightarrow> bool" where
  "gpio_ready s \<longleftrightarrow> g_gpio_desc s \<and> (\<exists>ds. platform_gpio_desc s =
     [sun8iw20p1_gpio_desc\<lparr>gd_irq_desc_size := 192, gd_irq_desc := Some ds\<rparr>] \<and>
     irqs_of ds = map (\<lambda>i. (141 + of_nat i, 32 + of_nat i)) [0..<192])"

definition pio_regs :: "'h gpio_plat \<Rightarrow> ('h \<Rightarrow> nat \<Rightarrow> u32) \<Rightarrow> bool" where
  "pio_regs P cell \<longleftrightarrow>
     (\<forall>f n h. n < 352 \<longrightarrow> pio_readl P (0x02000000 + of_nat (foff f n)) h = (cell h (foff f n), h)) \<and>
     (\<forall>f n g k v h. n < 352 \<longrightarrow> k < 352 \<longrightarrow>
        cell (pio_writel P v (0x02000000 + of_nat (foff f n)) h) (foff g k) =
        (if foff g k = foff f n then v else cell h (foff g k)))"

definition pin_field :: "('h \<Rightarrow> nat \<Rightarrow> u32) \<Rightarrow> field \<Rightarrow> nat \<Rightarrow> 'h \<Rightarrow> u32" where
  "pin_field cell f n h = get_field (fshift f n) (fwidth f) (cell h (foff f n))"

lemma gpio_ready_desc:
  assumes "gpio_ready s"
  shows "gpio_desc_at 0 s = Some (Some 0)" "gpio_desc_at 1 s = Some None"
    "gd_membase (the_desc 0 s) = 0x02000000"
  using assms by (auto simp: gpio_ready_def gpio_desc_at_def the_desc_def sun8iw20p1_gpio_desc_def)

lemma ucast_foff: "n < 352 \<Longrightarrow> ucast (of_nat (foff f n) :: u32) = (of_nat (foff f n) :: u64)"
  using fwidth_bounds(4) [of n f] by (simp add: unsigned_of_nat take_bit_nat_eq_self)

lemma gpio_conf_set_ready:
  assumes "gpio_ready s" "pio_regs P cell" "unat pin < 352" "fits f v"
  shows "gpio_conf_set P pin (GPIO_CFG_PACK (param_of f) v) s =
    Some (0, s\<lparr>gp_hw := pio_writel P (put_field (fshift f (unat pin)) (fwidth f) v (cell (gp_hw s) (foff f (unat pin))))
      (0x02000000 + of_nat (foff f (unat pin))) (gp_hw s)\<rparr>)"
proof -
  have "pin < 352" using assms(3) by (simp add: word_less_nat_alt)
  then have d: "pin_to_gpio_desc pin s = Some (Some 0)"
    using gpio_ready_desc(1) [OF assms(1)] by (simp add: pin_to_gpio_desc_def)
  have v: "v AND 0xffffff = v" using assms(4) fwidth_bounds(1) fits_24 by (auto simp: fits_def)
  have sh: "unat (of_nat (fshift f (unat pin)) :: u32) = fshift f (unat pin)"
    using fwidth_bounds(3) by (simp add: unat_of_nat)
  show ?thesis
    using assms(2,3)
    by (simp add: gpio_conf_set_def d unpack_pack v field_place sh pio_read_def pio_write_def reg_addr_def
      gpio_ready_desc(3) [OF assms(1)] ucast_foff pio_regs_def put_field_def Let_def)
qed

lemma gpio_conf_set_field:
  assumes "gpio_ready s" "pio_regs P cell" "unat pin < 352" "fits f v"
  shows "\<exists>h. gpio_conf_set P pin (GPIO_CFG_PACK (param_of f) v) s = Some (0, s\<lparr>gp_hw := h\<rparr>) \<and>
    (\<forall>g k. k < 352 \<longrightarrow> pin_field cell g k h =
       (if (g, k) = (f, unat pin) then v else pin_field cell g k (gp_hw s)))"
proof -
  let ?n = "unat pin"
  let ?h = "pio_writel P (put_field (fshift f ?n) (fwidth f) v (cell (gp_hw s) (foff f ?n)))
      (0x02000000 + of_nat (foff f ?n)) (gp_hw s)"
  have "pin_field cell g k ?h = (if (g, k) = (f, ?n) then v else pin_field cell g k (gp_hw s))"
    if k: "k < 352" for g k
  proof (cases "foff g k = foff f ?n")
    case True
    then have c: "cell ?h (foff g k) = put_field (fshift f ?n) (fwidth f) v (cell (gp_hw s) (foff g k))"
      using assms(2,3) k by (simp add: pio_regs_def)
    show ?thesis
    proof (cases "(g, k) = (f, ?n)")
      case True
      then show ?thesis
        using c get_put_field [of v "fwidth f" "fshift f ?n"] fwidth_bounds(2) assms(4)
        by (simp add: pin_field_def fits_def)
    next
      case False
      then show ?thesis
        using c fields_apart [OF True] get_put_other [of v "fwidth f" "fshift g k" "fwidth g" "fshift f ?n"] assms(4)
        by (auto simp: pin_field_def fits_def)
    qed
  next
    case False
    then have "cell ?h (foff g k) = cell (gp_hw s) (foff g k)"
      using assms(2,3) k by (simp add: pio_regs_def)
    then show ?thesis using False by (auto simp: pin_field_def)
  qed
  then show ?thesis using gpio_conf_set_ready [OF assms] by blast
qed


lemma conf_value_ready:
  assumes "gpio_ready s" "pio_regs P cell" "unat pin < 352"
  shows "conf_value P (param_of f) pin (Some x) s = Some (0, Some (pin_field cell f (unat pin) (gp_hw s)), s)"
proof -
  have "pin < 352" using assms(3) by (simp add: word_less_nat_alt)
  then have d: "pin_to_gpio_desc pin s = Some (Some 0)"
    using gpio_ready_desc(1) [OF assms(1)] by (simp add: pin_to_gpio_desc_def)
  have sh: "unat (of_nat (fshift f (unat pin)) :: u32) = fshift f (unat pin)"
    using fwidth_bounds(3) by (simp add: unat_of_nat)
  have v: "(drop_bit n r AND mask (fwidth f)) AND 0xffffff = drop_bit n r AND mask (fwidth f)" for n and r :: u32
    by (rule fits_24 [OF _ fwidth_bounds(1) [of f]]) (simp add: and.assoc)
  show ?thesis
    using assms(2,3)
    by (simp add: conf_value_def gpio_conf_get_def d unpack_pack field_place sh v pio_read_def reg_addr_def
      gpio_ready_desc(3) [OF assms(1)] ucast_foff pio_regs_def pin_field_def get_field_def Let_def)
qed

section \<open>Configuring pins\<close>

text \<open>
  Contract of a bank of pins: setting a field of a pin changes this field only. A client that
  sets a list of fields (\<open>confs\<close>) finds the last value written to each (\<open>written\<close>).
\<close>

fun confs :: "('f \<Rightarrow> u32 \<Rightarrow> u32 \<Rightarrow> 's \<Rightarrow> (int \<times> 's) option) \<Rightarrow> ('f \<times> u32 \<times> u32) list \<Rightarrow> 's \<Rightarrow> (int \<times> 's) option" where
  "confs conf [] s = Some (0, s)"
| "confs conf ((f, pin, v) # ws) s = do {
     (r, s) \<leftarrow> conf f pin v s;
     if r \<noteq> 0 then Some (r, s) else confs conf ws s
   }"

definition written :: "('f \<times> u32 \<times> u32) list \<Rightarrow> 'f \<Rightarrow> u32 \<Rightarrow> u32 \<Rightarrow> u32" where
  "written ws g p old = fold (\<lambda>(f, pin, v) old. if (g, p) = (f, pin) then v else old) ws old"

locale pin_bank =
  fixes conf :: "'f \<Rightarrow> u32 \<Rightarrow> u32 \<Rightarrow> 's \<Rightarrow> (int \<times> 's) option"
    and val :: "'f \<Rightarrow> u32 \<Rightarrow> 's \<Rightarrow> u32"
    and ok :: "'s \<Rightarrow> bool"
    and pins :: "u32 set"
    and good :: "'f \<Rightarrow> u32 \<Rightarrow> bool"
  assumes conf_law: "\<lbrakk>ok s; pin \<in> pins; good f v\<rbrakk> \<Longrightarrow> \<exists>s'. conf f pin v s = Some (0, s') \<and> ok s' \<and>
    (\<forall>g. \<forall>p \<in> pins. val g p s' = (if (g, p) = (f, pin) then v else val g p s))"
begin

lemma confs_written:
  assumes "ok s" "\<forall>(f, pin, v) \<in> set ws. pin \<in> pins \<and> good f v"
  shows "\<exists>s'. confs conf ws s = Some (0, s') \<and> ok s' \<and> (\<forall>g. \<forall>p \<in> pins. val g p s' = written ws g p (val g p s))"
  using assms
proof (induction ws arbitrary: s)
  case Nil
  then show ?case by (simp add: written_def)
next
  case (Cons w ws)
  obtain f pin v where w: "w = (f, pin, v)" by (cases w)
  obtain s1 where s1: "conf f pin v s = Some (0, s1)" "ok s1"
    "\<forall>g. \<forall>p \<in> pins. val g p s1 = (if (g, p) = (f, pin) then v else val g p s)"
    using conf_law [OF Cons.prems(1), of pin f v] Cons.prems(2) w by auto
  obtain s2 where "confs conf ws s1 = Some (0, s2)" "ok s2"
    "\<forall>g. \<forall>p \<in> pins. val g p s2 = written ws g p (val g p s1)"
    using Cons.IH [OF s1(2)] Cons.prems(2) by auto
  then show ?case using s1 by (auto simp: w written_def)
qed

lemma conf_twice:
  assumes "ok s" "pin \<in> pins" "good f v" "good f w"
  shows "\<exists>s'. confs conf [(f, pin, v), (f, pin, w)] s = Some (0, s') \<and> val f pin s' = w"
  using confs_written [of s "[(f, pin, v), (f, pin, w)]"] assms by (auto simp: written_def)

end

locale pio =
  fixes P :: "'h gpio_plat" and cell :: "'h \<Rightarrow> nat \<Rightarrow> u32"
  assumes regs: "pio_regs P cell"

definition set_pin :: "'h gpio_plat \<Rightarrow> field \<Rightarrow> u32 \<Rightarrow> u32 \<Rightarrow> 'h gpio \<Rightarrow> (int \<times> 'h gpio) option" where
  "set_pin P f = (case f of FUNC \<Rightarrow> hal_gpio_pinmux_set_function P | PUD \<Rightarrow> hal_gpio_set_pull P
     | DRV \<Rightarrow> hal_gpio_set_driving_level P)"

lemma set_pin_conf: "set_pin P f pin v = gpio_conf_set P pin (GPIO_CFG_PACK (param_of f) v)"
  by (cases f) (simp_all add: set_pin_def hal_gpio_pinmux_set_function_def hal_gpio_set_pull_def
    hal_gpio_set_driving_level_def)

sublocale pio \<subseteq> bank: pin_bank "set_pin P" "\<lambda>f pin s. pin_field cell f (unat pin) (gp_hw s)"
    gpio_ready "{pin. unat pin < 352}" fits
proof
  fix s :: "'h gpio" and pin :: u32 and f v
  assume a: "gpio_ready s" "pin \<in> {pin. unat pin < 352}" "fits f v"
  obtain h where h: "gpio_conf_set P pin (GPIO_CFG_PACK (param_of f) v) s = Some (0, s\<lparr>gp_hw := h\<rparr>)"
    "\<forall>g k. k < 352 \<longrightarrow> pin_field cell g k h =
       (if (g, k) = (f, unat pin) then v else pin_field cell g k (gp_hw s))"
    using gpio_conf_set_field [OF a(1) regs _ a(3), of pin] a(2) by blast
  have "gpio_ready (s\<lparr>gp_hw := h\<rparr>)" using a(1) by (simp add: gpio_ready_def)
  then show "\<exists>s'. set_pin P f pin v s = Some (0, s') \<and> gpio_ready s' \<and>
      (\<forall>g. \<forall>p \<in> {pin. unat pin < 352}. pin_field cell g (unat p) (gp_hw s') =
         (if (g, p) = (f, pin) then v else pin_field cell g (unat p) (gp_hw s)))"
    using h by (auto simp: set_pin_conf word_unat_eq_iff)
qed


context pio
begin

lemma set_pins:
  assumes "gpio_ready s" "\<forall>(f, pin, v) \<in> set ws. pin \<in> {pin. unat pin < 352} \<and> fits f v"
  shows "\<exists>s'. confs (set_pin P) ws s = Some (0, s') \<and> gpio_ready s' \<and>
    (\<forall>f. \<forall>pin \<in> {pin. unat pin < 352}. pin_field cell f (unat pin) (gp_hw s') =
       written ws f pin (pin_field cell f (unat pin) (gp_hw s)))"
  by (rule bank.confs_written [OF assms])

lemma set_pin_get:
  assumes "gpio_ready s" "unat pin < 352" "fits f v"
  shows "\<exists>s'. set_pin P f pin v s = Some (0, s') \<and> gpio_ready s' \<and>
    conf_value P (param_of f) pin (Some x) s' = Some (0, Some v, s') \<and>
    (\<forall>g k. k < 352 \<and> (g, k) \<noteq> (f, unat pin) \<longrightarrow> pin_field cell g k (gp_hw s') = pin_field cell g k (gp_hw s))"
proof -
  obtain h where h: "gpio_conf_set P pin (GPIO_CFG_PACK (param_of f) v) s = Some (0, s\<lparr>gp_hw := h\<rparr>)"
    "\<forall>g k. k < 352 \<longrightarrow> pin_field cell g k h =
       (if (g, k) = (f, unat pin) then v else pin_field cell g k (gp_hw s))"
    using gpio_conf_set_field [OF assms(1) regs assms(2,3)] by blast
  have r: "gpio_ready (s\<lparr>gp_hw := h\<rparr>)" using assms(1) by (simp add: gpio_ready_def)
  then show ?thesis
    using h conf_value_ready [OF r regs assms(2), of f x] assms(2) by (simp add: set_pin_conf)
qed

end

section \<open>A simulated port controller\<close>

definition sim_pio :: "(u64 \<Rightarrow> u32) gpio_plat" where
  "sim_pio = \<lparr>pio_readl = (\<lambda>a h. (h a, h)), pio_writel = (\<lambda>v a h. h(a := v)),
     pio_malloc = (\<lambda>n h. (True, h)), pio_request_irq = (\<lambda>n h. (0, h)), pio_enable_irq = (\<lambda>n h. h),
     pio_handler = (\<lambda>f irq data h. h(of_nat f := ucast data))\<rparr>" 

definition sim_cell :: "(u64 \<Rightarrow> u32) \<Rightarrow> nat \<Rightarrow> u32" where
  "sim_cell h n = h (0x02000000 + of_nat n)"

lemma sim_pio_regs: "pio_regs sim_pio sim_cell"
proof -
  have "(of_nat (foff f n) :: u64) = of_nat (foff g k) \<longleftrightarrow> foff f n = foff g k" if "n < 352" "k < 352" for f g n k
    using fwidth_bounds(4) [OF that(1), of f] fwidth_bounds(4) [OF that(2), of g]
    by (simp add: word_unat_eq_iff unat_of_nat)
  then show ?thesis by (auto simp: pio_regs_def sim_pio_def sim_cell_def)
qed

interpretation sim: pio sim_pio sim_cell
  by unfold_locales (rule sim_pio_regs)

section \<open>Initialisation\<close>

lemma set_desc_simps [simp]:
  "platform_gpio_desc (set_desc i d s) = (platform_gpio_desc s)[i := d]"
  "g_gpio_desc (set_desc i d s) = g_gpio_desc s" "gp_hw (set_desc i d s) = gp_hw s"
  by (simp_all add: set_desc_def)

lemma pio_write_simps [simp]:
  "platform_gpio_desc (pio_write P v a s) = platform_gpio_desc s"
  "g_gpio_desc (pio_write P v a s) = g_gpio_desc s"
  "gp_hw (pio_write P v a s) = pio_writel P v a (gp_hw s)"
  by (simp_all add: pio_write_def)

lemma mask_bank_descs [simp]:
  "platform_gpio_desc (mask_bank P d i s) = platform_gpio_desc s" "g_gpio_desc (mask_bank P d i s) = g_gpio_desc s"
  by (simp_all add: mask_bank_def Let_def)

lemma fold_mask_bank [simp]:
  "platform_gpio_desc (fold (mask_bank P d) is s) = platform_gpio_desc s"
  "g_gpio_desc (fold (mask_bank P d) is s) = g_gpio_desc s"
  by (induction "is" arbitrary: s) simp_all

lemma fold_enable_irq [simp]:
  "platform_gpio_desc (fold (\<lambda>irq s. s\<lparr>gp_hw := pio_enable_irq P irq (gp_hw s)\<rparr>) is s) = platform_gpio_desc s"
  "g_gpio_desc (fold (\<lambda>irq s. s\<lparr>gp_hw := pio_enable_irq P irq (gp_hw s)\<rparr>) is s) = g_gpio_desc s"
  by (induction "is" arbitrary: s) simp_all

lemma request_irqs_descs:
  "request_irqs P irqs s = (r, s') \<Longrightarrow> platform_gpio_desc s' = platform_gpio_desc s \<and> g_gpio_desc s' = g_gpio_desc s"
  by (induction irqs arbitrary: s) (auto simp: Let_def split: prod.splits if_splits)

lemma request_irqs_ok:
  "\<forall>n h. fst (pio_malloc P n h) \<Longrightarrow> fst (request_irqs P irqs s) = 0"
  by (induction irqs arbitrary: s) (auto simp: Let_def split: prod.splits, metis fst_conv)

lemma new_irq_desc_sun8iw20:
  assumes "i < 192" "gd_irq_bank_base d = [1, 1, 1, 1, 1, 1]" "gd_virq_offset d = 0"
  shows "gi_virq (new_irq_desc d i) = 141 + of_nat i" "gi_pin (new_irq_desc d i) = 32 + of_nat i"
proof -
  have j: "i div 32 < 6" using assms(1) by auto
  then have "i div 32 \<in> {0, 1, 2, 3, 4, 5}" by auto
  then have b: "[1, 1, 1, 1, 1, 1 :: u32] ! (i div 32) = 1" "(of_nat (i div 32) :: u32) AND 0xff = of_nat (i div 32)"
    by auto
  have "of_nat i = (of_nat (32 * (i div 32) + i mod 32) :: u32)" by simp
  then have e: "of_nat i = 32 * of_nat (i div 32) + (of_nat (i mod 32) :: u32)"
    by (simp only: of_nat_add of_nat_mult) simp
  show "gi_virq (new_irq_desc d i) = 141 + of_nat i" "gi_pin (new_irq_desc d i) = 32 + of_nat i"
    using b e by (simp_all add: new_irq_desc_def assms(2,3) gpio_get_pin_base_from_bank_def algebra_simps Let_def)
qed

lemma desc_init_ready:
  assumes "platform_gpio_desc s = [sun8iw20p1_gpio_desc]" "g_gpio_desc s" "\<forall>n h. fst (pio_malloc P n h)"
  shows "\<exists>s'. desc_init P 0 s = (0, s') \<and> gpio_ready s'"
proof -
  let ?d = "sun8iw20p1_gpio_desc\<lparr>gd_irq_desc_size := 192\<rparr>"
  let ?d' = "?d\<lparr>gd_irq_desc := Some (map (new_irq_desc ?d) [0..<192])\<rparr>"
  obtain h where h: "pio_malloc P (192 * 32) (gp_hw s) = (True, h)"
    using assms(3) by (metis prod.collapse)
  have l: "length (gd_irq_bank_base sun8iw20p1_gpio_desc) = 6" by (simp add: sun8iw20p1_gpio_desc_def)
  let ?s = "fold (mask_bank P ?d') [0..<6] (set_desc 0 ?d' (set_desc 0 ?d s\<lparr>gp_hw := h\<rparr>))"
  obtain s1 where s1: "request_irqs P (gd_irq ?d') ?s = (0, s1)"
    using request_irqs_ok [OF assms(3)] by (metis prod.collapse)
  have "irqs_of (map (new_irq_desc ?d) [0..<192]) = map (\<lambda>i. (141 + of_nat i, 32 + of_nat i)) [0..<192]"
    by (auto simp: irqs_of_def new_irq_desc_sun8iw20 sun8iw20p1_gpio_desc_def)
  then have "gpio_ready (fold (\<lambda>irq s. s\<lparr>gp_hw := pio_enable_irq P irq (gp_hw s)\<rparr>) (gd_irq ?d') s1)"
    using request_irqs_descs [OF s1] assms(1,2) by (auto simp: gpio_ready_def)
  moreover have "desc_init P 0 s = (0, fold (\<lambda>irq s. s\<lparr>gp_hw := pio_enable_irq P irq (gp_hw s)\<rparr>) (gd_irq ?d') s1)"
    using h s1 assms(1) by (simp add: desc_init_def the_desc_def l Let_def)
  ultimately show ?thesis by blast
qed

lemma aw_hal_gpio_init_ready:
  assumes "\<forall>n h. fst (pio_malloc P n h)"
  shows "\<exists>s. aw_hal_gpio_init P (gpio_boot h) = (0, s) \<and> gpio_ready s"
  using desc_init_ready [of "gpio_boot h\<lparr>g_gpio_desc := True\<rparr>" P] assms
  by (auto simp: aw_hal_gpio_init_def gpio_boot_def)

section \<open>Interrupts\<close>

lemma find_index_first:
  "\<lbrakk>k < length xs; f (xs ! k); \<forall>i < k. \<not> f (xs ! i)\<rbrakk> \<Longrightarrow> find_index f j xs = Some (j + k)"
proof (induction xs arbitrary: k j)
  case (Cons x xs)
  show ?case
  proof (cases k)
    case (Suc l)
    have "\<not> f x" "\<forall>i < l. \<not> f (xs ! i)" using Cons.prems(3) Suc by force+
    then show ?thesis using Cons Suc by simp
  qed (use Cons in simp)
qed simp

lemma find_index_none: "\<forall>x \<in> set xs. \<not> f x \<Longrightarrow> find_index f j xs = None"
  by (induction xs arbitrary: j) auto

declare find_index.simps [simp del]

definition ready_with :: "gpio_irq_desc list \<Rightarrow> 'h gpio \<Rightarrow> bool" where
  "ready_with ds s \<longleftrightarrow> g_gpio_desc s \<and> platform_gpio_desc s =
     [sun8iw20p1_gpio_desc\<lparr>gd_irq_desc_size := 192, gd_irq_desc := Some ds\<rparr>] \<and>
     irqs_of ds = map (\<lambda>i. (141 + of_nat i, 32 + of_nat i)) [0..<192]"

lemma gpio_ready_with: "gpio_ready s \<longleftrightarrow> (\<exists>ds. ready_with ds s)"
  by (auto simp: gpio_ready_def ready_with_def)

lemma ready_withD:
  assumes "ready_with ds s"
  shows "length ds = 192" "i < 192 \<Longrightarrow> gi_virq (ds ! i) = 141 + of_nat i" "i < 192 \<Longrightarrow> gi_pin (ds ! i) = 32 + of_nat i"
    "the_desc 0 s = sun8iw20p1_gpio_desc\<lparr>gd_irq_desc_size := 192, gd_irq_desc := Some ds\<rparr>"
    "gpio_desc_at 0 s = Some (Some 0)" "g_gpio_desc s"
    "platform_gpio_desc s = [sun8iw20p1_gpio_desc\<lparr>gd_irq_desc_size := 192, gd_irq_desc := Some ds\<rparr>]"
proof -
  have e: "irqs_of ds = map (\<lambda>i. (141 + of_nat i, 32 + of_nat i)) [0..<192]"
    using assms by (simp add: ready_with_def)
  then have "length (irqs_of ds) = 192" by simp
  then show l: "length ds = 192" by (simp add: irqs_of_def)
  assume "i < 192"
  then show "gi_virq (ds ! i) = 141 + of_nat i" "gi_pin (ds ! i) = 32 + of_nat i"
    using arg_cong [OF e, of "\<lambda>xs. xs ! i"] l by (simp_all add: irqs_of_def)
next
  show "the_desc 0 s = sun8iw20p1_gpio_desc\<lparr>gd_irq_desc_size := 192, gd_irq_desc := Some ds\<rparr>"
    "gpio_desc_at 0 s = Some (Some 0)" "g_gpio_desc s"
    "platform_gpio_desc s = [sun8iw20p1_gpio_desc\<lparr>gd_irq_desc_size := 192, gd_irq_desc := Some ds\<rparr>]"
    using assms by (simp_all add: ready_with_def the_desc_def gpio_desc_at_def)
qed

lemma of_nat_u32_eq: "i < 2 ^ 32 \<Longrightarrow> j < 2 ^ 32 \<Longrightarrow> (of_nat i :: u32) = of_nat j \<longleftrightarrow> i = j"
  by (simp add: word_unat_eq_iff unat_of_nat)

lemma find_pin:
  assumes "ready_with ds s" "k < 192"
  shows "find_index (\<lambda>x. 32 + of_nat k = gi_pin x) 0 ds = Some k" "find_index (\<lambda>x. gi_pin x = 32 + of_nat k) 0 ds = Some k"
proof -
  have a: "gi_pin (ds ! k) = 32 + of_nat k" "\<forall>i < k. gi_pin (ds ! i) \<noteq> 32 + of_nat k"
    using assms(2) by (auto simp: ready_withD(3) [OF assms(1)] of_nat_u32_eq)
  then show "find_index (\<lambda>x. 32 + of_nat k = gi_pin x) 0 ds = Some k"
    using find_index_first [of k ds "\<lambda>x. 32 + of_nat k = gi_pin x" 0] assms(2) ready_withD(1) [OF assms(1)]
    by (metis add_0)
  show "find_index (\<lambda>x. gi_pin x = 32 + of_nat k) 0 ds = Some k"
    using find_index_first [of k ds "\<lambda>x. gi_pin x = 32 + of_nat k" 0] assms(2) ready_withD(1) [OF assms(1)] a
    by (metis add_0)
qed

lemma hal_gpio_to_irq_ready:
  assumes "ready_with ds s" "k < 192"
  shows "hal_gpio_to_irq (32 + of_nat k) s = Some (0, Some (141 + of_nat k))"
proof -
  have "unat (32 + of_nat k :: u32) = 32 + k" using assms(2) by (simp add: unat_word_ariths unat_of_nat)
  then have "(32 + of_nat k :: u32) < 352" using assms(2) by (simp add: word_less_nat_alt)
  then show ?thesis
    using find_pin(2) [OF assms] assms(2)
    by (simp add: hal_gpio_to_irq_def pin_to_gpio_desc_def ready_withD [OF assms(1)])
qed

lemma virq_to_gpio_desc_ready:
  assumes "ready_with ds s" "k < 192"
  shows "virq_to_gpio_desc (141 + of_nat k) s = Some (Some 0)"
proof -
  have "gi_virq (ds ! k) = 141 + of_nat k" "ds ! k \<in> set ds"
    using assms(2) by (simp_all add: ready_withD(1,2) [OF assms(1)])
  then have "\<exists>x \<in> set ds. gi_virq x = 141 + of_nat k" by blast
  then show ?thesis by (simp add: virq_to_gpio_desc_def ready_withD(6,7) [OF assms(1)])
qed

text \<open>An interrupt number that is not of the driver is looked up without success.\<close>

lemma virq_to_gpio_desc_unknown:
  assumes "ready_with ds s" "unat irq < 141 \<or> 333 \<le> unat irq"
  shows "virq_to_gpio_desc irq s = Some None"
proof -
  have "gi_virq x \<noteq> irq" if x: "x \<in> set ds" for x
  proof -
    obtain i where i: "i < 192" "x = ds ! i" using x ready_withD(1) [OF assms(1)] by (auto simp: in_set_conv_nth)
    have "unat (141 + of_nat i :: u32) = 141 + i" using i by (simp add: unat_word_ariths unat_of_nat)
    then show ?thesis using assms(2) i ready_withD(2) [OF assms(1) i(1)] by auto
  qed
  then show ?thesis by (auto simp: virq_to_gpio_desc_def ready_withD(6,7) [OF assms(1)])
qed


abbreviation (input) status_addr :: "nat \<Rightarrow> u64" where "status_addr b \<equiv> 0x02000234 + 32 * of_nat b"

lemma less_6: "b < 6 \<longleftrightarrow> b = 0 \<or> b = 1 \<or> b = 2 \<or> b = 3 \<or> b = 4 \<or> b = (5 :: nat)"
  by auto

lemma status_reg:
  assumes "b < 6" "gd_membase d = 0x02000000"
  shows "reg_addr d (gpio_irq_status_reg_from_bank (of_nat b) 1) = status_addr b"
  using assms(1) unfolding less_6
  by (auto simp: reg_addr_def gpio_irq_status_reg_from_bank_def assms(2))

lemma hw_irq_parts:
  assumes "k < 192"
  shows "(of_nat k :: u32) div 32 = of_nat (k div 32)" "unat ((of_nat k :: u32) div 32) = k div 32"
    "unat ((of_nat k :: u32) mod 32) = k mod 32"
  using assms by (auto simp: word_unat_eq_iff unat_div unat_mod unat_of_nat)

lemma irq_bank_base_ready:
  assumes "k < 192"
  shows "irq_bank_base_of (sun8iw20p1_gpio_desc\<lparr>gd_irq_desc_size := 192, gd_irq_desc := Some ds\<rparr>) (of_nat k) = Some 1"
proof -
  have "k div 32 < 6" using assms by auto
  then show ?thesis
    unfolding irq_bank_base_of_def hw_irq_parts(2) [OF assms] less_6
    by (auto simp: nth_opt_def sun8iw20p1_gpio_desc_def)
qed

lemma desc_simps [simp]:
  "gd_membase sun8iw20p1_gpio_desc = 0x02000000" "gd_virq_offset sun8iw20p1_gpio_desc = 0"
  "gd_irq sun8iw20p1_gpio_desc = [85, 87, 89, 91, 93, 95]" "gd_pin_base sun8iw20p1_gpio_desc = 0"
  "gd_irq_bank_base sun8iw20p1_gpio_desc = [1, 1, 1, 1, 1, 1]"
  by (simp_all add: sun8iw20p1_gpio_desc_def)

lemma gpio_irq_ack_ready:
  assumes "ready_with ds s" "k < 192"
  shows "gpio_irq_ack P 0 k s = Some (pio_write P (push_bit (k mod 32) 1) (status_addr (k div 32)) s)"
proof -
  have "k div 32 < 6" using assms(2) by auto
  then show ?thesis
    using assms(2) irq_bank_base_ready [OF assms(2), of ds] status_reg [of "k div 32" "sun8iw20p1_gpio_desc\<lparr>gd_irq_desc_size := 192, gd_irq_desc := Some ds\<rparr>"]
    by (simp add: gpio_irq_ack_def nth_opt_def ready_withD [OF assms(1)] gpio_irq_status_reg_def
      gpio_irq_status_offset_def hw_irq_parts [OF assms(2)])
qed

lemma lowest_bit_less: "lowest_bit v = Some j \<Longrightarrow> j < 32"
proof -
  have "find_index f i xs = Some j \<Longrightarrow> j < i + length xs" for f i and xs :: "nat list"
    by (induction xs arbitrary: i) (fastforce simp: find_index.simps split: if_splits)+
  then show "lowest_bit v = Some j \<Longrightarrow> j < 32" unfolding lowest_bit_def by fastforce
qed

lemma gpio_irq_handle_ready:
  assumes "ready_with ds s" "b < 6" "pio_readl P (status_addr b) (gp_hw s) = (v, h)" "lowest_bit v = Some j"
  shows "gpio_irq_handle P (85 + 2 * of_nat b) s =
    Some (pio_write P (push_bit j 1) (status_addr b) (call_handler P (ds ! (32 * b + j)) (s\<lparr>gp_hw := h\<rparr>)))"
proof -
  have j: "j < 32" by (rule lowest_bit_less [OF assms(4)])
  have k: "32 * b + j < 192" using j assms(2) by simp
  let ?d = "sun8iw20p1_gpio_desc\<lparr>gd_irq_desc_size := 192, gd_irq_desc := Some ds\<rparr>"
  have i: "irq_to_gpio_desc (85 + 2 * of_nat b) s = Some (Some 0)"
    using assms(2) unfolding less_6 by (auto simp: irq_to_gpio_desc_def ready_withD(6,7) [OF assms(1)])
  have f: "find_index (\<lambda>x. x = 85 + 2 * of_nat b) 0 [85, 87, 89, 91, 93, 95 :: u32] = Some b"
    using assms(2) unfolding less_6 by (auto simp: find_index.simps)
  have bb: "[1, 1, 1, 1, 1, 1 :: u32] ! b = 1" using assms(2) unfolding less_6 by auto
  have st: "pio_read P (reg_addr ?d (gpio_irq_status_reg_from_bank (of_nat b) 1)) s = (v, s\<lparr>gp_hw := h\<rparr>)"
    using status_reg [OF assms(2), of ?d] assms(3) by (simp add: pio_read_def)
  have "32 + of_nat b * 32 + of_nat j = (32 + of_nat (32 * b + j) :: u32)" by (simp add: algebra_simps)
  then have fp: "find_index (\<lambda>x. 32 + of_nat b * 32 + of_nat j = gi_pin x) 0 ds = Some (32 * b + j)"
    using find_pin(1) [OF assms(1) k] by (simp add: ac_simps)
  have r2: "ready_with ds (call_handler P (ds ! (32 * b + j)) (s\<lparr>gp_hw := h\<rparr>))"
    using assms(1) by (simp add: ready_with_def call_handler_def split: irq_handler.split)
  have dm: "(32 * b + j) div 32 = b" "j mod 32 = j" using j by simp_all
  have f': "find_index (\<lambda>x. x = 85 + 2 * of_nat b) 0 (take (length [1, 1, 1, 1, 1, 1 :: u32]) [85, 87, 89, 91, 93, 95 :: u32]) = Some b"
    using f by simp
  show ?thesis
    using gpio_irq_ack_ready [OF r2 k, of P]
    by (simp add: gpio_irq_handle_def i ready_withD(4) [OF assms(1)] f bb st assms(4) fp dm del: of_nat_add of_nat_mult)
qed


lemma gpio_irq_set_type_ready:
  assumes "ready_with ds s" "k < 192"
  shows "\<exists>h. gpio_irq_set_type P 0 k ty s = Some (s\<lparr>gp_hw := h\<rparr>)"
  using assms(2) irq_bank_base_ready [OF assms(2), of ds]
  by (auto simp: gpio_irq_set_type_def ready_withD [OF assms(1)] nth_opt_def pio_read_def pio_write_def Let_def
    split: prod.split)

text \<open>What \<open>hal_gpio_irq_request\<close> does to a descriptor.\<close>

definition take_slot :: "nat option \<Rightarrow> u64 \<Rightarrow> u64 \<Rightarrow> gpio_irq_desc \<Rightarrow> gpio_irq_desc" where
  "take_slot hdle flags data x = (case hdle of
     Some h \<Rightarrow> if gi_handle_irq x = bad_gpio_irq_handle
               then x\<lparr>gi_handle_irq := Handler h, gi_flags := flags, gi_data := data\<rparr> else x
   | None \<Rightarrow> x)"

lemma take_slot_ids [simp]:
  "gi_virq (take_slot hdle flags data x) = gi_virq x" "gi_pin (take_slot hdle flags data x) = gi_pin x"
  by (simp_all add: take_slot_def split: option.split)

lemma ready_with_hw: "ready_with ds s \<Longrightarrow> ready_with ds (s\<lparr>gp_hw := h\<rparr>)"
  by (simp add: ready_with_def)

lemma set_irq_desc_ready:
  assumes "ready_with ds s" "k < 192" "gi_virq (f (ds ! k)) = gi_virq (ds ! k)" "gi_pin (f (ds ! k)) = gi_pin (ds ! k)"
  shows "\<exists>s'. set_irq_desc 0 k f s = Some s' \<and> ready_with (ds[k := f (ds ! k)]) s' \<and> gp_hw s' = gp_hw s"
proof -
  have "irqs_of (ds[k := f (ds ! k)]) = irqs_of ds"
    using assms(2-4) ready_withD(1) [OF assms(1)] by (auto simp: irqs_of_def map_update list_update_same_conv)
  then show ?thesis
    using assms(1,2) ready_withD(1) [OF assms(1)]
    by (auto simp: set_irq_desc_def ready_withD [OF assms(1)] nth_opt_def ready_with_def)
qed

lemma hal_gpio_irq_request_ready:
  assumes "ready_with ds s" "k < 192" "pio_regs P cell"
  shows "\<exists>s'. hal_gpio_irq_request P (141 + of_nat k) hdle flags data s = Some (141 + int k, s') \<and>
    ready_with (ds[k := take_slot hdle flags data (ds ! k)]) s'"
proof -
  let ?ds = "ds[k := take_slot hdle flags data (ds ! k)]"
  let ?irq = "141 + of_nat k :: u32"
  have u: "unat ?irq = 141 + k" "unat (?irq - 141) = k" using assms(2) by (simp_all add: unat_word_ariths unat_of_nat)
  have uk: "unat (of_nat k :: u32) = k" using assms(2) by (simp add: unat_of_nat)
  have si: "sint ?irq = 141 + int k"
  proof -
    have "?irq = of_nat (141 + k)" by simp
    then have "sint ?irq = signed_take_bit 31 (int (141 + k))" by (simp only: signed_of_nat) simp
    also have "\<dots> = int (141 + k)" using assms(2) by (intro signed_take_bit_int_eq_self) auto
    finally show ?thesis by simp
  qed
  obtain s1 where s1: "set_irq_desc 0 k (take_slot hdle flags data) s = Some s1" "ready_with ?ds s1"
    using set_irq_desc_ready [OF assms(1,2), of "take_slot hdle flags data"] by auto
  obtain h where h: "gpio_irq_set_type P 0 k flags s1 = Some (s1\<lparr>gp_hw := h\<rparr>)"
    using gpio_irq_set_type_ready [OF s1(2) assms(2)] by blast
  have r2: "ready_with ?ds (s1\<lparr>gp_hw := h\<rparr>)" by (rule ready_with_hw [OF s1(2)])
  have pin: "gi_pin (?ds ! k) = 32 + of_nat k"
    using assms(2) ready_withD(3) [OF s1(2) assms(2)] by simp
  have "unat (32 + of_nat k :: u32) < 352" "fits FUNC 14"
    using assms(2) by (simp_all add: unat_word_ariths unat_of_nat fits_def mask_eq_decr_exp)
  then obtain h2 where h2: "gpio_conf_set P (32 + of_nat k) (GPIO_CFG_PACK 0 14) (s1\<lparr>gp_hw := h\<rparr>) = Some (0, s1\<lparr>gp_hw := h2\<rparr>)"
    using gpio_conf_set_field [of "s1\<lparr>gp_hw := h\<rparr>" P cell "32 + of_nat k" FUNC 14] r2 assms(3)
    by (auto simp: gpio_ready_with)
  have rng: "irq_in_range (sun8iw20p1_gpio_desc\<lparr>gd_irq_desc_size := 192, gd_irq_desc := Some ds\<rparr>) ?irq"
    using u assms(2) by (simp add: irq_in_range_def word_le_nat_alt word_less_nat_alt)
  have "hal_gpio_irq_request P ?irq hdle flags data s = Some (141 + int k, s1\<lparr>gp_hw := h2\<rparr>)"
    using s1(1) h h2 pin rng
    by (simp add: hal_gpio_irq_request_def virq_to_gpio_desc_ready [OF assms(1,2)] ready_withD(4) [OF assms(1)]
      ready_withD(4) [OF r2] u uk si hal_gpio_pinmux_set_function_def take_slot_def [abs_def])
  then show ?thesis using ready_with_hw [OF s1(2)] by blast
qed

end
