(* ===== verification/Gpio_Spi.thy ===== *)
theory Gpio_Spi
  imports Gpio_Ok Hal_Spi
begin

unbundle bit_operations_syntax

text \<open>
  The SPI driver on the GPIO driver: \<open>spi_pinctrl_init\<close> calls \<open>hal_gpio_pinmux_set_function\<close>,
  \<open>hal_gpio_set_driving_level\<close> and \<open>hal_gpio_set_pull\<close> of \<open>hal_gpio.c\<close>. \<open>gpio_call\<close> is such a call
  from the record \<open>spi_plat\<close>, whose functions return a result in any case; the theorems below
  concern states in which the calls have one.
\<close>

definition gpio_call :: "('h gpio \<Rightarrow> (int \<times> 'h gpio) option) \<Rightarrow> 'h gpio \<Rightarrow> int \<times> 'h gpio" where
  "gpio_call f s = (case f s of Some r \<Rightarrow> r | None \<Rightarrow> (-1, s))"

definition pins_of_gpio :: "'h gpio_plat \<Rightarrow> 'h gpio spi_plat \<Rightarrow> bool" where
  "pins_of_gpio G P \<longleftrightarrow>
     gpio_pinmux_set_function P = (\<lambda>n m. gpio_call (hal_gpio_pinmux_set_function G (of_nat n) (of_nat m))) \<and>
     gpio_set_driving_level P = (\<lambda>n m. gpio_call (hal_gpio_set_driving_level G (of_nat n) (of_nat m))) \<and>
     gpio_set_pull P = (\<lambda>n m. gpio_call (hal_gpio_set_pull G (of_nat n) (of_nat m)))"

text \<open>The same calls on a part of a larger state.\<close>

definition pins_through :: "('h \<Rightarrow> 'g gpio) \<Rightarrow> ('g gpio \<Rightarrow> 'h \<Rightarrow> 'h) \<Rightarrow> 'g gpio_plat \<Rightarrow> 'h spi_plat \<Rightarrow> bool" where
  "pins_through get put G P \<longleftrightarrow>
     gpio_pinmux_set_function P = (\<lambda>n m. through get put (gpio_call (hal_gpio_pinmux_set_function G (of_nat n) (of_nat m)))) \<and>
     gpio_set_driving_level P = (\<lambda>n m. through get put (gpio_call (hal_gpio_set_driving_level G (of_nat n) (of_nat m)))) \<and>
     gpio_set_pull P = (\<lambda>n m. through get put (gpio_call (hal_gpio_set_pull G (of_nat n) (of_nat m))))"

lemma pins_of_gpio_through: "pins_of_gpio G P \<Longrightarrow> pins_through id (\<lambda>g _. g) G P"
  by (simp add: pins_of_gpio_def pins_through_def)

definition pin_writes :: "nat \<Rightarrow> nat \<Rightarrow> nat \<Rightarrow> (field \<times> u32 \<times> u32) list" where
  "pin_writes mux lvl pin = [(FUNC, of_nat pin, of_nat mux), (DRV, of_nat pin, of_nat lvl), (PUD, of_nat pin, 1)]"

definition port_writes :: "sunxi_spi_params \<Rightarrow> (field \<times> u32 \<times> u32) list" where
  "port_writes par = concat (map (pin_writes (par_mux par) (par_driv_level par)) (par_gpio par))"

lemma confs_append:
  "confs conf (vs @ ws) s = Some (0, s') \<Longrightarrow> \<exists>s1. confs conf vs s = Some (0, s1) \<and> confs conf ws s1 = Some (0, s')"
proof (induction vs arbitrary: s)
  case (Cons v vs)
  then show ?case by (cases v) (auto split: bind_splits if_splits)
qed simp

text \<open>\<open>I\<close>: what the rest of the state keeps while the part changes.\<close>

lemma pins_init_confs:
  assumes P: "pins_through get put G P" and part: "\<And>g h. get (put g h) = g" "\<And>g h. I h \<Longrightarrow> I (put g h)"
  shows "confs (set_pin G) (concat (map (pin_writes mux lvl) pins)) (get (sp_hw s)) = Some (0, g) \<Longrightarrow> I (sp_hw s)
    \<Longrightarrow> \<exists>h. pins_init P mux lvl pins s = (0, s\<lparr>sp_hw := h\<rparr>) \<and> get h = g \<and> I h"
proof (induction pins arbitrary: s)
  case Nil
  then show ?case by (intro exI [of _ "sp_hw s"]) simp
next
  case (Cons pin pins)
  obtain g1 where g1: "confs (set_pin G) (pin_writes mux lvl pin) (get (sp_hw s)) = Some (0, g1)"
    "confs (set_pin G) (concat (map (pin_writes mux lvl) pins)) g1 = Some (0, g)"
    using confs_append [OF Cons.prems(1) [unfolded list.map concat.simps]] by blast
  then obtain ga gb where calls: "hal_gpio_pinmux_set_function G (of_nat pin) (of_nat mux) (get (sp_hw s)) = Some (0, ga)"
    "hal_gpio_set_driving_level G (of_nat pin) (of_nat lvl) ga = Some (0, gb)" "hal_gpio_set_pull G (of_nat pin) 1 gb = Some (0, g1)"
    by (auto simp: pin_writes_def set_pin_def split: bind_splits if_splits)
  let ?h1 = "put g1 (put gb (put ga (sp_hw s)))"
  obtain h where h: "pins_init P mux lvl pins (s\<lparr>sp_hw := ?h1\<rparr>) = (0, s\<lparr>sp_hw := h\<rparr>)" "get h = g" "I h"
    using Cons.IH [of "s\<lparr>sp_hw := ?h1\<rparr>"] g1(2) part Cons.prems(2) by auto
  have "pins_init P mux lvl (pin # pins) s = pins_init P mux lvl pins (s\<lparr>sp_hw := ?h1\<rparr>)"
    using P calls by (simp add: pins_through_def through_def on_hw_def gpio_call_def part(1))
  then show ?case using h by auto
qed

lemma ports_init_confs:
  assumes P: "pins_through get put G P" and part: "\<And>g h. get (put g h) = g" "\<And>g h. I h \<Longrightarrow> I (put g h)"
  shows "confs (set_pin G) (concat (map port_writes pars)) (get (sp_hw s)) = Some (0, g) \<Longrightarrow> I (sp_hw s)
    \<Longrightarrow> \<exists>h. ports_init P pars s = (0, s\<lparr>sp_hw := h\<rparr>) \<and> get h = g \<and> I h"
proof (induction pars arbitrary: s)
  case Nil
  then show ?case by (intro exI [of _ "sp_hw s"]) simp
next
  case (Cons par pars)
  obtain g1 where g1: "confs (set_pin G) (port_writes par) (get (sp_hw s)) = Some (0, g1)"
    "confs (set_pin G) (concat (map port_writes pars)) g1 = Some (0, g)"
    using confs_append [OF Cons.prems(1) [unfolded list.map concat.simps]] by blast
  obtain h1 where h1: "pins_init P (par_mux par) (par_driv_level par) (par_gpio par) s = (0, s\<lparr>sp_hw := h1\<rparr>)" "get h1 = g1" "I h1"
    using pins_init_confs [where I = I, OF P part] g1(1) Cons.prems(2) unfolding port_writes_def by blast
  obtain h where "ports_init P pars (s\<lparr>sp_hw := h1\<rparr>) = (0, s\<lparr>sp_hw := h\<rparr>)" "get h = g" "I h"
    using Cons.IH [of "s\<lparr>sp_hw := h1\<rparr>"] g1(2) h1(2,3) by auto
  then show ?case using h1(1) by auto
qed

text \<open>The pins of the two ports, PC2 to PC7 and PD10 to PD15, and what is written to them.\<close>

definition spi_pin :: "nat \<Rightarrow> u32 option" where
  "spi_pin n = (if 66 \<le> n \<and> n \<le> 71 then Some 2 else if 106 \<le> n \<and> n \<le> 111 then Some 4 else None)"

definition spi_pin_field :: "field \<Rightarrow> nat \<Rightarrow> u32 \<Rightarrow> u32" where
  "spi_pin_field f n old = (case spi_pin n of None \<Rightarrow> old
     | Some mux \<Rightarrow> (case f of FUNC \<Rightarrow> mux | DRV \<Rightarrow> 2 | PUD \<Rightarrow> 1))"

lemma written_simps [simp]:
  "written [] g p old = old"
  "written ((f, pin, v) # ws) g p old = written ws g p (if (g, p) = (f, pin) then v else old)"
  by (simp_all add: written_def)

lemma written_append: "written (vs @ ws) g p old = written ws g p (written vs g p old)"
  by (simp add: written_def)

lemma spi_ports_written:
  assumes "unat pin < 352"
  shows "written (concat (map port_writes g_sunxi_spi_params)) f pin old = spi_pin_field f (unat pin) old"
proof -
  have p: "spi_pin (unat pin) = (if pin \<in> {66, 67, 68, 69, 70, 71} then Some 2
      else if pin \<in> {106, 107, 108, 109, 110, 111} then Some 4 else None)"
    by (auto simp: spi_pin_def word_unat_eq_iff)
  show ?thesis unfolding spi_pin_field_def p
    by (cases f) (auto simp: g_sunxi_spi_params_def SPI0_PARAMS_def SPI1_PARAMS_def port_writes_def pin_writes_def)
qed

lemma spi_pinctrl_through:
  assumes P: "pins_through get put G P" and part: "\<And>g h. get (put g h) = g" "\<And>g h. I h \<Longrightarrow> I (put g h)" "I (sp_hw s)"
    and regs: "pio_regs G cell" "gpio_ready (get (sp_hw s))" and port: "sp_port s < 2"
  shows "\<exists>h. spi_pinctrl_init P s = (0, s\<lparr>sp_hw := h\<rparr>) \<and> gpio_ready (get h) \<and> I h \<and>
    (\<forall>f n. n < 352 \<longrightarrow> pin_field cell f n (gp_hw (get h)) = spi_pin_field f n (pin_field cell f n (gp_hw (get (sp_hw s)))))"
proof -
  let ?ws = "concat (map port_writes g_sunxi_spi_params)"
  have "\<forall>(f, pin, v) \<in> set ?ws. pin \<in> {pin. unat pin < 352} \<and> fits f v"
    by (simp add: g_sunxi_spi_params_def SPI0_PARAMS_def SPI1_PARAMS_def port_writes_def pin_writes_def
      fits_def mask_eq_decr_exp)
  from pio.set_pins [OF pio.intro [OF regs(1)] regs(2) this]
  obtain g where g: "confs (set_pin G) ?ws (get (sp_hw s)) = Some (0, g)" "gpio_ready g"
    "\<forall>f. \<forall>p \<in> {pin. unat pin < 352}. pin_field cell f (unat p) (gp_hw g) =
       written ?ws f p (pin_field cell f (unat p) (gp_hw (get (sp_hw s))))"
    by blast
  obtain h where "spi_pinctrl_init P s = (0, s\<lparr>sp_hw := h\<rparr>)" "get h = g" "I h"
    using ports_init_confs [where I = I, OF P part(1,2) g(1) part(3)] port by (auto simp: spi_pinctrl_init_def)
  moreover have "pin_field cell f n (gp_hw g) = spi_pin_field f n (pin_field cell f n (gp_hw (get (sp_hw s))))"
    if "n < 352" for f n
  proof -
    have "unat (of_nat n :: u32) = n" using that by (simp add: unat_of_nat)
    then show ?thesis using g(3) spi_ports_written [of "of_nat n"] that by (metis mem_Collect_eq)
  qed
  ultimately show ?thesis using g(2) by blast
qed

lemma spi_pinctrl_on_gpio:
  assumes "pins_of_gpio G P" "pio_regs G cell" "gpio_ready (sp_hw s)" "sp_port s < 2"
  shows "\<exists>h. spi_pinctrl_init P s = (0, s\<lparr>sp_hw := h\<rparr>) \<and> gpio_ready h \<and>
    (\<forall>f n. n < 352 \<longrightarrow> pin_field cell f n (gp_hw h) = spi_pin_field f n (pin_field cell f n (gp_hw (sp_hw s))))"
  using spi_pinctrl_through [OF pins_of_gpio_through [OF assms(1)], where I = "\<lambda>_. True"] assms(2-4) by auto

end
