(* ===== verification/Ccu_Core.thy ===== *)
theory Ccu_Core
  imports Prelude
begin

text \<open>
  The clock framework (\<open>ccmu/sunxi-ng/ccu.c\<close>, \<open>clk.c\<close>, \<open>ccmu/hal_clk.c\<close>) after the clocks have been
  registered; \<open>Ccu_Register\<close> is the registration. A clock is the number of its \<open>clk_core\<close>, which is also that of its \<open>clk_hw\<close> and of
  its \<open>clk\<close> (each registered core has one of each); a null pointer is \<open>None\<close>. The functions of
  \<open>clk_ops\<close> act on the hardware. Accuracies and rounding are not modelled.
\<close>

section \<open>Types\<close>

datatype hal_clk_type = HAL_SUNXI_FIXED_CCU | HAL_SUNXI_RTC_CCU | HAL_SUNXI_CCU | HAL_SUNXI_R_CCU | HAL_SUNXI_CCU_NUMBER

record 'h clk_ops =
  op_enable :: "('h \<Rightarrow> int \<times> 'h) option"
  op_disable :: "('h \<Rightarrow> 'h) option"
  op_is_enabled :: "('h \<Rightarrow> int \<times> 'h) option"
  op_get_parent :: "('h \<Rightarrow> (u8 \<times> 'h) option) option"
  op_set_parent :: "(u8 \<Rightarrow> 'h \<Rightarrow> (int \<times> 'h) option) option"
  op_set_rate :: "(u64 \<Rightarrow> u64 \<Rightarrow> 'h \<Rightarrow> (int \<times> 'h) option) option"
  op_recalc_rate :: "(u64 \<Rightarrow> 'h \<Rightarrow> (u64 \<times> 'h) option) option"

record clk_parent_map =
  pm_hw :: "nat option"
  pm_core :: "nat option"
  pm_name :: "string option"

record 'h clk_core =
  cc_name :: string
  cc_ops :: "'h clk_ops"
  cc_type :: hal_clk_type
  cc_id :: nat
  cc_count :: u8
  cc_parent :: "nat option"
  cc_parents :: "clk_parent_map list"
  cc_p_rate :: u32
  cc_rate :: u64
  cc_enable_count :: u32
  cc_flags :: u64

text \<open>\<open>clk_root_list\<close> is the list of registered cores; only these are reached from their \<open>clk_hw\<close>.\<close>

record 'h clks =
  cores :: "nat \<Rightarrow> 'h clk_core"
  clk_root_list :: "nat list"
  ck_hw :: 'h

definition upd_core :: "nat \<Rightarrow> ('h clk_core \<Rightarrow> 'h clk_core) \<Rightarrow> 'h clks \<Rightarrow> 'h clks" where
  "upd_core c f s = s\<lparr>cores := (cores s)(c := f (cores s c))\<rparr>"

section \<open>Looking up clocks\<close>

definition clk_core_get_by_name :: "string \<Rightarrow> 'h clks \<Rightarrow> nat option" where
  "clk_core_get_by_name name s = find (\<lambda>c. cc_name (cores s c) = name) (clk_root_list s)"

definition clk_core_get :: "hal_clk_type \<Rightarrow> nat \<Rightarrow> 'h clks \<Rightarrow> nat option" where
  "clk_core_get type idx s =
     find (\<lambda>c. cc_type (cores s c) = type \<and> cc_id (cores s c) = idx) (clk_root_list s)"

definition clk_core_get_by_pindex :: "nat \<Rightarrow> nat \<Rightarrow> 'h clks \<Rightarrow> nat option option" where
  "clk_core_get_by_pindex c i s =
     (if i > length (cc_parents (cores s c)) then Some None
      else if i = length (cc_parents (cores s c)) then None
      else do {
        name \<leftarrow> pm_name (cc_parents (cores s c) ! i);
        Some (clk_core_get_by_name name s)
      })"

definition set_parent_core :: "nat \<Rightarrow> nat \<Rightarrow> nat \<Rightarrow> 'h clks \<Rightarrow> 'h clks" where
  "set_parent_core c i p = upd_core c (\<lambda>x. x\<lparr>cc_parents :=
     (cc_parents x)[i := (cc_parents x ! i)\<lparr>pm_core := Some p\<rparr>]\<rparr>)"

definition clk_core_fill_parent_index :: "nat \<Rightarrow> nat \<Rightarrow> 'h clks \<Rightarrow> 'h clks option" where
  "clk_core_fill_parent_index c i s = do {
     parent \<leftarrow> (case pm_hw (cc_parents (cores s c) ! i) of
                 Some w \<Rightarrow> Some (if w \<in> set (clk_root_list s) then Some w else None)
               | None \<Rightarrow> clk_core_get_by_pindex c i s);
     Some (case parent of None \<Rightarrow> s | Some p \<Rightarrow> set_parent_core c i p s)
   }"

definition clk_core_get_parent_by_index :: "nat \<Rightarrow> nat \<Rightarrow> 'h clks \<Rightarrow> (nat option \<times> 'h clks) option" where
  "clk_core_get_parent_by_index c i s =
     (if i \<ge> length (cc_parents (cores s c)) then Some (None, s)
      else do {
        s \<leftarrow> (if pm_core (cc_parents (cores s c) ! i) = None then clk_core_fill_parent_index c i s else Some s);
        Some (pm_core (cc_parents (cores s c) ! i), s)
      })"

definition clk_init_parent :: "nat \<Rightarrow> 'h clks \<Rightarrow> (nat option \<times> 'h clks) option" where
  "clk_init_parent c s =
     (if cc_parents (cores s c) = [] then Some (None, s)
      else do {
        (i, s) \<leftarrow> (case op_get_parent (cc_ops (cores s c)) of
                    Some f \<Rightarrow> if length (cc_parents (cores s c)) > 1
                      then do { (i, h) \<leftarrow> f (ck_hw s); Some (unat i, s\<lparr>ck_hw := h\<rparr>) }
                      else Some (0, s)
                  | None \<Rightarrow> Some (0, s));
        clk_core_get_parent_by_index c i s
      })"

section \<open>Enabling and disabling\<close>

definition run_disable :: "nat \<Rightarrow> 'h clks \<Rightarrow> 'h clks" where
  "run_disable c s = (case op_disable (cc_ops (cores s c)) of
     None \<Rightarrow> s | Some f \<Rightarrow> s\<lparr>ck_hw := f (ck_hw s)\<rparr>)"

definition run_enable :: "nat \<Rightarrow> 'h clks \<Rightarrow> int \<times> 'h clks" where
  "run_enable c s = (case op_enable (cc_ops (cores s c)) of
     None \<Rightarrow> (0, s) | Some f \<Rightarrow> (let (r, h) = f (ck_hw s) in (r, s\<lparr>ck_hw := h\<rparr>)))"

partial_function (option) clk_core_disable :: "nat option \<Rightarrow> 'h clks \<Rightarrow> (int \<times> 'h clks) option" where
  "clk_core_disable core s = (case core of None \<Rightarrow> Some (0, s) | Some c \<Rightarrow>
     if cc_enable_count (cores s c) = 0 then Some (0, s)
     else let s = upd_core c (\<lambda>x. x\<lparr>cc_enable_count := cc_enable_count x - 1\<rparr>) s
       in if cc_enable_count (cores s c) > 0 then Some (0, s)
          else do {
            let s = run_disable c s;
            (_, s) \<leftarrow> clk_core_disable (cc_parent (cores s c)) s;
            Some (0, s)
          })"

definition count_up :: "nat \<Rightarrow> 'h clks \<Rightarrow> 'h clks" where
  "count_up c = upd_core c (\<lambda>x. x\<lparr>cc_enable_count := cc_enable_count x + 1\<rparr>)"

partial_function (option) clk_core_enable :: "nat option \<Rightarrow> 'h clks \<Rightarrow> (int \<times> 'h clks) option" where
  "clk_core_enable core s = (case core of None \<Rightarrow> Some (0, s) | Some c \<Rightarrow>
     if cc_enable_count (cores s c) = 0
     then do {
       (ret, s) \<leftarrow> clk_core_enable (cc_parent (cores s c)) s;
       if ret \<noteq> 0 then Some (ret, s)
       else let (ret, s) = run_enable c s in
         if ret \<noteq> 0 then do {
           (_, s) \<leftarrow> clk_core_disable (cc_parent (cores s c)) s;
           Some (ret, s)
         } else Some (0, count_up c s)
     }
     else Some (0, count_up c s))"

declare clk_core_disable.simps [code] clk_core_enable.simps [code]

definition clk_core_is_enabled :: "nat \<Rightarrow> 'h clks \<Rightarrow> int \<times> 'h clks" where
  "clk_core_is_enabled c s = (case op_is_enabled (cc_ops (cores s c)) of
     None \<Rightarrow> (if cc_enable_count (cores s c) \<noteq> 0 then 1 else 0, s)
   | Some f \<Rightarrow> (let (r, h) = f (ck_hw s) in (r, s\<lparr>ck_hw := h\<rparr>)))"

section \<open>Rates and parents\<close>

partial_function (option) clk_core_recalc_rate :: "nat \<Rightarrow> nat option \<Rightarrow> 'h clks \<Rightarrow> (u32 \<times> 'h clks) option" where
  "clk_core_recalc_rate c p_core s = (case p_core of
     None \<Rightarrow> Some (ucast (cc_rate (cores s c)), s)
   | Some p \<Rightarrow> do {
       (_, s) \<leftarrow> clk_core_recalc_rate p (cc_parent (cores s p)) s;
       let p_rate = (ucast (cc_rate (cores s p)) :: u32);
       case op_recalc_rate (cc_ops (cores s c)) of
         None \<Rightarrow> Some (ucast (cc_rate (cores s c)), s)
       | Some f \<Rightarrow> do {
           (r, h) \<leftarrow> f (ucast p_rate) (ck_hw s);
           Some (ucast r, s\<lparr>ck_hw := h\<rparr>)
         }
     })"

declare clk_core_recalc_rate.simps [code]

definition clk_core_get_rate :: "nat \<Rightarrow> 'h clks \<Rightarrow> (u32 \<times> 'h clks) option" where
  "clk_core_get_rate c s = do {
     (p, s) \<leftarrow> clk_init_parent c s;
     let s = upd_core c (\<lambda>x. x\<lparr>cc_parent := p\<rparr>) s;
     clk_core_recalc_rate c p s
   }"

definition clk_core_set_rate :: "nat \<Rightarrow> nat \<Rightarrow> u64 \<Rightarrow> 'h clks \<Rightarrow> (int \<times> 'h clks) option" where
  "clk_core_set_rate c p rate s = (case op_set_rate (cc_ops (cores s c)) of
     None \<Rightarrow> Some (255, s)
   | Some f \<Rightarrow> do {
       (r, h) \<leftarrow> f rate (cc_rate (cores s p)) (ck_hw s);
       let s = s\<lparr>ck_hw := h\<rparr>;
       let ret = uint (word_of_int r :: u8);
       Some (ret, if ret \<noteq> 0 then s else upd_core c (\<lambda>x. x\<lparr>cc_rate := rate\<rparr>) s)
     })"

definition clk_core_get_parent :: "nat \<Rightarrow> 'h clks \<Rightarrow> (nat option \<times> 'h clks) option" where
  "clk_core_get_parent c s = (case cc_parent (cores s c) of
     Some p \<Rightarrow> Some (Some p, s)
   | None \<Rightarrow> do {
       (p, s) \<leftarrow> clk_init_parent c s;
       Some (p, upd_core c (\<lambda>x. x\<lparr>cc_parent := p\<rparr>) s)
     })"

text \<open>The search of \<open>clk_fetch_parent_index\<close> for the first entry that is the parent.\<close>

definition is_parent_entry :: "nat \<Rightarrow> string \<Rightarrow> clk_parent_map \<Rightarrow> bool" where
  "is_parent_entry p name e = (case pm_core e of
     Some q \<Rightarrow> q = p
   | None \<Rightarrow> (case pm_hw e of
       Some w \<Rightarrow> w = p
     | None \<Rightarrow> (case pm_name e of Some n \<Rightarrow> n = name | None \<Rightarrow> False)))"

fun parent_index :: "nat \<Rightarrow> string \<Rightarrow> nat \<Rightarrow> clk_parent_map list \<Rightarrow> nat option" where
  "parent_index p name i [] = None"
| "parent_index p name i (e # es) =
     (if is_parent_entry p name e then Some i else parent_index p name (Suc i) es)"

definition clk_fetch_parent_index :: "nat \<Rightarrow> nat \<Rightarrow> 'h clks \<Rightarrow> nat option \<times> 'h clks" where
  "clk_fetch_parent_index c p s =
     (case parent_index p (cc_name (cores s p)) 0 (cc_parents (cores s c)) of
        None \<Rightarrow> (None, s) | Some i \<Rightarrow> (Some i, set_parent_core c i p s))"

definition clk_core_set_parent :: "nat \<Rightarrow> nat \<Rightarrow> 'h clks \<Rightarrow> (int \<times> 'h clks) option" where
  "clk_core_set_parent c p s =
     (if cc_parent (cores s c) = Some p then Some (0, s)
      else if length (cc_parents (cores s c)) > 1 \<and> op_set_parent (cc_ops (cores s c)) = None then Some (-1, s)
      else (case clk_fetch_parent_index c p s of
        (None, s) \<Rightarrow> Some (-1, s)
      | (Some i, s) \<Rightarrow> do {
          let p_rate = (ucast (cc_rate (cores s p)) :: u32);
          (ret, s) \<leftarrow> (case op_set_parent (cc_ops (cores s c)) of
            None \<Rightarrow> Some (0, s)
          | Some f \<Rightarrow> do { (r, h) \<leftarrow> f (of_nat i) (ck_hw s); Some (r, s\<lparr>ck_hw := h\<rparr>) });
          if ret \<noteq> 0 then Some (ret, s) else do {
            let s = upd_core c (\<lambda>x. x\<lparr>cc_parent := Some p, cc_p_rate := p_rate\<rparr>) s;
            (r, s) \<leftarrow> clk_core_recalc_rate c (Some p) s;
            Some (0, upd_core c (\<lambda>x. x\<lparr>cc_rate := ucast r\<rparr>) s)
          }
        }))"

section \<open>The functions of \<open>clk.c\<close>\<close>

definition clk_get :: "hal_clk_type \<Rightarrow> nat \<Rightarrow> 'h clks \<Rightarrow> nat option \<times> 'h clks" where
  "clk_get type idx s = (case clk_core_get type idx s of
     None \<Rightarrow> (None, s) | Some c \<Rightarrow> (Some c, upd_core c (\<lambda>x. x\<lparr>cc_count := cc_count x + 1\<rparr>) s))"

definition clk_put :: "nat option \<Rightarrow> 'h clks \<Rightarrow> int \<times> 'h clks" where
  "clk_put clk s = (case clk of None \<Rightarrow> (0, s) | Some c \<Rightarrow>
     (0, if cc_count (cores s c) \<noteq> 0 then upd_core c (\<lambda>x. x\<lparr>cc_count := cc_count x - 1\<rparr>) s else s))"

definition clk_is_enabled :: "nat option \<Rightarrow> 'h clks \<Rightarrow> int \<times> 'h clks" where
  "clk_is_enabled clk s = (case clk of None \<Rightarrow> (-1, s) | Some c \<Rightarrow>
     (let (r, s) = clk_core_is_enabled c s in (if r \<noteq> 0 then 0 else -1, s)))"

definition clk_prepare_enable :: "nat option \<Rightarrow> 'h clks \<Rightarrow> (int \<times> 'h clks) option" where
  "clk_prepare_enable clk s = (case clk of None \<Rightarrow> Some (0, s) | Some c \<Rightarrow> clk_core_enable (Some c) s)"

definition clk_disable_unprepare :: "nat option \<Rightarrow> 'h clks \<Rightarrow> (int \<times> 'h clks) option" where
  "clk_disable_unprepare clk s = (case clk of None \<Rightarrow> Some (0, s) | Some c \<Rightarrow> clk_core_disable (Some c) s)"

definition clk_get_parent :: "nat option \<Rightarrow> 'h clks \<Rightarrow> (nat option \<times> 'h clks) option" where
  "clk_get_parent clk s = (case clk of None \<Rightarrow> Some (None, s) | Some c \<Rightarrow> do {
     (p, s) \<leftarrow> clk_core_get_parent c s;
     Some (p, case p of None \<Rightarrow> s | Some p \<Rightarrow> upd_core p (\<lambda>x. x\<lparr>cc_count := cc_count x + 1\<rparr>) s)
   })"

definition clk_set_parent :: "nat option \<Rightarrow> nat option \<Rightarrow> 'h clks \<Rightarrow> (int \<times> 'h clks) option" where
  "clk_set_parent clk p_clk s = (case (clk, p_clk) of
     (Some c, Some p) \<Rightarrow> clk_core_set_parent c p s | _ \<Rightarrow> Some (-1, s))"

definition clk_get_rate :: "nat option \<Rightarrow> 'h clks \<Rightarrow> (u32 \<times> 'h clks) option" where
  "clk_get_rate clk s = (case clk of None \<Rightarrow> Some (0, s) | Some c \<Rightarrow> clk_core_get_rate c s)"

text \<open>
  A clock without a parent has no \<open>p_clk\<close>, whose core \<open>clk_set_rate\<close> and \<open>clk_recalc_rate\<close> take
  unchecked. The rate of \<open>clk_recalc_rate\<close> is a variable of the caller that stays as it is when
  there is no clock.
\<close>

definition clk_set_rate :: "nat option \<Rightarrow> u32 \<Rightarrow> 'h clks \<Rightarrow> (int \<times> 'h clks) option" where
  "clk_set_rate clk rate s = (case clk of None \<Rightarrow> Some (0, s) | Some c \<Rightarrow> do {
     (p, s) \<leftarrow> clk_get_parent (Some c) s;
     p \<leftarrow> p;
     clk_core_set_rate c p (ucast rate) s
   })"

definition clk_recalc_rate :: "nat option \<Rightarrow> u32 \<Rightarrow> 'h clks \<Rightarrow> (u32 \<times> 'h clks) option" where
  "clk_recalc_rate clk rate s = (case clk of None \<Rightarrow> Some (rate, s) | Some c \<Rightarrow> do {
     (p, s) \<leftarrow> clk_get_parent (Some c) s;
     p \<leftarrow> p;
     clk_core_recalc_rate c (Some p) s
   })"

section \<open>The calls of the HAL\<close>

definition hal_clock_get :: "hal_clk_type \<Rightarrow> nat \<Rightarrow> 'h clks \<Rightarrow> nat option \<times> 'h clks" where
  "hal_clock_get type idx s = clk_get type idx s"

definition hal_clock_put :: "nat option \<Rightarrow> 'h clks \<Rightarrow> int \<times> 'h clks" where
  "hal_clock_put clk s = clk_put clk s"

definition hal_clock_is_enabled :: "nat option \<Rightarrow> 'h clks \<Rightarrow> int \<times> 'h clks" where
  "hal_clock_is_enabled clk s = clk_is_enabled clk s"

definition hal_clock_enable :: "nat option \<Rightarrow> 'h clks \<Rightarrow> (int \<times> 'h clks) option" where
  "hal_clock_enable clk s = clk_prepare_enable clk s"

definition hal_clock_disable :: "nat option \<Rightarrow> 'h clks \<Rightarrow> (int \<times> 'h clks) option" where
  "hal_clock_disable clk s = clk_disable_unprepare clk s"

definition hal_clk_get_parent :: "nat option \<Rightarrow> 'h clks \<Rightarrow> (nat option \<times> 'h clks) option" where
  "hal_clk_get_parent clk s = clk_get_parent clk s"

definition hal_clk_set_parent :: "nat option \<Rightarrow> nat option \<Rightarrow> 'h clks \<Rightarrow> (int \<times> 'h clks) option" where
  "hal_clk_set_parent clk parent s = clk_set_parent clk parent s"

definition hal_clk_get_rate :: "nat option \<Rightarrow> 'h clks \<Rightarrow> (u32 \<times> 'h clks) option" where
  "hal_clk_get_rate clk s = clk_get_rate clk s"

definition hal_clk_set_rate :: "nat option \<Rightarrow> u32 \<Rightarrow> 'h clks \<Rightarrow> (int \<times> 'h clks) option" where
  "hal_clk_set_rate clk rate s = clk_set_rate clk rate s"

definition hal_clk_recalc_rate :: "nat option \<Rightarrow> 'h clks \<Rightarrow> (u32 \<times> 'h clks) option" where
  "hal_clk_recalc_rate clk s = clk_recalc_rate clk 0 s"

lemmas hal_clk_defs =
  hal_clock_get_def hal_clock_put_def hal_clock_is_enabled_def hal_clock_enable_def hal_clock_disable_def
  hal_clk_get_parent_def hal_clk_set_parent_def hal_clk_get_rate_def hal_clk_set_rate_def hal_clk_recalc_rate_def
  clk_get_def clk_put_def clk_is_enabled_def clk_prepare_enable_def clk_disable_unprepare_def
  clk_get_parent_def clk_set_parent_def clk_get_rate_def clk_set_rate_def clk_recalc_rate_def

end
