(* ===== verification/Ccu_Mp.thy ===== *)
theory Ccu_Mp
  imports Prelude
begin

unbundle bit_operations_syntax

text \<open>
  Clock hardware of the clock controller (\<open>ccmu/sunxi-ng\<close>): gates (\<open>ccu_gate.c\<close>), multiplexers
  (\<open>ccu_mux.c\<close>) and M-P dividers (\<open>ccu_mp.c\<close>), on the registers of \<open>'h clk_plat\<close>. The spin lock
  around each change of a register is empty in a build without a kernel. The frequencies are
  \<open>unsigned long\<close>, 64 bits wide; a division by zero has no result.
\<close>

section \<open>Types\<close>

record 'h clk_plat =
  ck_readl :: "u64 \<Rightarrow> 'h \<Rightarrow> u32 \<times> 'h"
  ck_writel :: "u32 \<Rightarrow> u64 \<Rightarrow> 'h \<Rightarrow> 'h"

record ccu_common =
  co_base :: u64
  co_reg :: u32
  co_lock_reg :: u32
  co_prediv :: u32
  co_key_value :: u32
  co_features :: u64

record ccu_mux_internal =
  mx_shift :: nat
  mx_width :: nat
  mx_table :: "u8 list option"
  mx_fixed_predivs :: "(u8 \<times> u16) list"
  mx_var_predivs :: "(u8 \<times> nat \<times> nat) list"

record ccu_div_internal =
  dv_shift :: nat
  dv_width :: nat
  dv_max :: u32
  dv_offset :: u32

record ccu_mp =
  mp_enable :: u32
  mp_m :: ccu_div_internal
  mp_p :: ccu_div_internal
  mp_mux :: ccu_mux_internal
  mp_fixed_post_div :: u32
  mp_common :: ccu_common

abbreviation (input) CCU_FEATURE_VARIABLE_PREDIV :: u64 where "CCU_FEATURE_VARIABLE_PREDIV \<equiv> 2"
abbreviation (input) CCU_FEATURE_FIXED_PREDIV :: u64 where "CCU_FEATURE_FIXED_PREDIV \<equiv> 4"
abbreviation (input) CCU_FEATURE_FIXED_POSTDIV :: u64 where "CCU_FEATURE_FIXED_POSTDIV \<equiv> 8"
abbreviation (input) CCU_FEATURE_ALL_PREDIV :: u64 where "CCU_FEATURE_ALL_PREDIV \<equiv> 16"

definition co_addr :: "ccu_common \<Rightarrow> u64" where
  "co_addr co = co_base co + ucast (co_reg co)"

definition has_feature :: "ccu_common \<Rightarrow> u64 \<Rightarrow> bool" where
  "has_feature co f \<longleftrightarrow> co_features co AND f \<noteq> 0"

definition GENMASK :: "nat \<Rightarrow> nat \<Rightarrow> u32" where
  "GENMASK hi lo = (- 1 - push_bit lo 1 + 1) AND drop_bit (31 - hi) 0xffffffff"

section \<open>Gates\<close>

definition ccu_gate_helper_disable :: "'h clk_plat \<Rightarrow> ccu_common \<Rightarrow> u32 \<Rightarrow> 'h \<Rightarrow> 'h" where
  "ccu_gate_helper_disable P co gate h =
     (if gate = 0 then h else
      let (reg, h) = ck_readl P (co_addr co) h in ck_writel P (reg AND NOT gate) (co_addr co) h)"

definition ccu_gate_helper_enable :: "'h clk_plat \<Rightarrow> ccu_common \<Rightarrow> u32 \<Rightarrow> 'h \<Rightarrow> int \<times> 'h" where
  "ccu_gate_helper_enable P co gate h =
     (if gate = 0 then (0, h) else
      let (reg, h) = ck_readl P (co_addr co) h in (0, ck_writel P (reg OR gate) (co_addr co) h))"

definition ccu_gate_helper_is_enabled :: "'h clk_plat \<Rightarrow> ccu_common \<Rightarrow> u32 \<Rightarrow> 'h \<Rightarrow> int \<times> 'h" where
  "ccu_gate_helper_is_enabled P co gate h =
     (if gate = 0 then (1, h) else
      let (v, h) = ck_readl P (co_addr co) h in (if v AND gate \<noteq> 0 then 1 else 0, h))"

definition ccu_gate_recalc_rate :: "ccu_common \<Rightarrow> u64 \<Rightarrow> u64 option" where
  "ccu_gate_recalc_rate co parent_rate =
     (if has_feature co CCU_FEATURE_ALL_PREDIV
      then if co_prediv co = 0 then None else Some (parent_rate div ucast (co_prediv co))
      else Some parent_rate)"

section \<open>Multiplexers\<close>

definition field_of :: "nat \<Rightarrow> nat \<Rightarrow> u32 \<Rightarrow> u32" where
  "field_of sh w reg = drop_bit sh reg AND (push_bit w 1 - 1)"

definition ccu_mux_get_prediv :: "'h clk_plat \<Rightarrow> ccu_common \<Rightarrow> ccu_mux_internal \<Rightarrow> int \<Rightarrow> 'h \<Rightarrow> u16 \<times> 'h" where
  "ccu_mux_get_prediv P co cm parent_index h =
     (if \<not> (has_feature co CCU_FEATURE_FIXED_PREDIV \<or> has_feature co CCU_FEATURE_VARIABLE_PREDIV \<or>
            has_feature co CCU_FEATURE_ALL_PREDIV) then (1, h)
      else if has_feature co CCU_FEATURE_ALL_PREDIV then (ucast (co_prediv co), h)
      else let
        (reg, h) = ck_readl P (co_addr co) h;
        i = (if parent_index < 0 then uint (field_of (mx_shift cm) (mx_width cm) reg) else parent_index);
        prediv = 1;
        prediv = (if has_feature co CCU_FEATURE_FIXED_PREDIV
                  then fold (\<lambda>(j, d) prediv. if i = uint j then d else prediv) (mx_fixed_predivs cm) prediv
                  else prediv);
        prediv = (if has_feature co CCU_FEATURE_VARIABLE_PREDIV
                  then fold (\<lambda>(j, sh, w) prediv. if i = uint j
                         then ucast (ucast (field_of sh w reg) :: u8) + 1 else prediv)
                         (mx_var_predivs cm) prediv
                  else prediv)
      in (prediv, h))"

definition ccu_mux_helper_apply_prediv ::
  "'h clk_plat \<Rightarrow> ccu_common \<Rightarrow> ccu_mux_internal \<Rightarrow> int \<Rightarrow> u64 \<Rightarrow> 'h \<Rightarrow> (u64 \<times> 'h) option" where
  "ccu_mux_helper_apply_prediv P co cm parent_index parent_rate h =
     (let (d, h) = ccu_mux_get_prediv P co cm parent_index h
      in if d = 0 then None else Some (parent_rate div ucast d, h))"

fun index_of :: "u8 \<Rightarrow> nat \<Rightarrow> u8 list \<Rightarrow> nat option" where
  "index_of x i [] = None"
| "index_of x i (y # ys) = (if y = x then Some i else index_of x (Suc i) ys)"

text \<open>\<open>num_parents\<close> is the number of parents of the clock; the table must be as long.\<close>

definition ccu_mux_helper_get_parent ::
  "'h clk_plat \<Rightarrow> ccu_common \<Rightarrow> ccu_mux_internal \<Rightarrow> nat \<Rightarrow> 'h \<Rightarrow> (u8 \<times> 'h) option" where
  "ccu_mux_helper_get_parent P co cm num_parents h =
     (let (reg, h) = ck_readl P (co_addr co) h;
          parent = ucast (drop_bit (mx_shift cm) reg) AND (ucast (push_bit (mx_width cm) 1 - 1 :: u32) :: u8)
      in case mx_table cm of None \<Rightarrow> Some (parent, h)
         | Some t \<Rightarrow>
             (case index_of parent 0 (take num_parents t) of
                Some i \<Rightarrow> Some (of_nat i, h)
              | None \<Rightarrow> if length t < num_parents then None else Some (parent, h)))"

definition ccu_mux_helper_set_parent ::
  "'h clk_plat \<Rightarrow> ccu_common \<Rightarrow> ccu_mux_internal \<Rightarrow> u8 \<Rightarrow> 'h \<Rightarrow> (int \<times> 'h) option" where
  "ccu_mux_helper_set_parent P co cm i h = do {
     i \<leftarrow> (case mx_table cm of None \<Rightarrow> Some i
            | Some t \<Rightarrow> if unat i < length t then Some (t ! unat i) else None);
     let (reg, h) = ck_readl P (co_addr co) h;
     let reg = reg AND NOT (GENMASK (mx_width cm + mx_shift cm - 1) (mx_shift cm));
     Some (0, ck_writel P (reg OR push_bit (mx_shift cm) (ucast i)) (co_addr co) h)
   }"

section \<open>M-P dividers\<close>

definition ilog2 :: "u32 \<Rightarrow> u32" where
  "ilog2 v =
     (let r = push_bit 4 (if v > 0xffff then 1 else 0);
          v = drop_bit (unat r) v;
          sh = push_bit 3 (if v > 0xff then 1 else 0);
          v = drop_bit (unat sh) v;
          r = r OR sh;
          sh = push_bit 2 (if v > 0xf then 1 else 0);
          v = drop_bit (unat sh) v;
          r = r OR sh;
          sh = push_bit 1 (if v > 0x3 then 1 else 0);
          v = drop_bit (unat sh) v;
          r = r OR sh
      in r OR drop_bit 1 v)"

text \<open>
  The loops of \<open>ccu_mp_find_best\<close> over \<open>_m\<close> and \<open>_p\<close>; they do not end when the bound is the
  largest number (or, for \<open>_p\<close>, from \<open>2 ^ 31\<close> on, where it becomes zero).
\<close>

definition mp_better :: "u64 \<Rightarrow> u64 \<Rightarrow> u32 \<Rightarrow> u32 \<Rightarrow> u64 \<times> u32 \<times> u32 \<Rightarrow> u64 \<times> u32 \<times> u32" where
  "mp_better parent rate p m best =
     (let (best_rate, _) = best; tmp_rate = parent div ucast p div ucast m
      in if tmp_rate > rate then best
         else if rate - tmp_rate < rate - best_rate then (tmp_rate, m, p) else best)"

partial_function (option) mp_m_loop ::
  "u64 \<Rightarrow> u64 \<Rightarrow> u32 \<Rightarrow> u32 \<Rightarrow> u32 \<Rightarrow> u64 \<times> u32 \<times> u32 \<Rightarrow> (u64 \<times> u32 \<times> u32) option" where
  "mp_m_loop parent rate max_m p m best =
     (if m \<le> max_m
      then if p = 0 \<or> m = 0 then None
           else mp_m_loop parent rate max_m p (m + 1) (mp_better parent rate p m best)
      else Some best)"

partial_function (option) mp_p_loop ::
  "u64 \<Rightarrow> u64 \<Rightarrow> u32 \<Rightarrow> u32 \<Rightarrow> u32 \<Rightarrow> u64 \<times> u32 \<times> u32 \<Rightarrow> (u64 \<times> u32 \<times> u32) option" where
  "mp_p_loop parent rate max_m max_p p best =
     (if p \<le> max_p
      then do {
        best \<leftarrow> mp_m_loop parent rate max_m p 1 best;
        mp_p_loop parent rate max_m max_p (push_bit 1 p) best
      }
      else Some best)"

declare mp_m_loop.simps [code] mp_p_loop.simps [code]

definition ccu_mp_find_best :: "u64 \<Rightarrow> u64 \<Rightarrow> u32 \<Rightarrow> u32 \<Rightarrow> (u32 \<times> u32) option" where
  "ccu_mp_find_best parent rate max_m max_p = do {
     (_, m, p) \<leftarrow> mp_p_loop parent rate max_m max_p 1 (0, 0, 0);
     Some (m, p)
   }"

definition mp_max_m :: "ccu_mp \<Rightarrow> u32" where
  "mp_max_m c = (if dv_max (mp_m c) \<noteq> 0 then dv_max (mp_m c) else push_bit (dv_width (mp_m c)) 1)"

definition mp_max_p :: "ccu_mp \<Rightarrow> u32" where
  "mp_max_p c = (if dv_max (mp_p c) \<noteq> 0 then dv_max (mp_p c) else push_bit (2 ^ dv_width (mp_p c) - 1) 1)"

definition ccu_mp_recalc_rate :: "'h clk_plat \<Rightarrow> ccu_mp \<Rightarrow> u64 \<Rightarrow> 'h \<Rightarrow> (u64 \<times> 'h) option" where
  "ccu_mp_recalc_rate P c parent_rate h = do {
     (parent_rate, h) \<leftarrow> ccu_mux_helper_apply_prediv P (mp_common c) (mp_mux c) (-1) parent_rate h;
     let (reg, h) = ck_readl P (co_addr (mp_common c)) h;
     let m = field_of (dv_shift (mp_m c)) (dv_width (mp_m c)) reg + dv_offset (mp_m c);
     let m = (if m = 0 then 1 else m);
     let p = field_of (dv_shift (mp_p c)) (dv_width (mp_p c)) reg;
     let rate = drop_bit (unat p) parent_rate div ucast m;
     if has_feature (mp_common c) CCU_FEATURE_FIXED_POSTDIV
     then if mp_fixed_post_div c = 0 then None else Some (rate div ucast (mp_fixed_post_div c), h)
     else Some (rate, h)
   }"

definition ccu_mp_set_rate :: "'h clk_plat \<Rightarrow> ccu_mp \<Rightarrow> u64 \<Rightarrow> u64 \<Rightarrow> 'h \<Rightarrow> (int \<times> 'h) option" where
  "ccu_mp_set_rate P c rate parent_rate h = do {
     (parent_rate, h) \<leftarrow> ccu_mux_helper_apply_prediv P (mp_common c) (mp_mux c) (-1) parent_rate h;
     let rate = (if has_feature (mp_common c) CCU_FEATURE_FIXED_POSTDIV
                 then rate * ucast (mp_fixed_post_div c) else rate);
     (m, p) \<leftarrow> ccu_mp_find_best parent_rate rate (mp_max_m c) (mp_max_p c);
     let (reg, h) = ck_readl P (co_addr (mp_common c)) h;
     let reg = reg AND NOT (GENMASK (dv_width (mp_m c) + dv_shift (mp_m c) - 1) (dv_shift (mp_m c)));
     let reg = reg AND NOT (GENMASK (dv_width (mp_p c) + dv_shift (mp_p c) - 1) (dv_shift (mp_p c)));
     let reg = reg OR push_bit (dv_shift (mp_m c)) (m - dv_offset (mp_m c));
     let reg = reg OR push_bit (dv_shift (mp_p c)) (ilog2 p);
     Some (0, ck_writel P reg (co_addr (mp_common c)) h)
   }"

text \<open>\<open>spi0_clk\<close> of \<open>ccu-sun8iw20.c\<close>: parents \<open>dcxo24M\<close>, \<open>pll-periph0\<close>, and three more.\<close>

definition spi_mp_clk :: "u64 \<Rightarrow> u32 \<Rightarrow> ccu_mp" where
  "spi_mp_clk base reg = \<lparr>mp_enable = push_bit 31 1,
     mp_m = \<lparr>dv_shift = 0, dv_width = 4, dv_max = 0, dv_offset = 1\<rparr>,
     mp_p = \<lparr>dv_shift = 8, dv_width = 2, dv_max = 0, dv_offset = 1\<rparr>,
     mp_mux = \<lparr>mx_shift = 24, mx_width = 3, mx_table = None, mx_fixed_predivs = [], mx_var_predivs = []\<rparr>,
     mp_fixed_post_div = 0,
     mp_common = \<lparr>co_base = base, co_reg = reg, co_lock_reg = 0, co_prediv = 0, co_key_value = 0, co_features = 0\<rparr>\<rparr>"

definition spi0_clk :: ccu_mp where "spi0_clk = spi_mp_clk 0x02001000 0x940"
definition spi1_clk :: ccu_mp where "spi1_clk = spi_mp_clk 0x02001000 0x944"

end
