(* ===== verification/Ccu_Mp_Ok.thy ===== *)
theory Ccu_Mp_Ok
  imports Ccu_Mp
begin

unbundle bit_operations_syntax

text \<open>
  M-P dividers: \<open>ccu_mp_find_best\<close> is the best choice among all dividers; setting a rate writes
  it to the register, from which it is read back; a rate that no divider reaches corrupts the
  register.
\<close>

section \<open>The search\<close>

text \<open>
  \<open>divisors\<close>: the pairs the two loops go through; \<open>best_of\<close>: the best rate not above the requested
  one among the pairs of a set, or zeros when none of them gives a rate.
\<close>

definition mp_rate :: "u64 \<Rightarrow> u32 \<Rightarrow> u32 \<Rightarrow> u64" where
  "mp_rate parent m p = parent div ucast p div ucast m"

definition divisors :: "u32 \<Rightarrow> u32 \<Rightarrow> (u32 \<times> u32) set" where
  "divisors max_m max_p = {(m, p). 1 \<le> m \<and> m \<le> max_m \<and> p \<le> max_p \<and> (\<exists>k < 32. p = 2 ^ k)}"

definition best_of :: "u64 \<Rightarrow> u64 \<Rightarrow> (u32 \<times> u32) set \<Rightarrow> u64 \<times> u32 \<times> u32 \<Rightarrow> bool" where
  "best_of parent rate S best \<longleftrightarrow> (case best of (b, m, p) \<Rightarrow>
     b \<le> rate \<and> (if b = 0 then m = 0 \<and> p = 0 else (m, p) \<in> S \<and> b = mp_rate parent m p) \<and>
     (\<forall>(m, p) \<in> S. mp_rate parent m p \<le> rate \<longrightarrow> mp_rate parent m p \<le> b))"

text \<open>A search for the largest value of \<open>f\<close> that is not above the requested rate.\<close>

definition best_by :: "('a \<Rightarrow> u64) \<Rightarrow> u64 \<Rightarrow> 'a set \<Rightarrow> 'a \<Rightarrow> u64 \<times> 'a \<Rightarrow> bool" where
  "best_by f rate S z best \<longleftrightarrow> fst best \<le> rate \<and>
     (if fst best = 0 then snd best = z else snd best \<in> S \<and> fst best = f (snd best)) \<and>
     (\<forall>y \<in> S. f y \<le> rate \<longrightarrow> f y \<le> fst best)"

definition take_better :: "('a \<Rightarrow> u64) \<Rightarrow> u64 \<Rightarrow> 'a \<Rightarrow> u64 \<times> 'a \<Rightarrow> u64 \<times> 'a" where
  "take_better f rate y best =
     (if f y > rate then best else if rate - f y < rate - fst best then (f y, y) else best)"

lemma closer: "\<lbrakk>(a :: 'a::len word) \<le> r; b \<le> r\<rbrakk> \<Longrightarrow> r - a < r - b \<longleftrightarrow> b < a"
  by (auto simp: word_less_nat_alt word_le_nat_alt unat_sub)

lemma best_by_step:
  assumes "best_by f rate S z best"
  shows "best_by f rate (insert y S) z (take_better f rate y best)"
proof -
  have b: "fst best \<le> rate" using assms by (simp add: best_by_def)
  show ?thesis
  proof (cases "f y \<le> rate")
    case True
    then show ?thesis
      using assms closer [OF True b] by (auto simp: best_by_def take_better_def word_gt_0 split: if_splits)
  next
    case False
    then show ?thesis using assms by (auto simp: best_by_def take_better_def)
  qed
qed

lemma best_by_fold:
  "best_by f rate S z best \<Longrightarrow> best_by f rate (S \<union> set xs) z (fold (take_better f rate) xs best)"
proof (induction xs arbitrary: S best)
  case (Cons x xs)
  show ?case using Cons.IH [OF best_by_step [OF Cons.prems, of x]] by simp
qed simp

lemma best_by_none: "best_by f rate {} z (0, z)"
  by (simp add: best_by_def)

lemma best_of_by: "best_of parent rate S best \<longleftrightarrow> best_by (\<lambda>(m, p). mp_rate parent m p) rate S (0, 0) best"
  by (cases best) (auto simp: best_of_def best_by_def)

lemma mp_better_take: "(\<lambda>(m, p). mp_better parent rate p m) = take_better (\<lambda>(m, p). mp_rate parent m p) rate"
  by (auto simp: mp_better_def take_better_def mp_rate_def Let_def fun_eq_iff)

lemma word_zero_less_one: "0 < (1 :: u32)"
  by simp

lemma mp_m_loop_fold:
  assumes "p \<noteq> 0" "max_m < 0xFFFFFFFF"
  shows "0 < m \<Longrightarrow> \<exists>xs. set xs = {(n, p) |n. m \<le> n \<and> n \<le> max_m} \<and>
    mp_m_loop parent rate max_m p m best = Some (fold (\<lambda>(m, p). mp_better parent rate p m) xs best)"
proof (induction "unat (max_m + 1) - unat m" arbitrary: m best rule: less_induct)
  case less
  show ?case
  proof (cases "m \<le> max_m")
    case True
    have m1: "unat (m + 1) = unat m + 1" "unat (max_m + 1) = unat max_m + 1" 
      using assms(2) True by (auto simp: unat_word_ariths word_le_nat_alt word_less_nat_alt)
    then have "0 < m + 1" "unat (max_m + 1) - unat (m + 1) < unat (max_m + 1) - unat m"
      using True by (auto simp: word_less_nat_alt word_le_nat_alt)
    then obtain xs where xs: "set xs = {(n, p) |n. m + 1 \<le> n \<and> n \<le> max_m}"
      "mp_m_loop parent rate max_m p (m + 1) (mp_better parent rate p m best) =
        Some (fold (\<lambda>(m, p). mp_better parent rate p m) xs (mp_better parent rate p m best))"
      using less.hyps [of "m + 1" "mp_better parent rate p m best"] by blast
    have "n = m \<or> m + 1 \<le> n" if "m \<le> n" for n
      using that m1(1) by (auto simp: word_le_nat_alt word_unat_eq_iff)
    moreover have "m \<le> n" if "m + 1 \<le> n" for n using that m1(1) by (auto simp: word_le_nat_alt)
    ultimately have "set ((m, p) # xs) = {(n, p) |n. m \<le> n \<and> n \<le> max_m}" using xs(1) True by auto
    then show ?thesis
      using xs(2) True assms(1) less.prems
      by (intro exI [of _ "(m, p) # xs"]) (simp add: mp_m_loop.simps [of _ _ _ _ m])
  next
    case False
    then show ?thesis by (intro exI [of _ "[]"]) (auto simp: mp_m_loop.simps [of _ _ _ _ m])
  qed
qed

lemma mp_p_loop_fold:
  assumes "max_m < 0xFFFFFFFF" "unat max_p < 2 ^ 31"
  shows "k < 32 \<Longrightarrow> \<exists>xs. set xs = {(m, 2 ^ j) |m j. 1 \<le> m \<and> m \<le> max_m \<and> k \<le> j \<and> j < 32 \<and> 2 ^ j \<le> max_p} \<and>
    mp_p_loop parent rate max_m max_p (2 ^ k) best = Some (fold (\<lambda>(m, p). mp_better parent rate p m) xs best)"
proof (induction "32 - k" arbitrary: k best rule: less_induct)
  case less
  have u: "unat (2 ^ j :: u32) = 2 ^ j" if "j < 32" for j using that by (simp add: unat_two_power)
  show ?case
  proof (cases "(2 ^ k :: u32) \<le> max_p")
    case True
    have k: "k < 31"
    proof (rule ccontr)
      assume "\<not> k < 31"
      then have "k = 31" using less.prems by simp
      then show False using True u [of 31] assms(2) by (simp add: word_le_nat_alt)
    qed
    have p0: "(2 ^ k :: u32) \<noteq> 0" using u [of k] less.prems by (metis unat_0 power_not_zero zero_neq_numeral)
    obtain xs where xs: "set xs = {(n, 2 ^ k) |n. 1 \<le> n \<and> n \<le> max_m}"
      "mp_m_loop parent rate max_m (2 ^ k) 1 best = Some (fold (\<lambda>(m, p). mp_better parent rate p m) xs best)"
      using mp_m_loop_fold [OF p0 assms(1) word_zero_less_one] by blast
    obtain ys where ys: "set ys = {(m, 2 ^ j) |m j. 1 \<le> m \<and> m \<le> max_m \<and> Suc k \<le> j \<and> j < 32 \<and> 2 ^ j \<le> max_p}"
      "mp_p_loop parent rate max_m max_p (2 ^ Suc k) (fold (\<lambda>(m, p). mp_better parent rate p m) xs best) =
        Some (fold (\<lambda>(m, p). mp_better parent rate p m) ys (fold (\<lambda>(m, p). mp_better parent rate p m) xs best))"
    proof -
      have "32 - Suc k < 32 - k" "Suc k < 32" using k by simp_all
      from less.hyps [OF this, of "fold (\<lambda>(m, p). mp_better parent rate p m) xs best"] that show thesis by blast
    qed
    have "set (xs @ ys) = {(m, 2 ^ j) |m j. 1 \<le> m \<and> m \<le> max_m \<and> k \<le> j \<and> j < 32 \<and> 2 ^ j \<le> max_p}"
      using xs(1) ys(1) True less.prems le_eq_less_or_eq [of k] by (auto simp: Suc_le_eq)
    moreover have "push_bit 1 (2 ^ k :: u32) = 2 ^ Suc k" by (simp add: push_bit_eq_mult)
    ultimately show ?thesis
      using xs(2) ys(2) True
      by (intro exI [of _ "xs @ ys"]) (simp add: mp_p_loop.simps [of _ _ _ _ "2 ^ k"] del: power_Suc)
  next
    case False
    have "\<not> (2 ^ j :: u32) \<le> max_p" if "k \<le> j" "j < 32" for j
      using False power_increasing [OF that(1), of "2 :: nat"]
      unfolding word_le_nat_alt u [OF that(2)] u [OF less.prems] by linarith
    then show ?thesis using False by (intro exI [of _ "[]"]) (auto simp: mp_p_loop.simps [of _ _ _ _ "2 ^ k"])
  qed
qed

lemma ccu_mp_find_best_best:
  assumes "max_m < 0xFFFFFFFF" "unat max_p < 2 ^ 31"
  shows "\<exists>m p b. ccu_mp_find_best parent rate max_m max_p = Some (m, p) \<and>
    best_of parent rate (divisors max_m max_p) (b, m, p)"
proof -
  obtain xs where xs: "set xs = {(m, 2 ^ j) |m j. 1 \<le> m \<and> m \<le> max_m \<and> 0 \<le> j \<and> j < 32 \<and> 2 ^ j \<le> max_p}"
    "mp_p_loop parent rate max_m max_p (2 ^ 0) (0, 0, 0) = Some (fold (\<lambda>(m, p). mp_better parent rate p m) xs (0, 0, 0))"
  proof -
    have "(0 :: nat) < 32" by simp
    from mp_p_loop_fold [OF assms this, of parent rate "(0, 0, 0)"] that show thesis by blast
  qed
  have "set xs = divisors max_m max_p" using xs(1) by (auto simp: divisors_def)
  then have "best_of parent rate (divisors max_m max_p) (fold (\<lambda>(m, p). mp_better parent rate p m) xs (0, 0, 0))"
    using best_by_fold [OF best_by_none, of "\<lambda>(m, p). mp_rate parent m p" rate xs "(0, 0)"]
    by (simp add: best_of_by mp_better_take)
  then show ?thesis using xs(2)
    by (cases "fold (\<lambda>(m, p). mp_better parent rate p m) xs (0, 0, 0)") (auto simp: ccu_mp_find_best_def)
qed


section \<open>The register\<close>

lemma ilog2_values:
  "ilog2 0 = 0"
  "ilog2 1 = 0" "ilog2 2 = 1" "ilog2 4 = 2" "ilog2 8 = 3" "ilog2 16 = 4" "ilog2 32 = 5" "ilog2 64
  = 6" "ilog2 128 = 7" "ilog2 256 = 8" "ilog2 512 = 9" "ilog2 1024 = 10" "ilog2 2048 = 11" "ilog2
  4096 = 12" "ilog2 8192 = 13" "ilog2 16384 = 14" "ilog2 32768 = 15"
  by (simp_all add: ilog2_def)

lemma ilog2_power:
  assumes "k < 16"
  shows "ilog2 (2 ^ k) = of_nat k"
proof -
  have "k \<in> set [0..<16]" using assms by simp
  moreover have "\<forall>k \<in> set [0..<16]. ilog2 (2 ^ k) = of_nat k"
    by (simp add: upt_conv_Cons ilog2_values)
  ultimately show ?thesis by blast
qed

lemma GENMASK_mask:
  assumes "1 \<le> w" "sh + w \<le> 32"
  shows "GENMASK (w + sh - 1) sh = push_bit sh (mask w)"
proof -
  have e: "(- 1 - push_bit sh 1 + 1 :: u32) = NOT (mask sh)" "(0xffffffff :: u32) = mask 32"
    by (simp_all add: push_bit_eq_mult minus_exp_eq_not_mask) (simp add: mask_eq_decr_exp)
  show ?thesis
    unfolding GENMASK_def e
    by (rule bit_word_eqI) (use assms in \<open>auto simp: bit_simps\<close>)
qed

definition reg_at :: "'h clk_plat \<Rightarrow> ('h \<Rightarrow> u64 \<Rightarrow> u32) \<Rightarrow> bool" where
  "reg_at P cell \<longleftrightarrow> (\<forall>a h. ck_readl P a h = (cell h a, h)) \<and>
     (\<forall>a v h b. cell (ck_writel P v a h) b = (if b = a then v else cell h b))"

definition mp_plain :: "ccu_mp \<Rightarrow> bool" where
  "mp_plain c \<longleftrightarrow> co_features (mp_common c) = 0 \<and> dv_max (mp_m c) = 0 \<and> dv_max (mp_p c) = 0 \<and>
     dv_offset (mp_m c) = 1 \<and> 1 \<le> dv_width (mp_m c) \<and> 1 \<le> dv_width (mp_p c) \<and> dv_width (mp_p c) \<le> 4 \<and>
     dv_width (mp_m c) \<le> 31 \<and>
     dv_shift (mp_m c) + dv_width (mp_m c) \<le> dv_shift (mp_p c) \<and> dv_shift (mp_p c) + dv_width (mp_p c) \<le> 32"

lemma spi_clks_plain: "mp_plain spi0_clk" "mp_plain spi1_clk"
  by (simp_all add: mp_plain_def spi0_clk_def spi1_clk_def spi_mp_clk_def)

lemma apply_prediv_plain:
  "mp_plain c \<Longrightarrow> ccu_mux_helper_apply_prediv P (mp_common c) cm i rate h = Some (rate, h)"
  by (simp add: mp_plain_def ccu_mux_helper_apply_prediv_def ccu_mux_get_prediv_def has_feature_def)

lemma max_plain:
  assumes "mp_plain c"
  shows "mp_max_m c = 2 ^ dv_width (mp_m c)" "mp_max_p c = 2 ^ (2 ^ dv_width (mp_p c) - 1)"
    "mp_max_m c < 0xFFFFFFFF" "unat (mp_max_p c) < 2 ^ 31"
proof -
  show m: "mp_max_m c = 2 ^ dv_width (mp_m c)" and p: "mp_max_p c = 2 ^ (2 ^ dv_width (mp_p c) - 1)"
    using assms by (simp_all add: mp_plain_def mp_max_m_def mp_max_p_def push_bit_eq_mult)
  have "dv_width (mp_m c) \<le> 31" using assms by (simp add: mp_plain_def)
  then have "(2 :: nat) ^ dv_width (mp_m c) \<le> 2 ^ 31" by (intro power_increasing) simp_all
  then show "mp_max_m c < 0xFFFFFFFF"
    using \<open>_ \<le> 31\<close> by (simp add: m word_less_nat_alt unat_two_power)
  have "(2 :: nat) ^ dv_width (mp_p c) \<le> 2 ^ 4" using assms by (intro power_increasing) (simp_all add: mp_plain_def)
  then have "2 ^ dv_width (mp_p c) - 1 \<le> (15 :: nat)" by simp
  then have "(2 :: nat) ^ (2 ^ dv_width (mp_p c) - 1) \<le> 2 ^ 15" by (intro power_increasing) simp_all
  then show "unat (mp_max_p c) < 2 ^ 31"
    using \<open>_ - 1 \<le> 15\<close> by (simp add: p unat_two_power)
qed


lemma field_of_get: "field_of sh w r = get_field sh w r"
  by (simp add: field_of_def get_field_def push_bit_eq_mult mask_eq_decr_exp)

lemma put_two_fields:
  assumes "v AND mask w = v" "sh + w \<le> sh'" "v' AND mask w' = v'" "sh' + w' \<le> 32"
  shows "((r AND NOT (push_bit sh (mask w))) AND NOT (push_bit sh' (mask w')) OR push_bit sh v) OR push_bit sh' v' =
    put_field sh' w' v' (put_field sh w v r)"
proof (rule bit_word_eqI)
  fix n assume "n < LENGTH(32)"
  then show "bit (((r AND NOT (push_bit sh (mask w))) AND NOT (push_bit sh' (mask w')) OR push_bit sh v) OR push_bit sh' v') n =
      bit (put_field sh' w' v' (put_field sh w v r)) n"
    using fits_bit [OF assms(1), of "n - sh"] assms(2) by (auto simp: put_field_def bit_simps)
qed

lemma mask_less: "unat (v :: u32) < 2 ^ w \<Longrightarrow> v AND mask w = v"
  by (simp only: take_bit_eq_mask [symmetric]) (simp add: word_unat_eq_iff unat_take_bit)

text \<open>
  Setting the rate: the register gets the dividers of the best rate that is not above the
  requested one, and nothing else changes; reading the rate back gives it.
\<close>

lemma ccu_mp_set_rate_plain:
  assumes c: "mp_plain c" and P: "reg_at P cell"
    and some: "\<exists>(m, p) \<in> divisors (mp_max_m c) (mp_max_p c). 0 < mp_rate parent m p \<and> mp_rate parent m p \<le> rate"
  shows "\<exists>h' r. ccu_mp_set_rate P c rate parent h = Some (0, h') \<and> ccu_mp_recalc_rate P c parent h' = Some (r, h') \<and>
    r \<le> rate \<and> (\<forall>(m, p) \<in> divisors (mp_max_m c) (mp_max_p c). mp_rate parent m p \<le> rate \<longrightarrow> mp_rate parent m p \<le> r) \<and>
    (\<exists>m p. cell h' = (cell h)(co_addr (mp_common c) :=
       put_field (dv_shift (mp_p c)) (dv_width (mp_p c)) p
         (put_field (dv_shift (mp_m c)) (dv_width (mp_m c)) m (cell h (co_addr (mp_common c))))) \<and>
       m AND mask (dv_width (mp_m c)) = m \<and> p AND mask (dv_width (mp_p c)) = p)"
proof -
  let ?a = "co_addr (mp_common c)"
  let ?sm = "dv_shift (mp_m c)" and ?wm = "dv_width (mp_m c)" and ?sp = "dv_shift (mp_p c)" and ?wp = "dv_width (mp_p c)"
  obtain m p b where fb: "ccu_mp_find_best parent rate (mp_max_m c) (mp_max_p c) = Some (m, p)"
    "best_of parent rate (divisors (mp_max_m c) (mp_max_p c)) (b, m, p)"
    using ccu_mp_find_best_best [OF max_plain(3,4) [OF c]] by blast
  have "b \<noteq> 0" using fb(2) some by (auto simp: best_of_def word_le_nat_alt word_less_nat_alt)
  then have mp: "(m, p) \<in> divisors (mp_max_m c) (mp_max_p c)" "b = mp_rate parent m p" "b \<le> rate"
    and best: "\<forall>(m, p) \<in> divisors (mp_max_m c) (mp_max_p c). mp_rate parent m p \<le> rate \<longrightarrow> mp_rate parent m p \<le> b"
    using fb(2) by (auto simp: best_of_def)
  have b: "1 \<le> ?wm" "?wm \<le> 31" "1 \<le> ?wp" "?wp \<le> 4" "?sm + ?wm \<le> ?sp" "?sp + ?wp \<le> 32" "dv_offset (mp_m c) = 1"
    using c by (simp_all add: mp_plain_def)
  obtain k where k: "k < 32" "p = 2 ^ k" "p \<le> mp_max_p c" using mp(1) by (auto simp: divisors_def)
  have "(2 :: nat) ^ ?wp \<le> 2 ^ 4" using b(4) by (intro power_increasing) simp_all
  then have e: "2 ^ ?wp - 1 < (32 :: nat)" "2 ^ ?wp \<le> (16 :: nat)" by simp_all
  have "(2 :: nat) ^ k \<le> 2 ^ (2 ^ ?wp - 1)"
    using k(3) e(1) k(1) by (simp add: k(2) max_plain(2) [OF c] word_le_nat_alt unat_two_power)
  then have "k \<le> 2 ^ ?wp - 1" using power_increasing_iff [of "2 :: nat"] by simp
  moreover have "0 < (2 :: nat) ^ ?wp" by simp
  ultimately have kw: "k < 2 ^ ?wp" by linarith
  then have k16: "k < 16" using e(2) by linarith
  with kw have pf: "ilog2 p AND mask ?wp = ilog2 p" "unat (ilog2 p) = k"
    using k16 by (simp_all add: k(2) ilog2_power mask_less unat_of_nat)
  have mb: "1 \<le> unat m" "unat m \<le> 2 ^ ?wm"
    using mp(1) b(2) by (simp_all add: divisors_def max_plain(1) [OF c] word_le_nat_alt unat_two_power)
  then have mf: "(m - 1) AND mask ?wm = m - 1" by (intro mask_less) (simp add: unat_sub word_le_nat_alt)
  let ?r = "put_field ?sp ?wp (ilog2 p) (put_field ?sm ?wm (m - 1) (cell h ?a))"
  have gm: "GENMASK (?wm + ?sm - Suc 0) ?sm = push_bit ?sm (mask ?wm)"
    "GENMASK (?wp + ?sp - Suc 0) ?sp = push_bit ?sp (mask ?wp)"
    using GENMASK_mask [of ?wm ?sm] GENMASK_mask [of ?wp ?sp] b by simp_all
  have s: "ccu_mp_set_rate P c rate parent h = Some (0, ck_writel P ?r ?a h)"
    using P c by (simp add: ccu_mp_set_rate_def apply_prediv_plain has_feature_def mp_plain_def fb(1) reg_at_def
      gm put_two_fields [OF mf b(5) pf(1) b(6), symmetric] Let_def)
  have g: "field_of ?sm ?wm ?r = m - 1" "field_of ?sp ?wp ?r = ilog2 p"
    using b mf pf(1) by (simp_all add: field_of_get get_put_field get_put_other)
  have "m \<noteq> 0" using mb(1) by auto
  moreover have "drop_bit k parent = parent div ucast p"
  proof -
    have "ucast (2 ^ k :: u32) = (2 ^ k :: u64)" by (rule bit_word_eqI) (use k(1) in \<open>auto simp: bit_simps\<close>)
    then show ?thesis by (simp add: k(2) drop_bit_eq_div)
  qed
  ultimately have q: "ccu_mp_recalc_rate P c parent (ck_writel P ?r ?a h) = Some (b, ck_writel P ?r ?a h)"
    using P c b by (simp add: ccu_mp_recalc_rate_def apply_prediv_plain has_feature_def mp_plain_def reg_at_def g pf(2)
      mp(2) mp_rate_def Let_def)
  have "cell (ck_writel P ?r ?a h) = (cell h)(?a := ?r)" using P by (auto simp: reg_at_def)
  then show ?thesis using s q mp(3) best mf pf(1) by blast
qed


text \<open>
  When every rate the dividers can give is above the requested one (or zero), the loops leave
  \<open>m\<close> and \<open>p\<close> at zero and the code writes \<open>0 - 1\<close> over the fields above the divider.
\<close>

lemma ccu_mp_set_rate_too_low:
  assumes c: "mp_plain c" and P: "reg_at P cell" and sh: "dv_shift (mp_m c) = 0"
    and none: "\<forall>(m, p) \<in> divisors (mp_max_m c) (mp_max_p c). mp_rate parent m p = 0 \<or> rate < mp_rate parent m p"
  shows "\<exists>h'. ccu_mp_set_rate P c rate parent h = Some (0, h') \<and> cell h' (co_addr (mp_common c)) = 0xFFFFFFFF"
proof -
  let ?a = "co_addr (mp_common c)"
  obtain m p b where fb: "ccu_mp_find_best parent rate (mp_max_m c) (mp_max_p c) = Some (m, p)"
    "best_of parent rate (divisors (mp_max_m c) (mp_max_p c)) (b, m, p)"
    using ccu_mp_find_best_best [OF max_plain(3,4) [OF c]] by blast
  have "b = 0" using fb(2) none by (auto simp: best_of_def split: if_splits)
  then have mp: "m = 0" "p = 0" using fb(2) by (simp_all add: best_of_def)
  have o: "(x :: u32) OR - 1 = - 1" for x by simp
  have "ccu_mp_set_rate P c rate parent h = Some (0, ck_writel P (- 1) ?a h)"
    using P c by (simp add: ccu_mp_set_rate_def apply_prediv_plain has_feature_def mp_plain_def fb(1) reg_at_def
      mp sh ilog2_values(1) o Let_def)
  moreover have "cell (ck_writel P (- 1) ?a h) ?a = 0xFFFFFFFF" using P by (simp add: reg_at_def)
  ultimately show ?thesis by blast
qed

end
