(* ===== verification/Ccu_Core_Ok.thy ===== *)
theory Ccu_Core_Ok
  imports Ccu_Core Ccu_Mp_Ok
begin

unbundle bit_operations_syntax

text \<open>
  The clock framework keeps each gate open exactly as long as the clock or one below it is in use.
  \<open>clk_gates\<close> is the contract of the hardware's switches, on which the counting of
  \<open>clk_core_enable\<close> and \<open>clk_core_disable\<close> is proved; gates in the registers of the clock
  controller that do not overlap meet it.
\<close>


section \<open>Counting\<close>

text \<open>
  The arithmetic of the counters: each clock is held once per use of its own and once per child
  that is itself held.
\<close>

type_synonym counts = "nat \<Rightarrow> nat"

definition held_by :: "nat set \<Rightarrow> (nat \<Rightarrow> nat option) \<Rightarrow> counts \<Rightarrow> nat \<Rightarrow> nat set" where
  "held_by D par n c = {d \<in> D. par d = Some c \<and> 0 < n d}"

definition balanced :: "nat set \<Rightarrow> (nat \<Rightarrow> nat option) \<Rightarrow> counts \<Rightarrow> counts \<Rightarrow> bool" where
  "balanced D par n u \<longleftrightarrow> (\<forall>c \<in> D. n c = u c + card (held_by D par n c))"

definition bump :: "nat option \<Rightarrow> counts \<Rightarrow> counts" where
  "bump p u = (case p of None \<Rightarrow> u | Some p \<Rightarrow> u(p := u p + 1))"

lemma held_by_switch:
  assumes "finite D" "c \<in> D" "n c = 0" "0 < k"
  shows "card (held_by D par (n(c := k)) d) = card (held_by D par n d) + (if par c = Some d then 1 else 0)"
proof (cases "par c = Some d")
  case True
  have "held_by D par (n(c := k)) d = insert c (held_by D par n d)" "c \<notin> held_by D par n d"
    using assms True by (auto simp: held_by_def)
  moreover have "finite (held_by D par n d)" using assms(1) by (simp add: held_by_def)
  ultimately show ?thesis using True by simp
next
  case False
  then have "held_by D par (n(c := k)) d = held_by D par n d" using assms by (auto simp: held_by_def)
  then show ?thesis using False by simp
qed

lemma held_by_same:
  "\<lbrakk>0 < n c; 0 < k\<rbrakk> \<Longrightarrow> held_by D par (n(c := k)) d = held_by D par n d"
  by (auto simp: held_by_def)

lemma balanced_first:
  assumes "balanced D par n (bump (par c) u)" "finite D" "c \<in> D" "n c = 0" "par c \<noteq> Some c"
  shows "balanced D par (n(c := 1)) (u(c := u c + 1))"
proof -
  have "n d = bump (par c) u d + card (held_by D par n d)" if "d \<in> D" for d
    using assms(1) that by (simp add: balanced_def)
  then show ?thesis
    using assms(3-5) held_by_switch [OF assms(2) assms(3), of n 1] assms(4)
    by (auto simp: balanced_def bump_def split: option.splits if_splits)
qed

lemma balanced_last:
  assumes "balanced D par n u" "finite D" "c \<in> D" "n c = 1" "0 < u c" "par c \<noteq> Some c"
  shows "balanced D par (n(c := 0)) (bump (par c) (u(c := u c - 1)))"
proof -
  have e: "n d = u d + card (held_by D par n d)" if "d \<in> D" for d
    using assms(1) that by (simp add: balanced_def)
  have "card (held_by D par n d) = card (held_by D par (n(c := 0)) d) + (if par c = Some d then 1 else 0)" for d
    using held_by_switch [OF assms(2,3), of "n(c := 0)" 1] assms(4) by (simp add: fun_upd_idem)
  then show ?thesis
    using e assms(3-6) by (auto simp: balanced_def bump_def split: option.splits)
qed

lemma balanced_more:
  assumes "balanced D par n u" "0 < n c"
  shows "balanced D par (n(c := n c + 1)) (u(c := u c + 1))"
  using assms by (auto simp: balanced_def held_by_same)

lemma balanced_fewer:
  assumes "balanced D par n u" "1 < n c" "0 < u c"
  shows "balanced D par (n(c := n c - 1)) (u(c := u c - 1))"
  using assms by (auto simp: balanced_def held_by_same)

text \<open>A clock is held exactly when it or a clock below it is in use.\<close>

inductive below :: "(nat \<Rightarrow> nat option) \<Rightarrow> nat \<Rightarrow> nat \<Rightarrow> bool" for par where
  below_self: "below par c c"
| below_parent: "below par d c \<Longrightarrow> par c = Some p \<Longrightarrow> below par d p"

code_pred below .

lemma balanced_held:
  assumes "balanced D par n u" "finite D" "c \<in> D" "\<And>d p. d \<in> D \<Longrightarrow> par d = Some p \<Longrightarrow> p \<in> D"
    and rank: "\<And>d p. d \<in> D \<Longrightarrow> par d = Some p \<Longrightarrow> rank p < (rank d :: nat)"
  shows "0 < n c \<longleftrightarrow> (\<exists>d \<in> D. 0 < u d \<and> below par d c)"
proof
  have e: "n d = u d + card (held_by D par n d)" if "d \<in> D" for d
    using assms(1) that by (simp add: balanced_def)
  have up: "0 < n p" if "d \<in> D" "0 < n d" "par d = Some p" for d p
  proof -
    have "d \<in> held_by D par n p" "finite (held_by D par n p)" using that assms(2) by (simp_all add: held_by_def)
    then have "0 < card (held_by D par n p)" by (auto simp: card_gt_0_iff)
    then show ?thesis using e [OF assms(4) [OF that(1,3)]] by simp
  qed
  have "0 < n c" if "below par d c" "d \<in> D" "0 < u d" for d
  proof -
    have "c \<in> D \<and> 0 < n c"
      using that by (induction rule: below.induct) (use e up assms(4) in auto)
    then show ?thesis by blast
  qed
  then show "\<exists>d \<in> D. 0 < u d \<and> below par d c \<Longrightarrow> 0 < n c" by blast
  have "\<exists>d \<in> D. 0 < u d \<and> below par d c" if "c \<in> D" "0 < n c" "k = Max (rank ` D) - rank c" for k c
    using that
  proof (induction k arbitrary: c rule: less_induct)
    case (less k)
    show ?case
    proof (cases "0 < u c")
      case True then show ?thesis using less.prems(1) below_self by blast
    next
      case False
      then have "held_by D par n c \<noteq> {}" using e less.prems by fastforce
      then obtain d where d: "d \<in> D" "par d = Some c" "0 < n d" by (auto simp: held_by_def)
      have "rank d \<le> Max (rank ` D)" using d(1) assms(2) by simp
      then have "Max (rank ` D) - rank d < k" using rank [OF d(1,2)] less.prems(3) by linarith
      then obtain x where "x \<in> D" "0 < u x" "below par x d" using less.IH d(1,3) by blast
      then show ?thesis using below_parent d(2) by blast
    qed
  qed
  then show "0 < n c \<Longrightarrow> \<exists>d \<in> D. 0 < u d \<and> below par d c" using assms(3) by blast
qed


section \<open>Clocks that drive gates\<close>

text \<open>
  \<open>held\<close>: the counters of the cores. \<open>clk_tree\<close>: the parents of registered clocks are registered,
  and no clock is above itself. \<open>clk_driven\<close>: the counters of the registered clocks are the uses
  \<open>u\<close> of each clock and the children held, and the gate of a clock is open exactly when its counter
  is not zero.
\<close>

definition held :: "'h clks \<Rightarrow> counts" where
  "held s = (\<lambda>c. unat (cc_enable_count (cores s c)))"

definition parent_of :: "'h clks \<Rightarrow> nat \<Rightarrow> nat option" where
  "parent_of s = (\<lambda>c. cc_parent (cores s c))"

definition clk_tree :: "(nat \<Rightarrow> nat) \<Rightarrow> 'h clks \<Rightarrow> bool" where
  "clk_tree rank s \<longleftrightarrow> (\<forall>c \<in> set (clk_root_list s). case parent_of s c of
     None \<Rightarrow> True | Some p \<Rightarrow> p \<in> set (clk_root_list s) \<and> rank p < rank c)"

text \<open>
  \<open>switched\<close>: the operations of a clock are those of its gate; a clock without a gate has none, or
  operations that do nothing.
\<close>

definition switched :: "('h \<Rightarrow> int \<times> 'h) option \<Rightarrow> ('h \<Rightarrow> 'h) option \<Rightarrow> 'h clk_ops \<Rightarrow> bool" where
  "switched en dis ops \<longleftrightarrow> op_enable ops = en \<and> op_disable ops = dis \<or>
     en = None \<and> dis = None \<and> (\<forall>f h. op_enable ops = Some f \<longrightarrow> f h = (0, h)) \<and>
       (\<forall>g h. op_disable ops = Some g \<longrightarrow> g h = h)"

definition clk_driven :: "(nat \<Rightarrow> ('h \<Rightarrow> int \<times> 'h) option) \<Rightarrow> (nat \<Rightarrow> ('h \<Rightarrow> 'h) option) \<Rightarrow>
    (nat \<Rightarrow> 'h \<Rightarrow> bool) \<Rightarrow> (nat \<Rightarrow> nat) \<Rightarrow> 'h clks \<Rightarrow> counts \<Rightarrow> bool" where
  "clk_driven en dis on rank s u \<longleftrightarrow> clk_tree rank s \<and>
     (\<forall>c \<in> set (clk_root_list s). switched (en c) (dis c) (cc_ops (cores s c)) \<and>
        (en c \<noteq> None \<longrightarrow> on c (ck_hw s) = (0 < held s c))) \<and>
     balanced (set (clk_root_list s)) (parent_of s) (held s) u"

definition same_clks :: "'h clks \<Rightarrow> 'h clks \<Rightarrow> bool" where
  "same_clks s s' \<longleftrightarrow> clk_root_list s' = clk_root_list s \<and>
     (\<forall>d. cores s' d = (cores s d)\<lparr>cc_enable_count := cc_enable_count (cores s' d)\<rparr>)"

lemma same_clks_trans: "same_clks s s' \<Longrightarrow> same_clks s' s'' \<Longrightarrow> same_clks s s''"
  unfolding same_clks_def by (metis clk_core.surjective clk_core.update_convs(10))

lemma same_clks_parent: "same_clks s s' \<Longrightarrow> parent_of s' = parent_of s"
  unfolding same_clks_def parent_of_def by (rule ext) (metis clk_core.select_convs(6) clk_core.surjective clk_core.update_convs(10))

lemma same_clks_ops: "same_clks s s' \<Longrightarrow> cc_ops (cores s' c) = cc_ops (cores s c)"
  unfolding same_clks_def by (metis clk_core.select_convs(2) clk_core.surjective clk_core.update_convs(10))

lemma clk_drivenI:
  assumes "clk_driven en dis on rank s u" "same_clks s s'"
    "balanced (set (clk_root_list s)) (parent_of s) (held s') u'"
    "\<And>c. c \<in> set (clk_root_list s) \<Longrightarrow> en c \<noteq> None \<Longrightarrow> on c (ck_hw s') = (0 < held s' c)"
  shows "clk_driven en dis on rank s' u'"
proof -
  have "clk_root_list s' = clk_root_list s" using assms(2) by (simp add: same_clks_def)
  then show ?thesis
    using assms same_clks_parent [OF assms(2)] same_clks_ops [OF assms(2)]
    by (simp add: clk_driven_def clk_tree_def cong: option.case_cong)
qed

lemma same_clks_upd [simp]: "same_clks s (upd_core c (\<lambda>x. x\<lparr>cc_enable_count := k x\<rparr>) s)" "same_clks s (s\<lparr>ck_hw := h\<rparr>)" "same_clks s s"
  by (simp_all add: same_clks_def upd_core_def)

lemma held_upd [simp]: "held (s\<lparr>ck_hw := h\<rparr>) = held s"
  "held (upd_core c f s) = (held s)(c := unat (cc_enable_count (f (cores s c))))"
  by (auto simp: held_def upd_core_def)

lemma hw_upd [simp]: "ck_hw (upd_core c f s) = ck_hw s" "clk_root_list (upd_core c f s) = clk_root_list s"
  "d \<noteq> c \<Longrightarrow> cores (upd_core c f s) d = cores s d" "cores (upd_core c f s) c = f (cores s c)"
  by (simp_all add: upd_core_def)

locale clk_gates =
  fixes en :: "nat \<Rightarrow> ('h \<Rightarrow> int \<times> 'h) option" and dis :: "nat \<Rightarrow> ('h \<Rightarrow> 'h) option" and on :: "nat \<Rightarrow> 'h \<Rightarrow> bool"
    and frame :: "'h \<Rightarrow> 'f"
  assumes opens: "en c = Some f \<Longrightarrow> \<exists>h'. f h = (0, h') \<and> on c h' \<and> (\<forall>d. d \<noteq> c \<longrightarrow> on d h' = on d h) \<and> frame h' = frame h"
    and closes: "dis c = Some g \<Longrightarrow> \<not> on c (g h) \<and> (\<forall>d. d \<noteq> c \<longrightarrow> on d (g h) = on d h) \<and> frame (g h) = frame h"
    and both: "en c = None \<longleftrightarrow> dis c = None"
begin

lemma run_enable_opens:
  assumes "switched (en c) (dis c) (cc_ops (cores s c))"
  shows "\<exists>h'. run_enable c s = (0, s\<lparr>ck_hw := h'\<rparr>) \<and> (en c \<noteq> None \<longrightarrow> on c h') \<and> (\<forall>d. d \<noteq> c \<longrightarrow> on d h' = on d (ck_hw s)) \<and>
    frame h' = frame (ck_hw s)"
proof (cases "en c")
  case None
  then show ?thesis using assms
    by (intro exI [of _ "ck_hw s"]) (auto simp: switched_def run_enable_def split: option.splits)
next
  case (Some f)
  then show ?thesis using opens [OF Some, of "ck_hw s"] assms by (auto simp: switched_def run_enable_def)
qed

lemma run_disable_closes:
  assumes "switched (en c) (dis c) (cc_ops (cores s c))"
  shows "\<exists>h'. run_disable c s = s\<lparr>ck_hw := h'\<rparr> \<and> (en c \<noteq> None \<longrightarrow> \<not> on c h') \<and> (\<forall>d. d \<noteq> c \<longrightarrow> on d h' = on d (ck_hw s)) \<and>
    frame h' = frame (ck_hw s)"
proof (cases "dis c")
  case None
  then show ?thesis using assms both [of c]
    by (intro exI [of _ "ck_hw s"]) (auto simp: switched_def run_disable_def split: option.splits)
next
  case (Some f)
  then show ?thesis using closes [OF Some, of "ck_hw s"] assms by (auto simp: switched_def run_disable_def)
qed

lemma enable_counts:
  assumes "clk_driven en dis on rank s u" "c \<in> set (clk_root_list s)"
    "\<forall>d \<in> set (clk_root_list s). held s d < 2 ^ 32 - 1"
  shows "\<exists>s'. clk_core_enable (Some c) s = Some (0, s') \<and> clk_driven en dis on rank s' (u(c := u c + 1)) \<and>
    same_clks s s' \<and> (\<forall>d. rank c < rank d \<longrightarrow> held s' d = held s d) \<and> frame (ck_hw s') = frame (ck_hw s) \<and>
    (\<forall>d. d \<notin> set (clk_root_list s) \<longrightarrow> on d (ck_hw s') = on d (ck_hw s))"
  using assms
proof (induction "rank c" arbitrary: c s u rule: less_induct)
  case less
  let ?D = "set (clk_root_list s)"
  have top: "unat (cc_enable_count (cores s c) + 1) = held s c + 1"
    using less.prems(2,3) by (auto simp: held_def unat_word_ariths(1))
  show ?case
  proof (cases "held s c = 0")
    case False
    have "clk_driven en dis on rank (count_up c s) (u(c := u c + 1))"
      by (rule clk_drivenI [OF less.prems(1)])
        (use less.prems(1) False in \<open>auto simp: count_up_def top clk_driven_def balanced_more [simplified]\<close>)
    then show ?thesis using False less.prems(2)
      by (subst clk_core_enable.simps) (auto simp: held_def count_up_def same_clks_def upd_core_def)
  next
    case True
    have par: "\<And>p. parent_of s c = Some p \<Longrightarrow> p \<in> ?D \<and> rank p < rank c"
      using less.prems(1,2) by (auto simp: clk_driven_def clk_tree_def split: option.splits)
    obtain s1 where s1: "clk_core_enable (parent_of s c) s = Some (0, s1)"
      "clk_driven en dis on rank s1 (bump (parent_of s c) u)" "same_clks s s1"
      "\<forall>d. rank c \<le> rank d \<longrightarrow> held s1 d = held s d" "frame (ck_hw s1) = frame (ck_hw s)"
      "\<forall>d. d \<notin> ?D \<longrightarrow> on d (ck_hw s1) = on d (ck_hw s)"
    proof (cases "parent_of s c")
      case None
      then show ?thesis using that [of s] less.prems(1) by (simp add: bump_def clk_core_enable.simps)
    next
      case (Some p)
      then have "rank p < rank c" "p \<in> ?D" using par by simp_all
      then obtain s1 where "clk_core_enable (Some p) s = Some (0, s1)" "clk_driven en dis on rank s1 (u(p := u p + 1))"
        "same_clks s s1" "\<forall>d. rank p < rank d \<longrightarrow> held s1 d = held s d" "frame (ck_hw s1) = frame (ck_hw s)"
        "\<forall>d. d \<notin> ?D \<longrightarrow> on d (ck_hw s1) = on d (ck_hw s)"
        using less.hyps [of p s u] less.prems(1,3) by blast
      then show ?thesis using that [of s1] Some \<open>rank p < rank c\<close> by (simp add: bump_def)
    qed
    have D: "set (clk_root_list s1) = ?D" "cc_ops (cores s1 c) = cc_ops (cores s c)" "parent_of s1 = parent_of s"
      using s1(3) same_clks_ops [OF s1(3)] same_clks_parent [OF s1(3)] by (simp_all add: same_clks_def)
    have "switched (en c) (dis c) (cc_ops (cores s1 c))"
      using less.prems(1,2) D(2) by (simp add: clk_driven_def)
    then obtain h' where h': "run_enable c s1 = (0, s1\<lparr>ck_hw := h'\<rparr>)" "en c \<noteq> None \<longrightarrow> on c h'"
      "\<forall>d. d \<noteq> c \<longrightarrow> on d h' = on d (ck_hw s1)" "frame h' = frame (ck_hw s1)"
      using run_enable_opens by blast
    let ?s' = "count_up c (s1\<lparr>ck_hw := h'\<rparr>)"
    have z: "held s1 c = 0" using s1(4) True by simp
    then have z': "cc_enable_count (cores s1 c) = 0" by (simp add: held_def word_unat_eq_iff)
    have "clk_driven en dis on rank ?s' (u(c := u c + 1))"
    proof (rule clk_drivenI [OF s1(2)])
      show "same_clks s1 ?s'" by (simp add: count_up_def same_clks_def upd_core_def)
      have "balanced ?D (parent_of s) ((held s1)(c := 1)) (u(c := u c + 1))"
        by (rule balanced_first) (use s1(2) D less.prems(2) par z in \<open>auto simp: clk_driven_def\<close>)
      then show "balanced (set (clk_root_list s1)) (parent_of s1) (held ?s') (u(c := u c + 1))"
        using z' by (simp add: D count_up_def)
      show "on d (ck_hw ?s') = (0 < held ?s' d)" if "d \<in> set (clk_root_list s1)" "en d \<noteq> None" for d
        using s1(2) h' that z' by (cases "d = c") (auto simp: clk_driven_def count_up_def)
    qed
    moreover have "cc_enable_count (cores s c) = 0" using True by (simp add: held_def word_unat_eq_iff)
    then have "clk_core_enable (Some c) s = Some (0, ?s')"
      using s1(1) h'(1) by (subst clk_core_enable.simps) (simp add: parent_of_def)
    moreover have "same_clks s ?s'"
      by (rule same_clks_trans [OF s1(3)]) (simp add: count_up_def same_clks_def upd_core_def)
    moreover have "\<forall>d. d \<notin> ?D \<longrightarrow> on d (ck_hw ?s') = on d (ck_hw s)"
      using s1(6) h'(3) less.prems(2) by (auto simp: count_up_def)
    ultimately show ?thesis using s1(4,5) h'(4) by (intro exI [of _ ?s']) (auto simp: count_up_def)
  qed
qed

lemma disable_counts:
  assumes "clk_driven en dis on rank s u" "c \<in> set (clk_root_list s)" "0 < u c"
  shows "\<exists>s'. clk_core_disable (Some c) s = Some (0, s') \<and> clk_driven en dis on rank s' (u(c := u c - 1)) \<and>
    same_clks s s' \<and> frame (ck_hw s') = frame (ck_hw s)"
  using assms
proof (induction "rank c" arbitrary: c s u rule: less_induct)
  case less
  let ?D = "set (clk_root_list s)" and ?s = "upd_core c (\<lambda>x. x\<lparr>cc_enable_count := cc_enable_count x - 1\<rparr>) s"
  have pos: "0 < held s c" using less.prems by (fastforce simp: clk_driven_def balanced_def)
  then have dec: "unat (cc_enable_count (cores s c) - 1) = held s c - 1" "cc_enable_count (cores s c) \<noteq> 0"
    by (auto simp: held_def unat_sub word_le_nat_alt Suc_le_eq)
  have hs: "held ?s = (held s)(c := held s c - 1)" by (simp add: dec(1))
  have cnt: "cc_enable_count (cores ?s c) > 0 \<longleftrightarrow> 1 < held s c"
    using dec(1) by (simp add: word_less_nat_alt)
  show ?case
  proof (cases "1 < held s c")
    case True
    have "clk_driven en dis on rank ?s (u(c := u c - 1))"
      by (rule clk_drivenI [OF less.prems(1)])
        (use less.prems True hs balanced_fewer in \<open>auto simp: clk_driven_def\<close>)
    then show ?thesis using True cnt dec(2) by (subst clk_core_disable.simps) (auto simp: Let_def)
  next
    case False
    have par: "\<And>p. parent_of s c = Some p \<Longrightarrow> p \<in> ?D \<and> rank p < rank c"
      using less.prems(1,2) by (auto simp: clk_driven_def clk_tree_def split: option.splits)
    have "switched (en c) (dis c) (cc_ops (cores ?s c))" using less.prems(1,2) by (simp add: clk_driven_def)
    then obtain h' where h': "run_disable c ?s = ?s\<lparr>ck_hw := h'\<rparr>" "en c \<noteq> None \<longrightarrow> \<not> on c h'"
      "\<forall>d. d \<noteq> c \<longrightarrow> on d h' = on d (ck_hw s)" "frame h' = frame (ck_hw s)"
      using run_disable_closes by fastforce
    let ?s1 = "?s\<lparr>ck_hw := h'\<rparr>" and ?u = "u(c := u c - 1)"
    have z: "held s c = 1" using False pos by simp
    have same: "same_clks s ?s1" by (simp add: same_clks_def upd_core_def)
    have d1: "clk_driven en dis on rank ?s1 (bump (parent_of s c) ?u)"
    proof (rule clk_drivenI [OF less.prems(1) same])
      have "balanced ?D (parent_of s) ((held s)(c := 0)) (bump (parent_of s c) ?u)"
        by (rule balanced_last) (use less.prems par z in \<open>auto simp: clk_driven_def\<close>)
      then show "balanced ?D (parent_of s) (held ?s1) (bump (parent_of s c) ?u)" using hs z by simp
      show "on d (ck_hw ?s1) = (0 < held ?s1 d)" if "d \<in> ?D" "en d \<noteq> None" for d
        using less.prems(1) h' that hs z by (cases "d = c") (auto simp: clk_driven_def)
    qed
    have rest: "clk_core_disable (Some c) s = (do { (_, s) \<leftarrow> clk_core_disable (parent_of s c) ?s1; Some (0, s) })"
      using False cnt dec(2) h'(1) by (subst clk_core_disable.simps) (simp add: Let_def parent_of_def)
    show ?thesis
    proof (cases "parent_of s c")
      case None
      then show ?thesis using rest d1 same h'(4) by (simp add: bump_def clk_core_disable.simps)
    next
      case (Some p)
      have p: "p \<in> ?D" "rank p < rank c" using par [OF Some] by simp_all
      have b: "bump (Some p) ?u = ?u(p := ?u p + 1)" by (simp add: bump_def)
      have up: "0 < bump (Some p) ?u p" by (simp add: bump_def)
      obtain s' where s': "clk_core_disable (Some p) ?s1 = Some (0, s')"
        "clk_driven en dis on rank s' ((bump (Some p) ?u)(p := bump (Some p) ?u p - 1))" "same_clks ?s1 s'" "frame (ck_hw s') = frame (ck_hw ?s1)"
        using less.hyps [OF p(2), of ?s1 "bump (Some p) ?u"] d1 Some p(1) up by auto
      have "(bump (Some p) ?u)(p := bump (Some p) ?u p - 1) = ?u" by (auto simp: bump_def fun_eq_iff)
      then show ?thesis using rest Some s' h'(4) same_clks_trans [OF same s'(3)] by simp
    qed
  qed
qed

end


lemma held_le:
  assumes "clk_driven en dis on rank s u" "d \<in> set (clk_root_list s)"
  shows "held s d \<le> u d + length (clk_root_list s)"
proof -
  let ?H = "held_by (set (clk_root_list s)) (parent_of s) (held s) d"
  have "card ?H \<le> card (set (clk_root_list s))" by (intro card_mono) (auto simp: held_by_def)
  also have "\<dots> \<le> length (clk_root_list s)" by (rule card_length)
  finally show ?thesis using assms by (simp add: clk_driven_def balanced_def)
qed


section \<open>Sequences of calls\<close>

datatype clk_call = Clk_enable nat | Clk_disable nat

fun run_clk_calls :: "clk_call list \<Rightarrow> 'h clks \<Rightarrow> 'h clks option" where
  "run_clk_calls [] s = Some s"
| "run_clk_calls (Clk_enable c # calls) s = do { (_, s) \<leftarrow> hal_clock_enable (Some c) s; run_clk_calls calls s }"
| "run_clk_calls (Clk_disable c # calls) s = do { (_, s) \<leftarrow> hal_clock_disable (Some c) s; run_clk_calls calls s }"

fun uses :: "clk_call list \<Rightarrow> counts \<Rightarrow> counts" where
  "uses [] u = u"
| "uses (Clk_enable c # calls) u = uses calls (u(c := u c + 1))"
| "uses (Clk_disable c # calls) u = uses calls (u(c := u c - 1))"

text \<open>Every call is on a registered clock, and a clock is given up only by one who uses it.\<close>

fun fair_calls :: "nat list \<Rightarrow> clk_call list \<Rightarrow> counts \<Rightarrow> bool" where
  "fair_calls cs [] u = True"
| "fair_calls cs (Clk_enable c # calls) u = (c \<in> set cs \<and> fair_calls cs calls (u(c := u c + 1)))"
| "fair_calls cs (Clk_disable c # calls) u = (c \<in> set cs \<and> 0 < u c \<and> fair_calls cs calls (u(c := u c - 1)))"

definition clks_idle :: "'h clks \<Rightarrow> bool" where
  "clks_idle s \<longleftrightarrow> (\<forall>c \<in> set (clk_root_list s). cc_enable_count (cores s c) = 0)"

context clk_gates
begin

lemma calls_counts:
  assumes "clk_driven en dis on rank s u" "fair_calls (clk_root_list s) calls u"
    "\<And>d. u d + length calls + length (clk_root_list s) < 2 ^ 32 - 1"
  shows "\<exists>s'. run_clk_calls calls s = Some s' \<and> clk_driven en dis on rank s' (uses calls u) \<and> same_clks s s'"
  using assms
proof (induction calls arbitrary: s u)
  case Nil then show ?case by simp
next
  case (Cons call calls)
  have low: "held s d < 2 ^ 32 - 1" if "d \<in> set (clk_root_list s)" for d
  proof -
    show ?thesis using held_le [OF Cons.prems(1) that] Cons.prems(3) [of d] by simp
  qed
  have same: "clk_root_list s' = clk_root_list s" if "same_clks s s'" for s' :: "'h clks"
    using that by (simp add: same_clks_def)
  show ?case
  proof (cases call)
    case (Clk_enable c)
    obtain s1 where s1: "clk_core_enable (Some c) s = Some (0, s1)" "clk_driven en dis on rank s1 (u(c := u c + 1))" "same_clks s s1"
      using enable_counts [OF Cons.prems(1), of c] Cons.prems(2) Clk_enable low by auto
    have "\<And>d. (u(c := u c + 1)) d + length calls + length (clk_root_list s1) < 2 ^ 32 - 1"
    proof -
      fix d show "(u(c := u c + 1)) d + length calls + length (clk_root_list s1) < 2 ^ 32 - 1"
        using Cons.prems(3) [of d] same [OF s1(3)] by (cases "d = c") simp_all
    qed
    then show ?thesis
      using Cons.IH [OF s1(2)] Cons.prems(2) Clk_enable s1 same [OF s1(3)] same_clks_trans [OF s1(3)]
      by (fastforce simp: hal_clk_defs)
  next
    case (Clk_disable c)
    obtain s1 where s1: "clk_core_disable (Some c) s = Some (0, s1)" "clk_driven en dis on rank s1 (u(c := u c - 1))" "same_clks s s1"
      using disable_counts [OF Cons.prems(1), of c] Cons.prems(2) Clk_disable by auto
    have "\<And>d. (u(c := u c - 1)) d + length calls + length (clk_root_list s1) < 2 ^ 32 - 1"
    proof -
      fix d show "(u(c := u c - 1)) d + length calls + length (clk_root_list s1) < 2 ^ 32 - 1"
        using Cons.prems(3) [of d] same [OF s1(3)] by (cases "d = c") simp_all
    qed
    then show ?thesis
      using Cons.IH [OF s1(2)] Cons.prems(2) Clk_disable s1 same [OF s1(3)] same_clks_trans [OF s1(3)]
      by (fastforce simp: hal_clk_defs)
  qed
qed

lemma calls_open:
  assumes "clk_tree rank s" "clks_idle s" "fair_calls (clk_root_list s) calls (\<lambda>_. 0)"
    "\<And>c. c \<in> set (clk_root_list s) \<Longrightarrow> switched (en c) (dis c) (cc_ops (cores s c)) \<and> \<not> on c (ck_hw s)"
    "length calls + length (clk_root_list s) < 2 ^ 32 - 1"
  shows "\<exists>s'. run_clk_calls calls s = Some s' \<and> (\<forall>c \<in> set (clk_root_list s). en c \<noteq> None \<longrightarrow>
    on c (ck_hw s') = (\<exists>d \<in> set (clk_root_list s). 0 < uses calls (\<lambda>_. 0) d \<and> below (parent_of s) d c))"
proof -
  have z: "held s c = 0" if "c \<in> set (clk_root_list s)" for c using assms(2) that by (simp add: clks_idle_def held_def)
  then have "balanced (set (clk_root_list s)) (parent_of s) (held s) (\<lambda>_. 0)"
    by (auto simp: balanced_def held_by_def)
  then have "clk_driven en dis on rank s (\<lambda>_. 0)" using assms(1,4) z by (simp add: clk_driven_def)
  then obtain s' where s': "run_clk_calls calls s = Some s'" "clk_driven en dis on rank s' (uses calls (\<lambda>_. 0))" "same_clks s s'"
    using calls_counts assms(3,5) by fastforce
  have r: "clk_root_list s' = clk_root_list s" "parent_of s' = parent_of s"
    using s'(3) same_clks_parent by (auto simp: same_clks_def)
  have "0 < held s' c \<longleftrightarrow> (\<exists>d \<in> set (clk_root_list s). 0 < uses calls (\<lambda>_. 0) d \<and> below (parent_of s) d c)"
    if "c \<in> set (clk_root_list s)" for c
    by (rule balanced_held [where rank = rank]) (use s'(2) assms(1) r that in \<open>auto simp: clk_driven_def clk_tree_def split: option.splits\<close>)
  then show ?thesis using s'(1,2) r by (auto simp: clk_driven_def)
qed

end

section \<open>Gates in registers\<close>

type_synonym gate_table = "nat \<Rightarrow> (ccu_common \<times> u32) option"

definition gate_enable :: "'h clk_plat \<Rightarrow> gate_table \<Rightarrow> nat \<Rightarrow> ('h \<Rightarrow> int \<times> 'h) option" where
  "gate_enable P G c = map_option (\<lambda>(co, g). ccu_gate_helper_enable P co g) (G c)"

definition gate_disable :: "'h clk_plat \<Rightarrow> gate_table \<Rightarrow> nat \<Rightarrow> ('h \<Rightarrow> 'h) option" where
  "gate_disable P G c = map_option (\<lambda>(co, g). ccu_gate_helper_disable P co g) (G c)"

definition gate_open :: "('h \<Rightarrow> u64 \<Rightarrow> u32) \<Rightarrow> gate_table \<Rightarrow> nat \<Rightarrow> 'h \<Rightarrow> bool" where
  "gate_open cell G c h = (case G c of None \<Rightarrow> False | Some (co, g) \<Rightarrow> cell h (co_addr co) AND g \<noteq> 0)"

definition gates_apart :: "gate_table \<Rightarrow> bool" where
  "gates_apart G \<longleftrightarrow> (\<forall>c co g. G c = Some (co, g) \<longrightarrow> g \<noteq> 0 \<and>
     (\<forall>d co' g'. d \<noteq> c \<longrightarrow> G d = Some (co', g') \<longrightarrow> co_addr co' = co_addr co \<longrightarrow> g' AND g = 0))"

lemma word_disjoint:
  assumes "(g' :: u32) AND g = 0"
  shows "(x OR g) AND g' = x AND g'" "(x AND NOT g) AND g' = x AND g'"
proof -
  have "\<And>n. bit (g' AND g) n = False" by (simp add: assms)
  then show "(x OR g) AND g' = x AND g'" "(x AND NOT g) AND g' = x AND g'"
    by (auto simp: bit_simps intro!: bit_word_eqI)
qed

text \<open>The bits of registers in which no clock has its gate.\<close>

definition gate_free :: "gate_table \<Rightarrow> u64 \<Rightarrow> u32 \<Rightarrow> bool" where
  "gate_free G a F \<longleftrightarrow> (\<forall>c co g. G c = Some (co, g) \<longrightarrow> co_addr co = a \<longrightarrow> F AND g = 0)"

definition free_bits :: "('h \<Rightarrow> u64 \<Rightarrow> u32) \<Rightarrow> gate_table \<Rightarrow> 'h \<Rightarrow> (u64 \<times> u32 \<times> u32) set" where
  "free_bits cell G h = {(a, F, cell h a AND F) | a F. gate_free G a F}"

lemma free_bits_eq:
  "free_bits cell G h' = free_bits cell G h \<longleftrightarrow> (\<forall>a F. gate_free G a F \<longrightarrow> cell h' a AND F = cell h a AND F)"
  by (auto simp: free_bits_def set_eq_iff)

locale gates =
  fixes P :: "'h clk_plat" and cell :: "'h \<Rightarrow> u64 \<Rightarrow> u32" and G :: gate_table
  assumes regs: "reg_at P cell" and apart: "gates_apart G"
begin

lemma gate_rw:
  "ck_readl P a h = (cell h a, h)" "cell (ck_writel P v a h) b = (if b = a then v else cell h b)"
  using regs by (simp_all add: reg_at_def)

lemma enable_opens:
  assumes "G c = Some (co, g)"
  shows "\<exists>h'. ccu_gate_helper_enable P co g h = (0, h') \<and> gate_open cell G c h' \<and>
    (\<forall>d. d \<noteq> c \<longrightarrow> gate_open cell G d h' = gate_open cell G d h) \<and> free_bits cell G h' = free_bits cell G h"
proof -
  have "g \<noteq> 0" using apart assms by (auto simp: gates_apart_def)
  moreover have "(x OR g) AND g = g" for x :: u32 by (rule bit_word_eqI) (auto simp: bit_simps)
  moreover have "\<And>d co' g'. d \<noteq> c \<Longrightarrow> G d = Some (co', g') \<Longrightarrow> co_addr co' = co_addr co \<Longrightarrow> g' AND g = 0"
    using apart assms unfolding gates_apart_def by blast
  moreover have "\<And>a F. gate_free G a F \<Longrightarrow> co_addr co = a \<Longrightarrow> F AND g = 0"
    using assms by (auto simp: gate_free_def)
  ultimately show ?thesis
    using assms by (auto simp: free_bits_eq ccu_gate_helper_enable_def gate_open_def gate_rw word_disjoint Let_def split: option.splits)
qed

lemma disable_closes:
  assumes "G c = Some (co, g)"
  shows "\<not> gate_open cell G c (ccu_gate_helper_disable P co g h) \<and>
    (\<forall>d. d \<noteq> c \<longrightarrow> gate_open cell G d (ccu_gate_helper_disable P co g h) = gate_open cell G d h) \<and>
    free_bits cell G (ccu_gate_helper_disable P co g h) = free_bits cell G h"
proof -
  have "g \<noteq> 0" using apart assms by (auto simp: gates_apart_def)
  moreover have "(x AND NOT g) AND g = 0" for x :: u32 by (rule bit_word_eqI) (auto simp: bit_simps)
  moreover have "\<And>d co' g'. d \<noteq> c \<Longrightarrow> G d = Some (co', g') \<Longrightarrow> co_addr co' = co_addr co \<Longrightarrow> g' AND g = 0"
    using apart assms unfolding gates_apart_def by blast
  moreover have "\<And>a F. gate_free G a F \<Longrightarrow> co_addr co = a \<Longrightarrow> F AND g = 0"
    using assms by (auto simp: gate_free_def)
  ultimately show ?thesis
    using assms by (auto simp: free_bits_eq ccu_gate_helper_disable_def gate_open_def gate_rw word_disjoint Let_def split: option.splits)
qed

end

sublocale gates \<subseteq> switch: clk_gates "gate_enable P G" "gate_disable P G" "gate_open cell G" "free_bits cell G"
  by unfold_locales (use enable_opens disable_closes in \<open>fastforce simp: gate_enable_def gate_disable_def\<close>)+

context gates
begin

lemma calls_open_gates:
  assumes "clk_tree rank s" "clks_idle s" "fair_calls (clk_root_list s) calls (\<lambda>_. 0)"
    "\<And>c. c \<in> set (clk_root_list s) \<Longrightarrow> switched (gate_enable P G c) (gate_disable P G c) (cc_ops (cores s c)) \<and> \<not> gate_open cell G c (ck_hw s)"
    "length calls + length (clk_root_list s) < 2 ^ 32 - 1"
  shows "\<exists>s'. run_clk_calls calls s = Some s' \<and> (\<forall>c \<in> set (clk_root_list s). gate_enable P G c \<noteq> None \<longrightarrow>
    gate_open cell G c (ck_hw s') =
      (\<exists>d \<in> set (clk_root_list s). 0 < uses calls (\<lambda>_. 0) d \<and> below (parent_of s) d c))"
  by (rule switch.calls_open [OF assms])

end

text \<open>
  The gates of the SPI controllers and of their buses in \<open>ccu-sun8iw20.c\<close>, by their clock numbers,
  and a register file.
\<close>

definition spi_gate :: "u32 \<Rightarrow> ccu_common" where
  "spi_gate reg = \<lparr>co_base = 0x02001000, co_reg = reg, co_lock_reg = 0, co_prediv = 0, co_key_value = 0, co_features = 0\<rparr>"

definition spi_gates :: gate_table where
  "spi_gates = [75 \<mapsto> (mp_common spi0_clk, mp_enable spi0_clk), 76 \<mapsto> (mp_common spi1_clk, mp_enable spi1_clk),
     77 \<mapsto> (spi_gate 0x96c, 1), 78 \<mapsto> (spi_gate 0x96c, 2)]"

definition clk_cells :: "(u64 \<Rightarrow> u32) clk_plat" where
  "clk_cells = \<lparr>ck_readl = (\<lambda>a h. (h a, h)), ck_writel = (\<lambda>v a h. h(a := v))\<rparr>"

interpretation spi_gates: gates clk_cells "\<lambda>h. h" spi_gates
  by unfold_locales
    (auto simp: reg_at_def clk_cells_def gates_apart_def spi_gates_def spi_gate_def spi0_clk_def spi1_clk_def
      spi_mp_clk_def co_addr_def split: if_splits)

end
