(* ===== verification/Ccu_Rate.thy ===== *)
theory Ccu_Rate
  imports Ccu_Core_Ok
begin

unbundle bit_operations_syntax

text \<open>
  The clock framework on top of the M-P dividers: a clock whose operations are \<open>ccu_mp_ops\<close> gets
  the parent and the rate that are asked for, and the framework reads back the best rate the
  dividers reach.
\<close>


section \<open>The framework on the dividers\<close>

text \<open>\<open>ccu_mp_ops\<close> of a clock with \<open>n\<close> parents.\<close>

definition ccu_mp_ops :: "'h clk_plat \<Rightarrow> ccu_mp \<Rightarrow> nat \<Rightarrow> 'h clk_ops" where
  "ccu_mp_ops P c n = \<lparr>
     op_enable = Some (ccu_gate_helper_enable P (mp_common c) (mp_enable c)),
     op_disable = Some (ccu_gate_helper_disable P (mp_common c) (mp_enable c)),
     op_is_enabled = Some (ccu_gate_helper_is_enabled P (mp_common c) (mp_enable c)),
     op_get_parent = Some (ccu_mux_helper_get_parent P (mp_common c) (mp_mux c) n),
     op_set_parent = Some (ccu_mux_helper_set_parent P (mp_common c) (mp_mux c)),
     op_set_rate = Some (ccu_mp_set_rate P c),
     op_recalc_rate = Some (ccu_mp_recalc_rate P c)\<rparr>"

text \<open>The multiplexer of a clock is above its dividers and has no table of its settings.\<close>

definition mux_plain :: "ccu_mp \<Rightarrow> bool" where
  "mux_plain c \<longleftrightarrow> mx_table (mp_mux c) = None \<and> dv_shift (mp_p c) + dv_width (mp_p c) \<le> mx_shift (mp_mux c) \<and>
     1 \<le> mx_width (mp_mux c) \<and> mx_width (mp_mux c) \<le> 8 \<and> mx_shift (mp_mux c) + mx_width (mp_mux c) \<le> 32"

definition mux_of :: "ccu_mp \<Rightarrow> u32 \<Rightarrow> u32" where
  "mux_of c r = get_field (mx_shift (mp_mux c)) (mx_width (mp_mux c)) r"

lemma ucast_mask8: "w \<le> 8 \<Longrightarrow> ucast (2 ^ w - 1 :: u32) = (mask w :: u8)"
  by (auto simp: mask_eq_decr_exp [symmetric] bit_simps intro!: bit_word_eqI)

lemma get_parent_plain:
  assumes "mux_plain c" "reg_at P cell"
  shows "ccu_mux_helper_get_parent P (mp_common c) (mp_mux c) n h = Some (ucast (mux_of c (cell h (co_addr (mp_common c)))), h)"
proof -
  have w: "mx_width (mp_mux c) \<le> 8" "mx_table (mp_mux c) = None" using assms(1) by (simp_all add: mux_plain_def)
  have "(ucast (drop_bit s r) :: u8) AND mask w = ucast (drop_bit s r AND mask w)" for s w and r :: u32
    by (rule bit_word_eqI) (auto simp: bit_simps)
  then show ?thesis
    using assms(2) w by (simp add: ccu_mux_helper_get_parent_def reg_at_def mux_of_def get_field_def ucast_mask8)
qed

lemma set_parent_plain:
  assumes "mux_plain c" "reg_at P cell" "unat i < 2 ^ mx_width (mp_mux c)"
  shows "\<exists>h'. ccu_mux_helper_set_parent P (mp_common c) (mp_mux c) i h = Some (0, h') \<and>
    cell h' = (cell h)(co_addr (mp_common c) :=
      put_field (mx_shift (mp_mux c)) (mx_width (mp_mux c)) (ucast i) (cell h (co_addr (mp_common c))))"
proof -
  have "GENMASK (mx_width (mp_mux c) + mx_shift (mp_mux c) - 1) (mx_shift (mp_mux c)) =
      push_bit (mx_shift (mp_mux c)) (mask (mx_width (mp_mux c)))"
    by (rule GENMASK_mask) (use assms(1) in \<open>auto simp: mux_plain_def\<close>)
  then show ?thesis using assms
    by (auto simp: ccu_mux_helper_set_parent_def mux_plain_def reg_at_def put_field_def fun_eq_iff)
qed

lemma hw_idem [simp]: "s\<lparr>ck_hw := ck_hw s\<rparr> = s"
  by (cases s) simp

text \<open>Clocks that only read the hardware when they compute their rates.\<close>

definition rates_read :: "'h clks \<Rightarrow> bool" where
  "rates_read s \<longleftrightarrow> (\<forall>c \<in> set (clk_root_list s). \<forall>f. op_recalc_rate (cc_ops (cores s c)) = Some f \<longrightarrow>
     (\<forall>x h. \<exists>r. f x h = Some (r, h)))"

lemma recalc_reads:
  assumes "clk_tree rank s" "rates_read s" "c \<in> set (clk_root_list s)"
  shows "\<exists>r. clk_core_recalc_rate c (cc_parent (cores s c)) s = Some (r, s)"
  using assms(3)
proof (induction "rank c" arbitrary: c rule: less_induct)
  case less
  show ?case
  proof (cases "cc_parent (cores s c)")
    case None then show ?thesis by (subst clk_core_recalc_rate.simps) simp
  next
    case (Some p)
    then have "p \<in> set (clk_root_list s)" "rank p < rank c"
      using assms(1) less.prems by (auto simp: clk_tree_def parent_of_def split: option.splits)
    then obtain r where "clk_core_recalc_rate p (cc_parent (cores s p)) s = Some (r, s)" using less.hyps by blast
    then show ?thesis
    proof (cases "op_recalc_rate (cc_ops (cores s c))")
      case None
      then show ?thesis using Some \<open>_ = Some (r, s)\<close> by (subst clk_core_recalc_rate.simps) simp
    next
      case (Some f)
      then obtain q where "f (ucast (ucast (cc_rate (cores s p)) :: u32)) (ck_hw s) = Some (q, ck_hw s)"
        using assms(2) less.prems unfolding rates_read_def by blast
      then show ?thesis using Some \<open>cc_parent _ = _\<close> \<open>_ = Some (r, s)\<close> by (subst clk_core_recalc_rate.simps) (simp add: Let_def)
    qed
  qed
qed

lemma ccu_mp_recalc_reads:
  assumes "mp_plain c" "reg_at P cell"
  shows "\<exists>r. ccu_mp_recalc_rate P c x h = Some (r, h)"
  using assms by (auto simp: ccu_mp_recalc_rate_def apply_prediv_plain has_feature_def mp_plain_def reg_at_def Let_def)


lemma clk_tree_same:
  assumes "clk_tree rank s" "clk_root_list s' = clk_root_list s" "\<And>d. cc_parent (cores s' d) = cc_parent (cores s d)"
  shows "clk_tree rank s'"
  using assms by (simp add: clk_tree_def parent_of_def cong: option.case_cong)

text \<open>\<open>c\<close> is the clock of the divider \<open>k\<close>, its parent is \<open>p\<close>, and its multiplexer is set to it.\<close>

definition mp_clock :: "'h clk_plat \<Rightarrow> ('h \<Rightarrow> u64 \<Rightarrow> u32) \<Rightarrow> ccu_mp \<Rightarrow> nat \<Rightarrow> nat \<Rightarrow> 'h clks \<Rightarrow> bool" where
  "mp_clock P cell k c p s \<longleftrightarrow> c \<in> set (clk_root_list s) \<and>
     cc_ops (cores s c) = ccu_mp_ops P k (length (cc_parents (cores s c))) \<and> cc_parent (cores s c) = Some p \<and>
     1 < length (cc_parents (cores s c)) \<and>
     (let i = unat (mux_of k (cell (ck_hw s) (co_addr (mp_common k))))
      in i < length (cc_parents (cores s c)) \<and> pm_core (cc_parents (cores s c) ! i) = Some p)"

text \<open>
  What setting the parent and the rate of \<open>c\<close> leaves alone: the other clocks, the counters, and
  every bit of the registers outside the fields of \<open>k\<close>.
\<close>

definition mp_fields :: "ccu_mp \<Rightarrow> u32" where
  "mp_fields k = push_bit (dv_shift (mp_m k)) (mask (dv_width (mp_m k))) OR
     push_bit (dv_shift (mp_p k)) (mask (dv_width (mp_p k))) OR push_bit (mx_shift (mp_mux k)) (mask (mx_width (mp_mux k)))"

definition retuned :: "('h \<Rightarrow> u64 \<Rightarrow> u32) \<Rightarrow> ccu_mp \<Rightarrow> nat \<Rightarrow> 'h clks \<Rightarrow> 'h clks \<Rightarrow> bool" where
  "retuned cell k c s s' \<longleftrightarrow> clk_root_list s' = clk_root_list s \<and>
     (\<forall>d. cc_ops (cores s' d) = cc_ops (cores s d) \<and> cc_enable_count (cores s' d) = cc_enable_count (cores s d) \<and>
        cc_type (cores s' d) = cc_type (cores s d) \<and> cc_id (cores s' d) = cc_id (cores s d) \<and>
        length (cc_parents (cores s' d)) = length (cc_parents (cores s d)) \<and>
        (d \<noteq> c \<longrightarrow> cc_parent (cores s' d) = cc_parent (cores s d) \<and> cc_rate (cores s' d) = cc_rate (cores s d))) \<and>
     (\<forall>a F. a \<noteq> co_addr (mp_common k) \<or> F AND mp_fields k = 0 \<longrightarrow> cell (ck_hw s') a AND F = cell (ck_hw s) a AND F)"

lemma retuned_trans: "retuned cell k c s s' \<Longrightarrow> retuned cell k c s' s'' \<Longrightarrow> retuned cell k c s s''"
  by (simp add: retuned_def)

lemma put_field_outside:
  assumes "v AND mask w = v" "F AND push_bit sh (mask w) = 0"
  shows "put_field sh w v r AND F = r AND F"
proof (rule bit_word_eqI)
  fix n assume n: "n < LENGTH(32)"
  have "\<not> bit (F AND push_bit sh (mask w)) n" by (simp add: assms(2))
  then show "bit (put_field sh w v r AND F) n = bit (r AND F) n"
    using n fits_bit [OF assms(1), of "n - sh"] by (auto simp: put_field_def bit_simps)
qed

lemma mp_fields_outside:
  assumes "F AND mp_fields k = 0"
  shows "F AND push_bit (dv_shift (mp_m k)) (mask (dv_width (mp_m k))) = 0"
    "F AND push_bit (dv_shift (mp_p k)) (mask (dv_width (mp_p k))) = 0"
    "F AND push_bit (mx_shift (mp_mux k)) (mask (mx_width (mp_mux k))) = 0"
  using assms by (simp_all add: mp_fields_def bit.conj_disj_distrib or_eq_0_iff)

lemma mux_of_width: "mux_plain k \<Longrightarrow> unat (mux_of k r) < 256"
proof -
  assume k: "mux_plain k"
  have "(2 :: nat) ^ mx_width (mp_mux k) \<le> 2 ^ 8" using k by (intro power_increasing) (simp_all add: mux_plain_def)
  moreover have "unat (mux_of k r) < 2 ^ mx_width (mp_mux k)"
    by (simp add: mux_of_def get_field_def flip: take_bit_eq_mask) (simp add: unat_take_bit)
  ultimately show ?thesis by simp
qed

lemma clk_init_parent_mp:
  assumes "mux_plain k" "reg_at P cell" "mp_clock P cell k c p s"
  shows "clk_init_parent c s = Some (Some p, s)"
proof -
  have "unat (ucast (mux_of k (cell (ck_hw s) (co_addr (mp_common k)))) :: u8) =
      unat (mux_of k (cell (ck_hw s) (co_addr (mp_common k))))"
    using mux_of_width [OF assms(1)] by (simp add: unsigned_ucast_eq take_bit_eq_mod)
  then show ?thesis
    using assms by (auto simp: clk_init_parent_def mp_clock_def ccu_mp_ops_def get_parent_plain Let_def
      clk_core_get_parent_by_index_def)
qed

lemma clk_core_get_rate_mp:
  assumes "mp_plain k" "mux_plain k" "reg_at P cell" "mp_clock P cell k c p s" "clk_tree rank s" "rates_read s"
    "ccu_mp_recalc_rate P k (cc_rate (cores s p)) (ck_hw s) = Some (r, ck_hw s)" "cc_rate (cores s p) < 2 ^ 32"
  shows "clk_core_get_rate c s = Some (ucast r, s)"
proof -
  have u: "upd_core c (\<lambda>x. x\<lparr>cc_parent := Some p\<rparr>) s = s"
  proof -
    have "(cores s c)\<lparr>cc_parent := Some p\<rparr> = cores s c" using assms(4) by (simp add: mp_clock_def)
    then show ?thesis by (simp add: upd_core_def)
  qed
  have "p \<in> set (clk_root_list s)"
    using assms(4,5) by (auto simp: mp_clock_def clk_tree_def parent_of_def split: option.splits)
  then obtain q where "clk_core_recalc_rate p (cc_parent (cores s p)) s = Some (q, s)"
    using recalc_reads [OF assms(5,6)] by blast
  moreover have "ucast (ucast (cc_rate (cores s p)) :: u32) = cc_rate (cores s p)"
    using assms(8) by (simp add: word_unat_eq_iff unsigned_ucast_eq unat_take_bit take_bit_nat_eq_self word_less_nat_alt)
  ultimately have "clk_core_recalc_rate c (Some p) s = Some (ucast r, s)"
    using assms(4,7) by (subst clk_core_recalc_rate.simps) (simp add: mp_clock_def ccu_mp_ops_def Let_def)
  then show ?thesis using clk_init_parent_mp [OF assms(2-4)] u by (simp add: clk_core_get_rate_def Let_def)
qed

lemma clk_rate_round_trip:
  assumes k: "mp_plain k" "mux_plain k" and P: "reg_at P cell" and c: "mp_clock P cell k c p s"
    and s: "clk_tree rank s" "rates_read s" and fits: "cc_rate (cores s p) < 2 ^ 32"
    and some: "\<exists>(m, q) \<in> divisors (mp_max_m k) (mp_max_p k).
      0 < mp_rate (cc_rate (cores s p)) m q \<and> mp_rate (cc_rate (cores s p)) m q \<le> ucast rate"
  shows "\<exists>s' r. hal_clk_set_rate (Some c) rate s = Some (0, s') \<and> hal_clk_get_rate (Some c) s' = Some (r, s') \<and>
    r \<le> rate \<and> (\<forall>(m, q) \<in> divisors (mp_max_m k) (mp_max_p k).
      mp_rate (cc_rate (cores s p)) m q \<le> ucast rate \<longrightarrow> mp_rate (cc_rate (cores s p)) m q \<le> ucast r) \<and>
    mp_clock P cell k c p s' \<and> clk_tree rank s' \<and> rates_read s' \<and> retuned cell k c s s'"
proof -
  let ?rate = "cc_rate (cores s p)" and ?a = "co_addr (mp_common k)"
  obtain h' r where h': "ccu_mp_set_rate P k (ucast rate) ?rate (ck_hw s) = Some (0, h')"
    "ccu_mp_recalc_rate P k ?rate h' = Some (r, h')" "r \<le> ucast rate"
    "\<forall>(m, q) \<in> divisors (mp_max_m k) (mp_max_p k). mp_rate ?rate m q \<le> ucast rate \<longrightarrow> mp_rate ?rate m q \<le> r"
    and put: "\<exists>m q. cell h' = (cell (ck_hw s))(?a := put_field (dv_shift (mp_p k)) (dv_width (mp_p k)) q
        (put_field (dv_shift (mp_m k)) (dv_width (mp_m k)) m (cell (ck_hw s) ?a))) \<and>
      m AND mask (dv_width (mp_m k)) = m \<and> q AND mask (dv_width (mp_p k)) = q"
    using ccu_mp_set_rate_plain [OF k(1) P some, of "ck_hw s"] by blast
  then have mux: "mux_of k (cell h' ?a) = mux_of k (cell (ck_hw s) ?a)"
    using k by (auto simp: mux_of_def mux_plain_def mp_plain_def get_put_other)
  have cp: "p \<noteq> c" using c s(1) by (auto simp: mp_clock_def clk_tree_def parent_of_def split: option.splits)
  let ?s = "upd_core c (\<lambda>x. x\<lparr>cc_rate := ucast rate\<rparr>) ((upd_core p (\<lambda>x. x\<lparr>cc_count := cc_count x + 1\<rparr>) s)\<lparr>ck_hw := h'\<rparr>)"
  have set: "hal_clk_set_rate (Some c) rate s = Some (0, ?s)"
    using c cp h'(1) by (simp add: hal_clk_defs clk_core_get_parent_def mp_clock_def
      clk_core_set_rate_def ccu_mp_ops_def Let_def)
  have same: "clk_root_list ?s = clk_root_list s" "cc_parent (cores ?s d) = cc_parent (cores s d)"
    "cc_ops (cores ?s d) = cc_ops (cores s d)" "cc_parents (cores ?s d) = cc_parents (cores s d)" "ck_hw ?s = h'"
    "cc_rate (cores ?s p) = ?rate" for d
    using cp by (simp_all add: upd_core_def)
  have ok: "mp_clock P cell k c p ?s" "clk_tree rank ?s" "rates_read ?s"
    subgoal using c mux by (simp add: mp_clock_def same del: hw_upd)
    subgoal using s(1) same(1,2) by (rule clk_tree_same)
    subgoal using s(2) by (simp add: rates_read_def same del: hw_upd)
    done
  have "hal_clk_get_rate (Some c) ?s = Some (ucast r, ?s)"
    unfolding hal_clk_defs option.case
  proof (rule clk_core_get_rate_mp [OF k P ok])
    show "ccu_mp_recalc_rate P k (cc_rate (cores ?s p)) (ck_hw ?s) = Some (r, ck_hw ?s)"
      using h'(2) by (simp only: same)
    show "cc_rate (cores ?s p) < 2 ^ 32" using fits by (simp only: same)
  qed
  moreover have "ucast (ucast r :: u32) = r" "(ucast r :: u32) \<le> rate"
  proof -
    have "unat r \<le> unat rate" "unat rate < 2 ^ 32"
      using h'(3) unsigned_less [of rate] by (simp_all add: word_le_nat_alt unsigned_ucast_eq take_bit_eq_mod)
    then show "ucast (ucast r :: u32) = r" "(ucast r :: u32) \<le> rate"
      by (simp_all add: word_unat_eq_iff word_le_nat_alt unsigned_ucast_eq unat_take_bit take_bit_nat_eq_self)
  qed
  moreover have "retuned cell k c s ?s"
    unfolding retuned_def
  proof (intro conjI allI impI)
    fix a F assume F: "a \<noteq> ?a \<or> F AND mp_fields k = 0"
    show "cell (ck_hw ?s) a AND F = cell (ck_hw s) a AND F"
      using put F mp_fields_outside [of F k] by (cases "a = ?a") (auto simp: put_field_outside)
  qed (simp_all add: upd_core_def)
  ultimately show ?thesis using set h'(4) ok by (intro exI [of _ ?s] exI [of _ "ucast r"]) simp
qed


lemma parent_index_bound: "parent_index p name k es = Some i \<Longrightarrow> k \<le> i \<and> i < k + length es"
  by (induction p name k es rule: parent_index.induct) (fastforce split: if_splits)+

lemma clk_set_parent_mp:
  assumes k: "mp_plain k" "mux_plain k" and P: "reg_at P cell"
    and c: "c \<in> set (clk_root_list s)" "cc_ops (cores s c) = ccu_mp_ops P k (length (cc_parents (cores s c)))"
      "1 < length (cc_parents (cores s c))" "length (cc_parents (cores s c)) \<le> 2 ^ mx_width (mp_mux k)"
    and p: "p \<in> set (clk_root_list s)" "rank p < rank c" "cc_parent (cores s c) \<noteq> Some p"
      "parent_index p (cc_name (cores s p)) 0 (cc_parents (cores s c)) = Some i"
    and s: "clk_tree rank s" "rates_read s"
  shows "\<exists>s'. hal_clk_set_parent (Some c) (Some p) s = Some (0, s') \<and> mp_clock P cell k c p s' \<and> clk_tree rank s' \<and>
    rates_read s' \<and> cc_rate (cores s' p) = cc_rate (cores s p) \<and> retuned cell k c s s'"
proof -
  let ?s1 = "set_parent_core c i p s" and ?a = "co_addr (mp_common k)"
  have i: "i < length (cc_parents (cores s c))" using parent_index_bound [OF p(4)] by simp
  have w: "mx_width (mp_mux k) \<le> 8" "mx_shift (mp_mux k) + mx_width (mp_mux k) \<le> 32" using k(2) by (simp_all add: mux_plain_def)
  have "(2 :: nat) ^ mx_width (mp_mux k) \<le> 2 ^ 8" using w(1) by (intro power_increasing) simp_all
  then have "i < 256" using i c(4) by simp
  then have i8: "unat (of_nat i :: u8) = i" by (simp add: unat_of_nat)
  then obtain h' where h': "ccu_mux_helper_set_parent P (mp_common k) (mp_mux k) (of_nat i) (ck_hw s) = Some (0, h')"
    "cell h' = (cell (ck_hw s))(?a := put_field (mx_shift (mp_mux k)) (mx_width (mp_mux k)) (ucast (of_nat i :: u8)) (cell (ck_hw s) ?a))"
    using set_parent_plain [OF k(2) P, of "of_nat i"] i c(4) by fastforce
  have iu: "unat (ucast (of_nat i :: u8) :: u32) = i" using i8 \<open>i < 256\<close> by (simp add: unsigned_ucast_eq unat_take_bit take_bit_nat_eq_self)
  then have iw: "(ucast (of_nat i :: u8) :: u32) AND mask (mx_width (mp_mux k)) = ucast (of_nat i :: u8)"
    using i c(4) by (intro mask_less) simp
  then have mux: "unat (mux_of k (cell h' ?a)) = i" using w(2) iu by (simp add: h'(2) mux_of_def get_put_field)
  let ?s2 = "upd_core c (\<lambda>x. x\<lparr>cc_parent := Some p, cc_p_rate := ucast (cc_rate (cores s p))\<rparr>) (?s1\<lparr>ck_hw := h'\<rparr>)"
  have cp: "p \<noteq> c" using p(2) by auto
  have same: "clk_root_list ?s2 = clk_root_list s" "cc_ops (cores ?s2 d) = cc_ops (cores s d)"
    "cc_parent (cores ?s2 d) = (if d = c then Some p else cc_parent (cores s d))" for d
    by (simp_all add: upd_core_def set_parent_core_def)
  have t2: "clk_tree rank ?s2" using s(1) p(1,2) by (simp add: clk_tree_def parent_of_def same del: hw_upd cong: option.case_cong)
  have r2: "rates_read ?s2" using s(2) by (simp add: rates_read_def same del: hw_upd)
  obtain r where r: "clk_core_recalc_rate c (Some p) ?s2 = Some (r, ?s2)"
    using recalc_reads [OF t2 r2, of c] c(1) by (auto simp: same simp del: hw_upd)
  let ?s' = "upd_core c (\<lambda>x. x\<lparr>cc_rate := ucast r\<rparr>) ?s2"
  have same': "clk_root_list ?s' = clk_root_list s" "cc_ops (cores ?s' d) = cc_ops (cores s d)"
    "cc_parent (cores ?s' d) = cc_parent (cores ?s2 d)" "ck_hw ?s' = h'"
    "cc_parents (cores ?s' c) = (cc_parents (cores s c))[i := (cc_parents (cores s c) ! i)\<lparr>pm_core := Some p\<rparr>]" for d
    by (simp_all add: upd_core_def set_parent_core_def)
  have "hal_clk_set_parent (Some c) (Some p) s = Some (0, ?s')"
    using p(3,4) c(2) h'(1) r
    by (simp add: hal_clk_defs clk_core_set_parent_def clk_fetch_parent_index_def ccu_mp_ops_def
      set_parent_core_def upd_core_def cp Let_def)
  moreover have "mp_clock P cell k c p ?s'"
    using c i mux by (simp add: mp_clock_def same' same del: hw_upd)
  moreover have "clk_tree rank ?s'" by (rule clk_tree_same [OF t2]) (simp_all only: same same')
  moreover have "rates_read ?s'" using s(2) by (simp add: rates_read_def same' del: hw_upd)
  moreover have "retuned cell k c s ?s'"
    unfolding retuned_def
  proof (intro conjI allI impI)
    fix a F assume F: "a \<noteq> ?a \<or> F AND mp_fields k = 0"
    show "cell (ck_hw ?s') a AND F = cell (ck_hw s) a AND F"
      using F iw mp_fields_outside [of F k] by (cases "a = ?a") (auto simp: h'(2) put_field_outside)
  qed (simp_all add: upd_core_def set_parent_core_def)
  moreover have "cc_rate (cores ?s' p) = cc_rate (cores s p)" using cp by (simp add: upd_core_def set_parent_core_def)
  ultimately show ?thesis by blast
qed

text \<open>What \<open>spi_clk_init\<close> asks of the clocks: the parent, the rate, and the rate that came out.\<close>

lemma clk_setup_mp:
  assumes k: "mp_plain k" "mux_plain k" and P: "reg_at P cell"
    and c: "c \<in> set (clk_root_list s)" "cc_ops (cores s c) = ccu_mp_ops P k (length (cc_parents (cores s c)))"
      "1 < length (cc_parents (cores s c))" "length (cc_parents (cores s c)) \<le> 2 ^ mx_width (mp_mux k)"
    and p: "p \<in> set (clk_root_list s)" "rank p < rank c"
      "if cc_parent (cores s c) = Some p then mp_clock P cell k c p s
       else parent_index p (cc_name (cores s p)) 0 (cc_parents (cores s c)) \<noteq> None"
    and s: "clk_tree rank s" "rates_read s" and fits: "cc_rate (cores s p) < 2 ^ 32"
    and some: "\<exists>(m, q) \<in> divisors (mp_max_m k) (mp_max_p k).
      0 < mp_rate (cc_rate (cores s p)) m q \<and> mp_rate (cc_rate (cores s p)) m q \<le> ucast rate"
  shows "\<exists>s1 s2 r. hal_clk_set_parent (Some c) (Some p) s = Some (0, s1) \<and>
    hal_clk_set_rate (Some c) rate s1 = Some (0, s2) \<and> hal_clk_get_rate (Some c) s2 = Some (r, s2) \<and>
    r \<le> rate \<and> (\<forall>(m, q) \<in> divisors (mp_max_m k) (mp_max_p k).
      mp_rate (cc_rate (cores s p)) m q \<le> ucast rate \<longrightarrow> mp_rate (cc_rate (cores s p)) m q \<le> ucast r) \<and>
    mp_clock P cell k c p s2 \<and> clk_tree rank s2 \<and> rates_read s2 \<and> retuned cell k c s s2"
proof -
  obtain s1 where s1: "hal_clk_set_parent (Some c) (Some p) s = Some (0, s1)" "mp_clock P cell k c p s1"
    "clk_tree rank s1" "rates_read s1" "cc_rate (cores s1 p) = cc_rate (cores s p)" "retuned cell k c s s1"
  proof (cases "cc_parent (cores s c) = Some p")
    case True
    then have "hal_clk_set_parent (Some c) (Some p) s = Some (0, s)" by (simp add: hal_clk_defs clk_core_set_parent_def)
    then show thesis using True p(3) s by (intro that [of s]) (simp_all add: retuned_def)
  next
    case False
    then obtain i where "parent_index p (cc_name (cores s p)) 0 (cc_parents (cores s c)) = Some i" using p(3) by auto
    from clk_set_parent_mp [OF k P c p(1,2) False this s] that show thesis by blast
  qed
  show ?thesis using clk_rate_round_trip [OF k P s1(2-4)] fits some s1(1) retuned_trans [OF s1(6)] unfolding s1(5) by blast
qed

end
