(* ===== verification/Ccu_Reset.thy ===== *)
theory Ccu_Reset
  imports Ccu_Mp_Ok
begin

unbundle bit_operations_syntax

text \<open>
  Reset lines (\<open>ccmu/hal_reset.c\<close>, \<open>ccmu/sunxi-ng/ccu_reset.c\<close>). A controller is the \<open>ccu_reset\<close>
  around its \<open>reset_control_dev\<close>; \<open>reset_control_list\<close> holds them in the order of registration, and
  a handle names its controller by the position in it. The only operations registered are
  \<open>ccu_reset_ops\<close>. A line outside the controller's table has no result.
\<close>

record ccu_reset =
  rs_base :: u64
  reset_map :: "(u32 \<times> u32) list"
  rs_type :: nat
  nr_resets :: u32

record reset_control =
  rc_dev :: nat
  rc_enable_count :: u32
  rc_id :: u32

text \<open>The loop of \<open>__clk_udelay\<close> only takes time.\<close>

definition reset_line :: "ccu_reset \<Rightarrow> u32 \<Rightarrow> (u64 \<times> u32) option" where
  "reset_line r idx = (if unat idx < length (reset_map r)
     then (case reset_map r ! unat idx of (reg, b) \<Rightarrow> Some (rs_base r + ucast reg, b)) else None)"

definition ccu_reset_assert :: "'h clk_plat \<Rightarrow> ccu_reset \<Rightarrow> u32 \<Rightarrow> 'h \<Rightarrow> (int \<times> 'h) option" where
  "ccu_reset_assert P r idx h = do {
     (a, b) \<leftarrow> reset_line r idx;
     let (reg, h) = ck_readl P a h;
     Some (0, ck_writel P (reg AND NOT b) a h)
   }"

definition ccu_reset_deassert :: "'h clk_plat \<Rightarrow> ccu_reset \<Rightarrow> u32 \<Rightarrow> 'h \<Rightarrow> (int \<times> 'h) option" where
  "ccu_reset_deassert P r idx h = do {
     (a, b) \<leftarrow> reset_line r idx;
     let (reg, h) = ck_readl P a h;
     Some (0, ck_writel P (reg OR b) a h)
   }"

definition ccu_reset_reset :: "'h clk_plat \<Rightarrow> ccu_reset \<Rightarrow> u32 \<Rightarrow> 'h \<Rightarrow> (int \<times> 'h) option" where
  "ccu_reset_reset P r idx h = do {
     (_, h) \<leftarrow> ccu_reset_assert P r idx h;
     (_, h) \<leftarrow> ccu_reset_deassert P r idx h;
     Some (0, h)
   }"

definition ccu_reset_status :: "'h clk_plat \<Rightarrow> ccu_reset \<Rightarrow> u32 \<Rightarrow> 'h \<Rightarrow> (int \<times> 'h) option" where
  "ccu_reset_status P r idx h = do {
     (a, b) \<leftarrow> reset_line r idx;
     let (reg, h) = ck_readl P a h;
     Some (if b AND reg = 0 then 1 else 0, h)
   }"

section \<open>The interface of \<open>hal_reset.h\<close>\<close>

definition reset_control_register :: "ccu_reset option \<Rightarrow> ccu_reset list \<Rightarrow> int \<times> ccu_reset list" where
  "reset_control_register rcdev rs = (case rcdev of None \<Rightarrow> (-1, rs) | Some r \<Rightarrow> (0, rs @ [r]))"

text \<open>\<open>reset_control_unregister\<close> tests the local \<open>rcdev\<close> it has just set to \<open>NULL\<close>.\<close>

definition reset_control_unregister :: "reset_control \<Rightarrow> ccu_reset list \<Rightarrow> int \<times> ccu_reset list" where
  "reset_control_unregister reset rs = (0, rs)"

fun find_reset :: "nat \<Rightarrow> u32 \<Rightarrow> nat \<Rightarrow> ccu_reset list \<Rightarrow> nat option" where
  "find_reset type idx k [] = None"
| "find_reset type idx k (r # rs) =
     (if rs_type r \<noteq> type then find_reset type idx (Suc k) rs
      else if nr_resets r < idx then find_reset type idx (Suc k) rs
      else Some k)"

text \<open>\<open>mem\<close>: whether \<open>malloc\<close> gives the memory of the handle.\<close>

definition hal_reset_control_get :: "bool \<Rightarrow> ccu_reset list \<Rightarrow> nat \<Rightarrow> u32 \<Rightarrow> reset_control option" where
  "hal_reset_control_get mem rs type idx = (if \<not> mem then None else
     (case find_reset type idx 0 rs of None \<Rightarrow> None
      | Some k \<Rightarrow> Some \<lparr>rc_dev = k, rc_enable_count = 0, rc_id = idx\<rparr>))"

definition hal_reset_control_put :: "reset_control option \<Rightarrow> int" where
  "hal_reset_control_put reset = 0"

type_synonym 'h reset_op = "'h clk_plat \<Rightarrow> ccu_reset \<Rightarrow> u32 \<Rightarrow> 'h \<Rightarrow> (int \<times> 'h) option"

definition on_line :: "'h reset_op \<Rightarrow> 'h clk_plat \<Rightarrow> ccu_reset list \<Rightarrow> reset_control option \<Rightarrow> 'h \<Rightarrow> (int \<times> 'h) option" where
  "on_line f P rs reset h = (case reset of None \<Rightarrow> Some (0, h)
     | Some rc \<Rightarrow> if rc_dev rc < length rs then f P (rs ! rc_dev rc) (rc_id rc) h else None)"

definition hal_reset_control_assert ::
  "'h clk_plat \<Rightarrow> ccu_reset list \<Rightarrow> reset_control option \<Rightarrow> 'h \<Rightarrow> (int \<times> 'h) option" where
  "hal_reset_control_assert = on_line ccu_reset_assert"

definition hal_reset_control_deassert ::
  "'h clk_plat \<Rightarrow> ccu_reset list \<Rightarrow> reset_control option \<Rightarrow> 'h \<Rightarrow> (int \<times> 'h) option" where
  "hal_reset_control_deassert = on_line ccu_reset_deassert"

definition hal_reset_control_reset ::
  "'h clk_plat \<Rightarrow> ccu_reset list \<Rightarrow> reset_control option \<Rightarrow> 'h \<Rightarrow> (int \<times> 'h) option" where
  "hal_reset_control_reset = on_line ccu_reset_reset"

definition hal_reset_control_status ::
  "'h clk_plat \<Rightarrow> ccu_reset list \<Rightarrow> reset_control option \<Rightarrow> 'h \<Rightarrow> (int \<times> 'h) option" where
  "hal_reset_control_status = on_line ccu_reset_status"

section \<open>Lines are switched one by one\<close>

lemma find_reset_first:
  "find_reset type idx k rs = Some j \<longleftrightarrow> (\<exists>i < length rs. j = k + i \<and> rs_type (rs ! i) = type \<and> idx \<le> nr_resets (rs ! i) \<and>
     (\<forall>i' < i. rs_type (rs ! i') \<noteq> type \<or> nr_resets (rs ! i') < idx))"
proof (induction rs arbitrary: k)
  case Nil then show ?case by simp
next
  case (Cons r rs)
  show ?case
  proof (cases "rs_type r = type \<and> idx \<le> nr_resets r")
    case True
    then have "find_reset type idx k (r # rs) = Some k" by auto
    then show ?thesis using True by (auto simp: less_Suc_eq_0_disj not_less)
  next
    case False
    then have "find_reset type idx k (r # rs) = find_reset type idx (Suc k) rs" by (auto simp: not_le)
    then show ?thesis using False Cons.IH [of "Suc k"] by (simp add: Ex_less_Suc2 All_less_Suc2 not_le) (auto simp: not_le dest: leD)
  qed
qed

lemma hal_reset_lines:
  assumes "reg_at P cell" "hal_reset_control_get True rs type idx = Some rc" "reset_line (rs ! rc_dev rc) idx = Some (a, b)"
  shows "\<exists>h'. hal_reset_control_deassert P rs (Some rc) h = Some (0, h') \<and> cell h' = (cell h)(a := cell h a OR b) \<and>
      hal_reset_control_status P rs (Some rc) h' = Some (if b = 0 then 1 else 0, h')" (is ?deassert)
    and "\<exists>h'. hal_reset_control_assert P rs (Some rc) h = Some (0, h') \<and> cell h' = (cell h)(a := cell h a AND NOT b) \<and>
      hal_reset_control_status P rs (Some rc) h' = Some (1, h')" (is ?assert)
    and "\<exists>h'. hal_reset_control_reset P rs (Some rc) h = Some (0, h') \<and> cell h' = (cell h)(a := cell h a OR b)" (is ?reset)
proof -
  have rc: "rc_dev rc < length rs" "rc_id rc = idx"
    using assms(2) by (auto simp: hal_reset_control_get_def find_reset_first split: option.splits)
  have rw: "ck_readl P a h = (cell h a, h)" "cell (ck_writel P v a h) = (cell h)(a := v)" for a v h
    using assms(1) by (auto simp: reg_at_def)
  have bits: "b AND (x OR b) = b" "b AND (x AND NOT b) = 0" "x AND NOT b OR b = x OR b" for x
    by (rule bit_word_eqI; auto simp: bit_simps)+
  show ?deassert ?assert ?reset
    using assms(3) rc by (simp_all add: hal_reset_control_deassert_def hal_reset_control_assert_def hal_reset_control_reset_def
      hal_reset_control_status_def on_line_def ccu_reset_deassert_def ccu_reset_assert_def ccu_reset_reset_def
      ccu_reset_status_def rw bits)
qed

end
