(* ===== verification/Ccu_Spi.thy ===== *)
theory Ccu_Spi
  imports Ccu_Rate Ccu_Reset Hal_Spi
begin

unbundle bit_operations_syntax

text \<open>
  The SPI driver on the clock and reset drivers: \<open>spi_clk_init\<close> with \<open>hal_clock_get\<close>,
  \<open>hal_clk_set_parent\<close> and the other calls of \<open>hal_clk.c\<close> and \<open>hal_reset.c\<close> in place of the functions
  of the record \<open>spi_plat\<close>. A handle of a clock is 0 for the null pointer and otherwise the number of
  the clock plus one; the handles of reset lines are the positions in the list of those allocated.
  \<open>rs\<close> are the registered reset controllers.
\<close>

record 'h soc =
  so_clks :: "'h clks"
  so_resets :: "reset_control list"

definition clk_of :: "nat \<Rightarrow> nat option" where
  "clk_of n = (if n = 0 then None else Some (n - 1))"

definition clk_handle :: "nat option \<Rightarrow> nat" where
  "clk_handle c = (case c of None \<Rightarrow> 0 | Some c \<Rightarrow> Suc c)"

definition soc_call :: "'a \<Rightarrow> ('h clks \<Rightarrow> ('a \<times> 'h clks) option) \<Rightarrow> 'h soc \<Rightarrow> 'a \<times> 'h soc" where
  "soc_call r f s = (case f (so_clks s) of Some (r, k) \<Rightarrow> (r, s\<lparr>so_clks := k\<rparr>) | None \<Rightarrow> (r, s))"

definition soc_reset_get :: "ccu_reset list \<Rightarrow> nat \<Rightarrow> 'h soc \<Rightarrow> nat \<times> 'h soc" where
  "soc_reset_get rs idx s = (case hal_reset_control_get True rs 0 (of_nat idx) of None \<Rightarrow> (0, s)
     | Some rc \<Rightarrow> (Suc (length (so_resets s)), s\<lparr>so_resets := so_resets s @ [rc]\<rparr>))"

definition soc_reset :: "(reset_control option \<Rightarrow> 'h \<Rightarrow> (int \<times> 'h) option) \<Rightarrow> nat \<Rightarrow> 'h soc \<Rightarrow> 'h soc" where
  "soc_reset f n s = (let rc = (if n = 0 then None else Some (so_resets s ! (n - 1))) in
     case f rc (ck_hw (so_clks s)) of None \<Rightarrow> s
     | Some (_, h) \<Rightarrow> s\<lparr>so_clks := (so_clks s)\<lparr>ck_hw := h\<rparr>\<rparr>)"

definition clocks_of_ccu :: "'h clk_plat \<Rightarrow> ccu_reset list \<Rightarrow> 'h soc spi_plat \<Rightarrow> bool" where
  "clocks_of_ccu K rs P \<longleftrightarrow>
     clock_get P = (\<lambda>n s. let (c, k) = hal_clock_get HAL_SUNXI_CCU n (so_clks s) in (clk_handle c, s\<lparr>so_clks := k\<rparr>)) \<and>
     plat_clk_set_parent P = (\<lambda>c p. soc_call (-1) (hal_clk_set_parent (clk_of c) (clk_of p))) \<and>
     plat_clk_set_rate P = (\<lambda>c rate. soc_call (-1) (hal_clk_set_rate (clk_of c) rate)) \<and>
     plat_clk_get_rate P = (\<lambda>c. soc_call 0 (hal_clk_get_rate (clk_of c))) \<and>
     clock_enable P = (\<lambda>c. soc_call (-1) (hal_clock_enable (clk_of c))) \<and>
     reset_control_get P = soc_reset_get rs \<and>
     reset_control_deassert P = soc_reset (hal_reset_control_deassert K rs)"

text \<open>The same calls on a part of a larger state, and those of \<open>spi_clk_exit\<close>.\<close>

definition clocks_through :: "('h \<Rightarrow> 'k soc) \<Rightarrow> ('k soc \<Rightarrow> 'h \<Rightarrow> 'h) \<Rightarrow> 'k clk_plat \<Rightarrow> ccu_reset list \<Rightarrow> 'h spi_plat \<Rightarrow> bool" where
  "clocks_through get put K rs P \<longleftrightarrow>
     clock_get P = (\<lambda>n. through get put (\<lambda>s. let (c, k) = hal_clock_get HAL_SUNXI_CCU n (so_clks s) in (clk_handle c, s\<lparr>so_clks := k\<rparr>))) \<and>
     plat_clk_set_parent P = (\<lambda>c p. through get put (soc_call (-1) (hal_clk_set_parent (clk_of c) (clk_of p)))) \<and>
     plat_clk_set_rate P = (\<lambda>c rate. through get put (soc_call (-1) (hal_clk_set_rate (clk_of c) rate))) \<and>
     plat_clk_get_rate P = (\<lambda>c. through get put (soc_call 0 (hal_clk_get_rate (clk_of c)))) \<and>
     clock_enable P = (\<lambda>c. through get put (soc_call (-1) (hal_clock_enable (clk_of c)))) \<and>
     reset_control_get P = (\<lambda>n. through get put (soc_reset_get rs n)) \<and>
     reset_control_deassert P = (\<lambda>n. over get put (soc_reset (hal_reset_control_deassert K rs) n))"

definition stops_through :: "('h \<Rightarrow> 'k soc) \<Rightarrow> ('k soc \<Rightarrow> 'h \<Rightarrow> 'h) \<Rightarrow> 'k clk_plat \<Rightarrow> ccu_reset list \<Rightarrow> 'h spi_plat \<Rightarrow> bool" where
  "stops_through get put K rs P \<longleftrightarrow>
     clock_disable P = (\<lambda>c. through get put (soc_call (-1) (hal_clock_disable (clk_of c)))) \<and>
     clock_put P = (\<lambda>c. over get put (\<lambda>s. s\<lparr>so_clks := snd (hal_clock_put (clk_of c) (so_clks s))\<rparr>)) \<and>
     reset_control_assert P = (\<lambda>n. over get put (soc_reset (hal_reset_control_assert K rs) n)) \<and>
     reset_control_put P = (\<lambda>n. over get put (\<lambda>s. s))"

lemma clocks_of_ccu_through: "clocks_of_ccu K rs P \<Longrightarrow> clocks_through id (\<lambda>k _. k) K rs P"
  by (simp add: clocks_of_ccu_def clocks_through_def fun_eq_iff)

text \<open>
  The clocks a port needs before \<open>spi_clk_init\<close>: its module clock \<open>c\<close> is that of the divider \<open>k\<close> and
  closed, its bus clock \<open>b\<close> has a gate, and \<open>q\<close> can be, or is already, the parent of \<open>c\<close>.
\<close>

definition spi_clocks :: "'h clk_plat \<Rightarrow> ('h \<Rightarrow> u64 \<Rightarrow> u32) \<Rightarrow> gate_table \<Rightarrow> (nat \<Rightarrow> nat) \<Rightarrow> ccu_mp \<Rightarrow>
    nat \<Rightarrow> nat \<Rightarrow> nat \<Rightarrow> 'h clks \<Rightarrow> counts \<Rightarrow> bool" where
  "spi_clocks K cell G rank k c b q s u \<longleftrightarrow>
     clk_driven (gate_enable K G) (gate_disable K G) (gate_open cell G) rank s u \<and> rates_read s \<and>
     c \<in> set (clk_root_list s) \<and> b \<in> set (clk_root_list s) \<and> q \<in> set (clk_root_list s) \<and> b \<noteq> c \<and>
     G c \<noteq> None \<and> G b \<noteq> None \<and> gate_free G (co_addr (mp_common k)) (mp_fields k) \<and>
     held s c = 0 \<and> cc_ops (cores s c) = ccu_mp_ops K k (length (cc_parents (cores s c))) \<and>
     1 < length (cc_parents (cores s c)) \<and> length (cc_parents (cores s c)) \<le> 2 ^ mx_width (mp_mux k) \<and>
     rank q < rank c \<and> (if cc_parent (cores s c) = Some q then mp_clock K cell k c q s
       else parent_index q (cc_name (cores s q)) 0 (cc_parents (cores s c)) \<noteq> None) \<and> cc_rate (cores s q) < 2 ^ 32 \<and>
     (\<forall>d. u d + length (clk_root_list s) < 2 ^ 32 - 2)"

section \<open>What keeps the counters and the gates\<close>

lemma clk_driven_counts:
  assumes "clk_driven en dis on rank s u" "clk_tree rank s'" "clk_root_list s' = clk_root_list s"
    "\<And>d. cc_ops (cores s' d) = cc_ops (cores s d) \<and> cc_enable_count (cores s' d) = cc_enable_count (cores s d)"
    "\<And>d. cc_parent (cores s' d) = cc_parent (cores s d) \<or> held s d = 0"
    "\<And>d. on d (ck_hw s') = on d (ck_hw s)"
  shows "clk_driven en dis on rank s' u"
proof -
  have h: "held s' = held s" using assms(4) by (simp add: held_def)
  have "held_by D (parent_of s') (held s) c = held_by D (parent_of s) (held s) c" for D c
    using assms(5) by (auto simp: held_by_def parent_of_def) (metis less_irrefl)+
  then have "balanced D (parent_of s') (held s') u = balanced D (parent_of s) (held s) u" for D
    by (simp add: balanced_def h)
  then show ?thesis using assms(1-4,6) h by (simp add: clk_driven_def)
qed

lemma retuned_gates:
  assumes "retuned cell k c s s'" "gate_free G (co_addr (mp_common k)) (mp_fields k)"
  shows "gate_open cell G d (ck_hw s') = gate_open cell G d (ck_hw s)"
proof -
  have "cell (ck_hw s') (co_addr co) AND g = cell (ck_hw s) (co_addr co) AND g" if "G d = Some (co, g)" for co g
  proof -
    have "co_addr co \<noteq> co_addr (mp_common k) \<or> g AND mp_fields k = 0"
      using assms(2) that by (auto simp: gate_free_def ac_simps)
    then show ?thesis using assms(1) by (simp add: retuned_def)
  qed
  then show ?thesis by (auto simp: gate_open_def split: option.splits)
qed

text \<open>The dividers of a clock keep their settings while gates are switched.\<close>

lemma fields_eq:
  assumes "x AND F = y AND F" "F AND push_bit sh (mask w) = push_bit sh (mask w)"
  shows "get_field sh w x = get_field sh w (y :: u32)"
proof (rule bit_word_eqI)
  fix n assume n: "n < LENGTH(32)"
  have l: "bit z (sh + n) \<Longrightarrow> sh + n < 32" for z :: u32 using bit_imp_le_length [of z "sh + n"] by simp
  have "bit (x AND F) (sh + n) = bit (y AND F) (sh + n)" by (simp add: assms(1))
  moreover have "bit (F AND push_bit sh (mask w)) (sh + n) = bit (push_bit sh (mask w) :: u32) (sh + n)" by (simp add: assms(2))
  ultimately show "bit (get_field sh w x) n = bit (get_field sh w y) n"
    using l by (auto simp: get_field_def bit_simps)
qed

lemma mp_fields_inside:
  "mp_fields k AND push_bit (dv_shift (mp_m k)) (mask (dv_width (mp_m k))) = push_bit (dv_shift (mp_m k)) (mask (dv_width (mp_m k)))"
  "mp_fields k AND push_bit (dv_shift (mp_p k)) (mask (dv_width (mp_p k))) = push_bit (dv_shift (mp_p k)) (mask (dv_width (mp_p k)))"
  "mp_fields k AND push_bit (mx_shift (mp_mux k)) (mask (mx_width (mp_mux k))) = push_bit (mx_shift (mp_mux k)) (mask (mx_width (mp_mux k)))"
  by (rule bit_word_eqI; auto simp: mp_fields_def bit_simps)+

lemma recalc_fields:
  assumes "mp_plain k" "reg_at K cell"
    "cell h' (co_addr (mp_common k)) AND mp_fields k = cell h (co_addr (mp_common k)) AND mp_fields k"
    "ccu_mp_recalc_rate K k x h = Some (r, h)"
  shows "ccu_mp_recalc_rate K k x h' = Some (r, h')"
  using assms(1,2,4) fields_eq [OF assms(3) mp_fields_inside(1)] fields_eq [OF assms(3) mp_fields_inside(2)]
  by (auto simp: ccu_mp_recalc_rate_def apply_prediv_plain has_feature_def mp_plain_def reg_at_def field_of_get Let_def)

text \<open>A clock of the divider \<open>k\<close> that is set to its parent and runs at the rate \<open>r\<close>.\<close>

definition mp_at_rate :: "'h clk_plat \<Rightarrow> ('h \<Rightarrow> u64 \<Rightarrow> u32) \<Rightarrow> ccu_mp \<Rightarrow> nat \<Rightarrow> nat \<Rightarrow> u64 \<Rightarrow> 'h clks \<Rightarrow> bool" where
  "mp_at_rate K cell k c q r s \<longleftrightarrow> mp_clock K cell k c q s \<and> rates_read s \<and> cc_rate (cores s q) < 2 ^ 32 \<and>
     ccu_mp_recalc_rate K k (cc_rate (cores s q)) (ck_hw s) = Some (r, ck_hw s)"

lemma same_clks_core: "same_clks s s' \<Longrightarrow> cores s' d = (cores s d)\<lparr>cc_enable_count := cc_enable_count (cores s' d)\<rparr>"
  by (simp add: same_clks_def)

lemma mp_at_rate_same:
  assumes "mp_plain k" "reg_at K cell" "gate_free G (co_addr (mp_common k)) (mp_fields k)"
    "same_clks s s'" "free_bits cell G (ck_hw s') = free_bits cell G (ck_hw s)" "mp_at_rate K cell k c q r s"
  shows "mp_at_rate K cell k c q r s'"
proof -
  have f: "cell (ck_hw s') (co_addr (mp_common k)) AND mp_fields k = cell (ck_hw s) (co_addr (mp_common k)) AND mp_fields k"
    using assms(3,5) by (simp add: free_bits_eq)
  have mux: "mux_of k (cell (ck_hw s') (co_addr (mp_common k))) = mux_of k (cell (ck_hw s) (co_addr (mp_common k)))"
    unfolding mux_of_def by (rule fields_eq [OF f mp_fields_inside(3)])
  have eq: "cc_ops (cores s' d) = cc_ops (cores s d)" "cc_parent (cores s' d) = cc_parent (cores s d)"
    "cc_parents (cores s' d) = cc_parents (cores s d)" "cc_rate (cores s' d) = cc_rate (cores s d)" for d
    by (subst same_clks_core [OF assms(4), of d]; simp)+
  have "clk_root_list s' = clk_root_list s" using assms(4) by (simp add: same_clks_def)
  then show ?thesis
    using assms(6) recalc_fields [OF assms(1,2) f] by (simp add: mp_at_rate_def mp_clock_def rates_read_def eq mux)
qed

lemma mp_at_rate_get:
  assumes "mp_plain k" "mux_plain k" "reg_at K cell" "clk_tree rank s" "mp_at_rate K cell k c q r s"
  shows "hal_clk_get_rate (Some c) s = Some (ucast r, s)"
  using clk_core_get_rate_mp [OF assms(1-3) _ assms(4)] assms(5) unfolding hal_clk_defs mp_at_rate_def option.case by blast


text \<open>Getting handles and switching reset lines changes nothing the clocks depend on.\<close>

definition same_but_count :: "'h clks \<Rightarrow> 'h clks \<Rightarrow> bool" where
  "same_but_count s s' \<longleftrightarrow> clk_root_list s' = clk_root_list s \<and>
     (\<forall>d. cores s' d = (cores s d)\<lparr>cc_count := cc_count (cores s' d)\<rparr>)"

lemma same_but_count_core: "same_but_count s s' \<Longrightarrow> cores s' d = (cores s d)\<lparr>cc_count := cc_count (cores s' d)\<rparr>"
  unfolding same_but_count_def by blast

lemma same_but_count_fields:
  assumes "same_but_count s s'"
  shows "clk_root_list s' = clk_root_list s" "cc_ops (cores s' d) = cc_ops (cores s d)"
    "cc_parent (cores s' d) = cc_parent (cores s d)" "cc_parents (cores s' d) = cc_parents (cores s d)"
    "cc_rate (cores s' d) = cc_rate (cores s d)" "cc_name (cores s' d) = cc_name (cores s d)"
    "cc_enable_count (cores s' d) = cc_enable_count (cores s d)"
    "cc_type (cores s' d) = cc_type (cores s d)" "cc_id (cores s' d) = cc_id (cores s d)"
proof -
  show "clk_root_list s' = clk_root_list s" using assms unfolding same_but_count_def by blast
  obtain x where "cores s' d = (cores s d)\<lparr>cc_count := x\<rparr>" using same_but_count_core [OF assms] by blast
  then show "cc_ops (cores s' d) = cc_ops (cores s d)"
    "cc_parent (cores s' d) = cc_parent (cores s d)" "cc_parents (cores s' d) = cc_parents (cores s d)"
    "cc_rate (cores s' d) = cc_rate (cores s d)" "cc_name (cores s' d) = cc_name (cores s d)"
    "cc_enable_count (cores s' d) = cc_enable_count (cores s d)"
    "cc_type (cores s' d) = cc_type (cores s d)" "cc_id (cores s' d) = cc_id (cores s d)"
    by simp_all
qed

lemma same_but_count_trans: "same_but_count s s' \<Longrightarrow> same_but_count s' s'' \<Longrightarrow> same_but_count s s''"
proof -
  assume h: "same_but_count s s'" "same_but_count s' s''"
  have "cores s'' d = (cores s d)\<lparr>cc_count := cc_count (cores s'' d)\<rparr>" for d
    by (subst same_but_count_core [OF h(2)], subst same_but_count_core [OF h(1)]) simp
  then show "same_but_count s s''"
    using same_but_count_fields(1) [OF h(1)] same_but_count_fields(1) [OF h(2)] unfolding same_but_count_def by metis
qed

lemma clk_core_get_same: "same_but_count s s' \<Longrightarrow> clk_core_get ty n s' = clk_core_get ty n s"
  by (simp add: clk_core_get_def same_but_count_fields)

lemma hal_clock_get_same:
  assumes "clk_core_get ty n s = Some c"
  shows "\<exists>s'. hal_clock_get ty n s = (Some c, s') \<and> same_but_count s s' \<and> ck_hw s' = ck_hw s"
  using assms by (simp add: hal_clk_defs) (simp add: same_but_count_def upd_core_def)

lemma mp_clock_same:
  assumes "mp_clock K cell k c q s" "same_but_count s s'"
    "cell (ck_hw s') (co_addr (mp_common k)) AND mp_fields k = cell (ck_hw s) (co_addr (mp_common k)) AND mp_fields k"
  shows "mp_clock K cell k c q s'"
proof -
  have "mux_of k (cell (ck_hw s') (co_addr (mp_common k))) = mux_of k (cell (ck_hw s) (co_addr (mp_common k)))"
    unfolding mux_of_def by (rule fields_eq [OF assms(3) mp_fields_inside(3)])
  then show ?thesis using assms(1) unfolding mp_clock_def same_but_count_fields [OF assms(2)] by simp
qed

lemma rates_read_same: "rates_read s \<Longrightarrow> same_but_count s s' \<Longrightarrow> rates_read s'"
  unfolding rates_read_def by (simp add: same_but_count_fields)

lemma held_same: "same_but_count s s' \<Longrightarrow> held s' = held s"
  by (simp add: held_def same_but_count_fields)

lemma driven_same:
  assumes "clk_driven en dis (gate_open cell G) rank s u" "same_but_count s s'"
    "\<And>d. gate_open cell G d (ck_hw s') = gate_open cell G d (ck_hw s)"
  shows "clk_driven en dis (gate_open cell G) rank s' u"
proof -
  have "clk_tree rank s" using assms(1) by (simp add: clk_driven_def)
  then have "clk_tree rank s'" by (rule clk_tree_same) (simp_all add: same_but_count_fields [OF assms(2)])
  then show ?thesis
    by (rule clk_driven_counts [OF assms(1)]) (simp_all add: same_but_count_fields [OF assms(2)] assms(3))
qed

lemma spi_clocks_same:
  assumes "spi_clocks K cell G rank k c b q s u" "same_but_count s s'"
    "\<And>d. gate_open cell G d (ck_hw s') = gate_open cell G d (ck_hw s)"
    "cell (ck_hw s') (co_addr (mp_common k)) AND mp_fields k = cell (ck_hw s) (co_addr (mp_common k)) AND mp_fields k"
  shows "spi_clocks K cell G rank k c b q s' u"
proof -
  note r = assms(1) [unfolded spi_clocks_def]
  have "clk_driven (gate_enable K G) (gate_disable K G) (gate_open cell G) rank s' u"
    using driven_same [OF _ assms(2,3)] r by blast
  moreover have "mp_clock K cell k c q s \<Longrightarrow> mp_clock K cell k c q s'"
    using mp_clock_same assms(2,4) by blast
  ultimately show ?thesis
    using r rates_read_same [OF _ assms(2)]
    unfolding spi_clocks_def held_same [OF assms(2)] same_but_count_fields [OF assms(2)] by (simp split: if_splits)
qed

text \<open>What the calls keep of all clocks but \<open>c\<close>, and of the names and operations of all.\<close>

definition same_setup :: "nat \<Rightarrow> 'h clks \<Rightarrow> 'h clks \<Rightarrow> bool" where
  "same_setup c s s' \<longleftrightarrow> clk_root_list s' = clk_root_list s \<and>
     (\<forall>d. cc_ops (cores s' d) = cc_ops (cores s d) \<and> cc_type (cores s' d) = cc_type (cores s d) \<and>
        cc_id (cores s' d) = cc_id (cores s d) \<and> length (cc_parents (cores s' d)) = length (cc_parents (cores s d)) \<and>
        (d \<noteq> c \<longrightarrow> cc_parent (cores s' d) = cc_parent (cores s d) \<and> cc_rate (cores s' d) = cc_rate (cores s d)))"

lemma same_setup_trans: "same_setup c s s' \<Longrightarrow> same_setup c s' s'' \<Longrightarrow> same_setup c s s''"
  by (simp add: same_setup_def)

lemma same_setups:
  "retuned cell k c s s' \<Longrightarrow> same_setup c s s'"
  "same_but_count s s' \<Longrightarrow> same_setup c s s'"
  by (simp_all add: retuned_def same_setup_def same_but_count_fields)

lemma same_clks_setup: "same_clks s s' \<Longrightarrow> same_setup c s s'"
proof -
  assume h: "same_clks s s'"
  have "cc_ops (cores s' d) = cc_ops (cores s d)" "cc_type (cores s' d) = cc_type (cores s d)"
    "cc_id (cores s' d) = cc_id (cores s d)" "cc_parents (cores s' d) = cc_parents (cores s d)"
    "cc_parent (cores s' d) = cc_parent (cores s d)" "cc_rate (cores s' d) = cc_rate (cores s d)" for d
    by (subst same_clks_core [OF h, of d]; simp)+
  then show ?thesis using h by (simp add: same_setup_def same_clks_def)
qed

text \<open>The parent, the rate and the gates of a port's clocks.\<close>

context gates
begin

lemma spi_clocks_run:
  assumes k: "mp_plain k" "mux_plain k" and ready: "spi_clocks P cell G rank k c b q s u"
    and some: "\<exists>(m, p) \<in> divisors (mp_max_m k) (mp_max_p k).
      0 < mp_rate (cc_rate (cores s q)) m p \<and> mp_rate (cc_rate (cores s q)) m p \<le> ucast freq"
  shows "\<exists>s1 s2 s3 s' r. hal_clk_set_parent (Some c) (Some q) s = Some (0, s1) \<and>
    hal_clk_set_rate (Some c) freq s1 = Some (0, s2) \<and> hal_clk_get_rate (Some c) s2 = Some (r, s2) \<and> r \<noteq> 0 \<and>
    hal_clock_enable (Some b) s2 = Some (0, s3) \<and> hal_clock_enable (Some c) s3 = Some (0, s') \<and>
    (\<exists>x. mp_at_rate P cell k c q x s' \<and> ucast x = r) \<and> same_setup c s s' \<and> r \<le> freq \<and>
    (\<forall>(m, p) \<in> divisors (mp_max_m k) (mp_max_p k).
      mp_rate (cc_rate (cores s q)) m p \<le> ucast freq \<longrightarrow> mp_rate (cc_rate (cores s q)) m p \<le> ucast r) \<and>
    clk_driven (gate_enable P G) (gate_disable P G) (gate_open cell G) rank s' (u(b := u b + 1, c := u c + 1)) \<and>
    gate_open cell G c (ck_hw s') \<and> gate_open cell G b (ck_hw s') \<and>
    (\<forall>a F. a \<noteq> co_addr (mp_common k) \<and> gate_free G a F \<longrightarrow> cell (ck_hw s') a AND F = cell (ck_hw s) a AND F)"
proof -
  let ?driven = "clk_driven (gate_enable P G) (gate_disable P G) (gate_open cell G) rank"
  let ?D = "set (clk_root_list s)" and ?rate = "cc_rate (cores s q)"
  note r = ready [unfolded spi_clocks_def]
  have drv: "?driven s u" and tree: "clk_tree rank s" and rr: "rates_read s" and free: "gate_free G (co_addr (mp_common k)) (mp_fields k)"
    and D: "c \<in> ?D" "b \<in> ?D" "q \<in> ?D" "b \<noteq> c" and low: "\<And>d. u d + length (clk_root_list s) < 2 ^ 32 - 2"
    using r by (auto simp: clk_driven_def)
  obtain s1 s2 x where s12: "hal_clk_set_parent (Some c) (Some q) s = Some (0, s1)" "hal_clk_set_rate (Some c) freq s1 = Some (0, s2)"
    "hal_clk_get_rate (Some c) s2 = Some (x, s2)" "x \<le> freq"
    "\<forall>(m, p) \<in> divisors (mp_max_m k) (mp_max_p k). mp_rate ?rate m p \<le> ucast freq \<longrightarrow> mp_rate ?rate m p \<le> ucast x"
    "mp_clock P cell k c q s2" "clk_tree rank s2" "rates_read s2" "retuned cell k c s s2"
    using clk_setup_mp [OF k regs D(1) _ _ _ D(3) _ _ tree rr _ some] r by blast
  have x0: "x \<noteq> 0" using some s12(5) by (auto simp: word_less_nat_alt word_le_nat_alt)
  have root: "clk_root_list s2 = clk_root_list s" and cnt: "cc_enable_count (cores s2 d) = cc_enable_count (cores s d)"
    and ops: "cc_ops (cores s2 d) = cc_ops (cores s d)" and par: "d \<noteq> c \<Longrightarrow> cc_parent (cores s2 d) = cc_parent (cores s d)"
    and rate: "d \<noteq> c \<Longrightarrow> cc_rate (cores s2 d) = cc_rate (cores s d)" for d
    using s12(9) by (auto simp: retuned_def)
  have drv2: "?driven s2 u"
  proof (rule clk_driven_counts [OF drv s12(7) root])
    show "cc_parent (cores s2 d) = cc_parent (cores s d) \<or> held s d = 0" for d using par r by (cases "d = c") auto
  qed (simp_all add: ops cnt retuned_gates [OF s12(9) free])
  have "q \<noteq> c" using r by auto
  obtain x' where at: "mp_at_rate P cell k c q x' s2"
    using ccu_mp_recalc_reads [OF k(1) regs, of "cc_rate (cores s q)" "ck_hw s2"] s12(6,8) rate [OF \<open>q \<noteq> c\<close>] r
    by (auto simp: mp_at_rate_def)
  have x': "ucast x' = x" using mp_at_rate_get [OF k regs s12(7) at] s12(3) by simp
  have held_low: "held s' d < 2 ^ 32 - 1" if "?driven s' v" "clk_root_list s' = clk_root_list s" "\<And>d. v d \<le> u d + 1" "d \<in> ?D" for s' :: "'h clks" and v d
  proof -
    have "card (held_by ?D (parent_of s') (held s') d) \<le> card ?D" by (intro card_mono) (auto simp: held_by_def)
    also have "\<dots> \<le> length (clk_root_list s)" by (rule card_length)
    finally have "card (held_by ?D (parent_of s') (held s') d) \<le> length (clk_root_list s)" .
    moreover have "held s' d = v d + card (held_by ?D (parent_of s') (held s') d)"
      using that by (simp add: clk_driven_def balanced_def)
    ultimately show ?thesis using low [of d] that(3) [of d] by simp
  qed
  have "\<forall>d \<in> set (clk_root_list s2). held s2 d < 2 ^ 32 - 1" using held_low [OF drv2 root] root by simp
  from switch.enable_counts [OF drv2 _ this, of b] D root
  obtain s3 where s3: "clk_core_enable (Some b) s2 = Some (0, s3)" "?driven s3 (u(b := u b + 1))" "same_clks s2 s3"
    "free_bits cell G (ck_hw s3) = free_bits cell G (ck_hw s2)"
    by auto
  have root3: "clk_root_list s3 = clk_root_list s" using s3(3) root by (simp add: same_clks_def)
  have "\<forall>d \<in> set (clk_root_list s3). held s3 d < 2 ^ 32 - 1" using held_low [OF s3(2) root3] root3 by simp
  from switch.enable_counts [OF s3(2) _ this, of c] D root3
  obtain s4 where s4: "clk_core_enable (Some c) s3 = Some (0, s4)" "?driven s4 ((u(b := u b + 1))(c := (u(b := u b + 1)) c + 1))"
    "same_clks s3 s4" "free_bits cell G (ck_hw s4) = free_bits cell G (ck_hw s3)"
    by auto
  have root4: "clk_root_list s4 = clk_root_list s" using s4(3) root3 by (simp add: same_clks_def)
  have u4: "(u(b := u b + 1))(c := (u(b := u b + 1)) c + 1) = u(b := u b + 1, c := u c + 1)" using D(4) by auto
  have at4: "mp_at_rate P cell k c q x' s4"
    by (rule mp_at_rate_same [OF k(1) regs free s4(3,4) mp_at_rate_same [OF k(1) regs free s3(3,4) at]])
  have stay: "same_setup c s s4"
    using same_setup_trans [OF same_setups(1) [OF s12(9)] same_setup_trans [OF same_clks_setup [OF s3(3)] same_clks_setup [OF s4(3)]]] .
  have open4: "gate_open cell G d (ck_hw s4)" if "d \<in> {b, c}" for d
  proof -
    have "0 < held s4 d" using s4(2) that D root4 by (fastforce simp: clk_driven_def balanced_def)
    then show ?thesis using s4(2) that D root4 r by (auto simp: clk_driven_def gate_enable_def)
  qed
  have bits: "cell (ck_hw s4) a AND F = cell (ck_hw s) a AND F" if "a \<noteq> co_addr (mp_common k)" "gate_free G a F" for a F
    using s4(4) s3(4) s12(9) that by (simp add: free_bits_eq retuned_def)
  show ?thesis
    using s12(1-5) x0 s3(1) s4(1,2) at4 x' stay open4 bits unfolding u4
    by (intro exI [of _ s1] exI [of _ s2] exI [of _ s3] exI [of _ s4] exI [of _ x]) (auto simp: hal_clk_defs)
qed

end

section \<open>Starting and stopping the clocks of a port\<close>

text \<open>
  What the clocks and the reset line of a port are: the gates of all clocks, an order of the clocks
  (\<open>clk_tree\<close>), the divider of the module clock, the numbers of the module clock, the bus clock and the
  PLL with its rate, and the reset line with its register and bit.
\<close>

record wires =
  w_gates :: gate_table
  w_rank :: "nat \<Rightarrow> nat"
  w_mp :: ccu_mp
  w_mclk :: nat
  w_bus_clk :: nat
  w_pclk :: nat
  w_pll_rate :: u64
  w_line :: reset_control
  w_reset :: "u64 \<times> u32"

definition wired :: "ccu_reset list \<Rightarrow> nat \<Rightarrow> wires \<Rightarrow> bool" where
  "wired rs p w \<longleftrightarrow> gates_apart (w_gates w) \<and> mp_plain (w_mp w) \<and> mux_plain (w_mp w) \<and>
     hal_reset_control_get True rs 0 (of_nat (SUNXI_CLK_RST_SPI p)) = Some (w_line w) \<and>
     reset_line (rs ! rc_dev (w_line w)) (rc_id (w_line w)) = Some (w_reset w) \<and>
     gate_free (w_gates w) (fst (w_reset w)) (snd (w_reset w)) \<and> fst (w_reset w) \<noteq> co_addr (mp_common (w_mp w))"

definition looked_up :: "nat \<Rightarrow> wires \<Rightarrow> 'h clks \<Rightarrow> bool" where
  "looked_up p w s \<longleftrightarrow> clk_core_get HAL_SUNXI_CCU (SUNXI_CLK_SPI p) s = Some (w_mclk w) \<and>
     clk_core_get HAL_SUNXI_CCU (SUNXI_CLK_BUS_SPI p) s = Some (w_bus_clk w) \<and>
     clk_core_get HAL_SUNXI_CCU SUNXI_CLK_PLL_SPI s = Some (w_pclk w)"

definition leaf :: "nat \<Rightarrow> 'h clks \<Rightarrow> bool" where
  "leaf c s \<longleftrightarrow> (\<forall>d \<in> set (clk_root_list s). d \<noteq> c \<longrightarrow> cc_parent (cores s d) \<noteq> Some c)"

definition reachable :: "wires \<Rightarrow> u32 \<Rightarrow> bool" where
  "reachable w freq \<longleftrightarrow> (\<exists>(m, p) \<in> divisors (mp_max_m (w_mp w)) (mp_max_p (w_mp w)).
     0 < mp_rate (w_pll_rate w) m p \<and> mp_rate (w_pll_rate w) m p \<le> ucast freq)"

definition best_rate :: "wires \<Rightarrow> u32 \<Rightarrow> u32 \<Rightarrow> bool" where
  "best_rate w freq r \<longleftrightarrow> r \<noteq> 0 \<and> r \<le> freq \<and> (\<forall>(m, p) \<in> divisors (mp_max_m (w_mp w)) (mp_max_p (w_mp w)).
     mp_rate (w_pll_rate w) m p \<le> ucast freq \<longrightarrow> mp_rate (w_pll_rate w) m p \<le> ucast r)"

text \<open>
  The clocks of a port before \<open>spi_clk_init\<close> and after it, when their users are \<open>u\<close> besides the port.
\<close>

definition clocks_off :: "'h clk_plat \<Rightarrow> ('h \<Rightarrow> u64 \<Rightarrow> u32) \<Rightarrow> wires \<Rightarrow> nat \<Rightarrow> counts \<Rightarrow> 'h clks \<Rightarrow> bool" where
  "clocks_off K cell w p u s \<longleftrightarrow> looked_up p w s \<and> cc_rate (cores s (w_pclk w)) = w_pll_rate w \<and>
     spi_clocks K cell (w_gates w) (w_rank w) (w_mp w) (w_mclk w) (w_bus_clk w) (w_pclk w) s u"

definition spi_layout :: "wires \<Rightarrow> 'h clks \<Rightarrow> counts \<Rightarrow> bool" where
  "spi_layout w s u \<longleftrightarrow> w_mclk w \<in> set (clk_root_list s) \<and> w_bus_clk w \<in> set (clk_root_list s) \<and>
     w_pclk w \<in> set (clk_root_list s) \<and> w_bus_clk w \<noteq> w_mclk w \<and> w_gates w (w_mclk w) \<noteq> None \<and> w_gates w (w_bus_clk w) \<noteq> None \<and>
     gate_free (w_gates w) (co_addr (mp_common (w_mp w))) (mp_fields (w_mp w)) \<and>
     length (cc_parents (cores s (w_mclk w))) \<le> 2 ^ mx_width (mp_mux (w_mp w)) \<and> w_rank w (w_pclk w) < w_rank w (w_mclk w) \<and>
     cc_rate (cores s (w_pclk w)) = w_pll_rate w \<and> w_pll_rate w < 2 ^ 32 \<and>
     (\<forall>d. u d + length (clk_root_list s) < 2 ^ 32 - 2) \<and> u (w_mclk w) = 0"

definition clocks_on :: "'h clk_plat \<Rightarrow> ('h \<Rightarrow> u64 \<Rightarrow> u32) \<Rightarrow> wires \<Rightarrow> nat \<Rightarrow> counts \<Rightarrow> u32 \<Rightarrow> 'h clks \<Rightarrow> bool" where
  "clocks_on K cell w p u r s \<longleftrightarrow> looked_up p w s \<and> spi_layout w s u \<and>
     (\<exists>x. mp_at_rate K cell (w_mp w) (w_mclk w) (w_pclk w) x s \<and> ucast x = r) \<and>
     clk_driven (gate_enable K (w_gates w)) (gate_disable K (w_gates w)) (gate_open cell (w_gates w)) (w_rank w) s
       (u(w_bus_clk w := u (w_bus_clk w) + 1, w_mclk w := u (w_mclk w) + 1)) \<and>
     gate_open cell (w_gates w) (w_mclk w) (ck_hw s) \<and> gate_open cell (w_gates w) (w_bus_clk w) (ck_hw s) \<and>
     cell (ck_hw s) (fst (w_reset w)) AND snd (w_reset w) = snd (w_reset w)"

lemma looked_up_setup: "looked_up p w s \<Longrightarrow> same_setup c s s' \<Longrightarrow> looked_up p w s'"
  by (simp add: looked_up_def clk_core_get_def same_setup_def)

lemma leaf_setup: "leaf c s \<Longrightarrow> same_setup c s s' \<Longrightarrow> leaf c s'"
  by (simp add: leaf_def same_setup_def)

lemma layout_setup:
  assumes "spi_layout w s u" "same_setup (w_mclk w) s s'"
  shows "spi_layout w s' u"
proof -
  have "w_pclk w \<noteq> w_mclk w" using assms(1) by (auto simp: spi_layout_def)
  then have "cc_rate (cores s' (w_pclk w)) = cc_rate (cores s (w_pclk w))" using assms(2) by (simp add: same_setup_def)
  moreover have "clk_root_list s' = clk_root_list s" "length (cc_parents (cores s' d)) = length (cc_parents (cores s d))" for d
    using assms(2) by (simp_all add: same_setup_def)
  ultimately show ?thesis using assms(1) by (simp add: spi_layout_def)
qed

lemma clocks_off_layout:
  assumes "clocks_off K cell w p u s"
  shows "spi_layout w s u"
proof -
  note r = assms [unfolded clocks_off_def spi_clocks_def]
  have "balanced (set (clk_root_list s)) (parent_of s) (held s) u" "w_mclk w \<in> set (clk_root_list s)" "held s (w_mclk w) = 0"
    using r by (simp_all add: clk_driven_def)
  then have "u (w_mclk w) = 0" by (auto simp: balanced_def)
  moreover have "w_pll_rate w < 2 ^ 32" using r by auto
  ultimately show ?thesis using r unfolding spi_layout_def by simp
qed

text \<open>A reset line is switched without effect on the gates and the divider.\<close>

lemma switch_line:
  assumes w: "wired rs p w" and K: "reg_at K cell"
  shows "\<exists>m. hal_reset_control_deassert K rs (Some (w_line w)) h = Some (0, m) \<and>
      cell m (fst (w_reset w)) AND snd (w_reset w) = snd (w_reset w) \<and>
      (\<forall>d. gate_open cell (w_gates w) d m = gate_open cell (w_gates w) d h) \<and>
      (\<forall>a. a \<noteq> fst (w_reset w) \<longrightarrow> cell m a = cell h a)"
    and "\<exists>m. hal_reset_control_assert K rs (Some (w_line w)) h = Some (0, m) \<and>
      cell m (fst (w_reset w)) AND snd (w_reset w) = 0 \<and>
      (\<forall>d. gate_open cell (w_gates w) d m = gate_open cell (w_gates w) d h) \<and>
      (\<forall>a. a \<noteq> fst (w_reset w) \<longrightarrow> cell m a = cell h a)"
proof -
  obtain ra rb where ab: "w_reset w = (ra, rb)" by fastforce
  have get: "hal_reset_control_get True rs 0 (of_nat (SUNXI_CLK_RST_SPI p)) = Some (w_line w)" and free: "gate_free (w_gates w) ra rb"
    using w by (simp_all add: wired_def ab)
  have rid: "rc_id (w_line w) = of_nat (SUNXI_CLK_RST_SPI p)"
    using get by (auto simp: hal_reset_control_get_def split: option.splits dest: sym)
  have line: "reset_line (rs ! rc_dev (w_line w)) (of_nat (SUNXI_CLK_RST_SPI p)) = Some (ra, rb)"
    using w by (simp add: wired_def ab rid)
  have gates: "gate_open cell (w_gates w) d m = gate_open cell (w_gates w) d h"
    if "cell m = (cell h)(ra := x)" "\<And>g. g AND rb = 0 \<Longrightarrow> x AND g = cell h ra AND g" for d m x
  proof -
    have "cell m (co_addr co) AND g = cell h (co_addr co) AND g" if "w_gates w d = Some (co, g)" for co g
    proof -
      have "co_addr co = ra \<Longrightarrow> rb AND g = 0" using free that unfolding gate_free_def by blast
      then have "co_addr co = ra \<Longrightarrow> g AND rb = 0" by (simp add: and.commute)
      then show ?thesis by (cases "co_addr co = ra") (simp_all add: \<open>cell m = _\<close> \<open>\<And>g. g AND rb = 0 \<Longrightarrow> _\<close>)
    qed
    then show ?thesis by (auto simp: gate_open_def split: option.splits)
  qed
  obtain m where m: "hal_reset_control_deassert K rs (Some (w_line w)) h = Some (0, m)" "cell m = (cell h)(ra := cell h ra OR rb)"
    using hal_reset_lines(1) [OF K get line, of h] by blast
  have "(cell h ra OR rb) AND rb = rb" by (rule bit_word_eqI) (auto simp: bit_simps)
  then show "\<exists>m. hal_reset_control_deassert K rs (Some (w_line w)) h = Some (0, m) \<and>
      cell m (fst (w_reset w)) AND snd (w_reset w) = snd (w_reset w) \<and>
      (\<forall>d. gate_open cell (w_gates w) d m = gate_open cell (w_gates w) d h) \<and>
      (\<forall>a. a \<noteq> fst (w_reset w) \<longrightarrow> cell m a = cell h a)"
    using m(1) gates [OF m(2)] by (intro exI [of _ m]) (simp add: ab m(2) word_disjoint)
  obtain n where n: "hal_reset_control_assert K rs (Some (w_line w)) h = Some (0, n)" "cell n = (cell h)(ra := cell h ra AND NOT rb)"
    using hal_reset_lines(2) [OF K get line, of h] by blast
  have "(cell h ra AND NOT rb) AND rb = 0" by (rule bit_word_eqI) (auto simp: bit_simps)
  then show "\<exists>m. hal_reset_control_assert K rs (Some (w_line w)) h = Some (0, m) \<and>
      cell m (fst (w_reset w)) AND snd (w_reset w) = 0 \<and>
      (\<forall>d. gate_open cell (w_gates w) d m = gate_open cell (w_gates w) d h) \<and>
      (\<forall>a. a \<noteq> fst (w_reset w) \<longrightarrow> cell m a = cell h a)"
    using n(1) gates [OF n(2)] by (intro exI [of _ n]) (simp add: ab n(2) word_disjoint)
qed

lemma clk_core_get_count: "same_but_count s s' \<Longrightarrow> looked_up p w s \<Longrightarrow> looked_up p w s'"
  by (rule looked_up_setup [OF _ same_setups(2)])

lemma hal_clock_put_same: "\<exists>s'. hal_clock_put (Some c) s = (0, s') \<and> same_but_count s s' \<and> ck_hw s' = ck_hw s"
  by (simp add: hal_clk_defs same_but_count_def upd_core_def)

context gates
begin

lemma clocks_stop:
  assumes G: "w_gates w = G" and k: "mp_plain (w_mp w)" and on: "clocks_on P cell w p u r s" and lf: "leaf (w_mclk w) s"
  shows "\<exists>s1 s2. hal_clock_disable (Some (w_mclk w)) s = Some (0, s1) \<and>
    hal_clock_disable (Some (w_bus_clk w)) s1 = Some (0, s2) \<and> same_setup (w_mclk w) s s2 \<and> clocks_off P cell w p u s2"
proof -
  let ?driven = "clk_driven (gate_enable P G) (gate_disable P G) (gate_open cell G) (w_rank w)"
  let ?c = "w_mclk w" and ?b = "w_bus_clk w"
  obtain x where names: "looked_up p w s" and lay: "spi_layout w s u" and at: "mp_at_rate P cell (w_mp w) ?c (w_pclk w) x s"
    and drv: "?driven s (u(?b := u ?b + 1, ?c := u ?c + 1))"
    using on unfolding clocks_on_def G by blast
  have D: "?c \<in> set (clk_root_list s)" "?b \<in> set (clk_root_list s)" "?b \<noteq> ?c" and free: "gate_free G (co_addr (mp_common (w_mp w))) (mp_fields (w_mp w))"
    and u0: "u ?c = 0"
    using lay by (simp_all add: spi_layout_def G)
  have undone: "(u(?b := u ?b + 1, ?c := u ?c + 1))(?c := (u(?b := u ?b + 1, ?c := u ?c + 1)) ?c - 1) = u(?b := u ?b + 1)"
    using D(3) by (auto simp: fun_eq_iff)
  obtain s1 where s1: "clk_core_disable (Some ?c) s = Some (0, s1)" "?driven s1 (u(?b := u ?b + 1))" "same_clks s s1"
    "free_bits cell G (ck_hw s1) = free_bits cell G (ck_hw s)"
    using switch.disable_counts [OF drv D(1)] unfolding undone by auto
  have D1: "?b \<in> set (clk_root_list s1)" using D(2) s1(3) by (simp add: same_clks_def)
  obtain s2 where s2: "clk_core_disable (Some ?b) s1 = Some (0, s2)" "?driven s2 u" "same_clks s1 s2"
    "free_bits cell G (ck_hw s2) = free_bits cell G (ck_hw s1)"
    using switch.disable_counts [OF s1(2) D1] by auto
  have stay: "same_setup ?c s s2" using same_setup_trans [OF same_clks_setup [OF s1(3)] same_clks_setup [OF s2(3)]] .
  have at2: "mp_at_rate P cell (w_mp w) ?c (w_pclk w) x s2"
    by (rule mp_at_rate_same [OF k regs free s2(3,4) mp_at_rate_same [OF k regs free s1(3,4) at]])
  have lay2: "spi_layout w s2 u" by (rule layout_setup [OF lay stay])
  have "parent_of s2 d \<noteq> Some ?c" if "d \<in> set (clk_root_list s2)" for d
  proof (cases "d = ?c")
    case True
    have "clk_tree (w_rank w) s2" using s2(2) by (simp add: clk_driven_def)
    then show ?thesis using that True unfolding clk_tree_def by (metis less_irrefl option.simps(5))
  next
    case False
    then show ?thesis using leaf_setup [OF lf stay] that by (simp add: leaf_def parent_of_def)
  qed
  then have "held_by (set (clk_root_list s2)) (parent_of s2) (held s2) ?c = {}" by (auto simp: held_by_def)
  then have "held s2 ?c = 0"
    using s2(2) lay2 u0 by (simp add: clk_driven_def balanced_def spi_layout_def)
  then have "clocks_off P cell w p u s2"
    using looked_up_setup [OF names stay] lay2 at2 s2(2)
    unfolding clocks_off_def spi_clocks_def spi_layout_def mp_at_rate_def mp_clock_def G by (simp add: mp_clock_def)
  then show ?thesis using s1(1) s2(1) stay by (auto simp: hal_clk_defs)
qed

end

text \<open>\<open>I\<close>: what the rest of the state keeps while the part changes.\<close>

lemma spi_clk_init_through:
  assumes P: "clocks_through get put K rs P" and K: "reg_at K cell" and w: "wired rs (sp_port s) w"
    and part: "\<And>k h. get (put k h) = k" "\<And>k h. I h \<Longrightarrow> I (put k h)" "I (sp_hw s)" and port: "sp_port s < 2"
    and off: "clocks_off K cell w (sp_port s) u (so_clks (get (sp_hw s)))" and reach: "reachable w freq"
  shows "\<exists>s' r. spi_clk_init P freq s = (SPI_MASTER_OK, s') \<and> best_rate w freq r \<and>
    clocks_on K cell w (sp_port s) u r (so_clks (get (sp_hw s'))) \<and> same_setup (w_mclk w) (so_clks (get (sp_hw s))) (so_clks (get (sp_hw s'))) \<and>
    sp_mclk s' = Suc (w_mclk w) \<and> sp_bus_clk s' = Suc (w_bus_clk w) \<and>
    (\<exists>n < length (so_resets (get (sp_hw s'))). sp_reset s' = Suc n \<and> so_resets (get (sp_hw s')) ! n = w_line w) \<and>
    I (sp_hw s') \<and> sp_port s' = sp_port s \<and> sp_base s' = sp_base s \<and> sp_irqnum s' = sp_irqnum s \<and> sp_mode_type s' = sp_mode_type s"
proof -
  let ?p = "sp_port s" and ?h = "get (sp_hw s)" and ?k = "so_clks (get (sp_hw s))"
  have names: "looked_up ?p w ?k" and rate: "cc_rate (cores ?k (w_pclk w)) = w_pll_rate w"
    and ready: "spi_clocks K cell (w_gates w) (w_rank w) (w_mp w) (w_mclk w) (w_bus_clk w) (w_pclk w) ?k u"
    using off by (simp_all add: clocks_off_def)
  have plain: "gates_apart (w_gates w)" "mp_plain (w_mp w)" "mux_plain (w_mp w)" "fst (w_reset w) \<noteq> co_addr (mp_common (w_mp w))"
    "gate_free (w_gates w) (fst (w_reset w)) (snd (w_reset w))"
    "hal_reset_control_get True rs 0 (of_nat (SUNXI_CLK_RST_SPI ?p)) = Some (w_line w)"
    using w by (simp_all add: wired_def)
  obtain m where m: "hal_reset_control_deassert K rs (Some (w_line w)) (ck_hw ?k) = Some (0, m)"
    "cell m (fst (w_reset w)) AND snd (w_reset w) = snd (w_reset w)"
    "\<And>d. gate_open cell (w_gates w) d m = gate_open cell (w_gates w) d (ck_hw ?k)"
    "\<And>a. a \<noteq> fst (w_reset w) \<Longrightarrow> cell m a = cell (ck_hw ?k) a"
    using switch_line(1) [OF w K, of "ck_hw ?k"] by blast
  let ?k1 = "?k\<lparr>ck_hw := m\<rparr>"
  have same1: "same_but_count ?k ?k1" by (simp add: same_but_count_def)
  have names1: "looked_up ?p w ?k1" using clk_core_get_count [OF same1 names] .
  obtain k2 where k2: "hal_clock_get HAL_SUNXI_CCU (SUNXI_CLK_SPI ?p) ?k1 = (Some (w_mclk w), k2)" "same_but_count ?k1 k2" "ck_hw k2 = m"
    using hal_clock_get_same [of HAL_SUNXI_CCU "SUNXI_CLK_SPI ?p" ?k1] names1 by (auto simp: looked_up_def)
  note same2 = same_but_count_trans [OF same1 k2(2)]
  obtain k3 where k3: "hal_clock_get HAL_SUNXI_CCU (SUNXI_CLK_BUS_SPI ?p) k2 = (Some (w_bus_clk w), k3)" "same_but_count k2 k3" "ck_hw k3 = m"
    using hal_clock_get_same [of HAL_SUNXI_CCU "SUNXI_CLK_BUS_SPI ?p" k2] clk_core_get_count [OF same2 names] k2(3) by (auto simp: looked_up_def)
  note same3 = same_but_count_trans [OF same2 k3(2)]
  obtain k4 where k4: "hal_clock_get HAL_SUNXI_CCU SUNXI_CLK_PLL_SPI k3 = (Some (w_pclk w), k4)" "same_but_count k3 k4" "ck_hw k4 = m"
    using hal_clock_get_same [of HAL_SUNXI_CCU SUNXI_CLK_PLL_SPI k3] clk_core_get_count [OF same3 names] k3(3) by (auto simp: looked_up_def)
  note same4 = same_but_count_trans [OF same3 k4(2)]
  have ready4: "spi_clocks K cell (w_gates w) (w_rank w) (w_mp w) (w_mclk w) (w_bus_clk w) (w_pclk w) k4 u"
    by (rule spi_clocks_same [OF ready same4]) (simp_all add: k4(3) m(3,4) plain(4) [symmetric])
  have rate4: "cc_rate (cores k4 (w_pclk w)) = w_pll_rate w" using same_but_count_fields(5) [OF same4] rate by simp
  obtain s1 s2 s3 s' r x where run: "hal_clk_set_parent (Some (w_mclk w)) (Some (w_pclk w)) k4 = Some (0, s1)"
    "hal_clk_set_rate (Some (w_mclk w)) freq s1 = Some (0, s2)" "hal_clk_get_rate (Some (w_mclk w)) s2 = Some (r, s2)" "r \<noteq> 0"
    "hal_clock_enable (Some (w_bus_clk w)) s2 = Some (0, s3)" "hal_clock_enable (Some (w_mclk w)) s3 = Some (0, s')"
    "mp_at_rate K cell (w_mp w) (w_mclk w) (w_pclk w) x s'" "ucast x = r" "same_setup (w_mclk w) k4 s'" "r \<le> freq"
    "\<forall>(m, p) \<in> divisors (mp_max_m (w_mp w)) (mp_max_p (w_mp w)).
      mp_rate (w_pll_rate w) m p \<le> ucast freq \<longrightarrow> mp_rate (w_pll_rate w) m p \<le> ucast r"
    "clk_driven (gate_enable K (w_gates w)) (gate_disable K (w_gates w)) (gate_open cell (w_gates w)) (w_rank w) s'
      (u(w_bus_clk w := u (w_bus_clk w) + 1, w_mclk w := u (w_mclk w) + 1))"
    "gate_open cell (w_gates w) (w_mclk w) (ck_hw s')" "gate_open cell (w_gates w) (w_bus_clk w) (ck_hw s')"
    "\<forall>a F. a \<noteq> co_addr (mp_common (w_mp w)) \<and> gate_free (w_gates w) a F \<longrightarrow> cell (ck_hw s') a AND F = cell (ck_hw k4) a AND F"
    using gates.spi_clocks_run [OF gates.intro [OF K plain(1)] plain(2,3) ready4, unfolded rate4, OF reach [unfolded reachable_def]] by blast
  have stay: "same_setup (w_mclk w) ?k s'" using same_setup_trans [OF same_setups(2) [OF same4] run(9)] .
  have line: "cell (ck_hw s') (fst (w_reset w)) AND snd (w_reset w) = snd (w_reset w)"
    using run(15) plain(4,5) m(2) k4(3) by simp
  have on: "clocks_on K cell w ?p u r s'"
    unfolding clocks_on_def
    using looked_up_setup [OF names stay] layout_setup [OF clocks_off_layout [OF off] stay] run(7,8,12-14) line by blast
  have best: "best_rate w freq r" unfolding best_rate_def using run(4,10,11) by blast
  let ?h1 = "?h\<lparr>so_resets := so_resets ?h @ [w_line w]\<rparr>"
  let ?put = "\<lambda>c h. put (get h\<lparr>so_clks := c\<rparr>) h"
  let ?g = "?put s' (?put s3 (?put s2 (?put s2 (?put s1 (?put k4 (?put k3 (?put k2 (?put ?k1 (put ?h1 (sp_hw s))))))))))"
  let ?s' = "s\<lparr>sp_reset := Suc (length (so_resets ?h)), sp_mclk := Suc (w_mclk w), sp_bus_clk := Suc (w_bus_clk w),
     sp_pclk := Suc (w_pclk w), sp_hw := ?g\<rparr>"
  have "spi_clk_init P freq s = (SPI_MASTER_OK, ?s')"
    using P port plain(6) m(1) k2(1) k3(1) k4(1) run(1-6)
    by (simp add: spi_clk_init_def clocks_through_def on_hw_def do_hw_def through_def over_def part(1) soc_reset_get_def
      soc_reset_def soc_call_def clk_of_def clk_handle_def)
  moreover have "get ?g = ?h1\<lparr>so_clks := s'\<rparr>" by (simp add: part(1))
  moreover have "I ?g" by (intro part(2,3))
  ultimately show ?thesis using on best stay
    by (intro exI [of _ ?s'] exI [of _ r]) (simp add: nth_append)
qed

lemma spi_clk_exit_through:
  assumes P: "clocks_through get put K rs P" "stops_through get put K rs P" and K: "reg_at K cell" and w: "wired rs (sp_port s) w"
    and part: "\<And>k h. get (put k h) = k" "\<And>k h. I h \<Longrightarrow> I (put k h)" "I (sp_hw s)"
    and on: "clocks_on K cell w (sp_port s) u r (so_clks (get (sp_hw s)))" and lf: "leaf (w_mclk w) (so_clks (get (sp_hw s)))"
    and handles: "sp_mclk s = Suc (w_mclk w)" "sp_bus_clk s = Suc (w_bus_clk w)"
      "n < length (so_resets (get (sp_hw s)))" "sp_reset s = Suc n" "so_resets (get (sp_hw s)) ! n = w_line w"
  shows "\<exists>h. spi_clk_exit P s = (SPI_MASTER_OK, s\<lparr>sp_hw := h\<rparr>) \<and> I h \<and>
    clocks_off K cell w (sp_port s) u (so_clks (get h)) \<and> same_setup (w_mclk w) (so_clks (get (sp_hw s))) (so_clks (get h))"
proof -
  let ?k = "so_clks (get (sp_hw s))" and ?c = "w_mclk w" and ?b = "w_bus_clk w"
  have plain: "gates_apart (w_gates w)" "mp_plain (w_mp w)" "fst (w_reset w) \<noteq> co_addr (mp_common (w_mp w))"
    using w by (simp_all add: wired_def)
  obtain s1 s2 where s2: "hal_clock_disable (Some ?c) ?k = Some (0, s1)" "hal_clock_disable (Some ?b) s1 = Some (0, s2)"
    "same_setup ?c ?k s2" "clocks_off K cell w (sp_port s) u s2"
    using gates.clocks_stop [OF gates.intro [OF K plain(1)] refl plain(2) on lf] by blast
  obtain s3 where s3: "hal_clock_put (Some ?c) s2 = (0, s3)" "same_but_count s2 s3" "ck_hw s3 = ck_hw s2"
    using hal_clock_put_same by blast
  obtain s4 where s4: "hal_clock_put (Some ?b) s3 = (0, s4)" "same_but_count s3 s4" "ck_hw s4 = ck_hw s3"
    using hal_clock_put_same by blast
  obtain m where m: "hal_reset_control_assert K rs (Some (w_line w)) (ck_hw s4) = Some (0, m)"
    "\<And>d. gate_open cell (w_gates w) d m = gate_open cell (w_gates w) d (ck_hw s4)"
    "\<And>a. a \<noteq> fst (w_reset w) \<Longrightarrow> cell m a = cell (ck_hw s4) a"
    using switch_line(2) [OF w K, of "ck_hw s4"] by blast
  let ?s5 = "s4\<lparr>ck_hw := m\<rparr>"
  have "same_but_count s4 ?s5" by (simp add: same_but_count_def)
  then have same: "same_but_count s2 ?s5" using same_but_count_trans s3(2) s4(2) by blast
  have off: "clocks_off K cell w (sp_port s) u ?s5"
  proof -
    have "spi_clocks K cell (w_gates w) (w_rank w) (w_mp w) ?c ?b (w_pclk w) ?s5 u"
      using s2(4) unfolding clocks_off_def
      by (intro spi_clocks_same [OF _ same]) (simp_all add: m(2,3) plain(3) [symmetric] s3(3) s4(3))
    then show ?thesis
      using s2(4) clk_core_get_count [OF same] same_but_count_fields(5) [OF same] unfolding clocks_off_def by simp
  qed
  let ?put = "\<lambda>c h. put (get h\<lparr>so_clks := c\<rparr>) h"
  let ?h4 = "?put s4 (?put s3 (?put s2 (?put s1 (sp_hw s))))"
  let ?h = "put (get (?put ?s5 ?h4)) (?put ?s5 ?h4)"
  have "spi_clk_exit P s = (SPI_MASTER_OK, s\<lparr>sp_hw := ?h\<rparr>)"
    using P handles s2(1,2) s3(1) s4(1) m(1)
    by (simp add: spi_clk_exit_def stops_through_def on_hw_def do_hw_def through_def over_def part(1) soc_call_def soc_reset_def clk_of_def)
  moreover have "get ?h = get (sp_hw s)\<lparr>so_clks := ?s5\<rparr>" by (simp add: part(1))
  moreover have "I ?h" by (intro part(2,3))
  moreover have "same_setup ?c ?k ?s5" using same_setup_trans [OF s2(3) same_setups(2) [OF same]] .
  ultimately show ?thesis using off by (intro exI [of _ ?h]) simp
qed
lemma clocks_on_rate:
  assumes "reg_at K cell" "mp_plain (w_mp w)" "mux_plain (w_mp w)" "clocks_on K cell w p u r s"
  shows "hal_clk_get_rate (Some (w_mclk w)) s = Some (r, s)"
  using assms mp_at_rate_get [OF assms(2,3,1)] unfolding clocks_on_def clk_driven_def by blast

lemma spi_clk_init_on_ccu:
  assumes P: "clocks_of_ccu K rs P" and K: "reg_at K cell" and G: "gates_apart G"
    and k: "mp_plain k" "mux_plain k" and port: "sp_port s < 2"
    and names: "clk_core_get HAL_SUNXI_CCU (SUNXI_CLK_SPI (sp_port s)) (so_clks (sp_hw s)) = Some c"
      "clk_core_get HAL_SUNXI_CCU (SUNXI_CLK_BUS_SPI (sp_port s)) (so_clks (sp_hw s)) = Some b"
      "clk_core_get HAL_SUNXI_CCU SUNXI_CLK_PLL_SPI (so_clks (sp_hw s)) = Some q"
    and ready: "spi_clocks K cell G rank k c b q (so_clks (sp_hw s)) u"
    and reset: "hal_reset_control_get True rs 0 (of_nat (SUNXI_CLK_RST_SPI (sp_port s))) = Some rc"
      "reset_line (rs ! rc_dev rc) (rc_id rc) = Some (ra, rb)" "gate_free G ra rb" "ra \<noteq> co_addr (mp_common k)"
    and some: "\<exists>(m, p) \<in> divisors (mp_max_m k) (mp_max_p k).
      0 < mp_rate (cc_rate (cores (so_clks (sp_hw s)) q)) m p \<and>
      mp_rate (cc_rate (cores (so_clks (sp_hw s)) q)) m p \<le> ucast freq"
  shows "\<exists>s' r. spi_clk_init P freq s = (SPI_MASTER_OK, s') \<and>
    hal_clk_get_rate (Some c) (so_clks (sp_hw s')) = Some (r, so_clks (sp_hw s')) \<and> r \<le> freq \<and>
    (\<forall>(m, p) \<in> divisors (mp_max_m k) (mp_max_p k).
      mp_rate (cc_rate (cores (so_clks (sp_hw s)) q)) m p \<le> ucast freq \<longrightarrow>
      mp_rate (cc_rate (cores (so_clks (sp_hw s)) q)) m p \<le> ucast r) \<and>
    gate_open cell G c (ck_hw (so_clks (sp_hw s'))) \<and> gate_open cell G b (ck_hw (so_clks (sp_hw s'))) \<and>
    cell (ck_hw (so_clks (sp_hw s'))) ra AND rb = rb \<and>
    clk_driven (gate_enable K G) (gate_disable K G) (gate_open cell G) rank (so_clks (sp_hw s')) (u(b := u b + 1, c := u c + 1))"
proof -
  obtain w where w: "w = \<lparr>w_gates = G, w_rank = rank, w_mp = k, w_mclk = c, w_bus_clk = b, w_pclk = q,
     w_pll_rate = cc_rate (cores (so_clks (sp_hw s)) q), w_line = rc, w_reset = (ra, rb)\<rparr>" by blast
  have wired: "wired rs (sp_port s) w" using G k reset by (simp add: wired_def w)
  have off: "clocks_off K cell w (sp_port s) u (so_clks (sp_hw s))" using names ready by (simp add: clocks_off_def looked_up_def w)
  have reach: "reachable w freq" using some by (simp add: reachable_def w)
  obtain s' r where s': "spi_clk_init P freq s = (SPI_MASTER_OK, s')" "best_rate w freq r"
    "clocks_on K cell w (sp_port s) u r (so_clks (sp_hw s'))"
    using spi_clk_init_through [OF clocks_of_ccu_through [OF P] K wired, where I = "\<lambda>_. True" and u = u and freq = freq]
      port off reach by auto
  then have "hal_clk_get_rate (Some c) (so_clks (sp_hw s')) = Some (r, so_clks (sp_hw s'))"
    using clocks_on_rate [OF K, of w] k by (simp add: w)
  then show ?thesis using s' by (intro exI [of _ s'] exI [of _ r]) (simp add: clocks_on_def best_rate_def w)
qed

end
