(* ===== verification/Spi_Init.thy ===== *)
theory Spi_Init
  imports Spi_Exchange Gpio_Spi Ccu_Spi
begin

unbundle bit_operations_syntax

text \<open>
  Initialisation of the SPI controller on the GPIO, clock and reset drivers: from a system whose pins
  are set up and whose clocks for the port are registered and not in use (\<open>system_off\<close>),
  \<open>aw_hal_spi_init\<close> and \<open>hal_spi_hw_config\<close> leave the controller ready for the transfers of
  \<open>Spi_Exchange\<close>, its pins configured, its clocks running, and the device on the bus untouched.
  What is assumed (\<open>spi_soc\<close>) is about hardware only.
\<close>

section \<open>A quiet controller\<close>

text \<open>A controller that is not in an exchange and whose interrupts are off.\<close>

definition quiet :: "'d ctl \<Rightarrow> bool" where
  "quiet c \<longleftrightarrow> c_phase c = Idle \<and> c_ier c = 0 \<and> c_tc c AND SPI_TC_XCH = 0 \<and> c_gc c AND SPI_GC_SRST = 0"

definition keeps :: "('h \<Rightarrow> 'd ctl) \<Rightarrow> ('h \<Rightarrow> 'h) \<Rightarrow> bool" where
  "keeps C f \<longleftrightarrow> (\<forall>h. quiet (C h) \<longrightarrow> quiet (C (f h)) \<and> c_dev (C (f h)) = c_dev (C h))"

text \<open>
  The hardware around the controller. The functions \<open>P\<close> that \<open>hal_spi.c\<close> calls are those of the
  GPIO, clock and reset drivers, which keep their state and their registers in the parts \<open>pio_of\<close> and
  \<open>soc_of\<close> of the whole. The laws: the registers of the clock controller and of the port controllers
  hold what is written; the registers of one device are not those of another; a soft reset, the
  interrupt controller and the clocks, gates and reset lines of the SoC leave a quiet controller
  quiet and the device on the bus alone; interrupt \<open>irqn\<close> can be requested.
\<close>

locale spi_soc = spi_controller P C D lag base irqn
  for P :: "'h spi_plat" and C :: "'h \<Rightarrow> 'd ctl" and D :: "'d device" and lag :: "'h \<Rightarrow> nat"
    and base :: u64 and irqn :: u16 +
  fixes soc_of :: "'h \<Rightarrow> 'k soc" and put_soc :: "'k soc \<Rightarrow> 'h \<Rightarrow> 'h" and K :: "'k clk_plat"
    and creg :: "'k \<Rightarrow> u64 \<Rightarrow> u32" and rs :: "ccu_reset list"
    and pio_of :: "'h \<Rightarrow> 'g gpio" and put_pio :: "'g gpio \<Rightarrow> 'h \<Rightarrow> 'h" and G :: "'g gpio_plat"
    and preg :: "'g \<Rightarrow> nat \<Rightarrow> u32"
  assumes soft_reset: "v AND SPI_GC_SRST \<noteq> 0 \<Longrightarrow> quiet (C h) \<Longrightarrow>
      quiet (C (plat_writel P v (base + SPI_GC_REG) h)) \<and>
      c_dev (C (plat_writel P v (base + SPI_GC_REG) h)) = c_dev (C h)"
    and request: "0 \<le> fst (request_irq P irqn h)" "keeps C (\<lambda>h. snd (request_irq P irqn h))"
    and enable: "keeps C (enable_irq P irqn)"
    and drivers: "clocks_through soc_of put_soc K rs P" "stops_through soc_of put_soc K rs P" "pins_through pio_of put_pio G P"
    and storage: "reg_at K creg" "pio_regs G preg"
    and soc_part: "soc_of (put_soc k h) = k" "pio_of (put_soc k h) = pio_of h" "keeps C (put_soc k)"
    and pio_part: "pio_of (put_pio g h) = g" "soc_of (put_pio g h) = soc_of h" "keeps C (put_pio g)"
    and apart: "soc_of (snd (plat_readl P a h)) = soc_of h" "pio_of (snd (plat_readl P a h)) = pio_of h"
      "soc_of (plat_writel P v a h) = soc_of h" "pio_of (plat_writel P v a h) = pio_of h"
      "soc_of (snd (request_irq P n h)) = soc_of h" "pio_of (snd (request_irq P n h)) = pio_of h"
      "soc_of (enable_irq P n h) = soc_of h" "pio_of (enable_irq P n h) = pio_of h"

text \<open>The system before the port \<open>p\<close>, with the clocks \<open>w\<close>, is initialised, and after it.\<close>

definition system_off :: "('h \<Rightarrow> 'k soc) \<Rightarrow> ('h \<Rightarrow> 'g gpio) \<Rightarrow> 'k clk_plat \<Rightarrow> ('k \<Rightarrow> u64 \<Rightarrow> u32) \<Rightarrow> wires \<Rightarrow> nat \<Rightarrow> counts \<Rightarrow> 'h \<Rightarrow> bool" where
  "system_off soc_of pio_of K creg w p u h \<longleftrightarrow> gpio_ready (pio_of h) \<and>
     clocks_off K creg w p u (so_clks (soc_of h)) \<and> leaf (w_mclk w) (so_clks (soc_of h))"

text \<open>The clocks run and the port holds them.\<close>

definition holds_clocks :: "('h \<Rightarrow> 'k soc) \<Rightarrow> 'k clk_plat \<Rightarrow> ('k \<Rightarrow> u64 \<Rightarrow> u32) \<Rightarrow> wires \<Rightarrow> counts \<Rightarrow> u32 \<Rightarrow> 'h spi \<Rightarrow> bool" where
  "holds_clocks soc_of K creg w u r s \<longleftrightarrow> clocks_on K creg w (sp_port s) u r (so_clks (soc_of (sp_hw s))) \<and>
     leaf (w_mclk w) (so_clks (soc_of (sp_hw s))) \<and> sp_mclk s = Suc (w_mclk w) \<and> sp_bus_clk s = Suc (w_bus_clk w) \<and>
     (\<exists>n < length (so_resets (soc_of (sp_hw s))). sp_reset s = Suc n \<and> so_resets (soc_of (sp_hw s)) ! n = w_line w)"

lemma holds_clocks_hw:
  "only_hw s s' \<Longrightarrow> soc_of (sp_hw s') = soc_of (sp_hw s) \<Longrightarrow> holds_clocks soc_of K creg w u r s \<Longrightarrow> holds_clocks soc_of K creg w u r s'"
  by (simp add: holds_clocks_def only_hw_fields)

text \<open>Steps of the initialisation that keep the controller quiet.\<close>

definition calm :: "('h \<Rightarrow> 'd ctl) \<Rightarrow> u64 \<Rightarrow> u16 \<Rightarrow> 'd \<Rightarrow> 'h spi \<Rightarrow> bool" where
  "calm C base irqn d s \<longleftrightarrow> sp_base s = base \<and> sp_irqnum s = irqn \<and>
     quiet (C (sp_hw s)) \<and> c_dev (C (sp_hw s)) = d"

lemma calm_on_hw:
  assumes "keeps C (\<lambda>h. snd (f h))" "calm C base irqn d s"
  shows "\<exists>s'. on_hw f s = (fst (f (sp_hw s)), s') \<and> calm C base irqn d s' \<and> only_hw s s'"
proof -
  obtain r h where f: "f (sp_hw s) = (r, h)" by fastforce
  have "quiet (C (snd (f (sp_hw s)))) \<and> c_dev (C (snd (f (sp_hw s)))) = d"
    using assms by (simp add: keeps_def calm_def)
  with assms(2) f show ?thesis by (simp add: on_hw_def calm_def)
qed

lemma calm_do_hw: "keeps C f \<Longrightarrow> calm C base irqn d s \<Longrightarrow> calm C base irqn d (do_hw f s) \<and> only_hw s (do_hw f s)"
  by (auto simp: do_hw_def calm_def keeps_def)

lemma clear_bits:
  assumes t: "t AND b = (0 :: u32)"
  shows "(t AND NOT m) AND b = 0" "m AND b = 0 \<Longrightarrow> set_bits c m t AND b = 0"
proof -
  show *: "(t AND NOT m) AND b = 0"
  proof -
    have "(t AND NOT m) AND b = (t AND b) AND NOT m" by (simp only: ac_simps)
    with t show ?thesis by simp
  qed
  assume "m AND b = 0"
  with * t show "set_bits c m t AND b = 0"
    by (simp only: set_bits_def bit.conj_disj_distrib2 split: if_split) simp
qed

lemma clear_tc_config:
  assumes "t AND b = 0" "b = SPI_TC_XCH \<or> b = 0x80000030"
  shows "tc_config n t AND b = 0"
proof -
  define u where "u = set_bits (n AND SPI_RECEIVE_ALL_ACTIVE = 0) SPI_TC_DHB
    (set_bits (n AND SPI_DUMMY_ONE_ACTIVE \<noteq> 0) SPI_TC_DDB
    (set_bits (n AND SPI_LSB_FIRST_ACTIVE \<noteq> 0) SPI_TC_FBS
    (set_bits (n AND SPI_CS_HIGH_ACTIVE = 0) SPI_TC_SPOL
    (set_bits (n AND SPI_PHA_ACTIVE \<noteq> 0) SPI_TC_PHA
    (set_bits (n AND SPI_POL_ACTIVE \<noteq> 0) SPI_TC_POL t)))))"
  have "u AND b = 0"
    unfolding u_def using assms(2) by (intro clear_bits(2) assms(1)) auto
  then show ?thesis
    using clear_bits(1) [of u b SPI_TC_SSCTL] by (simp only: tc_config_def Let_def u_def [symmetric])
qed

lemma or_absorb_and: "(x AND y) OR y = (y :: u32)"
  by (auto simp: bit_eq_iff bit_simps)

text \<open>What the transfer control register holds after the configuration calls.\<close>

lemma tc_configured:
  assumes "t AND 0x80000030 = 0"
  shows "set_bits False SPI_TC_SS_OWNER (tc_config 0 t) AND 0x8000137F = 0x104"
proof -
  have m: "(x AND a) AND b = x AND (a AND b)" "(x OR a) AND b = (x AND b) OR (a AND b)"
    "(x OR a) OR b = x OR (a OR b)" for x a b :: u32
    by (simp_all only: and.assoc or.assoc bit.conj_disj_distrib2)
  have a: "(t AND 0x104) OR 0x104 = 0x104" by (rule or_absorb_and)
  have "t AND 0x80000134 = (t AND 0x80000030) OR (t AND 0x104)" by (simp flip: bit.conj_disj_distrib)
  with assms a have "(t AND 0x80000134) OR 0x104 = 0x104" by simp
  then show ?thesis by (simp add: tc_config_def set_bits_def Let_def m)
qed

lemma gc_configured:
  "(((g OR SPI_GC_EN) OR SPI_GC_MODE) OR SPI_GC_TP_EN) AND 0x83 = 0x83"
  "g AND SPI_GC_SRST = 0 \<Longrightarrow> m AND SPI_GC_SRST = 0 \<Longrightarrow> (g OR m) AND SPI_GC_SRST = 0"
proof -
  have m: "(x OR a) AND b = (x AND b) OR (a AND b)" "(x OR a) OR b = x OR (a OR b)" for x a b :: u32
    by (simp_all only: or.assoc bit.conj_disj_distrib2)
  show "(((g OR SPI_GC_EN) OR SPI_GC_MODE) OR SPI_GC_TP_EN) AND 0x83 = 0x83"
    by (simp add: m or_absorb_and)
  show "g AND SPI_GC_SRST = 0 \<Longrightarrow> m AND SPI_GC_SRST = 0 \<Longrightarrow> (g OR m) AND SPI_GC_SRST = 0"
    by (simp only: m) simp
qed

context spi_soc
begin

text \<open>What the functions on the controller's registers leave alone.\<close>

lemma hal_regs_apart [simp]:
  "soc_of (sp_hw (update_reg P off f s)) = soc_of (sp_hw s)" "pio_of (sp_hw (update_reg P off f s)) = pio_of (sp_hw s)"
  "soc_of (sp_hw (hal_writel P v off s)) = soc_of (sp_hw s)" "pio_of (sp_hw (hal_writel P v off s)) = pio_of (sp_hw s)"
  "soc_of (sp_hw (snd (hal_readl P off s))) = soc_of (sp_hw s)" "pio_of (sp_hw (snd (hal_readl P off s))) = pio_of (sp_hw s)"
  by (simp_all add: update_reg_def hal_readl_def hal_writel_def apart Let_def case_prod_unfold)

lemma spi_regs_apart [simp]:
  "soc_of (sp_hw (spi_sample_delay P a b s)) = soc_of (sp_hw s)" "pio_of (sp_hw (spi_sample_delay P a b s)) = pio_of (sp_hw s)"
  "soc_of (sp_hw (snd (spi_set_cs P cs s))) = soc_of (sp_hw s)" "pio_of (sp_hw (snd (spi_set_cs P cs s))) = pio_of (sp_hw s)"
  by (simp_all add: spi_sample_delay_def spi_set_cs_def Let_def case_prod_unfold)

lemma calm_clk_init:
  assumes calm: "calm C base irqn d s" and w: "wired rs (sp_port s) w" "reachable w freq" and port: "sp_port s < 2"
    and off: "clocks_off K creg w (sp_port s) u (so_clks (soc_of (sp_hw s)))" "leaf (w_mclk w) (so_clks (soc_of (sp_hw s)))"
  shows "\<exists>s' r. spi_clk_init P freq s = (0, s') \<and> calm C base irqn d s' \<and> sp_port s' = sp_port s \<and>
    sp_mode_type s' = sp_mode_type s \<and> pio_of (sp_hw s') = pio_of (sp_hw s) \<and> holds_clocks soc_of K creg w u r s' \<and> best_rate w freq r"
proof -
  let ?I = "\<lambda>h. quiet (C h) \<and> c_dev (C h) = d \<and> pio_of h = pio_of (sp_hw s)"
  have part: "soc_of (put_soc k h) = k" "?I h \<Longrightarrow> ?I (put_soc k h)" "?I (sp_hw s)" for k h
    using soc_part(1,2) soc_part(3) [unfolded keeps_def] calm by (simp_all add: calm_def)
  from spi_clk_init_through [where I = ?I, OF drivers(1) storage(1) w(1) part port off(1) w(2)]
  obtain s' r where s': "spi_clk_init P freq s = (SPI_MASTER_OK, s')" "best_rate w freq r"
    "clocks_on K creg w (sp_port s) u r (so_clks (soc_of (sp_hw s')))"
    "same_setup (w_mclk w) (so_clks (soc_of (sp_hw s))) (so_clks (soc_of (sp_hw s')))"
    "sp_mclk s' = Suc (w_mclk w)" "sp_bus_clk s' = Suc (w_bus_clk w)"
    "\<exists>n < length (so_resets (soc_of (sp_hw s'))). sp_reset s' = Suc n \<and> so_resets (soc_of (sp_hw s')) ! n = w_line w"
    "?I (sp_hw s')" "sp_port s' = sp_port s" "sp_base s' = sp_base s" "sp_irqnum s' = sp_irqnum s" "sp_mode_type s' = sp_mode_type s"
    by blast
  have "holds_clocks soc_of K creg w u r s'"
    using s'(3,5-7,9) leaf_setup [OF off(2) s'(4)] by (simp add: holds_clocks_def)
  then show ?thesis using s'(1,2,8-12) calm by (intro exI [of _ s'] exI [of _ r]) (simp add: calm_def)
qed

lemma calm_clk_exit:
  assumes calm: "calm C base irqn d s" and w: "wired rs (sp_port s) w" and on: "holds_clocks soc_of K creg w u r s"
  shows "\<exists>s'. spi_clk_exit P s = (0, s') \<and> calm C base irqn d s' \<and> only_hw s s' \<and> pio_of (sp_hw s') = pio_of (sp_hw s) \<and>
    clocks_off K creg w (sp_port s) u (so_clks (soc_of (sp_hw s'))) \<and> leaf (w_mclk w) (so_clks (soc_of (sp_hw s')))"
proof -
  let ?I = "\<lambda>h. quiet (C h) \<and> c_dev (C h) = d \<and> pio_of h = pio_of (sp_hw s)"
  have part: "soc_of (put_soc k h) = k" "?I h \<Longrightarrow> ?I (put_soc k h)" "?I (sp_hw s)" for k h
    using soc_part(1,2) soc_part(3) [unfolded keeps_def] calm by (simp_all add: calm_def)
  have lf: "leaf (w_mclk w) (so_clks (soc_of (sp_hw s)))" and live: "clocks_on K creg w (sp_port s) u r (so_clks (soc_of (sp_hw s)))"
    and clk: "sp_mclk s = Suc (w_mclk w)" "sp_bus_clk s = Suc (w_bus_clk w)"
    using on by (simp_all add: holds_clocks_def)
  obtain n where n: "n < length (so_resets (soc_of (sp_hw s)))" "sp_reset s = Suc n" "so_resets (soc_of (sp_hw s)) ! n = w_line w"
    using on by (auto simp: holds_clocks_def)
  from spi_clk_exit_through [where I = ?I, OF drivers(1,2) storage(1) w part live lf clk n]
  obtain h where h: "spi_clk_exit P s = (SPI_MASTER_OK, s\<lparr>sp_hw := h\<rparr>)" "?I h"
    "clocks_off K creg w (sp_port s) u (so_clks (soc_of h))" "same_setup (w_mclk w) (so_clks (soc_of (sp_hw s))) (so_clks (soc_of h))"
    by blast
  then show ?thesis using calm leaf_setup [OF lf h(4)] by (intro exI [of _ "s\<lparr>sp_hw := h\<rparr>"]) (simp add: calm_def)
qed

lemma calm_config_clk:
  assumes calm: "calm C base irqn d s" and w: "wired rs (sp_port s) w" "reachable w freq" and port: "sp_port s < 2"
    and on: "holds_clocks soc_of K creg w u r s" "r \<noteq> 0"
  shows "\<exists>s' r. spi_config_clk P freq s = (0, s') \<and> calm C base irqn d s' \<and> sp_port s' = sp_port s \<and>
    sp_mode_type s' = sp_mode_type s \<and> pio_of (sp_hw s') = pio_of (sp_hw s) \<and> holds_clocks soc_of K creg w u r s' \<and> best_rate w freq r"
proof -
  have plain: "mp_plain (w_mp w)" "mux_plain (w_mp w)" using w(1) by (simp_all add: wired_def)
  define s1 where "s1 = s\<lparr>sp_hw := put_soc (soc_of (sp_hw s)) (sp_hw s)\<rparr>"
  have "hal_clk_get_rate (Some (w_mclk w)) (so_clks (soc_of (sp_hw s))) = Some (r, so_clks (soc_of (sp_hw s)))"
    using clocks_on_rate [OF storage(1) plain] on(1) by (auto simp: holds_clocks_def)
  then have get: "sunxi_get_spic_clk P s = (r, s1)"
    using drivers(1) on(1) by (simp add: sunxi_get_spic_clk_def clocks_through_def on_hw_def through_def soc_call_def
      clk_of_def holds_clocks_def s1_def)
  have s1: "calm C base irqn d s1" "only_hw s s1" "pio_of (sp_hw s1) = pio_of (sp_hw s)" "soc_of (sp_hw s1) = soc_of (sp_hw s)"
    using calm soc_part(1,2) soc_part(3) [unfolded keeps_def] by (simp_all add: s1_def calm_def)
  have f1: "sp_port s1 = sp_port s" "sp_mode_type s1 = sp_mode_type s" by (simp_all add: only_hw_fields [OF s1(2)])
  have on1: "holds_clocks soc_of K creg w u r s1" by (rule holds_clocks_hw [OF s1(2,4) on(1)])
  show ?thesis
  proof (cases "r = freq")
    case True
    then have "best_rate w freq r" using on(2) by (simp add: best_rate_def) 
    then show ?thesis using get on1 s1 f1 True by (intro exI [of _ s1] exI [of _ r]) (simp add: spi_config_clk_def)
  next
    case False
    obtain s2 where s2: "spi_clk_exit P s1 = (0, s2)" "calm C base irqn d s2" "only_hw s1 s2" "pio_of (sp_hw s2) = pio_of (sp_hw s1)"
      "clocks_off K creg w (sp_port s1) u (so_clks (soc_of (sp_hw s2)))" "leaf (w_mclk w) (so_clks (soc_of (sp_hw s2)))"
      using calm_clk_exit [OF s1(1) _ on1] w(1) f1 by auto
    have f2: "sp_port s2 = sp_port s" "sp_mode_type s2 = sp_mode_type s" by (simp_all add: only_hw_fields [OF s2(3)] f1)
    have w2: "wired rs (sp_port s2) w" and port2: "sp_port s2 < 2" and off2: "clocks_off K creg w (sp_port s2) u (so_clks (soc_of (sp_hw s2)))"
      using w(1) port s2(5) f1 f2 by simp_all
    obtain s3 r' where "spi_clk_init P freq s2 = (0, s3)" "calm C base irqn d s3" "sp_port s3 = sp_port s" "sp_mode_type s3 = sp_mode_type s"
      "pio_of (sp_hw s3) = pio_of (sp_hw s2)" "holds_clocks soc_of K creg w u r' s3" "best_rate w freq r'"
      using calm_clk_init [OF s2(2) w2 w(2) port2 off2 s2(6)] f2 by auto
    then show ?thesis using get s2(1,4) s1(3) on(2) False
      by (intro exI [of _ s3] exI [of _ r']) (simp add: spi_config_clk_def)
  qed
qed

lemma calm_tc:
  assumes "calm C base irqn d s" "c_tc (C (sp_hw s)) = t" "f t AND SPI_TC_XCH = 0"
  shows "calm C base irqn d (update_reg P SPI_TC_REG f s)"
    "c_tc (C (sp_hw (update_reg P SPI_TC_REG f s))) = f t"
    "c_gc (C (sp_hw (update_reg P SPI_TC_REG f s))) = c_gc (C (sp_hw s))"
  using assms by (simp_all add: calm_def quiet_def update_reg_eq idle_tc)

lemma calm_gc:
  assumes "calm C base irqn d s" "c_gc (C (sp_hw s)) = g" "f g AND SPI_GC_SRST = 0"
  shows "calm C base irqn d (update_reg P SPI_GC_REG f s)"
    "c_gc (C (sp_hw (update_reg P SPI_GC_REG f s))) = f g"
    "c_tc (C (sp_hw (update_reg P SPI_GC_REG f s))) = c_tc (C (sp_hw s))"
  using assms by (simp_all add: calm_def quiet_def update_reg_eq idle_gc)

lemma calm_readl_tc:
  assumes "calm C base irqn d s"
  shows "\<exists>s'. hal_readl P SPI_TC_REG s = (c_tc (C (sp_hw s)), s') \<and> calm C base irqn d s' \<and>
    only_hw s s' \<and> C (sp_hw s') = C (sp_hw s)"
proof -
  obtain v h where r: "plat_readl P (base + SPI_TC_REG) (sp_hw s) = (v, h)" by fastforce
  have "v = c_tc (C (sp_hw s)) \<and> C h = C (sp_hw s)"
    using idle_readl [OF _ _ r] assms by (simp add: ctl_regs_def ctl_read_def calm_def quiet_def)
  with r assms show ?thesis by (auto simp: hal_readl_def calm_def)
qed

lemma calm_writel_tc:
  assumes "calm C base irqn d s" "v AND SPI_TC_XCH = 0"
  shows "calm C base irqn d (hal_writel P v SPI_TC_REG s)" "c_tc (C (sp_hw (hal_writel P v SPI_TC_REG s))) = v"
    "only_hw s (hal_writel P v SPI_TC_REG s)"
proof -
  have "C (plat_writel P v (base + SPI_TC_REG) (sp_hw s)) = (C (sp_hw s))\<lparr>c_tc := v\<rparr>"
    using assms by (intro idle_writel) (simp_all add: ctl_regs_def ctl_write_def calm_def quiet_def)
  with assms show "calm C base irqn d (hal_writel P v SPI_TC_REG s)"
    "c_tc (C (sp_hw (hal_writel P v SPI_TC_REG s))) = v" "only_hw s (hal_writel P v SPI_TC_REG s)"
    by (simp_all add: hal_writel_def calm_def quiet_def)
qed

lemma calm_sample_delay:
  assumes "calm C base irqn d s"
  shows "calm C base irqn d (spi_sample_delay P a b s) \<and> only_hw s (spi_sample_delay P a b s)"
proof -
  let ?t = "c_tc (C (sp_hw s))"
  obtain s1 where s1: "hal_readl P SPI_TC_REG s = (?t, s1)" "calm C base irqn d s1" "only_hw s s1"
    using calm_readl_tc [OF assms] by blast
  have "?t AND SPI_TC_XCH = 0" using assms by (simp add: calm_def quiet_def)
  then have "set_bits (b \<noteq> 0) SPI_TC_SDC (set_bits (a \<noteq> 0) SPI_TC_SDM ?t) AND SPI_TC_XCH = 0"
    by (intro clear_bits(2)) simp_all
  from calm_writel_tc [OF s1(2) this] s1 show ?thesis
    by (auto simp: spi_sample_delay_def Let_def intro: only_hw_trans)
qed

lemma calm_soft_reset:
  assumes "calm C base irqn d s"
  shows "calm C base irqn d (spi_soft_reset P s) \<and> only_hw s (spi_soft_reset P s)"
proof -
  obtain v h where r: "plat_readl P (base + SPI_GC_REG) (sp_hw s) = (v, h)" by fastforce
  have c: "C h = C (sp_hw s)" and q: "quiet (C (sp_hw s))"
    using idle_readl [OF _ _ r] assms by (simp_all add: ctl_regs_def calm_def quiet_def)
  have "(v OR SPI_GC_SRST) AND SPI_GC_SRST \<noteq> 0"
    by (simp only: bit.conj_disj_distrib2) simp
  from soft_reset [OF this, of h] q c r assms show ?thesis
    by (simp add: spi_soft_reset_def update_reg_eq upd_hw_def calm_def)
qed

lemma calm_set_cs:
  assumes "calm C base irqn d s"
  shows "\<exists>s'. spi_set_cs P 0 s = (0, s') \<and> calm C base irqn d s' \<and> only_hw s s' \<and>
    c_tc (C (sp_hw s')) = (c_tc (C (sp_hw s)) AND NOT SPI_TC_SS_MASK) OR push_bit 4 0"
proof -
  let ?t = "c_tc (C (sp_hw s))"
  obtain s1 where s1: "hal_readl P SPI_TC_REG s = (?t, s1)" "calm C base irqn d s1" "only_hw s s1"
    using calm_readl_tc [OF assms] by blast
  have "?t AND SPI_TC_XCH = 0" using assms by (simp add: calm_def quiet_def)
  then have "((?t AND NOT SPI_TC_SS_MASK) OR push_bit 4 0) AND SPI_TC_XCH = 0"
    using clear_bits(1) [of ?t SPI_TC_XCH SPI_TC_SS_MASK] by simp
  from calm_writel_tc [OF s1(2) this] s1 show ?thesis
    by (auto simp: spi_set_cs_def intro: only_hw_trans)
qed

text \<open>The last steps of the configuration: master mode, automatic chip select, empty FIFOs.\<close>

lemma calm_enable:
  assumes calm: "calm C base irqn d s"
  shows "calm C base irqn d (spi_enable_tp P (spi_set_master P (spi_enable_bus P s)))"
    "c_gc (C (sp_hw (spi_enable_tp P (spi_set_master P (spi_enable_bus P s))))) AND 0x83 = 0x83"
    "c_tc (C (sp_hw (spi_enable_tp P (spi_set_master P (spi_enable_bus P s))))) = c_tc (C (sp_hw s))"
    "only_hw s (spi_enable_tp P (spi_set_master P (spi_enable_bus P s)))"
proof -
  let ?g = "c_gc (C (sp_hw s))" and ?a = "spi_enable_bus P s"
  let ?b = "spi_set_master P ?a" and ?e = "spi_enable_tp P (spi_set_master P (spi_enable_bus P s))"
  have g0: "?g AND SPI_GC_SRST = 0" using calm by (simp add: calm_def quiet_def)
  have g1: "(?g OR SPI_GC_EN) AND SPI_GC_SRST = 0" by (rule gc_configured(2) [OF g0]) simp
  have g2: "((?g OR SPI_GC_EN) OR SPI_GC_MODE) AND SPI_GC_SRST = 0" by (rule gc_configured(2) [OF g1]) simp
  have g3: "(((?g OR SPI_GC_EN) OR SPI_GC_MODE) OR SPI_GC_TP_EN) AND SPI_GC_SRST = 0"
    by (rule gc_configured(2) [OF g2]) simp
  have a: "calm C base irqn d ?a" "c_gc (C (sp_hw ?a)) = ?g OR SPI_GC_EN"
    "c_tc (C (sp_hw ?a)) = c_tc (C (sp_hw s))"
    using calm_gc [where f = "\<lambda>g. g OR SPI_GC_EN", OF calm refl g1] by (simp_all add: spi_enable_bus_def)
  have b: "calm C base irqn d ?b" "c_gc (C (sp_hw ?b)) = (?g OR SPI_GC_EN) OR SPI_GC_MODE"
    "c_tc (C (sp_hw ?b)) = c_tc (C (sp_hw s))"
    using calm_gc [where f = "\<lambda>g. g OR SPI_GC_MODE", OF a(1,2) g2] a(3)
    by (simp_all add: spi_set_master_def)
  have e: "calm C base irqn d ?e" "c_gc (C (sp_hw ?e)) = ((?g OR SPI_GC_EN) OR SPI_GC_MODE) OR SPI_GC_TP_EN"
    "c_tc (C (sp_hw ?e)) = c_tc (C (sp_hw s))"
    using calm_gc [where f = "\<lambda>g. g OR SPI_GC_TP_EN", OF b(1,2) g3] b(3)
    by (simp_all add: spi_enable_tp_def)
  show "calm C base irqn d ?e" "c_tc (C (sp_hw ?e)) = c_tc (C (sp_hw s))" using e by simp_all
  show "c_gc (C (sp_hw ?e)) AND 0x83 = 0x83" by (simp only: e(2) gc_configured(1))
  show "only_hw s ?e"
    unfolding spi_enable_tp_def spi_set_master_def spi_enable_bus_def
    by (rule only_hw_trans [OF only_hw_trans [OF only_hw_update_reg only_hw_update_reg] only_hw_update_reg])
qed

lemma calm_finish:
  assumes calm: "calm C base irqn d s" and gc: "c_gc (C (sp_hw s)) AND 0x83 = 0x83"
    and tc: "c_tc (C (sp_hw s)) = tc_config 0 t" "t AND 0x80000030 = 0"
  shows "calm C base irqn d (spi_reset_fifo P (spi_ss_owner P 0 s))"
    "ctl_ready (C (sp_hw (spi_reset_fifo P (spi_ss_owner P 0 s))))"
    "only_hw s (spi_reset_fifo P (spi_ss_owner P 0 s))"
proof -
  let ?a = "spi_ss_owner P 0 s" and ?e = "spi_reset_fifo P (spi_ss_owner P 0 s)"
  have "tc_config 0 t AND SPI_TC_XCH = 0"
    by (intro clear_tc_config and_0_sub [OF tc(2)]) simp_all
  then have x: "set_bits False SPI_TC_SS_OWNER (c_tc (C (sp_hw s))) AND SPI_TC_XCH = 0"
    by (intro clear_bits(2)) (simp_all add: tc(1))
  have a: "calm C base irqn d ?a" "c_tc (C (sp_hw ?a)) = set_bits False SPI_TC_SS_OWNER (tc_config 0 t)"
    "c_gc (C (sp_hw ?a)) = c_gc (C (sp_hw s))"
    using calm_tc [where f = "set_bits False SPI_TC_SS_OWNER", OF calm refl x]
    by (simp_all add: spi_ss_owner_def tc(1))
  have f: "C (sp_hw ?e) = (C (sp_hw ?a))\<lparr>c_txf := [], c_rxf := []\<rparr>"
    using a(1) by (simp add: spi_reset_fifo_def update_reg_eq calm_def quiet_def idle_fifo_reset)
  show o: "only_hw s ?e"
    unfolding spi_ss_owner_def spi_reset_fifo_def
    by (intro only_hw_trans [OF only_hw_update_reg only_hw_update_reg])
  show "calm C base irqn d ?e"
    using a(1) f only_hw_fields [OF o] calm by (simp add: calm_def quiet_def)
  show "ctl_ready (C (sp_hw ?e))"
    by (simp only: ctl_ready_def) (simp add: f a(2,3) gc tc_configured [OF tc(2)])
qed

text \<open>Configuration for the flash chip: chip select 0 and SPI mode 0.\<close>

lemma hw_config_idle:
  assumes calm: "calm C base irqn d s" and port: "port < 2" "par_reg_base (g_sunxi_spi_params ! port) = base"
    and cfg: "slave_port cfg = 0" "cpol cfg = 0" "cpha cfg = 0"
    and w: "wired rs port w" "reachable w (config_frequency cfg)" and on: "sp_port s = port" "holds_clocks soc_of K creg w u r s" "r \<noteq> 0"
  shows "\<exists>s' r. spi_hw_config_on P (Some cfg) port s = (0, s') \<and> spi_idle C base irqn s' \<and> c_dev (C (sp_hw s')) = d \<and>
    pio_of (sp_hw s') = pio_of (sp_hw s) \<and> sp_port s' = port \<and> holds_clocks soc_of K creg w u r s' \<and> best_rate w (config_frequency cfg) r"
proof -
  define s0 where "s0 = s\<lparr>sp_base := base, sp_port := port, sp_mode_type := MODE_TYPE_NULL\<rparr>"
  have c0: "calm C base irqn d s0" using calm by (simp add: s0_def calm_def)
  let ?f = "config_frequency cfg"
  define s1 where "s1 = (if ?f \<ge> SPI_HIGH_FREQUENCY then spi_sample_delay P 0 1 s0
    else if ?f \<le> SPI_LOW_FREQUENCY then spi_sample_delay P 1 0 s0 else spi_sample_delay P 0 0 s0)"
  have c1: "calm C base irqn d s1" "only_hw s0 s1" using calm_sample_delay [OF c0] by (simp_all add: s1_def)
  define s2 where "s2 = spi_soft_reset P s1"
  have c2: "calm C base irqn d s2" "only_hw s1 s2" using calm_soft_reset [OF c1(1)] by (simp_all add: s2_def)
  have p2: "sp_port s2 = port" "sp_mode_type s2 = MODE_TYPE_NULL"
    using only_hw_fields [OF only_hw_trans [OF c1(2) c2(2)]] by (simp_all add: s0_def)
  have "holds_clocks soc_of K creg w u r s0" using on(1,2) by (simp add: s0_def holds_clocks_def)
  then have h2: "holds_clocks soc_of K creg w u r s2" "pio_of (sp_hw s2) = pio_of (sp_hw s)"
    using holds_clocks_hw [OF only_hw_trans [OF c1(2) c2(2)], of soc_of]
    by (simp_all add: s2_def s1_def s0_def spi_soft_reset_def)
  obtain s3 r' where c3: "spi_config_clk P ?f s2 = (0, s3)" "calm C base irqn d s3" "sp_mode_type s3 = MODE_TYPE_NULL"
    "sp_port s3 = port" "pio_of (sp_hw s3) = pio_of (sp_hw s2)" "holds_clocks soc_of K creg w u r' s3" "best_rate w ?f r'"
    using calm_config_clk [OF c2(1) _ w(2) _ h2(1) on(3)] w(1) p2 port by auto
  obtain s4 where c4: "spi_set_cs P 0 s3 = (0, s4)" "calm C base irqn d s4" "only_hw s3 s4"
    "c_tc (C (sp_hw s4)) = (c_tc (C (sp_hw s3)) AND NOT SPI_TC_SS_MASK) OR push_bit 4 0"
    using calm_set_cs [OF c3(2)] by blast
  have t4: "c_tc (C (sp_hw s4)) AND 0x80000030 = 0"
  proof -
    have x: "c_tc (C (sp_hw s3)) AND SPI_TC_XCH = 0" using c3(2) by (simp add: calm_def quiet_def)
    have "(c_tc (C (sp_hw s3)) AND NOT SPI_TC_SS_MASK) AND 0x80000030 = c_tc (C (sp_hw s3)) AND (NOT SPI_TC_SS_MASK AND 0x80000030)"
      by (rule and.assoc)
    with x c4(4) show ?thesis by simp
  qed
  have x4: "tc_config SPI_LSB_FIRST_ACTIVE (c_tc (C (sp_hw s4))) AND SPI_TC_XCH = 0"
    by (intro clear_tc_config and_0_sub [OF t4]) simp_all
  define s5 where "s5 = (if bit_order cfg \<noteq> 0 then spi_config_tc P SPI_LSB_FIRST_ACTIVE s4 else s4)"
  have c5: "calm C base irqn d s5" "only_hw s4 s5" "c_tc (C (sp_hw s5)) AND 0x80000030 = 0"
    using c4(2) t4 calm_tc [where f = "tc_config SPI_LSB_FIRST_ACTIVE", OF c4(2) refl x4] clear_tc_config [OF t4, of SPI_LSB_FIRST_ACTIVE]
    by (simp_all add: s5_def spi_config_tc_def)
  define s6 where "s6 = spi_config_tc P (cpol cfg OR cpha cfg) s5"
  have x5: "tc_config 0 (c_tc (C (sp_hw s5))) AND SPI_TC_XCH = 0"
    by (intro clear_tc_config and_0_sub [OF c5(3)]) simp_all
  have c6: "calm C base irqn d s6" "c_tc (C (sp_hw s6)) = tc_config 0 (c_tc (C (sp_hw s5)))" "only_hw s5 s6"
    using calm_tc [where f = "tc_config 0", OF c5(1) refl x5] cfg by (simp_all add: s6_def spi_config_tc_def)
  define s7 where "s7 = spi_enable_tp P (spi_set_master P (spi_enable_bus P s6))"
  have c7: "calm C base irqn d s7" "c_gc (C (sp_hw s7)) AND 0x83 = 0x83"
    "c_tc (C (sp_hw s7)) = tc_config 0 (c_tc (C (sp_hw s5)))" "only_hw s6 s7"
    using calm_enable [OF c6(1)] c6(2) by (simp_all add: s7_def)
  define s8 where "s8 = spi_reset_fifo P (spi_ss_owner P 0 s7)"
  have c8: "calm C base irqn d s8" "ctl_ready (C (sp_hw s8))" "only_hw s7 s8"
    using calm_finish [OF c7(1-3) c5(3)] by (simp_all add: s8_def)
  have o: "only_hw s3 s8" using c4(3) c5(2) c6(3) c7(4) c8(3) by (blast intro: only_hw_trans)
  have "soc_of (sp_hw s4) = soc_of (sp_hw s3)" "pio_of (sp_hw s4) = pio_of (sp_hw s3)"
    using spi_regs_apart(3,4) [of 0 s3] by (simp_all add: c4(1))
  then have others: "soc_of (sp_hw s8) = soc_of (sp_hw s3)" "pio_of (sp_hw s8) = pio_of (sp_hw s3)"
    by (simp_all add: s8_def s7_def s6_def s5_def spi_reset_fifo_def spi_ss_owner_def spi_enable_tp_def spi_set_master_def
      spi_enable_bus_def spi_config_tc_def)
  have "holds_clocks soc_of K creg w u r' s8" by (rule holds_clocks_hw [OF o others(1) c3(6)])
  moreover
  have "spi_hw_config_on P (Some cfg) port s = (0, s8)"
    using c3(1) c4(1) cfg(1) port(2)
    by (simp add: spi_hw_config_on_def Let_def s0_def [symmetric] s1_def [symmetric] s2_def [symmetric]
        s5_def [symmetric] s6_def [symmetric] s7_def [symmetric] s8_def [symmetric] split: prod.splits)
  ultimately show ?thesis
    using c8 only_hw_fields [OF o] c3(3,4,5,7) h2(2) others(2)
    by (intro exI [of _ s8] exI [of _ r']) (simp add: spi_idle_def calm_def quiet_def)
qed

lemma init_idle:
  assumes q: "quiet (C (sp_hw s))" and port: "port < 2" "par_reg_base (g_sunxi_spi_params ! port) = base"
      "par_irq_num (g_sunxi_spi_params ! port) = irqn"
    and cfg: "slave_port cfg = 0" "cpol cfg = 0" "cpha cfg = 0"
    and w: "wired rs port w" "reachable w SPI_MAX_FREQUENCY" "reachable w (config_frequency cfg)"
    and off: "system_off soc_of pio_of K creg w port u (sp_hw s)"
  shows "\<exists>s' r. spi_init_on P port (Some cfg) s = (0, s') \<and> spi_idle C base irqn s' \<and>
    c_dev (C (sp_hw s')) = c_dev (C (sp_hw s)) \<and>
    clocks_on K creg w port u r (so_clks (soc_of (sp_hw s'))) \<and> best_rate w (config_frequency cfg) r \<and> gpio_ready (pio_of (sp_hw s')) \<and>
    (\<forall>f n. n < 352 \<longrightarrow> pin_field preg f n (gp_hw (pio_of (sp_hw s'))) = spi_pin_field f n (pin_field preg f n (gp_hw (pio_of (sp_hw s)))))"
proof -
  let ?d = "c_dev (C (sp_hw s))" and ?S = "soc_of (sp_hw s)"
  have clk: "clocks_off K creg w port u (so_clks ?S)" "leaf (w_mclk w) (so_clks ?S)" and gp: "gpio_ready (pio_of (sp_hw s))"
    using off by (simp_all add: system_off_def)
  define s0 where "s0 = s\<lparr>sp_base := base, sp_irqnum := irqn, sp_port := port, sp_mode_type := MODE_TYPE_NULL\<rparr>"
  have c0: "calm C base irqn ?d s0" using q by (simp add: s0_def calm_def)
  have hw: "sp_irqnum s0 = irqn" "sp_hw s0 = sp_hw s" "sp_port s0 = port" by (simp_all add: s0_def)
  obtain r s1 where s1: "on_hw (request_irq P irqn) s0 = (r, s1)" "\<not> r < 0" "calm C base irqn ?d s1" "only_hw s0 s1"
    using calm_on_hw [OF request(2) c0] request(1) [of "sp_hw s0"] by (metis not_less)
  have o1: "soc_of (sp_hw s1) = ?S" "pio_of (sp_hw s1) = pio_of (sp_hw s)"
    using s1(1) apart(5,6) [of irqn "sp_hw s"] hw by (auto simp: on_hw_def split: prod.splits)
  define s2 where "s2 = do_hw (enable_irq P irqn) s1"
  have s2: "calm C base irqn ?d s2" "only_hw s1 s2" "soc_of (sp_hw s2) = ?S" "pio_of (sp_hw s2) = pio_of (sp_hw s)"
    using calm_do_hw [OF enable s1(3)] o1 by (simp_all add: s2_def do_hw_def apart)
  have f2: "sp_port s2 = port" "sp_irqnum s1 = irqn"
    using only_hw_fields [OF only_hw_trans [OF s1(4) s2(2)]] only_hw_fields [OF s1(4)] hw by simp_all
  let ?I = "\<lambda>h. quiet (C h) \<and> c_dev (C h) = ?d \<and> soc_of h = ?S"
  have part: "pio_of (put_pio g h) = g" "?I h \<Longrightarrow> ?I (put_pio g h)" "?I (sp_hw s2)" for g h
    using pio_part(1,2) pio_part(3) [unfolded keeps_def] s2(1,3) by (simp_all add: calm_def)
  have gp2: "gpio_ready (pio_of (sp_hw s2))" "sp_port s2 < 2" using gp s2(4) f2(1) port(1) by simp_all
  from spi_pinctrl_through [where I = ?I, OF drivers(3) part storage(2) gp2, unfolded s2(4)]
  obtain h3 where h3: "spi_pinctrl_init P s2 = (0, s2\<lparr>sp_hw := h3\<rparr>)" "gpio_ready (pio_of h3)" "?I h3"
    "\<forall>f n. n < 352 \<longrightarrow> pin_field preg f n (gp_hw (pio_of h3)) = spi_pin_field f n (pin_field preg f n (gp_hw (pio_of (sp_hw s))))"
    by blast
  define s3 where "s3 = s2\<lparr>sp_hw := h3\<rparr>"
  have s3: "calm C base irqn ?d s3" "sp_port s3 = port" "soc_of (sp_hw s3) = ?S" "sp_hw s3 = h3"
    using s2(1) h3(3) f2(1) by (simp_all add: s3_def calm_def)
  have pre: "wired rs (sp_port s3) w" "sp_port s3 < 2" "clocks_off K creg w (sp_port s3) u (so_clks (soc_of (sp_hw s3)))"
    "leaf (w_mclk w) (so_clks (soc_of (sp_hw s3)))"
    using w(1) s3(2,3) port(1) clk by simp_all
  obtain s4 r4 where s4: "spi_clk_init P SPI_MAX_FREQUENCY s3 = (0, s4)" "calm C base irqn ?d s4" "sp_port s4 = port"
    "pio_of (sp_hw s4) = pio_of h3" "holds_clocks soc_of K creg w u r4 s4" "best_rate w SPI_MAX_FREQUENCY r4"
    using calm_clk_init [OF s3(1) pre(1) w(2) pre(2-4)] s3(2,4) by blast
  define s5 where "s5 = spi_soft_reset P s4"
  have s5: "calm C base irqn ?d s5" "only_hw s4 s5" "soc_of (sp_hw s5) = soc_of (sp_hw s4)" "pio_of (sp_hw s5) = pio_of h3"
    using calm_soft_reset [OF s4(2)] s4(4) by (simp_all add: s5_def spi_soft_reset_def)
  have "r4 \<noteq> 0" "sp_port s5 = port" using s4(3,6) only_hw_fields [OF s5(2)] by (simp_all add: best_rate_def)
  then obtain s6 r where s6: "spi_hw_config_on P (Some cfg) port s5 = (0, s6)" "spi_idle C base irqn s6" "c_dev (C (sp_hw s6)) = ?d"
    "pio_of (sp_hw s6) = pio_of h3" "sp_port s6 = port" "holds_clocks soc_of K creg w u r s6" "best_rate w (config_frequency cfg) r"
    using hw_config_idle [OF s5(1) port(1,2) cfg w(1,3) _ holds_clocks_hw [OF s5(2,3) s4(5)]] s5(4) by auto
  have "spi_init_on P port (Some cfg) s = (0, s6)"
    using s1(1,2) h3(1) s4(1) s6(1) port(2,3) f2 hw(1)
    by (simp add: spi_init_on_def Let_def s0_def [symmetric] s2_def [symmetric] s3_def [symmetric] s5_def [symmetric])
  then show ?thesis using s6 h3(2,4) by (intro exI [of _ s6] exI [of _ r]) (simp add: holds_clocks_def)
qed

end

end
