(* ===== verification/Spi_Stack.thy ===== *)
theory Spi_Stack
  imports Spi_Init Nor_Board
begin

unbundle bit_operations_syntax

text \<open>
  The flash driver on the SPI controller driver: the calls of \<open>core.c\<close> to \<open>hal_spi_xfer\<close>,
  \<open>aw_hal_spi_init\<close> and \<open>hal_spi_deinit\<close> are those of \<open>hal_spi.c\<close>, on the registers of a
  controller with the flash chip behind it. What the flash driver expects of its board (\<open>board\<close>)
  follows from the chip's own data sheet and the controller's manual.
\<close>

section \<open>The board made of the two drivers\<close>

text \<open>The descriptor \<open>nor_transfer\<close> fills in; without bytes to receive its buffer pointer is null.\<close>

definition spi_descr :: "spi_transfer \<Rightarrow> hal_spi_tr" where
  "spi_descr tr = \<lparr>tr_tx_buf = Some (tx_data tr), tr_tx_len = of_nat (length (tx_data tr)),
     tr_tx_single_len = of_nat (tx_single_len tr),
     tr_rx_buf = (if rx_len tr = 0 then None else Some (replicate (rx_len tr) 0)),
     tr_rx_len = of_nat (rx_len tr), tr_tx_nbits = ucast (tx_nbits tr), tr_rx_nbits = ucast (rx_nbits tr),
     tr_dummy_byte = dummy_byte tr\<rparr>"

definition spi_env ::
  "'h spi_plat \<Rightarrow> (u32 \<Rightarrow> 'h \<Rightarrow> 'h) \<Rightarrow> ('h \<Rightarrow> bool \<times> 'h) \<Rightarrow> 'h spi_ports env"
where
  "spi_env P W A = \<lparr>
     spi_xfer = (\<lambda>p tr G. do {
       ((r, rx), G) \<leftarrow> hal_spi_xfer P p (Some (spi_descr tr)) G;
       Some (r, case rx of None \<Rightarrow> [] | Some rx \<Rightarrow> rx, G)
     }),
     spi_init = (\<lambda>p cfg. aw_hal_spi_init P p (Some cfg)),
     spi_deinit = hal_spi_deinit P,
     delay_ms = (\<lambda>t G. G\<lparr>spi_hw := W t (spi_hw G)\<rparr>),
     sem_alloc = (\<lambda>G. let (ok, h) = A (spi_hw G) in (ok, G\<lparr>spi_hw := h\<rparr>))\<rparr>"

text \<open>The chip alone, as a device that answers one transaction at a time.\<close>

definition dev_env :: "'d device \<Rightarrow> (u32 \<Rightarrow> 'd \<Rightarrow> 'd) \<Rightarrow> 'd env" where
  "dev_env D Wd = \<lparr>
     spi_xfer = (\<lambda>p tr d. let (rx, d) = D (tr_wire (spi_descr tr)) d in Some (0, rx, d)),
     spi_init = (\<lambda>p cfg d. Some (0, d)), spi_deinit = (\<lambda>p d. Some (0, d)),
     delay_ms = Wd, sem_alloc = (\<lambda>d. (True, d))\<rparr>"

definition port0_ok :: "('h \<Rightarrow> 'd ctl) \<Rightarrow> 'h spi_ports \<Rightarrow> bool" where
  "port0_ok C G \<longleftrightarrow> g_sunxi_spi G \<noteq> [] \<and>
     spi_idle C (par_reg_base SPI0_PARAMS) (par_irq_num SPI0_PARAMS) (port_at 0 G)"

text \<open>The flash behind the controller; out of operation it counts as busy for ever.\<close>

definition spi_view :: "('h \<Rightarrow> 'd ctl) \<Rightarrow> 'd chip_view \<Rightarrow> ('h \<Rightarrow> bool) \<Rightarrow> 'h spi_ports chip_view" where
  "spi_view C V off = \<lparr>cell = (\<lambda>G. cell V (c_dev (C (spi_hw G)))), latch = (\<lambda>G. latch V (c_dev (C (spi_hw G)))),
     busy_polls = (\<lambda>G. busy_polls V (c_dev (C (spi_hw G))) + (if port0_ok C G then 0 else 2 ^ 32)),
     sr2 = (\<lambda>G. sr2 V (c_dev (C (spi_hw G)))),
     standby = (\<lambda>G. g_sunxi_spi G \<noteq> [] \<and> quiet (C (spi_hw G)) \<and> off (spi_hw G) \<and> standby V (c_dev (C (spi_hw G)))),
     capacity = capacity V\<rparr>"

section \<open>Descriptors\<close>

definition fits_wire :: "spi_transfer \<Rightarrow> bool" where
  "fits_wire tr \<longleftrightarrow> tx_data tr \<noteq> [] \<and> length (tx_data tr) + rx_len tr < 2 ^ 16 \<and>
     tx_single_len tr < 2 ^ 16 \<and> dummy_byte tr < 16"

lemma fits_descr:
  assumes "fits_wire tr"
  shows "tr_ok (spi_descr tr)" "rx_count (spi_descr tr) = rx_len tr"
proof -
  have l: "unat (of_nat n :: u32) = n" if "n < 2 ^ 16" for n
    using that by (simp add: unat_of_nat)
  have n: "length (tx_data tr) < 2 ^ 16" "rx_len tr < 2 ^ 16" "length (tx_data tr) + rx_len tr < 2 ^ 16"
    "tx_single_len tr < 2 ^ 16" "0 < length (tx_data tr)" "dummy_byte tr < 16"
    using assms by (auto simp: fits_wire_def)
  have d: "unat (dummy_byte tr) < 16" using n(6) by (simp add: word_less_nat_alt)
  have nz: "(of_nat (length (tx_data tr)) :: u32) \<noteq> 0"
    using l [OF n(1)] n(5) by (metis unat_0 less_irrefl)
  show r: "rx_count (spi_descr tr) = rx_len tr"
    using n by (simp add: rx_count_def spi_descr_def l)
  have t: "length (tx_bytes (spi_descr tr)) = length (tx_data tr)"
    using n by (simp add: tx_bytes_def spi_descr_def l)
  show "tr_ok (spi_descr tr)"
    unfolding tr_ok_def using n d nz
    by (simp only: r t) (simp add: spi_descr_def l)
qed

lemma fits_plain: "plain tr \<Longrightarrow> tx_data tr \<noteq> [] \<Longrightarrow> length (tx_data tr) \<le> 8 \<Longrightarrow> rx_len tr \<le> 8 \<Longrightarrow> fits_wire tr"
  by (simp add: fits_wire_def plain_def)

lemma fits_read:
  "tx_data tr = op # ab \<Longrightarrow> op \<in> read_ops (length ab) \<Longrightarrow> wire_mode op (length ab) tr \<Longrightarrow>
   rx_len tr \<le> 256 \<Longrightarrow> fits_wire tr"
  by (auto simp: fits_wire_def wire_mode_def read_ops_def split: if_splits)

lemma fits_program:
  "tx_data tr = op # ab @ bs \<Longrightarrow> op \<in> prog_ops (length ab) \<Longrightarrow> wire_mode op (length ab) tr \<Longrightarrow>
   rx_len tr = 0 \<Longrightarrow> length bs \<le> 256 \<Longrightarrow> fits_wire tr"
  by (auto simp: fits_wire_def wire_mode_def prog_ops_def read_ops_def prog_header_def split: if_splits)

lemma fits_erase:
  "tx_data tr = op # ab \<Longrightarrow> erase_bytes (length ab) op \<noteq> 0 \<Longrightarrow> wire_mode op (length ab) tr \<Longrightarrow>
   rx_len tr = 0 \<Longrightarrow> fits_wire tr"
  by (auto simp: fits_wire_def wire_mode_def erase_bytes_def read_ops_def prog_header_def split: if_splits)

section \<open>The contract of the board\<close>

text \<open>
  The hardware of \<open>spi_soc\<close> with the registers and the interrupt of port 0 and its clocks \<open>w\<close>, whose
  PLL can be divided to the rates the drivers ask for, and the parts of the operating system the
  flash driver calls: sleeping lets time pass for the chip alone, and allocating a semaphore
  succeeds and touches no hardware.
\<close>

locale spi_board =
  soc: spi_soc P C D lag "par_reg_base SPI0_PARAMS" "par_irq_num SPI0_PARAMS" soc_of put_soc K creg rs pio_of put_pio G preg
  for P :: "'h spi_plat" and C :: "'h \<Rightarrow> 'd ctl" and D :: "'d device" and lag :: "'h \<Rightarrow> nat"
    and soc_of :: "'h \<Rightarrow> 'k soc" and put_soc :: "'k soc \<Rightarrow> 'h \<Rightarrow> 'h" and K :: "'k clk_plat"
    and creg :: "'k \<Rightarrow> u64 \<Rightarrow> u32" and rs :: "ccu_reset list"
    and pio_of :: "'h \<Rightarrow> 'g gpio" and put_pio :: "'g gpio \<Rightarrow> 'h \<Rightarrow> 'h" and G :: "'g gpio_plat"
    and preg :: "'g \<Rightarrow> nat \<Rightarrow> u32" +
  fixes w :: wires and W :: "u32 \<Rightarrow> 'h \<Rightarrow> 'h" and Wd :: "u32 \<Rightarrow> 'd \<Rightarrow> 'd" and A :: "'h \<Rightarrow> bool \<times> 'h"
  assumes wires: "wired rs 0 w" "reachable w SPI_MAX_FREQUENCY" "reachable w 50000000"
    and delay_dev: "c_dev (C (W t h)) = Wd t (c_dev (C h))"
    and delay_idle: "c_phase (C h) = Idle \<Longrightarrow> C (W t h) = (C h)\<lparr>c_dev := Wd t (c_dev (C h))\<rparr>"
    and alloc: "fst (A h)" "C (snd (A h)) = C h" "soc_of (snd (A h)) = soc_of h" "pio_of (snd (A h)) = pio_of h"
begin

text \<open>Before initialisation: nothing uses the clocks of the port.\<close>

abbreviation unused :: "'h \<Rightarrow> bool" where
  "unused h \<equiv> (\<exists>u. system_off soc_of pio_of K creg w 0 u h)"

abbreviation dev :: "'h spi_ports \<Rightarrow> 'd" where
  "dev X \<equiv> c_dev (C (spi_hw X))"

lemma xfer_port0:
  assumes ok: "port0_ok C X" and f: "fits_wire tr"
    and x: "spi_xfer (dev_env D Wd) 0 tr (dev X) = Some (r, rx, d)"
  shows "\<exists>X'. spi_xfer (spi_env P W A) 0 tr X = Some (0, rx, X') \<and> port0_ok C X' \<and> dev X' = d"
proof -
  let ?t = "spi_descr tr"
  have ne: "g_sunxi_spi X \<noteq> []" and s: "spi_idle C (par_reg_base SPI0_PARAMS) (par_irq_num SPI0_PARAMS) (port_at 0 X)"
    using ok by (simp_all add: port0_ok_def)
  have D: "D (tr_wire ?t) (c_dev (C (sp_hw (port_at 0 X)))) = (rx, d)"
    using x by (simp add: dev_env_def split: prod.splits)
  obtain s' where s': "spi_xfer_on P (Some ?t) (port_at 0 X) = Some (0, s')"
    "spi_idle C (par_reg_base SPI0_PARAMS) (par_irq_num SPI0_PARAMS) s'" "c_dev (C (sp_hw s')) = d"
    "sp_transfer s' = Some (?t\<lparr>tr_rx_buf := map_option (\<lambda>buf. rx @ drop (length rx) buf) (tr_rx_buf ?t)\<rparr>)"
    using soc.spi_xfer_on_transacts [OF s fits_descr(1) [OF f] D] by blast
  have "length rx = rx_len tr"
    using soc.reply [of "tr_wire ?t" "dev X"] D fits_descr(2) [OF f] by (simp add: tr_wire_def)
  with s' ne have "spi_xfer (spi_env P W A) 0 tr X =
      Some (0, rx, \<lparr>g_sunxi_spi = (g_sunxi_spi X)[0 := sunxi_spi.truncate s'], spi_hw = sp_hw s'\<rparr>)"
    by (simp add: spi_env_def hal_spi_xfer_def on_port_def rx_after_def) (auto simp: spi_descr_def)
  with s' ne show ?thesis by (simp add: port0_ok_def port_at_put)
qed

lemma view_simps [simp]:
  "cell (spi_view C V unused) X = cell V (dev X)" "latch (spi_view C V unused) X = latch V (dev X)"
  "sr2 (spi_view C V unused) X = sr2 V (dev X)" "capacity (spi_view C V unused) = capacity V"
  "busy_polls (spi_view C V unused) X = busy_polls V (dev X) + (if port0_ok C X then 0 else 2 ^ 32)"
  by (simp_all add: spi_view_def)

lemma view_obeys [simp]: "obeys (spi_view C V unused) op X = obeys V op (dev X)"
  by (simp add: obeys_def quad_enabled_def)

text \<open>Each law of the data sheet, from the chip alone to the chip behind the controller.\<close>

lemma running: "busy_polls (spi_view C V unused) X < 2 ^ 32 \<Longrightarrow> port0_ok C X \<and> busy_polls V (dev X) < 2 ^ 32"
  by (auto split: if_splits)

lemma idling: "busy_polls (spi_view C V unused) X = 0 \<Longrightarrow> port0_ok C X \<and> busy_polls V (dev X) = 0"
  by (auto split: if_splits)

lemma stack_status:
  assumes "chip_status (dev_env D Wd) V"
  shows "chip_status (spi_env P W A) (spi_view C V unused)"
  unfolding chip_status_def
proof (intro allI impI; elim conjE)
  fix tr X assume tr: "plain tr" "tx_data tr = [0x05]" "rx_len tr = 2"
    and b: "busy_polls (spi_view C V unused) X < 2 ^ 32"
  note ok = running [OF b]
  obtain x sr d where d: "spi_xfer (dev_env D Wd) 0 tr (dev X) = Some (0, [x, sr], d)"
    "sr AND 1 = 0 \<longleftrightarrow> busy_polls V (dev X) = 0"
    "busy_polls V (dev X) = 0 \<longrightarrow> (sr AND 2 \<noteq> 0 \<longleftrightarrow> latch V (dev X))"
    "busy_polls V d = busy_polls V (dev X) - 1" "cell V d = cell V (dev X)" "latch V d = latch V (dev X)"
    "sr2 V d = sr2 V (dev X)"
    using assms [unfolded chip_status_def, rule_format, of tr "dev X"] tr ok by auto
  have f: "fits_wire tr" using tr by (intro fits_plain) simp_all
  obtain X' where "spi_xfer (spi_env P W A) 0 tr X = Some (0, [x, sr], X')" "port0_ok C X'" "dev X' = d"
    using xfer_port0 [OF _ f d(1)] ok by blast
  then show "\<exists>x sr b'. spi_xfer (spi_env P W A) 0 tr X = Some (0, [x, sr], b') \<and>
    (sr AND 1 = 0 \<longleftrightarrow> busy_polls (spi_view C V unused) X = 0) \<and>
    (busy_polls (spi_view C V unused) X = 0 \<longrightarrow> (sr AND 2 \<noteq> 0 \<longleftrightarrow> latch (spi_view C V unused) X)) \<and>
    busy_polls (spi_view C V unused) b' = busy_polls (spi_view C V unused) X - 1 \<and>
    cell (spi_view C V unused) b' = cell (spi_view C V unused) X \<and> latch (spi_view C V unused) b' = latch (spi_view C V unused) X \<and>
    sr2 (spi_view C V unused) b' = sr2 (spi_view C V unused) X"
    using d ok by (intro exI [of _ x] exI [of _ sr] exI [of _ X']) simp
qed

text \<open>
  The other laws share a shape: a command the chip answers, after which a predicate of its cells,
  latch, busy time and second status register holds.
\<close>

lemma transport:
  assumes ok: "port0_ok C X" and f: "fits_wire tr"
    and x: "\<exists>rx d. spi_xfer (dev_env D Wd) 0 tr (dev X) = Some (0, rx, d) \<and>
        Q rx (cell V d) (latch V d) (busy_polls V d) (sr2 V d)"
  shows "\<exists>rx X'. spi_xfer (spi_env P W A) 0 tr X = Some (0, rx, X') \<and>
    Q rx (cell (spi_view C V unused) X') (latch (spi_view C V unused) X') (busy_polls (spi_view C V unused) X') (sr2 (spi_view C V unused) X')"
proof -
  from x obtain rx d where d: "spi_xfer (dev_env D Wd) 0 tr (dev X) = Some (0, rx, d)"
    "Q rx (cell V d) (latch V d) (busy_polls V d) (sr2 V d)" by blast
  obtain X' where "spi_xfer (spi_env P W A) 0 tr X = Some (0, rx, X')" "port0_ok C X'" "dev X' = d"
    using xfer_port0 [OF ok f d(1)] by blast
  with d(2) show ?thesis by (intro exI [of _ rx] exI [of _ X']) simp
qed

lemma stack_wren:
  assumes "chip_wren (dev_env D Wd) V"
  shows "chip_wren (spi_env P W A) (spi_view C V unused)"
  unfolding chip_wren_def
proof (intro allI impI; elim conjE)
  fix tr X assume tr: "plain tr" "tx_data tr = [0x06]" "rx_len tr = 0"
    and b: "busy_polls (spi_view C V unused) X = 0"
  note ok = idling [OF b]
  have f: "fits_wire tr" using tr by (intro fits_plain) simp_all
  have "\<exists>rx d. spi_xfer (dev_env D Wd) 0 tr (dev X) = Some (0, rx, d) \<and>
      latch V d \<and> busy_polls V d = 0 \<and> cell V d = cell V (dev X) \<and> sr2 V d = sr2 V (dev X)"
    using assms [unfolded chip_wren_def, rule_format, of tr "dev X"] tr ok by simp
  from transport [OF conjunct1 [OF ok] f,
      where Q = "\<lambda>rx m l n q. l \<and> n = 0 \<and> m = cell V (dev X) \<and> q = sr2 V (dev X)" and V = V, OF this]
  show "\<exists>rx b'. spi_xfer (spi_env P W A) 0 tr X = Some (0, rx, b') \<and> latch (spi_view C V unused) b' \<and>
      busy_polls (spi_view C V unused) b' = 0 \<and> cell (spi_view C V unused) b' = cell (spi_view C V unused) X \<and>
      sr2 (spi_view C V unused) b' = sr2 (spi_view C V unused) X"
    by simp
qed

lemma stack_read:
  assumes "chip_read (dev_env D Wd) V"
  shows "chip_read (spi_env P W A) (spi_view C V unused)"
  unfolding chip_read_def
proof (intro allI impI; elim conjE)
  fix tr X op ab assume tr: "tx_data tr = op # ab" "op \<in> read_ops (length ab)"
    "wire_mode op (length ab) tr" "rx_len tr \<le> 256"
    and o: "obeys (spi_view C V unused) op X"
    and b: "busy_polls (spi_view C V unused) X = 0" and c: "be_val ab + rx_len tr \<le> capacity (spi_view C V unused)"
  note ok = idling [OF b]
  let ?rx = "map (cell V (dev X)) [be_val ab ..< be_val ab + rx_len tr]"
  obtain d where d: "spi_xfer (dev_env D Wd) 0 tr (dev X) = Some (0, ?rx, d)"
    "busy_polls V d = 0" "cell V d = cell V (dev X)" "sr2 V d = sr2 V (dev X)"
    using assms [unfolded chip_read_def, rule_format, of tr op ab "dev X"] tr ok c o by auto
  obtain X' where "spi_xfer (spi_env P W A) 0 tr X = Some (0, ?rx, X')" "port0_ok C X'" "dev X' = d"
    using xfer_port0 [OF _ fits_read [OF tr] d(1)] ok by blast
  with d ok show "\<exists>b'. spi_xfer (spi_env P W A) 0 tr X = Some (0, map (cell (spi_view C V unused) X)
      [be_val ab ..< be_val ab + rx_len tr], b') \<and> busy_polls (spi_view C V unused) b' = 0 \<and>
      cell (spi_view C V unused) b' = cell (spi_view C V unused) X \<and> sr2 (spi_view C V unused) b' = sr2 (spi_view C V unused) X"
    by (intro exI [of _ X']) simp
qed

lemma stack_program:
  assumes "chip_program (dev_env D Wd) V"
  shows "chip_program (spi_env P W A) (spi_view C V unused)"
  unfolding chip_program_def
proof (intro allI impI; elim conjE)
  fix tr X op ab bs n assume tr: "tx_data tr = op # ab @ bs" "length ab = n" "op \<in> prog_ops n"
    "wire_mode op n tr" "obeys (spi_view C V unused) op X" "rx_len tr = 0" and b: "busy_polls (spi_view C V unused) X = 0" "latch (spi_view C V unused) X"
    and bs: "bs \<noteq> []" "be_val ab mod 256 + length bs \<le> 256"
      "be_val ab + length bs \<le> capacity (spi_view C V unused)"
  note ok = idling [OF b(1)]
  have f: "fits_wire tr" using tr bs(2) by (intro fits_program [of tr op ab bs]) simp_all
  have "\<exists>rx d. spi_xfer (dev_env D Wd) 0 tr (dev X) = Some (0, rx, d) \<and>
      cell V d = programmed (cell V (dev X)) (be_val ab) bs \<and> sr2 V d = sr2 V (dev X) \<and> busy_polls V d < 2 ^ 32"
    using assms [unfolded chip_program_def, rule_format, of tr op ab bs n "dev X"] tr bs ok b(2) by simp
  from transport [OF conjunct1 [OF ok] f, where V = V and
      Q = "\<lambda>rx m l n q. m = programmed (cell V (dev X)) (be_val ab) bs \<and> q = sr2 V (dev X) \<and> n < 2 ^ 32", OF this]
  show "\<exists>rx b'. spi_xfer (spi_env P W A) 0 tr X = Some (0, rx, b') \<and>
      cell (spi_view C V unused) b' = programmed (cell (spi_view C V unused) X) (be_val ab) bs \<and>
      sr2 (spi_view C V unused) b' = sr2 (spi_view C V unused) X \<and>
      busy_polls (spi_view C V unused) b' < 2 ^ 32"
    by simp
qed

lemma stack_erase:
  assumes "chip_erase (dev_env D Wd) V"
  shows "chip_erase (spi_env P W A) (spi_view C V unused)"
  unfolding chip_erase_def
proof (intro allI impI; elim conjE)
  fix tr X op ab n assume tr: "tx_data tr = op # ab" and n: "erase_bytes (length ab) op = n" "n \<noteq> 0"
    and w: "wire_mode op (length ab) tr" "rx_len tr = 0"
    and b: "busy_polls (spi_view C V unused) X = 0" "latch (spi_view C V unused) X"
    and c: "be_val ab + n \<le> capacity (spi_view C V unused)"
  note ok = idling [OF b(1)]
  have f: "fits_wire tr" using tr n w by (intro fits_erase [of tr op ab]) simp_all
  have "\<exists>rx d. spi_xfer (dev_env D Wd) 0 tr (dev X) = Some (0, rx, d) \<and>
      cell V d = erased (cell V (dev X)) (be_val ab - be_val ab mod n) n \<and> sr2 V d = sr2 V (dev X) \<and> busy_polls V d < 2 ^ 32"
    using assms [unfolded chip_erase_def, rule_format, of tr op ab n "dev X"] tr n w ok b(2) c by simp
  from transport [OF conjunct1 [OF ok] f, where V = V and
      Q = "\<lambda>rx m l k q. m = erased (cell V (dev X)) (be_val ab - be_val ab mod n) n \<and> q = sr2 V (dev X) \<and> k < 2 ^ 32", OF this]
  show "\<exists>rx b'. spi_xfer (spi_env P W A) 0 tr X = Some (0, rx, b') \<and>
      cell (spi_view C V unused) b' = erased (cell (spi_view C V unused) X) (be_val ab - be_val ab mod n) n \<and>
      sr2 (spi_view C V unused) b' = sr2 (spi_view C V unused) X \<and> busy_polls (spi_view C V unused) b' < 2 ^ 32"
    by simp
qed

lemma stack_erase_all:
  assumes "chip_erase_all (dev_env D Wd) V"
  shows "chip_erase_all (spi_env P W A) (spi_view C V unused)"
  unfolding chip_erase_all_def
proof (intro allI impI; elim conjE)
  fix tr X assume tr: "plain tr" "tx_data tr = [0x60]" "rx_len tr = 0"
    and b: "busy_polls (spi_view C V unused) X = 0" "latch (spi_view C V unused) X"
  note ok = idling [OF b(1)]
  have f: "fits_wire tr" using tr by (intro fits_plain) simp_all
  have "\<exists>rx d. spi_xfer (dev_env D Wd) 0 tr (dev X) = Some (0, rx, d) \<and>
      cell V d = erased (cell V (dev X)) 0 (capacity V) \<and> sr2 V d = sr2 V (dev X) \<and> busy_polls V d < 2 ^ 32"
    using assms [unfolded chip_erase_all_def, rule_format, of tr "dev X"] tr ok b(2) by simp
  from transport [OF conjunct1 [OF ok] f, where V = V and
      Q = "\<lambda>rx m l k q. m = erased (cell V (dev X)) 0 (capacity V) \<and> q = sr2 V (dev X) \<and> k < 2 ^ 32", OF this]
  show "\<exists>rx b'. spi_xfer (spi_env P W A) 0 tr X = Some (0, rx, b') \<and>
      cell (spi_view C V unused) b' = erased (cell (spi_view C V unused) X) 0 (capacity (spi_view C V unused)) \<and>
      sr2 (spi_view C V unused) b' = sr2 (spi_view C V unused) X \<and>
      busy_polls (spi_view C V unused) b' < 2 ^ 32"
    by simp
qed

lemma stack_delay:
  assumes "chip_delay (dev_env D Wd) V"
  shows "chip_delay (spi_env P W A) (spi_view C V unused)"
proof -
  have d: "cell V (Wd t d) = cell V d" "latch V (Wd t d) = latch V d" "sr2 V (Wd t d) = sr2 V d"
    "busy_polls V (Wd t d) \<le> busy_polls V d" for t d
    using assms by (simp_all add: chip_delay_def dev_env_def)
  have ok: "port0_ok C (X\<lparr>spi_hw := W t (spi_hw X)\<rparr>)" if "port0_ok C X" for t X
    using that by (simp add: port0_ok_def spi_idle_def delay_idle ctl_ready_def)
  show ?thesis
    unfolding chip_delay_def using d ok
    by (simp add: spi_env_def delay_dev trans_le_add1)
qed

lemma stack_chip: "nor_chip (dev_env D Wd) V \<Longrightarrow> nor_chip (spi_env P W A) (spi_view C V unused)"
  by (simp add: nor_chip_def stack_status stack_wren stack_read stack_program stack_erase
      stack_erase_all stack_delay)

section \<open>Initialisation\<close>

lemma stack_ident:
  assumes "chip_ident (dev_env D Wd) V ident"
  shows "chip_ident (spi_env P W A) (spi_view C V unused) ident"
  unfolding chip_ident_def
proof (intro allI impI; elim conjE)
  fix tr X assume tr: "plain tr" "tx_data tr = [0x9F]" "rx_len tr = 3"
    and b: "busy_polls (spi_view C V unused) X = 0"
  note ok = idling [OF b]
  have f: "fits_wire tr" using tr by (intro fits_plain) simp_all
  obtain d where d: "spi_xfer (dev_env D Wd) 0 tr (dev X) = Some (0, ident, d)"
    "busy_polls V d = 0" "cell V d = cell V (dev X)" "sr2 V d = sr2 V (dev X)"
    using assms [unfolded chip_ident_def, rule_format, of tr "dev X"] tr ok by auto
  obtain X' where "spi_xfer (spi_env P W A) 0 tr X = Some (0, ident, X')" "port0_ok C X'" "dev X' = d"
    using xfer_port0 [OF _ f d(1)] ok by blast
  with d ok show "\<exists>b'. spi_xfer (spi_env P W A) 0 tr X = Some (0, ident, b') \<and>
      busy_polls (spi_view C V unused) b' = 0 \<and> cell (spi_view C V unused) b' = cell (spi_view C V unused) X \<and>
      sr2 (spi_view C V unused) b' = sr2 (spi_view C V unused) X"
    by (intro exI [of _ X']) simp
qed

lemma stack_reset:
  assumes "chip_reset (dev_env D Wd) V"
  shows "chip_reset (spi_env P W A) (spi_view C V unused)"
  unfolding chip_reset_def
proof (intro allI impI; elim conjE)
  fix tr X assume tr: "plain tr" "tx_data tr = [0x66, 0x99]" "rx_len tr = 0"
    and b: "busy_polls (spi_view C V unused) X < 2 ^ 32"
  note ok = running [OF b]
  have f: "fits_wire tr" using tr by (intro fits_plain) simp_all
  have "\<exists>rx d. spi_xfer (dev_env D Wd) 0 tr (dev X) = Some (0, rx, d) \<and>
      cell V d = cell V (dev X) \<and> busy_polls V d < 2 ^ 32"
    using assms [unfolded chip_reset_def, rule_format, of tr "dev X"] tr ok by simp
  from transport [OF conjunct1 [OF ok] f, where V = V and
      Q = "\<lambda>rx m l k q. m = cell V (dev X) \<and> k < 2 ^ 32", OF this]
  show "\<exists>rx b'. spi_xfer (spi_env P W A) 0 tr X = Some (0, rx, b') \<and>
      cell (spi_view C V unused) b' = cell (spi_view C V unused) X \<and> busy_polls (spi_view C V unused) b' < 2 ^ 32"
    by simp
qed

lemma stack_unlock_all:
  assumes "chip_unlock_all (dev_env D Wd) V"
  shows "chip_unlock_all (spi_env P W A) (spi_view C V unused)"
  unfolding chip_unlock_all_def
proof (intro allI impI; elim conjE)
  fix tr X assume tr: "plain tr" "tx_data tr = [0x98]" "rx_len tr = 0"
    and b: "busy_polls (spi_view C V unused) X = 0" "latch (spi_view C V unused) X"
  note ok = idling [OF b(1)]
  have f: "fits_wire tr" using tr by (intro fits_plain) simp_all
  have "\<exists>rx d. spi_xfer (dev_env D Wd) 0 tr (dev X) = Some (0, rx, d) \<and>
      cell V d = cell V (dev X) \<and> sr2 V d = sr2 V (dev X) \<and> busy_polls V d < 2 ^ 32"
    using assms [unfolded chip_unlock_all_def, rule_format, of tr "dev X"] tr ok b(2) by simp
  from transport [OF conjunct1 [OF ok] f, where V = V and
      Q = "\<lambda>rx m l k q. m = cell V (dev X) \<and> q = sr2 V (dev X) \<and> k < 2 ^ 32", OF this]
  show "\<exists>rx b'. spi_xfer (spi_env P W A) 0 tr X = Some (0, rx, b') \<and>
      cell (spi_view C V unused) b' = cell (spi_view C V unused) X \<and> sr2 (spi_view C V unused) b' = sr2 (spi_view C V unused) X \<and>
      busy_polls (spi_view C V unused) b' < 2 ^ 32"
    by simp
qed

lemma stack_read_sr2:
  assumes "chip_read_sr2 (dev_env D Wd) V"
  shows "chip_read_sr2 (spi_env P W A) (spi_view C V unused)"
  unfolding chip_read_sr2_def
proof (intro allI impI; elim conjE)
  fix tr X assume tr: "plain tr" "tx_data tr = [0x35]" "rx_len tr = 2"
    and b: "busy_polls (spi_view C V unused) X = 0"
  note ok = idling [OF b]
  have f: "fits_wire tr" using tr by (intro fits_plain) simp_all
  obtain x d where d: "spi_xfer (dev_env D Wd) 0 tr (dev X) = Some (0, [x, sr2 V (dev X)], d)"
    "busy_polls V d = 0" "cell V d = cell V (dev X)" "sr2 V d = sr2 V (dev X)"
    using assms [unfolded chip_read_sr2_def, rule_format, of tr "dev X"] tr ok by auto
  obtain X' where "spi_xfer (spi_env P W A) 0 tr X = Some (0, [x, sr2 V (dev X)], X')" "port0_ok C X'" "dev X' = d"
    using xfer_port0 [OF _ f d(1)] ok by blast
  with d ok show "\<exists>x b'. spi_xfer (spi_env P W A) 0 tr X = Some (0, [x, sr2 (spi_view C V unused) X], b') \<and>
      busy_polls (spi_view C V unused) b' = 0 \<and> cell (spi_view C V unused) b' = cell (spi_view C V unused) X \<and>
      sr2 (spi_view C V unused) b' = sr2 (spi_view C V unused) X"
    by (intro exI [of _ x] exI [of _ X']) simp
qed

lemma stack_write_sr2:
  assumes "chip_write_sr2 (dev_env D Wd) V"
  shows "chip_write_sr2 (spi_env P W A) (spi_view C V unused)"
  unfolding chip_write_sr2_def
proof (intro allI impI; elim conjE)
  fix tr X v assume tr: "plain tr" "tx_data tr = [0x31, v]" "rx_len tr = 0"
    and b: "busy_polls (spi_view C V unused) X = 0" "latch (spi_view C V unused) X"
  note ok = idling [OF b(1)]
  have f: "fits_wire tr" using tr by (intro fits_plain) simp_all
  have "\<exists>rx d. spi_xfer (dev_env D Wd) 0 tr (dev X) = Some (0, rx, d) \<and> sr2 V d AND 2 = v AND 2 \<and>
      cell V d = cell V (dev X) \<and> busy_polls V d < 2 ^ 32"
    using assms [unfolded chip_write_sr2_def, rule_format, of tr v "dev X"] tr ok b(2) by simp
  from transport [OF conjunct1 [OF ok] f, where V = V and
      Q = "\<lambda>rx m l k q. q AND 2 = v AND 2 \<and> m = cell V (dev X) \<and> k < 2 ^ 32", OF this]
  show "\<exists>rx b'. spi_xfer (spi_env P W A) 0 tr X = Some (0, rx, b') \<and>
      sr2 (spi_view C V unused) b' AND 2 = v AND 2 \<and>
      cell (spi_view C V unused) b' = cell (spi_view C V unused) X \<and> busy_polls (spi_view C V unused) b' < 2 ^ 32"
    by simp
qed

lemma init_port0:
  assumes q: "g_sunxi_spi X \<noteq> []" "quiet (C (spi_hw X))" "unused (spi_hw X)"
    and cfg: "slave_port cfg = 0" "cpha cfg = 0" "cpol cfg = 0" "clock_frequency cfg = 50000000"
  shows "\<exists>X'. aw_hal_spi_init P 0 (Some cfg) X = Some (0, X') \<and> port0_ok C X' \<and> dev X' = dev X"
proof -
  have par: "g_sunxi_spi_params ! 0 = SPI0_PARAMS" by (simp add: g_sunxi_spi_params_def)
  have freq: "config_frequency cfg = 50000000" using cfg(4) by (simp add: config_frequency_def)
  obtain u where "system_off soc_of pio_of K creg w 0 u (sp_hw (port_at 0 X))" using q(3) by auto
  then obtain s' where s': "spi_init_on P 0 (Some cfg) (port_at 0 X) = (0, s')"
    "spi_idle C (par_reg_base SPI0_PARAMS) (par_irq_num SPI0_PARAMS) s'" "c_dev (C (sp_hw s')) = dev X"
    using soc.init_idle [of "port_at 0 X" 0 cfg w u] q(2) cfg par wires freq by auto
  let ?X = "\<lparr>g_sunxi_spi = (g_sunxi_spi X)[0 := sunxi_spi.truncate s'], spi_hw = sp_hw s'\<rparr>"
  have "aw_hal_spi_init P 0 (Some cfg) X = Some (0, ?X)"
    using q(1) s'(1) by (simp add: aw_hal_spi_init_def on_port_def)
  with q(1) s'(2,3) show ?thesis by (intro exI [of _ ?X]) (simp add: port0_ok_def port_at_put)
qed

lemma stack_works:
  assumes "spi_works (dev_env D Wd) V"
  shows "spi_works (spi_env P W A) (spi_view C V unused)"
proof -
  have busy: "busy_polls V d < 2 ^ 32" if "standby V d" for d
    using assms that by (force simp: spi_works_def dev_env_def
        dest: spec [of _ "\<lparr>clock_frequency = 50000000, slave_port = 0, cpha = 0, cpol = 0, bit_order = 0\<rparr>"])
  show ?thesis
    unfolding spi_works_def
  proof (intro conjI allI impI; (elim conjE)?)
    fix cfg :: spi_config and X assume "standby (spi_view C V unused) X" "clock_frequency cfg = 50000000"
      "slave_port cfg = 0" "cpha cfg = 0" "cpol cfg = 0"
    then show "\<exists>b'. spi_init (spi_env P W A) 0 cfg X = Some (0, b') \<and>
        cell (spi_view C V unused) b' = cell (spi_view C V unused) X \<and> busy_polls (spi_view C V unused) b' < 2 ^ 32"
      using init_port0 [of X cfg] busy [of "dev X"] by (auto simp: spi_env_def spi_view_def)
  next
    fix X assume "standby (spi_view C V unused) X"
    then show "fst (sem_alloc (spi_env P W A) X)"
      "cell (spi_view C V unused) (snd (sem_alloc (spi_env P W A) X)) = cell (spi_view C V unused) X"
      "standby (spi_view C V unused) (snd (sem_alloc (spi_env P W A) X))"
      using alloc by (simp_all add: spi_env_def spi_view_def system_off_def split: prod.split)
        (simp_all add: prod_eq_iff)
  qed
qed

lemma stack_board: "board (dev_env D Wd) V ident \<Longrightarrow> board (spi_env P W A) (spi_view C V unused) ident"
  by (simp add: board_def stack_chip stack_ident stack_reset stack_unlock_all stack_read_sr2
      stack_write_sr2 stack_works)

end

end
