(* ===== verification/Ccu_Sim.thy ===== *)
theory Ccu_Sim
  imports Ccu_Spi
begin

unbundle bit_operations_syntax

text \<open>
  The part of the clock tree of the D1 under the SPI controllers, as it is after registration with
  all registers zero (so that the module clocks are fed by \<open>dcxo24M\<close>): \<open>dcxo24M\<close>, \<open>pll-periph0\<close>
  (its own PLL is left out), \<open>psi-ahb\<close>, \<open>spi0\<close>, \<open>spi1\<close>, \<open>bus-spi0\<close> and \<open>bus-spi1\<close>, by the numbers of
  \<open>ccu-sun8iw20.h\<close>; and its reset lines.
\<close>

definition no_ops :: "'h clk_ops" where
  "no_ops = \<lparr>op_enable = None, op_disable = None, op_is_enabled = None, op_get_parent = None,
     op_set_parent = None, op_set_rate = None, op_recalc_rate = None\<rparr>"

definition named :: "string \<Rightarrow> clk_parent_map" where
  "named n = \<lparr>pm_hw = None, pm_core = None, pm_name = Some n\<rparr>"

definition d1_core :: "string \<Rightarrow> 'h clk_ops \<Rightarrow> nat \<Rightarrow> nat option \<Rightarrow> clk_parent_map list \<Rightarrow> u64 \<Rightarrow> 'h clk_core" where
  "d1_core name ops n p ps rate = \<lparr>cc_name = name, cc_ops = ops, cc_type = HAL_SUNXI_CCU, cc_id = n, cc_count = 0,
     cc_parent = p, cc_parents = ps, cc_p_rate = 0, cc_rate = rate, cc_enable_count = 0, cc_flags = 0\<rparr>"

definition gate_ops :: "'h clk_plat \<Rightarrow> ccu_common \<Rightarrow> u32 \<Rightarrow> 'h clk_ops" where
  "gate_ops K co g = no_ops\<lparr>op_enable := Some (ccu_gate_helper_enable K co g),
     op_disable := Some (ccu_gate_helper_disable K co g), op_is_enabled := Some (ccu_gate_helper_is_enabled K co g),
     op_recalc_rate := Some (\<lambda>rate h. map_option (\<lambda>r. (r, h)) (ccu_gate_recalc_rate co rate))\<rparr>"

definition spi_parents :: "clk_parent_map list" where
  "spi_parents = map named [''dcxo24M'', ''pll-periph0'', ''pll-periph0-2x'', ''pll-audio1-div2'', ''pll-audio1-div5'']"

definition d1_clks :: "(u64 \<Rightarrow> u32) clks" where
  "d1_clks = \<lparr>cores = (\<lambda>c.
       if c = 5 then d1_core ''pll-periph0'' no_ops 5 None [] 600000000
       else if c = 25 then d1_core ''psi-ahb'' no_ops 25 (Some 0) [named ''dcxo24M''] 24000000
       else if c = 75 then d1_core ''spi0'' (ccu_mp_ops clk_cells spi0_clk (length spi_parents)) 75 (Some 0) spi_parents 24000000
       else if c = 76 then d1_core ''spi1'' (ccu_mp_ops clk_cells spi1_clk (length spi_parents)) 76 (Some 0) spi_parents 24000000
       else if c = 77 then d1_core ''bus-spi0'' (gate_ops clk_cells (spi_gate 0x96c) 1) 77 (Some 25) [named ''psi-ahb''] 24000000
       else if c = 78 then d1_core ''bus-spi1'' (gate_ops clk_cells (spi_gate 0x96c) 2) 78 (Some 25) [named ''psi-ahb''] 24000000
       else d1_core ''dcxo24M'' no_ops 0 None [] 24000000),
     clk_root_list = [0, 5, 25, 75, 76, 77, 78], ck_hw = (\<lambda>_. 0)\<rparr>"

definition d1_rank :: "nat \<Rightarrow> nat" where
  "d1_rank c = (if c \<in> {0, 5} then 0 else if c = 25 then 1 else 2)"

definition d1_resets :: ccu_reset where
  "d1_resets = \<lparr>rs_base = 0x02001000,
     reset_map = replicate 30 (0, 0) @ [(0x96c, 0x10000), (0x96c, 0x20000)], rs_type = 0, nr_resets = 32\<rparr>"

lemma d1_cells: "reg_at clk_cells (\<lambda>h. h)"
  by (auto simp: reg_at_def clk_cells_def)

lemma d1_tree: "clk_tree d1_rank d1_clks"
  by (simp add: clk_tree_def parent_of_def d1_clks_def d1_core_def d1_rank_def)

lemma d1_idle: "clks_idle d1_clks"
  by (simp add: clks_idle_def d1_clks_def d1_core_def)

lemma d1_rates_read: "rates_read d1_clks"
  using ccu_mp_recalc_reads [OF spi_clks_plain(1) d1_cells] ccu_mp_recalc_reads [OF spi_clks_plain(2) d1_cells]
  by (auto simp: rates_read_def d1_clks_def d1_core_def no_ops_def gate_ops_def ccu_mp_ops_def
    ccu_gate_recalc_rate_def has_feature_def spi_gate_def)

lemma d1_ops:
  "c \<in> set (clk_root_list d1_clks) \<Longrightarrow> switched (gate_enable clk_cells spi_gates c) (gate_disable clk_cells spi_gates c) (cc_ops (cores d1_clks c)) \<and>
     \<not> gate_open (\<lambda>h. h) spi_gates c (ck_hw d1_clks)"
  by (auto simp: switched_def d1_clks_def d1_core_def no_ops_def gate_ops_def ccu_mp_ops_def gate_enable_def gate_disable_def
    gate_open_def spi_gates_def split: option.splits if_splits)

lemma d1_driven:
  "clk_driven (gate_enable clk_cells spi_gates) (gate_disable clk_cells spi_gates) (gate_open (\<lambda>h. h) spi_gates)
     d1_rank d1_clks (\<lambda>_. 0)"
proof -
  have h: "held d1_clks c = 0" for c by (simp add: held_def d1_clks_def d1_core_def)
  then have "balanced D p (held d1_clks) (\<lambda>_. 0)" for D p by (simp add: balanced_def held_by_def)
  then show ?thesis using d1_tree d1_ops h by (simp add: clk_driven_def)
qed

lemma spi0_mux_plain: "mux_plain spi0_clk"
  by (simp add: mux_plain_def spi0_clk_def spi_mp_clk_def)

lemma d1_spi0_free: "gate_free spi_gates (co_addr (mp_common spi0_clk)) (mp_fields spi0_clk)"
  by (auto simp: gate_free_def spi_gates_def spi_gate_def spi0_clk_def spi1_clk_def spi_mp_clk_def co_addr_def mp_fields_def
    mask_eq_decr_exp push_bit_eq_mult split: if_splits)

lemma d1_spi_clocks: "spi_clocks clk_cells (\<lambda>h. h) spi_gates d1_rank spi0_clk 75 77 5 d1_clks (\<lambda>_. 0)"
  unfolding spi_clocks_def
proof (intro conjI d1_driven d1_rates_read d1_spi0_free)
qed (simp_all add: d1_clks_def d1_core_def spi_gates_def held_def spi_parents_def d1_rank_def spi0_clk_def spi_mp_clk_def
    named_def is_parent_entry_def)


text \<open>The functions of \<open>spi_plat\<close> on these drivers, and port 0 before its initialisation.\<close>

definition idle_plat :: "'h spi_plat" where
  "idle_plat = \<lparr>plat_readl = (\<lambda>a h. (0, h)), plat_writel = (\<lambda>v a h. h), plat_readb = (\<lambda>a h. (0, h)),
     plat_writeb = (\<lambda>v a h. h), plat_tick = (\<lambda>h. h), plat_irq = (\<lambda>n h. False),
     request_irq = (\<lambda>n h. (0, h)), enable_irq = (\<lambda>n h. h), disable_irq = (\<lambda>n h. h), free_irq = (\<lambda>n h. h),
     gpio_pinmux_set_function = (\<lambda>n m h. (0, h)), gpio_set_driving_level = (\<lambda>n m h. (0, h)),
     gpio_set_pull = (\<lambda>n m h. (0, h)), reset_control_get = (\<lambda>n h. (n, h)),
     reset_control_assert = (\<lambda>n h. h), reset_control_deassert = (\<lambda>n h. h), reset_control_put = (\<lambda>n h. h),
     clock_get = (\<lambda>n h. (n, h)), clock_put = (\<lambda>n h. h), plat_clk_set_parent = (\<lambda>n m h. (0, h)),
     plat_clk_set_rate = (\<lambda>n f h. (0, h)), plat_clk_get_rate = (\<lambda>n h. (0, h)),
     clock_enable = (\<lambda>n h. (0, h)), clock_disable = (\<lambda>n h. (0, h))\<rparr>"

definition ccu_plat :: "'h clk_plat \<Rightarrow> ccu_reset list \<Rightarrow> 'h soc spi_plat" where
  "ccu_plat K rs = idle_plat\<lparr>
     clock_get := (\<lambda>n s. let (c, k) = hal_clock_get HAL_SUNXI_CCU n (so_clks s) in (clk_handle c, s\<lparr>so_clks := k\<rparr>)),
     plat_clk_set_parent := (\<lambda>c p. soc_call (-1) (hal_clk_set_parent (clk_of c) (clk_of p))),
     plat_clk_set_rate := (\<lambda>c rate. soc_call (-1) (hal_clk_set_rate (clk_of c) rate)),
     plat_clk_get_rate := (\<lambda>c. soc_call 0 (hal_clk_get_rate (clk_of c))),
     clock_enable := (\<lambda>c. soc_call (-1) (hal_clock_enable (clk_of c))),
     reset_control_get := soc_reset_get rs,
     reset_control_deassert := soc_reset (hal_reset_control_deassert K rs)\<rparr>"

lemma ccu_plat_clocks: "clocks_of_ccu K rs (ccu_plat K rs)"
  by (simp add: clocks_of_ccu_def ccu_plat_def)

definition d1_port :: "(u64 \<Rightarrow> u32) soc spi" where
  "d1_port = \<lparr>sp_result = 0, sp_irqnum = 31, sp_base = 0x04025000, sp_mode_type = MODE_TYPE_NULL,
     sp_pclk = 0, sp_bus_clk = 0, sp_mclk = 0, sp_reset = 0, sp_port = 0, sp_transfer = None,
     sp_hw = \<lparr>so_clks = d1_clks, so_resets = []\<rparr>\<rparr>"

lemma d1_lookups:
  "clk_core_get HAL_SUNXI_CCU 75 d1_clks = Some 75" "clk_core_get HAL_SUNXI_CCU 77 d1_clks = Some 77" "clk_core_get HAL_SUNXI_CCU 5 d1_clks = Some 5"
  by (simp_all add: clk_core_get_def d1_clks_def d1_core_def)

lemma d1_reset_lines:
  "hal_reset_control_get True [d1_resets] 0 30 = Some \<lparr>rc_dev = 0, rc_enable_count = 0, rc_id = 30\<rparr>"
  "reset_line d1_resets 30 = Some (0x0200196c, 0x10000)"
  "gate_free spi_gates 0x0200196c 0x10000"
  by (simp_all add: hal_reset_control_get_def d1_resets_def reset_line_def nth_append gate_free_def spi_gates_def
    spi_gate_def spi0_clk_def spi1_clk_def spi_mp_clk_def co_addr_def)

lemma d1_spi0_rate: "(12, 1) \<in> divisors (mp_max_m spi0_clk) (mp_max_p spi0_clk)"
  "mp_rate 600000000 12 1 = 50000000"
  by (auto simp: divisors_def mp_max_m_def mp_max_p_def spi0_clk_def spi_mp_clk_def mp_rate_def intro: exI [of _ 0])

end
