(* ===== verification/Spi_Machine.thy ===== *)
theory Spi_Machine
  imports Spi_Stack Ccu_Sim
begin

unbundle bit_operations_syntax

text \<open>
  A whole machine: a clock controller, port controllers and an SPI controller with its device, and
  the functions that \<open>hal_spi.c\<close> calls on it. From laws about each device on its own follow those of
  \<open>spi_soc\<close>. \<open>react\<close> is what a change of the clock controller's registers does to the SPI controller.
\<close>

record ('k, 'g, 'c) machine =
  mc_soc :: "'k soc"
  mc_pio :: "'g gpio"
  mc_ctl :: 'c

abbreviation put_ctl :: "'c \<Rightarrow> ('k, 'g, 'c) machine \<Rightarrow> ('k, 'g, 'c) machine" where
  "put_ctl c h \<equiv> h\<lparr>mc_ctl := c\<rparr>"

abbreviation put_pio :: "'g gpio \<Rightarrow> ('k, 'g, 'c) machine \<Rightarrow> ('k, 'g, 'c) machine" where
  "put_pio g h \<equiv> h\<lparr>mc_pio := g\<rparr>"

definition put_soc :: "('k \<Rightarrow> 'c \<Rightarrow> 'c) \<Rightarrow> 'k soc \<Rightarrow> ('k, 'g, 'c) machine \<Rightarrow> ('k, 'g, 'c) machine" where
  "put_soc react k h = h\<lparr>mc_soc := k, mc_ctl := react (ck_hw (so_clks k)) (mc_ctl h)\<rparr>"

lemma put_soc_simps [simp]:
  "mc_soc (put_soc react k h) = k" "mc_pio (put_soc react k h) = mc_pio h"
  "mc_ctl (put_soc react k h) = react (ck_hw (so_clks k)) (mc_ctl h)"
  by (simp_all add: put_soc_def)

definition machine_plat ::
  "'c spi_plat \<Rightarrow> 'k clk_plat \<Rightarrow> ccu_reset list \<Rightarrow> ('k \<Rightarrow> 'c \<Rightarrow> 'c) \<Rightarrow> 'g gpio_plat \<Rightarrow> ('k, 'g, 'c) machine spi_plat"
where
  "machine_plat P K rs react G = \<lparr>
     plat_readl = (\<lambda>a. through mc_ctl put_ctl (plat_readl P a)), plat_writel = (\<lambda>v a. over mc_ctl put_ctl (plat_writel P v a)),
     plat_readb = (\<lambda>a. through mc_ctl put_ctl (plat_readb P a)), plat_writeb = (\<lambda>b a. over mc_ctl put_ctl (plat_writeb P b a)),
     plat_tick = over mc_ctl put_ctl (plat_tick P), plat_irq = (\<lambda>n h. plat_irq P n (mc_ctl h)),
     request_irq = (\<lambda>n. through mc_ctl put_ctl (request_irq P n)), enable_irq = (\<lambda>n. over mc_ctl put_ctl (enable_irq P n)),
     disable_irq = (\<lambda>n. over mc_ctl put_ctl (disable_irq P n)), free_irq = (\<lambda>n. over mc_ctl put_ctl (free_irq P n)),
     gpio_pinmux_set_function =
       (\<lambda>n m. through mc_pio put_pio (gpio_call (hal_gpio_pinmux_set_function G (of_nat n) (of_nat m)))),
     gpio_set_driving_level =
       (\<lambda>n m. through mc_pio put_pio (gpio_call (hal_gpio_set_driving_level G (of_nat n) (of_nat m)))),
     gpio_set_pull = (\<lambda>n m. through mc_pio put_pio (gpio_call (hal_gpio_set_pull G (of_nat n) (of_nat m)))),
     reset_control_get = (\<lambda>n. through mc_soc (put_soc react) (soc_reset_get rs n)),
     reset_control_assert = (\<lambda>n. over mc_soc (put_soc react) (soc_reset (hal_reset_control_assert K rs) n)),
     reset_control_deassert = (\<lambda>n. over mc_soc (put_soc react) (soc_reset (hal_reset_control_deassert K rs) n)),
     reset_control_put = (\<lambda>n. over mc_soc (put_soc react) (\<lambda>s. s)),
     clock_get = (\<lambda>n. through mc_soc (put_soc react)
       (\<lambda>s. let (c, k) = hal_clock_get HAL_SUNXI_CCU n (so_clks s) in (clk_handle c, s\<lparr>so_clks := k\<rparr>))),
     clock_put = (\<lambda>c. over mc_soc (put_soc react) (\<lambda>s. s\<lparr>so_clks := snd (hal_clock_put (clk_of c) (so_clks s))\<rparr>)),
     plat_clk_set_parent = (\<lambda>c p. through mc_soc (put_soc react) (soc_call (-1) (hal_clk_set_parent (clk_of c) (clk_of p)))),
     plat_clk_set_rate = (\<lambda>c rate. through mc_soc (put_soc react) (soc_call (-1) (hal_clk_set_rate (clk_of c) rate))),
     plat_clk_get_rate = (\<lambda>c. through mc_soc (put_soc react) (soc_call 0 (hal_clk_get_rate (clk_of c)))),
     clock_enable = (\<lambda>c. through mc_soc (put_soc react) (soc_call (-1) (hal_clock_enable (clk_of c)))),
     clock_disable = (\<lambda>c. through mc_soc (put_soc react) (soc_call (-1) (hal_clock_disable (clk_of c))))\<rparr>"

lemma machine_drivers:
  "clocks_through mc_soc (put_soc react) K rs (machine_plat P K rs react G)"
  "stops_through mc_soc (put_soc react) K rs (machine_plat P K rs react G)"
  "pins_through mc_pio put_pio G (machine_plat P K rs react G)"
  by (simp_all add: clocks_through_def stops_through_def pins_through_def machine_plat_def)

lemma machine_controller:
  assumes "spi_controller P C D lag base irqn"
  shows "spi_controller (machine_plat P K rs react G) (\<lambda>h. C (mc_ctl h)) D (\<lambda>h. lag (mc_ctl h)) base irqn"
proof -
  have io: "plat_readl (machine_plat P K rs react G) a h = (v, h') \<longleftrightarrow>
      plat_readl P a (mc_ctl h) = (v, mc_ctl h') \<and> h' = put_ctl (mc_ctl h') h"
    "plat_readb (machine_plat P K rs react G) a h = (x, h') \<longleftrightarrow>
      plat_readb P a (mc_ctl h) = (x, mc_ctl h') \<and> h' = put_ctl (mc_ctl h') h"
    "mc_ctl (plat_writel (machine_plat P K rs react G) v a h) = plat_writel P v a (mc_ctl h)"
    "mc_ctl (plat_writeb (machine_plat P K rs react G) x a h) = plat_writeb P x a (mc_ctl h)"
    "mc_ctl (plat_tick (machine_plat P K rs react G) h) = plat_tick P (mc_ctl h)"
    "plat_irq (machine_plat P K rs react G) n h = plat_irq P n (mc_ctl h)"
    for a h v x h' n
    by (auto simp: machine_plat_def through_def over_def split: prod.splits)
  note laws = spi_controller.readl [OF assms] spi_controller.readl_lag [OF assms] spi_controller.poll_tx [OF assms]
    spi_controller.poll_rx [OF assms] spi_controller.writel [OF assms] spi_controller.writel_lag [OF assms]
    spi_controller.start_lag [OF assms] spi_controller.writeb [OF assms] spi_controller.writeb_lag [OF assms]
    spi_controller.readb [OF assms] spi_controller.readb_lag [OF assms] spi_controller.irq [OF assms]
    spi_controller.tick [OF assms] spi_controller.tick_lag [OF assms] spi_controller.reply [OF assms]
  show ?thesis
    by (rule spi_controller.intro, unfold io) ((elim conjE)?, (rule laws; assumption))+
qed

text \<open>The laws of \<open>spi_soc\<close> from those of the devices.\<close>

lemma machine_spi_soc:
  assumes ctl: "spi_controller P C D lag base irqn"
    and soft: "\<And>v c. v AND SPI_GC_SRST \<noteq> 0 \<Longrightarrow> quiet (C c) \<Longrightarrow>
      quiet (C (plat_writel P v (base + SPI_GC_REG) c)) \<and> c_dev (C (plat_writel P v (base + SPI_GC_REG) c)) = c_dev (C c)"
    and irq: "\<And>c. 0 \<le> fst (request_irq P irqn c)" "keeps C (\<lambda>c. snd (request_irq P irqn c))" "keeps C (enable_irq P irqn)"
    and react: "\<And>k. keeps C (react k)" and storage: "reg_at K creg" "pio_regs G preg"
  shows "spi_soc (machine_plat P K rs react G) (\<lambda>h. C (mc_ctl h)) D (\<lambda>h. lag (mc_ctl h)) base irqn
    mc_soc (put_soc react) K creg rs mc_pio put_pio G preg"
proof (intro spi_soc.intro machine_controller ctl spi_soc_axioms.intro machine_drivers storage)
  fix v and h :: "('c, 'd, 'a) machine"
  let ?P = "machine_plat P K rs react G"
  have w: "mc_ctl (plat_writel ?P v a h) = plat_writel P v a (mc_ctl h)" for a
    by (simp add: machine_plat_def over_def)
  show "v AND SPI_GC_SRST \<noteq> 0 \<Longrightarrow> quiet (C (mc_ctl h)) \<Longrightarrow>
      quiet (C (mc_ctl (plat_writel ?P v (base + SPI_GC_REG) h))) \<and>
      c_dev (C (mc_ctl (plat_writel ?P v (base + SPI_GC_REG) h))) = c_dev (C (mc_ctl h))"
    unfolding w by (rule soft)
qed (use irq react in \<open>simp_all add: machine_plat_def through_def over_def keeps_def case_prod_unfold Let_def\<close>)

end
