(* ===== verification/Spi_Sim.thy ===== *)
theory Spi_Sim
  imports Spi_Machine
begin

unbundle bit_operations_syntax

text \<open>
  A simulated controller, with the flash chip of \<open>Nor_Board\<close> behind it, which takes every step of
  \<open>ctl_step\<close> it can between two accesses of the driver, so that no poll has to wait; and the machine
  made of it, the clocks of \<open>Ccu_Sim\<close> and port controllers, which meets the contracts of
  \<open>spi_controller\<close>, \<open>spi_soc\<close> and \<open>spi_board\<close>.
\<close>

section \<open>Taking every step\<close>

fun ctl_next :: "'d device \<Rightarrow> 'd ctl \<Rightarrow> 'd ctl option" where
  "ctl_next D c = (case c_phase c of
     Idle \<Rightarrow> None
   | Sending bs \<Rightarrow>
       if length bs < n_tx c then (case c_txf c of [] \<Rightarrow> None
         | b # txf \<Rightarrow> Some (c\<lparr>c_phase := Sending (bs @ [b]), c_txf := txf\<rparr>))
       else if length bs = n_tx c then
         (let (rx, d) = D (ctl_wire c bs) (c_dev c) in Some (c\<lparr>c_phase := Receiving rx, c_dev := d\<rparr>))
       else None
   | Receiving [] \<Rightarrow> Some (c\<lparr>c_phase := Idle, c_done := True, c_tc := c_tc c AND NOT SPI_TC_XCH\<rparr>)
   | Receiving (b # bs) \<Rightarrow>
       if length (c_rxf c) < 64 then Some (c\<lparr>c_phase := Receiving bs, c_rxf := c_rxf c @ [b]\<rparr>) else None)"

lemma ctl_next_step: "ctl_next D c = Some c' \<Longrightarrow> ctl_step D c c'"
  by (auto split: phase.splits list.splits if_splits prod.splits intro: ctl_step.intros(1-3) ctl_step.finish [simplified])

definition phase_rank :: "phase \<Rightarrow> nat" where
  "phase_rank p = (case p of Idle \<Rightarrow> 0 | Receiving bs \<Rightarrow> 1 | Sending bs \<Rightarrow> 2)"

definition phase_left :: "'d ctl \<Rightarrow> nat" where
  "phase_left c = (case c_phase c of Idle \<Rightarrow> 0 | Receiving bs \<Rightarrow> length bs | Sending bs \<Rightarrow> length (c_txf c))"

function settle :: "'d device \<Rightarrow> 'd ctl \<Rightarrow> 'd ctl" where
  "settle D c = (case ctl_next D c of None \<Rightarrow> c | Some c' \<Rightarrow> settle D c')"
  by pat_completeness auto
termination
  by (relation "measures [\<lambda>(D, c). phase_rank (c_phase c), \<lambda>(D, c). phase_left c]")
    (auto simp: phase_rank_def phase_left_def split: phase.splits list.splits if_splits prod.splits)

declare settle.simps [simp del] ctl_next.simps [simp del]

lemma settle_steps: "ctl_steps D c (settle D c)"
proof (induction D c rule: settle.induct)
  case (1 D c)
  show ?case
  proof (cases "ctl_next D c")
    case None
    then show ?thesis by (simp add: settle.simps [of D c])
  next
    case (Some c')
    with 1 ctl_next_step [OF Some] show ?thesis
      by (simp add: settle.simps [of D c] converse_rtranclp_into_rtranclp)
  qed
qed

lemma settle_stuck: "ctl_next D (settle D c) = None"
  by (induction D c rule: settle.induct) (subst settle.simps, simp split: option.split)

lemma settle_id: "ctl_next D c = None \<Longrightarrow> settle D c = c"
  by (simp add: settle.simps)

text \<open>A FIFO holds 64 bytes.\<close>

definition fifos :: "'d ctl \<Rightarrow> bool" where
  "fifos c \<longleftrightarrow> length (c_txf c) \<le> 64 \<and> length (c_rxf c) \<le> 64"

lemma fifos_steps: "ctl_steps D c c' \<Longrightarrow> fifos c \<Longrightarrow> fifos c'"
  by (induction rule: rtranclp_induct) (auto simp: fifos_def elim!: ctl_stepE)

definition rest :: "'d device \<Rightarrow> 'd ctl \<Rightarrow> 'd ctl" where
  "rest D c = settle D (c\<lparr>c_txf := take 64 (c_txf c), c_rxf := take 64 (c_rxf c)\<rparr>)"

definition at_rest :: "'d device \<Rightarrow> 'd ctl \<Rightarrow> bool" where
  "at_rest D c \<longleftrightarrow> ctl_next D c = None \<and> fifos c"

lemma settle_at_rest: "fifos c \<Longrightarrow> at_rest D (settle D c)"
  by (simp add: at_rest_def settle_stuck fifos_steps [OF settle_steps])

lemma rest_at_rest [simp]: "at_rest D (rest D c)"
  unfolding rest_def by (rule settle_at_rest) (simp add: fifos_def)

lemma rest_id: "at_rest D c \<Longrightarrow> rest D c = c"
  by (simp add: rest_def at_rest_def fifos_def settle_id)

section \<open>The simulated controller\<close>

text \<open>
  Registers at \<open>base\<close>; any other write, and any write the manual says nothing of, is ignored. The
  interrupt is taken when the transfer is complete and enabled.
\<close>

definition sim_readl :: "'d device \<Rightarrow> u64 \<Rightarrow> u64 \<Rightarrow> 'd ctl \<Rightarrow> u32 \<times> 'd ctl" where
  "sim_readl D base a h =
     (let c = rest D h; off = a - base
      in (if off = SPI_GC_REG then c_gc c
          else if off = SPI_TC_REG then c_tc c
          else if off = SPI_INT_CTL_REG then c_ier c
          else if off = SPI_INT_STA_REG then if c_done c then SPI_INT_STA_TC else 0
          else if off = SPI_FIFO_STA_REG
            then push_bit 16 (of_nat (length (c_txf c))) OR of_nat (length (c_rxf c))
          else if off = SPI_BURST_CNT_REG then c_mbc c
          else if off = SPI_TRANSMIT_CNT_REG then c_mtc c
          else if off = SPI_BCC_REG then c_bcc c else 0, c))"

definition sim_writel :: "'d device \<Rightarrow> u64 \<Rightarrow> u32 \<Rightarrow> u64 \<Rightarrow> 'd ctl \<Rightarrow> 'd ctl" where
  "sim_writel D base v a h =
     (let c = rest D h
      in case ctl_write (a - base) v c of None \<Rightarrow> c | Some c' \<Rightarrow> settle D c')"

definition sim_readb :: "'d device \<Rightarrow> u64 \<Rightarrow> u64 \<Rightarrow> 'd ctl \<Rightarrow> u8 \<times> 'd ctl" where
  "sim_readb D base a h =
     (let c = rest D h
      in case c_rxf c of [] \<Rightarrow> (0, c)
         | b # bs \<Rightarrow> if a = base + SPI_RXDATA_REG then (b, settle D (c\<lparr>c_rxf := bs\<rparr>)) else (0, c))"

definition sim_writeb :: "'d device \<Rightarrow> u64 \<Rightarrow> u8 \<Rightarrow> u64 \<Rightarrow> 'd ctl \<Rightarrow> 'd ctl" where
  "sim_writeb D base b a h =
     (let c = rest D h
      in if length (c_txf c) < 64 \<and> a = base + SPI_TXDATA_REG
         then settle D (c\<lparr>c_txf := c_txf c @ [b]\<rparr>) else c)"

definition sim_plat :: "'d device \<Rightarrow> u64 \<Rightarrow> u16 \<Rightarrow> 'd ctl spi_plat" where
  "sim_plat D base irqn = idle_plat\<lparr>plat_readl := sim_readl D base, plat_writel := sim_writel D base,
     plat_readb := sim_readb D base, plat_writeb := sim_writeb D base, plat_tick := rest D,
     plat_irq := (\<lambda>n h. n = irqn \<and> c_done (rest D h) \<and> c_ier (rest D h) AND SPI_INT_STA_TC \<noteq> 0)\<rparr>"

text \<open>A flash chip that answers with as many bytes as the transaction asks for.\<close>

definition sim_dev :: "sim device" where
  "sim_dev tr d = (case sim_xfer 0 tr d of
     None \<Rightarrow> (replicate (rx_len tr) 0, d)
   | Some (_, rx, d) \<Rightarrow> (take (rx_len tr) (rx @ replicate (rx_len tr) 0), d))"

lemma fifo_counts:
  assumes "fifos c"
  shows "unat (SPI_FIFO_STA_RX_CNT AND (push_bit 16 (of_nat (length (c_txf c))) OR of_nat (length (c_rxf c)))) =
      length (c_rxf c)"
    and "unat (drop_bit 16 (SPI_FIFO_STA_TX_CNT AND (push_bit 16 (of_nat (length (c_txf c))) OR of_nat (length (c_rxf c))))) =
      length (c_txf c)"
proof -
  define m n where "m = (of_nat (length (c_rxf c)) :: u32)" and "n = (of_nat (length (c_txf c)) :: u32)"
  have b: "unat m = length (c_rxf c)" "unat n = length (c_txf c)" "unat m < 2 ^ 8" "unat n < 2 ^ 8"
    using assms by (simp_all add: m_def n_def fifos_def unat_of_nat)
  then have t: "take_bit 8 m = m" "take_bit 8 n = n"
    by (simp_all only: word_unat_eq_iff unat_take_bit) simp_all
  have h: "bit m k \<Longrightarrow> k < 8" "bit n k \<Longrightarrow> k < 8" for k
    using bit_take_bit_iff [of 8 m k] bit_take_bit_iff [of 8 n k] t by simp_all
  have masks: "(0xFF :: u32) = mask 8" "(0xFF0000 :: u32) = push_bit 16 (mask 8)"
    by (simp_all add: mask_eq_exp_minus_1)
  have "SPI_FIFO_STA_RX_CNT AND (push_bit 16 n OR m) = m"
    unfolding masks by (intro bit_word_eqI) (auto simp: bit_simps dest: h)
  then show "unat (SPI_FIFO_STA_RX_CNT AND (push_bit 16 (of_nat (length (c_txf c))) OR of_nat (length (c_rxf c)))) =
      length (c_rxf c)" using b by (simp add: m_def n_def)
  have "drop_bit 16 (SPI_FIFO_STA_TX_CNT AND (push_bit 16 n OR m)) = n"
    unfolding masks by (intro bit_word_eqI) (auto simp: bit_simps dest: h)
  then show "unat (drop_bit 16 (SPI_FIFO_STA_TX_CNT AND (push_bit 16 (of_nat (length (c_txf c))) OR of_nat (length (c_rxf c))))) =
      length (c_txf c)" using b by (simp add: m_def n_def)
qed

section \<open>The contracts\<close>

text \<open>What is left to do when nothing can move: nothing to send, or a full receive FIFO.\<close>

lemma at_rest_drains:
  assumes "at_rest D c" "drains c"
  shows "c_txf c = []"
  using assms
  by (auto simp: at_rest_def drains_def ctl_next.simps split: phase.splits list.splits if_splits prod.splits)

lemma at_rest_supplied:
  assumes "at_rest D c" "supplied c" "c_phase c \<noteq> Idle"
  shows "length (c_rxf c) = 64"
  using assms
  by (auto simp: at_rest_def supplied_def fifos_def ctl_next.simps split: phase.splits list.splits if_splits prod.splits)

lemma sim_readl_eq:
  "sim_readl D base (base + off) h = (v, h') \<Longrightarrow> off \<in> ctl_regs \<Longrightarrow> h' = rest D h \<and> ctl_read off (rest D h) v"
  using fifo_counts [of "rest D h"] rest_at_rest [of D h]
  by (auto simp: sim_readl_def Let_def ctl_read_def ctl_regs_def at_rest_def split: if_splits)

lemma sim_writel_eq:
  "ctl_write off v (rest D h) = Some c' \<Longrightarrow> sim_writel D base v (base + off) h = settle D c'"
  by (simp add: sim_writel_def Let_def)

lemma ctl_write_fifos: "ctl_write off v c = Some c' \<Longrightarrow> fifos c \<Longrightarrow> fifos c'"
  by (auto simp: ctl_write_def fifos_def Let_def split: if_splits)

lemma settle_rest: "fifos c \<Longrightarrow> rest D (settle D c) = settle D c"
  by (rule rest_id [OF settle_at_rest])

lemma rest_rest [simp]: "rest D (rest D c) = rest D c"
  by (rule rest_id) simp

lemma rest_fifos [simp]: "fifos (rest D c)"
  using rest_at_rest [of D c] by (simp add: at_rest_def)

lemma sim_spi_controller:
  fixes D :: "'d device"
  assumes reply: "\<And>tr d. length (fst (D tr d)) = rx_len tr"
  shows "spi_controller (sim_plat D base irqn) (rest D) D (\<lambda>h. 0) base irqn"
proof
  fix off :: u64 and h :: "'d ctl" and v h' assume o: "off \<in> ctl_regs" and r: "plat_readl (sim_plat D base irqn) (base + off) h = (v, h')"
  then have "h' = rest D h \<and> ctl_read off (rest D h) v"
    by (intro sim_readl_eq) (simp_all add: sim_plat_def)
  then show "\<exists>c. ctl_steps D (rest D h) c \<and> ctl_read off c v \<and> ctl_steps D c (rest D h')"
    by (intro exI [of _ "rest D h"]) simp
next
  fix off :: u64 and h :: "'d ctl" and v h' assume "off \<in> ctl_regs" "plat_readl (sim_plat D base irqn) (base + off) h = (v, h')"
  show "(0 :: nat) \<le> 0" by simp
next
  fix h :: "'d ctl" and v h' assume r: "plat_readl (sim_plat D base irqn) (base + SPI_FIFO_STA_REG) h = (v, h')"
    and n: "64 \<le> unat (drop_bit 16 (SPI_FIFO_STA_TX_CNT AND v))" and d: "drains (rest D h)"
  have "ctl_read SPI_FIFO_STA_REG (rest D h) v"
    using sim_readl_eq [of D base SPI_FIFO_STA_REG h v h'] r by (simp add: sim_plat_def ctl_regs_def)
  with n at_rest_drains [OF rest_at_rest d] show "(0 :: nat) < 0" by (simp add: ctl_read_def)
next
  fix h :: "'d ctl" and v h' assume r: "plat_readl (sim_plat D base irqn) (base + SPI_FIFO_STA_REG) h = (v, h')"
    and n: "SPI_FIFO_STA_RX_CNT AND v = 0" and d: "c_phase (rest D h) \<noteq> Idle" "supplied (rest D h)"
  have "ctl_read SPI_FIFO_STA_REG (rest D h) v"
    using sim_readl_eq [of D base SPI_FIFO_STA_REG h v h'] r by (simp add: sim_plat_def ctl_regs_def)
  with n at_rest_supplied [OF rest_at_rest d(2,1)] show "(0 :: nat) < 0" by (auto simp: ctl_read_def)
next
  fix off :: u64 and h :: "'d ctl" and v :: u32 assume "off \<in> ctl_regs"
  have "ctl_steps D c' (rest D (plat_writel (sim_plat D base irqn) v (base + off) h))"
    if w: "ctl_write off v (rest D h) = Some c'" for c'
    using settle_rest [OF ctl_write_fifos [OF w rest_fifos]] settle_steps [of D c']
    by (simp add: sim_plat_def sim_writel_eq [OF w])
  then show "\<exists>c. ctl_steps D (rest D h) c \<and> (\<forall>c'. ctl_write off v c = Some c' \<longrightarrow>
      ctl_steps D c' (rest D (plat_writel (sim_plat D base irqn) v (base + off) h)))"
    by (intro exI [of _ "rest D h"]) simp
next
  fix h :: "'d ctl" and b :: u8
  have "rest D (settle D (rest D h\<lparr>c_txf := c_txf (rest D h) @ [b]\<rparr>)) =
      settle D (rest D h\<lparr>c_txf := c_txf (rest D h) @ [b]\<rparr>)" if "length (c_txf (rest D h)) < 64"
    using that rest_fifos [of D h] by (intro settle_rest) (simp add: fifos_def)
  then show "\<exists>c. ctl_steps D (rest D h) c \<and> (length (c_txf c) < 64 \<longrightarrow>
      ctl_steps D (c\<lparr>c_txf := c_txf c @ [b]\<rparr>) (rest D (plat_writeb (sim_plat D base irqn) b (base + SPI_TXDATA_REG) h)))"
    by (intro exI [of _ "rest D h"]) (simp add: sim_plat_def sim_writeb_def Let_def settle_steps)
next
  fix h :: "'d ctl" and x h' assume r: "plat_readb (sim_plat D base irqn) (base + SPI_RXDATA_REG) h = (x, h')"
  have "rest D (settle D (rest D h\<lparr>c_rxf := bs\<rparr>)) = settle D (rest D h\<lparr>c_rxf := bs\<rparr>)"
    if "c_rxf (rest D h) = b # bs" for b bs
    using that rest_fifos [of D h] by (intro settle_rest) (simp add: fifos_def)
  with r show "\<exists>c. ctl_steps D (rest D h) c \<and> (\<forall>bs b. c_rxf c = b # bs \<longrightarrow> x = b \<and>
      ctl_steps D (c\<lparr>c_rxf := bs\<rparr>) (rest D h'))"
    by (intro exI [of _ "rest D h"]) (auto simp: sim_plat_def sim_readb_def Let_def settle_steps)
next
  fix h :: "'d ctl" assume "c_phase (rest D h) \<noteq> Idle \<or> c_done (rest D h)"
    "c_ier (rest D h) AND SPI_INT_STA_TC \<noteq> 0" "supplied (rest D h)" "c_rxf (rest D h) = []"
    "\<not> plat_irq (sim_plat D base irqn) irqn h"
  then show "(0 :: nat) < 0"
    using at_rest_supplied [OF rest_at_rest, of D h] by (auto simp: sim_plat_def)
qed (simp_all add: sim_plat_def reply)

lemma sim_dev_reply: "length (fst (sim_dev tr d)) = rx_len tr"
  by (auto simp: sim_dev_def min_def split: option.split)

lemma sim_soft_reset:
  "v AND SPI_GC_SRST \<noteq> 0 \<Longrightarrow> quiet (rest D h) \<Longrightarrow> sim_writel D base v (base + SPI_GC_REG) h = rest D h"
  by (simp add: sim_writel_def Let_def ctl_write_def quiet_def)

section \<open>The machine\<close>

text \<open>The reset line of port 0 puts the registers of the controller into their reset state while it is low.\<close>

definition ctl_reset :: "'d ctl \<Rightarrow> 'd ctl" where
  "ctl_reset c = \<lparr>c_gc = 0x80, c_tc = 0x87, c_ier = 0, c_done = False, c_mbc = 0, c_mtc = 0, c_bcc = 0,
     c_txf = [], c_rxf = [], c_phase = Idle, c_dev = c_dev c\<rparr>"

definition sim_react :: "(u64 \<Rightarrow> u32) \<Rightarrow> sim ctl \<Rightarrow> sim ctl" where
  "sim_react h c = (if h 0x0200196c AND 0x10000 = 0 then ctl_reset (rest sim_dev c) else c)"

lemma rest_ctl_reset [simp]: "rest D (ctl_reset c) = ctl_reset c"
  by (intro rest_id) (simp add: at_rest_def fifos_def ctl_reset_def ctl_next.simps)

lemma sim_react_keeps: "keeps (rest sim_dev) (sim_react k)"
  by (simp add: keeps_def sim_react_def) (simp add: ctl_reset_def quiet_def)

type_synonym sim_machine = "(u64 \<Rightarrow> u32, u64 \<Rightarrow> u32, sim ctl) machine"

abbreviation sim_spi :: "sim_machine spi_plat" where
  "sim_spi \<equiv> machine_plat (sim_plat sim_dev (par_reg_base SPI0_PARAMS) (par_irq_num SPI0_PARAMS))
     clk_cells [d1_resets] sim_react sim_pio"

abbreviation sim_state :: "sim_machine \<Rightarrow> sim ctl" where
  "sim_state h \<equiv> rest sim_dev (mc_ctl h)"

interpretation sim_ctl: spi_controller sim_spi sim_state sim_dev "\<lambda>h. 0"
  "par_reg_base SPI0_PARAMS" "par_irq_num SPI0_PARAMS"
  by (rule machine_controller [OF sim_spi_controller]) (rule sim_dev_reply)

interpretation sim_soc: spi_soc sim_spi sim_state sim_dev "\<lambda>h. 0" "par_reg_base SPI0_PARAMS" "par_irq_num SPI0_PARAMS"
  mc_soc "put_soc sim_react" clk_cells "\<lambda>h. h" "[d1_resets]" mc_pio put_pio sim_pio sim_cell
proof (rule machine_spi_soc [OF sim_spi_controller])
  show "length (fst (sim_dev tr d)) = rx_len tr" for tr d by (rule sim_dev_reply)
  fix v and c :: "sim ctl" assume v: "v AND SPI_GC_SRST \<noteq> 0" and q: "quiet (rest sim_dev c)"
  have e: "plat_writel (sim_plat sim_dev b n) v (b + SPI_GC_REG) c = rest sim_dev c" for b n
    using sim_soft_reset [OF v q] by (simp add: sim_plat_def)
  show "quiet (rest sim_dev (plat_writel (sim_plat sim_dev (par_reg_base SPI0_PARAMS) (par_irq_num SPI0_PARAMS)) v
        (par_reg_base SPI0_PARAMS + SPI_GC_REG) c)) \<and>
      c_dev (rest sim_dev (plat_writel (sim_plat sim_dev (par_reg_base SPI0_PARAMS) (par_irq_num SPI0_PARAMS)) v
        (par_reg_base SPI0_PARAMS + SPI_GC_REG) c)) = c_dev (rest sim_dev c)"
    using q by (simp only: e rest_rest simp_thms)
qed (simp_all add: sim_plat_def idle_plat_def keeps_def sim_react_keeps [unfolded keeps_def] d1_cells sim_pio_regs)

text \<open>The clocks and the reset line of port 0 in the tables of \<open>Ccu_Sim\<close>.\<close>

definition d1_wires :: wires where
  "d1_wires = \<lparr>w_gates = spi_gates, w_rank = d1_rank, w_mp = spi0_clk, w_mclk = 75, w_bus_clk = 77, w_pclk = 5,
     w_pll_rate = 600000000, w_line = \<lparr>rc_dev = 0, rc_enable_count = 0, rc_id = 30\<rparr>, w_reset = (0x0200196c, 0x10000)\<rparr>"

lemma d1_wired: "wired [d1_resets] 0 d1_wires"
  using d1_reset_lines spi_gates.apart spi_clks_plain(1) spi0_mux_plain
  by (simp add: wired_def d1_wires_def SUNXI_CLK_RST_SPI_def) (simp add: spi0_clk_def spi_mp_clk_def co_addr_def)

lemma d1_reachable: "50000000 \<le> freq \<Longrightarrow> reachable d1_wires freq"
  using d1_spi0_rate unfolding reachable_def
  by (intro bexI [of _ "(12, 1)"]) (auto simp: d1_wires_def word_le_nat_alt unsigned_ucast_eq take_bit_nat_eq_self
    unsigned_less [THEN order_less_le_trans])

lemma d1_reachable_slow: "reachable d1_wires 5000000"
proof -
  have "(15, 8) \<in> divisors (mp_max_m spi0_clk) (mp_max_p spi0_clk)" "mp_rate 600000000 15 8 = 5000000"
    by (auto simp: divisors_def mp_max_m_def mp_max_p_def spi0_clk_def spi_mp_clk_def mp_rate_def intro: exI [of _ 3])
  then show ?thesis unfolding reachable_def by (intro bexI [of _ "(15, 8)"]) (auto simp: d1_wires_def)
qed

lemma d1_clocks_off: "clocks_off clk_cells (\<lambda>h. h) d1_wires 0 (\<lambda>_. 0) d1_clks" "leaf (w_mclk d1_wires) d1_clks"
  using d1_spi_clocks d1_lookups
  by (simp_all add: clocks_off_def d1_wires_def looked_up_def leaf_def SUNXI_CLK_SPI_def SUNXI_CLK_BUS_SPI_def)
    (simp_all add: d1_clks_def d1_core_def)

interpretation sim_stack: spi_board sim_spi sim_state sim_dev "\<lambda>h. 0" mc_soc "put_soc sim_react" clk_cells "\<lambda>h. h"
  "[d1_resets]" mc_pio put_pio sim_pio sim_cell d1_wires "\<lambda>t h. put_ctl (rest sim_dev (mc_ctl h)) h" "\<lambda>t d. d" "\<lambda>h. (True, h)"
  by unfold_locales (simp_all add: d1_wired d1_reachable)

section \<open>The simulated chip behind it\<close>

lemma sim_xfer_wire:
  assumes "fits_wire tr"
  shows "sim_xfer 0 (tr_wire (spi_descr tr)) d = sim_xfer 0 tr d" "rx_len (tr_wire (spi_descr tr)) = rx_len tr"
proof -
  have "unat (of_nat (length (tx_data tr)) :: u32) = length (tx_data tr)"
    using assms by (simp add: fits_wire_def unat_of_nat)
  then have t: "tx_data (tr_wire (spi_descr tr)) = tx_data tr"
    by (simp add: tr_wire_def tx_bytes_def spi_descr_def)
  show r: "rx_len (tr_wire (spi_descr tr)) = rx_len tr"
    using fits_descr(2) [OF assms] by (simp add: tr_wire_def)
  show "sim_xfer 0 (tr_wire (spi_descr tr)) d = sim_xfer 0 tr d"
    by (simp only: sim_xfer_def t r)
qed

lemma dev_sim:
  assumes "fits_wire tr" "sim_xfer 0 tr d = Some (r, rx, d')"
  shows "spi_xfer (dev_env sim_dev Wd) p tr d = Some (0, take (rx_len tr) (rx @ replicate (rx_len tr) 0), d')"
  by (simp add: dev_env_def sim_dev_def sim_xfer_wire [OF assms(1)] assms(2))

lemma sim_dev_chip: "nor_chip (dev_env sim_dev (\<lambda>t d. d)) sim_view"
proof -
  note dev = dev_sim [OF fits_plain]
  have "chip_status (dev_env sim_dev (\<lambda>t d. d)) sim_view"
    by (auto simp: chip_status_def sim_view_def dev sim_xfer_def sim_status_def Let_def)
  moreover have "chip_wren (dev_env sim_dev (\<lambda>t d. d)) sim_view"
    by (auto simp: chip_wren_def sim_view_def dev sim_xfer_def Let_def)
  moreover have "chip_read (dev_env sim_dev (\<lambda>t d. d)) sim_view"
    by (auto simp: chip_read_def sim_view_def dev_sim [OF fits_read] sim_xfer_read obeys_def quad_enabled_def)
  moreover have "chip_program (dev_env sim_dev (\<lambda>t d. d)) sim_view"
    by (auto simp: chip_program_def sim_view_def dev_sim [OF fits_program] sim_xfer_program obeys_def quad_enabled_def)
  moreover have "chip_erase (dev_env sim_dev (\<lambda>t d. d)) sim_view"
    by (auto simp: chip_erase_def sim_view_def dev_sim [OF fits_erase] sim_xfer_erase)
  moreover have "chip_erase_all (dev_env sim_dev (\<lambda>t d. d)) sim_view"
    by (auto simp: chip_erase_all_def sim_view_def dev sim_xfer_def Let_def read_ops_def prog_ops_def quad_ops_def)
  moreover have "chip_delay (dev_env sim_dev (\<lambda>t d. d)) sim_view"
    by (simp add: chip_delay_def dev_env_def)
  ultimately show ?thesis by (simp add: nor_chip_def)
qed

lemma sim_dev_board: "board (dev_env sim_dev (\<lambda>t d. d)) sim_view [0x85, 0x60, 0x17]"
proof -
  note dev = dev_sim [OF fits_plain]
  have "chip_ident (dev_env sim_dev (\<lambda>t d. d)) sim_view [0x85, 0x60, 0x17]"
    by (auto simp: chip_ident_def sim_view_def dev sim_xfer_def Let_def)
  moreover have "chip_reset (dev_env sim_dev (\<lambda>t d. d)) sim_view"
    by (auto simp: chip_reset_def sim_view_def dev sim_xfer_def Let_def)
  moreover have "chip_unlock_all (dev_env sim_dev (\<lambda>t d. d)) sim_view"
    by (auto simp: chip_unlock_all_def sim_view_def dev sim_xfer_def Let_def read_ops_def prog_ops_def erase_bytes_def quad_ops_def)
  moreover have "chip_read_sr2 (dev_env sim_dev (\<lambda>t d. d)) sim_view" "chip_write_sr2 (dev_env sim_dev (\<lambda>t d. d)) sim_view"
    by (auto simp: chip_read_sr2_def chip_write_sr2_def sim_view_def dev sim_xfer_def Let_def)
  moreover have "spi_works (dev_env sim_dev (\<lambda>t d. d)) sim_view"
    by (simp add: spi_works_def dev_env_def sim_view_def)
  ultimately show ?thesis by (simp add: board_def sim_dev_chip)
qed

text \<open>The controller after power-up, with a chip full of zeros.\<close>

definition sim_ctl0 :: "sim ctl" where
  "sim_ctl0 = \<lparr>c_gc = 0x80, c_tc = 0x87, c_ier = 0, c_done = False, c_mbc = 0, c_mtc = 0, c_bcc = 0,
     c_txf = [], c_rxf = [], c_phase = Idle, c_dev = sim_blank\<rparr>"

definition sim_port :: sunxi_spi where
  "sim_port = \<lparr>sp_result = 0, sp_irqnum = 0, sp_base = 0, sp_mode_type = SGLE_HALF_DUPLEX_RX, sp_pclk = 0,
     sp_bus_clk = 0, sp_mclk = 0, sp_reset = 0, sp_port = 0, sp_transfer = None\<rparr>"

text \<open>The pins as the GPIO driver leaves them.\<close>

definition sim_gpio :: "(u64 \<Rightarrow> u32) gpio" where
  "sim_gpio = snd (aw_hal_gpio_init sim_pio (gpio_boot (\<lambda>_. 0)))"

lemma sim_gpio_init: "gpio_ready sim_gpio"
  using aw_hal_gpio_init_ready [of sim_pio "\<lambda>_. 0"] by (auto simp: sim_gpio_def sim_pio_def)

definition sim_machine0 :: sim_machine where
  "sim_machine0 = \<lparr>mc_soc = \<lparr>so_clks = d1_clks, so_resets = []\<rparr>, mc_pio = sim_gpio, mc_ctl = sim_ctl0\<rparr>"

definition sim_ports :: "sim_machine spi_ports" where
  "sim_ports = \<lparr>g_sunxi_spi = [sim_port, sim_port], spi_hw = sim_machine0\<rparr>"

lemma rest_sim_ctl0: "rest D sim_ctl0 = sim_ctl0"
  by (intro rest_id) (simp add: at_rest_def fifos_def sim_ctl0_def ctl_next.simps)

lemma sim_ports_sel [simp]: "length (g_sunxi_spi sim_ports) = 2" "quiet (sim_state (spi_hw sim_ports))"
  by (simp_all add: sim_ports_def sim_machine0_def rest_sim_ctl0 quiet_def) (simp_all add: sim_ctl0_def)

lemma sim_ports_off: "system_off mc_soc mc_pio clk_cells (\<lambda>h. h) d1_wires 0 (\<lambda>_. 0) (spi_hw sim_ports)"
  using d1_clocks_off by (simp add: system_off_def sim_ports_def sim_machine0_def sim_gpio_init)

lemma standby_sim_ports: "standby (spi_view sim_state sim_view sim_stack.unused) sim_ports"
proof -
  have c: "sim_state (spi_hw sim_ports) = sim_ctl0" by (simp add: sim_ports_def sim_machine0_def rest_sim_ctl0)
  have "g_sunxi_spi sim_ports \<noteq> []" by (simp add: sim_ports_def)
  moreover have "standby sim_view (c_dev sim_ctl0)" by (simp add: sim_ctl0_def)
  ultimately show ?thesis
    using sim_ports_off sim_ports_sel(2) unfolding spi_view_def chip_view.select_convs c by blast
qed

text \<open>The ports as initialisation leaves them.\<close>

definition sim_idle :: "sim_machine spi_ports" where
  "sim_idle = \<lparr>g_sunxi_spi = [sim_port\<lparr>sp_base := par_reg_base SPI0_PARAMS,
     sp_irqnum := par_irq_num SPI0_PARAMS, sp_mode_type := MODE_TYPE_NULL\<rparr>, sim_port],
     spi_hw = put_ctl (sim_ctl0\<lparr>c_gc := 0x83, c_tc := 0x104\<rparr>) sim_machine0\<rparr>"

lemma rest_sim_idle: "sim_state (sp_hw (port_at 0 sim_idle)) = mc_ctl (spi_hw sim_idle)"
proof -
  have "rest sim_dev (mc_ctl (spi_hw sim_idle)) = mc_ctl (spi_hw sim_idle)"
    by (intro rest_id) (simp add: at_rest_def fifos_def sim_idle_def sim_ctl0_def ctl_next.simps)
  then show ?thesis by simp
qed

lemma idle_sim_idle:
  "spi_idle sim_state (par_reg_base SPI0_PARAMS) (par_irq_num SPI0_PARAMS) (port_at 0 sim_idle)"
  unfolding spi_idle_def rest_sim_idle by (simp add: sim_idle_def sim_ctl0_def ctl_ready_def)

end
