(* ===== verification/Spi_Returns.thy ===== *)
theory Spi_Returns
  imports Spi_Init
begin

unbundle bit_operations_syntax

text \<open>
  What a transfer of \<open>hal_spi.c\<close> does on any hardware whatever: it returns, it leaves the driver
  ready for the next call, and it never notices that the controller does not answer.
\<close>

section \<open>Frames\<close>

text \<open>
  Between two of the driver's own assignments only the interrupt handler and the hardware act; where
  no interrupt is ever taken, the result stays as it is.
\<close>

definition unnoticed :: "'h spi_plat \<Rightarrow> 'h spi \<Rightarrow> 'h spi \<Rightarrow> bool" where
  "unnoticed P s s' \<longleftrightarrow> only_irq s s' \<and> ((\<forall>n h. \<not> plat_irq P n h) \<longrightarrow> sp_result s' = sp_result s)"

lemma unnoticed_refl [simp]: "unnoticed P s s"
  by (simp add: unnoticed_def)

lemma unnoticed_hw [simp]: "unnoticed P s (s\<lparr>sp_hw := h\<rparr>)"
  by (simp add: unnoticed_def)

lemma unnoticed_trans: "unnoticed P s t \<Longrightarrow> unnoticed P t u \<Longrightarrow> unnoticed P s u"
  by (auto simp: unnoticed_def intro: only_irq_trans)

lemma only_hw_unnoticed: "only_hw s s' \<Longrightarrow> unnoticed P s s'"
  by (auto simp: only_hw_def)

lemma only_hw_hal [simp]:
  "only_hw s (hal_writel P v off s)" "only_hw s (hal_writeb P b off s)"
  "only_hw s (snd (hal_readl P off s))" "only_hw s (snd (hal_readb P off s))"
  "only_hw s (snd (spi_query_txfifo P s))" "only_hw s (snd (spi_query_rxfifo P s))"
  "only_hw s (spi_clr_irq_pending P v s)"
  by (simp_all add: hal_writel_def hal_writeb_def hal_readl_def hal_readb_def spi_query_txfifo_def
      spi_query_rxfifo_def spi_clr_irq_pending_def split: prod.split)

lemma only_irq_result [simp]: "only_irq s (s\<lparr>sp_result := r\<rparr>)" for s :: "'h spi"
  using only_irqI [of s "sp_hw s" r] by simp

lemma only_irq_handler: "only_irq s (spi_irq_handler P s)"
proof -
  have hw: "only_irq t u" if "only_hw t u" for t u :: "'h spi"
    using only_hw_unnoticed [OF that] by (simp add: unnoticed_def)
  obtain e s1 where s1: "spi_qry_irq_enable P s = (e, s1)" by fastforce
  obtain v s2 where s2: "spi_qry_irq_pending P s1 = (v, s2)" by fastforce
  have "only_hw s s2"
    using s1 s2 by (auto simp: spi_qry_irq_enable_def spi_qry_irq_pending_def hal_readl_def split: prod.splits)
  then have 2: "only_irq s s2" by (rule hw)
  let ?s3 = "(spi_clr_irq_pending P v s2)\<lparr>sp_result := SPI_XFER_OK\<rparr>"
  let ?s4 = "spi_disable_irq P (SPI_INT_STA_TC OR SPI_INT_STA_ERR) ?s3"
  have 3: "only_irq s ?s3"
    by (rule only_irq_trans [OF only_irq_trans [OF 2 hw] only_irq_result]) simp
  have 4: "only_irq s ?s4"
    by (rule only_irq_trans [OF 3 hw]) (simp add: spi_disable_irq_def update_reg_eq)
  have 5: "only_irq s (?s4\<lparr>sp_result := SPI_XFER_FAILED\<rparr>)"
    by (rule only_irq_trans [OF 4 only_irq_result])
  show ?thesis
    using 3 4 5 by (simp add: spi_irq_handler_def s1 s2 Let_def)
qed

lemma unnoticed_take_irq [simp]: "unnoticed P s (take_irq P s)"
  by (simp add: unnoticed_def take_irq_def only_irq_handler)

lemma unnoticed_dump [simp]: "unnoticed P s (spi_dump_reg P off n s)"
proof -
  have "unnoticed P s (fold (\<lambda>i s. snd (hal_readl P (off + of_nat (4 * i)) s)) xs s)" for xs
  proof (induction xs arbitrary: s)
    case (Cons x xs)
    then show ?case
      by (simp del: of_nat_mult) (rule unnoticed_trans [OF only_hw_unnoticed [OF only_hw_hal(3)]])
  qed simp
  then show ?thesis by (simp add: spi_dump_reg_def)
qed

lemma unnoticed_wait_tx: "spi_wait_txfifo P p s = (p', s') \<Longrightarrow> unnoticed P s s'"
proof (induction P p s arbitrary: p' s' rule: spi_wait_txfifo.induct)
  case (1 P p s)
  obtain n u where u: "spi_query_txfifo P (take_irq P s) = (n, u)" by fastforce
  have "only_hw (take_irq P s) u" using only_hw_hal(5) [of "take_irq P s" P] by (simp add: u)
  then have su: "unnoticed P s u" by (rule unnoticed_trans [OF unnoticed_take_irq only_hw_unnoticed])
  show ?case
    using "1.prems" "1.IH" [OF u [symmetric]] su
    by (auto simp: spi_wait_txfifo.simps [of P p s] u split: if_splits intro: unnoticed_trans)
qed

lemma unnoticed_wait_rx: "spi_wait_rxfifo P p s = (p', s') \<Longrightarrow> unnoticed P s s'"
proof (induction P p s arbitrary: p' s' rule: spi_wait_rxfifo.induct)
  case (1 P p s)
  obtain n u where u: "spi_query_rxfifo P (take_irq P s) = (n, u)" by fastforce
  have "only_hw (take_irq P s) u" using only_hw_hal(6) [of "take_irq P s" P] by (simp add: u)
  then have su: "unnoticed P s u" by (rule unnoticed_trans [OF unnoticed_take_irq only_hw_unnoticed])
  show ?case
    using "1.prems" "1.IH" [OF u [symmetric]] su
    by (auto simp: spi_wait_rxfifo.simps [of P p s] u split: if_splits intro: unnoticed_trans)
qed

section \<open>The loops return\<close>

lemma cpu_write_loop_returns:
  "i + len \<le> length buf \<Longrightarrow> \<exists>r s'. cpu_write_loop P buf i len p s = Some (r, s') \<and> unnoticed P s s'"
proof (induction len arbitrary: i p s)
  case (Suc len)
  let ?u = "hal_writeb P (buf ! i) SPI_TXDATA_REG (take_irq P s)"
  obtain q v where v: "spi_wait_txfifo P p ?u = (q, v)" by fastforce
  have "unnoticed P s ?u" by (rule unnoticed_trans [OF unnoticed_take_irq only_hw_unnoticed]) simp
  then have sv: "unnoticed P s v" using unnoticed_wait_tx [OF v] by (rule unnoticed_trans)
  from Suc.IH [of "Suc i" q v] Suc.prems obtain r s' where
    "cpu_write_loop P buf (Suc i) len q v = Some (r, s')" "unnoticed P v s'" by auto
  with v sv Suc.prems show ?case
    by (cases "q = 0") (auto intro: unnoticed_trans)
qed auto

lemma cpu_read_loop_returns:
  "n + len \<le> length buf \<Longrightarrow> \<exists>r buf' s'. cpu_read_loop P buf n len p s = Some (r, buf', s') \<and>
     length buf' = length buf \<and> unnoticed P s s'"
proof (induction len arbitrary: n p buf s)
  case (Suc len)
  obtain q v where v: "spi_wait_rxfifo P p s = (q, v)" by fastforce
  have sv: "unnoticed P s v" by (rule unnoticed_wait_rx [OF v])
  obtain x u where u: "hal_readb P SPI_RXDATA_REG (take_irq P v) = (x, u)" by fastforce
  have "only_hw (take_irq P v) u" using only_hw_hal(4) [of "take_irq P v" P] by (metis u snd_conv)
  then have "unnoticed P v u" by (rule unnoticed_trans [OF unnoticed_take_irq only_hw_unnoticed])
  with sv have su: "unnoticed P s u" by (rule unnoticed_trans)
  from Suc.IH [of "Suc n" "buf[n := x]" q u] Suc.prems obtain r buf' s' where
    "cpu_read_loop P (buf[n := x]) (Suc n) len q u = Some (r, buf', s')" "length buf' = length buf"
    "unnoticed P u s'" by auto
  with v u sv su Suc.prems show ?case
    by (cases "q = 0") (auto intro: unnoticed_trans)
qed auto

lemma complete_loop_result:
  "complete_loop P p s = (p', s') \<Longrightarrow> only_irq s s' \<and>
     ((\<forall>n h. \<not> plat_irq P n h) \<longrightarrow> sp_result s = 0 \<longrightarrow> sp_result s' = 0 \<and> p' = - 1)"
proof (induction P p s arbitrary: p' s' rule: complete_loop.induct)
  case (1 P p s)
  let ?u = "take_irq P s"
  have u: "only_irq s ?u" "only_irq s (?u\<lparr>sp_hw := plat_tick P (sp_hw ?u)\<rparr>)"
    using unnoticed_take_irq [of P s] unnoticed_trans [OF unnoticed_take_irq unnoticed_hw, of P s]
    by (simp_all add: unnoticed_def)
  have r: "sp_result ?u = sp_result s" if "\<forall>n h. \<not> plat_irq P n h"
    using that by (simp add: take_irq_def)
  show ?case
    using "1.prems" "1.IH" [OF refl, of p' s'] u r
    by (subst (asm) complete_loop.simps) (auto simp: Let_def split: if_splits intro: only_irq_trans)
qed

section \<open>A transfer returns\<close>

text \<open>The buffers are at least as long as the descriptor says.\<close>

definition tr_bufs :: "hal_spi_tr \<Rightarrow> bool" where
  "tr_bufs t \<longleftrightarrow> (\<forall>buf. tr_tx_buf t = Some buf \<longrightarrow> unat (tr_tx_len t) \<le> length buf) \<and>
     (\<forall>buf. tr_rx_buf t = Some buf \<longrightarrow> unat (tr_rx_len t) \<le> length buf)"

text \<open>What a transfer leaves alone in the driver's structure.\<close>

definition in_transfer :: "'h spi_plat \<Rightarrow> hal_spi_tr \<Rightarrow> 'h spi \<Rightarrow> 'h spi \<Rightarrow> bool" where
  "in_transfer P t s s' \<longleftrightarrow> sp_mode_type s' = sp_mode_type s \<and> sp_base s' = sp_base s \<and>
     (\<exists>buf. sp_transfer s' = Some (t\<lparr>tr_rx_buf := buf\<rparr>) \<and>
        map_option length buf = map_option length (tr_rx_buf t)) \<and>
     ((\<forall>n h. \<not> plat_irq P n h) \<longrightarrow> sp_result s' = sp_result s)"

lemma in_transfer_refl: "sp_transfer s = Some t \<Longrightarrow> in_transfer P t s s"
  by (auto simp: in_transfer_def intro!: exI [of _ "tr_rx_buf t"])

lemma in_transfer_then: "in_transfer P t s u \<Longrightarrow> unnoticed P u v \<Longrightarrow> in_transfer P t s v"
  by (auto simp: in_transfer_def unnoticed_def only_irq_fields)

lemma spi_cpu_write_returns:
  assumes "sp_transfer s = Some t" "tr_bufs t"
  shows "\<exists>r s'. spi_cpu_write P s = Some (r, s') \<and> unnoticed P s s'"
  using assms cpu_write_loop_returns [of 0 "unat (tr_tx_len t)" _ P "0xFF" s]
  by (cases "tr_tx_buf t") (auto simp: spi_cpu_write_def tr_bufs_def)

lemma spi_cpu_read_returns:
  assumes s: "in_transfer P t s0 s" and t: "tr_bufs t"
  shows "\<exists>r s'. spi_cpu_read P s = Some (r, s') \<and> in_transfer P t s0 s'"
proof -
  obtain b where b: "sp_transfer s = Some (t\<lparr>tr_rx_buf := b\<rparr>)"
    "map_option length b = map_option length (tr_rx_buf t)"
    using s by (auto simp: in_transfer_def)
  show ?thesis
  proof (cases b)
    case None
    with b s show ?thesis by (simp add: spi_cpu_read_def)
  next
    case (Some buf)
    then obtain buf0 where b0: "tr_rx_buf t = Some buf0" "length buf = length buf0"
      using b(2) by (cases "tr_rx_buf t") auto
    obtain r buf' u where u: "cpu_read_loop P buf 0 (unat (tr_rx_len t)) 0xFF s = Some (r, buf', u)"
      "length buf' = length buf" "unnoticed P s u"
      using cpu_read_loop_returns [of 0 "unat (tr_rx_len t)" buf P "0xFF" s] t b0
      by (auto simp: tr_bufs_def)
    have "in_transfer P t s0 (u\<lparr>sp_transfer := Some (t\<lparr>tr_rx_buf := Some buf'\<rparr>)\<rparr>)"
      using in_transfer_then [OF s u(3)] b0 u(2) by (simp add: in_transfer_def) (rule exI [of _ "Some buf'"], simp)
    with b(1) Some u(1) show ?thesis by (simp add: spi_cpu_read_def)
  qed
qed

lemma in_transfer_trans:
  "in_transfer P t s u \<Longrightarrow> in_transfer P t u v \<Longrightarrow> in_transfer P t s v"
  by (auto simp: in_transfer_def)

lemma unnoticed_start [simp]: "unnoticed P s (spi_start_xfer P (take_irq P s))"
  by (rule unnoticed_trans [OF unnoticed_take_irq only_hw_unnoticed]) (simp add: spi_start_xfer_def update_reg_eq)

lemma spi_transfer_cpu_returns:
  assumes s: "sp_transfer s = Some t" "sp_mode_type s = tr_mode t" and t: "tr_bufs t"
  shows "\<exists>s'. spi_transfer_cpu P s = Some (0, s') \<and> in_transfer P t s s'"
proof -
  let ?c = "spi_start_xfer P (take_irq P (spi_clr_irq_pending P SPI_INT_STA_MASK (take_irq P s)))"
  let ?u = "spi_start_xfer P (take_irq P s)"
  have "unnoticed P s (spi_clr_irq_pending P SPI_INT_STA_MASK (take_irq P s))"
    by (rule unnoticed_trans [OF unnoticed_take_irq only_hw_unnoticed]) simp
  then have c: "in_transfer P t s ?c"
    using in_transfer_then [OF in_transfer_refl [OF s(1)] unnoticed_trans [OF _ unnoticed_start]] by blast
  obtain r1 a where a: "spi_cpu_read P ?c = Some (r1, a)" "in_transfer P t s a"
    using spi_cpu_read_returns [OF c t] by blast
  have u: "in_transfer P t s ?u" by (rule in_transfer_then [OF in_transfer_refl [OF s(1)] unnoticed_start])
  have st: "sp_transfer ?u = Some t"
    using unnoticed_start [of P s] s(1) by (auto simp: unnoticed_def dest: only_irq_fields(4))
  obtain r2 b where b: "spi_cpu_write P ?u = Some (r2, b)" "in_transfer P t s b"
    using spi_cpu_write_returns [OF st t, of P] in_transfer_then [OF u] by blast
  obtain r3 e where e: "spi_cpu_read P b = Some (r3, e)" "in_transfer P t s e"
    using spi_cpu_read_returns [OF b(2) t] by blast
  show ?thesis
    using a b e s(2) by (auto simp: spi_transfer_cpu_def tr_mode_def)
qed

lemma spi_mode_check_returns:
  assumes "sp_mode_type s = MODE_TYPE_NULL" "sp_transfer s = Some t" "tr_tx_buf t \<noteq> None \<or> tr_rx_buf t \<noteq> None"
  shows "\<exists>h. spi_mode_check P s = Some (0, s\<lparr>sp_mode_type := tr_mode t, sp_hw := h\<rparr>)"
proof -
  have hw: "\<exists>h. u = s\<lparr>sp_hw := h\<rparr>" if "only_hw s u" for u using that by (simp add: only_hw_def)
  let ?dm = "ucast (tr_dummy_byte t) :: u32"
  define u where "u = (if tr_tx_buf t \<noteq> None \<and> tr_rx_buf t \<noteq> None
    then spi_lanes P (tr_rx_nbits t) (spi_set_bc_tc_stc P (tr_tx_len t) (tr_rx_len t) (tr_tx_single_len t) ?dm s)
    else if tr_tx_buf t \<noteq> None
    then spi_set_bc_tc_stc P (tr_tx_len t) 0 (if tr_tx_nbits t \<in> {LANES_DUAL, LANES_QUAD}
      then tr_tx_single_len t else tr_tx_len t) ?dm (spi_lanes P (tr_tx_nbits t) s)
    else spi_set_bc_tc_stc P 0 (tr_rx_len t) 0 ?dm (spi_lanes P (tr_rx_nbits t) s))"
  have "only_hw s u"
    by (auto simp: u_def intro: only_hw_trans [OF only_hw_lanes only_hw_counters]
        only_hw_trans [OF only_hw_counters only_hw_lanes])
  then obtain h where "u = s\<lparr>sp_hw := h\<rparr>" using hw by blast
  moreover have "spi_mode_check P s = Some (0, u\<lparr>sp_mode_type := tr_mode t\<rparr>)"
    using assms
    by (cases "tr_tx_buf t"; cases "tr_rx_buf t")
      (simp_all add: spi_mode_check_def u_def tr_mode_def tr_lanes_def lanes_mode counters_mode Let_def)
  ultimately show ?thesis by (intro exI [of _ h]) simp
qed

lemma spi_cpu_complete_result:
  "\<exists>r s'. spi_cpu_complete P s = (r, s') \<and> r \<in> {0, - 4, - 6} \<and> only_irq s s' \<and>
     ((\<forall>n h. \<not> plat_irq P n h) \<longrightarrow> sp_result s = 0 \<longrightarrow> r = 0)"
proof -
  obtain p u where u: "complete_loop P 0xFFFF s = (p, u)" by fastforce
  have "only_irq u (spi_dump_reg P 0 0x60 u)" using unnoticed_dump by (auto simp: unnoticed_def)
  with complete_loop_result [OF u] show ?thesis
    by (auto simp: spi_cpu_complete_def u intro: only_irq_trans)
qed

lemma tr_mode_not_null [simp]: "tr_mode t \<noteq> MODE_TYPE_NULL"
  by (simp add: tr_mode_def)

lemma unnoticed_reg:
  assumes "\<And>t. only_hw t (f t)" "unnoticed P s t"
  shows "unnoticed P s (f (take_irq P t))"
  using assms(2) by (rule unnoticed_trans [OF _ unnoticed_trans [OF unnoticed_take_irq only_hw_unnoticed]])
    (rule assms(1))

lemma spi_prepare_unnoticed:
  "unnoticed P s (spi_enable_irq P a (take_irq P (spi_reset_fifo P (take_irq P
     (spi_disable_dma_irq P b (take_irq P (spi_clr_irq_pending P c (take_irq P s))))))))"
proof -
  have "unnoticed P s (spi_clr_irq_pending P c (take_irq P s))"
    by (rule unnoticed_reg) simp_all
  then have "unnoticed P s (spi_disable_dma_irq P b (take_irq P (spi_clr_irq_pending P c (take_irq P s))))"
    by (rule unnoticed_reg [rotated]) (simp add: spi_disable_dma_irq_def)
  then have "unnoticed P s (spi_reset_fifo P (take_irq P
     (spi_disable_dma_irq P b (take_irq P (spi_clr_irq_pending P c (take_irq P s))))))"
    by (rule unnoticed_reg [rotated]) (simp add: spi_reset_fifo_def)
  then show ?thesis
    by (rule unnoticed_reg [rotated]) (simp add: spi_enable_irq_def)
qed

text \<open>A descriptor \<open>hal_spi_xfer\<close> does not refuse at once.\<close>

definition tr_wanted :: "hal_spi_tr \<Rightarrow> bool" where
  "tr_wanted t \<longleftrightarrow> \<not> (tr_tx_buf t = None \<and> tr_rx_buf t = None \<or> tr_tx_len t = 0 \<and> tr_rx_buf t = None)"

lemma spi_xfer_on_returns:
  assumes s: "sp_mode_type s = MODE_TYPE_NULL" and t: "tr_bufs t" "tr_wanted t"
  shows "\<exists>r s'. spi_xfer_on P (Some t) s = Some (r, s') \<and> r \<in> {0, - 6} \<and> sp_mode_type s' = MODE_TYPE_NULL \<and>
    (\<exists>buf. sp_transfer s' = Some (t\<lparr>tr_rx_buf := buf\<rparr>) \<and> map_option length buf = map_option length (tr_rx_buf t)) \<and>
    ((\<forall>n h. \<not> plat_irq P n h) \<longrightarrow> r = 0)"
proof -
  let ?s1 = "s\<lparr>sp_result := SPI_XFER_READY, sp_transfer := Some t\<rparr>"
  obtain h where m: "spi_mode_check P ?s1 = Some (0, ?s1\<lparr>sp_mode_type := tr_mode t, sp_hw := h\<rparr>)"
    using spi_mode_check_returns [of ?s1 t P] s t(2) by (auto simp: tr_wanted_def)
  let ?s2 = "?s1\<lparr>sp_mode_type := tr_mode t, sp_hw := h\<rparr>"
  let ?s3 = "spi_enable_irq P (SPI_INT_STA_TC OR SPI_INT_STA_ERR) (take_irq P
    (spi_reset_fifo P (take_irq P (spi_disable_dma_irq P SPI_FIFO_CTL_DRQEN_MASK (take_irq P
    (spi_clr_irq_pending P SPI_INT_STA_MASK (take_irq P ?s2)))))))"
  have u3: "unnoticed P ?s2 ?s3" by (rule spi_prepare_unnoticed)
  then have f3: "sp_mode_type ?s3 = tr_mode t" "sp_transfer ?s3 = Some t"
    "(\<forall>n h. \<not> plat_irq P n h) \<longrightarrow> sp_result ?s3 = 0"
    by (auto simp: unnoticed_def dest: only_irq_fields(3,4))
  obtain s4 where s4: "spi_transfer_cpu P ?s3 = Some (0, s4)" "in_transfer P t ?s3 s4"
    using spi_transfer_cpu_returns [OF f3(2,1) t(1)] by blast
  obtain r s5 where s5: "spi_cpu_complete P s4 = (r, s5)" "only_irq s4 s5"
    "(\<forall>n h. \<not> plat_irq P n h) \<longrightarrow> sp_result s4 = 0 \<longrightarrow> r = 0"
    using spi_cpu_complete_result [of P s4] by blast
  have "spi_xfer_on P (Some t) s = Some (if r \<noteq> 0 then - 6 else 0, s5\<lparr>sp_mode_type := MODE_TYPE_NULL\<rparr>)"
    using m s4 s5(1) t(2) f3(1)
    by (simp add: spi_xfer_on_def hal_spi_xfer_body_def tr_wanted_def in_transfer_def Let_def)
  then show ?thesis
    using s4(2) s5(2,3) f3(3) by (auto simp: in_transfer_def only_irq_fields)
qed

section \<open>Register values\<close>

lemma bit_set_bits: "bit (set_bits c m v) k \<longleftrightarrow> (if bit m k then c \<and> k < 32 else bit v k)"
  using bit_imp_le_length [of v k] bit_imp_le_length [of m k]
  by (auto simp: set_bits_def bit_simps)

lemma bit_tc_config:
  "bit (tc_config n v) k \<longleftrightarrow> (if bit SPI_TC_SSCTL k then False
     else if bit SPI_TC_DHB k then n AND SPI_RECEIVE_ALL_ACTIVE = 0 \<and> k < 32
     else if bit SPI_TC_DDB k then n AND SPI_DUMMY_ONE_ACTIVE \<noteq> 0 \<and> k < 32
     else if bit SPI_TC_FBS k then n AND SPI_LSB_FIRST_ACTIVE \<noteq> 0 \<and> k < 32
     else if bit SPI_TC_SPOL k then n AND SPI_CS_HIGH_ACTIVE = 0 \<and> k < 32
     else if bit SPI_TC_PHA k then n AND SPI_PHA_ACTIVE \<noteq> 0 \<and> k < 32
     else if bit SPI_TC_POL k then n AND SPI_POL_ACTIVE \<noteq> 0 \<and> k < 32
     else bit v k)"
proof -
  have "tc_config n v = set_bits False SPI_TC_SSCTL (set_bits (n AND SPI_RECEIVE_ALL_ACTIVE = 0) SPI_TC_DHB
      (set_bits (n AND SPI_DUMMY_ONE_ACTIVE \<noteq> 0) SPI_TC_DDB (set_bits (n AND SPI_LSB_FIRST_ACTIVE \<noteq> 0) SPI_TC_FBS
      (set_bits (n AND SPI_CS_HIGH_ACTIVE = 0) SPI_TC_SPOL (set_bits (n AND SPI_PHA_ACTIVE \<noteq> 0) SPI_TC_PHA
      (set_bits (n AND SPI_POL_ACTIVE \<noteq> 0) SPI_TC_POL v))))))"
    by (simp only: tc_config_def Let_def set_bits_def [of False] if_False)
  then show ?thesis by (simp only: bit_set_bits simp_thms)
qed

lemma tc_config_twice: "tc_config n (tc_config m v) = tc_config n v"
  by (rule bit_word_eqI) (simp add: bit_tc_config)

lemma tc_config_msb:
  assumes "n AND SPI_LSB_FIRST_ACTIVE = 0"
  shows "tc_config n v AND SPI_TC_FBS = 0"
proof -
  have "(0x1000 :: u32) = push_bit 12 1" by simp
  moreover have "\<not> bit (tc_config n v) 12"
    using assms by (simp add: bit_tc_config)
  ultimately show ?thesis by (simp only: and_single_bit) simp
qed

lemma mode_bits_msb: "a \<in> {0, 2} \<Longrightarrow> b \<in> {0, 1} \<Longrightarrow> (a OR b) AND SPI_LSB_FIRST_ACTIVE = (0 :: u32)"
  by (elim insertE emptyE; simp)

section \<open>A controller that does not answer\<close>

definition dead_plat :: "unit spi_plat" where
  "dead_plat = \<lparr>plat_readl = (\<lambda>a h. (0, h)), plat_writel = (\<lambda>v a h. h), plat_readb = (\<lambda>a h. (0, h)),
     plat_writeb = (\<lambda>v a h. h), plat_tick = (\<lambda>h. h), plat_irq = (\<lambda>n h. False),
     request_irq = (\<lambda>n h. (0, h)), enable_irq = (\<lambda>n h. h), disable_irq = (\<lambda>n h. h), free_irq = (\<lambda>n h. h),
     gpio_pinmux_set_function = (\<lambda>n m h. (0, h)), gpio_set_driving_level = (\<lambda>n m h. (0, h)),
     gpio_set_pull = (\<lambda>n m h. (0, h)), reset_control_get = (\<lambda>n h. (n, h)),
     reset_control_assert = (\<lambda>n h. h), reset_control_deassert = (\<lambda>n h. h), reset_control_put = (\<lambda>n h. h),
     clock_get = (\<lambda>n h. (n, h)), clock_put = (\<lambda>n h. h), plat_clk_set_parent = (\<lambda>n m h. (0, h)),
     plat_clk_set_rate = (\<lambda>n f h. (0, h)), plat_clk_get_rate = (\<lambda>n h. (0, h)),
     clock_enable = (\<lambda>n h. (0, h)), clock_disable = (\<lambda>n h. (0, h))\<rparr>"

definition dead_ports :: "unit spi_ports" where
  "dead_ports = (let p = \<lparr>sp_result = 0, sp_irqnum = 31, sp_base = 0x04025000,
     sp_mode_type = MODE_TYPE_NULL, sp_pclk = 0, sp_bus_clk = 0, sp_mclk = 0, sp_reset = 0, sp_port = 0,
     sp_transfer = None\<rparr> in \<lparr>g_sunxi_spi = [p, p], spi_hw = ()\<rparr>)"

lemma dead_ports_sel [simp]:
  "length (g_sunxi_spi dead_ports) = 2" "sp_mode_type (g_sunxi_spi dead_ports ! 0) = MODE_TYPE_NULL"
  "sp_mode_type (g_sunxi_spi dead_ports ! Suc 0) = MODE_TYPE_NULL"
  by (simp_all add: dead_ports_def Let_def)

end
