(* ===== verification/Mm_Heap.thy ===== *)
theory Mm_Heap
  imports Prelude
begin

text \<open>
  The heap of the flash algorithm (\<open>mm/src\<close>, \<open>mm/include/mm.h\<close>) and the C library calls on it
  (\<open>libc/malloc.c\<close>), as built: \<open>CONFIG_SMALL_MEMORY\<close> makes the chunk sizes 16 bit wide
  (\<open>mmsize_t\<close>) with bit 15 of \<open>preceding\<close> as the allocated flag, the 64-bit pointers make
  \<open>MM_MIN_SHIFT\<close> 4 and \<open>MM_MAX_SHIFT\<close> 22; one region, \<open>CONFIG_MM_DETECT_ERROR\<close> off,
  \<open>CONFIG_MM_MAX_USED\<close> on, and semaphore calls that are empty macros.

  The heap lives in byte memory: chunk headers, free nodes and the list heads of
  \<open>mm_nodelist\<close> are read and written at their addresses with their C layout, so that
  overlapping structures are seen. The list walks are partial functions: on a damaged
  list or heap they may not end, which is the value \<open>None\<close>.
\<close>

section \<open>Memory\<close>

type_synonym ptr = "64 word"
type_synonym mem = "ptr \<Rightarrow> u8"

primrec load :: "nat \<Rightarrow> mem \<Rightarrow> ptr \<Rightarrow> nat" where
  "load 0 m p = 0"
| "load (Suc n) m p = unat (m p) + 256 * load n m (p + 1)"

primrec store :: "nat \<Rightarrow> ptr \<Rightarrow> nat \<Rightarrow> mem \<Rightarrow> mem" where
  "store 0 p v m = m"
| "store (Suc n) p v m = store n (p + 1) (v div 256) (m(p := of_nat v))"

definition ld16 :: "mem \<Rightarrow> ptr \<Rightarrow> u16" where
  "ld16 m p = of_nat (load 2 m p)"

definition ld64 :: "mem \<Rightarrow> ptr \<Rightarrow> u64" where
  "ld64 m p = of_nat (load 8 m p)"

definition st16 :: "ptr \<Rightarrow> u16 \<Rightarrow> mem \<Rightarrow> mem" where
  "st16 p v = store 2 p (unat v)"

definition st64 :: "ptr \<Rightarrow> u64 \<Rightarrow> mem \<Rightarrow> mem" where
  "st64 p v = store 8 p (unat v)"

definition mem_set :: "ptr \<Rightarrow> u8 \<Rightarrow> u64 \<Rightarrow> mem \<Rightarrow> mem" where
  "mem_set p c n m = (\<lambda>a. if a - p < n then c else m a)"

definition mem_cpy :: "ptr \<Rightarrow> ptr \<Rightarrow> u64 \<Rightarrow> mem \<Rightarrow> mem" where
  "mem_cpy dst src n m = (\<lambda>a. if a - dst < n then m (src + (a - dst)) else m a)"

section \<open>Chunk headers and free nodes\<close>

abbreviation (input) MM_MAX_CHUNK :: u64 where "MM_MAX_CHUNK \<equiv> 0x400000"
abbreviation (input) MM_NNODES :: nat where "MM_NNODES \<equiv> 19"
abbreviation (input) MM_GRAN_MASK :: u64 where "MM_GRAN_MASK \<equiv> 0xF"
abbreviation (input) MM_ALLOC_BIT :: u16 where "MM_ALLOC_BIT \<equiv> 0x8000"
abbreviation (input) SIZEOF_MM_ALLOCNODE :: u64 where "SIZEOF_MM_ALLOCNODE \<equiv> 4"
abbreviation (input) SIZEOF_MM_FREENODE :: u64 where "SIZEOF_MM_FREENODE \<equiv> 20"

definition MM_ALIGN_UP :: "u64 \<Rightarrow> u64" where
  "MM_ALIGN_UP a = (a + MM_GRAN_MASK) AND NOT MM_GRAN_MASK"

definition MM_ALIGN_DOWN :: "u64 \<Rightarrow> u64" where
  "MM_ALIGN_DOWN a = a AND NOT MM_GRAN_MASK"

text \<open>
  \<open>struct mm_freenode_s\<close>: \<open>size\<close> at offset 0, \<open>preceding\<close> at 2, then, aligned to 8, \<open>flink\<close> and
  \<open>blink\<close>; 24 bytes. \<open>struct mm_allocnode_s\<close> is its first 4 bytes.
\<close>

abbreviation (input) n_size :: "mem \<Rightarrow> ptr \<Rightarrow> u16" where "n_size m p \<equiv> ld16 m p"
abbreviation (input) n_prec :: "mem \<Rightarrow> ptr \<Rightarrow> u16" where "n_prec m p \<equiv> ld16 m (p + 2)"
abbreviation (input) n_flink :: "mem \<Rightarrow> ptr \<Rightarrow> ptr" where "n_flink m p \<equiv> ld64 m (p + 8)"
abbreviation (input) n_blink :: "mem \<Rightarrow> ptr \<Rightarrow> ptr" where "n_blink m p \<equiv> ld64 m (p + 16)"
abbreviation (input) set_size :: "ptr \<Rightarrow> u16 \<Rightarrow> mem \<Rightarrow> mem" where "set_size p v \<equiv> st16 p v"
abbreviation (input) set_prec :: "ptr \<Rightarrow> u16 \<Rightarrow> mem \<Rightarrow> mem" where "set_prec p v \<equiv> st16 (p + 2) v"
abbreviation (input) set_flink :: "ptr \<Rightarrow> ptr \<Rightarrow> mem \<Rightarrow> mem" where "set_flink p v \<equiv> st64 (p + 8) v"
abbreviation (input) set_blink :: "ptr \<Rightarrow> ptr \<Rightarrow> mem \<Rightarrow> mem" where "set_blink p v \<equiv> st64 (p + 16) v"

text \<open>
  \<open>struct mm_heap_s\<close>; \<open>mm_nodelist\<close> is the address of its array of list heads, which is in
  memory, and \<open>g_max_used_size\<close> is the static variable of \<open>mm_mallinfo.c\<close>.
\<close>

record mm_heap =
  mm_ram :: mem
  mm_heapsize :: u64
  mm_heapstart :: ptr
  mm_heapend :: ptr
  mm_nodelist :: ptr
  g_max_used_size :: int

definition nodelist :: "mm_heap \<Rightarrow> nat \<Rightarrow> ptr" where
  "nodelist h i = mm_nodelist h + 24 * of_nat i"

section \<open>The free list\<close>

function size2ndx_loop :: "u64 \<Rightarrow> nat \<Rightarrow> nat" where
  "size2ndx_loop sz ndx =
     (if sz > 1 then size2ndx_loop (drop_bit 1 sz) (Suc ndx) else ndx)"
  by pat_completeness auto
termination
proof (relation "measure (\<lambda>(sz, ndx). unat sz)")
  fix sz :: u64 and ndx
  assume "sz > 1"
  then have "unat sz > 1" by (simp add: word_less_nat_alt)
  moreover have "unat (drop_bit 1 sz) = unat sz div 2"
    by (simp only: unat_drop_bit_eq) (simp add: drop_bit_Suc)
  ultimately show "((drop_bit 1 sz, Suc ndx), sz, ndx) \<in> measure (\<lambda>(sz, ndx). unat sz)"
    by simp
qed simp

declare size2ndx_loop.simps [simp del]

definition mm_size2ndx :: "u64 \<Rightarrow> nat" where
  "mm_size2ndx sz =
     (if sz \<ge> MM_MAX_CHUNK then MM_NNODES - 1 else size2ndx_loop (drop_bit 4 sz) 0)"

partial_function (option) find_slot :: "mem \<Rightarrow> u16 \<Rightarrow> ptr \<Rightarrow> ptr \<Rightarrow> (ptr \<times> ptr) option" where
  "find_slot m sz prev nxt =
     (if nxt \<noteq> 0 \<and> n_size m nxt \<noteq> 0 \<and> n_size m nxt < sz
      then find_slot m sz nxt (n_flink m nxt) else Some (prev, nxt))"

declare find_slot.simps [code]

definition mm_addfreechunk :: "ptr \<Rightarrow> mm_heap \<Rightarrow> mm_heap option" where
  "mm_addfreechunk node h = do {
     let m = mm_ram h;
     let hd = nodelist h (mm_size2ndx (ucast (n_size m node)));
     (prev, nxt) \<leftarrow> find_slot m (n_size m node) hd (n_flink m hd);
     let m = set_flink node nxt (set_blink node prev (set_flink prev node m));
     let m = (if nxt \<noteq> 0 then set_blink nxt node m else m);
     Some (h\<lparr>mm_ram := m\<rparr>)
   }"

definition unlink_node :: "ptr \<Rightarrow> mem \<Rightarrow> mem" where
  "unlink_node node m =
     (let m = set_flink (n_blink m node) (n_flink m node) m in
      if n_flink m node \<noteq> 0 then set_blink (n_flink m node) (n_blink m node) m else m)"

section \<open>Initialisation\<close>

definition mm_addregion :: "ptr \<Rightarrow> u64 \<Rightarrow> mm_heap \<Rightarrow> mm_heap option" where
  "mm_addregion start sz h = do {
     let heapbase = MM_ALIGN_UP start;
     let heapend = MM_ALIGN_DOWN (start + sz);
     let heapsize = heapend - heapbase;
     let h = h\<lparr>mm_heapsize := mm_heapsize h + heapsize, mm_heapstart := heapbase\<rparr>;
     let m = set_prec heapbase MM_ALLOC_BIT (set_size heapbase 4 (mm_ram h));
     let node = heapbase + SIZEOF_MM_ALLOCNODE;
     let m = set_prec node 4 (set_size node (ucast (heapsize - 2 * SIZEOF_MM_ALLOCNODE)) m);
     let hend = heapend - SIZEOF_MM_ALLOCNODE;
     let m = set_prec hend (n_size (set_size hend 4 m) node OR MM_ALLOC_BIT) (set_size hend 4 m);
     mm_addfreechunk node (h\<lparr>mm_heapend := hend, mm_ram := m\<rparr>)
   }"

fun link_heads :: "ptr \<Rightarrow> nat \<Rightarrow> nat \<Rightarrow> mem \<Rightarrow> mem" where
  "link_heads nl i 0 m = m"
| "link_heads nl i (Suc n) m =
     link_heads nl (Suc i) n
       (set_blink (nl + 24 * of_nat i) (nl + 24 * of_nat (i - 1))
          (set_flink (nl + 24 * of_nat (i - 1)) (nl + 24 * of_nat i) m))"

definition mm_initialize :: "ptr \<Rightarrow> u64 \<Rightarrow> mm_heap \<Rightarrow> mm_heap option" where
  "mm_initialize start sz h =
     (let m = mem_set (mm_nodelist h) 0 (24 * of_nat MM_NNODES) (mm_ram h);
          m = link_heads (mm_nodelist h) 1 (MM_NNODES - 1) m
      in mm_addregion start sz (h\<lparr>mm_heapsize := 0, mm_ram := m\<rparr>))"

text \<open>\<open>heap_lo\<close> and \<open>heap_hi\<close> are the addresses of the linker symbols \<open>__heap_start\<close>, \<open>__heap_end\<close>.\<close>

definition mm_heap_initialize :: "ptr \<Rightarrow> ptr \<Rightarrow> mm_heap \<Rightarrow> mm_heap option" where
  "mm_heap_initialize heap_lo heap_hi = mm_initialize heap_lo (heap_hi - heap_lo)"

section \<open>Statistics\<close>

record mallinfo =
  arena :: int
  ordblks :: int
  mxordblk :: int
  uordblks :: int
  fordblks :: int

definition to_int :: "u64 \<Rightarrow> int" where
  "to_int x = sint (ucast x :: u32)"

partial_function (option) mallinfo_walk ::
  "mem \<Rightarrow> ptr \<Rightarrow> ptr \<Rightarrow> u64 \<Rightarrow> int \<Rightarrow> u64 \<Rightarrow> u64 \<Rightarrow> (u64 \<times> int \<times> u64 \<times> u64) option" where
  "mallinfo_walk m hend node mx ord uord ford =
     (if node < hend then
        let s = ucast (n_size m node); nxt = node + s in
        if n_prec m node AND MM_ALLOC_BIT \<noteq> 0
        then mallinfo_walk m hend nxt mx ord (uord + s) ford
        else mallinfo_walk m hend nxt (if s > mx then s else mx) (ord + 1) uord (ford + s)
      else Some (mx, ord, uord, ford))"

declare mallinfo_walk.simps [code]

definition mm_mallinfo :: "mm_heap \<Rightarrow> mallinfo option" where
  "mm_mallinfo h = do {
     (mx, ord, uord, ford) \<leftarrow> mallinfo_walk (mm_ram h) (mm_heapend h) (mm_heapstart h) 0 0 0 0;
     Some \<lparr>arena = to_int (mm_heapsize h), ordblks = ord, mxordblk = to_int mx,
           uordblks = to_int (uord + SIZEOF_MM_ALLOCNODE), fordblks = to_int ford\<rparr>
   }"

definition mm_max_usedsize_update :: "mm_heap \<Rightarrow> mm_heap option" where
  "mm_max_usedsize_update h = do {
     info \<leftarrow> mm_mallinfo h;
     Some (if uordblks info > g_max_used_size h then h\<lparr>g_max_used_size := uordblks info\<rparr> else h)
   }"

definition mm_get_mallinfo :: "mm_heap \<Rightarrow> (int \<times> int \<times> int \<times> int) option" where
  "mm_get_mallinfo h = do {
     info \<leftarrow> mm_mallinfo h;
     Some (arena info, uordblks info, fordblks info, g_max_used_size h)
   }"

section \<open>Allocation\<close>

partial_function (option) find_fit :: "mem \<Rightarrow> u64 \<Rightarrow> ptr \<Rightarrow> ptr option" where
  "find_fit m sz node =
     (if node \<noteq> 0 \<and> ucast (n_size m node) < sz
      then find_fit m sz (n_flink m node) else Some node)"

declare find_fit.simps [code]

definition take_chunk :: "ptr \<Rightarrow> u64 \<Rightarrow> mm_heap \<Rightarrow> mm_heap option" where
  "take_chunk node sz h = do {
     let h = h\<lparr>mm_ram := unlink_node node (mm_ram h)\<rparr>;
     let remaining = ucast (n_size (mm_ram h) node) - sz;
     h \<leftarrow> (if remaining \<ge> SIZEOF_MM_FREENODE then do {
             let m = mm_ram h;
             let nxt = node + ucast (n_size m node);
             let remainder = node + sz;
             let m = set_prec remainder (ucast sz) (set_size remainder (ucast remaining) m);
             let m = set_size node (ucast sz) m;
             let m = set_prec nxt (ucast remaining OR (n_prec m nxt AND MM_ALLOC_BIT)) m;
             mm_addfreechunk remainder (h\<lparr>mm_ram := m\<rparr>)
           } else Some h);
     Some (h\<lparr>mm_ram := set_prec node (n_prec (mm_ram h) node OR MM_ALLOC_BIT) (mm_ram h)\<rparr>)
   }"

definition mm_malloc :: "u64 \<Rightarrow> mm_heap \<Rightarrow> (ptr \<times> mm_heap) option" where
  "mm_malloc sz h =
     (if sz < 1 then Some (0, h) else do {
        let sz = MM_ALIGN_UP (sz + SIZEOF_MM_ALLOCNODE);
        let ndx = (if sz \<ge> MM_MAX_CHUNK then MM_NNODES - 1 else mm_size2ndx sz);
        node \<leftarrow> find_fit (mm_ram h) sz (n_flink (mm_ram h) (nodelist h ndx));
        (ret, h) \<leftarrow> (if node \<noteq> 0 then do {
                       h \<leftarrow> take_chunk node sz h;
                       Some (node + SIZEOF_MM_ALLOCNODE, h)
                     } else Some (0, h));
        h \<leftarrow> mm_max_usedsize_update h;
        Some (ret, h)
      })"

definition mm_free :: "ptr \<Rightarrow> mm_heap \<Rightarrow> mm_heap option" where
  "mm_free mem h =
     (if mem = 0 then Some h else
        let node = mem - SIZEOF_MM_ALLOCNODE;
            m = mm_ram h;
            m = set_prec node (n_prec m node AND NOT MM_ALLOC_BIT) m;
            nxt = node + ucast (n_size m node);
            (m, nxt) =
              (if n_prec m nxt AND MM_ALLOC_BIT = 0 then
                 let andbeyond = nxt + ucast (n_size m nxt);
                     m = unlink_node nxt m;
                     m = set_size node (n_size m node + n_size m nxt) m;
                     m = set_prec andbeyond
                           (n_size m node OR (n_prec m andbeyond AND MM_ALLOC_BIT)) m
                 in (m, andbeyond)
               else (m, nxt));
            prev = node - ucast (n_prec m node);
            (m, node) =
              (if n_prec m prev AND MM_ALLOC_BIT = 0 then
                 let m = unlink_node prev m;
                     m = set_size prev (n_size m prev + n_size m node) m;
                     m = set_prec nxt (n_size m prev OR (n_prec m nxt AND MM_ALLOC_BIT)) m
                 in (m, prev)
               else (m, node))
        in mm_addfreechunk node (h\<lparr>mm_ram := m\<rparr>))"

section \<open>The C library calls\<close>

text \<open>\<open>g_malloc_size\<close> is a counter of type \<open>int\<close>; the calls work on \<open>g_mmheap\<close>.\<close>

definition libc_malloc :: "u64 \<Rightarrow> u32 \<times> mm_heap \<Rightarrow> (ptr \<times> u32 \<times> mm_heap) option" where
  "libc_malloc sz = (\<lambda>(g, h). do {
     (ret, h) \<leftarrow> mm_malloc sz h;
     Some (ret, g + ucast sz, h)
   })"

definition libc_free :: "ptr \<Rightarrow> u32 \<times> mm_heap \<Rightarrow> (u32 \<times> mm_heap) option" where
  "libc_free p = (\<lambda>(g, h). do {
     h \<leftarrow> mm_free p h;
     Some (g, h)
   })"

definition libc_realloc :: "ptr \<Rightarrow> u64 \<Rightarrow> u32 \<times> mm_heap \<Rightarrow> (ptr \<times> u32 \<times> mm_heap) option" where
  "libc_realloc p sz = (\<lambda>(g, h). do {
     (new, h) \<leftarrow> mm_malloc sz h;
     if new = 0 then Some (0, g, h)
     else if p \<noteq> 0 then do {
       h \<leftarrow> mm_free p (h\<lparr>mm_ram := mem_cpy new p sz (mm_ram h)\<rparr>);
       Some (new, g, h)
     } else Some (new, g, h)
   })"

definition libc_calloc :: "u64 \<Rightarrow> u64 \<Rightarrow> u32 \<times> mm_heap \<Rightarrow> (ptr \<times> u32 \<times> mm_heap) option" where
  "libc_calloc nmemb sz = (\<lambda>(g, h). do {
     (p, h) \<leftarrow> mm_malloc (sz * nmemb) h;
     Some (p, g, if p \<noteq> 0 then h\<lparr>mm_ram := mem_set p 0 (sz * nmemb) (mm_ram h)\<rparr> else h)
   })"

end
