(* ===== verification/Mm_Lists.thy ===== *)
theory Mm_Lists
  imports Mm_Heap
begin

text \<open>
  What the heap's memory represents: the chunk list that tiles the region (\<open>tiled\<close>), the
  doubly linked free list through the list heads (\<open>dll\<close>), and how one store changes what is
  read elsewhere. Addresses are natural numbers here, \<open>pt\<close> makes them pointers.
\<close>

section \<open>Pointers from natural numbers\<close>

definition pt :: "nat \<Rightarrow> ptr" where
  "pt n = of_nat n"

lemma pt_add [simp]: "pt a + pt b = pt (a + b)"
  by (simp add: pt_def)

lemma pt_add_num [simp]: "pt a + numeral k = pt (a + numeral k)" "pt a + 1 = pt (Suc a)"
  by (simp_all add: pt_def)

lemma pt_sub: "b \<le> a \<Longrightarrow> pt a - pt b = pt (a - b)"
  by (simp add: pt_def of_nat_diff)

lemma pt_sub_num: "numeral k \<le> a \<Longrightarrow> pt a - numeral k = pt (a - numeral k)"
  by (simp add: pt_def of_nat_diff)

lemma unat_pt [simp]: "a < 2 ^ 64 \<Longrightarrow> unat (pt a) = a"
  by (simp add: pt_def unat_of_nat)

lemma pt_inj: "\<lbrakk>a < 2 ^ 64; b < 2 ^ 64\<rbrakk> \<Longrightarrow> pt a = pt b \<longleftrightarrow> a = b"
  by (metis unat_pt)

lemma pt_eq_0: "a < 2 ^ 64 \<Longrightarrow> pt a = 0 \<longleftrightarrow> a = 0"
  using pt_inj [of a 0] by (simp add: pt_def)

lemma pt_0 [simp]: "pt 0 = 0"
  by (simp add: pt_def)

lemma pt_unat [simp]: "pt (unat p) = p"
  by (simp add: pt_def)

lemma u16_less: "unat (x :: u16) < 2 ^ 16"
  using unsigned_less [of x] by simp

lemma ucast_u16: "ucast (x :: u16) = pt (unat x)"
  by (simp add: pt_def)

lemma ucast16_pt: "ucast (pt n) = (of_nat n :: u16)"
  by (rule bit_word_eqI) (simp add: pt_def bit_simps)

lemma ucast_pt: "s < 2 ^ 16 \<Longrightarrow> ucast (of_nat s :: u16) = pt s"
  by (simp add: pt_def unsigned_of_nat take_bit_nat_eq_self)

section \<open>Stores and what they leave alone\<close>

definition same_outside :: "nat set \<Rightarrow> mem \<Rightarrow> mem \<Rightarrow> bool" where
  "same_outside S m m' \<longleftrightarrow> (\<forall>a < 2 ^ 64. a \<notin> S \<longrightarrow> m' (pt a) = m (pt a))"

lemma same_outside_refl [simp, intro]: "same_outside S m m"
  by (simp add: same_outside_def)

lemma same_outside_trans [trans]:
  "\<lbrakk>same_outside S m m'; same_outside T m' m''\<rbrakk> \<Longrightarrow> same_outside (S \<union> T) m m''"
  by (simp add: same_outside_def)

lemma same_outside_mono: "\<lbrakk>same_outside S m m'; S \<subseteq> T\<rbrakk> \<Longrightarrow> same_outside T m m'"
  by (auto simp: same_outside_def)

lemma same_outside_chain:
  "\<lbrakk>same_outside S m m'; same_outside S m' m''\<rbrakk> \<Longrightarrow> same_outside S m m''"
  by (simp add: same_outside_def)

lemma store_outside:
  "b + n \<le> 2 ^ 64 \<Longrightarrow> same_outside {b..<b + n} m (store n (pt b) v m)"
proof (induction n arbitrary: b v m)
  case (Suc n)
  have "same_outside {Suc b..<Suc b + n} (m(pt b := of_nat v))
          (store n (pt (Suc b)) (v div 256) (m(pt b := of_nat v)))"
    using Suc.prems by (intro Suc.IH) simp
  then show ?case using Suc.prems by (auto simp: same_outside_def pt_inj)
qed simp

lemma load_store: "b + n \<le> 2 ^ 64 \<Longrightarrow> load n (store n (pt b) v m) (pt b) = v mod 256 ^ n"
proof (induction n arbitrary: b v m)
  case (Suc n)
  let ?m = "store n (pt (Suc b)) (v div 256) (m(pt b := of_nat v))"
  have "same_outside {Suc b..<Suc b + n} (m(pt b := of_nat v)) ?m"
    using Suc.prems store_outside [of "Suc b" n] by simp
  then have "?m (pt b) = of_nat v"
    using Suc.prems by (auto simp: same_outside_def)
  then show ?case
    using Suc by (simp add: mod_mult2_eq unat_of_nat)
qed simp

lemma load_same:
  "\<lbrakk>same_outside S m m'; {a..<a + n} \<inter> S = {}; a + n \<le> 2 ^ 64\<rbrakk>
   \<Longrightarrow> load n m' (pt a) = load n m (pt a)"
proof (induction n arbitrary: a)
  case (Suc n)
  have "a \<in> {a..<a + Suc n}" "{Suc a..<Suc a + n} \<subseteq> {a..<a + Suc n}" by auto
  then have "a \<notin> S" "{Suc a..<Suc a + n} \<inter> S = {}" using Suc.prems(2) by blast+
  then show ?case using Suc.IH [of "Suc a"] Suc.prems by (auto simp: same_outside_def)
qed simp

lemma ld_st_same [simp]:
  "a + 2 \<le> 2 ^ 64 \<Longrightarrow> ld16 (st16 (pt a) v m) (pt a) = v"
  "a + 8 \<le> 2 ^ 64 \<Longrightarrow> ld64 (st64 (pt a) w m) (pt a) = w"
proof -
  have "unat v < 65536" "unat w < 18446744073709551616"
    using unsigned_less [of v] unsigned_less [of w] by simp_all
  then show "a + 2 \<le> 2 ^ 64 \<Longrightarrow> ld16 (st16 (pt a) v m) (pt a) = v"
    "a + 8 \<le> 2 ^ 64 \<Longrightarrow> ld64 (st64 (pt a) w m) (pt a) = w"
    by (simp_all add: ld16_def st16_def ld64_def st64_def load_store del: load.simps store.simps)
qed

lemma st_outside:
  "a + 2 \<le> 2 ^ 64 \<Longrightarrow> same_outside {a..<a + 2} m (st16 (pt a) v m)"
  "a + 8 \<le> 2 ^ 64 \<Longrightarrow> same_outside {a..<a + 8} m (st64 (pt a) w m)"
  unfolding st16_def st64_def by (rule store_outside, assumption)+

lemma ld_same:
  "\<lbrakk>same_outside S m m'; {a..<a + 2} \<inter> S = {}; a + 2 \<le> 2 ^ 64\<rbrakk> \<Longrightarrow> ld16 m' (pt a) = ld16 m (pt a)"
  "\<lbrakk>same_outside S m m'; {a..<a + 8} \<inter> S = {}; a + 8 \<le> 2 ^ 64\<rbrakk> \<Longrightarrow> ld64 m' (pt a) = ld64 m (pt a)"
  unfolding ld16_def ld64_def by (simp_all only: load_same)

lemma ld_st_other:
  "\<lbrakk>a + 2 \<le> b \<or> b + 2 \<le> a; a + 2 \<le> 2 ^ 64; b + 2 \<le> 2 ^ 64\<rbrakk>
   \<Longrightarrow> ld16 (st16 (pt b) v m) (pt a) = ld16 m (pt a)"
  "\<lbrakk>a + 2 \<le> b \<or> b + 8 \<le> a; a + 2 \<le> 2 ^ 64; b + 8 \<le> 2 ^ 64\<rbrakk>
   \<Longrightarrow> ld16 (st64 (pt b) w m) (pt a) = ld16 m (pt a)"
  "\<lbrakk>a + 8 \<le> b \<or> b + 2 \<le> a; a + 8 \<le> 2 ^ 64; b + 2 \<le> 2 ^ 64\<rbrakk>
   \<Longrightarrow> ld64 (st16 (pt b) v m) (pt a) = ld64 m (pt a)"
  "\<lbrakk>a + 8 \<le> b \<or> b + 8 \<le> a; a + 8 \<le> 2 ^ 64; b + 8 \<le> 2 ^ 64\<rbrakk>
   \<Longrightarrow> ld64 (st64 (pt b) w m) (pt a) = ld64 m (pt a)"
  by (rule ld_same [OF st_outside(1)] ld_same [OF st_outside(2)]; auto)+

section \<open>Doubly linked lists\<close>

text \<open>The end of the list is the null pointer, which \<open>headp []\<close> is.\<close>

definition headp :: "nat list \<Rightarrow> ptr" where
  "headp xs = (case xs of [] \<Rightarrow> 0 | x # _ \<Rightarrow> pt x)"

lemma headp_simps [simp]: "headp [] = 0" "headp (x # xs) = pt x"
  by (simp_all add: headp_def)

fun linked :: "(nat \<Rightarrow> ptr) \<Rightarrow> (nat \<Rightarrow> ptr) \<Rightarrow> nat list \<Rightarrow> bool" where
  "linked fl bl (x # y # zs) \<longleftrightarrow> fl x = pt y \<and> bl y = pt x \<and> linked fl bl (y # zs)"
| "linked fl bl [x] \<longleftrightarrow> fl x = 0"
| "linked fl bl [] \<longleftrightarrow> True"

lemma linked_Cons: "linked fl bl (x # ys) \<longleftrightarrow>
  fl x = headp ys \<and> (ys \<noteq> [] \<longrightarrow> bl (hd ys) = pt x) \<and> linked fl bl ys"
  by (cases ys) auto

lemma linked_appendD: "linked fl bl (xs @ ys) \<Longrightarrow> linked fl bl ys"
  by (induction xs) (auto simp: linked_Cons)

lemma linked_cong:
  "\<lbrakk>\<And>x. x \<in> set xs \<Longrightarrow> fl' x = fl x; \<And>x. x \<in> set (tl xs) \<Longrightarrow> bl' x = bl x\<rbrakk>
   \<Longrightarrow> linked fl' bl' xs = linked fl bl xs"
  by (induction xs rule: linked.induct) auto

lemma linked_insert:
  assumes "linked fl bl (ps @ a # qs)" "x \<notin> set (ps @ a # qs)" "distinct (ps @ a # qs)"
    and fl': "\<And>y. y \<in> set (ps @ x # a # qs) \<Longrightarrow>
          fl' y = (if y = a then pt x else if y = x then headp qs else fl y)"
    and bl': "\<And>y. y \<in> set (ps @ x # a # qs) \<Longrightarrow>
          bl' y = (if y = x then pt a else if qs \<noteq> [] \<and> y = hd qs then pt x else bl y)"
  shows "linked fl' bl' (ps @ a # x # qs)"
  using assms
proof (induction ps)
  case Nil
  have "linked fl bl qs" using Nil(1) by (simp add: linked_Cons)
  moreover have "linked fl' bl' qs = linked fl bl qs"
  proof (rule linked_cong)
    fix y assume "y \<in> set (tl qs)"
    then show "bl' y = bl y" using Nil by (cases qs) auto
  qed (use Nil in auto)
  ultimately show ?case using Nil by (cases qs) (auto simp: linked_Cons)
next
  case (Cons p ps)
  have "linked fl' bl' (ps @ a # x # qs)"
    by (rule Cons.IH) (use Cons.prems in \<open>auto simp: linked_Cons\<close>)
  moreover have "fl' p = headp (ps @ a # x # qs)"
    using Cons.prems by (cases ps) (auto simp: linked_Cons)
  moreover have "bl' (hd (ps @ a # x # qs)) = pt p"
    using Cons.prems by (cases ps; cases qs) (auto simp: linked_Cons)
  ultimately show ?case by (simp add: linked_Cons)
qed

lemma linked_delete:
  assumes "linked fl bl (ps @ a # x # qs)" "distinct (ps @ a # x # qs)"
    and fl': "\<And>y. y \<in> set (ps @ a # qs) \<Longrightarrow> fl' y = (if y = a then headp qs else fl y)"
    and bl': "\<And>y. y \<in> set (ps @ a # qs) \<Longrightarrow>
          bl' y = (if qs \<noteq> [] \<and> y = hd qs then pt a else bl y)"
  shows "linked fl' bl' (ps @ a # qs)"
  using assms
proof (induction ps)
  case Nil
  have "linked fl bl qs" using Nil(1) by (simp add: linked_Cons)
  moreover have "linked fl' bl' qs = linked fl bl qs"
  proof (rule linked_cong)
    fix y assume "y \<in> set (tl qs)"
    then show "bl' y = bl y" using Nil by (cases qs) auto
  qed (use Nil in auto)
  ultimately show ?case using Nil by (cases qs) (auto simp: linked_Cons)
next
  case (Cons p ps)
  have "linked fl' bl' (ps @ a # qs)"
    by (rule Cons.IH) (use Cons.prems in \<open>auto simp: linked_Cons\<close>)
  moreover have "fl' p = headp (ps @ a # qs)"
    using Cons.prems by (cases ps) (auto simp: linked_Cons)
  moreover have "bl' (hd (ps @ a # qs)) = pt p"
    using Cons.prems by (cases ps; cases qs) (auto simp: linked_Cons)
  ultimately show ?case by (simp add: linked_Cons)
qed

lemma linked_flink: "linked fl bl (ps @ x # qs) \<Longrightarrow> fl x = headp qs"
  using linked_appendD [of fl bl ps "x # qs"] by (simp add: linked_Cons)

lemma linked_blink: "linked fl bl (ps @ a # x # qs) \<Longrightarrow> bl x = pt a"
  using linked_appendD [of fl bl ps "a # x # qs"] by simp


section \<open>The free list in memory\<close>

text \<open>Free nodes and list heads are 24 bytes that do not overlap (\<open>apart\<close>).\<close>

definition apart :: "nat set \<Rightarrow> bool" where
  "apart S \<longleftrightarrow> (\<forall>a\<in>S. 0 < a \<and> a + 24 \<le> 2 ^ 64 \<and> (\<forall>b\<in>S. a \<noteq> b \<longrightarrow> a + 24 \<le> b \<or> b + 24 \<le> a))"

lemma apartD:
  assumes "apart S" "a \<in> S"
  shows "0 < a" "a + 24 \<le> 2 ^ 64" "\<And>b. b \<in> S \<Longrightarrow> a \<noteq> b \<Longrightarrow> a + 24 \<le> b \<or> b + 24 \<le> a"
  using assms by (auto simp: apart_def)

lemma headp_eq:
  assumes "apart S" "set qs \<subseteq> S"
  shows "headp qs = 0 \<longleftrightarrow> qs = []" "qs \<noteq> [] \<Longrightarrow> headp qs = pt (hd qs)"
  using assms apartD [of S "hd qs"] by (cases qs; auto simp: pt_eq_0)+

lemma apart_subset: "\<lbrakk>apart S; T \<subseteq> S\<rbrakk> \<Longrightarrow> apart T"
  unfolding apart_def by blast

definition dll :: "mem \<Rightarrow> nat list \<Rightarrow> bool" where
  "dll m = linked (\<lambda>a. ld64 m (pt (a + 8))) (\<lambda>a. ld64 m (pt (a + 16)))"

definition links :: "nat set \<Rightarrow> nat set" where
  "links S = (\<Union>a\<in>S. {a + 8..<a + 24})"

lemma links_mono: "S \<subseteq> T \<Longrightarrow> links S \<subseteq> links T"
  by (auto simp: links_def)

lemma st_link_outside:
  "\<lbrakk>a \<in> S; apart S\<rbrakk> \<Longrightarrow> same_outside (links S) m (st64 (pt (a + 8)) v m)"
  "\<lbrakk>a \<in> S; apart S\<rbrakk> \<Longrightarrow> same_outside (links S) m (st64 (pt (a + 16)) v m)"
proof -
  assume a: "a \<in> S" "apart S"
  have "{a + 8..<a + 8 + 8} \<subseteq> links S" "{a + 16..<a + 16 + 8} \<subseteq> links S"
    using a by (force simp: links_def)+
  then show "same_outside (links S) m (st64 (pt (a + 8)) v m)"
    "same_outside (links S) m (st64 (pt (a + 16)) v m)"
    using apartD(2) [OF a(2,1)] by (auto intro!: same_outside_mono [OF st_outside(2)])
qed

lemma ld_link:
  assumes "a \<in> S" "b \<in> S" "apart S"
  shows "ld64 (st64 (pt (b + 8)) v m) (pt (a + 8)) = (if a = b then v else ld64 m (pt (a + 8)))"
    "ld64 (st64 (pt (b + 16)) v m) (pt (a + 16)) = (if a = b then v else ld64 m (pt (a + 16)))"
    "ld64 (st64 (pt (b + 16)) v m) (pt (a + 8)) = ld64 m (pt (a + 8))"
    "ld64 (st64 (pt (b + 8)) v m) (pt (a + 16)) = ld64 m (pt (a + 16))"
proof -
  have "a + 24 \<le> 2 ^ 64" "b + 24 \<le> 2 ^ 64" "a = b \<or> a + 24 \<le> b \<or> b + 24 \<le> a"
    using apartD [OF assms(3,1)] apartD [OF assms(3,2)] assms by auto
  then show "ld64 (st64 (pt (b + 8)) v m) (pt (a + 8)) = (if a = b then v else ld64 m (pt (a + 8)))"
    "ld64 (st64 (pt (b + 16)) v m) (pt (a + 16)) = (if a = b then v else ld64 m (pt (a + 16)))"
    "ld64 (st64 (pt (b + 16)) v m) (pt (a + 8)) = ld64 m (pt (a + 8))"
    "ld64 (st64 (pt (b + 8)) v m) (pt (a + 16)) = ld64 m (pt (a + 16))"
    by (elim disjE; auto intro!: ld_st_other(4))+
qed

lemma dll_same:
  "\<lbrakk>same_outside S m m'; links (set xs) \<inter> S = {}; apart (set xs)\<rbrakk> \<Longrightarrow> dll m' xs = dll m xs"
  unfolding dll_def
proof (rule linked_cong)
  fix a assume A: "same_outside S m m'" "links (set xs) \<inter> S = {}" "apart (set xs)"
  {
    assume a: "a \<in> set xs"
    then have "{a + 8..<a + 24} \<inter> S = {}" using A(2) by (auto simp: links_def)
    then have "{a + 8..<a + 8 + 8} \<inter> S = {}" "{a + 16..<a + 16 + 8} \<inter> S = {}"
      by (force simp: disjoint_iff)+
    then have "ld64 m' (pt (a + 8)) = ld64 m (pt (a + 8))"
      "ld64 m' (pt (a + 16)) = ld64 m (pt (a + 16))"
      using apartD(2) [OF A(3) a] by (auto intro!: ld_same(2) [OF A(1)])
  }
  then show "a \<in> set xs \<Longrightarrow> ld64 m' (pt (a + 8)) = ld64 m (pt (a + 8))"
    "a \<in> set (tl xs) \<Longrightarrow> ld64 m' (pt (a + 16)) = ld64 m (pt (a + 16))"
    by (cases xs; auto)+
qed

lemma dll_unlink:
  assumes D: "dll m (ps @ a # x # qs)" and dist: "distinct (ps @ a # x # qs)"
    and S: "set (ps @ a # x # qs) \<subseteq> S" and ap: "apart S"
  shows "dll (unlink_node (pt x) m) (ps @ a # qs)"
    and "same_outside (links S) m (unlink_node (pt x) m)"
proof -
  let ?m1 = "st64 (pt (a + 8)) (headp qs) m"
  have mem: "a \<in> S" "x \<in> S" "qs \<noteq> [] \<Longrightarrow> hd qs \<in> S" and ne: "a \<noteq> x" "x \<noteq> a"
    using dist S by (auto dest: hd_in_set)
  have ld: "ld64 m (pt (x + 8)) = headp qs" "ld64 m (pt (x + 16)) = pt a"
    using D linked_flink [of _ _ "ps @ [a]"] linked_blink by (auto simp: dll_def)
  have hq: "headp qs = 0 \<longleftrightarrow> qs = []" "qs \<noteq> [] \<Longrightarrow> headp qs = pt (hd qs)"
    using S by (auto intro!: headp_eq [OF ap])
  have "unlink_node (pt x) m = (if qs = [] then ?m1 else st64 (headp qs + 16) (pt a) ?m1)"
    using hq(1) by (simp add: unlink_node_def Let_def ld ld_link [OF _ _ ap] mem ne)
  then have U: "unlink_node (pt x) m = (if qs = [] then ?m1 else st64 (pt (hd qs + 16)) (pt a) ?m1)"
    using hq(2) by simp
  show "same_outside (links S) m (unlink_node (pt x) m)"
    unfolding U
    by (auto intro!: st_link_outside same_outside_chain [OF st_link_outside(1) st_link_outside(2)]
        ap mem)
  show "dll (unlink_node (pt x) m) (ps @ a # qs)"
    unfolding dll_def
  proof (rule linked_delete [OF D [unfolded dll_def] dist])
    fix y assume "y \<in> set (ps @ a # qs)"
    then have y: "y \<in> S" using S by auto
    show "ld64 (unlink_node (pt x) m) (pt (y + 8)) = (if y = a then headp qs else ld64 m (pt (y + 8)))"
      unfolding U by (simp add: ld_link [OF _ _ ap] mem y)
    show "ld64 (unlink_node (pt x) m) (pt (y + 16)) =
      (if qs \<noteq> [] \<and> y = hd qs then pt a else ld64 m (pt (y + 16)))"
      unfolding U by (simp add: ld_link [OF _ _ ap] mem y)
  qed
qed

section \<open>Walking the free list\<close>

lemma find_slot_walk:
  assumes "dll m (ps @ a # qs)" "\<And>b. b \<in> set qs \<Longrightarrow> 0 < b \<and> b < 2 ^ 64"
  shows "find_slot m sz (pt a) (headp qs) =
    Some (pt (last (a # takeWhile (\<lambda>b. ld16 m (pt b) \<noteq> 0 \<and> ld16 m (pt b) < sz) qs)),
          headp (dropWhile (\<lambda>b. ld16 m (pt b) \<noteq> 0 \<and> ld16 m (pt b) < sz) qs))"
  using assms
proof (induction qs arbitrary: ps a)
  case Nil
  then show ?case by (subst find_slot.simps) simp
next
  case (Cons b qs)
  have "ld64 m (pt (b + 8)) = headp qs"
    using Cons.prems(1) linked_flink [of _ _ "ps @ [a]" b qs] by (simp add: dll_def)
  then show ?case
    using Cons.IH [of "ps @ [a]" b] Cons.prems by (subst find_slot.simps) (auto simp: pt_eq_0)
qed

lemma find_fit_walk:
  assumes "dll m (ps @ qs)" "\<And>b. b \<in> set qs \<Longrightarrow> 0 < b \<and> b < 2 ^ 64"
  shows "find_fit m sz (headp qs) = Some (headp (dropWhile (\<lambda>b. ucast (ld16 m (pt b)) < sz) qs))"
  using assms
proof (induction qs arbitrary: ps)
  case Nil
  then show ?case by (subst find_fit.simps) simp
next
  case (Cons b qs)
  have "ld64 m (pt (b + 8)) = headp qs"
    using Cons.prems(1) linked_flink [of _ _ ps b qs] by (simp add: dll_def)
  then show ?case
    using Cons.IH [of "ps @ [b]"] Cons.prems by (subst find_fit.simps) (auto simp: pt_eq_0)
qed

text \<open>\<open>link_in\<close> is the store sequence of \<open>mm_addfreechunk\<close>.\<close>

definition link_in :: "ptr \<Rightarrow> ptr \<Rightarrow> ptr \<Rightarrow> mem \<Rightarrow> mem" where
  "link_in prev node nxt m =
     (let m = set_flink node nxt (set_blink node prev (set_flink prev node m))
      in if nxt \<noteq> 0 then set_blink nxt node m else m)"

lemma dll_link_in:
  assumes D: "dll m (ps @ a # qs)" and dist: "distinct (x # ps @ a # qs)"
    and S: "set (x # ps @ a # qs) \<subseteq> S" and ap: "apart S"
  shows "dll (link_in (pt a) (pt x) (headp qs) m) (ps @ a # x # qs)"
    and "same_outside (links S) m (link_in (pt a) (pt x) (headp qs) m)"
proof -
  let ?m1 = "st64 (pt (x + 8)) (headp qs) (st64 (pt (x + 16)) (pt a) (st64 (pt (a + 8)) (pt x) m))"
  have mem: "a \<in> S" "x \<in> S" "qs \<noteq> [] \<Longrightarrow> hd qs \<in> S" and ne: "a \<noteq> x" "x \<noteq> a"
    "qs \<noteq> [] \<Longrightarrow> x \<noteq> hd qs"
    using dist S by (auto dest: hd_in_set)
  have hq: "headp qs = 0 \<longleftrightarrow> qs = []" "qs \<noteq> [] \<Longrightarrow> headp qs = pt (hd qs)"
    using S by (auto intro!: headp_eq [OF ap])
  have "link_in (pt a) (pt x) (headp qs) m =
    (if qs = [] then ?m1 else st64 (headp qs + 16) (pt x) ?m1)"
    using hq(1) by (simp add: link_in_def Let_def)
  then have U: "link_in (pt a) (pt x) (headp qs) m =
    (if qs = [] then ?m1 else st64 (pt (hd qs + 16)) (pt x) ?m1)"
    using hq(2) by simp
  have S1: "same_outside (links S) m ?m1"
    by (rule same_outside_chain [OF same_outside_chain [OF
          st_link_outside(1) [OF mem(1) ap] st_link_outside(2) [OF mem(2) ap]]
          st_link_outside(1) [OF mem(2) ap]])
  show "same_outside (links S) m (link_in (pt a) (pt x) (headp qs) m)"
    unfolding U using S1 same_outside_chain [OF S1 st_link_outside(2) [OF mem(3) ap]]
    by (auto simp del: headp_simps)
  show "dll (link_in (pt a) (pt x) (headp qs) m) (ps @ a # x # qs)"
    unfolding dll_def
  proof (rule linked_insert [OF D [unfolded dll_def]])
    fix y assume "y \<in> set (ps @ x # a # qs)"
    then have y: "y \<in> S" using S by auto
    show "ld64 (link_in (pt a) (pt x) (headp qs) m) (pt (y + 8)) =
      (if y = a then pt x else if y = x then headp qs else ld64 m (pt (y + 8)))"
      unfolding U by (simp add: ld_link [OF _ _ ap] mem y ne)
    show "ld64 (link_in (pt a) (pt x) (headp qs) m) (pt (y + 16)) =
      (if y = x then pt a else if qs \<noteq> [] \<and> y = hd qs then pt x else ld64 m (pt (y + 16)))"
      unfolding U by (cases "qs = []"; cases "y = x") (simp_all add: ld_link [OF _ _ ap] mem y ne)
  next
    show "x \<notin> set (ps @ a # qs)" "distinct (ps @ a # qs)" using dist by auto
  qed
qed

end
