(* ===== verification/Mm_Freelist.thy ===== *)
theory Mm_Freelist
  imports Mm_Lists
begin

text \<open>
  The free list of the heap: the 19 list heads and the free chunks, linked in the order of
  their sizes. Head \<open>i\<close> stands before every chunk of \<open>16 * 2 ^ i\<close> bytes or more, which is what
  makes \<open>mm_nodelist\<close> an index into one sorted list. The three operations on it are insertion
  (\<open>mm_addfreechunk\<close>), unlinking, and the best-fit search of \<open>mm_malloc\<close>.
\<close>

section \<open>The list index of a size\<close>

lemma size2ndx_loop_log:
  "1 \<le> unat x \<Longrightarrow> \<exists>j. size2ndx_loop x k = k + j \<and> 2 ^ j \<le> unat x \<and> unat x < 2 ^ Suc j"
proof (induction x k rule: size2ndx_loop.induct)
  case (1 x k)
  have half: "unat (drop_bit 1 x) = unat x div 2"
    by (simp only: unat_drop_bit_eq) (simp add: drop_bit_Suc)
  show ?case
  proof (cases "x > 1")
    case True
    then have "unat x \<ge> 2" by (simp add: word_less_nat_alt)
    then have "1 \<le> unat (drop_bit 1 x)" unfolding half by simp
    then obtain j where "size2ndx_loop (drop_bit 1 x) (Suc k) = Suc k + j"
      "2 ^ j \<le> unat x div 2" "unat x div 2 < 2 ^ Suc j"
      using "1.IH" [OF True] unfolding half by blast
    then show ?thesis
      using True by (intro exI [of _ "Suc j"]) (auto simp: size2ndx_loop.simps [of x])
  next
    case False
    then have "unat x = 1" using 1 by (simp add: word_less_nat_alt)
    then show ?thesis using False by (intro exI [of _ 0]) (simp add: size2ndx_loop.simps)
  qed
qed

lemma mm_size2ndx_bounds:
  assumes "16 \<le> s" "s < 2 ^ 22"
  shows "16 * 2 ^ mm_size2ndx (pt s) \<le> s" "s < 32 * 2 ^ mm_size2ndx (pt s)"
    "mm_size2ndx (pt s) < 18"
proof -
  have u: "unat (pt s) = s" using assms(2) by simp
  have "unat (drop_bit 4 (pt s)) = s div 16"
    using u by (simp only: unat_drop_bit_eq) (simp add: drop_bit_eq_div)
  moreover have "\<not> pt s \<ge> 0x400000" using assms(2) u by (simp add: word_le_nat_alt)
  ultimately obtain j where j: "mm_size2ndx (pt s) = j" "2 ^ j \<le> s div 16" "s div 16 < 2 ^ Suc j"
    using size2ndx_loop_log [of "drop_bit 4 (pt s)" 0] assms by (auto simp: mm_size2ndx_def)
  then show b: "16 * 2 ^ mm_size2ndx (pt s) \<le> s" "s < 32 * 2 ^ mm_size2ndx (pt s)" by auto
  have "(2::nat) ^ j < 2 ^ 18"
    using b(1) assms(2) j(1) by simp
  then show "mm_size2ndx (pt s) < 18" using j(1) by (simp only: power_strict_increasing_iff)
qed

section \<open>The order of the list\<close>

definition heads :: "nat \<Rightarrow> nat set" where
  "heads N = (\<lambda>i. N + 24 * i) ` {..<19}"

definition rank :: "nat \<Rightarrow> mem \<Rightarrow> nat \<Rightarrow> nat" where
  "rank N m a = (if a \<in> heads N then 32 * 2 ^ ((a - N) div 24) else 2 * unat (ld16 m (pt a)) + 1)"

lemma rank_head [simp]: "i < 19 \<Longrightarrow> rank N m (N + 24 * i) = 32 * 2 ^ i"
  by (auto simp: rank_def heads_def)

lemma head_in [simp]: "i < 19 \<Longrightarrow> N + 24 * i \<in> heads N"
  by (auto simp: heads_def)

definition free_list :: "mem \<Rightarrow> nat \<Rightarrow> nat set \<Rightarrow> nat list \<Rightarrow> bool" where
  "free_list m N F L \<longleftrightarrow>
     dll m L \<and> distinct L \<and> set L = heads N \<union> F \<and> heads N \<inter> F = {} \<and> apart (heads N \<union> F) \<and>
     sorted (map (rank N m) L) \<and> (\<forall>a\<in>heads N. ld16 m (pt a) = 0) \<and> (\<forall>a\<in>F. 24 \<le> unat (ld16 m (pt a)))"

lemma free_listD:
  assumes "free_list m N F L"
  shows "dll m L" "distinct L" "set L = heads N \<union> F" "heads N \<inter> F = {}" "apart (heads N \<union> F)"
    "sorted (map (rank N m) L)" "\<And>a. a \<in> heads N \<Longrightarrow> ld16 m (pt a) = 0"
    "\<And>a. a \<in> F \<Longrightarrow> 24 \<le> unat (ld16 m (pt a))"
  using assms by (auto simp: free_list_def)

lemma rank_free: "\<lbrakk>free_list m N F L; a \<in> F\<rbrakk> \<Longrightarrow> rank N m a = 2 * unat (ld16 m (pt a)) + 1"
  by (auto simp: free_list_def rank_def)

lemma size_links:
  assumes "apart S" "a \<in> S" "same_outside (links S) m m'"
  shows "ld16 m' (pt a) = ld16 m (pt a)"
proof (rule ld_same(1) [OF assms(3)])
  have "x \<notin> links S" if "x \<in> {a..<a + 2}" for x
  proof
    assume "x \<in> links S"
    then obtain b where b: "b \<in> S" "b + 8 \<le> x" "x < b + 24" by (auto simp: links_def)
    then show False using that apartD(3) [OF assms(1,2) b(1)] by (cases "a = b") auto
  qed
  then show "{a..<a + 2} \<inter> links S = {}" by blast
  show "a + 2 \<le> 2 ^ 64" using apartD(2) [OF assms(1,2)] by simp
qed

lemma rank_links:
  "\<lbrakk>apart S; a \<in> S; same_outside (links S) m m'\<rbrakk> \<Longrightarrow> rank N m' a = rank N m a"
  by (simp add: rank_def size_links)

lemma sorted_split_head:
  assumes "free_list m N F L" "i < 19"
  obtains ps qs where "L = ps @ (N + 24 * i) # qs"
    "\<And>y. y \<in> set ps \<Longrightarrow> rank N m y \<le> 32 * 2 ^ i" "\<And>y. y \<in> set qs \<Longrightarrow> 32 * 2 ^ i \<le> rank N m y"
proof -
  have "N + 24 * i \<in> set L" using free_listD(3) [OF assms(1)] assms(2) by simp
  then obtain ps qs where L: "L = ps @ (N + 24 * i) # qs" by (auto simp: in_set_conv_decomp)
  have "rank N m y \<le> 32 * 2 ^ i" if "y \<in> set ps" for y
    using free_listD(6) [OF assms(1)] that assms(2) unfolding L by (auto simp: sorted_append)
  moreover have "32 * 2 ^ i \<le> rank N m y" if "y \<in> set qs" for y
    using free_listD(6) [OF assms(1)] that assms(2) unfolding L by (auto simp: sorted_append)
  ultimately show thesis using that L by blast
qed

section \<open>Search\<close>

lemma find_fit_best:
  assumes FL: "free_list m N F L" and need: "16 \<le> need" "need < 2 ^ 64"
    and ndx: "ndx = (if pt need \<ge> 0x400000 then 18 else mm_size2ndx (pt need))"
  shows "\<exists>p. find_fit m (pt need) (ld64 m (pt (N + 24 * ndx + 8))) = Some p \<and>
    (p = 0 \<and> (\<forall>a\<in>F. unat (ld16 m (pt a)) < need) \<or>
     (\<exists>x\<in>F. p = pt x \<and> need \<le> unat (ld16 m (pt x)) \<and>
        (\<forall>a\<in>F. need \<le> unat (ld16 m (pt a)) \<longrightarrow> unat (ld16 m (pt x)) \<le> unat (ld16 m (pt a)))))"
proof -
  have i: "ndx < 19" and lo: "16 * 2 ^ ndx \<le> need"
  proof -
    have "need < 2 ^ 22 \<longleftrightarrow> \<not> pt need \<ge> 0x400000"
      using need(2) by (simp add: word_le_nat_alt not_le)
    then show "ndx < 19" "16 * 2 ^ ndx \<le> need"
      using mm_size2ndx_bounds [OF need(1)] ndx by (cases "need < 2 ^ 22"; auto)+
  qed
  obtain ps qs where L: "L = ps @ (N + 24 * ndx) # qs"
    and ps: "\<And>y. y \<in> set ps \<Longrightarrow> rank N m y \<le> 32 * 2 ^ ndx"
    using sorted_split_head [OF FL i] by metis
  have mem: "0 < b \<and> b < 2 ^ 64" if "b \<in> set qs" for b
  proof -
    have "b \<in> heads N \<union> F" using that free_listD(3) [OF FL] L by auto
    then show ?thesis using apartD(1,2) [OF free_listD(5) [OF FL], of b] by simp
  qed
  have D: "dll m ((ps @ [N + 24 * ndx]) @ qs)" using free_listD(1) [OF FL] L by simp
  have flink: "ld64 m (pt (N + 24 * ndx + 8)) = headp qs"
    using linked_flink [of _ _ ps] free_listD(1) [OF FL] by (simp add: L dll_def)
  let ?skip = "\<lambda>b. ucast (ld16 m (pt b)) < pt need"
  have skip: "?skip b \<longleftrightarrow> unat (ld16 m (pt b)) < need" for b
    using need(2) u16_less [of "ld16 m (pt b)"] by (simp add: word_less_nat_alt ucast_u16)
  let ?rs = "dropWhile ?skip qs"
  have res: "find_fit m (pt need) (ld64 m (pt (N + 24 * ndx + 8))) = Some (headp ?rs)"
    unfolding flink by (rule find_fit_walk [OF D mem])
  have in_rs: "a \<in> set ?rs" if a: "a \<in> F" "need \<le> unat (ld16 m (pt a))" for a
  proof -
    have "32 * 2 ^ ndx < rank N m a" using rank_free [OF FL a(1)] a(2) lo by simp
    then have "a \<notin> set ps" using ps by force
    moreover have "a \<in> set L" "a \<noteq> N + 24 * ndx"
      using free_listD(3,4) [OF FL] a(1) head_in [OF i, of N] by auto
    ultimately have "a \<in> set qs" by (auto simp: L)
    moreover have "a \<notin> set (takeWhile ?skip qs)"
      using a(2) skip by (auto dest: set_takeWhileD)
    moreover have "qs = takeWhile ?skip qs @ ?rs" by simp
    ultimately show ?thesis by (metis Un_iff set_append)
  qed
  show ?thesis
  proof (cases ?rs)
    case Cons_nil: Nil
    then have "unat (ld16 m (pt a)) < need" if "a \<in> F" for a
      using in_rs [OF that] Cons_nil by (metis empty_iff empty_set not_le)
    then show ?thesis using res Cons_nil by auto
  next
    case (Cons x xs)
    have big: "need \<le> unat (ld16 m (pt x))"
      using hd_dropWhile [of ?skip qs] Cons skip [of x] by simp
    then have "x \<notin> heads N" using free_listD(7) [OF FL, of x] need(1) by auto
    moreover have "x \<in> set L" using Cons set_dropWhileD [of x ?skip qs] by (auto simp: L)
    ultimately have x: "x \<in> F" using free_listD(3) [OF FL] by auto
    have "sorted (map (rank N m) ?rs)"
      using free_listD(6) [OF FL] unfolding L
      by (metis (no_types) dropWhile_eq_drop drop_map sorted_wrt_drop sorted_append map_append
          list.simps(9) sorted_simps(2))
    then have "unat (ld16 m (pt x)) \<le> unat (ld16 m (pt a))"
      if "a \<in> F" "need \<le> unat (ld16 m (pt a))" for a
      using in_rs [OF that] rank_free [OF FL x] rank_free [OF FL that(1)] Cons by auto
    then show ?thesis using res Cons x big by auto
  qed
qed

section \<open>Unlinking\<close>

lemma free_list_transfer:
  assumes "apart S" "same_outside (links S) m m'" "set L \<subseteq> S"
  shows "map (rank N m') L = map (rank N m) L"
  using rank_links [OF assms(1) _ assms(2)] assms(3) by auto

lemma free_list_unlink:
  assumes FL: "free_list m N F L" and x: "x \<in> F"
  shows "\<exists>L'. free_list (unlink_node (pt x) m) N (F - {x}) L'"
    and "same_outside (links (heads N \<union> F)) m (unlink_node (pt x) m)"
proof -
  note D = free_listD [OF FL]
  obtain ps qs where L: "L = ps @ x # qs" using D(3) x by (metis UnI2 in_set_conv_decomp)
  have h0: "N \<in> heads N" "rank N m N = 32" using head_in [of 0 N] rank_head [of 0 N m] by simp_all
  have "N \<notin> set (x # qs)"
  proof
    assume "N \<in> set (x # qs)"
    then have "rank N m x \<le> rank N m N" using D(6) unfolding L by (auto simp: sorted_append)
    then show False using rank_free [OF FL x] D(8) [OF x] h0(2) by simp
  qed
  then have "ps \<noteq> []" using D(3) h0(1) L by auto
  then obtain ps' a where L: "L = ps' @ a # x # qs" using L by (metis append.assoc append_Cons
        append_Nil rev_exhaust)
  let ?S = "heads N \<union> F" and ?m = "unlink_node (pt x) m"
  have un: "dll ?m (ps' @ a # qs)" "same_outside (links ?S) m ?m"
    using dll_unlink [of m ps' a x qs ?S] D(1,2,3,5) by (auto simp: L)
  have "free_list ?m N (F - {x}) (ps' @ a # qs)"
    unfolding free_list_def
  proof (intro conjI ballI)
    show "set (ps' @ a # qs) = heads N \<union> (F - {x})" using D(2,3,4) x by (auto simp: L)
    show "apart (heads N \<union> (F - {x}))" by (rule apart_subset [OF D(5)]) auto
    have "set (ps' @ a # qs) \<subseteq> ?S" using D(3) by (auto simp: L)
    then have "map (rank N ?m) (ps' @ a # qs) = map (rank N m) (ps' @ a # qs)"
      by (rule free_list_transfer [OF D(5) un(2)])
    then show "sorted (map (rank N ?m) (ps' @ a # qs))"
      using D(6) by (simp only: L) (simp add: sorted_append)
    show "ld16 ?m (pt b) = 0" if "b \<in> heads N" for b
      using D(7) size_links [OF D(5) _ un(2)] that by simp
    show "24 \<le> unat (ld16 ?m (pt b))" if "b \<in> F - {x}" for b
      using D(8) size_links [OF D(5) _ un(2)] that by simp
  qed (use D un in \<open>auto simp: L\<close>)
  then show "\<exists>L'. free_list ?m N (F - {x}) L'" "same_outside (links ?S) m ?m" using un(2) by auto
qed


section \<open>Insertion\<close>

lemma mm_addfreechunk_link:
  "mm_addfreechunk node h =
     (let hd = nodelist h (mm_size2ndx (ucast (ld16 (mm_ram h) node))) in
      do { (prev, nxt) \<leftarrow> find_slot (mm_ram h) (ld16 (mm_ram h) node) hd (ld64 (mm_ram h) (hd + 8));
           Some (h\<lparr>mm_ram := link_in prev node nxt (mm_ram h)\<rparr>) })"
  by (simp add: mm_addfreechunk_def link_in_def Let_def)

lemma free_list_insert:
  assumes FL: "free_list (mm_ram h) N F L" and nl: "mm_nodelist h = pt N"
    and x: "x \<notin> heads N \<union> F" and size: "24 \<le> unat (ld16 (mm_ram h) (pt x))"
    and ap: "apart (heads N \<union> insert x F)"
  shows "\<exists>m' L'. mm_addfreechunk (pt x) h = Some (h\<lparr>mm_ram := m'\<rparr>) \<and>
    free_list m' N (insert x F) L' \<and> same_outside (links (heads N \<union> insert x F)) (mm_ram h) m'"
proof -
  note D = free_listD [OF FL]
  let ?m = "mm_ram h" and ?s = "unat (ld16 (mm_ram h) (pt x))"
  define i where "i = mm_size2ndx (ucast (ld16 ?m (pt x)))"
  have "ucast (ld16 ?m (pt x)) = pt ?s"
    by (rule ucast_u16)
  moreover have "?s < 2 ^ 22" using u16_less [of "ld16 ?m (pt x)"] by simp
  ultimately have i: "16 * 2 ^ i \<le> ?s" "?s < 32 * 2 ^ i" "i < 19"
    using mm_size2ndx_bounds [of ?s] size by (auto simp: i_def)
  obtain ps qs where L: "L = ps @ (N + 24 * i) # qs"
    and ps: "\<And>y. y \<in> set ps \<Longrightarrow> rank N ?m y \<le> 32 * 2 ^ i"
    and qs: "\<And>y. y \<in> set qs \<Longrightarrow> 32 * 2 ^ i \<le> rank N ?m y"
    using sorted_split_head [OF FL i(3)] by metis
  let ?c = "\<lambda>b. ld16 ?m (pt b) \<noteq> 0 \<and> ld16 ?m (pt b) < ld16 ?m (pt x)"
  define as where "as = takeWhile ?c qs"
  define rs where "rs = dropWhile ?c qs"
  have qs_eq: "qs = as @ rs" by (simp add: as_def rs_def)
  have mem: "b \<in> heads N \<union> F" if "b \<in> set qs" for b
    using that D(3) L by auto
  have pos: "0 < b \<and> b < 2 ^ 64" if "b \<in> set qs" for b
    using apartD(1,2) [OF D(5) mem [OF that]] by simp
  have hd: "nodelist h i = pt (N + 24 * i)"
    by (simp add: nodelist_def nl pt_def)
  have flink: "ld64 ?m (pt (N + 24 * i + 8)) = headp qs"
    using linked_flink [of _ _ ps] D(1) by (simp add: L dll_def)
  define a where "a = last ((N + 24 * i) # as)"
  define ls where "ls = butlast ((N + 24 * i) # as)"
  have la: "(N + 24 * i) # as = ls @ [a]" unfolding ls_def a_def by simp
  have Leq: "L = (ps @ ls) @ a # rs" using la by (simp add: L qs_eq)
  have add: "mm_addfreechunk (pt x) h = Some (h\<lparr>mm_ram := link_in (pt a) (pt x) (headp rs) ?m\<rparr>)"
    using find_slot_walk [of ?m ps "N + 24 * i" qs "ld16 ?m (pt x)"] D(1) pos
    by (simp add: mm_addfreechunk_link Let_def flip: i_def)
       (simp add: hd flink a_def as_def rs_def L)
  let ?m' = "link_in (pt a) (pt x) (headp rs) ?m" and ?S = "heads N \<union> insert x F"
  have sub: "set (x # (ps @ ls) @ a # rs) \<subseteq> ?S" using D(3) Leq by auto
  have dist: "distinct (x # (ps @ ls) @ a # rs)" using D(2,3) x Leq by auto
  have ins: "dll ?m' ((ps @ ls) @ a # x # rs)" "same_outside (links ?S) ?m ?m'"
    using dll_link_in [of ?m "ps @ ls" a rs x ?S] D(1) dist sub ap by (simp_all add: Leq)
  have rx: "rank N ?m x = 2 * ?s + 1" using x by (simp add: rank_def)
  have lo: "rank N ?m y \<le> 2 * ?s + 1" if "y \<in> set ((ps @ ls) @ [a])" for y
  proof -
    have "y \<in> set ps \<or> y = N + 24 * i \<or> y \<in> set as"
      using that la by (metis Un_iff append.assoc set_ConsD set_append)
    moreover have "rank N ?m y \<le> 2 * ?s + 1" if y: "y \<in> set as"
    proof -
      have "?c y" using y set_takeWhileD unfolding as_def by fastforce
      moreover have "y \<notin> heads N" using D(7) calculation by auto
      ultimately show ?thesis by (simp add: rank_def word_less_nat_alt)
    qed
    ultimately show ?thesis using ps i by fastforce
  qed
  have hi: "2 * ?s + 1 \<le> rank N ?m y" if "y \<in> set rs" for y
  proof (cases rs)
    case (Cons b bs)
    have b: "\<not> ?c b" using Cons unfolding rs_def dropWhile_eq_Cons_conv by (rule conjunct2)
    have "b \<in> set qs" using Cons qs_eq by simp
    note b = b this
    have "2 * ?s + 1 \<le> rank N ?m b"
    proof (cases "b \<in> heads N")
      case True
      then obtain j where j: "b = N + 24 * j" "j < 19" by (auto simp: heads_def)
      have "j \<noteq> i" using D(2) b(2) j by (auto simp: L)
      moreover have "(2::nat) ^ i \<le> 2 ^ j" using qs [OF b(2)] j by simp
      ultimately have "Suc i \<le> j" by simp
      then have "(2::nat) ^ Suc i \<le> 2 ^ j" by (rule power_increasing) simp
      then show ?thesis using i(2) j by simp
    next
      case False
      then have "b \<in> F" using mem [OF b(2)] by simp
      then have "ld16 ?m (pt b) \<noteq> 0" using D(8) by fastforce
      then have "?s \<le> unat (ld16 ?m (pt b))" using b(1) by (auto simp: word_less_nat_alt)
      then show ?thesis using False by (simp add: rank_def)
    qed
    moreover have "rank N ?m b \<le> rank N ?m y"
      using D(6) that Cons by (auto simp: L qs_eq sorted_append)
    ultimately show ?thesis by simp
  qed (use that in simp)
  have "free_list ?m' N (insert x F) ((ps @ ls) @ a # x # rs)"
    unfolding free_list_def
  proof (intro conjI ballI)
    show "set ((ps @ ls) @ a # x # rs) = heads N \<union> insert x F" using D(3) Leq by auto
    have "set ((ps @ ls) @ a # x # rs) \<subseteq> ?S" using D(3) Leq by auto
    then have eq: "map (rank N ?m') ((ps @ ls) @ a # x # rs) = map (rank N ?m) ((ps @ ls) @ a # x # rs)"
      by (rule free_list_transfer [OF ap ins(2)])
    have "sorted (map (rank N ?m) ((ps @ ls) @ a # x # rs))"
      using D(6) lo hi rx by (simp only: Leq) (auto simp: sorted_append)
    then show "sorted (map (rank N ?m') ((ps @ ls) @ a # x # rs))" by (simp only: eq)
    show "ld16 ?m' (pt b) = 0" if "b \<in> heads N" for b
      using D(7) size_links [OF ap _ ins(2)] that by simp
    show "24 \<le> unat (ld16 ?m' (pt b))" if "b \<in> insert x F" for b
      using D(8) size size_links [OF ap _ ins(2)] that by auto
  qed (use D x ins ap dist Leq in auto)
  then show ?thesis using add ins(2) by blast
qed

end
