(* ===== verification/Mm_Chunks.thy ===== *)
theory Mm_Chunks
  imports Mm_Freelist
begin

text \<open>
  The chunks of the heap. A chunk list gives, from the start guard to the end guard, the
  allocated flag and the size of every chunk; \<open>tiled\<close> says that the headers in memory are
  those of the list. \<open>lheap\<close> couples it with the free list, with a set of free chunks that
  are not linked at the moment, and the steps of \<open>mm_malloc\<close> and \<open>mm_free\<close> (unlink, link,
  set and clear the flag, split, merge) are shown to lead from one such state to another.
\<close>

section \<open>Chunk lists\<close>

type_synonym chunk = "bool \<times> nat"

abbreviation total :: "chunk list \<Rightarrow> nat" where
  "total gs \<equiv> sum_list (map snd gs)"

fun place :: "nat \<Rightarrow> chunk list \<Rightarrow> (nat \<times> bool \<times> nat) list" where
  "place a [] = []"
| "place a ((f, s) # gs) = (a, f, s) # place (a + s) gs"

definition alloc_bit :: "bool \<Rightarrow> u16" where
  "alloc_bit f = (if f then 0x8000 else 0)"

definition header :: "mem \<Rightarrow> nat \<Rightarrow> nat \<Rightarrow> chunk \<Rightarrow> bool" where
  "header m a p c \<longleftrightarrow> ld16 m (pt a) = of_nat (snd c) \<and> ld16 m (pt (a + 2)) = of_nat p OR alloc_bit (fst c)"

fun tiled :: "mem \<Rightarrow> nat \<Rightarrow> nat \<Rightarrow> chunk list \<Rightarrow> bool" where
  "tiled m a p [] \<longleftrightarrow> True"
| "tiled m a p (c # gs) \<longleftrightarrow> header m a p c \<and> tiled m (a + snd c) (snd c) gs"

definition lsize :: "nat \<Rightarrow> chunk list \<Rightarrow> nat" where
  "lsize p gs = (if gs = [] then p else snd (last gs))"

lemma lsize_simps [simp]: "lsize p [] = p" "lsize p (c # gs) = lsize (snd c) gs"
  by (simp_all add: lsize_def)

lemma lsize_append [simp]: "lsize p (xs @ ys) = lsize (lsize p xs) ys"
  by (simp add: lsize_def)

lemma place_append: "place a (xs @ ys) = place a xs @ place (a + total xs) ys"
  by (induction xs arbitrary: a) (auto simp: add.assoc)

lemma tiled_append:
  "tiled m a p (xs @ ys) \<longleftrightarrow> tiled m a p xs \<and> tiled m (a + total xs) (lsize p xs) ys"
  by (induction xs arbitrary: a p) (auto simp: add.assoc)

lemma place_bounds: "(b, f, s) \<in> set (place a gs) \<Longrightarrow> a \<le> b \<and> b + s \<le> a + total gs"
  by (induction a gs rule: place.induct) auto

lemma place_in: "(b, f, s) \<in> set (place a gs) \<Longrightarrow> (f, s) \<in> set gs"
  by (induction a gs rule: place.induct) auto

lemma place_split:
  "(b, f, s) \<in> set (place a gs) \<Longrightarrow> \<exists>xs ys. gs = xs @ (f, s) # ys \<and> b = a + total xs"
proof (induction a gs rule: place.induct)
  case (2 a g t gs)
  show ?case
  proof (cases "(b, f, s) = (a, g, t)")
    case True
    then show ?thesis by (intro exI [of _ "[]"] exI [of _ gs]) auto
  next
    case False
    then obtain xs ys where "gs = xs @ (f, s) # ys" "b = a + t + total xs"
      using 2 by auto
    then show ?thesis by (intro exI [of _ "(g, t) # xs"] exI [of _ ys]) auto
  qed
qed simp

definition chunks_ok :: "chunk list \<Rightarrow> bool" where
  "chunks_ok gs \<longleftrightarrow> (\<forall>(f, s) \<in> set gs. 4 \<le> s \<and> s < 2 ^ 16 \<and> (\<not> f \<longrightarrow> 24 \<le> s)) \<and>
     successively (\<lambda>c d. snd c < 2 ^ 15 \<or> fst d) gs"

lemma chunks_ok_append:
  "chunks_ok (xs @ ys) \<Longrightarrow> chunks_ok xs" "chunks_ok (xs @ ys) \<Longrightarrow> chunks_ok ys"
  by (auto simp: chunks_ok_def successively_append_iff)

lemma chunks_okD: "\<lbrakk>chunks_ok gs; (f, s) \<in> set gs\<rbrakk> \<Longrightarrow> 4 \<le> s \<and> s < 2 ^ 16 \<and> (\<not> f \<longrightarrow> 24 \<le> s)"
  by (auto simp: chunks_ok_def)

lemma place_disjoint:
  assumes "chunks_ok gs" "(b, f, s) \<in> set (place a gs)" "(c, g, t) \<in> set (place a gs)"
  shows "(b, f, s) = (c, g, t) \<or> b + s \<le> c \<or> c + t \<le> b"
proof -
  obtain xs ys where b: "gs = xs @ (f, s) # ys" "b = a + total xs"
    using place_split [OF assms(2)] by blast
  have "place a gs = place a xs @ (b, f, s) # place (b + s) ys"
    using b by (simp add: place_append)
  then consider "(c, g, t) \<in> set (place a xs)" | "(b, f, s) = (c, g, t)"
    | "(c, g, t) \<in> set (place (b + s) ys)"
    using assms(3) by auto
  then show ?thesis
    by cases (use place_bounds b in fastforce)+
qed

section \<open>Free chunks, and the memory the heap may write\<close>

definition frees :: "nat \<Rightarrow> chunk list \<Rightarrow> nat set" where
  "frees A gs = {a. \<exists>s. (a, False, s) \<in> set (place A gs)}"

definition writable :: "nat \<Rightarrow> nat \<Rightarrow> chunk list \<Rightarrow> nat set" where
  "writable A N gs = {N..<N + 456} \<union>
     (\<Union>(a, f, s) \<in> set (place A gs). if f then {a..<a + 4} else {a..<a + s})"

lemma frees_append: "frees A (xs @ ys) = frees A xs \<union> frees (A + total xs) ys"
  by (auto simp: frees_def place_append)

lemma frees_simps [simp]:
  "frees A [] = {}" "frees A ((f, s) # gs) = (if f then {} else {A}) \<union> frees (A + s) gs"
  by (auto simp: frees_def)

lemma frees_bounds: "\<lbrakk>chunks_ok gs; a \<in> frees A gs\<rbrakk> \<Longrightarrow> A \<le> a \<and> a + 24 \<le> A + total gs"
  using place_bounds place_in chunks_okD unfolding frees_def by fastforce

lemma writable_append: "writable A N (xs @ ys) = writable A N xs \<union> writable (A + total xs) N ys"
  by (auto simp: writable_def place_append)

lemma writable_Cons: "writable A N ((f, s) # gs) =
  (if f then {A..<A + 4} else {A..<A + s}) \<union> writable (A + s) N gs"
  by (auto simp: writable_def)

lemma writable_split:
  "n \<le> s \<Longrightarrow> writable A N (xs @ (False, n) # (False, s - n) # ys) = writable A N (xs @ (False, s) # ys)"
  "writable A N (xs @ (False, s) # (False, t) # ys) = writable A N (xs @ (False, s + t) # ys)"
  by (auto simp: writable_append writable_Cons add.assoc)

text \<open>The live payloads are not in the writable set: a step that writes only the writable set keeps them.\<close>

lemma payload_not_in_writable:
  assumes "chunks_ok gs" "(a, True, s) \<in> set (place A gs)" "N + 456 \<le> A \<or> A + total gs \<le> N"
  shows "{a + 4..<a + s} \<inter> writable A N gs = {}"
proof -
  have "x \<notin> writable A N gs" if x: "x \<in> {a + 4..<a + s}" for x
  proof
    assume "x \<in> writable A N gs"
    then consider "x \<in> {N..<N + 456}"
      | b f t where "(b, f, t) \<in> set (place A gs)" "x \<in> (if f then {b..<b + 4} else {b..<b + t})"
      by (auto simp: writable_def)
    then show False
    proof cases
      case 1
      then show ?thesis using place_bounds [OF assms(2)] assms(3) x by auto
    next
      case 2
      have "4 \<le> t" using chunks_okD [OF assms(1) place_in [OF 2(1)]] by simp
      then show ?thesis
        using place_disjoint [OF assms(1,2) 2(1)] 2(2) x by (cases f) auto
    qed
  qed
  then show ?thesis by blast
qed

definition layout :: "nat \<Rightarrow> nat \<Rightarrow> chunk list \<Rightarrow> bool" where
  "layout A N gs \<longleftrightarrow> 0 < A \<and> 0 < N \<and> A + total gs \<le> 2 ^ 64 \<and> N + 456 \<le> 2 ^ 64 \<and>
     (N + 456 \<le> A \<or> A + total gs \<le> N)"

lemma heads_bounds: "a \<in> heads N \<Longrightarrow> N \<le> a \<and> a + 24 \<le> N + 456"
  by (auto simp: heads_def)

lemma apart_nodes:
  assumes "layout A N gs" "chunks_ok gs"
  shows "apart (heads N \<union> frees A gs)" "heads N \<inter> frees A gs = {}"
proof -
  have hf: "a + 24 \<le> b \<or> b + 24 \<le> a" if "a \<in> heads N" "b \<in> frees A gs" for a b
    using heads_bounds [OF that(1)] frees_bounds [OF assms(2) that(2)] assms(1)
    by (auto simp: layout_def)
  have hh: "a + 24 \<le> b \<or> b + 24 \<le> a" if h: "a \<in> heads N" "b \<in> heads N" "a \<noteq> b" for a b
  proof -
    obtain i j where "a = N + 24 * i" "b = N + 24 * j" using h by (auto simp: heads_def)
    moreover have "i < j \<or> j < i" using h(3) calculation by auto
    ultimately show ?thesis by auto
  qed
  have ff: "a + 24 \<le> b \<or> b + 24 \<le> a" if ab: "a \<in> frees A gs" "b \<in> frees A gs" "a \<noteq> b" for a b
  proof -
    obtain s t where p: "(a, False, s) \<in> set (place A gs)" "(b, False, t) \<in> set (place A gs)"
      using ab by (auto simp: frees_def)
    have "24 \<le> s" "24 \<le> t" using p chunks_okD [OF assms(2) place_in] by auto
    then show ?thesis using place_disjoint [OF assms(2) p] ab(3) by auto
  qed
  show "apart (heads N \<union> frees A gs)"
    unfolding apart_def
  proof (intro ballI conjI impI)
    fix a assume a: "a \<in> heads N \<union> frees A gs"
    show "0 < a" "a + 24 \<le> 2 ^ 64"
      using a heads_bounds [of a N] frees_bounds [OF assms(2), of a A] assms(1)
      by (auto simp: layout_def)
    fix b assume "b \<in> heads N \<union> frees A gs" "a \<noteq> b"
    then show "a + 24 \<le> b \<or> b + 24 \<le> a" using a hf [of a b] hf [of b a] hh ff by blast
  qed
  show "heads N \<inter> frees A gs = {}" using hf by fastforce
qed

lemma links_in_writable:
  assumes "chunks_ok gs"
  shows "links (heads N \<union> frees A gs) \<subseteq> writable A N gs"
proof
  fix x assume "x \<in> links (heads N \<union> frees A gs)"
  then consider a where "a \<in> heads N" "a + 8 \<le> x" "x < a + 24"
    | a s where "(a, False, s) \<in> set (place A gs)" "a + 8 \<le> x" "x < a + 24"
    by (auto simp: links_def frees_def)
  then show "x \<in> writable A N gs"
  proof cases
    case 1
    then show ?thesis using heads_bounds [of a N] by (auto simp: writable_def)
  next
    case 2
    have "24 \<le> s" using chunks_okD [OF assms place_in [OF 2(1)]] by simp
    then have "x \<in> {a..<a + s}" using 2 by simp
    then show ?thesis using 2(1) unfolding writable_def by force
  qed
qed

lemma headers_not_links:
  assumes "layout A N gs" "chunks_ok gs" "(a, f, s) \<in> set (place A gs)"
  shows "{a..<a + 4} \<inter> links (heads N \<union> frees A gs) = {}"
proof -
  have s: "4 \<le> s" using chunks_okD [OF assms(2) place_in [OF assms(3)]] by simp
  have "x \<notin> links (heads N \<union> frees A gs)" if x: "x \<in> {a..<a + 4}" for x
  proof
    assume "x \<in> links (heads N \<union> frees A gs)"
    then consider b where "b \<in> heads N" "b + 8 \<le> x" "x < b + 24"
      | b t where "(b, False, t) \<in> set (place A gs)" "b + 8 \<le> x" "x < b + 24"
      by (auto simp: links_def frees_def)
    then show False
    proof cases
      case 1
      then show ?thesis
        using heads_bounds [OF 1(1)] place_bounds [OF assms(3)] assms(1) x s by (auto simp: layout_def)
    next
      case 2
      have "24 \<le> t" using chunks_okD [OF assms(2) place_in [OF 2(1)]] by simp
      then show ?thesis using place_disjoint [OF assms(2,3) 2(1)] x s 2 by auto
    qed
  qed
  then show ?thesis by blast
qed

section \<open>Headers under stores\<close>

lemma header_same:
  "\<lbrakk>same_outside S m m'; {a..<a + 4} \<inter> S = {}; a + 4 \<le> 2 ^ 64\<rbrakk> \<Longrightarrow> header m' a p c = header m a p c"
proof -
  assume A: "same_outside S m m'" "{a..<a + 4} \<inter> S = {}" "a + 4 \<le> 2 ^ 64"
  have "{a..<a + 2} \<inter> S = {}" "{a + 2..<a + 2 + 2} \<inter> S = {}"
    using A(2) by (force simp: disjoint_iff)+
  then show "header m' a p c = header m a p c"
    using ld_same(1) [OF A(1), of a] ld_same(1) [OF A(1), of "a + 2"] A(3) by (simp add: header_def)
qed

lemma tiled_same:
  assumes "same_outside S m m'"
    "\<And>b f s. (b, f, s) \<in> set (place a gs) \<Longrightarrow> {b..<b + 4} \<inter> S = {} \<and> b + 4 \<le> 2 ^ 64"
  shows "tiled m' a p gs = tiled m a p gs"
  using assms(2)
proof (induction gs arbitrary: a p)
  case (Cons c gs)
  have "header m' a p c = header m a p c"
    by (rule header_same [OF assms(1)]; use Cons.prems [of a "fst c" "snd c"] in \<open>cases c; simp\<close>)
  moreover have "tiled m' (a + snd c) (snd c) gs = tiled m (a + snd c) (snd c) gs"
  proof (rule Cons.IH)
    fix b f s assume "(b, f, s) \<in> set (place (a + snd c) gs)"
    then show "{b..<b + 4} \<inter> S = {} \<and> b + 4 \<le> 2 ^ 64"
      using Cons.prems [of b f s] by (cases c) simp
  qed
  ultimately show ?case by simp
qed simp

lemma tiled_same_region:
  assumes "same_outside S m m'" "{a..<a + total gs} \<inter> S = {}" "a + total gs \<le> 2 ^ 64"
    "\<forall>(f, s) \<in> set gs. 4 \<le> s"
  shows "tiled m' a p gs = tiled m a p gs"
proof (rule tiled_same [OF assms(1)])
  fix b f s assume b: "(b, f, s) \<in> set (place a gs)"
  then have "a \<le> b" "b + s \<le> a + total gs" "4 \<le> s"
    using place_bounds [OF b] place_in [OF b] assms(4) by auto
  then have "{b..<b + 4} \<subseteq> {a..<a + total gs}" "b + 4 \<le> 2 ^ 64" using assms(3) by auto
  then show "{b..<b + 4} \<inter> S = {} \<and> b + 4 \<le> 2 ^ 64" using assms(2) by blast
qed

lemma alloc_bit_of:
  assumes "p < 2 ^ 15 \<or> f"
  shows "(of_nat p OR alloc_bit f) AND 0x8000 = alloc_bit f"
proof (cases f)
  case True
  then show ?thesis by (simp add: alloc_bit_def bit.conj_disj_distrib2)
next
  case False
  then have "take_bit 15 (of_nat p :: u16) = of_nat p"
    using assms by (simp add: take_bit_of_nat take_bit_nat_eq_self)
  moreover have "take_bit 15 x AND 0x8000 = (0 :: u16)" for x
    using and_exp_eq_0_iff_not_bit [of "take_bit 15 x" 15] by (simp add: bit_take_bit_iff)
  ultimately show ?thesis using False by (metis alloc_bit_def or.right_neutral)
qed

end
