(* ===== verification/Mm_Steps.thy ===== *)
theory Mm_Steps
  imports Mm_Chunks
begin

text \<open>
  The steps that \<open>mm_malloc\<close> and \<open>mm_free\<close> are made of, on the chunk list and the free list
  together. \<open>lheap m A N gs X\<close>: memory \<open>m\<close> holds the chunks \<open>gs\<close> from address \<open>A\<close> on and, from
  the list heads at \<open>N\<close>, a free list of all free chunks but those in \<open>X\<close>.
\<close>

definition lheap :: "mem \<Rightarrow> nat \<Rightarrow> nat \<Rightarrow> chunk list \<Rightarrow> nat set \<Rightarrow> bool" where
  "lheap m A N gs X \<longleftrightarrow> layout A N gs \<and> chunks_ok gs \<and> tiled m A 0 gs \<and> X \<subseteq> frees A gs \<and>
     (\<exists>L. free_list m N (frees A gs - X) L)"

lemma lheapD:
  assumes "lheap m A N gs X"
  shows "layout A N gs" "chunks_ok gs" "tiled m A 0 gs" "X \<subseteq> frees A gs"
    "\<exists>L. free_list m N (frees A gs - X) L" "apart (heads N \<union> frees A gs)"
  using assms apart_nodes(1) by (auto simp: lheap_def)

lemma tiled_header: "tiled m A p (xs @ c # ys) \<Longrightarrow> header m (A + total xs) (lsize p xs) c"
  by (simp add: tiled_append)

lemma header_place:
  assumes "tiled m A p gs" "chunks_ok gs" "(a, f, s) \<in> set (place A gs)"
  shows "unat (ld16 m (pt a)) = s" "ld16 m (pt a) = of_nat s"
proof -
  obtain xs ys where g: "gs = xs @ (f, s) # ys" "a = A + total xs"
    using place_split [OF assms(3)] by blast
  then show "ld16 m (pt a) = of_nat s"
    using tiled_header [of m A p xs "(f, s)" ys] assms(1) by (simp add: header_def)
  then show "unat (ld16 m (pt a)) = s"
    using chunks_okD [OF assms(2) place_in [OF assms(3)]] by (simp add: unat_of_nat)
qed

section \<open>Unlinking and linking a free chunk\<close>

lemma tiled_links:
  assumes "layout A N gs" "chunks_ok gs" "same_outside (links S) m m'" "S \<subseteq> heads N \<union> frees A gs"
  shows "tiled m' A 0 gs = tiled m A 0 gs"
proof (rule tiled_same [OF assms(3)])
  fix b f s assume b: "(b, f, s) \<in> set (place A gs)"
  have "4 \<le> s" using chunks_okD [OF assms(2) place_in [OF b]] by simp
  then have "b + 4 \<le> 2 ^ 64" using place_bounds [OF b] assms(1) by (simp add: layout_def)
  then show "{b..<b + 4} \<inter> links S = {} \<and> b + 4 \<le> 2 ^ 64"
    using headers_not_links [OF assms(1,2) b] links_mono [OF assms(4)] by blast
qed

lemma lheap_unlink:
  assumes H: "lheap m A N gs X" and x: "x \<in> frees A gs" "x \<notin> X"
  shows "lheap (unlink_node (pt x) m) A N gs (insert x X)"
    and "same_outside (writable A N gs) m (unlink_node (pt x) m)"
proof -
  note D = lheapD [OF H]
  let ?F = "frees A gs - X"
  obtain L where L: "free_list m N ?F L" using D(5) by blast
  have xF: "x \<in> ?F" using x by simp
  have S: "same_outside (links (heads N \<union> ?F)) m (unlink_node (pt x) m)"
    by (rule free_list_unlink(2) [OF L xF])
  obtain L' where "free_list (unlink_node (pt x) m) N (?F - {x}) L'"
    using free_list_unlink(1) [OF L xF] by blast
  moreover have "?F - {x} = frees A gs - insert x X" by blast
  ultimately show "lheap (unlink_node (pt x) m) A N gs (insert x X)"
    using D x tiled_links [OF D(1,2) S] unfolding lheap_def by auto
  show "same_outside (writable A N gs) m (unlink_node (pt x) m)"
    using links_mono [of "heads N \<union> ?F" "heads N \<union> frees A gs"] links_in_writable [OF D(2), of N A]
    by (intro same_outside_mono [OF S]) auto
qed

lemma lheap_link:
  assumes H: "lheap (mm_ram h) A N gs X" and x: "x \<in> X" and nl: "mm_nodelist h = pt N"
  shows "\<exists>m'. mm_addfreechunk (pt x) h = Some (h\<lparr>mm_ram := m'\<rparr>) \<and> lheap m' A N gs (X - {x}) \<and>
    same_outside (writable A N gs) (mm_ram h) m'"
proof -
  note D = lheapD [OF H]
  let ?F = "frees A gs - X"
  obtain L where L: "free_list (mm_ram h) N ?F L" using D(5) by blast
  obtain s where s: "(x, False, s) \<in> set (place A gs)" using D(4) x by (auto simp: frees_def)
  have size: "24 \<le> unat (ld16 (mm_ram h) (pt x))"
    using header_place(1) [OF D(3,2) s] chunks_okD [OF D(2) place_in [OF s]] by simp
  have sub: "heads N \<union> insert x ?F \<subseteq> heads N \<union> frees A gs" using D(4) x by auto
  obtain m' L' where m': "mm_addfreechunk (pt x) h = Some (h\<lparr>mm_ram := m'\<rparr>)"
      "free_list m' N (insert x ?F) L'"
      and S: "same_outside (links (heads N \<union> insert x ?F)) (mm_ram h) m'"
    using free_list_insert [OF L nl _ size apart_subset [OF D(6) sub]]
      apart_nodes(2) [OF D(1,2)] D(4) x by blast
  moreover have "insert x ?F = frees A gs - (X - {x})" using D(4) x by blast
  ultimately have "lheap m' A N gs (X - {x})"
    using D tiled_links [OF D(1,2) S sub] unfolding lheap_def by auto
  moreover have "same_outside (writable A N gs) (mm_ram h) m'"
    using links_mono [OF sub] links_in_writable [OF D(2), of N A]
    by (intro same_outside_mono [OF S]) auto
  ultimately show ?thesis using m' by blast
qed

section \<open>Rewriting headers\<close>

text \<open>
  One lemma for the four steps that write headers: the chunks \<open>seg\<close>, of which none is on the
  free list, become \<open>seg'\<close>, and the chunk after them gets its \<open>preceding\<close> field.
\<close>

lemma free_list_same:
  assumes "free_list m N F L" "same_outside S m m'"
    "\<And>a. a \<in> heads N \<union> F \<Longrightarrow> ({a..<a + 2} \<union> {a + 8..<a + 24}) \<inter> S = {}"
  shows "free_list m' N F L"
proof -
  note D = free_listD [OF assms(1)]
  have sz: "ld16 m' (pt a) = ld16 m (pt a)" if "a \<in> heads N \<union> F" for a
    using assms(3) [OF that] apartD(2) [OF D(5) that]
    by (intro ld_same(1) [OF assms(2)]) auto
  have "dll m' L = dll m L"
  proof (rule dll_same [OF assms(2)])
    show "links (set L) \<inter> S = {}" using assms(3) D(3) by (fastforce simp: links_def)
    show "apart (set L)" using D(3,5) by simp
  qed
  moreover have eq: "map (rank N m') L = map (rank N m) L"
    using sz D(3) by (auto simp: rank_def)
  moreover have "sorted (map (rank N m') L)" using D(6) unfolding eq .
  ultimately show ?thesis using assms(1) sz by (simp add: free_list_def)
qed

lemma lheap_rehead:
  assumes H: "lheap m A N (xs @ seg @ c # ys) X" and x: "x = A + total xs"
    and tot: "total seg' = total seg" and ok: "chunks_ok (xs @ seg' @ c # ys)"
    and S: "same_outside S m m'" "S \<subseteq> {x..<x + total seg} \<union> {x + total seg + 2..<x + total seg + 4}"
    and T: "tiled m' x (lsize 0 xs) (seg' @ [c])"
    and loose: "frees x seg \<subseteq> X"
  shows "lheap m' A N (xs @ seg' @ c # ys) (X - frees x seg \<union> frees x seg')"
proof -
  let ?gs = "xs @ seg @ c # ys" and ?gs' = "xs @ seg' @ c # ys"
  note D = lheapD [OF H]
  obtain L where L: "free_list m N (frees A ?gs - X) L" using D(5) by blast
  let ?y = "x + total seg"
  have ok_parts: "chunks_ok xs" "chunks_ok seg" "chunks_ok seg'" "chunks_ok (c # ys)"
    using D(2) ok by (auto simp: chunks_ok_def successively_append_iff)
  have rng: "a + 24 \<le> x" if "a \<in> frees A xs" for a
    using frees_bounds [OF ok_parts(1) that] x by simp
  have rng2: "x \<le> a \<and> a + 24 \<le> ?y" if "a \<in> frees x seg \<union> frees x seg'" for a
    using that frees_bounds [OF ok_parts(2), of a x] frees_bounds [OF ok_parts(3), of a x] tot by auto
  have c: "4 \<le> snd c" using D(2) by (cases c) (auto simp: chunks_ok_def)
  have rng3: "a = ?y \<or> ?y + 4 \<le> a" "?y \<le> a" if a: "a \<in> frees ?y (c # ys)" for a
  proof -
    have "a = ?y \<or> a \<in> frees (?y + snd c) ys" using a by (cases c) (auto split: if_splits)
    moreover have "?y + snd c \<le> a" if "a \<in> frees (?y + snd c) ys"
      using that place_bounds by (fastforce simp: frees_def)
    ultimately show "a = ?y \<or> ?y + 4 \<le> a" "?y \<le> a" using c by auto
  qed
  have fr: "frees A ?gs = frees A xs \<union> frees x seg \<union> frees ?y (c # ys)"
    "frees A ?gs' = frees A xs \<union> frees x seg' \<union> frees ?y (c # ys)"
    by (auto simp add: frees_append x tot add.assoc simp del: frees_simps)
  have out: "a \<notin> frees x seg \<union> frees x seg'" if "a \<in> frees A xs \<union> frees ?y (c # ys)" for a
    using that rng [of a] rng2 [of a] rng3(2) [of a] by fastforce
  have eq: "frees A ?gs' - (X - frees x seg \<union> frees x seg') = frees A ?gs - X"
    unfolding fr using out loose by blast
  have hb: "A + total ?gs \<le> 2 ^ 64" "?y + 4 \<le> A + total ?gs"
    using D(1) c by (auto simp: layout_def x)
  have "free_list m' N (frees A ?gs - X) L"
  proof (rule free_list_same [OF L S(1)])
    fix a assume "a \<in> heads N \<union> (frees A ?gs - X)"
    then consider "a \<in> heads N" | "a \<in> frees A xs" | "a \<in> frees ?y (c # ys)"
      using fr loose by blast
    then have "({a..<a + 2} \<union> {a + 8..<a + 24}) \<inter> ({x..<?y} \<union> {?y + 2..<?y + 4}) = {}"
    proof cases
      case 1
      then show ?thesis
        using heads_bounds [OF 1] D(1) hb by (auto simp: layout_def x)
    next
      case 2
      then show ?thesis using rng [OF 2] by auto
    next
      case 3
      then show ?thesis using rng3(1) [OF 3] by auto
    qed
    then show "({a..<a + 2} \<union> {a + 8..<a + 24}) \<inter> S = {}" using S(2) by blast
  qed
  moreover have "tiled m' A 0 ?gs'"
  proof -
    have t: "tiled m A 0 xs" "tiled m (?y + snd c) (snd c) ys"
      using D(3) by (auto simp: tiled_append x add.assoc)
    have s4: "\<forall>(f, s) \<in> set xs. 4 \<le> s" "\<forall>(f, s) \<in> set ys. 4 \<le> s"
      using D(2) by (auto simp: chunks_ok_def)
    let ?W = "{x..<?y} \<union> {?y + 2..<?y + 4}"
    have "{A..<A + total xs} \<inter> ?W = {}" "A + total xs \<le> 2 ^ 64" using hb by (auto simp: x)
    then have "tiled m' A 0 xs"
      using t(1) tiled_same_region [OF S(1) _ _ s4(1), of A 0] S(2) by blast
    moreover have "{?y + snd c..<?y + snd c + total ys} \<inter> ?W = {}"
      "?y + snd c + total ys \<le> 2 ^ 64" using hb c by (auto simp: x)
    then have "tiled m' (?y + snd c) (snd c) ys"
      using t(2) tiled_same_region [OF S(1) _ _ s4(2), of "?y + snd c" "snd c"] S(2) by blast
    ultimately show ?thesis using T by (simp add: tiled_append x tot add.assoc)
  qed
  moreover have "layout A N ?gs'" using D(1) tot by (simp add: layout_def)
  moreover have "X - frees x seg \<union> frees x seg' \<subseteq> frees A ?gs'"
    unfolding fr(2) using D(4) fr(1) by blast
  ultimately show ?thesis using ok eq by (auto simp: lheap_def)
qed


section \<open>The four header steps\<close>

lemma alloc_bit_or: "(of_nat p OR alloc_bit False) OR 0x8000 = of_nat p OR alloc_bit True"
  by (simp add: alloc_bit_def or.assoc)

lemma alloc_bit_clear:
  assumes "p < 2 ^ 15"
  shows "(of_nat p OR alloc_bit f) AND NOT 0x8000 = of_nat p OR alloc_bit False"
proof -
  have t: "take_bit 15 (of_nat p :: u16) = of_nat p"
    using assms by (simp add: take_bit_of_nat take_bit_nat_eq_self)
  have "take_bit n x AND NOT (2 ^ n) = take_bit n (x :: u16)" for x n
    by (rule bit_word_eqI) (auto simp: bit_simps)
  from this [of 15 "of_nat p"] have "of_nat p AND NOT (0x8000 :: u16) = of_nat p"
    unfolding t by simp
  then show ?thesis
    by (cases f) (simp_all add: alloc_bit_def bit.conj_disj_distrib2)
qed

lemma lheap_seg_bounds:
  assumes "lheap m A N (xs @ seg @ c # ys) X" "x = A + total xs"
  shows "x + total seg + 4 \<le> 2 ^ 64" "0 < x" "4 \<le> snd c"
  using lheapD(1,2) [OF assms(1)] assms(2)
  by (auto simp: layout_def chunks_ok_def)

lemma lsize_less:
  "\<lbrakk>chunks_ok (xs @ (False, s) # ys)\<rbrakk> \<Longrightarrow> lsize 0 xs < 2 ^ 15"
  by (auto simp: chunks_ok_def successively_append_iff lsize_def)

lemma same_outside_st16:
  "\<lbrakk>{a..<a + 2} \<subseteq> S; a + 2 \<le> 2 ^ 64; same_outside S m m'\<rbrakk> \<Longrightarrow> same_outside S m (st16 (pt a) v m')"
  using same_outside_chain same_outside_mono [OF st_outside(1)] by blast

text \<open>Setting and clearing the allocated flag.\<close>

lemma alloc_bit_range: "24 \<le> (s :: nat) \<Longrightarrow> {Suc (Suc x)..<x + 4} \<subseteq> {x..<x + s} \<union> T"
  by auto

lemma lheap_set_flag:
  assumes H: "lheap m A N (xs @ (False, s) # c # ys) X" and x: "x = A + total xs" "x \<in> X"
  defines "m' \<equiv> st16 (pt (x + 2)) (ld16 m (pt (x + 2)) OR 0x8000) m"
  shows "lheap m' A N (xs @ (True, s) # c # ys) (X - {x})" "same_outside {x + 2..<x + 4} m m'"
proof -
  have b: "x + s + 4 \<le> 2 ^ 64" "0 < x" "4 \<le> snd c"
    using lheap_seg_bounds [of m A N xs "[(False, s)]" c ys X x] H x by simp_all
  have s: "24 \<le> s" using lheapD(2) [OF H] by (auto simp: chunks_ok_def)
  have ok: "chunks_ok (xs @ [(True, s)] @ c # ys)"
    using lheapD(2) [OF H] by (auto simp: chunks_ok_def successively_append_iff)
  have T: "tiled m x (lsize 0 xs) [(False, s), c]"
    using lheapD(3) [OF H] by (simp add: tiled_append x)
  show so: "same_outside {x + 2..<x + 4} m m'"
    unfolding m'_def by (rule same_outside_mono [OF st_outside(1)]) (use b in auto)
  have ld: "ld16 m' (pt (x + 2)) = ld16 m (pt (x + 2)) OR 0x8000" "ld16 m' (pt x) = ld16 m (pt x)"
    "ld16 m' (pt (x + s)) = ld16 m (pt (x + s))" "ld16 m' (pt (x + s + 2)) = ld16 m (pt (x + s + 2))"
    unfolding m'_def using b s by (auto intro!: ld_st_same ld_st_other(1))
  have T': "tiled m' x (lsize 0 xs) ([(True, s)] @ [c])"
    using T by (simp add: header_def ld alloc_bit_or del: add_2_eq_Suc')
  show "lheap m' A N (xs @ (True, s) # c # ys) (X - {x})"
    using lheap_rehead [of m A N xs "[(False, s)]" c ys X x "[(True, s)]", OF _ x(1) _ ok so _ T'] H x(2) s
    by (simp add: alloc_bit_range)
qed

lemma lheap_clear_flag:
  assumes H: "lheap m A N (xs @ (True, s) # c # ys) X" and x: "x = A + total xs"
    and ok: "chunks_ok (xs @ (False, s) # c # ys)"
  defines "m' \<equiv> st16 (pt (x + 2)) (ld16 m (pt (x + 2)) AND NOT 0x8000) m"
  shows "lheap m' A N (xs @ (False, s) # c # ys) (insert x X)" "same_outside {x + 2..<x + 4} m m'"
proof -
  have b: "x + s + 4 \<le> 2 ^ 64" "0 < x" "4 \<le> snd c"
    using lheap_seg_bounds [of m A N xs "[(True, s)]" c ys X x] H x by simp_all
  have s: "24 \<le> s" using ok by (auto simp: chunks_ok_def)
  have T: "tiled m x (lsize 0 xs) [(True, s), c]"
    using lheapD(3) [OF H] by (simp add: tiled_append x)
  show so: "same_outside {x + 2..<x + 4} m m'"
    unfolding m'_def by (rule same_outside_mono [OF st_outside(1)]) (use b in auto)
  have ld: "ld16 m' (pt (x + 2)) = ld16 m (pt (x + 2)) AND NOT 0x8000" "ld16 m' (pt x) = ld16 m (pt x)"
    "ld16 m' (pt (x + s)) = ld16 m (pt (x + s))" "ld16 m' (pt (x + s + 2)) = ld16 m (pt (x + s + 2))"
    unfolding m'_def using b s by (auto intro!: ld_st_same ld_st_other(1))
  have T': "tiled m' x (lsize 0 xs) ([(False, s)] @ [c])"
    using T alloc_bit_clear [OF lsize_less [OF ok], of True] by (simp add: header_def ld del: add_2_eq_Suc')
  show "lheap m' A N (xs @ (False, s) # c # ys) (insert x X)"
    using lheap_rehead [of m A N xs "[(True, s)]" c ys X x "[(False, s)]", OF _ x _ _ so _ T'] H s ok
    by (simp add: alloc_bit_range)
qed

text \<open>Splitting a chunk, and merging two.\<close>

lemma lheap_split:
  assumes H: "lheap m A N (xs @ (False, s) # c # ys) X" and x: "x = A + total xs" "x \<in> X"
    and n: "24 \<le> n" "n + 24 \<le> s" "n < 2 ^ 15"
  defines "m1 \<equiv> st16 (pt (x + n + 2)) (of_nat n) (st16 (pt (x + n)) (of_nat (s - n)) m)"
  defines "m2 \<equiv> st16 (pt x) (of_nat n) m1"
  defines "m' \<equiv> st16 (pt (x + s + 2)) (of_nat (s - n) OR (ld16 m2 (pt (x + s + 2)) AND 0x8000)) m2"
  shows "lheap m' A N (xs @ (False, n) # (False, s - n) # c # ys) (insert (x + n) X)"
    "same_outside ({x..<x + s} \<union> {x + s + 2..<x + s + 4}) m m'"
proof -
  let ?S = "{x..<x + s} \<union> {x + s + 2..<x + s + 4}"
  have b: "x + s + 4 \<le> 2 ^ 64" "0 < x" "4 \<le> snd c"
    using lheap_seg_bounds [of m A N xs "[(False, s)]" c ys X x] H x by simp_all
  have ok: "chunks_ok (xs @ [(False, n), (False, s - n)] @ c # ys)" and sc: "s < 2 ^ 15 \<or> fst c"
    using lheapD(2) [OF H] n by (auto simp: chunks_ok_def successively_append_iff)
  have T: "tiled m x (lsize 0 xs) [(False, s), c]"
    using lheapD(3) [OF H] by (simp add: tiled_append x)
  show so: "same_outside ?S m m'"
    unfolding m'_def m2_def m1_def
    by (intro same_outside_st16 same_outside_refl) (use b n in auto)
  have ld2: "ld16 m2 (pt (x + s + 2)) = ld16 m (pt (x + s + 2))"
    unfolding m2_def m1_def using b n by (simp add: ld_st_other(1) del: add_2_eq_Suc')
  have ld: "ld16 m' (pt x) = of_nat n" "ld16 m' (pt (x + 2)) = ld16 m (pt (x + 2))"
    "ld16 m' (pt (x + n)) = of_nat (s - n)" "ld16 m' (pt (x + n + 2)) = of_nat n"
    "ld16 m' (pt (x + s)) = ld16 m (pt (x + s))"
    "ld16 m' (pt (x + s + 2)) = of_nat (s - n) OR (ld16 m (pt (x + s + 2)) AND 0x8000)"
    unfolding m'_def ld2 unfolding m2_def m1_def
    using b n by (simp_all add: ld_st_other(1) del: add_2_eq_Suc')
  have T': "tiled m' x (lsize 0 xs) ([(False, n), (False, s - n)] @ [c])"
    using T n alloc_bit_of [OF sc]
    by (simp add: header_def ld alloc_bit_def del: add_2_eq_Suc')
  have "insert (x + n) (insert x X) = insert (x + n) X" using x(2) by blast
  then show "lheap m' A N (xs @ (False, n) # (False, s - n) # c # ys) (insert (x + n) X)"
    using lheap_rehead [of m A N xs "[(False, s)]" c ys X x "[(False, n), (False, s - n)]",
        OF _ x(1) _ ok so _ T'] H x(2) n
    by simp
qed

lemma merge_range: "24 \<le> (s :: nat) \<Longrightarrow> {x..<Suc (Suc x)} \<subseteq> {x..<x + (s + t)} \<union> T"
  by auto

lemma lheap_merge:
  assumes H: "lheap m A N (xs @ (False, s) # (False, t) # c # ys) X"
    and x: "x = A + total xs" "x \<in> X" "x + s \<in> X"
    and ok: "chunks_ok (xs @ (False, s + t) # c # ys)"
  defines "m1 \<equiv> st16 (pt x) (ld16 m (pt x) + ld16 m (pt (x + s))) m"
  defines "m' \<equiv> st16 (pt (x + s + t + 2)) (ld16 m1 (pt x) OR (ld16 m1 (pt (x + s + t + 2)) AND 0x8000)) m1"
  shows "lheap m' A N (xs @ (False, s + t) # c # ys) (X - {x + s})"
    "same_outside ({x..<x + 2} \<union> {x + s + t + 2..<x + s + t + 4}) m m'"
proof -
  let ?S = "{x..<x + 2} \<union> {x + s + t + 2..<x + s + t + 4}"
  have b: "x + s + t + 4 \<le> 2 ^ 64" "0 < x" "4 \<le> snd c"
    using lheap_seg_bounds [of m A N xs "[(False, s), (False, t)]" c ys X x] H x by simp_all
  have s: "24 \<le> s" "24 \<le> t" using lheapD(2) [OF H] by (auto simp: chunks_ok_def)
  have tc: "t < 2 ^ 15 \<or> fst c"
    using lheapD(2) [OF H] by (auto simp: chunks_ok_def successively_append_iff)
  have T: "tiled m x (lsize 0 xs) [(False, s), (False, t), c]"
    using lheapD(3) [OF H] by (simp add: tiled_append x)
  show so: "same_outside ?S m m'"
    unfolding m'_def m1_def
    by (intro same_outside_st16 same_outside_refl) (use b s in auto)
  have ld1: "ld16 m1 (pt (x + s + t + 2)) = ld16 m (pt (x + s + t + 2))"
    "ld16 m1 (pt x) = ld16 m (pt x) + ld16 m (pt (x + s))"
    unfolding m1_def using b s by (simp_all add: ld_st_other(1) del: add_2_eq_Suc')
  have ld: "ld16 m' (pt x) = ld16 m (pt x) + ld16 m (pt (x + s))"
    "ld16 m' (pt (x + 2)) = ld16 m (pt (x + 2))"
    "ld16 m' (pt (x + s + t)) = ld16 m (pt (x + s + t))"
    "ld16 m' (pt (x + s + t + 2)) =
       (ld16 m (pt x) + ld16 m (pt (x + s))) OR (ld16 m (pt (x + s + t + 2)) AND 0x8000)"
    unfolding m'_def ld1 unfolding m1_def
    using b s by (simp_all add: ld_st_other(1) del: add_2_eq_Suc')
  have T': "tiled m' x (lsize 0 xs) ([(False, s + t)] @ [c])"
    using T alloc_bit_of [OF tc]
    by (simp add: header_def ld add.assoc [symmetric] del: add_2_eq_Suc')
  have "insert x (X - {x + s, x}) = X - {x + s}" using x(2) s by auto
  then show "lheap m' A N (xs @ (False, s + t) # c # ys) (X - {x + s})"
    using lheap_rehead [of m A N xs "[(False, s), (False, t)]" c ys X x "[(False, s + t)]",
        OF _ x(1) _ _ so _ T'] H x(2,3) s ok
    by (simp add: merge_range add.assoc)
qed

end
