(* ===== verification/Mm_Ok.thy ===== *)
theory Mm_Ok
  imports Mm_Steps
begin

text \<open>
  Correctness of \<open>mm_malloc\<close> and \<open>mm_free\<close> on the chunk list: best fit with splitting, and
  coalescing with both neighbours. \<open>heap_ok A N cs h\<close>: between two guards, the region at
  \<open>A\<close> holds the chunks \<open>cs\<close>, no two adjacent ones are free, and every free chunk is on the
  free list.
\<close>

section \<open>The invariant of the heap\<close>

definition guarded :: "chunk list \<Rightarrow> chunk list" where
  "guarded cs = (True, 4) # cs @ [(True, 4)]"

definition coalesced :: "chunk list \<Rightarrow> bool" where
  "coalesced cs = successively (\<lambda>c d. fst c \<or> fst d) cs"

definition heap_ok :: "nat \<Rightarrow> nat \<Rightarrow> chunk list \<Rightarrow> mm_heap \<Rightarrow> bool" where
  "heap_ok A N cs h \<longleftrightarrow> mm_heapstart h = pt A \<and> mm_heapend h = pt (A + 4 + total cs) \<and>
     mm_heapsize h = pt (total cs + 8) \<and> mm_nodelist h = pt N \<and>
     lheap (mm_ram h) A N (guarded cs) {} \<and> coalesced cs \<and> (\<forall>(f, s) \<in> set cs. 24 \<le> s \<and> 8 dvd s)"

lemma heap_okD:
  assumes "heap_ok A N cs h"
  shows "mm_heapstart h = pt A" "mm_heapend h = pt (A + 4 + total cs)"
    "mm_heapsize h = pt (total cs + 8)" "mm_nodelist h = pt N"
    "lheap (mm_ram h) A N (guarded cs) {}" "coalesced cs"
    "\<And>f s. (f, s) \<in> set cs \<Longrightarrow> 24 \<le> s \<and> 8 dvd s"
  using assms by (auto simp: heap_ok_def)

lemma total_guarded [simp]: "total (guarded cs) = total cs + 8"
  by (simp add: guarded_def)

lemma heap_ok_max [simp]: "heap_ok A N cs (h\<lparr>g_max_used_size := u\<rparr>) = heap_ok A N cs h"
  by (simp add: heap_ok_def)

section \<open>Statistics\<close>

definition used :: "chunk list \<Rightarrow> nat" where
  "used gs = sum_list (map snd (filter fst gs))"

definition avail :: "chunk list \<Rightarrow> nat list" where
  "avail gs = map snd (filter (Not \<circ> fst) gs)"

lemma used_avail: "used gs + sum_list (avail gs) = total gs"
  by (induction gs) (auto simp: used_def avail_def)

lemma mallinfo_walk_tiled:
  assumes "tiled m a p gs" "chunks_ok gs" "gs \<noteq> [] \<longrightarrow> p < 2 ^ 15 \<or> fst (hd gs)"
    "a + total gs < 2 ^ 64" "mx < 2 ^ 64"
  shows "mallinfo_walk m (pt (a + total gs)) (pt a) (pt mx) ord (pt u) (pt v) =
    Some (pt (fold max (avail gs) mx), ord + int (length (avail gs)), pt (u + used gs),
          pt (v + sum_list (avail gs)))"
  using assms
proof (induction gs arbitrary: a p mx ord u v)
  case Nil
  then show ?case by (subst mallinfo_walk.simps) (simp add: avail_def used_def)
next
  case (Cons c gs)
  obtain f s where c: "c = (f, s)" by (cases c)
  have s: "4 \<le> s" "s < 2 ^ 16" using Cons.prems(2) c by (auto simp: chunks_ok_def)
  have h: "ld16 m (pt a) = of_nat s" "ld16 m (pt (a + 2)) AND 0x8000 = alloc_bit f"
    using Cons.prems(1,3) c alloc_bit_of [of p f] by (auto simp: header_def simp del: add_2_eq_Suc')
  have lt: "pt a < pt (a + (s + total gs))"
    using Cons.prems(4) c s by (simp add: word_less_nat_alt)
  have ok: "chunks_ok gs" "gs \<noteq> [] \<longrightarrow> s < 2 ^ 15 \<or> fst (hd gs)"
    using Cons.prems(2) c by (cases gs; auto simp: chunks_ok_def)+
  have mxs: "max s mx < 2 ^ 64" using s Cons.prems(5) by simp
  have gt: "pt s > pt mx \<longleftrightarrow> s > mx"
    using s Cons.prems(5) by (simp add: word_less_nat_alt)
  have mx': "(if pt s > pt mx then pt s else pt mx) = pt (max s mx)"
    using gt by (simp add: max_def)
  have t: "tiled m (a + s) s gs" "a + s + total gs < 2 ^ 64"
    using Cons.prems(1,4) c by (auto simp: add.assoc)
  note IH = Cons.IH [OF t(1) ok t(2)]
  show ?case
  proof (cases f)
    case True
    have "ld16 m (pt a + 2) AND 0x8000 \<noteq> 0" using h(2) True by (simp add: alloc_bit_def)
    then show ?thesis
      using IH [OF Cons.prems(5), of ord "u + s" v] True c lt h(1) s
      by (subst mallinfo_walk.simps)
         (simp add: ucast_pt Let_def ac_simps avail_def used_def)
  next
    case False
    have "ld16 m (pt a + 2) AND 0x8000 = 0" using h(2) False by (simp add: alloc_bit_def)
    then show ?thesis
      using IH [OF mxs, of "ord + 1" u "v + s"] False c lt h(1) s mx'
      by (subst mallinfo_walk.simps)
         (simp add: ucast_pt Let_def ac_simps avail_def used_def)
  qed
qed

lemma to_int_pt: "n < 2 ^ 31 \<Longrightarrow> to_int (pt n) = int n"
  by (simp add: to_int_def pt_def sint_uint unsigned_ucast_eq unsigned_of_nat take_bit_nat_eq_self
      take_bit_int_eq_self signed_take_bit_int_eq_self)

lemma guarded_facts:
  assumes "heap_ok A N cs h"
  shows "chunks_ok (guarded cs)" "tiled (mm_ram h) A 0 (guarded cs)" "A + total cs + 8 \<le> 2 ^ 64" "0 < A"
  using lheapD(1-3) [OF heap_okD(5) [OF assms]] by (auto simp: layout_def)

lemma mallinfo_heap_ok:
  assumes "heap_ok A N cs h"
  shows "mallinfo_walk (mm_ram h) (mm_heapend h) (mm_heapstart h) 0 0 0 0 =
    Some (pt (fold max (avail cs) 0), int (length (avail cs)), pt (used cs + 4),
          pt (sum_list (avail cs)))"
proof -
  let ?gs = "(True, 4) # cs"
  note G = guarded_facts [OF assms]
  have g: "guarded cs = ?gs @ [(True, 4)]" by (simp add: guarded_def)
  have "tiled (mm_ram h) A 0 ?gs" using G(2) unfolding g tiled_append by (rule conjunct1)
  moreover have "chunks_ok ?gs" using G(1) unfolding g by (rule chunks_ok_append)
  ultimately have "mallinfo_walk (mm_ram h) (pt (A + total ?gs)) (pt A) (pt 0) 0 (pt 0) (pt 0) =
    Some (pt (fold max (avail ?gs) 0), 0 + int (length (avail ?gs)), pt (0 + used ?gs),
          pt (0 + sum_list (avail ?gs)))"
    using G(3) by (intro mallinfo_walk_tiled) auto
  then show ?thesis
    by (simp add: heap_okD(1,2) [OF assms] avail_def used_def ac_simps)
qed

lemma mm_max_usedsize_update_ok:
  "heap_ok A N cs h \<Longrightarrow> \<exists>u. mm_max_usedsize_update h = Some (h\<lparr>g_max_used_size := u\<rparr>)"
  using mallinfo_heap_ok [of A N cs h]
  by (auto simp: mm_max_usedsize_update_def mm_mallinfo_def intro: exI [of _ "g_max_used_size h"])

section \<open>Allocation\<close>

text \<open>The chunk size of a request, and what becomes of the free chunk that is taken.\<close>

definition need :: "nat \<Rightarrow> nat" where
  "need n = 16 * ((n + 19) div 16)"

definition carve :: "nat \<Rightarrow> nat \<Rightarrow> chunk list" where
  "carve n s = (if n + 20 \<le> s then [(True, n), (False, s - n)] else [(True, s)])"

lemma need_facts: "n + 4 \<le> need n" "16 dvd need n" "13 \<le> n \<Longrightarrow> 32 \<le> need n" "need n \<le> n + 19"
  by (auto simp: need_def)

lemma pt_align:
  assumes "a < 2 ^ 64"
  shows "pt a AND NOT 0xF = pt (16 * (a div 16))"
proof -
  have m: "(0xF :: u64) = mask 4" by (simp add: mask_eq_decr_exp)
  have "pt a AND NOT 0xF = pt a - take_bit 4 (pt a)" unfolding m and_not_mask_eq ..
  also have "take_bit 4 (pt a) = pt (a mod 16)"
    using assms by (intro word_unat_eq_iff [THEN iffD2]) (simp add: unat_take_bit)
  also have "pt a - pt (a mod 16) = pt (16 * (a div 16))"
    by (subst pt_sub) (auto simp: minus_mod_eq_mult_div)
  finally show ?thesis .
qed

lemma MM_ALIGN_pt:
  "a + 15 < 2 ^ 64 \<Longrightarrow> MM_ALIGN_UP (pt a) = pt (16 * ((a + 15) div 16))"
  "a < 2 ^ 64 \<Longrightarrow> MM_ALIGN_DOWN (pt a) = pt (16 * (a div 16))"
  unfolding MM_ALIGN_UP_def MM_ALIGN_DOWN_def pt_add_num by (simp_all only: pt_align)

lemma MM_ALIGN_UP_need: "n + 19 < 2 ^ 64 \<Longrightarrow> MM_ALIGN_UP (pt n + 4) = pt (need n)"
  unfolding need_def pt_add_num using MM_ALIGN_pt(1) [of "n + 4"] by (simp add: add.commute)

lemma total_carve [simp]: "n \<le> s \<Longrightarrow> total (carve n s) = s"
  by (simp add: carve_def)

lemma take_chunk_ok:
  assumes H: "heap_ok A N (xs @ (False, s) # ys) h" and x: "x = A + 4 + total xs"
    and n: "32 \<le> n" "8 dvd n" "n \<le> s" "n < 2 ^ 15 \<or> s < n + 20"
  shows "\<exists>m'. take_chunk (pt x) (pt n) h = Some (h\<lparr>mm_ram := m'\<rparr>) \<and>
    lheap m' A N (guarded (xs @ carve n s @ ys)) {} \<and>
    same_outside (writable A N (guarded (xs @ (False, s) # ys))) (mm_ram h) m'"
proof -
  let ?xs = "(True, 4) # xs" and ?m = "mm_ram h"
  obtain c zs where c: "ys @ [(True, 4)] = c # zs" by (cases ys) auto
  let ?gs = "?xs @ (False, s) # c # zs"
  have g: "guarded (xs @ (False, s) # ys) = ?gs" using c by (simp add: guarded_def)
  note L0 = heap_okD(5) [OF H, unfolded g]
  have x': "x = A + total ?xs" using x by simp
  have xf: "x \<in> frees A ?gs" by (simp add: frees_append x)
  have s: "s < 2 ^ 16" "8 dvd s"
    using lheapD(2) [OF L0] heap_okD(7) [OF H, of False s] by (auto simp: chunks_ok_def)
  let ?m1 = "unlink_node (pt x) ?m"
  have L1: "lheap ?m1 A N ?gs {x}" and S1: "same_outside (writable A N ?gs) ?m ?m1"
    using lheap_unlink [OF L0 xf] by auto
  have b: "x + s + 4 \<le> 2 ^ 64" using lheap_seg_bounds [of ?m1 A N ?xs "[(False, s)]" c zs "{x}" x] L1 x' by simp
  have szx: "ld16 ?m1 (pt x) = of_nat s"
    using tiled_header [of ?m1 A 0 ?xs "(False, s)" "c # zs"] lheapD(3) [OF L1] x'
    by (simp add: header_def)
  have rem: "ucast (ld16 ?m1 (pt x)) - pt n = pt (s - n)"
    using s(1) n(3) by (simp add: szx ucast_pt pt_sub)
  have ge: "pt (s - n) \<ge> 20 \<longleftrightarrow> n + 20 \<le> s"
    using s(1) by (simp add: word_le_nat_alt) (use n(3) in linarith)
  have hdr_x: "{x..<x + s} \<subseteq> writable A N ?gs" "{x + s..<x + s + 4} \<subseteq> writable A N ?gs"
    using x' lheapD(2) [OF L0]
    by (auto simp: writable_def place_append chunks_ok_def split: prod.splits)
  show ?thesis
  proof (cases "n + 20 \<le> s")
    case True
    have "n + 24 \<le> s" using True s(2) n(2) by presburger
    moreover have n15: "n < 2 ^ 15" "24 \<le> n" using n(1,4) True by simp_all
    ultimately have sp: "24 \<le> n" "n + 24 \<le> s" "n < 2 ^ 15" by simp_all
    note L2 = lheap_split(1) [OF L1 x' singletonI sp] and S2 = lheap_split(2) [OF L1 x' singletonI sp]
    let ?m2 = "st16 (pt (x + s + 2)) (of_nat (s - n) OR (ld16 (st16 (pt x) (of_nat n)
        (st16 (pt (x + n + 2)) (of_nat n) (st16 (pt (x + n)) (of_nat (s - n)) ?m1)))
          (pt (x + s + 2)) AND 0x8000)) (st16 (pt x) (of_nat n)
        (st16 (pt (x + n + 2)) (of_nat n) (st16 (pt (x + n)) (of_nat (s - n)) ?m1)))"
    let ?gs2 = "?xs @ (False, n) # (False, s - n) # c # zs"
    obtain m3 where m3: "mm_addfreechunk (pt (x + n)) (h\<lparr>mm_ram := ?m2\<rparr>) = Some (h\<lparr>mm_ram := m3\<rparr>)"
      and L3: "lheap m3 A N ?gs2 ({x + n, x} - {x + n})" and S3: "same_outside (writable A N ?gs2) ?m2 m3"
      using lheap_link [of "h\<lparr>mm_ram := ?m2\<rparr>" A N ?gs2 "{x + n, x}" "x + n"] L2 heap_okD(4) [OF H]
      by auto
    have L3: "lheap m3 A N ?gs2 {x}" using L3 sp by (simp add: insert_Diff_if)
    note L4 = lheap_set_flag(1) [OF L3 x' singletonI] and S4 = lheap_set_flag(2) [OF L3 x' singletonI]
    let ?m4 = "st16 (pt (x + 2)) (ld16 m3 (pt (x + 2)) OR 0x8000) m3"
    have "take_chunk (pt x) (pt n) h = Some (h\<lparr>mm_ram := ?m4\<rparr>)"
      using m3 True rem ge szx s(1)
      by (simp add: take_chunk_def Let_def ucast_pt ucast16_pt del: add_2_eq_Suc')
    moreover have "lheap ?m4 A N (guarded (xs @ carve n s @ ys)) {}"
      using L4 True c by (simp add: carve_def guarded_def)
    moreover have "same_outside (writable A N ?gs) ?m ?m4"
    proof -
      have T2: "same_outside (writable A N ?gs) ?m1 ?m2"
        using hdr_x by (intro same_outside_mono [OF S2]) auto
      have "writable A N ?gs2 = writable A N ?gs"
        using sp writable_split(1) [of n s A N ?xs "c # zs"] by simp
      then have T3: "same_outside (writable A N ?gs) ?m2 m3" using S3 by simp
      have T4: "same_outside (writable A N ?gs) m3 ?m4"
        using hdr_x sp by (intro same_outside_mono [OF S4]) auto
      show ?thesis
        by (rule same_outside_chain [OF same_outside_chain [OF same_outside_chain [OF S1 T2] T3] T4])
    qed
    ultimately show ?thesis unfolding g by blast
  next
    case False
    note L2 = lheap_set_flag(1) [OF L1 x' singletonI] and S2 = lheap_set_flag(2) [OF L1 x' singletonI]
    let ?m2 = "st16 (pt (x + 2)) (ld16 ?m1 (pt (x + 2)) OR 0x8000) ?m1"
    have "take_chunk (pt x) (pt n) h = Some (h\<lparr>mm_ram := ?m2\<rparr>)"
      using False rem ge by (simp add: take_chunk_def Let_def del: add_2_eq_Suc')
    moreover have "lheap ?m2 A N (guarded (xs @ carve n s @ ys)) {}"
      using L2 False c by (simp add: carve_def guarded_def)
    moreover have "same_outside (writable A N ?gs) ?m1 ?m2"
      using hdr_x n by (intro same_outside_mono [OF S2]) auto
    then have "same_outside (writable A N ?gs) ?m ?m2" by (rule same_outside_chain [OF S1])
    ultimately show ?thesis unfolding g by blast
  qed
qed

lemma guarded_split:
  assumes "guarded cs = us @ (False, s) # vs"
  obtains xs ys where "us = (True, 4) # xs" "vs = ys @ [(True, 4)]" "cs = xs @ (False, s) # ys"
proof -
  obtain xs where us: "us = (True, 4) # xs" "cs @ [(True, 4)] = xs @ (False, s) # vs"
    using assms by (cases us) (auto simp: guarded_def)
  obtain ys where ys: "vs = ys @ [(True, 4)]"
    using us(2) by (cases vs rule: rev_cases) (auto dest!: arg_cong [of _ _ last])
  then have "cs = xs @ (False, s) # ys" using us(2) by simp
  then show thesis using us(1) ys that by blast
qed

lemma frees_guarded:
  assumes "heap_ok A N cs h" "x \<in> frees A (guarded cs)"
  obtains xs s ys where "cs = xs @ (False, s) # ys" "x = A + 4 + total xs"
    "unat (ld16 (mm_ram h) (pt x)) = s"
proof -
  obtain s where s: "(x, False, s) \<in> set (place A (guarded cs))"
    using assms(2) by (auto simp: frees_def)
  obtain us vs where u: "guarded cs = us @ (False, s) # vs" "x = A + total us"
    using place_split [OF s] by blast
  obtain xs ys where "us = (True, 4) # xs" "cs = xs @ (False, s) # ys"
    using guarded_split [OF u(1)] by metis
  then show thesis
    using that u(2) header_place(1) [OF _ _ s] guarded_facts [OF assms(1)] by simp
qed

lemma frees_guarded_in:
  assumes "heap_ok A N cs h" "(False, t) \<in> set cs"
  shows "\<exists>a \<in> frees A (guarded cs). unat (ld16 (mm_ram h) (pt a)) = t"
proof -
  obtain xs ys where cs: "cs = xs @ (False, t) # ys" using assms(2) by (meson split_list)
  then have p: "(A + 4 + total xs, False, t) \<in> set (place A (guarded cs))"
    by (simp add: guarded_def place_append)
  then show ?thesis
    using header_place(1) [OF _ _ p] guarded_facts [OF assms(1)] by (auto simp: frees_def)
qed

lemma coalesced_carve:
  "coalesced (xs @ (False, s) # ys) \<Longrightarrow> coalesced (xs @ carve n s @ ys)"
  by (cases ys) (auto simp: coalesced_def carve_def successively_append_iff)

lemma mm_malloc_ok:
  assumes H: "heap_ok A N cs h" and n: "13 \<le> n" "n + 19 < 2 ^ 64"
    and fit: "need n < 2 ^ 15 \<or> (\<forall>s. (False, s) \<in> set cs \<longrightarrow> s < need n)"
  shows "(\<exists>u. mm_malloc (pt n) h = Some (0, h\<lparr>g_max_used_size := u\<rparr>) \<and>
      (\<forall>s. (False, s) \<in> set cs \<longrightarrow> s < need n)) \<or>
    (\<exists>xs s ys h'. cs = xs @ (False, s) # ys \<and> need n \<le> s \<and>
      (\<forall>t. (False, t) \<in> set cs \<and> need n \<le> t \<longrightarrow> s \<le> t) \<and>
      mm_malloc (pt n) h = Some (pt (A + 8 + total xs), h') \<and>
      heap_ok A N (xs @ carve (need n) s @ ys) h' \<and>
      same_outside (writable A N (guarded cs)) (mm_ram h) (mm_ram h'))"
proof -
  let ?F = "frees A (guarded cs)" and ?k = "need n" and ?m = "mm_ram h"
  define ndx where "ndx = (if pt ?k \<ge> 0x400000 then 19 - 1 else mm_size2ndx (pt ?k))"
  have ndx: "ndx = (if pt ?k \<ge> 0x400000 then 18 else mm_size2ndx (pt ?k))" by (simp add: ndx_def)
  note k = need_facts(1,2) [of n] need_facts(3) [OF n(1)]
  have k8: "8 dvd ?k" using k(2) by (rule dvd_trans [rotated]) simp
  have k64: "?k < 2 ^ 64" "16 \<le> ?k" using need_facts(4) [of n] n k(3) by linarith+
  have n1: "\<not> pt n < 1" using n by (simp add: word_less_nat_alt)
  obtain L where L: "free_list ?m N ?F L" using lheapD(5) [OF heap_okD(5) [OF H]] by auto
  obtain p where p: "find_fit ?m (pt ?k) (ld64 ?m (pt (N + 24 * ndx + 8))) = Some p"
    and best: "p = 0 \<and> (\<forall>a\<in>?F. unat (ld16 ?m (pt a)) < ?k) \<or>
     (\<exists>x\<in>?F. p = pt x \<and> ?k \<le> unat (ld16 ?m (pt x)) \<and>
        (\<forall>a\<in>?F. ?k \<le> unat (ld16 ?m (pt a)) \<longrightarrow> unat (ld16 ?m (pt x)) \<le> unat (ld16 ?m (pt a))))"
    using find_fit_best [OF L k64(2,1) ndx] by blast
  have nd: "nodelist h ndx + 8 = pt (N + 24 * ndx + 8)"
    by (simp add: nodelist_def heap_okD(4) [OF H]) (simp add: pt_def)
  have malloc: "mm_malloc (pt n) h = do {
      (ret, h) \<leftarrow> (if p \<noteq> 0 then do { h \<leftarrow> take_chunk p (pt ?k) h; Some (p + 4, h) } else Some (0, h));
      h \<leftarrow> mm_max_usedsize_update h;
      Some (ret, h) }"
    by (simp only: mm_malloc_def Let_def MM_ALIGN_UP_need [OF n(2)] ndx_def [symmetric] nd p n1
        if_False Option.bind.simps)
  from best show ?thesis
  proof (elim disjE bexE conjE)
    assume no: "p = 0" "\<forall>a\<in>?F. unat (ld16 ?m (pt a)) < ?k"
    then have "(False, s) \<in> set cs \<longrightarrow> s < ?k" for s
      using frees_guarded_in [OF H] by blast
    then show ?thesis
      using mm_max_usedsize_update_ok [OF H] no(1) malloc by auto
  next
    fix x assume x: "x \<in> ?F" "p = pt x" "?k \<le> unat (ld16 ?m (pt x))"
      and mini: "\<forall>a\<in>?F. ?k \<le> unat (ld16 ?m (pt a)) \<longrightarrow> unat (ld16 ?m (pt x)) \<le> unat (ld16 ?m (pt a))"
    obtain xs s ys where cs: "cs = xs @ (False, s) # ys" "x = A + 4 + total xs"
        "unat (ld16 ?m (pt x)) = s"
      using frees_guarded [OF H x(1)] by metis
    have ks: "?k \<le> s" using x(3) cs(3) by simp
    have k15: "?k < 2 ^ 15" using fit cs(1) ks by force
    obtain m' where m': "take_chunk (pt x) (pt ?k) h = Some (h\<lparr>mm_ram := m'\<rparr>)"
      "lheap m' A N (guarded (xs @ carve ?k s @ ys)) {}"
      "same_outside (writable A N (guarded cs)) ?m m'"
      using take_chunk_ok [OF H [unfolded cs(1)] cs(2), of ?k] k k8 ks k15 cs(1) by auto
    have sizes: "24 \<le> t \<and> 8 dvd t" if "(f, t) \<in> set (xs @ carve ?k s @ ys)" for f t
      using that heap_okD(7) [OF H, of False s] heap_okD(7) [OF H, of f t] k k8 ks cs(1)
      by (auto simp: carve_def split: if_splits) presburger+
    let ?h = "h\<lparr>mm_ram := m'\<rparr>"
    have ok: "heap_ok A N (xs @ carve ?k s @ ys) ?h"
      unfolding heap_ok_def
    proof (intro conjI)
      show "coalesced (xs @ carve ?k s @ ys)"
        using coalesced_carve heap_okD(6) [OF H] cs(1) by simp
      show "\<forall>(f, s)\<in>set (xs @ carve ?k s @ ys). 24 \<le> s \<and> 8 dvd s" using sizes by blast
    qed (use heap_okD(1-4) [OF H] m'(2) ks cs(1) in simp_all)
    obtain u where u: "mm_max_usedsize_update ?h = Some (?h\<lparr>g_max_used_size := u\<rparr>)"
      using mm_max_usedsize_update_ok [OF ok] by blast
    have x0: "pt x \<noteq> 0"
      using guarded_facts(3,4) [OF H] cs by (auto simp: pt_eq_0)
    have "mm_malloc (pt n) h = Some (pt (A + 8 + total xs), ?h\<lparr>g_max_used_size := u\<rparr>)"
    proof -
      have "x + 4 = A + 8 + total xs" using cs(2) by simp
      then have "pt x + 4 = pt (A + 8 + total xs)" by (metis pt_add_num(1))
      then show ?thesis using malloc x(2) x0 m'(1) u by simp
    qed
    moreover have "s \<le> t" if "(False, t) \<in> set cs" "?k \<le> t" for t
      using frees_guarded_in [OF H that(1)] mini that(2) cs(3) by auto
    moreover have "heap_ok A N (xs @ carve ?k s @ ys) (?h\<lparr>g_max_used_size := u\<rparr>)" using ok by simp
    ultimately show ?thesis
      using cs(1) ks m'(3)
      by (intro disjI2 exI [of _ xs] exI [of _ s] exI [of _ ys]
          exI [of _ "?h\<lparr>g_max_used_size := u\<rparr>"]) simp
  qed
qed

section \<open>Release\<close>

text \<open>The freed chunk takes in a free successor, then a free predecessor takes it in.\<close>

definition absorb_next :: "nat \<Rightarrow> chunk list \<Rightarrow> nat \<times> chunk list" where
  "absorb_next s ys = (case ys of (False, t) # zs \<Rightarrow> (s + t, zs) | _ \<Rightarrow> (s, ys))"

definition absorb_prev :: "chunk list \<Rightarrow> nat \<Rightarrow> chunk list \<times> nat" where
  "absorb_prev xs s =
     (if xs \<noteq> [] \<and> \<not> fst (last xs) then (butlast xs, snd (last xs) + s) else (xs, s))"

definition release :: "chunk list \<Rightarrow> nat \<Rightarrow> chunk list \<Rightarrow> chunk list" where
  "release xs s ys =
     (let (s, ys) = absorb_next s ys; (xs, s) = absorb_prev xs s in xs @ (False, s) # ys)"

text \<open>The two merging blocks of \<open>mm_free\<close>.\<close>

definition merge_next :: "ptr \<Rightarrow> mem \<Rightarrow> mem \<times> ptr" where
  "merge_next node m =
     (let nxt = node + ucast (n_size m node) in
      if n_prec m nxt AND 0x8000 = 0 then
        let andbeyond = nxt + ucast (n_size m nxt);
            m = unlink_node nxt m;
            m = set_size node (n_size m node + n_size m nxt) m
        in (set_prec andbeyond (n_size m node OR (n_prec m andbeyond AND 0x8000)) m, andbeyond)
      else (m, nxt))"

definition merge_prev :: "ptr \<Rightarrow> ptr \<Rightarrow> mem \<Rightarrow> mem \<times> ptr" where
  "merge_prev node nxt m =
     (let prev = node - ucast (n_prec m node) in
      if n_prec m prev AND 0x8000 = 0 then
        let m = unlink_node prev m;
            m = set_size prev (n_size m prev + n_size m node) m
        in (set_prec nxt (n_size m prev OR (n_prec m nxt AND 0x8000)) m, prev)
      else (m, node))"

lemma mm_free_merge:
  "mm_free p h =
     (if p = 0 then Some h else
        let node = p - 4;
            m = st16 (node + 2) (ld16 (mm_ram h) (node + 2) AND NOT 0x8000) (mm_ram h);
            (m, nxt) = merge_next node m;
            (m, node) = merge_prev node nxt m
        in mm_addfreechunk node (h\<lparr>mm_ram := m\<rparr>))"
  by (simp add: mm_free_def merge_next_def merge_prev_def Let_def)

lemma lheap_next_flag:
  assumes "lheap m A N (xs @ (f, s) # c # zs) X" "x = A + total xs"
  shows "ld16 m (pt x) = of_nat s" "ld16 m (pt (x + 2)) = of_nat (lsize 0 xs) OR alloc_bit f"
    "ld16 m (pt (x + s)) = of_nat (snd c)" "ld16 m (pt (x + s + 2)) AND 0x8000 = alloc_bit (fst c)"
    "s < 2 ^ 16" "snd c < 2 ^ 16"
proof -
  note D = lheapD [OF assms(1)]
  have T: "tiled m x (lsize 0 xs) [(f, s), c]"
    using D(3) by (simp add: tiled_append assms(2))
  have "s < 2 ^ 15 \<or> fst c" using D(2) by (auto simp: chunks_ok_def successively_append_iff)
  then show "ld16 m (pt x) = of_nat s" "ld16 m (pt (x + 2)) = of_nat (lsize 0 xs) OR alloc_bit f"
    "ld16 m (pt (x + s)) = of_nat (snd c)" "ld16 m (pt (x + s + 2)) AND 0x8000 = alloc_bit (fst c)"
    using T alloc_bit_of [of s "fst c"] by (simp_all add: header_def del: add_2_eq_Suc')
  show "s < 2 ^ 16" "snd c < 2 ^ 16" using D(2) by (auto simp: chunks_ok_def)
qed

lemma merge_next_ok:
  assumes H: "lheap m A N (xs @ (False, s) # c # zs) {x}" and x: "x = A + total xs"
    and absorb: "(t, ds) = absorb_next s (c # zs)" and ds: "ds \<noteq> []"
    and ok: "chunks_ok (xs @ (False, t) # ds)"
  shows "\<exists>m'. merge_next (pt x) m = (m', pt (x + t)) \<and> lheap m' A N (xs @ (False, t) # ds) {x} \<and>
    same_outside (writable A N (xs @ (False, s) # c # zs)) m m'"
proof -
  let ?gs = "xs @ (False, s) # c # zs"
  note N = lheap_next_flag [OF H x]
  show ?thesis
  proof (cases "fst c")
    case True
    then have "t = s" "ds = c # zs" using absorb by (cases c; auto simp: absorb_next_def)+
    then show ?thesis
      using N True H by (auto simp: merge_next_def Let_def ucast_pt alloc_bit_def simp del: add_2_eq_Suc')
  next
    case False
    then obtain u where c: "c = (False, u)" by (cases c) auto
    then have t: "t = s + u" "ds = zs" using absorb by (auto simp: absorb_next_def)
    then obtain d es where zs: "zs = d # es" using ds by (cases zs) auto
    have s24: "24 \<le> s" "24 \<le> u" using lheapD(2) [OF H] c by (auto simp: chunks_ok_def)
    have nf: "x + s \<in> frees A ?gs" "x + s \<notin> {x}"
      using s24 by (auto simp: frees_append c x)
    let ?m1 = "unlink_node (pt (x + s)) m"
    have L1: "lheap ?m1 A N (xs @ (False, s) # (False, u) # d # es) {x + s, x}"
      and S1: "same_outside (writable A N ?gs) m ?m1"
      using lheap_unlink [OF H nf] c zs by auto
    note L2 = lheap_merge(1) [OF L1 x _ _ ok [unfolded t zs]]
      and S2 = lheap_merge(2) [OF L1 x _ _ ok [unfolded t zs]]
    let ?m2 = "st16 (pt x) (ld16 ?m1 (pt x) + ld16 ?m1 (pt (x + s))) ?m1"
    let ?m3 = "st16 (pt (x + s + u + 2))
      (ld16 ?m2 (pt x) OR (ld16 ?m2 (pt (x + s + u + 2)) AND 0x8000)) ?m2"
    have "merge_next (pt x) m = (?m3, pt (x + t))"
      using N c t by (simp add: merge_next_def Let_def ucast_pt alloc_bit_def add.assoc del: add_2_eq_Suc')
    moreover have "lheap ?m3 A N (xs @ (False, t) # ds) {x}"
      using L2 s24 by (simp add: t zs insert_Diff_if)
    moreover have "same_outside (writable A N ?gs) ?m1 ?m3"
      using lheapD(2) [OF L1] s24
      by (intro same_outside_mono [OF S2])
         (auto simp: writable_append writable_Cons c zs x chunks_ok_def split: prod.splits)
    then have "same_outside (writable A N ?gs) m ?m3" by (rule same_outside_chain [OF S1])
    ultimately show ?thesis by blast
  qed
qed

lemma merge_prev_ok:
  assumes H: "lheap m A N (xs @ (False, s) # c # zs) {x}" and x: "x = A + total xs"
    and xs: "xs = us @ [(f, u)]"
    and absorb: "(vs, t) = absorb_prev xs s" and ok: "chunks_ok (vs @ (False, t) # c # zs)"
  shows "\<exists>m'. merge_prev (pt x) (pt (x + s)) m = (m', pt (A + total vs)) \<and>
    lheap m' A N (vs @ (False, t) # c # zs) {A + total vs} \<and>
    same_outside (writable A N (xs @ (False, s) # c # zs)) m m'"
proof -
  let ?gs = "xs @ (False, s) # c # zs" and ?w = "A + total us"
  have H': "lheap m A N (us @ (f, u) # (False, s) # c # zs) {x}" using H xs by simp
  have xw: "x = ?w + u" using x xs by simp
  note P = lheap_next_flag [OF H' refl] and Q = lheap_next_flag [OF H x]
  have "lsize 0 us < 2 ^ 15 \<or> f"
    using lheapD(2) [OF H'] by (auto simp: chunks_ok_def successively_append_iff lsize_def)
  then have fl: "ld16 m (pt (?w + 2)) AND 0x8000 = alloc_bit f" using P(2) alloc_bit_of by simp
  have "ld16 m (pt (x + 2)) = of_nat u" using Q(2) xs by (simp add: alloc_bit_def)
  then have prev: "pt x - ucast (ld16 m (pt (x + 2))) = pt ?w"
    using P(5) by (simp add: ucast_pt pt_sub xw)
  show ?thesis
  proof (cases f)
    case True
    then have "vs = xs" "t = s" using absorb xs by (auto simp: absorb_prev_def)
    then show ?thesis
      using prev fl True H x by (auto simp: merge_prev_def Let_def alloc_bit_def simp del: add_2_eq_Suc')
  next
    case False
    then have t: "vs = us" "t = u + s" using absorb xs by (auto simp: absorb_prev_def)
    have s24: "24 \<le> s" "24 \<le> u" using lheapD(2) [OF H'] False by (auto simp: chunks_ok_def)
    have H'': "lheap m A N (us @ (False, u) # (False, s) # c # zs) {x}" using H' False by simp
    have nf: "?w \<in> frees A (us @ (False, u) # (False, s) # c # zs)" "?w \<notin> {x}"
      using s24 xw by (auto simp: frees_append)
    let ?m1 = "unlink_node (pt ?w) m"
    have g: "?gs = us @ (False, u) # (False, s) # c # zs" using xs False by simp
    have L1: "lheap ?m1 A N (us @ (False, u) # (False, s) # c # zs) {?w, x}"
      and S1: "same_outside (writable A N ?gs) m ?m1"
      using lheap_unlink [OF H'' nf] unfolding g by auto
    have mem: "?w \<in> {?w, x}" "?w + u \<in> {?w, x}" using xw by auto
    have ok': "chunks_ok (us @ (False, u + s) # c # zs)" using ok t by simp
    note L2 = lheap_merge(1) [OF L1 refl mem ok'] and S2 = lheap_merge(2) [OF L1 refl mem ok']
    let ?m2 = "st16 (pt ?w) (ld16 ?m1 (pt ?w) + ld16 ?m1 (pt (?w + u))) ?m1"
    let ?m3 = "st16 (pt (?w + u + s + 2))
      (ld16 ?m2 (pt ?w) OR (ld16 ?m2 (pt (?w + u + s + 2)) AND 0x8000)) ?m2"
    have "merge_prev (pt x) (pt (x + s)) m = (?m3, pt ?w)"
      using prev fl False
      by (simp add: merge_prev_def Let_def alloc_bit_def xw add.assoc del: add_2_eq_Suc')
    moreover have "lheap ?m3 A N (us @ (False, u + s) # c # zs) {?w}"
      using L2 s24 xw by (simp add: insert_Diff_if)
    moreover have "same_outside (writable A N ?gs) ?m1 ?m3"
      using lheapD(2) [OF L1] s24
      by (intro same_outside_mono [OF S2])
         (auto simp: writable_append writable_Cons g chunks_ok_def add.assoc split: prod.splits)
    then have "same_outside (writable A N ?gs) m ?m3" by (rule same_outside_chain [OF S1])
    ultimately show ?thesis unfolding t by blast
  qed
qed

lemma absorb_next_guarded:
  "absorb_next s (ys @ [(True, 4)]) = (case absorb_next s ys of (t, ds) \<Rightarrow> (t, ds @ [(True, 4)]))"
  by (cases ys) (auto simp: absorb_next_def split: bool.splits)

lemma absorb_prev_guarded:
  "absorb_prev ((True, 4) # xs) s = (case absorb_prev xs s of (vs, t) \<Rightarrow> ((True, 4) # vs, t))"
  by (auto simp: absorb_prev_def)

lemma release_guarded:
  assumes "(t, ds) = absorb_next s ys" "(vs, r) = absorb_prev xs t"
  shows "release xs s ys = vs @ (False, r) # ds"
    "guarded (release xs s ys) = ((True, 4) # vs) @ (False, r) # ds @ [(True, 4)]"
  using assms by (simp_all add: release_def guarded_def flip: assms)

lemma total_release [simp]: "total (release xs s ys) = total xs + s + total ys"
proof -
  obtain t ds where a: "(t, ds) = absorb_next s ys" by (metis surj_pair)
  obtain vs r where b: "(vs, r) = absorb_prev xs t" by (metis surj_pair)
  have "t + total ds = s + total ys"
    using a by (cases ys) (auto simp: absorb_next_def split: bool.splits)
  moreover have "total vs + r = total xs + t"
    using b by (cases xs rule: rev_cases) (auto simp: absorb_prev_def split: if_splits)
  ultimately show ?thesis using release_guarded(1) [OF a b] by simp
qed

lemma chunks_ok_join:
  assumes "chunks_ok ps" "chunks_ok qs" "ps \<noteq> []" "qs \<noteq> []" "24 \<le> t" "t < 2 ^ 16"
    "snd (last ps) < 2 ^ 15" "t < 2 ^ 15 \<or> fst (hd qs)"
  shows "chunks_ok (ps @ (False, t) # qs)"
  using assms by (cases qs) (auto simp: chunks_ok_def successively_append_iff)

lemma absorb_next_facts:
  assumes "coalesced ((f, s) # ys)" "(t, ds) = absorb_next s ys" "chunks_ok (ys @ [(True, 4)])"
    "\<forall>(f, s) \<in> set ys. 24 \<le> s \<and> 8 dvd s" "8 dvd s"
  shows "fst (hd (ds @ [(True, 4)]))" "chunks_ok (ds @ [(True, 4)])" "s \<le> t" "coalesced ds" "8 dvd t"
    "\<forall>(f, s) \<in> set ds. 24 \<le> s \<and> 8 dvd s"
proof -
  have "ys = (False, t - s) # ds \<and> t = s + (t - s) \<and> 24 \<le> t - s \<and> 8 dvd t - s \<or>
    ys = ds \<and> t = s \<and> (ys = [] \<or> fst (hd ys))"
    using assms(2,4) by (cases ys) (auto simp: absorb_next_def split: bool.splits)
  then show "fst (hd (ds @ [(True, 4)]))" "chunks_ok (ds @ [(True, 4)])" "s \<le> t" "coalesced ds" "8 dvd t"
    "\<forall>(f, s) \<in> set ds. 24 \<le> s \<and> 8 dvd s"
    using assms chunks_ok_append(2) [of "[(False, t - s)]" "ds @ [(True, 4)]"]
    by (cases ds; auto simp: coalesced_def)+
qed

lemma absorb_prev_facts:
  assumes "coalesced xs" "(vs, r) = absorb_prev xs t" "chunks_ok ((True, 4) # xs)"
    "\<forall>(f, s) \<in> set xs. 24 \<le> s \<and> 8 dvd s" "8 dvd t" "24 \<le> t" "lsize 4 xs < 2 ^ 15"
  shows "fst (last ((True, 4) # vs))" "chunks_ok ((True, 4) # vs)" "coalesced vs" "8 dvd r" "24 \<le> r"
    "\<forall>(f, s) \<in> set vs. 24 \<le> s \<and> 8 dvd s" "snd (last ((True, 4) # vs)) < 2 ^ 15"
proof -
  consider u where "xs = vs @ [(False, u)]" "r = u + t" | "xs = vs" "r = t" "xs = [] \<or> fst (last xs)"
    using assms(2) by (cases xs rule: rev_cases) (auto simp: absorb_prev_def split: if_splits)
  then have "fst (last ((True, 4) # vs)) \<and> chunks_ok ((True, 4) # vs) \<and> coalesced vs \<and> 8 dvd r \<and> 24 \<le> r \<and>
    (\<forall>(f, s) \<in> set vs. 24 \<le> s \<and> 8 dvd s) \<and> snd (last ((True, 4) # vs)) < 2 ^ 15"
  proof cases
    case 1
    then have g: "(True, 4) # xs = ((True, 4) # vs) @ [(False, u)]" by simp
    have "chunks_ok ((True, 4) # vs)" using assms(3) unfolding g by (rule chunks_ok_append)
    moreover have "snd (last ((True, 4) # vs)) < 2 ^ 15"
      using assms(3) unfolding g chunks_ok_def successively_append_iff by simp
    ultimately show ?thesis
      using assms(1,4,5,6) 1 by (cases vs rule: rev_cases) (auto simp: coalesced_def successively_append_iff)
  next
    case 2
    then show ?thesis using assms by (auto simp: lsize_def)
  qed
  then show "fst (last ((True, 4) # vs))" "chunks_ok ((True, 4) # vs)" "coalesced vs" "8 dvd r" "24 \<le> r"
    "\<forall>(f, s) \<in> set vs. 24 \<le> s \<and> 8 dvd s" "snd (last ((True, 4) # vs)) < 2 ^ 15"
    by blast+
qed

lemma mm_free_ok:
  assumes H: "heap_ok A N (xs @ (True, s) # ys) h" and prev: "lsize 4 xs < 2 ^ 15"
    and fits: "\<forall>c \<in> set (release xs s ys). snd c < 2 ^ 16"
  shows "\<exists>m'. mm_free (pt (A + 8 + total xs)) h = Some (h\<lparr>mm_ram := m'\<rparr>) \<and>
    heap_ok A N (release xs s ys) (h\<lparr>mm_ram := m'\<rparr>) \<and>
    same_outside (writable A N (guarded (xs @ (False, s) # ys))) (mm_ram h) m'"
proof -
  let ?X = "(True, 4) # xs" and ?G = "[(True, 4)]" and ?m = "mm_ram h"
  define x where "x = A + total ?X"
  obtain t ds where a: "(t, ds) = absorb_next s ys" by (metis surj_pair)
  obtain vs r where b: "(vs, r) = absorb_prev xs t" by (metis surj_pair)
  obtain c zs where c: "ys @ ?G = c # zs" by (cases ys) auto
  obtain d es where d: "ds @ ?G = d # es" by (cases ds) auto
  have g0: "guarded (xs @ (True, s) # ys) = ?X @ (True, s) # c # zs"
    and g1: "guarded (xs @ (False, s) # ys) = ?X @ (False, s) # c # zs"
    using c by (simp_all add: guarded_def)
  note L0 = heap_okD(5) [OF H, unfolded g0]
  have sizes: "24 \<le> s" "8 dvd s" "\<forall>(f, s) \<in> set xs. 24 \<le> s \<and> 8 dvd s" "\<forall>(f, s) \<in> set ys. 24 \<le> s \<and> 8 dvd s"
    using heap_okD(7) [OF H] by auto
  have co: "coalesced xs" "coalesced ((True, s) # ys)"
    using heap_okD(6) [OF H] by (auto simp: coalesced_def successively_append_iff)
  have okX: "chunks_ok ?X" using lheapD(2) [OF L0] by (rule chunks_ok_append)
  have okS: "chunks_ok ((True, s) # c # zs)" using lheapD(2) [OF L0] by (rule chunks_ok_append)
  have okY: "chunks_ok (ys @ ?G)" using chunks_ok_append(2) [of "[(True, s)]" "c # zs"] okS c by simp
  have s16: "s < 2 ^ 16" and sc: "s < 2 ^ 15 \<or> fst c" using okS by (auto simp: chunks_ok_def)
  note N = absorb_next_facts [OF co(2) a okY sizes(4,2)]
  have t24: "24 \<le> t" using N(3) sizes(1) by simp
  note P = absorb_prev_facts [OF co(1) b okX sizes(3) N(5) t24 prev]
  have rel: "release xs s ys = vs @ (False, r) # ds"
    "guarded (release xs s ys) = ((True, 4) # vs) @ (False, r) # d # es"
    using release_guarded [OF a b] d by simp_all
  have r16: "r < 2 ^ 16" using fits rel(1) by simp
  have "t \<le> r" using b by (auto simp: absorb_prev_def split: if_splits)
  then have t16: "t < 2 ^ 16" using r16 by simp
  have lX: "snd (last ?X) < 2 ^ 15" using prev by (auto simp: lsize_def)
  have ok1: "chunks_ok (?X @ (False, s) # c # zs)"
    using chunks_ok_join [OF okX okY _ _ sizes(1) s16 lX] sc c by simp
  have ok2: "chunks_ok (?X @ (False, t) # d # es)"
    using chunks_ok_join [OF okX N(2) _ _ t24 t16 lX] N(1) d by simp
  have ok3: "chunks_ok (((True, 4) # vs) @ (False, r) # d # es)"
    using chunks_ok_join [OF P(2) N(2) _ _ P(5) r16 P(7)] N(1) d by simp
  let ?m1 = "st16 (pt (x + 2)) (ld16 ?m (pt (x + 2)) AND NOT 0x8000) ?m"
  note L1 = lheap_clear_flag(1) [OF L0 x_def ok1] and S1 = lheap_clear_flag(2) [OF L0 x_def ok1]
  have absN: "(t, d # es) = absorb_next s (c # zs)"
    using absorb_next_guarded [of s ys] a c d by (simp split: prod.splits)
  obtain m2 where m2: "merge_next (pt x) ?m1 = (m2, pt (x + t))"
    "lheap m2 A N (?X @ (False, t) # d # es) {x}"
    "same_outside (writable A N (?X @ (False, s) # c # zs)) ?m1 m2"
    using merge_next_ok [OF L1 x_def absN _ ok2] by auto
  have absP: "((True, 4) # vs, r) = absorb_prev ?X t"
    using absorb_prev_guarded [of xs t] b by (simp split: prod.splits)
  obtain us f u where us: "?X = us @ [(f, u)]"
    by (metis list.distinct(1) prod.exhaust rev_exhaust)
  let ?w = "A + total ((True, 4) # vs)"
  obtain m3 where m3: "merge_prev (pt x) (pt (x + t)) m2 = (m3, pt ?w)"
    "lheap m3 A N (((True, 4) # vs) @ (False, r) # d # es) {?w}"
    "same_outside (writable A N (?X @ (False, t) # d # es)) m2 m3"
    using merge_prev_ok [OF m2(2) x_def us absP ok3] by blast
  obtain m4 where m4: "mm_addfreechunk (pt ?w) (h\<lparr>mm_ram := m3\<rparr>) = Some (h\<lparr>mm_ram := m4\<rparr>)"
    "lheap m4 A N (((True, 4) # vs) @ (False, r) # d # es) {}"
    "same_outside (writable A N (((True, 4) # vs) @ (False, r) # d # es)) m3 m4"
    using lheap_link [of "h\<lparr>mm_ram := m3\<rparr>" A N "((True, 4) # vs) @ (False, r) # d # es" "{?w}" ?w]
      m3(2) heap_okD(4) [OF H] by auto
  have W2: "writable A N (?X @ (False, t) # d # es) = writable A N (?X @ (False, s) # c # zs)"
    using absN writable_split(2) [of A N ?X s _ "d # es"]
    by (cases c) (auto simp: absorb_next_def split: bool.splits)
  have W3: "writable A N (((True, 4) # vs) @ (False, r) # d # es) =
      writable A N (?X @ (False, t) # d # es)"
    using b writable_split(2) [of A N "(True, 4) # vs" _ t "d # es"]
    by (cases xs rule: rev_cases) (auto simp: absorb_prev_def split: if_splits)
  have "{x + 2..<x + 4} \<subseteq> writable A N (?X @ (False, s) # c # zs)"
    using sizes(1) by (auto simp: writable_append writable_Cons x_def)
  note T1 = same_outside_mono [OF S1 this]
  have "mm_free (pt (A + 8 + total xs)) h = Some (h\<lparr>mm_ram := m4\<rparr>)"
  proof -
    have e: "A + 8 + total xs = x + 4" by (simp add: x_def)
    have "x + 4 < 2 ^ 64"
      using guarded_facts(3) [OF H] sizes(1) by (simp add: x_def)
    then have "pt (x + 4) \<noteq> 0" by (simp add: pt_eq_0)
    moreover have "pt (x + 4) - 4 = pt x" by (simp add: pt_sub_num)
    ultimately show ?thesis
      unfolding e using m2(1) m3(1) m4(1) by (simp add: mm_free_merge del: add_2_eq_Suc')
  qed
  moreover have "heap_ok A N (release xs s ys) (h\<lparr>mm_ram := m4\<rparr>)"
    unfolding heap_ok_def
  proof (intro conjI)
    show "coalesced (release xs s ys)"
      unfolding rel(1) using P(1,3) N(1,4)
      by (cases ds; cases vs rule: rev_cases) (auto simp: coalesced_def successively_append_iff)
    show "\<forall>(f, s) \<in> set (release xs s ys). 24 \<le> s \<and> 8 dvd s"
      unfolding rel(1) using P(4,5,6) N(6) by auto
    show "lheap (mm_ram (h\<lparr>mm_ram := m4\<rparr>)) A N (guarded (release xs s ys)) {}"
      using m4(2) rel(2) by simp
  qed (use heap_okD(1-4) [OF H] in \<open>simp_all add: add.assoc\<close>)
  moreover have "same_outside (writable A N (guarded (xs @ (False, s) # ys))) ?m m4"
    unfolding g1
    using same_outside_chain [OF same_outside_chain [OF same_outside_chain [OF T1 m2(3)]
        m3(3) [unfolded W2]] m4(3) [unfolded W3 W2]] .
  ultimately show ?thesis by blast
qed

end
