(* ===== verification/Mm_Init.thy ===== *)
theory Mm_Init
  imports Mm_Ok
begin

text \<open>
  Initialisation of the heap: \<open>mm_heap_initialize\<close> on any memory gives one free chunk between
  two guards, and the list heads linked in order.
\<close>

section \<open>The list heads\<close>

lemma pt_num: "24 * of_nat i = pt (24 * i)"
  by (simp add: pt_def)

lemma link_heads_step:
  "link_heads (pt N) (Suc k) (Suc n) m = link_heads (pt N) (Suc (Suc k)) n
     (st64 (pt (N + 24 * Suc k + 16)) (pt (N + 24 * k))
       (st64 (pt (N + 24 * k + 8)) (pt (N + 24 * Suc k)) m))"
  by (simp only: link_heads.simps pt_num pt_add pt_add_num diff_Suc_1)

lemma link_heads_links:
  assumes "k + n \<le> 18" and ap: "apart (heads N)"
  shows "same_outside (links (heads N)) m (link_heads (pt N) (Suc k) n m) \<and>
    (\<forall>j < 19. ld64 (link_heads (pt N) (Suc k) n m) (pt (N + 24 * j + 8)) =
       (if k \<le> j \<and> j < k + n then pt (N + 24 * Suc j) else ld64 m (pt (N + 24 * j + 8))) \<and>
     ld64 (link_heads (pt N) (Suc k) n m) (pt (N + 24 * j + 16)) =
       (if k < j \<and> j \<le> k + n then pt (N + 24 * (j - 1)) else ld64 m (pt (N + 24 * j + 16))))"
  using assms(1)
proof (induction n arbitrary: k m)
  case (Suc n)
  define m1 where "m1 = st64 (pt (N + 24 * Suc k + 16)) (pt (N + 24 * k))
    (st64 (pt (N + 24 * k + 8)) (pt (N + 24 * Suc k)) m)"
  have k: "k < 19" "Suc k < 19" using Suc.prems by simp_all
  have S1: "same_outside (links (heads N)) m m1"
    unfolding m1_def
    by (rule same_outside_chain [OF st_link_outside(1) [OF head_in [OF k(1)] ap]
          st_link_outside(2) [OF head_in [OF k(2)] ap]])
  have ld: "ld64 m1 (pt (N + 24 * j + 8)) = (if j = k then pt (N + 24 * Suc k) else ld64 m (pt (N + 24 * j + 8)))"
    "ld64 m1 (pt (N + 24 * j + 16)) = (if j = Suc k then pt (N + 24 * k) else ld64 m (pt (N + 24 * j + 16)))"
    if "j < 19" for j
    unfolding m1_def
    using ld_link [OF head_in [OF that] head_in [OF k(1)] ap]
      ld_link [OF head_in [OF that] head_in [OF k(2)] ap] by auto
  have IH: "same_outside (links (heads N)) m1 (link_heads (pt N) (Suc (Suc k)) n m1)"
    "\<And>j. j < 19 \<Longrightarrow> ld64 (link_heads (pt N) (Suc (Suc k)) n m1) (pt (N + 24 * j + 8)) =
       (if Suc k \<le> j \<and> j < Suc k + n then pt (N + 24 * Suc j) else ld64 m1 (pt (N + 24 * j + 8)))"
    "\<And>j. j < 19 \<Longrightarrow> ld64 (link_heads (pt N) (Suc (Suc k)) n m1) (pt (N + 24 * j + 16)) =
       (if Suc k < j \<and> j \<le> Suc k + n then pt (N + 24 * (j - 1)) else ld64 m1 (pt (N + 24 * j + 16)))"
    using Suc.IH [of "Suc k" m1] Suc.prems by auto
  show ?case
    unfolding link_heads_step m1_def [symmetric]
  proof (intro conjI allI impI)
    show "same_outside (links (heads N)) m (link_heads (pt N) (Suc (Suc k)) n m1)"
      by (rule same_outside_chain [OF S1 IH(1)])
    fix j :: nat assume j: "j < 19"
    show "ld64 (link_heads (pt N) (Suc (Suc k)) n m1) (pt (N + 24 * j + 8)) =
       (if k \<le> j \<and> j < k + Suc n then pt (N + 24 * Suc j) else ld64 m (pt (N + 24 * j + 8)))"
      unfolding IH(2) [OF j] ld(1) [OF j] by auto
    show "ld64 (link_heads (pt N) (Suc (Suc k)) n m1) (pt (N + 24 * j + 16)) =
       (if k < j \<and> j \<le> k + Suc n then pt (N + 24 * (j - 1)) else ld64 m (pt (N + 24 * j + 16)))"
      unfolding IH(3) [OF j] ld(2) [OF j] by auto
  qed
qed auto

lemma linked_upt:
  assumes "\<And>j. i \<le> j \<Longrightarrow> j < n \<Longrightarrow> fl (f j) = pt (f (Suc j)) \<and> bl (f (Suc j)) = pt (f j)"
    "fl (f n) = 0" "i \<le> n"
  shows "linked fl bl (map f [i..<Suc n])"
  using assms(3,1)
proof (induction rule: inc_induct)
  case base
  then show ?case using assms(2) by simp
next
  case (step k)
  have e: "[k..<Suc n] = k # [Suc k..<Suc n]" "[Suc k..<Suc n] = Suc k # [Suc (Suc k)..<Suc n]"
    using step.hyps upt_conv_Cons [of k "Suc n"] upt_conv_Cons [of "Suc k" "Suc n"]
    by (simp_all del: upt_Suc)
  have "linked fl bl (map f [Suc k..<Suc n])" using step by (simp del: upt_Suc)
  then show ?case using step.prems [of k] step.hyps unfolding e by (simp del: upt_Suc)
qed

lemma heads_apart:
  assumes "0 < N" "N + 456 \<le> 2 ^ 64"
  shows "apart (heads N)"
  unfolding apart_def
proof (intro ballI conjI impI)
  fix a b assume a: "a \<in> heads N" and b: "b \<in> heads N" and ne: "a \<noteq> b"
  obtain i j where ij: "a = N + 24 * i" "b = N + 24 * j" using a b by (auto simp: heads_def)
  moreover have "i < j \<or> j < i" using ne ij by auto
  ultimately show "a + 24 \<le> b \<or> b + 24 \<le> a" by auto
next
  fix a assume "a \<in> heads N"
  then show "0 < a" "a + 24 \<le> 2 ^ 64" using heads_bounds [of a N] assms by auto
qed

lemma pt_diff_less:
  assumes "N + n \<le> 2 ^ 64" "a < 2 ^ 64" "n < 2 ^ 64" "N < 2 ^ 64"
  shows "pt a - pt N < pt n \<longleftrightarrow> N \<le> a \<and> a < N + n"
proof -
  have u: "unat (pt a - pt N) = (if N \<le> a then a - N else 2 ^ 64 + a - N)"
    using assms unat_sub_if_size [of "pt a" "pt N"] by (auto simp: word_size not_le)
  show ?thesis
    using assms u by (auto simp: word_less_nat_alt)
qed

lemma mem_set_pt:
  assumes "N + n \<le> 2 ^ 64" "a < 2 ^ 64" "n < 2 ^ 64" "N < 2 ^ 64"
  shows "mem_set (pt N) c (pt n) m (pt a) = (if N \<le> a \<and> a < N + n then c else m (pt a))"
  using pt_diff_less [OF assms] by (simp add: mem_set_def)

lemma load_zero: "(\<And>i. i < n \<Longrightarrow> m (pt (a + i)) = 0) \<Longrightarrow> load n m (pt a) = 0"
proof (induction n arbitrary: a)
  case (Suc n)
  have "load n m (pt (Suc a)) = 0"
    by (rule Suc.IH) (use Suc.prems [of "Suc _"] in simp)
  then show ?case using Suc.prems [of 0] by simp
qed simp

lemma free_list_heads:
  fixes m :: mem
  assumes N: "0 < N" "N + 456 \<le> 2 ^ 64"
  defines "m1 \<equiv> mem_set (pt N) 0 (24 * of_nat 19) m"
  defines "m2 \<equiv> link_heads (pt N) 1 (19 - 1) m1"
  shows "free_list m2 N {} (map (\<lambda>i. N + 24 * i) [0..<19])"
proof -
  have ap: "apart (heads N)" by (rule heads_apart [OF N])
  have z: "m1 (pt a) = 0" if "N \<le> a" "a < N + 456" for a
    using mem_set_pt [of N 456 a 0 m] that N(2) pt_num [of 19] unfolding m1_def by simp
  have ldz: "ld64 m1 (pt (N + 24 * j + k)) = 0" "ld16 m1 (pt (N + 24 * j)) = 0" if "j < 19" "k \<le> 16" for j k
    unfolding ld64_def ld16_def
    by (rule arg_cong [of _ 0 of_nat, simplified], rule load_zero, rule z; use that in simp)+
  have L: "same_outside (links (heads N)) m1 m2"
    "\<And>j. j < 19 \<Longrightarrow> ld64 m2 (pt (N + 24 * j + 8)) = (if j < 18 then pt (N + 24 * Suc j) else 0)"
    "\<And>j. j < 19 \<Longrightarrow> ld64 m2 (pt (N + 24 * j + 16)) = (if 0 < j then pt (N + 24 * (j - 1)) else 0)"
    using link_heads_links [of 0 18 N m1, OF _ ap] ldz(1) [of _ 8] ldz(1) [of _ 16] ldz(1) [of 0 16]
    by (auto simp: m2_def)
  have s: "set (map (\<lambda>i. N + 24 * i) [0..<19]) = heads N" by (auto simp: heads_def)
  have "dll m2 (map (\<lambda>i. N + 24 * i) [0..<Suc 18])"
    unfolding dll_def
  proof (rule linked_upt)
    show "ld64 m2 (pt (N + 24 * 18 + 8)) = 0" using L(2) [of 18] by simp
  qed (use L(2,3) in \<open>simp_all del: mult_Suc_right\<close>)
  then have "dll m2 (map (\<lambda>i. N + 24 * i) [0..<19])" by simp
  moreover have "map (rank N m2) (map (\<lambda>i. N + 24 * i) [0..<19]) = map (\<lambda>i. 32 * 2 ^ i) [0..<19]"
    by (rule nth_equalityI) (auto simp del: upt_Suc)
  then have "sorted (map (rank N m2) (map (\<lambda>i. N + 24 * i) [0..<19]))"
    by (simp only:) (auto simp: sorted_map sorted_wrt_iff_nth_less simp del: upt_Suc)
  moreover have "ld16 m2 (pt a) = 0" if "a \<in> heads N" for a
    using size_links [OF ap that L(1)] ldz(2) [of _ 0] that by (auto simp: heads_def)
  ultimately show ?thesis
    unfolding free_list_def using ap s
    by (auto simp: distinct_map inj_on_def simp del: upt_Suc)
qed

section \<open>The region\<close>

lemma mm_initialize_ok:
  fixes A E T N lo sz :: nat
  defines "A \<equiv> 16 * ((lo + 15) div 16)" and "E \<equiv> 16 * ((lo + sz) div 16)"
  defines "T \<equiv> E - A - 8"
  assumes lo: "0 < lo" "lo + sz + 15 < 2 ^ 64" and size: "A + 32 \<le> E" "E < A + 2 ^ 16 + 8"
    and N: "0 < N" "N + 456 \<le> 2 ^ 64" "N + 456 \<le> A \<or> E \<le> N" and nl: "mm_nodelist h = pt N"
  shows "\<exists>m. mm_initialize (pt lo) (pt sz) h =
      Some (h\<lparr>mm_heapsize := pt (T + 8), mm_heapstart := pt A, mm_heapend := pt (A + 4 + T),
        mm_ram := m\<rparr>) \<and>
    heap_ok A N [(False, T)] (h\<lparr>mm_heapsize := pt (T + 8), mm_heapstart := pt A,
        mm_heapend := pt (A + 4 + T), mm_ram := m\<rparr>)"
proof -
  let ?gs = "[(True, 4), (False, T), (True, 4)]" and ?L = "map (\<lambda>i. N + 24 * i) [0..<19]"
  define m2 where "m2 = link_heads (pt N) 1 (19 - 1) (mem_set (pt N) 0 (24 * of_nat 19) (mm_ram h))"
  define m3 where "m3 = st16 (pt (A + 6)) 4 (st16 (pt (A + 4)) (of_nat T)
    (st16 (pt (A + 2)) 0x8000 (st16 (pt A) 4 m2)))"
  define m4 where "m4 = st16 (pt (A + 4 + T)) 4 m3"
  define m5 where "m5 = st16 (pt (A + 6 + T)) (ld16 m4 (pt (A + 4)) OR 0x8000) m4"
  have A: "0 < A" "E < 2 ^ 64" using lo by (auto simp: A_def E_def)
  have T: "24 \<le> T" "T < 2 ^ 16" "E = A + T + 8" "8 dvd T"
  proof -
    show "24 \<le> T" "T < 2 ^ 16" "E = A + T + 8" using size by (auto simp: T_def)
    have "8 dvd A" "8 dvd E" by (auto simp: A_def E_def)
    then show "8 dvd T" by (simp add: T_def)
  qed
  have lay: "layout A N ?gs" using A N T by (auto simp: layout_def)
  have ok: "chunks_ok ?gs" using T by (auto simp: chunks_ok_def)
  let ?S = "{A..<A + 8} \<union> {A + 4 + T..<A + 8 + T}"
  have so: "same_outside ?S m2 m5"
    unfolding m5_def m4_def m3_def
    by (intro same_outside_st16 same_outside_refl) (use A T in auto)
  have ld4: "ld16 m4 (pt (A + 4)) = of_nat T"
    unfolding m4_def m3_def using A T by (simp add: ld_st_other(1) del: add_2_eq_Suc')
  have ld: "ld16 m5 (pt A) = 4" "ld16 m5 (pt (A + 2)) = 0x8000" "ld16 m5 (pt (A + 4)) = of_nat T"
    "ld16 m5 (pt (A + 6)) = 4" "ld16 m5 (pt (A + 4 + T)) = 4"
    "ld16 m5 (pt (A + 6 + T)) = of_nat T OR 0x8000"
    unfolding m5_def ld4 unfolding m4_def m3_def
    using A T by (simp_all add: ld_st_other(1) del: add_2_eq_Suc')
  have tiled: "tiled m5 A 0 ?gs"
    using ld by (simp add: header_def alloc_bit_def ac_simps del: add_2_eq_Suc')
  have fl: "free_list m5 N {} ?L"
  proof (rule free_list_same [OF _ so])
    show "free_list m2 N {} ?L" unfolding m2_def by (rule free_list_heads [OF N(1,2)])
    show "({a..<a + 2} \<union> {a + 8..<a + 24}) \<inter> ?S = {}" if "a \<in> heads N \<union> {}" for a
      using heads_bounds [of a N] that N(3) T by auto
  qed
  have L5: "lheap m5 A N ?gs {A + 4}"
    unfolding lheap_def using lay ok tiled fl by auto
  let ?h = "h\<lparr>mm_heapsize := pt (T + 8), mm_heapstart := pt A, mm_heapend := pt (A + 4 + T), mm_ram := m5\<rparr>"
  obtain m6 where m6: "mm_addfreechunk (pt (A + 4)) ?h = Some (?h\<lparr>mm_ram := m6\<rparr>)" "lheap m6 A N ?gs {}"
    using lheap_link [of ?h A N ?gs "{A + 4}" "A + 4"] L5 nl by auto
  have base: "MM_ALIGN_UP (pt lo) = pt A" "MM_ALIGN_DOWN (pt lo + pt sz) = pt E"
    using MM_ALIGN_pt(1) [of lo] MM_ALIGN_pt(2) [of "lo + sz"] lo by (simp_all add: A_def E_def)
  have hs: "pt E - pt A = pt (T + 8)" "pt (T + 8) - 8 = pt T" "pt E - 4 = pt (A + 4 + T)"
    using T by (simp_all add: pt_sub pt_sub_num ac_simps)
  have e: "A + 4 + 2 = A + 6" "A + 4 + T + 2 = A + 6 + T" by simp_all
  have "mm_initialize (pt lo) (pt sz) h = mm_addfreechunk (pt (A + 4)) ?h"
    unfolding mm_initialize_def mm_addregion_def Let_def nl base
    by (simp add: hs base ucast16_pt e m5_def m4_def m3_def m2_def del: add_2_eq_Suc' link_heads.simps)
  moreover have "heap_ok A N [(False, T)] (?h\<lparr>mm_ram := m6\<rparr>)"
    using m6(2) nl T by (simp add: heap_ok_def guarded_def coalesced_def)
  ultimately show ?thesis
    using m6(1) by (intro exI [of _ m6]) simp
qed

end
