(* ===== verification/Mm_Client.thy ===== *)
theory Mm_Client
  imports Mm_Init
begin

text \<open>
  What the heap promises to its clients: live blocks with their contents. A locale states
  the contract of \<open>malloc\<close> and \<open>free\<close> (\<open>block_heap\<close>); in it, a client that is well behaved
  against the abstract blocks runs without failing on the heap, with the answers of the
  abstract blocks. The heap of \<open>mm/src\<close> is its interpretation, for regions of up to 32 KB.
\<close>

section \<open>Abstract blocks\<close>

type_synonym blocks = "ptr \<Rightarrow> u8 list option"

datatype req = Malloc u64 | Free ptr | Poke ptr nat u8 | Peek ptr nat

datatype ans = Ptr ptr | Done | Byte u8

definition extent :: "ptr \<Rightarrow> u8 list \<Rightarrow> nat set" where
  "extent p bs = {unat p..<unat p + length bs}"

inductive spec_step :: "blocks \<Rightarrow> req \<Rightarrow> ans \<Rightarrow> blocks \<Rightarrow> bool" where
  spec_malloc: "\<lbrakk>p \<noteq> 0; \<sigma> p = None; length bs = unat n; unat p + unat n \<le> 2 ^ 64;
    \<And>q cs. \<sigma> q = Some cs \<Longrightarrow> extent p bs \<inter> extent q cs = {}\<rbrakk>
    \<Longrightarrow> spec_step \<sigma> (Malloc n) (Ptr p) (\<sigma>(p \<mapsto> bs))"
| spec_null: "spec_step \<sigma> (Malloc n) (Ptr 0) \<sigma>"
| spec_free: "\<sigma> p = Some bs \<Longrightarrow> spec_step \<sigma> (Free p) Done (\<sigma>(p := None))"
| spec_poke: "\<lbrakk>\<sigma> p = Some bs; i < length bs\<rbrakk> \<Longrightarrow> spec_step \<sigma> (Poke p i v) Done (\<sigma>(p \<mapsto> bs[i := v]))"
| spec_peek: "\<lbrakk>\<sigma> p = Some bs; i < length bs\<rbrakk> \<Longrightarrow> spec_step \<sigma> (Peek p i) (Byte (bs ! i)) \<sigma>"

inductive_cases spec_MallocE: "spec_step \<sigma> (Malloc n) a \<sigma>'"
inductive_cases spec_FreeE: "spec_step \<sigma> (Free p) a \<sigma>'"
inductive_cases spec_PeekE: "spec_step \<sigma> (Peek p i) a \<sigma>'"

text \<open>
  The requests a client may make: sizes from 13 bytes on, which is what the 24 bytes of a
  free node need, and only live blocks inside their bounds.
\<close>

fun legal :: "blocks \<Rightarrow> req \<Rightarrow> bool" where
  "legal \<sigma> (Malloc n) \<longleftrightarrow> 13 \<le> n \<and> n \<le> 0x100000000"
| "legal \<sigma> (Free p) \<longleftrightarrow> \<sigma> p \<noteq> None"
| "legal \<sigma> (Poke p i v) \<longleftrightarrow> (\<exists>bs. \<sigma> p = Some bs \<and> i < length bs)"
| "legal \<sigma> (Peek p i) \<longleftrightarrow> (\<exists>bs. \<sigma> p = Some bs \<and> i < length bs)"

text \<open>A client chooses its next request from the answers so far.\<close>

inductive spec_play :: "(ans list \<Rightarrow> req) \<Rightarrow> ans list \<Rightarrow> blocks \<Rightarrow> bool" for c where
  play_start: "spec_play c [] Map.empty"
| play_step: "\<lbrakk>spec_play c as \<sigma>; spec_step \<sigma> (c as) a \<sigma>'\<rbrakk> \<Longrightarrow> spec_play c (as @ [a]) \<sigma>'"

definition well_behaved :: "(ans list \<Rightarrow> req) \<Rightarrow> bool" where
  "well_behaved c \<longleftrightarrow> (\<forall>as \<sigma>. spec_play c as \<sigma> \<longrightarrow> legal \<sigma> (c as))"

text \<open>Running a client on a heap that is given by its operations.\<close>

fun exec :: "(u64 \<Rightarrow> 'h \<Rightarrow> (ptr \<times> 'h) option) \<Rightarrow> (ptr \<Rightarrow> 'h \<Rightarrow> 'h option) \<Rightarrow> ('h \<Rightarrow> mem) \<Rightarrow>
    (ptr \<Rightarrow> u8 \<Rightarrow> 'h \<Rightarrow> 'h) \<Rightarrow> req \<Rightarrow> 'h \<Rightarrow> (ans \<times> 'h) option" where
  "exec alloc free ram put (Malloc n) h = map_option (\<lambda>(p, h). (Ptr p, h)) (alloc n h)"
| "exec alloc free ram put (Free p) h = map_option (\<lambda>h. (Done, h)) (free p h)"
| "exec alloc free ram put (Poke p i v) h = Some (Done, put (p + of_nat i) v h)"
| "exec alloc free ram put (Peek p i) h = Some (Byte (ram h (p + of_nat i)), h)"

primrec play :: "(req \<Rightarrow> 'h \<Rightarrow> (ans \<times> 'h) option) \<Rightarrow> nat \<Rightarrow> (ans list \<Rightarrow> req) \<Rightarrow> 'h \<Rightarrow>
    (ans list \<times> 'h) option" where
  "play ex 0 c h = Some ([], h)"
| "play ex (Suc k) c h = Option.bind (play ex k c h)
     (\<lambda>(as, h). map_option (\<lambda>(a, h). (as @ [a], h)) (ex (c as) h))"

text \<open>Which blocks are live is determined by the answers.\<close>

lemma spec_step_dom:
  "spec_step \<sigma> r a \<sigma>' \<Longrightarrow> dom \<sigma>' = (case (r, a) of
     (Malloc _, Ptr p) \<Rightarrow> if p = 0 then dom \<sigma> else insert p (dom \<sigma>)
   | (Free p, _) \<Rightarrow> dom \<sigma> - {p} | _ \<Rightarrow> dom \<sigma>)"
  by (induction rule: spec_step.induct) (simp_all add: insert_absorb domI del: fun_upd_apply)

lemma spec_play_dom:
  assumes "spec_play c as \<sigma>" "spec_play c as \<tau>"
  shows "dom \<sigma> = dom \<tau>"
  using assms
proof (induction arbitrary: \<tau> rule: spec_play.induct)
  case play_start
  then show ?case by (auto elim: spec_play.cases)
next
  case (play_step as \<sigma> a \<sigma>')
  from play_step.prems obtain \<rho> where "spec_play c as \<rho>" "spec_step \<rho> (c as) a \<tau>"
    by (auto elim: spec_play.cases)
  then show ?case
    using spec_step_dom [OF play_step.hyps(2)] spec_step_dom [of \<rho> "c as" a \<tau>] play_step.IH [of \<rho>]
    by (simp cong: req.case_cong ans.case_cong if_cong)
qed

section \<open>The contract\<close>

locale block_heap =
  fixes rep :: "'h \<Rightarrow> blocks \<Rightarrow> bool"
    and alloc :: "u64 \<Rightarrow> 'h \<Rightarrow> (ptr \<times> 'h) option"
    and free :: "ptr \<Rightarrow> 'h \<Rightarrow> 'h option"
    and ram :: "'h \<Rightarrow> mem"
    and put :: "ptr \<Rightarrow> u8 \<Rightarrow> 'h \<Rightarrow> 'h"
  assumes alloc_law: "\<lbrakk>rep h \<sigma>; 13 \<le> n; n \<le> 0x100000000\<rbrakk> \<Longrightarrow>
      \<exists>p h' \<sigma>'. alloc n h = Some (p, h') \<and> rep h' \<sigma>' \<and> spec_step \<sigma> (Malloc n) (Ptr p) \<sigma>'"
    and free_law: "\<lbrakk>rep h \<sigma>; \<sigma> p = Some bs\<rbrakk> \<Longrightarrow> \<exists>h'. free p h = Some h' \<and> rep h' (\<sigma>(p := None))"
    and put_law: "\<lbrakk>rep h \<sigma>; \<sigma> p = Some bs; i < length bs\<rbrakk>
      \<Longrightarrow> rep (put (p + of_nat i) v h) (\<sigma>(p \<mapsto> bs[i := v]))"
    and ram_law: "\<lbrakk>rep h \<sigma>; \<sigma> p = Some bs; i < length bs\<rbrakk> \<Longrightarrow> ram h (p + of_nat i) = bs ! i"
begin

lemma step_refines:
  assumes "rep h \<sigma>" "legal \<sigma> r"
  shows "\<exists>a h' \<sigma>'. exec alloc free ram put r h = Some (a, h') \<and> rep h' \<sigma>' \<and> spec_step \<sigma> r a \<sigma>'"
proof (cases r)
  case (Malloc n)
  then show ?thesis using alloc_law [OF assms(1), of n] assms(2) by auto
next
  case (Free p)
  then obtain bs where bs: "\<sigma> p = Some bs" using assms(2) by auto
  then obtain h' where "free p h = Some h'" "rep h' (\<sigma>(p := None))"
    using free_law [OF assms(1)] by blast
  then show ?thesis using Free spec_free [of \<sigma> p bs, OF bs] by auto
next
  case (Poke p i v)
  then obtain bs where "\<sigma> p = Some bs" "i < length bs" using assms(2) by auto
  then show ?thesis using Poke put_law [OF assms(1)] spec_poke by fastforce
next
  case (Peek p i)
  then obtain bs where "\<sigma> p = Some bs" "i < length bs" using assms(2) by auto
  then show ?thesis using Peek ram_law [OF assms(1)] spec_peek assms(1) by fastforce
qed

lemma play_refines:
  assumes "rep h Map.empty" "well_behaved c"
  shows "\<exists>as h' \<sigma>. play (exec alloc free ram put) k c h = Some (as, h') \<and> rep h' \<sigma> \<and> spec_play c as \<sigma> \<and> length as = k"
proof (induction k)
  case 0
  then show ?case using assms(1) play_start by auto
next
  case (Suc k)
  then obtain as h' \<sigma> where IH: "play (exec alloc free ram put) k c h = Some (as, h')" "rep h' \<sigma>" "spec_play c as \<sigma>" "length as = k"
    by blast
  have "legal \<sigma> (c as)" using assms(2) IH(3) by (simp add: well_behaved_def)
  then obtain a h'' \<sigma>' where "exec alloc free ram put (c as) h' = Some (a, h'')" "rep h'' \<sigma>'" "spec_step \<sigma> (c as) a \<sigma>'"
    using step_refines [OF IH(2)] by blast
  then show ?case using IH play_step by fastforce
qed

end

section \<open>The heap holds blocks\<close>

definition allocs :: "nat \<Rightarrow> chunk list \<Rightarrow> (nat \<times> nat) set" where
  "allocs a cs = {(c, s). (c, True, s) \<in> set (place a cs)}"

definition mm_rep :: "nat \<Rightarrow> nat \<Rightarrow> nat \<Rightarrow> mm_heap \<Rightarrow> blocks \<Rightarrow> bool" where
  "mm_rep A N T h \<sigma> \<longleftrightarrow> T < 2 ^ 15 \<and> (\<exists>cs. heap_ok A N cs h \<and> total cs = T \<and>
     dom \<sigma> = (\<lambda>(c, s). pt (c + 4)) ` allocs (A + 4) cs \<and>
     (\<forall>(c, s) \<in> allocs (A + 4) cs. \<forall>bs. \<sigma> (pt (c + 4)) = Some bs \<longrightarrow>
        length bs + 4 \<le> s \<and> (\<forall>i < length bs. mm_ram h (pt (c + 4 + i)) = bs ! i)))"

definition mm_put :: "ptr \<Rightarrow> u8 \<Rightarrow> mm_heap \<Rightarrow> mm_heap" where
  "mm_put p v h = h\<lparr>mm_ram := (mm_ram h)(p := v)\<rparr>"

lemma allocs_append: "allocs a (xs @ ys) = allocs a xs \<union> allocs (a + total xs) ys"
  by (auto simp: allocs_def place_append)

lemma allocs_Nil [simp]: "allocs a [] = {}"
  by (simp add: allocs_def)

lemma allocs_Cons: "allocs a ((f, s) # cs) = (if f then {(a, s)} else {}) \<union> allocs (a + s) cs"
  by (auto simp: allocs_def)

lemma allocs_carve:
  "n \<le> s \<Longrightarrow> allocs a (xs @ carve n s @ ys) =
     insert (a + total xs, snd (hd (carve n s))) (allocs a (xs @ (False, s) # ys))"
  by (auto simp: allocs_append allocs_Cons carve_def add.assoc)

lemma allocs_release: "allocs a (release xs s ys) = allocs a (xs @ (False, s) # ys)"
proof -
  obtain t ds where a: "(t, ds) = absorb_next s ys" by (metis surj_pair)
  obtain vs r where b: "(vs, r) = absorb_prev xs t" by (metis surj_pair)
  have "allocs a (xs @ (False, s) # ys) = allocs a (xs @ (False, t) # ds)" for a
    using a by (cases ys) (auto simp: absorb_next_def allocs_append allocs_Cons add.assoc split: bool.splits)
  moreover have "allocs a (xs @ (False, t) # ds) = allocs a (vs @ (False, r) # ds)"
    using b by (cases xs rule: rev_cases)
      (auto simp: absorb_prev_def allocs_append allocs_Cons add.assoc split: if_splits)
  ultimately show ?thesis using release_guarded(1) [OF a b] by simp
qed

lemma allocs_guarded: "(c, s) \<in> allocs (A + 4) cs \<Longrightarrow> (c, True, s) \<in> set (place A (guarded cs))"
  by (auto simp: allocs_def guarded_def place_append)

lemma allocs_bounds:
  "(c, s) \<in> allocs (A + 4) cs \<Longrightarrow> A + 4 \<le> c \<and> c + s \<le> A + 4 + total cs"
  using place_bounds [of c True s "A + 4" cs] by (auto simp: allocs_def)

lemma size_le_total: "(f, s) \<in> set cs \<Longrightarrow> s \<le> total (cs :: chunk list)"
  by (induction cs) auto

lemma successively_left: "(\<And>x. x \<in> set xs \<Longrightarrow> P x) \<Longrightarrow> successively (\<lambda>x y. P x \<or> Q y) xs"
  by (induction xs rule: induct_list012) auto

lemma chunks_ok_small:
  assumes "\<forall>(f, s) \<in> set cs. 24 \<le> s" "total cs < 2 ^ 15"
  shows "chunks_ok (guarded cs)"
proof -
  have "s < 2 ^ 15" if "(f, s) \<in> set (guarded cs)" for f s
    using that size_le_total [of f s cs] assms(2) by (auto simp: guarded_def)
  then have "successively (\<lambda>c d. snd c < 2 ^ 15 \<or> fst d) (guarded cs)"
    by (intro successively_left) auto
  moreover have "\<forall>(f, s) \<in> set (guarded cs). 4 \<le> s \<and> s < 2 ^ 16 \<and> (\<not> f \<longrightarrow> 24 \<le> s)"
    using assms(1) size_le_total [of _ _ cs] assms(2) by (fastforce simp: guarded_def)
  ultimately show ?thesis by (simp add: chunks_ok_def)
qed

lemma payload_byte:
  assumes "chunks_ok (guarded cs)" "layout A N (guarded cs)" "(c, s) \<in> allocs (A + 4) cs" "i + 4 < s"
  shows "c + 4 + i \<notin> writable A N (guarded cs)" "c + 4 + i < 2 ^ 64"
proof -
  have "N + 456 \<le> A \<or> A + total (guarded cs) \<le> N" using assms(2) by (simp only: layout_def)
  then have "{c + 4..<c + s} \<inter> writable A N (guarded cs) = {}"
    by (rule payload_not_in_writable [OF assms(1) allocs_guarded [OF assms(3)]])
  moreover have "c + 4 + i \<in> {c + 4..<c + s}" using assms(4) by simp
  ultimately show "c + 4 + i \<notin> writable A N (guarded cs)" by blast
  show "c + 4 + i < 2 ^ 64"
    using allocs_bounds [OF assms(3)] assms(2,4) by (simp add: layout_def)
qed

lemma block_untouched:
  assumes "same_outside (writable A N (guarded cs)) m m'" "chunks_ok (guarded cs)"
    "layout A N (guarded cs)" "(c, s) \<in> allocs (A + 4) cs" "i + 4 < s"
  shows "m' (pt (c + 4 + i)) = m (pt (c + 4 + i))"
  using assms(1) payload_byte [OF assms(2-5)] by (simp add: same_outside_def)

lemma heap_ok_write:
  assumes H: "heap_ok A N cs h" and so: "same_outside S (mm_ram h) m'"
    and nw: "S \<inter> writable A N (guarded cs) = {}"
  shows "heap_ok A N cs (h\<lparr>mm_ram := m'\<rparr>)"
proof -
  note L = heap_okD(5) [OF H] and D = lheapD [OF heap_okD(5) [OF H]]
  let ?m = "mm_ram h"
  have "tiled m' A 0 (guarded cs) = tiled ?m A 0 (guarded cs)"
  proof (rule tiled_same [OF so])
    fix b f t assume p: "(b, f, t) \<in> set (place A (guarded cs))"
    have "4 \<le> t" using chunks_okD [OF D(2) place_in [OF p]] by simp
    then have "{b..<b + 4} \<subseteq> writable A N (guarded cs)" "b + 4 \<le> 2 ^ 64"
      using p place_bounds [OF p] D(1) by (force simp: writable_def layout_def split: if_splits)+
    then show "{b..<b + 4} \<inter> S = {} \<and> b + 4 \<le> 2 ^ 64" using nw by blast
  qed
  moreover obtain K where "free_list ?m N (frees A (guarded cs)) K" using D(5) by auto
  then have "free_list m' N (frees A (guarded cs)) K"
  proof (rule free_list_same [OF _ so])
    fix a assume a: "a \<in> heads N \<union> frees A (guarded cs)"
    have "{a..<a + 24} \<subseteq> writable A N (guarded cs)"
    proof (cases "a \<in> heads N")
      case True
      then show ?thesis using heads_bounds [of a N] by (auto simp: writable_def)
    next
      case False
      then obtain t where t: "(a, False, t) \<in> set (place A (guarded cs))"
        using a by (auto simp: frees_def)
      have "24 \<le> t" using chunks_okD [OF D(2) place_in [OF t]] by simp
      then show ?thesis using t by (force simp: writable_def)
    qed
    moreover have "{a..<a + 2} \<union> {a + 8..<a + 24} \<subseteq> {a..<a + 24}" by auto
    ultimately show "({a..<a + 2} \<union> {a + 8..<a + 24}) \<inter> S = {}" using nw by blast
  qed
  ultimately show ?thesis
    using H D by (auto simp: heap_ok_def lheap_def)
qed

section \<open>The laws\<close>

lemma mm_repE:
  assumes "mm_rep A N T h \<sigma>"
  obtains cs where "T < 2 ^ 15" "heap_ok A N cs h" "total cs = T"
    "dom \<sigma> = (\<lambda>(c, s). pt (c + 4)) ` allocs (A + 4) cs"
    "\<And>c s bs. \<lbrakk>(c, s) \<in> allocs (A + 4) cs; \<sigma> (pt (c + 4)) = Some bs\<rbrakk> \<Longrightarrow> length bs + 4 \<le> s"
    "\<And>c s bs i. \<lbrakk>(c, s) \<in> allocs (A + 4) cs; \<sigma> (pt (c + 4)) = Some bs; i < length bs\<rbrakk>
      \<Longrightarrow> mm_ram h (pt (c + 4 + i)) = bs ! i"
    "chunks_ok (guarded cs)" "layout A N (guarded cs)"
proof -
  obtain cs where cs: "T < 2 ^ 15" "heap_ok A N cs h" "total cs = T"
    "dom \<sigma> = (\<lambda>(c, s). pt (c + 4)) ` allocs (A + 4) cs"
    and R: "\<forall>(c, s) \<in> allocs (A + 4) cs. \<forall>bs. \<sigma> (pt (c + 4)) = Some bs \<longrightarrow>
        length bs + 4 \<le> s \<and> (\<forall>i < length bs. mm_ram h (pt (c + 4 + i)) = bs ! i)"
    using assms unfolding mm_rep_def by blast
  show thesis
  proof (rule that [OF cs])
    fix c s bs i assume a: "(c, s) \<in> allocs (A + 4) cs" "\<sigma> (pt (c + 4)) = Some bs"
    show "length bs + 4 \<le> s" using R a by blast
    show "i < length bs \<Longrightarrow> mm_ram h (pt (c + 4 + i)) = bs ! i" using R a by blast
  qed (use lheapD(1,2) [OF heap_okD(5) [OF cs(2)]] in blast)+
qed

lemma mm_repI:
  assumes "T < 2 ^ 15" "heap_ok A N cs h" "total cs = T"
    "dom \<sigma> = (\<lambda>(c, s). pt (c + 4)) ` allocs (A + 4) cs"
    "\<And>c s bs. \<lbrakk>(c, s) \<in> allocs (A + 4) cs; \<sigma> (pt (c + 4)) = Some bs\<rbrakk> \<Longrightarrow>
       length bs + 4 \<le> s \<and> (\<forall>i < length bs. mm_ram h (pt (c + 4 + i)) = bs ! i)"
  shows "mm_rep A N T h \<sigma>"
  unfolding mm_rep_def using assms by blast

lemma alloc_pt_inj:
  assumes "layout A N (guarded cs)" "(c, s) \<in> allocs (A + 4) cs" "(d, t) \<in> allocs (A + 4) cs"
    "pt (c + 4) = pt (d + 4)" "4 \<le> s" "4 \<le> t"
  shows "c = d"
proof -
  have "c + 4 < 2 ^ 64" "d + 4 < 2 ^ 64"
    using allocs_bounds [OF assms(2)] allocs_bounds [OF assms(3)] assms(1,5,6) by (auto simp: layout_def)
  then show ?thesis using assms(4) pt_inj by simp
qed

lemma allocs_size: "\<lbrakk>heap_ok A N cs h; (c, s) \<in> allocs a cs\<rbrakk> \<Longrightarrow> 24 \<le> s"
  using heap_okD(7) [of A N cs h True s] place_in [of c True s a cs] by (auto simp: allocs_def)

lemma allocs_disjoint:
  assumes "heap_ok A N cs h" "(c, s) \<in> allocs (A + 4) cs" "(d, t) \<in> allocs (A + 4) cs"
  shows "(c, s) = (d, t) \<or> c + s \<le> d \<or> d + t \<le> c"
  using place_disjoint [OF guarded_facts(1) [OF assms(1)] allocs_guarded [OF assms(2)]
      allocs_guarded [OF assms(3)]] by auto

lemma mm_rep_free:
  assumes "mm_rep A N T h \<sigma>" "\<sigma> p = Some bs"
  shows "\<exists>h'. mm_free p h = Some h' \<and> mm_rep A N T h' (\<sigma>(p := None))"
proof -
  obtain cs where cs: "T < 2 ^ 15" "heap_ok A N cs h" "total cs = T"
    "dom \<sigma> = (\<lambda>(c, s). pt (c + 4)) ` allocs (A + 4) cs"
    and R: "\<And>c s bs. \<lbrakk>(c, s) \<in> allocs (A + 4) cs; \<sigma> (pt (c + 4)) = Some bs\<rbrakk> \<Longrightarrow> length bs + 4 \<le> s"
      "\<And>c s bs i. \<lbrakk>(c, s) \<in> allocs (A + 4) cs; \<sigma> (pt (c + 4)) = Some bs; i < length bs\<rbrakk>
        \<Longrightarrow> mm_ram h (pt (c + 4 + i)) = bs ! i"
    and L: "layout A N (guarded cs)"
    using mm_repE [OF assms(1)] by metis
  have "p \<in> dom \<sigma>" using assms(2) by auto
  then obtain c s where c: "(c, s) \<in> allocs (A + 4) cs" "p = pt (c + 4)" using cs(4) by auto
  obtain xs ys where x: "cs = xs @ (True, s) # ys" "c = A + 4 + total xs"
    using c(1) place_split [of c True s "A + 4" cs] by (auto simp: allocs_def)
  let ?rs = "release xs s ys" and ?us = "xs @ (False, s) # ys"
  have "snd r < 2 ^ 16" if "r \<in> set ?rs" for r
    using size_le_total [of "fst r" "snd r" ?rs] that cs(1,3) x by simp
  moreover have "lsize 4 xs < 2 ^ 15"
    using size_le_total [of "fst (last xs)" "snd (last xs)" xs] cs(1,3) x
    by (auto simp: lsize_def)
  ultimately obtain m' where m': "mm_free (pt (A + 8 + total xs)) h = Some (h\<lparr>mm_ram := m'\<rparr>)"
    "heap_ok A N ?rs (h\<lparr>mm_ram := m'\<rparr>)"
    "same_outside (writable A N (guarded ?us)) (mm_ram h) m'"
    using mm_free_ok [OF cs(2) [unfolded x]] by blast
  have p: "p = pt (A + 8 + total xs)" using c(2) x(2) by (simp add: ac_simps)
  have al: "allocs (A + 4) cs = insert (c, s) (allocs (A + 4) ?rs)"
    "allocs (A + 4) ?rs = allocs (A + 4) ?us"
    by (auto simp: allocs_release x allocs_append allocs_Cons)
  have okU: "chunks_ok (guarded ?us)"
    using heap_okD(7) [OF cs(2)] cs(1,3) x by (intro chunks_ok_small) auto
  have LU: "layout A N (guarded ?us)" using L x by (simp add: layout_def)
  have ne: "d \<noteq> c" if d: "(d, t) \<in> allocs (A + 4) ?rs" for d t
  proof
    assume "d = c"
    then have "(c, t) \<in> allocs (A + 4) xs \<union> allocs (c + s) ys"
      using d unfolding al(2) by (simp add: allocs_append allocs_Cons x(2))
    moreover have "24 \<le> t" using allocs_size [OF m'(2) d] .
    moreover have "24 \<le> s" using allocs_size [OF cs(2) c(1)] .
    ultimately show False
      using place_bounds [of c True t "A + 4" xs] place_bounds [of c True t "c + s" ys] x(2)
      by (auto simp: allocs_def)
  qed
  have ptne: "pt (d + 4) \<noteq> p" if "(d, t) \<in> allocs (A + 4) ?rs" for d t
    using alloc_pt_inj [OF L, of d t c s] ne [OF that] that al(1) c allocs_size [OF cs(2)] by fastforce
  have "mm_rep A N T (h\<lparr>mm_ram := m'\<rparr>) (\<sigma>(p := None))"
  proof (rule mm_repI [OF cs(1) m'(2)])
    show "total ?rs = T" using cs(3) x by simp
    show "dom (\<sigma>(p := None)) = (\<lambda>(c, s). pt (c + 4)) ` allocs (A + 4) ?rs"
      using cs(4) al(1) c(2) ptne by auto
    fix d t bs assume d: "(d, t) \<in> allocs (A + 4) ?rs" "(\<sigma>(p := None)) (pt (d + 4)) = Some bs"
    then have d': "(d, t) \<in> allocs (A + 4) cs" "\<sigma> (pt (d + 4)) = Some bs"
      using al(1) by (auto split: if_splits)
    have "mm_ram (h\<lparr>mm_ram := m'\<rparr>) (pt (d + 4 + i)) = bs ! i" if "i < length bs" for i
      using block_untouched [OF m'(3) okU LU, of d t i] d(1) al(2) R [OF d'] that by simp
    then show "length bs + 4 \<le> t \<and> (\<forall>i < length bs. mm_ram (h\<lparr>mm_ram := m'\<rparr>) (pt (d + 4 + i)) = bs ! i)"
      using R(1) [OF d'] by blast
  qed
  then show ?thesis using m'(1) p by blast
qed

lemma mm_rep_ram:
  assumes "mm_rep A N T h \<sigma>" "\<sigma> p = Some bs" "i < length bs"
  shows "mm_ram h (p + of_nat i) = bs ! i"
proof -
  obtain cs where dom: "dom \<sigma> = (\<lambda>(c, s). pt (c + 4)) ` allocs (A + 4) cs"
    and R: "\<And>c s bs i. \<lbrakk>(c, s) \<in> allocs (A + 4) cs; \<sigma> (pt (c + 4)) = Some bs; i < length bs\<rbrakk>
        \<Longrightarrow> mm_ram h (pt (c + 4 + i)) = bs ! i"
    using mm_repE [OF assms(1)] by metis
  have "p \<in> dom \<sigma>" using assms(2) by auto
  then obtain c s where c: "(c, s) \<in> allocs (A + 4) cs" "p = pt (c + 4)" using dom by auto
  then have "p + of_nat i = pt (c + 4 + i)" by (simp add: pt_def)
  then show ?thesis using R [OF c(1) _ assms(3)] assms(2) c(2) by simp
qed

lemma mm_rep_write:
  assumes "mm_rep A N T h \<sigma>" "\<sigma> p = Some bs" "length ds = length bs"
    and so: "same_outside {unat p..<unat p + length bs} (mm_ram h) m'"
    and ds: "\<And>i. i < length bs \<Longrightarrow> m' (p + of_nat i) = ds ! i"
  shows "mm_rep A N T (h\<lparr>mm_ram := m'\<rparr>) (\<sigma>(p \<mapsto> ds))"
proof -
  obtain cs where cs: "T < 2 ^ 15" "heap_ok A N cs h" "total cs = T"
    "dom \<sigma> = (\<lambda>(c, s). pt (c + 4)) ` allocs (A + 4) cs"
    and R: "\<And>c s bs. \<lbrakk>(c, s) \<in> allocs (A + 4) cs; \<sigma> (pt (c + 4)) = Some bs\<rbrakk> \<Longrightarrow> length bs + 4 \<le> s"
      "\<And>c s bs i. \<lbrakk>(c, s) \<in> allocs (A + 4) cs; \<sigma> (pt (c + 4)) = Some bs; i < length bs\<rbrakk>
        \<Longrightarrow> mm_ram h (pt (c + 4 + i)) = bs ! i"
    and L: "chunks_ok (guarded cs)" "layout A N (guarded cs)"
    using mm_repE [OF assms(1)] by metis
  have "p \<in> dom \<sigma>" using assms(2) by auto
  then obtain c s where c: "(c, s) \<in> allocs (A + 4) cs" "p = pt (c + 4)" using cs(4) by auto
  have len: "length bs + 4 \<le> s" using R(1) [OF c(1)] assms(2) c(2) by simp
  have up: "unat p = c + 4"
    using allocs_bounds [OF c(1)] allocs_size [OF cs(2) c(1)] L(2)
    unfolding c(2) by (intro unat_pt) (simp add: layout_def)
  have out: "{unat p..<unat p + length bs} \<inter> writable A N (guarded cs) = {}"
  proof -
    have "x \<notin> writable A N (guarded cs)" if x: "x \<in> {unat p..<unat p + length bs}" for x
    proof -
      have "x - (c + 4) + 4 < s" "c + 4 + (x - (c + 4)) = x" using x up len by auto
      then show ?thesis using payload_byte(1) [OF L c(1)] by metis
    qed
    then show ?thesis by blast
  qed
  show ?thesis
  proof (rule mm_repI [OF cs(1) heap_ok_write [OF cs(2) so out] cs(3)])
    show "dom (\<sigma>(p \<mapsto> ds)) = (\<lambda>(c, s). pt (c + 4)) ` allocs (A + 4) cs"
      using cs(4) assms(2) by auto
    fix d t es assume d: "(d, t) \<in> allocs (A + 4) cs" "(\<sigma>(p \<mapsto> ds)) (pt (d + 4)) = Some es"
    show "length es + 4 \<le> t \<and> (\<forall>j < length es. mm_ram (h\<lparr>mm_ram := m'\<rparr>) (pt (d + 4 + j)) = es ! j)"
    proof (cases "d = c")
      case True
      then have "es = ds" "t = s"
        using d(2) c(2) allocs_disjoint [OF cs(2) d(1) c(1)] allocs_size [OF cs(2) d(1)]
          allocs_size [OF cs(2) c(1)] by auto
      moreover have "m' (pt (c + 4 + j)) = ds ! j" if "j < length bs" for j
        using ds [OF that] c(2) by (simp add: pt_def)
      ultimately show ?thesis using len assms(3) True by simp
    next
      case False
      have "pt (d + 4) \<noteq> p"
        using alloc_pt_inj [OF L(2) d(1) c(1)] False c(2) allocs_size [OF cs(2)] d(1) c(1) by fastforce
      then have d2: "\<sigma> (pt (d + 4)) = Some es" using d(2) by simp
      have "m' (pt (d + 4 + j)) = es ! j" if j: "j < length es" for j
      proof -
        have jt: "j + 4 < t" using R(1) [OF d(1) d2] j by simp
        have "d + 4 + j \<notin> {unat p..<unat p + length bs}"
          using allocs_disjoint [OF cs(2) d(1) c(1)] False len jt up by auto
        then have "m' (pt (d + 4 + j)) = mm_ram h (pt (d + 4 + j))"
          using so payload_byte(2) [OF L d(1) jt] by (simp add: same_outside_def)
        then show ?thesis using R(2) [OF d(1) d2 j] by simp
      qed
      then show ?thesis using R(1) [OF d(1) d2] by simp
    qed
  qed
qed

lemma mm_rep_extent:
  assumes "mm_rep A N T h \<sigma>" "\<sigma> p = Some bs"
  shows "unat p + length bs < 2 ^ 64" "i < length bs \<Longrightarrow> unat (p + of_nat i) = unat p + i" "p \<noteq> 0"
proof -
  obtain cs where cs: "heap_ok A N cs h" "dom \<sigma> = (\<lambda>(c, s). pt (c + 4)) ` allocs (A + 4) cs"
    and R: "\<And>c s bs. \<lbrakk>(c, s) \<in> allocs (A + 4) cs; \<sigma> (pt (c + 4)) = Some bs\<rbrakk> \<Longrightarrow> length bs + 4 \<le> s"
    and L: "chunks_ok (guarded cs)" "layout A N (guarded cs)"
    using mm_repE [OF assms(1)] by metis
  have "p \<in> dom \<sigma>" using assms(2) by auto
  then obtain c s where c: "(c, s) \<in> allocs (A + 4) cs" "p = pt (c + 4)" using cs(2) by auto
  have len: "length bs + 4 \<le> s" using R [OF c(1)] assms(2) c(2) by simp
  have b: "c + s + 4 \<le> 2 ^ 64" using allocs_bounds [OF c(1)] L(2) by (simp add: layout_def)
  have up: "unat p = c + 4" using b allocs_size [OF cs(1) c(1)] unfolding c(2) by (intro unat_pt) simp
  then show e: "unat p + length bs < 2 ^ 64" "p \<noteq> 0" using b len by auto
  show "unat (p + of_nat i) = unat p + i" if "i < length bs"
  proof -
    have "p + of_nat i = pt (unat p + i)" by (simp add: pt_def)
    then show ?thesis using e(1) that by simp
  qed
qed

lemma mm_rep_put:
  assumes "mm_rep A N T h \<sigma>" "\<sigma> p = Some bs" "i < length bs"
  shows "mm_rep A N T (mm_put (p + of_nat i) v h) (\<sigma>(p \<mapsto> bs[i := v]))"
  unfolding mm_put_def
proof (rule mm_rep_write [OF assms(1,2)])
  note X = mm_rep_extent [OF assms(1,2)]
  have q: "p + of_nat i = pt (unat p + i)" by (simp add: pt_def)
  show "same_outside {unat p..<unat p + length bs} (mm_ram h) ((mm_ram h)(p + of_nat i := v))"
    using X(1) assms(3) by (auto simp: same_outside_def q pt_inj)
  show "((mm_ram h)(p + of_nat i := v)) (p + of_nat j) = bs[i := v] ! j" if j: "j < length bs" for j
  proof (cases "j = i")
    case False
    then have "p + of_nat j \<noteq> p + of_nat i" using X(2) [OF j] X(2) [OF assms(3)] by auto
    then show ?thesis using mm_rep_ram [OF assms(1,2) j] False by simp
  qed (use assms(3) in simp)
qed simp

lemma mm_rep_malloc:
  assumes rep: "mm_rep A N T h \<sigma>" and n: "13 \<le> n" "n \<le> 0x100000000"
  shows "\<exists>p h' \<sigma>'. mm_malloc n h = Some (p, h') \<and> mm_rep A N T h' \<sigma>' \<and>
    spec_step \<sigma> (Malloc n) (Ptr p) \<sigma>'"
proof -
  obtain cs where cs: "T < 2 ^ 15" "heap_ok A N cs h" "total cs = T"
    "dom \<sigma> = (\<lambda>(c, s). pt (c + 4)) ` allocs (A + 4) cs"
    and R: "\<And>c s bs. \<lbrakk>(c, s) \<in> allocs (A + 4) cs; \<sigma> (pt (c + 4)) = Some bs\<rbrakk> \<Longrightarrow> length bs + 4 \<le> s"
      "\<And>c s bs i. \<lbrakk>(c, s) \<in> allocs (A + 4) cs; \<sigma> (pt (c + 4)) = Some bs; i < length bs\<rbrakk>
        \<Longrightarrow> mm_ram h (pt (c + 4 + i)) = bs ! i"
    and L: "chunks_ok (guarded cs)" "layout A N (guarded cs)"
    using mm_repE [OF rep] by metis
  define k where "k = unat n"
  have k: "13 \<le> k" "k + 19 < 2 ^ 64" "pt k = n"
    using n by (simp_all add: k_def word_le_nat_alt)
  have "s < need k" if "need k \<ge> 2 ^ 15" "(False, s) \<in> set cs" for s
    using size_le_total [OF that(2)] that(1) cs(1,3) by simp
  then have fit: "need k < 2 ^ 15 \<or> (\<forall>s. (False, s) \<in> set cs \<longrightarrow> s < need k)"
    by (meson not_le)
  from mm_malloc_ok [OF cs(2) k(1,2) fit, unfolded k(3)] show ?thesis
  proof (elim disjE exE conjE)
    fix u assume "mm_malloc n h = Some (0, h\<lparr>g_max_used_size := u\<rparr>)"
    moreover have "mm_rep A N T (h\<lparr>g_max_used_size := u\<rparr>) \<sigma>"
      using rep by (simp add: mm_rep_def)
    ultimately show ?thesis using spec_null by blast
  next
    fix xs s ys h'
    let ?K = "need k" and ?cs' = "xs @ carve (need k) s @ ys"
    assume x: "cs = xs @ (False, s) # ys" "?K \<le> s"
      and m: "mm_malloc n h = Some (pt (A + 8 + total xs), h')"
      and ok: "heap_ok A N ?cs' h'" and so: "same_outside (writable A N (guarded cs)) (mm_ram h) (mm_ram h')"
    let ?c = "A + 4 + total xs"
    define t where "t = snd (hd (carve ?K s))"
    define p where "p = pt (?c + 4)"
    have p: "pt (A + 8 + total xs) = p" by (simp add: p_def ac_simps)
    have t: "k + 4 \<le> t" using need_facts(1) [of k] x(2) by (auto simp: t_def carve_def)
    have al: "allocs (A + 4) ?cs' = insert (?c, t) (allocs (A + 4) cs)"
      using allocs_carve [OF x(2)] by (simp add: x(1) t_def)
    have L': "layout A N (guarded ?cs')" using lheapD(1) [OF heap_okD(5) [OF ok]] .
    have c_in: "(?c, t) \<in> allocs (A + 4) ?cs'" using al by simp
    have not_c: "d \<noteq> ?c" if d: "(d, u) \<in> allocs (A + 4) cs" for d u
    proof
      assume "d = ?c"
      then have "(?c, False, s) \<in> set (place (A + 4) cs)" "(?c, True, u) \<in> set (place (A + 4) cs)"
        using d by (auto simp: x(1) place_append allocs_def)
      moreover have "24 \<le> s" "24 \<le> u" using heap_okD(7) [OF cs(2), of False s] x(1) allocs_size [OF cs(2) d] by auto
      ultimately show False
        using place_disjoint [OF L(1), of ?c False s A ?c True u]
        by (auto simp: guarded_def place_append)
    qed
    have pne: "pt (d + 4) \<noteq> p" if d: "(d, u) \<in> allocs (A + 4) cs" for d u
      using alloc_pt_inj [OF L' c_in, of d u] not_c [OF d] al d allocs_size [OF ok] c_in
      unfolding p_def by fastforce
    have sp: "\<sigma> p = None" using cs(4) pne by (cases "\<sigma> p") force+
    have bound: "?c + t \<le> A + 4 + T" "A + 8 + T \<le> 2 ^ 64" "0 < A"
      using allocs_bounds [OF c_in] L' cs(3) x by (auto simp: layout_def)
    have up: "unat p = ?c + 4" using bound t unfolding p_def by (intro unat_pt) simp
    define bs where "bs = map (\<lambda>i. mm_ram h' (pt (?c + 4 + i))) [0..<k]"
    let ?\<sigma> = "\<sigma>(p \<mapsto> bs)"
    have "mm_rep A N T h' ?\<sigma>"
    proof (rule mm_repI [OF cs(1) ok])
      show "total ?cs' = T" using cs(3) x by simp
      show "dom ?\<sigma> = (\<lambda>(c, s). pt (c + 4)) ` allocs (A + 4) ?cs'"
        unfolding al using cs(4) by (auto simp: p_def)
      fix d u ds assume d: "(d, u) \<in> allocs (A + 4) ?cs'" "?\<sigma> (pt (d + 4)) = Some ds"
      show "length ds + 4 \<le> u \<and> (\<forall>i < length ds. mm_ram h' (pt (d + 4 + i)) = ds ! i)"
      proof (cases "(d, u) \<in> allocs (A + 4) cs")
        case True
        then have d2: "\<sigma> (pt (d + 4)) = Some ds" using d(2) pne by simp
        have "mm_ram h' (pt (d + 4 + i)) = ds ! i" if "i < length ds" for i
          using block_untouched [OF so L True, of i] R [OF True d2] that by simp
        then show ?thesis using R(1) [OF True d2] by blast
      next
        case False
        then show ?thesis using al d t by (auto simp: p_def bs_def)
      qed
    qed
    moreover have "spec_step \<sigma> (Malloc n) (Ptr p) ?\<sigma>"
    proof (rule spec_malloc [of p \<sigma> bs n, OF _ sp])
      show "p \<noteq> 0" using up by auto
      show "length bs = unat n" by (simp add: bs_def k_def)
      show "unat p + unat n \<le> 2 ^ 64" using up bound t by (simp add: k_def)
      fix q ds assume q: "\<sigma> q = Some ds"
      then have "q \<in> dom \<sigma>" by auto
      then obtain d u where d: "(d, u) \<in> allocs (A + 4) cs" "q = pt (d + 4)" using cs(4) by auto
      have len: "length ds + 4 \<le> u" using R(1) [OF d(1)] q d(2) by simp
      have "unat q = d + 4"
        using allocs_bounds [OF d(1)] allocs_size [OF cs(2) d(1)] bound cs(3)
        unfolding d(2) by (intro unat_pt) simp
      moreover have "(d, u) \<in> allocs (A + 4) ?cs'" using d(1) al by simp
      ultimately show "extent p bs \<inter> extent q ds = {}"
        using allocs_disjoint [OF ok c_in, of d u] not_c [OF d(1)] up len t
        by (auto simp: extent_def bs_def)
    qed
    ultimately show ?thesis using m p by blast
  qed
qed

interpretation mm: block_heap "mm_rep A N T" mm_malloc mm_free mm_ram mm_put for A N T
  by unfold_locales (rule mm_rep_malloc mm_rep_free mm_rep_put mm_rep_ram; assumption)+

end
