(* ===== verification/Mm_Libc.thy ===== *)
theory Mm_Libc
  imports Mm_Client
begin

text \<open>
  The C library calls on the heap: \<open>malloc\<close> and \<open>free\<close> meet the contract of \<open>block_heap\<close> as
  well, \<open>realloc\<close> keeps the contents, \<open>calloc\<close> clears them. Then the statistics, and what a
  request below 13 bytes does.
\<close>

section \<open>malloc and free\<close>

definition libc_rep :: "nat \<Rightarrow> nat \<Rightarrow> nat \<Rightarrow> u32 \<times> mm_heap \<Rightarrow> blocks \<Rightarrow> bool" where
  "libc_rep A N T s \<sigma> = mm_rep A N T (snd s) \<sigma>"

definition libc_ram :: "u32 \<times> mm_heap \<Rightarrow> mem" where
  "libc_ram s = mm_ram (snd s)"

definition libc_put :: "ptr \<Rightarrow> u8 \<Rightarrow> u32 \<times> mm_heap \<Rightarrow> u32 \<times> mm_heap" where
  "libc_put p v s = (fst s, mm_put p v (snd s))"

lemma libc_rep_malloc:
  "\<lbrakk>libc_rep A N T s \<sigma>; 13 \<le> n; n \<le> 0x100000000\<rbrakk> \<Longrightarrow>
    \<exists>p s' \<sigma>'. libc_malloc n s = Some (p, s') \<and> libc_rep A N T s' \<sigma>' \<and> spec_step \<sigma> (Malloc n) (Ptr p) \<sigma>'"
  using mm_rep_malloc [of A N T "snd s" \<sigma> n]
  by (fastforce simp: libc_rep_def libc_malloc_def split: prod.splits)

lemma libc_rep_free:
  "\<lbrakk>libc_rep A N T s \<sigma>; \<sigma> p = Some bs\<rbrakk> \<Longrightarrow>
    \<exists>s'. libc_free p s = Some s' \<and> libc_rep A N T s' (\<sigma>(p := None))"
  using mm_rep_free [of A N T "snd s" \<sigma> p bs]
  by (fastforce simp: libc_rep_def libc_free_def split: prod.splits)

interpretation libc: block_heap "libc_rep A N T" libc_malloc libc_free libc_ram libc_put for A N T
proof unfold_locales
  fix s \<sigma> p bs i v
  assume "libc_rep A N T s \<sigma>" "\<sigma> p = Some bs" "i < length bs"
  then show "libc_rep A N T (libc_put (p + of_nat i) v s) (\<sigma>(p \<mapsto> bs[i := v]))"
    "libc_ram s (p + of_nat i) = bs ! i"
    by (simp_all add: libc_rep_def libc_put_def libc_ram_def mm_rep_put mm_rep_ram)
qed (rule libc_rep_malloc libc_rep_free; assumption)+

section \<open>realloc and calloc\<close>

lemma spec_malloc_cases:
  assumes "spec_step \<sigma> (Malloc n) (Ptr q) \<sigma>'"
  obtains "q = 0" "\<sigma>' = \<sigma>"
    | ds where "q \<noteq> 0" "\<sigma> q = None" "length ds = unat n" "\<sigma>' = \<sigma>(q \<mapsto> ds)"
  using assms by (auto elim: spec_MallocE)

lemma mem_cpy_block:
  assumes "mm_rep A N T h \<sigma>" "\<sigma> q = Some ds" "length ds = unat n"
  shows "mm_rep A N T (h\<lparr>mm_ram := mem_cpy q p n (mm_ram h)\<rparr>)
    (\<sigma>(q \<mapsto> map (\<lambda>i. mm_ram h (p + of_nat i)) [0..<unat n]))" (is "mm_rep A N T _ (\<sigma>(q \<mapsto> ?es))")
proof (rule mm_rep_write [OF assms(1,2)])
  have b: "unat q + unat n < 2 ^ 64" using mm_rep_extent(1) [OF assms(1,2)] assms(3) by simp
  show "length ?es = length ds" using assms(3) by simp
  show "same_outside {unat q..<unat q + length ds} (mm_ram h) (mem_cpy q p n (mm_ram h))"
    unfolding same_outside_def
  proof (intro allI impI)
    fix a :: nat assume a: "a < 2 ^ 64" "a \<notin> {unat q..<unat q + length ds}"
    have "\<not> pt a - q < n"
      using pt_diff_less [of "unat q" "unat n" a] a b assms(3) by auto
    then show "mem_cpy q p n (mm_ram h) (pt a) = mm_ram h (pt a)" by (simp add: mem_cpy_def)
  qed
  fix i assume "i < length ds"
  then have i: "i < unat n" using assms(3) by simp
  then have "of_nat i < n" using b by (simp add: word_less_nat_alt unat_of_nat)
  then show "mem_cpy q p n (mm_ram h) (q + of_nat i) = ?es ! i"
    using i by (simp add: mem_cpy_def)
qed

lemma mem_set_block:
  assumes "mm_rep A N T h \<sigma>" "\<sigma> q = Some ds" "length ds = unat n"
  shows "mm_rep A N T (h\<lparr>mm_ram := mem_set q c n (mm_ram h)\<rparr>) (\<sigma>(q \<mapsto> replicate (unat n) c))"
proof (rule mm_rep_write [OF assms(1,2)])
  have b: "unat q + unat n < 2 ^ 64" using mm_rep_extent(1) [OF assms(1,2)] assms(3) by simp
  show "same_outside {unat q..<unat q + length ds} (mm_ram h) (mem_set q c n (mm_ram h))"
    unfolding same_outside_def
  proof (intro allI impI)
    fix a :: nat assume a: "a < 2 ^ 64" "a \<notin> {unat q..<unat q + length ds}"
    have "\<not> pt a - q < n"
      using pt_diff_less [of "unat q" "unat n" a] a b assms(3) by auto
    then show "mem_set q c n (mm_ram h) (pt a) = mm_ram h (pt a)" by (simp add: mem_set_def)
  qed
  fix i assume "i < length ds"
  then have i: "i < unat n" using assms(3) by simp
  then have "of_nat i < n" using b by (simp add: word_less_nat_alt unat_of_nat)
  then show "mem_set q c n (mm_ram h) (q + of_nat i) = replicate (unat n) c ! i"
    using i by (simp add: mem_set_def)
qed (use assms(3) in simp)

lemma libc_realloc_ok:
  assumes R: "mm_rep A N T h \<sigma>" and p: "\<sigma> p = Some bs" and n: "13 \<le> n" "n \<le> 0x100000000"
  shows "\<exists>q h'. libc_realloc p n (g, h) = Some (q, g, h') \<and>
    (q = 0 \<and> mm_rep A N T h' \<sigma> \<or>
     (\<exists>ds. length ds = unat n \<and> (\<forall>i < min (length bs) (unat n). ds ! i = bs ! i) \<and>
        \<sigma> q = None \<and> mm_rep A N T h' (\<sigma>(p := None, q \<mapsto> ds))))"
proof -
  obtain q h1 \<sigma>' where m: "mm_malloc n h = Some (q, h1)" "mm_rep A N T h1 \<sigma>'"
    "spec_step \<sigma> (Malloc n) (Ptr q) \<sigma>'"
    using mm_rep_malloc [OF R n] by blast
  from m(3) show ?thesis
  proof (cases rule: spec_malloc_cases)
    case q: (2 ds)
    have ne: "q \<noteq> p" using q(2) p by auto
    let ?h2 = "h1\<lparr>mm_ram := mem_cpy q p n (mm_ram h1)\<rparr>"
    let ?es = "map (\<lambda>i. mm_ram h1 (p + of_nat i)) [0..<unat n]"
    have "mm_rep A N T ?h2 (\<sigma>'(q \<mapsto> ?es))"
      by (rule mem_cpy_block [OF m(2) _ q(3)]) (simp add: q(4))
    then have R2: "mm_rep A N T ?h2 (\<sigma>(q \<mapsto> ?es))" by (simp add: q(4))
    obtain h3 where h3: "mm_free p ?h2 = Some h3" "mm_rep A N T h3 ((\<sigma>(q \<mapsto> ?es))(p := None))"
      using mm_rep_free [OF R2, of p bs] p ne by auto
    have "?es ! i = bs ! i" if "i < min (length bs) (unat n)" for i
      using mm_rep_ram [OF m(2), of p bs i] that p ne by (simp add: q(4))
    moreover have "mm_rep A N T h3 (\<sigma>(p := None, q \<mapsto> ?es))"
      using h3(2) ne by (simp add: fun_upd_twist)
    moreover have "length ?es = unat n" by simp
    moreover have "libc_realloc p n (g, h) = Some (q, g, h3)"
      using mm_rep_extent(3) [OF R p] m(1) q(1) h3(1) by (simp add: libc_realloc_def)
    ultimately show ?thesis using q(2) by blast
  next
    case 1
    then show ?thesis using m by (auto simp: libc_realloc_def)
  qed
qed

lemma libc_calloc_ok:
  assumes R: "mm_rep A N T h \<sigma>" and n: "13 \<le> sz * nmemb" "sz * nmemb \<le> 0x100000000"
  shows "\<exists>q h'. libc_calloc nmemb sz (g, h) = Some (q, g, h') \<and>
    (q = 0 \<and> mm_rep A N T h' \<sigma> \<or>
     \<sigma> q = None \<and> mm_rep A N T h' (\<sigma>(q \<mapsto> replicate (unat (sz * nmemb)) 0)))"
proof -
  obtain q h1 \<sigma>' where m: "mm_malloc (sz * nmemb) h = Some (q, h1)" "mm_rep A N T h1 \<sigma>'"
    "spec_step \<sigma> (Malloc (sz * nmemb)) (Ptr q) \<sigma>'"
    using mm_rep_malloc [OF R n] by blast
  from m(3) show ?thesis
  proof (cases rule: spec_malloc_cases)
    case q: (2 ds)
    have "mm_rep A N T (h1\<lparr>mm_ram := mem_set q 0 (sz * nmemb) (mm_ram h1)\<rparr>)
        (\<sigma>'(q \<mapsto> replicate (unat (sz * nmemb)) 0))"
      by (rule mem_set_block [OF m(2) _ q(3)]) (simp add: q(4))
    then show ?thesis using m(1) q by (auto simp: libc_calloc_def)
  next
    case 1
    then show ?thesis using m by (auto simp: libc_calloc_def)
  qed
qed

section \<open>Statistics and reuse\<close>

lemma mm_mallinfo_ok:
  assumes "heap_ok A N cs h" "total cs + 8 < 2 ^ 31"
  shows "mm_mallinfo h = Some \<lparr>arena = int (total cs + 8), ordblks = int (length (avail cs)),
    mxordblk = int (fold max (avail cs) 0), uordblks = int (used cs + 8),
    fordblks = int (sum_list (avail cs))\<rparr>"
proof -
  have "fold max xs 0 \<le> sum_list xs" for xs :: "nat list"
  proof -
    have "fold max xs m \<le> m + sum_list xs" for m
    proof (induction xs arbitrary: m)
      case (Cons a xs)
      have "fold max xs (max a m) \<le> max a m + sum_list xs" by (rule Cons)
      then show ?case by simp
    qed simp
    from this [of 0] show ?thesis by simp
  qed
  then have "fold max (avail cs) 0 \<le> sum_list (avail cs)" .
  then have b: "fold max (avail cs) 0 < 2 ^ 31" "used cs + 8 < 2 ^ 31" "sum_list (avail cs) < 2 ^ 31"
    using used_avail [of cs] assms(2) by linarith+
  then show ?thesis
    using assms(2) mallinfo_heap_ok [OF assms(1)] heap_okD(3) [OF assms(1)]
    by (simp add: mm_mallinfo_def to_int_pt)
qed

text \<open>Without live blocks, coalescing has left one chunk.\<close>

lemma no_blocks_one_chunk:
  assumes "mm_rep A N T h Map.empty" "24 \<le> T"
  shows "heap_ok A N [(False, T)] h"
proof -
  obtain cs where cs: "heap_ok A N cs h" "total cs = T" "allocs (A + 4) cs = {}"
    using mm_repE [OF assms(1)] by (metis dom_empty image_is_empty)
  have free: "\<not> f" if m: "(f, s) \<in> set cs" for f s
  proof
    assume f
    then obtain xs ys where "cs = xs @ (True, s) # ys" using m by (auto dest!: split_list)
    then have "(A + 4 + total xs, s) \<in> allocs (A + 4) cs" by (simp add: allocs_append allocs_Cons)
    then show False using cs(3) by simp
  qed
  have "cs = [(False, T)]"
  proof (cases cs)
    case Nil
    then show ?thesis using cs(2) assms(2) by simp
  next
    case (Cons c ds)
    have "ds = []"
    proof (cases ds)
      case D: (Cons d es)
      then have "fst c \<or> fst d" using heap_okD(6) [OF cs(1)] Cons by (simp add: coalesced_def)
      then show ?thesis using free [of "fst c" "snd c"] free [of "fst d" "snd d"] Cons D by auto
    qed simp
    then show ?thesis using Cons cs(2) free [of "fst c" "snd c"] by (cases c) auto
  qed
  then show ?thesis using cs(1) by simp
qed

lemma mm_malloc_empty:
  assumes "mm_rep A N T h Map.empty" "13 \<le> n" "need n \<le> T"
  shows "\<exists>h'. mm_malloc (pt n) h = Some (pt (A + 8), h')"
proof -
  have T: "24 \<le> T" "T < 2 ^ 15" using assms need_facts(3) [OF assms(2)] by (auto simp: mm_rep_def)
  have n: "n + 19 < 2 ^ 64" "need n < 2 ^ 15" using need_facts(1) [of n] assms(3) T by simp_all
  from mm_malloc_ok [OF no_blocks_one_chunk [OF assms(1) T(1)] assms(2) n(1) disjI1 [OF n(2)]]
  show ?thesis using assms(3) by (auto simp: Cons_eq_append_conv)
qed

section \<open>A block of less than 13 bytes\<close>

text \<open>
  Its chunk has 16 bytes, less than the 24 of a free node. Between two live chunks, freeing
  it stores the \<open>blink\<close> pointer over the header of its successor.
\<close>

lemma mm_free_small:
  assumes H: "lheap (mm_ram h) A N (us @ (True, u) # (True, 16) # (True, t) # ys) {}"
    and u: "u < 2 ^ 15" "24 \<le> t" and x: "x = A + total us + u" and nl: "mm_nodelist h = pt N"
  shows "\<exists>h' a. mm_free (pt (x + 4)) h = Some h' \<and> ld64 (mm_ram h') (pt (x + 16)) = pt a \<and>
    a \<in> heads N \<union> frees A (us @ (True, u) # (True, 16) # (True, t) # ys)"
proof -
  let ?gs = "us @ (True, u) # (True, 16) # (True, t) # ys" and ?m = "mm_ram h"
  let ?F = "frees A ?gs"
  note D = lheapD [OF H]
  have H2: "lheap ?m A N ((us @ [(True, u)]) @ (True, 16) # (True, t) # ys) {}" using H by simp
  have x2: "x = A + total (us @ [(True, u)])" using x by simp
  note P = lheap_next_flag [OF H refl] and Q = lheap_next_flag [OF H2 x2]
  have b: "x + 16 + t \<le> 2 ^ 64" "0 < x" "4 \<le> u"
    using D(1,2) x by (auto simp: layout_def chunks_ok_def)
  define m1 where "m1 = st16 (pt (x + 2)) (ld16 ?m (pt (x + 2)) AND NOT 0x8000) ?m"
  have so: "same_outside {x + 2..<x + 4} ?m m1"
    unfolding m1_def by (rule same_outside_mono [OF st_outside(1)]) (use b in auto)
  have prec: "ld16 m1 (pt (x + 2)) = of_nat u"
    using Q(2) alloc_bit_clear [OF u(1), of True] b
    by (simp add: m1_def alloc_bit_def del: add_2_eq_Suc')
  have keep: "ld16 m1 (pt a) = ld16 ?m (pt a)" if "a + 2 \<le> x + 2 \<or> x + 4 \<le> a" "a + 2 \<le> 2 ^ 64" for a
    unfolding m1_def using that b by (auto intro!: ld_st_other(1))
  have r: "ld16 m1 (pt x) = 16" "ld16 m1 (pt (x + 16 + 2)) AND 0x8000 = 0x8000"
    using keep [of x] keep [of "x + 16 + 2"] b u(2) Q(1,4) by (auto simp: alloc_bit_def simp del: add_2_eq_Suc')
  let ?w = "A + total us"
  have "(of_nat (lsize 0 us) OR alloc_bit True) AND 0x8000 = alloc_bit True" by (rule alloc_bit_of) simp
  then have wf: "ld16 m1 (pt (?w + 2)) AND 0x8000 = 0x8000"
    using keep [of "?w + 2"] b P(2) x by (simp add: alloc_bit_def del: add_2_eq_Suc')
  have prev: "pt x - ucast (of_nat u :: u16) = pt ?w"
    using u(1) by (simp add: ucast_pt pt_sub x)
  have nxt: "pt x + ucast (16 :: u16) = pt (x + 16)" by (simp add: pt_def)
  have free: "mm_free (pt (x + 4)) h = mm_addfreechunk (pt x) (h\<lparr>mm_ram := m1\<rparr>)"
  proof -
    have "pt (x + 4) \<noteq> 0" "pt (x + 4) - 4 = pt x"
      using b by (simp_all add: pt_eq_0 pt_sub_num)
    moreover have "merge_next (pt x) m1 = (m1, pt (x + 16))"
      using r nxt by (simp add: merge_next_def Let_def del: add_2_eq_Suc')
    moreover have "merge_prev (pt x) (pt (x + 16)) m1 = (m1, pt x)"
      using prec wf prev by (simp add: merge_prev_def Let_def del: add_2_eq_Suc')
    moreover have "st16 (pt x + 2) (ld16 ?m (pt x + 2) AND NOT 0x8000) ?m = m1"
      by (simp add: m1_def)
    ultimately show ?thesis by (simp add: mm_free_merge Let_def del: add_2_eq_Suc')
  qed
  have apart: "a + 24 \<le> x \<or> x + 40 \<le> a" if a: "a \<in> heads N \<union> ?F" for a
  proof -
    have "a + 24 \<le> x \<or> x + 40 \<le> a"
    proof (cases "a \<in> heads N")
      case True
      then show ?thesis using heads_bounds [of a N] D(1) x u(2) by (auto simp: layout_def)
    next
      case False
      then obtain s where s: "(a, False, s) \<in> set (place A ?gs)" using a by (auto simp: frees_def)
      have "(x, True, 16) \<in> set (place A ?gs)" "(x + 16, True, t) \<in> set (place A ?gs)"
        by (simp_all add: place_append x)
      then have "a + s \<le> x \<or> x + 16 \<le> a" "a + s \<le> x + 16 \<or> x + 16 + t \<le> a"
        using place_disjoint [OF D(2) s] by blast+
      then show ?thesis using chunks_okD [OF D(2) place_in [OF s]] u(2) by auto
    qed
    then show ?thesis .
  qed
  obtain L where L0: "free_list ?m N ?F L" using D(5) by auto
  have FL: "free_list m1 N ?F L"
    by (rule free_list_same [OF L0 so]) (use apart in fastforce)
  note FD = free_listD [OF FL]
  define i where "i = mm_size2ndx (ucast (ld16 m1 (pt x)))"
  have i: "i < 19" using mm_size2ndx_bounds(3) [of 16] by (simp add: i_def r ucast_pt [of 16, simplified])
  obtain ps qs where L: "L = ps @ (N + 24 * i) # qs" using sorted_split_head [OF FL i] by metis
  have pos: "0 < a \<and> a < 2 ^ 64" if "a \<in> set qs" for a
  proof -
    have "a \<in> heads N \<union> ?F" using that L FD(3) by auto
    then show ?thesis using apartD(1,2) [OF FD(5), of a] by simp
  qed
  let ?c = "\<lambda>a. ld16 m1 (pt a) \<noteq> 0 \<and> ld16 m1 (pt a) < ld16 m1 (pt x)"
  define a where "a = last ((N + 24 * i) # takeWhile ?c qs)"
  define rs where "rs = dropWhile ?c qs"
  have a: "a \<in> heads N \<union> ?F"
  proof -
    have "a \<in> set ((N + 24 * i) # takeWhile ?c qs)" unfolding a_def by (rule last_in_set) simp
    then have "a \<in> set L" unfolding L using set_takeWhileD by fastforce
    then show ?thesis using FD(3) by simp
  qed
  have rs: "set rs \<subseteq> heads N \<union> ?F"
    using FD(3) set_dropWhileD unfolding rs_def L by fastforce
  have hd: "nodelist (h\<lparr>mm_ram := m1\<rparr>) i = pt (N + 24 * i)"
    by (simp add: nodelist_def nl pt_def)
  have flink: "ld64 m1 (pt (N + 24 * i + 8)) = headp qs"
    using linked_flink [of _ _ ps] FD(1) by (simp add: L dll_def)
  have add: "mm_addfreechunk (pt x) (h\<lparr>mm_ram := m1\<rparr>) =
      Some (h\<lparr>mm_ram := link_in (pt a) (pt x) (headp rs) m1\<rparr>)"
    using find_slot_walk [of m1 ps "N + 24 * i" qs "ld16 m1 (pt x)"] FD(1) pos
    by (simp add: mm_addfreechunk_link Let_def flip: i_def)
       (simp add: hd flink a_def rs_def L)
  have bl: "ld64 (link_in (pt a) (pt x) (headp rs) m1) (pt (x + 16)) = pt a"
  proof (cases rs)
    case Nil
    then show ?thesis using b u(2) by (simp add: link_in_def Let_def ld_st_other(4))
  next
    case (Cons q qs')
    then have q: "q \<in> heads N \<union> ?F" using rs by simp
    then have "q + 24 \<le> x \<or> x + 40 \<le> q" "q + 24 \<le> 2 ^ 64" "pt q \<noteq> 0"
      using apart apartD(1,2) [OF FD(5) q] by (auto simp: pt_eq_0)
    then show ?thesis
      using b u(2) Cons by (auto simp: link_in_def Let_def ld_st_other(4))
  qed
  then show ?thesis using free add a by (intro exI) auto
qed

section \<open>From the linker symbols on\<close>

text \<open>
  \<open>region lo hi N\<close>: between \<open>__heap_start\<close> and \<open>__heap_end\<close> there is room for a free chunk and
  not more than 32 KB, and the list heads of \<open>g_mmheap\<close> (at \<open>N\<close>) are not in it.
\<close>

definition heap_base :: "nat \<Rightarrow> nat" where
  "heap_base lo = 16 * ((lo + 15) div 16)"

definition heap_space :: "nat \<Rightarrow> nat \<Rightarrow> nat" where
  "heap_space lo hi = 16 * (hi div 16) - heap_base lo - 8"

definition region :: "nat \<Rightarrow> nat \<Rightarrow> nat \<Rightarrow> bool" where
  "region lo hi N \<longleftrightarrow> 0 < lo \<and> lo \<le> hi \<and> hi + 15 < 2 ^ 64 \<and> heap_base lo + 32 \<le> 16 * (hi div 16) \<and>
     16 * (hi div 16) \<le> heap_base lo + 2 ^ 15 \<and> 0 < N \<and> N + 456 \<le> 2 ^ 64 \<and>
     (N + 456 \<le> heap_base lo \<or> hi \<le> N)"

lemma mm_rep_init:
  assumes R: "region lo hi N" and nl: "mm_nodelist h = pt N"
  shows "\<exists>h'. mm_heap_initialize (pt lo) (pt hi) h = Some h' \<and>
    mm_rep (heap_base lo) N (heap_space lo hi) h' Map.empty"
proof -
  have r: "0 < lo" "lo + (hi - lo) + 15 < 2 ^ 64" "hi = lo + (hi - lo)"
    "heap_base lo + 32 \<le> 16 * (hi div 16)" "16 * (hi div 16) < heap_base lo + 2 ^ 16 + 8"
    "0 < N" "N + 456 \<le> 2 ^ 64" "N + 456 \<le> heap_base lo \<or> 16 * (hi div 16) \<le> N"
    using R by (auto simp: region_def)
  have T: "heap_space lo hi < 2 ^ 15" using R by (auto simp: region_def heap_space_def)
  have "pt hi - pt lo = pt (hi - lo)" using R by (simp add: pt_sub region_def)
  then have "mm_heap_initialize (pt lo) (pt hi) h = mm_initialize (pt lo) (pt (hi - lo)) h"
    by (simp add: mm_heap_initialize_def)
  then obtain h' where "mm_heap_initialize (pt lo) (pt hi) h = Some h'"
    "heap_ok (heap_base lo) N [(False, heap_space lo hi)] h'"
    using mm_initialize_ok [OF r(1,2) _ _ r(6,7) _ nl] r(4,5,8)
    by (auto simp: heap_base_def heap_space_def simp flip: r(3))
  moreover have "mm_rep (heap_base lo) N (heap_space lo hi) h' Map.empty"
    using \<open>heap_ok _ _ _ h'\<close> T by (fastforce simp: mm_rep_def allocs_def)
  ultimately show ?thesis by blast
qed

end
