(* ===== verification/Ccu_Register.thy ===== *)
theory Ccu_Register
  imports Ccu_Core Ccu_Reset
begin

unbundle bit_operations_syntax

text \<open>
  The registration of clocks (\<open>clk_hw_register\<close> and below it in \<open>ccmu/sunxi-ng/ccu.c\<close>), the fixed
  clocks (\<open>clk-fixed-rate.c\<close>) and \<open>ccu_common_init\<close> (\<open>ccu_common.c\<close>). A \<open>clk_hw\<close> is registered once:
  its number becomes that of its core. The hardware's state holds the heap's too; \<open>clk_heap\<close> says
  whether an object can be allocated. No \<open>clk_ops\<close> of the source has an \<open>init\<close>, and none of the
  multiplexers of the D1 has a table of settings, for which \<open>ccu_mux_helper_get_parent\<close> would
  follow \<open>hw->core\<close> before it is set.
\<close>

section \<open>Types\<close>

record clk_parent_data =
  pd_hw :: "nat option"
  pd_fw_name :: "string option"
  pd_name :: "string option"

text \<open>The three arrays of \<open>clk_init_data\<close>, of which a clock has at most one.\<close>

datatype clk_init_parents =
    No_parents | Parent_names "string option list" | Parent_data "clk_parent_data list" | Parent_hws "nat option list"

record 'h clk_init_data =
  in_name :: string
  in_ops :: "'h clk_ops"
  in_parents :: clk_init_parents
  in_num_parents :: u8
  in_flags :: u64

datatype clk_object = Obj_core | Obj_clk | Obj_parents nat | Obj_fixed | Obj_reset

record 'h clk_heap =
  ch_malloc :: "clk_object \<Rightarrow> 'h \<Rightarrow> bool \<times> 'h"
  ch_free :: "clk_object \<Rightarrow> 'h \<Rightarrow> 'h"

definition CLK_IS_CRITICAL :: u64 where
  "CLK_IS_CRITICAL = push_bit 11 1"

definition clk_malloc :: "'h clk_heap \<Rightarrow> clk_object \<Rightarrow> 'h clks \<Rightarrow> bool \<times> 'h clks" where
  "clk_malloc A ob s = (let (ok, h) = ch_malloc A ob (ck_hw s) in (ok, s\<lparr>ck_hw := h\<rparr>))"

definition clk_free :: "'h clk_heap \<Rightarrow> clk_object \<Rightarrow> 'h clks \<Rightarrow> 'h clks" where
  "clk_free A ob s = s\<lparr>ck_hw := ch_free A ob (ck_hw s)\<rparr>"

section \<open>Registering one clock\<close>

definition parent_maps :: "clk_init_parents \<Rightarrow> clk_parent_map list" where
  "parent_maps ps = (case ps of
     No_parents \<Rightarrow> []
   | Parent_names ns \<Rightarrow> map (\<lambda>n. \<lparr>pm_hw = None, pm_core = None, pm_name = n\<rparr>) ns
   | Parent_data ds \<Rightarrow> map (\<lambda>d. \<lparr>pm_hw = pd_hw d, pm_core = None,
       pm_name = (if pd_name d \<noteq> None then pd_name d else pd_fw_name d)\<rparr>) ds
   | Parent_hws ws \<Rightarrow> map (\<lambda>w. \<lparr>pm_hw = w, pm_core = None, pm_name = None\<rparr>) ws)"

definition clk_core_populate_parent_map ::
  "'h clk_heap \<Rightarrow> nat \<Rightarrow> 'h clk_init_data \<Rightarrow> 'h clks \<Rightarrow> (int \<times> 'h clks) option" where
  "clk_core_populate_parent_map A c ini s =
     (let n = unat (in_num_parents ini)
      in if n = 0 then Some (0, s)
      else let (ok, s) = clk_malloc A (Obj_parents n) s
      in if \<not> ok then Some (-1, s)
      else if in_parents ini = No_parents then Some (-1, clk_free A (Obj_parents n) s)
      else if length (parent_maps (in_parents ini)) < n then None
      else Some (0, upd_core c (\<lambda>x. x\<lparr>cc_parents := take n (parent_maps (in_parents ini))\<rparr>) s))"

definition clk_first_rate :: "nat \<Rightarrow> nat option \<Rightarrow> 'h clks \<Rightarrow> (u32 \<times> 'h clks) option" where
  "clk_first_rate c p s = (case op_recalc_rate (cc_ops (cores s c)) of
     Some f \<Rightarrow> do {
       (p_rate, s) \<leftarrow> (case p of None \<Rightarrow> Some (0, s) | Some p \<Rightarrow> clk_core_get_rate p s);
       (r, h) \<leftarrow> f (ucast p_rate) (ck_hw s);
       Some (ucast r, s\<lparr>ck_hw := h\<rparr>)
     }
   | None \<Rightarrow> Some (case p of None \<Rightarrow> 0 | Some p \<Rightarrow> ucast (cc_rate (cores s p)), s))"

definition clk_core_init :: "nat \<Rightarrow> 'h clks \<Rightarrow> (int \<times> 'h clks) option" where
  "clk_core_init c s = do {
     (p, s) \<leftarrow> clk_init_parent c s;
     let s = upd_core c (\<lambda>x. x\<lparr>cc_parent := p\<rparr>) s;
     (rate, s) \<leftarrow> clk_first_rate c p s;
     let p_rate = (case p of None \<Rightarrow> 0 | Some p \<Rightarrow> ucast (cc_rate (cores s p)));
     let s = upd_core c (\<lambda>x. x\<lparr>cc_p_rate := p_rate, cc_rate := ucast rate\<rparr>) s;
     if cc_flags (cores s c) AND CLK_IS_CRITICAL \<noteq> 0 then clk_core_enable (Some c) s else Some (0, s)
   }"

text \<open>The fields of a core after \<open>malloc\<close>; those that are not assigned are set before they are read.\<close>

definition fresh_core :: "hal_clk_type \<Rightarrow> nat \<Rightarrow> 'h clk_init_data \<Rightarrow> 'h clk_core" where
  "fresh_core ty i ini = \<lparr>cc_name = in_name ini, cc_ops = in_ops ini, cc_type = ty, cc_id = i, cc_count = 0,
     cc_parent = None, cc_parents = [], cc_p_rate = 0, cc_rate = 0, cc_enable_count = 0, cc_flags = in_flags ini\<rparr>"

definition clk_hw_register ::
  "'h clk_heap \<Rightarrow> nat \<Rightarrow> hal_clk_type \<Rightarrow> nat \<Rightarrow> 'h clk_init_data \<Rightarrow> 'h clks \<Rightarrow> (int \<times> 'h clks) option" where
  "clk_hw_register A c ty i ini s =
     (if c \<in> set (clk_root_list s) then None
      else let (ok, s) = clk_malloc A Obj_core s
      in if \<not> ok then Some (-1, s)
      else let s = upd_core c (\<lambda>_. fresh_core ty i ini) s; (ok, s) = clk_malloc A Obj_clk s
      in if \<not> ok then Some (-1, clk_free A Obj_core s)
      else do {
        (ret, s) \<leftarrow> clk_core_populate_parent_map A c ini s;
        if ret \<noteq> 0 then Some (ret, clk_free A Obj_core (clk_free A Obj_clk s))
        else do {
          (ret, s) \<leftarrow> clk_core_init c s;
          if ret \<noteq> 0 then Some (-1, clk_free A Obj_core s)
          else Some (0, s\<lparr>clk_root_list := clk_root_list s @ [c]\<rparr>)
        }
      })"

definition clk_hw_unregister :: "'h clk_heap \<Rightarrow> nat \<Rightarrow> 'h clks \<Rightarrow> int \<times> 'h clks" where
  "clk_hw_unregister A c s =
     (if c \<notin> set (clk_root_list s) then (0, s)
      else (case clk_core_get (cc_type (cores s c)) (cc_id (cores s c)) s of
        None \<Rightarrow> (0, s)
      | Some d \<Rightarrow> (0, clk_free A Obj_core (clk_free A Obj_clk (s\<lparr>clk_root_list := remove1 d (clk_root_list s)\<rparr>)))))"

section \<open>Clocks with a fixed rate\<close>

definition clk_fixed_rate_ops :: "u64 \<Rightarrow> 'h clk_ops" where
  "clk_fixed_rate_ops rate = \<lparr>op_enable = None, op_disable = None, op_is_enabled = None, op_get_parent = None,
     op_set_parent = None, op_set_rate = None, op_recalc_rate = Some (\<lambda>p_rate h. Some (rate, h))\<rparr>"

definition fixed_rate_init :: "string \<Rightarrow> string option \<Rightarrow> u64 \<Rightarrow> u64 \<Rightarrow> 'h clk_init_data" where
  "fixed_rate_init name parent_name flags rate = \<lparr>in_name = name, in_ops = clk_fixed_rate_ops rate,
     in_parents = (case parent_name of None \<Rightarrow> No_parents | Some n \<Rightarrow> Parent_names [Some n]),
     in_num_parents = (case parent_name of None \<Rightarrow> 0 | Some _ \<Rightarrow> 1), in_flags = flags\<rparr>"

text \<open>\<open>c\<close> is the number of the \<open>clk_hw\<close> that is allocated.\<close>

definition clk_hw_register_fixed_rate ::
  "'h clk_heap \<Rightarrow> nat \<Rightarrow> string \<Rightarrow> nat \<Rightarrow> string option \<Rightarrow> u64 \<Rightarrow> u64 \<Rightarrow> 'h clks \<Rightarrow> (int \<times> 'h clks) option" where
  "clk_hw_register_fixed_rate A c name i parent_name flags rate s =
     (let (ok, s) = clk_malloc A Obj_fixed s
      in if \<not> ok then Some (-1, s)
      else do {
        (ret, s) \<leftarrow> clk_hw_register A c HAL_SUNXI_FIXED_CCU i (fixed_rate_init name parent_name flags rate) s;
        Some (if ret \<noteq> 0 then (-1, clk_free A Obj_fixed s) else (0, s))
      })"

definition CLK_SRC_HOSC24M :: nat where "CLK_SRC_HOSC24M = 0"

definition CLK_SRC_LOSC :: nat where "CLK_SRC_LOSC = 1"

definition CLK_SRC_RC_16M :: nat where "CLK_SRC_RC_16M = 2"

definition CLK_SRC_EXT_32K :: nat where "CLK_SRC_EXT_32K = 3"

text \<open>
  The result is that of the last registration only. \<open>w\<close> numbers the \<open>clk_hw\<close>s of the four clocks.
\<close>

definition sunxi_fixed_clk_init :: "'h clk_heap \<Rightarrow> (nat \<Rightarrow> nat) \<Rightarrow> 'h clks \<Rightarrow> (int \<times> 'h clks) option" where
  "sunxi_fixed_clk_init A w s = do {
     (_, s) \<leftarrow> clk_hw_register_fixed_rate A (w CLK_SRC_HOSC24M) ''dcxo24M'' CLK_SRC_HOSC24M None 0 24000000 s;
     (_, s) \<leftarrow> clk_hw_register_fixed_rate A (w CLK_SRC_LOSC) ''fix_losc'' CLK_SRC_LOSC None 0 32768 s;
     (_, s) \<leftarrow> clk_hw_register_fixed_rate A (w CLK_SRC_RC_16M) ''rc-16m'' CLK_SRC_RC_16M None 0 16000000 s;
     (ret, s) \<leftarrow> clk_hw_register_fixed_rate A (w CLK_SRC_EXT_32K) ''ext-32k'' CLK_SRC_EXT_32K None 0 32768 s;
     Some (ret, s)
   }"

section \<open>Registering a clock controller\<close>

text \<open>
  \<open>hws\<close> of the description: the \<open>clk_hw\<close>s with their initial data, a hole is \<open>None\<close>. The result of
  the loop has the index at which it stopped. \<open>unregister_hws\<close> is the loop of the error path, whose
  condition \<open>i-- >= 0\<close> lets it read \<open>hws[-1]\<close>.
\<close>

type_synonym 'h ccu_hws = "(nat \<times> 'h clk_init_data) option list"

fun register_hws :: "'h clk_heap \<Rightarrow> hal_clk_type \<Rightarrow> nat \<Rightarrow> 'h ccu_hws \<Rightarrow> 'h clks \<Rightarrow> (int \<times> nat \<times> 'h clks) option" where
  "register_hws A ty i [] s = Some (0, i, s)"
| "register_hws A ty i (None # hws) s = Some (0, i, s)"
| "register_hws A ty i (Some (c, ini) # hws) s = do {
     (ret, s) \<leftarrow> clk_hw_register A c ty i ini s;
     if ret \<noteq> 0 then Some (ret, i, s) else register_hws A ty (Suc i) hws s
   }"

fun unregister_hws :: "'h clk_heap \<Rightarrow> 'h ccu_hws \<Rightarrow> nat \<Rightarrow> 'h clks \<Rightarrow> 'h clks option" where
  "unregister_hws A hws 0 s = None"
| "unregister_hws A hws (Suc i) s =
     (if length hws \<le> i then None
      else unregister_hws A hws i (case hws ! i of None \<Rightarrow> s | Some (c, _) \<Rightarrow> snd (clk_hw_unregister A c s)))"

text \<open>
  \<open>sunxi_ccu_desc\<close>, without the bases of the clocks' registers (they are part of the clocks' own
  data here, \<open>co_base\<close>).
\<close>

record 'h sunxi_ccu_desc =
  ds_hws :: "'h ccu_hws"
  ds_clk_type :: hal_clk_type
  ds_resets :: "(u32 \<times> u32) list"
  ds_reset_type :: nat
  ds_num_resets :: u32

definition ccu_common_init :: "'h clk_heap \<Rightarrow> u64 \<Rightarrow> 'h sunxi_ccu_desc option \<Rightarrow> 'h clks \<times> ccu_reset list \<Rightarrow>
    (int \<times> 'h clks \<times> ccu_reset list) option" where
  "ccu_common_init A base desc st = (case desc of None \<Rightarrow> Some (0, st) | Some d \<Rightarrow> (case st of (s, rs) \<Rightarrow> do {
     (ret, i, s) \<leftarrow> register_hws A (ds_clk_type d) 0 (ds_hws d) s;
     if ret \<noteq> 0 then do { s \<leftarrow> unregister_hws A (ds_hws d) i s; Some (ret, s, rs) }
     else let (ok, s) = clk_malloc A Obj_reset s
     in if \<not> ok then do { s \<leftarrow> unregister_hws A (ds_hws d) i s; Some (-1, s, rs) }
     else let (ret, rs) = reset_control_register (Some \<lparr>rs_base = base, reset_map = ds_resets d,
            rs_type = ds_reset_type d, nr_resets = ds_num_resets d\<rparr>) rs
     in if ret \<noteq> 0 then do { s \<leftarrow> unregister_hws A (ds_hws d) i (clk_free A Obj_reset s); Some (ret, s, rs) }
     else Some (ret, s, rs)
   }))"

lemma unregister_hws_out_of_bounds: "unregister_hws A hws i s = None"
  by (induction i arbitrary: s) auto

end
