(* ===== verification/Ccu_Register_Ok.thy ===== *)
theory Ccu_Register_Ok
  imports Ccu_Register Ccu_Rate
begin

unbundle bit_operations_syntax

text \<open>
  Registration keeps the counting of the framework: after \<open>clk_hw_register\<close> the new clock is held by
  nobody, or, when it is critical, by the framework itself, and its parent is the one its
  multiplexer selects. After the registration of all clocks, gates follow the use of the clocks and
  the critical ones are never closed.
\<close>

section \<open>Enabling does not look at the list of clocks\<close>
lemma root_upd:
  "upd_core c f (s\<lparr>clk_root_list := r\<rparr>) = upd_core c f s\<lparr>clk_root_list := r\<rparr>"
  "count_up c (s\<lparr>clk_root_list := r\<rparr>) = count_up c s\<lparr>clk_root_list := r\<rparr>"
  "run_disable c (s\<lparr>clk_root_list := r\<rparr>) = run_disable c s\<lparr>clk_root_list := r\<rparr>"
  by (simp_all add: upd_core_def count_up_def run_disable_def split: option.splits)

lemma run_enable_root: "run_enable c s = (x, s') \<Longrightarrow> run_enable c (s\<lparr>clk_root_list := r\<rparr>) = (x, s'\<lparr>clk_root_list := r\<rparr>)"
  by (auto simp: run_enable_def Let_def split: option.splits prod.splits)

lemma clk_core_disable_root:
  assumes "clk_core_disable core s = Some y"
  shows "clk_core_disable core (s\<lparr>clk_root_list := r\<rparr>) = Some (fst y, snd y\<lparr>clk_root_list := r\<rparr>)"
proof (rule clk_core_disable.raw_induct [where P = "\<lambda>core s y. clk_core_disable core (s\<lparr>clk_root_list := r\<rparr>) =
      Some (fst y, snd y\<lparr>clk_root_list := r\<rparr>)", OF _ assms], goal_cases)
  case (1 dis core s y)
  show ?case
  proof (cases core)
    case None then show ?thesis using 1(2) by (subst clk_core_disable.simps) auto
  next
    case (Some c)
    let ?s = "upd_core c (\<lambda>x. x\<lparr>cc_enable_count := cc_enable_count x - 1\<rparr>) s"
    consider "cc_enable_count (cores s c) = 0" | "cc_enable_count (cores s c) \<noteq> 0" "cc_enable_count (cores ?s c) > 0"
      | "cc_enable_count (cores s c) \<noteq> 0" "\<not> cc_enable_count (cores ?s c) > 0" by blast
    then show ?thesis
    proof cases
      case 3
      then obtain z where z: "dis (cc_parent (cores (run_disable c ?s) c)) (run_disable c ?s) = Some z" "y = (0, snd z)"
        using 1(2) Some by (auto simp: Let_def split: Option.bind_splits)
      show ?thesis using 3 Some 1(1) [OF z(1)] z(2)
        by (subst clk_core_disable.simps) (simp add: root_upd Let_def split_beta)
    qed (use 1(2) Some in \<open>subst clk_core_disable.simps; auto simp: root_upd Let_def\<close>)+
  qed
qed

lemma clk_core_enable_root:
  assumes "clk_core_enable core s = Some y"
  shows "clk_core_enable core (s\<lparr>clk_root_list := r\<rparr>) = Some (fst y, snd y\<lparr>clk_root_list := r\<rparr>)"
proof (rule clk_core_enable.raw_induct [where P = "\<lambda>core s y. clk_core_enable core (s\<lparr>clk_root_list := r\<rparr>) =
      Some (fst y, snd y\<lparr>clk_root_list := r\<rparr>)", OF _ assms], goal_cases)
  case (1 en core s y)
  show ?case
  proof (cases core)
    case None then show ?thesis using 1(2) by (subst clk_core_enable.simps) auto
  next
    case (Some c)
    show ?thesis
    proof (cases "cc_enable_count (cores s c) = 0")
      case False
      then show ?thesis using 1(2) Some by (subst clk_core_enable.simps) (auto simp: root_upd)
    next
      case True
      then obtain z where z: "en (cc_parent (cores s c)) s = Some z"
        using 1(2) Some by (auto split: Option.bind_splits)
      obtain ret s1 where y: "z = (ret, s1)" by (cases z)
      obtain ret' s2 where e: "run_enable c s1 = (ret', s2)" by fastforce
      note e' = run_enable_root [OF e, of r]
      have IH: "clk_core_enable (cc_parent (cores s c)) (s\<lparr>clk_root_list := r\<rparr>) = Some (ret, s1\<lparr>clk_root_list := r\<rparr>)"
        using 1(1) [OF z] y by simp
      show ?thesis
      proof (cases "ret = 0 \<and> ret' \<noteq> 0")
        case False
        then show ?thesis using 1(2) Some True z y e e' IH
          by (subst clk_core_enable.simps) (auto simp: root_upd split: if_splits)
      next
        case f: True
        then obtain w where w: "clk_core_disable (cc_parent (cores s2 c)) s2 = Some w" "y = (ret', snd w)"
          using 1(2) Some True z y e by (auto split: Option.bind_splits)
        show ?thesis using f Some True e' IH clk_core_disable_root [OF w(1), of r] w(2)
          by (subst clk_core_enable.simps) (simp add: split_beta)
      qed
    qed
  qed
qed


section \<open>Clocks whose parents are settled\<close>

text \<open>
  \<open>parent_sel\<close>: the index of the parent that the hardware selects. \<open>quiet_ops\<close>: reading the parent
  and the rate changes nothing, and the parent depends on the \<open>frame\<close> of the hardware's state only.
  \<open>settled\<close>: the parent of a clock is the one it selects.
\<close>

definition parent_sel :: "'h clk_ops \<Rightarrow> nat \<Rightarrow> 'h \<Rightarrow> nat option" where
  "parent_sel ops n h = (case op_get_parent ops of
     Some f \<Rightarrow> if n > 1 then map_option (\<lambda>(i, _). unat i) (f h) else Some 0 | None \<Rightarrow> Some 0)"

definition quiet_ops :: "('h \<Rightarrow> 'f) \<Rightarrow> 'h clk_ops \<Rightarrow> bool" where
  "quiet_ops frame ops \<longleftrightarrow>
     (\<forall>f. op_get_parent ops = Some f \<longrightarrow> (\<forall>h. \<exists>i. \<forall>h'. frame h' = frame h \<longrightarrow> f h' = Some (i, h'))) \<and>
     (\<forall>f. op_recalc_rate ops = Some f \<longrightarrow> (\<forall>x h. \<exists>r. f x h = Some (r, h)))"

definition settled :: "'h clks \<Rightarrow> nat \<Rightarrow> bool" where
  "settled s c \<longleftrightarrow> (if cc_parents (cores s c) = [] then cc_parent (cores s c) = None
     else \<exists>i p. parent_sel (cc_ops (cores s c)) (length (cc_parents (cores s c))) (ck_hw s) = Some i \<and>
       i < length (cc_parents (cores s c)) \<and> pm_core (cc_parents (cores s c) ! i) = Some p \<and>
       cc_parent (cores s c) = Some p)"

lemma quiet_parent:
  assumes "quiet_ops frame ops" "op_get_parent ops = Some f"
  obtains i where "\<And>h'. frame h' = frame h \<Longrightarrow> f h' = Some (i, h')"
proof -
  have "\<exists>i. \<forall>h'. frame h' = frame h \<longrightarrow> f h' = Some (i, h')" using assms by (simp add: quiet_ops_def)
  then show ?thesis using that by blast
qed

lemma quiet_recalc: "quiet_ops frame ops \<Longrightarrow> op_recalc_rate ops = Some f \<Longrightarrow> \<exists>r. f x h = Some (r, h)"
  by (simp add: quiet_ops_def)

lemma parent_sel_frame:
  assumes "quiet_ops frame ops" "frame h' = frame h"
  shows "parent_sel ops n h' = parent_sel ops n h"
proof (cases "op_get_parent ops")
  case None then show ?thesis by (simp add: parent_sel_def)
next
  case (Some f)
  obtain i where "\<And>k. frame k = frame h \<Longrightarrow> f k = Some (i, k)"
    using quiet_parent [OF assms(1) Some, of h] by blast
  then show ?thesis using Some assms(2) by (simp add: parent_sel_def)
qed

lemma clk_init_parent_sel:
  assumes "quiet_ops frame (cc_ops (cores s c))" "cc_parents (cores s c) \<noteq> []"
    "parent_sel (cc_ops (cores s c)) (length (cc_parents (cores s c))) (ck_hw s) = Some i"
  shows "clk_init_parent c s = clk_core_get_parent_by_index c i s"
proof (cases "op_get_parent (cc_ops (cores s c))")
  case None then show ?thesis using assms(2,3) by (simp add: clk_init_parent_def parent_sel_def)
next
  case (Some f)
  obtain j where "f (ck_hw s) = Some (j, ck_hw s)" using quiet_parent [OF assms(1) Some, of "ck_hw s"] by blast
  then show ?thesis using Some assms(2,3) by (auto simp: clk_init_parent_def parent_sel_def split: if_splits)
qed

lemma settled_init:
  assumes "quiet_ops frame (cc_ops (cores s c))" "settled s c"
  shows "clk_init_parent c s = Some (cc_parent (cores s c), s)"
proof (cases "cc_parents (cores s c) = []")
  case True then show ?thesis using assms(2) by (simp add: settled_def clk_init_parent_def)
next
  case False
  then show ?thesis using assms(2) clk_init_parent_sel [OF assms(1) False]
    by (auto simp: settled_def clk_core_get_parent_by_index_def)
qed

lemma settled_cong:
  assumes "settled s c" "quiet_ops frame (cc_ops (cores s c))" "frame (ck_hw s') = frame (ck_hw s)"
    "cc_ops (cores s' c) = cc_ops (cores s c)" "cc_parents (cores s' c) = cc_parents (cores s c)"
    "cc_parent (cores s' c) = cc_parent (cores s c)"
  shows "settled s' c"
proof -
  have "parent_sel (cc_ops (cores s c)) n (ck_hw s') = parent_sel (cc_ops (cores s c)) n (ck_hw s)" for n
    by (rule parent_sel_frame [OF assms(2,3)])
  then show ?thesis using assms(1) unfolding settled_def assms(4-6) by (simp only:)
qed

text \<open>
  \<open>clks_ready\<close>: the counters and gates are those of the uses \<open>u\<close>, and the parents of the clocks in \<open>S\<close>
  are settled.
\<close>

definition clks_ready :: "(nat \<Rightarrow> ('h \<Rightarrow> int \<times> 'h) option) \<Rightarrow> (nat \<Rightarrow> ('h \<Rightarrow> 'h) option) \<Rightarrow>
    (nat \<Rightarrow> 'h \<Rightarrow> bool) \<Rightarrow> ('h \<Rightarrow> 'f) \<Rightarrow> (nat \<Rightarrow> nat) \<Rightarrow> nat set \<Rightarrow> 'h clks \<Rightarrow> counts \<Rightarrow> bool" where
  "clks_ready en dis on frame rank S s u \<longleftrightarrow> clk_driven en dis on rank s u \<and>
     S \<subseteq> set (clk_root_list s) \<and> (\<forall>c \<in> set (clk_root_list s). quiet_ops frame (cc_ops (cores s c))) \<and>
     (\<forall>c \<in> S. settled s c)"

lemma ready_get_rate:
  assumes "clks_ready en dis on frame rank S s u" "c \<in> S"
  shows "\<exists>r. clk_core_get_rate c s = Some (r, s)"
proof -
  have c: "c \<in> set (clk_root_list s)" "quiet_ops frame (cc_ops (cores s c))" "settled s c" "clk_tree rank s"
    using assms by (auto simp: clks_ready_def clk_driven_def)
  have "rates_read s" using assms(1) by (simp add: clks_ready_def quiet_ops_def rates_read_def)
  then obtain r where r: "clk_core_recalc_rate c (cc_parent (cores s c)) s = Some (r, s)"
    using recalc_reads [OF c(4) _ c(1)] by blast
  have "upd_core c (\<lambda>x. x\<lparr>cc_parent := cc_parent (cores s c)\<rparr>) s = s" by (simp add: upd_core_def)
  then show ?thesis using settled_init [OF c(2,3)] r by (simp add: clk_core_get_rate_def)
qed

lemma balanced_cong:
  assumes "balanced D par n u" "\<And>d. d \<in> D \<Longrightarrow> par' d = par d \<and> n' d = n d"
  shows "balanced D par' n' u"
proof -
  have "held_by D par' n' c = held_by D par n c" for c using assms(2) by (auto simp: held_by_def)
  then show ?thesis using assms by (simp add: balanced_def)
qed

lemma ready_cong:
  assumes "clks_ready en dis on frame rank S s u" "clk_root_list s' = clk_root_list s"
    "\<And>d. d \<in> set (clk_root_list s) \<Longrightarrow> cores s' d = cores s d"
    "frame (ck_hw s') = frame (ck_hw s)" "\<And>d. on d (ck_hw s') = on d (ck_hw s)"
  shows "clks_ready en dis on frame rank S s' u"
proof -
  have "clk_tree rank s" using assms(1) by (simp add: clks_ready_def clk_driven_def)
  then have "clk_tree rank s'" unfolding clk_tree_def parent_of_def assms(2) using assms(3) by simp
  moreover have "balanced (set (clk_root_list s)) (parent_of s') (held s') u"
    by (rule balanced_cong) (use assms(1,3) in \<open>auto simp: clks_ready_def clk_driven_def parent_of_def held_def\<close>)
  moreover have "held s' d = held s d" if "d \<in> set (clk_root_list s)" for d using assms(3) that by (simp add: held_def)
  moreover have "settled s' c" if "c \<in> S" for c
    using settled_cong [of s c frame s'] assms(1,3,4) that by (auto simp: clks_ready_def)
  ultimately show ?thesis using assms by (simp add: clks_ready_def clk_driven_def)
qed

section \<open>Registering one clock\<close>

definition parent_found :: "clk_parent_map \<Rightarrow> 'h clks \<Rightarrow> nat option" where
  "parent_found e s = (case pm_hw e of
     Some w \<Rightarrow> if w \<in> set (clk_root_list s) then Some w else None
   | None \<Rightarrow> (case pm_name e of None \<Rightarrow> None | Some n \<Rightarrow> clk_core_get_by_name n s))"

lemma parent_found_root: "parent_found e s = Some p \<Longrightarrow> p \<in> set (clk_root_list s)"
  by (auto simp: parent_found_def clk_core_get_by_name_def find_Some_iff split: option.splits if_splits)

lemma parent_by_index_found:
  assumes "i < length (cc_parents (cores s c))" "pm_core (cc_parents (cores s c) ! i) = None"
    "pm_hw (cc_parents (cores s c) ! i) \<noteq> None \<or> pm_name (cc_parents (cores s c) ! i) \<noteq> None"
  shows "clk_core_get_parent_by_index c i s = Some (parent_found (cc_parents (cores s c) ! i) s,
    case parent_found (cc_parents (cores s c) ! i) s of None \<Rightarrow> s | Some p \<Rightarrow> set_parent_core c i p s)"
  using assms by (auto simp: clk_core_get_parent_by_index_def clk_core_fill_parent_index_def clk_core_get_by_pindex_def
    parent_found_def set_parent_core_def split: option.splits)

text \<open>
  \<open>joins\<close>: the new clock \<open>c\<close> is switched by its own gate, which is closed, and the parent it selects
  is \<open>p\<close>, one of the settled clocks \<open>S\<close>; without a \<open>p\<close> it has no parents or selects one that is not
  registered.
\<close>

definition joins :: "(nat \<Rightarrow> ('h \<Rightarrow> int \<times> 'h) option) \<Rightarrow> (nat \<Rightarrow> ('h \<Rightarrow> 'h) option) \<Rightarrow> (nat \<Rightarrow> 'h \<Rightarrow> bool) \<Rightarrow>
    ('h \<Rightarrow> 'f) \<Rightarrow> (nat \<Rightarrow> nat) \<Rightarrow> nat set \<Rightarrow> 'h clks \<Rightarrow> nat \<Rightarrow> 'h clk_init_data \<Rightarrow> nat option \<Rightarrow> bool" where
  "joins en dis on frame rank S s c ini p \<longleftrightarrow> c \<notin> set (clk_root_list s) \<and>
     switched (en c) (dis c) (in_ops ini) \<and> quiet_ops frame (in_ops ini) \<and>
     (en c \<noteq> None \<longrightarrow> \<not> on c (ck_hw s)) \<and> (\<forall>q. p = Some q \<longrightarrow> q \<in> S \<and> rank q < rank c) \<and>
     (let n = unat (in_num_parents ini); es = parent_maps (in_parents ini)
      in if n = 0 then p = None else in_parents ini \<noteq> No_parents \<and> n \<le> length es \<and>
        (\<exists>i. parent_sel (in_ops ini) n (ck_hw s) = Some i \<and>
          (if i < n then (pm_hw (es ! i) \<noteq> None \<or> pm_name (es ! i) \<noteq> None) \<and> parent_found (es ! i) s = p else p = None)))"

definition now_settled :: "nat \<Rightarrow> 'h clk_init_data \<Rightarrow> nat option \<Rightarrow> nat set \<Rightarrow> nat set" where
  "now_settled c ini p S = (if in_num_parents ini = 0 \<or> p \<noteq> None then insert c S else S)"

lemma parent_maps_core: "e \<in> set (parent_maps ps) \<Longrightarrow> pm_core e = None"
  by (auto simp: parent_maps_def split: clk_init_parents.splits)

definition joining :: "'h clk_init_data \<Rightarrow> clk_parent_map list \<Rightarrow> 'h clk_core \<Rightarrow> bool" where
  "joining ini es x \<longleftrightarrow> cc_ops x = in_ops ini \<and> cc_flags x = in_flags ini \<and> cc_enable_count x = 0 \<and>
     cc_parents x = es \<and> cc_name x = in_name ini"

lemma init_found:
  assumes "joins en dis on frame rank S s c ini p" "joining ini (take (unat (in_num_parents ini)) (parent_maps (in_parents ini))) (cores s c)"
    "in_num_parents ini = 0 \<longrightarrow> cc_parents (cores s c) = []"
  shows "\<exists>es. clk_init_parent c s = Some (p, upd_core c (\<lambda>x. x\<lparr>cc_parents := es\<rparr>) s) \<and>
    (in_num_parents ini = 0 \<or> p \<noteq> None \<longrightarrow> settled (upd_core c (\<lambda>x. x\<lparr>cc_parents := es, cc_parent := p\<rparr>) s) c)"
proof (cases "in_num_parents ini = 0")
  case True
  then have "p = None" "cc_parents (cores s c) = []" using assms(1,3) by (simp_all add: joins_def)
  moreover from this have "upd_core c (\<lambda>x. x\<lparr>cc_parents := []\<rparr>) s = s"
    by (simp add: upd_core_def fun_upd_idem)
  ultimately show ?thesis
    by (intro exI [of _ "[]"]) (simp add: clk_init_parent_def settled_def)
next
  case False
  let ?n = "unat (in_num_parents ini)" and ?es = "parent_maps (in_parents ini)"
  have n: "?n \<noteq> 0" using False by (simp add: unat_eq_0)
  then obtain i where i: "?n \<le> length ?es" "parent_sel (in_ops ini) ?n (ck_hw s) = Some i"
    "if i < ?n then (pm_hw (?es ! i) \<noteq> None \<or> pm_name (?es ! i) \<noteq> None) \<and> parent_found (?es ! i) s = p else p = None"
    "quiet_ops frame (in_ops ini)"
    using assms(1) by (auto simp: joins_def Let_def)
  have c: "cc_ops (cores s c) = in_ops ini" "cc_parents (cores s c) = take ?n ?es" using assms(2) by (simp_all add: joining_def)
  have len: "length (take ?n ?es) = ?n" "take ?n ?es \<noteq> []" using i(1) n by auto
  have e: "clk_init_parent c s = clk_core_get_parent_by_index c i s"
    by (rule clk_init_parent_sel) (use c i(2,4) len in simp_all)
  have same: "upd_core c (\<lambda>x. x\<lparr>cc_parents := take ?n ?es\<rparr>) s = s"
  proof -
    have "(cores s c)\<lparr>cc_parents := take ?n ?es\<rparr> = cores s c" using c(2) by simp
    then show ?thesis by (simp add: upd_core_def)
  qed
  show ?thesis
  proof (cases p)
    case None
    then have "clk_core_get_parent_by_index c i s = Some (None, s)"
    proof (cases "i < ?n")
      case True
      then have "pm_core (?es ! i) = None" using i(1) parent_maps_core nth_mem by (metis order_less_le_trans)
      then show ?thesis using parent_by_index_found [of i s c] True i(3) c len None by simp
    next
      case False
      then show ?thesis using c len by (simp add: clk_core_get_parent_by_index_def)
    qed
    then show ?thesis using e None same False by (intro exI [of _ "take ?n ?es"]) simp
  next
    case (Some q)
    then have l: "i < ?n" using i(3) by (auto split: if_splits)
    then have "pm_core (?es ! i) = None" using i(1) parent_maps_core nth_mem by (metis order_less_le_trans)
    then have g: "clk_core_get_parent_by_index c i s = Some (Some q, set_parent_core c i q s)"
      using parent_by_index_found [of i s c] l i(3) c len Some by simp
    let ?es' = "(take ?n ?es)[i := (take ?n ?es ! i)\<lparr>pm_core := Some q\<rparr>]"
    have "set_parent_core c i q s = upd_core c (\<lambda>x. x\<lparr>cc_parents := ?es'\<rparr>) s"
      using c(2) by (simp add: set_parent_core_def upd_core_def)
    moreover have "settled (upd_core c (\<lambda>x. x\<lparr>cc_parents := ?es', cc_parent := Some q\<rparr>) s) c"
      using l i(2) c(1) len by (auto simp: settled_def)
    ultimately show ?thesis using e g Some by metis
  qed
qed

text \<open>A clock that is held by nobody, or by the framework, is added to the clocks.\<close>

lemma balanced_insert:
  assumes "balanced D par n u" "finite D" "c \<notin> D" "n c = 0" "\<And>d. d \<in> D \<Longrightarrow> par d \<noteq> Some c"
  shows "balanced (insert c D) par n (u(c := 0))"
proof -
  have "held_by (insert c D) par n d = held_by D par n d" for d using assms(4) by (auto simp: held_by_def)
  moreover have "held_by D par n c = {}" using assms(5) by (auto simp: held_by_def)
  ultimately show ?thesis using assms(1,3,4) by (auto simp: balanced_def)
qed

lemma ready_insert:
  assumes "clks_ready en dis on frame rank S s u" "c \<notin> set (clk_root_list s)" "held s c = 0"
    "switched (en c) (dis c) (cc_ops (cores s c))" "quiet_ops frame (cc_ops (cores s c))"
    "en c \<noteq> None \<longrightarrow> \<not> on c (ck_hw s)" "\<forall>q. cc_parent (cores s c) = Some q \<longrightarrow> q \<in> S \<and> rank q < rank c"
    "S' \<subseteq> insert c S" "c \<in> S' \<longrightarrow> settled s c"
  shows "clks_ready en dis on frame rank S' (s\<lparr>clk_root_list := clk_root_list s @ [c]\<rparr>) (u(c := 0))"
proof -
  let ?s = "s\<lparr>clk_root_list := clk_root_list s @ [c]\<rparr>" and ?D = "set (clk_root_list s)"
  have f: "parent_of ?s = parent_of s" "held ?s = held s" by (simp_all add: parent_of_def held_def)
  have up: "parent_of s d \<noteq> Some c" if "d \<in> ?D" for d
    using assms(1,2) that by (auto simp: clks_ready_def clk_driven_def clk_tree_def dest!: bspec)
  have "balanced (insert c ?D) (parent_of s) (held s) (u(c := 0))"
    by (rule balanced_insert) (use assms(1-3) up in \<open>auto simp: clks_ready_def clk_driven_def\<close>)
  moreover have "S \<subseteq> ?D" using assms(1) by (simp add: clks_ready_def)
  moreover have "clk_tree rank ?s"
    using assms(1,7) \<open>S \<subseteq> ?D\<close> unfolding clks_ready_def clk_driven_def clk_tree_def f
    by (auto simp: parent_of_def split: option.splits)
  moreover have "settled ?s d \<longleftrightarrow> settled s d" for d by (simp add: settled_def)
  ultimately show ?thesis
    using assms unfolding clks_ready_def clk_driven_def f by auto
qed

text \<open>Memory for the registration is always there, and allocating it changes no register.\<close>

definition heap_quiet :: "('h \<Rightarrow> 'f) \<Rightarrow> (nat \<Rightarrow> 'h \<Rightarrow> bool) \<Rightarrow> 'h clk_heap \<Rightarrow> bool" where
  "heap_quiet frame on A \<longleftrightarrow> (\<forall>ob h. \<exists>h'. ch_malloc A ob h = (True, h') \<and> frame h' = frame h \<and> (\<forall>d. on d h' = on d h))"

lemma heap_quietE:
  assumes "heap_quiet frame on A"
  obtains h' where "clk_malloc A ob s = (True, s\<lparr>ck_hw := h'\<rparr>)" "frame h' = frame (ck_hw s)" "\<And>d. on d h' = on d (ck_hw s)"
proof -
  obtain h' where "ch_malloc A ob (ck_hw s) = (True, h')" "frame h' = frame (ck_hw s)" "\<forall>d. on d h' = on d (ck_hw s)"
    using assms unfolding heap_quiet_def by blast
  then show ?thesis using that by (simp add: clk_malloc_def)
qed

lemma joins_cong:
  assumes "joins en dis on frame rank S s c ini p" "clk_root_list s' = clk_root_list s"
    "\<And>d. d \<in> set (clk_root_list s) \<Longrightarrow> cc_name (cores s' d) = cc_name (cores s d)"
    "frame (ck_hw s') = frame (ck_hw s)" "\<And>d. on d (ck_hw s') = on d (ck_hw s)"
  shows "joins en dis on frame rank S s' c ini p"
proof -
  have "find (\<lambda>d. cc_name (cores s' d) = n) (clk_root_list s) = find (\<lambda>d. cc_name (cores s d) = n) (clk_root_list s)" for n
    by (rule find_cong) (use assms(3) in simp_all)
  then have f: "parent_found e s' = parent_found e s" for e
    by (simp add: parent_found_def clk_core_get_by_name_def assms(2) cong: option.case_cong)
  have "quiet_ops frame (in_ops ini)" using assms(1) by (simp add: joins_def)
  then have sel: "parent_sel (in_ops ini) n (ck_hw s') = parent_sel (in_ops ini) n (ck_hw s)" for n
    using parent_sel_frame assms(4) by metis
  show ?thesis using assms(1) unfolding joins_def assms(2,5) f sel .
qed

section \<open>Tables of clocks\<close>

text \<open>
  What is known of the clocks registered so far: their numbers, their names, their parents, and
  whether they are settled. \<open>clk_fits\<close> checks a new clock against them and the state \<open>h\<close> of the hardware, and
  \<open>table_fits\<close> a whole table.
\<close>

type_synonym known = "(nat \<times> string \<times> nat option \<times> bool) list"

definition known_parent :: "known \<Rightarrow> clk_parent_map \<Rightarrow> nat option" where
  "known_parent ks e = (case pm_hw e of
     Some w \<Rightarrow> if w \<in> fst ` set ks then Some w else None
   | None \<Rightarrow> (case pm_name e of None \<Rightarrow> None | Some n \<Rightarrow> map_option fst (find (\<lambda>(c, m, _). m = n) ks)))"

definition first_parent :: "known \<Rightarrow> 'h \<Rightarrow> 'h clk_init_data \<Rightarrow> nat option" where
  "first_parent ks h ini = (let n = unat (in_num_parents ini) in if n = 0 then None
     else (case parent_sel (in_ops ini) n h of None \<Rightarrow> None
       | Some i \<Rightarrow> if i < n then known_parent ks (parent_maps (in_parents ini) ! i) else None))"

definition clk_fits :: "(nat \<Rightarrow> ('h \<Rightarrow> int \<times> 'h) option) \<Rightarrow> (nat \<Rightarrow> ('h \<Rightarrow> 'h) option) \<Rightarrow> (nat \<Rightarrow> 'h \<Rightarrow> bool) \<Rightarrow>
    ('h \<Rightarrow> 'f) \<Rightarrow> 'h \<Rightarrow> known \<Rightarrow> nat \<Rightarrow> 'h clk_init_data \<Rightarrow> bool" where
  "clk_fits en dis on frame h ks c ini \<longleftrightarrow> c \<notin> fst ` set ks \<and>
     switched (en c) (dis c) (in_ops ini) \<and> quiet_ops frame (in_ops ini) \<and>
     (en c \<noteq> None \<longrightarrow> \<not> on c h) \<and> (\<forall>q. first_parent ks h ini = Some q \<longrightarrow> (\<exists>m p. (q, m, p, True) \<in> set ks)) \<and>
     (let n = unat (in_num_parents ini); es = parent_maps (in_parents ini)
      in n = 0 \<or> in_parents ini \<noteq> No_parents \<and> n \<le> length es \<and>
        (\<exists>i. parent_sel (in_ops ini) n h = Some i \<and> (i < n \<longrightarrow> pm_hw (es ! i) \<noteq> None \<or> pm_name (es ! i) \<noteq> None)))"

definition know :: "known \<Rightarrow> 'h \<Rightarrow> nat \<Rightarrow> 'h clk_init_data \<Rightarrow> known" where
  "know ks h c ini = ks @ [(c, in_name ini, first_parent ks h ini, in_num_parents ini = 0 \<or> first_parent ks h ini \<noteq> None)]"

fun know_all :: "known \<Rightarrow> 'h \<Rightarrow> (nat \<times> 'h clk_init_data) list \<Rightarrow> known" where
  "know_all ks h [] = ks"
| "know_all ks h ((c, ini) # tab) = know_all (know ks h c ini) h tab"

fun table_fits :: "(nat \<Rightarrow> ('h \<Rightarrow> int \<times> 'h) option) \<Rightarrow> (nat \<Rightarrow> ('h \<Rightarrow> 'h) option) \<Rightarrow> (nat \<Rightarrow> 'h \<Rightarrow> bool) \<Rightarrow>
    ('h \<Rightarrow> 'f) \<Rightarrow> 'h \<Rightarrow> known \<Rightarrow> (nat \<times> 'h clk_init_data) list \<Rightarrow> bool" where
  "table_fits en dis on frame h ks [] = True"
| "table_fits en dis on frame h ks ((c, ini) # tab) =
     (clk_fits en dis on frame h ks c ini \<and> table_fits en dis on frame h (know ks h c ini) tab)"

definition is_critical :: "u64 \<Rightarrow> bool" where
  "is_critical flags \<longleftrightarrow> flags AND CLK_IS_CRITICAL \<noteq> 0"

fun own_uses :: "(nat \<times> 'h clk_init_data) list \<Rightarrow> counts \<Rightarrow> counts" where
  "own_uses [] u = u"
| "own_uses ((c, ini) # tab) u = own_uses tab (u(c := if is_critical (in_flags ini) then 1 else 0))"

text \<open>Clocks are ranked in the order of their registration.\<close>

definition rank_in :: "nat list \<Rightarrow> nat \<Rightarrow> nat" where
  "rank_in cs c = length (takeWhile (\<lambda>x. x \<noteq> c) cs)"

lemma rank_in_earlier:
  assumes "p \<in> set cs" "c \<notin> set cs"
  shows "rank_in (cs @ c # ds) p < rank_in (cs @ c # ds) c"
proof -
  have "length (takeWhile (\<lambda>x. x \<noteq> p) cs) < length cs"
    using assms(1) by (induction cs) auto
  moreover have "takeWhile (\<lambda>x. x \<noteq> c) (cs @ c # ds) = cs" using assms(2) by (induction cs) auto
  moreover have "takeWhile (\<lambda>x. x \<noteq> p) (cs @ c # ds) = takeWhile (\<lambda>x. x \<noteq> p) cs"
    using assms(1) by (auto simp: takeWhile_append1)
  ultimately show ?thesis by (simp add: rank_in_def)
qed

text \<open>The state \<open>s\<close> after the registration of the clocks \<open>ks\<close>.\<close>

definition clks_known :: "(nat \<Rightarrow> 'h \<Rightarrow> bool) \<Rightarrow> ('h \<Rightarrow> 'f) \<Rightarrow> 'h \<Rightarrow> known \<Rightarrow> 'h clks \<Rightarrow> bool" where
  "clks_known on frame h ks s \<longleftrightarrow> clk_root_list s = map fst ks \<and> (\<forall>(c, m, p, _) \<in> set ks. cc_name (cores s c) = m \<and> cc_parent (cores s c) = p) \<and>
     frame (ck_hw s) = frame h \<and> (\<forall>d. d \<notin> fst ` set ks \<longrightarrow> on d (ck_hw s) = on d h)"

definition settled_of :: "known \<Rightarrow> nat set" where
  "settled_of ks = {c. \<exists>m p. (c, m, p, True) \<in> set ks}"

lemma find_map_fst: "(\<And>k. k \<in> set ks \<Longrightarrow> P (f k) = Q k) \<Longrightarrow> find P (map f ks) = map_option f (find Q ks)"
  by (induction ks) auto

lemma known_parent_found:
  assumes "clks_known on frame h ks s"
  shows "parent_found e s = known_parent ks e"
proof -
  have "find (\<lambda>d. cc_name (cores s d) = n) (map fst ks) = map_option fst (find (\<lambda>(c, m, _). m = n) ks)" for n
    by (rule find_map_fst) (use assms in \<open>auto simp: clks_known_def\<close>)
  then show ?thesis using assms
    by (simp add: parent_found_def known_parent_def clks_known_def clk_core_get_by_name_def cong: option.case_cong)
qed

lemma fits_joins:
  assumes "clk_fits en dis on frame h ks c ini" "clks_known on frame h ks s"
    "\<And>q. q \<in> settled_of ks \<Longrightarrow> rank q < rank c"
  shows "joins en dis on frame rank (settled_of ks) s c ini (first_parent ks h ini)"
proof -
  have f: "quiet_ops frame (in_ops ini)" "frame (ck_hw s) = frame h" "clk_root_list s = map fst ks"
    "c \<notin> fst ` set ks" "on c (ck_hw s) = on c h"
    using assms(1,2) by (auto simp: clk_fits_def clks_known_def)
  have sel: "parent_sel (in_ops ini) n (ck_hw s) = parent_sel (in_ops ini) n h" for n
    by (rule parent_sel_frame [OF f(1,2)])
  show ?thesis
    using assms(1,3) f(3-5) unfolding joins_def sel known_parent_found [OF assms(2)] clk_fits_def first_parent_def settled_of_def
    by (auto simp: Let_def)
qed

lemma table_fits_append:
  "table_fits en dis on frame h ks (xs @ ys) \<longleftrightarrow>
     table_fits en dis on frame h ks xs \<and> table_fits en dis on frame h (know_all ks h xs) ys"
  by (induction xs arbitrary: ks) auto

lemma know_all_append: "know_all ks h (xs @ ys) = know_all (know_all ks h xs) h ys"
  by (induction xs arbitrary: ks) auto

lemma own_uses_append: "own_uses (xs @ ys) u = own_uses ys (own_uses xs u)"
  by (induction xs arbitrary: u) auto

lemma own_uses_le: "(\<And>d. u d \<le> 1) \<Longrightarrow> own_uses tab u d \<le> 1"
  by (induction tab arbitrary: u) auto

lemma know_all_fst: "map fst (know_all ks h tab) = map fst ks @ map fst tab"
  by (induction tab arbitrary: ks) (auto simp: know_def)

text \<open>The uses of the framework itself are added to those of its clients.\<close>

lemma uses_plus:
  assumes "fair_calls cs calls u"
  shows "uses calls (\<lambda>c. v c + u c) = (\<lambda>c. v c + uses calls u c)" and "fair_calls cs calls (\<lambda>c. v c + u c)"
proof -
  have "uses calls (\<lambda>c. v c + u c) = (\<lambda>c. v c + uses calls u c) \<and> fair_calls cs calls (\<lambda>c. v c + u c)"
    using assms
  proof (induction cs calls u rule: fair_calls.induct)
    case (2 cs c calls u)
    have "(\<lambda>c. v c + u c)(c := v c + u c + 1) = (\<lambda>d. v d + (u(c := u c + 1)) d)" by auto
    then show ?case using 2 by (simp del: fun_upd_apply)
  next
    case (3 cs c calls u)
    then have "(\<lambda>c. v c + u c)(c := v c + u c - 1) = (\<lambda>d. v d + (u(c := u c - 1)) d)" by auto
    then show ?case using 3 by (simp del: fun_upd_apply)
  qed simp
  then show "uses calls (\<lambda>c. v c + u c) = (\<lambda>c. v c + uses calls u c)" "fair_calls cs calls (\<lambda>c. v c + u c)" by auto
qed

definition fixed_hws :: "(nat \<Rightarrow> nat) \<Rightarrow> nat list" where
  "fixed_hws w = [w CLK_SRC_HOSC24M, w CLK_SRC_LOSC, w CLK_SRC_RC_16M, w CLK_SRC_EXT_32K]"

definition fixed_table :: "(nat \<Rightarrow> nat) \<Rightarrow> (nat \<times> 'h clk_init_data) list" where
  "fixed_table w = [(w CLK_SRC_HOSC24M, fixed_rate_init ''dcxo24M'' None 0 24000000),
     (w CLK_SRC_LOSC, fixed_rate_init ''fix_losc'' None 0 32768),
     (w CLK_SRC_RC_16M, fixed_rate_init ''rc-16m'' None 0 16000000),
     (w CLK_SRC_EXT_32K, fixed_rate_init ''ext-32k'' None 0 32768)]"

lemma table_fits_distinct:
  "table_fits en dis on frame h ks tab \<Longrightarrow> distinct (map fst ks) \<Longrightarrow> distinct (map fst ks @ map fst tab)"
proof (induction tab arbitrary: ks)
  case (Cons e tab)
  obtain c ini where e: "e = (c, ini)" by (cases e)
  have "c \<notin> fst ` set ks" using Cons.prems(1) e by (simp add: clk_fits_def)
  then have "distinct (map fst (know ks h c ini))" using Cons.prems(2) by (simp add: know_def)
  then show ?case using Cons.IH [of "know ks h c ini"] Cons.prems(1) e by (auto simp: know_def)
qed simp

lemma own_uses_other: "c \<notin> fst ` set tab \<Longrightarrow> own_uses tab u c = u c"
  by (induction tab arbitrary: u) auto

lemma own_uses_critical:
  assumes "distinct (map fst tab)" "c \<in> fst ` set tab"
  shows "0 < own_uses tab u c \<longleftrightarrow> (\<exists>ini. (c, ini) \<in> set tab \<and> is_critical (in_flags ini))"
  using assms
proof (induction tab arbitrary: u)
  case (Cons e tab)
  obtain d ini where e: "e = (d, ini)" by (cases e)
  show ?case
  proof (cases "c = d")
    case True
    then have "c \<notin> fst ` set tab" using Cons.prems(1) e by simp
    moreover from this have "(c, i) \<notin> set tab" for i by force
    ultimately show ?thesis using e True own_uses_other [of c tab] by auto
  next
    case False
    then show ?thesis using Cons e by auto
  qed
qed simp

definition reset_of :: "u64 \<Rightarrow> 'h sunxi_ccu_desc \<Rightarrow> ccu_reset" where
  "reset_of base d = \<lparr>rs_base = base, reset_map = ds_resets d, rs_type = ds_reset_type d, nr_resets = ds_num_resets d\<rparr>"

lemma driven_open:
  assumes "clk_driven en dis on rank s u" "c \<in> set (clk_root_list s)" "en c \<noteq> None"
  shows "on c (ck_hw s) = (\<exists>d \<in> set (clk_root_list s). 0 < u d \<and> below (parent_of s) d c)"
proof -
  have "0 < held s c \<longleftrightarrow> (\<exists>d \<in> set (clk_root_list s). 0 < u d \<and> below (parent_of s) d c)"
    by (rule balanced_held [where rank = rank])
      (use assms in \<open>auto simp: clk_driven_def clk_tree_def split: option.splits\<close>)
  then show ?thesis using assms by (simp add: clk_driven_def)
qed

context clk_gates
begin

lemma ready_enable:
  assumes "clks_ready en dis on frame rank S s u" "c \<in> set (clk_root_list s)"
    "\<forall>d \<in> set (clk_root_list s). held s d < 2 ^ 32 - 1"
  shows "\<exists>s'. clk_core_enable (Some c) s = Some (0, s') \<and> clks_ready en dis on frame rank S s' (u(c := u c + 1)) \<and>
    same_clks s s' \<and> frame (ck_hw s') = frame (ck_hw s) \<and> (\<forall>d. d \<notin> set (clk_root_list s) \<longrightarrow> on d (ck_hw s') = on d (ck_hw s))"
proof -
  obtain s' where s': "clk_core_enable (Some c) s = Some (0, s')" "clk_driven en dis on rank s' (u(c := u c + 1))"
    "same_clks s s'" "frame (ck_hw s') = frame (ck_hw s)" "\<forall>d. d \<notin> set (clk_root_list s) \<longrightarrow> on d (ck_hw s') = on d (ck_hw s)"
    using enable_counts [of rank s u c] assms by (auto simp: clks_ready_def)
  have eq: "cc_ops (cores s' d) = cc_ops (cores s d)" "cc_parent (cores s' d) = cc_parent (cores s d)"
    "cc_parents (cores s' d) = cc_parents (cores s d)" for d
    using same_clks_ops [OF s'(3)] same_clks_parent [OF s'(3)] s'(3)
    by (simp_all add: parent_of_def fun_eq_iff) (simp add: same_clks_def, metis clk_core.select_convs(7) clk_core.surjective clk_core.update_convs(10))
  have "clk_root_list s' = clk_root_list s" using s'(3) by (simp add: same_clks_def)
  moreover have "settled s' d" if "d \<in> S" for d
    by (rule settled_cong [of s d frame]) (use assms(1) that eq s'(4) in \<open>auto simp: clks_ready_def\<close>)
  ultimately have "clks_ready en dis on frame rank S s' (u(c := u c + 1))"
    using assms(1) s'(2) by (simp add: clks_ready_def eq)
  then show ?thesis using s' by blast
qed

lemma ready_insert_enable:
  assumes "clks_ready en dis on frame rank S' (s\<lparr>clk_root_list := clk_root_list s @ [c]\<rparr>) (u(c := 0))"
    "\<forall>d \<in> insert c (set (clk_root_list s)). held s d < 2 ^ 32 - 1"
  shows "\<exists>s'. clk_core_enable (Some c) s = Some (0, s') \<and>
    clks_ready en dis on frame rank S' (s'\<lparr>clk_root_list := clk_root_list s' @ [c]\<rparr>) (u(c := 1)) \<and> same_clks s s' \<and>
    frame (ck_hw s') = frame (ck_hw s) \<and> (\<forall>d. d \<notin> insert c (set (clk_root_list s)) \<longrightarrow> on d (ck_hw s') = on d (ck_hw s))"
proof -
  let ?s = "s\<lparr>clk_root_list := clk_root_list s @ [c]\<rparr>"
  have "\<forall>d \<in> set (clk_root_list ?s). held ?s d < 2 ^ 32 - 1" using assms(2) by (simp add: held_def)
  then obtain s1 where s1: "clk_core_enable (Some c) ?s = Some (0, s1)" "clks_ready en dis on frame rank S' s1 (u(c := 1))"
    "same_clks ?s s1" "frame (ck_hw s1) = frame (ck_hw ?s)"
    "\<forall>d. d \<notin> set (clk_root_list ?s) \<longrightarrow> on d (ck_hw s1) = on d (ck_hw ?s)"
    using ready_enable [OF assms(1), of c] by auto
  let ?s' = "s1\<lparr>clk_root_list := clk_root_list s\<rparr>"
  have r: "clk_root_list s1 = clk_root_list s @ [c]" using s1(3) by (simp add: same_clks_def)
  have "clk_core_enable (Some c) s = Some (0, ?s')"
    using clk_core_enable_root [OF s1(1), of "clk_root_list s"] by simp
  moreover have "?s'\<lparr>clk_root_list := clk_root_list ?s' @ [c]\<rparr> = s1" using r by (cases s1) simp
  moreover have "same_clks s ?s'" using s1(3) by (simp add: same_clks_def)
  ultimately show ?thesis using s1(2,4,5) by (intro exI [of _ ?s']) simp
qed

lemma first_rate_ready:
  assumes "clks_ready en dis on frame rank S s u" "quiet_ops frame (cc_ops (cores s c))" "\<forall>q. p = Some q \<longrightarrow> q \<in> S \<and> rank q < rank c"
  shows "\<exists>rate. clk_first_rate c p s = Some (rate, s)"
proof -
  obtain p_rate where pr: "(case p of None \<Rightarrow> Some (0, s) | Some p \<Rightarrow> clk_core_get_rate p s) = Some (p_rate, s)"
    using ready_get_rate [OF assms(1)] assms(3) by (cases p) auto
  show ?thesis
  proof (cases "op_recalc_rate (cc_ops (cores s c))")
    case None then show ?thesis by (simp add: clk_first_rate_def)
  next
    case (Some f)
    obtain x where "f (ucast p_rate) (ck_hw s) = Some (x, ck_hw s)"
      using quiet_recalc [OF assms(2) Some, of "ucast p_rate" "ck_hw s"] by blast
    then show ?thesis using Some pr by (simp add: clk_first_rate_def)
  qed
qed

lemma init_joined:
  assumes j: "joins en dis on frame rank S s c ini p" and r: "clks_ready en dis on frame rank S s u"
    and c: "joining ini (take (unat (in_num_parents ini)) (parent_maps (in_parents ini))) (cores s c)"
      "in_num_parents ini = 0 \<longrightarrow> cc_parents (cores s c) = []"
    and low: "\<forall>d \<in> set (clk_root_list s). held s d < 2 ^ 32 - 1"
  shows "\<exists>s'. clk_core_init c s = Some (0, s') \<and> clk_root_list s' = clk_root_list s \<and>
    clks_ready en dis on frame rank (now_settled c ini p S) (s'\<lparr>clk_root_list := clk_root_list s @ [c]\<rparr>)
      (u(c := if in_flags ini AND CLK_IS_CRITICAL \<noteq> 0 then 1 else 0)) \<and>
    (\<forall>d \<in> set (clk_root_list s). cores s' d = (cores s d)\<lparr>cc_enable_count := cc_enable_count (cores s' d)\<rparr>) \<and>
    cc_name (cores s' c) = in_name ini \<and> cc_parent (cores s' c) = p \<and> frame (ck_hw s') = frame (ck_hw s) \<and>
    (\<forall>d. d \<notin> insert c (set (clk_root_list s)) \<longrightarrow> on d (ck_hw s') = on d (ck_hw s))"
proof -
  let ?D = "set (clk_root_list s)" and ?S = "now_settled c ini p S"
  have new: "c \<notin> ?D" "switched (en c) (dis c) (in_ops ini)" "quiet_ops frame (in_ops ini)"
    "en c \<noteq> None \<longrightarrow> \<not> on c (ck_hw s)" "\<forall>q. p = Some q \<longrightarrow> q \<in> S \<and> rank q < rank c"
    using j by (simp_all add: joins_def)
  obtain es where es: "clk_init_parent c s = Some (p, upd_core c (\<lambda>x. x\<lparr>cc_parents := es\<rparr>) s)"
    "in_num_parents ini = 0 \<or> p \<noteq> None \<longrightarrow> settled (upd_core c (\<lambda>x. x\<lparr>cc_parents := es, cc_parent := p\<rparr>) s) c"
    using init_found [OF j c] by blast
  let ?s5 = "upd_core c (\<lambda>x. x\<lparr>cc_parents := es, cc_parent := p\<rparr>) s"
  have s5: "upd_core c (\<lambda>x. x\<lparr>cc_parent := p\<rparr>) (upd_core c (\<lambda>x. x\<lparr>cc_parents := es\<rparr>) s) = ?s5"
    by (simp add: upd_core_def)
  have r5: "clks_ready en dis on frame rank S ?s5 u" by (rule ready_cong [OF r]) (use new(1) in \<open>auto simp: upd_core_def\<close>)
  have o5: "cc_ops (cores ?s5 c) = in_ops ini" using c(1) by (simp add: joining_def)
  obtain rate where rate: "clk_first_rate c p ?s5 = Some (rate, ?s5)"
    using first_rate_ready [OF r5 _ new(5)] new(3) o5 by metis
  define x :: u32 where "x = (case p of None \<Rightarrow> 0 | Some p \<Rightarrow> ucast (cc_rate (cores ?s5 p)))"
  define y :: u64 where "y = ucast rate"
  have init: "clk_core_init c s =
      (let s6 = upd_core c (\<lambda>z. z\<lparr>cc_p_rate := x, cc_rate := y\<rparr>) ?s5
       in if cc_flags (cores s6 c) AND CLK_IS_CRITICAL \<noteq> 0 then clk_core_enable (Some c) s6 else Some (0, s6))"
    by (simp only: clk_core_init_def es(1) s5 rate Let_def bind.bind_lunit prod.case x_def y_def)
  let ?s6 = "upd_core c (\<lambda>z. z\<lparr>cc_p_rate := x, cc_rate := y\<rparr>) ?s5"
  have r6: "clks_ready en dis on frame rank S ?s6 u" by (rule ready_cong [OF r]) (use new(1) in \<open>auto simp: upd_core_def\<close>)
  have h6: "held ?s6 c = 0" "cc_flags (cores ?s6 c) = in_flags ini" using c(1) by (simp_all add: joining_def)
  have ins: "clks_ready en dis on frame rank ?S (?s6\<lparr>clk_root_list := clk_root_list ?s6 @ [c]\<rparr>) (u(c := 0))"
  proof (rule ready_insert [OF r6])
    show "c \<in> ?S \<longrightarrow> settled ?s6 c"
    proof
      assume "c \<in> ?S"
      moreover have "c \<notin> S" using new(1) r by (auto simp: clks_ready_def)
      ultimately have "in_num_parents ini = 0 \<or> p \<noteq> None" by (auto simp: now_settled_def split: if_splits)
      then have s: "settled ?s5 c" using es(2) by blast
      show "settled ?s6 c" by (rule settled_cong [OF s, of frame]) (use new(3) o5 in simp_all)
    qed
  qed (use new h6 o5 in \<open>auto simp: now_settled_def\<close>)
  have d6: "\<forall>d \<in> ?D. cores ?s6 d = cores s d" "clk_root_list ?s6 = clk_root_list s" "ck_hw ?s6 = ck_hw s"
    using new(1) by (auto simp: upd_core_def)
  have c6: "cc_name (cores ?s6 c) = in_name ini" "cc_parent (cores ?s6 c) = p" using c(1) by (simp_all add: joining_def)
  show ?thesis
  proof (cases "in_flags ini AND CLK_IS_CRITICAL = 0")
    case True
    then show ?thesis using init h6 ins d6 c6 by (intro exI [of _ ?s6]) simp
  next
    case False
    have "\<forall>d \<in> insert c (set (clk_root_list ?s6)). held ?s6 d < 2 ^ 32 - 1"
      using low h6(1) d6 by (auto simp: held_def)
    then obtain s' where s': "clk_core_enable (Some c) ?s6 = Some (0, s')"
      "clks_ready en dis on frame rank ?S (s'\<lparr>clk_root_list := clk_root_list s' @ [c]\<rparr>) (u(c := 1))"
      "same_clks ?s6 s'" "frame (ck_hw s') = frame (ck_hw ?s6)"
      "\<forall>d. d \<notin> insert c (set (clk_root_list ?s6)) \<longrightarrow> on d (ck_hw s') = on d (ck_hw ?s6)"
      using ready_insert_enable [OF ins] by blast
    have e: "cores s' d = (cores ?s6 d)\<lparr>cc_enable_count := cc_enable_count (cores s' d)\<rparr>" for d
      using s'(3) unfolding same_clks_def by blast
    have "cc_name (cores s' c) = in_name ini" "cc_parent (cores s' c) = p"
      using c6 by (subst e; simp)+
    moreover have "\<forall>d \<in> ?D. cores s' d = (cores s d)\<lparr>cc_enable_count := cc_enable_count (cores s' d)\<rparr>"
      using e d6(1) by metis
    moreover have "clk_root_list s' = clk_root_list s" using s'(3) d6(2) by (simp add: same_clks_def)
    moreover have "clk_core_init c s = Some (0, s')" using init h6(2) False s'(1) by (simp add: Let_def)
    ultimately show ?thesis using s'(2,4,5) d6 False by (intro exI [of _ s']) simp
  qed
qed

lemma register_joined:
  assumes j: "joins en dis on frame rank S s c ini p" and r: "clks_ready en dis on frame rank S s u"
    and A: "heap_quiet frame on A" and low: "\<forall>d \<in> set (clk_root_list s). held s d < 2 ^ 32 - 1"
  shows "\<exists>s'. clk_hw_register A c ty i ini s = Some (0, s') \<and> clk_root_list s' = clk_root_list s @ [c] \<and>
    clks_ready en dis on frame rank (now_settled c ini p S) s' (u(c := if in_flags ini AND CLK_IS_CRITICAL \<noteq> 0 then 1 else 0)) \<and>
    (\<forall>d \<in> set (clk_root_list s). cores s' d = (cores s d)\<lparr>cc_enable_count := cc_enable_count (cores s' d)\<rparr>) \<and>
    cc_name (cores s' c) = in_name ini \<and> cc_parent (cores s' c) = p \<and> frame (ck_hw s') = frame (ck_hw s) \<and>
    (\<forall>d. d \<notin> insert c (set (clk_root_list s)) \<longrightarrow> on d (ck_hw s') = on d (ck_hw s))"
proof -
  let ?n = "unat (in_num_parents ini)" and ?es = "parent_maps (in_parents ini)"
  obtain h1 where h1: "clk_malloc A Obj_core s = (True, s\<lparr>ck_hw := h1\<rparr>)" "frame h1 = frame (ck_hw s)"
    "\<And>d. on d h1 = on d (ck_hw s)" using heap_quietE [OF A] by blast
  let ?s1 = "upd_core c (\<lambda>_. fresh_core ty i ini) (s\<lparr>ck_hw := h1\<rparr>)"
  obtain h2 where h2: "clk_malloc A Obj_clk ?s1 = (True, ?s1\<lparr>ck_hw := h2\<rparr>)" "frame h2 = frame h1"
    "\<And>d. on d h2 = on d h1" using heap_quietE [OF A, of Obj_clk ?s1] by auto
  let ?s2 = "?s1\<lparr>ck_hw := h2\<rparr>"
  obtain h3 where h3: "clk_malloc A (Obj_parents ?n) ?s2 = (True, ?s2\<lparr>ck_hw := h3\<rparr>)" "frame h3 = frame h2"
    "\<And>d. on d h3 = on d h2" using heap_quietE [OF A, of "Obj_parents ?n" ?s2] by auto
  define s3 where "s3 = (if ?n = 0 then ?s2 else upd_core c (\<lambda>x. x\<lparr>cc_parents := take ?n ?es\<rparr>) (?s2\<lparr>ck_hw := h3\<rparr>))"
  have new: "c \<notin> set (clk_root_list s)" "?n = 0 \<or> in_parents ini \<noteq> No_parents \<and> ?n \<le> length ?es"
    using j by (auto simp: joins_def Let_def)
  have pop: "clk_core_populate_parent_map A c ini ?s2 = Some (0, s3)"
    using new(2) h3(1) by (auto simp: clk_core_populate_parent_map_def s3_def Let_def)
  have s3: "clk_root_list s3 = clk_root_list s" "\<And>d. d \<in> set (clk_root_list s) \<Longrightarrow> cores s3 d = cores s d"
    "frame (ck_hw s3) = frame (ck_hw s)" "\<And>d. on d (ck_hw s3) = on d (ck_hw s)"
    using new(1) h1 h2 h3 by (auto simp: s3_def upd_core_def)
  have fresh: "joining ini (take ?n ?es) (cores s3 c)" "in_num_parents ini = 0 \<longrightarrow> cc_parents (cores s3 c) = []"
    by (auto simp: s3_def joining_def fresh_core_def upd_core_def unat_eq_0)
  have "joins en dis on frame rank S s3 c ini p" by (rule joins_cong [OF j]) (use s3 in auto)
  moreover have "clks_ready en dis on frame rank S s3 u" by (rule ready_cong [OF r]) (use s3 in auto)
  moreover have "\<forall>d \<in> set (clk_root_list s3). held s3 d < 2 ^ 32 - 1" using low s3(1,2) by (simp add: held_def)
  ultimately obtain s' where s': "clk_core_init c s3 = Some (0, s')" "clk_root_list s' = clk_root_list s"
    "clks_ready en dis on frame rank (now_settled c ini p S) (s'\<lparr>clk_root_list := clk_root_list s @ [c]\<rparr>)
      (u(c := if in_flags ini AND CLK_IS_CRITICAL \<noteq> 0 then 1 else 0))"
    "\<forall>d \<in> set (clk_root_list s). cores s' d = (cores s3 d)\<lparr>cc_enable_count := cc_enable_count (cores s' d)\<rparr>"
    "cc_name (cores s' c) = in_name ini" "cc_parent (cores s' c) = p" "frame (ck_hw s') = frame (ck_hw s)"
    "\<forall>d. d \<notin> insert c (set (clk_root_list s)) \<longrightarrow> on d (ck_hw s') = on d (ck_hw s)"
    using init_joined fresh s3(1,3,4) by metis
  have "clk_hw_register A c ty i ini s = Some (0, s'\<lparr>clk_root_list := clk_root_list s' @ [c]\<rparr>)"
    using new(1) h1(1) h2(1) pop s'(1) by (simp add: clk_hw_register_def Let_def)
  then show ?thesis using s'(2-8) s3(2) by (intro exI [of _ "s'\<lparr>clk_root_list := clk_root_list s' @ [c]\<rparr>"]) simp
qed

lemma register_fits:
  assumes fit: "clk_fits en dis on frame h ks c ini" and k: "clks_known on frame h ks s"
    and r: "clks_ready en dis on frame (rank_in (map fst ks @ c # cs)) (settled_of ks) s u" and A: "heap_quiet frame on A"
    and low: "\<And>d. u d \<le> 1" "length ks < 2 ^ 32 - 2"
  shows "\<exists>s'. clk_hw_register A c ty i ini s = Some (0, s') \<and> clks_known on frame h (know ks h c ini) s' \<and>
    clks_ready en dis on frame (rank_in (map fst ks @ c # cs)) (settled_of (know ks h c ini)) s'
      (u(c := if is_critical (in_flags ini) then 1 else 0))"
proof -
  let ?rank = "rank_in (map fst ks @ c # cs)"
  have c: "c \<notin> fst ` set ks" "clk_root_list s = map fst ks" using fit k by (simp_all add: clk_fits_def clks_known_def)
  have "?rank q < ?rank c" if "q \<in> settled_of ks" for q
    by (rule rank_in_earlier) (use that c(1) in \<open>force simp: settled_of_def\<close>)+
  then have j: "joins en dis on frame ?rank (settled_of ks) s c ini (first_parent ks h ini)" by (rule fits_joins [OF fit k])
  have "\<forall>d \<in> set (clk_root_list s). held s d < 2 ^ 32 - 1"
  proof
    fix d assume d: "d \<in> set (clk_root_list s)"
    have "clk_driven en dis on ?rank s u" using r by (simp add: clks_ready_def)
    from held_le [OF this d] show "held s d < 2 ^ 32 - 1" using low(1) [of d] low(2) c(2) by simp
  qed
  from register_joined [OF j r A this, of ty i] obtain s' where s': "clk_hw_register A c ty i ini s = Some (0, s')"
    "clk_root_list s' = clk_root_list s @ [c]"
    "clks_ready en dis on frame ?rank (now_settled c ini (first_parent ks h ini) (settled_of ks)) s'
       (u(c := if in_flags ini AND CLK_IS_CRITICAL \<noteq> 0 then 1 else 0))"
    "\<forall>d \<in> set (clk_root_list s). cores s' d = (cores s d)\<lparr>cc_enable_count := cc_enable_count (cores s' d)\<rparr>"
    "cc_name (cores s' c) = in_name ini" "cc_parent (cores s' c) = first_parent ks h ini" "frame (ck_hw s') = frame (ck_hw s)"
    "\<forall>d. d \<notin> insert c (set (clk_root_list s)) \<longrightarrow> on d (ck_hw s') = on d (ck_hw s)" by blast
  have "cc_name (cores s' d) = cc_name (cores s d) \<and> cc_parent (cores s' d) = cc_parent (cores s d)"
    if "d \<in> set (clk_root_list s)" for d
    using s'(4) that by (metis clk_core.select_convs(1,6) clk_core.surjective clk_core.update_convs(10))
  then have "clks_known on frame h (know ks h c ini) s'"
    using k s'(2,5-8) c by (fastforce simp: clks_known_def know_def image_iff)
  moreover have "now_settled c ini (first_parent ks h ini) (settled_of ks) = settled_of (know ks h c ini)"
    by (auto simp: now_settled_def settled_of_def know_def)
  ultimately show ?thesis using s'(1,3) by (auto simp: is_critical_def)
qed

lemma register_hws_fits:
  assumes "table_fits en dis on frame h ks tab" "clks_known on frame h ks s"
    "clks_ready en dis on frame (rank_in (map fst ks @ map fst tab @ cs)) (settled_of ks) s u" "heap_quiet frame on A"
    "\<And>d. u d \<le> 1" "length ks + length tab < 2 ^ 32 - 2"
  shows "\<exists>s'. register_hws A ty i (map Some tab) s = Some (0, i + length tab, s') \<and>
    clks_known on frame h (know_all ks h tab) s' \<and>
    clks_ready en dis on frame (rank_in (map fst ks @ map fst tab @ cs)) (settled_of (know_all ks h tab)) s' (own_uses tab u)"
  using assms
proof (induction tab arbitrary: ks s u i)
  case Nil then show ?case by simp
next
  case (Cons e tab)
  obtain c ini where e: "e = (c, ini)" by (cases e)
  let ?u = "u(c := if is_critical (in_flags ini) then 1 else 0)"
  obtain s1 where s1: "clk_hw_register A c ty i ini s = Some (0, s1)" "clks_known on frame h (know ks h c ini) s1"
    "clks_ready en dis on frame (rank_in (map fst ks @ c # map fst tab @ cs)) (settled_of (know ks h c ini)) s1 ?u"
    using register_fits [of h ks c ini s "map fst tab @ cs" u A ty i] Cons.prems e by auto
  have m: "map fst (know ks h c ini) @ map fst tab @ cs = map fst ks @ c # map fst tab @ cs"
    "length (know ks h c ini) = Suc (length ks)" by (simp_all add: know_def)
  have r1: "clks_ready en dis on frame (rank_in (map fst (know ks h c ini) @ map fst tab @ cs)) (settled_of (know ks h c ini)) s1 ?u"
    unfolding m(1) by (rule s1(3))
  have fits: "table_fits en dis on frame h (know ks h c ini) tab" using Cons.prems(1) e by simp
  have low: "\<And>d. ?u d \<le> 1" "length (know ks h c ini) + length tab < 2 ^ 32 - 2" using Cons.prems(5,6) m(2) by auto
  from Cons.IH [OF fits s1(2) r1 Cons.prems(4) low, of "Suc i"]
  show ?case using e s1(1) m(1) by (simp del: fun_upd_apply)
qed

lemma malloc_known:
  assumes "heap_quiet frame on A" "clks_known on frame h ks s" "clks_ready en dis on frame rank S s u"
  shows "\<exists>s'. clk_malloc A ob s = (True, s') \<and> clks_known on frame h ks s' \<and> clks_ready en dis on frame rank S s' u"
proof -
  obtain h' where h': "clk_malloc A ob s = (True, s\<lparr>ck_hw := h'\<rparr>)" "frame h' = frame (ck_hw s)" "\<And>d. on d h' = on d (ck_hw s)"
    using heap_quietE [OF assms(1)] by blast
  have "clks_ready en dis on frame rank S (s\<lparr>ck_hw := h'\<rparr>) u" by (rule ready_cong [OF assms(3)]) (use h' in auto)
  then show ?thesis using h' assms(2) by (auto simp: clks_known_def)
qed

lemma fixed_rate_flags: "in_flags (fixed_rate_init name pn flags rate) = flags"
  by (simp add: fixed_rate_init_def)

lemma register_fixed_fits:
  assumes fit: "clk_fits en dis on frame h ks c (fixed_rate_init name pn flags rate)" and k: "clks_known on frame h ks s"
    and r: "clks_ready en dis on frame (rank_in (map fst ks @ c # cs)) (settled_of ks) s u" and A: "heap_quiet frame on A"
    and low: "\<And>d. u d \<le> 1" "length ks < 2 ^ 32 - 2"
  shows "\<exists>s'. clk_hw_register_fixed_rate A c name i pn flags rate s = Some (0, s') \<and>
    clks_known on frame h (know ks h c (fixed_rate_init name pn flags rate)) s' \<and>
    clks_ready en dis on frame (rank_in (map fst ks @ c # cs)) (settled_of (know ks h c (fixed_rate_init name pn flags rate))) s'
      (u(c := if is_critical flags then 1 else 0))"
proof -
  obtain s1 where s1: "clk_malloc A Obj_fixed s = (True, s1)" "clks_known on frame h ks s1"
    "clks_ready en dis on frame (rank_in (map fst ks @ c # cs)) (settled_of ks) s1 u"
    using malloc_known [OF A k r] by blast
  obtain s' where s': "clk_hw_register A c HAL_SUNXI_FIXED_CCU i (fixed_rate_init name pn flags rate) s1 = Some (0, s') \<and>
    clks_known on frame h (know ks h c (fixed_rate_init name pn flags rate)) s' \<and>
    clks_ready en dis on frame (rank_in (map fst ks @ c # cs)) (settled_of (know ks h c (fixed_rate_init name pn flags rate))) s'
      (u(c := if is_critical flags then 1 else 0))"
    using register_fits [OF fit s1(2,3) A low, of HAL_SUNXI_FIXED_CCU i] unfolding fixed_rate_flags ..
  have "clk_hw_register_fixed_rate A c name i pn flags rate s = Some (0, s')"
    using s1(1) conjunct1 [OF s'] by (simp add: clk_hw_register_fixed_rate_def)
  then show ?thesis using conjunct2 [OF s'] by blast
qed

lemma fixed_init_fits:
  assumes fits: "table_fits en dis on frame h [] (fixed_table w)" and k: "clks_known on frame h [] s"
    and r: "clks_ready en dis on frame (rank_in (fixed_hws w @ cs)) {} s u"
    and A: "heap_quiet frame on A" and low: "\<And>d. u d \<le> 1"
  shows "\<exists>s'. sunxi_fixed_clk_init A w s = Some (0, s') \<and> clks_known on frame h (know_all [] h (fixed_table w)) s' \<and>
    clks_ready en dis on frame (rank_in (fixed_hws w @ cs))
      (settled_of (know_all [] h (fixed_table w))) s' (own_uses (fixed_table w :: (nat \<times> 'h clk_init_data) list) u)"
proof -
  let ?ini = "\<lambda>n rate. fixed_rate_init n None 0 rate :: 'h clk_init_data" and ?up = "\<lambda>c u. u(c := if is_critical 0 then 1 else (0 :: nat))"
  let ?i0 = "?ini ''dcxo24M'' 24000000" and ?i1 = "?ini ''fix_losc'' 32768"
    and ?i2 = "?ini ''rc-16m'' 16000000" and ?i3 = "?ini ''ext-32k'' 32768"
  let ?c0 = "w CLK_SRC_HOSC24M" and ?c1 = "w CLK_SRC_LOSC" and ?c2 = "w CLK_SRC_RC_16M" and ?c3 = "w CLK_SRC_EXT_32K"
  let ?k0 = "know [] h ?c0 ?i0" let ?k1 = "know ?k0 h ?c1 ?i1" let ?k2 = "know ?k1 h ?c2 ?i2"
  let ?u0 = "?up ?c0 u" let ?u1 = "?up ?c1 ?u0" let ?u2 = "?up ?c2 ?u1"
  have u: "\<And>d. ?u0 d \<le> 1" "\<And>d. ?u1 d \<le> 1" "\<And>d. ?u2 d \<le> 1" using low by auto
  have l: "length ([] :: known) < 2 ^ 32 - 2" "length ?k0 < 2 ^ 32 - 2" "length ?k1 < 2 ^ 32 - 2" "length ?k2 < 2 ^ 32 - 2"
    by (simp_all add: know_def)
  have f: "clk_fits en dis on frame h [] ?c0 ?i0" "clk_fits en dis on frame h ?k0 ?c1 ?i1"
    "clk_fits en dis on frame h ?k1 ?c2 ?i2" "clk_fits en dis on frame h ?k2 ?c3 ?i3"
    using fits by (simp_all add: fixed_table_def)
  have m: "rank_in (fixed_hws w @ cs) = rank_in (map fst ([] :: known) @ ?c0 # [?c1, ?c2, ?c3] @ cs)"
    "rank_in (map fst ([] :: known) @ ?c0 # [?c1, ?c2, ?c3] @ cs) = rank_in (map fst ?k0 @ ?c1 # [?c2, ?c3] @ cs)"
    "rank_in (map fst ?k0 @ ?c1 # [?c2, ?c3] @ cs) = rank_in (map fst ?k1 @ ?c2 # [?c3] @ cs)"
    "rank_in (map fst ?k1 @ ?c2 # [?c3] @ cs) = rank_in (map fst ?k2 @ ?c3 # cs)"
    by (simp_all add: fixed_hws_def know_def)
  have r0: "clks_ready en dis on frame (rank_in (map fst ([] :: known) @ ?c0 # [?c1, ?c2, ?c3] @ cs)) (settled_of []) s u"
    using r unfolding m(1) by (simp add: settled_of_def)
  obtain s0 where s0: "clk_hw_register_fixed_rate A ?c0 ''dcxo24M'' CLK_SRC_HOSC24M None 0 24000000 s = Some (0, s0)"
    "clks_known on frame h ?k0 s0" "clks_ready en dis on frame (rank_in (map fst ?k0 @ ?c1 # [?c2, ?c3] @ cs)) (settled_of ?k0) s0 ?u0"
    using register_fixed_fits [where i = CLK_SRC_HOSC24M, OF f(1) k r0 A low l(1)] unfolding m(2) by blast
  obtain s1 where s1: "clk_hw_register_fixed_rate A ?c1 ''fix_losc'' CLK_SRC_LOSC None 0 32768 s0 = Some (0, s1)"
    "clks_known on frame h ?k1 s1" "clks_ready en dis on frame (rank_in (map fst ?k1 @ ?c2 # [?c3] @ cs)) (settled_of ?k1) s1 ?u1"
    using register_fixed_fits [where i = CLK_SRC_LOSC, OF f(2) s0(2,3) A u(1) l(2)] unfolding m(3) by blast
  obtain s2 where s2: "clk_hw_register_fixed_rate A ?c2 ''rc-16m'' CLK_SRC_RC_16M None 0 16000000 s1 = Some (0, s2)"
    "clks_known on frame h ?k2 s2" "clks_ready en dis on frame (rank_in (map fst ?k2 @ ?c3 # cs)) (settled_of ?k2) s2 ?u2"
    using register_fixed_fits [where i = CLK_SRC_RC_16M, OF f(3) s1(2,3) A u(2) l(3)] unfolding m(4) by blast
  obtain s3 where s3: "clk_hw_register_fixed_rate A ?c3 ''ext-32k'' CLK_SRC_EXT_32K None 0 32768 s2 = Some (0, s3)"
    "clks_known on frame h (know ?k2 h ?c3 ?i3) s3"
    "clks_ready en dis on frame (rank_in (map fst ?k2 @ ?c3 # cs)) (settled_of (know ?k2 h ?c3 ?i3)) s3 (?up ?c3 ?u2)"
    using register_fixed_fits [where i = CLK_SRC_EXT_32K, OF f(4) s2(2,3) A u(3) l(4)] by blast
  have "sunxi_fixed_clk_init A w s = Some (0, s3)"
    by (simp add: sunxi_fixed_clk_init_def s0(1) s1(1) s2(1) s3(1))
  moreover have "know_all [] h (fixed_table w) = know ?k2 h ?c3 ?i3" by (simp only: fixed_table_def know_all.simps)
  moreover have "own_uses (fixed_table w :: (nat \<times> 'h clk_init_data) list) u = ?up ?c3 ?u2" by (simp only: fixed_table_def own_uses.simps fixed_rate_flags)
  ultimately show ?thesis using s3(2,3) unfolding m by (intro exI [of _ s3]) (simp only: simp_thms)
qed

text \<open>Registering a controller, and the calls of clients on registered clocks.\<close>

lemma common_init_fits:
  assumes "table_fits en dis on frame h ks tab" "clks_known on frame h ks s"
    "clks_ready en dis on frame (rank_in (map fst ks @ map fst tab @ cs)) (settled_of ks) s u" "heap_quiet frame on A"
    "\<And>d. u d \<le> 1" "length ks + length tab < 2 ^ 32 - 2" "ds_hws d = map Some tab"
  shows "\<exists>s'. ccu_common_init A base (Some d) (s, rs) = Some (0, s', rs @ [reset_of base d]) \<and>
    clks_known on frame h (know_all ks h tab) s' \<and>
    clks_ready en dis on frame (rank_in (map fst ks @ map fst tab @ cs)) (settled_of (know_all ks h tab)) s' (own_uses tab u)"
proof -
  obtain s1 where s1: "register_hws A (ds_clk_type d) 0 (map Some tab) s = Some (0, 0 + length tab, s1)"
    "clks_known on frame h (know_all ks h tab) s1"
    "clks_ready en dis on frame (rank_in (map fst ks @ map fst tab @ cs)) (settled_of (know_all ks h tab)) s1 (own_uses tab u)"
    using register_hws_fits [OF assms(1-6)] by blast
  obtain s2 where s2: "clk_malloc A Obj_reset s1 = (True, s2)" "clks_known on frame h (know_all ks h tab) s2"
    "clks_ready en dis on frame (rank_in (map fst ks @ map fst tab @ cs)) (settled_of (know_all ks h tab)) s2 (own_uses tab u)"
    using malloc_known [OF assms(4) s1(2,3)] by blast
  have "ccu_common_init A base (Some d) (s, rs) = Some (0, s2, rs @ [reset_of base d])"
    using s1(1) s2(1) assms(7) by (simp add: ccu_common_init_def reset_control_register_def reset_of_def)
  then show ?thesis using s2(2,3) by blast
qed

lemma calls_on_registered:
  assumes k: "clks_known on frame h ks s" and r: "clks_ready en dis on frame rank S s u"
    and calls: "fair_calls (map fst ks) calls (\<lambda>_. 0)" and low: "\<And>d. u d \<le> 1" "length calls + length ks < 2 ^ 32 - 2"
  shows "\<exists>s'. run_clk_calls calls s = Some s' \<and> parent_of s' = parent_of s \<and>
    (\<forall>c \<in> set (map fst ks). en c \<noteq> None \<longrightarrow> on c (ck_hw s') =
      (\<exists>d \<in> set (map fst ks). (0 < uses calls (\<lambda>_. 0) d \<or> 0 < u d) \<and> below (parent_of s) d c))"
proof -
  have root: "clk_root_list s = map fst ks" using k by (simp add: clks_known_def)
  have drv: "clk_driven en dis on rank s u" using r by (simp add: clks_ready_def)
  have pl: "uses calls u = (\<lambda>c. u c + uses calls (\<lambda>_. 0) c)" "fair_calls (map fst ks) calls u"
    using uses_plus [OF calls, of u] by simp_all
  have "u d + length calls + length (clk_root_list s) < 2 ^ 32 - 1" for d
    using low(1) [of d] low(2) by (simp add: root)
  then obtain s' where s': "run_clk_calls calls s = Some s'" "clk_driven en dis on rank s' (uses calls u)" "same_clks s s'"
    using calls_counts [OF drv, of calls] pl(2) root by auto
  have root': "clk_root_list s' = map fst ks" "parent_of s' = parent_of s"
    using s'(3) root same_clks_parent [OF s'(3)] by (simp_all add: same_clks_def)
  have "on c (ck_hw s') = (\<exists>d \<in> set (map fst ks). (0 < uses calls (\<lambda>_. 0) d \<or> 0 < u d) \<and> below (parent_of s) d c)"
    if "c \<in> set (map fst ks)" "en c \<noteq> None" for c
    using driven_open [OF s'(2), of c] that unfolding root' pl(1) by (auto simp: add_gr_0)
  then show ?thesis using s'(1) root'(2) by blast
qed

text \<open>
  Writes to other registers between the registrations: the clocks are as before, and what is known
  refers to the new state of the hardware when none of them has a parent.
\<close>

lemma rebase_known:
  assumes "clks_known on frame h ks s" "clks_ready en dis on frame rank (settled_of ks) s u"
    "\<And>c m p b. (c, m, p, b) \<in> set ks \<Longrightarrow> p = None" "\<And>d. on d h' = on d (ck_hw s)"
  shows "clks_known on frame h' ks (s\<lparr>ck_hw := h'\<rparr>)"
    "clks_ready en dis on frame rank (settled_of ks) (s\<lparr>ck_hw := h'\<rparr>) u"
proof -
  show "clks_known on frame h' ks (s\<lparr>ck_hw := h'\<rparr>)" using assms(1) by (simp add: clks_known_def)
  have "cc_parents (cores s c) = []" if "c \<in> settled_of ks" for c
  proof -
    have "settled s c" "cc_parent (cores s c) = None"
      using that assms(1-3) by (auto simp: clks_ready_def settled_of_def clks_known_def)
    then show ?thesis by (auto simp: settled_def split: if_splits)
  qed
  then have "settled (s\<lparr>ck_hw := h'\<rparr>) c" if "c \<in> settled_of ks" for c
    using that assms(2) by (auto simp: clks_ready_def settled_def)
  moreover have "held (s\<lparr>ck_hw := h'\<rparr>) = held s" "parent_of (s\<lparr>ck_hw := h'\<rparr>) = parent_of s"
    by (simp_all add: held_def parent_of_def fun_eq_iff)
  moreover have "clk_tree rank (s\<lparr>ck_hw := h'\<rparr>)"
    by (rule clk_tree_same [of rank s]) (use assms(2) in \<open>simp_all add: clks_ready_def clk_driven_def\<close>)
  ultimately show "clks_ready en dis on frame rank (settled_of ks) (s\<lparr>ck_hw := h'\<rparr>) u"
    using assms(2,4) by (simp add: clks_ready_def clk_driven_def)
qed

lemma write_known:
  assumes "clks_known on frame h ks s" "clks_ready en dis on frame rank S s u"
    "frame h' = frame (ck_hw s)" "\<And>d. on d h' = on d (ck_hw s)"
  shows "clks_known on frame h ks (s\<lparr>ck_hw := h'\<rparr>)" "clks_ready en dis on frame rank S (s\<lparr>ck_hw := h'\<rparr>) u"
proof -
  show "clks_known on frame h ks (s\<lparr>ck_hw := h'\<rparr>)" using assms(1,3,4) by (simp add: clks_known_def)
  show "clks_ready en dis on frame rank S (s\<lparr>ck_hw := h'\<rparr>) u" by (rule ready_cong [OF assms(2)]) (use assms(3,4) in simp_all)
qed

end


section \<open>Gates in registers\<close>

definition allocates :: "('h \<Rightarrow> u64 \<Rightarrow> u32) \<Rightarrow> 'h clk_heap \<Rightarrow> bool" where
  "allocates cell A \<longleftrightarrow> (\<forall>ob h. \<exists>h'. ch_malloc A ob h = (True, h') \<and> cell h' = cell h)"

lemma allocates_quiet:
  assumes "allocates cell A"
  shows "heap_quiet (free_bits cell G) (gate_open cell G) A"
  unfolding heap_quiet_def
proof (intro allI)
  fix ob h
  obtain h' where "ch_malloc A ob h = (True, h')" "cell h' = cell h" using assms unfolding allocates_def by blast
  then show "\<exists>h'. ch_malloc A ob h = (True, h') \<and> free_bits cell G h' = free_bits cell G h \<and>
      (\<forall>d. gate_open cell G d h' = gate_open cell G d h)"
    by (intro exI [of _ h']) (auto simp: free_bits_def gate_open_def split: option.splits)
qed

end
