(* ===== verification/Ccu_Pll.thy ===== *)
theory Ccu_Pll
  imports Ccu_Rate
begin

unbundle bit_operations_syntax

text \<open>
  The other kinds of clocks on the way to the SPI controllers: gates (\<open>ccu_gate_ops\<close>), fixed factors
  (\<open>clk-fixed-factor.c\<close>), dividers (\<open>ccu_div.c\<close> on \<open>clk-divider.c\<close>) and PLLs (\<open>ccu_nm.c\<close> with
  \<open>ccu_frac.c\<close>, \<open>ccu_sdm.c\<close> and \<open>ccu_helper_wait_for_lock\<close>), without the rounding of rates. The delays
  of \<open>__clk_udelay\<close> only take time.
\<close>

section \<open>Gates and fixed factors\<close>

text \<open>
  \<open>ccu_gate_set_rate\<close> only reports success, and so does \<open>clk_factor_set_rate\<close> for a clock without
  \<open>CLK_SET_RATE_PARENT\<close>; with it the rate of the parent is set, which is not modelled and has no
  result here.
\<close>

definition ccu_gate_ops :: "'h clk_plat \<Rightarrow> ccu_common \<Rightarrow> u32 \<Rightarrow> 'h clk_ops" where
  "ccu_gate_ops K co g = \<lparr>op_enable = Some (ccu_gate_helper_enable K co g),
     op_disable = Some (ccu_gate_helper_disable K co g), op_is_enabled = Some (ccu_gate_helper_is_enabled K co g),
     op_get_parent = None, op_set_parent = None, op_set_rate = Some (\<lambda>rate parent_rate h. Some (0, h)),
     op_recalc_rate = Some (\<lambda>rate h. map_option (\<lambda>r. (r, h)) (ccu_gate_recalc_rate co rate))\<rparr>"

record clk_fixed_factor =
  ff_mult :: u32
  ff_div :: u32

definition clk_factor_recalc_rate :: "clk_fixed_factor \<Rightarrow> u64 \<Rightarrow> u64 option" where
  "clk_factor_recalc_rate fix parent_rate =
     (if ff_div fix = 0 then None else Some (parent_rate * ucast (ff_mult fix) div ucast (ff_div fix)))"

abbreviation (input) CLK_SET_RATE_PARENT :: u64 where "CLK_SET_RATE_PARENT \<equiv> 4"

definition clk_fixed_factor_ops :: "u64 \<Rightarrow> clk_fixed_factor \<Rightarrow> 'h clk_ops" where
  "clk_fixed_factor_ops flags fix = \<lparr>op_enable = None, op_disable = None, op_is_enabled = None, op_get_parent = None,
     op_set_parent = None,
     op_set_rate = Some (\<lambda>rate parent_rate h. if flags AND CLK_SET_RATE_PARENT \<noteq> 0 then None else Some (0, h)),
     op_recalc_rate = Some (\<lambda>rate h. map_option (\<lambda>r. (r, h)) (clk_factor_recalc_rate fix rate))\<rparr>"

section \<open>Dividers\<close>

text \<open>A table of dividers is given up to its sentinel, whose divider is zero, as pairs of value and divider.\<close>

type_synonym clk_div_table = "(u32 \<times> u32) list"

abbreviation (input) CLK_DIVIDER_ONE_BASED :: u64 where "CLK_DIVIDER_ONE_BASED \<equiv> 1"
abbreviation (input) CLK_DIVIDER_POWER_OF_TWO :: u64 where "CLK_DIVIDER_POWER_OF_TWO \<equiv> 2"
abbreviation (input) CLK_DIVIDER_MAX_AT_ZERO :: u64 where "CLK_DIVIDER_MAX_AT_ZERO \<equiv> 64"

definition clk_div_mask :: "nat \<Rightarrow> u32" where
  "clk_div_mask width = push_bit width 1 - 1"

definition DIV_ROUND_UP_ULL :: "u64 \<Rightarrow> u64 \<Rightarrow> u64" where
  "DIV_ROUND_UP_ULL n d = (n + d - 1) div d"

definition table_div :: "clk_div_table \<Rightarrow> u32 \<Rightarrow> u32" where
  "table_div table val = (case find (\<lambda>(v, d). v = val) table of Some (_, d) \<Rightarrow> d | None \<Rightarrow> 0)"

definition table_val :: "clk_div_table \<Rightarrow> u32 \<Rightarrow> u32" where
  "table_val table dv = (case find (\<lambda>(v, d). d = dv) table of Some (v, _) \<Rightarrow> v | None \<Rightarrow> 0)"

definition get_div :: "clk_div_table option \<Rightarrow> u32 \<Rightarrow> u64 \<Rightarrow> nat \<Rightarrow> u32" where
  "get_div table val flags width =
     (if flags AND CLK_DIVIDER_ONE_BASED \<noteq> 0 then val
      else if flags AND CLK_DIVIDER_POWER_OF_TWO \<noteq> 0 then push_bit (unat val) 1
      else if flags AND CLK_DIVIDER_MAX_AT_ZERO \<noteq> 0 then (if val \<noteq> 0 then val else clk_div_mask width + 1)
      else (case table of Some t \<Rightarrow> table_div t val | None \<Rightarrow> val + 1))"

definition ffs :: "u32 \<Rightarrow> u32" where
  "ffs value = (case find (\<lambda>i. bit value i) [0..<32] of Some i \<Rightarrow> of_nat i | None \<Rightarrow> - 1)"

definition get_val :: "clk_div_table option \<Rightarrow> u32 \<Rightarrow> u64 \<Rightarrow> nat \<Rightarrow> u32" where
  "get_val table dv flags width =
     (if flags AND CLK_DIVIDER_ONE_BASED \<noteq> 0 then dv
      else if flags AND CLK_DIVIDER_POWER_OF_TWO \<noteq> 0 then ffs dv
      else if flags AND CLK_DIVIDER_MAX_AT_ZERO \<noteq> 0 then (if dv = clk_div_mask width + 1 then 0 else dv)
      else (case table of Some t \<Rightarrow> table_val t dv | None \<Rightarrow> dv - 1))"

definition divider_recalc_rate :: "u64 \<Rightarrow> u32 \<Rightarrow> clk_div_table option \<Rightarrow> u64 \<Rightarrow> nat \<Rightarrow> u64" where
  "divider_recalc_rate parent_rate val table flags width =
     (let dv = get_div table val flags width
      in if dv = 0 then parent_rate else DIV_ROUND_UP_ULL parent_rate (ucast dv))"

definition is_valid_div :: "clk_div_table option \<Rightarrow> u32 \<Rightarrow> u64 \<Rightarrow> bool" where
  "is_valid_div table dv flags =
     (if flags AND CLK_DIVIDER_POWER_OF_TWO \<noteq> 0 then dv \<noteq> 0 \<and> dv AND (dv - 1) = 0
      else (case table of Some t \<Rightarrow> dv \<in> snd ` set t | None \<Rightarrow> True))"

text \<open>The result is an \<open>int\<close>, here its 32 bits.\<close>

definition divider_get_val :: "u64 \<Rightarrow> u64 \<Rightarrow> clk_div_table option \<Rightarrow> nat \<Rightarrow> u64 \<Rightarrow> u32 option" where
  "divider_get_val rate parent_rate table width flags =
     (if rate = 0 then None
      else let dv = ucast (DIV_ROUND_UP_ULL parent_rate rate)
      in if \<not> is_valid_div table dv flags then Some (- 1)
      else Some (min (get_val table dv flags width) (clk_div_mask width)))"

record ccu_div =
  cd_enable :: u32
  cd_shift :: nat
  cd_width :: nat
  cd_flags :: u32
  cd_table :: "clk_div_table option"
  cd_mux :: ccu_mux_internal
  cd_fixed_post_div :: u32
  cd_common :: ccu_common

definition ccu_div_recalc_rate :: "'h clk_plat \<Rightarrow> ccu_div \<Rightarrow> u64 \<Rightarrow> 'h \<Rightarrow> (u64 \<times> 'h) option" where
  "ccu_div_recalc_rate P cd parent_rate h = do {
     let (reg, h) = ck_readl P (co_addr (cd_common cd)) h;
     (parent_rate, h) \<leftarrow> ccu_mux_helper_apply_prediv P (cd_common cd) (cd_mux cd) (-1) parent_rate h;
     let val = divider_recalc_rate parent_rate (field_of (cd_shift cd) (cd_width cd) reg)
       (cd_table cd) (ucast (cd_flags cd)) (cd_width cd);
     if has_feature (cd_common cd) CCU_FEATURE_FIXED_POSTDIV
     then if cd_fixed_post_div cd = 0 then None else Some (val div ucast (cd_fixed_post_div cd), h)
     else Some (val, h)
   }"

text \<open>A divider that is not valid is written as it is, \<open>-1\<close>.\<close>

definition ccu_div_set_rate :: "'h clk_plat \<Rightarrow> ccu_div \<Rightarrow> u64 \<Rightarrow> u64 \<Rightarrow> 'h \<Rightarrow> (int \<times> 'h) option" where
  "ccu_div_set_rate P cd rate parent_rate h = do {
     (parent_rate, h) \<leftarrow> ccu_mux_helper_apply_prediv P (cd_common cd) (cd_mux cd) (-1) parent_rate h;
     let rate = (if has_feature (cd_common cd) CCU_FEATURE_FIXED_POSTDIV
                 then rate * ucast (cd_fixed_post_div cd) else rate);
     val \<leftarrow> divider_get_val rate parent_rate (cd_table cd) (cd_width cd) (ucast (cd_flags cd));
     let (reg, h) = ck_readl P (co_addr (cd_common cd)) h;
     let reg = reg AND NOT (GENMASK (cd_width cd + cd_shift cd - 1) (cd_shift cd));
     Some (0, ck_writel P (reg OR push_bit (cd_shift cd) val) (co_addr (cd_common cd)) h)
   }"

text \<open>\<open>n\<close> is the number of parents.\<close>

definition ccu_div_ops :: "'h clk_plat \<Rightarrow> ccu_div \<Rightarrow> nat \<Rightarrow> 'h clk_ops" where
  "ccu_div_ops P cd n = \<lparr>
     op_enable = Some (ccu_gate_helper_enable P (cd_common cd) (cd_enable cd)),
     op_disable = Some (ccu_gate_helper_disable P (cd_common cd) (cd_enable cd)),
     op_is_enabled = Some (ccu_gate_helper_is_enabled P (cd_common cd) (cd_enable cd)),
     op_get_parent = Some (ccu_mux_helper_get_parent P (cd_common cd) (cd_mux cd) n),
     op_set_parent = Some (ccu_mux_helper_set_parent P (cd_common cd) (cd_mux cd)),
     op_set_rate = Some (ccu_div_set_rate P cd),
     op_recalc_rate = Some (ccu_div_recalc_rate P cd)\<rparr>"

section \<open>Fractional modes of PLLs\<close>

abbreviation (input) CCU_FEATURE_FRACTIONAL :: u64 where "CCU_FEATURE_FRACTIONAL \<equiv> 1"
abbreviation (input) CCU_FEATURE_LOCK_REG :: u64 where "CCU_FEATURE_LOCK_REG \<equiv> 32"
abbreviation (input) CCU_FEATURE_SIGMA_DELTA_MOD :: u64 where "CCU_FEATURE_SIGMA_DELTA_MOD \<equiv> 128"

record ccu_frac_internal =
  fr_enable :: u32
  fr_select :: u32
  fr_rate0 :: u64
  fr_rate1 :: u64

record ccu_sdm_setting =
  ss_rate :: u64
  ss_pattern :: u32
  ss_m :: u32
  ss_n :: u32

record ccu_sdm_internal =
  sd_table :: "ccu_sdm_setting list"
  sd_enable :: u32
  sd_tuning_enable :: u32
  sd_tuning_reg :: u32

text \<open>The registers are read at most 4999 times.\<close>

fun wait_lock_loop :: "'h clk_plat \<Rightarrow> u64 \<Rightarrow> u32 \<Rightarrow> nat \<Rightarrow> 'h \<Rightarrow> 'h" where
  "wait_lock_loop P a lock 0 h = h"
| "wait_lock_loop P a lock (Suc n) h =
     (let (reg, h) = ck_readl P a h in if reg AND lock \<noteq> 0 then h else wait_lock_loop P a lock n h)"

definition ccu_helper_wait_for_lock :: "'h clk_plat \<Rightarrow> ccu_common \<Rightarrow> u32 \<Rightarrow> 'h \<Rightarrow> 'h" where
  "ccu_helper_wait_for_lock P co lock h =
     (if lock = 0 then h
      else wait_lock_loop P (if has_feature co CCU_FEATURE_LOCK_REG then co_base co + ucast (co_lock_reg co) else co_addr co)
        lock 4999 h)"

definition modify_reg :: "'h clk_plat \<Rightarrow> u64 \<Rightarrow> (u32 \<Rightarrow> u32) \<Rightarrow> 'h \<Rightarrow> 'h" where
  "modify_reg P a f h = (let (reg, h) = ck_readl P a h in ck_writel P (f reg) a h)"

definition ccu_frac_helper_is_enabled :: "'h clk_plat \<Rightarrow> ccu_common \<Rightarrow> ccu_frac_internal \<Rightarrow> 'h \<Rightarrow> bool \<times> 'h" where
  "ccu_frac_helper_is_enabled P co cf h =
     (if \<not> has_feature co CCU_FEATURE_FRACTIONAL then (False, h)
      else let (reg, h) = ck_readl P (co_addr co) h in (reg AND fr_enable cf = 0, h))"

definition ccu_frac_helper_enable :: "'h clk_plat \<Rightarrow> ccu_common \<Rightarrow> ccu_frac_internal \<Rightarrow> 'h \<Rightarrow> 'h" where
  "ccu_frac_helper_enable P co cf h =
     (if \<not> has_feature co CCU_FEATURE_FRACTIONAL then h
      else modify_reg P (co_addr co) (\<lambda>reg. reg AND NOT (fr_enable cf)) h)"

definition ccu_frac_helper_disable :: "'h clk_plat \<Rightarrow> ccu_common \<Rightarrow> ccu_frac_internal \<Rightarrow> 'h \<Rightarrow> 'h" where
  "ccu_frac_helper_disable P co cf h =
     (if \<not> has_feature co CCU_FEATURE_FRACTIONAL then h
      else modify_reg P (co_addr co) (\<lambda>reg. reg OR fr_enable cf) h)"

definition ccu_frac_helper_has_rate :: "ccu_common \<Rightarrow> ccu_frac_internal \<Rightarrow> u64 \<Rightarrow> bool" where
  "ccu_frac_helper_has_rate co cf rate \<longleftrightarrow>
     has_feature co CCU_FEATURE_FRACTIONAL \<and> (fr_rate0 cf = rate \<or> fr_rate1 cf = rate)"

definition ccu_frac_helper_read_rate :: "'h clk_plat \<Rightarrow> ccu_common \<Rightarrow> ccu_frac_internal \<Rightarrow> 'h \<Rightarrow> u64 \<times> 'h" where
  "ccu_frac_helper_read_rate P co cf h =
     (if \<not> has_feature co CCU_FEATURE_FRACTIONAL then (0, h)
      else let (reg, h) = ck_readl P (co_addr co) h in (if reg AND fr_select cf \<noteq> 0 then fr_rate1 cf else fr_rate0 cf, h))"

definition ccu_frac_helper_set_rate ::
  "'h clk_plat \<Rightarrow> ccu_common \<Rightarrow> ccu_frac_internal \<Rightarrow> u64 \<Rightarrow> u32 \<Rightarrow> 'h \<Rightarrow> int \<times> 'h" where
  "ccu_frac_helper_set_rate P co cf rate lock h =
     (if \<not> ccu_frac_helper_has_rate co cf rate then (-1, h)
      else let sel = (if fr_rate0 cf = rate then 0 else fr_select cf);
               h = modify_reg P (co_addr co) (\<lambda>reg. reg AND NOT (fr_select cf) OR sel) h
           in (0, ccu_helper_wait_for_lock P co lock h))"

definition tuning_addr :: "ccu_common \<Rightarrow> ccu_sdm_internal \<Rightarrow> u64" where
  "tuning_addr co sdm = co_base co + ucast (sd_tuning_reg sdm)"

definition ccu_sdm_helper_is_enabled :: "'h clk_plat \<Rightarrow> ccu_common \<Rightarrow> ccu_sdm_internal \<Rightarrow> 'h \<Rightarrow> bool \<times> 'h" where
  "ccu_sdm_helper_is_enabled P co sdm h =
     (if \<not> has_feature co CCU_FEATURE_SIGMA_DELTA_MOD then (False, h)
      else let (off, h) = (if sd_enable sdm = 0 then (False, h)
                           else let (reg, h) = ck_readl P (co_addr co) h in (reg AND sd_enable sdm = 0, h))
           in if off then (False, h)
              else let (reg, h) = ck_readl P (tuning_addr co sdm) h in (reg AND sd_tuning_enable sdm \<noteq> 0, h))"

definition ccu_sdm_helper_enable :: "'h clk_plat \<Rightarrow> ccu_common \<Rightarrow> ccu_sdm_internal \<Rightarrow> u64 \<Rightarrow> 'h \<Rightarrow> 'h" where
  "ccu_sdm_helper_enable P co sdm rate h =
     (if \<not> has_feature co CCU_FEATURE_SIGMA_DELTA_MOD then h
      else let h = fold (\<lambda>s h. if ss_rate s = rate then ck_writel P (ss_pattern s) (tuning_addr co sdm) h else h) (sd_table sdm) h;
               h = modify_reg P (tuning_addr co sdm) (\<lambda>reg. reg OR sd_tuning_enable sdm) h
           in modify_reg P (co_addr co) (\<lambda>reg. reg OR sd_enable sdm) h)"

definition ccu_sdm_helper_disable :: "'h clk_plat \<Rightarrow> ccu_common \<Rightarrow> ccu_sdm_internal \<Rightarrow> 'h \<Rightarrow> 'h" where
  "ccu_sdm_helper_disable P co sdm h =
     (if \<not> has_feature co CCU_FEATURE_SIGMA_DELTA_MOD then h
      else let h = modify_reg P (co_addr co) (\<lambda>reg. reg AND NOT (sd_enable sdm)) h
           in modify_reg P (tuning_addr co sdm) (\<lambda>reg. reg AND NOT (sd_tuning_enable sdm)) h)"

definition ccu_sdm_helper_has_rate :: "ccu_common \<Rightarrow> ccu_sdm_internal \<Rightarrow> u64 \<Rightarrow> bool" where
  "ccu_sdm_helper_has_rate co sdm rate \<longleftrightarrow>
     has_feature co CCU_FEATURE_SIGMA_DELTA_MOD \<and> rate \<in> ss_rate ` set (sd_table sdm)"

definition ccu_sdm_helper_read_rate ::
  "'h clk_plat \<Rightarrow> ccu_common \<Rightarrow> ccu_sdm_internal \<Rightarrow> u32 \<Rightarrow> u32 \<Rightarrow> 'h \<Rightarrow> u64 \<times> 'h" where
  "ccu_sdm_helper_read_rate P co sdm m n h =
     (if \<not> has_feature co CCU_FEATURE_SIGMA_DELTA_MOD then (0, h)
      else let (reg, h) = ck_readl P (tuning_addr co sdm) h
           in (case find (\<lambda>s. ss_pattern s = reg \<and> ss_m s = m \<and> ss_n s = n) (sd_table sdm) of
                 Some s \<Rightarrow> (ss_rate s, h) | None \<Rightarrow> (0, h)))"

text \<open>The factors \<open>(m, n)\<close>, when the rate is in the table.\<close>

definition ccu_sdm_helper_get_factors :: "ccu_common \<Rightarrow> ccu_sdm_internal \<Rightarrow> u64 \<Rightarrow> (u32 \<times> u32) option" where
  "ccu_sdm_helper_get_factors co sdm rate =
     (if \<not> has_feature co CCU_FEATURE_SIGMA_DELTA_MOD then None
      else map_option (\<lambda>s. (ss_m s, ss_n s)) (find (\<lambda>s. ss_rate s = rate) (sd_table sdm)))"

section \<open>N-M PLLs\<close>

record ccu_mult_internal =
  mu_offset :: u8
  mu_shift :: nat
  mu_width :: nat
  mu_min :: u8
  mu_max :: u8

record ccu_nm =
  nm_enable :: u32
  nm_lock :: u32
  nm_n :: ccu_mult_internal
  nm_m :: ccu_div_internal
  nm_frac :: ccu_frac_internal
  nm_sdm :: ccu_sdm_internal
  nm_fixed_post_div :: u32
  nm_common :: ccu_common

definition ccu_nm_calc_rate :: "u64 \<Rightarrow> u64 \<Rightarrow> u64 \<Rightarrow> u64 option" where
  "ccu_nm_calc_rate parent n m = (if m = 0 then None else Some (parent * n div m))"

text \<open>The two loops of \<open>ccu_nm_find_best\<close>; they do not end when a bound is the largest number.\<close>

definition nm_better :: "u64 \<Rightarrow> u64 \<Rightarrow> u64 \<Rightarrow> u64 \<times> u64 \<times> u64 \<Rightarrow> u64 \<Rightarrow> u64 \<times> u64 \<times> u64" where
  "nm_better rate n m best tmp_rate =
     (if tmp_rate > rate then best else if rate - tmp_rate < rate - fst best then (tmp_rate, n, m) else best)"

partial_function (option) nm_m_loop ::
  "u64 \<Rightarrow> u64 \<Rightarrow> u64 \<Rightarrow> u64 \<Rightarrow> u64 \<Rightarrow> u64 \<times> u64 \<times> u64 \<Rightarrow> (u64 \<times> u64 \<times> u64) option" where
  "nm_m_loop parent rate max_m n m best =
     (if m \<le> max_m
      then do {
        tmp_rate \<leftarrow> ccu_nm_calc_rate parent n m;
        nm_m_loop parent rate max_m n (m + 1) (nm_better rate n m best tmp_rate)
      }
      else Some best)"

partial_function (option) nm_n_loop ::
  "u64 \<Rightarrow> u64 \<Rightarrow> u64 \<Rightarrow> u64 \<Rightarrow> u64 \<Rightarrow> u64 \<Rightarrow> u64 \<times> u64 \<times> u64 \<Rightarrow> (u64 \<times> u64 \<times> u64) option" where
  "nm_n_loop parent rate min_m max_m max_n n best =
     (if n \<le> max_n
      then do {
        best \<leftarrow> nm_m_loop parent rate max_m n min_m best;
        nm_n_loop parent rate min_m max_m max_n (n + 1) best
      }
      else Some best)"

declare nm_m_loop.simps [code] nm_n_loop.simps [code]

definition ccu_nm_find_best :: "u64 \<Rightarrow> u64 \<Rightarrow> u64 \<Rightarrow> u64 \<Rightarrow> u64 \<Rightarrow> u64 \<Rightarrow> (u64 \<times> u64) option" where
  "ccu_nm_find_best parent rate min_n max_n min_m max_m = do {
     (_, n, m) \<leftarrow> nm_n_loop parent rate min_m max_m max_n min_n (0, 0, 0);
     Some (n, m)
   }"

definition nm_min_n :: "ccu_nm \<Rightarrow> u64" where
  "nm_min_n nm = (if mu_min (nm_n nm) \<noteq> 0 then ucast (mu_min (nm_n nm)) else 1)"

definition nm_max_n :: "ccu_nm \<Rightarrow> u64" where
  "nm_max_n nm = (if mu_max (nm_n nm) \<noteq> 0 then ucast (mu_max (nm_n nm)) else push_bit (mu_width (nm_n nm)) 1)"

definition nm_max_m :: "ccu_nm \<Rightarrow> u64" where
  "nm_max_m nm = (if dv_max (nm_m nm) \<noteq> 0 then ucast (dv_max (nm_m nm)) else push_bit (dv_width (nm_m nm)) 1)"

definition nm_post_div :: "ccu_nm \<Rightarrow> u64 \<Rightarrow> u64 option" where
  "nm_post_div nm rate =
     (if \<not> has_feature (nm_common nm) CCU_FEATURE_FIXED_POSTDIV then Some rate
      else if nm_fixed_post_div nm = 0 then None else Some (rate div ucast (nm_fixed_post_div nm)))"

definition ccu_nm_recalc_rate :: "'h clk_plat \<Rightarrow> ccu_nm \<Rightarrow> u64 \<Rightarrow> 'h \<Rightarrow> (u64 \<times> 'h) option" where
  "ccu_nm_recalc_rate P nm parent_rate h =
     (let (frac, h) = ccu_frac_helper_is_enabled P (nm_common nm) (nm_frac nm) h
      in if frac
      then let (rate, h) = ccu_frac_helper_read_rate P (nm_common nm) (nm_frac nm) h
           in map_option (\<lambda>rate. (rate, h)) (nm_post_div nm rate)
      else let
        (reg, h) = ck_readl P (co_addr (nm_common nm)) h;
        n = ucast (field_of (mu_shift (nm_n nm)) (mu_width (nm_n nm)) reg) + ucast (mu_offset (nm_n nm));
        n = (if n = 0 then 1 else n);
        m = ucast (field_of (dv_shift (nm_m nm)) (dv_width (nm_m nm)) reg) + ucast (dv_offset (nm_m nm));
        m = (if m = 0 then 1 else m);
        (sdm, h) = ccu_sdm_helper_is_enabled P (nm_common nm) (nm_sdm nm) h
      in do {
        (rate, h) \<leftarrow> (if sdm then Some (ccu_sdm_helper_read_rate P (nm_common nm) (nm_sdm nm) (ucast m) (ucast n) h)
                      else map_option (\<lambda>rate. (rate, h)) (ccu_nm_calc_rate parent_rate n m));
        map_option (\<lambda>rate. (rate, h)) (nm_post_div nm rate)
      })"

definition ccu_nm_set_rate :: "'h clk_plat \<Rightarrow> ccu_nm \<Rightarrow> u64 \<Rightarrow> u64 \<Rightarrow> 'h \<Rightarrow> (int \<times> 'h) option" where
  "ccu_nm_set_rate P nm rate parent_rate h =
     (let co = nm_common nm; a = co_addr co; frac = nm_frac nm; sdm = nm_sdm nm;
          n_mask = GENMASK (mu_width (nm_n nm) + mu_shift (nm_n nm) - 1) (mu_shift (nm_n nm));
          m_mask = GENMASK (dv_width (nm_m nm) + dv_shift (nm_m nm) - 1) (dv_shift (nm_m nm));
          rate = (if has_feature co CCU_FEATURE_FIXED_POSTDIV then rate * ucast (nm_fixed_post_div nm) else rate)
      in if ccu_frac_helper_has_rate co frac rate
      then let h = modify_reg P a (\<lambda>reg. reg AND NOT m_mask) h;
               h = ccu_frac_helper_enable P co frac h
           in Some (ccu_frac_helper_set_rate P co frac rate (nm_lock nm) h)
      else do {
        let h = ccu_frac_helper_disable P co frac h;
        (n, m, h) \<leftarrow> (if ccu_sdm_helper_has_rate co sdm rate
          then do {
            let h = ccu_sdm_helper_enable P co sdm rate h;
            (m, n) \<leftarrow> ccu_sdm_helper_get_factors co sdm rate;
            Some (ucast n, ucast m, h)
          }
          else do {
            let h = ccu_sdm_helper_disable P co sdm h;
            (n, m) \<leftarrow> ccu_nm_find_best parent_rate rate (nm_min_n nm) (nm_max_n nm) 1 (nm_max_m nm);
            Some (n, m, h)
          });
        let h = modify_reg P a (\<lambda>reg.
          let reg = reg AND NOT n_mask AND NOT m_mask;
              reg = reg OR ucast (push_bit (mu_shift (nm_n nm)) (n - ucast (mu_offset (nm_n nm))));
              reg = reg OR ucast (push_bit (dv_shift (nm_m nm)) (m - ucast (dv_offset (nm_m nm))))
          in reg) h;
        Some (0, ccu_helper_wait_for_lock P co (nm_lock nm) h)
      })"

definition ccu_nm_ops :: "'h clk_plat \<Rightarrow> ccu_nm \<Rightarrow> 'h clk_ops" where
  "ccu_nm_ops P nm = \<lparr>
     op_enable = Some (ccu_gate_helper_enable P (nm_common nm) (nm_enable nm)),
     op_disable = Some (ccu_gate_helper_disable P (nm_common nm) (nm_enable nm)),
     op_is_enabled = Some (ccu_gate_helper_is_enabled P (nm_common nm) (nm_enable nm)),
     op_get_parent = None, op_set_parent = None,
     op_set_rate = Some (ccu_nm_set_rate P nm), op_recalc_rate = Some (ccu_nm_recalc_rate P nm)\<rparr>"

end
