(* ===== verification/Ccu_Pll_Ok.thy ===== *)
theory Ccu_Pll_Ok
  imports Ccu_Pll
begin

unbundle bit_operations_syntax

text \<open>
  The other kinds of clocks: \<open>ccu_nm_find_best\<close> is the best choice of factors, a PLL and a divider
  get the best rate not above the requested one, which is then read back, and reading rates and
  parents changes nothing.
\<close>

section \<open>The search for the factors of a PLL\<close>

definition nm_rate :: "u64 \<Rightarrow> u64 \<times> u64 \<Rightarrow> u64" where
  "nm_rate parent x = parent * fst x div snd x"

lemma nm_better_take: "nm_better rate n m best (parent * n div m) = take_better (nm_rate parent) rate (n, m) best"
  by (simp add: nm_better_def take_better_def nm_rate_def)

lemma u64_next:
  assumes "(m :: u64) \<le> b" "b < - 1"
  shows "unat (m + 1) = unat m + 1" "m + 1 \<noteq> 0" "n = m \<or> m + 1 \<le> n \<longleftrightarrow> m \<le> n" "unat (b + 1) = unat b + 1"
proof -
  have "unat (- 1 :: u64) = 2 ^ 64 - 1" by (simp add: unsigned_minus_1_eq_mask mask_eq_exp_minus_1)
  moreover have "unat b < unat (- 1 :: u64)" using assms(2) by (simp only: word_less_nat_alt)
  ultimately have b: "unat b + 1 < 2 ^ 64" by simp
  then show "unat (b + 1) = unat b + 1" by (simp add: unat_word_ariths)
  show m: "unat (m + 1) = unat m + 1" using assms(1) b by (simp add: unat_word_ariths word_le_nat_alt)
  then show "m + 1 \<noteq> 0" by auto
  show "n = m \<or> m + 1 \<le> n \<longleftrightarrow> m \<le> n" using m by (auto simp: word_le_nat_alt word_unat_eq_iff)
qed

lemma nm_m_loop_fold:
  assumes "max_m < - 1"
  shows "m \<noteq> 0 \<Longrightarrow> \<exists>xs. set xs = {(n, k) |k. m \<le> k \<and> k \<le> max_m} \<and>
    nm_m_loop parent rate max_m n m best = Some (fold (take_better (nm_rate parent) rate) xs best)"
proof (induction "unat (max_m + 1) - unat m" arbitrary: m best rule: less_induct)
  case less
  show ?case
  proof (cases "m \<le> max_m")
    case True
    note nx = u64_next [OF True assms]
    let ?best = "take_better (nm_rate parent) rate (n, m) best"
    have "unat (max_m + 1) - unat (m + 1) < unat (max_m + 1) - unat m"
      using True nx(1,4) by (auto simp: word_le_nat_alt)
    then obtain xs where xs: "set xs = {(n, k) |k. m + 1 \<le> k \<and> k \<le> max_m}"
      "nm_m_loop parent rate max_m n (m + 1) ?best = Some (fold (take_better (nm_rate parent) rate) xs ?best)"
      using less.hyps [OF _ nx(2), of ?best] by blast
    have "set ((n, m) # xs) = {(n, k) |k. m \<le> k \<and> k \<le> max_m}" using xs(1) True nx(3) by auto
    then show ?thesis
      using xs(2) True less.prems
      by (intro exI [of _ "(n, m) # xs"]) (simp add: nm_m_loop.simps [of _ _ _ _ m] ccu_nm_calc_rate_def nm_better_take)
  next
    case False
    then show ?thesis by (intro exI [of _ "[]"]) (auto simp: nm_m_loop.simps [of _ _ _ _ m])
  qed
qed

lemma nm_n_loop_fold:
  assumes "max_m < - 1" "max_n < - 1" "min_m \<noteq> 0"
  shows "\<exists>xs. set xs = {(k, m). n \<le> k \<and> k \<le> max_n \<and> min_m \<le> m \<and> m \<le> max_m} \<and>
    nm_n_loop parent rate min_m max_m max_n n best = Some (fold (take_better (nm_rate parent) rate) xs best)"
proof (induction "unat (max_n + 1) - unat n" arbitrary: n best rule: less_induct)
  case less
  show ?case
  proof (cases "n \<le> max_n")
    case True
    note nx = u64_next [OF True assms(2)]
    obtain xs where xs: "set xs = {(n, k) |k. min_m \<le> k \<and> k \<le> max_m}"
      "nm_m_loop parent rate max_m n min_m best = Some (fold (take_better (nm_rate parent) rate) xs best)"
      using nm_m_loop_fold [OF assms(1,3)] by blast
    let ?best = "fold (take_better (nm_rate parent) rate) xs best"
    have "unat (max_n + 1) - unat (n + 1) < unat (max_n + 1) - unat n"
      using True nx(1,4) by (auto simp: word_le_nat_alt)
    then obtain ys where ys: "set ys = {(k, m). n + 1 \<le> k \<and> k \<le> max_n \<and> min_m \<le> m \<and> m \<le> max_m}"
      "nm_n_loop parent rate min_m max_m max_n (n + 1) ?best = Some (fold (take_better (nm_rate parent) rate) ys ?best)"
      using less.hyps [of "n + 1" ?best] by blast
    have "set (xs @ ys) = {(k, m). n \<le> k \<and> k \<le> max_n \<and> min_m \<le> m \<and> m \<le> max_m}"
      using xs(1) ys(1) True nx(3) by auto
    then show ?thesis
      using xs(2) ys(2) True by (intro exI [of _ "xs @ ys"]) (simp add: nm_n_loop.simps [of _ _ _ _ _ n])
  next
    case False
    then show ?thesis by (intro exI [of _ "[]"]) (auto simp: nm_n_loop.simps [of _ _ _ _ _ n])
  qed
qed

definition nm_factors :: "u64 \<Rightarrow> u64 \<Rightarrow> u64 \<Rightarrow> u64 \<Rightarrow> (u64 \<times> u64) set" where
  "nm_factors min_n max_n min_m max_m = {(n, m). min_n \<le> n \<and> n \<le> max_n \<and> min_m \<le> m \<and> m \<le> max_m}"

lemma ccu_nm_find_best_best:
  assumes "max_m < - 1" "max_n < - 1" "min_m \<noteq> 0"
  shows "\<exists>b n m. ccu_nm_find_best parent rate min_n max_n min_m max_m = Some (n, m) \<and>
    best_by (nm_rate parent) rate (nm_factors min_n max_n min_m max_m) (0, 0) (b, n, m)"
proof -
  obtain xs where xs: "set xs = nm_factors min_n max_n min_m max_m"
    "nm_n_loop parent rate min_m max_m max_n min_n (0, 0, 0) = Some (fold (take_better (nm_rate parent) rate) xs (0, 0, 0))"
    using nm_n_loop_fold [OF assms] unfolding nm_factors_def by blast
  have "best_by (nm_rate parent) rate (nm_factors min_n max_n min_m max_m) (0, 0) (fold (take_better (nm_rate parent) rate) xs (0, 0, 0))"
    using best_by_fold [OF best_by_none, of "nm_rate parent" rate xs "(0, 0)"] xs(1) by simp
  then show ?thesis using xs(2)
    by (cases "fold (take_better (nm_rate parent) rate) xs (0, 0, 0)") (auto simp: ccu_nm_find_best_def)
qed

section \<open>Setting the rate of a PLL\<close>

lemma wait_for_lock_reads: "reg_at P cell \<Longrightarrow> ccu_helper_wait_for_lock P co lock h = h"
proof -
  assume P: "reg_at P cell"
  have "wait_lock_loop P a lock n h = h" for a n
    by (induction n) (use P in \<open>simp_all add: reg_at_def\<close>)
  then show ?thesis by (simp add: ccu_helper_wait_for_lock_def)
qed

lemma modify_reg_at: "reg_at P cell \<Longrightarrow> modify_reg P a f h = ck_writel P (f (cell h a)) a h"
  by (simp add: modify_reg_def reg_at_def)

text \<open>A PLL without features, whose input divider is below its multiplier.\<close>

definition nm_plain :: "ccu_nm \<Rightarrow> bool" where
  "nm_plain nm \<longleftrightarrow> co_features (nm_common nm) = 0 \<and> mu_max (nm_n nm) = 0 \<and> dv_max (nm_m nm) = 0 \<and>
     mu_offset (nm_n nm) = 1 \<and> dv_offset (nm_m nm) = 1 \<and> 1 \<le> mu_width (nm_n nm) \<and> 1 \<le> dv_width (nm_m nm) \<and>
     dv_shift (nm_m nm) + dv_width (nm_m nm) \<le> mu_shift (nm_n nm) \<and> mu_shift (nm_n nm) + mu_width (nm_n nm) \<le> 32"

definition nm_all :: "ccu_nm \<Rightarrow> (u64 \<times> u64) set" where
  "nm_all nm = nm_factors (nm_min_n nm) (nm_max_n nm) 1 (nm_max_m nm)"

lemma nm_plain_features: "nm_plain nm \<Longrightarrow> \<not> has_feature (nm_common nm) f"
  by (simp add: nm_plain_def has_feature_def)

lemma exp_below: "w \<le> 32 \<Longrightarrow> (2 ^ w :: u64) < - 1" "w \<le> 32 \<Longrightarrow> unat (2 ^ w :: u64) = 2 ^ w"
proof -
  assume w: "w \<le> 32"
  then show u: "unat (2 ^ w :: u64) = 2 ^ w" by (simp add: unat_two_power)
  have "(2 :: nat) ^ w \<le> 2 ^ 32" using w by (intro power_increasing) simp_all
  moreover have "unat (- 1 :: u64) = 2 ^ 64 - 1" by (simp add: unsigned_minus_1_eq_mask mask_eq_exp_minus_1)
  ultimately show "(2 ^ w :: u64) < - 1" by (simp only: word_less_nat_alt u) simp
qed

lemma field_value:
  assumes "1 \<le> (x :: u64)" "x \<le> 2 ^ w" "w \<le> 32" "sh + w \<le> 32"
  shows "ucast (push_bit sh (x - 1)) = (push_bit sh (ucast (x - 1)) :: u32)"
    "ucast (x - 1) AND mask w = (ucast (x - 1) :: u32)" "ucast (ucast (x - 1) :: u32) + 1 = x"
proof -
  have x: "unat (x - 1) = unat x - 1" using assms(1) by (simp add: unat_sub word_le_nat_alt)
  have le: "unat x \<le> 2 ^ w" using assms(2) exp_below(2) [OF assms(3)] by (simp add: word_le_nat_alt)
  have "(2 :: nat) ^ w \<le> 2 ^ 32" using assms(3) by (intro power_increasing) simp_all
  then have b: "unat (x - 1) < 2 ^ w" "unat (x - 1) < 2 ^ 32" using x le assms(1) by (auto simp: word_le_nat_alt)
  have u: "unat (ucast (x - 1) :: u32) = unat (x - 1)" using b(2) by (simp add: unsigned_ucast_eq take_bit_eq_mod)
  show "ucast (push_bit sh (x - 1)) = (push_bit sh (ucast (x - 1)) :: u32)"
    by (rule bit_word_eqI) (auto simp: bit_simps)
  show "ucast (x - 1) AND mask w = (ucast (x - 1) :: u32)" by (rule mask_less) (simp add: u b(1))
  have "ucast (ucast (x - 1) :: u32) = x - 1" using b(2) by (simp add: word_unat_eq_iff unsigned_ucast_eq take_bit_eq_mod unat_mod_distrib)
  then show "ucast (ucast (x - 1) :: u32) + 1 = x" by simp
qed

lemma ccu_nm_set_rate_plain:
  assumes nm: "nm_plain nm" and P: "reg_at P cell"
    and some: "\<exists>x \<in> nm_all nm. 0 < nm_rate parent x \<and> nm_rate parent x \<le> rate"
  shows "\<exists>h' r. ccu_nm_set_rate P nm rate parent h = Some (0, h') \<and> ccu_nm_recalc_rate P nm parent h' = Some (r, h') \<and>
    r \<le> rate \<and> (\<forall>x \<in> nm_all nm. nm_rate parent x \<le> rate \<longrightarrow> nm_rate parent x \<le> r) \<and>
    (\<exists>n m. cell h' = (cell h)(co_addr (nm_common nm) :=
       put_field (mu_shift (nm_n nm)) (mu_width (nm_n nm)) n
         (put_field (dv_shift (nm_m nm)) (dv_width (nm_m nm)) m (cell h (co_addr (nm_common nm))))) \<and>
       n AND mask (mu_width (nm_n nm)) = n \<and> m AND mask (dv_width (nm_m nm)) = m)"
proof -
  let ?a = "co_addr (nm_common nm)"
  let ?sm = "dv_shift (nm_m nm)" and ?wm = "dv_width (nm_m nm)" and ?sn = "mu_shift (nm_n nm)" and ?wn = "mu_width (nm_n nm)"
  have b: "1 \<le> ?wm" "1 \<le> ?wn" "?sm + ?wm \<le> ?sn" "?sn + ?wn \<le> 32" "?wm \<le> 32" "?wn \<le> 32" "?sm + ?wm \<le> 32"
    using nm by (simp_all add: nm_plain_def)
  have mx: "nm_max_n nm = 2 ^ ?wn" "nm_max_m nm = 2 ^ ?wm"
    using nm by (simp_all add: nm_plain_def nm_max_n_def nm_max_m_def push_bit_eq_mult)
  obtain c n m where fb: "ccu_nm_find_best parent rate (nm_min_n nm) (nm_max_n nm) 1 (nm_max_m nm) = Some (n, m)"
    "best_by (nm_rate parent) rate (nm_all nm) (0, 0) (c, n, m)"
    using ccu_nm_find_best_best [of "nm_max_m nm" "nm_max_n nm" 1] exp_below(1) b(5,6) unfolding mx nm_all_def
    by (metis zero_neq_one)
  have "c \<noteq> 0" using fb(2) some by (auto simp: best_by_def word_le_nat_alt word_less_nat_alt)
  then have c: "(n, m) \<in> nm_all nm" "c = nm_rate parent (n, m)" "c \<le> rate"
    and best: "\<forall>x \<in> nm_all nm. nm_rate parent x \<le> rate \<longrightarrow> nm_rate parent x \<le> c"
    using fb(2) by (auto simp: best_by_def)
  have "unat (mu_min (nm_n nm)) < 2 ^ LENGTH(8)" by (rule unsigned_less)
  then have "nm_min_n nm \<noteq> 0" by (simp add: nm_min_n_def word_unat_eq_iff unsigned_ucast_eq take_bit_eq_mod)
  then have "1 \<le> nm_min_n nm" by (simp add: word_le_nat_alt Suc_le_eq unat_gt_0)
  then have nb: "1 \<le> n" "n \<le> 2 ^ ?wn" "1 \<le> m" "m \<le> 2 ^ ?wm"
    using c(1) by (auto simp: nm_all_def nm_factors_def mx)
  note fn = field_value [OF nb(1,2) b(6,4)] and fm = field_value [OF nb(3,4) b(5,7)]
  let ?n = "ucast (n - 1) :: u32" and ?m = "ucast (m - 1) :: u32"
  let ?r = "put_field ?sn ?wn ?n (put_field ?sm ?wm ?m (cell h ?a))"
  have gm: "GENMASK (?wm + ?sm - Suc 0) ?sm = push_bit ?sm (mask ?wm)"
    "GENMASK (?wn + ?sn - Suc 0) ?sn = push_bit ?sn (mask ?wn)"
    using GENMASK_mask [of ?wm ?sm] GENMASK_mask [of ?wn ?sn] b by simp_all
  have o: "((x AND NOT (push_bit ?sn (mask ?wn)) AND NOT (push_bit ?sm (mask ?wm))) OR push_bit ?sn ?n) OR push_bit ?sm ?m =
      put_field ?sn ?wn ?n (put_field ?sm ?wm ?m x)" for x
    using put_two_fields [OF fm(2) b(3) fn(2) b(4), of x] by (simp add: ac_simps)
  have off: "mu_offset (nm_n nm) = 1" "dv_offset (nm_m nm) = 1" using nm by (simp_all add: nm_plain_def)
  have s: "ccu_nm_set_rate P nm rate parent h = Some (0, ck_writel P ?r ?a h)"
    using nm_plain_features [OF nm]
    by (simp add: ccu_nm_set_rate_def ccu_frac_helper_has_rate_def ccu_sdm_helper_has_rate_def ccu_frac_helper_disable_def
      ccu_sdm_helper_disable_def fb(1) wait_for_lock_reads [OF P] modify_reg_at [OF P] gm off fn(1) fm(1) o Let_def)
  have g: "field_of ?sm ?wm ?r = ?m" "field_of ?sn ?wn ?r = ?n"
    using b fn(2) fm(2) by (simp_all add: field_of_get get_put_field get_put_other)
  have "n \<noteq> 0" "m \<noteq> 0" using nb(1,3) by auto
  then have q: "ccu_nm_recalc_rate P nm parent (ck_writel P ?r ?a h) = Some (c, ck_writel P ?r ?a h)"
    using nm_plain_features [OF nm] P
    by (simp add: ccu_nm_recalc_rate_def ccu_frac_helper_is_enabled_def ccu_sdm_helper_is_enabled_def nm_post_div_def
      reg_at_def g off fn(3) fm(3) ccu_nm_calc_rate_def c(2) nm_rate_def Let_def)
  have "cell (ck_writel P ?r ?a h) = (cell h)(?a := ?r)" using P by (auto simp: reg_at_def)
  then show ?thesis using s q c(3) best fn(2) fm(2) by blast
qed

section \<open>Setting the rate of a divider\<close>

lemma round_up_le:
  assumes "0 < (b :: nat)"
  shows "(a + b - 1) div b \<le> k \<longleftrightarrow> a \<le> k * b"
proof -
  have "(a + b - 1) div b \<le> k \<longleftrightarrow> a + b - 1 < (k + 1) * b"
    using assms by (metis Suc_eq_plus1 div_less_iff_less_mult less_Suc_eq_le)
  also have "\<dots> \<longleftrightarrow> a \<le> k * b" using assms by auto
  finally show ?thesis .
qed

lemma DIV_ROUND_UP_unat:
  assumes "d \<noteq> 0" "unat n + unat d \<le> 2 ^ 64"
  shows "unat (DIV_ROUND_UP_ULL n d) = (unat n + unat d - 1) div unat d"
proof -
  have d: "1 \<le> unat d" using assms(1) by (simp add: Suc_le_eq unat_gt_0)
  have u: "unat (d - 1) = unat d - 1" using d by (simp add: unat_sub word_le_nat_alt)
  have "unat (n + (d - 1)) = unat n + (unat d - 1)"
    unfolding unat_word_ariths(1) u using assms(2) d by simp
  then have "unat (n + d - 1) = unat n + unat d - 1" using d by (simp add: add_diff_eq)
  then show ?thesis by (simp add: DIV_ROUND_UP_ULL_def unat_div)
qed

text \<open>A divider without features, flags and table.\<close>

definition div_plain :: "ccu_div \<Rightarrow> bool" where
  "div_plain cd \<longleftrightarrow> co_features (cd_common cd) = 0 \<and> cd_flags cd = 0 \<and> cd_table cd = None \<and>
     1 \<le> cd_width cd \<and> cd_width cd \<le> 31 \<and> cd_shift cd + cd_width cd \<le> 32"

lemma div_plain_prediv:
  "div_plain cd \<Longrightarrow> ccu_mux_helper_apply_prediv P (cd_common cd) cm i rate h = Some (rate, h)"
  by (simp add: div_plain_def ccu_mux_helper_apply_prediv_def ccu_mux_get_prediv_def has_feature_def)

lemma div_plain_recalc:
  assumes "div_plain cd" "reg_at P cell"
  shows "ccu_div_recalc_rate P cd parent h = Some (divider_recalc_rate parent
    (get_field (cd_shift cd) (cd_width cd) (cell h (co_addr (cd_common cd)))) None 0 (cd_width cd), h)"
  using assms by (simp add: ccu_div_recalc_rate_def div_plain_prediv field_of_get reg_at_def)
    (simp add: div_plain_def has_feature_def)

text \<open>
  The divider that is set gives the best rate not above the requested one, if any of the field's
  does; only its field is written.
\<close>

lemma ccu_div_set_rate_plain:
  assumes cd: "div_plain cd" and P: "reg_at P cell" and pos: "0 < parent" "0 < rate"
    and small: "unat parent + unat rate \<le> 2 ^ 64" "parent < 2 ^ 32"
    and some: "unat parent \<le> unat rate * 2 ^ cd_width cd"
  shows "\<exists>h' d. ccu_div_set_rate P cd rate parent h = Some (0, h') \<and>
    ccu_div_recalc_rate P cd parent h' = Some (DIV_ROUND_UP_ULL parent d, h') \<and> 1 \<le> d \<and> d \<le> 2 ^ cd_width cd \<and>
    DIV_ROUND_UP_ULL parent d \<le> rate \<and>
    (\<forall>e. 1 \<le> e \<and> e \<le> 2 ^ cd_width cd \<and> DIV_ROUND_UP_ULL parent e \<le> rate \<longrightarrow> DIV_ROUND_UP_ULL parent e \<le> DIV_ROUND_UP_ULL parent d) \<and>
    (\<exists>v. v AND mask (cd_width cd) = v \<and>
       cell h' = (cell h)(co_addr (cd_common cd) := put_field (cd_shift cd) (cd_width cd) v (cell h (co_addr (cd_common cd)))))"
proof -
  let ?w = "cd_width cd" and ?sh = "cd_shift cd" and ?a = "co_addr (cd_common cd)"
  have w: "1 \<le> ?w" "?w \<le> 31" "?sh + ?w \<le> 32" using cd by (simp_all add: div_plain_def)
  define D where "D = DIV_ROUND_UP_ULL parent rate"
  have r: "0 < unat rate" "0 < unat parent" using pos by (simp_all add: unat_gt_0 word_gt_0)
  have D: "unat D = (unat parent + unat rate - 1) div unat rate"
    unfolding D_def by (rule DIV_ROUND_UP_unat) (use pos small in auto)
  have D_le: "unat D \<le> k \<longleftrightarrow> unat parent \<le> k * unat rate" for k unfolding D by (rule round_up_le [OF r(1)])
  have "unat D \<le> 2 ^ ?w" using some D_le by (simp add: mult.commute)
  moreover have "0 < unat D" using D_le [of 0] r(2) by simp
  moreover have "(2 :: nat) ^ ?w \<le> 2 ^ 31" using w(2) by (intro power_increasing) simp_all
  ultimately have Db: "1 \<le> unat D" "unat D \<le> 2 ^ ?w" "unat D \<le> 2 ^ 31" by simp_all
  let ?d = "ucast D :: u32"
  have ud: "unat ?d = unat D" using Db(3) by (simp add: unsigned_ucast_eq take_bit_eq_mod)
  have v: "unat (?d - 1) = unat D - 1" using Db(1) ud by (simp add: unat_sub word_le_nat_alt)
  have "unat (?d - 1) < 2 ^ ?w" using v Db(1,2) by linarith
  then have vm: "(?d - 1) AND mask ?w = ?d - 1" by (rule mask_less)
  have mask: "clk_div_mask ?w = mask ?w" by (simp add: clk_div_mask_def mask_eq_decr_exp push_bit_eq_mult)
  have "?d - 1 \<le> mask ?w" using vm by (metis word_and_le1)
  then have mn: "min (?d - 1) (clk_div_mask ?w) = ?d - 1" unfolding mask by (rule min_absorb1)
  have gv: "divider_get_val rate parent None ?w 0 = Some (?d - 1)"
    using pos mn by (simp add: divider_get_val_def is_valid_div_def get_val_def D_def word_gt_0)
  let ?r = "put_field ?sh ?w (?d - 1) (cell h ?a)"
  have gm: "GENMASK (?w + ?sh - Suc 0) ?sh = push_bit ?sh (mask ?w)" using GENMASK_mask [of ?w ?sh] w by simp
  have s: "ccu_div_set_rate P cd rate parent h = Some (0, ck_writel P ?r ?a h)"
    using P cd gv by (simp add: ccu_div_set_rate_def div_plain_prediv [OF cd] reg_at_def gm put_field_def)
      (simp add: div_plain_def has_feature_def)
  have uu: "ucast ?d = D" using Db(3) by (simp add: word_unat_eq_iff unsigned_ucast_eq take_bit_eq_mod unat_mod_distrib)
  have "?d \<noteq> 0" using ud Db(1) by auto
  then have q: "ccu_div_recalc_rate P cd parent (ck_writel P ?r ?a h) = Some (DIV_ROUND_UP_ULL parent D, ck_writel P ?r ?a h)"
    using P vm w(3) unfolding div_plain_recalc [OF cd P]
    by (simp add: reg_at_def get_put_field divider_recalc_rate_def get_div_def uu)
  have up: "unat (2 ^ ?w :: u64) = 2 ^ ?w" using exp_below(2) [of ?w] w(2) by simp
  have pp: "unat parent < 2 ^ 32" using small(2) by (simp add: word_less_nat_alt)
  have ru: "unat (DIV_ROUND_UP_ULL parent e) \<le> k \<longleftrightarrow> unat parent \<le> k * unat e" if "1 \<le> unat e" "unat e \<le> 2 ^ ?w" for e k
  proof -
    have "unat e \<le> 2 ^ 31" using that(2) \<open>2 ^ ?w \<le> 2 ^ 31\<close> by simp
    then have "unat (DIV_ROUND_UP_ULL parent e) = (unat parent + unat e - 1) div unat e"
      using that(1) pp by (intro DIV_ROUND_UP_unat) auto
    moreover have "0 < unat e" using that(1) by simp
    ultimately show ?thesis using round_up_le by simp
  qed
  have le: "DIV_ROUND_UP_ULL parent D \<le> rate"
    using ru [OF Db(1,2)] D_le [of "unat D"] by (simp add: word_le_nat_alt mult.commute)
  have best: "DIV_ROUND_UP_ULL parent e \<le> DIV_ROUND_UP_ULL parent D"
    if e: "1 \<le> e" "e \<le> 2 ^ ?w" "DIV_ROUND_UP_ULL parent e \<le> rate" for e
  proof -
    have b: "1 \<le> unat e" "unat e \<le> 2 ^ ?w" using e(1,2) up by (simp_all add: word_le_nat_alt)
    then have "unat parent \<le> unat e * unat rate" using ru [OF b] e(3) by (simp add: word_le_nat_alt mult.commute)
    then have "unat D \<le> unat e" using D_le by blast
    moreover have "unat parent \<le> unat (DIV_ROUND_UP_ULL parent D) * unat D" using ru [OF Db(1,2)] by blast
    ultimately have "unat parent \<le> unat (DIV_ROUND_UP_ULL parent D) * unat e"
      using mult_le_mono2 order_trans by metis
    then show ?thesis using ru [OF b] by (simp add: word_le_nat_alt)
  qed
  have "1 \<le> D" "D \<le> 2 ^ ?w" using Db(1,2) up by (simp_all add: word_le_nat_alt)
  moreover have "cell (ck_writel P ?r ?a h) = (cell h)(?a := ?r)" using P by (auto simp: reg_at_def)
  ultimately show ?thesis using s q le best vm by blast
qed

end
