(* ===== verification/Ccu_Kinds.thy ===== *)
theory Ccu_Kinds
  imports Ccu_Pll Ccu_Register
begin

unbundle bit_operations_syntax

text \<open>
  The remaining kinds of clocks of the D1: multipliers (\<open>ccu_mult.c\<close>), N-K-M-P PLLs (\<open>ccu_nkmp.c\<close>)
  and plain multiplexers (\<open>ccu_mux.c\<close>), without the rounding of rates; a clock of any kind with its
  initial data; and the macros that build the tables of clocks.
\<close>

section \<open>Multipliers\<close>

record ccu_mult =
  cu_enable :: u32
  cu_lock :: u32
  cu_frac :: ccu_frac_internal
  cu_mult :: ccu_mult_internal
  cu_mux :: ccu_mux_internal
  cu_common :: ccu_common

text \<open>The value is kept in an \<open>int\<close>, which is compared as an \<open>unsigned long\<close>.\<close>

definition via_int :: "u64 \<Rightarrow> u64" where
  "via_int x = scast (ucast x :: u32)"

definition ccu_mult_find_best :: "u64 \<Rightarrow> u64 \<Rightarrow> u64 \<Rightarrow> u64 \<Rightarrow> u64 option" where
  "ccu_mult_find_best parent rate lo hi =
     (if parent = 0 then None
      else let m = via_int (rate div parent); m = (if m < lo then via_int lo else m)
           in Some (if m > hi then via_int hi else m))"

definition mult_max :: "ccu_mult_internal \<Rightarrow> u64" where
  "mult_max m = (if mu_max m \<noteq> 0 then ucast (mu_max m) else push_bit (mu_width m) 1 + ucast (mu_offset m) - 1)"

definition ccu_mult_recalc_rate :: "'h clk_plat \<Rightarrow> ccu_mult \<Rightarrow> u64 \<Rightarrow> 'h \<Rightarrow> (u64 \<times> 'h) option" where
  "ccu_mult_recalc_rate P cm parent_rate h =
     (let (frac, h) = ccu_frac_helper_is_enabled P (cu_common cm) (cu_frac cm) h
      in if frac then Some (ccu_frac_helper_read_rate P (cu_common cm) (cu_frac cm) h)
      else let (reg, h) = ck_readl P (co_addr (cu_common cm)) h;
               val = ucast (field_of (mu_shift (cu_mult cm)) (mu_width (cu_mult cm)) reg)
      in do {
        (parent_rate, h) \<leftarrow> ccu_mux_helper_apply_prediv P (cu_common cm) (cu_mux cm) (-1) parent_rate h;
        Some (parent_rate * (val + ucast (mu_offset (cu_mult cm))), h)
      })"

definition ccu_mult_set_rate :: "'h clk_plat \<Rightarrow> ccu_mult \<Rightarrow> u64 \<Rightarrow> u64 \<Rightarrow> 'h \<Rightarrow> (int \<times> 'h) option" where
  "ccu_mult_set_rate P cm rate parent_rate h =
     (let co = cu_common cm; mu = cu_mult cm
      in if ccu_frac_helper_has_rate co (cu_frac cm) rate
      then let h = ccu_frac_helper_enable P co (cu_frac cm) h
           in Some (ccu_frac_helper_set_rate P co (cu_frac cm) rate (cu_lock cm) h)
      else do {
        let h = ccu_frac_helper_disable P co (cu_frac cm) h;
        (parent_rate, h) \<leftarrow> ccu_mux_helper_apply_prediv P co (cu_mux cm) (-1) parent_rate h;
        m \<leftarrow> ccu_mult_find_best parent_rate rate (ucast (mu_min mu)) (mult_max mu);
        let h = modify_reg P (co_addr co) (\<lambda>reg.
          reg AND NOT (GENMASK (mu_width mu + mu_shift mu - 1) (mu_shift mu)) OR
            ucast (push_bit (mu_shift mu) (m - ucast (mu_offset mu)))) h;
        Some (0, ccu_helper_wait_for_lock P co (cu_lock cm) h)
      })"

text \<open>\<open>n\<close> is the number of parents.\<close>

definition ccu_mult_ops :: "'h clk_plat \<Rightarrow> ccu_mult \<Rightarrow> nat \<Rightarrow> 'h clk_ops" where
  "ccu_mult_ops P cm n = \<lparr>
     op_enable = Some (ccu_gate_helper_enable P (cu_common cm) (cu_enable cm)),
     op_disable = Some (ccu_gate_helper_disable P (cu_common cm) (cu_enable cm)),
     op_is_enabled = Some (ccu_gate_helper_is_enabled P (cu_common cm) (cu_enable cm)),
     op_get_parent = Some (ccu_mux_helper_get_parent P (cu_common cm) (cu_mux cm) n),
     op_set_parent = Some (ccu_mux_helper_set_parent P (cu_common cm) (cu_mux cm)),
     op_set_rate = Some (ccu_mult_set_rate P cm), op_recalc_rate = Some (ccu_mult_recalc_rate P cm)\<rparr>"

section \<open>N-K-M-P PLLs\<close>

record ccu_nkmp =
  kp_enable :: u32
  kp_lock :: u32
  kp_n :: ccu_mult_internal
  kp_k :: ccu_mult_internal
  kp_m :: ccu_div_internal
  kp_p :: ccu_div_internal
  kp_fixed_post_div :: u32
  kp_common :: ccu_common

definition ccu_nkmp_calc_rate :: "u64 \<Rightarrow> u64 \<Rightarrow> u64 \<Rightarrow> u64 \<Rightarrow> u64 \<Rightarrow> u64 option" where
  "ccu_nkmp_calc_rate parent n k m p = (if m * p = 0 then None else Some (parent * (n * k) div (m * p)))"

text \<open>
  The two forms of the loops of \<open>ccu_nkmp_find_best\<close>: \<open>for (; i <= hi; i++)\<close> and
  \<open>for (; i <= hi; i <<= 1)\<close>. They do not end when the bound is too large for the step.
\<close>

partial_function (option) for_up :: "(u64 \<Rightarrow> 's \<Rightarrow> 's option) \<Rightarrow> u64 \<Rightarrow> u64 \<Rightarrow> 's \<Rightarrow> 's option" where
  "for_up body hi i s = (if i \<le> hi then do { s \<leftarrow> body i s; for_up body hi (i + 1) s } else Some s)"

partial_function (option) for_doubled :: "(u64 \<Rightarrow> 's \<Rightarrow> 's option) \<Rightarrow> u64 \<Rightarrow> u64 \<Rightarrow> 's \<Rightarrow> 's option" where
  "for_doubled body hi i s = (if i \<le> hi then do { s \<leftarrow> body i s; for_doubled body hi (push_bit 1 i) s } else Some s)"

declare for_up.simps [code] for_doubled.simps [code]

type_synonym nkmp_best = "u64 \<times> u64 \<times> u64 \<times> u64 \<times> u64"

definition nkmp_better :: "u64 \<Rightarrow> u64 \<Rightarrow> u64 \<Rightarrow> u64 \<Rightarrow> u64 \<Rightarrow> u64 \<Rightarrow> nkmp_best \<Rightarrow> nkmp_best option" where
  "nkmp_better parent rate k n m p best = do {
     tmp_rate \<leftarrow> ccu_nkmp_calc_rate parent n k m p;
     Some (if tmp_rate > rate then best
           else if rate - tmp_rate < rate - fst best then (tmp_rate, n, k, m, p) else best)
   }"

text \<open>The bounds are \<open>(min, max)\<close>; the result is \<open>n\<close>, \<open>k\<close>, \<open>m\<close>, \<open>p\<close>.\<close>

definition ccu_nkmp_find_best ::
  "u64 \<Rightarrow> u64 \<Rightarrow> u64 \<times> u64 \<Rightarrow> u64 \<times> u64 \<Rightarrow> u64 \<times> u64 \<Rightarrow> u64 \<times> u64 \<Rightarrow> (u64 \<times> u64 \<times> u64 \<times> u64) option" where
  "ccu_nkmp_find_best parent rate nb kb mb pb = map_option snd
     (for_up (\<lambda>k. for_up (\<lambda>n. for_up (\<lambda>m. for_doubled (\<lambda>p. nkmp_better parent rate k n m p)
        (snd pb) (fst pb)) (snd mb) (fst mb)) (snd nb) (fst nb)) (snd kb) (fst kb) (0, 0, 0, 0, 0))"

definition mult_bounds :: "ccu_mult_internal \<Rightarrow> u64 \<times> u64" where
  "mult_bounds m = (if mu_min m \<noteq> 0 then ucast (mu_min m) else 1,
     if mu_max m \<noteq> 0 then ucast (mu_max m) else push_bit (mu_width m) 1)"

definition m_bounds :: "ccu_div_internal \<Rightarrow> u64 \<times> u64" where
  "m_bounds d = (1, if dv_max d \<noteq> 0 then ucast (dv_max d) else push_bit (dv_width d) 1)"

text \<open>For fields of less than five bits (of the D1 they have one).\<close>

definition p_bounds :: "ccu_div_internal \<Rightarrow> u64 \<times> u64" where
  "p_bounds d = (1, if dv_max d \<noteq> 0 then ucast (dv_max d) else push_bit (2 ^ dv_width d - 1) 1)"

definition at_least_1 :: "u64 \<Rightarrow> u64" where
  "at_least_1 x = (if x = 0 then 1 else x)"

definition ccu_nkmp_recalc_rate :: "'h clk_plat \<Rightarrow> ccu_nkmp \<Rightarrow> u64 \<Rightarrow> 'h \<Rightarrow> (u64 \<times> 'h) option" where
  "ccu_nkmp_recalc_rate P c parent_rate h =
     (let (reg, h) = ck_readl P (co_addr (kp_common c)) h;
          n = at_least_1 (ucast (field_of (mu_shift (kp_n c)) (mu_width (kp_n c)) reg) + ucast (mu_offset (kp_n c)));
          k = at_least_1 (ucast (field_of (mu_shift (kp_k c)) (mu_width (kp_k c)) reg) + ucast (mu_offset (kp_k c)));
          m = at_least_1 (ucast (field_of (dv_shift (kp_m c)) (dv_width (kp_m c)) reg) + ucast (dv_offset (kp_m c)));
          p = field_of (dv_shift (kp_p c)) (dv_width (kp_p c)) reg
      in do {
        rate \<leftarrow> ccu_nkmp_calc_rate parent_rate n k m (push_bit (unat p) 1);
        if has_feature (kp_common c) CCU_FEATURE_FIXED_POSTDIV
        then if kp_fixed_post_div c = 0 then None else Some (rate div ucast (kp_fixed_post_div c), h)
        else Some (rate, h)
      })"

definition field_mask :: "nat \<Rightarrow> nat \<Rightarrow> u32" where
  "field_mask w sh = (if w = 0 then 0 else GENMASK (w + sh - 1) sh)"

definition ccu_nkmp_set_rate :: "'h clk_plat \<Rightarrow> ccu_nkmp \<Rightarrow> u64 \<Rightarrow> u64 \<Rightarrow> 'h \<Rightarrow> (int \<times> 'h) option" where
  "ccu_nkmp_set_rate P c rate parent_rate h =
     (let co = kp_common c;
          rate = (if has_feature co CCU_FEATURE_FIXED_POSTDIV then rate * ucast (kp_fixed_post_div c) else rate);
          n_mask = field_mask (mu_width (kp_n c)) (mu_shift (kp_n c)); k_mask = field_mask (mu_width (kp_k c)) (mu_shift (kp_k c));
          m_mask = field_mask (dv_width (kp_m c)) (dv_shift (kp_m c)); p_mask = field_mask (dv_width (kp_p c)) (dv_shift (kp_p c))
      in do {
        (n, k, m, p) \<leftarrow> ccu_nkmp_find_best parent_rate rate (mult_bounds (kp_n c)) (mult_bounds (kp_k c))
          (m_bounds (kp_m c)) (p_bounds (kp_p c));
        let h = modify_reg P (co_addr co) (\<lambda>reg.
          let reg = reg AND NOT (n_mask OR k_mask OR m_mask OR p_mask);
              reg = reg OR (ucast (push_bit (mu_shift (kp_n c)) (n - ucast (mu_offset (kp_n c)))) AND n_mask);
              reg = reg OR (ucast (push_bit (mu_shift (kp_k c)) (k - ucast (mu_offset (kp_k c)))) AND k_mask);
              reg = reg OR (ucast (push_bit (dv_shift (kp_m c)) (m - ucast (dv_offset (kp_m c)))) AND m_mask)
          in reg OR (push_bit (dv_shift (kp_p c)) (ilog2 (ucast p)) AND p_mask)) h;
        Some (0, ccu_helper_wait_for_lock P co (kp_lock c) h)
      })"

definition ccu_nkmp_ops :: "'h clk_plat \<Rightarrow> ccu_nkmp \<Rightarrow> 'h clk_ops" where
  "ccu_nkmp_ops P c = \<lparr>
     op_enable = Some (ccu_gate_helper_enable P (kp_common c) (kp_enable c)),
     op_disable = Some (ccu_gate_helper_disable P (kp_common c) (kp_enable c)),
     op_is_enabled = Some (ccu_gate_helper_is_enabled P (kp_common c) (kp_enable c)),
     op_get_parent = None, op_set_parent = None,
     op_set_rate = Some (ccu_nkmp_set_rate P c), op_recalc_rate = Some (ccu_nkmp_recalc_rate P c)\<rparr>"

section \<open>Multiplexers\<close>

record ccu_mux =
  cx_enable :: u32
  cx_mux :: ccu_mux_internal
  cx_common :: ccu_common

definition ccu_mux_ops :: "'h clk_plat \<Rightarrow> ccu_mux \<Rightarrow> nat \<Rightarrow> 'h clk_ops" where
  "ccu_mux_ops P cx n = \<lparr>
     op_enable = Some (ccu_gate_helper_enable P (cx_common cx) (cx_enable cx)),
     op_disable = Some (ccu_gate_helper_disable P (cx_common cx) (cx_enable cx)),
     op_is_enabled = Some (ccu_gate_helper_is_enabled P (cx_common cx) (cx_enable cx)),
     op_get_parent = Some (ccu_mux_helper_get_parent P (cx_common cx) (cx_mux cx) n),
     op_set_parent = Some (ccu_mux_helper_set_parent P (cx_common cx) (cx_mux cx)),
     op_set_rate = None,
     op_recalc_rate = Some (ccu_mux_helper_apply_prediv P (cx_common cx) (cx_mux cx) (-1))\<rparr>"

section \<open>A clock of any kind\<close>

text \<open>
  \<open>ccu_gate\<close> has a fixed rate and \<open>ccu_common\<close> a key, which no function reads. A \<open>ccu_clk\<close> is the
  structure of a clock with the initial data in its \<open>clk_hw\<close>.
\<close>

record ccu_gate =
  cg_enable :: u32
  cg_fixed_rate :: u32
  cg_common :: ccu_common

datatype ccu_kind =
    Gate ccu_gate | Mux ccu_mux | Div ccu_div | Mp ccu_mp | Mult ccu_mult | Nm ccu_nm | Nkmp ccu_nkmp
  | Factor clk_fixed_factor

record ccu_clk =
  cl_name :: string
  cl_parents :: clk_init_parents
  cl_num_parents :: u8
  cl_flags :: u64
  cl_kind :: ccu_kind

definition kind_ops :: "'h clk_plat \<Rightarrow> nat \<Rightarrow> u64 \<Rightarrow> ccu_kind \<Rightarrow> 'h clk_ops" where
  "kind_ops P n flags k = (case k of
     Gate g \<Rightarrow> ccu_gate_ops P (cg_common g) (cg_enable g) | Mux x \<Rightarrow> ccu_mux_ops P x n | Div d \<Rightarrow> ccu_div_ops P d n
   | Mp m \<Rightarrow> ccu_mp_ops P m n | Mult m \<Rightarrow> ccu_mult_ops P m n | Nm m \<Rightarrow> ccu_nm_ops P m | Nkmp m \<Rightarrow> ccu_nkmp_ops P m
   | Factor f \<Rightarrow> clk_fixed_factor_ops flags f)"

definition clk_init_of :: "'h clk_plat \<Rightarrow> ccu_clk \<Rightarrow> 'h clk_init_data" where
  "clk_init_of P c = \<lparr>in_name = cl_name c, in_ops = kind_ops P (unat (cl_num_parents c)) (cl_flags c) (cl_kind c),
     in_parents = cl_parents c, in_num_parents = cl_num_parents c, in_flags = cl_flags c\<rparr>"

text \<open>The first loop of \<open>ccu_common_init\<close>; every clock with a \<open>ccu_common\<close> is in \<open>ccu_clks\<close>.\<close>

definition set_base :: "u64 \<Rightarrow> ccu_clk \<Rightarrow> ccu_clk" where
  "set_base base = cl_kind_update (\<lambda>k. case k of
     Gate g \<Rightarrow> Gate (cg_common_update (co_base_update (\<lambda>_. base)) g)
   | Mux x \<Rightarrow> Mux (cx_common_update (co_base_update (\<lambda>_. base)) x)
   | Div d \<Rightarrow> Div (cd_common_update (co_base_update (\<lambda>_. base)) d)
   | Mp m \<Rightarrow> Mp (mp_common_update (co_base_update (\<lambda>_. base)) m)
   | Mult m \<Rightarrow> Mult (cu_common_update (co_base_update (\<lambda>_. base)) m)
   | Nm m \<Rightarrow> Nm (nm_common_update (co_base_update (\<lambda>_. base)) m)
   | Nkmp m \<Rightarrow> Nkmp (kp_common_update (co_base_update (\<lambda>_. base)) m)
   | Factor f \<Rightarrow> Factor f)"

end
