(* ===== verification/Ccu_D1.thy ===== *)
theory Ccu_D1
  imports Ccu_Kinds
begin

unbundle bit_operations_syntax

text \<open>
  The clock controllers of the D1: the tables of \<open>ccu-sun8iw20-rtc.c\<close>, \<open>ccu-sun8iw20-r.c\<close> and
  \<open>ccu-sun8iw20.c\<close>, clock by clock, by the macros of the headers, and \<open>clk_init\<close> of \<open>clk.c\<close>, which
  registers them. A clock of the main controller has the number of \<open>ccu-sun8iw20.h\<close>, one of the RTC
  its number plus 200, one of the R block plus 300, and one of \<open>clk-fixed-rate.c\<close> plus 400.
  The clocks \<open>spi0_clk\<close> and \<open>spi1_clk\<close> of the table are \<open>spi0_ccu_clk\<close> and \<open>spi1_ccu_clk\<close>, and
  \<open>spi_parents\<close> is \<open>spi_clk_parents\<close>.
\<close>

section \<open>Macros\<close>

definition BIT :: "nat \<Rightarrow> u32" where
  "BIT n = push_bit n 1"

abbreviation (input) CLK_SET_RATE_NO_REPARENT :: u64 where "CLK_SET_RATE_NO_REPARENT \<equiv> 0x80"
abbreviation (input) CLK_SET_RATE_UNGATE :: u64 where "CLK_SET_RATE_UNGATE \<equiv> 0x400"
abbreviation (input) CCU_FEATURE_KEY_FIELD_MOD :: u64 where "CCU_FEATURE_KEY_FIELD_MOD \<equiv> 0x100"
abbreviation (input) CCU_FEATURE_MP_NO_INDEX_MODE :: u64 where "CCU_FEATURE_MP_NO_INDEX_MODE \<equiv> 0x200"
abbreviation (input) CCU_FEATURE_FIXED_RATE_GATE :: u64 where "CCU_FEATURE_FIXED_RATE_GATE \<equiv> 0x400"

definition ccu_regs :: "u32 \<Rightarrow> u64 \<Rightarrow> ccu_common" where
  "ccu_regs reg features = \<lparr>co_base = 0, co_reg = reg, co_lock_reg = 0, co_prediv = 0, co_key_value = 0,
     co_features = features\<rparr>"

definition SUNXI_CCU_MUX_FIELD :: "nat \<Rightarrow> nat \<Rightarrow> ccu_mux_internal" where
  "SUNXI_CCU_MUX_FIELD sh w = \<lparr>mx_shift = sh, mx_width = w, mx_table = None, mx_fixed_predivs = [], mx_var_predivs = []\<rparr>"

definition SUNXI_CCU_DIV :: "nat \<Rightarrow> nat \<Rightarrow> ccu_div_internal" where
  "SUNXI_CCU_DIV sh w = \<lparr>dv_shift = sh, dv_width = w, dv_max = 0, dv_offset = 1\<rparr>"

definition SUNXI_CCU_MULT_MIN :: "nat \<Rightarrow> nat \<Rightarrow> u8 \<Rightarrow> ccu_mult_internal" where
  "SUNXI_CCU_MULT_MIN sh w lo = \<lparr>mu_offset = 1, mu_shift = sh, mu_width = w, mu_min = lo, mu_max = 0\<rparr>"

definition SUNXI_CCU_SDM :: "ccu_sdm_setting list \<Rightarrow> u32 \<Rightarrow> u32 \<Rightarrow> u32 \<Rightarrow> ccu_sdm_internal" where
  "SUNXI_CCU_SDM table enable reg reg_enable = \<lparr>sd_table = table, sd_enable = enable, sd_tuning_enable = reg_enable,
     sd_tuning_reg = reg\<rparr>"

text \<open>Members that are not initialised are zero.\<close>

definition no_mux :: ccu_mux_internal where "no_mux = SUNXI_CCU_MUX_FIELD 0 0"

definition no_mult :: ccu_mult_internal where
  "no_mult = \<lparr>mu_offset = 0, mu_shift = 0, mu_width = 0, mu_min = 0, mu_max = 0\<rparr>"

definition no_frac :: ccu_frac_internal where
  "no_frac = \<lparr>fr_enable = 0, fr_select = 0, fr_rate0 = 0, fr_rate1 = 0\<rparr>"

definition no_sdm :: ccu_sdm_internal where
  "no_sdm = \<lparr>sd_table = [], sd_enable = 0, sd_tuning_enable = 0, sd_tuning_reg = 0\<rparr>"

definition CLK_HW_INIT :: "string \<Rightarrow> string \<Rightarrow> u64 \<Rightarrow> ccu_kind \<Rightarrow> ccu_clk" where
  "CLK_HW_INIT name parent flags k = \<lparr>cl_name = name, cl_parents = Parent_names [Some parent], cl_num_parents = 1,
     cl_flags = flags, cl_kind = k\<rparr>"

definition CLK_HW_INIT_PARENTS :: "string \<Rightarrow> string list \<Rightarrow> u64 \<Rightarrow> ccu_kind \<Rightarrow> ccu_clk" where
  "CLK_HW_INIT_PARENTS name parents flags k = \<lparr>cl_name = name, cl_parents = Parent_names (map Some parents),
     cl_num_parents = of_nat (length parents), cl_flags = flags, cl_kind = k\<rparr>"

definition CLK_HW_INIT_HWS :: "string \<Rightarrow> nat list \<Rightarrow> u64 \<Rightarrow> ccu_kind \<Rightarrow> ccu_clk" where
  "CLK_HW_INIT_HWS name parents flags k = \<lparr>cl_name = name, cl_parents = Parent_hws (map Some parents), cl_num_parents = 1,
     cl_flags = flags, cl_kind = k\<rparr>"

definition CLK_HW_INIT_FW_NAME :: "string \<Rightarrow> string \<Rightarrow> u64 \<Rightarrow> ccu_kind \<Rightarrow> ccu_clk" where
  "CLK_HW_INIT_FW_NAME name parent flags k = \<lparr>cl_name = name,
     cl_parents = Parent_data [\<lparr>pd_hw = None, pd_fw_name = Some parent, pd_name = None\<rparr>], cl_num_parents = 1,
     cl_flags = flags, cl_kind = k\<rparr>"

definition SUNXI_CCU_GATE :: "string \<Rightarrow> string \<Rightarrow> u32 \<Rightarrow> u32 \<Rightarrow> u64 \<Rightarrow> ccu_clk" where
  "SUNXI_CCU_GATE name parent reg gate flags = CLK_HW_INIT name parent flags
     (Gate \<lparr>cg_enable = gate, cg_fixed_rate = 0, cg_common = ccu_regs reg 0\<rparr>)"

definition SUNXI_CCU_GATE_WITH_PREDIV :: "string \<Rightarrow> string \<Rightarrow> u32 \<Rightarrow> u32 \<Rightarrow> u32 \<Rightarrow> u64 \<Rightarrow> ccu_clk" where
  "SUNXI_CCU_GATE_WITH_PREDIV name parent reg prediv gate flags = CLK_HW_INIT name parent flags
     (Gate \<lparr>cg_enable = gate, cg_fixed_rate = 0, cg_common = (ccu_regs reg CCU_FEATURE_ALL_PREDIV)\<lparr>co_prediv := prediv\<rparr>\<rparr>)"

definition SUNXI_CCU_GATE_WITH_KEY :: "string \<Rightarrow> string \<Rightarrow> u32 \<Rightarrow> u32 \<Rightarrow> u32 \<Rightarrow> u64 \<Rightarrow> ccu_clk" where
  "SUNXI_CCU_GATE_WITH_KEY name parent reg key gate flags = CLK_HW_INIT name parent flags
     (Gate \<lparr>cg_enable = gate, cg_fixed_rate = 0, cg_common = (ccu_regs reg CCU_FEATURE_KEY_FIELD_MOD)\<lparr>co_key_value := key\<rparr>\<rparr>)"

definition SUNXI_CCU_GATE_WITH_FIXED_RATE :: "string \<Rightarrow> string \<Rightarrow> u32 \<Rightarrow> u32 \<Rightarrow> u32 \<Rightarrow> ccu_clk" where
  "SUNXI_CCU_GATE_WITH_FIXED_RATE name parent reg rate gate = CLK_HW_INIT name parent 0
     (Gate \<lparr>cg_enable = gate, cg_fixed_rate = rate, cg_common = ccu_regs reg CCU_FEATURE_FIXED_RATE_GATE\<rparr>)"

definition SUNXI_CCU_MUX_WITH_GATE :: "string \<Rightarrow> string list \<Rightarrow> u32 \<Rightarrow> nat \<Rightarrow> nat \<Rightarrow> u32 \<Rightarrow> u64 \<Rightarrow> ccu_clk" where
  "SUNXI_CCU_MUX_WITH_GATE name parents reg sh w gate flags = CLK_HW_INIT_PARENTS name parents flags
     (Mux \<lparr>cx_enable = gate, cx_mux = SUNXI_CCU_MUX_FIELD sh w, cx_common = ccu_regs reg 0\<rparr>)"

definition SUNXI_CCU_MUX_WITH_GATE_KEY ::
  "string \<Rightarrow> string list \<Rightarrow> u32 \<Rightarrow> nat \<Rightarrow> nat \<Rightarrow> u32 \<Rightarrow> u32 \<Rightarrow> u64 \<Rightarrow> ccu_clk" where
  "SUNXI_CCU_MUX_WITH_GATE_KEY name parents reg sh w key gate flags = CLK_HW_INIT_PARENTS name parents flags
     (Mux \<lparr>cx_enable = gate, cx_mux = SUNXI_CCU_MUX_FIELD sh w,
        cx_common = (ccu_regs reg CCU_FEATURE_KEY_FIELD_MOD)\<lparr>co_key_value := key\<rparr>\<rparr>)"

definition SUNXI_CCU_MUX :: "string \<Rightarrow> string list \<Rightarrow> u32 \<Rightarrow> nat \<Rightarrow> nat \<Rightarrow> u64 \<Rightarrow> ccu_clk" where
  "SUNXI_CCU_MUX name parents reg sh w flags = SUNXI_CCU_MUX_WITH_GATE name parents reg sh w 0 flags"

definition SUNXI_CCU_M_WITH_GATE :: "string \<Rightarrow> string \<Rightarrow> u32 \<Rightarrow> nat \<Rightarrow> nat \<Rightarrow> u32 \<Rightarrow> u64 \<Rightarrow> ccu_clk" where
  "SUNXI_CCU_M_WITH_GATE name parent reg sh w gate flags = CLK_HW_INIT name parent flags
     (Div \<lparr>cd_enable = gate, cd_shift = sh, cd_width = w, cd_flags = 0, cd_table = None, cd_mux = no_mux,
        cd_fixed_post_div = 0, cd_common = ccu_regs reg 0\<rparr>)"

definition SUNXI_CCU_M :: "string \<Rightarrow> string \<Rightarrow> u32 \<Rightarrow> nat \<Rightarrow> nat \<Rightarrow> u64 \<Rightarrow> ccu_clk" where
  "SUNXI_CCU_M name parent reg sh w flags = SUNXI_CCU_M_WITH_GATE name parent reg sh w 0 flags"

definition SUNXI_CCU_DIV_TABLE :: "string \<Rightarrow> string \<Rightarrow> u32 \<Rightarrow> nat \<Rightarrow> nat \<Rightarrow> clk_div_table \<Rightarrow> u64 \<Rightarrow> ccu_clk" where
  "SUNXI_CCU_DIV_TABLE name parent reg sh w table flags = CLK_HW_INIT name parent flags
     (Div \<lparr>cd_enable = 0, cd_shift = sh, cd_width = w, cd_flags = 0, cd_table = Some table, cd_mux = no_mux,
        cd_fixed_post_div = 0, cd_common = ccu_regs reg 0\<rparr>)"

definition SUNXI_CCU_M_WITH_MUX_GATE ::
  "string \<Rightarrow> string list \<Rightarrow> u32 \<Rightarrow> nat \<Rightarrow> nat \<Rightarrow> nat \<Rightarrow> nat \<Rightarrow> u32 \<Rightarrow> u64 \<Rightarrow> ccu_clk" where
  "SUNXI_CCU_M_WITH_MUX_GATE name parents reg msh mw muxsh muxw gate flags = CLK_HW_INIT_PARENTS name parents flags
     (Div \<lparr>cd_enable = gate, cd_shift = msh, cd_width = mw, cd_flags = 0, cd_table = None,
        cd_mux = SUNXI_CCU_MUX_FIELD muxsh muxw, cd_fixed_post_div = 0, cd_common = ccu_regs reg 0\<rparr>)"

definition ccu_mp_with_mux_gate :: "u64 \<Rightarrow> string \<Rightarrow> string list \<Rightarrow> u32 \<Rightarrow> nat \<Rightarrow> nat \<Rightarrow> nat \<Rightarrow> nat \<Rightarrow>
    nat \<Rightarrow> nat \<Rightarrow> u32 \<Rightarrow> u64 \<Rightarrow> ccu_clk" where
  "ccu_mp_with_mux_gate features name parents reg msh mw psh pw muxsh muxw gate flags =
     CLK_HW_INIT_PARENTS name parents flags
     (Mp \<lparr>mp_enable = gate, mp_m = SUNXI_CCU_DIV msh mw, mp_p = SUNXI_CCU_DIV psh pw,
        mp_mux = SUNXI_CCU_MUX_FIELD muxsh muxw, mp_fixed_post_div = 0, mp_common = ccu_regs reg features\<rparr>)"

definition SUNXI_CCU_MP_WITH_MUX_GATE ::
  "string \<Rightarrow> string list \<Rightarrow> u32 \<Rightarrow> nat \<Rightarrow> nat \<Rightarrow> nat \<Rightarrow> nat \<Rightarrow> nat \<Rightarrow> nat \<Rightarrow> u32 \<Rightarrow> u64 \<Rightarrow> ccu_clk" where
  "SUNXI_CCU_MP_WITH_MUX_GATE = ccu_mp_with_mux_gate 0"

definition SUNXI_CCU_MP_WITH_MUX_GATE_NO_INDEX ::
  "string \<Rightarrow> string list \<Rightarrow> u32 \<Rightarrow> nat \<Rightarrow> nat \<Rightarrow> nat \<Rightarrow> nat \<Rightarrow> nat \<Rightarrow> nat \<Rightarrow> u32 \<Rightarrow> u64 \<Rightarrow> ccu_clk" where
  "SUNXI_CCU_MP_WITH_MUX_GATE_NO_INDEX = ccu_mp_with_mux_gate CCU_FEATURE_MP_NO_INDEX_MODE"

definition SUNXI_CCU_MP_WITH_MUX ::
  "string \<Rightarrow> string list \<Rightarrow> u32 \<Rightarrow> nat \<Rightarrow> nat \<Rightarrow> nat \<Rightarrow> nat \<Rightarrow> nat \<Rightarrow> nat \<Rightarrow> u64 \<Rightarrow> ccu_clk" where
  "SUNXI_CCU_MP_WITH_MUX name parents reg msh mw psh pw muxsh muxw flags =
     SUNXI_CCU_MP_WITH_MUX_GATE name parents reg msh mw psh pw muxsh muxw 0 flags"

definition CLK_FIXED_FACTOR :: "string \<Rightarrow> string \<Rightarrow> u32 \<Rightarrow> u32 \<Rightarrow> u64 \<Rightarrow> ccu_clk" where
  "CLK_FIXED_FACTOR name parent dv mult flags = CLK_HW_INIT name parent flags (Factor \<lparr>ff_mult = mult, ff_div = dv\<rparr>)"

definition CLK_FIXED_FACTOR_HW :: "string \<Rightarrow> nat \<Rightarrow> u32 \<Rightarrow> u32 \<Rightarrow> u64 \<Rightarrow> ccu_clk" where
  "CLK_FIXED_FACTOR_HW name parent dv mult flags = CLK_HW_INIT_HWS name [parent] flags (Factor \<lparr>ff_mult = mult, ff_div = dv\<rparr>)"

definition CLK_FIXED_FACTOR_HWS :: "string \<Rightarrow> nat list \<Rightarrow> u32 \<Rightarrow> u32 \<Rightarrow> u64 \<Rightarrow> ccu_clk" where
  "CLK_FIXED_FACTOR_HWS name parents dv mult flags = CLK_HW_INIT_HWS name parents flags (Factor \<lparr>ff_mult = mult, ff_div = dv\<rparr>)"

definition CLK_FIXED_FACTOR_FW_NAME :: "string \<Rightarrow> string \<Rightarrow> u32 \<Rightarrow> u32 \<Rightarrow> u64 \<Rightarrow> ccu_clk" where
  "CLK_FIXED_FACTOR_FW_NAME name parent dv mult flags =
     CLK_HW_INIT_FW_NAME name parent flags (Factor \<lparr>ff_mult = mult, ff_div = dv\<rparr>)"

section \<open>The clocks of the RTC\<close>

definition iosc_clk :: ccu_clk where
  "iosc_clk = SUNXI_CCU_GATE ''iosc'' ''rc-16m'' 0x160 (BIT 0) 0"

definition ext32k_gate_clk :: ccu_clk where
  "ext32k_gate_clk = SUNXI_CCU_GATE_WITH_KEY ''ext32k-gate'' ''ext-32k'' 0x0 0x16AA0000 (BIT 4) 0"

definition iosc_div32k_clk :: ccu_clk where
  "iosc_div32k_clk = CLK_FIXED_FACTOR ''iosc-div32k'' ''iosc'' 500 1 0"

definition osc32k_parents :: "string list" where
  "osc32k_parents = [''iosc-div32k'', ''ext32k-gate'']"

definition osc32k_clk :: ccu_clk where
  "osc32k_clk = SUNXI_CCU_MUX_WITH_GATE_KEY ''osc32k'' osc32k_parents 0x0 0 1 0x16AA0000 0 0"

definition dcxo24M_div32k_clk :: ccu_clk where
  "dcxo24M_div32k_clk = SUNXI_CCU_GATE_WITH_FIXED_RATE ''dcxo24M-div32k'' ''dcxo24M'' 0x60 32768 (BIT 16)"

definition rtc32k_clk_parents :: "string list" where
  "rtc32k_clk_parents = [''osc32k'', ''dcxo24M-div32k'']"

definition rtc32k_clk :: ccu_clk where
  "rtc32k_clk = SUNXI_CCU_MUX_WITH_GATE_KEY ''rtc32k'' rtc32k_clk_parents 0x0 1 1 0x16AA0000 0 0"

definition rtc_1k_clk :: ccu_clk where
  "rtc_1k_clk = CLK_FIXED_FACTOR ''rtc-1k'' ''rtc32k'' 32 1 0"

definition rtc_32k_fanout_clk_parents :: "string list" where
  "rtc_32k_fanout_clk_parents = [''osc32k'', ''ext32k-gate'', ''dcxo24M-div32k'']"

definition rtc_32k_fanout_clk :: ccu_clk where
  "rtc_32k_fanout_clk = SUNXI_CCU_MUX_WITH_GATE ''rtc-32k-fanout'' rtc_32k_fanout_clk_parents 0x60 1 2 (BIT 0) 0"

definition rtc_spi_clk :: ccu_clk where
  "rtc_spi_clk = SUNXI_CCU_GATE ''rtc-spi'' ''r-ahb'' 0x310 (BIT 31) 0"

definition sun8iw20_rtc_ccu_hw_clks :: "ccu_clk list" where
  "sun8iw20_rtc_ccu_hw_clks = [
     iosc_clk, ext32k_gate_clk, iosc_div32k_clk, osc32k_clk, dcxo24M_div32k_clk, rtc32k_clk,
     rtc_1k_clk, rtc_32k_fanout_clk, rtc_spi_clk]"

section \<open>The clocks of the R block\<close>

definition ahbs_apbs0_parents :: "string list" where
  "ahbs_apbs0_parents = [''dcxo24M'', ''osc32k'', ''iosc'', ''pll-periph0-div3'']"

definition r_ahb_clk :: ccu_clk where
  "r_ahb_clk = SUNXI_CCU_MP_WITH_MUX ''r-ahb'' ahbs_apbs0_parents 0x000 0 5 8 2 24 3 0"

definition r_apb0_clk :: ccu_clk where
  "r_apb0_clk = SUNXI_CCU_MP_WITH_MUX ''r-apb0'' ahbs_apbs0_parents 0x00c 0 5 8 2 24 3 0"

definition r_apb0_timer_clk :: ccu_clk where
  "r_apb0_timer_clk = SUNXI_CCU_GATE ''r-apb0-timer'' ''r-apb0'' 0x11c (BIT 0) 0"

definition r_apb0_twd_clk :: ccu_clk where
  "r_apb0_twd_clk = SUNXI_CCU_GATE ''r-apb0-twd'' ''r-apb0'' 0x12c (BIT 0) 0"

definition r_ppu_clk :: ccu_clk where
  "r_ppu_clk = SUNXI_CCU_GATE ''r-ppu'' ''r-apb0'' 0x1ac (BIT 0) 0"

definition r_apb0_ir_rx_parents :: "string list" where
  "r_apb0_ir_rx_parents = [''osc32k'', ''dcxo24M'']"

definition r_apb0_ir_rx_clk :: ccu_clk where
  "r_apb0_ir_rx_clk = SUNXI_CCU_MP_WITH_MUX_GATE ''r-apb0-ir-rx'' r_apb0_ir_rx_parents 0x1c0 0 5 8 2 24 2 (BIT 31) 0"

definition r_apb0_bus_ir_rx_clk :: ccu_clk where
  "r_apb0_bus_ir_rx_clk = SUNXI_CCU_GATE ''r-apb0-bus-ir-rx'' ''r-apb0'' 0x1cc (BIT 0) 0"

definition r_ahb_bus_rtc_clk :: ccu_clk where
  "r_ahb_bus_rtc_clk = SUNXI_CCU_GATE ''r-ahb-rtc'' ''r-ahb'' 0x20c (BIT 0) 0"

definition r_apb0_cpucfg_clk :: ccu_clk where
  "r_apb0_cpucfg_clk = SUNXI_CCU_GATE ''r-apb0-cpucfg'' ''r-apb0'' 0x22c (BIT 0) 0"

definition sun8iw20_r_hw_clks :: "ccu_clk list" where
  "sun8iw20_r_hw_clks = [
     r_ahb_clk, r_apb0_clk, r_apb0_timer_clk, r_apb0_twd_clk, r_ppu_clk, r_apb0_ir_rx_clk,
     r_apb0_bus_ir_rx_clk, r_ahb_bus_rtc_clk, r_apb0_cpucfg_clk]"

section \<open>The clocks of the main controller\<close>

text \<open>Numbers of the clocks that are parents by their \<open>clk_hw\<close>.\<close>

abbreviation (input) CLK_PLL_DDR0 :: nat where "CLK_PLL_DDR0 \<equiv> 2"
abbreviation (input) CLK_PLL_PERIPH0_2X :: nat where "CLK_PLL_PERIPH0_2X \<equiv> 4"
abbreviation (input) CLK_PLL_VIDEO0 :: nat where "CLK_PLL_VIDEO0 \<equiv> 8"
abbreviation (input) CLK_PLL_VIDEO1 :: nat where "CLK_PLL_VIDEO1 \<equiv> 11"
abbreviation (input) CLK_PLL_AUDIO0_4X :: nat where "CLK_PLL_AUDIO0_4X \<equiv> 17"

definition pll_cpux_clk :: ccu_clk where
  "pll_cpux_clk = CLK_HW_INIT ''pll-cpux'' ''dcxo24M'' CLK_SET_RATE_UNGATE
     (Mult \<lparr>cu_enable = BIT 27, cu_lock = BIT 28, cu_frac = no_frac,
       cu_mult = SUNXI_CCU_MULT_MIN 8 8 12, cu_mux = no_mux, cu_common = ccu_regs 0x000 0\<rparr>)"

definition pll_ddr0_clk :: ccu_clk where
  "pll_ddr0_clk = CLK_HW_INIT ''pll-ddr0'' ''dcxo24M'' (CLK_SET_RATE_UNGATE OR CLK_IS_CRITICAL)
     (Nkmp \<lparr>kp_enable = BIT 27, kp_lock = BIT 28, 
       kp_n = SUNXI_CCU_MULT_MIN 8 8 12, kp_k = no_mult, kp_m = SUNXI_CCU_DIV 1 1, kp_p = SUNXI_CCU_DIV 0 1, 
       kp_fixed_post_div = 0, kp_common = ccu_regs 0x010 0\<rparr>)"

definition pll_periph0_parent_clk :: ccu_clk where
  "pll_periph0_parent_clk = CLK_HW_INIT ''pll-periph0-parent'' ''dcxo24M'' CLK_SET_RATE_UNGATE
     (Nm \<lparr>nm_enable = BIT 27, nm_lock = BIT 28, 
       nm_n = SUNXI_CCU_MULT_MIN 8 8 12, nm_m = SUNXI_CCU_DIV 1 1, nm_frac = no_frac,
       nm_sdm = no_sdm, nm_fixed_post_div = 0,
       nm_common = ccu_regs 0x020 0\<rparr>)"

definition pll_periph0_2x_clk :: ccu_clk where
  "pll_periph0_2x_clk = SUNXI_CCU_M ''pll-periph0-2x'' ''pll-periph0-parent'' 0x020 16 3 0"

definition pll_periph0_800m_clk :: ccu_clk where
  "pll_periph0_800m_clk = SUNXI_CCU_M ''pll-periph0-800m'' ''pll-periph0-parent'' 0x020 20 3 0"

definition pll_video0_clk :: ccu_clk where
  "pll_video0_clk = CLK_HW_INIT ''pll-video0'' ''dcxo24M'' CLK_SET_RATE_UNGATE
     (Nm \<lparr>nm_enable = BIT 27, nm_lock = BIT 28, 
       nm_n = SUNXI_CCU_MULT_MIN 8 8 12, nm_m = SUNXI_CCU_DIV 1 1, nm_frac = no_frac,
       nm_sdm = no_sdm, nm_fixed_post_div = 4,
       nm_common = ccu_regs 0x040 CCU_FEATURE_FIXED_POSTDIV\<rparr>)"

definition pll_video1_clk :: ccu_clk where
  "pll_video1_clk = CLK_HW_INIT ''pll-video1'' ''dcxo24M'' CLK_SET_RATE_UNGATE
     (Nm \<lparr>nm_enable = BIT 27, nm_lock = BIT 28, 
       nm_n = SUNXI_CCU_MULT_MIN 8 8 12, nm_m = SUNXI_CCU_DIV 1 1, nm_frac = no_frac,
       nm_sdm = no_sdm, nm_fixed_post_div = 4,
       nm_common = ccu_regs 0x048 CCU_FEATURE_FIXED_POSTDIV\<rparr>)"

definition pll_ve_clk :: ccu_clk where
  "pll_ve_clk = CLK_HW_INIT ''pll-ve'' ''dcxo24M'' CLK_SET_RATE_UNGATE
     (Nkmp \<lparr>kp_enable = BIT 27, kp_lock = BIT 28, 
       kp_n = SUNXI_CCU_MULT_MIN 8 8 12, kp_k = no_mult, kp_m = SUNXI_CCU_DIV 1 1, kp_p = SUNXI_CCU_DIV 0 1, 
       kp_fixed_post_div = 0, kp_common = ccu_regs 0x058 0\<rparr>)"

definition pll_audio0_sdm_table :: "ccu_sdm_setting list" where
  "pll_audio0_sdm_table = [
     \<lparr>ss_rate = 45158400, ss_pattern = 0xc001bcd3, ss_m = 18, ss_n = 33\<rparr>,
     \<lparr>ss_rate = 49152000, ss_pattern = 0xc001eb85, ss_m = 20, ss_n = 40\<rparr>,
     \<lparr>ss_rate = 180633600, ss_pattern = 0xc001288d, ss_m = 3, ss_n = 22\<rparr>,
     \<lparr>ss_rate = 196608000, ss_pattern = 0xc001eb85, ss_m = 5, ss_n = 40\<rparr>]"

definition pll_audio0_4x_clk :: ccu_clk where
  "pll_audio0_4x_clk = CLK_HW_INIT ''pll-audio0-4x'' ''dcxo24M'' CLK_SET_RATE_UNGATE
     (Nm \<lparr>nm_enable = BIT 27, nm_lock = BIT 28, 
       nm_n = SUNXI_CCU_MULT_MIN 8 8 12, nm_m = SUNXI_CCU_DIV 16 6, nm_frac = no_frac,
       nm_sdm = SUNXI_CCU_SDM pll_audio0_sdm_table (BIT 24) 0x178 (BIT 31), nm_fixed_post_div = 2,
       nm_common = ccu_regs 0x078 (CCU_FEATURE_FIXED_POSTDIV OR CCU_FEATURE_SIGMA_DELTA_MOD)\<rparr>)"

definition pll_audio1_clk :: ccu_clk where
  "pll_audio1_clk = CLK_HW_INIT ''pll-audio1'' ''dcxo24M'' CLK_SET_RATE_UNGATE
     (Nm \<lparr>nm_enable = BIT 27, nm_lock = BIT 28, 
       nm_n = SUNXI_CCU_MULT_MIN 8 8 12, nm_m = SUNXI_CCU_DIV 1 1, nm_frac = no_frac,
       nm_sdm = no_sdm, nm_fixed_post_div = 0,
       nm_common = ccu_regs 0x080 CCU_FEATURE_SIGMA_DELTA_MOD\<rparr>)"

definition pll_audio1_div2_clk :: ccu_clk where
  "pll_audio1_div2_clk = SUNXI_CCU_M ''pll-audio1-div2'' ''pll-audio1'' 0x080 16 3 0"

definition pll_audio1_div5_clk :: ccu_clk where
  "pll_audio1_div5_clk = SUNXI_CCU_M ''pll-audio1-div5'' ''pll-audio1'' 0x080 20 3 0"

definition pll_cpux_div_table :: clk_div_table where
  "pll_cpux_div_table = [(0, 1), (1, 2), (2, 4)]"

definition pll_cpux_div :: ccu_clk where
  "pll_cpux_div = SUNXI_CCU_DIV_TABLE ''pll-cpux-div'' ''pll-cpux'' 0x500 16 2 pll_cpux_div_table 0"

definition cpux_parents :: "string list" where
  "cpux_parents = [''dcxo24M'', ''osc32k'', ''iosc'', ''pll-cpux-div'', ''pll-periph0'', ''pll-periph0-2x'', ''pll-periph0-800M'']"

definition cpux_clk :: ccu_clk where
  "cpux_clk = SUNXI_CCU_MUX ''cpux'' cpux_parents 0x500 24 3 (CLK_SET_RATE_PARENT OR CLK_IS_CRITICAL)"

definition axi_clk :: ccu_clk where
  "axi_clk = SUNXI_CCU_M ''axi'' ''cpux'' 0x500 0 2 0"

definition apb_clk :: ccu_clk where
  "apb_clk = SUNXI_CCU_M ''apb'' ''cpux'' 0x500 8 2 0"

definition psi_ahb_parents :: "string list" where
  "psi_ahb_parents = [''dcxo24M'', ''osc32k'', ''iosc'', ''pll-periph0'']"

definition psi_ahb_clk :: ccu_clk where
  "psi_ahb_clk = SUNXI_CCU_MP_WITH_MUX ''psi-ahb'' psi_ahb_parents 0x510 0 2 8 2 24 2 0"

definition apb0_apb1_parents :: "string list" where
  "apb0_apb1_parents = [''dcxo24M'', ''osc32k'', ''psi-ahb'', ''pll-periph0'']"

definition apb0_clk :: ccu_clk where
  "apb0_clk = SUNXI_CCU_MP_WITH_MUX ''apb0'' apb0_apb1_parents 0x520 0 5 8 2 24 2 0"

definition apb1_clk :: ccu_clk where
  "apb1_clk = SUNXI_CCU_MP_WITH_MUX ''apb1'' apb0_apb1_parents 0x524 0 5 8 2 24 2 0"

definition de_di_g2d_parents :: "string list" where
  "de_di_g2d_parents = [''pll-periph0-2x'', ''pll-video0-4x'', ''pll-video1-4x'', ''pll-audio1-div2'']"

definition de0_clk :: ccu_clk where
  "de0_clk = SUNXI_CCU_M_WITH_MUX_GATE ''de0'' de_di_g2d_parents 0x600 0 5 24 3 (BIT 31) CLK_SET_RATE_PARENT"

definition bus_de0_clk :: ccu_clk where
  "bus_de0_clk = SUNXI_CCU_GATE ''bus-de0'' ''psi-ahb'' 0x60c (BIT 0) 0"

definition di_clk :: ccu_clk where
  "di_clk = SUNXI_CCU_M_WITH_MUX_GATE ''di'' de_di_g2d_parents 0x620 0 5 24 3 (BIT 31) CLK_SET_RATE_PARENT"

definition bus_di_clk :: ccu_clk where
  "bus_di_clk = SUNXI_CCU_GATE ''bus-di'' ''psi-ahb'' 0x62c (BIT 0) 0"

definition g2d_clk :: ccu_clk where
  "g2d_clk = SUNXI_CCU_M_WITH_MUX_GATE ''g2d'' de_di_g2d_parents 0x630 0 5 24 3 (BIT 31) 0"

definition bus_g2d_clk :: ccu_clk where
  "bus_g2d_clk = SUNXI_CCU_GATE ''bus-g2d'' ''psi-ahb'' 0x63c (BIT 0) 0"

definition ce_parents :: "string list" where
  "ce_parents = [''dcxo24M'', ''pll-periph0-2x'', ''pll-periph0'']"

definition ce_clk :: ccu_clk where
  "ce_clk = SUNXI_CCU_MP_WITH_MUX_GATE ''ce'' ce_parents 0x680 0 4 8 2 24 3 (BIT 31) 0"

definition bus_ce_clk :: ccu_clk where
  "bus_ce_clk = SUNXI_CCU_GATE ''bus-ce'' ''psi-ahb'' 0x68c (BIT 0) 0"

definition ve_parents :: "string list" where
  "ve_parents = [''pll-ve'', ''pll-periph0-2x'']"

definition ve_clk :: ccu_clk where
  "ve_clk = SUNXI_CCU_M_WITH_MUX_GATE ''ve'' ve_parents 0x690 0 5 24 1 (BIT 31) CLK_SET_RATE_PARENT"

definition bus_ve_clk :: ccu_clk where
  "bus_ve_clk = SUNXI_CCU_GATE ''bus-ve'' ''psi-ahb'' 0x69c (BIT 0) 0"

definition bus_dma_clk :: ccu_clk where
  "bus_dma_clk = SUNXI_CCU_GATE ''bus-dma'' ''psi-ahb'' 0x70c (BIT 0) 0"

definition bus_msgbox0_clk :: ccu_clk where
  "bus_msgbox0_clk = SUNXI_CCU_GATE ''bus-msgbox0'' ''psi-ahb'' 0x71c (BIT 0) 0"

definition bus_msgbox1_clk :: ccu_clk where
  "bus_msgbox1_clk = SUNXI_CCU_GATE ''bus-msgbox1'' ''psi-ahb'' 0x71c (BIT 1) 0"

definition bus_msgbox2_clk :: ccu_clk where
  "bus_msgbox2_clk = SUNXI_CCU_GATE ''bus-msgbox2'' ''psi-ahb'' 0x71c (BIT 2) 0"

definition bus_spinlock_clk :: ccu_clk where
  "bus_spinlock_clk = SUNXI_CCU_GATE ''bus-spinlock'' ''psi-ahb'' 0x72c (BIT 0) 0"

definition bus_hstimer_clk :: ccu_clk where
  "bus_hstimer_clk = SUNXI_CCU_GATE ''bus-hstimer'' ''psi-ahb'' 0x73c (BIT 0) 0"

definition avs_clk :: ccu_clk where
  "avs_clk = SUNXI_CCU_GATE ''avs'' ''dcxo24M'' 0x740 (BIT 31) 0"

definition bus_dbg_clk :: ccu_clk where
  "bus_dbg_clk = SUNXI_CCU_GATE ''bus-dbg'' ''psi-ahb'' 0x78c (BIT 0) 0"

definition bus_pwm_clk :: ccu_clk where
  "bus_pwm_clk = SUNXI_CCU_GATE ''bus-pwm'' ''apb0'' 0x7ac (BIT 0) 0"

definition bus_iommu_clk :: ccu_clk where
  "bus_iommu_clk = SUNXI_CCU_GATE ''bus-iommu'' ''apb0'' 0x7bc (BIT 0) 0"

definition dram_parents :: "string list" where
  "dram_parents = [''pll-ddr0'', ''pll-audio1-div2'', ''pll-periph0-2x'', ''pll-periph0-800m'']"

definition dram_clk :: ccu_clk where
  "dram_clk = SUNXI_CCU_MP_WITH_MUX_GATE ''dram-clk'' dram_parents 0x800 0 2 8 2 24 2 (BIT 31) 0"

definition mbus_dma_clk :: ccu_clk where
  "mbus_dma_clk = SUNXI_CCU_GATE ''mbus-dma'' ''mbus'' 0x804 (BIT 0) 0"

definition mbus_ve_clk :: ccu_clk where
  "mbus_ve_clk = SUNXI_CCU_GATE ''mbus-ve'' ''mbus'' 0x804 (BIT 1) 0"

definition mbus_ce_clk :: ccu_clk where
  "mbus_ce_clk = SUNXI_CCU_GATE ''mbus-ce'' ''mbus'' 0x804 (BIT 2) 0"

definition mbus_tvin_clk :: ccu_clk where
  "mbus_tvin_clk = SUNXI_CCU_GATE ''mbus-tvin'' ''mbus'' 0x804 (BIT 7) 0"

definition mbus_csi_clk :: ccu_clk where
  "mbus_csi_clk = SUNXI_CCU_GATE ''mbus-csi'' ''mbus'' 0x804 (BIT 8) 0"

definition mbus_g2d_clk :: ccu_clk where
  "mbus_g2d_clk = SUNXI_CCU_GATE ''mbus-g2d'' ''mbus'' 0x804 (BIT 10) 0"

definition bus_dram_clk :: ccu_clk where
  "bus_dram_clk = SUNXI_CCU_GATE ''bus-dram'' ''psi-ahb'' 0x80c (BIT 0) CLK_IS_CRITICAL"

definition mmc0_mmc1_parents :: "string list" where
  "mmc0_mmc1_parents = [''dcxo24M'', ''pll-periph0'', ''pll-periph0-2x'', ''pll-audio1-div2'']"

definition mmc0_clk :: ccu_clk where
  "mmc0_clk = SUNXI_CCU_MP_WITH_MUX_GATE ''mmc0'' mmc0_mmc1_parents 0x830 0 4 8 2 24 3 (BIT 31) CLK_SET_RATE_NO_REPARENT"

definition mmc1_clk :: ccu_clk where
  "mmc1_clk = SUNXI_CCU_MP_WITH_MUX_GATE ''mmc1'' mmc0_mmc1_parents 0x834 0 4 8 2 24 3 (BIT 31) CLK_SET_RATE_NO_REPARENT"

definition mmc2_parents :: "string list" where
  "mmc2_parents = [''dcxo24M'', ''pll-periph0'', ''pll-periph0-2x'', ''pll-periph0-800m'', ''pll-audio1-div2'']"

definition mmc2_clk :: ccu_clk where
  "mmc2_clk = SUNXI_CCU_MP_WITH_MUX_GATE ''mmc2'' mmc2_parents 0x838 0 4 8 2 24 3 (BIT 31) CLK_SET_RATE_NO_REPARENT"

definition bus_mmc0_clk :: ccu_clk where
  "bus_mmc0_clk = SUNXI_CCU_GATE ''bus-mmc0'' ''psi-ahb'' 0x84c (BIT 0) 0"

definition bus_mmc1_clk :: ccu_clk where
  "bus_mmc1_clk = SUNXI_CCU_GATE ''bus-mmc1'' ''psi-ahb'' 0x84c (BIT 1) 0"

definition bus_mmc2_clk :: ccu_clk where
  "bus_mmc2_clk = SUNXI_CCU_GATE ''bus-mmc2'' ''psi-ahb'' 0x84c (BIT 2) 0"

definition bus_uart0_clk :: ccu_clk where
  "bus_uart0_clk = SUNXI_CCU_GATE ''bus-uart0'' ''apb1'' 0x90c (BIT 0) 0"

definition bus_uart1_clk :: ccu_clk where
  "bus_uart1_clk = SUNXI_CCU_GATE ''bus-uart1'' ''apb1'' 0x90c (BIT 1) 0"

definition bus_uart2_clk :: ccu_clk where
  "bus_uart2_clk = SUNXI_CCU_GATE ''bus-uart2'' ''apb1'' 0x90c (BIT 2) 0"

definition bus_uart3_clk :: ccu_clk where
  "bus_uart3_clk = SUNXI_CCU_GATE ''bus-uart3'' ''apb1'' 0x90c (BIT 3) 0"

definition bus_uart4_clk :: ccu_clk where
  "bus_uart4_clk = SUNXI_CCU_GATE ''bus-uart4'' ''apb1'' 0x90c (BIT 4) 0"

definition bus_uart5_clk :: ccu_clk where
  "bus_uart5_clk = SUNXI_CCU_GATE ''bus-uart5'' ''apb1'' 0x90c (BIT 5) 0"

definition bus_i2c0_clk :: ccu_clk where
  "bus_i2c0_clk = SUNXI_CCU_GATE ''bus-i2c0'' ''apb1'' 0x91c (BIT 0) 0"

definition bus_i2c1_clk :: ccu_clk where
  "bus_i2c1_clk = SUNXI_CCU_GATE ''bus-i2c1'' ''apb1'' 0x91c (BIT 1) 0"

definition bus_i2c2_clk :: ccu_clk where
  "bus_i2c2_clk = SUNXI_CCU_GATE ''bus-i2c2'' ''apb1'' 0x91c (BIT 2) 0"

definition bus_i2c3_clk :: ccu_clk where
  "bus_i2c3_clk = SUNXI_CCU_GATE ''bus-i2c3'' ''apb1'' 0x91c (BIT 3) 0"

definition bus_can0_clk :: ccu_clk where
  "bus_can0_clk = SUNXI_CCU_GATE ''bus-can0'' ''apb1'' 0x92c (BIT 0) 0"

definition bus_can1_clk :: ccu_clk where
  "bus_can1_clk = SUNXI_CCU_GATE ''bus-can1'' ''apb1'' 0x92c (BIT 1) 0"

definition spi_clk_parents :: "string list" where
  "spi_clk_parents = [''dcxo24M'', ''pll-periph0'', ''pll-periph0-2x'', ''pll-audio1-div2'', ''pll-audio1-div5'']"

definition spi0_ccu_clk :: ccu_clk where
  "spi0_ccu_clk = SUNXI_CCU_MP_WITH_MUX_GATE ''spi0'' spi_clk_parents 0x940 0 4 8 2 24 3 (BIT 31) 0"

definition spi1_ccu_clk :: ccu_clk where
  "spi1_ccu_clk = SUNXI_CCU_MP_WITH_MUX_GATE ''spi1'' spi_clk_parents 0x944 0 4 8 2 24 3 (BIT 31) 0"

definition bus_spi0_clk :: ccu_clk where
  "bus_spi0_clk = SUNXI_CCU_GATE ''bus-spi0'' ''psi-ahb'' 0x96c (BIT 0) 0"

definition bus_spi1_clk :: ccu_clk where
  "bus_spi1_clk = SUNXI_CCU_GATE ''bus-spi1'' ''psi-ahb'' 0x96c (BIT 1) 0"

definition emac0_25m_clk :: ccu_clk where
  "emac0_25m_clk = SUNXI_CCU_GATE ''emac0-25m'' ''pll-periph0'' 0x970 (BIT 31 OR BIT 30) 0"

definition bus_emac0_clk :: ccu_clk where
  "bus_emac0_clk = SUNXI_CCU_GATE ''bus-emac0'' ''psi-ahb'' 0x97c (BIT 0) 0"

definition ir_parents :: "string list" where
  "ir_parents = [''dcxo24M'', ''pll-periph0'']"

definition ir_tx_clk :: ccu_clk where
  "ir_tx_clk = SUNXI_CCU_MP_WITH_MUX_GATE ''ir-tx'' ir_parents 0x9c0 0 4 8 2 24 3 (BIT 31) 0"

definition bus_ir_tx_clk :: ccu_clk where
  "bus_ir_tx_clk = SUNXI_CCU_GATE ''bus-ir-tx'' ''apb0'' 0x9cc (BIT 0) 0"

definition bus_gpadc_clk :: ccu_clk where
  "bus_gpadc_clk = SUNXI_CCU_GATE ''bus-gpadc'' ''apb0'' 0x9ec (BIT 0) 0"

definition bus_ths_clk :: ccu_clk where
  "bus_ths_clk = SUNXI_CCU_GATE ''bus-ths'' ''apb0'' 0x9fc (BIT 0) 0"

definition i2s_spdif_tx_parents :: "string list" where
  "i2s_spdif_tx_parents = [''pll-audio0'', ''pll-audio0-4x'', ''pll-audio1-div2'', ''pll-audio1-div5'']"

definition i2s0_clk :: ccu_clk where
  "i2s0_clk = SUNXI_CCU_MP_WITH_MUX_GATE ''i2s0'' i2s_spdif_tx_parents 0xa10 0 5 8 2 24 3 (BIT 31) 0"

definition i2s1_clk :: ccu_clk where
  "i2s1_clk = SUNXI_CCU_MP_WITH_MUX_GATE ''i2s1'' i2s_spdif_tx_parents 0xa14 0 5 8 2 24 3 (BIT 31) 0"

definition i2s2_clk :: ccu_clk where
  "i2s2_clk = SUNXI_CCU_MP_WITH_MUX_GATE ''i2s2'' i2s_spdif_tx_parents 0xa18 0 5 8 2 24 3 (BIT 31) 0"

definition i2s2_asrc_parents :: "string list" where
  "i2s2_asrc_parents = [''pll-audio0-4x'', ''pll-periph0'', ''pll-audio1-div2'', ''pll-audio1-div5'']"

definition i2s2_asrc_clk :: ccu_clk where
  "i2s2_asrc_clk = SUNXI_CCU_MP_WITH_MUX_GATE ''i2s2-asrc'' i2s2_asrc_parents 0xa1c 0 5 8 2 24 3 (BIT 31) 0"

definition bus_i2s0_clk :: ccu_clk where
  "bus_i2s0_clk = SUNXI_CCU_GATE ''bus-i2s0'' ''apb1'' 0xa20 (BIT 0) 0"

definition bus_i2s1_clk :: ccu_clk where
  "bus_i2s1_clk = SUNXI_CCU_GATE ''bus-i2s1'' ''apb1'' 0xa20 (BIT 1) 0"

definition bus_i2s2_clk :: ccu_clk where
  "bus_i2s2_clk = SUNXI_CCU_GATE ''bus-i2s2'' ''apb1'' 0xa20 (BIT 2) 0"

definition spdif_tx_clk :: ccu_clk where
  "spdif_tx_clk = SUNXI_CCU_MP_WITH_MUX_GATE ''spdif-tx'' i2s_spdif_tx_parents 0xa24 0 5 8 2 24 3 (BIT 31) 0"

definition spdif_rx_parents :: "string list" where
  "spdif_rx_parents = [''pll-periph0'', ''pll-audio1-div2'', ''pll-audio1-div5'']"

definition spdif_rx_clk :: ccu_clk where
  "spdif_rx_clk = SUNXI_CCU_MP_WITH_MUX_GATE ''spdif-rx'' spdif_rx_parents 0xa28 0 5 8 2 24 3 (BIT 31) 0"

definition bus_spdif_clk :: ccu_clk where
  "bus_spdif_clk = SUNXI_CCU_GATE ''bus-spdif'' ''apb0'' 0xa2c (BIT 0) 0"

definition dmic_codec_parents :: "string list" where
  "dmic_codec_parents = [''pll-audio0'', ''pll-audio1-div2'', ''pll-audio1-div5'']"

definition dmic_clk :: ccu_clk where
  "dmic_clk = SUNXI_CCU_MP_WITH_MUX_GATE ''dmic'' dmic_codec_parents 0xa40 0 5 8 2 24 3 (BIT 31) 0"

definition bus_dmic_clk :: ccu_clk where
  "bus_dmic_clk = SUNXI_CCU_GATE ''bus-dmic'' ''apb0'' 0xa4c (BIT 0) 0"

definition audio_codec_dac_clk :: ccu_clk where
  "audio_codec_dac_clk = SUNXI_CCU_MP_WITH_MUX_GATE ''audio-codec-dac'' dmic_codec_parents 0xa50 0 5 8 2 24 3 (BIT 31) 0"

definition audio_codec_adc_clk :: ccu_clk where
  "audio_codec_adc_clk = SUNXI_CCU_MP_WITH_MUX_GATE ''audio-codec-adc'' dmic_codec_parents 0xa54 0 5 8 2 24 3 (BIT 31) 0"

definition bus_audio_codec_clk :: ccu_clk where
  "bus_audio_codec_clk = SUNXI_CCU_GATE ''bus-audio-codec'' ''apb0'' 0xa5c (BIT 0) 0"

definition usb_ohci0_clk :: ccu_clk where
  "usb_ohci0_clk = SUNXI_CCU_GATE ''usb-ohci0'' ''osc12M'' 0xa70 (BIT 31) 0"

definition usb_ohci1_clk :: ccu_clk where
  "usb_ohci1_clk = SUNXI_CCU_GATE ''usb-ohci1'' ''osc12M'' 0xa74 (BIT 31) 0"

definition bus_ohci0_clk :: ccu_clk where
  "bus_ohci0_clk = SUNXI_CCU_GATE ''bus-ohci0'' ''psi-ahb'' 0xa8c (BIT 0) 0"

definition bus_ohci1_clk :: ccu_clk where
  "bus_ohci1_clk = SUNXI_CCU_GATE ''bus-ohci1'' ''psi-ahb'' 0xa8c (BIT 1) 0"

definition bus_ehci0_clk :: ccu_clk where
  "bus_ehci0_clk = SUNXI_CCU_GATE ''bus-ehci0'' ''psi-ahb'' 0xa8c (BIT 4) 0"

definition bus_ehci1_clk :: ccu_clk where
  "bus_ehci1_clk = SUNXI_CCU_GATE ''bus-ehci1'' ''psi-ahb'' 0xa8c (BIT 5) 0"

definition bus_otg_clk :: ccu_clk where
  "bus_otg_clk = SUNXI_CCU_GATE ''bus-otg'' ''psi-ahb'' 0xa8c (BIT 8) 0"

definition bus_lradc_clk :: ccu_clk where
  "bus_lradc_clk = SUNXI_CCU_GATE ''bus-lradc'' ''psi-ahb'' 0xa9c (BIT 0) 0"

definition bus_dpss_top0_clk :: ccu_clk where
  "bus_dpss_top0_clk = SUNXI_CCU_GATE ''bus-dpss-top0'' ''psi-ahb'' 0xabc (BIT 0) 0"

definition hdmi_24m_clk :: ccu_clk where
  "hdmi_24m_clk = SUNXI_CCU_GATE ''hdmi-24m'' ''dcxo24M'' 0xb04 (BIT 31) 0"

definition hdmi_cec_parents :: "string list" where
  "hdmi_cec_parents = [''osc32k'', ''hdmi-cec-32k'']"

definition hdmi_cec_clk :: ccu_clk where
  "hdmi_cec_clk = SUNXI_CCU_MUX_WITH_GATE ''hdmi-cec'' hdmi_cec_parents 0xb10 24 1 (BIT 31 OR BIT 30) 0"

definition bus_hdmi_clk :: ccu_clk where
  "bus_hdmi_clk = SUNXI_CCU_GATE ''bus-hdmi'' ''psi-ahb'' 0xb1c (BIT 0) 0"

definition mipi_dsi_parents :: "string list" where
  "mipi_dsi_parents = [''dcxo24M'', ''pll-periph0'', ''pll-video0-2x'', ''pll-video1-2x'', ''pll-audio1-div2'']"

definition mipi_dsi_clk :: ccu_clk where
  "mipi_dsi_clk = SUNXI_CCU_M_WITH_MUX_GATE ''mipi-dsi'' mipi_dsi_parents 0xb24 0 4 24 3 (BIT 31) 0"

definition bus_mipi_dsi_clk :: ccu_clk where
  "bus_mipi_dsi_clk = SUNXI_CCU_GATE ''bus-mipi-dsi'' ''psi-ahb'' 0xb4c (BIT 0) 0"

definition hdmi_tcon_tve_parents :: "string list" where
  "hdmi_tcon_tve_parents = [''pll-video0'', ''pll-video0-4x'', ''pll-video1'', ''pll-video1-4x'', ''pll-periph0-2x'', ''pll-audio1-div2'']"

definition tcon_lcd0_clk :: ccu_clk where
  "tcon_lcd0_clk = SUNXI_CCU_MP_WITH_MUX_GATE ''tcon-lcd0'' hdmi_tcon_tve_parents 0xb60 0 4 8 2 24 3 (BIT 31) 0"

definition bus_tcon_lcd0_clk :: ccu_clk where
  "bus_tcon_lcd0_clk = SUNXI_CCU_GATE ''bus-tcon-lcd0'' ''psi-ahb'' 0xb7c (BIT 0) 0"

definition tcon_tv_clk :: ccu_clk where
  "tcon_tv_clk = SUNXI_CCU_MP_WITH_MUX_GATE ''tcon-tv'' hdmi_tcon_tve_parents 0xb80 0 4 8 2 24 3 (BIT 31) 0"

definition bus_tcon_tv_clk :: ccu_clk where
  "bus_tcon_tv_clk = SUNXI_CCU_GATE ''bus-tcon-tv'' ''psi-ahb'' 0xb9c (BIT 0) 0"

definition tve_clk :: ccu_clk where
  "tve_clk = SUNXI_CCU_MP_WITH_MUX_GATE ''tve'' hdmi_tcon_tve_parents 0xbb0 0 4 8 2 24 3 (BIT 31) 0"

definition bus_tve_top_clk :: ccu_clk where
  "bus_tve_top_clk = SUNXI_CCU_GATE ''bus-tve-top'' ''psi-ahb'' 0xbbc (BIT 0) 0"

definition bus_tve_clk :: ccu_clk where
  "bus_tve_clk = SUNXI_CCU_GATE ''bus-tve'' ''psi-ahb'' 0xbbc (BIT 1) 0"

definition tvd_parents :: "string list" where
  "tvd_parents = [''dcxo24M'', ''pll-video0'', ''pll-video1'', ''pll-periph0'']"

definition tvd_clk :: ccu_clk where
  "tvd_clk = SUNXI_CCU_M_WITH_MUX_GATE ''tvd'' tvd_parents 0xbc0 0 5 24 3 (BIT 31) 0"

definition bus_tvd_top_clk :: ccu_clk where
  "bus_tvd_top_clk = SUNXI_CCU_GATE ''bus-tvd-top'' ''psi-ahb'' 0xbdc (BIT 0) 0"

definition bus_tvd_clk :: ccu_clk where
  "bus_tvd_clk = SUNXI_CCU_GATE ''bus-tvd'' ''psi-ahb'' 0xbdc (BIT 1) 0"

definition ledc_parents :: "string list" where
  "ledc_parents = [''dcxo24M'', ''pll-periph0'']"

definition ledc_clk :: ccu_clk where
  "ledc_clk = SUNXI_CCU_MP_WITH_MUX_GATE ''ledc'' ledc_parents 0xbf0 0 4 8 2 24 1 (BIT 31) 0"

definition bus_ledc_clk :: ccu_clk where
  "bus_ledc_clk = SUNXI_CCU_GATE ''bus-ledc'' ''psi-ahb'' 0xbfc (BIT 0) 0"

definition csi_top_parents :: "string list" where
  "csi_top_parents = [''pll-periph0-2x'', ''pll-video0-2x'', ''pll-video1-2x'']"

definition csi_top_clk :: ccu_clk where
  "csi_top_clk = SUNXI_CCU_M_WITH_MUX_GATE ''csi-top'' csi_top_parents 0xc04 0 4 24 3 (BIT 31) 0"

definition csi0_mclk_parents :: "string list" where
  "csi0_mclk_parents = [''dcxo24M'', ''pll-periph0'', ''pll-video0'', ''pll-video1'', ''pll-audio-div2'', ''pll-audio-div5'']"

definition csi0_mclk_clk :: ccu_clk where
  "csi0_mclk_clk = SUNXI_CCU_M_WITH_MUX_GATE ''csi0-mclk'' csi0_mclk_parents 0xc08 0 5 24 3 (BIT 31) 0"

definition bus_csi_clk :: ccu_clk where
  "bus_csi_clk = SUNXI_CCU_GATE ''bus-csi'' ''psi-ahb'' 0xc1c (BIT 0) 0"

definition tpadc_parents :: "string list" where
  "tpadc_parents = [''dcxo24M'', ''pll-audio0'']"

definition tpadc_clk :: ccu_clk where
  "tpadc_clk = SUNXI_CCU_MUX_WITH_GATE ''tpadc'' tpadc_parents 0xc50 24 3 (BIT 31) 0"

definition bus_tpadc_clk :: ccu_clk where
  "bus_tpadc_clk = SUNXI_CCU_GATE ''bus-tpadc'' ''apb0'' 0xc5c (BIT 0) 0"

definition bus_tzma_clk :: ccu_clk where
  "bus_tzma_clk = SUNXI_CCU_GATE ''bus-tzma'' ''apb0'' 0xc6c (BIT 0) 0"

definition dsp_parents :: "string list" where
  "dsp_parents = [''dcxo24M'', ''osc32k'', ''iosc'', ''pll-periph0-2x'']"

definition dsp_clk :: ccu_clk where
  "dsp_clk = SUNXI_CCU_M_WITH_MUX_GATE ''dsp'' dsp_parents 0xc70 0 4 24 3 (BIT 31) 0"

definition bus_dsp_cfg_clk :: ccu_clk where
  "bus_dsp_cfg_clk = SUNXI_CCU_GATE ''bus-dsp-cfg'' ''psi-ahb'' 0xc7c (BIT 1) 0"

definition riscv_parents :: "string list" where
  "riscv_parents = [''dcxo24M'', ''osc32k'', ''iosc'', ''pll-periph0-800m'', ''pll-periph0'', ''pll-cpux'', ''pll-audio1-div2'']"

definition riscv_clk :: ccu_clk where
  "riscv_clk = SUNXI_CCU_MUX ''riscv'' riscv_parents 0xd00 24 3 0"

definition riscv_axi_table :: clk_div_table where
  "riscv_axi_table = [(1, 2), (2, 3), (3, 4)]"

definition riscv_axi_clk :: ccu_clk where
  "riscv_axi_clk = SUNXI_CCU_DIV_TABLE ''riscv-axi'' ''riscv'' 0xd00 8 2 riscv_axi_table 0"

definition bus_riscv_cfg_clk :: ccu_clk where
  "bus_riscv_cfg_clk = SUNXI_CCU_GATE ''bus-riscv-cfg'' ''psi-ahb'' 0xd0c (BIT 0) 0"

definition fanout_24m_clk :: ccu_clk where
  "fanout_24m_clk = SUNXI_CCU_GATE ''fanout-24m'' ''dcxo24M'' 0xf30 (BIT 0) 0"

definition fanout_12m_clk :: ccu_clk where
  "fanout_12m_clk = SUNXI_CCU_GATE ''fanout-12m'' ''osc12M'' 0xf30 (BIT 1) 0"

definition fanout_16m_clk :: ccu_clk where
  "fanout_16m_clk = SUNXI_CCU_GATE_WITH_PREDIV ''fanout-16m'' ''pll-periph0-2x'' 0xf30 75 (BIT 2) 0"

definition fanout_25m_clk :: ccu_clk where
  "fanout_25m_clk = SUNXI_CCU_GATE_WITH_PREDIV ''fanout-25m'' ''pll-periph0'' 0xf30 24 (BIT 3) 0"

definition fanout_32k_clk :: ccu_clk where
  "fanout_32k_clk = SUNXI_CCU_GATE_WITH_PREDIV ''fanout-32k'' ''pll-periph0-2x'' 0xf30 36621 (BIT 4) 0"

definition fanout_27m_parents :: "string list" where
  "fanout_27m_parents = [''pll-video0'', ''pll-video1'']"

definition fanout_27m_clk :: ccu_clk where
  "fanout_27m_clk = SUNXI_CCU_MP_WITH_MUX_GATE_NO_INDEX ''fanout-27m'' fanout_27m_parents 0xf34 8 2 0 5 24 2 (BIT 31) 0"

definition fanout_pclk :: ccu_clk where
  "fanout_pclk = SUNXI_CCU_M_WITH_GATE ''fanout-pclk'' ''apb0'' 0xf38 0 5 (BIT 31) 0"

definition fanout_parents :: "string list" where
  "fanout_parents = [''fanout-32k'', ''fanout-12m'', ''fanout-16m'', ''fanout-24m'', ''fanout-25m'', ''fanout-27m'', ''fanout-pclk'']"

definition fanout0_out_clk :: ccu_clk where
  "fanout0_out_clk = SUNXI_CCU_MUX_WITH_GATE ''fanout0-out-clk'' fanout_parents 0xf3c 0 3 (BIT 21) 0"

definition fanout1_out_clk :: ccu_clk where
  "fanout1_out_clk = SUNXI_CCU_MUX_WITH_GATE ''fanout1-out-clk'' fanout_parents 0xf3c 3 3 (BIT 22) 0"

definition fanout2_out_clk :: ccu_clk where
  "fanout2_out_clk = SUNXI_CCU_MUX_WITH_GATE ''fanout2-out-clk'' fanout_parents 0xf3c 6 3 (BIT 23) 0"

definition osc12M_clk :: ccu_clk where
  "osc12M_clk = CLK_FIXED_FACTOR_FW_NAME ''osc12M'' ''dcxo24M'' 2 1 0"

definition pll_periph0_clk :: ccu_clk where
  "pll_periph0_clk = CLK_FIXED_FACTOR_HW ''pll-periph0'' CLK_PLL_PERIPH0_2X 2 1 0"

definition pll_periph0_div3_clk :: ccu_clk where
  "pll_periph0_div3_clk = CLK_FIXED_FACTOR_HW ''pll-periph0-div3'' CLK_PLL_PERIPH0_2X 6 1 0"

definition hdmi_cec_32k_clk :: ccu_clk where
  "hdmi_cec_32k_clk = CLK_FIXED_FACTOR_HW ''hdmi-cec-32k'' CLK_PLL_PERIPH0_2X 36621 1 0"

definition mbus_clk :: ccu_clk where
  "mbus_clk = CLK_FIXED_FACTOR_HW ''mbus'' CLK_PLL_DDR0 4 1 0"

definition pll_video0_parents :: "nat list" where
  "pll_video0_parents = [CLK_PLL_VIDEO0]"

definition pll_video0_4x_clk :: ccu_clk where
  "pll_video0_4x_clk = CLK_FIXED_FACTOR_HWS ''pll-video0-4x'' pll_video0_parents 1 4 CLK_SET_RATE_PARENT"

definition pll_video0_2x_clk :: ccu_clk where
  "pll_video0_2x_clk = CLK_FIXED_FACTOR_HWS ''pll-video0-2x'' pll_video0_parents 1 2 CLK_SET_RATE_PARENT"

definition pll_video1_parents :: "nat list" where
  "pll_video1_parents = [CLK_PLL_VIDEO1]"

definition pll_video1_4x_clk :: ccu_clk where
  "pll_video1_4x_clk = CLK_FIXED_FACTOR_HWS ''pll-video1-4x'' pll_video1_parents 1 4 CLK_SET_RATE_PARENT"

definition pll_video1_2x_clk :: ccu_clk where
  "pll_video1_2x_clk = CLK_FIXED_FACTOR_HWS ''pll-video1-2x'' pll_video1_parents 1 2 CLK_SET_RATE_PARENT"

definition pll_audio0_parents :: "nat list" where
  "pll_audio0_parents = [CLK_PLL_AUDIO0_4X]"

definition pll_audio0_clk :: ccu_clk where
  "pll_audio0_clk = CLK_FIXED_FACTOR_HWS ''pll-audio0'' pll_audio0_parents 4 1 CLK_SET_RATE_PARENT"

definition pll_audio0_2x_clk :: ccu_clk where
  "pll_audio0_2x_clk = CLK_FIXED_FACTOR_HWS ''pll-audio0-2x'' pll_audio0_parents 2 1 CLK_SET_RATE_PARENT"

definition sun8iw20_hw_clks :: "ccu_clk list" where
  "sun8iw20_hw_clks = [
     osc12M_clk, pll_cpux_clk, pll_ddr0_clk, pll_periph0_parent_clk, pll_periph0_2x_clk,
     pll_periph0_clk, pll_periph0_800m_clk, pll_periph0_div3_clk, pll_video0_clk,
     pll_video0_2x_clk, pll_video0_4x_clk, pll_video1_clk, pll_video1_2x_clk, pll_video1_4x_clk,
     pll_ve_clk, pll_audio0_clk, pll_audio0_2x_clk, pll_audio0_4x_clk, pll_audio1_clk,
     pll_audio1_div2_clk, pll_audio1_div5_clk, pll_cpux_div, cpux_clk, axi_clk, apb_clk,
     psi_ahb_clk, apb0_clk, apb1_clk, mbus_clk, de0_clk, bus_de0_clk, di_clk, bus_di_clk, g2d_clk,
     bus_g2d_clk, ce_clk, bus_ce_clk, ve_clk, bus_ve_clk, bus_dma_clk, bus_msgbox0_clk,
     bus_msgbox1_clk, bus_msgbox2_clk, bus_spinlock_clk, bus_hstimer_clk, avs_clk, bus_dbg_clk,
     bus_pwm_clk, bus_iommu_clk, dram_clk, mbus_dma_clk, mbus_ve_clk, mbus_ce_clk, mbus_tvin_clk,
     mbus_csi_clk, mbus_g2d_clk, bus_dram_clk, mmc0_clk, mmc1_clk, mmc2_clk, bus_mmc0_clk,
     bus_mmc1_clk, bus_mmc2_clk, bus_uart0_clk, bus_uart1_clk, bus_uart2_clk, bus_uart3_clk,
     bus_uart4_clk, bus_uart5_clk, bus_i2c0_clk, bus_i2c1_clk, bus_i2c2_clk, bus_i2c3_clk,
     bus_can0_clk, bus_can1_clk, spi0_ccu_clk, spi1_ccu_clk, bus_spi0_clk, bus_spi1_clk,
     emac0_25m_clk, bus_emac0_clk, ir_tx_clk, bus_ir_tx_clk, bus_gpadc_clk, bus_ths_clk, i2s0_clk,
     i2s1_clk, i2s2_clk, i2s2_asrc_clk, bus_i2s0_clk, bus_i2s1_clk, bus_i2s2_clk, spdif_tx_clk,
     spdif_rx_clk, bus_spdif_clk, dmic_clk, bus_dmic_clk, audio_codec_dac_clk,
     audio_codec_adc_clk, bus_audio_codec_clk, usb_ohci0_clk, usb_ohci1_clk, bus_ohci0_clk,
     bus_ohci1_clk, bus_ehci0_clk, bus_ehci1_clk, bus_otg_clk, bus_lradc_clk, bus_dpss_top0_clk,
     hdmi_24m_clk, hdmi_cec_clk, hdmi_cec_32k_clk, bus_hdmi_clk, mipi_dsi_clk, bus_mipi_dsi_clk,
     tcon_lcd0_clk, bus_tcon_lcd0_clk, tcon_tv_clk, bus_tcon_tv_clk, tve_clk, bus_tve_clk,
     bus_tve_top_clk, tvd_clk, bus_tvd_clk, bus_tvd_top_clk, ledc_clk, bus_ledc_clk, csi_top_clk,
     csi0_mclk_clk, bus_csi_clk, tpadc_clk, bus_tpadc_clk, bus_tzma_clk, dsp_clk, bus_dsp_cfg_clk,
     riscv_clk, riscv_axi_clk, bus_riscv_cfg_clk, fanout_24m_clk, fanout_12m_clk, fanout_16m_clk,
     fanout_25m_clk, fanout_32k_clk, fanout_27m_clk, fanout_pclk, fanout0_out_clk,
     fanout1_out_clk, fanout2_out_clk]"

section \<open>Initialisation\<close>

definition set_reg :: "'h clk_plat \<Rightarrow> u64 \<Rightarrow> u32 \<Rightarrow> nat \<Rightarrow> nat \<Rightarrow> 'h \<Rightarrow> 'h" where
  "set_reg P addr val bw bs = (let m = mask bw
     in modify_reg P addr (\<lambda>tmp. tmp AND NOT (push_bit bs m) OR push_bit bs (val AND m)))"

definition set_reg_key :: "'h clk_plat \<Rightarrow> u64 \<Rightarrow> u32 \<Rightarrow> nat \<Rightarrow> nat \<Rightarrow> u32 \<Rightarrow> nat \<Rightarrow> nat \<Rightarrow> 'h \<Rightarrow> 'h" where
  "set_reg_key P addr key kbw kbs val bw bs = (let m = mask bw; km = mask kbw
     in modify_reg P addr (\<lambda>tmp. tmp AND NOT (push_bit bs m) OR push_bit bs (val AND m) OR push_bit kbs (key AND km)))"

abbreviation (input) SUNXI_RTC_CCU_REG :: u64 where "SUNXI_RTC_CCU_REG \<equiv> 0x07090000"
abbreviation (input) SUNXI_R_CCU_BASE :: u64 where "SUNXI_R_CCU_BASE \<equiv> 0x07010000"
abbreviation (input) SUNXI_CCU_BASE :: u64 where "SUNXI_CCU_BASE \<equiv> 0x02001000"

definition clock_source_init :: "'h clk_plat \<Rightarrow> u64 \<Rightarrow> 'h \<Rightarrow> 'h" where
  "clock_source_init P base h = (let
     h = set_reg P (base + 0x160) 1 1 1 h;
     h = set_reg_key P (base + 0) 0x16AA 16 16 1 2 14 h;
     h = set_reg_key P (base + 0) 0x16AA 16 16 1 1 0 h
   in set_reg P (base + 0x60) 0 2 1 h)"

text \<open>The clocks of a table as they are registered at \<open>base\<close>, numbered from \<open>n\<close> on.\<close>

definition hws_at :: "'h clk_plat \<Rightarrow> u64 \<Rightarrow> nat \<Rightarrow> ccu_clk list \<Rightarrow> (nat \<times> 'h clk_init_data) list" where
  "hws_at P base n cls = map (\<lambda>(c, cl). (c, clk_init_of P (set_base base cl))) (enumerate n cls)"

definition sun8iw20_rtc_ccu_desc :: "'h clk_plat \<Rightarrow> 'h sunxi_ccu_desc" where
  "sun8iw20_rtc_ccu_desc P = \<lparr>ds_hws = map Some (hws_at P SUNXI_RTC_CCU_REG 200 sun8iw20_rtc_ccu_hw_clks),
     ds_clk_type = HAL_SUNXI_RTC_CCU, ds_resets = [], ds_reset_type = 0, ds_num_resets = 0\<rparr>"

definition sunxi_rtc_ccu_init :: "'h clk_heap \<Rightarrow> 'h clk_plat \<Rightarrow> 'h clks \<times> ccu_reset list \<Rightarrow>
    (int \<times> 'h clks \<times> ccu_reset list) option" where
  "sunxi_rtc_ccu_init A P st = (case st of (s, rs) \<Rightarrow>
     let s = s\<lparr>ck_hw := clock_source_init P SUNXI_RTC_CCU_REG (ck_hw s)\<rparr>
     in ccu_common_init A SUNXI_RTC_CCU_REG (Some (sun8iw20_rtc_ccu_desc P)) (s, rs))"

definition sun8iw20_r_ccu_resets :: "(u32 \<times> u32) list" where
  "sun8iw20_r_ccu_resets = [
     (0x11c, BIT 16), (0x12c, BIT 16), (0x1ac, BIT 16), (0x1cc, BIT 16), (0x20c, BIT 16),
     (0x22c, BIT 16)]"

definition sun8iw20_r_ccu_desc :: "'h clk_plat \<Rightarrow> 'h sunxi_ccu_desc" where
  "sun8iw20_r_ccu_desc P = \<lparr>ds_hws = map Some (hws_at P SUNXI_R_CCU_BASE 300 sun8iw20_r_hw_clks),
     ds_clk_type = HAL_SUNXI_R_CCU, ds_resets = sun8iw20_r_ccu_resets, ds_reset_type = 1,
     ds_num_resets = of_nat (length sun8iw20_r_ccu_resets)\<rparr>"

definition sunxi_r_ccu_init :: "'h clk_heap \<Rightarrow> 'h clk_plat \<Rightarrow> 'h clks \<times> ccu_reset list \<Rightarrow>
    (int \<times> 'h clks \<times> ccu_reset list) option" where
  "sunxi_r_ccu_init A P st = ccu_common_init A SUNXI_R_CCU_BASE (Some (sun8iw20_r_ccu_desc P)) st"

definition sun8iw20_ccu_resets :: "(u32 \<times> u32) list" where
  "sun8iw20_ccu_resets = [
     (0x540, BIT 30), (0x60c, BIT 16), (0x62c, BIT 16), (0x63c, BIT 16), (0x68c, BIT 16),
     (0x69c, BIT 16), (0x70c, BIT 16), (0x71c, BIT 16), (0x71c, BIT 17), (0x71c, BIT 18),
     (0x72c, BIT 16), (0x73c, BIT 16), (0x78c, BIT 16), (0x7ac, BIT 16), (0x80c, BIT 16),
     (0x84c, BIT 16), (0x84c, BIT 17), (0x84c, BIT 18), (0x90c, BIT 16), (0x90c, BIT 17),
     (0x90c, BIT 18), (0x90c, BIT 19), (0x90c, BIT 20), (0x90c, BIT 21), (0x91c, BIT 16),
     (0x91c, BIT 17), (0x91c, BIT 18), (0x91c, BIT 19), (0x92c, BIT 16), (0x92c, BIT 17),
     (0x96c, BIT 16), (0x96c, BIT 17), (0x97c, BIT 16), (0x9cc, BIT 16), (0x9ec, BIT 16),
     (0x9fc, BIT 16), (0xa20, BIT 16), (0xa20, BIT 17), (0xa20, BIT 18), (0xa2c, BIT 16),
     (0xa4c, BIT 16), (0xa5c, BIT 16), (0xa70, BIT 30), (0xa74, BIT 30), (0xa8c, BIT 16),
     (0xa8c, BIT 17), (0xa8c, BIT 20), (0xa8c, BIT 21), (0xa8c, BIT 24), (0xa9c, BIT 16),
     (0xabc, BIT 16), (0xb1c, BIT 17), (0xb1c, BIT 16), (0xb4c, BIT 16), (0xb7c, BIT 16),
     (0xb9c, BIT 16), (0xbac, BIT 16), (0xbbc, BIT 17), (0xbbc, BIT 16), (0xbdc, BIT 17),
     (0xbdc, BIT 16), (0xbfc, BIT 16), (0xc1c, BIT 16), (0xc5c, BIT 16), (0xc7c, BIT 16),
     (0xc7c, BIT 17), (0xc7c, BIT 18), (0xd0c, BIT 16)]"

definition sun8iw20_ccu_desc :: "'h clk_plat \<Rightarrow> 'h sunxi_ccu_desc" where
  "sun8iw20_ccu_desc P = \<lparr>ds_hws = map Some (hws_at P SUNXI_CCU_BASE 0 sun8iw20_hw_clks),
     ds_clk_type = HAL_SUNXI_CCU, ds_resets = sun8iw20_ccu_resets, ds_reset_type = 0,
     ds_num_resets = of_nat (length sun8iw20_ccu_resets)\<rparr>"

definition pll_regs :: "u64 list" where
  "pll_regs = [0x000, 0x010, 0x020, 0x040, 0x048, 0x058, 0x078, 0x080]"

definition pll_video_regs :: "u64 list" where "pll_video_regs = [0x040, 0x048]"

definition usb2_clk_regs :: "u64 list" where "usb2_clk_regs = [0xa70, 0xa74]"

definition ccu_prepare_regs :: "'h clk_plat \<Rightarrow> u64 \<Rightarrow> 'h \<Rightarrow> 'h" where
  "ccu_prepare_regs P reg h = (let
     h = fold (\<lambda>r. modify_reg P (reg + r) (\<lambda>val. val OR BIT 29)) pll_regs h;
     h = fold (\<lambda>r. modify_reg P (reg + r) (\<lambda>val. val AND NOT (BIT 0))) pll_video_regs h;
     h = modify_reg P (reg + 0x078) (\<lambda>val. val AND NOT (BIT 1) OR BIT 0) h
   in fold (\<lambda>r. modify_reg P (reg + r) (\<lambda>val. val AND NOT (GENMASK 25 24))) usb2_clk_regs h)"

definition sunxi_ccu_init :: "'h clk_heap \<Rightarrow> 'h clk_plat \<Rightarrow> 'h clks \<times> ccu_reset list \<Rightarrow>
    (int \<times> 'h clks \<times> ccu_reset list) option" where
  "sunxi_ccu_init A P st = (case st of (s, rs) \<Rightarrow>
     let s = s\<lparr>ck_hw := ccu_prepare_regs P SUNXI_CCU_BASE (ck_hw s)\<rparr>
     in ccu_common_init A SUNXI_CCU_BASE (Some (sun8iw20_ccu_desc P)) (s, rs))"

definition fixed_hw :: "nat \<Rightarrow> nat" where "fixed_hw i = 400 + i"

text \<open>The results of the registrations are not looked at.\<close>

definition clk_init :: "'h clk_heap \<Rightarrow> 'h clk_plat \<Rightarrow> 'h clks \<times> ccu_reset list \<Rightarrow>
    (int \<times> 'h clks \<times> ccu_reset list) option" where
  "clk_init A P st = (case st of (s, rs) \<Rightarrow> do {
     (_, s) \<leftarrow> sunxi_fixed_clk_init A fixed_hw s;
     (_, s, rs) \<leftarrow> sunxi_rtc_ccu_init A P (s, rs);
     (_, s, rs) \<leftarrow> sunxi_r_ccu_init A P (s, rs);
     (_, s, rs) \<leftarrow> sunxi_ccu_init A P (s, rs);
     Some (0, s, rs)
   })"

definition hal_clock_init :: "'h clk_heap \<Rightarrow> 'h clk_plat \<Rightarrow> 'h clks \<times> ccu_reset list \<Rightarrow>
    ('h clks \<times> ccu_reset list) option" where
  "hal_clock_init A P st = map_option snd (clk_init A P st)"

end
