(* ===== verification/Spec2Isabelle.thy ===== *)
theory Spec2Isabelle
  imports Simulation Nor_Locks Spi_Sim Spi_Returns Mm_Libc Gpio_Spi Ccu_Sim Ccu_Register_Ok Ccu_Pll_Ok Ccu_D1
begin

unbundle bit_operations_syntax

text \<open>
  A model of the flash algorithm of the Allwinner D1s (DongshanPI D1s_FlashAlgorithm): the program
  that a debug host loads into RAM to program the serial NOR flash of the board, and its
  correctness.

  \<^bold>\<open>The program.\<close> The host stops the program at \<open>__bkpt_label\<close>, writes a request into global
  variables and lets it run (\<open>solutions/d1_flashelf/app/src/flash_main.c\<close>, function
  \<open>flash_handle\<close>); the request is served by \<open>driver.c\<close> (\<open>flashInit\<close>, \<open>flashProgram\<close>, \<open>flashRead\<close>,
  \<open>flashErase\<close>, \<open>flashChipErase\<close>, \<open>flashChecksum\<close>), which calls the CSI flash interface
  (\<open>components/chip_d1/drivers/spinorflash.c\<close>), which calls the HAL
  (\<open>components/chip_d1/melis/hal/source/spinor/hal_spinor.c\<close>), which calls the driver core
  (\<open>spinor/core.c\<close>) with its tables of chips (\<open>spinor/factory_*.c\<close>) and its block protection
  (\<open>spinor/wrlock.c\<close>). The core talks to the chip by transfers of the SPI controller, whose driver
  (\<open>melis/hal/source/spi/hal_spi.c\<close>) moves the bytes through the registers of the controller. Its
  initialisation calls the GPIO driver (\<open>gpio/hal_gpio.c\<close>) for the pins and the clock and reset
  drivers (\<open>ccmu/hal_clk.c\<close>, \<open>ccmu/hal_reset.c\<close> on \<open>ccmu/sunxi-ng\<close>) for its clocks and its reset line.
  \<open>spinor/cache.c\<close> is an optional write-back cache in front of the core.

  \<^bold>\<open>The theories.\<close>
  \<^item> \<open>Prelude\<close>: integer types, \<open>ALIGN\<close> and \<open>ALIGN_DOWN\<close>, bounds-checked buffers.
  \<^item> \<open>Nor_Types\<close>: the commands and structures of \<open>inter.h\<close>; the record \<open>nor\<close> is the static state
    of the core (\<open>g_nor\<close>, the semaphore, the chain of factories \<open>g_fhead\<close>), the record \<open>env\<close>
    the controller, the delays and the allocator under it.
  \<^item> \<open>Nor_Cmd\<close>: \<open>core.c\<close> up to \<open>nor_reset\<close>; the waiting loops against the reference \<open>poll\<close>.
  \<^item> \<open>Nor_Factory\<close>: the nine \<open>factory_*.c\<close>. \<open>Nor_Wrlock\<close>: \<open>wrlock.c\<close>. \<open>Nor_Core\<close>: the rest of
    \<open>core.c\<close> (chain of factories, matching, scanning, initialisation, erase, read, write).
  \<^item> \<open>Nor_Chip\<close>: the chip's data sheet as laws on transfers, and the core's operations against it.
  \<^item> \<open>Nor_Plan\<close>: how accesses are cut into pages and blocks, and that every call returns, for every
    controller. \<open>Nor_Init\<close>: the chain of factories and what initialisation establishes.
    \<open>Nor_Board\<close>: initialisation on the board, and a simulated board. \<open>Nor_Locks\<close>: the units the
    block protection visits (locale \<open>lock_ops\<close>, interpreted for each factory's operations).
  \<^item> \<open>Flash_Media\<close>: the contract of a flash layer (locale \<open>flash_media\<close>), its clients, and its
    interpretation by the core; \<open>Hal_Spinor\<close>: \<open>hal_spinor.c\<close> and \<open>spinorflash.c\<close>, which
    interpret it again; \<open>Flash_Driver\<close>: \<open>driver.c\<close>, \<open>FlashDev.c\<close>, \<open>flash_main.c\<close> and the
    sessions of the host; \<open>Nor_Cache\<close>: \<open>cache.c\<close>; \<open>Simulation\<close>: states for the witnesses.
  \<^item> \<open>Spi_Regs\<close>: the structures of \<open>sunxi_hal_spi.h\<close> and the functions of \<open>hal_spi.c\<close> that work on
    one register; the record \<open>spi_plat\<close> is the hardware under them. \<open>Hal_Spi\<close>: the rest of
    \<open>hal_spi.c\<close>; the record \<open>spi_ports\<close> is the array \<open>g_sunxi_spi\<close> with the hardware's state.
  \<^item> \<open>Spi_Ctl\<close>: the controller's manual as a step relation (\<open>ctl_step\<close>) and the locale
    \<open>spi_controller\<close>; \<open>Spi_Exchange\<close>: the invariant of an exchange, stable under the controller's
    steps, and the driver's loops; \<open>Spi_Init\<close>: initialisation (locale \<open>spi_soc\<close>); \<open>Spi_Returns\<close>:
    transfers on any hardware; \<open>Spi_Stack\<close>: the flash driver on this driver (locale \<open>spi_board\<close>);
    \<open>Spi_Sim\<close>: a simulated controller, on which the three locales are interpreted.
  \<^item> \<open>Gpio\<close>: \<open>hal_gpio.c\<close>; the record \<open>gpio\<close> is its static table of port controllers with the
    hardware's state. \<open>Gpio_Ok\<close>: the fields of the pins (locale \<open>pin_bank\<close>, which locale \<open>pio\<close>, port
    controllers whose configuration registers are storage, provides), initialisation, interrupts.
    \<open>Gpio_Spi\<close>: \<open>spi_pinctrl_init\<close> on this driver.
  \<^item> \<open>Ccu_Mp\<close>: the gates, multiplexers and M-P dividers of \<open>ccmu/sunxi-ng\<close>; \<open>Ccu_Mp_Ok\<close>: the choice
    of dividers and the register of a rate. \<open>Ccu_Pll\<close>: dividers, fixed factors and the N-M PLLs with
    fractional mode and sigma-delta modulation; \<open>Ccu_Pll_Ok\<close>: their search for factors. \<open>Ccu_Kinds\<close>:
    multipliers and the N-K-M-P PLLs, and \<open>ccu_kind\<close>, all kinds of clocks with their operations.
    \<open>Ccu_D1\<close>: the tables of the three clock controllers of the D1 and \<open>clk_init\<close>.
  \<^item> \<open>Ccu_Core\<close>: the clock framework (\<open>ccu.c\<close>, \<open>clk.c\<close>, \<open>hal_clk.c\<close>) once clocks are registered; the
    record \<open>clks\<close> is its tree of \<open>clk_core\<close>s with the hardware's state. \<open>Ccu_Core_Ok\<close>: its
    counting of uses on any switches (locale \<open>clk_gates\<close>), which gates in registers (locale \<open>gates\<close>)
    are. \<open>Ccu_Rate\<close>: rates through the framework. \<open>Ccu_Register\<close>: registration (\<open>clk_hw_register\<close>,
    \<open>ccu_common_init\<close>, the fixed clocks); \<open>Ccu_Register_Ok\<close>: what it establishes. \<open>Ccu_Reset\<close>: the
    reset lines. \<open>Ccu_Spi\<close>: \<open>spi_clk_init\<close> on these drivers. \<open>Ccu_Sim\<close>: the SPI clocks of the D1
    over a register file.

  \<^item> The heap under it (\<open>solutions/d1_flashelf/mm/src/*.c\<close>, \<open>libc/malloc.c\<close>), from which the
    semaphores of the drivers and the cache's buffers come. \<open>Mm_Heap\<close> is the code, on byte memory;
    the record \<open>mm_heap\<close> is \<open>struct mm_heap_s\<close>. \<open>Mm_Lists\<close>: loads, stores and doubly linked lists in
    memory; \<open>Mm_Freelist\<close>: the list of free nodes, its heads and its order; \<open>Mm_Chunks\<close>: the chunks
    that tile the region; \<open>Mm_Steps\<close>: what one store, link or unlink does to both; \<open>Mm_Ok\<close>: the
    invariant \<open>heap_ok\<close>, \<open>mm_malloc\<close> and \<open>mm_free\<close>; \<open>Mm_Init\<close>: initialisation; \<open>Mm_Client\<close>: the
    contract with its clients (locale \<open>block_heap\<close>); \<open>Mm_Libc\<close>: the C library calls, which meet the
    contract again, the statistics, and small blocks.

  \<^bold>\<open>Reading the model.\<close> A C function is a HOL function that takes and returns the state it works
  on. \<open>None\<close> means that the call has no defined result (an access outside an object, a null
  pointer, a division by zero, or no return); error returns of the code are ordinary values. Loops
  on unsigned counters are total functions with a measure, so that wrap-around is part of the
  model; \<open>chain_last\<close>, \<open>match_nor_from\<close>, \<open>checksum_loop\<close>, the list walks of the heap, the
  recursions over the clocks' parents and the loops over dividers, which may not end, are \<open>partial_function (option)\<close>. No fuel is used.

  \<^bold>\<open>What the theorems show.\<close> A session of the host refines an abstract flash memory
  (C1), also with the SPI driver and the controller's registers in
  place of the bus (C2); the layers do so operation by operation
  (C3 to C7, C9); initialisation
  (C8, C21 to C23); waiting and
  returning on arbitrary hardware (C24 to C26); the operations of
  the flash algorithm (C27, C28); boundaries and errors of
  the SPI driver (C29, C30); block protection
  (C35); the cache (C37 to C40).
  The SPI driver's set-up on the drivers under it opens exactly its clocks and configures exactly
  its pins (C13, C15): a gate is open while its clock or one below it
  is in use (C14), the dividers are the best ones (C18),
  the fields of the pins do not touch each other (C16), and the interrupt of a
  pin calls its handler (C20, C17).
  The heap gives its clients abstract blocks (C10), by best fit and
  coalescing (C11, C12), and serves again what was freed
  (C31). Several theorems state where the
  code departs from what it means to do: C29, C40,
  C19 and C34, and, below, \<open>match_nor_unlisted_chip_out_of_bounds\<close>,
  \<open>nor_wait_ready_zero_wraps\<close>, \<open>flashChecksum_negative_diverges\<close>, \<open>spi_config_tc_overwrites\<close>,
  \<open>hal_spi_xfer_hides_dead_controller\<close>, \<open>nor_wr_lock_misses_partial_block\<close> and
  \<open>nor_write_status_overflow\<close>.

  \<^bold>\<open>Assumptions.\<close> \<open>nor_chip\<close> and \<open>board\<close> are the data sheet of the flash chip, as laws of single
  transfers (status register, write enable latch, read, page program inside one page, aligned
  erase, identification, reset, and quad reads and programs that are obeyed only while the quad
  enable bit is set), and a controller that performs transfers. The
  simulated board of \<open>Nor_Board\<close> satisfies them. For C2 the same
  laws are asked of the chip alone, and the controller is one that follows its manual and is quick
  enough for the driver's polling budgets (255 polls for the bytes of a transfer, 65535 for its end,
  of which one measure bounds both by 254); the simulated controller of \<open>Spi_Sim\<close> satisfies these. The theorems about clients of the heap are for
  regions of at most 32 KB, as 16-bit chunk sizes with the flag in bit 15 demand, and for requests
  of at least 13 bytes, below which the code is wrong. The GPIO theorems ask that the configuration
  registers of the port controllers keep what is written; the clock theorems that the registers of
  the gates do, and that the gates do not overlap.

  \<^bold>\<open>Not modelled.\<close> The kernel-dependent branches (the code is built with \<open>CONFIG_KERNEL_NONE\<close>, so
  that semaphores only allocate), logging, \<open>CONFIG_DRIVERS_SPINOR_CACHE\<close> inside
  \<open>hal_spinor.c\<close> (off in this build; the cache itself is modelled), the DMA path of \<open>hal_spi.c\<close>
  (compiled out), rounding of rates and accuracies of clocks, the kinds of clocks that the tables of
  the D1 do not use (\<open>ccu_nk.c\<close>, \<open>ccu_nkm.c\<close>, \<open>ccu_phase.c\<close>), the standby of the GPIO driver
  (\<open>CONFIG_STANDBY\<close> is off), board start-up, and the drivers of the SDK that the flash algorithm
  does not use (DMA, SD, display, network, sound).
\<close>

section \<open>Sessions of the host\<close>

text \<open>
  C1: On a board with the chip that \<open>FlashDev.c\<close> describes, every session of well-formed requests
  (initialise, then program, read, erase, erase the chip, verify a checksum in any order) runs to its end,
  has exactly one outcome, and what the host sees (flash contents, shared buffer, error code) is
  what the abstract flash memory prescribes, request by request.
\<close>

theorem session_refines_flash_memory:
  assumes "board E V [0x85, 0x60, 0x17]" "capacity V = 8 * 1024 * 1024" "app_fresh V s"
    and "\<forall>rq \<in> set rqs. rq_ok (8 * 1024 * 1024) rq"
  shows "\<exists>v. flash_session E s rqs v \<and> (\<forall>u. flash_session E s rqs u \<longrightarrow> u = v) \<and>
    view_of V v = fold (round_spec (8 * 1024 * 1024)) rqs
      \<lparr>v_mem = cell V (bus (hal_nor (hal s))), v_buffer = g_rwBuffer s, v_error = 0\<rparr>"
proof -
  obtain v where "flash_session E s rqs v" "view_of V v = fold (round_spec (8 * 1024 * 1024)) rqs
      \<lparr>v_mem = cell V (bus (hal_nor (hal s))), v_buffer = g_rwBuffer s, v_error = 0\<rparr>"
    using flash_session_run [OF assms(1-3) assms(4)] by blast
  then show ?thesis by (blast intro: flash_session_det)
qed

text \<open>Erase a sector, program five bytes, read them back and check their sum.\<close>

definition sim_requests :: "request list" where
  "sim_requests =
     [\<lparr>rq_func = 3, rq_dst = 0x1000, rq_length = 0x1000, rq_checksum = 0, rq_buffer = []\<rparr>,
      \<lparr>rq_func = 1, rq_dst = 0x1004, rq_length = 3, rq_checksum = 0, rq_buffer = [1, 2, 3]\<rparr>,
      \<lparr>rq_func = 6, rq_dst = 0x1004, rq_length = 3, rq_checksum = 6, rq_buffer = []\<rparr>,
      \<lparr>rq_func = 2, rq_dst = 0x1003, rq_length = 4, rq_checksum = 0, rq_buffer = []\<rparr>]"

theorem session_refines_flash_memory_witness:
  "\<exists>v. flash_session sim_env (sim_app (nor_boot sim_blank)) sim_requests v \<and> g_error v = 0 \<and>
     take 4 (g_rwBuffer v) = [0xFF, 1, 2, 3]"
proof -
  have ok: "\<forall>rq \<in> set sim_requests. rq_ok (8 * 1024 * 1024) rq"
    by (simp add: sim_requests_def rq_ok_def)
  obtain v where v: "flash_session sim_env (sim_app (nor_boot sim_blank)) sim_requests v"
    "view_of sim_view v = fold (round_spec (8 * 1024 * 1024)) sim_requests
       \<lparr>v_mem = cell sim_view (bus (hal_nor (hal (sim_app (nor_boot sim_blank))))),
        v_buffer = g_rwBuffer (sim_app (nor_boot sim_blank)), v_error = 0\<rparr>"
    using session_refines_flash_memory [OF sim_board capacity_sim app_fresh_sim ok] by blast
  have "v_error (view_of sim_view v) = 0" "take 4 (v_buffer (view_of sim_view v)) = [0xFF, 1, 2, 3]"
    unfolding v(2) sim_requests_def
    by (simp_all add: round_spec_def byte_sum_def programmed_def erased_def upt_rec sim_app_def
        overlay_def Let_def)
  with v(1) show ?thesis by (auto simp: view_of_def)
qed

text \<open>
  One round of the command loop, on an initialised board, does to the flash, the buffer and the
  error code what the specification says for the request; the program stays ready for the next.
\<close>

theorem round_refines_spec:
  assumes "app_ok E V s" and "rq_ok (unat (total_size (hal_nor (hal s)))) rq"
  shows "\<exists>v. flash_dispatch E (host_writes rq s) = Some v \<and> app_ok E V v \<and>
    total_size (hal_nor (hal v)) = total_size (hal_nor (hal s)) \<and>
    view_of V v = round_spec (unat (total_size (hal_nor (hal s)))) rq (view_of V s)"
  using flash_dispatch_spec [OF assms] by (simp add: word_unat_eq_iff)

theorem round_refines_spec_witness:
  "\<exists>v. flash_dispatch sim_env (host_writes \<lparr>rq_func = 4, rq_dst = 0, rq_length = 0, rq_checksum = 0,
       rq_buffer = []\<rparr> (sim_app sim_ready)) = Some v \<and> v_mem (view_of sim_view v) 5 = 0xFF"
proof -
  have ok: "rq_ok (unat (total_size (hal_nor (hal (sim_app sim_ready)))))
      \<lparr>rq_func = 4, rq_dst = 0, rq_length = 0, rq_checksum = 0, rq_buffer = []\<rparr>"
    by (simp add: rq_ok_def sim_app_def)
  from round_refines_spec [OF app_ok_sim_app ok] show ?thesis
    by (auto simp: round_spec_def view_of_def erased_def sim_app_def)
qed

section \<open>The driver as a flash memory\<close>

text \<open>
  C3: On a chip that behaves as its data sheet says, any sequence of in-range reads, programs and
  sector erases through \<open>nor_read\<close>, \<open>nor_write\<close> and \<open>nor_erase\<close> succeeds, returns the data and
  leaves the contents of the abstract flash memory.
\<close>

theorem core_runs_as_flash_memory:
  assumes "core_ok E V w" and "\<forall>x \<in> set xs. op_ok (unat (total_size w)) x"
  shows "\<exists>w'. run_ops (nor_read E) (nor_write E) (nor_erase E) xs w =
      Some (fst (spec_run xs (cell V (bus w))), w') \<and> core_ok E V w' \<and>
    cell V (bus w') = snd (spec_run xs (cell V (bus w)))"
  using core.run_ops_spec [OF assms] by blast

theorem core_runs_as_flash_memory_witness:
  "\<exists>w'. run_ops (nor_read sim_env) (nor_write sim_env) (nor_erase sim_env)
      [Erase 0 0x1000, Program 0xFE [1, 2, 3], Program 0xFF [0xF0], Read 0xFD 5] sim_ready =
    Some ([[], [], [], [0xFF, 1, 0, 3, 0xFF]], w')"
proof -
  have ok: "\<forall>x \<in> set [Erase 0 0x1000, Program 0xFE [1, 2, 3], Program 0xFF [0xF0], Read 0xFD 5].
      op_ok (unat (total_size sim_ready)) x"
    by simp
  from core_runs_as_flash_memory [OF core_ok_sim_ready ok] show ?thesis
    by (auto simp: programmed_def erased_def upt_rec)
qed

text \<open>
  C4: Through the HAL, erasing whole sectors, programming any bytes inside them (across pages) and
  reading the same range back returns exactly those bytes.
\<close>

theorem hal_erase_program_read:
  assumes "hal_ok E V s" "unat b mod 4096 = 0" "unat n mod 4096 = 0"
    and "unat b + unat n \<le> unat (total_size (hal_nor s))" "bs \<noteq> []" "unat b \<le> unat a"
    and "unat a + length bs \<le> unat b + unat n" "unat k = length bs"
  shows "\<exists>s'. run_ops (hal_spinor_read_data E) (hal_spinor_program_data E) (hal_spinor_erase_sector E)
      [Erase b n, Program a bs, Read a k] s = Some ([[], [], bs], s') \<and> hal_ok E V s'"
  using hal.erase_program_read [OF assms(1-3) _ assms(5-8)] assms(4) by blast

theorem hal_erase_program_read_witness:
  "\<exists>s'. run_ops (hal_spinor_read_data sim_env) (hal_spinor_program_data sim_env)
      (hal_spinor_erase_sector sim_env) [Erase 0x2000 0x1000, Program 0x20FE [7, 8, 9], Read 0x20FE 3]
      sim_hal = Some ([[], [], [7, 8, 9]], s')"
  using hal_erase_program_read [OF hal_ok_sim_hal, of "0x2000" "0x1000" "[7, 8, 9]" "0x20FE" 3]
  by (auto simp: sim_hal_def)

text \<open>
  C5: \<open>nor_read\<close> fills the buffer with the cells of the range, leaves the rest of the buffer, the
  flash and the configuration alone.
\<close>

theorem nor_read_returns_cells:
  assumes "nor_chip E V" "ready V w" "n \<noteq> 0" "unat a + unat n \<le> capacity V" "unat n \<le> length buf"
  shows "\<exists>w'. nor_read E a buf n w =
      Some (0, map (cell V (bus w)) [unat a ..< unat a + unat n] @ drop (unat n) buf, w') \<and>
    cell V (bus w') = cell V (bus w) \<and> same_nor w w' \<and> ready V w'"
  using chip_nor_read [OF assms] by (auto simp: same_flash_def)

theorem nor_read_returns_cells_witness:
  "\<exists>w'. nor_read sim_env 0xFE [1, 1, 1, 1, 1] 3 sim_ready = Some (0, [0, 0, 0, 1, 1], w')"
  using nor_read_returns_cells [OF sim_chip ready_sim_ready, of 3 "0xFE" "[1, 1, 1, 1, 1]"]
  by (auto simp: upt_rec sim_view_def sim_blank_def)

text \<open>
  C6: \<open>nor_write\<close> programs exactly the given bytes at the given address, however the range lies
  across pages, and leaves every other cell and the configuration alone.
\<close>

theorem nor_write_programs_range:
  assumes "nor_chip E V" "ready V w" "n \<noteq> 0" "unat a + unat n \<le> capacity V" "unat n \<le> length buf"
  shows "\<exists>w'. nor_write E a buf n w = Some (0, w') \<and>
    cell V (bus w') = programmed (cell V (bus w)) (unat a) (take (unat n) buf) \<and>
    same_nor w w' \<and> ready V w'"
  using chip_nor_write [OF assms] by (auto dest: keptD(1))

theorem nor_write_programs_range_witness:
  "\<exists>w'. nor_write sim_env 0xFE [9, 8, 7] 3 (sim_ready\<lparr>bus := sim_quad\<lparr>s_cell := \<lambda>i. 0xFF\<rparr>\<rparr>) = Some (0, w') \<and>
     map (cell sim_view (bus w')) [0xFD, 0xFE, 0xFF, 0x100, 0x101] = [0xFF, 9, 8, 7, 0xFF]"
proof -
  let ?w = "sim_ready\<lparr>bus := sim_quad\<lparr>s_cell := \<lambda>i. 0xFF\<rparr>\<rparr>"
  have "ready sim_view ?w"
    using ready_sim_ready
    by (simp add: ready_def configured_def idle_def sim_view_def sim_blank_def obeys_def quad_enabled_def)
  then obtain w' where "nor_write sim_env 0xFE [9, 8, 7] 3 ?w = Some (0, w')"
    "cell sim_view (bus w') = programmed (cell sim_view (bus ?w)) (unat (0xFE :: u32)) (take (unat (3 :: u32)) [9, 8, 7])"
    using nor_write_programs_range [OF sim_chip, of ?w 3 "0xFE" "[9, 8, 7]"] by auto
  then show ?thesis by (simp add: programmed_def sim_view_def)
qed

text \<open>
  C7: \<open>nor_erase\<close> on a chip that has the sector erase command turns a range of whole sectors, and
  nothing else, into \<open>0xFF\<close>, whichever mix of erase commands it picks (also for the whole chip).
\<close>

theorem nor_erase_erases_range:
  assumes "nor_chip E V" "ready V w" "info_flag (the (nor_info w)) AND SUPPORT_4K_ERASE_BLK \<noteq> 0"
    and "unat a mod 4096 = 0" "unat n mod 4096 = 0" "unat a + unat n \<le> capacity V"
  shows "\<exists>w'. nor_erase E a n w = Some (0, w') \<and>
    cell V (bus w') = erased (cell V (bus w)) (unat a) (unat n) \<and> same_nor w w' \<and> ready V w'"
  using chip_nor_erase [OF assms] by (auto dest: keptD(1))

theorem nor_erase_erases_range_witness:
  "\<exists>w'. nor_erase sim_env 0x7000 0x1A000 sim_ready = Some (0, w') \<and>
     map (cell sim_view (bus w')) [0x6FFF, 0x7000, 0x20FFF, 0x21000] = [0, 0xFF, 0xFF, 0]"
proof -
  obtain w' where "nor_erase sim_env 0x7000 0x1A000 sim_ready = Some (0, w')"
    "cell sim_view (bus w') = erased (cell sim_view (bus sim_ready)) (unat (0x7000 :: u32)) (unat (0x1A000 :: u32))"
    using nor_erase_erases_range [OF sim_chip ready_sim_ready, of "0x7000" "0x1A000"]
    by (auto simp: P25Q64H_def)
  then show ?thesis by (simp add: erased_def sim_view_def sim_blank_def)
qed

section \<open>Initialisation\<close>

text \<open>
  C8: On a board whose chip answers \<open>85 60 17\<close>, \<open>nor_init\<close> from the untouched driver, or from one
  torn down earlier, succeeds, identifies the \<open>P25Q64H\<close>, selects quad read and quad program with the right header
  lengths, and leaves the chip idle, its contents unchanged and its quad enable bit set, whether the
  bit was set before or not. Without that bit the chip obeys no quad command.
\<close>

theorem nor_init_P25Q64H:
  assumes "board E V [0x85, 0x60, 0x17]" "standby V (bus w)" "nor_info w = None"
    and "path (fnext w) None fs" "fs = [] \<or> hd fs = GD"
  shows "\<exists>w'. nor_init E w = Some (0, w') \<and> scanned PUYA P25Q64H w' \<and>
    cmd_read w' = NOR_CMD_QUAD_READ \<and> cmd_write w' = NOR_CMD_QUAD_PROG \<and>
    path (fnext w') None factory_order \<and> cell V (bus w') = cell V (bus w) \<and> idle V w' \<and>
    sr2 V (bus w') AND 2 \<noteq> 0"
  using chip_nor_init [OF assms] by (auto simp: quad_enabled_def)

theorem nor_init_P25Q64H_witness:
  "\<exists>w'. nor_init sim_env (nor_boot sim_blank) = Some (0, w') \<and> total_size w' = SZ_8M \<and>
     s_sr2 (bus w') AND 2 \<noteq> 0"
proof -
  have w: "standby sim_view (bus (nor_boot sim_blank))" "nor_info (nor_boot sim_blank) = None"
    "path (fnext (nor_boot sim_blank)) None []"
    by (simp_all add: nor_boot_def)
  show ?thesis
    using nor_init_P25Q64H [OF sim_board w] by (auto simp: scanned_def P25Q64H_def sim_view_def)
qed

text \<open>
  C22: Whatever controller and chip answer, a successful \<open>nor_init\<close> leaves the driver configured for
  a chip of the tables: its factory, its size, address width 4 exactly above 16 MB, and read and
  program commands of that width with matching header lengths.
\<close>

theorem nor_init_configures_listed_chip:
  assumes "path (fnext w) None fs" "fs = [] \<or> hd fs = GD" "nor_info w = None"
    and "nor_init E w = Some (0, w')"
  shows "\<exists>f i. i \<in> set (idt (factory_of E f)) \<and> scanned f i w' \<and> path (fnext w') None factory_order"
  using nor_init_scanned [OF assms] .

theorem nor_init_configures_listed_chip_witness:
  "\<exists>w' f i. nor_init sim_env (nor_boot sim_blank) = Some (0, w') \<and> i \<in> set (idt (factory_of sim_env f)) \<and>
     scanned f i w'"
proof -
  obtain w' where w': "nor_init sim_env (nor_boot sim_blank) = Some (0, w')"
    using chip_nor_init [OF sim_board, of "nor_boot sim_blank" "[]"]
    by (auto simp: nor_boot_def)
  from nor_init_configures_listed_chip [OF _ _ _ w', of "[]"] w' show ?thesis
    by (auto simp: nor_boot_def)
qed

text \<open>
  C23: \<open>flashInit\<close> succeeds on the board, and the sector size and total size it reports are those of
  the device description \<open>FlashDevices\<close> that the host reads; the flash is unchanged.
\<close>

theorem flashInit_agrees_with_FlashDevices:
  assumes "board E V [0x85, 0x60, 0x17]" "capacity V = 8 * 1024 * 1024" "app_fresh V s"
  shows "\<exists>s'. flashInit E s = Some (0, s') \<and> app_ok E V s' \<and>
    flash_size (spiflash_info s') = TotalSize FlashDevices \<and>
    ucast (csi_sector_size (spiflash_info s')) = PageSize (hd (Devs FlashDevices)) \<and>
    cell V (bus (hal_nor (hal s'))) = cell V (bus (hal_nor (hal s)))"
  using flashInit_ok [OF assms] by blast

theorem flashInit_agrees_with_FlashDevices_witness:
  "\<exists>s'. flashInit sim_env (sim_app (nor_boot sim_blank)) = Some (0, s') \<and>
     flash_size (spiflash_info s') = 0x800000"
  using flashInit_agrees_with_FlashDevices [OF sim_board capacity_sim app_fresh_sim]
  by (auto simp: FlashDevices_def)

text \<open>
  Registering the nine factories, on the empty chain or again on a chain that starts with
  GigaDevice, leaves exactly the chain of the nine in order, without a cycle.
\<close>

theorem factory_register_chain:
  assumes "path (fnext w) None fs" "fs = [] \<or> hd fs = GD"
  shows "\<exists>nx. nor_factory_register w = Some (0, w\<lparr>fnext := nx\<rparr>) \<and> path nx None factory_order"
  using nor_factory_register_links [OF assms] .

theorem factory_register_chain_witness:
  "\<exists>nx ny. nor_factory_register (nor_boot ()) = Some (0, (nor_boot ())\<lparr>fnext := nx\<rparr>) \<and>
     nor_factory_register ((nor_boot ())\<lparr>fnext := nx\<rparr>) = Some (0, (nor_boot ())\<lparr>fnext := ny\<rparr>) \<and>
     path ny None factory_order"
proof -
  obtain nx where nx: "nor_factory_register (nor_boot ()) = Some (0, (nor_boot ())\<lparr>fnext := nx\<rparr>)"
    "path nx None factory_order"
    using factory_register_chain [of "nor_boot ()" "[]"] by (auto simp: nor_boot_def)
  then show ?thesis
    using factory_register_chain [of "(nor_boot ())\<lparr>fnext := nx\<rparr>" factory_order]
    by (auto simp: factory_order_def)
qed

text \<open>
  For every entry of every table, the identifier of that entry selects that factory and that
  entry, although several factories are tried in turn.
\<close>

theorem match_nor_finds_entry:
  assumes "path (fnext w) None factory_order" "i \<in> set (idt (factory_of E f))"
  shows "match_nor E (info_id i) 3 w = Some (0, w\<lparr>nor_fac := Some f, nor_info := Some i\<rparr>)"
  using match_nor_known [OF assms] .

theorem match_nor_finds_entry_witness:
  "\<exists>nx. match_nor sim_env [0x85, 0x60, 0x17] 3 (sim_chained nx) =
     Some (0, (sim_chained nx)\<lparr>nor_fac := Some PUYA, nor_info := Some P25Q64H\<rparr>)"
proof -
  obtain nx where "path (fnext (sim_chained nx)) None factory_order" by (rule sim_chain)
  from match_nor_finds_entry [OF this P25Q64H_listed] show ?thesis by (auto simp: P25Q64H_def)
qed

text \<open>
  A chip of a known factory whose identifier is not in that factory's table makes \<open>match_nor\<close>
  read past the end of the table (\<open>idt_cnt\<close> is the size of the table in bytes), so that the call
  has no defined result.
\<close>

theorem match_nor_unlisted_chip_out_of_bounds:
  assumes "path (fnext w) None factory_order" "ident ! 0 = factory_id (factory_of E f)"
    and "\<forall>i \<in> set (idt (factory_of E f)). info_id i \<noteq> take 3 ident"
  shows "match_nor E ident 3 w = None"
  using match_nor_unknown_chip [OF assms] .

theorem match_nor_unlisted_chip_out_of_bounds_witness:
  "\<exists>nx. match_nor sim_env [0x85, 0, 0] 3 (sim_chained nx) = None"
proof -
  obtain nx where "path (fnext (sim_chained nx)) None factory_order" by (rule sim_chain)
  from match_nor_unlisted_chip_out_of_bounds [OF this, of "[0x85, 0, 0]" sim_env PUYA] show ?thesis
    by (auto simp: nor_puya_def idt_puya_def)
qed

section \<open>Waiting, cutting and returning\<close>

text \<open>
  C24: \<open>nor_wait_ready\<close> with non-zero counts is: up to \<open>ms\<close> polls of the status register with a
  millisecond after each busy one, then up to \<open>n + 1\<close> without; 0 as soon as a poll finds the chip
  ready, \<open>-EBUSY\<close> when none does.
\<close>

theorem nor_wait_ready_polls:
  assumes "ms \<noteq> 0" "n \<noteq> 0"
  shows "nor_wait_ready E ms n w = do {
     (ok, w) \<leftarrow> poll E True (unat ms) w;
     (ok, w) \<leftarrow> (if ok then Some (True, w) else poll E False (unat n + 1) w);
     Some (if ok then 0 else - EBUSY, w)
   }"
proof -
  have "(if ok then Some (0, v) else do { (ok, w) \<leftarrow> poll E False (unat n + 1) v;
      Some (if ok then 0 else - EBUSY, w) }) =
    do { (ok, w) \<leftarrow> (if ok then Some (True, v) else poll E False (unat n + 1) v);
         Some (if ok then 0 else - EBUSY, w) }" for ok v
    by simp
  then show ?thesis
    by (simp only: nor_wait_ready_def wait_ms_loop_poll [OF assms(1)] wait_times_tail [OF assms(2)])
qed

theorem nor_wait_ready_polls_witness:
  "nor_wait_ready sim_env 2 1 (sim_ready\<lparr>bus := sim_quad\<lparr>s_busy := 4\<rparr>\<rparr>) =
     Some (- EBUSY, sim_ready\<lparr>bus := sim_quad\<rparr>)"
proof -
  have u: "unat (2 :: u32) = Suc (Suc 0)" "unat (1 :: u32) + 1 = Suc (Suc 0)" by simp_all
  show ?thesis
    by (subst nor_wait_ready_polls; (unfold u)?) (simp_all add: sim_is_busy sim_blank_def)
qed

text \<open>
  With \<open>ms = 0\<close>, as every command passes it, the first loop does not stop after one poll: its
  counter wraps around, and a chip that stays busy is polled \<open>2 ^ 32\<close> times, with a millisecond of
  sleep after all but the first of them.
\<close>

theorem nor_wait_ready_zero_wraps:
  assumes "n \<noteq> 0"
  shows "nor_wait_ready E 0 n w = do {
     (busy, w) \<leftarrow> nor_is_busy E w;
     if busy = 0 then Some (0, w)
     else do {
       (ok, w) \<leftarrow> poll E True (2 ^ 32 - 1) w;
       (ok, w) \<leftarrow> (if ok then Some (True, w) else poll E False (unat n + 1) w);
       Some (if ok then 0 else - EBUSY, w)
     }
   }"
proof (cases "nor_is_busy E w")
  case (Some r)
  have "(if ok then Some (0, v) else do { (ok, w) \<leftarrow> poll E False (unat n + 1) v;
      Some (if ok then 0 else - EBUSY, w) }) =
    do { (ok, w) \<leftarrow> (if ok then Some (True, v) else poll E False (unat n + 1) v);
         Some (if ok then 0 else - EBUSY, w) }" for ok v
    by simp
  with Some show ?thesis
    by (cases r; cases "fst r = 0")
      (simp_all only: nor_wait_ready_def wait_ms_loop_0 wait_times_tail [OF assms] fst_conv
        Option.bind.simps prod.case if_True if_False simp_thms)
qed (simp add: nor_wait_ready_def wait_ms_loop_0)

theorem nor_wait_ready_zero_wraps_witness:
  "nor_wait_ready sim_env 0 500 sim_ready = Some (0, sim_ready)"
  by (subst nor_wait_ready_zero_wraps) (simp_all add: sim_is_busy sim_ready_def nor_boot_def sim_blank_def)

text \<open>
  \<open>nor_write\<close> and \<open>nor_read\<close> cut an access into chunks of which each lies in one 256-byte page;
  the chunks follow each other in the flash and in the buffer and together are the whole range. (This
  holds for every controller and chip.)
\<close>

theorem access_cut_into_pages:
  assumes "unat a + unat len < 2 ^ 32"
  shows "nor_write_loop E ret a buf 0 len w = write_chunks E buf (chunks a 0 len) ret w \<and>
    nor_read_loop E ret a buf 0 len w = read_chunks E (chunks a 0 len) ret buf w \<and>
    tiles (unat a) 0 (chunks a 0 len) (unat len)"
  using chunks_tile [OF assms] by (simp add: nor_write_loop_chunks nor_read_loop_chunks)

theorem access_cut_into_pages_witness:
  "tiles 0xFE 0 (chunks 0xFE 0 0x103) 0x103"
  using access_cut_into_pages [of "0xFE" "0x103" sim_env 0 "[]" sim_ready] by simp

text \<open>
  The erase loop erases the blocks of \<open>erase_plan\<close> in order; for a chip with sector erase and
  a range of whole sectors the plan covers the range exactly, by blocks of 4K, 32K or 64K, each
  aligned to its size.
\<close>

theorem erase_cut_into_blocks:
  assumes "flag AND SUPPORT_4K_ERASE_BLK \<noteq> 0" "unat a mod 4096 = 0" "unat sz mod 4096 = 0"
    and "unat a + unat sz < 2 ^ 32"
  shows "nor_erase_loop E flag a sz w = erase_blocks E (fst (erase_plan flag a sz)) w \<and>
    erase_tiles (unat a) (fst (erase_plan flag a sz)) (unat sz)"
proof -
  have "(do { (ret, w) \<leftarrow> m; if ret \<noteq> 0 then Some (ret, w) else Some (0, w) }) = m"
    for m :: "(int \<times> 'a nor) option"
    by (cases m) auto
  then show ?thesis using erase_plan_complete [OF assms] by (simp add: nor_erase_loop_plan)
qed

theorem erase_cut_into_blocks_witness:
  "erase_tiles 0x7000 (fst (erase_plan SUPPORT_GENERAL 0x7000 0x1A000)) 0x1A000"
  using erase_cut_into_blocks [of SUPPORT_GENERAL "0x7000" "0x1A000" sim_env sim_ready] by simp

text \<open>
  C25: With a controller that answers every transfer, in whatever way, every read and write whose
  buffer is long enough and every erase returns: no wait and no loop runs forever and no access
  leaves a buffer.
\<close>

theorem every_call_returns:
  assumes "xfer_returns E" "unat len \<le> length buf"
  shows "(\<exists>r. nor_read E a buf len w = Some r) \<and> (\<exists>r. nor_write E a buf len w = Some r) \<and>
    (\<exists>r. nor_erase E a len w = Some r)"
  using nor_read_returns [OF assms] nor_write_returns [OF assms] nor_erase_returns [OF assms(1)] by blast

text \<open>A controller that always reports an error.\<close>

theorem every_call_returns_witness:
  "\<exists>r. nor_write dead_env 0 [1, 2] 2 sim_ready = Some r"
  using every_call_returns [OF dead_returns, of 2 "[1, 2]"] by simp

text \<open>
  Whatever the controller answers, a read, write or erase changes nothing in the driver's
  state but the bus: the configuration survives every error.
\<close>

theorem accesses_keep_configuration:
  "(nor_read E a buf n w = Some (r, buf', w') \<longrightarrow> same_nor w w') \<and>
   (nor_write E a buf n w = Some (r, w') \<longrightarrow> same_nor w w') \<and>
   (nor_erase E a n w = Some (r, w') \<longrightarrow> same_nor w w')"
  using frames_nor_read [of w w E a buf n] frames_nor_write [of w w E a buf n]
    frames_nor_erase [of w w E a n]
  by (auto simp: frames2_def frames3_def)

theorem accesses_keep_configuration_witness:
  "\<exists>r w'. nor_write dead_env 0 [1, 2] 2 sim_ready = Some (r, w') \<and> same_nor sim_ready w'"
proof -
  obtain r w' where "nor_write dead_env 0 [1, 2] 2 sim_ready = Some (r, w')"
    using nor_write_returns [OF dead_returns, of 2 "[1, 2]" 0 sim_ready] by auto
  with accesses_keep_configuration [of dead_env 0 "[1, 2]" 2 sim_ready r _ w'] show ?thesis by blast
qed

text \<open>
  Whatever the controller answers, a read keeps the length of the caller's buffer and every
  byte after the first \<open>n\<close>.
\<close>

theorem nor_read_stays_in_buffer:
  assumes "nor_read E a buf n w = Some (r, buf', w')"
  shows "length buf' = length buf \<and> drop (unat n) buf' = drop (unat n) buf"
  using nor_read_buffer [OF assms] .

theorem nor_read_stays_in_buffer_witness:
  "\<exists>r buf' w'. nor_read dead_env 0 [1, 2, 3] 2 sim_ready = Some (r, buf', w') \<and> drop 2 buf' = [3]"
proof -
  obtain r buf' w' where "nor_read dead_env 0 [1, 2, 3] 2 sim_ready = Some (r, buf', w')"
    using nor_read_returns [OF dead_returns, of 2 "[1, 2, 3]" 0 sim_ready] by auto
  from nor_read_stays_in_buffer [OF this] this show ?thesis by auto
qed

section \<open>The flash algorithm\<close>

text \<open>
  C27: \<open>flashProgram\<close> leaves the flash as programming all of the bytes would, although it skips
  the write when they are all \<open>0xff\<close>.
\<close>

theorem flashProgram_skip_sound:
  assumes "app_ok E V s" "unat n < 2 ^ 31" "unat (a :: u32) + unat n \<le> unat (total_size (hal_nor (hal s)))"
    and "unat n \<le> length buf"
  shows "\<exists>h. flashProgram E a buf n s = Some (0, s\<lparr>hal := h\<rparr>) \<and> app_ok E V (s\<lparr>hal := h\<rparr>) \<and>
    cell V (bus (hal_nor h)) = programmed (cell V (bus (hal_nor (hal s)))) (unat a) (take (unat n) buf)"
  using flashProgram_ok [OF assms] by auto

theorem flashProgram_skip_sound_witness:
  "\<exists>h. flashProgram sim_env 0 [0xff, 0xff] 2 (sim_app sim_ready) = Some (0, (sim_app sim_ready)\<lparr>hal := h\<rparr>) \<and>
     cell sim_view (bus (hal_nor h)) 1 = 0"
proof -
  obtain h where "flashProgram sim_env 0 [0xff, 0xff] 2 (sim_app sim_ready) = Some (0, (sim_app sim_ready)\<lparr>hal := h\<rparr>)"
    "cell sim_view (bus (hal_nor h)) = programmed (cell sim_view (bus (hal_nor (hal (sim_app sim_ready)))))
       (unat (0 :: u32)) (take (unat (2 :: u32)) [0xff, 0xff])"
    using flashProgram_skip_sound [OF app_ok_sim_app, of 2 0 "[0xff, 0xff]"] by (auto simp: sim_app_def)
  then show ?thesis by (simp add: sim_app_def programmed_def sim_view_def sim_blank_def)
qed

text \<open>
  C28: \<open>flashChecksum\<close> of a range whose byte sum fits an \<open>int\<close> is 0 exactly when the sum of the
  bytes of the range is the expected value, however the range is cut into buffers; the flash is unchanged.
\<close>

theorem flashChecksum_decides_sum:
  assumes "app_ok E V s" "unat a + unat n \<le> unat (total_size (hal_nor (hal s)))" "unat n < 2 ^ 31"
    and "byte_sum (cell V (bus (hal_nor (hal s)))) (unat a) (unat n) \<le> 2 ^ 31 - 1"
  shows "\<exists>s'. flashChecksum E a n c s =
      Some (if byte_sum (cell V (bus (hal_nor (hal s)))) (unat a) (unat n) = sint c then 0 else - 207, s') \<and>
    app_ok E V s' \<and> cell V (bus (hal_nor (hal s'))) = cell V (bus (hal_nor (hal s)))"
  using flashChecksum_ok [OF assms, of c] by auto

theorem flashChecksum_decides_sum_witness:
  "\<exists>s'. flashChecksum sim_env 0 2000 1 (sim_app sim_ready) = Some (- 207, s')"
proof -
  have z: "byte_sum (\<lambda>i. 0) a n = 0" for a n by (simp add: byte_sum_def)
  show ?thesis
    using flashChecksum_decides_sum [OF app_ok_sim_app, of 0 2000 1]
    by (auto simp: sim_app_def z sim_view_def sim_blank_def)
qed

text \<open>
  A negative length makes \<open>flashChecksum\<close> loop forever, on every board: neither branch of the
  loop changes \<open>len\<close>.
\<close>

theorem flashChecksum_negative_diverges:
  assumes "sint n < 0"
  shows "flashChecksum E a n c s = None"
  by (simp add: flashChecksum_def checksum_loop_negative [OF assms])

theorem flashChecksum_negative_diverges_witness:
  "flashChecksum sim_env 0 0xFFFFFFFC 0 (sim_app sim_ready) = None"
  by (rule flashChecksum_negative_diverges) code_simp

text \<open>
  Before \<open>flashInit\<close> has succeeded every operation that touches the flash fails with its own
  error code and leaves the flash alone.
\<close>

theorem operations_before_init_fail:
  assumes "nor_info (hal_nor (hal s)) = None"
  shows "flashRead E buf a n s = Some (- 203, buf, s) \<and> flashErase E a n s = Some (- 204, s) \<and>
    flashChipErase E s = Some (- 205, s) \<and>
    (has_data buf (nat (sint n)) = Some True \<longrightarrow> flashProgram E a buf n s = Some (- 202, s))"
  using assms
  by (auto simp: flashRead_def flash_read_def csi_spiflash_read_def hal_spinor_read_data_def
      flashErase_def flash_erase_def csi_spiflash_erase_def hal_spinor_get_info_def
      flashChipErase_def hal_spinor_erase_chip_def on_nor_def flashProgram_def flash_write_def
      csi_spiflash_program_def hal_spinor_program_data_def nor_read_def nor_write_def nor_erase_def
      nor_lock_simps)

theorem operations_before_init_fail_witness:
  "flashProgram sim_env 0 [1] 1 (sim_app (nor_boot sim_blank)) =
     Some (- 202, sim_app (nor_boot sim_blank))"
  using operations_before_init_fail [of "sim_app (nor_boot sim_blank)" sim_env "[1]" 0 1]
  by (simp add: sim_app_def nor_boot_def)

section \<open>Block protection\<close>

text \<open>
  C35: \<open>nor_wr_lock\<close> and \<open>nor_wr_unlock\<close>, with any factory's operation, on a range of whole
  protection units, call the operation once for each unit of \<open>lock_plan\<close> in order and stop at the
  first error; the units are aligned to their size, follow each other and cover the range: 4K in the
  first and the last 64K of the chip, 64K in between.
\<close>

theorem nor_wr_lock_visits_units:
  assumes "nor_fac w = Some f" "whole_units (unat (total_size w)) (unat a) (unat len)"
  shows "unit_tiles (unat (total_size w)) (unat a) (lock_plan (total_size w) a len) (unat len) \<and>
    (\<forall>op. f_lock (factory_of E f) = Some op \<longrightarrow>
       nor_wr_lock E a len w = run_units op (lock_plan (total_size w) a len) 0 w) \<and>
    (\<forall>op. f_unlock (factory_of E f) = Some op \<longrightarrow>
       nor_wr_unlock E a len w = run_units op (lock_plan (total_size w) a len) 0 w)"
  using lock_plan_tiles [OF assms(2)] nor_wr_lock_units [OF assms(1) _ assms(2)]
    nor_wr_unlock_units [OF assms(1) _ assms(2)] by blast

theorem nor_wr_lock_visits_units_witness:
  "nor_wr_lock sim_env 0xF000 0x11000 (sim_ready\<lparr>nor_fac := Some WINBOND\<rparr>) =
     run_units (nor_winbond_lock sim_env) (lock_plan SZ_8M 0xF000 0x11000) 0
       (sim_ready\<lparr>nor_fac := Some WINBOND\<rparr>) \<and>
   unit_tiles 0x800000 0xF000 (lock_plan SZ_8M 0xF000 0x11000) 0x11000"
  using nor_wr_lock_visits_units [of "sim_ready\<lparr>nor_fac := Some WINBOND\<rparr>" WINBOND
      "0xF000" "0x11000" sim_env]
  by (simp add: nor_winbond_def whole_units_def)

text \<open>
  A range that ends inside a 64K block is not covered: locking \<open>0x20000 .. 0x37FFF\<close> of a 16 MB
  chip locks the block at \<open>0x20000\<close> twice and never the one at \<open>0x30000\<close>.
\<close>

theorem nor_wr_lock_misses_partial_block:
  assumes "nor_fac w = Some f" "f_lock (factory_of E f) = Some op" "total_size w = SZ_16M"
  shows "nor_wr_lock E 0x20000 0x18000 w = run_units op [(0x20000, 0x10000), (0x20000, 0x10000)] 0 w"
  using nor_wr_lock_partial_block [OF assms] .

theorem nor_wr_lock_misses_partial_block_witness:
  "nor_wr_lock sim_env 0x20000 0x18000 (sim_ready\<lparr>nor_fac := Some FM, total_size := SZ_16M\<rparr>) =
     run_units (nor_fm_lock sim_env) [(0x20000, 0x10000), (0x20000, 0x10000)] 0
       (sim_ready\<lparr>nor_fac := Some FM, total_size := SZ_16M\<rparr>)"
  using nor_wr_lock_misses_partial_block [of "sim_ready\<lparr>nor_fac := Some FM, total_size := SZ_16M\<rparr>" FM
      sim_env "nor_fm_lock sim_env"]
  by (simp add: nor_fm_def)

section \<open>Errors and boundaries of the driver\<close>



text \<open>
  On a driver that has no chip, reading, writing, erasing and tearing down fail with \<open>-EBUSY\<close>
  and change nothing.
\<close>

theorem no_chip_is_busy:
  assumes "nor_info w = None"
  shows "nor_read E a buf n w = Some (- EBUSY, buf, w) \<and> nor_write E a buf n w = Some (- EBUSY, w) \<and>
    nor_erase E a n w = Some (- EBUSY, w) \<and> nor_erase_all E w = Some (- EBUSY, w) \<and>
    nor_deinit E w = Some (- EBUSY, w)"
  using assms
  by (simp add: nor_read_def nor_write_def nor_erase_def nor_erase_all_def nor_deinit_def nor_lock_simps)

theorem no_chip_is_busy_witness:
  "nor_read sim_env 0 [1] 1 (nor_boot sim_blank) = Some (- EBUSY, [1], nor_boot sim_blank)"
  using no_chip_is_busy [of "nor_boot sim_blank" sim_env 0 "[1]" 1] by (simp add: nor_boot_def)

text \<open>
  Reading or writing no bytes on a working chip reports \<open>-EBUSY\<close>, the initial value of
  \<open>ret\<close>, although nothing went wrong; the flash is unchanged.
\<close>

theorem empty_access_reports_busy:
  assumes "nor_chip E V" "ready V w"
  shows "\<exists>w'. nor_read E a buf 0 w = Some (- EBUSY, buf, w') \<and> nor_write E a buf 0 w = Some (- EBUSY, w') \<and>
    cell V (bus w') = cell V (bus w)"
proof -
  obtain v where v: "nor_wait_ready E 0 500 w = Some (0, v)" "same_flash V w v"
    using chip_nor_wait_ready [OF assms(1), of w 500] assms(2)
    by (auto simp: ready_def intro: idle_settles)
  then show ?thesis
    using assms(2)
    by (auto simp: nor_read_def nor_write_def nor_lock_simps nor_read_loop.simps nor_write_loop.simps
        ready_def configured_def same_flash_def)
qed

theorem empty_access_reports_busy_witness:
  "\<exists>w'. nor_write sim_env 0 [] 0 sim_ready = Some (- EBUSY, w')"
  using empty_access_reports_busy [OF sim_chip ready_sim_ready, of 0 "[]"] by auto

text \<open>
  Leaving 4-byte address mode sends the same command as entering it: \<open>nor_set_4byte\<close> ignores
  its argument for every chip of the tables.
\<close>

theorem nor_set_4byte_ignores_enable:
  "nor_set_4byte E False w = nor_set_4byte E True w"
  by (simp only: nor_set_4byte_cmd)

text \<open>
  \<open>nor_write_status\<close> of five bytes passes the length check and writes past the end of its
  five-byte transfer buffer, whose first byte holds the command.
\<close>

theorem nor_write_status_overflow:
  assumes "nor_chip E V" "idle V w" "5 \<le> length sr"
  shows "nor_write_status E sr 5 w = None"
proof -
  obtain u where "nor_write_enable E w = Some (0, u)"
    using chip_nor_write_enable [OF assms(1,2)] by blast
  with assms(3) show ?thesis by (simp add: nor_write_status_def read_at_def write_at_def)
qed

theorem nor_write_status_overflow_witness:
  "nor_write_status sim_env [0, 0, 0, 0, 0] 5 sim_ready = None"
  using ready_sim_ready by (intro nor_write_status_overflow [OF sim_chip]) (simp_all add: ready_def)

text \<open>
  The address bytes on the wire, read back as a big-endian number, are the address: always
  with four bytes, and with three for every address below 16 MB.
\<close>

theorem address_bytes_roundtrip:
  assumes "addr_width w = 4 \<or> unat a < 2 ^ 24"
  shows "be_val (addr_bytes w a) = unat a"
  using assms by (auto simp: addr_bytes_def be_val_addr3 be_val_addr4)

theorem address_bytes_roundtrip_witness:
  "be_val (addr_bytes sim_ready 0x123456) = 0x123456"
  by (subst address_bytes_roundtrip) simp_all

section \<open>The write-back cache\<close>

text \<open>
  C37: Flushing the cache succeeds and empties it. The chip then holds, byte for byte, what the
  client was reading through the cache (\<open>seen\<close>) combined by a bitwise and with the chip after the
  pending erases (\<open>under\<close>), because programming only clears bits. So every byte whose set bits are
  still set there arrives as the client saw it, and when that holds of the whole buffer
  (\<open>programmable\<close>) the client sees the same memory before and after the flush.
\<close>

theorem cache_flush_writes_back:
  assumes "cache_inv E V s"
  shows "\<exists>s'. nor_flush_cache E s = Some (0, s') \<and> cache_inv E V s' \<and> cache_clean s' \<and>
    (\<forall>i. cell V (bus (c_nor s')) i = under V s i AND seen V s i) \<and>
    (programmable V s \<longrightarrow> cell V (bus (c_nor s')) = seen V s \<and> seen V s' = seen V s)"
proof -
  obtain s' where s': "nor_flush_cache E s = Some (0, s')" "cache_inv E V s'" "cache_clean s'"
    "cached_mem V s' = cached_mem V s"
    using flush_inv [OF assms] by blast
  then have c: "cell V (bus (c_nor s')) = cached_mem V s" by (simp add: cached_mem_def cache_clean_def)
  have "programmable V s \<longrightarrow> cell V (bus (c_nor s')) = seen V s \<and> seen V s' = seen V s"
    using programmable_cached [of V s] clean_seen(2) [OF s'(3), of V] c by simp
  with s'(1-3) c show ?thesis by (intro exI [of _ s']) (simp add: cached_seen)
qed

theorem cache_flush_writes_back_witness:
  "\<exists>s'. nor_flush_cache sim_env sim_cached = Some (0, s') \<and>
     s_cell (bus (c_nor s')) 0x13000 = 7 \<and> s_cell (bus (c_nor s')) 0x13FFF = 7 \<and>
     s_cell (bus (c_nor s')) 0x14000 = 0"
proof -
  obtain s' where s': "nor_flush_cache sim_env sim_cached = Some (0, s')"
    "cell sim_view (bus (c_nor s')) = seen sim_view sim_cached"
    using cache_flush_writes_back [OF sim_cached_ok(1)] sim_cached_ok(2) by blast
  have "s_cell (bus (c_nor s')) = seen sim_view sim_cached" using s'(2) by (simp add: sim_view_def)
  with s'(1) sim_cached_ok(3) show ?thesis by (simp add: stored_def erased_def)
qed

text \<open>
  C38: A write of whole pages inside one 64K window, into a cache whose contents can be programmed,
  stores the data into the memory the client sees: every later read of pages inside one erase block
  returns, through the buffer or from the chip, the data where it was written and what was there
  before elsewhere. If the data only clears bits of what the client saw, as flash requires, the
  cache stays programmable, so that a flush carries it to the chip unchanged.
\<close>

theorem cache_write_programs_view:
  assumes "cache_inv E V s" "unat a mod 256 = 0" "unat n mod 256 = 0" "\<not> over_cache a n" "n \<noteq> 0"
    and "unat a + unat n \<le> unat (total_size (c_nor s))" "unat n \<le> length buf" "programmable V s"
  shows "\<exists>s'. nor_cache_write E a buf n s = Some (0, s') \<and> cache_inv E V s' \<and>
    seen V s' = stored (seen V s) (unat a) (take (unat n) buf) \<and>
    (only_clears (seen V s) (unat a) (take (unat n) buf) \<longrightarrow> programmable V s') \<and>
    (\<forall>b k out. unat b mod 256 = 0 \<and> unat k mod 256 = 0 \<and> k \<noteq> 0 \<and> unat b mod 4096 + unat k \<le> 4096 \<and>
       unat b + unat k \<le> unat (total_size (c_nor s)) \<and> unat k \<le> length out \<longrightarrow>
       (\<exists>s''. nor_cache_read E b out k s' = Some (0, map (stored (seen V s) (unat a) (take (unat n) buf))
          [unat b ..< unat b + unat k] @ drop (unat k) out, s'')))"
proof -
  obtain s' where s': "nor_cache_write E a buf n s = Some (0, s')" "cache_inv E V s'" "same_nor (c_nor s) (c_nor s')"
    "seen V s' = stored (seen V s) (unat a) (take (unat n) buf)"
    "only_clears (seen V s) (unat a) (take (unat n) buf) \<longrightarrow> programmable V s'"
    using cache_write_ok [OF assms(1-7)] assms(8) by blast
  have "\<exists>s''. nor_cache_read E b out k s' = Some (0, map (stored (seen V s) (unat a) (take (unat n) buf))
      [unat b ..< unat b + unat k] @ drop (unat k) out, s'')"
    if r: "unat b mod 256 = 0 \<and> unat k mod 256 = 0 \<and> k \<noteq> 0 \<and> unat b mod 4096 + unat k \<le> 4096 \<and>
      unat b + unat k \<le> unat (total_size (c_nor s)) \<and> unat k \<le> length out" for b k out
  proof -
    have "unat b + unat k \<le> unat (total_size (c_nor s'))" using r by (simp add: same_norD [OF s'(3)])
    with r cache_read_ok [OF s'(2), of b k out] s'(4) show ?thesis by auto
  qed
  with s' show ?thesis by blast
qed

theorem cache_write_programs_view_witness:
  "\<exists>s'. nor_cache_write sim_env 0x13000 (replicate 4096 7) 0x1000 sim_cache = Some (0, s') \<and>
     (\<exists>s''. nor_cache_read sim_env 0x13000 (replicate 256 0) 256 s' = Some (0, replicate 256 7, s''))"
proof -
  obtain s' where s': "nor_cache_write sim_env 0x13000 (replicate 4096 7) 0x1000 sim_cache = Some (0, s')"
    "\<forall>b k out. unat b mod 256 = 0 \<and> unat k mod 256 = 0 \<and> k \<noteq> 0 \<and> unat b mod 4096 + unat k \<le> 4096 \<and>
       unat b + unat k \<le> unat (total_size (c_nor sim_cache)) \<and> unat k \<le> length out \<longrightarrow>
       (\<exists>s''. nor_cache_read sim_env b out k s' = Some (0, map (stored (seen sim_view sim_cache) (unat (0x13000 :: u32))
          (take (unat (0x1000 :: u32)) (replicate 4096 7))) [unat b ..< unat b + unat k] @ drop (unat k) out, s''))"
    using cache_write_programs_view [OF cache_inv_sim, of "0x13000" "0x1000" "replicate 4096 7"]
      not_over_sim programmable_sim by (auto simp: sim_cache_def)
  have r: "map (stored m a (replicate k c)) [a ..< a + l] = replicate l c" if "l \<le> k" for m a k l and c :: u8
    using that by (intro nth_equalityI) (simp_all add: stored_def)
  have "\<exists>s''. nor_cache_read sim_env 0x13000 (replicate 256 0) 256 s' = Some (0, map (stored (seen sim_view sim_cache)
      (unat (0x13000 :: u32)) (take (unat (0x1000 :: u32)) (replicate 4096 7))) [unat (0x13000 :: u32) ..<
      unat (0x13000 :: u32) + unat (256 :: u32)] @ drop (unat (256 :: u32)) (replicate 256 0), s'')"
    by (rule s'(2) [rule_format]) (simp add: sim_cache_def)
  then have "\<exists>s''. nor_cache_read sim_env 0x13000 (replicate 256 0) 256 s' = Some (0, replicate 256 7, s'')"
    using r [of 256 4096 "seen sim_view sim_cache" "0x13000" 7] by simp
  with s'(1) show ?thesis by blast
qed

text \<open>
  C39: What was written into the cache is read back from it, byte for byte, without a transfer.
\<close>

theorem cache_write_then_read:
  assumes "cache_inv E V s" "unat a mod 256 = 0" "unat n mod 256 = 0" "\<not> over_cache a n" "n \<noteq> 0"
    and "unat a + unat n \<le> unat (total_size (c_nor s))" "unat n \<le> length buf" "unat n \<le> length out"
  shows "\<exists>s'. nor_cache_write E a buf n s = Some (0, s') \<and>
    nor_cache_read E a out n s' = Some (0, take (unat n) buf @ drop (unat n) out, s')"
proof -
  obtain s' where s': "nor_cache_write E a buf n s = Some (0, s')" "cache_inv E V s'"
    "c_addr s' \<noteq> 0xFFFFFFFF" "cache_holds a n (take (unat n) buf) s'"
    using cache_write_ok [OF assms(1-7)] by blast
  have "unat a + unat n < 2 ^ 32"
    using assms(6) unsigned_less [of "total_size (c_nor s)", where ?'a = nat] by simp
  from read_hit [OF s'(2,4) assms(2-5) this s'(3) assms(8)] s'(1) show ?thesis by blast
qed

theorem cache_write_then_read_witness:
  "\<exists>s'. nor_cache_write sim_env 0x13000 (replicate 4096 7) 0x1000 sim_cache = Some (0, s') \<and>
     nor_cache_read sim_env 0x13000 (replicate 4096 0) 0x1000 s' = Some (0, replicate 4096 7, s')"
  using cache_write_then_read [OF cache_inv_sim, of "0x13000" "0x1000" "replicate 4096 7" "replicate 4096 0"]
    not_over_sim
  by (simp add: sim_cache_def)

text \<open>
  An erase of whole sectors inside one window whose pages are not in the buffer, of a cache whose
  contents can be programmed, succeeds, keeps that, and turns the range, as the client sees it, into
  \<open>0xFF\<close>.
\<close>

theorem cache_erase_erases_view:
  assumes "cache_inv E V s" "unat a mod 4096 = 0" "unat n mod 4096 = 0" "\<not> over_cache a n" "n \<noteq> 0"
    and "unat a + unat n \<le> unat (total_size (c_nor s))" "pages_fresh a n s" "programmable V s"
  shows "\<exists>s'. nor_cache_erase E a n s = Some (0, s') \<and> cache_inv E V s' \<and>
    seen V s' = erased (seen V s) (unat a) (unat n) \<and> programmable V s'"
  using cache_erase_ok [OF assms(1-6)] assms(7,8) by blast

theorem cache_erase_erases_view_witness:
  "\<exists>s'. nor_cache_erase sim_env 0x13000 0x1000 sim_cache = Some (0, s') \<and>
     seen sim_view s' 0x13FFF = 0xFF"
  using cache_erase_erases_view [OF cache_inv_sim, of "0x13000" "0x1000"] not_over_sim fresh_sim
    programmable_sim
  by (auto simp: sim_cache_def erased_def)

text \<open>
  C40: Written pages survive an erase: write, erase the same sectors, read, and the old data comes
  back, because the erase does not clear the page bits.
\<close>

theorem cache_erase_keeps_written_data:
  assumes "cache_inv E V s" "unat a mod 4096 = 0" "unat n mod 4096 = 0" "\<not> over_cache a n" "n \<noteq> 0"
    and "unat a + unat n \<le> unat (total_size (c_nor s))" "unat n \<le> length buf" "unat n \<le> length out"
  shows "\<exists>s1 s2. nor_cache_write E a buf n s = Some (0, s1) \<and> nor_cache_erase E a n s1 = Some (0, s2) \<and>
    nor_cache_read E a out n s2 = Some (0, take (unat n) buf @ drop (unat n) out, s2)"
proof -
  have al: "unat a mod 256 = 0" "unat n mod 256 = 0"
    using assms(2,3) mod_mod_cancel [of 256 4096 "unat a"] mod_mod_cancel [of 256 4096 "unat n"]
    by simp_all
  obtain s1 where s1: "nor_cache_write E a buf n s = Some (0, s1)" "cache_inv E V s1"
    "same_nor (c_nor s) (c_nor s1)" "c_addr s1 \<noteq> 0xFFFFFFFF" "cache_holds a n (take (unat n) buf) s1"
    using cache_write_ok [OF assms(1) al assms(4-7)] by blast
  have fit: "unat a + unat n \<le> unat (total_size (c_nor s1))" using assms(6) by (simp add: same_norD [OF s1(3)])
  from erase_keeps_written_page [OF s1(2,5,4) assms(2-5) fit assms(8)] s1(1) show ?thesis by blast
qed

theorem cache_erase_keeps_written_data_witness:
  "\<exists>s1 s2. nor_cache_write sim_env 0x13000 (replicate 4096 7) 0x1000 sim_cache = Some (0, s1) \<and>
     nor_cache_erase sim_env 0x13000 0x1000 s1 = Some (0, s2) \<and>
     nor_cache_read sim_env 0x13000 (replicate 4096 0) 0x1000 s2 = Some (0, replicate 4096 7, s2)"
  using cache_erase_keeps_written_data [OF cache_inv_sim, of "0x13000" "0x1000" "replicate 4096 7"
      "replicate 4096 0"] not_over_sim
  by (simp add: sim_cache_def)

text \<open>
  \<open>nor_cache_init\<close> of a fresh cache, when memory can be had, establishes the invariant with an
  empty cache through which the client sees the chip itself.
\<close>

theorem cache_init_establishes_invariant:
  assumes "c_buf s = None" "cache_lock_init E s = (0, s1)" "\<forall>n. mal n"
    and "core_ok E V (c_nor s1)" "page_size (c_nor s1) = 256" "blk_size (c_nor s1) = 4096"
    and "unat (total_size (c_nor s1)) mod 65536 = 0"
  shows "\<exists>s'. nor_cache_init mal E s = Some (0, s') \<and> cache_inv E V s' \<and> cache_clean s' \<and>
    seen V s' = cell V (bus (c_nor s1)) \<and> programmable V s'"
  using nor_cache_init_ok [OF assms(1,2) _ assms(4-7), of mal] assms(3) by blast

theorem cache_init_establishes_invariant_witness:
  "\<exists>s'. nor_cache_init (\<lambda>n. True) sim_env sim_cache_blank = Some (0, s') \<and> cache_clean s'"
  using cache_init_establishes_invariant [OF _ cache_lock_sim, of "\<lambda>n. True" sim_view]
  by (auto simp: sim_cache_blank_def core_ok_sim_ready)

section \<open>The SPI controller\<close>

text \<open>
  C2: The whole stack: with \<open>hal_spi.c\<close> under the flash driver, and the GPIO, clock and reset drivers
  under \<open>hal_spi.c\<close>, on the registers of a controller that does what its manual says and with a chip
  that does what its data sheet says, every session of well-formed requests that starts with the pins
  set up and the clocks of port 0 not in use runs to its end, has exactly one outcome, and is the
  abstract flash memory's.
\<close>

theorem session_on_spi_refines_flash_memory:
  assumes "spi_board P C D lag soc_of set_soc K creg rs pio_of set_pio G preg w W Wd A"
    and "board (dev_env D Wd) V [0x85, 0x60, 0x17]" "capacity V = 8 * 1024 * 1024"
    and "app_fresh (spi_view C V (\<lambda>h. \<exists>u. system_off soc_of pio_of K creg w 0 u h)) s"
    and "\<forall>rq \<in> set rqs. rq_ok (8 * 1024 * 1024) rq"
  shows "\<exists>v. flash_session (spi_env P W A) s rqs v \<and> (\<forall>u. flash_session (spi_env P W A) s rqs u \<longrightarrow> u = v) \<and>
    view_of (spi_view C V (\<lambda>h. \<exists>u. system_off soc_of pio_of K creg w 0 u h)) v = fold (round_spec (8 * 1024 * 1024)) rqs
      \<lparr>v_mem = cell V (c_dev (C (spi_hw (bus (hal_nor (hal s)))))), v_buffer = g_rwBuffer s, v_error = 0\<rparr>"
proof -
  let ?V = "spi_view C V (\<lambda>h. \<exists>u. system_off soc_of pio_of K creg w 0 u h)"
  have "board (spi_env P W A) ?V [0x85, 0x60, 0x17]" "capacity ?V = 8 * 1024 * 1024"
    using spi_board.stack_board [OF assms(1,2)] assms(3) by (simp_all add: spi_view_def)
  from flash_session_run [OF this assms(4,5)] show ?thesis
    by (auto simp: spi_view_def intro: flash_session_det)
qed

theorem session_on_spi_refines_flash_memory_witness:
  "\<exists>v. flash_session (spi_env sim_spi (\<lambda>t h. put_ctl (rest sim_dev (mc_ctl h)) h) (\<lambda>h. (True, h)))
     (sim_app (nor_boot sim_ports)) sim_requests v \<and> g_error v = 0 \<and> take 4 (g_rwBuffer v) = [0xFF, 1, 2, 3]"
proof -
  let ?V = "spi_view sim_state sim_view sim_stack.unused" and ?s = "sim_app (nor_boot sim_ports)"
  have ok: "\<forall>rq \<in> set sim_requests. rq_ok (8 * 1024 * 1024) rq"
    by (simp add: sim_requests_def rq_ok_def)
  have fresh: "app_fresh ?V ?s"
    using standby_sim_ports by (simp add: app_fresh_def sim_app_def nor_boot_def)
  obtain v where v: "flash_session (spi_env sim_spi (\<lambda>t h. put_ctl (rest sim_dev (mc_ctl h)) h) (\<lambda>h. (True, h))) ?s sim_requests v"
    "view_of ?V v = fold (round_spec (8 * 1024 * 1024)) sim_requests
       \<lparr>v_mem = cell sim_view (c_dev (sim_state (spi_hw (bus (hal_nor (hal ?s)))))),
        v_buffer = g_rwBuffer ?s, v_error = 0\<rparr>"
    using session_on_spi_refines_flash_memory
      [OF sim_stack.spi_board_axioms sim_dev_board capacity_sim fresh ok] by blast
  have "v_error (view_of ?V v) = 0" "take 4 (v_buffer (view_of ?V v)) = [0xFF, 1, 2, 3]"
    unfolding v(2) sim_requests_def
    by (simp_all add: round_spec_def byte_sum_def programmed_def erased_def upt_rec sim_app_def
        overlay_def Let_def)
  with v(1) show ?thesis by (auto simp: view_of_def)
qed

text \<open>
  C9: On a controller at rest, a call of \<open>hal_spi_xfer\<close> with a well-formed descriptor succeeds and is
  one transaction with the device: the device sees the bytes, lanes, dummy and header lengths of the
  descriptor, its answer is in the receive buffer, the controller is at rest again, and the other
  ports are as they were.
\<close>

theorem hal_spi_xfer_transacts:
  assumes "spi_controller P C D lag base irqn" "p < length (g_sunxi_spi G)"
    and "spi_idle C base irqn (port_at p G)" "tr_ok t" "D (tr_wire t) (c_dev (C (spi_hw G))) = (rx, d)"
  shows "\<exists>G'. hal_spi_xfer P p (Some t) G =
      Some ((0, map_option (\<lambda>buf. rx @ drop (length rx) buf) (tr_rx_buf t)), G') \<and>
    spi_idle C base irqn (port_at p G') \<and> c_dev (C (spi_hw G')) = d \<and>
    (\<forall>q. q \<noteq> p \<longrightarrow> g_sunxi_spi G' ! q = g_sunxi_spi G ! q)"
proof -
  obtain s' where "spi_xfer_on P (Some t) (port_at p G) = Some (0, s')" "spi_idle C base irqn s'"
    "c_dev (C (sp_hw s')) = d"
    "sp_transfer s' = Some (t\<lparr>tr_rx_buf := map_option (\<lambda>buf. rx @ drop (length rx) buf) (tr_rx_buf t)\<rparr>)"
    using spi_controller.spi_xfer_on_transacts [OF assms(1,3,4)] assms(5) by force
  with assms(2) show ?thesis
    by (cases "tr_rx_buf t") (auto simp: hal_spi_xfer_def on_port_def rx_after_def)
qed

theorem hal_spi_xfer_transacts_witness:
  "\<exists>G'. hal_spi_xfer sim_spi 0 (Some \<lparr>tr_tx_buf = Some [0x9F], tr_tx_len = 1, tr_tx_single_len = 1,
     tr_rx_buf = Some [1, 2, 3, 4], tr_rx_len = 3, tr_tx_nbits = 1, tr_rx_nbits = 1, tr_dummy_byte = 0\<rparr>) sim_idle =
   Some ((0, Some [0x85, 0x60, 0x17, 4]), G')"
proof -
  let ?t = "\<lparr>tr_tx_buf = Some [0x9F], tr_tx_len = 1, tr_tx_single_len = 1,
     tr_rx_buf = Some [1, 2, 3, 4], tr_rx_len = 3, tr_tx_nbits = 1, tr_rx_nbits = 1, tr_dummy_byte = 0\<rparr> :: hal_spi_tr"
  have "sim_dev (tr_wire ?t) (c_dev (sim_state (spi_hw sim_idle))) =
      ([0x85, 0x60, 0x17], c_dev (sim_state (spi_hw sim_idle)))"
    by (simp add: sim_dev_def sim_xfer_def tr_wire_def tx_bytes_def rx_count_def)
  from hal_spi_xfer_transacts [OF sim_ctl.spi_controller_axioms _ idle_sim_idle _ this] show ?thesis
    by (auto simp: sim_idle_def sim_ports_def tr_ok_def tx_bytes_def rx_count_def)
qed

text \<open>
  C21: \<open>aw_hal_spi_init\<close>, on the GPIO, clock and reset drivers, leaves the controller of the port at
  rest, ready for transfers in SPI mode 0 with chip select 0, in any bit order and at any clock
  frequency that some divider of the port's PLL does not exceed: the module clock runs at the best
  rate not above the frequency, the gates of both clocks are open and counted once, the reset line is
  released, the pins of the ports are configured and no others, and the device is as it was. The pins
  are set up and the clocks of the port not in use before.
\<close>

theorem aw_hal_spi_init_ready:
  assumes "spi_soc P C D lag base irqn soc_of set_soc K creg rs pio_of set_pio G preg"
    and "quiet (C (spi_hw X))" "p < 2" "p < length (g_sunxi_spi X)"
    and "par_reg_base (g_sunxi_spi_params ! p) = base" "par_irq_num (g_sunxi_spi_params ! p) = irqn"
    and "slave_port cfg = 0" "cpol cfg = 0" "cpha cfg = 0"
    and "wired rs p w" "reachable w SPI_MAX_FREQUENCY" "reachable w (config_frequency cfg)"
    and "system_off soc_of pio_of K creg w p u (spi_hw X)"
  shows "\<exists>X' r. aw_hal_spi_init P p (Some cfg) X = Some (0, X') \<and> spi_idle C base irqn (port_at p X') \<and>
    c_dev (C (spi_hw X')) = c_dev (C (spi_hw X)) \<and>
    clocks_on K creg w p u r (so_clks (soc_of (spi_hw X'))) \<and> best_rate w (config_frequency cfg) r \<and>
    (\<forall>f n. n < 352 \<longrightarrow> pin_field preg f n (gp_hw (pio_of (spi_hw X'))) =
      spi_pin_field f n (pin_field preg f n (gp_hw (pio_of (spi_hw X)))))"
proof -
  obtain s' r where s': "spi_init_on P p (Some cfg) (port_at p X) = (0, s')" "spi_idle C base irqn s'"
    "c_dev (C (sp_hw s')) = c_dev (C (spi_hw X))"
    "clocks_on K creg w p u r (so_clks (soc_of (sp_hw s')))" "best_rate w (config_frequency cfg) r"
    "\<forall>f n. n < 352 \<longrightarrow> pin_field preg f n (gp_hw (pio_of (sp_hw s'))) =
      spi_pin_field f n (pin_field preg f n (gp_hw (pio_of (spi_hw X))))"
    using spi_soc.init_idle [OF assms(1) _ assms(3,5-12), of "port_at p X" u] assms(2,13) by auto
  let ?X = "\<lparr>g_sunxi_spi = (g_sunxi_spi X)[p := sunxi_spi.truncate s'], spi_hw = sp_hw s'\<rparr>"
  have "aw_hal_spi_init P p (Some cfg) X = Some (0, ?X)"
    using s'(1) assms(3,4) by (simp add: aw_hal_spi_init_def on_port_def)
  then show ?thesis using s'(2-6) assms(4) by (intro exI [of _ ?X] exI [of _ r]) simp
qed

theorem aw_hal_spi_init_ready_witness:
  "\<exists>X'. aw_hal_spi_init sim_spi 0 (Some \<lparr>clock_frequency = 5000000, slave_port = 0, cpha = 0, cpol = 0,
     bit_order = 1\<rparr>) sim_ports = Some (0, X') \<and>
     spi_idle sim_state (par_reg_base SPI0_PARAMS) (par_irq_num SPI0_PARAMS) (port_at 0 X') \<and>
     gate_open (\<lambda>h. h) spi_gates 75 (ck_hw (so_clks (mc_soc (spi_hw X')))) \<and>
     pin_field sim_cell FUNC 66 (gp_hw (mc_pio (spi_hw X'))) = 2"
proof -
  let ?cfg = "\<lparr>clock_frequency = 5000000, slave_port = 0, cpha = 0, cpol = 0, bit_order = 1\<rparr>"
  have par: "par_reg_base (g_sunxi_spi_params ! 0) = par_reg_base SPI0_PARAMS"
    "par_irq_num (g_sunxi_spi_params ! 0) = par_irq_num SPI0_PARAMS" by (simp_all add: g_sunxi_spi_params_def)
  have cfg: "slave_port ?cfg = 0" "cpol ?cfg = 0" "cpha ?cfg = 0" "reachable d1_wires (config_frequency ?cfg)"
    using d1_reachable_slow by (simp_all add: config_frequency_def)
  have max: "reachable d1_wires SPI_MAX_FREQUENCY" by (rule d1_reachable) simp
  obtain X' r where X': "aw_hal_spi_init sim_spi 0 (Some ?cfg) sim_ports = Some (0, X')"
    "spi_idle sim_state (par_reg_base SPI0_PARAMS) (par_irq_num SPI0_PARAMS) (port_at 0 X')"
    "clocks_on clk_cells (\<lambda>h. h) d1_wires 0 (\<lambda>_. 0) r (so_clks (mc_soc (spi_hw X')))"
    "\<forall>f n. n < 352 \<longrightarrow> pin_field sim_cell f n (gp_hw (mc_pio (spi_hw X'))) =
      spi_pin_field f n (pin_field sim_cell f n (gp_hw (mc_pio (spi_hw sim_ports))))"
    using aw_hal_spi_init_ready [OF sim_soc.spi_soc_axioms sim_ports_sel(2) _ _ par cfg(1-3) d1_wired max cfg(4) sim_ports_off]
    by auto
  have "pin_field sim_cell FUNC 66 (gp_hw (mc_pio (spi_hw X'))) = 2"
    using X'(4) by (simp add: spi_pin_field_def spi_pin_def)
  then show ?thesis using X'(1-3) by (intro exI [of _ X']) (simp add: clocks_on_def d1_wires_def)
qed

text \<open>
  C26: Whatever the hardware does, a call of \<open>hal_spi_xfer\<close> with buffers as long as it says returns,
  with one of two results, the receive buffer as long as before, and the port free for the next call.
\<close>

theorem hal_spi_xfer_returns:
  assumes "p < length (g_sunxi_spi G)" "sp_mode_type (g_sunxi_spi G ! p) = MODE_TYPE_NULL"
    and "tr_bufs t" "tr_wanted t"
  shows "\<exists>r rx G'. hal_spi_xfer P p (Some t) G = Some ((r, rx), G') \<and> r \<in> {SPI_MASTER_OK, SPI_MASTER_ERROR} \<and>
    map_option length rx = map_option length (tr_rx_buf t) \<and>
    sp_mode_type (g_sunxi_spi G' ! p) = MODE_TYPE_NULL"
proof -
  obtain r s' buf where s': "spi_xfer_on P (Some t) (port_at p G) = Some (r, s')" "r \<in> {0, - 6}"
    "sp_mode_type s' = MODE_TYPE_NULL" "sp_transfer s' = Some (t\<lparr>tr_rx_buf := buf\<rparr>)"
    "map_option length buf = map_option length (tr_rx_buf t)"
    using spi_xfer_on_returns [of "port_at p G" t P] assms by auto
  then have "rx_after (Some t) s' = buf" by (auto simp: rx_after_def)
  with s' assms(1) show ?thesis
    by (auto simp: hal_spi_xfer_def on_port_def sunxi_spi.truncate_def)
qed

theorem hal_spi_xfer_returns_witness:
  "\<exists>r rx G'. hal_spi_xfer (dead_plat :: unit spi_plat) 1 (Some \<lparr>tr_tx_buf = None, tr_tx_len = 0,
     tr_tx_single_len = 0, tr_rx_buf = Some [1, 2], tr_rx_len = 2, tr_tx_nbits = 1, tr_rx_nbits = 4,
     tr_dummy_byte = 0\<rparr>) dead_ports = Some ((r, rx), G') \<and> r \<in> {0, - 6}"
  using hal_spi_xfer_returns [of 1 dead_ports "\<lparr>tr_tx_buf = None, tr_tx_len = 0,
     tr_tx_single_len = 0, tr_rx_buf = Some [1, 2], tr_rx_len = 2, tr_tx_nbits = 1, tr_rx_nbits = 4,
     tr_dummy_byte = 0\<rparr>" dead_plat]
  by (simp add: tr_bufs_def tr_wanted_def) blast

text \<open>
  A controller whose interrupt never comes, so that no transfer ever completes, goes unnoticed:
  every call of \<open>hal_spi_xfer\<close> reports success, because \<open>spi_cpu_complete\<close> compares the counter of
  its expired loop, which has wrapped to \<open>0xFFFFFFFF\<close>, with zero.
\<close>

theorem hal_spi_xfer_hides_dead_controller:
  assumes "\<forall>n h. \<not> plat_irq P n h"
    and "p < length (g_sunxi_spi G)" "sp_mode_type (g_sunxi_spi G ! p) = MODE_TYPE_NULL"
    and "tr_bufs t" "tr_wanted t"
  shows "\<exists>rx G'. hal_spi_xfer P p (Some t) G = Some ((SPI_MASTER_OK, rx), G')"
  using spi_xfer_on_returns [of "port_at p G" t P] assms by (auto simp: hal_spi_xfer_def on_port_def)

theorem hal_spi_xfer_hides_dead_controller_witness:
  "\<exists>rx G'. hal_spi_xfer (dead_plat :: unit spi_plat) 0 (Some \<lparr>tr_tx_buf = Some [0x9F], tr_tx_len = 1,
     tr_tx_single_len = 1, tr_rx_buf = Some [0, 0, 0], tr_rx_len = 3, tr_tx_nbits = 1, tr_rx_nbits = 1,
     tr_dummy_byte = 0\<rparr>) dead_ports = Some ((0, rx), G')"
  by (rule hal_spi_xfer_hides_dead_controller)
    (simp_all add: dead_plat_def tr_bufs_def tr_wanted_def)

text \<open>
  C29: The errors of the interface. A null or empty descriptor is refused without touching a register,
  and so is any transfer on a port in use, except that the refusal itself marks the port free: the
  second of two calls on a port in use is not refused. \<open>aw_hal_spi_init\<close> refuses a port that does not
  exist, which \<open>hal_spi_xfer\<close> takes as an index outside the array.
\<close>

theorem hal_spi_xfer_refuses:
  assumes "p < length (g_sunxi_spi G)"
    and "transfer = None \<or> (\<exists>t. transfer = Some t \<and> \<not> tr_wanted t) \<or>
      sp_mode_type (g_sunxi_spi G ! p) \<noteq> MODE_TYPE_NULL"
  shows "(\<exists>rx G'. hal_spi_xfer P p transfer G = Some ((SPI_MASTER_INVALID_PARAMETER, rx), G') \<and>
      spi_hw G' = spi_hw G \<and> sp_mode_type (g_sunxi_spi G' ! p) = MODE_TYPE_NULL) \<and>
    (length (g_sunxi_spi G) = 2 \<and> 2 \<le> q \<longrightarrow>
      hal_spi_xfer P q transfer G = None \<and> aw_hal_spi_init P q cfg G = Some (SPI_MASTER_ERROR, G))"
proof (intro conjI [OF _ impI])
  have "\<exists>s'. spi_xfer_on P transfer (port_at p G) = Some (- 1, s') \<and> sp_hw s' = spi_hw G \<and>
      sp_mode_type s' = MODE_TYPE_NULL"
    using assms(2)
    by (cases transfer) (auto simp: spi_xfer_on_def hal_spi_xfer_body_def tr_wanted_def spi_mode_check_def)
  with assms(1) show "\<exists>rx G'. hal_spi_xfer P p transfer G = Some ((SPI_MASTER_INVALID_PARAMETER, rx), G') \<and>
      spi_hw G' = spi_hw G \<and> sp_mode_type (g_sunxi_spi G' ! p) = MODE_TYPE_NULL"
    by (auto simp: hal_spi_xfer_def on_port_def sunxi_spi.truncate_def)
  show "length (g_sunxi_spi G) = 2 \<and> 2 \<le> q \<Longrightarrow>
      hal_spi_xfer P q transfer G = None \<and> aw_hal_spi_init P q cfg G = Some (SPI_MASTER_ERROR, G)"
    by (simp add: hal_spi_xfer_def on_port_def aw_hal_spi_init_def)
qed

theorem hal_spi_xfer_refuses_witness:
  "(\<exists>rx G'. hal_spi_xfer (dead_plat :: unit spi_plat) 1 None dead_ports = Some ((- 1, rx), G') \<and>
     spi_hw G' = spi_hw dead_ports) \<and> hal_spi_xfer (dead_plat :: unit spi_plat) 2 None dead_ports = None"
  using hal_spi_xfer_refuses [of 1 dead_ports None dead_plat 2 None] by auto

text \<open>
  C30: \<open>spi_set_bc_tc_stc\<close> on an idle controller: the burst counter holds the sum of the lengths sent
  and received and of the dummy bytes, the transmit counter the length sent, and the third register
  the length sent on one lane, each modulo \<open>2 ^ 24\<close>; the rest of the first two registers and every
  other register keep their values. The dummy count is shifted into the third register without a
  mask: bits 24 to 27 hold its low four bits, and bit \<open>24 + i\<close> above them is set when bit \<open>i\<close> of the
  count is set or the register bit was set before, so that exactly the counts with bit 4 (bit 5)
  set switch the transfer to dual (quad) lanes.
\<close>

theorem spi_counters_in_registers:
  fixes C :: "'h \<Rightarrow> 'd ctl"
  assumes "spi_controller P C D lag base irqn" "c_phase (C (sp_hw s)) = Idle" "sp_base s = base"
    and "c = C (sp_hw s)" "c' = C (sp_hw (spi_set_bc_tc_stc P tx rx stc dm s))"
  shows "unat (c_mbc c' AND SPI_CNT_MASK) = (unat tx + unat rx + unat dm) mod 2 ^ 24 \<and>
    c_mbc c' AND NOT SPI_CNT_MASK = c_mbc c AND NOT SPI_CNT_MASK \<and>
    n_tx c' = unat tx mod 2 ^ 24 \<and> c_mtc c' AND NOT SPI_CNT_MASK = c_mtc c AND NOT SPI_CNT_MASK \<and>
    unat (c_bcc c' AND SPI_CNT_MASK) = unat stc mod 2 ^ 24 \<and>
    (\<forall>i \<in> {0..<8}. bit (c_bcc c') (24 + i) = (bit dm i \<or> 4 \<le> i \<and> bit (c_bcc c) (24 + i))) \<and>
    n_lanes c' = (if bit dm 5 \<or> bit (c_bcc c) 29 then 4 else if bit dm 4 \<or> bit (c_bcc c) 28 then 2 else 1) \<and>
    c' = c\<lparr>c_mbc := c_mbc c', c_mtc := c_mtc c', c_bcc := c_bcc c'\<rparr>"
proof -
  have c': "c' = c\<lparr>c_mbc := count_value (tx + rx + dm) (c_mbc c), c_mtc := count_value tx (c_mtc c),
      c_bcc := bcc_value stc dm (c_bcc c)\<rparr>"
    unfolding assms(4,5) by (rule spi_controller.idle_counters [OF assms(1-3)])
  have b: "bit (bcc_value stc dm (c_bcc c)) 28 = (bit dm 4 \<or> bit (c_bcc c) 28)"
    "bit (bcc_value stc dm (c_bcc c)) 29 = (bit dm 5 \<or> bit (c_bcc c) 29)"
    by (simp_all add: bcc_value_high)
  have f: "c_mbc c' = count_value (tx + rx + dm) (c_mbc c)" "c_mtc c' = count_value tx (c_mtc c)"
    "c_bcc c' = bcc_value stc dm (c_bcc c)"
    by (simp_all add: c')
  show ?thesis
  proof (intro conjI ballI)
    show "unat (c_mbc c' AND SPI_CNT_MASK) = (unat tx + unat rx + unat dm) mod 2 ^ 24"
      by (simp only: f count_value_low unat_cnt unat_sum3)
    show "c_mbc c' AND NOT SPI_CNT_MASK = c_mbc c AND NOT SPI_CNT_MASK"
      "c_mtc c' AND NOT SPI_CNT_MASK = c_mtc c AND NOT SPI_CNT_MASK"
      by (simp_all only: f count_value_high)
    show "n_tx c' = unat tx mod 2 ^ 24" "unat (c_bcc c' AND SPI_CNT_MASK) = unat stc mod 2 ^ 24"
      by (simp_all only: f n_tx_def count_value_low bcc_value_low unat_cnt)
    show "bit (c_bcc c') (24 + i) = (bit dm i \<or> 4 \<le> i \<and> bit (c_bcc c) (24 + i))" if "i \<in> {0..<8}" for i
      using that by (simp add: f bcc_value_high)
    show "n_lanes c' = (if bit dm 5 \<or> bit (c_bcc c) 29 then 4 else if bit dm 4 \<or> bit (c_bcc c) 28 then 2 else 1)"
      by (simp only: f n_lanes_bcc bcc_lanes_def b)
    show "c' = c\<lparr>c_mbc := c_mbc c', c_mtc := c_mtc c', c_bcc := c_bcc c'\<rparr>"
      by (subst c') (simp add: f)
  qed
qed

theorem spi_counters_in_registers_witness:
  "let c = sim_state (sp_hw (spi_set_bc_tc_stc sim_spi 5 7 3 16 (port_at 0 sim_idle)))
   in unat (c_mbc c AND SPI_CNT_MASK) = 28 \<and> n_tx c = 5 \<and> unat (c_bcc c AND SPI_CNT_MASK) = 3 \<and> n_lanes c = 2"
proof -
  define h where "h = sp_hw (port_at 0 sim_idle)"
  have s: "c_phase (sim_state h) = Idle" "sp_base (port_at 0 sim_idle) = par_reg_base SPI0_PARAMS"
    "c_bcc (sim_state h) = 0"
    unfolding h_def rest_sim_idle by (simp_all add: sim_idle_def sim_ctl0_def)
  show ?thesis
    using spi_counters_in_registers [OF sim_ctl.spi_controller_axioms s(1) [unfolded h_def] s(2) refl refl, of 5 7 3 16]
    by (simp only: Let_def s(3) [unfolded h_def]) simp
qed

text \<open>
  The last call of \<open>spi_config_tc\<close> decides every bit it writes, so that the bit order of a
  configuration, which \<open>hal_spi_hw_config\<close> writes first and on its own, never reaches the
  controller: the bytes go out most significant bit first whatever was asked.
\<close>

theorem spi_config_tc_overwrites:
  "tc_config n (tc_config m v) = tc_config n v \<and>
   (cpol cfg \<in> {0, 2} \<and> cpha cfg \<in> {0, 1} \<longrightarrow>
      tc_config (cpol cfg OR cpha cfg) (tc_config SPI_LSB_FIRST_ACTIVE v) AND SPI_TC_FBS = 0)"
  using tc_config_msb [OF mode_bits_msb] by (simp only: tc_config_twice simp_thms) blast

theorem spi_config_tc_overwrites_witness:
  "tc_config (2 OR 1) (tc_config SPI_LSB_FIRST_ACTIVE 0x87) AND SPI_TC_FBS = 0"
  using spi_config_tc_overwrites [of 0 0 "0x87"
      "\<lparr>clock_frequency = 0, slave_port = 0, cpha = 1, cpol = 2, bit_order = 1\<rparr>"]
  by (simp only: spi_config.simps) simp
section \<open>The heap\<close>

text \<open>
  For the witnesses: a heap of 16 KB at \<open>0x10000\<close>, its list heads at \<open>0x9000\<close>, before and after
  \<open>mm_heap_initialize\<close>; a client that allocates and frees; a heap with a chunk of 16 bytes.
\<close>

definition demo_heap :: mm_heap where
  "demo_heap = \<lparr>mm_ram = (\<lambda>_. 0), mm_heapsize = 0, mm_heapstart = 0, mm_heapend = 0,
     mm_nodelist = pt 0x9000, g_max_used_size = 0\<rparr>"

lemma demo_region: "region 0x10000 0x14000 0x9000"
  by (simp add: region_def heap_base_def)

lemma demo_ok: "\<exists>h. heap_ok 0x10000 0x9000 [(False, 0x3FF8)] h \<and>
  mm_rep 0x10000 0x9000 0x3FF8 h Map.empty \<and> mm_heap_initialize (pt 0x10000) (pt 0x14000) demo_heap = Some h"
proof -
  have e: "heap_base 0x10000 = 0x10000" "heap_space 0x10000 0x14000 = 0x3FF8"
    by (simp_all add: heap_base_def heap_space_def)
  obtain h where h: "mm_heap_initialize (pt 0x10000) (pt 0x14000) demo_heap = Some h"
    "mm_rep 0x10000 0x9000 0x3FF8 h Map.empty"
    using mm_rep_init [OF demo_region, of demo_heap] by (auto simp: e demo_heap_def)
  then show ?thesis using no_blocks_one_chunk [OF h(2)] by auto
qed





definition small_headers :: "(nat \<times> u8) list" where
  "small_headers =
     [(0x10000, 4), (0x10001, 0), (0x10002, 0), (0x10003, 0x80),
      (0x10004, 32), (0x10005, 0), (0x10006, 4), (0x10007, 0x80),
      (0x10024, 16), (0x10025, 0), (0x10026, 32), (0x10027, 0x80),
      (0x10034, 32), (0x10035, 0), (0x10036, 16), (0x10037, 0x80),
      (0x10054, 4), (0x10055, 0), (0x10056, 32), (0x10057, 0x80)]"

definition small_ram :: mem where
  "small_ram = fold (\<lambda>(a, v) m. m(pt a := v)) small_headers
     (link_heads (pt 0x9000) 1 (19 - 1) (mem_set (pt 0x9000) 0 (24 * of_nat 19) (\<lambda>_. 0)))"

lemma same_outside_fold:
  "\<lbrakk>fst ` set xs \<subseteq> S; S \<subseteq> {..<2 ^ 64}\<rbrakk>
    \<Longrightarrow> same_outside S m (fold (\<lambda>(a, v) m. m(pt a := v)) xs m)"
  by (induction xs arbitrary: m) (auto simp: same_outside_def pt_inj subset_eq)

lemma small_lheap:
  "lheap small_ram 0x10000 0x9000 ([(True, 4)] @ (True, 32) # (True, 16) # (True, 32) # [(True, 4)]) {}"
proof -
  let ?gs = "[(True, 4)] @ (True, 32) # (True, 16) # (True, 32) # [(True, 4)] :: chunk list"
  let ?m = "link_heads (pt 0x9000) 1 (19 - 1) (mem_set (pt 0x9000) 0 (24 * of_nat 19) (\<lambda>_. 0))"
  have "free_list ?m 0x9000 {} (map (\<lambda>i. 0x9000 + 24 * i) [0..<19])"
    by (rule free_list_heads) simp_all
  moreover have "same_outside {0x10000..<0x10058} ?m small_ram"
    unfolding small_ram_def by (rule same_outside_fold) (auto simp: small_headers_def)
  ultimately have "free_list small_ram 0x9000 {} (map (\<lambda>i. 0x9000 + 24 * i) [0..<19])"
    by (rule free_list_same) (use heads_bounds [of _ "0x9000"] in fastforce)
  moreover have l: "ld16 m p = of_nat (unat (m p) + 256 * unat (m (p + 1)))" for m p
    by (simp add: ld16_def numeral_2_eq_2)
  have "tiled (fold (\<lambda>(a, v) m. m(pt a := v)) small_headers m) 0x10000 0 ?gs" for m
    by (simp add: small_headers_def header_def l alloc_bit_def pt_def)
  ultimately show ?thesis
    by (auto simp: lheap_def layout_def chunks_ok_def small_ram_def)
qed







text \<open>
  C32: On a well-formed heap \<open>mm_mallinfo\<close> counts what is there: the free bytes, the number of free
  chunks and the largest of them; used and free bytes add up to the arena, as the code's
  assertion demands.
\<close>

theorem mm_mallinfo_accounts:
  assumes "heap_ok A N cs h" "total cs + 8 < 2 ^ 31"
  shows "\<exists>i. mm_mallinfo h = Some i \<and> uordblks i + fordblks i = arena i \<and>
    arena i = int (total cs + 8) \<and> fordblks i = int (sum_list (avail cs)) \<and>
    ordblks i = int (length (avail cs)) \<and> mxordblk i = int (fold max (avail cs) 0)"
  using mm_mallinfo_ok [OF assms] used_avail [of cs] by simp

theorem mm_mallinfo_accounts_witness:
  "\<exists>h i. mm_mallinfo h = Some i \<and> arena i = 0x4000 \<and> uordblks i = 8 \<and> mxordblk i = 0x3FF8"
proof -
  obtain h where "heap_ok 0x10000 0x9000 [(False, 0x3FF8)] h" using demo_ok by blast
  from mm_mallinfo_accounts [OF this] show ?thesis by (fastforce simp: avail_def)
qed





text \<open>
  C34: A chunk of 16 bytes, which requests of at most 12 bytes get, is smaller than the 24 bytes of a
  free node. When it is freed between two allocated chunks, the \<open>blink\<close> pointer of its node
  overwrites the header of its successor (size, preceding and the first four bytes of the block).
\<close>

theorem free_of_small_block_damages_next:
  assumes "lheap (mm_ram h) A N (us @ (True, u) # (True, 16) # (True, t) # ys) {}"
    and "u < 2 ^ 15" "24 \<le> t" "x = A + total us + u" "mm_nodelist h = pt N"
  shows "\<exists>h' a. mm_free (pt (x + 4)) h = Some h' \<and> ld64 (mm_ram h') (pt (x + 16)) = pt a \<and>
    a \<in> heads N \<union> frees A (us @ (True, u) # (True, 16) # (True, t) # ys)"
  by (rule mm_free_small [OF assms])

theorem free_of_small_block_damages_next_witness:
  "\<exists>h h' a. mm_free (pt 0x10028) h = Some h' \<and> ld64 (mm_ram h') (pt 0x10034) = pt a \<and> a \<in> heads 0x9000"
  using free_of_small_block_damages_next [of "demo_heap\<lparr>mm_ram := small_ram\<rparr>" "0x10000" "0x9000"
      "[(True, 4)]" 32 32 "[(True, 4)]" "0x10024"]
    small_lheap by (auto simp: demo_heap_def)
section \<open>Pins\<close>

lemma sim_gpio_ready: "\<exists>s. aw_hal_gpio_init sim_pio (gpio_boot (\<lambda>_. 0)) = (0, s) \<and> gpio_ready s"
  by (rule aw_hal_gpio_init_ready) (simp add: sim_pio_def)

text \<open>
  C20: \<open>aw_hal_gpio_init\<close>, when memory is granted, leaves the driver ready: the 192 interrupt
  descriptors of the six banks carry the consecutive interrupt numbers from 141 and the pins from
  PB0 on, and every pin below the second port controller finds its register bank.
\<close>

theorem gpio_init_ready:
  assumes "\<forall>n h. fst (pio_malloc P n h)"
  shows "\<exists>s. aw_hal_gpio_init P (gpio_boot h) = (0, s) \<and> gpio_ready s"
  by (rule aw_hal_gpio_init_ready [OF assms])

theorem gpio_init_ready_witness:
  "\<exists>s. aw_hal_gpio_init sim_pio (gpio_boot (\<lambda>_. 0)) = (0, s) \<and> gpio_ready s"
  by (rule gpio_init_ready) (simp add: sim_pio_def)

text \<open>
  C16: Setting the function, the pull or the driving level of a pin below PL writes the value into
  the field of this pin, from which the reader of the field gets it back, and leaves every other
  field of every pin as it was.
\<close>

theorem gpio_fields_independent:
  assumes "pio_regs P conf" "gpio_ready s" "unat pin < 352" "fits f v"
  shows "\<exists>s'. set_pin P f pin v s = Some (0, s') \<and> gpio_ready s' \<and>
    conf_value P (param_of f) pin (Some x) s' = Some (0, Some v, s') \<and>
    (\<forall>g k. k < 352 \<and> (g, k) \<noteq> (f, unat pin) \<longrightarrow> pin_field conf g k (gp_hw s') = pin_field conf g k (gp_hw s))"
  by (rule pio.set_pin_get [OF pio.intro [OF assms(1)] assms(2-4)])

theorem gpio_fields_independent_witness:
  "\<exists>s s'. gpio_ready s \<and> set_pin sim_pio DRV 66 2 s = Some (0, s') \<and>
    conf_value sim_pio (param_of DRV) 66 (Some 0) s' = Some (0, Some 2, s')"
proof -
  obtain s :: "(u64 \<Rightarrow> u32) gpio" where s: "gpio_ready s" using sim_gpio_ready by blast
  have "fits DRV 2" by (simp add: fits_def mask_eq_decr_exp)
  then show ?thesis using gpio_fields_independent [OF sim_pio_regs s, of 66 DRV 2 0] s by auto
qed

text \<open>
  C17: After \<open>hal_gpio_irq_request\<close> of a free interrupt, an interrupt of its bank in which its pin is
  the lowest one pending calls the installed handler with the number of the interrupt and its data,
  and then acknowledges this pin and no other.
\<close>

theorem gpio_irq_reaches_handler:
  assumes "ready_with ds s" "k < 192" "gi_handle_irq (ds ! k) = bad_gpio_irq_handle" "pio_regs P conf"
  shows "\<exists>s1. hal_gpio_irq_request P (141 + of_nat k) (Some f) flags data s = Some (141 + int k, s1) \<and>
    (\<forall>h h1 v. pio_readl P (status_addr (k div 32)) h = (v, h1) \<longrightarrow> lowest_bit v = Some (k mod 32) \<longrightarrow>
       gpio_irq_handle P (85 + 2 * of_nat (k div 32)) (s1\<lparr>gp_hw := h\<rparr>) =
         Some (s1\<lparr>gp_hw := pio_writel P (push_bit (k mod 32) 1) (status_addr (k div 32))
           (pio_handler P f (141 + of_nat k) data h1)\<rparr>))"
proof -
  obtain s1 where s1: "hal_gpio_irq_request P (141 + of_nat k) (Some f) flags data s = Some (141 + int k, s1)"
    "ready_with (ds[k := take_slot (Some f) flags data (ds ! k)]) s1"
    using hal_gpio_irq_request_ready [OF assms(1,2,4)] by blast
  have k: "k div 32 < 6" "32 * (k div 32) + k mod 32 = k" "k < length ds"
    using assms(2) ready_withD(1) [OF assms(1)] by auto
  have x: "call_handler P (take_slot (Some f) flags data (ds ! k)) t =
      t\<lparr>gp_hw := pio_handler P f (141 + of_nat k) data (gp_hw t)\<rparr>" for t :: "'a gpio"
    using assms(3) ready_withD(2) [OF assms(1) assms(2)] by (simp add: call_handler_def take_slot_def)
  show ?thesis
    using s1(1) gpio_irq_handle_ready [OF ready_with_hw [OF s1(2)] k(1), of P] k(2,3) x
    by (auto simp: pio_write_def)
qed

theorem gpio_irq_reaches_handler_witness:
  "\<exists>s s1. hal_gpio_irq_request sim_pio 150 (Some 7) 1 42 s = Some (150, s1) \<and>
    gpio_irq_handle sim_pio 85 (s1\<lparr>gp_hw := (\<lambda>_. 0x200)\<rparr>) =
      Some (s1\<lparr>gp_hw := ((\<lambda>_. 0x200)(7 := 42))(0x02000234 := 0x200)\<rparr>)"
proof -
  let ?d = "sun8iw20p1_gpio_desc\<lparr>gd_irq_desc_size := 192\<rparr>"
  let ?ds = "map (new_irq_desc ?d) [0..<192]"
  let ?s = "\<lparr>platform_gpio_desc = [?d\<lparr>gd_irq_desc := Some ?ds\<rparr>], g_gpio_desc = True, gp_hw = (\<lambda>_. 0)\<rparr>"
  have "irqs_of ?ds = map (\<lambda>i. (141 + of_nat i, 32 + of_nat i)) [0..<192]"
    by (auto simp: irqs_of_def new_irq_desc_sun8iw20)
  then have r: "ready_with ?ds ?s" by (simp add: ready_with_def)
  have b: "gi_handle_irq (?ds ! 9) = bad_gpio_irq_handle" by (simp add: new_irq_desc_def Let_def)
  have l: "lowest_bit 0x200 = Some 9" by (simp add: lowest_bit_def upt_conv_Cons find_index.simps)
  obtain s1 where s1: "hal_gpio_irq_request sim_pio (141 + of_nat 9) (Some 7) 1 42 ?s = Some (141 + int 9, s1)"
    "\<forall>h h1 v. pio_readl sim_pio (status_addr (9 div 32)) h = (v, h1) \<longrightarrow> lowest_bit v = Some (9 mod 32) \<longrightarrow>
       gpio_irq_handle sim_pio (85 + 2 * of_nat (9 div 32)) (s1\<lparr>gp_hw := h\<rparr>) =
         Some (s1\<lparr>gp_hw := pio_writel sim_pio (push_bit (9 mod 32) 1) (status_addr (9 div 32))
           (pio_handler sim_pio 7 (141 + of_nat 9) 42 h1)\<rparr>)"
    using gpio_irq_reaches_handler [OF r _ b sim_pio_regs, of 7 1 42] by auto
  have rd: "pio_readl sim_pio (status_addr (9 div 32)) (\<lambda>_. 0x200) = (0x200, \<lambda>_. 0x200)" by (simp add: sim_pio_def)
  have "pio_writel sim_pio (push_bit (9 mod 32) 1) (status_addr (9 div 32)) (pio_handler sim_pio 7 (141 + of_nat 9) 42 (\<lambda>_. 0x200)) =
      ((\<lambda>_. 0x200)(7 := 42))(0x02000234 := 0x200)"
    by (simp add: sim_pio_def)
  then have "gpio_irq_handle sim_pio 85 (s1\<lparr>gp_hw := (\<lambda>_. 0x200)\<rparr>) =
      Some (s1\<lparr>gp_hw := ((\<lambda>_. 0x200)(7 := 42))(0x02000234 := 0x200)\<rparr>)"
    using s1(2) [rule_format, OF rd] l by simp
  then show ?thesis using s1(1) by auto
qed

text \<open>
  C15: On the GPIO driver, \<open>spi_pinctrl_init\<close> of the SPI driver sets PC2 to PC7 to function 2 and PD10
  to PD15 to function 4, all of them with driving level 2 and pull-up, and changes no field of any
  other pin.
\<close>

theorem spi_pins_on_gpio:
  assumes "pins_of_gpio G P" "pio_regs G conf" "gpio_ready (sp_hw s)" "sp_port s < 2"
  shows "\<exists>h. spi_pinctrl_init P s = (0, s\<lparr>sp_hw := h\<rparr>) \<and> gpio_ready h \<and>
    (\<forall>f n. n < 352 \<longrightarrow> pin_field conf f n (gp_hw h) = spi_pin_field f n (pin_field conf f n (gp_hw (sp_hw s))))"
  by (rule spi_pinctrl_on_gpio [OF assms])

definition gpio_pins_plat :: "'h gpio_plat \<Rightarrow> 'h gpio spi_plat" where
  "gpio_pins_plat G = idle_plat\<lparr>
     gpio_pinmux_set_function := (\<lambda>n m. gpio_call (hal_gpio_pinmux_set_function G (of_nat n) (of_nat m))),
     gpio_set_driving_level := (\<lambda>n m. gpio_call (hal_gpio_set_driving_level G (of_nat n) (of_nat m))),
     gpio_set_pull := (\<lambda>n m. gpio_call (hal_gpio_set_pull G (of_nat n) (of_nat m)))\<rparr>"

theorem spi_pins_on_gpio_witness:
  "\<exists>(s :: (u64 \<Rightarrow> u32) gpio spi) h. spi_pinctrl_init (gpio_pins_plat sim_pio) s = (0, s\<lparr>sp_hw := h\<rparr>) \<and>
    pin_field sim_cell FUNC 66 (gp_hw h) = 2"
proof -
  obtain g :: "(u64 \<Rightarrow> u32) gpio" where g: "gpio_ready g" using sim_gpio_ready by blast
  let ?s = "\<lparr>sp_result = 0, sp_irqnum = 31, sp_base = 0x04025000, sp_mode_type = MODE_TYPE_NULL,
     sp_pclk = 0, sp_bus_clk = 0, sp_mclk = 0, sp_reset = 0, sp_port = 0, sp_transfer = None, sp_hw = g\<rparr>"
  have p: "pins_of_gpio sim_pio (gpio_pins_plat sim_pio)"
    by (simp add: pins_of_gpio_def gpio_pins_plat_def)
  have "gpio_ready (sp_hw ?s)" "sp_port ?s < 2" using g by simp_all
  from spi_pins_on_gpio [OF p sim_pio_regs this]
  obtain h where h: "spi_pinctrl_init (gpio_pins_plat sim_pio) ?s = (0, ?s\<lparr>sp_hw := h\<rparr>)"
    "\<forall>f n. n < 352 \<longrightarrow> pin_field sim_cell f n (gp_hw h) = spi_pin_field f n (pin_field sim_cell f n (gp_hw g))"
    by auto
  have "pin_field sim_cell FUNC 66 (gp_hw h) = 2" using h(2) by (simp add: spi_pin_field_def spi_pin_def)
  then show ?thesis using h(1) by blast
qed

section \<open>Clocks\<close>

text \<open>
  C18: The two loops of \<open>ccu_mp_find_best\<close> end and find the best choice of dividers: none gives a
  rate that is nearer to the requested one without exceeding it; zeros mean that none gives a rate
  at all.
\<close>

theorem ccu_mp_find_best_optimal:
  assumes "max_m < 0xFFFFFFFF" "unat max_p < 2 ^ 31"
  shows "\<exists>m p b. ccu_mp_find_best parent rate max_m max_p = Some (m, p) \<and>
    best_of parent rate (divisors max_m max_p) (b, m, p)"
  by (rule ccu_mp_find_best_best [OF assms])

theorem ccu_mp_find_best_optimal_witness:
  "\<exists>m p b. ccu_mp_find_best 600000000 100000000 16 8 = Some (m, p) \<and>
    best_of 600000000 100000000 (divisors 16 8) (b, m, p)"
  by (rule ccu_mp_find_best_optimal) simp_all

text \<open>
  C19: A rate that is below everything the dividers can give: \<open>ccu_mp_set_rate\<close> reports success and
  overwrites the whole register of the clock with ones, the gate and the multiplexer included.
\<close>

theorem ccu_mp_set_rate_low_overwrites:
  assumes "mp_plain c" "reg_at P conf" "dv_shift (mp_m c) = 0"
    "\<forall>(m, p) \<in> divisors (mp_max_m c) (mp_max_p c). mp_rate parent m p = 0 \<or> rate < mp_rate parent m p"
  shows "\<exists>h'. ccu_mp_set_rate P c rate parent h = Some (0, h') \<and> conf h' (co_addr (mp_common c)) = 0xFFFFFFFF"
  by (rule ccu_mp_set_rate_too_low [OF assms])

theorem ccu_mp_set_rate_low_overwrites_witness:
  "\<exists>h'. ccu_mp_set_rate clk_cells spi0_clk 0 24000000 (\<lambda>_. 0) = Some (0, h') \<and>
    h' (co_addr (mp_common spi0_clk)) = 0xFFFFFFFF"
proof (rule ccu_mp_set_rate_low_overwrites [OF spi_clks_plain(1) d1_cells])
  show "\<forall>(m, p) \<in> divisors (mp_max_m spi0_clk) (mp_max_p spi0_clk).
      mp_rate 24000000 m p = 0 \<or> 0 < mp_rate 24000000 m p"
    by (auto simp: word_greater_zero_iff)
qed (simp add: spi0_clk_def spi_mp_clk_def)

text \<open>
  C14: Gates follow use. From clocks that are all off, after any sequence of \<open>hal_clock_enable\<close> and
  \<open>hal_clock_disable\<close> in which a clock is given up only by one who uses it, the gate of a clock is
  open exactly when the clock or one fed by it is in use.
\<close>

theorem clock_gates_follow_use:
  assumes "reg_at K conf" "gates_apart G" "clk_tree level s" "clks_idle s"
    "fair_calls (clk_root_list s) calls (\<lambda>_. 0)"
    "\<And>c. c \<in> set (clk_root_list s) \<Longrightarrow>
       switched (gate_enable K G c) (gate_disable K G c) (cc_ops (cores s c)) \<and> \<not> gate_open conf G c (ck_hw s)"
    "length calls + length (clk_root_list s) < 2 ^ 32 - 1"
  shows "\<exists>s'. run_clk_calls calls s = Some s' \<and> (\<forall>c \<in> set (clk_root_list s). gate_enable K G c \<noteq> None \<longrightarrow>
    gate_open conf G c (ck_hw s') =
      (\<exists>d \<in> set (clk_root_list s). 0 < uses calls (\<lambda>_. 0) d \<and> below (parent_of s) d c))"
  by (rule gates.calls_open_gates [OF gates.intro [OF assms(1,2)] assms(3-7)])

theorem clock_gates_follow_use_witness:
  "\<exists>s'. run_clk_calls [Clk_enable 77, Clk_enable 75, Clk_disable 75] d1_clks = Some s' \<and>
    gate_open (\<lambda>h. h) spi_gates 77 (ck_hw s')"
proof -
  let ?calls = "[Clk_enable 77, Clk_enable 75, Clk_disable 75]"
  have r: "clk_root_list d1_clks = [0, 5, 25, 75, 76, 77, 78]" by (simp add: d1_clks_def)
  obtain s' where s': "run_clk_calls ?calls d1_clks = Some s'"
    "\<forall>c \<in> set (clk_root_list d1_clks). gate_enable clk_cells spi_gates c \<noteq> None \<longrightarrow>
       gate_open (\<lambda>h. h) spi_gates c (ck_hw s') =
       (\<exists>d \<in> set (clk_root_list d1_clks). 0 < uses ?calls (\<lambda>_. 0) d \<and> below (parent_of d1_clks) d c)"
  proof -
    have f: "fair_calls (clk_root_list d1_clks) ?calls (\<lambda>_. 0)" "length ?calls + length (clk_root_list d1_clks) < 2 ^ 32 - 1"
      by (simp_all add: r)
    from clock_gates_follow_use [OF d1_cells spi_gates.apart d1_tree d1_idle f(1) d1_ops f(2)] that show thesis by blast
  qed
  have "0 < uses ?calls (\<lambda>_. 0) 77" "below (parent_of d1_clks) 77 77" by (simp_all add: below_self)
  then have "gate_open (\<lambda>h. h) spi_gates 77 (ck_hw s')"
    using s'(2) r by (auto simp: gate_enable_def spi_gates_def)
  then show ?thesis using s'(1) by blast
qed

text \<open>
  C13: The SPI driver on the clock and reset drivers: \<open>spi_clk_init\<close> succeeds, the module clock runs
  at the best rate its dividers give not above the requested one, the gates of the module and the
  bus clock are open, the reset line is released, and the counters are those of one more use of
  each clock.
\<close>

theorem spi_clocks_on_ccu:
  assumes "clocks_of_ccu K rs P" "reg_at K conf" "gates_apart G" "mp_plain k" "mux_plain k" "sp_port s < 2"
    "clk_core_get HAL_SUNXI_CCU (SUNXI_CLK_SPI (sp_port s)) (so_clks (sp_hw s)) = Some c"
    "clk_core_get HAL_SUNXI_CCU (SUNXI_CLK_BUS_SPI (sp_port s)) (so_clks (sp_hw s)) = Some b"
    "clk_core_get HAL_SUNXI_CCU SUNXI_CLK_PLL_SPI (so_clks (sp_hw s)) = Some q"
    "spi_clocks K conf G level k c b q (so_clks (sp_hw s)) u"
    "hal_reset_control_get True rs 0 (of_nat (SUNXI_CLK_RST_SPI (sp_port s))) = Some rc"
    "reset_line (rs ! rc_dev rc) (rc_id rc) = Some (ra, rb)" "gate_free G ra rb" "ra \<noteq> co_addr (mp_common k)"
    "\<exists>(m, p) \<in> divisors (mp_max_m k) (mp_max_p k).
      0 < mp_rate (cc_rate (cores (so_clks (sp_hw s)) q)) m p \<and>
      mp_rate (cc_rate (cores (so_clks (sp_hw s)) q)) m p \<le> ucast freq"
  shows "\<exists>s' r. spi_clk_init P freq s = (SPI_MASTER_OK, s') \<and>
    hal_clk_get_rate (Some c) (so_clks (sp_hw s')) = Some (r, so_clks (sp_hw s')) \<and> r \<le> freq \<and>
    (\<forall>(m, p) \<in> divisors (mp_max_m k) (mp_max_p k).
      mp_rate (cc_rate (cores (so_clks (sp_hw s)) q)) m p \<le> ucast freq \<longrightarrow>
      mp_rate (cc_rate (cores (so_clks (sp_hw s)) q)) m p \<le> ucast r) \<and>
    gate_open conf G c (ck_hw (so_clks (sp_hw s'))) \<and> gate_open conf G b (ck_hw (so_clks (sp_hw s'))) \<and>
    conf (ck_hw (so_clks (sp_hw s'))) ra AND rb = rb \<and>
    clk_driven (gate_enable K G) (gate_disable K G) (gate_open conf G) level (so_clks (sp_hw s')) (u(b := u b + 1, c := u c + 1))"
  by (rule spi_clk_init_on_ccu [OF assms])

theorem spi_clocks_on_ccu_witness:
  "\<exists>s' r. spi_clk_init (ccu_plat clk_cells [d1_resets]) 50000000 d1_port = (SPI_MASTER_OK, s') \<and>
    hal_clk_get_rate (Some 75) (so_clks (sp_hw s')) = Some (r, so_clks (sp_hw s')) \<and> r = 50000000 \<and>
    gate_open (\<lambda>h. h) spi_gates 75 (ck_hw (so_clks (sp_hw s')))"
proof -
  have p: "sp_port d1_port = 0" "so_clks (sp_hw d1_port) = d1_clks" "cc_rate (cores d1_clks 5) = 600000000"
    by (simp_all add: d1_port_def d1_clks_def d1_core_def)
  have ids: "SUNXI_CLK_SPI 0 = 75" "SUNXI_CLK_BUS_SPI 0 = 77" "SUNXI_CLK_RST_SPI 0 = 30"
    by (simp_all add: SUNXI_CLK_SPI_def SUNXI_CLK_BUS_SPI_def SUNXI_CLK_RST_SPI_def)
  let ?k = "so_clks (sp_hw d1_port)"
  have hyps: "sp_port d1_port < 2" "clk_core_get HAL_SUNXI_CCU (SUNXI_CLK_SPI (sp_port d1_port)) ?k = Some 75"
    "clk_core_get HAL_SUNXI_CCU (SUNXI_CLK_BUS_SPI (sp_port d1_port)) ?k = Some 77" "clk_core_get HAL_SUNXI_CCU SUNXI_CLK_PLL_SPI ?k = Some 5"
    "spi_clocks clk_cells (\<lambda>h. h) spi_gates d1_rank spi0_clk 75 77 5 ?k (\<lambda>_. 0)"
    "hal_reset_control_get True [d1_resets] 0 (of_nat (SUNXI_CLK_RST_SPI (sp_port d1_port))) =
      Some \<lparr>rc_dev = 0, rc_enable_count = 0, rc_id = 30\<rparr>"
    by (simp_all add: p ids d1_lookups d1_spi_clocks d1_reset_lines)
  have line: "reset_line ([d1_resets] ! rc_dev \<lparr>rc_dev = 0, rc_enable_count = 0, rc_id = 30\<rparr>)
      (rc_id \<lparr>rc_dev = 0, rc_enable_count = 0, rc_id = 30\<rparr>) = Some (0x0200196c, 0x10000)"
    "0x0200196c \<noteq> co_addr (mp_common spi0_clk)"
    by (simp_all add: d1_reset_lines spi0_clk_def spi_mp_clk_def co_addr_def)
  have some: "\<exists>(m, p) \<in> divisors (mp_max_m spi0_clk) (mp_max_p spi0_clk).
      0 < mp_rate (cc_rate (cores ?k 5)) m p \<and> mp_rate (cc_rate (cores ?k 5)) m p \<le> ucast (50000000 :: u32)"
    using d1_spi0_rate by (intro bexI [of _ "(12, 1)"]) (simp_all add: p)
  obtain s' r where r: "spi_clk_init (ccu_plat clk_cells [d1_resets]) 50000000 d1_port = (SPI_MASTER_OK, s')"
    "hal_clk_get_rate (Some 75) (so_clks (sp_hw s')) = Some (r, so_clks (sp_hw s'))" "r \<le> 50000000"
    "\<forall>(m, p) \<in> divisors (mp_max_m spi0_clk) (mp_max_p spi0_clk).
      mp_rate 600000000 m p \<le> ucast (50000000 :: u32) \<longrightarrow> mp_rate 600000000 m p \<le> ucast r"
    "gate_open (\<lambda>h. h) spi_gates 75 (ck_hw (so_clks (sp_hw s')))"
    using spi_clocks_on_ccu [OF ccu_plat_clocks d1_cells spi_gates.apart spi_clks_plain(1) spi0_mux_plain hyps line(1)
      d1_reset_lines(3) line(2) some]
    unfolding p by blast
  have "50000000 \<le> (ucast r :: u64)" using r(4) d1_spi0_rate by fastforce
  then have "50000000 \<le> r" by (simp add: word_le_nat_alt unsigned_ucast_eq) (erule le_trans, simp)
  then show ?thesis using r(1-3,5) by (auto intro: antisym)
qed

end
